(* ===== verification/Prelude.thy ===== *)
theory Prelude imports Main "HOL-Library.Multiset" begin

text \<open>
  What the components share: the collections of simplification rules, database tables as lists of
  rows with the SQL statements the code issues on them, JavaScript's stable \<open>Array.sort\<close> with the
  contract of a comparator as a locale, JavaScript values and maps, and transition systems with
  their reachable states.

  Strings are lists of characters. Where the code orders strings by their UTF-8 bytes the list
  is read as these bytes; where it counts or splits, all the characters involved are ASCII.
\<close>

named_theorems row_simps \<open>field laws of a component's row updates\<close>
named_theorems guard_defs \<open>guards of a component's operations, unfolded together\<close>


lemma list_all_member: "list_all P xs \<Longrightarrow> x \<in> set xs \<Longrightarrow> P x"
  by (induction xs) auto


section \<open>Tables\<close>

text \<open>
  A table is the list of its rows in insertion order. \<open>UPDATE .. SET f WHERE p\<close> maps over the rows,
  \<open>RETURNING\<close> gives the rows the update changed, \<open>DELETE\<close> filters and \<open>SELECT .. LIMIT 1\<close> finds.
\<close>

type_synonym 'r table = "'r list"

definition db_update :: "('r \<Rightarrow> bool) \<Rightarrow> ('r \<Rightarrow> 'r) \<Rightarrow> 'r table \<Rightarrow> 'r table" where
  "db_update p f t = map (\<lambda>r. if p r then f r else r) t"

definition db_returning :: "('r \<Rightarrow> bool) \<Rightarrow> ('r \<Rightarrow> 'r) \<Rightarrow> 'r table \<Rightarrow> 'r list" where
  "db_returning p f t = map f (filter p t)"

definition db_delete :: "('r \<Rightarrow> bool) \<Rightarrow> 'r table \<Rightarrow> 'r table" where
  "db_delete p t = filter (\<lambda>r. \<not> p r) t"

definition db_find :: "('r \<Rightarrow> bool) \<Rightarrow> 'r table \<Rightarrow> 'r option" where
  "db_find p t = List.find p t"

definition unique_by :: "('r \<Rightarrow> 'k) \<Rightarrow> 'r table \<Rightarrow> bool" where
  "unique_by key t \<longleftrightarrow> distinct (map key t)"

lemma db_update_simps [simp]:
  "db_update p f [] = []"
  "db_update p f (r # t) = (if p r then f r else r) # db_update p f t"
  by (simp_all add: db_update_def)

lemma db_delete_simps [simp]:
  "db_delete p [] = []"
  "db_delete p (r # t) = (if p r then db_delete p t else r # db_delete p t)"
  by (simp_all add: db_delete_def)

lemma db_find_simps [simp]:
  "db_find p [] = None"
  "db_find p (r # t) = (if p r then Some r else db_find p t)"
  by (simp_all add: db_find_def)

lemma db_returning_simps [simp]:
  "db_returning p f [] = []"
  "db_returning p f (r # t) = (if p r then f r # db_returning p f t else db_returning p f t)"
  by (simp_all add: db_returning_def)

lemma length_db_update [simp]: "length (db_update p f t) = length t"
  by (simp add: db_update_def)

lemma set_db_update: "set (db_update p f t) = {r \<in> set t. \<not> p r} \<union> f ` {r \<in> set t. p r}"
  by (auto simp: db_update_def)

lemma set_db_delete [simp]: "set (db_delete p t) = {r \<in> set t. \<not> p r}"
  by (auto simp: db_delete_def)

lemma db_returning_Nil_iff: "db_returning p f t = [] \<longleftrightarrow> (\<forall>r \<in> set t. \<not> p r)"
  by (auto simp: db_returning_def filter_empty_conv)

lemma db_find_SomeD: "db_find p t = Some r \<Longrightarrow> r \<in> set t \<and> p r"
  by (auto simp: db_find_def find_Some_iff)

lemma db_find_None_iff: "db_find p t = None \<longleftrightarrow> (\<forall>r \<in> set t. \<not> p r)"
  by (auto simp: db_find_def find_None_iff)

lemma db_find_filter: "db_find p t = (case filter p t of [] \<Rightarrow> None | r # _ \<Rightarrow> Some r)"
  by (induction t) auto

lemma db_update_append [simp]: "db_update p f (t @ u) = db_update p f t @ db_update p f u"
  by (simp add: db_update_def)

lemma db_update_id: "(\<forall>r \<in> set t. \<not> p r) \<Longrightarrow> db_update p f t = t"
  by (induction t) auto

lemma map_db_update_same: "(\<And>r. p r \<Longrightarrow> k (f r) = k r) \<Longrightarrow> map k (db_update p f t) = map k t"
  by (induction t) auto

lemma unique_by_update: "(\<And>r. p r \<Longrightarrow> k (f r) = k r) \<Longrightarrow> unique_by k t \<Longrightarrow> unique_by k (db_update p f t)"
  by (simp add: unique_by_def map_db_update_same)

lemma unique_by_delete: "unique_by k t \<Longrightarrow> unique_by k (db_delete p t)"
  by (simp add: unique_by_def db_delete_def distinct_map_filter)

lemma unique_by_append1: "unique_by k t \<Longrightarrow> k r \<notin> k ` set t \<Longrightarrow> unique_by k (t @ [r])"
  by (auto simp: unique_by_def)

lemma unique_byD: "unique_by k t \<Longrightarrow> r \<in> set t \<Longrightarrow> s \<in> set t \<Longrightarrow> k r = k s \<Longrightarrow> r = s"
  by (auto simp: unique_by_def distinct_map inj_on_def)

lemma db_find_key:
  assumes "unique_by k t" "r \<in> set t"
  shows "db_find (\<lambda>s. k s = k r) t = Some r"
proof (cases "db_find (\<lambda>s. k s = k r) t")
  case None
  with assms(2) show ?thesis by (auto simp: db_find_None_iff)
next
  case (Some s)
  with assms show ?thesis by (auto dest: db_find_SomeD unique_byD)
qed

text \<open>At most one row of a table with a unique key is changed by an update that names a key.\<close>

lemma db_returning_unique:
  assumes "unique_by k t" and "\<And>r. p r \<Longrightarrow> k r = a"
  shows "db_returning p f t = (case db_find p t of None \<Rightarrow> [] | Some r \<Rightarrow> [f r])"
  using assms(1)
proof (induction t)
  case (Cons r t)
  have "unique_by k t" using Cons.prems by (simp add: unique_by_def)
  moreover have "p r \<Longrightarrow> db_returning p f t = []"
    using Cons.prems assms(2) by (auto simp: db_returning_Nil_iff unique_by_def)
  ultimately show ?case using Cons.IH by (auto split: option.splits)
qed simp

lemma set_db_update_unique:
  assumes "unique_by k t" "r \<in> set t" "p r" "\<And>x. p x \<Longrightarrow> k x = k r"
  shows "set (db_update p f t) = insert (f r) {x \<in> set t. k x \<noteq> k r}"
proof -
  have "{x \<in> set t. p x} = {r}" using assms unique_byD [OF assms(1)] by blast
  moreover have "{x \<in> set t. \<not> p x} = {x \<in> set t. k x \<noteq> k r}"
    using assms unique_byD [OF assms(1)] by blast
  ultimately show ?thesis by (simp add: set_db_update)
qed

lemma db_returning_ex: "db_returning p f t \<noteq> [] \<longleftrightarrow> (\<exists>r \<in> set t. p r)"
  by (auto simp: db_returning_Nil_iff)

lemma db_find_update_other:
  assumes "\<And>r. p r \<Longrightarrow> \<not> q r" "\<And>r. p r \<Longrightarrow> \<not> q (f r)"
  shows "db_find q (db_update p f t) = db_find q t"
  by (induction t) (auto dest: assms)

lemma db_find_update_same:
  assumes "\<And>r. p r \<Longrightarrow> q (f r) = q r"
  shows "db_find q (db_update p f t) = map_option (\<lambda>r. if p r then f r else r) (db_find q t)"
  by (induction t) (auto dest: assms)

lemma db_find_update_key:
  assumes "\<And>r. k (f r) = k r"
  shows "db_find (\<lambda>r. k r = a) (db_update p f t) = map_option (\<lambda>r. if p r then f r else r) (db_find (\<lambda>r. k r = a) t)"
  using assms by (intro db_find_update_same) simp

lemma db_find_append: "db_find p (t @ [r]) = (case db_find p t of None \<Rightarrow> if p r then Some r else None | Some s \<Rightarrow> Some s)"
  by (induction t) auto

lemma db_find_delete_key:
  assumes "unique_by k t"
  shows "db_find (\<lambda>r. k r = a) (db_delete p t) =
    (case db_find (\<lambda>r. k r = a) t of None \<Rightarrow> None | Some r \<Rightarrow> if p r then None else Some r)"
  using assms
proof (induction t)
  case (Cons r t)
  then have "unique_by k t" "k r = a \<Longrightarrow> db_find (\<lambda>r. k r = a) t = None"
    by (auto simp: unique_by_def db_find_None_iff image_iff)
  with Cons.IH show ?case by auto
qed simp


section \<open>JavaScript sorting\<close>

text \<open>
  \<open>Array.prototype.sort\<close> is stable (ECMAScript 2019); for a consistent comparator the stable sorted
  permutation is unique, so insertion sort computes it.
\<close>

fun insert_by :: "('a \<Rightarrow> 'a \<Rightarrow> 'n::{zero,ord}) \<Rightarrow> 'a \<Rightarrow> 'a list \<Rightarrow> 'a list" where
  "insert_by cmp x [] = [x]"
| "insert_by cmp x (y # ys) = (if cmp x y \<le> 0 then x # y # ys else y # insert_by cmp x ys)"

fun js_sort :: "('a \<Rightarrow> 'a \<Rightarrow> 'n::{zero,ord}) \<Rightarrow> 'a list \<Rightarrow> 'a list" where
  "js_sort cmp [] = []"
| "js_sort cmp (x # xs) = insert_by cmp x (js_sort cmp xs)"

lemma mset_insert_by [simp]: "mset (insert_by cmp x xs) = add_mset x (mset xs)"
  by (induction xs) auto

lemma mset_js_sort [simp]: "mset (js_sort cmp xs) = mset xs"
  by (induction xs) auto

lemma set_js_sort [simp]: "set (js_sort cmp xs) = set xs"
  by (metis mset_js_sort set_mset_mset)

lemma length_js_sort [simp]: "length (js_sort cmp xs) = length xs"
  by (metis mset_js_sort size_mset)

lemma js_sort_Nil_iff [simp]: "js_sort cmp xs = [] \<longleftrightarrow> xs = []"
  by (metis length_0_conv length_js_sort)

lemma js_sort_map: "(\<And>x y. cmp (f x) (f y) = cmp x y) \<Longrightarrow> js_sort cmp (map f xs) = map f (js_sort cmp xs)"
proof (induction xs)
  case (Cons x xs)
  have "insert_by cmp (f x) (map f ys) = map f (insert_by cmp x ys)" for ys by (induction ys) (simp_all add: Cons.prems)
  then show ?case using Cons by simp
qed simp

text \<open>JavaScript's \<open>a || b\<close> on comparator results: the next criterion decides a tie.\<close>

definition js_or :: "'n::zero \<Rightarrow> 'n \<Rightarrow> 'n" where
  "js_or a b = (if a \<noteq> 0 then a else b)"

text \<open>The contract the runtime asks of a comparator (ECMAScript, SortCompare).\<close>

locale comparator =
  fixes cmp :: "'a \<Rightarrow> 'a \<Rightarrow> 'n::linordered_idom"
  assumes cmp_flip: "0 < cmp x y \<longleftrightarrow> cmp y x < 0"
    and cmp_trans: "cmp x y \<le> 0 \<Longrightarrow> cmp y z \<le> 0 \<Longrightarrow> cmp x z \<le> 0"
begin

lemma cmp_total: "cmp x y \<le> 0 \<or> cmp y x \<le> 0"
  using cmp_flip [of x y] by linarith

lemma cmp_refl: "cmp x x = 0"
  using cmp_flip [of x x] by (metis linorder_cases order.asym)

lemma sorted_insert_by:
  "sorted_wrt (\<lambda>x y. cmp x y \<le> 0) xs \<Longrightarrow> sorted_wrt (\<lambda>x y. cmp x y \<le> 0) (insert_by cmp x xs)"
proof (induction xs)
  case (Cons y ys)
  have set_ins: "set (insert_by cmp x ys) = insert x (set ys)"
    by (metis mset_insert_by set_mset_add_mset_insert set_mset_mset)
  show ?case
  proof (cases "cmp x y \<le> 0")
    case True
    with Cons.prems show ?thesis by (auto intro: cmp_trans)
  next
    case False
    with cmp_total have "cmp y x \<le> 0" by blast
    with False Cons show ?thesis by (auto simp: set_ins)
  qed
qed simp

lemma sorted_js_sort: "sorted_wrt (\<lambda>x y. cmp x y \<le> 0) (js_sort cmp xs)"
  by (induction xs) (auto intro: sorted_insert_by)

lemma js_sort_head_least:
  assumes "js_sort cmp xs = y # ys" "x \<in> set xs"
  shows "cmp y x \<le> 0"
proof -
  have "x = y \<or> x \<in> set ys" using assms set_js_sort [of cmp xs] by auto
  then show ?thesis using sorted_js_sort [of xs] assms(1) cmp_refl [of y] by auto
qed

lemma filter_insert_by:
  "sorted_wrt (\<lambda>x y. cmp x y \<le> 0) xs \<Longrightarrow> filter P (insert_by cmp x xs) = (if P x then insert_by cmp x (filter P xs) else filter P xs)"
proof (induction xs)
  case (Cons y ys)
  have "filter P (insert_by cmp x ys) = (if P x then insert_by cmp x (filter P ys) else filter P ys)" using Cons by simp
  moreover have "insert_by cmp x zs = x # zs" if "cmp x y \<le> 0" "set zs \<subseteq> set ys" for zs
    using that Cons.prems cmp_trans by (cases zs) auto
  ultimately show ?case using filter_is_subset [of P ys] by auto
qed simp

lemma filter_js_sort: "filter P (js_sort cmp xs) = js_sort cmp (filter P xs)"
  by (induction xs) (simp_all add: filter_insert_by sorted_js_sort)

text \<open>When ties are decided, the result does not depend on the order the rows arrived in.\<close>

lemma js_sort_order_independent:
  assumes "mset xs = mset ys"
    and tie: "\<And>x y. x \<in> set xs \<Longrightarrow> y \<in> set xs \<Longrightarrow> cmp x y = 0 \<Longrightarrow> x = y"
  shows "js_sort cmp xs = js_sort cmp ys"
proof -
  have "us = vs" if "mset us = mset vs" "sorted_wrt (\<lambda>x y. cmp x y \<le> 0) us"
    "sorted_wrt (\<lambda>x y. cmp x y \<le> 0) vs" "set us \<subseteq> set xs" for us vs
    using that
  proof (induction us arbitrary: vs)
    case (Cons u us)
    obtain v vs' where vs: "vs = v # vs'" using Cons.prems(1) by (cases vs) auto
    have mem: "set vs = set (u # us)" using Cons.prems(1) by (metis set_mset_mset)
    have "v = u \<or> v \<in> set us" "u = v \<or> u \<in> set vs'" using mem vs by auto
    then have "cmp u v \<le> 0" "cmp v u \<le> 0"
      using Cons.prems(2,3) vs cmp_refl [of u] by auto
    then have "cmp u v = 0" using cmp_flip [of v u] by (metis antisym_conv2 linorder_not_less)
    moreover have "u \<in> set xs" "v \<in> set xs" using Cons.prems(4) mem vs by auto
    ultimately have "u = v" using tie by blast
    with Cons vs show ?case by auto
  qed simp
  moreover have "mset (js_sort cmp xs) = mset (js_sort cmp ys)" using assms(1) by simp
  ultimately show ?thesis using sorted_js_sort by simp
qed

end

text \<open>A comparator of sort keys is one of the values they are computed from.\<close>

locale key_comparator = comparator cmp for cmp :: "'k \<Rightarrow> 'k \<Rightarrow> 'n::linordered_idom" +
  fixes key :: "'a \<Rightarrow> 'k"

sublocale key_comparator \<subseteq> keyed: comparator "\<lambda>x y. cmp (key x) (key y)"
  by unfold_locales (auto intro: cmp_flip cmp_trans simp: cmp_flip)

lemma comparator_or:
  assumes c: "comparator c" and d: "comparator d"
  shows "comparator (\<lambda>x y. js_or (c x y) (d x y))"
proof -
  note cf = comparator.cmp_flip [OF c] and ct = comparator.cmp_trans [OF c]
  note df = comparator.cmp_flip [OF d] and dt = comparator.cmp_trans [OF d]
  have zero: "c x y = 0 \<longleftrightarrow> c y x = 0" for x y
    using cf [of x y] cf [of y x] by (metis linorder_neqE_linordered_idom less_irrefl)
  show ?thesis
  proof
    fix x y
    show "0 < js_or (c x y) (d x y) \<longleftrightarrow> js_or (c y x) (d y x) < 0"
      using cf [of x y] df [of x y] zero [of x y] by (auto simp: js_or_def)
  next
    fix x y z
    assume xy: "js_or (c x y) (d x y) \<le> 0" and yz: "js_or (c y z) (d y z) \<le> 0"
    have cxy: "c x y \<le> 0" and cyz: "c y z \<le> 0"
      using xy yz by (auto simp: js_or_def split: if_splits)
    have cxz: "c x z \<le> 0" using ct cxy cyz by blast
    show "js_or (c x z) (d x z) \<le> 0"
    proof (cases "c x z = 0")
      case True
      then have "c z x \<le> 0" using zero [of x z] by simp
      have "c y x \<le> 0" using ct [OF cyz \<open>c z x \<le> 0\<close>] .
      moreover have "c z y \<le> 0" using ct [OF \<open>c z x \<le> 0\<close> cxy] .
      ultimately have "c x y = 0" "c y z = 0"
        using cxy cyz cf [of y x] cf [of z y] cf [of x y] cf [of y z]
        by (metis antisym_conv2 linorder_not_less)+
      with xy yz True show ?thesis using dt by (auto simp: js_or_def)
    next
      case False
      with cxz show ?thesis by (simp add: js_or_def)
    qed
  qed
qed

text \<open>Subtraction of numbers, and the lexicographic comparison of strings.\<close>

interpretation num_cmp: comparator "\<lambda>x y. x - y :: 'n::linordered_idom"
  by unfold_locales auto

fun lex_cmp :: "('c::linorder) list \<Rightarrow> 'c list \<Rightarrow> int" where
  "lex_cmp [] [] = 0"
| "lex_cmp [] (_ # _) = -1"
| "lex_cmp (_ # _) [] = 1"
| "lex_cmp (x # xs) (y # ys) = (if x < y then -1 else if y < x then 1 else lex_cmp xs ys)"

lemma lex_cmp_eq_0 [simp]: "lex_cmp xs ys = 0 \<longleftrightarrow> xs = ys"
  by (induction xs ys rule: lex_cmp.induct) auto

lemma lex_cmp_neg: "lex_cmp ys xs = - lex_cmp xs ys"
  by (induction xs ys rule: lex_cmp.induct) auto

lemma lex_cmp_Nil [simp]: "lex_cmp [] ys \<le> 0" "lex_cmp xs [] \<le> 0 \<longleftrightarrow> xs = []"
  by (cases ys; simp) (cases xs; simp)

lemma lex_cmp_trans: "lex_cmp xs ys \<le> 0 \<Longrightarrow> lex_cmp ys zs \<le> 0 \<Longrightarrow> lex_cmp xs zs \<le> 0"
proof (induction xs ys arbitrary: zs rule: lex_cmp.induct)
  case (4 x xs y ys)
  then show ?case by (cases zs) (auto split: if_splits)
qed auto

interpretation lex: comparator lex_cmp
proof
  show "0 < lex_cmp x y \<longleftrightarrow> lex_cmp y x < 0" for x y :: "'a list"
    using lex_cmp_neg [of x y] by linarith
qed (rule lex_cmp_trans)


section \<open>Transition systems\<close>

text \<open>
  A component whose operations interleave is a start predicate and a step relation; what holds in
  every reachable state is proved once per system through the locale \<open>invariant_system\<close>.
\<close>

inductive reach :: "('s \<Rightarrow> bool) \<Rightarrow> ('s \<Rightarrow> 's \<Rightarrow> bool) \<Rightarrow> 's \<Rightarrow> bool" for init step where
  reach_init: "init s \<Longrightarrow> reach init step s"
| reach_step: "reach init step s \<Longrightarrow> step s t \<Longrightarrow> reach init step t"

locale invariant_system =
  fixes init :: "'s \<Rightarrow> bool" and step :: "'s \<Rightarrow> 's \<Rightarrow> bool" and inv :: "'s \<Rightarrow> bool"
  assumes inv_init: "init s \<Longrightarrow> inv s"
    and inv_step: "inv s \<Longrightarrow> step s t \<Longrightarrow> inv t"
begin

lemma reach_inv: "reach init step s \<Longrightarrow> inv s"
  by (induction rule: reach.induct) (auto intro: inv_init inv_step)

lemma steps_inv: "inv s \<Longrightarrow> step\<^sup>*\<^sup>* s t \<Longrightarrow> inv t"
  by (rotate_tac, induction rule: rtranclp_induct) (auto intro: inv_step)

end

text \<open>A measure that no step decreases never decreases over a run.\<close>

locale monotone_system =
  fixes step :: "'s \<Rightarrow> 's \<Rightarrow> bool" and level :: "'s \<Rightarrow> 'n::preorder"
  assumes step_level: "step s t \<Longrightarrow> level s \<le> level t"
begin

lemma steps_level: "step\<^sup>*\<^sup>* s t \<Longrightarrow> level s \<le> level t"
  by (induction rule: rtranclp_induct) (auto intro: step_level order_trans)

end


section \<open>JavaScript maps\<close>

text \<open>
  \<open>Map\<close> keeps its keys in the order they were first inserted; \<open>set\<close> on a present key keeps its
  place. \<open>??\<close> replaces a missing value.
\<close>

type_synonym ('k, 'v) js_map = "('k \<times> 'v) list"

abbreviation js_get :: "('k, 'v) js_map \<Rightarrow> 'k \<Rightarrow> 'v option" where
  "js_get m k \<equiv> map_of m k"

fun js_set :: "'k \<Rightarrow> 'v \<Rightarrow> ('k, 'v) js_map \<Rightarrow> ('k, 'v) js_map" where
  "js_set k v [] = [(k, v)]"
| "js_set k v ((k', v') # m) = (if k = k' then (k, v) # m else (k', v') # js_set k v m)"

definition js_delete :: "'k \<Rightarrow> ('k, 'v) js_map \<Rightarrow> ('k, 'v) js_map" where
  "js_delete k m = filter (\<lambda>(k', _). k' \<noteq> k) m"

definition js_default :: "'v option \<Rightarrow> 'v \<Rightarrow> 'v" where
  "js_default x d = (case x of None \<Rightarrow> d | Some v \<Rightarrow> v)"

lemma js_default_simps [simp]: "js_default None d = d" "js_default (Some v) d = v"
  by (simp_all add: js_default_def)

lemma js_get_set [simp]: "js_get (js_set k v m) = (js_get m)(k \<mapsto> v)"
  by (induction m) (auto simp: fun_eq_iff)

lemma js_get_delete [simp]: "js_get (js_delete k m) = (js_get m)(k := None)"
  by (induction m) (auto simp: js_delete_def fun_eq_iff)

lemma keys_js_set [simp]: "fst ` set (js_set k v m) = insert k (fst ` set m)"
  by (induction k v m rule: js_set.induct) (simp_all add: insert_commute)

lemma distinct_keys_set: "distinct (map fst m) \<Longrightarrow> distinct (map fst (js_set k v m))"
  by (induction m) auto

lemma distinct_keys_delete: "distinct (map fst m) \<Longrightarrow> distinct (map fst (js_delete k m))"
  by (simp add: js_delete_def distinct_map_filter)

lemma length_js_set: "length (js_set k v m) = (if js_get m k = None then Suc (length m) else length m)"
  by (induction m) auto

text \<open>The members of a \<open>Set\<close> built from a list, in the order they were first added.\<close>

definition js_unique :: "'a list \<Rightarrow> 'a list" where
  "js_unique xs = rev (remdups (rev xs))"

lemma set_js_unique [simp]: "set (js_unique xs) = set xs"
  by (simp add: js_unique_def)

lemma distinct_js_unique [simp]: "distinct (js_unique xs)"
  by (simp add: js_unique_def)

end
