(* ===== verification/RunStatus.thy ===== *)
theory RunStatus imports Prelude begin

text \<open>
  The run life cycle: \<open>lib/run-status.ts\<close> (the statuses, the transition table and its queries), the
  status groups of \<open>lib/utils.ts\<close> the scheduler and the run actions work with, the execution phases of
  \<open>worker/phases.ts\<close> and the crash predicates of \<open>worker/chaos.ts\<close>. A status is a string, as in the
  code, where a value read from the database may be unknown to the table.
\<close>

type_synonym status = string


section \<open>The transition table\<close>

definition RUN_STATUSES :: "status list" where
  "RUN_STATUSES =
    [''pending'', ''fetching'', ''fetching_completed'', ''pre_plan_running'',
     ''pre_plan_completed'', ''queuing'', ''plan_queued'', ''planning'', ''planned'',
     ''cost_estimating'', ''cost_estimated'', ''policy_checking'', ''policy_override'',
     ''policy_soft_failed'', ''policy_checked'', ''post_plan_running'', ''post_plan_completed'',
     ''planned_and_saved'', ''planned_and_finished'', ''confirmed'', ''apply_queued'', ''applying'',
     ''applied'', ''errored'', ''canceled'', ''discarded'', ''force_canceled'', ''unreachable'']"

definition RUN_TERMINAL_STATUSES :: "status list" where
  "RUN_TERMINAL_STATUSES =
    [''applied'', ''errored'', ''discarded'', ''force_canceled'', ''planned_and_finished'',
     ''unreachable'']"

definition isTerminalRunStatus :: "status \<Rightarrow> bool" where
  "isTerminalRunStatus status \<longleftrightarrow> status \<in> set RUN_TERMINAL_STATUSES"

definition PLAN_INCOMPLETE_SET :: "status list" where
  "PLAN_INCOMPLETE_SET =
    [''pending'', ''fetching'', ''fetching_completed'', ''pre_plan_running'',
     ''pre_plan_completed'', ''queuing'', ''plan_queued'', ''planning'']"

definition isPlanIncompleteRunStatus :: "status \<Rightarrow> bool" where
  "isPlanIncompleteRunStatus status \<longleftrightarrow> status \<in> set PLAN_INCOMPLETE_SET"

definition EDGES :: "(status, status list) js_map" where
  "EDGES =
  [(''pending'', [''fetching'', ''errored'', ''canceled'', ''discarded'', ''force_canceled'', ''unreachable'']),
   (''fetching'', [''fetching_completed'', ''errored'', ''canceled'', ''discarded'', ''force_canceled'']),
   (''fetching_completed'', [''pre_plan_running'', ''errored'', ''canceled'', ''discarded'', ''force_canceled'']),
   (''pre_plan_running'', [''pre_plan_completed'', ''errored'', ''canceled'', ''discarded'', ''force_canceled'']),
   (''pre_plan_completed'', [''queuing'', ''errored'', ''canceled'', ''discarded'', ''force_canceled'']),
   (''queuing'', [''plan_queued'', ''errored'', ''canceled'', ''discarded'', ''force_canceled'']),
   (''plan_queued'', [''planning'', ''pending'', ''errored'', ''canceled'', ''discarded'', ''force_canceled'']),
   (''planning'', [''planned'', ''planned_and_saved'', ''planned_and_finished'', ''policy_soft_failed'',
      ''apply_queued'', ''errored'', ''canceled'', ''discarded'', ''force_canceled'']),
   (''planned'', [''cost_estimating'', ''confirmed'', ''apply_queued'', ''errored'', ''canceled'',
      ''discarded'', ''force_canceled'']),
   (''cost_estimating'', [''cost_estimated'', ''errored'', ''canceled'', ''discarded'', ''force_canceled'']),
   (''cost_estimated'', [''policy_checking'', ''errored'', ''canceled'', ''discarded'', ''force_canceled'']),
   (''policy_checking'', [''policy_checked'', ''policy_override'', ''policy_soft_failed'', ''errored'', ''canceled'',
      ''discarded'', ''force_canceled'']),
   (''policy_override'', [''policy_soft_failed'', ''errored'', ''canceled'', ''discarded'', ''force_canceled'']),
   (''policy_soft_failed'', [''planned'', ''errored'', ''canceled'', ''discarded'', ''force_canceled'']),
   (''policy_checked'', [''post_plan_running'', ''errored'', ''canceled'', ''discarded'', ''force_canceled'']),
   (''post_plan_running'', [''post_plan_completed'', ''errored'', ''canceled'', ''discarded'', ''force_canceled'']),
   (''post_plan_completed'', [''confirmed'', ''planned_and_saved'', ''planned_and_finished'', ''planned'', ''errored'',
      ''canceled'', ''discarded'', ''force_canceled'']),
   (''planned_and_saved'', [''confirmed'', ''apply_queued'', ''errored'', ''canceled'', ''discarded'', ''force_canceled'']),
   (''planned_and_finished'', []),
   (''confirmed'', [''apply_queued'', ''errored'', ''canceled'', ''discarded'', ''force_canceled'']),
   (''apply_queued'', [''applying'', ''pending'', ''errored'', ''canceled'', ''discarded'', ''force_canceled'']),
   (''applying'', [''applied'', ''errored'', ''canceled'', ''discarded'', ''force_canceled'']),
   (''applied'', []),
   (''errored'', []),
   (''canceled'', [''pending'']),
   (''discarded'', []),
   (''force_canceled'', []),
   (''unreachable'', [])]"

definition canTransitionRunStatus :: "status \<Rightarrow> status \<Rightarrow> bool" where
  "canTransitionRunStatus from to = (case js_get EDGES from of
     None \<Rightarrow> False
   | Some targets \<Rightarrow> to \<in> set targets)"

definition nextRunStatuses :: "status \<Rightarrow> status list" where
  "nextRunStatuses from = js_default (js_get EDGES from) []"


section \<open>Status groups\<close>

definition FINAL_RUN_STATUSES :: "status list" where
  "FINAL_RUN_STATUSES =
    [''applied'', ''planned_and_finished'', ''discarded'', ''errored'', ''canceled'',
     ''force_canceled'', ''unreachable'']"

definition CAPACITY_PENDING_STATUSES :: "status list" where
  "CAPACITY_PENDING_STATUSES =
    [''pending'', ''queuing'', ''plan_queued'', ''confirmed'', ''apply_queued'']"

definition CAPACITY_RUNNING_STATUSES :: "status list" where
  "CAPACITY_RUNNING_STATUSES =
    [''fetching'', ''fetching_completed'', ''pre_plan_running'', ''pre_plan_completed'',
     ''planning'', ''cost_estimating'', ''cost_estimated'', ''policy_checking'',
     ''policy_override'', ''policy_checked'', ''post_plan_running'', ''post_plan_completed'',
     ''applying'']"

definition WORKSPACE_BLOCKING_RUN_STATUSES :: "status list" where
  "WORKSPACE_BLOCKING_RUN_STATUSES =
    [''fetching'', ''fetching_completed'', ''pre_plan_running'', ''pre_plan_completed'',
     ''queuing'', ''plan_queued'', ''planning'', ''planned'', ''cost_estimating'',
     ''cost_estimated'', ''policy_checking'', ''policy_override'', ''policy_checked'',
     ''post_plan_running'', ''post_plan_completed'', ''policy_soft_failed'', ''confirmed'',
     ''apply_queued'', ''applying'']"

definition DISCARDABLE_RUN_STATUSES :: "status list" where
  "DISCARDABLE_RUN_STATUSES =
    [''pending'', ''planned'', ''planned_and_saved'', ''policy_soft_failed'', ''unreachable'']"


section \<open>Execution phases and crash recovery\<close>

datatype execution_phase =
  Queued | Planning | Cost_estimating | Policy_checking | Planned | Confirmed | Applying | Applied
| Errored | Canceled | Discarded

definition PHASE_ORDER :: "execution_phase list" where
  "PHASE_ORDER =
    [Queued, Planning, Cost_estimating, Policy_checking, Planned, Confirmed, Applying, Applied]"

definition TERMINAL_PHASES :: "execution_phase list" where
  "TERMINAL_PHASES = [Applied, Errored, Discarded]"

definition DURABLE_PHASES :: "execution_phase list" where
  "DURABLE_PHASES = [Planning, Cost_estimating, Policy_checking, Planned, Confirmed, Applying]"

fun index_of :: "'a list \<Rightarrow> 'a \<Rightarrow> nat option" where
  "index_of [] x = None"
| "index_of (y # ys) x = (if y = x then Some 0 else map_option Suc (index_of ys x))"

definition phaseOrder :: "execution_phase \<Rightarrow> nat option" where
  "phaseOrder phase = index_of PHASE_ORDER phase"

definition isTerminalPhase :: "execution_phase \<Rightarrow> bool" where
  "isTerminalPhase phase \<longleftrightarrow> phase \<in> set TERMINAL_PHASES"

definition isDurablePhase :: "execution_phase \<Rightarrow> bool" where
  "isDurablePhase phase \<longleftrightarrow> phase \<in> set DURABLE_PHASES \<or> phase \<in> set TERMINAL_PHASES"

datatype phase_error = Unknown_execution_phase execution_phase

definition checkpointPhase :: "execution_phase \<Rightarrow> phase_error + execution_phase" where
  "checkpointPhase phase =
    (if phase \<notin> set PHASE_ORDER \<and> phase \<notin> set TERMINAL_PHASES \<and> phase \<noteq> Canceled \<and> phase \<noteq> Discarded
     then Inl (Unknown_execution_phase phase) else Inr phase)"

definition crashSafe :: "execution_phase \<Rightarrow> bool" where
  "crashSafe phase \<longleftrightarrow> isDurablePhase phase"

definition canRecoverAfterCrash :: "status \<Rightarrow> bool" where
  "canRecoverAfterCrash status \<longleftrightarrow> \<not> isTerminalRunStatus status \<and> status \<noteq> ''discarded''"

definition postCrashTransitionAllowed :: "status \<Rightarrow> status \<Rightarrow> bool" where
  "postCrashTransitionAllowed from to \<longleftrightarrow> canTransitionRunStatus from to"

definition shouldRetryAfterCrash :: "status \<Rightarrow> bool" where
  "shouldRetryAfterCrash status \<longleftrightarrow>
     \<not> isTerminalRunStatus status \<and> status \<noteq> ''discarded'' \<and> status \<noteq> ''force_canceled''"

definition needsCrashRecovery :: "execution_phase \<Rightarrow> bool" where
  "needsCrashRecovery phase \<longleftrightarrow> \<not> isTerminalPhase phase"


section \<open>Properties of the table\<close>

lemma nextRunStatuses_iff: "to \<in> set (nextRunStatuses from) \<longleftrightarrow> canTransitionRunStatus from to"
  by (auto simp: nextRunStatuses_def canTransitionRunStatus_def split: option.splits)

lemma map_of_keys: "map_of m k = Some v \<Longrightarrow> k \<in> set (map fst m)"
  by (induction m) (auto split: if_splits)

text \<open>A statement about all transitions is checked on the rows of the table.\<close>

lemma transition_cases:
  assumes "canTransitionRunStatus from to"
  obtains tos where "(from, tos) \<in> set EDGES" "to \<in> set tos"
  using assms by (auto simp: canTransitionRunStatus_def dest: map_of_SomeD split: option.splits)

lemma transition_checked:
  assumes "canTransitionRunStatus from to"
    and "list_all (\<lambda>(a, bs). list_all (P a) bs) EDGES"
  shows "P from to"
  using assms by (auto simp: list_all_iff elim!: transition_cases)

lemma EDGES_keys: "map fst EDGES = RUN_STATUSES"
  by (simp add: EDGES_def RUN_STATUSES_def)

lemma terminal_rows: "list_all (\<lambda>(a, bs). (bs = []) = isTerminalRunStatus a) EDGES"
  by code_simp

lemma unknown_no_next:
  assumes "s \<notin> set RUN_STATUSES"
  shows "nextRunStatuses s = []"
proof -
  have "js_get EDGES s = None" using assms EDGES_keys map_of_keys by (metis option.exhaust)
  then show ?thesis by (simp add: nextRunStatuses_def)
qed

lemma terminal_known: "isTerminalRunStatus s \<Longrightarrow> s \<in> set RUN_STATUSES"
proof -
  have "list_all (\<lambda>s. s \<in> set RUN_STATUSES) RUN_TERMINAL_STATUSES" by code_simp
  then show "isTerminalRunStatus s \<Longrightarrow> s \<in> set RUN_STATUSES"
    by (auto simp: list_all_iff isTerminalRunStatus_def)
qed

text \<open>What cannot happen along a path is shown by a set of statuses the path cannot leave.\<close>

lemma path_stays:
  assumes "(\<lambda>a b. canTransitionRunStatus a b \<and> b \<notin> set avoid)\<^sup>*\<^sup>* s t"
    and "s \<in> set inside"
    and "list_all (\<lambda>(a, bs). a \<in> set inside \<longrightarrow> list_all (\<lambda>b. b \<in> set inside \<or> b \<in> set avoid) bs) EDGES"
  shows "t \<in> set inside"
  using assms(1)
proof (induction rule: rtranclp_induct)
  case base
  show ?case by (rule assms(2))
next
  case (step t u)
  then obtain us where "(t, us) \<in> set EDGES" "u \<in> set us" by (auto elim: transition_cases)
  with step assms(3) show ?case by (fastforce simp: list_all_iff)
qed

text \<open>A status is terminal exactly when it is one of the known statuses and has no outgoing
  transition; an unknown status has none either and is not terminal.\<close>

lemma terminal_iff_no_next: "isTerminalRunStatus s \<longleftrightarrow> s \<in> set RUN_STATUSES \<and> nextRunStatuses s = []"
proof (cases "js_get EDGES s")
  case None
  then have "s \<notin> fst ` set EDGES" by (simp add: map_of_eq_None_iff)
  then have "s \<notin> set RUN_STATUSES" using EDGES_keys by (metis list.set_map)
  then show ?thesis using terminal_known by blast
next
  case (Some ts)
  then have "s \<in> set RUN_STATUSES" using map_of_keys EDGES_keys by metis
  moreover have "(ts = []) = isTerminalRunStatus s"
    using terminal_rows map_of_SomeD [OF Some] by (auto simp: list_all_iff)
  ultimately show ?thesis by (simp add: nextRunStatuses_def Some)
qed


lemma target_known: "canTransitionRunStatus a b \<Longrightarrow> b \<in> set RUN_STATUSES"
proof -
  assume tr: "canTransitionRunStatus a b"
  have "list_all (\<lambda>(a, bs). list_all (\<lambda>b. b \<in> set RUN_STATUSES) bs) EDGES" by code_simp
  with tr show ?thesis by (rule transition_checked)
qed

text \<open>A legal transition joins two different known statuses and never leaves a terminal one.\<close>

lemma transition_well_formed:
  "canTransitionRunStatus a b \<Longrightarrow>
   a \<in> set RUN_STATUSES \<and> b \<in> set RUN_STATUSES \<and> a \<noteq> b \<and> \<not> isTerminalRunStatus a"
proof -
  assume tr: "canTransitionRunStatus a b"
  have "list_all (\<lambda>(a, bs). list_all (\<lambda>b. a \<in> set RUN_STATUSES \<and> b \<in> set RUN_STATUSES \<and> a \<noteq> b \<and>
    \<not> isTerminalRunStatus a) bs) EDGES" by code_simp
  with tr show ?thesis by (rule transition_checked)
qed

lemma transition_well_formed_witness:
  "''planning'' \<in> set RUN_STATUSES \<and> ''apply_queued'' \<in> set RUN_STATUSES \<and>
   ''planning'' \<noteq> ''apply_queued'' \<and> \<not> isTerminalRunStatus ''planning''"
proof -
  have "canTransitionRunStatus ''planning'' ''apply_queued''" by code_simp
  then show ?thesis by (rule transition_well_formed)
qed

text \<open>The position of a status in the list of statuses, a measure of the progress of a run.\<close>

definition status_rank :: "status \<Rightarrow> nat" where
  "status_rank s = js_default (index_of RUN_STATUSES s) (length RUN_STATUSES)"

text \<open>The transitions that take a run back: a re-queue, a policy override and the return to \<open>planned\<close>
  after the checks.\<close>

definition backward :: "status \<Rightarrow> status \<Rightarrow> bool" where
  "backward a b \<longleftrightarrow>
     b = ''pending'' \<and> a \<in> {''plan_queued'', ''apply_queued'', ''canceled''} \<or>
     b = ''planned'' \<and> a \<in> {''policy_soft_failed'', ''post_plan_completed''}"

lemma rank_forward: "canTransitionRunStatus a b \<Longrightarrow> \<not> backward a b \<Longrightarrow> status_rank a < status_rank b"
proof -
  assume tr: "canTransitionRunStatus a b"
  have "list_all (\<lambda>(a, bs). list_all (\<lambda>b. backward a b \<or> status_rank a < status_rank b) bs) EDGES"
    by code_simp
  with tr have "backward a b \<or> status_rank a < status_rank b" by (rule transition_checked)
  then show "\<not> backward a b \<Longrightarrow> status_rank a < status_rank b" by simp
qed



text \<open>C36: no path of transitions from \<open>pending\<close> reaches \<open>applied\<close> around \<open>planning\<close>, \<open>apply_queued\<close> or
  \<open>applying\<close>: an applied run was planned, queued for apply and executed.\<close>

lemma applied_was_planned_and_queued:
  assumes "x \<in> {''planning'', ''apply_queued'', ''applying''}"
    and "(\<lambda>a b. canTransitionRunStatus a b \<and> b \<noteq> x)\<^sup>*\<^sup>* ''pending'' s"
  shows "s \<noteq> ''applied''"
proof -
  let ?start = "[''pending'', ''fetching'', ''fetching_completed'', ''pre_plan_running'',
    ''pre_plan_completed'', ''queuing'', ''plan_queued'', ''errored'', ''canceled'', ''discarded'',
    ''force_canceled'', ''unreachable'']"
  let ?mid = "?start @ [''planning'', ''planned'', ''planned_and_saved'', ''planned_and_finished'',
    ''policy_soft_failed'', ''cost_estimating'', ''cost_estimated'', ''policy_checking'', ''policy_checked'',
    ''policy_override'', ''post_plan_running'', ''post_plan_completed'', ''confirmed'']"
  have closed:
    "list_all (\<lambda>(a, bs). a \<in> set ?start \<longrightarrow> list_all (\<lambda>b. b \<in> set ?start \<or> b \<in> set [''planning'']) bs) EDGES"
    "list_all (\<lambda>(a, bs). a \<in> set ?mid \<longrightarrow> list_all (\<lambda>b. b \<in> set ?mid \<or> b \<in> set [''apply_queued'']) bs) EDGES"
    "list_all (\<lambda>(a, bs). a \<in> set (''apply_queued'' # ?mid) \<longrightarrow>
       list_all (\<lambda>b. b \<in> set (''apply_queued'' # ?mid) \<or> b \<in> set [''applying'']) bs) EDGES"
    by code_simp+
  have path: "(\<lambda>a b. canTransitionRunStatus a b \<and> b \<notin> set [x])\<^sup>*\<^sup>* ''pending'' s"
    using assms(2) by simp
  from assms(1) consider "x = ''planning''" | "x = ''apply_queued''" | "x = ''applying''" by auto
  then show ?thesis
  proof cases
    case 1
    have "''pending'' \<in> set ?start" by code_simp
    moreover have "''applied'' \<notin> set ?start" by code_simp
    ultimately show ?thesis using path_stays [OF _ _ closed(1)] path 1 by blast
  next
    case 2
    have "''pending'' \<in> set ?mid" by code_simp
    moreover have "''applied'' \<notin> set ?mid" by code_simp
    ultimately show ?thesis using path_stays [OF _ _ closed(2)] path 2 by blast
  next
    case 3
    have "''pending'' \<in> set (''apply_queued'' # ?mid)" by code_simp
    moreover have "''applied'' \<notin> set (''apply_queued'' # ?mid)" by code_simp
    ultimately show ?thesis using path_stays [OF _ _ closed(3)] path 3 by blast
  qed
qed

lemma applied_was_planned_and_queued_witness:
  "(\<lambda>a b. canTransitionRunStatus a b \<and> b \<noteq> ''planning'')\<^sup>*\<^sup>* ''pending'' ''fetching'' \<and>
   ''fetching'' \<noteq> ''applied''"
proof -
  have "canTransitionRunStatus ''pending'' ''fetching''" by code_simp
  then have "(\<lambda>a b. canTransitionRunStatus a b \<and> b \<noteq> ''planning'')\<^sup>*\<^sup>* ''pending'' ''fetching''"
    by (intro r_into_rtranclp) simp
  with applied_was_planned_and_queued [of "''planning''"] show ?thesis by blast
qed

text \<open>C16: the soft-failure gate: a run whose policy check failed softly is not applied unless it is
  overridden (back to \<open>planned\<close>) or started again (back to \<open>pending\<close>).\<close>

lemma soft_failed_needs_override:
  assumes "(\<lambda>a b. canTransitionRunStatus a b \<and> b \<noteq> ''planned'' \<and> b \<noteq> ''pending'')\<^sup>*\<^sup>*
    ''policy_soft_failed'' s"
  shows "s \<in> {''policy_soft_failed'', ''errored'', ''canceled'', ''discarded'', ''force_canceled''}"
proof -
  let ?rest = "[''policy_soft_failed'', ''errored'', ''canceled'', ''discarded'', ''force_canceled'']"
  have path: "(\<lambda>a b. canTransitionRunStatus a b \<and> b \<notin> set [''planned'', ''pending''])\<^sup>*\<^sup>*
    ''policy_soft_failed'' s" using assms by simp
  have start: "''policy_soft_failed'' \<in> set ?rest" by code_simp
  have "list_all (\<lambda>(a, bs). a \<in> set ?rest \<longrightarrow>
    list_all (\<lambda>b. b \<in> set ?rest \<or> b \<in> set [''planned'', ''pending'']) bs) EDGES" by code_simp
  then have "s \<in> set ?rest" by (rule path_stays [OF path start])
  then show ?thesis by simp
qed

lemma soft_failed_needs_override_witness:
  "''discarded'' \<in> {''policy_soft_failed'', ''errored'', ''canceled'', ''discarded'', ''force_canceled''}"
proof (rule soft_failed_needs_override)
  have "canTransitionRunStatus ''policy_soft_failed'' ''discarded''" by code_simp
  then show "(\<lambda>a b. canTransitionRunStatus a b \<and> b \<noteq> ''planned'' \<and> b \<noteq> ''pending'')\<^sup>*\<^sup>*
    ''policy_soft_failed'' ''discarded''" by (intro r_into_rtranclp) simp
qed

text \<open>The scheduler's groups partition the statuses: every known status is in exactly one of the
  final statuses, the two capacity groups and the resting statuses, and no final status blocks a
  workspace.\<close>

lemma status_groups_partition:
  assumes "s \<in> set RUN_STATUSES"
  shows "length (filter (\<lambda>group. s \<in> set group)
     [FINAL_RUN_STATUSES, CAPACITY_PENDING_STATUSES, CAPACITY_RUNNING_STATUSES,
      [''planned'', ''planned_and_saved'', ''policy_soft_failed'']]) = 1 \<and>
   (s \<in> set FINAL_RUN_STATUSES \<longleftrightarrow> isTerminalRunStatus s \<or> s = ''canceled'') \<and>
   \<not> (s \<in> set FINAL_RUN_STATUSES \<and> s \<in> set WORKSPACE_BLOCKING_RUN_STATUSES)" (is "?P s")
proof -
  have "list_all ?P RUN_STATUSES" by code_simp
  then show ?thesis using assms by (rule list_all_member)
qed

lemma status_groups_partition_witness:
  "''canceled'' \<in> set FINAL_RUN_STATUSES \<and> \<not> isTerminalRunStatus ''canceled''"
proof -
  have "''canceled'' \<in> set RUN_STATUSES" by code_simp
  note status_groups_partition [OF this]
  moreover have "\<not> isTerminalRunStatus ''canceled''" by code_simp
  ultimately show ?thesis by blast
qed

text \<open>The crash predicates say the same: recovery and retry are the non-terminal statuses.\<close>

lemma crash_recovery_iff_not_terminal:
  "canRecoverAfterCrash s \<longleftrightarrow> \<not> isTerminalRunStatus s"
  "shouldRetryAfterCrash s \<longleftrightarrow> \<not> isTerminalRunStatus s"
proof -
  have "isTerminalRunStatus ''discarded''" "isTerminalRunStatus ''force_canceled''" by code_simp+
  then show "canRecoverAfterCrash s \<longleftrightarrow> \<not> isTerminalRunStatus s"
    "shouldRetryAfterCrash s \<longleftrightarrow> \<not> isTerminalRunStatus s"
    by (auto simp: canRecoverAfterCrash_def shouldRetryAfterCrash_def)
qed

lemma checkpointPhase_total: "checkpointPhase p = Inr p"
  by (cases p) (simp_all add: checkpointPhase_def PHASE_ORDER_def TERMINAL_PHASES_def)

text \<open>Every recoverable status has a legal way to be settled: \<open>errored\<close>, or \<open>pending\<close> from \<open>canceled\<close>.\<close>

lemma recoverable_has_exit:
  assumes "s \<in> set RUN_STATUSES" "canRecoverAfterCrash s"
  shows "postCrashTransitionAllowed s ''errored'' \<or> s = ''canceled'' \<and> postCrashTransitionAllowed s ''pending''"
proof -
  have "list_all (\<lambda>s. \<not> canRecoverAfterCrash s \<or> postCrashTransitionAllowed s ''errored'' \<or>
    s = ''canceled'' \<and> postCrashTransitionAllowed s ''pending'') RUN_STATUSES" by code_simp
  with assms show ?thesis by (auto simp: list_all_iff)
qed

end
