(* ===== verification/ExecutionLease.thy ===== *)
theory ExecutionLease imports RunStatus begin

text \<open>
  The run execution lease of \<open>lib/execution-lease.ts\<close> and \<open>lib/lease-deadline.ts\<close>: the ownership columns of
  the tables \<open>runs\<close> and \<open>workspaces\<close>, the transactions that claim, renew, re-phase, clear and release a
  lease, the fence every authoritative write checks, and the local life cycle around a piece of work.

  The database clock and \<open>performance.now()\<close> are arguments. A transaction is one step that either
  commits or leaves the tables as they were; what a transaction read in an earlier statement is an
  argument of its own, so that a stale read is a case of the model.
\<close>

section \<open>Rows\<close>

datatype run_execution_phase = Plan_phase | Apply_phase

record lease_identity =
  nodeId :: string
  instanceId :: string

record execution_lease =
  l_runId :: string
  l_workspaceId :: string
  l_phase :: run_execution_phase
  l_ownerNodeId :: string
  l_ownerInstanceId :: string
  l_fencingToken :: int
  l_heartbeatAt :: int
  l_expiresAt :: int

record run_row =
  r_id :: string
  r_workspaceId :: string
  r_status :: status
  r_planOnly :: bool
  r_savePlan :: bool
  r_createdAt :: int
  r_statusTimestamps :: "(string, string) js_map"
  r_scheduledAt :: "int option"
  r_ownerNodeId :: "string option"
  r_ownerInstanceId :: "string option"
  r_fencingToken :: int
  r_leaseExpiresAt :: "int option"
  r_leaseHeartbeatAt :: "int option"
  r_executionPhase :: "run_execution_phase option"

record workspace_row =
  w_id :: string
  w_executionRunId :: "string option"
  w_ownerNodeId :: "string option"
  w_ownerInstanceId :: "string option"
  w_fencingToken :: "int option"
  w_leaseExpiresAt :: "int option"
  w_leaseHeartbeatAt :: "int option"

record lease_db =
  db_runs :: "run_row table"
  db_workspaces :: "workspace_row table"

definition RUN_EXECUTION_LEASE_TTL_MS :: int where "RUN_EXECUTION_LEASE_TTL_MS = 30000"
definition RUN_EXECUTION_LEASE_RENEW_MS :: int where "RUN_EXECUTION_LEASE_RENEW_MS = 5000"

datatype lease_error = Lease_unavailable string | Stale_lease string | Work_failed

text \<open>SQL comparisons with a column that may be NULL: NULL satisfies neither.\<close>

definition sql_lte :: "int option \<Rightarrow> int \<Rightarrow> bool" where
  "sql_lte c n = (case c of None \<Rightarrow> False | Some x \<Rightarrow> x \<le> n)"

definition sql_gt :: "int option \<Rightarrow> int \<Rightarrow> bool" where
  "sql_gt c n = (case c of None \<Rightarrow> False | Some x \<Rightarrow> n < x)"

lemma sql_simps [simp]:
  "sql_lte None n = False" "sql_lte (Some x) n = (x \<le> n)"
  "sql_gt None n = False" "sql_gt (Some x) n = (n < x)"
  by (simp_all add: sql_lte_def sql_gt_def)


section \<open>Conditions\<close>

definition run_owned_by :: "execution_lease \<Rightarrow> run_row \<Rightarrow> bool" where
  "run_owned_by l r \<longleftrightarrow> r_id r = l_runId l \<and> r_ownerNodeId r = Some (l_ownerNodeId l) \<and>
     r_ownerInstanceId r = Some (l_ownerInstanceId l) \<and> r_fencingToken r = l_fencingToken l"

definition workspace_owned_by :: "execution_lease \<Rightarrow> workspace_row \<Rightarrow> bool" where
  "workspace_owned_by l w \<longleftrightarrow> w_id w = l_workspaceId l \<and> w_executionRunId w = Some (l_runId l) \<and>
     w_ownerNodeId w = Some (l_ownerNodeId l) \<and> w_ownerInstanceId w = Some (l_ownerInstanceId l) \<and>
     w_fencingToken w = Some (l_fencingToken l)"

definition exactRunLeaseCondition :: "int \<Rightarrow> execution_lease \<Rightarrow> run_row \<Rightarrow> bool" where
  "exactRunLeaseCondition now l r \<longleftrightarrow> run_owned_by l r \<and> sql_gt (r_leaseExpiresAt r) now"

definition exactWorkspaceLeaseCondition :: "int \<Rightarrow> execution_lease \<Rightarrow> workspace_row \<Rightarrow> bool" where
  "exactWorkspaceLeaseCondition now l w \<longleftrightarrow> workspace_owned_by l w \<and> sql_gt (w_leaseExpiresAt w) now"

definition runExecutionFenceCondition ::
  "bool \<Rightarrow> int \<Rightarrow> execution_lease option \<Rightarrow> (run_row \<Rightarrow> bool) \<Rightarrow> run_row \<Rightarrow> bool" where
  "runExecutionFenceCondition ha now current base r = (case (ha, current) of
     (True, Some l) \<Rightarrow> base r \<and> r_ownerNodeId r = Some (l_ownerNodeId l) \<and>
       r_ownerInstanceId r = Some (l_ownerInstanceId l) \<and> r_fencingToken r = l_fencingToken l \<and>
       sql_gt (r_leaseExpiresAt r) now
   | _ \<Rightarrow> base r)"

definition workspaceExecutionFenceCondition ::
  "bool \<Rightarrow> int \<Rightarrow> execution_lease option \<Rightarrow> (workspace_row \<Rightarrow> bool) \<Rightarrow> workspace_row \<Rightarrow> bool" where
  "workspaceExecutionFenceCondition ha now current base w = (case (ha, current) of
     (True, Some l) \<Rightarrow> base w \<and> w_executionRunId w = Some (l_runId l) \<and>
       w_ownerNodeId w = Some (l_ownerNodeId l) \<and> w_ownerInstanceId w = Some (l_ownerInstanceId l) \<and>
       w_fencingToken w = Some (l_fencingToken l) \<and> sql_gt (w_leaseExpiresAt w) now
   | _ \<Rightarrow> base w)"

text \<open>The two conditional no-op writes: both must find their row, at the times they are executed.\<close>

definition assertRunExecutionFenceTx :: "int \<Rightarrow> int \<Rightarrow> execution_lease \<Rightarrow> lease_db \<Rightarrow> lease_error + lease_db" where
  "assertRunExecutionFenceTx now now' l d =
    (let setRun = (\<lambda>r. r\<lparr>r_fencingToken := l_fencingToken l\<rparr>);
         setWs = (\<lambda>w. w\<lparr>w_fencingToken := Some (l_fencingToken l)\<rparr>) in
     if db_returning (exactRunLeaseCondition now l) setRun (db_runs d) = [] then Inl (Stale_lease (l_runId l))
     else if db_returning (exactWorkspaceLeaseCondition now' l) setWs (db_workspaces d) = []
     then Inl (Stale_lease (l_runId l))
     else Inr (d\<lparr>db_runs := db_update (exactRunLeaseCondition now l) setRun (db_runs d),
       db_workspaces := db_update (exactWorkspaceLeaseCondition now' l) setWs (db_workspaces d)\<rparr>))"


section \<open>Transactions\<close>

definition set_run_claim :: "lease_identity \<Rightarrow> int \<Rightarrow> int \<Rightarrow> int \<Rightarrow> run_execution_phase \<Rightarrow> run_row \<Rightarrow> run_row" where
  "set_run_claim identity token expires now phase r = r\<lparr>r_ownerNodeId := Some (nodeId identity),
     r_ownerInstanceId := Some (instanceId identity), r_fencingToken := token,
     r_leaseExpiresAt := Some expires, r_leaseHeartbeatAt := Some now, r_executionPhase := Some phase\<rparr>"

definition set_workspace_claim :: "string \<Rightarrow> lease_identity \<Rightarrow> int \<Rightarrow> int \<Rightarrow> int \<Rightarrow> workspace_row \<Rightarrow> workspace_row" where
  "set_workspace_claim runId identity token expires now w = w\<lparr>w_executionRunId := Some runId,
     w_ownerNodeId := Some (nodeId identity), w_ownerInstanceId := Some (instanceId identity),
     w_fencingToken := Some token, w_leaseExpiresAt := Some expires, w_leaseHeartbeatAt := Some now\<rparr>"

definition clear_run :: "run_row \<Rightarrow> run_row" where
  "clear_run r = r\<lparr>r_ownerNodeId := None, r_ownerInstanceId := None, r_leaseExpiresAt := None,
     r_leaseHeartbeatAt := None, r_executionPhase := None\<rparr>"

definition clear_workspace :: "workspace_row \<Rightarrow> workspace_row" where
  "clear_workspace w = w\<lparr>w_executionRunId := None, w_ownerNodeId := None, w_ownerInstanceId := None,
     w_fencingToken := None, w_leaseExpiresAt := None, w_leaseHeartbeatAt := None\<rparr>"

text \<open>
  The prior owner the claim compares against: none, an expired owner, or (\<open>None\<close>) a live or a
  partial owner, for which the claim gives up.
\<close>

definition priorOwnerCondition :: "int \<Rightarrow> run_row \<Rightarrow> (run_row \<Rightarrow> bool) option" where
  "priorOwnerCondition now run =
    (if r_ownerNodeId run = None \<and> r_ownerInstanceId run = None
     then Some (\<lambda>r. r_ownerNodeId r = None \<and> r_ownerInstanceId r = None)
     else case (r_ownerNodeId run, r_ownerInstanceId run) of
       (Some n, Some i) \<Rightarrow>
         if sql_lte (r_leaseExpiresAt run) now
         then Some (\<lambda>r. r_ownerNodeId r = Some n \<and> r_ownerInstanceId r = Some i \<and> sql_lte (r_leaseExpiresAt r) now)
         else None
     | _ \<Rightarrow> None)"

definition claimCondition :: "int \<Rightarrow> run_row \<Rightarrow> run_row \<Rightarrow> bool" where
  "claimCondition now run r = (case priorOwnerCondition now run of
     None \<Rightarrow> False
   | Some prior \<Rightarrow> r_id r = r_id run \<and> r_fencingToken r = r_fencingToken run \<and> prior r)"

definition workspaceClaimable :: "int \<Rightarrow> string \<Rightarrow> string \<Rightarrow> lease_identity \<Rightarrow> int \<Rightarrow> workspace_row \<Rightarrow> bool" where
  "workspaceClaimable now workspaceId runId identity token w \<longleftrightarrow> w_id w = workspaceId \<and>
    (w_executionRunId w = None \<or>
     w_executionRunId w = Some runId \<and> w_ownerNodeId w = Some (nodeId identity) \<and>
       w_ownerInstanceId w = Some (instanceId identity) \<and> w_fencingToken w = Some token \<or>
     sql_lte (w_leaseExpiresAt w) now)"

text \<open>\<open>run\<close> is the row the transaction's first statement read.\<close>

definition claim_commit ::
  "run_row \<Rightarrow> run_execution_phase \<Rightarrow> lease_identity \<Rightarrow> int \<Rightarrow> int \<Rightarrow> lease_db \<Rightarrow> execution_lease option \<times> lease_db" where
  "claim_commit run phase identity now ttlMs d =
    (let expiresAt = now + ttlMs;
         token = r_fencingToken run + 1;
         cond = claimCondition now run;
         wcond = workspaceClaimable now (r_workspaceId run) (r_id run) identity token;
         setRun = set_run_claim identity token expiresAt now phase;
         setWs = set_workspace_claim (r_id run) identity token expiresAt now in
     if db_returning cond setRun (db_runs d) = [] then (None, d)
     else if db_returning wcond setWs (db_workspaces d) = [] then (None, d)
     else (Some \<lparr>l_runId = r_id run, l_workspaceId = r_workspaceId run, l_phase = phase,
                 l_ownerNodeId = nodeId identity, l_ownerInstanceId = instanceId identity,
                 l_fencingToken = token, l_heartbeatAt = now, l_expiresAt = expiresAt\<rparr>,
           d\<lparr>db_runs := db_update cond setRun (db_runs d),
             db_workspaces := db_update wcond setWs (db_workspaces d)\<rparr>))"

definition claimRunExecutionLease ::
  "string \<Rightarrow> run_execution_phase \<Rightarrow> lease_identity \<Rightarrow> int \<Rightarrow> int \<Rightarrow> lease_db \<Rightarrow> execution_lease option \<times> lease_db" where
  "claimRunExecutionLease runId phase identity now ttlMs d =
    (case db_find (\<lambda>r. r_id r = runId) (db_runs d) of
       None \<Rightarrow> (None, d)
     | Some run \<Rightarrow> claim_commit run phase identity now ttlMs d)"

definition set_run_expiry :: "int \<Rightarrow> int \<Rightarrow> run_row \<Rightarrow> run_row" where
  "set_run_expiry expires now r = r\<lparr>r_leaseExpiresAt := Some expires, r_leaseHeartbeatAt := Some now\<rparr>"

definition set_workspace_expiry :: "int \<Rightarrow> int \<Rightarrow> workspace_row \<Rightarrow> workspace_row" where
  "set_workspace_expiry expires now w = w\<lparr>w_leaseExpiresAt := Some expires, w_leaseHeartbeatAt := Some now\<rparr>"

definition renewRunExecutionLease ::
  "execution_lease \<Rightarrow> int \<Rightarrow> int \<Rightarrow> lease_db \<Rightarrow> execution_lease option \<times> lease_db" where
  "renewRunExecutionLease l now ttlMs d =
    (let expiresAt = now + ttlMs;
         cond = exactRunLeaseCondition now l;
         wcond = exactWorkspaceLeaseCondition now l in
     if db_returning cond (set_run_expiry expiresAt now) (db_runs d) = [] then (None, d)
     else if db_returning wcond (set_workspace_expiry expiresAt now) (db_workspaces d) = [] then (None, d)
     else (Some (l\<lparr>l_heartbeatAt := now, l_expiresAt := expiresAt\<rparr>),
           d\<lparr>db_runs := db_update cond (set_run_expiry expiresAt now) (db_runs d),
             db_workspaces := db_update wcond (set_workspace_expiry expiresAt now) (db_workspaces d)\<rparr>))"

definition updateRunExecutionLeasePhase ::
  "execution_lease \<Rightarrow> run_execution_phase \<Rightarrow> int \<Rightarrow> lease_db \<Rightarrow> (lease_error + execution_lease) \<times> lease_db" where
  "updateRunExecutionLeasePhase l phase now d =
    (if l_phase l = phase then (Inr l, d)
     else let cond = exactRunLeaseCondition now l;
              setPhase = (\<lambda>r. r\<lparr>r_executionPhase := Some phase\<rparr>) in
       if db_returning cond setPhase (db_runs d) = [] then (Inl (Stale_lease (l_runId l)), d)
       else (Inr (l\<lparr>l_phase := phase\<rparr>), d\<lparr>db_runs := db_update cond setPhase (db_runs d)\<rparr>))"

definition expiredOwnerCondition :: "int \<Rightarrow> run_row \<Rightarrow> run_row \<Rightarrow> bool" where
  "expiredOwnerCondition now current r \<longleftrightarrow> r_id r = r_id current \<and> r_ownerNodeId current \<noteq> None \<and>
     r_ownerInstanceId current \<noteq> None \<and> sql_lte (r_leaseExpiresAt current) now \<and>
     r_ownerNodeId r = r_ownerNodeId current \<and> r_ownerInstanceId r = r_ownerInstanceId current \<and>
     r_fencingToken r = r_fencingToken current \<and> sql_lte (r_leaseExpiresAt r) now"

definition expiredWorkspaceCondition :: "int \<Rightarrow> run_row \<Rightarrow> workspace_row \<Rightarrow> bool" where
  "expiredWorkspaceCondition now current w \<longleftrightarrow> w_id w = r_workspaceId current \<and>
     w_executionRunId w = Some (r_id current) \<and> w_ownerNodeId w = r_ownerNodeId current \<and>
     w_ownerInstanceId w = r_ownerInstanceId current \<and> w_fencingToken w = Some (r_fencingToken current) \<and>
     sql_lte (w_leaseExpiresAt w) now"

definition nothingToClear :: "int \<Rightarrow> run_row \<Rightarrow> bool" where
  "nothingToClear now current \<longleftrightarrow> r_ownerNodeId current = None \<or> r_ownerInstanceId current = None \<or>
     r_leaseExpiresAt current = None \<or> sql_gt (r_leaseExpiresAt current) now"

text \<open>\<open>current\<close> is the row read by the first statement.\<close>

definition clear_commit :: "run_row \<Rightarrow> int \<Rightarrow> lease_db \<Rightarrow> bool \<times> lease_db" where
  "clear_commit current now d =
    (let cond = expiredOwnerCondition now current in
     if nothingToClear now current then (False, d)
     else if db_returning cond clear_run (db_runs d) = [] then (False, d)
     else (True, d\<lparr>db_runs := db_update cond clear_run (db_runs d),
       db_workspaces := db_update (expiredWorkspaceCondition now current) clear_workspace (db_workspaces d)\<rparr>))"

definition clearExpiredRunExecutionLease :: "string \<Rightarrow> int \<Rightarrow> lease_db \<Rightarrow> bool \<times> lease_db" where
  "clearExpiredRunExecutionLease runId now d =
    (case db_find (\<lambda>r. r_id r = runId) (db_runs d) of
       None \<Rightarrow> (False, d)
     | Some current \<Rightarrow> clear_commit current now d)"

definition releaseRunExecutionLease :: "execution_lease \<Rightarrow> lease_db \<Rightarrow> (lease_error + bool) \<times> lease_db" where
  "releaseRunExecutionLease l d =
    (if db_returning (run_owned_by l) clear_run (db_runs d) = [] then (Inr False, d)
     else if db_returning (workspace_owned_by l) clear_workspace (db_workspaces d) = []
     then (Inl (Stale_lease (l_runId l)), d)
     else (Inr True, d\<lparr>db_runs := db_update (run_owned_by l) clear_run (db_runs d),
       db_workspaces := db_update (workspace_owned_by l) clear_workspace (db_workspaces d)\<rparr>))"


section \<open>Interleavings\<close>

text \<open>
  The system is the database clock and the two tables. A step is a committed transaction of any
  executor, with a time \<open>t\<close> sampled at or before the clock and, for the two transactions that read
  first, any earlier reading of the run (whose workspace never changes); the passing of time; the
  creation of an unowned run or an unheld workspace; or a write to other columns.
\<close>

type_synonym lease_sys = "int \<times> lease_db"

definition run_lease_columns ::
  "run_row \<Rightarrow> string \<times> string \<times> string option \<times> string option \<times> int \<times> int option" where
  "run_lease_columns r = (r_id r, r_workspaceId r, r_ownerNodeId r, r_ownerInstanceId r, r_fencingToken r,
     r_leaseExpiresAt r)"

definition read_of :: "run_row \<Rightarrow> lease_db \<Rightarrow> bool" where
  "read_of run d \<longleftrightarrow> (\<forall>r \<in> set (db_runs d). r_id r = r_id run \<longrightarrow> r_workspaceId r = r_workspaceId run)"

definition unowned_run :: "run_row \<Rightarrow> bool" where
  "unowned_run r \<longleftrightarrow> r_ownerNodeId r = None \<and> r_ownerInstanceId r = None \<and> r_leaseExpiresAt r = None"

inductive lease_step :: "lease_sys \<Rightarrow> lease_sys \<Rightarrow> bool" where
  step_claim: "t \<le> now \<Longrightarrow> read_of run d \<Longrightarrow>
    lease_step (now, d) (now, snd (claim_commit run phase identity t ttl d))"
| step_renew: "t \<le> now \<Longrightarrow> lease_step (now, d) (now, snd (renewRunExecutionLease l t ttl d))"
| step_phase: "lease_step (now, d) (now, snd (updateRunExecutionLeasePhase l phase now d))"
| step_clear: "t \<le> now \<Longrightarrow> read_of current d \<Longrightarrow> lease_step (now, d) (now, snd (clear_commit current t d))"
| step_release: "lease_step (now, d) (now, snd (releaseRunExecutionLease l d))"
| step_tick: "now \<le> now' \<Longrightarrow> lease_step (now, d) (now', d)"
| step_insert_run: "unowned_run r \<Longrightarrow> r_id r \<notin> r_id ` set (db_runs d) \<Longrightarrow>
    lease_step (now, d) (now, d\<lparr>db_runs := db_runs d @ [r]\<rparr>)"
| step_insert_workspace: "w_executionRunId w = None \<Longrightarrow> w_id w \<notin> w_id ` set (db_workspaces d) \<Longrightarrow>
    lease_step (now, d) (now, d\<lparr>db_workspaces := db_workspaces d @ [w]\<rparr>)"
| step_other: "map run_lease_columns (db_runs d') = map run_lease_columns (db_runs d) \<Longrightarrow>
    db_workspaces d' = db_workspaces d \<Longrightarrow> lease_step (now, d) (now, d')"

inductive_cases lease_stepE: "lease_step (now, d) s'"

definition lease_init :: "lease_sys \<Rightarrow> bool" where
  "lease_init s \<longleftrightarrow> unique_by r_id (db_runs (snd s)) \<and> unique_by w_id (db_workspaces (snd s)) \<and>
     (\<forall>r \<in> set (db_runs (snd s)). unowned_run r) \<and> (\<forall>w \<in> set (db_workspaces (snd s)). w_executionRunId w = None)"

text \<open>A live run's row and its workspace's row agree.\<close>

definition holds_workspace :: "run_row \<Rightarrow> workspace_row \<Rightarrow> bool" where
  "holds_workspace r w \<longleftrightarrow> w_id w = r_workspaceId r \<and> w_executionRunId w = Some (r_id r) \<and>
     w_ownerNodeId w = r_ownerNodeId r \<and> w_ownerInstanceId w = r_ownerInstanceId r \<and>
     w_fencingToken w = Some (r_fencingToken r) \<and> w_leaseExpiresAt w = r_leaseExpiresAt r"

definition live_run :: "int \<Rightarrow> run_row \<Rightarrow> bool" where
  "live_run now r \<longleftrightarrow> sql_gt (r_leaseExpiresAt r) now"

definition lease_rows_ok :: "int \<Rightarrow> run_row set \<Rightarrow> workspace_row set \<Rightarrow> bool" where
  "lease_rows_ok now R W \<longleftrightarrow>
     (\<forall>w \<in> W. \<forall>rid. w_executionRunId w = Some rid \<longrightarrow>
        (\<exists>r \<in> R. r_id r = rid \<and> r_workspaceId r = w_id w \<and>
           (\<exists>t. w_fencingToken w = Some t \<and> t \<le> r_fencingToken r))) \<and>
     (\<forall>r \<in> R. live_run now r \<longrightarrow> (\<exists>w \<in> W. holds_workspace r w))"

definition lease_inv :: "lease_sys \<Rightarrow> bool" where
  "lease_inv s \<longleftrightarrow> unique_by r_id (db_runs (snd s)) \<and> unique_by w_id (db_workspaces (snd s)) \<and>
     lease_rows_ok (fst s) (set (db_runs (snd s))) (set (db_workspaces (snd s)))"

lemma lease_inv_Pair:
  "lease_inv (now, d) \<longleftrightarrow> unique_by r_id (db_runs d) \<and> unique_by w_id (db_workspaces d) \<and>
     lease_rows_ok now (set (db_runs d)) (set (db_workspaces d))"
  by (simp add: lease_inv_def)

lemma run_update_ids [row_simps]:
  "r_id (set_run_claim i t e n p r) = r_id r" "r_workspaceId (set_run_claim i t e n p r) = r_workspaceId r"
  "r_fencingToken (set_run_claim i t e n p r) = t" "r_leaseExpiresAt (set_run_claim i t e n p r) = Some e"
  "r_ownerNodeId (set_run_claim i t e n p r) = Some (nodeId i)"
  "r_ownerInstanceId (set_run_claim i t e n p r) = Some (instanceId i)"
  "r_id (set_run_expiry e n r) = r_id r" "r_workspaceId (set_run_expiry e n r) = r_workspaceId r"
  "r_fencingToken (set_run_expiry e n r) = r_fencingToken r" "r_leaseExpiresAt (set_run_expiry e n r) = Some e"
  "r_ownerNodeId (set_run_expiry e n r) = r_ownerNodeId r"
  "r_ownerInstanceId (set_run_expiry e n r) = r_ownerInstanceId r"
  "r_id (clear_run r) = r_id r" "r_workspaceId (clear_run r) = r_workspaceId r"
  "r_fencingToken (clear_run r) = r_fencingToken r" "r_leaseExpiresAt (clear_run r) = None"
  "r_ownerNodeId (clear_run r) = None" "r_ownerInstanceId (clear_run r) = None"
  by (simp_all add: set_run_claim_def set_run_expiry_def clear_run_def)

lemma workspace_update_ids [row_simps]:
  "w_id (set_workspace_claim x i t e n w) = w_id w" "w_executionRunId (set_workspace_claim x i t e n w) = Some x"
  "w_fencingToken (set_workspace_claim x i t e n w) = Some t"
  "w_leaseExpiresAt (set_workspace_claim x i t e n w) = Some e"
  "w_ownerNodeId (set_workspace_claim x i t e n w) = Some (nodeId i)"
  "w_ownerInstanceId (set_workspace_claim x i t e n w) = Some (instanceId i)"
  "w_id (set_workspace_expiry e n w) = w_id w"
  "w_executionRunId (set_workspace_expiry e n w) = w_executionRunId w"
  "w_fencingToken (set_workspace_expiry e n w) = w_fencingToken w"
  "w_leaseExpiresAt (set_workspace_expiry e n w) = Some e"
  "w_ownerNodeId (set_workspace_expiry e n w) = w_ownerNodeId w"
  "w_ownerInstanceId (set_workspace_expiry e n w) = w_ownerInstanceId w"
  "w_id (clear_workspace w) = w_id w" "w_executionRunId (clear_workspace w) = None"
  by (simp_all add: set_workspace_claim_def set_workspace_expiry_def clear_workspace_def)

lemma claimConditionD:
  "claimCondition now run r \<Longrightarrow> r_id r = r_id run \<and> r_fencingToken r = r_fencingToken run"
  by (auto simp: claimCondition_def split: option.splits)

lemma lease_rows_heldD:
  "lease_rows_ok now R W \<Longrightarrow> w \<in> W \<Longrightarrow> w_executionRunId w = Some rid \<Longrightarrow>
   \<exists>r t. r \<in> R \<and> r_id r = rid \<and> r_workspaceId r = w_id w \<and> w_fencingToken w = Some t \<and> t \<le> r_fencingToken r"
  unfolding lease_rows_ok_def by blast

lemma lease_rows_liveD: "lease_rows_ok now R W \<Longrightarrow> r \<in> R \<Longrightarrow> live_run now r \<Longrightarrow> \<exists>w \<in> W. holds_workspace r w"
  unfolding lease_rows_ok_def by blast

text \<open>One run, or one run with its workspace, is replaced.\<close>

lemma lease_rows_replace_run:
  assumes ok: "lease_rows_ok now R W" and r: "r \<in> R"
    and same: "r_id r' = r_id r" "r_workspaceId r' = r_workspaceId r" "r_fencingToken r \<le> r_fencingToken r'"
    and dead: "\<not> live_run now r'"
    and uniq: "\<And>x. x \<in> R \<Longrightarrow> r_id x = r_id r \<Longrightarrow> x = r"
  shows "lease_rows_ok now (insert r' {x \<in> R. r_id x \<noteq> r_id r}) W"
  unfolding lease_rows_ok_def
proof (intro conjI ballI allI impI)
  fix w rid assume "w \<in> W" "w_executionRunId w = Some rid"
  then obtain q t where q: "q \<in> R" "r_id q = rid" "r_workspaceId q = w_id w" "w_fencingToken w = Some t"
    "t \<le> r_fencingToken q" using lease_rows_heldD [OF ok] by blast
  show "\<exists>r\<in>insert r' {x \<in> R. r_id x \<noteq> r_id r}. r_id r = rid \<and> r_workspaceId r = w_id w \<and>
      (\<exists>t. w_fencingToken w = Some t \<and> t \<le> r_fencingToken r)"
  proof (cases "r_id q = r_id r")
    case True
    with uniq q(1) have "q = r" by blast
    with q same show ?thesis by (intro bexI [of _ r']) auto
  next
    case False
    with q show ?thesis by (intro bexI [of _ q]) auto
  qed
next
  fix x assume "x \<in> insert r' {x \<in> R. r_id x \<noteq> r_id r}" "live_run now x"
  with dead ok show "\<exists>w\<in>W. holds_workspace x w" by (auto simp: lease_rows_ok_def)
qed

lemma lease_rows_replace_both:
  assumes ok: "lease_rows_ok now R W" and r: "r \<in> R" and w: "w \<in> W"
    and same: "r_id r' = r_id r" "r_workspaceId r' = r_workspaceId r" "r_fencingToken r \<le> r_fencingToken r'"
      "w_id w' = w_id w"
    and held: "w_executionRunId w' = None \<or> w_executionRunId w' = Some (r_id r) \<and> r_workspaceId r = w_id w \<and>
      (\<exists>t. w_fencingToken w' = Some t \<and> t \<le> r_fencingToken r')"
    and live: "live_run now r' \<Longrightarrow> holds_workspace r' w'"
    and free: "\<And>x. x \<in> R \<Longrightarrow> r_id x \<noteq> r_id r \<Longrightarrow> live_run now x \<Longrightarrow> \<not> holds_workspace x w"
    and uniq: "\<And>x. x \<in> R \<Longrightarrow> r_id x = r_id r \<Longrightarrow> x = r" "\<And>x. x \<in> W \<Longrightarrow> w_id x = w_id w \<Longrightarrow> x = w"
  shows "lease_rows_ok now (insert r' {x \<in> R. r_id x \<noteq> r_id r}) (insert w' {x \<in> W. w_id x \<noteq> w_id w})"
  unfolding lease_rows_ok_def
proof (intro conjI ballI allI impI)
  fix v rid assume v: "v \<in> insert w' {x \<in> W. w_id x \<noteq> w_id w}" and rid: "w_executionRunId v = Some rid"
  show "\<exists>r\<in>insert r' {x \<in> R. r_id x \<noteq> r_id r}. r_id r = rid \<and> r_workspaceId r = w_id v \<and>
      (\<exists>t. w_fencingToken v = Some t \<and> t \<le> r_fencingToken r)"
  proof (cases "v = w'")
    case True
    with held rid same show ?thesis by (intro bexI [of _ r']) auto
  next
    case False
    with v have "v \<in> W" by auto
    with rid obtain q t where q: "q \<in> R" "r_id q = rid" "r_workspaceId q = w_id v"
      "w_fencingToken v = Some t" "t \<le> r_fencingToken q" using lease_rows_heldD [OF ok] by blast
    show ?thesis
    proof (cases "r_id q = r_id r")
      case True
      with uniq q(1) have "q = r" by blast
      with q same show ?thesis by (intro bexI [of _ r']) auto
    next
      case False
      with q show ?thesis by (intro bexI [of _ q]) auto
    qed
  qed
next
  fix x assume x: "x \<in> insert r' {x \<in> R. r_id x \<noteq> r_id r}" and lx: "live_run now x"
  show "\<exists>v\<in>insert w' {x \<in> W. w_id x \<noteq> w_id w}. holds_workspace x v"
  proof (cases "x = r'")
    case True
    with live lx show ?thesis by blast
  next
    case False
    with x have xR: "x \<in> R" "r_id x \<noteq> r_id r" by auto
    with ok lx obtain v where v: "v \<in> W" "holds_workspace x v" by (auto simp: lease_rows_ok_def)
    with free [OF xR lx] have "v \<noteq> w" by blast
    with v uniq(2) show ?thesis by blast
  qed
qed


text \<open>A claimed workspace was held by no other live run.\<close>

lemma claimable_not_held:
  assumes "workspaceClaimable t ws rid identity token w" "t \<le> now" "r_id x \<noteq> rid" "live_run now x"
  shows "\<not> holds_workspace x w"
  using assms by (auto simp: workspaceClaimable_def holds_workspace_def live_run_def sql_lte_def sql_gt_def
      split: option.splits)

lemma lease_inv_update_run:
  assumes inv: "lease_inv (now, d)" and ret: "db_returning p f (db_runs d) \<noteq> []"
    and p: "\<And>r. p r \<Longrightarrow> r_id r = rid"
    and f: "\<And>r. r_id (f r) = r_id r" "\<And>r. r_workspaceId (f r) = r_workspaceId r"
      "\<And>r. p r \<Longrightarrow> r_fencingToken r \<le> r_fencingToken (f r)" "\<And>r. \<not> live_run now (f r)"
  shows "lease_inv (now, d\<lparr>db_runs := db_update p f (db_runs d)\<rparr>)"
proof -
  note i = inv [unfolded lease_inv_Pair]
  from ret obtain r where r: "r \<in> set (db_runs d)" "p r" by (auto simp: db_returning_ex)
  have set: "set (db_update p f (db_runs d)) = insert (f r) {x \<in> set (db_runs d). r_id x \<noteq> r_id r}"
    using i r p by (intro set_db_update_unique [where k = r_id]) auto
  have "lease_rows_ok now (insert (f r) {x \<in> set (db_runs d). r_id x \<noteq> r_id r}) (set (db_workspaces d))"
    using i r f by (intro lease_rows_replace_run) (auto dest: unique_byD)
  with i set show ?thesis by (simp add: lease_inv_Pair unique_by_update f)
qed

lemma lease_inv_update_both:
  assumes inv: "lease_inv (now, d)"
    and ret: "db_returning p f (db_runs d) \<noteq> []" "db_returning q g (db_workspaces d) \<noteq> []"
    and pq: "\<And>r. p r \<Longrightarrow> r_id r = rid" "\<And>w. q w \<Longrightarrow> w_id w = wid"
    and f: "\<And>r. r_id (f r) = r_id r" "\<And>r. r_workspaceId (f r) = r_workspaceId r"
      "\<And>r. p r \<Longrightarrow> r_fencingToken r \<le> r_fencingToken (f r)"
    and g: "\<And>w. w_id (g w) = w_id w"
    and held: "\<And>r w. r \<in> set (db_runs d) \<Longrightarrow> w \<in> set (db_workspaces d) \<Longrightarrow> p r \<Longrightarrow> q w \<Longrightarrow>
      w_executionRunId (g w) = None \<or> w_executionRunId (g w) = Some (r_id r) \<and> r_workspaceId r = w_id w \<and>
      (\<exists>t. w_fencingToken (g w) = Some t \<and> t \<le> r_fencingToken (f r))"
    and live: "\<And>r w. r \<in> set (db_runs d) \<Longrightarrow> w \<in> set (db_workspaces d) \<Longrightarrow> p r \<Longrightarrow> q w \<Longrightarrow>
      live_run now (f r) \<Longrightarrow> holds_workspace (f r) (g w)"
    and free: "\<And>r w x. p r \<Longrightarrow> q w \<Longrightarrow> r_id x \<noteq> r_id r \<Longrightarrow> live_run now x \<Longrightarrow> \<not> holds_workspace x w"
  shows "lease_inv (now, d\<lparr>db_runs := db_update p f (db_runs d), db_workspaces := db_update q g (db_workspaces d)\<rparr>)"
proof -
  note i = inv [unfolded lease_inv_Pair]
  from ret obtain r w where r: "r \<in> set (db_runs d)" "p r" and w: "w \<in> set (db_workspaces d)" "q w"
    by (auto simp: db_returning_ex)
  have set: "set (db_update p f (db_runs d)) = insert (f r) {x \<in> set (db_runs d). r_id x \<noteq> r_id r}"
    "set (db_update q g (db_workspaces d)) = insert (g w) {x \<in> set (db_workspaces d). w_id x \<noteq> w_id w}"
    using i r w pq by (intro set_db_update_unique [where k = r_id]; auto)
      (intro set_db_update_unique [where k = w_id]; use i r w pq in auto)
  have "lease_rows_ok now (insert (f r) {x \<in> set (db_runs d). r_id x \<noteq> r_id r})
      (insert (g w) {x \<in> set (db_workspaces d). w_id x \<noteq> w_id w})"
  proof (rule lease_rows_replace_both)
    show "lease_rows_ok now (set (db_runs d)) (set (db_workspaces d))" using i by blast
    show "x = r" if "x \<in> set (db_runs d)" "r_id x = r_id r" for x using that i r by (blast dest: unique_byD)
    show "x = w" if "x \<in> set (db_workspaces d)" "w_id x = w_id w" for x
      using that i w by (blast dest: unique_byD)
  qed (use r w f g held live free in auto)
  with i set show ?thesis by (simp add: lease_inv_Pair unique_by_update f g)
qed

lemma lease_inv_claim:
  assumes inv: "lease_inv (now, d)" and t: "t \<le> now" and read: "read_of run d"
  shows "lease_inv (now, snd (claim_commit run phase identity t ttl d))"
proof -
  let ?p = "claimCondition t run" and ?f = "set_run_claim identity (r_fencingToken run + 1) (t + ttl) t phase"
  let ?q = "workspaceClaimable t (r_workspaceId run) (r_id run) identity (r_fencingToken run + 1)"
  let ?g = "set_workspace_claim (r_id run) identity (r_fencingToken run + 1) (t + ttl) t"
  show ?thesis
  proof (cases "db_returning ?p ?f (db_runs d) = [] \<or> db_returning ?q ?g (db_workspaces d) = []")
    case True
    with inv show ?thesis by (auto simp: claim_commit_def Let_def)
  next
    case False
    have "lease_inv (now, d\<lparr>db_runs := db_update ?p ?f (db_runs d), db_workspaces := db_update ?q ?g (db_workspaces d)\<rparr>)"
    proof (rule lease_inv_update_both [OF inv])
      show "w_executionRunId (?g w) = None \<or> w_executionRunId (?g w) = Some (r_id r) \<and> r_workspaceId r = w_id w \<and>
          (\<exists>u. w_fencingToken (?g w) = Some u \<and> u \<le> r_fencingToken (?f r))"
        if "r \<in> set (db_runs d)" "?p r" "?q w" for r w
        using that read by (auto simp: read_of_def row_simps workspaceClaimable_def dest: claimConditionD)
      show "holds_workspace (?f r) (?g w)" if "r \<in> set (db_runs d)" "?p r" "?q w" for r w
        using that read by (auto simp: holds_workspace_def read_of_def row_simps workspaceClaimable_def
            dest: claimConditionD)
      show "\<not> holds_workspace x w" if "?p r" "?q w" "r_id x \<noteq> r_id r" "live_run now x" for r w x
        using that t by (intro claimable_not_held) (auto dest: claimConditionD)
    qed (use False in \<open>auto simp: row_simps workspaceClaimable_def dest: claimConditionD\<close>)
    with False show ?thesis by (simp add: claim_commit_def Let_def)
  qed
qed

lemma owned_workspace_of_run:
  assumes "lease_inv (now, d)" "r \<in> set (db_runs d)" "w \<in> set (db_workspaces d)"
    and "w_executionRunId w = Some (r_id r)"
  shows "r_workspaceId r = w_id w"
  using assms lease_rows_heldD [of now "set (db_runs d)" "set (db_workspaces d)" w "r_id r"]
  by (auto simp: lease_inv_Pair dest: unique_byD)

lemma lease_inv_renew:
  assumes inv: "lease_inv (now, d)"
  shows "lease_inv (now, snd (renewRunExecutionLease l t ttl d))"
proof -
  let ?p = "exactRunLeaseCondition t l" and ?f = "set_run_expiry (t + ttl) t"
  let ?q = "exactWorkspaceLeaseCondition t l" and ?g = "set_workspace_expiry (t + ttl) t"
  show ?thesis
  proof (cases "db_returning ?p ?f (db_runs d) = [] \<or> db_returning ?q ?g (db_workspaces d) = []")
    case True
    with inv show ?thesis by (auto simp: renewRunExecutionLease_def Let_def)
  next
    case False
    have "lease_inv (now, d\<lparr>db_runs := db_update ?p ?f (db_runs d), db_workspaces := db_update ?q ?g (db_workspaces d)\<rparr>)"
    proof (rule lease_inv_update_both [OF inv])
      fix r w assume rw: "r \<in> set (db_runs d)" "w \<in> set (db_workspaces d)" "?p r" "?q w"
      then have "r_workspaceId r = w_id w"
        by (intro owned_workspace_of_run [OF inv])
          (auto simp: exactRunLeaseCondition_def run_owned_by_def exactWorkspaceLeaseCondition_def workspace_owned_by_def)
      with rw show "w_executionRunId (?g w) = None \<or> w_executionRunId (?g w) = Some (r_id r) \<and> r_workspaceId r = w_id w \<and>
          (\<exists>u. w_fencingToken (?g w) = Some u \<and> u \<le> r_fencingToken (?f r))"
        and "holds_workspace (?f r) (?g w)"
        by (auto simp: holds_workspace_def row_simps
            exactRunLeaseCondition_def run_owned_by_def exactWorkspaceLeaseCondition_def workspace_owned_by_def)
    qed (use False in \<open>auto simp: row_simps holds_workspace_def exactRunLeaseCondition_def run_owned_by_def
        exactWorkspaceLeaseCondition_def workspace_owned_by_def\<close>)
    with False show ?thesis by (simp add: renewRunExecutionLease_def Let_def)
  qed
qed

lemma lease_inv_release:
  assumes inv: "lease_inv (now, d)"
  shows "lease_inv (now, snd (releaseRunExecutionLease l d))"
proof (cases "db_returning (run_owned_by l) clear_run (db_runs d) = [] \<or>
    db_returning (workspace_owned_by l) clear_workspace (db_workspaces d) = []")
  case True
  with inv show ?thesis by (auto simp: releaseRunExecutionLease_def)
next
  case False
  have "lease_inv (now, d\<lparr>db_runs := db_update (run_owned_by l) clear_run (db_runs d),
      db_workspaces := db_update (workspace_owned_by l) clear_workspace (db_workspaces d)\<rparr>)"
    using False by (intro lease_inv_update_both [OF inv])
      (auto simp: row_simps run_owned_by_def workspace_owned_by_def holds_workspace_def live_run_def)
  with False show ?thesis by (simp add: releaseRunExecutionLease_def)
qed

lemma lease_inv_clear:
  assumes inv: "lease_inv (now, d)" and t: "t \<le> now"
  shows "lease_inv (now, snd (clear_commit current t d))"
proof -
  let ?p = "expiredOwnerCondition t current" and ?q = "expiredWorkspaceCondition t current"
  have dead: "\<not> live_run now (clear_run r)" for r by (simp add: live_run_def row_simps)
  have "snd (clear_commit current t d) = d \<or> db_returning ?p clear_run (db_runs d) \<noteq> [] \<and>
      snd (clear_commit current t d) = d\<lparr>db_runs := db_update ?p clear_run (db_runs d),
        db_workspaces := db_update ?q clear_workspace (db_workspaces d)\<rparr>"
    by (simp add: clear_commit_def Let_def)
  then consider "snd (clear_commit current t d) = d"
    | "db_returning ?p clear_run (db_runs d) \<noteq> []"
      "snd (clear_commit current t d) = d\<lparr>db_runs := db_update ?p clear_run (db_runs d),
        db_workspaces := db_update ?q clear_workspace (db_workspaces d)\<rparr>" by blast
  then show ?thesis
  proof cases
    case 1
    with inv show ?thesis by simp
  next
    case ret: 2
    show ?thesis
    proof (cases "db_returning ?q clear_workspace (db_workspaces d) = []")
      case True
      then have "db_update ?q clear_workspace (db_workspaces d) = db_workspaces d"
        by (simp add: db_returning_Nil_iff db_update_id)
      moreover have "lease_inv (now, d\<lparr>db_runs := db_update ?p clear_run (db_runs d)\<rparr>)"
        by (rule lease_inv_update_run [OF inv ret(1)])
          (auto simp: expiredOwnerCondition_def row_simps dead)
      ultimately show ?thesis using ret by simp
    next
      case False
      have "lease_inv (now, d\<lparr>db_runs := db_update ?p clear_run (db_runs d),
          db_workspaces := db_update ?q clear_workspace (db_workspaces d)\<rparr>)"
        by (rule lease_inv_update_both [OF inv ret(1) False])
          (auto simp: expiredOwnerCondition_def expiredWorkspaceCondition_def row_simps dead holds_workspace_def)
      with ret show ?thesis by simp
    qed
  qed
qed

lemma lease_inv_cong:
  assumes cols: "map run_lease_columns (db_runs d') = map run_lease_columns (db_runs d)"
    and ws: "db_workspaces d' = db_workspaces d" and inv: "lease_inv (now, d)"
  shows "lease_inv (now, d')"
proof -
  have "map fst (map run_lease_columns (db_runs d')) = map fst (map run_lease_columns (db_runs d))"
    using cols by (rule arg_cong)
  then have ids: "map r_id (db_runs d') = map r_id (db_runs d)" by (simp add: run_lease_columns_def comp_def)
  have "set (map run_lease_columns (db_runs d')) = set (map run_lease_columns (db_runs d))" using cols by simp
  then have img: "run_lease_columns ` set (db_runs d') = run_lease_columns ` set (db_runs d)" by simp
  have trans: "lease_rows_ok now R' W" if ok: "lease_rows_ok now R W"
    and im: "run_lease_columns ` R' = run_lease_columns ` R" for R R' W
    unfolding lease_rows_ok_def
  proof (intro conjI ballI allI impI)
    fix w rid assume "w \<in> W" "w_executionRunId w = Some rid"
    then obtain r u where r: "r \<in> R" "r_id r = rid" "r_workspaceId r = w_id w" "w_fencingToken w = Some u"
      "u \<le> r_fencingToken r" using lease_rows_heldD [OF ok] by blast
    then have "run_lease_columns r \<in> run_lease_columns ` R'" using im by auto
    then obtain r' where "r' \<in> R'" "run_lease_columns r' = run_lease_columns r" by auto
    with r show "\<exists>r\<in>R'. r_id r = rid \<and> r_workspaceId r = w_id w \<and> (\<exists>t. w_fencingToken w = Some t \<and> t \<le> r_fencingToken r)"
      by (intro bexI [of _ r']) (auto simp: run_lease_columns_def)
  next
    fix r' assume r': "r' \<in> R'" "live_run now r'"
    then have "run_lease_columns r' \<in> run_lease_columns ` R" using im by auto
    then obtain r where r: "r \<in> R" "run_lease_columns r = run_lease_columns r'" by auto
    with r' have "live_run now r" by (simp add: live_run_def run_lease_columns_def)
    then obtain w where "w \<in> W" "holds_workspace r w" using lease_rows_liveD [OF ok r(1)] by blast
    with r(2) show "\<exists>w\<in>W. holds_workspace r' w"
      by (intro bexI [of _ w]) (auto simp: holds_workspace_def run_lease_columns_def)
  qed
  from inv ids ws show ?thesis using trans [OF _ img] by (simp add: lease_inv_Pair unique_by_def)
qed

lemma lease_inv_step: "lease_inv s \<Longrightarrow> lease_step s s' \<Longrightarrow> lease_inv s'"
proof (erule lease_step.cases, goal_cases)
  case (3 now d l phase)
  let ?d = "snd (updateRunExecutionLeasePhase l phase now d)"
  have "map run_lease_columns (db_runs ?d) = map run_lease_columns (db_runs d)" "db_workspaces ?d = db_workspaces d"
    by (auto simp: updateRunExecutionLeasePhase_def Let_def run_lease_columns_def intro!: map_db_update_same)
  with 3 show ?case by (auto intro: lease_inv_cong)
next
  case (6 now now' d)
  then show ?case by (auto simp: lease_inv_Pair lease_rows_ok_def live_run_def sql_gt_def split: option.splits)
next
  case (7 r d now)
  then show ?case
    by (auto simp: lease_inv_Pair lease_rows_ok_def live_run_def unowned_run_def unique_by_append1; blast)
next
  case (8 w d now)
  then show ?case by (auto simp: lease_inv_Pair lease_rows_ok_def unique_by_append1)
qed (auto intro: lease_inv_claim lease_inv_renew lease_inv_clear lease_inv_release lease_inv_cong)

interpretation lease_system: invariant_system lease_init lease_step lease_inv
proof
  show "lease_init s \<Longrightarrow> lease_inv s" for s
    by (auto simp: lease_init_def lease_inv_def lease_rows_ok_def unowned_run_def live_run_def)
qed (rule lease_inv_step)

end
