(* ===== verification/LeaseSafety.thy ===== *)
theory LeaseSafety imports ExecutionLease begin

text \<open>
  What the execution lease promises: at most one live run per workspace, a fence that a superseded
  lease never passes again, linearizable claims, takeover after expiry.
\<close>

section \<open>Mutual exclusion\<close>

text \<open>C1: in every reachable state of any interleaving of claims, renewals, releases, clean-ups and
  clock ticks, two runs of the same workspace never both have an unexpired execution lease.\<close>

theorem lease_mutual_exclusion:
  assumes "reach lease_init lease_step (now, d)"
    and "r \<in> set (db_runs d)" "r' \<in> set (db_runs d)"
    and "r_workspaceId r = r_workspaceId r'" "live_run now r" "live_run now r'"
  shows "r = r'"
proof -
  have inv: "lease_inv (now, d)" using assms(1) by (rule lease_system.reach_inv)
  then obtain w w' where w: "w \<in> set (db_workspaces d)" "holds_workspace r w"
    "w' \<in> set (db_workspaces d)" "holds_workspace r' w'"
    using assms lease_rows_liveD by (metis lease_inv_Pair)
  with assms(4) have "w_id w = w_id w'" by (simp add: holds_workspace_def)
  with inv w have "w = w'" by (auto simp: lease_inv_Pair dest: unique_byD)
  with w have "r_id r = r_id r'" by (simp add: holds_workspace_def)
  with inv assms(2,3) show ?thesis by (auto simp: lease_inv_Pair dest: unique_byD)
qed

text \<open>A small database: two runs of one workspace, claimed one after the other.\<close>

definition sample_run :: "string \<Rightarrow> run_row" where
  "sample_run i = \<lparr>r_id = i, r_workspaceId = ''ws'', r_status = ''pending'', r_planOnly = False, r_savePlan = False,
     r_createdAt = 0, r_statusTimestamps = [], r_scheduledAt = None, r_ownerNodeId = None,
     r_ownerInstanceId = None, r_fencingToken = 0, r_leaseExpiresAt = None, r_leaseHeartbeatAt = None,
     r_executionPhase = None\<rparr>"

definition sample_workspace :: workspace_row where
  "sample_workspace = \<lparr>w_id = ''ws'', w_executionRunId = None, w_ownerNodeId = None, w_ownerInstanceId = None,
     w_fencingToken = None, w_leaseExpiresAt = None, w_leaseHeartbeatAt = None\<rparr>"

definition sample_db :: lease_db where
  "sample_db = \<lparr>db_runs = [sample_run ''a'', sample_run ''b''], db_workspaces = [sample_workspace]\<rparr>"

definition node_a :: lease_identity where "node_a = \<lparr>nodeId = ''n1'', instanceId = ''i1''\<rparr>"
definition node_b :: lease_identity where "node_b = \<lparr>nodeId = ''n2'', instanceId = ''i2''\<rparr>"

definition sample_claimed :: "execution_lease option \<times> lease_db" where
  "sample_claimed = claimRunExecutionLease ''a'' Plan_phase node_a 0 30 sample_db"

lemmas sample_defs = sample_run_def sample_workspace_def sample_db_def node_a_def node_b_def sample_claimed_def

lemma sample_claimed_commit:
  "snd sample_claimed = snd (claim_commit (sample_run ''a'') Plan_phase node_a 0 30 sample_db)"
  by (simp add: sample_claimed_def claimRunExecutionLease_def sample_db_def sample_run_def)

lemma sample_reach: "reach lease_init lease_step (0, snd sample_claimed)"
proof -
  have "lease_init (0, sample_db)"
    by (simp add: lease_init_def sample_defs unique_by_def unowned_run_def)
  then have "reach lease_init lease_step (0, sample_db)" by (rule reach_init)
  moreover have "lease_step (0, sample_db) (0, snd sample_claimed)"
    unfolding sample_claimed_commit by (rule step_claim) (simp_all add: read_of_def sample_defs)
  ultimately show ?thesis by (rule reach_step)
qed

lemma lease_mutual_exclusion_witness:
  "\<exists>r \<in> set (db_runs (snd sample_claimed)). live_run 0 r \<and>
     (\<forall>r' \<in> set (db_runs (snd sample_claimed)). r_workspaceId r' = r_workspaceId r \<longrightarrow> live_run 0 r' \<longrightarrow> r = r')"
proof -
  have "list_ex (live_run 0) (db_runs (snd sample_claimed))" by code_simp
  then obtain r where r: "r \<in> set (db_runs (snd sample_claimed))" "live_run 0 r" by (auto simp: list_ex_iff)
  then show ?thesis using lease_mutual_exclusion [OF sample_reach] by metis
qed


section \<open>Fencing\<close>

text \<open>A lease the database knows: its token was handed out for its run.\<close>

definition lease_issued :: "execution_lease \<Rightarrow> lease_db \<Rightarrow> bool" where
  "lease_issued l d \<longleftrightarrow> (\<exists>r \<in> set (db_runs d). r_id r = l_runId l \<and> l_fencingToken l \<le> r_fencingToken r)"

definition lease_current :: "execution_lease \<Rightarrow> lease_db \<Rightarrow> bool" where
  "lease_current l d \<longleftrightarrow> (\<exists>r \<in> set (db_runs d). run_owned_by l r)"

definition lease_superseded :: "execution_lease \<Rightarrow> lease_db \<Rightarrow> bool" where
  "lease_superseded l d \<longleftrightarrow> lease_issued l d \<and> \<not> lease_current l d"

definition row_superseded :: "execution_lease \<Rightarrow> run_row \<Rightarrow> bool" where
  "row_superseded l r \<longleftrightarrow> r_id r = l_runId l \<and> l_fencingToken l \<le> r_fencingToken r \<and> \<not> run_owned_by l r"

lemma superseded_iff:
  assumes "unique_by r_id (db_runs d)"
  shows "lease_superseded l d \<longleftrightarrow> (\<exists>r \<in> set (db_runs d). row_superseded l r)"
proof
  assume "lease_superseded l d"
  then show "\<exists>r \<in> set (db_runs d). row_superseded l r"
    unfolding lease_superseded_def lease_issued_def lease_current_def row_superseded_def by blast
next
  assume "\<exists>r \<in> set (db_runs d). row_superseded l r"
  then obtain r where r: "r \<in> set (db_runs d)" "row_superseded l r" by blast
  have "\<not> run_owned_by l x" if "x \<in> set (db_runs d)" for x
    using r that unique_byD [OF assms r(1) that] by (auto simp: row_superseded_def run_owned_by_def)
  with r show "lease_superseded l d"
    unfolding lease_superseded_def lease_issued_def lease_current_def row_superseded_def by blast
qed

lemma superseded_update:
  assumes "\<exists>r \<in> set t. row_superseded l r"
    and "\<And>r. p r \<Longrightarrow> row_superseded l r \<Longrightarrow> row_superseded l (f r)"
  shows "\<exists>r \<in> set (db_update p f t). row_superseded l r"
  using assms by (auto simp: set_db_update)

lemma row_superseded_ops:
  "claimCondition now run r \<Longrightarrow> row_superseded l r \<Longrightarrow>
   row_superseded l (set_run_claim i (r_fencingToken run + 1) e n ph r)"
  "row_superseded l r \<Longrightarrow> row_superseded l (set_run_expiry e n r)"
  "row_superseded l r \<Longrightarrow> row_superseded l (r\<lparr>r_executionPhase := x\<rparr>)"
  "row_superseded l r \<Longrightarrow> row_superseded l (clear_run r)"
  by (auto simp: row_superseded_def run_owned_by_def row_simps dest!: claimConditionD)

lemma row_superseded_cols:
  "run_lease_columns r = run_lease_columns r' \<Longrightarrow> row_superseded l r = row_superseded l r'"
  by (auto simp: row_superseded_def run_lease_columns_def run_owned_by_def)

text \<open>What each transaction does to the runs: nothing, or one update of their rows.\<close>

lemma runs_after_claim:
  "db_runs (snd (claim_commit run phase identity t ttl d)) \<in> {db_runs d, db_update (claimCondition t run)
     (set_run_claim identity (r_fencingToken run + 1) (t + ttl) t phase) (db_runs d)}"
  unfolding claim_commit_def Let_def by (auto split: if_split)

lemma runs_after_renew:
  "db_runs (snd (renewRunExecutionLease k t ttl d)) \<in>
     {db_runs d, db_update (exactRunLeaseCondition t k) (set_run_expiry (t + ttl) t) (db_runs d)}"
  unfolding renewRunExecutionLease_def Let_def by (auto split: if_split)

lemma runs_after_phase:
  "db_runs (snd (updateRunExecutionLeasePhase k phase t d)) \<in>
     {db_runs d, db_update (exactRunLeaseCondition t k) (\<lambda>r. r\<lparr>r_executionPhase := Some phase\<rparr>) (db_runs d)}"
  unfolding updateRunExecutionLeasePhase_def Let_def by (auto split: if_split)

lemma runs_after_clear:
  "db_runs (snd (clear_commit run t d)) \<in> {db_runs d, db_update (expiredOwnerCondition t run) clear_run (db_runs d)}"
  unfolding clear_commit_def Let_def by (auto split: if_split)

lemma runs_after_release:
  "db_runs (snd (releaseRunExecutionLease k d)) \<in> {db_runs d, db_update (run_owned_by k) clear_run (db_runs d)}"
  unfolding releaseRunExecutionLease_def Let_def by (auto split: if_split)

lemmas runs_after = runs_after_claim runs_after_renew runs_after_phase runs_after_clear runs_after_release

lemma superseded_after:
  assumes "\<exists>r \<in> set (db_runs d). row_superseded l r" "rs \<in> {db_runs d, db_update p f (db_runs d)}"
    and "\<And>r. p r \<Longrightarrow> row_superseded l r \<Longrightarrow> row_superseded l (f r)"
  shows "\<exists>r \<in> set rs. row_superseded l r"
  using assms superseded_update by blast

lemma superseded_step:
  assumes "lease_step s s'" "\<exists>r \<in> set (db_runs (snd s)). row_superseded l r"
  shows "\<exists>r \<in> set (db_runs (snd s')). row_superseded l r"
  using assms
proof (cases rule: lease_step.cases)
  case (step_other d' d now)
  obtain r where r: "r \<in> set (db_runs d)" "row_superseded l r" using assms(2) step_other by auto
  have "run_lease_columns r \<in> set (map run_lease_columns (db_runs d'))" using step_other r by simp
  then obtain r' where "r' \<in> set (db_runs d')" "run_lease_columns r = run_lease_columns r'" by auto
  moreover have "row_superseded l r'" using calculation(2) r(2) row_superseded_cols by blast
  ultimately show ?thesis unfolding step_other by auto
next
  case step_claim
  then show ?thesis using assms(2) superseded_after [OF _ runs_after(1)] row_superseded_ops(1) by simp
next
  case step_renew
  then show ?thesis using assms(2) superseded_after [OF _ runs_after(2)] row_superseded_ops(2) by simp
next
  case step_phase
  then show ?thesis using assms(2) superseded_after [OF _ runs_after(3)] row_superseded_ops(3) by simp
next
  case step_clear
  then show ?thesis using assms(2) superseded_after [OF _ runs_after(4)] row_superseded_ops(4) by simp
next
  case step_release
  then show ?thesis using assms(2) superseded_after [OF _ runs_after(5)] row_superseded_ops(4) by simp
qed (use assms(2) in auto)

interpretation superseding: invariant_system
  "\<lambda>s. lease_inv s \<and> lease_superseded l (snd s)" lease_step "\<lambda>s. lease_inv s \<and> lease_superseded l (snd s)"
proof
  fix s t assume s: "lease_inv s \<and> lease_superseded l (snd s)" and step: "lease_step s t"
  have t: "lease_inv t" using s step by (blast intro: lease_inv_step)
  have u: "unique_by r_id (db_runs (snd s))" "unique_by r_id (db_runs (snd t))"
    using s t by (simp_all add: lease_inv_def)
  have "\<exists>r \<in> set (db_runs (snd t)). row_superseded l r"
    using superseded_step [OF step] s superseded_iff [OF u(1)] by blast
  then show "lease_inv t \<and> lease_superseded l (snd t)" using t superseded_iff [OF u(2)] by blast
qed

lemma fence_needs_current:
  "assertRunExecutionFenceTx t t' l d = Inr d' \<Longrightarrow> lease_current l d"
  by (auto simp: assertRunExecutionFenceTx_def lease_current_def exactRunLeaseCondition_def db_returning_Nil_iff
      Let_def split: if_splits)

text \<open>C9: fencing is permanent: once a lease has been released, cleared or taken over, no later
  interleaving ever lets its fence check, its renewal or its phase update pass again.\<close>

theorem superseded_lease_fenced_forever:
  assumes "reach lease_init lease_step s" "lease_superseded l (snd s)" "lease_step\<^sup>*\<^sup>* s (now, d)"
  shows "assertRunExecutionFenceTx t t' l d = Inl (Stale_lease (l_runId l)) \<and>
    renewRunExecutionLease l t ttl d = (None, d) \<and>
    (l_phase l \<noteq> phase \<longrightarrow> updateRunExecutionLeasePhase l phase t d = (Inl (Stale_lease (l_runId l)), d))"
proof -
  have "lease_inv s \<and> lease_superseded l (snd s)" using lease_system.reach_inv [OF assms(1)] assms(2) ..
  then have "lease_inv (now, d) \<and> lease_superseded l (snd (now, d))"
    using assms(3) by (rule superseding.steps_inv)
  then have "\<not> lease_current l d" by (simp add: lease_superseded_def)
  then have "db_returning (exactRunLeaseCondition t l) f (db_runs d) = []" for f t
    by (auto simp: lease_current_def db_returning_Nil_iff exactRunLeaseCondition_def)
  then show ?thesis
    by (simp add: assertRunExecutionFenceTx_def renewRunExecutionLease_def updateRunExecutionLeasePhase_def)
qed

text \<open>The first lease of the sample is released and the run is claimed again.\<close>

definition sample_lease :: execution_lease where
  "sample_lease = the (fst sample_claimed)"

definition sample_released :: lease_db where
  "sample_released = snd (releaseRunExecutionLease sample_lease (snd sample_claimed))"

lemma superseded_lease_fenced_forever_witness:
  "assertRunExecutionFenceTx 1 1 sample_lease sample_released = Inl (Stale_lease ''a'')"
proof -
  have "list_all (\<lambda>r. \<not> run_owned_by sample_lease r) (db_runs sample_released)" by code_simp
  then have "\<not> lease_current sample_lease sample_released" by (simp add: lease_current_def list_all_iff)
  moreover have "list_ex (\<lambda>r. r_id r = l_runId sample_lease \<and> l_fencingToken sample_lease \<le> r_fencingToken r)
      (db_runs sample_released)" by code_simp
  then have "lease_issued sample_lease sample_released" by (simp add: lease_issued_def list_ex_iff)
  ultimately have sup: "lease_superseded sample_lease (snd (0::int, sample_released))"
    by (simp add: lease_superseded_def)
  have "reach lease_init lease_step (0, sample_released)"
    using reach_step [OF sample_reach] step_release by (simp add: sample_released_def)
  from superseded_lease_fenced_forever [OF this sup rtranclp.rtrancl_refl]
  have "assertRunExecutionFenceTx 1 1 sample_lease sample_released = Inl (Stale_lease (l_runId sample_lease))"
    by blast
  moreover have "l_runId sample_lease = ''a''" by code_simp
  ultimately show ?thesis by simp
qed


section \<open>Claims\<close>

lemma claimCondition_alt:
  "claimCondition now run r \<longleftrightarrow> r_id r = r_id run \<and> r_fencingToken r = r_fencingToken run \<and>
     r_ownerNodeId r = r_ownerNodeId run \<and> r_ownerInstanceId r = r_ownerInstanceId run \<and>
     (r_ownerNodeId run = None \<and> r_ownerInstanceId run = None \<or>
      r_ownerNodeId run \<noteq> None \<and> r_ownerInstanceId run \<noteq> None \<and> sql_lte (r_leaseExpiresAt run) now \<and>
      sql_lte (r_leaseExpiresAt r) now)"
  unfolding claimCondition_def priorOwnerCondition_def
  by (cases "r_ownerNodeId run"; cases "r_ownerInstanceId run"; cases "sql_lte (r_leaseExpiresAt run) now") auto

lemma priorOwner_cong:
  "claimCondition now run r \<Longrightarrow> claimCondition now run = claimCondition now r"
  unfolding fun_eq_iff claimCondition_alt by auto

text \<open>C31: a claim is linearizable: whatever earlier state its first statement read, the compare-and-set
  makes the transaction either change nothing or act as an atomic claim on the state it commits to.\<close>

theorem claim_linearizable:
  assumes "unique_by r_id (db_runs d)" "read_of run d"
  shows "claim_commit run phase identity now ttl d = (None, d) \<or>
    claim_commit run phase identity now ttl d = claimRunExecutionLease (r_id run) phase identity now ttl d"
proof (cases "\<exists>r \<in> set (db_runs d). claimCondition now run r")
  case False
  then show ?thesis by (simp add: claim_commit_def Let_def db_returning_Nil_iff)
next
  case True
  then obtain r where r: "r \<in> set (db_runs d)" "claimCondition now run r" by blast
  then have eqs: "r_id r = r_id run" "r_fencingToken r = r_fencingToken run" "r_workspaceId r = r_workspaceId run"
    using assms(2) by (auto simp: read_of_def dest: claimConditionD)
  have "db_find (\<lambda>x. r_id x = r_id run) (db_runs d) = Some r"
    using db_find_key [OF assms(1) r(1)] eqs by simp
  then have "claimRunExecutionLease (r_id run) phase identity now ttl d = claim_commit r phase identity now ttl d"
    by (simp add: claimRunExecutionLease_def)
  also have "\<dots> = claim_commit run phase identity now ttl d"
    using eqs priorOwner_cong [OF r(2)] by (simp add: claim_commit_def Let_def)
  finally show ?thesis by simp
qed

lemma claim_linearizable_witness:
  "fst (claim_commit (sample_run ''a'') Plan_phase node_b 5 30 (snd sample_claimed)) = None"
proof -
  have "list_all (\<lambda>r. r_id r = ''a'' \<longrightarrow> r_workspaceId r = ''ws'') (db_runs (snd sample_claimed))" by code_simp
  then have "read_of (sample_run ''a'') (snd sample_claimed)"
    by (simp add: read_of_def list_all_iff sample_run_def)
  moreover have "unique_by r_id (db_runs (snd sample_claimed))"
    using lease_system.reach_inv [OF sample_reach] by (simp add: lease_inv_def)
  moreover have "fst (claimRunExecutionLease (r_id (sample_run ''a'')) Plan_phase node_b 5 30 (snd sample_claimed)) = None"
    by code_simp
  ultimately show ?thesis
    using claim_linearizable [of "snd sample_claimed" "sample_run ''a''" Plan_phase node_b 5 30] by auto
qed

text \<open>When a claim can succeed: the run exists, has no owner or a whole expired one, and its workspace
  is unheld or its lease there has expired.\<close>

definition run_claimable :: "int \<Rightarrow> run_row \<Rightarrow> bool" where
  "run_claimable now r \<longleftrightarrow> r_ownerNodeId r = None \<and> r_ownerInstanceId r = None \<or>
     r_ownerNodeId r \<noteq> None \<and> r_ownerInstanceId r \<noteq> None \<and> sql_lte (r_leaseExpiresAt r) now"

lemma claimCondition_self: "claimCondition now r r \<longleftrightarrow> run_claimable now r"
  by (auto simp: claimCondition_alt run_claimable_def)

lemma workspaceClaimable_reachable:
  assumes "lease_inv (t, d)" "r \<in> set (db_runs d)" "w \<in> set (db_workspaces d)"
  shows "workspaceClaimable now (r_workspaceId r) (r_id r) identity (r_fencingToken r + 1) w \<longleftrightarrow>
    w_id w = r_workspaceId r \<and> (w_executionRunId w = None \<or> sql_lte (w_leaseExpiresAt w) now)"
proof -
  have "w_fencingToken w \<noteq> Some (r_fencingToken r + 1)" if "w_executionRunId w = Some (r_id r)"
    using assms that lease_rows_heldD [of t "set (db_runs d)" "set (db_workspaces d)" w "r_id r"]
    by (auto simp: lease_inv_Pair dest: unique_byD)
  then show ?thesis by (auto simp: workspaceClaimable_def)
qed

lemma claim_commit_iff:
  "fst (claim_commit run phase identity now ttl d) \<noteq> None \<longleftrightarrow>
   (\<exists>r \<in> set (db_runs d). claimCondition now run r) \<and>
   (\<exists>w \<in> set (db_workspaces d). workspaceClaimable now (r_workspaceId run) (r_id run) identity (r_fencingToken run + 1) w)"
  by (auto simp: claim_commit_def Let_def db_returning_Nil_iff)

text \<open>In a reachable state a claim of a run succeeds exactly when the run has no owner or a whole
  expired one and its workspace is unheld or expired there; a claim that does not succeed changes nothing.\<close>

theorem claim_succeeds_iff:
  assumes "reach lease_init lease_step (t, d)" "r \<in> set (db_runs d)"
  shows "(fst (claimRunExecutionLease (r_id r) phase identity now ttl d) \<noteq> None \<longleftrightarrow>
      run_claimable now r \<and> (\<exists>w \<in> set (db_workspaces d). w_id w = r_workspaceId r \<and>
        (w_executionRunId w = None \<or> sql_lte (w_leaseExpiresAt w) now))) \<and>
    (fst (claimRunExecutionLease (r_id r) phase identity now ttl d) = None \<longrightarrow>
      snd (claimRunExecutionLease (r_id r) phase identity now ttl d) = d)"
proof -
  have inv: "lease_inv (t, d)" using assms(1) by (rule lease_system.reach_inv)
  then have u: "unique_by r_id (db_runs d)" by (simp add: lease_inv_Pair)
  then have "db_find (\<lambda>x. r_id x = r_id r) (db_runs d) = Some r" using assms(2) by (rule db_find_key)
  then have eq: "claimRunExecutionLease (r_id r) phase identity now ttl d = claim_commit r phase identity now ttl d"
    by (simp add: claimRunExecutionLease_def)
  have "(\<exists>x \<in> set (db_runs d). claimCondition now r x) \<longleftrightarrow> run_claimable now r"
  proof
    assume "\<exists>x \<in> set (db_runs d). claimCondition now r x"
    then obtain x where x: "x \<in> set (db_runs d)" "claimCondition now r x" by blast
    with u assms(2) have "x = r" by (blast dest: claimConditionD unique_byD)
    with x show "run_claimable now r" by (simp add: claimCondition_self)
  qed (use assms(2) claimCondition_self in blast)
  moreover have "fst (claim_commit r phase identity now ttl d) = None \<longrightarrow> snd (claim_commit r phase identity now ttl d) = d"
    by (simp add: claim_commit_def Let_def)
  moreover have "(\<exists>w \<in> set (db_workspaces d).
      workspaceClaimable now (r_workspaceId r) (r_id r) identity (r_fencingToken r + 1) w) \<longleftrightarrow>
    (\<exists>w \<in> set (db_workspaces d). w_id w = r_workspaceId r \<and>
      (w_executionRunId w = None \<or> sql_lte (w_leaseExpiresAt w) now))"
    using workspaceClaimable_reachable [OF inv assms(2)] by (intro bex_cong) simp_all
  ultimately show ?thesis unfolding eq claim_commit_iff by blast
qed

lemma claim_succeeds_iff_witness:
  "\<not> run_claimable 5 (hd (db_runs (snd sample_claimed)))"
proof -
  have "db_runs (snd sample_claimed) \<noteq> []" by code_simp
  then have "hd (db_runs (snd sample_claimed)) \<in> set (db_runs (snd sample_claimed))" by (rule hd_in_set)
  note claim_succeeds_iff [OF sample_reach this, of Plan_phase node_b 5 30]
  moreover have "fst (claimRunExecutionLease (r_id (hd (db_runs (snd sample_claimed)))) Plan_phase node_b 5 30
      (snd sample_claimed)) = None" by code_simp
  moreover have "list_ex (\<lambda>w. w_id w = r_workspaceId (hd (db_runs (snd sample_claimed)))) (db_workspaces (snd sample_claimed))"
    by code_simp
  moreover have "\<not> run_claimable 5 (hd (db_runs (snd sample_claimed)))" by code_simp
  ultimately show ?thesis by blast
qed

end
