(* ===== verification/LeaseHolder.thy ===== *)
theory LeaseHolder imports LeaseSafety Complex_Main begin

text \<open>
  The executor's side of the run execution lease (\<open>lib/execution-lease.ts\<close>, \<open>lib/lease-deadline.ts\<close>): the
  context kept in \<open>AsyncLocalStorage\<close>, the local checks, and \<open>withRunExecutionLease\<close> as the events of its
  timers and replies. \<open>performance.now()\<close> is a rational argument; the asynchronous waits of the renewal
  are stages, between which any other event may happen.
\<close>

section \<open>Deadlines\<close>

definition conservativeLeaseRemainingMs :: "int \<Rightarrow> int \<Rightarrow> rat \<Rightarrow> rat \<Rightarrow> rat" where
  "conservativeLeaseRemainingMs expiresAt databaseNow queryStartedAt queryFinishedAt =
    (let queryElapsed = max 0 (queryFinishedAt - queryStartedAt) in
     max 0 (of_int expiresAt - of_int databaseNow - queryElapsed))"


section \<open>The local context\<close>

record lease_context =
  c_lease :: execution_lease
  c_valid :: bool
  c_validUntil :: rat

definition context_live :: "rat \<Rightarrow> lease_context \<Rightarrow> bool" where
  "context_live perf c \<longleftrightarrow> c_valid c \<and> perf < c_validUntil c"

definition invalidate :: "lease_context \<Rightarrow> lease_context" where
  "invalidate c = c\<lparr>c_valid := False\<rparr>"

definition currentRunExecutionLease ::
  "rat \<Rightarrow> string option \<Rightarrow> lease_context option \<Rightarrow> (lease_error + execution_lease option) \<times> lease_context option" where
  "currentRunExecutionLease perf runId store = (case store of
     None \<Rightarrow> (Inr None, None)
   | Some c \<Rightarrow>
       if runId \<noteq> None \<and> Some (l_runId (c_lease c)) \<noteq> runId then (Inr None, Some c)
       else if context_live perf c then (Inr (Some (c_lease c)), Some c)
       else (Inl (Stale_lease (l_runId (c_lease c))), Some (invalidate c)))"

definition assertLocalRunExecutionLease ::
  "bool \<Rightarrow> rat \<Rightarrow> string \<Rightarrow> lease_context option \<Rightarrow> (lease_error + unit) \<times> lease_context option" where
  "assertLocalRunExecutionLease ha perf runId store =
    (if \<not> ha then (Inr (), store)
     else case store of
       None \<Rightarrow> (Inl (Stale_lease runId), None)
     | Some c \<Rightarrow>
         if l_runId (c_lease c) \<noteq> runId then (Inl (Stale_lease runId), Some c)
         else if context_live perf c then (Inr (), Some c)
         else (Inl (Stale_lease runId), Some (invalidate c)))"

definition localRunExecutionEvidenceAllowed ::
  "bool \<Rightarrow> rat \<Rightarrow> string \<Rightarrow> lease_context option \<Rightarrow> bool \<times> lease_context option" where
  "localRunExecutionEvidenceAllowed ha perf runId store =
    (if \<not> ha then (True, store)
     else case store of
       None \<Rightarrow> (True, None)
     | Some c \<Rightarrow>
         if l_runId (c_lease c) \<noteq> runId then (True, Some c)
         else if context_live perf c then (True, Some c)
         else (False, Some (invalidate c)))"

text \<open>\<open>work\<close> runs inside the transaction that holds the ownership rows locked.\<close>

definition withCurrentRunExecutionFence ::
  "bool \<Rightarrow> rat \<Rightarrow> int \<Rightarrow> int \<Rightarrow> string \<Rightarrow> lease_context option \<Rightarrow> (lease_db \<Rightarrow> lease_error + 'a) \<Rightarrow> lease_db \<Rightarrow>
   lease_error + 'a" where
  "withCurrentRunExecutionFence ha perf now now' runId store work d =
    (if \<not> ha then work d
     else case fst (currentRunExecutionLease perf (Some runId) store) of
       Inl e \<Rightarrow> Inl e
     | Inr None \<Rightarrow> Inl (Stale_lease runId)
     | Inr (Some l) \<Rightarrow>
         (case assertRunExecutionFenceTx now now' l d of Inl e \<Rightarrow> Inl e | Inr d' \<Rightarrow> work d'))"


section \<open>Around the work\<close>

definition filter_option :: "('a \<Rightarrow> bool) \<Rightarrow> 'a option \<Rightarrow> 'a option" where
  "filter_option p x = (case x of None \<Rightarrow> None | Some y \<Rightarrow> if p y then Some y else None)"

datatype renewal_stage = Idle | Renewing | Confirming execution_lease rat

record holder =
  h_context :: lease_context
  h_stopped :: bool
  h_lost :: bool
  h_renewTimer :: bool
  h_watchdog :: "rat option"
  h_stage :: renewal_stage

definition stopTimers :: "holder \<Rightarrow> holder" where
  "stopTimers h = h\<lparr>h_renewTimer := False, h_watchdog := None\<rparr>"

definition lose :: "holder \<Rightarrow> holder" where
  "lose h = (if h_stopped h \<or> h_lost h then h
     else stopTimers (h\<lparr>h_lost := True, h_context := invalidate (h_context h)\<rparr>))"

definition armWatchdog :: "rat \<Rightarrow> rat \<Rightarrow> holder \<Rightarrow> holder" where
  "armWatchdog perf remainingMs h = (if h_stopped h \<or> h_lost h then h
     else h\<lparr>h_context := (h_context h)\<lparr>c_validUntil := perf + remainingMs\<rparr>,
            h_watchdog := Some (perf + remainingMs)\<rparr>)"

definition scheduleRenewal :: "holder \<Rightarrow> holder" where
  "scheduleRenewal h = (if h_stopped h \<or> h_lost h then h else h\<lparr>h_renewTimer := True, h_stage := Idle\<rparr>)"

text \<open>
  Entering: without high availability the work just runs; inside a context of the same run the phase
  is updated; otherwise a lease is claimed and its lifetime confirmed by a second reading of the
  database clock (\<open>None\<close> when that reading fails).
\<close>

datatype enter_result =
  Run_unleased
| Enter_failed lease_error
| Inherited lease_context
| Started holder

definition claimAndConfirm ::
  "bool \<Rightarrow> string \<Rightarrow> run_execution_phase \<Rightarrow> lease_identity \<Rightarrow> int \<Rightarrow> int option \<Rightarrow> rat \<Rightarrow> rat \<Rightarrow> rat \<Rightarrow>
   lease_db \<Rightarrow> enter_result \<times> lease_db" where
  "claimAndConfirm draining runId phase identity claimNow confirmed queryStarted queryFinished armAt d =
    (if draining then (Enter_failed (Lease_unavailable runId), d)
     else case claimRunExecutionLease runId phase identity claimNow RUN_EXECUTION_LEASE_TTL_MS d of
       (None, d') \<Rightarrow> (Enter_failed (Lease_unavailable runId), d')
     | (Some l, d') \<Rightarrow>
         (case confirmed of
            None \<Rightarrow> (Enter_failed (Lease_unavailable runId), snd (releaseRunExecutionLease l d'))
          | Some dbNow \<Rightarrow>
              let remaining = conservativeLeaseRemainingMs (l_expiresAt l) dbNow queryStarted queryFinished in
              if remaining \<le> 0 then (Enter_failed (Lease_unavailable runId), snd (releaseRunExecutionLease l d'))
              else (Started (scheduleRenewal (armWatchdog armAt remaining
                \<lparr>h_context = \<lparr>c_lease = l, c_valid = True, c_validUntil = armAt + remaining\<rparr>,
                  h_stopped = False, h_lost = False, h_renewTimer = False, h_watchdog = None, h_stage = Idle\<rparr>)), d')))"

definition withRunExecutionLease_enter ::
  "bool \<Rightarrow> lease_context option \<Rightarrow> bool \<Rightarrow> string \<Rightarrow> run_execution_phase \<Rightarrow> lease_identity \<Rightarrow> rat \<Rightarrow> int \<Rightarrow> int \<Rightarrow>
   int option \<Rightarrow> rat \<Rightarrow> rat \<Rightarrow> rat \<Rightarrow> lease_db \<Rightarrow> enter_result \<times> lease_db" where
  "withRunExecutionLease_enter ha inherited draining runId phase identity perf phaseNow claimNow confirmed
     queryStarted queryFinished armAt d =
    (if \<not> ha then (Run_unleased, d)
     else case filter_option (\<lambda>c. l_runId (c_lease c) = runId) inherited of
       None \<Rightarrow> claimAndConfirm draining runId phase identity claimNow confirmed queryStarted queryFinished armAt d
     | Some c \<Rightarrow>
         if \<not> context_live perf c then (Enter_failed (Stale_lease runId), d)
         else (case updateRunExecutionLeasePhase (c_lease c) phase phaseNow d of
             (Inl e, d') \<Rightarrow> (Enter_failed e, d')
           | (Inr l, d') \<Rightarrow> (Inherited (c\<lparr>c_lease := l\<rparr>), d')))"

text \<open>
  What happens around the work: the renewal timer, the reply of the renewal, the reply of the clock
  reading that confirms it, an error in either, the watchdog, and a local check made by the work.
\<close>

datatype holder_event =
  Renewal_timer
| Renewal_reply int
| Confirm_reply int rat rat
| Renewal_error
| Watchdog_timer rat
| Local_check rat

definition release_best_effort :: "execution_lease \<Rightarrow> lease_db \<Rightarrow> lease_db" where
  "release_best_effort l d = snd (releaseRunExecutionLease l d)"

fun holder_step :: "holder_event \<Rightarrow> rat \<Rightarrow> holder \<times> lease_db \<Rightarrow> holder \<times> lease_db" where
  "holder_step Renewal_timer perf (h, d) =
     (if h_renewTimer h then (h\<lparr>h_renewTimer := False, h_stage := Renewing\<rparr>, d) else (h, d))"
| "holder_step (Renewal_reply now) perf (h, d) =
     (if h_stage h \<noteq> Renewing then (h, d)
      else case renewRunExecutionLease (c_lease (h_context h)) now RUN_EXECUTION_LEASE_TTL_MS d of
        (None, d') \<Rightarrow> (lose (h\<lparr>h_stage := Idle\<rparr>), d')
      | (Some l, d') \<Rightarrow>
          if h_lost h \<or> h_stopped h then (h\<lparr>h_stage := Idle\<rparr>, release_best_effort l d')
          else (h\<lparr>h_stage := Confirming l perf\<rparr>, d'))"
| "holder_step (Confirm_reply databaseNow finished armAt) perf (h, d) =
     (case h_stage h of
        Confirming l started \<Rightarrow>
          if h_lost h \<or> h_stopped h then (h\<lparr>h_stage := Idle\<rparr>, release_best_effort l d)
          else
            let remaining = conservativeLeaseRemainingMs (l_expiresAt l) databaseNow started finished;
                h' = h\<lparr>h_context := (h_context h)\<lparr>c_lease := l\<rparr>, h_stage := Idle\<rparr> in
            if remaining \<le> 0 then (lose h', release_best_effort l d)
            else (scheduleRenewal (armWatchdog armAt remaining h'), d)
      | _ \<Rightarrow> (h, d))"
| "holder_step Renewal_error perf (h, d) =
     (if h_stage h = Idle then (h, d) else (lose (h\<lparr>h_stage := Idle\<rparr>), d))"
| "holder_step (Watchdog_timer now) perf (h, d) =
     (case h_watchdog h of
        None \<Rightarrow> (h, d)
      | Some deadline \<Rightarrow> if deadline \<le> now then (lose h, d) else (h, d))"
| "holder_step (Local_check now) perf (h, d) =
     (if context_live now (h_context h) then (h, d)
      else (h\<lparr>h_context := invalidate (h_context h)\<rparr>, d))"

text \<open>The \<open>finally\<close> block and the result of the whole: a lost lease turns a result into an error.\<close>

definition withRunExecutionLease_finish ::
  "(lease_error + 'a) \<Rightarrow> holder \<times> lease_db \<Rightarrow> (lease_error + 'a) \<times> holder \<times> lease_db" where
  "withRunExecutionLease_finish result hdb = (case hdb of (h, d) \<Rightarrow>
    ((case result of
        Inl e \<Rightarrow> Inl e
      | Inr x \<Rightarrow> if h_lost h then Inl (Stale_lease (l_runId (c_lease (h_context h)))) else Inr x),
     stopTimers (h\<lparr>h_stopped := True, h_context := invalidate (h_context h)\<rparr>),
     release_best_effort (c_lease (h_context h)) d))"

fun holder_run :: "(holder_event \<times> rat) list \<Rightarrow> holder \<times> lease_db \<Rightarrow> holder \<times> lease_db" where
  "holder_run [] hdb = hdb"
| "holder_run ((e, perf) # es) hdb = holder_run es (holder_step e perf hdb)"

lemma remaining_nonneg: "0 \<le> conservativeLeaseRemainingMs e n s f"
  by (simp add: conservativeLeaseRemainingMs_def Let_def)

text \<open>
  When the database clock runs \<open>off\<close> ahead of the local clock and the sample was taken after the query
  was sent, a positive remaining time ends before the lease does.
\<close>

lemma remaining_conservative:
  assumes "started + off \<le> of_int databaseNow" "started \<le> finished"
    and "0 < conservativeLeaseRemainingMs e databaseNow started finished"
  shows "finished + conservativeLeaseRemainingMs e databaseNow started finished + off \<le> of_int e"
  using assms by (auto simp: conservativeLeaseRemainingMs_def Let_def max_def split: if_splits)

definition deadline_safe :: "rat \<Rightarrow> holder \<Rightarrow> bool" where
  "deadline_safe off h \<longleftrightarrow>
     (c_valid (h_context h) \<longrightarrow> c_validUntil (h_context h) + off \<le> of_int (l_expiresAt (c_lease (h_context h)))) \<and>
     (h_lost h \<longrightarrow> \<not> c_valid (h_context h)) \<and> (h_stopped h \<longrightarrow> \<not> c_valid (h_context h))"

text \<open>A genuine confirmation: sampled after it was asked for, and used when it arrives.\<close>

fun genuine :: "rat \<Rightarrow> holder_event \<Rightarrow> holder \<Rightarrow> bool" where
  "genuine off (Confirm_reply databaseNow finished armAt) h = (case h_stage h of
     Confirming l started \<Rightarrow> started + off \<le> of_int databaseNow \<and> started \<le> finished \<and> armAt = finished
   | _ \<Rightarrow> True)"
| "genuine off _ h = True"

fun genuine_run :: "rat \<Rightarrow> (holder_event \<times> rat) list \<Rightarrow> holder \<times> lease_db \<Rightarrow> bool" where
  "genuine_run off [] hdb = True"
| "genuine_run off ((e, perf) # es) hdb =
     (genuine off e (fst hdb) \<and> genuine_run off es (holder_step e perf hdb))"

lemmas holder_defs = lose_def armWatchdog_def scheduleRenewal_def stopTimers_def invalidate_def

lemma deadline_safe_step:
  assumes "deadline_safe off h" "genuine off e h"
  shows "deadline_safe off (fst (holder_step e perf (h, d)))"
proof (cases e)
  case (Confirm_reply databaseNow finished armAt)
  show ?thesis
  proof (cases "h_stage h")
    case (Confirming l started)
    let ?rem = "conservativeLeaseRemainingMs (l_expiresAt l) databaseNow started finished"
    have "finished + ?rem + off \<le> of_int (l_expiresAt l)" if "0 < ?rem"
      using assms(2) Confirm_reply Confirming that by (intro remaining_conservative) auto
    with assms Confirm_reply Confirming show ?thesis
      by (auto simp: deadline_safe_def holder_defs Let_def)
  qed (use assms Confirm_reply in auto)
next
  case (Renewal_reply now)
  with assms(1) show ?thesis
    by (cases "renewRunExecutionLease (c_lease (h_context h)) now RUN_EXECUTION_LEASE_TTL_MS d"; cases "h_stage h")
      (auto simp: deadline_safe_def holder_defs split: option.splits)
qed (use assms(1) in \<open>auto simp: deadline_safe_def holder_defs split: option.splits\<close>)

lemma deadline_safe_run:
  "deadline_safe off (fst hdb) \<Longrightarrow> genuine_run off es hdb \<Longrightarrow> deadline_safe off (fst (holder_run es hdb))"
proof (induction es arbitrary: hdb)
  case (Cons a es)
  obtain e perf h d where "a = (e, perf)" "hdb = (h, d)" by (metis surj_pair)
  with Cons deadline_safe_step [of off h e perf d] show ?case by auto
qed simp

text \<open>The local deadline is conservative: as long as every confirmation of the clock was sampled
  after it was asked for, whenever the executor's local check passes the database clock has not
  reached the expiry of the lease it holds, whatever timers, replies and errors came before.\<close>

theorem local_check_implies_unexpired:
  assumes "deadline_safe off (fst hdb)" "genuine_run off es hdb"
    and "context_live perf (h_context (fst (holder_run es hdb)))"
  shows "perf + off < of_int (l_expiresAt (c_lease (h_context (fst (holder_run es hdb)))))"
  using deadline_safe_run [OF assms(1,2)] assms(3) by (auto simp: deadline_safe_def context_live_def)

lemma started_deadline_safe:
  assumes "claimAndConfirm draining runId phase identity claimNow (Some dbNow) started finished finished d = (Started h, d')"
    and "started + off \<le> of_int dbNow" "started \<le> finished"
  shows "deadline_safe off h"
  using assms remaining_conservative [OF assms(2,3)]
  by (auto simp: claimAndConfirm_def deadline_safe_def holder_defs Let_def split: if_splits prod.splits option.splits)

definition sample_holder :: "enter_result \<times> lease_db" where
  "sample_holder = withRunExecutionLease_enter True None False ''a'' Plan_phase node_a 0 0 0 (Some 3) 1 4 4 sample_db"

lemma local_check_implies_unexpired_witness:
  "\<exists>h d. sample_holder = (Started h, d) \<and>
     29000 + 1 < (of_int (l_expiresAt (c_lease (h_context (fst (holder_run [(Watchdog_timer 20, 20)] (h, d)))))) :: rat)"
proof -
  have ex: "case sample_holder of (Started h, d) \<Rightarrow>
      context_live 29000 (h_context (fst (holder_run [(Watchdog_timer 20, 20)] (h, d)))) | _ \<Rightarrow> False"
    by code_simp
  then obtain h d where hdb: "sample_holder = (Started h, d)"
      "context_live 29000 (h_context (fst (holder_run [(Watchdog_timer 20, 20)] (h, d))))"
    by (auto split: prod.splits enter_result.splits)
  have "claimAndConfirm False ''a'' Plan_phase node_a 0 (Some 3) 1 4 4 sample_db = (Started h, d)"
    using hdb(1) by (simp add: sample_holder_def withRunExecutionLease_enter_def filter_option_def)
  then have "deadline_safe 1 h" by (rule started_deadline_safe) simp_all
  with hdb local_check_implies_unexpired [of 1 "(h, d)" "[(Watchdog_timer 20, 20)]" 29000] show ?thesis by auto
qed

lemma invalid_step: "\<not> c_valid (h_context h) \<Longrightarrow> \<not> c_valid (h_context (fst (holder_step e perf (h, d))))"
  by (cases e) (auto simp: holder_defs Let_def split: option.splits renewal_stage.splits prod.splits)

lemma lost_step: "h_lost h \<Longrightarrow> h_lost (fst (holder_step e perf (h, d)))"
  by (cases e) (auto simp: holder_defs Let_def split: option.splits renewal_stage.splits prod.splits)

text \<open>Losing is final: once the local context is invalid no event makes it valid again, and a
  holder that lost its lease never returns the work's result.\<close>

theorem lost_lease_no_result:
  assumes "\<not> c_valid (h_context (fst hdb))" "h_lost (fst hdb)"
  shows "\<not> context_live perf (h_context (fst (holder_run es hdb))) \<and>
    (\<exists>e. fst (withRunExecutionLease_finish (Inr x) (holder_run es hdb)) = Inl (Stale_lease e))"
proof -
  have "\<not> c_valid (h_context (fst (holder_run es hdb))) \<and> h_lost (fst (holder_run es hdb))"
    using assms
  proof (induction es arbitrary: hdb)
    case (Cons a es)
    obtain e perf h d where "a = (e, perf)" "hdb = (h, d)" by (metis surj_pair)
    with Cons invalid_step lost_step show ?case by auto
  qed simp
  then show ?thesis by (auto simp: context_live_def withRunExecutionLease_finish_def split: prod.splits)
qed

lemma lost_lease_no_result_witness:
  "\<exists>h d e. sample_holder = (Started h, d) \<and>
     fst (withRunExecutionLease_finish (Inr ()) (holder_run [(Renewal_timer, 5001)]
       (holder_step (Watchdog_timer 40000) 40000 (h, d)))) = Inl (Stale_lease e)"
proof -
  have "case sample_holder of (Started h, d) \<Rightarrow>
      \<not> c_valid (h_context (fst (holder_step (Watchdog_timer 40000) 40000 (h, d)))) \<and>
      h_lost (fst (holder_step (Watchdog_timer 40000) 40000 (h, d))) | _ \<Rightarrow> False"
    by code_simp
  then obtain h d where hdb: "sample_holder = (Started h, d)"
      "\<not> c_valid (h_context (fst (holder_step (Watchdog_timer 40000) 40000 (h, d))))"
      "h_lost (fst (holder_step (Watchdog_timer 40000) 40000 (h, d)))"
    by (auto split: prod.splits enter_result.splits)
  with lost_lease_no_result [OF hdb(2,3), of 0 "[(Renewal_timer, 5001)]" "()"] show ?thesis by blast
qed

end
