(* ===== verification/JsValues.thy ===== *)
theory JsValues imports Prelude Complex_Main "HOL-Library.Char_ord" begin

text \<open>
  Values of the JavaScript runtime the components read: numbers, JSON values with their objects as maps
  of distinct keys, \<open>undefined\<close> as \<open>None\<close>, the results of functions that throw, and the string functions
  the code calls. Strings are UTF-8 bytes.
\<close>

section \<open>Numbers\<close>

datatype js_number = Finite rat | Infinite bool | NaN

definition MAX_SAFE_INTEGER :: int where "MAX_SAFE_INTEGER = 9007199254740991"

definition js_safe_integer :: "js_number \<Rightarrow> int option" where
  "js_safe_integer n = (case n of
     Finite q \<Rightarrow> if of_int \<lfloor>q\<rfloor> = q \<and> \<bar>\<lfloor>q\<rfloor>\<bar> \<le> MAX_SAFE_INTEGER then Some \<lfloor>q\<rfloor> else None
   | _ \<Rightarrow> None)"

lemma js_safe_integer_of_int [simp]:
  "js_safe_integer (Finite (of_int i)) = (if \<bar>i\<bar> \<le> MAX_SAFE_INTEGER then Some i else None)"
  by (simp add: js_safe_integer_def)

lemma js_safe_integerD: "js_safe_integer n = Some i \<Longrightarrow> n = Finite (of_int i) \<and> \<bar>i\<bar> \<le> MAX_SAFE_INTEGER"
  by (auto simp: js_safe_integer_def split: js_number.splits if_splits)


section \<open>JSON\<close>

datatype json =
  JNull
| JBool bool
| JNum js_number
| JStr string
| JArr "json list"
| JObj "(string \<times> json) list"

text \<open>\<open>typeof v === "object" && v !== null && !Array.isArray(v)\<close>\<close>

definition json_record :: "json \<Rightarrow> (string, json) js_map option" where
  "json_record v = (case v of JObj m \<Rightarrow> Some m | _ \<Rightarrow> None)"

definition json_string :: "json option \<Rightarrow> string option" where
  "json_string v = (case v of Some (JStr s) \<Rightarrow> Some s | _ \<Rightarrow> None)"

text \<open>\<open>a ?? b\<close> replaces both \<open>undefined\<close> and \<open>null\<close>.\<close>

definition json_or :: "json option \<Rightarrow> json option \<Rightarrow> json option" where
  "json_or a b = (case a of None \<Rightarrow> b | Some JNull \<Rightarrow> b | Some v \<Rightarrow> Some v)"

definition json_keys :: "(string, json) js_map \<Rightarrow> string list" where
  "json_keys m = map fst m"


section \<open>Functions that throw\<close>

definition bind_result :: "'e + 'a \<Rightarrow> ('a \<Rightarrow> 'e + 'b) \<Rightarrow> 'e + 'b" where
  "bind_result r f = (case r of Inl e \<Rightarrow> Inl e | Inr x \<Rightarrow> f x)"

lemma bind_result_simps [simp]: "bind_result (Inl e) f = Inl e" "bind_result (Inr x) f = f x"
  by (simp_all add: bind_result_def)

lemma bind_result_Inr_iff: "bind_result r f = Inr y \<longleftrightarrow> (\<exists>x. r = Inr x \<and> f x = Inr y)"
  by (cases r) auto

text \<open>A loop whose body may throw ends at the first error.\<close>

fun map_result :: "('a \<Rightarrow> 'e + 'b) \<Rightarrow> 'a list \<Rightarrow> 'e + 'b list" where
  "map_result f [] = Inr []"
| "map_result f (x # xs) = bind_result (f x) (\<lambda>y. bind_result (map_result f xs) (\<lambda>ys. Inr (y # ys)))"

lemma map_result_cong [fundef_cong]:
  "xs = ys \<Longrightarrow> (\<And>x. x \<in> set ys \<Longrightarrow> f x = g x) \<Longrightarrow> map_result f xs = map_result g ys"
  by (induction ys arbitrary: xs) auto

lemma map_result_all: "(\<And>x. x \<in> set xs \<Longrightarrow> f x = Inr (h x)) \<Longrightarrow> map_result f xs = Inr (map h xs)"
  by (induction xs) auto

lemma map_result_Inr: "map_result f xs = Inr ys \<Longrightarrow> list_all2 (\<lambda>x y. f x = Inr y) xs ys"
  by (induction xs arbitrary: ys) (auto simp: bind_result_Inr_iff)

lemma map_result_mem: "map_result f xs = Inr ys \<Longrightarrow> y \<in> set ys \<Longrightarrow> \<exists>x \<in> set xs. f x = Inr y"
  by (induction xs arbitrary: ys) (auto simp: bind_result_Inr_iff)


section \<open>Strings\<close>

definition ord_of :: "char \<Rightarrow> nat" where "ord_of c = of_char c"

text \<open>
  White space and line terminators of ECMAScript at the start of a string, by their UTF-8 bytes:
  \<open>strip1\<close> removes one of them.
\<close>

fun strip1 :: "string \<Rightarrow> string option" where
  "strip1 [] = None"
| "strip1 (a # s) =
    (if ord_of a \<in> {9, 10, 11, 12, 13, 32} then Some s
     else case s of
       [] \<Rightarrow> None
     | b # t \<Rightarrow>
         if ord_of a = 194 \<and> ord_of b = 160 then Some t
         else case t of
           [] \<Rightarrow> None
         | c # u \<Rightarrow>
             if ord_of a = 225 \<and> ord_of b = 154 \<and> ord_of c = 128 then Some u
             else if ord_of a = 226 \<and> ord_of b = 128 \<and>
               (128 \<le> ord_of c \<and> ord_of c \<le> 138 \<or> ord_of c \<in> {168, 169, 175}) then Some u
             else if ord_of a = 226 \<and> ord_of b = 129 \<and> ord_of c = 159 then Some u
             else if ord_of a = 227 \<and> ord_of b = 128 \<and> ord_of c = 128 then Some u
             else if ord_of a = 239 \<and> ord_of b = 187 \<and> ord_of c = 191 then Some u
             else None)"

lemma strip1_shorter: "strip1 s = Some t \<Longrightarrow> length t < length s"
  by (cases s) (auto split: if_splits list.splits)

function trim_start :: "string \<Rightarrow> string" where
  "trim_start s = (case strip1 s of None \<Rightarrow> s | Some t \<Rightarrow> trim_start t)"
  by auto
termination by (relation "measure length") (auto dest: strip1_shorter)

declare trim_start.simps [simp del]

definition js_blank :: "string \<Rightarrow> bool" where
  "js_blank s \<longleftrightarrow> trim_start s = []"

fun trim_end :: "string \<Rightarrow> string" where
  "trim_end [] = []"
| "trim_end (c # s) = (if js_blank (c # s) then [] else c # trim_end s)"

definition js_trim :: "string \<Rightarrow> string" where
  "js_trim s = trim_end (trim_start s)"

lemma trim_start_Nil [simp]: "trim_start [] = []" "js_blank []"
  by (simp_all add: js_blank_def trim_start.simps)

lemma js_trim_Nil_iff: "js_trim s = [] \<longleftrightarrow> js_blank s"
proof -
  have stuck: "strip1 (trim_start s) = None" for s
    by (induction s rule: trim_start.induct) (subst trim_start.simps, auto split: option.splits)
  have "trim_start (trim_start s) = trim_start s" using stuck [of s] by (simp add: trim_start.simps [of "trim_start s"])
  then show ?thesis by (cases "trim_start s") (auto simp: js_trim_def js_blank_def)
qed

definition starts_with :: "string \<Rightarrow> string \<Rightarrow> bool" where
  "starts_with p s \<longleftrightarrow> take (length p) s = p"

definition ends_with :: "string \<Rightarrow> string \<Rightarrow> bool" where
  "ends_with p s \<longleftrightarrow> length p \<le> length s \<and> drop (length s - length p) s = p"

definition is_digit :: "char \<Rightarrow> bool" where
  "is_digit c \<longleftrightarrow> 48 \<le> ord_of c \<and> ord_of c \<le> 57"

definition is_lower :: "char \<Rightarrow> bool" where
  "is_lower c \<longleftrightarrow> 97 \<le> ord_of c \<and> ord_of c \<le> 122"

definition is_upper :: "char \<Rightarrow> bool" where
  "is_upper c \<longleftrightarrow> 65 \<le> ord_of c \<and> ord_of c \<le> 90"

definition is_alnum :: "char \<Rightarrow> bool" where
  "is_alnum c \<longleftrightarrow> is_digit c \<or> is_lower c \<or> is_upper c"

text \<open>\<open>toLowerCase\<close> on ASCII letters.\<close>

definition to_lower :: "string \<Rightarrow> string" where
  "to_lower s = map (\<lambda>c. if is_upper c then char_of (ord_of c + 32) else c) s"

text \<open>A natural number in decimal.\<close>

fun nat_string :: "nat \<Rightarrow> string" where
  "nat_string n = (if n < 10 then [char_of (48 + n)] else nat_string (n div 10) @ [char_of (48 + n mod 10)])"

declare nat_string.simps [simp del]

fun split_on :: "char \<Rightarrow> string \<Rightarrow> string list" where
  "split_on d [] = [[]]"
| "split_on d (c # s) = (if c = d then [] # split_on d s
     else case split_on d s of [] \<Rightarrow> [[c]] | w # ws \<Rightarrow> (c # w) # ws)"

lemma split_on_not_Nil [simp]: "split_on d s \<noteq> []"
  by (induction s) (auto split: list.splits)

lemma split_on_no_sep: "d \<notin> set s \<Longrightarrow> split_on d s = [s]"
  by (induction s) auto


text \<open>\<open>encodeURIComponent\<close>: unreserved characters stay, every other byte becomes a percent escape.\<close>

definition uri_unreserved :: "char \<Rightarrow> bool" where
  "uri_unreserved c \<longleftrightarrow> is_alnum c \<or>
     c \<in> {CHR ''-'', CHR ''_'', CHR ''.'', CHR ''!'', CHR ''~'', CHR ''*'', char_of (39::nat), CHR ''('', CHR '')''}"

definition hex_digit :: "nat \<Rightarrow> char" where
  "hex_digit n = (if n < 10 then char_of (48 + n) else char_of (55 + n))"

definition encode_char :: "char \<Rightarrow> string" where
  "encode_char c = (if uri_unreserved c then [c] else [CHR ''%'', hex_digit (ord_of c div 16), hex_digit (ord_of c mod 16)])"

definition encodeURIComponent :: "string \<Rightarrow> string" where
  "encodeURIComponent s = concat (map encode_char s)"

fun join_with :: "char \<Rightarrow> string list \<Rightarrow> string" where
  "join_with d [] = []"
| "join_with d [w] = w"
| "join_with d (w # v # ws) = w @ d # join_with d (v # ws)"

lemma ord_of_less: "ord_of c < 256"
  by (simp add: ord_of_def)

lemma ord_of_char_of: "n < 256 \<Longrightarrow> ord_of (char_of n) = n"
  by (simp add: ord_of_def)

lemma ord_of_inj: "ord_of a = ord_of b \<longleftrightarrow> a = b"
  by (simp add: ord_of_def)

lemma ord_hex_digit: "n < 16 \<Longrightarrow> ord_of (hex_digit n) = (if n < 10 then 48 + n else 55 + n)"
  by (simp add: hex_digit_def ord_of_char_of)

lemma hex_digit_inj: "m < 16 \<Longrightarrow> n < 16 \<Longrightarrow> hex_digit m = hex_digit n \<Longrightarrow> m = n"
  by (auto simp: ord_of_inj [symmetric] ord_hex_digit split: if_splits)

lemma hex_digit_alnum: "n < 16 \<Longrightarrow> is_alnum (hex_digit n)"
  by (auto simp: is_alnum_def is_digit_def is_upper_def ord_hex_digit)

lemma percent_reserved: "\<not> uri_unreserved (CHR ''%'')" and colon_reserved: "\<not> uri_unreserved (CHR '':'')"
  by code_simp+

lemma encode_char_chars: "c \<in> set (encode_char a) \<Longrightarrow> uri_unreserved c \<or> c = CHR ''%''"
  using ord_of_less [of a] by (auto simp: encode_char_def uri_unreserved_def hex_digit_alnum split: if_splits)

lemma encode_colon_free: "CHR '':'' \<notin> set (encodeURIComponent s)"
  using colon_reserved by (auto simp: encodeURIComponent_def dest: encode_char_chars)

lemma encode_inj: "encodeURIComponent s = encodeURIComponent t \<Longrightarrow> s = t"
proof (induction s arbitrary: t)
  case Nil
  then show ?case by (cases t) (auto simp: encodeURIComponent_def encode_char_def split: if_splits)
next
  case (Cons a s)
  then obtain b u where t: "t = b # u"
    by (cases t) (auto simp: encodeURIComponent_def encode_char_def split: if_splits)
  have eq: "encode_char a @ encodeURIComponent s = encode_char b @ encodeURIComponent u"
    using Cons.prems by (simp add: t encodeURIComponent_def)
  have b16: "ord_of c div 16 < 16" "ord_of c mod 16 < 16" for c using ord_of_less [of c] by auto
  have "a = b \<and> encodeURIComponent s = encodeURIComponent u"
  proof (cases "uri_unreserved a = uri_unreserved b")
    case True
    then show ?thesis
    proof (cases "uri_unreserved a")
      case True
      with \<open>uri_unreserved a = uri_unreserved b\<close> eq show ?thesis by (simp add: encode_char_def)
    next
      case False
      with True eq have h: "hex_digit (ord_of a div 16) = hex_digit (ord_of b div 16)"
        "hex_digit (ord_of a mod 16) = hex_digit (ord_of b mod 16)" "encodeURIComponent s = encodeURIComponent u"
        by (simp_all add: encode_char_def)
      then have "ord_of a div 16 = ord_of b div 16" "ord_of a mod 16 = ord_of b mod 16"
        using hex_digit_inj b16 by blast+
      then have "ord_of a = ord_of b" by (metis div_mult_mod_eq)
      with h(3) show ?thesis by (simp add: ord_of_inj)
    qed
  next
    case False
    with eq percent_reserved show ?thesis by (auto simp: encode_char_def split: if_splits)
  qed
  with Cons.IH t show ?case by simp
qed

lemma append_sep_inj:
  assumes "x @ d # y = x' @ d # y'" "d \<notin> set x" "d \<notin> set x'"
  shows "x = x' \<and> y = y'"
  using assms
proof (induction x arbitrary: x')
  case Nil
  then show ?case by (cases x') auto
next
  case (Cons a x)
  then show ?case by (cases x') auto
qed

lemma join_inj:
  assumes "length ws = length vs" "\<forall>w \<in> set ws. d \<notin> set w" "\<forall>v \<in> set vs. d \<notin> set v"
    and "join_with d ws = join_with d vs"
  shows "ws = vs"
  using assms
proof (induction d ws arbitrary: vs rule: join_with.induct)
  case (3 d w w' ws)
  then obtain v v' us where vs: "vs = v # v' # us" by (metis Suc_length_conv)
  with 3(5) have "w @ d # join_with d (w' # ws) = v @ d # join_with d (v' # us)" by simp
  moreover have "d \<notin> set w" "d \<notin> set v" using 3(3,4) vs by auto
  ultimately have "w = v" "join_with d (w' # ws) = join_with d (v' # us)" using append_sep_inj by metis+
  moreover have "w' # ws = v' # us" by (rule 3(1)) (use 3 vs calculation in auto)
  ultimately show ?case using vs by simp
next
  case (2 d w)
  then show ?case by (cases vs) auto
qed simp

end
