(* ===== verification/ResourceBudgets.thy ===== *)
theory ResourceBudgets imports JsValues begin

text \<open>
  The capacity policy of \<open>lib/resource-budgets.ts\<close>: the operator's configuration, the admission of a
  request to the durable queue, the selection of the next job and its explanation.

  Quotients of small integers are rational numbers. The code computes them as doubles; both sides of a
  comparison add the same second summand and their first summands are quotients of integers below
  \<open>2^11\<close>, so rounding neither swaps nor merges them. \<open>localeCompare\<close> is the argument \<open>lc\<close>, \<open>JSON.parse\<close>
  the argument \<open>parse\<close> (\<open>None\<close> when it throws).
\<close>

section \<open>Data\<close>

datatype resource_job_class =
  Critical | Cancellation | Health | State_critical | Run | Plan | Explanation | Export | Background

definition RESOURCE_JOB_CLASSES :: "resource_job_class list" where
  "RESOURCE_JOB_CLASSES =
    [Critical, Cancellation, Health, State_critical, Run, Plan, Explanation, Export, Background]"

fun class_name :: "resource_job_class \<Rightarrow> string" where
  "class_name Critical = ''critical''"
| "class_name Cancellation = ''cancellation''"
| "class_name Health = ''health''"
| "class_name State_critical = ''state-critical''"
| "class_name Run = ''run''"
| "class_name Plan = ''plan''"
| "class_name Explanation = ''explanation''"
| "class_name Export = ''export''"
| "class_name Background = ''background''"

definition class_of_name :: "string \<Rightarrow> resource_job_class option" where
  "class_of_name s = List.find (\<lambda>c. class_name c = s) RESOURCE_JOB_CLASSES"

record organization_budget =
  ob_concurrency :: int
  ob_queue :: int
  ob_artifactBytes :: int

record organization_override =
  oo_concurrency :: "int option"
  oo_queue :: "int option"
  oo_artifactBytes :: "int option"

record global_budget =
  gb_concurrency :: int
  gb_queue :: int
  gb_artifactBytes :: int
  gb_reservedCriticalSlots :: int

record class_limit =
  cl_concurrency :: int
  cl_queue :: int

record budget_config =
  bc_global :: global_budget
  bc_organization :: organization_budget
  bc_classes :: "resource_job_class \<Rightarrow> class_limit"
  bc_organizationOverrides :: "(string, organization_override) js_map"

record budget_job =
  bj_id :: string
  bj_organizationId :: "string option"
  bj_jobClass :: resource_job_class
  bj_estimatedBytes :: int
  bj_runAfter :: int
  bj_createdAt :: int

record budget_state =
  bs_queued :: "budget_job list"
  bs_running :: "budget_job list"

datatype rejection_reason =
  Global_queue_limit | Organization_queue_limit | Class_queue_limit | Artifact_bytes_limit

record budget_admission =
  ba_accepted :: bool
  ba_reason :: "rejection_reason option"
  ba_retryAfterMs :: "int option"
  ba_queuePosition :: "nat option"

datatype reason_code =
  Ready | Scheduled | Global_concurrency | Organization_concurrency | Class_concurrency
| Global_artifact_bytes | Organization_artifact_bytes | Reserved_capacity | Fairness | No_eligible_candidate

record budget_inspection =
  bi_eligible :: bool
  bi_reasonCode :: reason_code
  bi_queuePosition :: "nat option"
  bi_positionQualified :: bool
  bi_competingJobClass :: "resource_job_class option"

definition RESOURCE_BUDGET_CONFIG_MAX_BYTES :: nat where "RESOURCE_BUDGET_CONFIG_MAX_BYTES = 64 * 1024"
definition RESOURCE_BUDGET_RETRY_AFTER_MS :: int where "RESOURCE_BUDGET_RETRY_AFTER_MS = 1000"

definition DEFAULT_GLOBAL :: global_budget where
  "DEFAULT_GLOBAL = \<lparr>gb_concurrency = 5, gb_queue = 1000, gb_artifactBytes = 256 * 1024 * 1024,
     gb_reservedCriticalSlots = 1\<rparr>"

definition DEFAULT_ORGANIZATION :: organization_budget where
  "DEFAULT_ORGANIZATION = \<lparr>ob_concurrency = 5, ob_queue = 500, ob_artifactBytes = 128 * 1024 * 1024\<rparr>"

fun DEFAULT_CLASS_LIMITS :: "resource_job_class \<Rightarrow> class_limit" where
  "DEFAULT_CLASS_LIMITS Critical = \<lparr>cl_concurrency = 5, cl_queue = 100\<rparr>"
| "DEFAULT_CLASS_LIMITS Cancellation = \<lparr>cl_concurrency = 5, cl_queue = 100\<rparr>"
| "DEFAULT_CLASS_LIMITS Health = \<lparr>cl_concurrency = 2, cl_queue = 100\<rparr>"
| "DEFAULT_CLASS_LIMITS State_critical = \<lparr>cl_concurrency = 3, cl_queue = 100\<rparr>"
| "DEFAULT_CLASS_LIMITS Run = \<lparr>cl_concurrency = 4, cl_queue = 500\<rparr>"
| "DEFAULT_CLASS_LIMITS Plan = \<lparr>cl_concurrency = 3, cl_queue = 500\<rparr>"
| "DEFAULT_CLASS_LIMITS Explanation = \<lparr>cl_concurrency = 2, cl_queue = 200\<rparr>"
| "DEFAULT_CLASS_LIMITS Export = \<lparr>cl_concurrency = 2, cl_queue = 200\<rparr>"
| "DEFAULT_CLASS_LIMITS Background = \<lparr>cl_concurrency = 2, cl_queue = 500\<rparr>"


section \<open>Configuration\<close>

datatype config_error =
  Invalid_value string
| Invalid_object string
| Unsupported_key string
| Exceeds_size_limit
| Invalid_json
| Not_an_object
| Reserved_exceeds_concurrency
| Classes_not_object
| Unsupported_class
| Organizations_not_object
| Invalid_organization_key

definition readInteger :: "json option \<Rightarrow> string \<Rightarrow> int \<Rightarrow> int \<Rightarrow> config_error + int option" where
  "readInteger value nm minimum maximum = (case value of
     None \<Rightarrow> Inr None
   | Some (JNum n) \<Rightarrow> (case js_safe_integer n of
       None \<Rightarrow> Inl (Invalid_value nm)
     | Some i \<Rightarrow> if i < minimum \<or> maximum < i then Inl (Invalid_value nm) else Inr (Some i))
   | _ \<Rightarrow> Inl (Invalid_value nm))"

definition readBudgetInput :: "json \<Rightarrow> string \<Rightarrow> string list \<Rightarrow> config_error + (string, json) js_map" where
  "readBudgetInput value nm allowed = (case json_record value of
     None \<Rightarrow> Inl (Invalid_object nm)
   | Some m \<Rightarrow> if list_ex (\<lambda>key. key \<notin> set allowed) (json_keys m) then Inl (Unsupported_key nm) else Inr m)"

text \<open>\<open>readInteger(input?.field, ..) ?? fallback\<close>\<close>

definition readOr :: "(string, json) js_map option \<Rightarrow> string \<Rightarrow> string \<Rightarrow> int \<Rightarrow> int \<Rightarrow> int \<Rightarrow> config_error + int" where
  "readOr input field nm minimum maximum fallback =
    bind_result (readInteger (Option.bind input (\<lambda>m. js_get m field)) (nm @ ''.'' @ field) minimum maximum)
      (\<lambda>v. Inr (js_default v fallback))"

definition boundedOrganization ::
  "(string, json) js_map option \<Rightarrow> organization_budget \<Rightarrow> string \<Rightarrow> config_error + organization_budget" where
  "boundedOrganization value fallback nm = (case value of
     None \<Rightarrow> Inr fallback
   | Some m \<Rightarrow>
       bind_result (readOr (Some m) ''concurrency'' nm 1 1024 (ob_concurrency fallback)) (\<lambda>c.
       bind_result (readOr (Some m) ''queue'' nm 1 1000000 (ob_queue fallback)) (\<lambda>q.
       bind_result (readOr (Some m) ''artifactBytes'' nm 1 (10 * 1024 * 1024 * 1024) (ob_artifactBytes fallback)) (\<lambda>a.
       Inr \<lparr>ob_concurrency = c, ob_queue = q, ob_artifactBytes = a\<rparr>))))"

definition parseConfigInput :: "(string \<Rightarrow> json option) \<Rightarrow> string \<Rightarrow> config_error + (string, json) js_map" where
  "parseConfigInput parse raw =
    (if RESOURCE_BUDGET_CONFIG_MAX_BYTES < length raw then Inl Exceeds_size_limit
     else case parse raw of
       None \<Rightarrow> Inl Invalid_json
     | Some parsed \<Rightarrow> (case json_record parsed of
         None \<Rightarrow> Inl Not_an_object
       | Some m \<Rightarrow>
           if list_ex (\<lambda>key. key \<notin> set [''global'', ''organization'', ''classes'', ''organizations'']) (json_keys m)
           then Inl (Unsupported_key []) else Inr m))"

text \<open>A sub-object that may be absent.\<close>

definition readOptionalInput ::
  "json option \<Rightarrow> string \<Rightarrow> string list \<Rightarrow> config_error + (string, json) js_map option" where
  "readOptionalInput value nm allowed = (case value of
     None \<Rightarrow> Inr None
   | Some v \<Rightarrow> bind_result (readBudgetInput v nm allowed) (\<lambda>m. Inr (Some m)))"

definition parseGlobalBudget :: "json option \<Rightarrow> config_error + global_budget" where
  "parseGlobalBudget raw =
    bind_result (readOptionalInput raw ''global'' [''concurrency'', ''queue'', ''artifactBytes'', ''reservedCriticalSlots''])
    (\<lambda>input.
     bind_result (readOr input ''concurrency'' ''global'' 1 1024 (gb_concurrency DEFAULT_GLOBAL)) (\<lambda>c.
     bind_result (readOr input ''queue'' ''global'' 1 1000000 (gb_queue DEFAULT_GLOBAL)) (\<lambda>q.
     bind_result (readOr input ''artifactBytes'' ''global'' 1 (10 * 1024 * 1024 * 1024)
       (gb_artifactBytes DEFAULT_GLOBAL)) (\<lambda>a.
     bind_result (readOr input ''reservedCriticalSlots'' ''global'' 0 1024
       (gb_reservedCriticalSlots DEFAULT_GLOBAL)) (\<lambda>r.
     if c < r then Inl Reserved_exceeds_concurrency
     else Inr \<lparr>gb_concurrency = c, gb_queue = q, gb_artifactBytes = a, gb_reservedCriticalSlots = r\<rparr>)))))"

definition parseClassLimit ::
  "(string, json) js_map option \<Rightarrow> resource_job_class \<Rightarrow> config_error + class_limit" where
  "parseClassLimit classes jobClass =
    (let nm = ''classes.'' @ class_name jobClass; fallback = DEFAULT_CLASS_LIMITS jobClass in
     bind_result (readOptionalInput (Option.bind classes (\<lambda>m. js_get m (class_name jobClass))) nm
       [''concurrency'', ''queue'']) (\<lambda>input.
     bind_result (readOr input ''concurrency'' nm 1 1024 (cl_concurrency fallback)) (\<lambda>c.
     bind_result (readOr input ''queue'' nm 1 1000000 (cl_queue fallback)) (\<lambda>q.
     Inr \<lparr>cl_concurrency = c, cl_queue = q\<rparr>))))"

text \<open>A field that must be an object when it is there.\<close>

definition optionalRecord :: "json option \<Rightarrow> config_error \<Rightarrow> config_error + (string, json) js_map option" where
  "optionalRecord value err = (case value of
     None \<Rightarrow> Inr None
   | Some v \<Rightarrow> (case json_record v of None \<Rightarrow> Inl err | Some m \<Rightarrow> Inr (Some m)))"

definition parseClassLimits :: "(string, json) js_map \<Rightarrow> config_error + (resource_job_class \<Rightarrow> class_limit)" where
  "parseClassLimits input =
    bind_result (optionalRecord (js_get input ''classes'') Classes_not_object) (\<lambda>classes.
    bind_result (map_result (\<lambda>c. bind_result (parseClassLimit classes c) (\<lambda>l. Inr (c, l))) RESOURCE_JOB_CLASSES)
    (\<lambda>limits.
     if list_ex (\<lambda>key. class_of_name key = None) (case classes of None \<Rightarrow> [] | Some m \<Rightarrow> json_keys m)
     then Inl Unsupported_class
     else Inr (\<lambda>c. js_default (js_get limits c) (DEFAULT_CLASS_LIMITS c))))"

definition organization_budget_key :: "string \<Rightarrow> bool" where
  "organization_budget_key s \<longleftrightarrow> 1 \<le> length s \<and> length s \<le> 256 \<and>
     list_all (\<lambda>c. is_alnum c \<or> c \<in> {CHR ''.'', CHR ''_'', CHR '':'', CHR ''-''}) s"

definition parseOrganizationOverride :: "string \<Rightarrow> json \<Rightarrow> config_error + organization_override" where
  "parseOrganizationOverride organizationId value =
    (let nm = ''organizations.'' @ organizationId in
     bind_result (readBudgetInput value nm [''concurrency'', ''queue'', ''artifactBytes'']) (\<lambda>m.
     bind_result (readInteger (js_get m ''concurrency'') (nm @ ''.concurrency'') 1 1024) (\<lambda>c.
     bind_result (readInteger (js_get m ''queue'') (nm @ ''.queue'') 1 1000000) (\<lambda>q.
     bind_result (readInteger (js_get m ''artifactBytes'') (nm @ ''.artifactBytes'') 1 (10 * 1024 * 1024 * 1024)) (\<lambda>a.
     Inr \<lparr>oo_concurrency = c, oo_queue = q, oo_artifactBytes = a\<rparr>)))))"

definition parseOrganizationOverrides ::
  "(string, json) js_map \<Rightarrow> config_error + (string, organization_override) js_map" where
  "parseOrganizationOverrides input =
    bind_result (optionalRecord (js_get input ''organizations'') Organizations_not_object) (\<lambda>orgs.
    map_result (\<lambda>(organizationId, value).
      if \<not> organization_budget_key organizationId then Inl Invalid_organization_key
      else bind_result (parseOrganizationOverride organizationId value) (\<lambda>r. Inr (organizationId, r)))
      (js_default orgs []))"

definition defaultResourceBudgetConfig :: budget_config where
  "defaultResourceBudgetConfig = \<lparr>bc_global = DEFAULT_GLOBAL, bc_organization = DEFAULT_ORGANIZATION,
     bc_classes = DEFAULT_CLASS_LIMITS, bc_organizationOverrides = []\<rparr>"

definition parseResourceBudgetConfig :: "(string \<Rightarrow> json option) \<Rightarrow> string option \<Rightarrow> config_error + budget_config" where
  "parseResourceBudgetConfig parse environment = (case environment of
     None \<Rightarrow> Inr defaultResourceBudgetConfig
   | Some raw \<Rightarrow>
       if js_trim raw = [] then Inr defaultResourceBudgetConfig
       else
         bind_result (parseConfigInput parse raw) (\<lambda>input.
         bind_result (parseGlobalBudget (js_get input ''global'')) (\<lambda>global.
         bind_result (readOptionalInput (js_get input ''organization'') ''organization''
           [''concurrency'', ''queue'', ''artifactBytes'']) (\<lambda>organizationInput.
         bind_result (boundedOrganization organizationInput DEFAULT_ORGANIZATION ''organization'') (\<lambda>organization.
         bind_result (parseClassLimits input) (\<lambda>classes.
         bind_result (parseOrganizationOverrides input) (\<lambda>overrides.
         Inr \<lparr>bc_global = global, bc_organization = organization, bc_classes = classes,
               bc_organizationOverrides = overrides\<rparr>)))))))"

definition organizationBudget :: "budget_config \<Rightarrow> string option \<Rightarrow> organization_budget" where
  "organizationBudget config organizationId =
    (let override = (case organizationId of None \<Rightarrow> None | Some i \<Rightarrow> js_get (bc_organizationOverrides config) i);
         base = bc_organization config in
     \<lparr>ob_concurrency = js_default (Option.bind override oo_concurrency) (ob_concurrency base),
      ob_queue = js_default (Option.bind override oo_queue) (ob_queue base),
      ob_artifactBytes = js_default (Option.bind override oo_artifactBytes) (ob_artifactBytes base)\<rparr>)"


section \<open>Jobs\<close>

definition resourceJobClassForDurableKind :: "string \<Rightarrow> resource_job_class" where
  "resourceJobClassForDurableKind kind =
    (if kind = ''plan-explanation'' then Explanation
     else if kind = ''stack-deployment'' then Run
     else if kind = ''stack-configuration'' \<or> kind = ''module-test'' then Plan
     else if kind = ''vcs-webhook'' then Critical
     else if kind = ''outbox-delivery'' then Critical
     else if kind = ''explorer-inventory'' \<or> kind = ''explorer-catalog'' then Background
     else Background)"

definition classFromPayload :: "string \<Rightarrow> (string, json) js_map \<Rightarrow> resource_job_class" where
  "classFromPayload kind payload =
    js_default (Option.bind (json_string (js_get payload ''jobClass'')) class_of_name)
      (resourceJobClassForDurableKind kind)"

definition stringOrNull :: "json option \<Rightarrow> string option" where
  "stringOrNull value = (case json_string value of Some s \<Rightarrow> if s = [] then None else Some s | None \<Rightarrow> None)"

definition nonNegativeBytes :: "json option \<Rightarrow> int" where
  "nonNegativeBytes value = (case value of
     Some (JNum n) \<Rightarrow> (case js_safe_integer n of Some i \<Rightarrow> if 0 \<le> i then i else 0 | None \<Rightarrow> 0)
   | _ \<Rightarrow> 0)"

definition resourceBudgetJobFromDurable ::
  "string \<Rightarrow> string \<Rightarrow> (string, json) js_map \<Rightarrow> int \<Rightarrow> int \<Rightarrow> budget_job" where
  "resourceBudgetJobFromDurable i kind payload runAfter createdAt =
    \<lparr>bj_id = i,
     bj_organizationId = stringOrNull (json_or (js_get payload ''organizationId'') (js_get payload ''orgId'')),
     bj_jobClass = classFromPayload kind payload,
     bj_estimatedBytes = nonNegativeBytes (js_get payload ''estimatedBytes''),
     bj_runAfter = runAfter, bj_createdAt = createdAt\<rparr>"

fun isProtected :: "resource_job_class \<Rightarrow> bool" where
  "isProtected c = (c = Critical \<or> c = Cancellation \<or> c = Health \<or> c = State_critical)"

definition classRank :: "resource_job_class \<Rightarrow> int" where
  "classRank c = (if isProtected c then 0 else 1)"

definition utilization :: "int \<Rightarrow> int \<Rightarrow> rat" where
  "utilization active limit = of_int active / of_int (max 1 limit)"

definition compareJobs :: "(string \<Rightarrow> string \<Rightarrow> int) \<Rightarrow> budget_job \<Rightarrow> budget_job \<Rightarrow> int" where
  "compareJobs lc left right =
    (if bj_runAfter left \<noteq> bj_runAfter right then bj_runAfter left - bj_runAfter right
     else if bj_createdAt left \<noteq> bj_createdAt right then bj_createdAt left - bj_createdAt right
     else lc (bj_id left) (bj_id right))"

definition sum_bytes :: "budget_job list \<Rightarrow> int" where
  "sum_bytes jobs = sum_list (map bj_estimatedBytes jobs)"

definition same_org :: "budget_job \<Rightarrow> budget_job \<Rightarrow> bool" where
  "same_org request job \<longleftrightarrow> bj_organizationId job = bj_organizationId request"

definition same_class :: "budget_job \<Rightarrow> budget_job \<Rightarrow> bool" where
  "same_class request job \<longleftrightarrow> bj_jobClass job = bj_jobClass request"

abbreviation count_if :: "('a \<Rightarrow> bool) \<Rightarrow> 'a list \<Rightarrow> int" where
  "count_if p xs \<equiv> int (length (filter p xs))"


section \<open>Admission\<close>

definition reject :: "rejection_reason \<Rightarrow> int option \<Rightarrow> budget_admission" where
  "reject reason retry =
    \<lparr>ba_accepted = False, ba_reason = Some reason, ba_retryAfterMs = retry, ba_queuePosition = None\<rparr>"

definition assessResourceBudget :: "budget_config \<Rightarrow> budget_state \<Rightarrow> budget_job \<Rightarrow> budget_admission" where
  "assessResourceBudget config state request =
    (let organization = organizationBudget config (bj_organizationId request);
         queued = bs_queued state; running = bs_running state;
         global = bc_global config;
         retry = Some RESOURCE_BUDGET_RETRY_AFTER_MS in
     if min (gb_artifactBytes global) (ob_artifactBytes organization) < bj_estimatedBytes request
     then reject Artifact_bytes_limit None
     else if gb_queue global \<le> int (length queued) then reject Global_queue_limit retry
     else if ob_queue organization \<le> count_if (same_org request) queued then reject Organization_queue_limit retry
     else if cl_queue (bc_classes config (bj_jobClass request)) \<le> count_if (same_class request) queued
     then reject Class_queue_limit retry
     else
       let capacityWait = gb_concurrency global \<le> int (length running) \<or>
             ob_concurrency organization \<le> count_if (same_org request) running \<or>
             cl_concurrency (bc_classes config (bj_jobClass request)) \<le> count_if (same_class request) running;
           byteWait = gb_artifactBytes global < sum_bytes running + sum_bytes queued + bj_estimatedBytes request \<or>
             ob_artifactBytes organization <
               sum_bytes (filter (same_org request) running) + sum_bytes (filter (same_org request) queued) +
               bj_estimatedBytes request in
       \<lparr>ba_accepted = True, ba_reason = None,
        ba_retryAfterMs = (if capacityWait \<or> byteWait then retry else None),
        ba_queuePosition = Some (length (filter (\<lambda>job. bj_runAfter job \<le> bj_runAfter request) queued) + 1)\<rparr>)"


section \<open>Selection\<close>

text \<open>The counters the loop over the running jobs keeps.\<close>

record running_tally =
  rt_byClass :: "resource_job_class \<Rightarrow> int"
  rt_byOrganization :: "(string option, int) js_map"
  rt_bytesByOrganization :: "(string option, int) js_map"
  rt_bytes :: int
  rt_ordinaryRunning :: int

definition tally_job :: "running_tally \<Rightarrow> budget_job \<Rightarrow> running_tally" where
  "tally_job t job = t
    \<lparr>rt_byClass := (rt_byClass t)(bj_jobClass job := rt_byClass t (bj_jobClass job) + 1),
     rt_byOrganization := js_set (bj_organizationId job)
       (js_default (js_get (rt_byOrganization t) (bj_organizationId job)) 0 + 1) (rt_byOrganization t),
     rt_bytesByOrganization := js_set (bj_organizationId job)
       (js_default (js_get (rt_bytesByOrganization t) (bj_organizationId job)) 0 + bj_estimatedBytes job)
       (rt_bytesByOrganization t),
     rt_bytes := rt_bytes t + bj_estimatedBytes job\<rparr>"

definition tallyRunningJobs :: "budget_state \<Rightarrow> running_tally" where
  "tallyRunningJobs state =
    (foldl tally_job \<lparr>rt_byClass = \<lambda>_. 0, rt_byOrganization = [], rt_bytesByOrganization = [], rt_bytes = 0,
       rt_ordinaryRunning = 0\<rparr> (bs_running state))
    \<lparr>rt_ordinaryRunning := count_if (\<lambda>job. \<not> isProtected (bj_jobClass job)) (bs_running state)\<rparr>"

definition regularConcurrency :: "budget_config \<Rightarrow> int" where
  "regularConcurrency config =
    max 0 (gb_concurrency (bc_global config) - gb_reservedCriticalSlots (bc_global config))"

definition org_running :: "running_tally \<Rightarrow> string option \<Rightarrow> int" where
  "org_running t org = js_default (js_get (rt_byOrganization t) org) 0"

definition org_bytes :: "running_tally \<Rightarrow> string option \<Rightarrow> int" where
  "org_bytes t org = js_default (js_get (rt_bytesByOrganization t) org) 0"

definition is_candidate :: "budget_config \<Rightarrow> budget_state \<Rightarrow> running_tally \<Rightarrow> int \<Rightarrow> budget_job \<Rightarrow> bool" where
  "is_candidate config state tally now job =
    (if now < bj_runAfter job then False
     else if gb_concurrency (bc_global config) \<le> int (length (bs_running state)) then False
     else if cl_concurrency (bc_classes config (bj_jobClass job)) \<le> rt_byClass tally (bj_jobClass job) then False
     else
       let organization = organizationBudget config (bj_organizationId job) in
       if ob_concurrency organization \<le> org_running tally (bj_organizationId job) then False
       else if gb_artifactBytes (bc_global config) < rt_bytes tally + bj_estimatedBytes job then False
       else if ob_artifactBytes organization < org_bytes tally (bj_organizationId job) + bj_estimatedBytes job
       then False
       else if \<not> isProtected (bj_jobClass job) \<and> regularConcurrency config \<le> rt_ordinaryRunning tally then False
       else True)"

definition rank_running :: "budget_state \<Rightarrow> int \<Rightarrow> int" where
  "rank_running state rank = count_if (\<lambda>job. classRank (bj_jobClass job) = rank) (bs_running state)"

definition class_pressure :: "budget_config \<Rightarrow> budget_state \<Rightarrow> running_tally \<Rightarrow> budget_job \<Rightarrow> rat" where
  "class_pressure config state tally job =
    utilization (rt_byClass tally (bj_jobClass job)) (cl_concurrency (bc_classes config (bj_jobClass job))) +
    of_int (rank_running state (classRank (bj_jobClass job))) / of_int (gb_concurrency (bc_global config))"

definition org_pressure :: "budget_config \<Rightarrow> running_tally \<Rightarrow> budget_job \<Rightarrow> rat" where
  "org_pressure config tally job =
    utilization (org_running tally (bj_organizationId job))
      (ob_concurrency (organizationBudget config (bj_organizationId job)))"

definition compare_candidates ::
  "(string \<Rightarrow> string \<Rightarrow> int) \<Rightarrow> budget_config \<Rightarrow> budget_state \<Rightarrow> running_tally \<Rightarrow> budget_job \<Rightarrow> budget_job \<Rightarrow> rat" where
  "compare_candidates lc config state tally left right =
    (if classRank (bj_jobClass left) \<noteq> classRank (bj_jobClass right)
     then of_int (classRank (bj_jobClass left) - classRank (bj_jobClass right))
     else if class_pressure config state tally left \<noteq> class_pressure config state tally right
     then class_pressure config state tally left - class_pressure config state tally right
     else if org_pressure config tally left \<noteq> org_pressure config tally right
     then org_pressure config tally left - org_pressure config tally right
     else of_int (compareJobs lc left right))"

definition selectResourceBudgetJob ::
  "(string \<Rightarrow> string \<Rightarrow> int) \<Rightarrow> budget_config \<Rightarrow> budget_state \<Rightarrow> int \<Rightarrow> budget_job option" where
  "selectResourceBudgetJob lc config state now =
    (let tally = tallyRunningJobs state;
         candidates = filter (is_candidate config state tally now) (bs_queued state) in
     case js_sort (compare_candidates lc config state tally) candidates of
       [] \<Rightarrow> None
     | job # _ \<Rightarrow> Some job)"


section \<open>Explanation\<close>

fun find_index :: "('a \<Rightarrow> bool) \<Rightarrow> 'a list \<Rightarrow> nat option" where
  "find_index p [] = None"
| "find_index p (x # xs) = (if p x then Some 0 else map_option Suc (find_index p xs))"

definition explainQueuePosition ::
  "(string \<Rightarrow> string \<Rightarrow> int) \<Rightarrow> budget_state \<Rightarrow> budget_job \<Rightarrow> nat option" where
  "explainQueuePosition lc state request =
    (let ordered = js_sort (compareJobs lc) (bs_queued state);
         position = (case find_index (\<lambda>job. bj_id job = bj_id request) ordered of
           Some i \<Rightarrow> i + 1
         | None \<Rightarrow> length (filter (\<lambda>job. compareJobs lc job request \<le> 0) ordered) + 1) in
     if int position \<le> MAX_SAFE_INTEGER then Some position else None)"

definition blockedInspection ::
  "nat option \<Rightarrow> reason_code \<Rightarrow> resource_job_class option \<Rightarrow> budget_inspection" where
  "blockedInspection position code competing =
    \<lparr>bi_eligible = False, bi_reasonCode = code, bi_queuePosition = position,
     bi_positionQualified = (position \<noteq> None), bi_competingJobClass = competing\<rparr>"

definition capacityBlock ::
  "budget_config \<Rightarrow> budget_job \<Rightarrow> budget_state \<Rightarrow> running_tally \<Rightarrow> int \<Rightarrow> reason_code option" where
  "capacityBlock config request state tally now =
    (let organization = organizationBudget config (bj_organizationId request) in
     if now < bj_runAfter request then Some Scheduled
     else if gb_concurrency (bc_global config) \<le> int (length (bs_running state)) then Some Global_concurrency
     else if ob_concurrency organization \<le> org_running tally (bj_organizationId request)
     then Some Organization_concurrency
     else if cl_concurrency (bc_classes config (bj_jobClass request)) \<le> rt_byClass tally (bj_jobClass request)
     then Some Class_concurrency
     else if gb_artifactBytes (bc_global config) < rt_bytes tally + bj_estimatedBytes request
     then Some Global_artifact_bytes
     else if ob_artifactBytes organization < org_bytes tally (bj_organizationId request) + bj_estimatedBytes request
     then Some Organization_artifact_bytes
     else if \<not> isProtected (bj_jobClass request) \<and> regularConcurrency config \<le> rt_ordinaryRunning tally
     then Some Reserved_capacity
     else None)"

definition capacityBlockInspection ::
  "budget_config \<Rightarrow> budget_job \<Rightarrow> budget_state \<Rightarrow> running_tally \<Rightarrow> nat option \<Rightarrow> int \<Rightarrow> budget_inspection option" where
  "capacityBlockInspection config request state tally position now =
    map_option (\<lambda>code. blockedInspection position code None) (capacityBlock config request state tally now)"

definition explainResourceBudgetJob ::
  "(string \<Rightarrow> string \<Rightarrow> int) \<Rightarrow> budget_config \<Rightarrow> budget_state \<Rightarrow> budget_job \<Rightarrow> int \<Rightarrow> budget_inspection" where
  "explainResourceBudgetJob lc config state request now =
    (let position = explainQueuePosition lc state request;
         tally = tallyRunningJobs state;
         selected = selectResourceBudgetJob lc config state now in
     case capacityBlockInspection config request state tally position now of
       Some block \<Rightarrow> block
     | None \<Rightarrow>
       (case selected of
          Some job \<Rightarrow>
            if bj_id job = bj_id request
            then \<lparr>bi_eligible = True, bi_reasonCode = Ready, bi_queuePosition = position,
                  bi_positionQualified = (position \<noteq> None), bi_competingJobClass = None\<rparr>
            else blockedInspection position Fairness (Some (bj_jobClass job))
        | None \<Rightarrow> blockedInspection position No_eligible_candidate None))"

record budget_snapshot =
  sn_globalConcurrency :: int
  sn_globalQueue :: int
  sn_organizationConcurrency :: int
  sn_organizationQueue :: int
  sn_artifactBytes :: int
  sn_reservedCriticalSlots :: int
  sn_queued :: nat
  sn_running :: nat
  sn_queuedBytes :: int
  sn_runningBytes :: int
  sn_queuedByClass :: "resource_job_class \<Rightarrow> int"
  sn_runningByClass :: "resource_job_class \<Rightarrow> int"

definition count_classes :: "budget_job list \<Rightarrow> resource_job_class \<Rightarrow> int" where
  "count_classes jobs = foldl (\<lambda>m job. m(bj_jobClass job := m (bj_jobClass job) + 1)) (\<lambda>_. 0) jobs"

definition resourceBudgetSnapshot :: "budget_config \<Rightarrow> budget_state \<Rightarrow> budget_snapshot" where
  "resourceBudgetSnapshot config state =
    \<lparr>sn_globalConcurrency = gb_concurrency (bc_global config), sn_globalQueue = gb_queue (bc_global config),
     sn_organizationConcurrency = ob_concurrency (bc_organization config),
     sn_organizationQueue = ob_queue (bc_organization config),
     sn_artifactBytes = gb_artifactBytes (bc_global config),
     sn_reservedCriticalSlots = gb_reservedCriticalSlots (bc_global config),
     sn_queued = length (bs_queued state), sn_running = length (bs_running state),
     sn_queuedBytes = sum_bytes (bs_queued state), sn_runningBytes = sum_bytes (bs_running state),
     sn_queuedByClass = count_classes (bs_queued state), sn_runningByClass = count_classes (bs_running state)\<rparr>"

end
