(* ===== verification/BudgetSafety.thy ===== *)
theory BudgetSafety imports ResourceBudgets begin

text \<open>
  What the capacity policy guarantees: a parsed configuration is within its bounds, a selected job fits
  every limit and leaves the reserved slots free, the choice is the least job of one consistent order,
  whatever order the rows arrive in, and the explanation of a job agrees with the selection.
\<close>

section \<open>Counters\<close>

lemma foldl_tally_classes:
  "rt_byClass (foldl tally_job t jobs) c = rt_byClass t c + count_if (\<lambda>j. bj_jobClass j = c) jobs"
  by (induction jobs arbitrary: t) (auto simp: tally_job_def)

lemma foldl_tally_orgs:
  "js_default (js_get (rt_byOrganization (foldl tally_job t jobs)) org) 0 =
   js_default (js_get (rt_byOrganization t) org) 0 + count_if (\<lambda>j. bj_organizationId j = org) jobs"
  by (induction jobs arbitrary: t) (auto simp: tally_job_def)

lemma foldl_tally_org_bytes:
  "js_default (js_get (rt_bytesByOrganization (foldl tally_job t jobs)) org) 0 =
   js_default (js_get (rt_bytesByOrganization t) org) 0 + sum_bytes (filter (\<lambda>j. bj_organizationId j = org) jobs)"
  by (induction jobs arbitrary: t) (auto simp: tally_job_def sum_bytes_def)

lemma foldl_tally_bytes: "rt_bytes (foldl tally_job t jobs) = rt_bytes t + sum_bytes jobs"
  by (induction jobs arbitrary: t) (auto simp: tally_job_def sum_bytes_def)

lemma tally_counts:
  "rt_byClass (tallyRunningJobs state) c = count_if (\<lambda>j. bj_jobClass j = c) (bs_running state)"
  "org_running (tallyRunningJobs state) org = count_if (\<lambda>j. bj_organizationId j = org) (bs_running state)"
  "org_bytes (tallyRunningJobs state) org = sum_bytes (filter (\<lambda>j. bj_organizationId j = org) (bs_running state))"
  "rt_bytes (tallyRunningJobs state) = sum_bytes (bs_running state)"
  "rt_ordinaryRunning (tallyRunningJobs state) = count_if (\<lambda>j. \<not> isProtected (bj_jobClass j)) (bs_running state)"
  by (simp_all add: tallyRunningJobs_def foldl_tally_classes foldl_tally_orgs foldl_tally_org_bytes
      foldl_tally_bytes org_running_def org_bytes_def)


section \<open>Limits\<close>

text \<open>The limits on what runs: total, class, organization, bytes and the ordinary lane.\<close>

definition within_limits :: "budget_config \<Rightarrow> budget_job list \<Rightarrow> bool" where
  "within_limits config running \<longleftrightarrow>
     int (length running) \<le> gb_concurrency (bc_global config) \<and>
     (\<forall>j \<in> set running. count_if (same_class j) running \<le> cl_concurrency (bc_classes config (bj_jobClass j)) \<and>
        count_if (same_org j) running \<le> ob_concurrency (organizationBudget config (bj_organizationId j)) \<and>
        sum_bytes (filter (same_org j) running) \<le> ob_artifactBytes (organizationBudget config (bj_organizationId j))) \<and>
     (running \<noteq> [] \<longrightarrow> sum_bytes running \<le> gb_artifactBytes (bc_global config)) \<and>
     count_if (\<lambda>j. \<not> isProtected (bj_jobClass j)) running \<le> regularConcurrency config"

definition eligible_job :: "budget_config \<Rightarrow> budget_state \<Rightarrow> int \<Rightarrow> budget_job \<Rightarrow> bool" where
  "eligible_job config state now job \<longleftrightarrow>
     bj_runAfter job \<le> now \<and>
     int (length (bs_running state)) < gb_concurrency (bc_global config) \<and>
     count_if (same_class job) (bs_running state) < cl_concurrency (bc_classes config (bj_jobClass job)) \<and>
     count_if (same_org job) (bs_running state) < ob_concurrency (organizationBudget config (bj_organizationId job)) \<and>
     sum_bytes (bs_running state) + bj_estimatedBytes job \<le> gb_artifactBytes (bc_global config) \<and>
     sum_bytes (filter (same_org job) (bs_running state)) + bj_estimatedBytes job
       \<le> ob_artifactBytes (organizationBudget config (bj_organizationId job)) \<and>
     (isProtected (bj_jobClass job) \<or>
      count_if (\<lambda>j. \<not> isProtected (bj_jobClass j)) (bs_running state) < regularConcurrency config)"

lemma candidate_iff: "is_candidate config state (tallyRunningJobs state) now = eligible_job config state now"
  unfolding fun_eq_iff is_candidate_def eligible_job_def Let_def tally_counts same_class_def same_org_def by auto

lemma capacityBlock_iff:
  "capacityBlock config job state (tallyRunningJobs state) now = None \<longleftrightarrow> eligible_job config state now job"
  unfolding capacityBlock_def eligible_job_def Let_def tally_counts same_class_def same_org_def by auto

lemma select_alt:
  "selectResourceBudgetJob lc config state now =
    (case js_sort (compare_candidates lc config state (tallyRunningJobs state))
       (filter (eligible_job config state now) (bs_queued state)) of [] \<Rightarrow> None | job # _ \<Rightarrow> Some job)"
  unfolding selectResourceBudgetJob_def Let_def by (simp add: candidate_iff)

lemma select_SomeD:
  assumes "selectResourceBudgetJob lc config state now = Some job"
  shows "job \<in> set (bs_queued state)" "eligible_job config state now job"
proof -
  let ?c = "filter (eligible_job config state now) (bs_queued state)"
  let ?s = "js_sort (compare_candidates lc config state (tallyRunningJobs state)) ?c"
  have "job \<in> set ?s" using assms unfolding select_alt by (cases ?s) auto
  then have "job \<in> set ?c" by simp
  then show "job \<in> set (bs_queued state)" "eligible_job config state now job" by auto
qed

lemma select_None_iff:
  "selectResourceBudgetJob lc config state now = None \<longleftrightarrow> (\<forall>j \<in> set (bs_queued state). \<not> eligible_job config state now j)"
proof -
  let ?c = "filter (eligible_job config state now) (bs_queued state)"
  let ?s = "js_sort (compare_candidates lc config state (tallyRunningJobs state)) ?c"
  have "selectResourceBudgetJob lc config state now = None \<longleftrightarrow> ?s = []"
    unfolding select_alt by (cases ?s) auto
  also have "\<dots> \<longleftrightarrow> ?c = []" by simp
  finally show ?thesis by (auto simp: filter_empty_conv)
qed

lemma count_start:
  "count_if p (running @ [job]) = count_if p running + (if p job then 1 else 0)"
  by simp

lemma sum_start:
  "sum_bytes (filter p (running @ [job])) = sum_bytes (filter p running) + (if p job then bj_estimatedBytes job else 0)"
  by (simp add: sum_bytes_def)

lemma select_within:
  assumes "within_limits config (bs_running state)"
    and "selectResourceBudgetJob lc config state now = Some job"
  shows "within_limits config (bs_running state @ [job])"
proof -
  let ?r = "bs_running state"
  have e: "eligible_job config state now job"
    using select_SomeD [OF assms(2)] by auto
  have same: "same_class j = same_class job" if "same_class j job" for j
    using that by (auto simp: same_class_def fun_eq_iff)
  have sameo: "same_org j = same_org job" if "same_org j job" for j
    using that by (auto simp: same_org_def fun_eq_iff)
  show ?thesis
    unfolding within_limits_def
  proof (intro conjI ballI impI)
    fix j assume j: "j \<in> set (?r @ [job])"
    show "count_if (same_class j) (?r @ [job]) \<le> cl_concurrency (bc_classes config (bj_jobClass j))"
    proof (cases "same_class j job")
      case True
      then have "bj_jobClass j = bj_jobClass job" by (simp add: same_class_def)
      with True e same [OF True] show ?thesis by (simp add: count_start eligible_job_def)
    next
      case False
      with j have "j \<in> set ?r" by (auto simp: same_class_def)
      with False assms(1) show ?thesis by (simp add: within_limits_def)
    qed
    show "count_if (same_org j) (?r @ [job]) \<le> ob_concurrency (organizationBudget config (bj_organizationId j))"
    proof (cases "same_org j job")
      case True
      then have "bj_organizationId j = bj_organizationId job" by (simp add: same_org_def)
      with True e sameo [OF True] show ?thesis by (simp add: count_start eligible_job_def)
    next
      case False
      with j have "j \<in> set ?r" by (auto simp: same_org_def)
      with False assms(1) show ?thesis by (simp add: within_limits_def)
    qed
    show "sum_bytes (filter (same_org j) (?r @ [job])) \<le> ob_artifactBytes (organizationBudget config (bj_organizationId j))"
    proof (cases "same_org j job")
      case True
      then have "bj_organizationId j = bj_organizationId job" by (simp add: same_org_def)
      with True e sameo [OF True] show ?thesis unfolding sum_start by (simp add: eligible_job_def)
    next
      case False
      with j have "j \<in> set ?r" by (auto simp: same_org_def)
      with False assms(1) show ?thesis unfolding sum_start by (simp add: within_limits_def)
    qed
  next
    show "sum_bytes (?r @ [job]) \<le> gb_artifactBytes (bc_global config)"
      using e by (simp add: eligible_job_def sum_bytes_def)
  qed (use e assms(1) in \<open>auto simp: eligible_job_def within_limits_def\<close>)
qed

text \<open>C27: starting the selected job keeps every limit: the global, class and organization concurrency,
  the byte budgets, and the slots reserved for protected work.\<close>

theorem select_keeps_limits:
  assumes "within_limits config (bs_running state)"
    and "selectResourceBudgetJob lc config state now = Some job"
  shows "within_limits config (bs_running state @ [job]) \<and> job \<in> set (bs_queued state) \<and> bj_runAfter job \<le> now"
  using select_within [OF assms] select_SomeD [OF assms(2)] by (simp add: eligible_job_def)

text \<open>Reserved capacity: while what runs is within its limits and fewer protected jobs run than slots
  are reserved, a protected job is never refused for want of global concurrency.\<close>

theorem reserved_slots_free:
  assumes "within_limits config running" "gb_reservedCriticalSlots (bc_global config) \<le> gb_concurrency (bc_global config)"
    and "count_if (\<lambda>j. isProtected (bj_jobClass j)) running < gb_reservedCriticalSlots (bc_global config)"
  shows "int (length running) < gb_concurrency (bc_global config)"
proof -
  have "int (length running) = count_if (\<lambda>j. isProtected (bj_jobClass j)) running +
      count_if (\<lambda>j. \<not> isProtected (bj_jobClass j)) running"
    by (induction running) auto
  moreover have "count_if (\<lambda>j. \<not> isProtected (bj_jobClass j)) running \<le>
      gb_concurrency (bc_global config) - gb_reservedCriticalSlots (bc_global config)"
    using assms(1,2) by (simp add: within_limits_def regularConcurrency_def)
  ultimately show ?thesis using assms(3) by linarith
qed

definition sample_job :: "string \<Rightarrow> resource_job_class \<Rightarrow> budget_job" where
  "sample_job i c = \<lparr>bj_id = i, bj_organizationId = Some ''org'', bj_jobClass = c, bj_estimatedBytes = 10,
     bj_runAfter = 0, bj_createdAt = 0\<rparr>"

definition sample_state :: budget_state where
  "sample_state = \<lparr>bs_queued = [sample_job ''a'' Run, sample_job ''b'' Critical], bs_running = [sample_job ''c'' Plan]\<rparr>"

lemma sample_within: "within_limits defaultResourceBudgetConfig (bs_running sample_state)"
  by (simp add: within_limits_def sample_state_def sample_job_def defaultResourceBudgetConfig_def DEFAULT_GLOBAL_def
      DEFAULT_ORGANIZATION_def organizationBudget_def same_class_def same_org_def sum_bytes_def regularConcurrency_def)

lemma select_keeps_limits_witness:
  "selectResourceBudgetJob lex_cmp defaultResourceBudgetConfig sample_state 1 = Some (sample_job ''b'' Critical) \<and>
   within_limits defaultResourceBudgetConfig (bs_running sample_state @ [sample_job ''b'' Critical])"
proof -
  have "selectResourceBudgetJob lex_cmp defaultResourceBudgetConfig sample_state 1 = Some (sample_job ''b'' Critical)"
    by code_simp
  with select_keeps_limits [OF sample_within this] show ?thesis by blast
qed

lemma reserved_slots_free_witness:
  "int (length (bs_running sample_state)) < gb_concurrency (bc_global defaultResourceBudgetConfig)"
  by (rule reserved_slots_free [OF sample_within])
    (simp_all add: sample_state_def sample_job_def defaultResourceBudgetConfig_def DEFAULT_GLOBAL_def)


section \<open>The order\<close>

text \<open>A criterion computed as a number orders the jobs by that number.\<close>

interpretation rank_order: key_comparator "\<lambda>x y. x - y :: rat" "\<lambda>j. of_int (classRank (bj_jobClass j)) :: rat"
  by unfold_locales

lemma comparator_key: "comparator (\<lambda>x y. key x - key y :: rat)"
  by unfold_locales auto

lemma comparator_of_int: "comparator c \<Longrightarrow> comparator (\<lambda>x y. of_int (c x y) :: rat)"
  unfolding comparator_def by simp

lemma comparator_comp: "comparator c \<Longrightarrow> comparator (\<lambda>x y. c (f x) (f y))"
  unfolding comparator_def by blast

lemma compareJobs_alt:
  "of_int (compareJobs lc x y) = js_or (of_int (bj_runAfter x) - of_int (bj_runAfter y) :: rat)
     (js_or (of_int (bj_createdAt x) - of_int (bj_createdAt y)) (of_int (lc (bj_id x) (bj_id y))))"
  by (simp add: compareJobs_def js_or_def)

lemma compare_candidates_alt:
  "compare_candidates lc config state tally = (\<lambda>x y.
     js_or (of_int (classRank (bj_jobClass x)) - of_int (classRank (bj_jobClass y)))
     (js_or (class_pressure config state tally x - class_pressure config state tally y)
     (js_or (org_pressure config tally x - org_pressure config tally y)
     (js_or (of_int (bj_runAfter x) - of_int (bj_runAfter y))
     (js_or (of_int (bj_createdAt x) - of_int (bj_createdAt y)) (of_int (lc (bj_id x) (bj_id y))))))))"
  by (auto simp: compare_candidates_def fun_eq_iff compareJobs_alt) (simp_all add: js_or_def)

lemma comparator_candidates:
  assumes "comparator lc"
  shows "comparator (compare_candidates lc config state tally)"
  unfolding compare_candidates_alt
  by (intro comparator_or comparator_key comparator_of_int comparator_comp [OF assms])

lemma comparator_jobs:
  assumes "comparator lc"
  shows "comparator (\<lambda>x y. of_int (compareJobs lc x y) :: rat)"
  unfolding compareJobs_alt by (intro comparator_or comparator_key comparator_of_int comparator_comp [OF assms])

text \<open>Selection is work conserving and prefers recovery: it finds nothing exactly when no queued job
  fits the limits, and when a protected job fits, the selected job is protected.\<close>

theorem select_complete_and_protected_first:
  assumes "comparator lc"
  shows "(selectResourceBudgetJob lc config state now = None \<longleftrightarrow>
      (\<forall>j \<in> set (bs_queued state). \<not> eligible_job config state now j)) \<and>
    (\<forall>j job. selectResourceBudgetJob lc config state now = Some job \<and> j \<in> set (bs_queued state) \<and>
      eligible_job config state now j \<and> isProtected (bj_jobClass j) \<longrightarrow> isProtected (bj_jobClass job))"
proof (intro conjI allI impI)
  show "selectResourceBudgetJob lc config state now = None \<longleftrightarrow>
      (\<forall>j \<in> set (bs_queued state). \<not> eligible_job config state now j)" by (rule select_None_iff)
next
  fix j job
  assume a: "selectResourceBudgetJob lc config state now = Some job \<and> j \<in> set (bs_queued state) \<and>
    eligible_job config state now j \<and> isProtected (bj_jobClass j)"
  let ?cmp = "compare_candidates lc config state (tallyRunningJobs state)"
  let ?c = "filter (eligible_job config state now) (bs_queued state)"
  obtain rest where s: "js_sort ?cmp ?c = job # rest"
    using a unfolding select_alt by (cases "js_sort ?cmp ?c") auto
  have "?cmp job j \<le> 0"
    using comparator.js_sort_head_least [OF comparator_candidates [OF assms] s] a by simp
  then have "classRank (bj_jobClass job) \<le> classRank (bj_jobClass j)"
    by (auto simp: compare_candidates_def split: if_splits)
  with a show "isProtected (bj_jobClass job)" by (simp add: classRank_def split: if_splits)
qed

text \<open>Selection is deterministic: two workers that read the same queued jobs, each row once and in
  any order, select the same job.\<close>

theorem select_independent_of_row_order:
  assumes lc: "comparator lc" "\<And>a b. lc a b = 0 \<Longrightarrow> a = b"
    and ids: "distinct (map bj_id (bs_queued state))"
    and perm: "mset rows = mset (bs_queued state)"
  shows "selectResourceBudgetJob lc config (state\<lparr>bs_queued := rows\<rparr>) now = selectResourceBudgetJob lc config state now"
proof -
  let ?cmp = "compare_candidates lc config state (tallyRunningJobs state)"
  let ?f = "filter (eligible_job config state now)"
  have same: "eligible_job config (state\<lparr>bs_queued := rows\<rparr>) now = eligible_job config state now"
    "tallyRunningJobs (state\<lparr>bs_queued := rows\<rparr>) = tallyRunningJobs state"
    "compare_candidates lc config (state\<lparr>bs_queued := rows\<rparr>) = compare_candidates lc config state"
    by (simp_all add: fun_eq_iff eligible_job_def tallyRunningJobs_def compare_candidates_def class_pressure_def
        rank_running_def)
  have "js_sort ?cmp (?f (bs_queued state)) = js_sort ?cmp (?f rows)"
  proof (rule comparator.js_sort_order_independent [OF comparator_candidates [OF lc(1)]])
    show "mset (?f (bs_queued state)) = mset (?f rows)" using perm by simp
    fix x y assume xy: "x \<in> set (?f (bs_queued state))" "y \<in> set (?f (bs_queued state))" and "?cmp x y = 0"
    then have "lc (bj_id x) (bj_id y) = 0"
      by (auto simp: compare_candidates_def compareJobs_def split: if_splits)
    then have "bj_id x = bj_id y" by (rule lc(2))
    with xy ids show "x = y" by (auto simp: distinct_map inj_on_def)
  qed
  then show ?thesis unfolding select_alt same by simp
qed

lemma byte_order: "comparator (lex_cmp :: string \<Rightarrow> string \<Rightarrow> int)"
  by (rule lex.comparator_axioms)

lemma select_complete_and_protected_first_witness:
  "selectResourceBudgetJob lex_cmp defaultResourceBudgetConfig sample_state 1 \<noteq> None \<and>
   isProtected (bj_jobClass (the (selectResourceBudgetJob lex_cmp defaultResourceBudgetConfig sample_state 1)))"
proof -
  have "eligible_job defaultResourceBudgetConfig sample_state 1 (sample_job ''b'' Critical)" by code_simp
  moreover have "sample_job ''b'' Critical \<in> set (bs_queued sample_state)" by (simp add: sample_state_def)
  moreover have "isProtected (bj_jobClass (sample_job ''b'' Critical))" by (simp add: sample_job_def)
  ultimately show ?thesis
    using select_complete_and_protected_first [OF byte_order, of defaultResourceBudgetConfig sample_state 1]
    by (metis option.exhaust option.sel)
qed

lemma select_independent_of_row_order_witness:
  "selectResourceBudgetJob lex_cmp defaultResourceBudgetConfig
     (sample_state\<lparr>bs_queued := [sample_job ''b'' Critical, sample_job ''a'' Run]\<rparr>) 1 =
   selectResourceBudgetJob lex_cmp defaultResourceBudgetConfig sample_state 1"
  by (rule select_independent_of_row_order [OF byte_order])
    (simp_all add: sample_state_def sample_job_def)


section \<open>Explanation\<close>

text \<open>The explanation tells the truth: for a queued job of distinct ids it says ready exactly when
  this job is the one selected, names a limit exactly when the job does not fit, and never has to
  say that no candidate is eligible.\<close>

theorem explain_agrees_with_select:
  assumes "distinct (map bj_id (bs_queued state))" "job \<in> set (bs_queued state)"
  shows "(bi_reasonCode (explainResourceBudgetJob lc config state job now) = Ready \<longleftrightarrow>
      selectResourceBudgetJob lc config state now = Some job) \<and>
    (bi_eligible (explainResourceBudgetJob lc config state job now) \<longleftrightarrow>
      selectResourceBudgetJob lc config state now = Some job) \<and>
    (bi_reasonCode (explainResourceBudgetJob lc config state job now) \<in> {Ready, Fairness} \<longleftrightarrow>
      eligible_job config state now job) \<and>
    bi_reasonCode (explainResourceBudgetJob lc config state job now) \<noteq> No_eligible_candidate"
proof (cases "capacityBlock config job state (tallyRunningJobs state) now")
  case None
  then have e: "eligible_job config state now job" by (simp add: capacityBlock_iff)
  with assms(2) obtain k where k: "selectResourceBudgetJob lc config state now = Some k"
    using select_None_iff [of lc config state now] by (cases "selectResourceBudgetJob lc config state now") auto
  have "k \<in> set (bs_queued state)" using select_SomeD [OF k] by simp
  with assms have "bj_id k = bj_id job \<longleftrightarrow> k = job" by (auto simp: distinct_map inj_on_def)
  with None e k show ?thesis
    by (simp add: explainResourceBudgetJob_def capacityBlockInspection_def blockedInspection_def Let_def)
next
  case (Some code)
  then have ne: "\<not> eligible_job config state now job" by (metis capacityBlock_iff option.distinct(1))
  then have "selectResourceBudgetJob lc config state now \<noteq> Some job" using select_SomeD(2) by blast
  moreover have "code \<notin> {Ready, Fairness, No_eligible_candidate}"
    using Some by (auto simp: capacityBlock_def Let_def split: if_splits)
  ultimately show ?thesis using Some ne
    by (auto simp: explainResourceBudgetJob_def capacityBlockInspection_def blockedInspection_def Let_def)
qed

lemma explain_agrees_with_select_witness:
  "bi_reasonCode (explainResourceBudgetJob lex_cmp defaultResourceBudgetConfig sample_state (sample_job ''b'' Critical) 1)
     = Ready"
proof -
  have "distinct (map bj_id (bs_queued sample_state))" "sample_job ''b'' Critical \<in> set (bs_queued sample_state)"
    by (simp_all add: sample_state_def sample_job_def)
  note explain_agrees_with_select [OF this, of lex_cmp defaultResourceBudgetConfig 1]
  moreover have "selectResourceBudgetJob lex_cmp defaultResourceBudgetConfig sample_state 1 = Some (sample_job ''b'' Critical)"
    by code_simp
  ultimately show ?thesis by blast
qed


section \<open>Admission and configuration\<close>

text \<open>Admission protects the queue limits: a request is accepted exactly when it fits the byte
  budgets on its own and the global, organization and class queues have room for it.\<close>

theorem assess_accepts_iff:
  "ba_accepted (assessResourceBudget config state request) \<longleftrightarrow>
     bj_estimatedBytes request \<le> gb_artifactBytes (bc_global config) \<and>
     bj_estimatedBytes request \<le> ob_artifactBytes (organizationBudget config (bj_organizationId request)) \<and>
     int (length (bs_queued state @ [request])) \<le> gb_queue (bc_global config) \<and>
     count_if (same_org request) (bs_queued state @ [request])
       \<le> ob_queue (organizationBudget config (bj_organizationId request)) \<and>
     count_if (same_class request) (bs_queued state @ [request])
       \<le> cl_queue (bc_classes config (bj_jobClass request))"
  by (auto simp: assessResourceBudget_def Let_def reject_def same_org_def same_class_def)

definition config_bounded :: "budget_config \<Rightarrow> bool" where
  "config_bounded config \<longleftrightarrow>
     gb_concurrency (bc_global config) \<in> {1..1024} \<and> gb_queue (bc_global config) \<in> {1..1000000} \<and>
     gb_artifactBytes (bc_global config) \<in> {1..10 * 1024 * 1024 * 1024} \<and>
     0 \<le> gb_reservedCriticalSlots (bc_global config) \<and>
     gb_reservedCriticalSlots (bc_global config) \<le> gb_concurrency (bc_global config) \<and>
     (\<forall>c. cl_concurrency (bc_classes config c) \<in> {1..1024} \<and> cl_queue (bc_classes config c) \<in> {1..1000000}) \<and>
     (\<forall>org. ob_concurrency (organizationBudget config org) \<in> {1..1024} \<and>
        ob_queue (organizationBudget config org) \<in> {1..1000000} \<and>
        ob_artifactBytes (organizationBudget config org) \<in> {1..10 * 1024 * 1024 * 1024})"

lemma readInteger_bounds:
  "readInteger v nm lo hi = Inr (Some i) \<Longrightarrow> lo \<le> i \<and> i \<le> hi"
  by (auto simp: readInteger_def split: option.splits json.splits if_splits)

lemma readOr_bounds:
  "readOr m f nm lo hi d = Inr i \<Longrightarrow> lo \<le> d \<Longrightarrow> d \<le> hi \<Longrightarrow> lo \<le> i \<and> i \<le> hi"
  by (auto simp: readOr_def bind_result_Inr_iff js_default_def dest: readInteger_bounds split: option.splits)

lemma parseGlobal_bounds:
  assumes "parseGlobalBudget raw = Inr g"
  shows "gb_concurrency g \<in> {1..1024} \<and> gb_queue g \<in> {1..1000000} \<and>
     gb_artifactBytes g \<in> {1..10 * 1024 * 1024 * 1024} \<and> 0 \<le> gb_reservedCriticalSlots g \<and>
     gb_reservedCriticalSlots g \<le> gb_concurrency g"
proof -
  obtain input c q a r where f: "readOr input ''concurrency'' ''global'' 1 1024 (gb_concurrency DEFAULT_GLOBAL) = Inr c"
      "readOr input ''queue'' ''global'' 1 1000000 (gb_queue DEFAULT_GLOBAL) = Inr q"
      "readOr input ''artifactBytes'' ''global'' 1 (10 * 1024 * 1024 * 1024) (gb_artifactBytes DEFAULT_GLOBAL) = Inr a"
      "readOr input ''reservedCriticalSlots'' ''global'' 0 1024 (gb_reservedCriticalSlots DEFAULT_GLOBAL) = Inr r"
      "(if c < r then Inl Reserved_exceeds_concurrency
        else Inr \<lparr>gb_concurrency = c, gb_queue = q, gb_artifactBytes = a, gb_reservedCriticalSlots = r\<rparr>) = Inr g"
    using assms unfolding parseGlobalBudget_def bind_result_Inr_iff by (elim exE conjE) (rule that)
  note b = readOr_bounds [OF f(1)] readOr_bounds [OF f(2)] readOr_bounds [OF f(3)] readOr_bounds [OF f(4)]
  from f(5) have "r \<le> c" "g = \<lparr>gb_concurrency = c, gb_queue = q, gb_artifactBytes = a, gb_reservedCriticalSlots = r\<rparr>"
    by (simp_all split: if_splits)
  with b show ?thesis by (simp add: DEFAULT_GLOBAL_def)
qed

lemma default_class_bounds:
  "cl_concurrency (DEFAULT_CLASS_LIMITS c) \<in> {1..1024} \<and> cl_queue (DEFAULT_CLASS_LIMITS c) \<in> {1..1000000}"
  by (cases c) simp_all

lemma parseClassLimit_bounds:
  assumes "parseClassLimit classes c = Inr l"
  shows "cl_concurrency l \<in> {1..1024} \<and> cl_queue l \<in> {1..1000000}"
proof -
  obtain input i q where "readOr input ''concurrency'' (''classes.'' @ class_name c) 1 1024
        (cl_concurrency (DEFAULT_CLASS_LIMITS c)) = Inr i"
      "readOr input ''queue'' (''classes.'' @ class_name c) 1 1000000 (cl_queue (DEFAULT_CLASS_LIMITS c)) = Inr q"
      "l = \<lparr>cl_concurrency = i, cl_queue = q\<rparr>"
    using assms unfolding parseClassLimit_def Let_def bind_result_Inr_iff by (elim exE conjE) simp
  then show ?thesis using default_class_bounds [of c] by (auto dest!: readOr_bounds)
qed

lemma parseClassLimits_bounds:
  assumes "parseClassLimits input = Inr limits"
  shows "cl_concurrency (limits c) \<in> {1..1024} \<and> cl_queue (limits c) \<in> {1..1000000}"
proof -
  obtain classes ls where ls: "map_result (\<lambda>c. bind_result (parseClassLimit classes c) (\<lambda>l. Inr (c, l)))
      RESOURCE_JOB_CLASSES = (Inr ls :: config_error + _)"
    and "(if list_ex (\<lambda>key. class_of_name key = None) (case classes of None \<Rightarrow> [] | Some m \<Rightarrow> json_keys m)
     then Inl Unsupported_class
     else Inr (\<lambda>c. js_default (js_get ls c) (DEFAULT_CLASS_LIMITS c))) = Inr limits"
    using assms unfolding parseClassLimits_def bind_result_Inr_iff by blast
  then have limits: "limits = (\<lambda>c. js_default (js_get ls c) (DEFAULT_CLASS_LIMITS c))"
    by (simp split: if_splits)
  have bounds: "cl_concurrency l \<in> {1..1024} \<and> cl_queue l \<in> {1..1000000}" if kl: "(k, l) \<in> set ls" for k l
  proof -
    obtain c where "bind_result (parseClassLimit classes c) (\<lambda>l. Inr (c, l)) = (Inr (k, l) :: config_error + _)"
      using map_result_mem [OF ls kl] by blast
    then have "parseClassLimit classes c = Inr l" by (auto simp: bind_result_Inr_iff)
    then show ?thesis by (rule parseClassLimit_bounds)
  qed
  show ?thesis
  proof (cases "js_get ls c")
    case None
    then show ?thesis using default_class_bounds [of c] by (simp add: limits)
  next
    case (Some l)
    then show ?thesis using bounds map_of_SomeD [OF Some] by (simp add: limits)
  qed
qed

lemma parseOrganizationOverrides_bounds:
  assumes "parseOrganizationOverrides input = Inr ovs" "js_get ovs i = Some ov"
  shows "(\<forall>c. oo_concurrency ov = Some c \<longrightarrow> c \<in> {1..1024}) \<and> (\<forall>q. oo_queue ov = Some q \<longrightarrow> q \<in> {1..1000000}) \<and>
    (\<forall>a. oo_artifactBytes ov = Some a \<longrightarrow> a \<in> {1..10 * 1024 * 1024 * 1024})"
proof -
  obtain orgs where m: "map_result (\<lambda>(organizationId, value).
      if \<not> organization_budget_key organizationId then Inl Invalid_organization_key
      else bind_result (parseOrganizationOverride organizationId value) (\<lambda>r. Inr (organizationId, r)))
      (js_default orgs []) = Inr ovs"
    using assms(1) unfolding parseOrganizationOverrides_def bind_result_Inr_iff by blast
  have "(i, ov) \<in> set ovs" using assms(2) by (rule map_of_SomeD)
  with map_result_mem [OF m] obtain kv where kv: "(case kv of (organizationId, value) \<Rightarrow>
      if \<not> organization_budget_key organizationId then Inl Invalid_organization_key
      else bind_result (parseOrganizationOverride organizationId value) (\<lambda>r. Inr (organizationId, r))) = Inr (i, ov)"
    by blast
  obtain k v where "kv = (k, v)" by (cases kv)
  with kv have "(if \<not> organization_budget_key k then Inl Invalid_organization_key
      else bind_result (parseOrganizationOverride k v) (\<lambda>r. Inr (k, r))) = Inr (i, ov)" by simp
  then have "parseOrganizationOverride k v = Inr ov" by (auto simp: bind_result_Inr_iff split: if_splits)
  then show ?thesis
    by (auto simp: parseOrganizationOverride_def bind_result_Inr_iff Let_def dest: readInteger_bounds)
qed

text \<open>A configuration that parses is within its bounds: every concurrency in 1..1024, every queue in
  1..1000000, every byte budget in 1 byte..10 GiB, the reserved slots no more than the global
  concurrency, for every class and for every organization, overridden or not.\<close>

theorem parsed_config_bounded:
  assumes "parseResourceBudgetConfig parse environment = Inr config"
  shows "config_bounded config"
proof -
  have default: "config_bounded defaultResourceBudgetConfig"
    using default_class_bounds
    by (auto simp: config_bounded_def defaultResourceBudgetConfig_def DEFAULT_GLOBAL_def DEFAULT_ORGANIZATION_def
        organizationBudget_def split: option.splits)
  show ?thesis
  proof (cases "config = defaultResourceBudgetConfig")
    case False
    then obtain raw input orgInput global organization classes overrides where p:
      "parseGlobalBudget (js_get input ''global'') = Inr global"
      "boundedOrganization orgInput DEFAULT_ORGANIZATION ''organization'' = Inr organization"
      "parseClassLimits input = Inr classes" "parseOrganizationOverrides input = Inr overrides"
      and c: "config = \<lparr>bc_global = global, bc_organization = organization, bc_classes = classes,
        bc_organizationOverrides = overrides\<rparr>"
      using assms by (auto simp: parseResourceBudgetConfig_def bind_result_Inr_iff split: option.splits if_splits)
    have "ob_concurrency organization \<in> {1..1024} \<and> ob_queue organization \<in> {1..1000000} \<and>
        ob_artifactBytes organization \<in> {1..10 * 1024 * 1024 * 1024}"
      using p(2) by (auto simp: boundedOrganization_def bind_result_Inr_iff DEFAULT_ORGANIZATION_def
          dest!: readOr_bounds split: option.splits)
    moreover have "ob_concurrency (organizationBudget config org) \<in> {1..1024} \<and>
        ob_queue (organizationBudget config org) \<in> {1..1000000} \<and>
        ob_artifactBytes (organizationBudget config org) \<in> {1..10 * 1024 * 1024 * 1024}"
      if "ob_concurrency organization \<in> {1..1024} \<and> ob_queue organization \<in> {1..1000000} \<and>
        ob_artifactBytes organization \<in> {1..10 * 1024 * 1024 * 1024}" for org
    proof -
      have ov: "(case org of None \<Rightarrow> None | Some i \<Rightarrow> js_get (bc_organizationOverrides config) i) =
          Option.bind org (js_get overrides)" using c by (cases org) auto
      have base: "bc_organization config = organization" using c by simp
      show ?thesis
      proof (cases "Option.bind org (js_get overrides)")
        case None
        with that show ?thesis unfolding organizationBudget_def Let_def ov base by simp
      next
        case (Some r)
        then obtain i where i: "js_get overrides i = Some r" by (cases org) auto
        have "(case oo_concurrency r of None \<Rightarrow> True | Some x \<Rightarrow> x \<in> {1..1024}) \<and>
          (case oo_queue r of None \<Rightarrow> True | Some x \<Rightarrow> x \<in> {1..1000000}) \<and>
          (case oo_artifactBytes r of None \<Rightarrow> True | Some x \<Rightarrow> x \<in> {1..10 * 1024 * 1024 * 1024})"
          using parseOrganizationOverrides_bounds [OF p(4) i] by (auto split: option.splits)
        with that Some show ?thesis unfolding organizationBudget_def Let_def ov base
          by (simp add: js_default_def split: option.splits)
      qed
    qed
    ultimately show ?thesis
      using parseGlobal_bounds [OF p(1)] parseClassLimits_bounds [OF p(3)] c by (simp add: config_bounded_def)
  qed (simp add: default)
qed

definition sample_parse :: "string \<Rightarrow> json option" where
  "sample_parse raw = Some (JObj [(''global'', JObj [(''concurrency'', JNum (Finite 8))])])"

lemma parsed_config_bounded_witness:
  "\<exists>config. parseResourceBudgetConfig sample_parse (Some ''{}'') = Inr config \<and>
     gb_concurrency (bc_global config) = 8 \<and> config_bounded config"
proof -
  have raw: "js_trim ''{}'' = ''{}''" by code_simp
  have len: "length ''{}'' \<le> RESOURCE_BUDGET_CONFIG_MAX_BYTES" by (simp add: RESOURCE_BUDGET_CONFIG_MAX_BYTES_def)
  have eight: "js_safe_integer (Finite 8) = Some 8"
    using js_safe_integer_of_int [of 8] by (simp add: MAX_SAFE_INTEGER_def)
  have cls: "parseClassLimit None c = Inr (DEFAULT_CLASS_LIMITS c)" for c
    by (cases "DEFAULT_CLASS_LIMITS c") (simp add: parseClassLimit_def readOptionalInput_def readOr_def readInteger_def Let_def)
  have "\<exists>config. parseResourceBudgetConfig sample_parse (Some ''{}'') = Inr config \<and> gb_concurrency (bc_global config) = 8"
    using raw len
    by (simp add: parseResourceBudgetConfig_def parseConfigInput_def sample_parse_def json_record_def json_keys_def
        parseGlobalBudget_def readOptionalInput_def readBudgetInput_def readOr_def readInteger_def eight
        DEFAULT_GLOBAL_def boundedOrganization_def parseClassLimits_def optionalRecord_def cls RESOURCE_JOB_CLASSES_def
        parseOrganizationOverrides_def)
  then show ?thesis using parsed_config_bounded by blast
qed

text \<open>The snapshot's class counts add up to what is queued and what runs.\<close>

lemma count_classes_eq: "count_classes jobs c = count_if (\<lambda>j. bj_jobClass j = c) jobs"
proof -
  have "foldl (\<lambda>m job. m(bj_jobClass job := m (bj_jobClass job) + 1)) m jobs c =
      m c + count_if (\<lambda>j. bj_jobClass j = c) jobs" for m :: "resource_job_class \<Rightarrow> int"
    by (induction jobs arbitrary: m) auto
  then show ?thesis by (simp add: count_classes_def)
qed

lemma snapshot_totals:
  "sum_list (map (sn_queuedByClass (resourceBudgetSnapshot config state)) RESOURCE_JOB_CLASSES) = int (length (bs_queued state)) \<and>
   sum_list (map (sn_runningByClass (resourceBudgetSnapshot config state)) RESOURCE_JOB_CLASSES) = int (length (bs_running state))"
proof -
  have "sum_list (map (count_classes jobs) RESOURCE_JOB_CLASSES) = int (length jobs)" for jobs
  proof (induction jobs)
    case (Cons j jobs)
    then show ?case
      by (cases "bj_jobClass j") (simp_all add: RESOURCE_JOB_CLASSES_def count_classes_eq)
  qed (simp add: RESOURCE_JOB_CLASSES_def count_classes_eq)
  then show ?thesis by (simp add: resourceBudgetSnapshot_def)
qed

end
