(* ===== verification/JobPayloads.thy ===== *)
theory JobPayloads imports JsValues begin

text \<open>
  The validation of persisted job payloads in \<open>lib/validation.ts\<close>: a payload is read through the fields its
  kind declares, and every other field is kept under \<open>extensions\<close>.
\<close>

section \<open>Parsing\<close>

datatype persisted_code = Missing | Null_value | Wrong_type | Bad_field | Bad_version

record persisted_error =
  pe_field :: string
  pe_code :: persisted_code

type_synonym 'a persisted = "persisted_error + 'a"

definition PERSISTED_JOB_PAYLOAD_SCHEMA_VERSION :: js_number where
  "PERSISTED_JOB_PAYLOAD_SCHEMA_VERSION = Finite 1"

definition persistedFailure :: "string \<Rightarrow> persisted_code \<Rightarrow> 'a persisted" where
  "persistedFailure field code = Inl \<lparr>pe_field = field, pe_code = code\<rparr>"

definition persistedVersion :: "js_number \<Rightarrow> string \<Rightarrow> nat persisted" where
  "persistedVersion version field = (case js_safe_integer version of
     None \<Rightarrow> persistedFailure field Bad_version
   | Some v \<Rightarrow>
       if v < 0 then persistedFailure field Bad_version
       else if v \<noteq> 0 \<and> v \<noteq> 1 then persistedFailure field Bad_version
       else Inr (if v = 0 then 0 else 1))"

definition persistedRecord :: "json option \<Rightarrow> string \<Rightarrow> (string, json) js_map persisted" where
  "persistedRecord value field = (case value of
     None \<Rightarrow> persistedFailure field Missing
   | Some JNull \<Rightarrow> persistedFailure field Null_value
   | Some v \<Rightarrow> (case json_record v of None \<Rightarrow> persistedFailure field Wrong_type | Some m \<Rightarrow> Inr m))"

text \<open>Object spread: \<open>{ ...a, ...b }\<close>.\<close>

definition spread :: "(string, json) js_map \<Rightarrow> (string, json) js_map \<Rightarrow> (string, json) js_map" where
  "spread a b = foldl (\<lambda>m (k, v). js_set k v m) a b"

definition recordExtensions ::
  "(string, json) js_map \<Rightarrow> json option \<Rightarrow> string set \<Rightarrow> string \<Rightarrow> (string, json) js_map persisted" where
  "recordExtensions rec declared known field =
    (case declared of
       None \<Rightarrow> Inr (filter (\<lambda>(k, _). k \<notin> known) rec)
     | Some v \<Rightarrow> (case json_record v of
         None \<Rightarrow> persistedFailure field Bad_field
       | Some m \<Rightarrow> Inr (spread m (filter (\<lambda>(k, _). k \<notin> known) rec))))"

definition requiredString :: "(string, json) js_map \<Rightarrow> string \<Rightarrow> string \<Rightarrow> string persisted" where
  "requiredString rec ctx field = (case json_string (js_get rec field) of
     Some s \<Rightarrow> if s = [] then persistedFailure (ctx @ ''.'' @ field) Bad_field else Inr s
   | None \<Rightarrow> persistedFailure (ctx @ ''.'' @ field) Bad_field)"

definition optionalBoolean :: "(string, json) js_map \<Rightarrow> string \<Rightarrow> string \<Rightarrow> bool option persisted" where
  "optionalBoolean rec ctx field = (case js_get rec field of
     None \<Rightarrow> Inr None
   | Some (JBool b) \<Rightarrow> Inr (Some b)
   | _ \<Rightarrow> persistedFailure (ctx @ ''.'' @ field) Bad_field)"

text \<open>\<open>known[field] = requiredString(field)\<close>\<close>

definition requiredField ::
  "(string, json) js_map \<Rightarrow> string \<Rightarrow> string \<Rightarrow> (string, json) js_map \<Rightarrow> (string, json) js_map persisted" where
  "requiredField rec ctx field known =
    bind_result (requiredString rec ctx field) (\<lambda>s. Inr (known @ [(field, JStr s)]))"

definition parseExplorerCatalogPayload :: "(string, json) js_map \<Rightarrow> string \<Rightarrow> (string, json) js_map persisted" where
  "parseExplorerCatalogPayload rec ctx =
    bind_result (requiredField rec ctx ''orgId'' []) (\<lambda>known.
    bind_result (optionalBoolean rec ctx ''backfill'') (\<lambda>backfill.
    Inr (case backfill of None \<Rightarrow> known | Some b \<Rightarrow> known @ [(''backfill'', JBool b)])))"

definition parsePlanExplanationPayload :: "(string, json) js_map \<Rightarrow> string \<Rightarrow> (string, json) js_map persisted" where
  "parsePlanExplanationPayload rec ctx =
    bind_result (requiredField rec ctx ''runId'' []) (\<lambda>known.
    bind_result (requiredString rec ctx ''kind'') (\<lambda>k.
    if k \<noteq> ''plan'' \<and> k \<noteq> ''apply'' then persistedFailure (ctx @ ''.kind'') Bad_field
    else Inr (known @ [(''kind'', JStr k)])))"

definition parseVcsWebhookPayload :: "(string, json) js_map \<Rightarrow> string \<Rightarrow> (string, json) js_map persisted" where
  "parseVcsWebhookPayload rec ctx =
    bind_result (requiredString rec ctx ''provider'') (\<lambda>provider.
    if provider \<noteq> ''github'' \<and> provider \<noteq> ''gitlab'' \<and> provider \<noteq> ''bitbucket'' \<and> provider \<noteq> ''azure_devops''
    then persistedFailure (ctx @ ''.provider'') Bad_field
    else
      bind_result (if provider = ''azure_devops''
        then requiredField rec ctx ''authenticatedClientId'' [(''provider'', JStr provider)]
        else Inr [(''provider'', JStr provider)]) (\<lambda>known.
      bind_result (requiredField rec ctx ''eventName'' known) (\<lambda>known.
      bind_result (persistedRecord (js_get rec ''payload'') (ctx @ ''.payload'')) (\<lambda>payload.
      case js_get rec ''deliveryId'' of
        None \<Rightarrow> persistedFailure (ctx @ ''.deliveryId'') Missing
      | Some JNull \<Rightarrow> Inr (known @ [(''payload'', JObj payload), (''deliveryId'', JNull)])
      | Some (JStr s) \<Rightarrow> Inr (known @ [(''payload'', JObj payload), (''deliveryId'', JStr s)])
      | Some _ \<Rightarrow> persistedFailure (ctx @ ''.deliveryId'') Bad_field))))"

text \<open>The switch over the kinds.\<close>

definition parseKnownFields :: "string \<Rightarrow> (string, json) js_map \<Rightarrow> string \<Rightarrow> (string, json) js_map persisted" where
  "parseKnownFields kind rec ctx =
    (if kind = ''module-test'' then requiredField rec ctx ''runId'' []
     else if kind = ''stack-configuration'' then requiredField rec ctx ''configurationId'' []
     else if kind = ''stack-deployment'' then requiredField rec ctx ''runId'' []
     else if kind = ''explorer-inventory'' then requiredField rec ctx ''workspaceId'' []
     else if kind = ''explorer-catalog'' then parseExplorerCatalogPayload rec ctx
     else if kind = ''plan-explanation'' then parsePlanExplanationPayload rec ctx
     else if kind = ''vcs-webhook'' then parseVcsWebhookPayload rec ctx
     else if kind = ''outbox-delivery'' then requiredField rec ctx ''eventId'' []
     else persistedFailure ctx Bad_field)"

definition parsePersistedJobPayload ::
  "string \<Rightarrow> json option \<Rightarrow> js_number \<Rightarrow> (string, json) js_map persisted" where
  "parsePersistedJobPayload kind raw schemaVersion =
    (let ctx = ''durableJobs.'' @ kind @ ''.payload'' in
     bind_result (persistedVersion schemaVersion ctx) (\<lambda>_.
     bind_result (persistedRecord raw ctx) (\<lambda>rec.
     bind_result (parseKnownFields kind rec ctx) (\<lambda>known.
     bind_result (recordExtensions rec (js_get rec ''extensions'') (insert ''extensions'' (set (map fst known))) ctx)
     (\<lambda>extensions.
     Inr (known @ (if extensions = [] then [] else [(''extensions'', JObj extensions)])))))))"


section \<open>What it guarantees\<close>

definition declaredFields :: "string \<Rightarrow> string list" where
  "declaredFields kind =
    (if kind = ''module-test'' \<or> kind = ''stack-deployment'' then [''runId'']
     else if kind = ''stack-configuration'' then [''configurationId'']
     else if kind = ''explorer-inventory'' then [''workspaceId'']
     else if kind = ''explorer-catalog'' then [''orgId'', ''backfill'']
     else if kind = ''plan-explanation'' then [''runId'', ''kind'']
     else if kind = ''vcs-webhook''
     then [''provider'', ''authenticatedClientId'', ''eventName'', ''payload'', ''deliveryId'']
     else if kind = ''outbox-delivery'' then [''eventId'']
     else [])"

text \<open>A reading of the fields: each is present in the record with the value that was read, and reading
  any record that agrees on them gives the same.\<close>

definition reads :: "((string, json) js_map \<Rightarrow> (string, json) js_map persisted) \<Rightarrow> string list \<Rightarrow> bool" where
  "reads f names \<longleftrightarrow> (\<forall>rec known. f rec = Inr known \<longrightarrow>
     set (map fst known) \<subseteq> set names \<and> distinct (map fst known) \<and> ''extensions'' \<notin> set (map fst known) \<and>
     (\<forall>rec'. (\<forall>k \<in> set names. js_get rec' k = js_get known k) \<longrightarrow> f rec' = Inr known))"

lemma requiredString_iff: "requiredString rec ctx field = Inr s \<longleftrightarrow> js_get rec field = Some (JStr s) \<and> s \<noteq> []"
  by (auto simp: requiredString_def json_string_def persistedFailure_def split: option.splits json.splits)

lemma requiredField_iff:
  "requiredField rec ctx field known = Inr known' \<longleftrightarrow>
   (\<exists>s. js_get rec field = Some (JStr s) \<and> s \<noteq> [] \<and> known' = known @ [(field, JStr s)])"
  by (auto simp: requiredField_def bind_result_Inr_iff requiredString_iff)

lemma reads_requiredField: "field \<noteq> ''extensions'' \<Longrightarrow> reads (\<lambda>rec. requiredField rec ctx field []) [field]"
  by (auto simp: reads_def requiredField_iff)

lemma optionalBoolean_iff:
  "optionalBoolean rec ctx field = Inr b \<longleftrightarrow> js_get rec field = map_option JBool b"
  by (cases b) (auto simp: optionalBoolean_def persistedFailure_def split: option.splits json.splits)

lemma readsI:
  assumes "\<And>rec known. f rec = Inr known \<Longrightarrow>
     set (map fst known) \<subseteq> set names \<and> distinct (map fst known) \<and> ''extensions'' \<notin> set (map fst known)"
    and "\<And>rec known rec'. f rec = Inr known \<Longrightarrow> (\<forall>k \<in> set names. js_get rec' k = js_get known k) \<Longrightarrow> f rec' = Inr known"
  shows "reads f names"
  using assms unfolding reads_def by blast

lemma catalog_iff:
  "parseExplorerCatalogPayload rec ctx = Inr known \<longleftrightarrow> (\<exists>s b.
     js_get rec ''orgId'' = Some (JStr s) \<and> s \<noteq> [] \<and> js_get rec ''backfill'' = map_option JBool b \<and>
     known = (''orgId'', JStr s) # (case b of None \<Rightarrow> [] | Some x \<Rightarrow> [(''backfill'', JBool x)]))" (is "_ = ?r")
proof
  assume "parseExplorerCatalogPayload rec ctx = Inr known"
  then show ?r
    unfolding parseExplorerCatalogPayload_def bind_result_Inr_iff requiredField_iff optionalBoolean_iff
    by (elim exE conjE) (auto split: option.splits)
next
  assume ?r
  then obtain s b where "js_get rec ''orgId'' = Some (JStr s)" "s \<noteq> []" "js_get rec ''backfill'' = map_option JBool b"
     "known = (''orgId'', JStr s) # (case b of None \<Rightarrow> [] | Some x \<Rightarrow> [(''backfill'', JBool x)])" by blast
  then show "parseExplorerCatalogPayload rec ctx = Inr known"
    unfolding parseExplorerCatalogPayload_def bind_result_Inr_iff requiredField_iff optionalBoolean_iff
    by (intro exI [of _ "[(''orgId'', JStr s)]"] conjI exI [of _ s] exI [of _ b]) (cases b; simp)+
qed

lemma reads_catalog: "reads (\<lambda>rec. parseExplorerCatalogPayload rec ctx) [''orgId'', ''backfill'']"
proof (rule readsI, goal_cases)
  case (1 rec known)
  then show ?case unfolding catalog_iff by (elim exE conjE) (simp split: option.splits)
next
  case (2 rec known rec')
  from 2(1) obtain s b where k: "s \<noteq> []"
     "known = (''orgId'', JStr s) # (case b of None \<Rightarrow> [] | Some x \<Rightarrow> [(''backfill'', JBool x)])"
    unfolding catalog_iff by blast
  have "js_get known ''orgId'' = Some (JStr s)" "js_get known ''backfill'' = map_option JBool b"
    by (cases b; simp add: k(2))+
  with 2(2) have "js_get rec' ''orgId'' = Some (JStr s)" "js_get rec' ''backfill'' = map_option JBool b" by simp_all
  with k show ?case unfolding catalog_iff by blast
qed

lemma explanation_iff:
  "parsePlanExplanationPayload rec ctx = Inr known \<longleftrightarrow> (\<exists>r k.
     js_get rec ''runId'' = Some (JStr r) \<and> r \<noteq> [] \<and> js_get rec ''kind'' = Some (JStr k) \<and> k \<noteq> [] \<and>
     (k = ''plan'' \<or> k = ''apply'') \<and> known = [(''runId'', JStr r), (''kind'', JStr k)])" (is "_ = ?r")
proof
  assume "parsePlanExplanationPayload rec ctx = Inr known"
  then show ?r
    unfolding parsePlanExplanationPayload_def bind_result_Inr_iff requiredField_iff requiredString_iff
    by (elim exE conjE) (simp add: persistedFailure_def split: if_splits)
next
  assume ?r
  then show "parsePlanExplanationPayload rec ctx = Inr known"
    unfolding parsePlanExplanationPayload_def bind_result_Inr_iff requiredField_iff requiredString_iff
    by (elim exE conjE) (simp; blast)
qed

lemma reads_explanation: "reads (\<lambda>rec. parsePlanExplanationPayload rec ctx) [''runId'', ''kind'']"
proof (rule readsI, goal_cases)
  case (1 rec known)
  then show ?case unfolding explanation_iff by (elim exE conjE) simp
next
  case (2 rec known rec')
  from 2(1) obtain r k where k: "r \<noteq> []" "k \<noteq> []" "k = ''plan'' \<or> k = ''apply''"
     "known = [(''runId'', JStr r), (''kind'', JStr k)]"
    unfolding explanation_iff by blast
  have "js_get known ''runId'' = Some (JStr r)" "js_get known ''kind'' = Some (JStr k)" by (simp_all add: k(4))
  with 2(2) have "js_get rec' ''runId'' = Some (JStr r)" "js_get rec' ''kind'' = Some (JStr k)" by simp_all
  with k show ?case unfolding explanation_iff by blast
qed

lemma persistedRecord_iff: "persistedRecord v ctx = Inr m \<longleftrightarrow> v = Some (JObj m)"
  by (auto simp: persistedRecord_def persistedFailure_def json_record_def split: option.splits json.splits)

text \<open>The webhook's fields, by their values.\<close>

definition webhook_values ::
  "(string, json) js_map \<Rightarrow> string \<Rightarrow> string \<Rightarrow> string \<Rightarrow> (string, json) js_map \<Rightarrow> json \<Rightarrow> bool" where
  "webhook_values rec p c e pl d \<longleftrightarrow>
     js_get rec ''provider'' = Some (JStr p) \<and> p \<in> {''github'', ''gitlab'', ''bitbucket'', ''azure_devops''} \<and>
     (p = ''azure_devops'' \<longrightarrow> js_get rec ''authenticatedClientId'' = Some (JStr c) \<and> c \<noteq> []) \<and>
     js_get rec ''eventName'' = Some (JStr e) \<and> e \<noteq> [] \<and> js_get rec ''payload'' = Some (JObj pl) \<and>
     js_get rec ''deliveryId'' = Some d \<and> (d = JNull \<or> (\<exists>s. d = JStr s))"

definition webhook_known :: "string \<Rightarrow> string \<Rightarrow> string \<Rightarrow> (string, json) js_map \<Rightarrow> json \<Rightarrow> (string, json) js_map" where
  "webhook_known p c e pl d =
    (if p = ''azure_devops'' then [(''provider'', JStr p), (''authenticatedClientId'', JStr c)]
     else [(''provider'', JStr p)]) @ [(''eventName'', JStr e), (''payload'', JObj pl), (''deliveryId'', d)]"

lemma webhook_delivery:
  "(case v of
      None \<Rightarrow> persistedFailure c1 Missing
    | Some JNull \<Rightarrow> Inr (m @ [(''payload'', JObj pl), (''deliveryId'', JNull)])
    | Some (JStr s) \<Rightarrow> Inr (m @ [(''payload'', JObj pl), (''deliveryId'', JStr s)])
    | Some _ \<Rightarrow> persistedFailure c2 Bad_field) = Inr known \<longleftrightarrow>
  (\<exists>d. v = Some d \<and> (d = JNull \<or> (\<exists>s. d = JStr s)) \<and> known = m @ [(''payload'', JObj pl), (''deliveryId'', d)])"
  unfolding persistedFailure_def by (cases v; simp) (rename_tac d, case_tac d; simp; blast)

lemma webhook_provider:
  "(if p \<noteq> ''github'' \<and> p \<noteq> ''gitlab'' \<and> p \<noteq> ''bitbucket'' \<and> p \<noteq> ''azure_devops''
    then persistedFailure c Bad_field else x) = Inr y \<longleftrightarrow>
   p \<in> {''github'', ''gitlab'', ''bitbucket'', ''azure_devops''} \<and> x = Inr y"
  by (simp add: persistedFailure_def)

lemma webhook_client:
  "(if p = ''azure_devops'' then requiredField rec ctx ''authenticatedClientId'' [(''provider'', JStr p)]
    else Inr [(''provider'', JStr p)]) = Inr m \<longleftrightarrow>
   (if p = ''azure_devops''
    then \<exists>c. js_get rec ''authenticatedClientId'' = Some (JStr c) \<and> c \<noteq> [] \<and>
      m = [(''provider'', JStr p), (''authenticatedClientId'', JStr c)]
    else m = [(''provider'', JStr p)])"
  by (simp add: requiredField_iff eq_commute [of m])

lemma webhook_parse:
  "parseVcsWebhookPayload rec ctx = Inr known \<longleftrightarrow>
   (\<exists>p c e pl d. webhook_values rec p c e pl d \<and> known = webhook_known p c e pl d)" (is "_ = ?r")
proof
  assume "parseVcsWebhookPayload rec ctx = Inr known"
  then show ?r
    unfolding parseVcsWebhookPayload_def bind_result_Inr_iff requiredString_iff webhook_provider webhook_client
      requiredField_iff persistedRecord_iff webhook_delivery webhook_values_def webhook_known_def
  proof (elim exE conjE, goal_cases)
    case (1 p m m' e pl d)
    show ?case
    proof (cases "p = ''azure_devops''")
      case True
      with 1(4) obtain c where c: "js_get rec ''authenticatedClientId'' = Some (JStr c)" "c \<noteq> []"
          "m = [(''provider'', JStr p), (''authenticatedClientId'', JStr c)]" by (metis (full_types))
      show ?thesis
        by (intro exI [of _ p] exI [of _ c] exI [of _ e] exI [of _ pl] exI [of _ d]) (use 1 c True in simp)
    next
      case False
      with 1(4) have m: "m = [(''provider'', JStr p)]" by simp
      show ?thesis
        by (intro exI [of _ p] exI [of _ "[]"] exI [of _ e] exI [of _ pl] exI [of _ d]) (use 1 m False in simp)
    qed
  qed
next
  assume ?r
  then obtain p c e pl d where v: "webhook_values rec p c e pl d" "known = webhook_known p c e pl d" by blast
  then show "parseVcsWebhookPayload rec ctx = Inr known"
    unfolding parseVcsWebhookPayload_def bind_result_Inr_iff requiredString_iff webhook_provider webhook_client
      requiredField_iff persistedRecord_iff webhook_delivery
    by (cases "p = ''azure_devops''") (auto simp: webhook_values_def webhook_known_def)
qed

lemma webhook_known_gets:
  "webhook_values (webhook_known p c e pl d) p c e pl d"
  if "webhook_values rec p c e pl d"
  using that unfolding webhook_values_def webhook_known_def by (cases "p = ''azure_devops''") simp_all

lemma reads_webhook:
  "reads (\<lambda>rec. parseVcsWebhookPayload rec ctx)
     [''provider'', ''authenticatedClientId'', ''eventName'', ''payload'', ''deliveryId'']"
proof (rule readsI, goal_cases)
  case (1 rec known)
  then show ?case unfolding webhook_parse webhook_known_def by (elim exE conjE) simp
next
  case (2 rec known rec')
  then obtain p c e pl d where v: "webhook_values rec p c e pl d" "known = webhook_known p c e pl d"
    unfolding webhook_parse by blast
  have "webhook_values known p c e pl d" using webhook_known_gets [OF v(1)] v(2) by simp
  then have "webhook_values rec' p c e pl d" using 2(2) unfolding webhook_values_def by simp
  with v(2) show ?case unfolding webhook_parse by blast
qed

lemma reads_known: "reads (\<lambda>rec. parseKnownFields kind rec ctx) (declaredFields kind)"
proof -
  have none: "reads (\<lambda>rec. persistedFailure ctx Bad_field) []" by (simp add: reads_def persistedFailure_def)
  show ?thesis
    unfolding parseKnownFields_def declaredFields_def
    by (simp add: reads_catalog reads_explanation reads_webhook reads_requiredField none)
qed

lemma parse_known_fields:
  assumes "parsePersistedJobPayload kind raw version = Inr p"
  obtains rec known exts where
    "raw = Some (JObj rec)"
    "parseKnownFields kind rec (''durableJobs.'' @ kind @ ''.payload'') = Inr known"
    "recordExtensions rec (js_get rec ''extensions'') (insert ''extensions'' (set (map fst known)))
       (''durableJobs.'' @ kind @ ''.payload'') = Inr exts"
    "p = known @ (if exts = [] then [] else [(''extensions'', JObj exts)])"
  using assms unfolding parsePersistedJobPayload_def Let_def bind_result_Inr_iff
  by (elim exE conjE) (simp add: persistedRecord_iff)

text \<open>C25: a worker's handler sees no field its kind does not declare: the parsed payload has the declared
  fields and \<open>extensions\<close> at the top level, each at most once, and nothing else.\<close>

theorem parsed_payload_fields:
  assumes "parsePersistedJobPayload kind raw version = Inr p"
  shows "set (map fst p) \<subseteq> set (declaredFields kind) \<union> {''extensions''} \<and> distinct (map fst p)"
proof -
  obtain rec known exts where k: "parseKnownFields kind rec (''durableJobs.'' @ kind @ ''.payload'') = Inr known"
      "p = known @ (if exts = [] then [] else [(''extensions'', JObj exts)])"
    using assms by (rule parse_known_fields)
  moreover have "set (map fst known) \<subseteq> set (declaredFields kind)" "distinct (map fst known)"
      "''extensions'' \<notin> set (map fst known)"
    using reads_known k(1) unfolding reads_def by blast+
  ultimately show ?thesis by auto
qed

text \<open>Parsing is idempotent: a parsed payload, stored and parsed again under the same kind, is
  itself, extensions included.\<close>

theorem parse_payload_idempotent:
  assumes "parsePersistedJobPayload kind raw version = Inr p"
  shows "parsePersistedJobPayload kind (Some (JObj p)) version = Inr p"
proof -
  let ?ctx = "''durableJobs.'' @ kind @ ''.payload''"
  obtain rec known exts where k: "parseKnownFields kind rec ?ctx = Inr known"
      "p = known @ (if exts = [] then [] else [(''extensions'', JObj exts)])"
    using assms by (rule parse_known_fields)
  obtain v where v: "persistedVersion version ?ctx = Inr v"
    using assms unfolding parsePersistedJobPayload_def Let_def bind_result_Inr_iff by blast
  have r: "set (map fst known) \<subseteq> set (declaredFields kind)" "''extensions'' \<notin> set (map fst known)"
    using reads_known k(1) unfolding reads_def by blast+
  have ext_not: "''extensions'' \<notin> set (declaredFields kind)" by (simp add: declaredFields_def)
  have "js_get p x = js_get known x" if "x \<in> set (declaredFields kind)" for x
    using that ext_not by (auto simp: k(2) map_add_def split: option.splits)
  then have known: "parseKnownFields kind p ?ctx = Inr known"
    using reads_known k(1) unfolding reads_def by blast
  have get: "js_get p ''extensions'' = (if exts = [] then None else Some (JObj exts))"
  proof -
    have "js_get known ''extensions'' = None" using r(2) by (simp add: map_of_eq_None_iff)
    then show ?thesis by (simp add: k(2) map_add_def)
  qed
  have none: "filter (\<lambda>(x, _). x \<notin> insert ''extensions'' (set (map fst known))) p = []"
    by (auto simp: k(2) filter_empty_conv intro: rev_image_eqI)
  have "recordExtensions p (js_get p ''extensions'') (insert ''extensions'' (set (map fst known))) ?ctx = Inr exts"
    unfolding recordExtensions_def get none by (simp add: json_record_def spread_def)
  with known v show ?thesis
    by (simp add: parsePersistedJobPayload_def Let_def persistedRecord_def json_record_def) (simp add: k(2))
qed

definition sample_payload :: json where
  "sample_payload = JObj [(''extra'', JBool True), (''eventId'', JStr ''evt-1'')]"

lemma sample_parsed:
  "parsePersistedJobPayload ''outbox-delivery'' (Some sample_payload) (Finite 1) =
     Inr [(''eventId'', JStr ''evt-1''), (''extensions'', JObj [(''extra'', JBool True)])]"
  by code_simp

lemma parsed_payload_fields_witness:
  "set (map fst [(''eventId'', JStr ''evt-1''), (''extensions'', JObj [(''extra'', JBool True)])])
     \<subseteq> set (declaredFields ''outbox-delivery'') \<union> {''extensions''}"
  using parsed_payload_fields [OF sample_parsed] by blast

lemma parse_payload_idempotent_witness:
  "parsePersistedJobPayload ''outbox-delivery''
     (Some (JObj [(''eventId'', JStr ''evt-1''), (''extensions'', JObj [(''extra'', JBool True)])])) (Finite 1) =
   Inr [(''eventId'', JStr ''evt-1''), (''extensions'', JObj [(''extra'', JBool True)])]"
  using sample_parsed by (rule parse_payload_idempotent)

end
