(* ===== verification/DurableJobs.thy ===== *)
theory DurableJobs imports BudgetSafety JobPayloads begin

text \<open>
  The durable job queue of \<open>lib/durable-jobs.ts\<close>: the rows, enqueueing with its deduplication, the claim
  with its paged candidate read, the heartbeat, cancellation and the fenced transitions that end an
  attempt. \<open>Date.now()\<close> and \<open>crypto.randomUUID()\<close> are arguments; the operator's configuration is the
  result of its parser; a row an operation read before it writes is an argument of its writing part.
\<close>

section \<open>Rows\<close>

datatype job_status = Job_queued | Job_running | Job_succeeded | Job_failed | Job_canceled

record durable_job =
  j_id :: string
  j_kind :: string
  j_dedupeKey :: "string option"
  j_status :: job_status
  j_payload :: "(string, json) js_map"
  j_payloadSchemaVersion :: js_number
  j_attempts :: nat
  j_runAfter :: int
  j_lockedBy :: "string option"
  j_lockToken :: "string option"
  j_leaseExpiresAt :: "int option"
  j_heartbeatAt :: "int option"
  j_lastError :: "string option"
  j_createdAt :: int
  j_updatedAt :: int

text \<open>An absent option, a \<open>null\<close> organization and a named one differ.\<close>

record job_budget_options =
  jb_organizationId :: "string option option"
  jb_jobClass :: "resource_job_class option"
  jb_estimatedBytes :: "int option"

record enqueue_options =
  eo_dedupeKey :: "string option"
  eo_runAfter :: "int option"
  eo_rescheduleRunning :: bool
  eo_budget :: "job_budget_options option"

definition LEASE_MS :: int where "LEASE_MS = 30000"
definition POLL_MS :: int where "POLL_MS = 500"
definition DURABLE_MAX_ATTEMPTS :: nat where "DURABLE_MAX_ATTEMPTS = 3"

datatype job_error =
  Budget_refused budget_admission nat
| Budget_config config_error
| Payload_invalid persisted_error
| Unique_violation

text \<open>The status the budget error maps to: 413 for bytes, 429 otherwise.\<close>

definition DurableJobBudgetError :: "budget_admission \<Rightarrow> job_error" where
  "DurableJobBudgetError admission =
    Budget_refused admission (if ba_reason admission = Some Artifact_bytes_limit then 413 else 429)"

definition json_class :: "resource_job_class \<Rightarrow> json" where
  "json_class c = JStr (class_name c)"

definition json_nullable :: "string option \<Rightarrow> json" where
  "json_nullable s = (case s of None \<Rightarrow> JNull | Some x \<Rightarrow> JStr x)"

definition payloadWithBudgetMetadata ::
  "(string, json) js_map \<Rightarrow> job_budget_options option \<Rightarrow> (string, json) js_map" where
  "payloadWithBudgetMetadata payload budget = (case budget of
     None \<Rightarrow> payload
   | Some b \<Rightarrow> spread payload
       ((case jb_organizationId b of None \<Rightarrow> [] | Some i \<Rightarrow> [(''organizationId'', json_nullable i)]) @
        (case jb_jobClass b of None \<Rightarrow> [] | Some c \<Rightarrow> [(''jobClass'', json_class c)]) @
        (case jb_estimatedBytes b of None \<Rightarrow> [] | Some n \<Rightarrow> [(''estimatedBytes'', JNum (Finite (of_int n)))])))"

definition preserveBudgetMetadata ::
  "(string, json) js_map \<Rightarrow> (string, json) js_map \<Rightarrow> (string, json) js_map" where
  "preserveBudgetMetadata existing payload =
    foldl (\<lambda>merged key. case (js_get merged key, js_get existing key) of
        (None, Some v) \<Rightarrow> js_set key v merged
      | _ \<Rightarrow> merged) payload [''organizationId'', ''jobClass'', ''estimatedBytes'']"

definition budget_job_of :: "durable_job \<Rightarrow> budget_job" where
  "budget_job_of j = resourceBudgetJobFromDurable (j_id j) (j_kind j) (j_payload j) (j_runAfter j) (j_createdAt j)"

definition jobs_in :: "job_status \<Rightarrow> durable_job table \<Rightarrow> durable_job list" where
  "jobs_in st t = filter (\<lambda>j. j_status j = st) t"

definition durableJobBudgetState :: "string option \<Rightarrow> durable_job table \<Rightarrow> budget_state" where
  "durableJobBudgetState excludeJobId t =
    \<lparr>bs_queued = map budget_job_of (filter (\<lambda>j. Some (j_id j) \<noteq> excludeJobId) (jobs_in Job_queued t)),
     bs_running = map budget_job_of (filter (\<lambda>j. Some (j_id j) \<noteq> excludeJobId) (jobs_in Job_running t))\<rparr>"

definition assertDurableJobBudget ::
  "(config_error + budget_config) \<Rightarrow> budget_job \<Rightarrow> string option \<Rightarrow> durable_job table \<Rightarrow> job_error + unit" where
  "assertDurableJobBudget config row excludeJobId t = (case config of
     Inl e \<Rightarrow> Inl (Budget_config e)
   | Inr c \<Rightarrow>
       let admission = assessResourceBudget c (durableJobBudgetState excludeJobId t) row in
       if \<not> ba_accepted admission then Inl (DurableJobBudgetError admission) else Inr ())"

definition check_payload :: "string \<Rightarrow> (string, json) js_map \<Rightarrow> job_error + unit" where
  "check_payload kind payload =
    (case parsePersistedJobPayload kind (Some (JObj payload)) PERSISTED_JOB_PAYLOAD_SCHEMA_VERSION of
       Inl e \<Rightarrow> Inl (Payload_invalid e) | Inr _ \<Rightarrow> Inr ())"


section \<open>Enqueueing\<close>

definition unlock :: "durable_job \<Rightarrow> durable_job" where
  "unlock j = j\<lparr>j_lockedBy := None, j_lockToken := None, j_leaseExpiresAt := None, j_heartbeatAt := None\<rparr>"

definition set_requeued :: "(string, json) js_map \<Rightarrow> int \<Rightarrow> int \<Rightarrow> durable_job \<Rightarrow> durable_job" where
  "set_requeued payload runAfter now j = (unlock j)
    \<lparr>j_status := Job_queued, j_payload := payload, j_payloadSchemaVersion := PERSISTED_JOB_PAYLOAD_SCHEMA_VERSION,
     j_attempts := 0, j_runAfter := runAfter, j_lastError := None, j_updatedAt := now\<rparr>"

definition requeueExistingDurableJob ::
  "(config_error + budget_config) \<Rightarrow> durable_job \<Rightarrow> (string, json) js_map \<Rightarrow> enqueue_options \<Rightarrow> int \<Rightarrow> int \<Rightarrow>
   durable_job table \<Rightarrow> (job_error + durable_job option) \<times> durable_job table" where
  "requeueExistingDurableJob config existing payload options runAfter now t =
    (let requeuedPayload = preserveBudgetMetadata (j_payload existing) payload in
     case check_payload (j_kind existing) requeuedPayload of
       Inl e \<Rightarrow> (Inl e, t)
     | Inr _ \<Rightarrow>
       (case (if eo_budget options = None then Inr ()
              else assertDurableJobBudget config
                (resourceBudgetJobFromDurable (j_id existing) (j_kind existing) requeuedPayload runAfter (j_createdAt existing))
                (Some (j_id existing)) t) of
          Inl e \<Rightarrow> (Inl e, t)
        | Inr _ \<Rightarrow>
            let p = (\<lambda>j. j_id j = j_id existing \<and> (j_status j \<in> {Job_succeeded, Job_failed, Job_canceled} \<or>
                  eo_rescheduleRunning options \<and> j_status j = Job_running));
                f = set_requeued requeuedPayload runAfter now;
                t' = db_update p f t in
            (case db_returning p f t of
               j # _ \<Rightarrow> (Inr (Some j), t')
             | [] \<Rightarrow> (Inr (db_find (\<lambda>j. j_id j = j_id existing) t'), t'))))"

text \<open>\<open>None\<close> is the code's \<open>NO_EXISTING_DURABLE_JOB\<close>; \<open>seen\<close> is the table the lookup read.\<close>

definition enqueueExistingDurableJob ::
  "(config_error + budget_config) \<Rightarrow> string \<Rightarrow> (string, json) js_map \<Rightarrow> enqueue_options \<Rightarrow> int \<Rightarrow>
   durable_job table \<Rightarrow> durable_job table \<Rightarrow> (job_error + durable_job option) option \<times> durable_job table" where
  "enqueueExistingDurableJob config kind payload options now seen t =
    (case eo_dedupeKey options of
       None \<Rightarrow> (None, t)
     | Some key \<Rightarrow>
       (case db_find (\<lambda>j. j_kind j = kind \<and> j_dedupeKey j = Some key) seen of
          None \<Rightarrow> (None, t)
        | Some existing \<Rightarrow>
            let runAfter = js_default (eo_runAfter options) now in
            if j_status existing = Job_running \<and> \<not> eo_rescheduleRunning options then (Some (Inr (Some existing)), t)
            else if j_status existing = Job_queued then
              if j_runAfter existing \<le> runAfter then (Some (Inr (Some existing)), t)
              else
                let p = (\<lambda>j. j_id j = j_id existing \<and> j_status j = Job_queued);
                    f = (\<lambda>j. j\<lparr>j_runAfter := runAfter, j_updatedAt := now\<rparr>) in
                (case db_returning p f t of
                   j # _ \<Rightarrow> (Some (Inr (Some j)), db_update p f t)
                 | [] \<Rightarrow> (Some (Inr (Some existing)), db_update p f t))
            else
              (case requeueExistingDurableJob config existing payload options runAfter now t of
                 (r, t') \<Rightarrow> (Some r, t'))))"

definition new_job :: "string \<Rightarrow> string \<Rightarrow> (string, json) js_map \<Rightarrow> enqueue_options \<Rightarrow> int \<Rightarrow> durable_job" where
  "new_job jobId kind payload options now =
    \<lparr>j_id = jobId, j_kind = kind, j_dedupeKey = eo_dedupeKey options, j_status = Job_queued, j_payload = payload,
     j_payloadSchemaVersion = PERSISTED_JOB_PAYLOAD_SCHEMA_VERSION, j_attempts = 0,
     j_runAfter = js_default (eo_runAfter options) now, j_lockedBy = None, j_lockToken = None,
     j_leaseExpiresAt = None, j_heartbeatAt = None, j_lastError = None, j_createdAt = now, j_updatedAt = now\<rparr>"

text \<open>\<open>INSERT\<close> fails on a primary key or on the unique index of kind and deduplication key.\<close>

definition job_conflict :: "durable_job \<Rightarrow> durable_job \<Rightarrow> bool" where
  "job_conflict row j \<longleftrightarrow> j_id j = j_id row \<or>
     j_dedupeKey row \<noteq> None \<and> j_kind j = j_kind row \<and> j_dedupeKey j = j_dedupeKey row"

definition insert_job :: "durable_job \<Rightarrow> durable_job table \<Rightarrow> durable_job table option" where
  "insert_job row t = (if list_ex (job_conflict row) t then None else Some (t @ [row]))"

definition enqueueDurableJob ::
  "(config_error + budget_config) \<Rightarrow> string \<Rightarrow> string \<Rightarrow> (string, json) js_map \<Rightarrow> enqueue_options \<Rightarrow> int \<Rightarrow>
   durable_job table \<Rightarrow> durable_job table \<Rightarrow> (job_error + durable_job option) \<times> durable_job table" where
  "enqueueDurableJob config jobId kind payload options now seen t =
    (let durablePayload = payloadWithBudgetMetadata payload (eo_budget options) in
     case check_payload kind durablePayload of
       Inl e \<Rightarrow> (Inl e, t)
     | Inr _ \<Rightarrow>
       (case enqueueExistingDurableJob config kind durablePayload options now seen t of
          (Some r, t') \<Rightarrow> (r, t')
        | (None, _) \<Rightarrow>
            let row = new_job jobId kind durablePayload options now in
            (case (if eo_budget options = None then Inr () else assertDurableJobBudget config (budget_job_of row) None t) of
               Inl e \<Rightarrow> (Inl e, t)
             | Inr _ \<Rightarrow>
               (case insert_job row t of
                  Some t' \<Rightarrow> (Inr (Some row), t')
                | None \<Rightarrow>
                  (case eo_dedupeKey options of
                     None \<Rightarrow> (Inl Unique_violation, t)
                   | Some key \<Rightarrow>
                     (case db_find (\<lambda>j. j_kind j = kind \<and> j_dedupeKey j = Some key) t of
                        None \<Rightarrow> (Inl Unique_violation, t)
                      | Some existing \<Rightarrow> (Inr (Some existing), t)))))))"


section \<open>Claiming\<close>

definition sql_lt :: "int option \<Rightarrow> int \<Rightarrow> bool" where
  "sql_lt c n = (case c of None \<Rightarrow> False | Some x \<Rightarrow> x < n)"

definition lease_expired_message :: string where
  "lease_expired_message = ''Worker lease expired; job reclaimed after restart''"

definition requeueExpiredJobs :: "int \<Rightarrow> durable_job table \<Rightarrow> durable_job table" where
  "requeueExpiredJobs now t =
    db_update (\<lambda>j. j_status j = Job_running \<and> sql_lt (j_leaseExpiresAt j) now)
      (\<lambda>j. (unlock j)\<lparr>j_status := Job_queued, j_updatedAt := now, j_lastError := Some lease_expired_message\<rparr>) t"

text \<open>The order of the candidate pages, and the rows after a cursor in it.\<close>

definition ready_cmp :: "durable_job \<Rightarrow> durable_job \<Rightarrow> int" where
  "ready_cmp x y = js_or (j_runAfter x - j_runAfter y)
     (js_or (j_createdAt x - j_createdAt y) (lex_cmp (j_id x) (j_id y)))"

definition after_cursor :: "durable_job option \<Rightarrow> durable_job \<Rightarrow> bool" where
  "after_cursor cursor j = (case cursor of
     None \<Rightarrow> True
   | Some c \<Rightarrow> j_runAfter c < j_runAfter j \<or>
       j_runAfter j = j_runAfter c \<and> j_createdAt c < j_createdAt j \<or>
       j_runAfter j = j_runAfter c \<and> j_createdAt j = j_createdAt c \<and> lex_cmp (j_id c) (j_id j) < 0)"

definition ready_job :: "string list \<Rightarrow> int \<Rightarrow> durable_job \<Rightarrow> bool" where
  "ready_job kinds now j \<longleftrightarrow> j_kind j \<in> set kinds \<and> j_status j = Job_queued \<and> j_runAfter j \<le> now"

definition ready_page :: "string list \<Rightarrow> int \<Rightarrow> durable_job option \<Rightarrow> nat \<Rightarrow> durable_job table \<Rightarrow> durable_job list" where
  "ready_page kinds now cursor limit t =
    take limit (js_sort ready_cmp (filter (\<lambda>j. ready_job kinds now j \<and> after_cursor cursor j) t))"

text \<open>The loop over the pages; \<open>maxRows\<close> less what was collected decreases.\<close>

function load_pages :: "string list \<Rightarrow> int \<Rightarrow> nat \<Rightarrow> durable_job table \<Rightarrow> durable_job list \<Rightarrow> durable_job option \<Rightarrow> durable_job list" where
  "load_pages kinds now maxRows t candidates cursor =
    (if \<not> length candidates < maxRows then candidates
     else
       let pageLimit = min 256 (maxRows - length candidates);
           page = ready_page kinds now cursor pageLimit t;
           candidates' = candidates @ page in
       if page = [] \<or> length page < pageLimit then candidates'
       else load_pages kinds now maxRows t candidates' (Some (last page)))"
  by auto
termination
  by (relation "measure (\<lambda>(kinds, now, maxRows, t, candidates, cursor). maxRows - length candidates)")
    (auto simp: neq_Nil_conv)

declare load_pages.simps [simp del]

definition loadReadyDurableCandidates :: "string list \<Rightarrow> int \<Rightarrow> nat \<Rightarrow> durable_job table \<Rightarrow> durable_job list" where
  "loadReadyDurableCandidates kinds now maxRows t = load_pages kinds now maxRows t [] None"

definition set_claimed :: "durable_job \<Rightarrow> string \<Rightarrow> string \<Rightarrow> int \<Rightarrow> durable_job \<Rightarrow> durable_job" where
  "set_claimed candidate workerId lockToken now j = j
    \<lparr>j_status := Job_running, j_attempts := j_attempts candidate + 1, j_lockedBy := Some workerId,
     j_lockToken := Some lockToken, j_leaseExpiresAt := Some (now + LEASE_MS), j_heartbeatAt := Some now,
     j_updatedAt := now, j_lastError := None\<rparr>"

text \<open>The compare-and-set that ends a claim; \<open>candidate\<close> is the row the selection read.\<close>

definition claim_job :: "durable_job \<Rightarrow> string \<Rightarrow> string \<Rightarrow> int \<Rightarrow> durable_job table \<Rightarrow> durable_job option \<times> durable_job table" where
  "claim_job candidate workerId lockToken now t =
    (let p = (\<lambda>j. j_id j = j_id candidate \<and> j_status j = Job_queued \<and> j_runAfter j \<le> now);
         f = set_claimed candidate workerId lockToken now in
     (case db_returning p f t of [] \<Rightarrow> None | j # _ \<Rightarrow> Some j, db_update p f t))"

definition selectDurableCandidate ::
  "(string \<Rightarrow> string \<Rightarrow> int) \<Rightarrow> budget_config \<Rightarrow> string list \<Rightarrow> int \<Rightarrow> durable_job table \<Rightarrow> durable_job option" where
  "selectDurableCandidate lc config kinds now t =
    (let candidateRows = loadReadyDurableCandidates kinds now (nat (gb_queue (bc_global config))) t;
         runningRows = jobs_in Job_running t in
     case selectResourceBudgetJob lc config
       \<lparr>bs_queued = map budget_job_of candidateRows, bs_running = map budget_job_of runningRows\<rparr> now of
       None \<Rightarrow> None
     | Some selected \<Rightarrow> List.find (\<lambda>row. j_id row = bj_id selected) candidateRows)"

definition claimDurableJob ::
  "(string \<Rightarrow> string \<Rightarrow> int) \<Rightarrow> (config_error + budget_config) \<Rightarrow> string \<Rightarrow> string list \<Rightarrow> string \<Rightarrow> int \<Rightarrow>
   durable_job table \<Rightarrow> (job_error + durable_job option) \<times> durable_job table" where
  "claimDurableJob lc config workerId kinds lockToken now t =
    (if kinds = [] then (Inr None, t)
     else
       let t1 = requeueExpiredJobs now t in
       case config of
         Inl e \<Rightarrow> (Inl (Budget_config e), t1)
       | Inr c \<Rightarrow>
         (case selectDurableCandidate lc c kinds now t1 of
            None \<Rightarrow> (Inr None, t1)
          | Some candidate \<Rightarrow> (case claim_job candidate workerId lockToken now t1 of (r, t2) \<Rightarrow> (Inr r, t2))))"


section \<open>Owning and ending an attempt\<close>

text \<open>\<open>job\<close> is the row as the worker claimed it; \<open>lockToken ?? ""\<close>.\<close>

definition owned_row :: "durable_job \<Rightarrow> durable_job \<Rightarrow> bool" where
  "owned_row job j \<longleftrightarrow> j_id j = j_id job \<and> j_status j = Job_running \<and>
     j_lockToken j = Some (js_default (j_lockToken job) [])"

definition heartbeatDurableJob :: "durable_job \<Rightarrow> int \<Rightarrow> durable_job table \<Rightarrow> bool \<times> durable_job table" where
  "heartbeatDurableJob job now t =
    (let p = (\<lambda>j. owned_row job j \<and> (case j_leaseExpiresAt j of None \<Rightarrow> False | Some e \<Rightarrow> now < e));
         f = (\<lambda>j. j\<lparr>j_leaseExpiresAt := Some (now + LEASE_MS), j_heartbeatAt := Some now, j_updatedAt := now\<rparr>) in
     (length (db_returning p f t) = 1, db_update p f t))"

definition isDurableJobCanceled :: "durable_job \<Rightarrow> durable_job table \<Rightarrow> bool" where
  "isDurableJobCanceled job t = (case db_find (\<lambda>j. j_id j = j_id job) t of
     None \<Rightarrow> False | Some row \<Rightarrow> j_status row = Job_canceled)"

definition isDurableJobStopped :: "durable_job \<Rightarrow> durable_job table \<Rightarrow> bool" where
  "isDurableJobStopped job t = (case db_find (\<lambda>j. j_id j = j_id job) t of
     None \<Rightarrow> True | Some row \<Rightarrow> j_status row \<noteq> Job_running \<or> j_lockToken row \<noteq> j_lockToken job)"

definition set_canceled :: "int \<Rightarrow> durable_job \<Rightarrow> durable_job" where
  "set_canceled now j = j\<lparr>j_status := Job_canceled, j_updatedAt := now\<rparr>"

definition cancelDurableJob :: "string \<Rightarrow> int \<Rightarrow> durable_job table \<Rightarrow> bool \<times> durable_job table" where
  "cancelDurableJob jobId now t =
    (let p = (\<lambda>j. j_id j = jobId \<and> j_status j \<in> {Job_queued, Job_running}) in
     (length (db_returning p (set_canceled now) t) = 1, db_update p (set_canceled now) t))"

definition cancelDurableJobs :: "string \<Rightarrow> string \<Rightarrow> int \<Rightarrow> durable_job table \<Rightarrow> nat \<times> durable_job table" where
  "cancelDurableJobs kind dedupeKey now t =
    (let p = (\<lambda>j. j_kind j = kind \<and> j_dedupeKey j = Some dedupeKey \<and> j_status j \<in> {Job_queued, Job_running}) in
     (length (db_returning p (set_canceled now) t), db_update p (set_canceled now) t))"

definition retry_delay :: "nat \<Rightarrow> int" where
  "retry_delay attempts = min 60000 (1000 * 2 ^ (attempts - 1))"

definition finishDurableJob ::
  "durable_job \<Rightarrow> job_status \<Rightarrow> string option \<Rightarrow> int \<Rightarrow> durable_job table \<Rightarrow> bool \<times> durable_job table" where
  "finishDurableJob job status err now t =
    (let f = (\<lambda>j. (unlock j)\<lparr>j_status := status, j_updatedAt := now,
           j_runAfter := (if status = Job_queued then now + retry_delay (j_attempts job) else now),
           j_lastError := err\<rparr>) in
     (length (db_returning (owned_row job) f t) = 1, db_update (owned_row job) f t))"

text \<open>
  The end of \<open>runJob\<close>: how the handler ended, whether its signal was raised and for what, and what the
  check that the job was stopped read (\<open>None\<close> when that read failed).
\<close>

datatype handler_end = Returned | Threw string

definition retry_status :: "durable_job \<Rightarrow> job_status" where
  "retry_status job = (if DURABLE_MAX_ATTEMPTS \<le> j_attempts job then Job_failed else Job_queued)"

definition runJob_end ::
  "durable_job \<Rightarrow> handler_end \<Rightarrow> string option \<Rightarrow> bool option \<Rightarrow> int \<Rightarrow> durable_job table \<Rightarrow> durable_job table" where
  "runJob_end job ended aborted stopped now t = (case ended of
     Returned \<Rightarrow>
       (case aborted of
          Some reason \<Rightarrow>
            if js_default stopped True then t
            else snd (finishDurableJob job (retry_status job) (Some reason) now t)
        | None \<Rightarrow> snd (finishDurableJob job Job_succeeded None now t))
   | Threw message \<Rightarrow>
       if js_default stopped False then t
       else snd (finishDurableJob job (retry_status job) (Some message) now t))"

text \<open>The local lease of a running handler: its abort signal and its last confirmed deadline.\<close>

record job_lease =
  jl_aborted :: bool
  jl_deadline :: int

definition renewLease :: "durable_job \<Rightarrow> int \<Rightarrow> job_lease \<times> durable_job table \<Rightarrow> bool \<times> job_lease \<times> durable_job table" where
  "renewLease job heartbeatAt lt = (case lt of (l, t) \<Rightarrow>
    if jl_aborted l then (False, l, t)
    else (case heartbeatDurableJob job heartbeatAt t of
        (False, t') \<Rightarrow> (False, l\<lparr>jl_aborted := True\<rparr>, t')
      | (True, t') \<Rightarrow> (True, l\<lparr>jl_deadline := heartbeatAt + LEASE_MS\<rparr>, t')))"

definition leaseWatchdog :: "int \<Rightarrow> job_lease \<Rightarrow> job_lease" where
  "leaseWatchdog now l = (if jl_deadline l \<le> now then l\<lparr>jl_aborted := True\<rparr> else l)"

text \<open>What the poll does with a claimed job: a kind without a handler fails at once.\<close>

definition poll_claimed :: "string list \<Rightarrow> durable_job \<Rightarrow> int \<Rightarrow> durable_job table \<Rightarrow> bool \<times> durable_job table" where
  "poll_claimed handlers job now t =
    (if j_kind job \<notin> set handlers
     then (False, snd (finishDurableJob job Job_failed (Some (''No handler registered for '' @ j_kind job)) now t))
     else (True, t))"

end
