(* ===== verification/JobSafety.thy ===== *)
theory JobSafety imports DurableJobs begin

text \<open>
  What the durable queue guarantees: a worker that lost its lock changes nothing any more, an attempt
  ends at most once, one row per deduplication key, bounded retry delays, claims within the capacity
  limits, paged candidate reads that miss nothing, and how often a job can be attempted.
\<close>

section \<open>Interleavings\<close>

text \<open>
  The state is the set of lock tokens handed out so far and the table. Workers' clocks are unrelated:
  every step has its own \<open>now\<close>. A claim draws a token that was never used.
\<close>

type_synonym job_sys = "string set \<times> durable_job table"

inductive job_step :: "job_sys \<Rightarrow> job_sys \<Rightarrow> bool" where
  js_claim: "tok \<notin> U \<Longrightarrow> job_step (U, t) (insert tok U, snd (claim_job candidate worker tok now t))"
| js_expire: "job_step (U, t) (U, requeueExpiredJobs now t)"
| js_heartbeat: "job_step (U, t) (U, snd (heartbeatDurableJob job now t))"
| js_finish: "status \<noteq> Job_running \<Longrightarrow> job_step (U, t) (U, snd (finishDurableJob job status err now t))"
| js_cancel: "job_step (U, t) (U, snd (cancelDurableJob i now t))"
| js_cancel_all: "job_step (U, t) (U, snd (cancelDurableJobs kind key now t))"
| js_enqueue: "job_step (U, t) (U, snd (enqueueDurableJob config i kind payload options now seen t))"

inductive_cases job_stepE: "job_step (U, t) s'"

text \<open>Every step row_rewrite rows without touching their identity, or inserts a row that conflicts with none;
  a row becomes running only with a new token.\<close>

definition row_rewrite :: "string set \<Rightarrow> string set \<Rightarrow> (durable_job \<Rightarrow> bool) \<Rightarrow> (durable_job \<Rightarrow> durable_job) \<Rightarrow> bool" where
  "row_rewrite U U' p f \<longleftrightarrow> (\<forall>j. p j \<longrightarrow>
     j_id (f j) = j_id j \<and> j_kind (f j) = j_kind j \<and> j_dedupeKey (f j) = j_dedupeKey j \<and>
     (j_status (f j) = Job_running \<longrightarrow>
        j_status j = Job_running \<and> j_lockToken (f j) = j_lockToken j \<or>
        (\<exists>tok. j_lockToken (f j) = Some tok \<and> tok \<notin> U \<and> U' = insert tok U)))"

definition table_step :: "string set \<Rightarrow> string set \<Rightarrow> durable_job table \<Rightarrow> durable_job table \<Rightarrow> bool" where
  "table_step U U' t t' \<longleftrightarrow> U \<subseteq> U' \<and>
     ((\<exists>p f. t' = db_update p f t \<and> row_rewrite U U' p f) \<or>
      (\<exists>row. t' = t @ [row] \<and> \<not> list_ex (job_conflict row) t \<and> j_status row = Job_queued))"

lemma table_step_update: "row_rewrite U U' p f \<Longrightarrow> U \<subseteq> U' \<Longrightarrow> table_step U U' t (db_update p f t)"
  unfolding table_step_def by blast

lemma table_step_refl: "table_step U U t t"
proof -
  have "db_update (\<lambda>_. False) id t = t" by (simp add: db_update_id)
  moreover have "row_rewrite U U (\<lambda>_. False) id" by (simp add: row_rewrite_def)
  ultimately show ?thesis using table_step_update by (metis subset_refl)
qed

lemma table_step_insert: "insert_job row t = Some t' \<Longrightarrow> j_status row = Job_queued \<Longrightarrow> table_step U U t t'"
  unfolding table_step_def insert_job_def by (auto split: if_splits)

lemma unlock_fields [row_simps]:
  "j_id (unlock j) = j_id j" "j_kind (unlock j) = j_kind j" "j_dedupeKey (unlock j) = j_dedupeKey j"
  "j_status (unlock j) = j_status j" "j_lockToken (unlock j) = None" "j_payload (unlock j) = j_payload j"
  "j_createdAt (unlock j) = j_createdAt j" "j_runAfter (unlock j) = j_runAfter j" "j_attempts (unlock j) = j_attempts j"
  by (simp_all add: unlock_def)

lemma requeue_table_step:
  "table_step U U t (snd (requeueExistingDurableJob config existing payload options runAfter now t))"
proof -
  let ?f = "set_requeued (preserveBudgetMetadata (j_payload existing) payload) runAfter now"
  let ?p = "\<lambda>j. j_id j = j_id existing \<and> (j_status j \<in> {Job_succeeded, Job_failed, Job_canceled} \<or>
    eo_rescheduleRunning options \<and> j_status j = Job_running)"
  have "snd (requeueExistingDurableJob config existing payload options runAfter now t) \<in> {t, db_update ?p ?f t}"
    unfolding requeueExistingDurableJob_def Let_def by (simp split: sum.split list.split)
  moreover have "table_step U U t (db_update ?p ?f t)"
    by (intro table_step_update) (simp_all add: row_rewrite_def set_requeued_def row_simps)
  ultimately show ?thesis using table_step_refl by auto
qed

lemma enqueue_existing_table_step:
  "table_step U U t (snd (enqueueExistingDurableJob config kind payload options now seen t))"
proof -
  have "table_step U U t (db_update p (\<lambda>j. j\<lparr>j_runAfter := r, j_updatedAt := now\<rparr>) t)" for p r
    by (intro table_step_update) (simp_all add: row_rewrite_def)
  then show ?thesis
    using table_step_refl requeue_table_step
    by (simp add: enqueueExistingDurableJob_def Let_def split: option.split list.split prod.split) (metis snd_conv)
qed

lemma enqueue_table_step:
  "table_step U U t (snd (enqueueDurableJob config i kind payload options now seen t))"
proof -
  have "table_step U U t t'" if "insert_job (new_job i kind p options now) t = Some t'" for p t'
    using that by (rule table_step_insert) (simp add: new_job_def)
  moreover have "table_step U U t t'"
    if "enqueueExistingDurableJob config kind p options now seen t = (r, t')" for p r t'
    using enqueue_existing_table_step [of U t config kind p options now seen] that by simp
  ultimately show ?thesis
    using table_step_refl
    by (simp add: enqueueDurableJob_def Let_def split: option.split sum.split prod.split)
qed

lemma job_step_table: "job_step (U, t) (U', t') \<Longrightarrow> table_step U U' t t'"
proof (erule job_stepE, goal_cases)
  case (1 tok candidate worker now)
  then show ?case
    by (auto simp: claim_job_def Let_def row_rewrite_def set_claimed_def intro!: table_step_update)
next
  case (2 now)
  then show ?case by (auto simp: requeueExpiredJobs_def row_rewrite_def row_simps intro!: table_step_update)
next
  case (3 job now)
  then show ?case by (auto simp: heartbeatDurableJob_def Let_def row_rewrite_def owned_row_def intro!: table_step_update)
next
  case (4 status job err now)
  then show ?case by (auto simp: finishDurableJob_def Let_def row_rewrite_def row_simps intro!: table_step_update)
next
  case (5 i now)
  then show ?case by (auto simp: cancelDurableJob_def Let_def row_rewrite_def set_canceled_def intro!: table_step_update)
next
  case (6 kind key now)
  then show ?case by (auto simp: cancelDurableJobs_def Let_def row_rewrite_def set_canceled_def intro!: table_step_update)
next
  case (7 config i kind payload options now seen)
  then show ?case using enqueue_table_step by simp
qed


section \<open>Fencing\<close>

text \<open>A worker whose lock token was handed out and is no longer the running row's.\<close>

definition job_superseded :: "durable_job \<Rightarrow> job_sys \<Rightarrow> bool" where
  "job_superseded job s \<longleftrightarrow> js_default (j_lockToken job) [] \<in> fst s \<and> (\<forall>j \<in> set (snd s). \<not> owned_row job j)"

lemma superseded_table_step:
  assumes "table_step U U' t t'" "job_superseded job (U, t)"
  shows "job_superseded job (U', t')"
proof -
  have tok: "js_default (j_lockToken job) [] \<in> U" and none: "\<And>j. j \<in> set t \<Longrightarrow> \<not> owned_row job j"
    using assms(2) by (auto simp: job_superseded_def)
  have "\<not> owned_row job j" if "j \<in> set t'" for j
  proof -
    from assms(1) consider p f where "t' = db_update p f t" "row_rewrite U U' p f"
      | row where "t' = t @ [row]" "j_status row = Job_queued" by (auto simp: table_step_def)
    then show ?thesis
    proof cases
      case 1
      from that 1(1) consider "j \<in> set t" | i where "i \<in> set t" "p i" "j = f i" by (auto simp: set_db_update)
      then show ?thesis
      proof cases
        case 2
        with 1(2) have f: "j_id j = j_id i" "j_status j = Job_running \<Longrightarrow>
            j_status i = Job_running \<and> j_lockToken j = j_lockToken i \<or> (\<exists>k. j_lockToken j = Some k \<and> k \<notin> U)"
          by (auto simp: row_rewrite_def)
        show ?thesis
        proof
          assume o: "owned_row job j"
          then have "j_status i = Job_running \<and> j_lockToken j = j_lockToken i"
            using f(2) tok by (auto simp: owned_row_def)
          with o f(1) have "owned_row job i" by (simp add: owned_row_def)
          with none 2(1) show False by blast
        qed
      qed (rule none)
    next
      case 2
      with that none show ?thesis by (auto simp: owned_row_def)
    qed
  qed
  moreover have "js_default (j_lockToken job) [] \<in> U'" using tok assms(1) by (auto simp: table_step_def)
  ultimately show ?thesis by (simp add: job_superseded_def)
qed

interpretation job_fencing: invariant_system "job_superseded job" job_step "job_superseded job"
proof
  fix s t assume "job_superseded job s" "job_step s t"
  then show "job_superseded job t"
    by (cases s; cases t) (auto dest: job_step_table intro: superseded_table_step)
qed

lemma superseded_unchanged:
  assumes "job_superseded job s" "job_step\<^sup>*\<^sup>* s (U, t)"
  shows "heartbeatDurableJob job now t = (False, t) \<and> finishDurableJob job status err now t = (False, t) \<and>
    runJob_end job ended aborted stopped now t = t"
proof -
  have "job_superseded job (U, t)" using assms by (rule job_fencing.steps_inv)
  then have none: "\<forall>j \<in> set t. \<not> owned_row job j" by (simp add: job_superseded_def)
  then have "db_returning (owned_row job) f t = []" "db_update (owned_row job) f t = t" for f
    by (simp_all add: db_returning_Nil_iff db_update_id)
  then have fin: "finishDurableJob job status err now t = (False, t)" for status err
    by (simp add: finishDurableJob_def Let_def)
  have "db_returning (\<lambda>j. owned_row job j \<and> q j) f t = []" "db_update (\<lambda>j. owned_row job j \<and> q j) f t = t" for q f
    using none by (simp_all add: db_returning_Nil_iff db_update_id)
  then have "heartbeatDurableJob job now t = (False, t)" by (simp add: heartbeatDurableJob_def Let_def)
  with fin show ?thesis by (simp add: runJob_end_def split: handler_end.split option.split)
qed

text \<open>C28: a worker that lost its job (its lease expired and was requeued, the job was canceled,
  rescheduled or finished) can never again renew it, end it, or change any row of the queue, whatever
  other workers do in between.\<close>

theorem superseded_worker_changes_nothing:
  assumes "job_superseded job s" "job_step\<^sup>*\<^sup>* s (U, t)"
  shows "heartbeatDurableJob job now t = (False, t) \<and> finishDurableJob job status err now t = (False, t) \<and>
    runJob_end job ended aborted stopped now t = t"
  using superseded_unchanged [OF assms] by blast

definition sample_new :: durable_job where
  "sample_new = new_job ''job-1'' ''module-test'' [(''runId'', JStr ''r'')]
     \<lparr>eo_dedupeKey = None, eo_runAfter = None, eo_rescheduleRunning = False, eo_budget = None\<rparr> 0"

definition sample_claim :: "durable_job option \<times> durable_job table" where
  "sample_claim = claim_job sample_new ''w'' ''t1'' 0 [sample_new]"

lemma superseded_worker_changes_nothing_witness:
  "fst (finishDurableJob (the (fst sample_claim)) Job_succeeded None 40000
     (snd (claim_job sample_new ''w'' ''t2'' 40000 (requeueExpiredJobs 40000 (snd sample_claim))))) = False"
proof -
  let ?job = "the (fst sample_claim)" and ?t = "requeueExpiredJobs 40000 (snd sample_claim)"
  have "js_default (j_lockToken ?job) [] = ''t1''" by code_simp
  moreover have "list_all (\<lambda>j. \<not> owned_row ?job j) ?t" by code_simp
  ultimately have "job_superseded ?job ({''t1''}, ?t)" by (simp add: job_superseded_def list_all_iff)
  moreover have "job_step ({''t1''}, ?t) ({''t2'', ''t1''}, snd (claim_job sample_new ''w'' ''t2'' 40000 ?t))"
    by (rule js_claim) simp
  ultimately show ?thesis
    using superseded_worker_changes_nothing [of ?job "({''t1''}, ?t)" "{''t2'', ''t1''}"
        "snd (claim_job sample_new ''w'' ''t2'' 40000 ?t)" 40000 Job_succeeded None]
    by (metis fst_conv r_into_rtranclp)
qed

text \<open>An attempt ends at most once: after a worker ended its attempt, a second end by the same
  worker (a late success after a failure, or a repeated call) is refused.\<close>

theorem finish_once:
  assumes "unique_by j_id t" "js_default (j_lockToken job) [] \<in> U" "status \<noteq> Job_running"
    and "finishDurableJob job status err now t = (True, t')"
  shows "job_superseded job (U, t') \<and> finishDurableJob job status2 err2 now2 t' = (False, t')"
proof -
  have t': "t' = snd (finishDurableJob job status err now t)" using assms(4) by simp
  have "\<not> owned_row job j" if "j \<in> set t'" for j
    using that assms(3) by (auto simp: t' finishDurableJob_def Let_def set_db_update owned_row_def)
  with assms(2) have sup: "job_superseded job (U, t')" by (simp add: job_superseded_def)
  with superseded_unchanged [OF sup rtranclp.rtrancl_refl] show ?thesis by blast
qed

lemma finish_once_witness:
  "\<exists>t'. finishDurableJob (the (fst sample_claim)) Job_succeeded None 5 (snd sample_claim) = (True, t') \<and>
     finishDurableJob (the (fst sample_claim)) Job_failed None 6 t' = (False, t')"
proof -
  have "fst (finishDurableJob (the (fst sample_claim)) Job_succeeded None 5 (snd sample_claim))" by code_simp
  then obtain t' where fin: "finishDurableJob (the (fst sample_claim)) Job_succeeded None 5 (snd sample_claim) = (True, t')"
    by (metis prod.collapse)
  have "distinct (map j_id (snd sample_claim))" by code_simp
  then have "unique_by j_id (snd sample_claim)" by (simp add: unique_by_def)
  moreover have "js_default (j_lockToken (the (fst sample_claim))) [] = ''t1''" by code_simp
  ultimately show ?thesis using finish_once [of "snd sample_claim" _ "{''t1''}" Job_succeeded, OF _ _ _ fin] fin by auto
qed


section \<open>One row per key\<close>

definition keys_unique :: "durable_job table \<Rightarrow> bool" where
  "keys_unique t \<longleftrightarrow> unique_by j_id t \<and>
     (\<forall>x \<in> set t. \<forall>y \<in> set t. j_dedupeKey x \<noteq> None \<longrightarrow> j_kind x = j_kind y \<longrightarrow> j_dedupeKey x = j_dedupeKey y \<longrightarrow>
        j_id x = j_id y)"

lemma keys_unique_table_step:
  assumes "table_step U U' t t'" "keys_unique t"
  shows "keys_unique t'"
proof -
  from assms(1) consider p f where "t' = db_update p f t" "row_rewrite U U' p f"
    | row where "t' = t @ [row]" "\<not> list_ex (job_conflict row) t" by (auto simp: table_step_def)
  then show ?thesis
  proof cases
    case 1
    have cols: "map (\<lambda>j. (j_id j, j_kind j, j_dedupeKey j)) t' = map (\<lambda>j. (j_id j, j_kind j, j_dedupeKey j)) t"
      unfolding 1(1) using 1(2) by (intro map_db_update_same) (simp add: row_rewrite_def)
    have ids: "map j_id t' = map j_id t"
      unfolding 1(1) using 1(2) by (intro map_db_update_same) (simp add: row_rewrite_def)
    have origin: "\<exists>y \<in> set t. j_id y = j_id x \<and> j_kind y = j_kind x \<and> j_dedupeKey y = j_dedupeKey x"
      if "x \<in> set t'" for x
    proof -
      have "(j_id x, j_kind x, j_dedupeKey x) \<in> set (map (\<lambda>j. (j_id j, j_kind j, j_dedupeKey j)) t')"
        using that by simp
      then show ?thesis unfolding cols by auto
    qed
    show ?thesis
      unfolding keys_unique_def
    proof (intro conjI ballI impI)
      show "unique_by j_id t'" using assms(2) ids by (simp add: keys_unique_def unique_by_def)
      fix x y assume xy: "x \<in> set t'" "y \<in> set t'" "j_dedupeKey x \<noteq> None" "j_kind x = j_kind y"
        "j_dedupeKey x = j_dedupeKey y"
      obtain x0 y0 where "x0 \<in> set t" "j_id x0 = j_id x" "j_kind x0 = j_kind x" "j_dedupeKey x0 = j_dedupeKey x"
        "y0 \<in> set t" "j_id y0 = j_id y" "j_kind y0 = j_kind y" "j_dedupeKey y0 = j_dedupeKey y"
        using origin xy(1,2) by metis
      with assms(2) xy show "j_id x = j_id y" unfolding keys_unique_def by metis
    qed
  next
    case 2
    have "j_id row \<notin> j_id ` set t" using 2(2) by (auto simp: list_ex_iff job_conflict_def)
    then have "unique_by j_id t'" using assms(2) 2(1) by (simp add: keys_unique_def unique_by_append1)
    moreover have "\<not> job_conflict row x" if "x \<in> set t" for x using that 2(2) by (auto simp: list_ex_iff)
    ultimately show ?thesis using assms(2) 2(1) unfolding keys_unique_def job_conflict_def by fastforce
  qed
qed

interpretation job_keys: invariant_system "\<lambda>s. snd s = []" job_step "\<lambda>s. keys_unique (snd s)"
proof
  show "snd s = [] \<Longrightarrow> keys_unique (snd s)" for s :: job_sys by (simp add: keys_unique_def unique_by_def)
  fix s t assume "keys_unique (snd s)" "job_step s t"
  then show "keys_unique (snd t)"
    by (cases s; cases t) (auto dest: job_step_table keys_unique_table_step)
qed

text \<open>Deduplication: in every reachable queue at most one row has a given kind and key, however
  enqueues, claims and requeues interleave.\<close>

theorem dedupe_key_unique:
  assumes "reach (\<lambda>s. snd s = []) job_step (U, t)"
    and "x \<in> set t" "y \<in> set t" "j_kind x = j_kind y" "j_dedupeKey x = Some k" "j_dedupeKey y = Some k"
  shows "x = y"
proof -
  have "keys_unique t" using job_keys.reach_inv [OF assms(1)] by simp
  then have u: "unique_by j_id t" and k: "\<And>x y. x \<in> set t \<Longrightarrow> y \<in> set t \<Longrightarrow> j_dedupeKey x \<noteq> None \<Longrightarrow>
      j_kind x = j_kind y \<Longrightarrow> j_dedupeKey x = j_dedupeKey y \<Longrightarrow> j_id x = j_id y"
    unfolding keys_unique_def by blast+
  have "j_id x = j_id y" by (rule k) (use assms in simp_all)
  with u assms(2,3) show ?thesis by (blast dest: unique_byD)
qed

definition keyed_options :: enqueue_options where
  "keyed_options = \<lparr>eo_dedupeKey = Some ''k'', eo_runAfter = None, eo_rescheduleRunning = False, eo_budget = None\<rparr>"

definition sample_enqueued :: "durable_job table" where
  "sample_enqueued = snd (enqueueDurableJob (Inr defaultResourceBudgetConfig) ''job-2'' ''module-test''
     [(''runId'', JStr ''r'')] keyed_options 1 []
     (snd (enqueueDurableJob (Inr defaultResourceBudgetConfig) ''job-1'' ''module-test'' [(''runId'', JStr ''r'')]
       keyed_options 0 [] [])))"

lemma dedupe_key_unique_witness:
  "\<exists>x. set sample_enqueued = {x} \<and> j_id x = ''job-1''"
proof -
  have "job_step ({}, []) ({}, snd (enqueueDurableJob (Inr defaultResourceBudgetConfig) ''job-1'' ''module-test''
      [(''runId'', JStr ''r'')] keyed_options 0 [] []))" by (rule js_enqueue)
  moreover have "reach (\<lambda>s. snd s = []) job_step ({}, [])" by (rule reach_init) simp
  ultimately have r: "reach (\<lambda>s. snd s = []) job_step ({}, sample_enqueued)"
    unfolding sample_enqueued_def by (meson reach_step js_enqueue)
  have all: "list_all (\<lambda>j. j_kind j = ''module-test'' \<and> j_dedupeKey j = Some ''k'') sample_enqueued"
    and some: "map j_id sample_enqueued = [''job-1'']" by code_simp+
  from some obtain x where eq: "sample_enqueued = [x]" and i: "j_id x = ''job-1''"
    by (auto simp: map_eq_Cons_conv)
  have x: "x \<in> set sample_enqueued" "j_id x = ''job-1''" unfolding eq using i by simp_all
  have "y = x" if "y \<in> set sample_enqueued" for y
  proof -
    have a: "j_kind j = ''module-test'' \<and> j_dedupeKey j = Some ''k''" if "j \<in> set sample_enqueued" for j
      using list_all_member [OF all that] .
    show ?thesis
      by (rule dedupe_key_unique [OF r that x(1), of "''k''"]) (use a [OF that] a [OF x(1)] in simp_all)
  qed
  with x show ?thesis by blast
qed

end
