(* ===== verification/JobClaims.thy ===== *)
theory JobClaims imports JobSafety begin

text \<open>
  Claims of durable jobs: the retry delay, the paged read of the candidates, the capacity limits after a
  claim, and the number of times a job whose worker dies is attempted.
\<close>

section \<open>Retries\<close>

text \<open>A failed attempt is retried after 1 second at least and 1 minute at most, the delay grows with
  the attempts, and the third failure is final: the row is failed and stays where it is.\<close>

theorem retry_schedule:
  assumes "owned_row job j" "j \<in> set t" "unique_by j_id t"
  shows "\<exists>j' \<in> set (runJob_end job (Threw msg) aborted (Some False) now t). j_id j' = j_id job \<and>
    (if j_attempts job < DURABLE_MAX_ATTEMPTS
     then j_status j' = Job_queued \<and> now + 1000 \<le> j_runAfter j' \<and> j_runAfter j' \<le> now + 60000
     else j_status j' = Job_failed) \<and>
    (\<forall>a b. a \<le> b \<longrightarrow> retry_delay a \<le> retry_delay b)"
proof -
  let ?f = "\<lambda>j. (unlock j)\<lparr>j_status := retry_status job, j_updatedAt := now,
    j_runAfter := (if retry_status job = Job_queued then now + retry_delay (j_attempts job) else now),
    j_lastError := Some msg\<rparr>"
  have "?f j \<in> set (runJob_end job (Threw msg) aborted (Some False) now t)"
    using assms(1,2) by (simp add: runJob_end_def finishDurableJob_def Let_def set_db_update)
  moreover have "(1::int) \<le> 2 ^ n" for n by simp
  then have "1000 \<le> retry_delay (j_attempts job)" "retry_delay (j_attempts job) \<le> 60000"
    by (simp_all add: retry_delay_def)
  moreover have "retry_delay a \<le> retry_delay b" if "a \<le> b" for a b
  proof -
    have "(2::int) ^ (a - 1) \<le> 2 ^ (b - 1)" using that by (intro power_increasing) auto
    then have "(1000::int) * 2 ^ (a - 1) \<le> 1000 * 2 ^ (b - 1)" by linarith
    then show ?thesis unfolding retry_delay_def by (rule min.mono [OF order_refl])
  qed
  ultimately show ?thesis using assms(1)
    by (intro bexI [of _ "?f j"]) (auto simp: retry_status_def owned_row_def row_simps)
qed

lemma retry_schedule_witness:
  "\<exists>j' \<in> set (runJob_end (the (fst sample_claim)) (Threw ''boom'') None (Some False) 7 (snd sample_claim)).
     j_status j' = Job_queued \<and> j_runAfter j' \<le> 60007"
proof -
  have "list_ex (owned_row (the (fst sample_claim))) (snd sample_claim)" by code_simp
  then obtain j where j: "owned_row (the (fst sample_claim)) j" "j \<in> set (snd sample_claim)"
    by (auto simp: list_ex_iff)
  have "distinct (map j_id (snd sample_claim))" by code_simp
  then have "unique_by j_id (snd sample_claim)" by (simp add: unique_by_def)
  moreover have "j_attempts (the (fst sample_claim)) < DURABLE_MAX_ATTEMPTS" by code_simp
  ultimately show ?thesis using retry_schedule [OF j, of "''boom''" None 7] by auto
qed


section \<open>The candidate pages\<close>

lemma ready_comparator: "comparator ready_cmp"
  unfolding ready_cmp_def
  by (intro comparator_or comparator_comp [OF lex.comparator_axioms]) (unfold_locales; simp)+

interpretation ready: comparator ready_cmp by (rule ready_comparator)

lemma ready_cmp_eq_0: "ready_cmp x y = 0 \<longleftrightarrow> j_runAfter x = j_runAfter y \<and> j_createdAt x = j_createdAt y \<and> j_id x = j_id y"
  by (auto simp: ready_cmp_def js_or_def)

lemma after_cursor_iff: "after_cursor (Some c) j \<longleftrightarrow> ready_cmp c j < 0"
  by (auto simp: after_cursor_def ready_cmp_def js_or_def)

lemma js_sort_sorted: "sorted_wrt (\<lambda>x y. cmp x y \<le> 0) xs \<Longrightarrow> js_sort cmp xs = xs"
proof (induction xs)
  case (Cons x xs)
  then show ?case by (cases xs) auto
qed simp

lemma last_take_nth: "0 < n \<Longrightarrow> n \<le> length xs \<Longrightarrow> last (take n xs) = xs ! (n - 1)"
  by (subst last_conv_nth) (auto simp: min_def)

text \<open>The rows after the last one collected are the rest of the sorted list.\<close>

lemma filter_after_drop:
  assumes sorted: "sorted_wrt (\<lambda>x y. ready_cmp x y \<le> 0) S" and ids: "distinct (map j_id S)"
    and k: "0 < k" "k \<le> length S"
  shows "filter (\<lambda>j. ready_cmp (S ! (k - 1)) j < 0) S = drop k S"
proof -
  let ?c = "S ! (k - 1)"
  have c: "k - 1 < length S" using k by simp
  have split: "S = take k S @ drop k S" by simp
  have "\<not> ready_cmp ?c j < 0" if "j \<in> set (take k S)" for j
  proof -
    obtain i where i: "i < k" "i < length S" "j = S ! i" using \<open>j \<in> set (take k S)\<close> by (auto simp: in_set_conv_nth)
    have "ready_cmp (S ! i) ?c \<le> 0"
    proof (cases "i = k - 1")
      case True
      then show ?thesis using ready.cmp_refl [of ?c] by simp
    next
      case False
      with i c show ?thesis using sorted_wrt_nth_less [OF sorted, of i "k - 1"] by simp
    qed
    then show ?thesis using ready.cmp_flip [of j ?c] i(3) by (metis linorder_not_less)
  qed
  moreover have "ready_cmp ?c j < 0" if "j \<in> set (drop k S)" for j
  proof -
    obtain i where i: "i < length S - k" "j = S ! (k + i)" using \<open>j \<in> set (drop k S)\<close> by (auto simp: in_set_conv_nth)
    have "ready_cmp ?c j \<le> 0" using sorted_wrt_nth_less [OF sorted, of "k - 1" "k + i"] i k by simp
    moreover have "j_id ?c \<noteq> j_id j"
      using ids i k nth_eq_iff_index_eq [OF ids, of "k - 1" "k + i"] by auto
    then have "ready_cmp ?c j \<noteq> 0" by (auto simp: ready_cmp_eq_0)
    ultimately show ?thesis by simp
  qed
  ultimately have "filter (\<lambda>j. ready_cmp ?c j < 0) (take k S) = []" "filter (\<lambda>j. ready_cmp ?c j < 0) (drop k S) = drop k S"
    by (auto simp: filter_empty_conv filter_id_conv)
  then show ?thesis by (subst split) (simp only: filter_append append_Nil)
qed

definition ready_sorted :: "string list \<Rightarrow> int \<Rightarrow> durable_job table \<Rightarrow> durable_job list" where
  "ready_sorted kinds now t = js_sort ready_cmp (filter (ready_job kinds now) t)"

lemma ready_sorted_distinct: "unique_by j_id t \<Longrightarrow> distinct (map j_id (ready_sorted kinds now t))"
proof -
  assume "unique_by j_id t"
  then have "distinct (map j_id (filter (ready_job kinds now) t))" by (simp add: unique_by_def distinct_map_filter)
  moreover have "mset (map j_id (ready_sorted kinds now t)) = mset (map j_id (filter (ready_job kinds now) t))"
    by (simp add: ready_sorted_def)
  ultimately show ?thesis using mset_eq_imp_distinct_iff by blast
qed

lemma ready_page_drop:
  assumes "unique_by j_id t" "k \<le> length (ready_sorted kinds now t)"
    and cur: "cursor = (if k = 0 then None else Some (ready_sorted kinds now t ! (k - 1)))"
  shows "ready_page kinds now cursor limit t = take limit (drop k (ready_sorted kinds now t))"
proof (cases "k = 0")
  case True
  then show ?thesis by (simp add: cur ready_page_def ready_sorted_def after_cursor_def)
next
  case False
  let ?S = "ready_sorted kinds now t" and ?c = "ready_sorted kinds now t ! (k - 1)"
  have sorted: "sorted_wrt (\<lambda>x y. ready_cmp x y \<le> 0) ?S" unfolding ready_sorted_def by (rule ready.sorted_js_sort)
  have rest: "filter (\<lambda>j. ready_cmp ?c j < 0) ?S = drop k ?S"
    using False assms(2) by (intro filter_after_drop [OF sorted ready_sorted_distinct [OF assms(1)]]) auto
  have ids: "distinct (map j_id (filter (ready_job kinds now) t))"
    using assms(1) by (simp add: unique_by_def distinct_map_filter)
  have "js_sort ready_cmp (filter (\<lambda>j. ready_job kinds now j \<and> after_cursor cursor j) t) =
      js_sort ready_cmp (filter (\<lambda>j. ready_cmp ?c j < 0) ?S)"
  proof (rule ready.js_sort_order_independent)
    have "mset (filter (\<lambda>j. ready_cmp ?c j < 0) ?S) =
        mset (filter (\<lambda>j. ready_cmp ?c j < 0) (filter (ready_job kinds now) t))"
      unfolding mset_filter by (simp add: ready_sorted_def)
    then show "mset (filter (\<lambda>j. ready_job kinds now j \<and> after_cursor cursor j) t) =
        mset (filter (\<lambda>j. ready_cmp ?c j < 0) ?S)"
      using False by (simp add: cur after_cursor_iff conj_commute)
  next
    fix x y
    assume "x \<in> set (filter (\<lambda>j. ready_job kinds now j \<and> after_cursor cursor j) t)"
      "y \<in> set (filter (\<lambda>j. ready_job kinds now j \<and> after_cursor cursor j) t)" "ready_cmp x y = 0"
    with assms(1) show "x = y" by (auto simp: ready_cmp_eq_0 dest: unique_byD)
  qed
  also have "\<dots> = drop k ?S"
    unfolding rest using sorted by (intro js_sort_sorted) (simp add: sorted_wrt_drop)
  finally show ?thesis by (simp add: ready_page_def)
qed

lemma load_pages_step:
  assumes "length candidates < maxRows"
    and "ready_page kinds now cursor (min 256 (maxRows - length candidates)) t \<noteq> []"
    and "\<not> length (ready_page kinds now cursor (min 256 (maxRows - length candidates)) t) <
      min 256 (maxRows - length candidates)"
  shows "load_pages kinds now maxRows t candidates cursor = load_pages kinds now maxRows t
    (candidates @ ready_page kinds now cursor (min 256 (maxRows - length candidates)) t)
    (Some (last (ready_page kinds now cursor (min 256 (maxRows - length candidates)) t)))"
  using assms by (subst load_pages.simps) (simp only: Let_def if_False if_True not_False_eq_True disj_not1 not_not simp_thms)

lemma load_pages_take:
  assumes "unique_by j_id t" "k \<le> length (ready_sorted kinds now t)" "k \<le> maxRows"
  shows "load_pages kinds now maxRows t (take k (ready_sorted kinds now t))
      (if k = 0 then None else Some (ready_sorted kinds now t ! (k - 1))) = take maxRows (ready_sorted kinds now t)"
  using assms(2,3)
proof (induction "maxRows - k" arbitrary: k rule: less_induct)
  case less
  let ?S = "ready_sorted kinds now t"
  let ?cur = "if k = 0 then None else Some (?S ! (k - 1))"
  show ?case
  proof (cases "k < maxRows")
    case False
    then show ?thesis using less.prems by (subst load_pages.simps) (simp add: min_def)
  next
    case True
    let ?lim = "min 256 (maxRows - k)"
    have page: "ready_page kinds now ?cur ?lim t = take ?lim (drop k ?S)"
      using less.prems by (intro ready_page_drop [OF assms(1)]) auto
    have app: "take k ?S @ take ?lim (drop k ?S) = take (k + ?lim) ?S" by (simp add: take_add)
    show ?thesis
    proof (cases "length ?S < k + ?lim \<or> drop k ?S = []")
      case True
      then have "take (k + ?lim) ?S = ?S" "take maxRows ?S = ?S" using less.prems by auto
      moreover have "length (take ?lim (drop k ?S)) < ?lim"
        using True less.prems \<open>k < maxRows\<close> by auto
      ultimately show ?thesis using less.prems \<open>k < maxRows\<close>
        by (subst load_pages.simps) (simp add: page app Let_def min_absorb2)
    next
      case False
      let ?k = "k + ?lim"
      have k': "?k \<le> length ?S" "?k \<le> maxRows" "k < ?k" using False \<open>k < maxRows\<close> by auto
      have lim: "0 < ?lim" "?lim \<le> length (drop k ?S)" using k' \<open>k < maxRows\<close> by auto
      then have "last (take ?lim (drop k ?S)) = drop k ?S ! (?lim - 1)"
        by (rule last_take_nth)
      also have "\<dots> = ?S ! (k + (?lim - 1))" using k' by (intro nth_drop) simp
      also have "k + (?lim - 1) = ?k - 1" using lim(1) by simp
      finally have last: "last (take ?lim (drop k ?S)) = ?S ! (?k - 1)" .
      have ne: "take ?lim (drop k ?S) \<noteq> []" "\<not> length (take ?lim (drop k ?S)) < ?lim"
        using False k' \<open>k < maxRows\<close> by auto
      have lenk: "length (take k ?S) = k" using less.prems by simp
      have "load_pages kinds now maxRows t (take k ?S) ?cur =
          load_pages kinds now maxRows t (take k ?S @ take ?lim (drop k ?S)) (Some (last (take ?lim (drop k ?S))))"
        using load_pages_step [of "take k ?S" maxRows kinds now ?cur t] ne \<open>k < maxRows\<close> unfolding lenk page by simp
      also have "\<dots> = load_pages kinds now maxRows t (take ?k ?S) (if ?k = 0 then None else Some (?S ! (?k - 1)))"
      proof -
        have "?k \<noteq> 0" using k'(3) by linarith
        then show ?thesis unfolding app last by (simp only: if_False)
      qed
      also have "\<dots> = take maxRows ?S" using k' by (intro less.hyps) auto
      finally show ?thesis .
    qed
  qed
qed

lemma pages_take:
  assumes "unique_by j_id t"
  shows "loadReadyDurableCandidates kinds now maxRows t = take maxRows (ready_sorted kinds now t)"
  using load_pages_take [OF assms, of 0 kinds now maxRows] by (simp add: loadReadyDurableCandidates_def)

text \<open>C33: the candidate read misses nothing and repeats nothing: reading in pages of 256 after a cursor
  gives exactly the first \<open>maxRows\<close> ready rows of the queue in the order of due time, age and id.\<close>

theorem candidate_pages_complete:
  assumes "unique_by j_id t"
  shows "loadReadyDurableCandidates kinds now maxRows t =
    take maxRows (js_sort ready_cmp (filter (ready_job kinds now) t))"
  using pages_take [OF assms] by (simp add: ready_sorted_def)

lemma candidate_pages_complete_witness:
  "loadReadyDurableCandidates [''module-test''] 0 10 [sample_new] = [sample_new]"
proof -
  have "unique_by j_id [sample_new]" by (simp add: unique_by_def)
  moreover have "ready_job [''module-test''] 0 sample_new" by code_simp
  ultimately show ?thesis using candidate_pages_complete [of "[sample_new]" "[''module-test'']" 0 10] by simp
qed


section \<open>Capacity after a claim\<close>

lemma count_if_mset: "count_if p xs = int (size (filter_mset p (mset xs)))"
  by (simp flip: mset_filter)

lemma sum_bytes_mset: "sum_bytes xs = \<Sum>\<^sub># (image_mset bj_estimatedBytes (mset xs))"
  by (simp add: sum_bytes_def flip: sum_mset_sum_list)

lemma within_limits_mset: "mset xs = mset ys \<Longrightarrow> within_limits config xs \<longleftrightarrow> within_limits config ys"
proof -
  assume eq: "mset xs = mset ys"
  then have "set xs = set ys" "length xs = length ys" "xs = [] \<longleftrightarrow> ys = []"
    by (metis set_mset_mset) (metis eq size_mset, metis eq mset_zero_iff)
  then show ?thesis
    unfolding within_limits_def count_if_mset sum_bytes_mset mset_filter eq by simp
qed

lemma sum_bytes_sub:
  assumes "mset xs \<subseteq># mset ys" "\<And>j. j \<in> set ys \<Longrightarrow> 0 \<le> bj_estimatedBytes j"
  shows "sum_bytes xs \<le> sum_bytes ys"
proof -
  obtain R where R: "mset ys = mset xs + R" using assms(1) by (auto simp: mset_subset_eq_exists_conv)
  have "set_mset R \<subseteq> set ys" using R by (metis mset_subset_eqD mset_subset_eq_add_right set_mset_mset subsetI)
  then have "0 \<le> (\<Sum>\<^sub># (image_mset bj_estimatedBytes R))"
    using assms(2) by (induction R) auto
  then show ?thesis by (simp add: sum_bytes_mset R)
qed

lemma count_sub: "mset xs \<subseteq># mset ys \<Longrightarrow> count_if p xs \<le> count_if p ys"
  by (simp add: count_if_mset size_mset_mono multiset_filter_mono)

lemma within_limits_sub:
  assumes ys: "within_limits config ys" and sub: "mset xs \<subseteq># mset ys"
    and bytes: "\<And>j. j \<in> set ys \<Longrightarrow> 0 \<le> bj_estimatedBytes j"
  shows "within_limits config xs"
  unfolding within_limits_def
proof (intro conjI ballI impI)
  show "int (length xs) \<le> gb_concurrency (bc_global config)"
    using ys size_mset_mono [OF sub] by (simp add: within_limits_def)
  fix j assume j: "j \<in> set xs"
  then have m: "j \<in> set ys" using sub by (metis mset_subset_eqD set_mset_mset)
  then have lim: "count_if (same_class j) ys \<le> cl_concurrency (bc_classes config (bj_jobClass j))"
    "count_if (same_org j) ys \<le> ob_concurrency (organizationBudget config (bj_organizationId j))"
    "sum_bytes (filter (same_org j) ys) \<le> ob_artifactBytes (organizationBudget config (bj_organizationId j))"
    using ys unfolding within_limits_def by blast+
  show "count_if (same_class j) xs \<le> cl_concurrency (bc_classes config (bj_jobClass j))"
    using count_sub [OF sub] lim(1) by (rule order_trans)
  show "count_if (same_org j) xs \<le> ob_concurrency (organizationBudget config (bj_organizationId j))"
    using count_sub [OF sub] lim(2) by (rule order_trans)
  have "sum_bytes (filter (same_org j) xs) \<le> sum_bytes (filter (same_org j) ys)"
    using sub bytes by (intro sum_bytes_sub) (simp_all add: multiset_filter_mono)
  then show "sum_bytes (filter (same_org j) xs) \<le> ob_artifactBytes (organizationBudget config (bj_organizationId j))"
    using lim(3) by (rule order_trans)
next
  assume "xs \<noteq> []"
  with sub have "ys \<noteq> []" by auto
  with ys have "sum_bytes ys \<le> gb_artifactBytes (bc_global config)" by (simp add: within_limits_def)
  with sum_bytes_sub [OF sub bytes] show "sum_bytes xs \<le> gb_artifactBytes (bc_global config)" by linarith
next
  show "count_if (\<lambda>j. \<not> isProtected (bj_jobClass j)) xs \<le> regularConcurrency config"
    using ys count_sub [OF sub, of "\<lambda>j. \<not> isProtected (bj_jobClass j)"] unfolding within_limits_def by linarith
qed

lemma budget_job_bytes: "0 \<le> bj_estimatedBytes (budget_job_of j)"
  by (simp add: budget_job_of_def resourceBudgetJobFromDurable_def nonNegativeBytes_def split: option.split json.split)

definition running_budget :: "durable_job table \<Rightarrow> budget_job list" where
  "running_budget t = map budget_job_of (jobs_in Job_running t)"

lemma budget_job_of_cong:
  "j_id x = j_id y \<Longrightarrow> j_kind x = j_kind y \<Longrightarrow> j_payload x = j_payload y \<Longrightarrow> j_runAfter x = j_runAfter y \<Longrightarrow>
   j_createdAt x = j_createdAt y \<Longrightarrow> budget_job_of x = budget_job_of y"
  by (simp add: budget_job_of_def)

lemma running_after_expiry: "mset (running_budget (requeueExpiredJobs now t)) \<subseteq># mset (running_budget t)"
proof (induction t)
  case (Cons j t)
  let ?b = "\<lambda>t. filter (\<lambda>j. j_status j = Job_running) t"
  have "running_budget (requeueExpiredJobs now (j # t)) =
      (if j_status j = Job_running \<and> \<not> sql_lt (j_leaseExpiresAt j) now then [budget_job_of j] else []) @
      running_budget (requeueExpiredJobs now t)"
    by (simp add: running_budget_def jobs_in_def requeueExpiredJobs_def)
  moreover have "running_budget (j # t) = (if j_status j = Job_running then [budget_job_of j] else []) @ running_budget t"
    by (simp add: running_budget_def jobs_in_def)
  moreover have "mset (running_budget (requeueExpiredJobs now t)) \<subseteq># add_mset (budget_job_of j) (mset (running_budget t))"
    using Cons.IH subset_mset.order_trans [OF Cons.IH, of "add_mset (budget_job_of j) (mset (running_budget t))"]
    by (simp add: subset_mset.less_imp_le)
  ultimately show ?case using Cons.IH by auto
qed (simp add: running_budget_def jobs_in_def requeueExpiredJobs_def)

lemma running_after_start:
  assumes "unique_by j_id t" "c \<in> set t" "p c" "\<And>j. p j \<Longrightarrow> j_id j = j_id c \<and> j_status j \<noteq> Job_running"
    and "\<And>j. j_status (f j) = Job_running" "budget_job_of (f c) = budget_job_of c"
  shows "mset (running_budget (db_update p f t)) = mset (running_budget t @ [budget_job_of c])"
proof -
  obtain us vs where t: "t = us @ c # vs" using assms(2) by (metis split_list)
  have "\<forall>j \<in> set us \<union> set vs. \<not> p j"
  proof
    fix j assume j: "j \<in> set us \<union> set vs"
    then have "j_id j \<noteq> j_id c" using assms(1) by (auto simp: t unique_by_def) (metis imageI)+
    then show "\<not> p j" using assms(4) by blast
  qed
  then have "db_update p f us = us" "db_update p f vs = vs" by (auto intro: db_update_id)
  moreover have "db_update p f (xs @ ys) = db_update p f xs @ db_update p f ys" for xs ys
    by (simp add: db_update_def)
  ultimately have "db_update p f t = us @ f c # vs" using assms(3) by (simp add: t)
  then show ?thesis using assms(3-6) by (simp add: t running_budget_def jobs_in_def)
qed

text \<open>A claim keeps the capacity limits: if what runs is within the limits of the configuration, it
  still is after a claim, whether expired leases were requeued, a job was started or neither.\<close>

theorem claim_keeps_limits:
  assumes u: "unique_by j_id t" and lim: "within_limits config (running_budget t)"
  shows "within_limits config
    (running_budget (snd (claimDurableJob lc (Inr config) worker kinds tok now t)))"
proof (cases "kinds = []")
  case True
  with lim show ?thesis by (simp add: claimDurableJob_def)
next
  case False
  let ?t1 = "requeueExpiredJobs now t"
  have u1: "unique_by j_id ?t1"
    using u unfolding requeueExpiredJobs_def by (rule unique_by_update [rotated]) (simp add: row_simps)
  have "0 \<le> bj_estimatedBytes j" if "j \<in> set (running_budget t)" for j
    using that by (auto simp: running_budget_def budget_job_bytes)
  with lim have lim1: "within_limits config (running_budget ?t1)"
    using running_after_expiry within_limits_sub by blast
  show ?thesis
  proof (cases "selectDurableCandidate lc config kinds now ?t1")
    case None
    with False lim1 show ?thesis by (simp add: claimDurableJob_def Let_def)
  next
    case (Some c)
    let ?rows = "loadReadyDurableCandidates kinds now (nat (gb_queue (bc_global config))) ?t1"
    let ?state = "\<lparr>bs_queued = map budget_job_of ?rows, bs_running = running_budget ?t1\<rparr>"
    from Some obtain job where sel: "selectResourceBudgetJob lc config ?state now = Some job"
        and find: "List.find (\<lambda>row. j_id row = bj_id job) ?rows = Some c"
      unfolding selectDurableCandidate_def Let_def running_budget_def by (auto split: option.splits)
    have sub: "set ?rows \<subseteq> {j \<in> set ?t1. ready_job kinds now j}"
      unfolding pages_take [OF u1] ready_sorted_def by (auto dest!: in_set_takeD)
    from find have c: "c \<in> set ?rows" "j_id c = bj_id job" by (auto simp: find_Some_iff)
    with sub have ct: "c \<in> set ?t1" "j_status c = Job_queued" "j_runAfter c \<le> now" by (auto simp: ready_job_def)
    have "job \<in> set (map budget_job_of ?rows)" using select_SomeD(1) [OF sel] by simp
    then obtain c' where c': "c' \<in> set ?rows" "job = budget_job_of c'" by auto
    then have "j_id c' = j_id c" using c(2) by (simp add: budget_job_of_def resourceBudgetJobFromDurable_def)
    with u1 sub c(1) c'(1) have "c' = c" by (blast dest: unique_byD)
    with c' have job: "job = budget_job_of c" by simp
    have "within_limits config (running_budget ?t1 @ [job])"
      using select_within [OF _ sel] lim1 by simp
    moreover have "mset (running_budget (snd (claim_job c worker tok now ?t1))) = mset (running_budget ?t1 @ [job])"
      unfolding claim_job_def Let_def snd_conv job
      by (rule running_after_start [OF u1 ct(1)]) (auto simp: ct set_claimed_def intro!: budget_job_of_cong)
    ultimately have "within_limits config (running_budget (snd (claim_job c worker tok now ?t1)))"
      using within_limits_mset by blast
    with False Some show ?thesis by (simp add: claimDurableJob_def Let_def split: prod.split) (metis snd_conv)
  qed
qed

lemma claim_keeps_limits_witness:
  "fst (claimDurableJob lex_cmp (Inr defaultResourceBudgetConfig) ''w'' [''module-test''] ''t'' 0 [sample_new]) \<noteq> Inr None \<and>
   within_limits defaultResourceBudgetConfig (running_budget
     (snd (claimDurableJob lex_cmp (Inr defaultResourceBudgetConfig) ''w'' [''module-test''] ''t'' 0 [sample_new])))"
proof
  have page: "loadReadyDurableCandidates [''module-test''] 0 (nat (gb_queue (bc_global defaultResourceBudgetConfig))) [sample_new]
      = [sample_new]"
  proof -
    have "ready_job [''module-test''] 0 sample_new" by code_simp
    then show ?thesis
      by (subst pages_take) (simp_all add: ready_sorted_def unique_by_def defaultResourceBudgetConfig_def DEFAULT_GLOBAL_def)
  qed
  have t1: "requeueExpiredJobs 0 [sample_new] = [sample_new]" by code_simp
  have r: "jobs_in Job_running [sample_new] = []" by code_simp
  have sel: "selectResourceBudgetJob lex_cmp defaultResourceBudgetConfig
      \<lparr>bs_queued = [budget_job_of sample_new], bs_running = []\<rparr> 0 = Some (budget_job_of sample_new)" by code_simp
  have "j_id sample_new = bj_id (budget_job_of sample_new)" by code_simp
  then have "selectDurableCandidate lex_cmp defaultResourceBudgetConfig [''module-test''] 0 [sample_new] = Some sample_new"
    by (simp add: selectDurableCandidate_def page r sel)
  moreover have "fst (claim_job sample_new ''w'' ''t'' 0 [sample_new]) \<noteq> None" by code_simp
  ultimately show "fst (claimDurableJob lex_cmp (Inr defaultResourceBudgetConfig) ''w'' [''module-test''] ''t'' 0 [sample_new])
      \<noteq> Inr None"
    by (simp add: claimDurableJob_def t1 Let_def split: prod.split) (metis fst_conv)
  show "within_limits defaultResourceBudgetConfig (running_budget
     (snd (claimDurableJob lex_cmp (Inr defaultResourceBudgetConfig) ''w'' [''module-test''] ''t'' 0 [sample_new])))"
    by (rule claim_keeps_limits)
      (simp_all add: unique_by_def running_budget_def r within_limits_def defaultResourceBudgetConfig_def DEFAULT_GLOBAL_def
        regularConcurrency_def)
qed


section \<open>Workers that die\<close>

lemma fresh_token: "finite U \<Longrightarrow> \<exists>tok :: string. tok \<notin> U"
  using ex_new_if_finite infinite_UNIV_listI by blast

text \<open>The limit of three attempts holds for handlers that fail, not for workers that die: for every
  number there is a history in which one job has been started more often than that, because a lease
  that expires requeues its job without looking at its attempts.\<close>

theorem crash_loop_not_limited:
  "\<exists>U t j. reach (\<lambda>s. snd s = []) job_step (U, t) \<and> t = [j] \<and> n < j_attempts j \<and> j_status j = Job_running"
proof -
  have loop: "\<exists>U j now. finite U \<and> reach (\<lambda>s. snd s = []) job_step (U, [j]) \<and> n \<le> j_attempts j \<and>
      j_status j = Job_queued \<and> j_runAfter j \<le> now" for n
  proof (induction n)
    case 0
    have "job_step ({}, []) ({}, snd (enqueueDurableJob (Inr defaultResourceBudgetConfig) ''job-1'' ''module-test''
        [(''runId'', JStr ''r'')] keyed_options 0 [] []))" by (rule js_enqueue)
    moreover have "reach (\<lambda>s. snd s = []) job_step ({}, [])" by (rule reach_init) simp
    ultimately have "reach (\<lambda>s. snd s = []) job_step ({}, snd (enqueueDurableJob (Inr defaultResourceBudgetConfig) ''job-1''
        ''module-test'' [(''runId'', JStr ''r'')] keyed_options 0 [] []))" by (rule reach_step [rotated])
    moreover have "map j_status (snd (enqueueDurableJob (Inr defaultResourceBudgetConfig) ''job-1''
        ''module-test'' [(''runId'', JStr ''r'')] keyed_options 0 [] [])) = [Job_queued]" by code_simp
    ultimately obtain j where "reach (\<lambda>s. snd s = []) job_step ({}, [j])" "j_status j = Job_queued"
      by (auto simp: map_eq_Cons_conv)
    then show ?case by (intro exI [of _ "{}"] exI [of _ j] exI [of _ "j_runAfter j"]) simp
  next
    case (Suc n)
    then obtain U j now where s: "finite U" "reach (\<lambda>s. snd s = []) job_step (U, [j])" "n \<le> j_attempts j"
        "j_status j = Job_queued" "j_runAfter j \<le> now" by blast
    obtain tok where tok: "tok \<notin> U" using fresh_token [OF s(1)] by blast
    let ?c = "set_claimed j ''w'' tok now j"
    have claim: "snd (claim_job j ''w'' tok now [j]) = [?c]" using s(4,5) by (simp add: claim_job_def Let_def)
    have r1: "reach (\<lambda>s. snd s = []) job_step (insert tok U, [?c])"
      using reach_step [OF s(2) js_claim [OF tok]] claim by metis
    let ?r = "(unlock ?c)\<lparr>j_status := Job_queued, j_updatedAt := now + LEASE_MS + 1, j_lastError := Some lease_expired_message\<rparr>"
    have "requeueExpiredJobs (now + LEASE_MS + 1) [?c] = [?r]"
      by (simp add: requeueExpiredJobs_def set_claimed_def sql_lt_def)
    then have "reach (\<lambda>s. snd s = []) job_step (insert tok U, [?r])"
      using reach_step [OF r1 js_expire] by metis
    moreover have "Suc n \<le> j_attempts ?r" "j_status ?r = Job_queued" "j_runAfter ?r \<le> now"
      using s(3,5) by (simp_all add: set_claimed_def row_simps)
    ultimately show ?case using s(1) by (metis finite_insert)
  qed
  obtain U j now where s: "finite U" "reach (\<lambda>s. snd s = []) job_step (U, [j])" "n \<le> j_attempts j"
      "j_status j = Job_queued" "j_runAfter j \<le> now" using loop [of n] by blast
  obtain tok where tok: "tok \<notin> U" using fresh_token [OF s(1)] by blast
  have claim: "snd (claim_job j ''w'' tok now [j]) = [set_claimed j ''w'' tok now j]"
    using s(4,5) by (simp add: claim_job_def Let_def)
  have "reach (\<lambda>s. snd s = []) job_step (insert tok U, [set_claimed j ''w'' tok now j])"
    using reach_step [OF s(2) js_claim [OF tok]] claim by metis
  moreover have "n < j_attempts (set_claimed j ''w'' tok now j)" "j_status (set_claimed j ''w'' tok now j) = Job_running"
    using s(3) by (simp_all add: set_claimed_def)
  ultimately show ?thesis by blast
qed

end
