(* ===== verification/Outbox.thy ===== *)
theory Outbox imports JobSafety begin

text \<open>
  The transactional outbox of \<open>lib/outbox.ts\<close>: events with their delivery jobs in the durable queue, the
  idempotent insert, the delivery handler as the statements between which other workers act, the
  operator's retry and repair, and the gauges. The result of the delivery itself is an argument.
\<close>

section \<open>Rows\<close>

datatype outbox_status = Ev_pending | Ev_processing | Ev_delivered | Ev_dead_letter

record outbox_event =
  oe_id :: string
  oe_topic :: string
  oe_payload :: "(string, json) js_map"
  oe_status :: outbox_status
  oe_attempts :: nat
  oe_lastError :: "string option"
  oe_deliveredAt :: "int option"
  oe_createdAt :: int
  oe_updatedAt :: int

record outbox_db =
  ox_events :: "outbox_event table"
  ox_jobs :: "durable_job table"

definition OUTBOX_DELIVERY_KIND :: string where "OUTBOX_DELIVERY_KIND = ''outbox-delivery''"
definition RUN_NOTIFICATION_OUTBOX_TOPIC :: string where "RUN_NOTIFICATION_OUTBOX_TOPIC = ''notification.run''"

datatype outbox_error =
  Empty_id
| Empty_topic
| Outbox_payload persisted_error
| Bound_to_different_payload string
| Invalid_run_id
| Invalid_trigger
| Invalid_status
| No_handler string
| Delivery_failed string
| Delivery_threw string
| Missing_event_id

definition durablePayload :: "string \<Rightarrow> (string, json) js_map" where
  "durablePayload eventId = [(''eventId'', JStr eventId)]"

definition jobForEvent :: "string \<Rightarrow> outbox_event \<Rightarrow> int \<Rightarrow> durable_job" where
  "jobForEvent jobId event now =
    \<lparr>j_id = jobId, j_kind = OUTBOX_DELIVERY_KIND, j_dedupeKey = Some (oe_id event), j_status = Job_queued,
     j_payload = durablePayload (oe_id event), j_payloadSchemaVersion = PERSISTED_JOB_PAYLOAD_SCHEMA_VERSION,
     j_attempts = 0, j_runAfter = now, j_lockedBy = None, j_lockToken = None, j_leaseExpiresAt = None,
     j_heartbeatAt = None, j_lastError = None, j_createdAt = now, j_updatedAt = now\<rparr>"

definition delivery_job :: "string \<Rightarrow> durable_job \<Rightarrow> bool" where
  "delivery_job eventId j \<longleftrightarrow> j_kind j = OUTBOX_DELIVERY_KIND \<and> j_dedupeKey j = Some eventId"

definition open_status :: "outbox_status \<Rightarrow> bool" where
  "open_status s \<longleftrightarrow> s = Ev_pending \<or> s = Ev_processing"

text \<open>\<open>INSERT .. ON CONFLICT (kind, dedupe_key) DO NOTHING\<close>; a fresh id never conflicts.\<close>

definition ensureDeliveryJob :: "string \<Rightarrow> outbox_event \<Rightarrow> int \<Rightarrow> outbox_db \<Rightarrow> outbox_db" where
  "ensureDeliveryJob jobId event now d =
    (if oe_status event = Ev_delivered \<or> oe_status event = Ev_dead_letter then d
     else if db_find (delivery_job (oe_id event)) (ox_jobs d) \<noteq> None then d
     else d\<lparr>ox_jobs := (case insert_job (jobForEvent jobId event now) (ox_jobs d) of None \<Rightarrow> ox_jobs d | Some t \<Rightarrow> t)\<rparr>)"

text \<open>Deep equality of JSON values does not depend on the order of the keys.\<close>

primrec canonical :: "json \<Rightarrow> json" where
  "canonical JNull = JNull"
| "canonical (JBool b) = JBool b"
| "canonical (JNum n) = JNum n"
| "canonical (JStr s) = JStr s"
| "canonical (JArr vs) = JArr (map canonical vs)"
| "canonical (JObj m) = JObj (js_sort (\<lambda>x y. lex_cmp (fst x) (fst y)) (map (map_prod id canonical) m))"

definition samePayload :: "(string, json) js_map \<Rightarrow> (string, json) js_map \<Rightarrow> bool" where
  "samePayload left right \<longleftrightarrow> canonical (JObj left) = canonical (JObj right)"

definition new_event :: "string \<Rightarrow> string \<Rightarrow> (string, json) js_map \<Rightarrow> int \<Rightarrow> outbox_event" where
  "new_event i topic payload now =
    \<lparr>oe_id = i, oe_topic = topic, oe_payload = payload, oe_status = Ev_pending, oe_attempts = 0, oe_lastError = None,
     oe_deliveredAt = None, oe_createdAt = now, oe_updatedAt = now\<rparr>"

definition enqueueOutboxEventTx ::
  "string \<Rightarrow> string \<Rightarrow> string \<Rightarrow> (string, json) js_map \<Rightarrow> int \<Rightarrow> outbox_db \<Rightarrow> (outbox_error + outbox_event) \<times> outbox_db" where
  "enqueueOutboxEventTx jobId i topic payload now d =
    (if js_trim i = [] then (Inl Empty_id, d)
     else if js_trim topic = [] then (Inl Empty_topic, d)
     else case parsePersistedJobPayload OUTBOX_DELIVERY_KIND (Some (JObj (durablePayload i)))
         PERSISTED_JOB_PAYLOAD_SCHEMA_VERSION of
       Inl e \<Rightarrow> (Inl (Outbox_payload e), d)
     | Inr _ \<Rightarrow>
         (case db_find (\<lambda>e. oe_id e = i) (ox_events d) of
            None \<Rightarrow>
              let event = new_event i topic payload now in
              (Inr event, ensureDeliveryJob jobId event now (d\<lparr>ox_events := ox_events d @ [event]\<rparr>))
          | Some event \<Rightarrow>
              if oe_topic event \<noteq> topic \<or> \<not> samePayload (oe_payload event) payload
              then (Inl (Bound_to_different_payload i), d)
              else (Inr event, ensureDeliveryJob jobId event now d)))"

definition runNotificationEventId :: "string \<Rightarrow> string \<Rightarrow> string \<Rightarrow> string" where
  "runNotificationEventId runId trigger status =
    join_with (CHR '':'') (map encodeURIComponent [''run'', runId, trigger, status])"

definition enqueueRunNotificationOutboxTx ::
  "string \<Rightarrow> string \<Rightarrow> string \<Rightarrow> string \<Rightarrow> int \<Rightarrow> outbox_db \<Rightarrow> (outbox_error + outbox_event) \<times> outbox_db" where
  "enqueueRunNotificationOutboxTx jobId runId trigger status now d =
    enqueueOutboxEventTx jobId (runNotificationEventId runId trigger status) RUN_NOTIFICATION_OUTBOX_TOPIC
      [(''runId'', JStr runId), (''trigger'', JStr trigger), (''status'', JStr status)] now d"


section \<open>Delivery\<close>

definition runNotificationPayload :: "outbox_event \<Rightarrow> outbox_error + (string \<times> string \<times> string option)" where
  "runNotificationPayload event =
    (case json_string (js_get (oe_payload event) ''runId'') of
       None \<Rightarrow> Inl Invalid_run_id
     | Some runId \<Rightarrow>
       if runId = [] then Inl Invalid_run_id
       else case json_string (js_get (oe_payload event) ''trigger'') of
         None \<Rightarrow> Inl Invalid_trigger
       | Some trigger \<Rightarrow>
         if trigger = [] then Inl Invalid_trigger
         else case js_get (oe_payload event) ''status'' of
           None \<Rightarrow> Inr (runId, trigger, None)
         | Some JNull \<Rightarrow> Inr (runId, trigger, None)
         | Some (JStr s) \<Rightarrow> Inr (runId, trigger, Some s)
         | Some _ \<Rightarrow> Inl Invalid_status)"

text \<open>\<open>deliver\<close> is \<open>deliverRunNotifications\<close> with the event's id: whether each delivery succeeded,
  or \<open>None\<close> when it throws.\<close>

definition dispatchOutboxEvent ::
  "(string \<Rightarrow> string \<Rightarrow> string option \<Rightarrow> string \<Rightarrow> bool list option) \<Rightarrow> outbox_event \<Rightarrow> outbox_error + unit" where
  "dispatchOutboxEvent deliver event =
    (if oe_topic event \<noteq> RUN_NOTIFICATION_OUTBOX_TOPIC then Inl (No_handler (oe_topic event))
     else case runNotificationPayload event of
       Inl e \<Rightarrow> Inl e
     | Inr (runId, trigger, status) \<Rightarrow>
         (case deliver runId trigger status (oe_id event) of
            None \<Rightarrow> Inl (Delivery_threw (oe_id event))
          | Some results \<Rightarrow> if list_ex Not results then Inl (Delivery_failed (oe_id event)) else Inr ()))"

text \<open>The handler's three statements: mark the event, and record the success or the failure.\<close>

definition ev_processing :: "durable_job \<Rightarrow> string \<Rightarrow> int \<Rightarrow> outbox_event table \<Rightarrow> outbox_event table" where
  "ev_processing job eventId now t =
    db_update (\<lambda>e. oe_id e = eventId \<and> open_status (oe_status e))
      (\<lambda>e. e\<lparr>oe_status := Ev_processing, oe_attempts := j_attempts job, oe_lastError := None, oe_updatedAt := now\<rparr>) t"

definition ev_delivered :: "durable_job \<Rightarrow> string \<Rightarrow> int \<Rightarrow> outbox_event table \<Rightarrow> outbox_event table" where
  "ev_delivered job eventId now t =
    db_update (\<lambda>e. oe_id e = eventId \<and> open_status (oe_status e))
      (\<lambda>e. e\<lparr>oe_status := Ev_delivered, oe_attempts := j_attempts job, oe_lastError := None,
             oe_deliveredAt := Some now, oe_updatedAt := now\<rparr>) t"

definition ev_failed :: "durable_job \<Rightarrow> string \<Rightarrow> string \<Rightarrow> int \<Rightarrow> outbox_event table \<Rightarrow> outbox_event table" where
  "ev_failed job eventId message now t =
    db_update (\<lambda>e. oe_id e = eventId)
      (\<lambda>e. e\<lparr>oe_status := (if DURABLE_MAX_ATTEMPTS \<le> j_attempts job then Ev_dead_letter else Ev_pending),
             oe_attempts := j_attempts job, oe_lastError := Some (take 1024 message), oe_updatedAt := now\<rparr>) t"

text \<open>The handler from its reading of the event: \<open>None\<close> when there is nothing to deliver.\<close>

definition outbox_job_event :: "durable_job \<Rightarrow> outbox_event table \<Rightarrow> outbox_error + outbox_event option" where
  "outbox_job_event job t =
    (case parsePersistedJobPayload OUTBOX_DELIVERY_KIND (Some (JObj (j_payload job))) (j_payloadSchemaVersion job) of
       Inl e \<Rightarrow> Inl (Outbox_payload e)
     | Inr body \<Rightarrow>
       (case json_string (js_get body ''eventId'') of
          None \<Rightarrow> Inl Missing_event_id
        | Some eventId \<Rightarrow>
            if eventId = [] then Inl Missing_event_id
            else case db_find (\<lambda>e. oe_id e = eventId) t of
              None \<Rightarrow> Inr None
            | Some e \<Rightarrow> if open_status (oe_status e) then Inr (Some e) else Inr None))"

text \<open>The whole handler when nothing else acts in between; \<open>describe\<close> is the text of an error.\<close>

definition handleOutboxDeliveryJob ::
  "(string \<Rightarrow> string \<Rightarrow> string option \<Rightarrow> string \<Rightarrow> bool list option) \<Rightarrow> (outbox_error \<Rightarrow> string) \<Rightarrow> durable_job \<Rightarrow> int \<Rightarrow>
   outbox_event table \<Rightarrow> (outbox_error + unit) \<times> outbox_event table" where
  "handleOutboxDeliveryJob deliver describe job now t =
    (case outbox_job_event job t of
       Inl e \<Rightarrow> (Inl e, t)
     | Inr None \<Rightarrow> (Inr (), t)
     | Inr (Some event) \<Rightarrow>
         let t1 = ev_processing job (oe_id event) now t in
         (case dispatchOutboxEvent deliver event of
            Inr _ \<Rightarrow> (Inr (), ev_delivered job (oe_id event) now t1)
          | Inl e \<Rightarrow> (Inl e, ev_failed job (oe_id event) (describe e) now t1)))"


section \<open>Operators\<close>

record outbox_metrics =
  om_pending :: nat
  om_processing :: nat
  om_delivered :: nat
  om_deadLetter :: nat
  om_oldestPendingSeconds :: int

definition count_events :: "outbox_status \<Rightarrow> outbox_event table \<Rightarrow> nat" where
  "count_events s t = length (filter (\<lambda>e. oe_status e = s) t)"

text \<open>\<open>Math.round\<close> rounds halves up.\<close>

definition collectOutboxMetrics :: "int \<Rightarrow> outbox_event table \<Rightarrow> outbox_metrics" where
  "collectOutboxMetrics now t =
    \<lparr>om_pending = count_events Ev_pending t, om_processing = count_events Ev_processing t,
     om_delivered = count_events Ev_delivered t, om_deadLetter = count_events Ev_dead_letter t,
     om_oldestPendingSeconds = (case map oe_createdAt (filter (\<lambda>e. open_status (oe_status e)) t) of
        [] \<Rightarrow> 0
      | c # cs \<Rightarrow> max 0 ((now - fold min cs c + 500) div 1000))\<rparr>"

definition rearm_job :: "int \<Rightarrow> durable_job \<Rightarrow> durable_job" where
  "rearm_job now j = (unlock j)
    \<lparr>j_status := Job_queued, j_attempts := 0, j_runAfter := now, j_lastError := None, j_updatedAt := now\<rparr>"

definition retryDeadLetterOutboxEvent :: "string \<Rightarrow> int \<Rightarrow> outbox_db \<Rightarrow> bool \<times> outbox_db" where
  "retryDeadLetterOutboxEvent eventId now d =
    (case db_find (\<lambda>e. oe_id e = eventId) (ox_events d) of
       None \<Rightarrow> (False, d)
     | Some event \<Rightarrow>
       if oe_status event \<noteq> Ev_dead_letter then (False, d)
       else case db_find (delivery_job eventId) (ox_jobs d) of
         None \<Rightarrow> (False, d)
       | Some job \<Rightarrow>
         (True, d\<lparr>ox_events := db_update (\<lambda>e. oe_id e = eventId)
              (\<lambda>e. e\<lparr>oe_status := Ev_pending, oe_attempts := 0, oe_lastError := None, oe_deliveredAt := None,
                     oe_updatedAt := now\<rparr>) (ox_events d),
            ox_jobs := db_update (\<lambda>j. j_id j = j_id job \<and> (j_status j = Job_failed \<or> j_status j = Job_canceled))
              (rearm_job now) (ox_jobs d)\<rparr>))"

text \<open>The repair gives each open event, oldest first, its job; \<open>newId\<close> draws the ids.\<close>

definition repairOutboxJobs :: "nat \<Rightarrow> (nat \<Rightarrow> string) \<Rightarrow> int \<Rightarrow> outbox_db \<Rightarrow> nat \<times> outbox_db" where
  "repairOutboxJobs limit newId now d =
    (let events = take limit (js_sort (\<lambda>x y. oe_createdAt x - oe_createdAt y)
           (filter (\<lambda>e. open_status (oe_status e)) (ox_events d))) in
     (length events, foldl (\<lambda>d (n, e). ensureDeliveryJob (newId n) e now d) d (enumerate 0 events)))"

end
