(* ===== verification/RunActions.thy ===== *)
theory RunActions imports RunStatus ExecutionLease Outbox begin

text \<open>
  Who writes the status of a run: the worker's \<open>updateRunStatus\<close> and its queue (\<open>worker.ts\<close>), and the
  operator actions of \<open>routes/runs.ts\<close>. Every write is one conditional \<open>UPDATE\<close>; what the code read before
  it is an argument, so that a stale read is a case of the model. What a handler does besides its
  write is the list of its effects, in order. The lookup of the run with the caller's permission, the
  policy gate, the apply gate and the agent pool are arguments of the handlers that consult them.
\<close>

section \<open>The worker's status write\<close>

record run_sys =
  rs_runs :: "run_row table"
  rs_outbox :: outbox_db

definition statusKey :: "status \<Rightarrow> string" where
  "statusKey status = map (\<lambda>c. if c = CHR ''_'' then CHR ''-'' else c) status @ ''-at''"

definition status_trigger :: "status \<Rightarrow> string option" where
  "status_trigger status =
    (if status = ''planning'' then Some ''run:planning''
     else if status = ''applying'' then Some ''run:applying''
     else if status = ''applied'' \<or> status = ''planned_and_finished'' then Some ''run:completed''
     else if status = ''errored'' then Some ''run:errored''
     else if status = ''policy_soft_failed'' \<or> status = ''planned_and_saved'' then Some ''run:needs_attention''
     else None)"

datatype status_error =
  Illegal_transition string status status
| Lost_race string status
| Lease_error lease_error
| Notification_error outbox_error

definition set_status :: "status \<Rightarrow> run_row \<Rightarrow> run_row" where
  "set_status status r = r\<lparr>r_status := status\<rparr>"

definition set_status_at :: "status \<Rightarrow> (string, string) js_map \<Rightarrow> run_row \<Rightarrow> run_row" where
  "set_status_at status timestamps r = r\<lparr>r_status := status, r_statusTimestamps := timestamps\<rparr>"

text \<open>
  \<open>existing\<close> is the row as the transaction read it, \<open>current\<close> the lease of the execution context
  (or the error of asking for it), \<open>stamp\<close> the time as text. The resource counts that some writes add are
  columns nothing here depends on.
\<close>

definition updateRunStatus ::
  "bool \<Rightarrow> int \<Rightarrow> lease_error + execution_lease option \<Rightarrow> string \<Rightarrow> string \<Rightarrow> run_row option \<Rightarrow> string \<Rightarrow> status \<Rightarrow>
   run_sys \<Rightarrow> (status_error + bool) \<times> run_sys" where
  "updateRunStatus ha now current jobId stamp existing runId status s =
    (case existing of
       None \<Rightarrow> (Inr False, s)
     | Some e \<Rightarrow>
       if r_status e \<noteq> status \<and> \<not> canTransitionRunStatus (r_status e) status
       then (Inl (Illegal_transition runId (r_status e) status), s)
       else case (if ha then current else Inr None) of
         Inl err \<Rightarrow> (Inl (Lease_error err), s)
       | Inr lease \<Rightarrow>
         let p = runExecutionFenceCondition ha now lease (\<lambda>r. r_id r = runId \<and> r_status r = r_status e);
             f = set_status_at status (js_set (statusKey status) stamp (r_statusTimestamps e));
             s' = s\<lparr>rs_runs := db_update p f (rs_runs s)\<rparr> in
         if db_returning p f (rs_runs s) = [] then (Inl (Lost_race runId status), s)
         else case status_trigger status of
           None \<Rightarrow> (Inr True, s')
         | Some trigger \<Rightarrow>
             (case enqueueRunNotificationOutboxTx jobId runId trigger status now (rs_outbox s') of
                (Inl err, _) \<Rightarrow> (Inl (Notification_error err), s)
              | (Inr _, outbox) \<Rightarrow> (Inr True, s'\<lparr>rs_outbox := outbox\<rparr>)))"


section \<open>Claiming queued runs\<close>

text \<open>\<open>buildRunClaimWhere\<close>: the run is pending and no other run holds its workspace.\<close>

definition blocking_run :: "run_row \<Rightarrow> bool" where
  "blocking_run r \<longleftrightarrow> r_status r \<in> set WORKSPACE_BLOCKING_RUN_STATUSES \<and> \<not> r_planOnly r \<and> \<not> r_savePlan r"

definition buildRunClaimWhere :: "run_row \<Rightarrow> run_row table \<Rightarrow> run_row \<Rightarrow> bool" where
  "buildRunClaimWhere run t r \<longleftrightarrow> r_id r = r_id run \<and> r_status r = ''pending'' \<and>
     (r_planOnly run \<or> r_savePlan run \<or>
      \<not> list_ex (\<lambda>b. r_workspaceId b = r_workspaceId run \<and> blocking_run b \<and> r_workspaceId b = r_workspaceId r) t)"

definition run_update :: "(run_row \<Rightarrow> bool) \<Rightarrow> (run_row \<Rightarrow> run_row) \<Rightarrow> run_row table \<Rightarrow> bool \<times> run_row table" where
  "run_update p f t = (db_returning p f t \<noteq> [], db_update p f t)"

definition claimLocalRun :: "run_row \<Rightarrow> run_row table \<Rightarrow> bool \<times> run_row table" where
  "claimLocalRun run t = run_update (buildRunClaimWhere run t) (set_status ''fetching'') t"

definition undoLocalClaim :: "run_row \<Rightarrow> run_row table \<Rightarrow> run_row table" where
  "undoLocalClaim run t = snd (run_update (\<lambda>r. r_id r = r_id run \<and> r_status r = ''fetching'') (set_status ''pending'') t)"

definition claimUnreachableRun :: "string \<Rightarrow> run_row \<Rightarrow> run_row table \<Rightarrow> bool \<times> run_row table" where
  "claimUnreachableRun stamp run t = run_update (buildRunClaimWhere run t)
     (set_status_at ''unreachable'' (js_set ''unreachable-at'' stamp (r_statusTimestamps run))) t"

text \<open>\<open>state\<close> is the id and the serial (as text) of the workspace's current state version.\<close>

definition claimAgentPoolRun :: "string \<Rightarrow> (string \<times> string) option \<Rightarrow> run_row \<Rightarrow> run_row table \<Rightarrow> bool \<times> run_row table" where
  "claimAgentPoolRun stamp state run t =
    (let timestamps = js_set ''plan-queued-at'' stamp (r_statusTimestamps run) in
     run_update (buildRunClaimWhere run t)
       (set_status_at ''plan_queued'' (case state of
          None \<Rightarrow> timestamps
        | Some (i, serial) \<Rightarrow> js_set ''input-state-serial'' serial (js_set ''input-state-version-id'' i timestamps))) t)"

definition rejectQueuedRun :: "string \<Rightarrow> run_row \<Rightarrow> run_row table \<Rightarrow> bool \<times> run_row table" where
  "rejectQueuedRun stamp run t =
    run_update (\<lambda>r. buildRunClaimWhere run t r \<and> r_status r = ''pending'')
      (set_status_at ''errored'' (js_set ''errored-at'' stamp (r_statusTimestamps run))) t"

text \<open>Confirmed runs whose time has come.\<close>

definition fetchDueScheduledRuns :: "int \<Rightarrow> run_row table \<Rightarrow> run_row list" where
  "fetchDueScheduledRuns now t =
    take 50 (filter (\<lambda>r. r_status r = ''confirmed'' \<and> sql_lte (r_scheduledAt r) now \<and> \<not> r_planOnly r) t)"

definition dispatchLocalScheduledRun :: "string \<Rightarrow> run_row \<Rightarrow> run_row table \<Rightarrow> bool \<times> run_row table" where
  "dispatchLocalScheduledRun stamp run t = run_update (\<lambda>r. r_id r = r_id run \<and> r_status r = ''confirmed'')
     (set_status_at ''apply_queued'' (js_set ''apply-queued-at'' stamp (r_statusTimestamps run))) t"

definition restoreFailedScheduledRun :: "string \<Rightarrow> run_row table \<Rightarrow> run_row table" where
  "restoreFailedScheduledRun runId t =
    snd (run_update (\<lambda>r. r_id r = runId \<and> r_status r = ''apply_queued'') (set_status ''confirmed'') t)"

definition errorLocalModeScheduledRun :: "string \<Rightarrow> run_row \<Rightarrow> run_row table \<Rightarrow> bool \<times> run_row table" where
  "errorLocalModeScheduledRun stamp run t = run_update (\<lambda>r. r_id r = r_id run \<and> r_status r = ''confirmed'')
     (set_status_at ''errored'' (js_set ''errored-at'' stamp (r_statusTimestamps run))) t"


section \<open>Operator actions\<close>

datatype effect =
  Revoke_tokens string
| Cancel_execution string bool
| Cleanup_saved_plan string
| Cleanup_work_dir string
| Schedule_work_dir_cleanup string
| Cancel_agent_jobs string
| Execute_apply string
| Insert_agent_apply_job string string
| Comment string string
| Override_policy_checks string
| Audit string string status status
| Notify string string status
| Publish_status string status

datatype reply = Accepted | Run_document run_row | Scheduled_document string int | Refused nat string

type_synonym handled = "reply \<times> effect list \<times> run_row table"

definition refuse :: "nat \<Rightarrow> string \<Rightarrow> run_row table \<Rightarrow> handled" where
  "refuse status detail t = (Refused status detail, [], t)"

record action_workspace =
  aw_locked :: bool
  aw_lockedReason :: "string option"
  aw_executionMode :: string
  aw_orgId :: string

definition json_fields :: "json option \<Rightarrow> (string, json) js_map" where
  "json_fields v = (case v of Some (JObj m) \<Rightarrow> m | _ \<Rightarrow> [])"

definition actionComment :: "json option \<Rightarrow> string" where
  "actionComment body =
    (let payload = json_fields body;
         attributes = json_fields (js_get (json_fields (js_get payload ''data'')) ''attributes'') in
     case json_string (json_or (js_get payload ''comment'') (js_get attributes ''comment'')) of
       None \<Rightarrow> []
     | Some v \<Rightarrow> js_trim v)"

definition comment_effect :: "string \<Rightarrow> json option \<Rightarrow> effect list" where
  "comment_effect runId body = (if actionComment body \<noteq> [] then [Comment runId (actionComment body)] else [])"

text \<open>\<open>found\<close> is the run and its workspace when the caller may read them.\<close>

definition authorizeRunAction :: "'a option \<Rightarrow> bool \<Rightarrow> bool \<Rightarrow> (nat \<times> string) + 'a" where
  "authorizeRunAction found orgToken permitted = (case found of
     None \<Rightarrow> Inl (404, ''Not Found'')
   | Some a \<Rightarrow> if orgToken then Inl (403, ''Forbidden'') else if \<not> permitted then Inl (403, ''Forbidden'') else Inr a)"

definition authorizeAdminAction :: "'a option \<Rightarrow> bool \<Rightarrow> (nat \<times> string) + 'a" where
  "authorizeAdminAction found permitted = (case found of
     None \<Rightarrow> Inl (404, ''Not Found'')
   | Some a \<Rightarrow> if \<not> permitted then Inl (403, ''Forbidden'') else Inr a)"

definition discardRun :: "(nat \<times> string) + run_row \<Rightarrow> json option \<Rightarrow> run_row table \<Rightarrow> handled" where
  "discardRun access body t = (case access of
     Inl (status, title) \<Rightarrow> refuse status title t
   | Inr run \<Rightarrow>
     let i = r_id run;
         (found, t') = run_update (\<lambda>r. r_id r = i \<and> r_status r = r_status run \<and>
           r_status r \<in> set DISCARDABLE_RUN_STATUSES) (set_status ''discarded'') t in
     if \<not> found then refuse 409 ''Run is not discardable'' t
     else (Accepted, [Revoke_tokens i, Cleanup_saved_plan i, Cleanup_work_dir i] @ comment_effect i body @
       [Audit ''discard'' i (r_status run) ''discarded'', Notify i ''run:errored'' ''discarded''], t'))"

definition CANCELABLE_RUN_STATUSES :: "status list" where
  "CANCELABLE_RUN_STATUSES =
    [''pending'', ''fetching'', ''fetching_completed'', ''pre_plan_running'', ''pre_plan_completed'', ''queuing'',
     ''plan_queued'', ''planning'', ''cost_estimating'', ''cost_estimated'', ''policy_checking'', ''policy_override'',
     ''policy_checked'', ''post_plan_running'', ''post_plan_completed'', ''confirmed'', ''apply_queued'', ''applying'']"

definition FORCE_CANCELABLE_RUN_STATUSES :: "status list" where
  "FORCE_CANCELABLE_RUN_STATUSES =
    [''pending'', ''fetching'', ''fetching_completed'', ''pre_plan_running'', ''pre_plan_completed'', ''queuing'',
     ''plan_queued'', ''planning'', ''cost_estimating'', ''cost_estimated'', ''policy_checking'', ''policy_override'',
     ''policy_checked'', ''post_plan_running'', ''post_plan_completed'', ''confirmed'', ''apply_queued'', ''applying'',
     ''canceled'']"

definition cancelRun :: "(nat \<times> string) + run_row \<Rightarrow> string \<Rightarrow> run_row table \<Rightarrow> handled" where
  "cancelRun access canceledAt t = (case access of
     Inl (status, title) \<Rightarrow> refuse status title t
   | Inr run \<Rightarrow>
     let i = r_id run;
         (found, t') = run_update (\<lambda>r. r_id r = i \<and> r_status r = r_status run \<and> r_status r \<in> set CANCELABLE_RUN_STATUSES)
           (set_status_at ''canceled'' (js_set ''canceled-at'' canceledAt
             (js_set ''cancel-requested-at'' canceledAt (r_statusTimestamps run)))) t in
     if \<not> found then refuse 409 ''Run is not cancelable'' t
     else (Accepted, [Revoke_tokens i, Cancel_execution i False, Schedule_work_dir_cleanup i, Cleanup_saved_plan i,
       Cancel_agent_jobs i, Audit ''cancel'' i (r_status run) ''canceled'', Notify i ''run:errored'' ''canceled''], t'))"

definition requiresCancelBeforeForceCancel :: "(string, string) js_map \<Rightarrow> status \<Rightarrow> bool" where
  "requiresCancelBeforeForceCancel statusTimestamps status \<longleftrightarrow>
     js_get statusTimestamps ''cancel-requested-at'' = None \<or> status \<notin> set FORCE_CANCELABLE_RUN_STATUSES"

definition forceCancelActiveRun :: "run_row \<Rightarrow> run_row table \<Rightarrow> handled" where
  "forceCancelActiveRun run t =
    (let i = r_id run;
         (found, t') = run_update (\<lambda>r. r_id r = i \<and> r_status r = r_status run \<and>
           r_status r \<in> set FORCE_CANCELABLE_RUN_STATUSES) (set_status ''force_canceled'') t in
     if \<not> found then refuse 409 ''Run is not force-cancelable'' t
     else (Accepted, [Revoke_tokens i, Cancel_execution i True, Schedule_work_dir_cleanup i, Cleanup_saved_plan i,
       Cancel_agent_jobs i, Audit ''force-cancel'' i (r_status run) ''force_canceled'',
       Notify i ''run:errored'' ''force_canceled''], t'))"

definition forceCancelRun :: "(nat \<times> string) + run_row \<Rightarrow> run_row table \<Rightarrow> handled" where
  "forceCancelRun access t = (case access of
     Inl (status, title) \<Rightarrow> refuse status title t
   | Inr run \<Rightarrow>
     if requiresCancelBeforeForceCancel (r_statusTimestamps run) (r_status run)
     then refuse 409 ''Cancel the run before force-canceling it'' t
     else forceCancelActiveRun run t)"

text \<open>
  The override of a soft policy failure. \<open>checks\<close> are the overridable checks as the transaction reads
  them (\<open>overridableWorkspacePolicyChecks\<close>).
\<close>

definition authorizePolicyOverride :: "(nat \<times> string) + run_row \<Rightarrow> json option \<Rightarrow> (nat \<times> string) + run_row \<times> string" where
  "authorizePolicyOverride access body = (case access of
     Inl failure \<Rightarrow> Inl failure
   | Inr run \<Rightarrow>
     if r_status run \<noteq> ''policy_soft_failed'' then Inl (409, ''Run must be policy_soft_failed to override'')
     else if actionComment body = [] then Inl (422, ''Overriding a policy check requires a justification comment'')
     else Inr (run, actionComment body))"

definition commitPolicyOverride :: "string \<Rightarrow> string \<Rightarrow> string list \<Rightarrow> run_row table \<Rightarrow> run_row list \<times> effect list \<times> run_row table" where
  "commitPolicyOverride i justification checks t =
    (let p = (\<lambda>r. r_id r = i \<and> r_status r = ''policy_soft_failed'') in
     if \<not> fst (run_update p (set_status ''policy_soft_failed'') t) then ([], [], t)
     else if checks = [] then ([], [], t)
     else case db_returning p (set_status ''planned'') t of
       [] \<Rightarrow> ([], [], t)
     | rows \<Rightarrow> (rows, [Comment i justification] @ map Override_policy_checks checks @
         [Audit ''override-policy'' i ''policy_soft_failed'' ''planned''], db_update p (set_status ''planned'') t))"

definition overridePolicy :: "(nat \<times> string) + run_row \<Rightarrow> json option \<Rightarrow> string list \<Rightarrow> run_row table \<Rightarrow> handled" where
  "overridePolicy access body checks t = (case authorizePolicyOverride access body of
     Inl (status, title) \<Rightarrow> refuse status title t
   | Inr (run, justification) \<Rightarrow>
     (case commitPolicyOverride (r_id run) justification checks t of
        ([], _, _) \<Rightarrow> refuse 409 ''Run is no longer awaiting policy override'' t
      | (updated # _, effects, t') \<Rightarrow>
          (Run_document updated, effects @ [Notify (r_id run) ''run:needs_attention'' ''planned''], t')))"


section \<open>Applying\<close>

definition lockedWorkspaceDetail :: "string option \<Rightarrow> string" where
  "lockedWorkspaceDetail reason = (case reason of
     None \<Rightarrow> ''Workspace is locked''
   | Some r \<Rightarrow> if r \<noteq> [] then ''Workspace is locked: '' @ r else ''Workspace is locked'')"

record agent_pool =
  ap_id :: string
  ap_orgId :: string
  ap_organizationScoped :: "bool option"

text \<open>The grants are whether the pool's allow-lists hold the workspace or its project.\<close>

definition agentPoolAllowsWorkspace :: "agent_pool \<Rightarrow> bool \<Rightarrow> bool \<Rightarrow> bool" where
  "agentPoolAllowsWorkspace pool workspaceGrant projectGrant \<longleftrightarrow>
     ap_organizationScoped pool \<noteq> Some False \<or> workspaceGrant \<or> projectGrant"

definition resolveApplyAgentPool ::
  "action_workspace \<Rightarrow> agent_pool option \<Rightarrow> bool \<Rightarrow> bool \<Rightarrow> (nat \<times> string) + string option" where
  "resolveApplyAgentPool workspace pool workspaceGrant projectGrant =
    (if aw_executionMode workspace \<noteq> ''agent'' then Inr None
     else case pool of
       None \<Rightarrow> Inl (409, ''The workspace does not have an allowed agent pool'')
     | Some p \<Rightarrow>
       if ap_orgId p \<noteq> aw_orgId workspace \<or> \<not> agentPoolAllowsWorkspace p workspaceGrant projectGrant
       then Inl (409, ''The workspace does not have an allowed agent pool'')
       else Inr (Some (ap_id p)))"

definition set_confirmed :: "int option \<Rightarrow> (string, string) js_map \<Rightarrow> run_row \<Rightarrow> run_row" where
  "set_confirmed scheduledAt timestamps r =
     r\<lparr>r_status := ''confirmed'', r_scheduledAt := scheduledAt, r_statusTimestamps := timestamps\<rparr>"

text \<open>\<open>insertAgentApplyJobTx\<close>: \<open>None\<close> when it throws and its transaction is rolled back.\<close>

definition insertAgentApplyJobTx :: "string \<Rightarrow> string \<Rightarrow> (string, string) js_map \<Rightarrow> run_row table \<Rightarrow> run_row table option" where
  "insertAgentApplyJobTx stamp runId timestamps t =
    (if db_find (\<lambda>r. r_id r = runId) t = None then None
     else case run_update (\<lambda>r. r_id r = runId \<and> r_status r = ''confirmed'')
         (set_status_at ''apply_queued'' (js_set (statusKey ''apply_queued'') stamp timestamps)) t of
       (found, t') \<Rightarrow> if found then Some t' else None)"

definition confirmDirectApply :: "string \<Rightarrow> run_row \<Rightarrow> json option \<Rightarrow> run_row table \<Rightarrow> handled" where
  "confirmDirectApply stamp before body t =
    (let i = r_id before;
         (found, t') = run_update (\<lambda>r. r_id r = i \<and> r_status r = r_status before)
           (set_confirmed None (js_set ''confirmed-at'' stamp (r_statusTimestamps before))) t in
     if \<not> found then refuse 409 ''Run apply is already queued'' t
     else (Accepted, [Audit ''apply'' i (r_status before) ''confirmed''] @ comment_effect i body @ [Execute_apply i], t'))"

definition confirmAgentApply :: "string \<Rightarrow> string \<Rightarrow> run_row \<Rightarrow> json option \<Rightarrow> run_row table \<Rightarrow> handled" where
  "confirmAgentApply stamp poolId before body t =
    (let i = r_id before;
         timestamps = js_set ''confirmed-at'' stamp (r_statusTimestamps before);
         (found, t1) = run_update (\<lambda>r. r_id r = i \<and> r_status r = r_status before) (set_confirmed None timestamps) t in
     if \<not> found then refuse 409 ''Run apply is already queued'' t
     else case insertAgentApplyJobTx stamp i timestamps t1 of
       None \<Rightarrow> refuse 500 ''Internal Server Error'' t
     | Some t2 \<Rightarrow> (Accepted, [Insert_agent_apply_job i poolId, Audit ''apply'' i (r_status before) ''apply_queued''] @
         comment_effect i body, t2))"

text \<open>
  \<open>read\<close> is the table when the handler reads the run, \<open>t\<close> when it writes; \<open>policyError\<close>,
  \<open>gateBlockReason\<close> and \<open>pool\<close> what its checks in between answered.
\<close>

definition applyRun ::
  "(nat \<times> string) + run_row \<times> action_workspace \<Rightarrow> string option \<Rightarrow> string option \<Rightarrow> (nat \<times> string) + string option \<Rightarrow>
   string \<Rightarrow> json option \<Rightarrow> run_row table \<Rightarrow> run_row table \<Rightarrow> handled" where
  "applyRun access policyError gateBlockReason pool stamp body read t = (case access of
     Inl (status, title) \<Rightarrow> refuse status title t
   | Inr (run, workspace) \<Rightarrow>
     if aw_locked workspace then refuse 422 (lockedWorkspaceDetail (aw_lockedReason workspace)) t
     else case db_find (\<lambda>r. r_id r = r_id run \<and> r_status r \<in> {''planned'', ''planned_and_saved''}) read of
       None \<Rightarrow> refuse 409 ''Run must have a completed saved plan before apply'' t
     | Some before \<Rightarrow>
       (case policyError of
          Some detail \<Rightarrow> refuse 409 detail t
        | None \<Rightarrow>
       (case gateBlockReason of
          Some detail \<Rightarrow> refuse 409 detail t
        | None \<Rightarrow>
       (case pool of
          Inl (status, detail) \<Rightarrow> refuse status detail t
        | Inr (Some poolId) \<Rightarrow> confirmAgentApply stamp poolId before body t
        | Inr None \<Rightarrow> confirmDirectApply stamp before body t))))"

text \<open>\<open>parse\<close> is \<open>Date.parse\<close> (\<open>None\<close> for \<open>NaN\<close>), \<open>show_time\<close> \<open>toISOString\<close>.\<close>

definition parseScheduleApplyAt :: "(string \<Rightarrow> int option) \<Rightarrow> int \<Rightarrow> json option \<Rightarrow> (nat \<times> string) + int" where
  "parseScheduleApplyAt parse now body =
    (case json_string (js_get (json_fields (js_get (json_fields (js_get (json_fields body) ''data'')) ''attributes'')) ''apply-at'') of
       None \<Rightarrow> Inl (422, ''apply-at is required'')
     | Some raw \<Rightarrow>
       if raw = [] then Inl (422, ''apply-at is required'')
       else case parse raw of
         None \<Rightarrow> Inl (422, ''apply-at must be a valid date'')
       | Some applyAtMs \<Rightarrow> if applyAtMs \<le> now then Inl (422, ''apply-at must be in the future'') else Inr applyAtMs)"

definition scheduleApplyRun ::
  "(nat \<times> string) + run_row \<times> action_workspace \<Rightarrow> (string \<Rightarrow> int option) \<Rightarrow> (int \<Rightarrow> string) \<Rightarrow> int \<Rightarrow> json option \<Rightarrow>
   run_row table \<Rightarrow> run_row table \<Rightarrow> handled" where
  "scheduleApplyRun access parse show_time now body read t = (case access of
     Inl (status, title) \<Rightarrow> refuse status title t
   | Inr (run, workspace) \<Rightarrow>
     if aw_locked workspace then refuse 422 (lockedWorkspaceDetail (aw_lockedReason workspace)) t
     else case db_find (\<lambda>r. r_id r = r_id run \<and> r_status r \<in> {''planned'', ''planned_and_saved''} \<and> \<not> r_planOnly r) read of
       None \<Rightarrow> refuse 409 ''Run must have a completed saved plan before apply'' t
     | Some before \<Rightarrow>
       (case parseScheduleApplyAt parse now body of
          Inl (status, detail) \<Rightarrow> refuse status detail t
        | Inr applyAtMs \<Rightarrow>
          let i = r_id before;
              (found, t') = run_update (\<lambda>r. r_id r = i \<and> r_status r = r_status before)
                (set_confirmed (Some applyAtMs) (js_set ''scheduled-at'' (show_time applyAtMs)
                  (js_set ''confirmed-at'' (show_time now) (r_statusTimestamps before)))) t in
          if \<not> found then refuse 409 ''Run apply is already queued'' t
          else (Scheduled_document i applyAtMs, [Audit ''schedule-apply'' i (r_status before) ''confirmed''] @
            comment_effect i body @ [Publish_status i ''confirmed''], t')))"


section \<open>Queue actions\<close>

definition forceExecuteStatusLists :: "status list \<times> status list" where
  "forceExecuteStatusLists =
    (filter (\<lambda>s. s \<notin> set DISCARDABLE_RUN_STATUSES) WORKSPACE_BLOCKING_RUN_STATUSES,
     filter (\<lambda>s. s \<in> set DISCARDABLE_RUN_STATUSES) WORKSPACE_BLOCKING_RUN_STATUSES)"

definition run_age_cmp :: "run_row \<Rightarrow> run_row \<Rightarrow> int" where
  "run_age_cmp x y = js_or (r_createdAt x - r_createdAt y) (lex_cmp (r_id x) (r_id y))"

definition other_runs :: "string \<Rightarrow> string \<Rightarrow> status list \<Rightarrow> run_row table \<Rightarrow> run_row list" where
  "other_runs workspaceId runId statuses t =
    filter (\<lambda>r. \<not> r_planOnly r \<and> \<not> r_savePlan r)
      (js_sort run_age_cmp (filter (\<lambda>r. r_workspaceId r = workspaceId \<and> r_status r \<in> set statuses \<and> r_id r \<noteq> runId) t))"

text \<open>\<open>read1\<close> and \<open>read2\<close> are the table at the two reads. \<open>Inl\<close> is the refusal.\<close>

definition stopForceExecuteBlockers ::
  "string \<Rightarrow> string \<Rightarrow> run_row table \<Rightarrow> run_row table \<Rightarrow> run_row table \<Rightarrow> ((nat \<times> string) + effect list) \<times> run_row table" where
  "stopForceExecuteBlockers workspaceId runId read1 read2 t =
    (let (blocking, resting) = forceExecuteStatusLists in
     case other_runs workspaceId runId resting read1 of
       r # _ \<Rightarrow> (Inl (409, ''Run '' @ r_id r @ '' is '' @ r_status r @ ''; discard it before force-executing this run''), t)
     | [] \<Rightarrow>
       let ids = map r_id (other_runs workspaceId runId blocking read2);
           p = (\<lambda>r. r_id r \<in> set ids \<and> r_status r \<in> set blocking) in
       if ids = [] then (Inl (409, ''No blocking run is available to force-execute''), t)
       else case db_returning p (set_status ''force_canceled'') t of
         [] \<Rightarrow> (Inl (409, ''The blocking run changed before it could be stopped''), t)
       | stopped \<Rightarrow> (Inr (concat (map (\<lambda>r. [Revoke_tokens (r_id r), Cancel_execution (r_id r) True,
             Cleanup_saved_plan (r_id r), Cancel_agent_jobs (r_id r)]) stopped)),
           db_update p (set_status ''force_canceled'') t))"

definition transitionForceExecutedRun :: "run_row \<Rightarrow> run_row table \<Rightarrow> handled" where
  "transitionForceExecutedRun run t =
    (let i = r_id run;
         (found, t') = run_update (\<lambda>r. r_id r = i \<and> r_status r = r_status run) (set_status ''pending'') t in
     if \<not> found then refuse 409 ''Run is not force-executable'' t
     else (Accepted, [Audit ''force-execute'' i (r_status run) ''pending'', Notify i ''run:needs_attention'' ''pending''], t'))"

text \<open>\<open>between\<close> is what other requests do to the table between the two writes.\<close>

definition forceExecuteRun ::
  "(nat \<times> string) + run_row \<Rightarrow> run_row table \<Rightarrow> run_row table \<Rightarrow> (run_row table \<Rightarrow> run_row table) \<Rightarrow> run_row table \<Rightarrow> handled" where
  "forceExecuteRun access read1 read2 between t = (case access of
     Inl (status, title) \<Rightarrow> refuse status title t
   | Inr run \<Rightarrow>
     if r_status run \<noteq> ''pending'' then refuse 409 ''Run must be pending to force-execute'' t
     else case stopForceExecuteBlockers (r_workspaceId run) (r_id run) read1 read2 t of
       (Inl (status, detail), t1) \<Rightarrow> refuse status detail t1
     | (Inr stopped, t1) \<Rightarrow>
         (case transitionForceExecutedRun run (between t1) of (reply, effects, t2) \<Rightarrow> (reply, stopped @ effects, t2)))"

definition cancelQueuedRunExecution :: "string \<Rightarrow> status \<Rightarrow> effect list" where
  "cancelQueuedRunExecution runId status =
    (if status = ''plan_queued'' \<or> status = ''apply_queued''
     then [Cancel_execution runId True, Cleanup_saved_plan runId, Cancel_agent_jobs runId] else [])"

definition queuePendingRun :: "run_row \<Rightarrow> run_row table \<Rightarrow> handled" where
  "queuePendingRun run t =
    (let i = r_id run;
         p = (\<lambda>r. r_id r = i \<and> r_status r = r_status run \<and> r_status r \<in> {''pending'', ''plan_queued'', ''apply_queued''}) in
     case db_returning p (set_status ''pending'') t of
       [] \<Rightarrow> refuse 409 ''Run is not queued'' t
     | updated # _ \<Rightarrow> (Run_document updated, [Audit ''queue'' i (r_status run) ''pending''],
         db_update p (set_status ''pending'') t))"

definition queueRun :: "(nat \<times> string) + run_row \<Rightarrow> run_row table \<Rightarrow> handled" where
  "queueRun access t = (case access of
     Inl (status, title) \<Rightarrow> refuse status title t
   | Inr run \<Rightarrow>
       (case queuePendingRun run t of (reply, effects, t') \<Rightarrow>
          (reply, cancelQueuedRunExecution (r_id run) (r_status run) @ effects, t')))"

end
