(* ===== verification/OutboxSafety.thy ===== *)
theory OutboxSafety imports Outbox begin

text \<open>
  What the outbox guarantees, and where it does not: event identities are injective, inserting an event
  again changes nothing, every event has exactly one delivery job under any interleaving, and the two
  histories that leave an open event whose job is over.
\<close>

section \<open>Identity\<close>

text \<open>The identity of a run notification determines the run, the trigger and the status: no two
  logical transitions share an event, whatever characters the parts contain.\<close>

theorem notification_id_injective:
  assumes "runNotificationEventId r t s = runNotificationEventId r' t' s'"
  shows "r = r' \<and> t = t' \<and> s = s'"
proof -
  have "map encodeURIComponent [''run'', r, t, s] = map encodeURIComponent [''run'', r', t', s']"
    using assms unfolding runNotificationEventId_def
    by (intro join_inj [of _ _ "CHR '':''"]) (auto simp: encode_colon_free)
  then show ?thesis by (auto dest: encode_inj)
qed

lemma notification_id_injective_witness:
  "runNotificationEventId ''a:b'' ''c'' ''d'' \<noteq> runNotificationEventId ''a'' ''b:c'' ''d''"
  using notification_id_injective [of "''a:b''" "''c''" "''d''" "''a''" "''b:c''" "''d''"] by auto

lemma enqueue_again:
  assumes "enqueueOutboxEventTx jobId i topic payload now d = (Inr event, d')"
  shows "db_find (\<lambda>e. oe_id e = i) (ox_events d') = Some event \<and> oe_topic event = topic \<and>
    samePayload (oe_payload event) payload \<and> js_trim i \<noteq> [] \<and> js_trim topic \<noteq> [] \<and>
    (\<exists>p. parsePersistedJobPayload OUTBOX_DELIVERY_KIND (Some (JObj (durablePayload i)))
         PERSISTED_JOB_PAYLOAD_SCHEMA_VERSION = Inr p)"
proof -
  have ev: "ox_events (ensureDeliveryJob j e n x) = ox_events x" for j e n x
    by (simp add: ensureDeliveryJob_def)
  have app: "db_find q xs = None \<Longrightarrow> db_find q (xs @ [x]) = (if q x then Some x else None)" for q :: "outbox_event \<Rightarrow> bool" and xs x
    by (induction xs) (auto split: if_splits)
  show ?thesis
    using assms
    by (auto simp: enqueueOutboxEventTx_def Let_def ev app new_event_def samePayload_def split: if_splits sum.splits option.splits
        dest: db_find_SomeD)
qed

lemma ensure_existing:
  "db_find (delivery_job (oe_id event)) (ox_jobs d) \<noteq> None \<Longrightarrow> ensureDeliveryJob jobId event now d = d"
  by (simp add: ensureDeliveryJob_def)

lemma insert_find:
  assumes "insert_job row t = Some t'" "delivery_job k row"
  shows "\<exists>j \<in> set t'. delivery_job k j"
  using assms by (auto simp: insert_job_def split: if_splits)

lemma insert_fresh:
  assumes "j_id row \<notin> j_id ` set t" "j_kind row = OUTBOX_DELIVERY_KIND" "j_dedupeKey row = Some k"
    and "db_find (delivery_job k) t = None"
  shows "insert_job row t = Some (t @ [row])"
proof -
  have "\<not> list_ex (job_conflict row) t"
    using assms by (auto simp: list_ex_iff job_conflict_def db_find_None_iff delivery_job_def intro: rev_image_eqI)
  then show ?thesis by (simp add: insert_job_def)
qed

lemma ensure_has_job:
  assumes "jobId \<notin> j_id ` set (ox_jobs d)" "open_status (oe_status event)"
  shows "\<exists>j \<in> set (ox_jobs (ensureDeliveryJob jobId event now d)). delivery_job (oe_id event) j"
proof (cases "db_find (delivery_job (oe_id event)) (ox_jobs d)")
  case None
  then have "insert_job (jobForEvent jobId event now) (ox_jobs d) = Some (ox_jobs d @ [jobForEvent jobId event now])"
    using assms(1) by (intro insert_fresh [where k = "oe_id event"]) (simp_all add: jobForEvent_def)
  with None assms(2) show ?thesis
    by (auto simp: ensureDeliveryJob_def open_status_def delivery_job_def jobForEvent_def)
next
  case (Some j)
  then have "j \<in> set (ox_jobs d)" "delivery_job (oe_id event) j" using db_find_SomeD by metis+
  with Some show ?thesis by (auto simp: ensureDeliveryJob_def)
qed

text \<open>Enqueueing is idempotent: an event enqueued a second time, with the same contents in any key
  order, returns the stored event and changes neither table; with other contents it is refused and
  changes nothing.\<close>

theorem enqueue_idempotent:
  assumes "enqueueOutboxEventTx jobId i topic payload now d = (Inr event, d')"
    and "db_find (delivery_job i) (ox_jobs d') \<noteq> None"
  shows "(samePayload payload payload2 \<longrightarrow>
      enqueueOutboxEventTx jobId2 i topic payload2 now2 d' = (Inr event, d')) \<and>
    (\<not> samePayload payload payload2 \<longrightarrow>
      enqueueOutboxEventTx jobId2 i topic payload2 now2 d' = (Inl (Bound_to_different_payload i), d'))"
proof -
  from enqueue_again [OF assms(1)] obtain p where e: "db_find (\<lambda>e. oe_id e = i) (ox_events d') = Some event"
      "oe_topic event = topic" "samePayload (oe_payload event) payload" "js_trim i \<noteq> []" "js_trim topic \<noteq> []"
      "parsePersistedJobPayload OUTBOX_DELIVERY_KIND (Some (JObj (durablePayload i))) PERSISTED_JOB_PAYLOAD_SCHEMA_VERSION = Inr p"
    by blast
  then have "oe_id event = i" using db_find_SomeD by fastforce
  then have "ensureDeliveryJob jobId2 event now2 d' = d'" using assms(2) by (intro ensure_existing) simp
  moreover have "samePayload (oe_payload event) payload2 = samePayload payload payload2"
    using e(3) by (simp add: samePayload_def)
  ultimately show ?thesis using e by (simp add: enqueueOutboxEventTx_def)
qed

definition empty_outbox :: outbox_db where "empty_outbox = \<lparr>ox_events = [], ox_jobs = []\<rparr>"

definition sample_notification :: "(outbox_error + outbox_event) \<times> outbox_db" where
  "sample_notification = enqueueOutboxEventTx ''job-1'' ''evt'' RUN_NOTIFICATION_OUTBOX_TOPIC
     [(''runId'', JStr ''r''), (''trigger'', JStr ''t'')] 0 empty_outbox"

lemma enqueue_idempotent_witness:
  "\<exists>event d'. sample_notification = (Inr event, d') \<and>
     enqueueOutboxEventTx ''job-2'' ''evt'' RUN_NOTIFICATION_OUTBOX_TOPIC
       [(''trigger'', JStr ''t''), (''runId'', JStr ''r'')] 9 d' = (Inr event, d')"
proof -
  have "case sample_notification of (Inr event, d') \<Rightarrow> db_find (delivery_job ''evt'') (ox_jobs d') \<noteq> None | _ \<Rightarrow> False"
    by code_simp
  then obtain event d' where s: "sample_notification = (Inr event, d')" "db_find (delivery_job ''evt'') (ox_jobs d') \<noteq> None"
    by (auto split: prod.splits sum.splits)
  have "samePayload [(''runId'', JStr ''r''), (''trigger'', JStr ''t'')] [(''trigger'', JStr ''t''), (''runId'', JStr ''r'')]"
    by code_simp
  with enqueue_idempotent [OF s(1) [unfolded sample_notification_def] s(2)] s(1) show ?thesis by blast
qed


section \<open>Interleavings\<close>

text \<open>
  The state: the lock tokens handed out, the delivery jobs as they were claimed, and the tables. The
  handler's statements are separate steps of a claimed job; a job id drawn for a new job is fresh.
\<close>

record outbox_sys =
  os_tokens :: "string set"
  os_claimed :: "durable_job set"
  os_db :: outbox_db

inductive outbox_step :: "outbox_sys \<Rightarrow> outbox_sys \<Rightarrow> bool" where
  ob_enqueue: "jobId \<notin> j_id ` set (ox_jobs (os_db s)) \<Longrightarrow>
    outbox_step s (s\<lparr>os_db := snd (enqueueOutboxEventTx jobId i topic payload now (os_db s))\<rparr>)"
| ob_repair: "jobId \<notin> j_id ` set (ox_jobs (os_db s)) \<Longrightarrow> e \<in> set (ox_events (os_db s)) \<Longrightarrow>
    outbox_step s (s\<lparr>os_db := ensureDeliveryJob jobId e now (os_db s)\<rparr>)"
| ob_claim: "tok \<notin> os_tokens s \<Longrightarrow> claim_job candidate worker tok now (ox_jobs (os_db s)) = (Some job, t') \<Longrightarrow>
    outbox_step s \<lparr>os_tokens = insert tok (os_tokens s), os_claimed = insert job (os_claimed s),
      os_db = (os_db s)\<lparr>ox_jobs := t'\<rparr>\<rparr>"
| ob_job: "job_step (os_tokens s, ox_jobs (os_db s)) (os_tokens s, t') \<Longrightarrow>
    outbox_step s (s\<lparr>os_db := (os_db s)\<lparr>ox_jobs := t'\<rparr>\<rparr>)"
| ob_processing: "job \<in> os_claimed s \<Longrightarrow> delivery_job i job \<Longrightarrow>
    outbox_step s (s\<lparr>os_db := (os_db s)\<lparr>ox_events := ev_processing job i now (ox_events (os_db s))\<rparr>\<rparr>)"
| ob_delivered: "job \<in> os_claimed s \<Longrightarrow> delivery_job i job \<Longrightarrow>
    outbox_step s (s\<lparr>os_db := (os_db s)\<lparr>ox_events := ev_delivered job i now (ox_events (os_db s))\<rparr>\<rparr>)"
| ob_failed: "job \<in> os_claimed s \<Longrightarrow> delivery_job i job \<Longrightarrow>
    outbox_step s (s\<lparr>os_db := (os_db s)\<lparr>ox_events := ev_failed job i msg now (ox_events (os_db s))\<rparr>\<rparr>)"
| ob_retry: "outbox_step s (s\<lparr>os_db := snd (retryDeadLetterOutboxEvent i now (os_db s))\<rparr>)"

definition outbox_init :: "outbox_sys \<Rightarrow> bool" where
  "outbox_init s \<longleftrightarrow> s = \<lparr>os_tokens = {}, os_claimed = {}, os_db = empty_outbox\<rparr>"

definition jobs_paired :: "outbox_db \<Rightarrow> bool" where
  "jobs_paired d \<longleftrightarrow> keys_unique (ox_jobs d) \<and> (\<forall>e \<in> set (ox_events d). \<exists>j \<in> set (ox_jobs d). delivery_job (oe_id e) j)"

lemma delivery_job_table_step:
  assumes "table_step U U' t t'" "\<exists>j \<in> set t. delivery_job k j"
  shows "\<exists>j \<in> set t'. delivery_job k j"
proof -
  obtain j where j: "j \<in> set t" "delivery_job k j" using assms(2) by blast
  from assms(1) consider p f where "t' = db_update p f t" "row_rewrite U U' p f" | row where "t' = t @ [row]"
    by (auto simp: table_step_def)
  then show ?thesis
  proof cases
    case 1
    have "(if p j then f j else j) \<in> set t'" using j(1) by (auto simp: 1(1) set_db_update)
    moreover have "delivery_job k (if p j then f j else j)" using j(2) 1(2) by (auto simp: delivery_job_def row_rewrite_def)
    ultimately show ?thesis by blast
  qed (use j in auto)
qed

lemma jobs_paired_step:
  assumes "jobs_paired d" "table_step U U' (ox_jobs d) t'" "oe_id ` set events \<subseteq> oe_id ` set (ox_events d)"
  shows "jobs_paired (d\<lparr>ox_events := events, ox_jobs := t'\<rparr>)"
proof -
  have "\<exists>j \<in> set t'. delivery_job (oe_id e) j" if "e \<in> set events" for e
  proof -
    have "oe_id e \<in> oe_id ` set (ox_events d)" using assms(3) that by blast
    then obtain e' where "e' \<in> set (ox_events d)" "oe_id e = oe_id e'" by blast
    with assms(1) have "\<exists>j \<in> set (ox_jobs d). delivery_job (oe_id e) j" by (simp add: jobs_paired_def)
    with assms(2) show ?thesis by (rule delivery_job_table_step)
  qed
  moreover have "keys_unique t'" using assms(1,2) keys_unique_table_step unfolding jobs_paired_def by blast
  ultimately show ?thesis by (simp add: jobs_paired_def)
qed

lemma ensure_table_step: "table_step U U (ox_jobs d) (ox_jobs (ensureDeliveryJob jobId e now d))"
proof -
  have "table_step U U (ox_jobs d) t'" if "insert_job (jobForEvent jobId e now) (ox_jobs d) = Some t'" for t'
    using that by (rule table_step_insert) (simp add: jobForEvent_def)
  then show ?thesis using table_step_refl by (simp add: ensureDeliveryJob_def split: option.split)
qed

lemma ensure_events: "ox_events (ensureDeliveryJob jobId e now d) = ox_events d"
  by (simp add: ensureDeliveryJob_def)

lemma jobs_paired_ensure:
  assumes "jobs_paired d"
  shows "jobs_paired (ensureDeliveryJob jobId e now d)"
  using jobs_paired_step [OF assms ensure_table_step [of "{}" d jobId e now], of "ox_events d"]
  by (simp add: jobs_paired_def ensure_events)

lemma jobs_paired_new:
  assumes "jobs_paired d" "jobId \<notin> j_id ` set (ox_jobs d)" "open_status (oe_status event)"
  shows "jobs_paired (ensureDeliveryJob jobId event now (d\<lparr>ox_events := ox_events d @ [event]\<rparr>))"
proof -
  let ?d = "d\<lparr>ox_events := ox_events d @ [event]\<rparr>"
  have "\<exists>j \<in> set (ox_jobs (ensureDeliveryJob jobId event now ?d)). delivery_job (oe_id event) j"
    using assms(2,3) by (intro ensure_has_job) simp_all
  moreover have ts: "table_step {} {} (ox_jobs d) (ox_jobs (ensureDeliveryJob jobId event now ?d))"
    using ensure_table_step [of "{}" ?d jobId event now] by simp
  then have "\<exists>j \<in> set (ox_jobs (ensureDeliveryJob jobId event now ?d)). delivery_job (oe_id e) j" if "e \<in> set (ox_events d)" for e
    using assms(1) that delivery_job_table_step unfolding jobs_paired_def by blast
  moreover have "keys_unique (ox_jobs (ensureDeliveryJob jobId event now ?d))"
    using assms(1) ts keys_unique_table_step unfolding jobs_paired_def by blast
  ultimately show ?thesis by (auto simp: jobs_paired_def ensure_events)
qed

lemma jobs_paired_enqueue:
  assumes "jobs_paired d" "jobId \<notin> j_id ` set (ox_jobs d)"
  shows "jobs_paired (snd (enqueueOutboxEventTx jobId i topic payload now d))"
  using assms jobs_paired_ensure [OF assms(1)] jobs_paired_new [OF assms, of "new_event i topic payload now"]
  by (auto simp: enqueueOutboxEventTx_def Let_def new_event_def open_status_def split: sum.split option.split)

lemma retry_paired:
  assumes "jobs_paired d"
  shows "jobs_paired (snd (retryDeadLetterOutboxEvent i now d))"
proof -
  let ?ev = "db_update (\<lambda>e. oe_id e = i) (\<lambda>e. e\<lparr>oe_status := Ev_pending, oe_attempts := 0, oe_lastError := None,
    oe_deliveredAt := None, oe_updatedAt := now\<rparr>) (ox_events d)"
  have "oe_id ` set ?ev \<subseteq> oe_id ` set (ox_events d)" by (auto simp: set_db_update)
  moreover have "table_step {} {} (ox_jobs d) (db_update (\<lambda>j. j_id j = k \<and> (j_status j = Job_failed \<or> j_status j = Job_canceled))
      (rearm_job now) (ox_jobs d))" for k
    by (intro table_step_update) (simp_all add: row_rewrite_def rearm_job_def row_simps)
  ultimately have "jobs_paired (d\<lparr>ox_events := ?ev, ox_jobs := db_update (\<lambda>j. j_id j = k \<and>
      (j_status j = Job_failed \<or> j_status j = Job_canceled)) (rearm_job now) (ox_jobs d)\<rparr>)" for k
    using jobs_paired_step [OF assms] by blast
  with assms show ?thesis by (simp add: retryDeadLetterOutboxEvent_def split: option.split)
qed

lemma jobs_paired_events:
  assumes "jobs_paired d" "map oe_id events = map oe_id (ox_events d)"
  shows "jobs_paired (d\<lparr>ox_events := events\<rparr>)"
proof -
  have "oe_id ` set events = oe_id ` set (ox_events d)" using assms(2) by (metis list.set_map)
  then show ?thesis
    using jobs_paired_step [OF assms(1) table_step_refl [of "{}" "ox_jobs d"], of events] by simp
qed

lemma outbox_inv_step: "jobs_paired (os_db s) \<Longrightarrow> outbox_step s s' \<Longrightarrow> jobs_paired (os_db s')"
proof (erule outbox_step.cases, goal_cases)
  case (3 tok s candidate worker now job t')
  have "job_step (os_tokens s, ox_jobs (os_db s)) (insert tok (os_tokens s), t')"
    using js_claim [OF 3(4), of "ox_jobs (os_db s)" candidate worker now] 3(5) by simp
  with 3 show ?case using jobs_paired_step [OF _ job_step_table, of "os_db s" _ _ _ "ox_events (os_db s)"] by simp
next
  case (4 s t')
  then show ?case using jobs_paired_step [OF _ job_step_table, of "os_db s" _ _ _ "ox_events (os_db s)"] by simp
qed (simp_all add: jobs_paired_enqueue jobs_paired_ensure retry_paired jobs_paired_events ev_processing_def
    ev_delivered_def ev_failed_def map_db_update_same)

interpretation outbox_system: invariant_system outbox_init outbox_step "\<lambda>s. jobs_paired (os_db s)"
proof
  show "outbox_init s \<Longrightarrow> jobs_paired (os_db s)" for s
    by (simp add: outbox_init_def empty_outbox_def jobs_paired_def keys_unique_def unique_by_def)
qed (rule outbox_inv_step)

text \<open>C29: no event is lost: in every reachable state of enqueues, claims, deliveries, failures, retries
  and repairs, each event has exactly one delivery job.\<close>

theorem event_has_one_job:
  assumes "reach outbox_init outbox_step s" "e \<in> set (ox_events (os_db s))"
  shows "\<exists>!j. j \<in> set (ox_jobs (os_db s)) \<and> delivery_job (oe_id e) j"
proof -
  have p: "jobs_paired (os_db s)" using assms(1) by (rule outbox_system.reach_inv)
  then obtain j where j: "j \<in> set (ox_jobs (os_db s))" "delivery_job (oe_id e) j"
    using assms(2) unfolding jobs_paired_def by blast
  have u: "unique_by j_id (ox_jobs (os_db s))"
    and k: "\<And>x y. x \<in> set (ox_jobs (os_db s)) \<Longrightarrow> y \<in> set (ox_jobs (os_db s)) \<Longrightarrow> j_dedupeKey x \<noteq> None \<Longrightarrow>
      j_kind x = j_kind y \<Longrightarrow> j_dedupeKey x = j_dedupeKey y \<Longrightarrow> j_id x = j_id y"
    using p unfolding jobs_paired_def keys_unique_def by blast+
  have "j' = j" if "j' \<in> set (ox_jobs (os_db s))" "delivery_job (oe_id e) j'" for j'
  proof -
    have "j_id j' = j_id j" using that j by (intro k) (auto simp: delivery_job_def)
    with u that j show ?thesis by (blast dest: unique_byD)
  qed
  with j show ?thesis by blast
qed

lemma reach_enqueued:
  "reach outbox_init outbox_step \<lparr>os_tokens = {}, os_claimed = {}, os_db = snd sample_notification\<rparr>"
proof -
  let ?s = "\<lparr>os_tokens = {}, os_claimed = {}, os_db = empty_outbox\<rparr>"
  have "reach outbox_init outbox_step ?s" by (rule reach_init) (simp add: outbox_init_def)
  then have "reach outbox_init outbox_step (?s\<lparr>os_db := snd (enqueueOutboxEventTx ''job-1'' ''evt''
      RUN_NOTIFICATION_OUTBOX_TOPIC [(''runId'', JStr ''r''), (''trigger'', JStr ''t'')] 0 (os_db ?s))\<rparr>)"
    by (rule reach_step) (rule ob_enqueue, simp add: empty_outbox_def)
  then show ?thesis by (simp add: sample_notification_def)
qed

lemma event_has_one_job_witness:
  "\<exists>e \<in> set (ox_events (snd sample_notification)). \<exists>!j. j \<in> set (ox_jobs (snd sample_notification)) \<and> delivery_job (oe_id e) j"
proof -
  have "ox_events (snd sample_notification) \<noteq> []" by code_simp
  then have "hd (ox_events (snd sample_notification)) \<in> set (ox_events (snd sample_notification))" by (rule hd_in_set)
  then show ?thesis using event_has_one_job [OF reach_enqueued] by (intro bexI) simp_all
qed



section \<open>Two histories that strand an event\<close>

text \<open>The steps of a delivery job that is claimed by several workers in turn.\<close>

definition job_row :: "durable_job table \<Rightarrow> durable_job" where "job_row t = hd t"

definition claim_row :: "string \<Rightarrow> int \<Rightarrow> durable_job table \<Rightarrow> durable_job option \<times> durable_job table" where
  "claim_row tok now t = claim_job (job_row t) ''w'' tok now t"

lemma reach_claim:
  assumes "reach outbox_init outbox_step s" "tok \<notin> os_tokens s"
    and "fst (claim_row tok now (ox_jobs (os_db s))) \<noteq> None"
  shows "reach outbox_init outbox_step
    \<lparr>os_tokens = insert tok (os_tokens s),
     os_claimed = insert (the (fst (claim_row tok now (ox_jobs (os_db s))))) (os_claimed s),
     os_db = (os_db s)\<lparr>ox_jobs := snd (claim_row tok now (ox_jobs (os_db s)))\<rparr>\<rparr>"
proof -
  from assms(3) have "claim_job (job_row (ox_jobs (os_db s))) ''w'' tok now (ox_jobs (os_db s)) =
      (Some (the (fst (claim_row tok now (ox_jobs (os_db s))))), snd (claim_row tok now (ox_jobs (os_db s))))"
    by (cases "claim_row tok now (ox_jobs (os_db s))") (auto simp: claim_row_def)
  with assms(1,2) show ?thesis by (blast intro: reach_step ob_claim)
qed

lemma reach_expire:
  "reach outbox_init outbox_step s \<Longrightarrow>
   reach outbox_init outbox_step (s\<lparr>os_db := (os_db s)\<lparr>ox_jobs := requeueExpiredJobs now (ox_jobs (os_db s))\<rparr>\<rparr>)"
  by (blast intro: reach_step ob_job js_expire)

lemma outbox_db_parts:
  "d\<lparr>ox_jobs := j, ox_events := e\<rparr> = \<lparr>ox_events = e, ox_jobs = j\<rparr>"
  "d\<lparr>ox_events := e, ox_jobs := j\<rparr> = \<lparr>ox_events = e, ox_jobs = j\<rparr>"
  by simp_all

lemmas outbox_reach_step = reach_step [where init = outbox_init and step = outbox_step]
lemmas reach_processing = outbox_reach_step [OF _ ob_processing]
lemmas reach_delivered = outbox_reach_step [OF _ ob_delivered]
lemmas reach_failed = outbox_reach_step [OF _ ob_failed]
lemmas reach_retry = outbox_reach_step [OF _ ob_retry]

lemma reach_finish:
  assumes "reach outbox_init outbox_step s" "st \<noteq> Job_running"
  shows "reach outbox_init outbox_step
    (s\<lparr>os_db := (os_db s)\<lparr>ox_jobs := snd (finishDurableJob job st err now (ox_jobs (os_db s)))\<rparr>\<rparr>)"
  using reach_step [OF assms(1) ob_job [OF js_finish [OF assms(2)]]] .

definition evt_db :: outbox_db where "evt_db = snd sample_notification"
definition claim1 :: "durable_job option \<times> durable_job table" where "claim1 = claim_row ''t1'' 0 (ox_jobs evt_db)"
definition expired1 :: "durable_job table" where "expired1 = requeueExpiredJobs 30001 (snd claim1)"
definition claim2 :: "durable_job option \<times> durable_job table" where "claim2 = claim_row ''t2'' 30001 expired1"
definition worker1 :: durable_job where "worker1 = the (fst claim1)"
definition worker2 :: durable_job where "worker2 = the (fst claim2)"

lemma reach_two_claims:
  "reach outbox_init outbox_step \<lparr>os_tokens = {''t2'', ''t1''}, os_claimed = {worker2, worker1},
     os_db = evt_db\<lparr>ox_jobs := snd claim2\<rparr>\<rparr>"
proof -
  have some: "fst claim1 \<noteq> None" "fst claim2 \<noteq> None" by code_simp+
  have "reach outbox_init outbox_step \<lparr>os_tokens = {''t1''}, os_claimed = {worker1}, os_db = evt_db\<lparr>ox_jobs := snd claim1\<rparr>\<rparr>"
    using reach_claim [OF reach_enqueued [folded evt_db_def], of "''t1''" 0] some(1)
    by (simp add: claim1_def [symmetric] worker1_def)
  from reach_expire [OF this, of 30001]
  have "reach outbox_init outbox_step \<lparr>os_tokens = {''t1''}, os_claimed = {worker1}, os_db = evt_db\<lparr>ox_jobs := expired1\<rparr>\<rparr>"
    by (simp add: expired1_def)
  from reach_claim [OF this, of "''t2''" 30001] show ?thesis
    using some(2) by (simp add: claim2_def [symmetric] worker2_def)
qed

text \<open>A delivered event can become open again for good: a worker whose lease expired during its
  delivery records its failure without a guard on the status, over the delivery of the worker that
  replaced it. The event is then pending while its only job has succeeded, and neither the repair
  nor a second enqueue gives it a new job.\<close>

theorem delivered_event_can_be_reopened:
  "\<exists>s e j. reach outbox_init outbox_step s \<and> ox_events (os_db s) = [e] \<and> ox_jobs (os_db s) = [j] \<and>
     oe_status e = Ev_pending \<and> oe_deliveredAt e \<noteq> None \<and> j_status j = Job_succeeded \<and>
     (\<forall>jobId now. ensureDeliveryJob jobId e now (os_db s) = os_db s)"
proof -
  let ?ev = "ev_failed worker1 ''evt'' ''late'' 30010 (ev_delivered worker2 ''evt'' 30005
    (ev_processing worker2 ''evt'' 30002 (ox_events evt_db)))"
  let ?jobs = "snd (finishDurableJob worker2 Job_succeeded None 30006 (snd claim2))"
  let ?s = "\<lambda>ev jobs. \<lparr>os_tokens = {''t2'', ''t1''}, os_claimed = {worker2, worker1},
    os_db = evt_db\<lparr>ox_events := ev, ox_jobs := jobs\<rparr>\<rparr>"
  have d: "delivery_job ''evt'' worker1" "delivery_job ''evt'' worker2" by code_simp+
  have "reach outbox_init outbox_step (?s (ox_events evt_db) (snd claim2))" using reach_two_claims by simp
  from reach_processing [OF this _ d(2), of 30002]
  have "reach outbox_init outbox_step (?s (ev_processing worker2 ''evt'' 30002 (ox_events evt_db)) (snd claim2))"
    by (simp add: outbox_db_parts)
  from reach_delivered [OF this _ d(2), of 30005]
  have "reach outbox_init outbox_step
      (?s (ev_delivered worker2 ''evt'' 30005 (ev_processing worker2 ''evt'' 30002 (ox_events evt_db))) (snd claim2))"
    by (simp add: outbox_db_parts)
  from reach_finish [OF this, of Job_succeeded worker2 None 30006]
  have "reach outbox_init outbox_step
      (?s (ev_delivered worker2 ''evt'' 30005 (ev_processing worker2 ''evt'' 30002 (ox_events evt_db))) ?jobs)"
    by (simp add: outbox_db_parts)
  from reach_failed [OF this _ d(1), of "''late''" 30010]
  have r: "reach outbox_init outbox_step (?s ?ev ?jobs)" by (simp add: outbox_db_parts)
  have fin: "map (\<lambda>e. (oe_id e, oe_status e, oe_deliveredAt e)) ?ev = [(''evt'', Ev_pending, Some 30005)]"
    "map (\<lambda>j. (delivery_job ''evt'' j, j_status j)) ?jobs = [(True, Job_succeeded)]" by code_simp+
  then obtain e j where e: "?ev = [e]" "oe_id e = ''evt''" "oe_status e = Ev_pending" "oe_deliveredAt e \<noteq> None"
    and j: "?jobs = [j]" "delivery_job ''evt'' j" "j_status j = Job_succeeded" by (auto simp: map_eq_Cons_conv)
  have "ensureDeliveryJob jobId e now (os_db (?s ?ev ?jobs)) = os_db (?s ?ev ?jobs)" for jobId now
    by (rule ensure_existing) (simp add: e(2) j(1,2))
  with r e j show ?thesis by (intro exI [of _ "?s ?ev ?jobs"]) simp
qed

definition expired2 :: "durable_job table" where "expired2 = requeueExpiredJobs 60002 (snd claim2)"
definition claim3 :: "durable_job option \<times> durable_job table" where "claim3 = claim_row ''t3'' 60002 expired2"
definition worker3 :: durable_job where "worker3 = the (fst claim3)"
definition dead_db :: outbox_db where
  "dead_db = evt_db\<lparr>ox_events := ev_failed worker3 ''evt'' ''boom'' 60003 (ox_events evt_db), ox_jobs := snd claim3\<rparr>"
definition retried :: "bool \<times> outbox_db" where "retried = retryDeadLetterOutboxEvent ''evt'' 60004 dead_db"

text \<open>The operator's retry can report success and strand the event: between the handler's dead letter
  and the end of its job the job is still running, so the retry reopens the event but not the job;
  when the job then fails, the event is pending and nothing will deliver it.\<close>

theorem dead_letter_retry_can_strand:
  "\<exists>s e j. reach outbox_init outbox_step s \<and> fst retried \<and> ox_events (os_db s) = [e] \<and> ox_jobs (os_db s) = [j] \<and>
     oe_status e = Ev_pending \<and> j_status j = Job_failed \<and>
     (\<forall>jobId now. ensureDeliveryJob jobId e now (os_db s) = os_db s) \<and>
     (\<forall>now. fst (retryDeadLetterOutboxEvent (oe_id e) now (os_db s)) = False)"
proof -
  let ?s = "\<lambda>d. \<lparr>os_tokens = {''t3'', ''t2'', ''t1''}, os_claimed = {worker3, worker2, worker1}, os_db = d\<rparr>"
  let ?jobs = "snd (finishDurableJob worker3 Job_failed (Some ''boom'') 60005 (ox_jobs (snd retried)))"
  let ?d = "(snd retried)\<lparr>ox_jobs := ?jobs\<rparr>"
  have some: "fst claim3 \<noteq> None" "delivery_job ''evt'' worker3" by code_simp+
  from reach_expire [OF reach_two_claims, of 60002]
  have "reach outbox_init outbox_step \<lparr>os_tokens = {''t2'', ''t1''}, os_claimed = {worker2, worker1},
      os_db = evt_db\<lparr>ox_jobs := expired2\<rparr>\<rparr>" by (simp add: expired2_def)
  from reach_claim [OF this, of "''t3''" 60002] have "reach outbox_init outbox_step (?s (evt_db\<lparr>ox_jobs := snd claim3\<rparr>))"
    using some(1) by (simp add: claim3_def [symmetric] worker3_def)
  from reach_failed [OF this _ some(2), of "''boom''" 60003]
  have "reach outbox_init outbox_step (?s dead_db)" by (simp add: dead_db_def outbox_db_parts)
  from reach_retry [OF this, of "''evt''" 60004]
  have "reach outbox_init outbox_step (?s (snd retried))" by (simp add: retried_def)
  from reach_finish [OF this, of Job_failed worker3 "Some ''boom''" 60005]
  have r: "reach outbox_init outbox_step (?s ?d)" by simp
  have ok: "fst retried" by code_simp
  have "map (\<lambda>e. (oe_id e, oe_status e)) (ox_events ?d) = [(''evt'', Ev_pending)]"
    "map (\<lambda>j. (delivery_job ''evt'' j, j_status j)) ?jobs = [(True, Job_failed)]" by code_simp+
  then obtain e j where e: "ox_events ?d = [e]" "oe_id e = ''evt''" "oe_status e = Ev_pending"
    and j: "?jobs = [j]" "delivery_job ''evt'' j" "j_status j = Job_failed" by (auto simp: map_eq_Cons_conv)
  have "ensureDeliveryJob jobId e now ?d = ?d" for jobId now
    by (rule ensure_existing) (simp add: e(2) j(1,2))
  moreover have "fst (retryDeadLetterOutboxEvent (oe_id e) now ?d) = False" for now
    using e by (simp add: retryDeadLetterOutboxEvent_def)
  ultimately show ?thesis using r ok e j by (intro exI [of _ "?s ?d"]) simp
qed

end
