(* ===== verification/RunActionSafety.thy ===== *)
theory RunActionSafety imports RunActions OutboxSafety begin

text \<open>
  All writers of a run's status together, in any order and with reads as old as they like: which moves
  they make, that a workspace never has two runs in progress, and that a canceled run stays canceled.
\<close>

section \<open>Writers\<close>

text \<open>
  The worker writes the statuses of the table, reopens no run, fetches only what the queue claimed, and
  saves only plans of runs that asked for it.
\<close>

definition pipeline_call :: "run_row \<Rightarrow> status \<Rightarrow> bool" where
  "pipeline_call existing status \<longleftrightarrow> status \<in> set RUN_STATUSES \<and> status \<noteq> ''pending'' \<and>
     (status = ''fetching'' \<longrightarrow> r_status existing = ''fetching'') \<and> (status = ''planned_and_saved'' \<longrightarrow> r_savePlan existing)"

text \<open>\<open>U\<close> holds every row any request may have read so far.\<close>

definition read_run :: "run_row set \<Rightarrow> (nat \<times> string) + run_row \<Rightarrow> bool" where
  "read_run U access \<longleftrightarrow> (\<forall>run. access = Inr run \<longrightarrow> run \<in> U)"

inductive run_write :: "run_row set \<Rightarrow> run_row table \<Rightarrow> run_row table \<Rightarrow> bool" where
  rw_create: "r_id r \<notin> r_id ` U \<Longrightarrow> r_status r = ''pending'' \<Longrightarrow> js_get (r_statusTimestamps r) ''cancel-requested-at'' = None \<Longrightarrow>
    run_write U t (t @ [r])"
| rw_claim: "run \<in> U \<Longrightarrow> r_status run = ''pending'' \<Longrightarrow> run_write U t (snd (claimLocalRun run t))"
| rw_undo: "run_write U t (undoLocalClaim run t)"
| rw_unreachable: "run \<in> U \<Longrightarrow> r_status run = ''pending'' \<Longrightarrow> run_write U t (snd (claimUnreachableRun stamp run t))"
| rw_agent: "run \<in> U \<Longrightarrow> r_status run = ''pending'' \<Longrightarrow> run_write U t (snd (claimAgentPoolRun stamp state run t))"
| rw_reject: "run \<in> U \<Longrightarrow> r_status run = ''pending'' \<Longrightarrow> run_write U t (snd (rejectQueuedRun stamp run t))"
| rw_dispatch: "set read \<subseteq> U \<Longrightarrow> run \<in> set (fetchDueScheduledRuns now read) \<Longrightarrow>
    run_write U t (snd (dispatchLocalScheduledRun stamp run t))"
| rw_restore: "run_write U t (restoreFailedScheduledRun i t)"
| rw_local: "set read \<subseteq> U \<Longrightarrow> run \<in> set (fetchDueScheduledRuns now read) \<Longrightarrow>
    run_write U t (snd (errorLocalModeScheduledRun stamp run t))"
| rw_worker: "existing \<in> U \<Longrightarrow> r_id existing = i \<Longrightarrow> pipeline_call existing st \<Longrightarrow>
    run_write U t (rs_runs (snd (updateRunStatus ha now current jobId stamp (Some existing) i st \<lparr>rs_runs = t, rs_outbox = o'\<rparr>)))"
| rw_discard: "read_run U access \<Longrightarrow> run_write U t (snd (snd (discardRun access body t)))"
| rw_cancel: "read_run U access \<Longrightarrow> run_write U t (snd (snd (cancelRun access stamp t)))"
| rw_force_cancel: "read_run U access \<Longrightarrow> run_write U t (snd (snd (forceCancelRun access t)))"
| rw_override: "run_write U t (snd (snd (overridePolicy access body checks t)))"
| rw_apply: "set read \<subseteq> U \<Longrightarrow> run_write U t (snd (snd (applyRun access' policyError gate pool stamp body read t)))"
| rw_schedule: "set read \<subseteq> U \<Longrightarrow> run_write U t (snd (snd (scheduleApplyRun access' parse show_time now body read t)))"
| rw_stop: "run_write U t (snd (stopForceExecuteBlockers ws i read1 read2 t))"
| rw_force_execute: "r_status run = ''pending'' \<Longrightarrow> run_write U t (snd (snd (transitionForceExecutedRun run t)))"
| rw_queue: "read_run U access \<Longrightarrow> run_write U t (snd (snd (queueRun access t)))"

record run_world =
  rw_seen :: "run_row set"
  rw_table :: "run_row table"

inductive run_step :: "run_world \<Rightarrow> run_world \<Rightarrow> bool" where
  run_stepI: "run_write (rw_seen s) (rw_table s) t' \<Longrightarrow>
    run_step s \<lparr>rw_seen = rw_seen s \<union> set t', rw_table = t'\<rparr>"

definition run_init :: "run_world \<Rightarrow> bool" where
  "run_init s \<longleftrightarrow> s = \<lparr>rw_seen = {}, rw_table = []\<rparr>"


section \<open>Moves\<close>

definition CANCELED :: "status list" where "CANCELED = [''canceled'', ''force_canceled'']"

text \<open>The moves the code makes outside the transition table.\<close>

definition OFF_TABLE_MOVES :: "(status \<times> status) list" where
  "OFF_TABLE_MOVES =
    [(''pending'', ''plan_queued''), (''fetching'', ''pending''), (''apply_queued'', ''confirmed''),
     (''canceled'', ''force_canceled''), (''unreachable'', ''discarded'')]"

definition status_move :: "status \<Rightarrow> status \<Rightarrow> bool" where
  "status_move a b \<longleftrightarrow> a = b \<or> canTransitionRunStatus a b \<or> (a, b) \<in> set OFF_TABLE_MOVES"

definition same_run :: "run_row \<Rightarrow> run_row \<Rightarrow> bool" where
  "same_run r r' \<longleftrightarrow> r_id r' = r_id r \<and> r_workspaceId r' = r_workspaceId r \<and> r_planOnly r' = r_planOnly r \<and> r_savePlan r' = r_savePlan r"

definition cancel_requested :: "run_row \<Rightarrow> bool" where
  "cancel_requested r \<longleftrightarrow> js_get (r_statusTimestamps r) ''cancel-requested-at'' \<noteq> None"

definition workspace_free :: "run_row table \<Rightarrow> run_row \<Rightarrow> bool" where
  "workspace_free t r \<longleftrightarrow> \<not> (\<exists>b \<in> set t. r_workspaceId b = r_workspaceId r \<and> blocking_run b)"

text \<open>What each write does to each row it changes.\<close>

definition row_move :: "run_row table \<Rightarrow> (run_row \<Rightarrow> bool) \<Rightarrow> run_row \<Rightarrow> run_row \<Rightarrow> bool" where
  "row_move t p r r' \<longleftrightarrow> same_run r r' \<and> status_move (r_status r) (r_status r') \<and>
     (r_status r \<in> set CANCELED \<longrightarrow> r_status r' \<in> set CANCELED) \<and>
     (cancel_requested r' \<longrightarrow> r_status r' \<in> set CANCELED) \<and>
     (r_status r' = ''planned_and_saved'' \<longrightarrow> r_savePlan r') \<and>
     (blocking_run r' \<longrightarrow> blocking_run r \<or> workspace_free t r \<and> (\<forall>x. p x \<longrightarrow> r_id x = r_id r))"

definition table_move :: "run_row table \<Rightarrow> run_row table \<Rightarrow> bool" where
  "table_move t t' \<longleftrightarrow> (\<exists>p f. t' = db_update p f t \<and> (\<forall>r \<in> set t. p r \<longrightarrow> row_move t p r (f r)))"

definition run_ok :: "run_row \<Rightarrow> bool" where
  "run_ok r \<longleftrightarrow> (cancel_requested r \<longrightarrow> r_status r \<in> set CANCELED) \<and> (r_status r = ''planned_and_saved'' \<longrightarrow> r_savePlan r)"

definition exclusive :: "run_row table \<Rightarrow> bool" where
  "exclusive t \<longleftrightarrow> (\<forall>x \<in> set t. \<forall>y \<in> set t. blocking_run x \<longrightarrow> blocking_run y \<longrightarrow> r_workspaceId x = r_workspaceId y \<longrightarrow> r_id x = r_id y)"

definition run_inv :: "run_world \<Rightarrow> bool" where
  "run_inv s \<longleftrightarrow> unique_by r_id (rw_table s) \<and> set (rw_table s) \<subseteq> rw_seen s \<and> r_id ` rw_seen s \<subseteq> r_id ` set (rw_table s) \<and>
     (\<forall>x \<in> rw_seen s. run_ok x) \<and>
     (\<forall>x \<in> rw_seen s. \<forall>r \<in> set (rw_table s). r_id x = r_id r \<longrightarrow> same_run x r \<and>
        (r_status x \<in> set CANCELED \<longrightarrow> r_status r \<in> set CANCELED)) \<and> exclusive (rw_table s)"

lemma run_update_snd: "snd (run_update p f t) = db_update p f t"
  by (simp add: run_update_def)

lemma run_update_eq: "run_update p f t = (found, t') \<Longrightarrow> t' = db_update p f t"
  by (simp add: run_update_def)

lemma table_move_refl [simp]: "table_move t t"
  unfolding table_move_def by (rule exI [of _ "\<lambda>_. False"]) (auto simp: db_update_id)

lemma table_moveI:
  "(\<And>r. r \<in> set t \<Longrightarrow> p r \<Longrightarrow> row_move t p r (f r)) \<Longrightarrow> table_move t (db_update p f t)"
  unfolding table_move_def by blast

lemma set_status_simps [row_simps]:
  "r_status (set_status st r) = st" "r_status (set_status_at st ts r) = st" "r_status (set_confirmed sa ts r) = ''confirmed''"
  "same_run r (set_status st r)" "same_run r (set_status_at st ts r)" "same_run r (set_confirmed sa ts r)"
  "cancel_requested (set_status st r) = cancel_requested r"
  "cancel_requested (set_status_at st ts r) = (js_get ts ''cancel-requested-at'' \<noteq> None)"
  "cancel_requested (set_confirmed sa ts r) = (js_get ts ''cancel-requested-at'' \<noteq> None)"
  "r_savePlan (set_status st r) = r_savePlan r" "r_savePlan (set_status_at st ts r) = r_savePlan r"
  "r_planOnly (set_status st r) = r_planOnly r" "r_planOnly (set_status_at st ts r) = r_planOnly r"
  "r_savePlan (set_confirmed sa ts r) = r_savePlan r" "r_planOnly (set_confirmed sa ts r) = r_planOnly r"
  by (simp_all add: set_status_def set_status_at_def set_confirmed_def same_run_def cancel_requested_def)

lemma move_list: "a \<in> set L \<Longrightarrow> list_all (\<lambda>a. P a b) L \<Longrightarrow> P a b"
  by (auto simp: list_all_iff)

text \<open>A status a write starts from: where it may go, and what it says about blocking and canceling.\<close>

definition move_ok :: "status \<Rightarrow> status \<Rightarrow> bool" where
  "move_ok a b \<longleftrightarrow> status_move a b \<and> (a \<in> set CANCELED \<longrightarrow> b \<in> set CANCELED) \<and>
     (b \<in> set WORKSPACE_BLOCKING_RUN_STATUSES \<longrightarrow> a \<in> set WORKSPACE_BLOCKING_RUN_STATUSES \<or> a = ''planned_and_saved'') \<and>
     b \<noteq> ''planned_and_saved''"

lemma row_move_ok:
  assumes "move_ok (r_status r) (r_status r')" "same_run r r'" "run_ok r"
    and "cancel_requested r' \<Longrightarrow> cancel_requested r \<or> r_status r' \<in> set CANCELED"
  shows "row_move t p r r'"
  using assms by (auto simp: row_move_def move_ok_def run_ok_def blocking_run_def same_run_def)

lemma moves_discard: "list_all (\<lambda>a. move_ok a ''discarded'') DISCARDABLE_RUN_STATUSES" by code_simp
lemma moves_cancel: "list_all (\<lambda>a. move_ok a ''canceled'') CANCELABLE_RUN_STATUSES" by code_simp
lemma moves_force_cancel: "list_all (\<lambda>a. move_ok a ''force_canceled'') FORCE_CANCELABLE_RUN_STATUSES" by code_simp
lemma moves_stop: "list_all (\<lambda>a. move_ok a ''force_canceled'') (fst forceExecuteStatusLists)" by code_simp
lemma moves_queue: "list_all (\<lambda>a. move_ok a ''pending'') [''pending'', ''plan_queued'', ''apply_queued'', ''fetching'']" by code_simp
lemma moves_confirm: "list_all (\<lambda>a. move_ok a ''confirmed'') [''planned'', ''planned_and_saved'', ''apply_queued'']" by code_simp
lemma moves_apply_queued: "list_all (\<lambda>a. move_ok a ''apply_queued'') [''planned'', ''planned_and_saved'', ''confirmed'']" by code_simp
lemma moves_error: "list_all (\<lambda>a. move_ok a ''errored'') [''pending'', ''confirmed'']" by code_simp
lemma moves_unreachable: "list_all (\<lambda>a. move_ok a ''unreachable'') [''pending'']" by code_simp
lemma moves_override: "list_all (\<lambda>a. move_ok a ''planned'') [''policy_soft_failed'']" by code_simp

lemmas run_moves = moves_discard moves_cancel moves_force_cancel moves_stop moves_queue moves_confirm
  moves_apply_queued moves_error moves_unreachable moves_override

text \<open>A conditional write of one status, from the statuses its condition allows.\<close>

lemma table_move_write:
  assumes "list_all (\<lambda>a. move_ok a b) L" "\<And>r. r \<in> set t \<Longrightarrow> p r \<Longrightarrow> r_status r \<in> set L \<and> run_ok r"
    and "\<And>r. r_status (f r) = b \<and> same_run r (f r)"
    and "\<And>r. r \<in> set t \<Longrightarrow> p r \<Longrightarrow> cancel_requested (f r) \<Longrightarrow> cancel_requested r \<or> b \<in> set CANCELED"
  shows "table_move t (db_update p f t)"
proof (rule table_moveI)
  fix r assume r: "r \<in> set t" "p r"
  have "move_ok (r_status r) b" using assms(1) assms(2) [OF r] by (auto simp: list_all_iff)
  then show "row_move t p r (f r)" using assms(2) [OF r] assms(3) [of r] assms(4) [OF r] by (intro row_move_ok) auto
qed

lemma discard_move:
  assumes "\<forall>r \<in> set t. run_ok r"
  shows "table_move t (snd (snd (discardRun access body t)))"
proof -
  have "table_move t (db_update (\<lambda>r. r_id r = i \<and> r_status r = st \<and> r_status r \<in> set DISCARDABLE_RUN_STATUSES)
      (set_status ''discarded'') t)" for i st
    using assms by (intro table_move_write [OF moves_discard]) (auto simp: row_simps)
  then show ?thesis by (simp add: discardRun_def refuse_def Let_def run_update_def split: sum.split prod.split)
qed

lemma cancel_move:
  assumes "\<forall>r \<in> set t. run_ok r"
  shows "table_move t (snd (snd (cancelRun access stamp t)))"
proof -
  have "table_move t (db_update (\<lambda>r. r_id r = i \<and> r_status r = st \<and> r_status r \<in> set CANCELABLE_RUN_STATUSES)
      (set_status_at ''canceled'' ts) t)" for i st ts
    using assms by (intro table_move_write [OF moves_cancel]) (auto simp: row_simps CANCELED_def)
  then show ?thesis by (simp add: cancelRun_def refuse_def Let_def run_update_def split: sum.split prod.split)
qed

lemma force_cancel_move:
  assumes "\<forall>r \<in> set t. run_ok r"
  shows "table_move t (snd (snd (forceCancelRun access t)))"
proof -
  have "table_move t (db_update (\<lambda>r. r_id r = i \<and> r_status r = st \<and> r_status r \<in> set FORCE_CANCELABLE_RUN_STATUSES)
      (set_status ''force_canceled'') t)" for i st
    using assms by (intro table_move_write [OF moves_force_cancel]) (auto simp: row_simps)
  then show ?thesis
    by (simp add: forceCancelRun_def forceCancelActiveRun_def refuse_def Let_def run_update_def split: sum.split prod.split)
qed

lemma override_move:
  assumes "\<forall>r \<in> set t. run_ok r"
  shows "table_move t (snd (snd (overridePolicy access body checks t)))"
proof -
  have "table_move t (db_update (\<lambda>r. r_id r = i \<and> r_status r = ''policy_soft_failed'') (set_status ''planned'') t)" for i
    using assms by (intro table_move_write [OF moves_override]) (auto simp: row_simps)
  then have "table_move t (snd (snd (commitPolicyOverride i justification checks t)))" for i justification
    by (simp add: commitPolicyOverride_def Let_def split: list.split)
  then show ?thesis
    by (auto simp: overridePolicy_def refuse_def split: sum.split prod.split list.split) (metis snd_conv)
qed

lemma queue_move:
  assumes "\<forall>r \<in> set t. run_ok r"
  shows "table_move t (snd (snd (queueRun access t)))"
proof -
  have "table_move t (db_update (\<lambda>r. r_id r = i \<and> r_status r = st \<and> r_status r \<in> {''pending'', ''plan_queued'', ''apply_queued''})
      (set_status ''pending'') t)" for i st
    using assms by (intro table_move_write [OF moves_queue]) (auto simp: row_simps)
  then show ?thesis by (simp add: queueRun_def queuePendingRun_def refuse_def Let_def split: sum.split list.split prod.split)
qed

lemma stop_move:
  assumes "\<forall>r \<in> set t. run_ok r"
  shows "table_move t (snd (stopForceExecuteBlockers ws i read1 read2 t))"
proof -
  have "table_move t (db_update (\<lambda>r. r_id r \<in> ids \<and> r_status r \<in> set (fst forceExecuteStatusLists))
      (set_status ''force_canceled'') t)" for ids
    using assms by (intro table_move_write [OF moves_stop]) (auto simp: row_simps)
  from this [of "r_id ` set (other_runs ws i (fst forceExecuteStatusLists) read2)"] show ?thesis
    by (simp add: stopForceExecuteBlockers_def Let_def case_prod_beta split: list.split)
qed


text \<open>The queue.\<close>

lemma claim_free:
  assumes "buildRunClaimWhere run t r" "same_run run r" "\<not> r_planOnly r" "\<not> r_savePlan r"
  shows "workspace_free t r"
  using assms by (auto simp: buildRunClaimWhere_def workspace_free_def same_run_def list_ex_iff)

lemma claim_move:
  assumes "\<And>r. r \<in> set t \<Longrightarrow> r_id r = r_id run \<Longrightarrow> same_run run r"
    and "\<And>r. r_status (f r) = st \<and> same_run r (f r) \<and> \<not> cancel_requested (f r) \<or> r_status r \<noteq> ''pending'' \<or> r \<notin> set t"
    and "st = ''fetching'' \<or> st = ''plan_queued''"
  shows "table_move t (db_update (buildRunClaimWhere run t) f t)"
proof (rule table_moveI)
  fix r assume r: "r \<in> set t" "buildRunClaimWhere run t r"
  then have p: "r_status r = ''pending''" "same_run run r" using assms(1) by (auto simp: buildRunClaimWhere_def)
  then have f: "r_status (f r) = st" "same_run r (f r)" "\<not> cancel_requested (f r)" using assms(2) [of r] r(1) by auto
  have "status_move ''pending'' ''fetching''" "status_move ''pending'' ''plan_queued''" by code_simp+
  then have "status_move (r_status r) st" using assms(3) p by auto
  moreover have "blocking_run (f r) \<Longrightarrow> workspace_free t r"
    using claim_free [OF r(2) p(2)] f(2) by (auto simp: blocking_run_def same_run_def)
  moreover have "\<forall>x. buildRunClaimWhere run t x \<longrightarrow> r_id x = r_id r" using r(2) by (simp add: buildRunClaimWhere_def)
  ultimately show "row_move t (buildRunClaimWhere run t) r (f r)"
    using f p(1) assms(3) by (auto simp: row_move_def CANCELED_def)
qed

lemma claim_local_move:
  assumes "\<forall>r \<in> set t. run_ok r" "\<And>r. r \<in> set t \<Longrightarrow> r_id r = r_id run \<Longrightarrow> same_run run r"
  shows "table_move t (snd (claimLocalRun run t))"
proof -
  have "\<not> cancel_requested r" if "r \<in> set t" "r_status r = ''pending''" for r
    using assms(1) that by (auto simp: run_ok_def CANCELED_def)
  then show ?thesis unfolding claimLocalRun_def run_update_snd
    by (intro claim_move [where st = "''fetching''"] assms(2)) (auto simp: row_simps)
qed

lemma pending_no_cancel: "run_ok run \<Longrightarrow> r_status run \<notin> set CANCELED \<Longrightarrow> js_get (r_statusTimestamps run) ''cancel-requested-at'' = None"
  by (auto simp: run_ok_def cancel_requested_def)

lemma claim_agent_move:
  assumes "run_ok run" "r_status run = ''pending''" "\<And>r. r \<in> set t \<Longrightarrow> r_id r = r_id run \<Longrightarrow> same_run run r"
  shows "table_move t (snd (claimAgentPoolRun stamp state run t))"
  using pending_no_cancel [OF assms(1)] assms(2) unfolding claimAgentPoolRun_def run_update_snd Let_def
  by (intro claim_move [where st = "''plan_queued''"] assms(3)) (auto simp: row_simps CANCELED_def split: option.split)

lemma table_move_at:
  assumes "\<forall>r \<in> set t. run_ok r" "list_all (\<lambda>a. move_ok a b) L" "\<And>r. r \<in> set t \<Longrightarrow> p r \<Longrightarrow> r_status r \<in> set L"
    and "run_ok run" "r_status run \<notin> set CANCELED" "k \<noteq> ''cancel-requested-at''"
  shows "table_move t (db_update p (set_status_at b (js_set k stamp (r_statusTimestamps run))) t)"
  using assms pending_no_cancel [OF assms(4,5)] by (intro table_move_write [OF assms(2)]) (auto simp: row_simps)

lemma queue_moves:
  assumes "\<forall>r \<in> set t. run_ok r" "run_ok run" "r_status run = ''pending''"
  shows "table_move t (snd (claimUnreachableRun stamp run t))" "table_move t (snd (rejectQueuedRun stamp run t))"
  using assms unfolding claimUnreachableRun_def rejectQueuedRun_def run_update_snd
  by (auto intro!: table_move_at [OF _ moves_unreachable] table_move_at [OF _ moves_error] simp: buildRunClaimWhere_def CANCELED_def)

lemma scheduled_moves:
  assumes "\<forall>r \<in> set t. run_ok r" "run_ok run" "r_status run = ''confirmed''"
  shows "table_move t (snd (dispatchLocalScheduledRun stamp run t))" "table_move t (snd (errorLocalModeScheduledRun stamp run t))"
  using assms unfolding dispatchLocalScheduledRun_def errorLocalModeScheduledRun_def run_update_snd
  by (auto intro!: table_move_at [OF _ moves_apply_queued] table_move_at [OF _ moves_error] simp: CANCELED_def)

lemma undo_moves:
  assumes "\<forall>r \<in> set t. run_ok r"
  shows "table_move t (undoLocalClaim run t)" "table_move t (restoreFailedScheduledRun i t)"
    "r_status run = ''pending'' \<Longrightarrow> table_move t (snd (snd (transitionForceExecutedRun run t)))"
proof -
  have w: "table_move t (db_update (\<lambda>r. r_id r = i \<and> r_status r = ''fetching'') (set_status ''pending'') t)"
    "table_move t (db_update (\<lambda>r. r_id r = i \<and> r_status r = ''pending'') (set_status ''pending'') t)" for i
    by (rule table_move_write [OF moves_queue]; use assms in \<open>auto simp: row_simps\<close>)+
  have "table_move t (db_update (\<lambda>r. r_id r = i \<and> r_status r = ''apply_queued'') (set_status ''confirmed'') t)" for i
    by (rule table_move_write [OF moves_confirm]) (use assms in \<open>auto simp: row_simps\<close>)
  with w show "table_move t (undoLocalClaim run t)" "table_move t (restoreFailedScheduledRun i t)"
    "r_status run = ''pending'' \<Longrightarrow> table_move t (snd (snd (transitionForceExecutedRun run t)))"
    by (simp_all add: undoLocalClaim_def restoreFailedScheduledRun_def transitionForceExecutedRun_def refuse_def run_update_def Let_def)
qed

text \<open>The worker, and the confirmations.\<close>

lemma fence_base: "runExecutionFenceCondition ha now lease base r \<Longrightarrow> base r"
  by (auto simp: runExecutionFenceCondition_def split: bool.splits option.splits)

lemma worker_move:
  assumes t: "\<forall>r \<in> set t. run_ok r" and e: "run_ok existing" "pipeline_call existing st"
    and same: "\<And>r. r \<in> set t \<Longrightarrow> r_id r = i \<Longrightarrow> same_run existing r"
  shows "table_move t (rs_runs (snd (updateRunStatus ha now current jobId stamp (Some existing) i st \<lparr>rs_runs = t, rs_outbox = o'\<rparr>)))"
proof -
  have mv: "table_move t (db_update p (set_status_at st (js_set (statusKey st) stamp (r_statusTimestamps existing))) t)"
    if p: "\<And>r. p r \<Longrightarrow> r_id r = i \<and> r_status r = r_status existing"
      and tr: "r_status existing = st \<or> canTransitionRunStatus (r_status existing) st" for p
  proof (rule table_moveI)
    fix r assume r: "r \<in> set t" "p r"
    let ?r = "set_status_at st (js_set (statusKey st) stamp (r_statusTimestamps existing)) r"
    have rs: "r_status r = r_status existing" "same_run existing r" using p r same by auto
    have "list_all (\<lambda>st. statusKey st \<noteq> ''cancel-requested-at'') RUN_STATUSES" by code_simp
    then have key: "statusKey st \<noteq> ''cancel-requested-at''" using e(2) list_all_member by (fastforce simp: pipeline_call_def)
    have "canTransitionRunStatus a b \<Longrightarrow> a \<in> set CANCELED \<longrightarrow> b = ''pending''" for a b
      by (erule transition_checked) code_simp
    then have c: "r_status existing \<in> set CANCELED \<Longrightarrow> st \<in> set CANCELED" using tr e(2) by (auto simp: pipeline_call_def)
    have "canTransitionRunStatus a b \<Longrightarrow> b \<in> set WORKSPACE_BLOCKING_RUN_STATUSES \<longrightarrow>
        a \<in> set WORKSPACE_BLOCKING_RUN_STATUSES \<or> a = ''planned_and_saved'' \<or> b = ''fetching''" for a b
      by (erule transition_checked) code_simp
    moreover have "''fetching'' \<in> set WORKSPACE_BLOCKING_RUN_STATUSES" by code_simp
    ultimately have "st \<in> set WORKSPACE_BLOCKING_RUN_STATUSES \<Longrightarrow>
        r_status existing \<in> set WORKSPACE_BLOCKING_RUN_STATUSES \<or> r_status existing = ''planned_and_saved''"
      using tr e(2) by (auto simp: pipeline_call_def)
    then have "blocking_run ?r \<Longrightarrow> blocking_run r"
      using rs t r(1) by (auto simp: blocking_run_def row_simps run_ok_def)
    moreover have "js_get (r_statusTimestamps existing) ''cancel-requested-at'' \<noteq> None \<Longrightarrow> st \<in> set CANCELED"
      using e(1) c by (simp add: run_ok_def cancel_requested_def)
    then have "cancel_requested ?r \<Longrightarrow> st \<in> set CANCELED" using key by (simp add: row_simps)
    moreover have "st = ''planned_and_saved'' \<Longrightarrow> r_savePlan r" using e(2) rs by (auto simp: pipeline_call_def same_run_def)
    ultimately show "row_move t p r ?r"
      using rs tr c by (auto simp: row_move_def row_simps status_move_def)
  qed
  have w: "table_move t (db_update (runExecutionFenceCondition ha now lease (\<lambda>r. r_id r = i \<and> r_status r = r_status existing))
      (set_status_at st (js_set (statusKey st) stamp (r_statusTimestamps existing))) t)"
    if "r_status existing = st \<or> canTransitionRunStatus (r_status existing) st" for lease
    by (rule mv [OF _ that]) (drule fence_base, assumption)
  show ?thesis
  proof (cases "r_status existing = st \<or> canTransitionRunStatus (r_status existing) st")
    case True
    note w [OF True]
    then show ?thesis
      unfolding updateRunStatus_def Let_def
      by (auto split: sum.split option.split prod.split simp del: db_update_simps)
  qed (simp add: updateRunStatus_def)
qed

lemma confirm_move:
  assumes "\<forall>r \<in> set t. run_ok r" "run_ok before" "r_status before \<in> {''planned'', ''planned_and_saved''}"
    and "js_get ts ''cancel-requested-at'' = None"
  shows "table_move t (db_update (\<lambda>r. r_id r = i \<and> r_status r = r_status before) (set_confirmed sa ts) t)"
  using assms by (intro table_move_write [OF moves_confirm]) (auto simp: row_simps)

lemma update_twice:
  assumes "unique_by r_id t" "\<And>r. p r \<Longrightarrow> r_id r = i \<and> r_id (f r) = i \<and> q (f r)" "\<And>r. q r \<Longrightarrow> r_id r = i" "r0 \<in> set t" "p r0"
  shows "db_update q g (db_update p f t) = db_update p (\<lambda>r. g (f r)) t"
proof -
  have "r = r0" if "r \<in> set t" "r_id r = i" for r
    using that assms(2) [OF assms(5)] assms(1,4) by (auto dest: unique_byD)
  then have "(if q (if p r then f r else r) then g (if p r then f r else r) else (if p r then f r else r)) =
      (if p r then g (f r) else r)" if "r \<in> set t" for r
    using that assms(2,3,5) by auto
  then show ?thesis by (simp add: db_update_def)
qed

lemma agent_apply_move:
  assumes t: "\<forall>r \<in> set t. run_ok r" "unique_by r_id t"
    and b: "run_ok before" "r_status before \<in> {''planned'', ''planned_and_saved''}"
  shows "table_move t (snd (snd (confirmAgentApply stamp poolId before body t)))"
proof -
  let ?p = "\<lambda>r. r_id r = r_id before \<and> r_status r = r_status before"
  let ?ts = "js_set ''confirmed-at'' stamp (r_statusTimestamps before)"
  let ?f = "set_confirmed None ?ts"
  let ?q = "\<lambda>r. r_id r = r_id before \<and> r_status r = ''confirmed''"
  let ?g = "set_status_at ''apply_queued'' (js_set (statusKey ''apply_queued'') stamp ?ts)"
  have none: "js_get (r_statusTimestamps before) ''cancel-requested-at'' = None"
    using b by (intro pending_no_cancel) (auto simp: CANCELED_def)
  have k: "statusKey ''apply_queued'' \<noteq> ''cancel-requested-at''" by code_simp
  have "table_move t (db_update ?q ?g (db_update ?p ?f t))" if "db_returning ?p ?f t \<noteq> []"
  proof -
    from that have "\<exists>r0 \<in> set t. ?p r0" by (simp add: db_returning_Nil_iff)
    then obtain r0 where "r0 \<in> set t" "?p r0" by blast
    then have "db_update ?q ?g (db_update ?p ?f t) = db_update ?p (\<lambda>r. ?g (?f r)) t"
      by (intro update_twice [OF t(2)]) (auto simp: set_confirmed_def)
    moreover have "table_move t (db_update ?p (\<lambda>r. ?g (?f r)) t)"
      using t(1) b none k
      by (intro table_move_write [OF moves_apply_queued])
        (auto simp: row_simps, auto simp: same_run_def set_confirmed_def set_status_at_def)
    ultimately show ?thesis by simp
  qed
  then show ?thesis
    by (auto simp: confirmAgentApply_def insertAgentApplyJobTx_def refuse_def Let_def run_update_def split: option.split)
qed

lemma find_planned:
  assumes "db_find (\<lambda>r. r_id r = i \<and> r_status r \<in> {''planned'', ''planned_and_saved''} \<and> Q r) read = Some before"
    and "set read \<subseteq> U" "\<forall>x \<in> U. run_ok x"
  shows "run_ok before \<and> r_status before \<in> {''planned'', ''planned_and_saved''} \<and>
    js_get (r_statusTimestamps before) ''cancel-requested-at'' = None"
proof -
  have "before \<in> U" "r_status before \<in> {''planned'', ''planned_and_saved''}" using db_find_SomeD [OF assms(1)] assms(2) by auto
  with assms(3) show ?thesis using pending_no_cancel [of before] by (auto simp: CANCELED_def)
qed

lemma apply_move:
  assumes t: "\<forall>r \<in> set t. run_ok r" "unique_by r_id t" and U: "set read \<subseteq> U" "\<forall>x \<in> U. run_ok x"
  shows "table_move t (snd (snd (applyRun access policyError gate pool stamp body read t)))"
proof -
  have "table_move t (snd (snd (confirmDirectApply stamp before body t)))"
      "table_move t (snd (snd (confirmAgentApply stamp poolId before body t)))"
    if "db_find (\<lambda>r. r_id r = i \<and> r_status r \<in> {''planned'', ''planned_and_saved''}) read = Some before" for before poolId i
  proof -
    have "db_find (\<lambda>r. r_id r = i \<and> r_status r \<in> {''planned'', ''planned_and_saved''} \<and> True) read = Some before"
      using that by simp
    note b = find_planned [OF this U]
    then show "table_move t (snd (snd (confirmAgentApply stamp poolId before body t)))" by (intro agent_apply_move [OF t]) blast+
    have "table_move t (db_update (\<lambda>r. r_id r = r_id before \<and> r_status r = r_status before)
        (set_confirmed None (js_set ''confirmed-at'' stamp (r_statusTimestamps before))) t)"
      using b by (intro confirm_move [OF t(1)]) simp_all
    then show "table_move t (snd (snd (confirmDirectApply stamp before body t)))"
      by (simp add: confirmDirectApply_def refuse_def Let_def run_update_def)
  qed
  then show ?thesis by (simp add: applyRun_def refuse_def split: sum.split prod.split option.split)
qed

lemma schedule_move:
  assumes t: "\<forall>r \<in> set t. run_ok r" and U: "set read \<subseteq> U" "\<forall>x \<in> U. run_ok x"
  shows "table_move t (snd (snd (scheduleApplyRun access parse show_time now body read t)))"
proof -
  have "table_move t (db_update (\<lambda>r. r_id r = r_id before \<and> r_status r = r_status before)
        (set_confirmed sa (js_set ''scheduled-at'' x (js_set ''confirmed-at'' y (r_statusTimestamps before)))) t)"
    if "db_find (\<lambda>r. r_id r = i \<and> r_status r \<in> {''planned'', ''planned_and_saved''} \<and> \<not> r_planOnly r) read = Some before"
    for before i sa x y
    using find_planned [OF that U] by (intro confirm_move [OF t]) simp_all
  then show ?thesis
    by (simp add: scheduleApplyRun_def refuse_def Let_def run_update_def split: sum.split prod.split option.split)
qed


section \<open>The invariant\<close>

lemma write_moves:
  assumes w: "run_write U t t'" and u: "unique_by r_id t" and U: "set t \<subseteq> U" "\<forall>x \<in> U. run_ok x"
    and same: "\<And>x r. x \<in> U \<Longrightarrow> r \<in> set t \<Longrightarrow> r_id x = r_id r \<Longrightarrow> same_run x r"
  shows "table_move t t' \<or> (\<exists>r. t' = t @ [r] \<and> r_id r \<notin> r_id ` U \<and> r_status r = ''pending'' \<and> \<not> cancel_requested r)"
proof -
  have ok: "\<forall>r \<in> set t. run_ok r" using U by blast
  have due: "run_ok run \<and> r_status run = ''confirmed''" if "set read \<subseteq> U" "run \<in> set (fetchDueScheduledRuns now read)" for run read now
    using in_set_takeD [OF that(2) [unfolded fetchDueScheduledRuns_def]] that(1) U(2) by auto
  show ?thesis
    using w
  proof cases
    case (rw_create r)
    then show ?thesis by (auto simp: cancel_requested_def)
  next
    case (rw_claim run)
    then show ?thesis using claim_local_move [OF ok, of run] same by auto
  next
    case (rw_agent run stamp state)
    then show ?thesis using claim_agent_move [of run t stamp state] same U(2) by auto
  next
    case (rw_unreachable run stamp)
    then show ?thesis using queue_moves(1) [OF ok, of run stamp] U(2) by auto
  next
    case (rw_reject run stamp)
    then show ?thesis using queue_moves(2) [OF ok, of run stamp] U(2) by auto
  next
    case (rw_dispatch read run now stamp)
    then show ?thesis using scheduled_moves(1) [OF ok, of run stamp] due by auto
  next
    case (rw_local read run now stamp)
    then show ?thesis using scheduled_moves(2) [OF ok, of run stamp] due by auto
  next
    case (rw_worker existing i st ha now current jobId stamp o')
    then have "table_move t t'" unfolding rw_worker(1)
      using U(2) same by (intro worker_move [OF ok]) auto
    then show ?thesis ..
  next
    case (rw_apply read access' policyError gate pool stamp body)
    then show ?thesis using apply_move [OF ok u _ U(2)] by auto
  next
    case (rw_schedule read access' parse show_time now body)
    then show ?thesis using schedule_move [OF ok _ U(2)] by auto
  qed (use undo_moves [OF ok] discard_move [OF ok] cancel_move [OF ok] force_cancel_move [OF ok] override_move [OF ok]
      stop_move [OF ok] queue_move [OF ok] in auto)
qed

lemma table_move_rows:
  assumes "table_move t t'"
  obtains p f where "t' = db_update p f t" "\<forall>r \<in> set t. p r \<longrightarrow> row_move t p r (f r)"
  using assms unfolding table_move_def by blast

lemma row_move_same: "row_move t p r r' \<Longrightarrow> same_run r r'"
  by (simp add: row_move_def)

lemma table_move_unique:
  assumes "table_move t t'" "unique_by r_id t"
  shows "unique_by r_id t' \<and> r_id ` set t' = r_id ` set t"
proof -
  from assms(1) obtain p f where t': "t' = db_update p f t" and m': "\<forall>r \<in> set t. p r \<longrightarrow> row_move t p r (f r)"
    by (rule table_move_rows)
  have m: "row_move t p r (f r)" if "r \<in> set t" "p r" for r using m' that by blast
  have "map r_id t' = map r_id t"
    using m by (auto simp: t' db_update_def row_move_def same_run_def)
  with assms(2) show ?thesis unfolding unique_by_def by (metis list.set_map)
qed

lemma table_move_row:
  assumes "table_move t t'" "r' \<in> set t'"
  shows "\<exists>r p. r \<in> set t \<and> (r' = r \<or> row_move t p r r')"
proof -
  from assms(1) obtain p f where t': "t' = db_update p f t" and m': "\<forall>r \<in> set t. p r \<longrightarrow> row_move t p r (f r)"
    by (rule table_move_rows)
  have m: "row_move t p r (f r)" if "r \<in> set t" "p r" for r using m' that by blast
  have "r' \<in> set t \<or> (\<exists>r \<in> set t. p r \<and> r' = f r)" using assms(2) by (auto simp: t' set_db_update)
  with m show ?thesis by blast
qed

lemma table_move_exclusive:
  assumes "table_move t t'" "exclusive t"
  shows "exclusive t'"
proof -
  from assms(1) obtain p f where t': "t' = db_update p f t" and m': "\<forall>r \<in> set t. p r \<longrightarrow> row_move t p r (f r)"
    by (rule table_move_rows)
  have m: "row_move t p r (f r)" if "r \<in> set t" "p r" for r using m' that by blast
  define g where "g = (\<lambda>r. if p r then f r else r)"
  have same: "same_run r (g r)" if "r \<in> set t" for r
    using m [OF that] by (simp add: g_def row_move_def same_run_def)
  have new: "workspace_free t r \<and> p r \<and> (\<forall>x. p x \<longrightarrow> r_id x = r_id r)" if "r \<in> set t" "blocking_run (g r)" "\<not> blocking_run r" for r
  proof (cases "p r")
    case True
    then have "blocking_run (f r)" using that(2) by (simp add: g_def)
    with m [OF that(1) True] that(3) True show ?thesis unfolding row_move_def by blast
  next
    case False
    with that(2,3) show ?thesis by (simp add: g_def)
  qed
  have "r_id (g x) = r_id (g y)"
    if "x \<in> set t" "y \<in> set t" "blocking_run (g x)" "blocking_run (g y)" "r_workspaceId (g x) = r_workspaceId (g y)" for x y
  proof -
    have ws: "r_workspaceId x = r_workspaceId y" and ids: "r_id (g x) = r_id x" "r_id (g y) = r_id y"
      using that(5) same [OF that(1)] same [OF that(2)] unfolding same_run_def by simp_all
    show ?thesis
    proof (cases "blocking_run x \<and> blocking_run y")
      case True
      with assms(2) that(1,2) ws have "r_id x = r_id y" unfolding exclusive_def by blast
      with ids show ?thesis by simp
    next
      case False
      then consider "\<not> blocking_run x" | "\<not> blocking_run y" by blast
      then have "r_id x = r_id y"
      proof cases
        case 1
        note n = new [OF that(1,3) 1]
        then have y: "\<not> blocking_run y" using that(2) ws unfolding workspace_free_def by metis
        have "p y" using new [OF that(2,4) y] by (rule conjunct1 [OF conjunct2])
        with n show ?thesis by metis
      next
        case 2
        note n = new [OF that(2,4) 2]
        then have x: "\<not> blocking_run x" using that(1) ws unfolding workspace_free_def by metis
        have "p x" using new [OF that(1,3) x] by (rule conjunct1 [OF conjunct2])
        with n show ?thesis by metis
      qed
      with ids show ?thesis by simp
    qed
  qed
  then have "\<forall>x \<in> g ` set t. \<forall>y \<in> g ` set t. blocking_run x \<longrightarrow> blocking_run y \<longrightarrow> r_workspaceId x = r_workspaceId y \<longrightarrow> r_id x = r_id y"
    by blast
  then show ?thesis unfolding exclusive_def t' db_update_def set_map g_def .
qed

lemma run_inv_facts:
  assumes "run_inv s"
  shows "unique_by r_id (rw_table s)" "set (rw_table s) \<subseteq> rw_seen s" "x \<in> rw_seen s \<Longrightarrow> run_ok x" "exclusive (rw_table s)"
  using assms unfolding run_inv_def by blast+

lemma inv_write_moves:
  assumes "run_inv s" "run_write (rw_seen s) (rw_table s) t'"
  shows "table_move (rw_table s) t' \<or> (\<exists>r. t' = rw_table s @ [r] \<and> r_id r \<notin> r_id ` rw_seen s \<and>
    r_status r = ''pending'' \<and> \<not> cancel_requested r)"
proof -
  have "unique_by r_id (rw_table s)" "set (rw_table s) \<subseteq> rw_seen s" "\<forall>x \<in> rw_seen s. run_ok x"
    "\<And>x r. x \<in> rw_seen s \<Longrightarrow> r \<in> set (rw_table s) \<Longrightarrow> r_id x = r_id r \<Longrightarrow> same_run x r"
    using assms(1) unfolding run_inv_def by blast+
  then show ?thesis by (rule write_moves [OF assms(2)])
qed

lemma run_inv_step:
  assumes i: "run_inv s" and s': "run_step s s'"
  shows "run_inv s'"
proof -
  let ?U = "rw_seen s" and ?t = "rw_table s"
  from s' obtain t' where w: "run_write ?U ?t t'" and eq: "s' = \<lparr>rw_seen = ?U \<union> set t', rw_table = t'\<rparr>"
    by (auto elim: run_step.cases)
  have u: "unique_by r_id ?t" and sub: "set ?t \<subseteq> ?U" and ids: "r_id ` ?U \<subseteq> r_id ` set ?t" and ok: "\<forall>x \<in> ?U. run_ok x"
    and hist: "\<And>x r. x \<in> ?U \<Longrightarrow> r \<in> set ?t \<Longrightarrow> r_id x = r_id r \<Longrightarrow>
      same_run x r \<and> (r_status x \<in> set CANCELED \<longrightarrow> r_status r \<in> set CANCELED)" and ex: "exclusive ?t"
    using i unfolding run_inv_def by blast+
  have "table_move ?t t' \<or> (\<exists>r. t' = ?t @ [r] \<and> r_id r \<notin> r_id ` ?U \<and> r_status r = ''pending'' \<and> \<not> cancel_requested r)"
    by (rule inv_write_moves [OF i w])
  then show ?thesis
  proof
    assume m: "table_move ?t t'"
    have row: "\<exists>r p. r \<in> set ?t \<and> (r' = r \<or> row_move ?t p r r')" if "r' \<in> set t'" for r'
      using table_move_row [OF m that] .
    have u': "unique_by r_id t'" "r_id ` set t' = r_id ` set ?t" using table_move_unique [OF m u] by blast+
    have ok': "run_ok r'" if r': "r' \<in> set t'" for r'
    proof -
      obtain r p where "r \<in> set ?t" "r' = r \<or> row_move ?t p r r'" using row [OF r'] by blast
      with ok sub show ?thesis unfolding row_move_def run_ok_def by blast
    qed
    have hist': "same_run x r' \<and> (r_status x \<in> set CANCELED \<longrightarrow> r_status r' \<in> set CANCELED)"
      if x: "x \<in> ?U \<union> set t'" and r': "r' \<in> set t'" and id: "r_id x = r_id r'" for x r'
    proof (cases "x \<in> ?U")
      case True
      obtain r p where r: "r \<in> set ?t" "r' = r \<or> row_move ?t p r r'" using row [OF r'] by blast
      then have "same_run r r'" "r_status r \<in> set CANCELED \<longrightarrow> r_status r' \<in> set CANCELED"
        by (auto simp: row_move_def same_run_def)
      then show ?thesis using hist [OF True r(1)] id by (simp add: same_run_def)
    next
      case False
      with x r' id have "x = r'" using u'(1) unique_byD by (metis Un_iff)
      then show ?thesis by (simp add: same_run_def)
    qed
    have "exclusive t'" using m ex by (rule table_move_exclusive)
    moreover have "r_id ` (?U \<union> set t') \<subseteq> r_id ` set t'" using ids u'(2) by auto
    ultimately show ?thesis using u'(1) ok ok' hist' unfolding run_inv_def eq run_world.simps by blast
  next
    assume "\<exists>r. t' = ?t @ [r] \<and> r_id r \<notin> r_id ` ?U \<and> r_status r = ''pending'' \<and> \<not> cancel_requested r"
    then obtain r where r: "t' = ?t @ [r]" "r_id r \<notin> r_id ` ?U" "r_status r = ''pending''" "\<not> cancel_requested r" by blast
    have "r_id r \<notin> r_id ` set ?t" using r(2) sub by blast
    then have u': "unique_by r_id t'" using u r(1) by (simp add: unique_by_append1)
    have "''pending'' \<notin> set WORKSPACE_BLOCKING_RUN_STATUSES" by code_simp
    then have "\<not> blocking_run r" using r(3) by (simp add: blocking_run_def)
    then have e: "exclusive t'" using ex unfolding exclusive_def r(1) set_append list.set by blast
    have k: "\<forall>x \<in> ?U \<union> set t'. run_ok x" using r(3,4) ok sub by (auto simp: r(1) run_ok_def)
    have "same_run x y \<and> (r_status x \<in> set CANCELED \<longrightarrow> r_status y \<in> set CANCELED)"
      if "x \<in> ?U \<union> set t'" "y \<in> set t'" "r_id x = r_id y" for x y
    proof (cases "x = r")
      case True
      then have "y = r" using that(2,3) r(1,2) sub by force
      with True show ?thesis by (simp add: same_run_def)
    next
      case False
      then have x: "x \<in> ?U" using that(1) r(1) sub by auto
      have "y \<noteq> r" using r(2) that(3) imageI [OF x, of r_id] by metis
      then have "y \<in> set ?t" using that(2) r(1) by auto
      with hist [OF x] that(3) show ?thesis by blast
    qed
    then have h: "\<forall>x \<in> ?U \<union> set t'. \<forall>y \<in> set t'. r_id x = r_id y \<longrightarrow>
        same_run x y \<and> (r_status x \<in> set CANCELED \<longrightarrow> r_status y \<in> set CANCELED)" by blast
    have "r_id ` (?U \<union> set t') \<subseteq> r_id ` set t'" using ids unfolding r(1) by auto
    with u' k h e show ?thesis unfolding run_inv_def eq run_world.simps by blast
  qed
qed

interpretation runs: invariant_system run_init run_step run_inv
proof
  show "run_init s \<Longrightarrow> run_inv s" for s
    by (simp add: run_init_def run_inv_def unique_by_def exclusive_def)
qed (rule run_inv_step)


section \<open>A history\<close>

text \<open>Two runs of one workspace: the first is claimed, the claim of the second finds it in progress, the
  first is canceled and then force-canceled.\<close>

definition demo_run :: "string \<Rightarrow> run_row" where
  "demo_run i = \<lparr>r_id = i, r_workspaceId = ''ws'', r_status = ''pending'', r_planOnly = False, r_savePlan = False, r_createdAt = 0,
     r_statusTimestamps = [], r_scheduledAt = None, r_ownerNodeId = None, r_ownerInstanceId = None, r_fencingToken = 0,
     r_leaseExpiresAt = None, r_leaseHeartbeatAt = None, r_executionPhase = None\<rparr>"

definition run_next :: "run_world \<Rightarrow> run_row table \<Rightarrow> run_world" where
  "run_next s t = \<lparr>rw_seen = rw_seen s \<union> set t, rw_table = t\<rparr>"

definition demo_0 :: run_world where "demo_0 = \<lparr>rw_seen = {}, rw_table = []\<rparr>"
definition demo_2 :: run_world where
  "demo_2 = run_next (run_next demo_0 [demo_run ''a'']) [demo_run ''a'', demo_run ''b'']"
definition demo_3 :: run_world where "demo_3 = run_next demo_2 (snd (claimLocalRun (demo_run ''a'') (rw_table demo_2)))"
definition demo_4 :: run_world where "demo_4 = run_next demo_3 (snd (claimLocalRun (demo_run ''b'') (rw_table demo_3)))"
definition demo_claimed :: run_row where "demo_claimed = (demo_run ''a'')\<lparr>r_status := ''fetching''\<rparr>"
definition demo_5 :: run_world where "demo_5 = run_next demo_4 (snd (snd (cancelRun (Inr demo_claimed) ''now'' (rw_table demo_4))))"
definition demo_canceled :: run_row where
  "demo_canceled = demo_claimed\<lparr>r_status := ''canceled'',
     r_statusTimestamps := [(''cancel-requested-at'', ''now''), (''canceled-at'', ''now'')]\<rparr>"
definition demo_6 :: run_world where "demo_6 = run_next demo_5 (snd (snd (forceCancelRun (Inr demo_canceled) (rw_table demo_5))))"

lemma run_stepN: "run_write (rw_seen s) (rw_table s) t \<Longrightarrow> run_step s (run_next s t)"
  unfolding run_next_def by (rule run_stepI)

lemma demo_tables:
  "rw_table demo_3 = [demo_claimed, demo_run ''b'']" "rw_table demo_4 = [demo_claimed, demo_run ''b'']"
  "rw_table demo_5 = [demo_canceled, demo_run ''b'']" "rw_table demo_6 = [demo_canceled\<lparr>r_status := ''force_canceled''\<rparr>, demo_run ''b'']"
  by code_simp+

lemma demo_seen: "demo_run ''a'' \<in> rw_seen demo_2" "demo_run ''b'' \<in> rw_seen demo_3" "demo_claimed \<in> rw_seen demo_4" "demo_canceled \<in> rw_seen demo_5"
proof -
  have sub: "r \<in> set (rw_table (run_next s t)) \<Longrightarrow> r \<in> rw_seen (run_next s t)" for r s t by (simp add: run_next_def)
  show "demo_run ''a'' \<in> rw_seen demo_2" unfolding demo_2_def by (rule sub) (simp add: run_next_def)
  show "demo_run ''b'' \<in> rw_seen demo_3" unfolding demo_3_def
    by (rule sub, fold demo_3_def, simp add: demo_tables)
  show "demo_claimed \<in> rw_seen demo_4" unfolding demo_4_def
    by (rule sub, fold demo_4_def, simp add: demo_tables)
  show "demo_canceled \<in> rw_seen demo_5" unfolding demo_5_def
    by (rule sub, fold demo_5_def, simp add: demo_tables)
qed

lemma demo_steps: "run_step demo_3 demo_4" "run_step demo_4 demo_5" "run_step demo_5 demo_6"
proof -
  show "run_step demo_3 demo_4" unfolding demo_4_def
    by (rule run_stepN, rule rw_claim) (use demo_seen in \<open>simp_all add: demo_run_def\<close>)
  show "run_step demo_4 demo_5" unfolding demo_5_def
    by (rule run_stepN, rule rw_cancel) (use demo_seen in \<open>simp add: read_run_def\<close>)
  show "run_step demo_5 demo_6" unfolding demo_6_def
    by (rule run_stepN, rule rw_force_cancel) (use demo_seen in \<open>simp add: read_run_def\<close>)
qed

lemma demo_reach: "reach run_init run_step demo_2" "reach run_init run_step demo_4" "reach run_init run_step demo_5"
proof -
  have "reach run_init run_step demo_0" by (rule reach_init) (simp add: run_init_def demo_0_def)
  then have 1: "reach run_init run_step (run_next demo_0 [demo_run ''a''])"
    by (rule reach_step) (rule run_stepN, use rw_create [of "demo_run ''a''" "{}" "[]"] in \<open>simp add: demo_0_def demo_run_def\<close>)
  then show 2: "reach run_init run_step demo_2" unfolding demo_2_def
    by (rule reach_step) (rule run_stepN, use rw_create [of "demo_run ''b''" "{demo_run ''a''}" "[demo_run ''a'']"] in
      \<open>simp add: run_next_def demo_0_def, simp add: demo_run_def\<close>)
  have "run_step demo_2 demo_3" unfolding demo_3_def
    by (rule run_stepN, rule rw_claim) (use demo_seen in \<open>simp_all add: demo_run_def\<close>)
  with 2 show 4: "reach run_init run_step demo_4" using demo_steps(1) by (blast intro: reach_step)
  then show "reach run_init run_step demo_5" using demo_steps(2) by (rule reach_step)
qed


section \<open>Properties of the writers\<close>

text \<open>C7: a workspace has one run in progress: however the queue, the workers and the operators interleave
  and however old their reads are, at most one run of a workspace that is not speculative and not a
  saved plan has a blocking status.\<close>

theorem workspace_has_one_run_in_progress:
  assumes "reach run_init run_step s"
    and "x \<in> set (rw_table s)" "y \<in> set (rw_table s)" "blocking_run x" "blocking_run y" "r_workspaceId x = r_workspaceId y"
  shows "x = y"
proof -
  have i: "run_inv s" using assms(1) by (rule runs.reach_inv)
  then have "r_id x = r_id y" using assms(2-6) unfolding run_inv_def exclusive_def by blast
  with i assms(2,3) show ?thesis unfolding run_inv_def by (blast dest: unique_byD)
qed

lemma workspace_has_one_run_in_progress_witness:
  "\<exists>!x. x \<in> set (rw_table demo_4) \<and> blocking_run x \<and> r_workspaceId x = ''ws''"
proof -
  have "demo_claimed \<in> set (rw_table demo_4)" by (simp add: demo_tables)
  moreover have "blocking_run demo_claimed" "r_workspaceId demo_claimed = ''ws''" by code_simp+
  ultimately show ?thesis using workspace_has_one_run_in_progress [OF demo_reach(2)] by metis
qed

text \<open>The moves of a step, row by row.\<close>

lemma step_row:
  assumes "run_inv s" "run_step s s'" "r \<in> set (rw_table s)" "r' \<in> set (rw_table s')" "r_id r' = r_id r"
  shows "r' = r \<or> (\<exists>p. row_move (rw_table s) p r r')"
proof -
  from assms(2) obtain t' where w: "run_write (rw_seen s) (rw_table s) t'" and eq: "rw_table s' = t'"
    by (auto elim: run_step.cases)
  have u: "unique_by r_id (rw_table s)" and sub: "set (rw_table s) \<subseteq> rw_seen s"
    using assms(1) unfolding run_inv_def by blast+
  from inv_write_moves [OF assms(1) w] show ?thesis
  proof
    assume "table_move (rw_table s) t'"
    then obtain x p where x: "x \<in> set (rw_table s)" "r' = x \<or> row_move (rw_table s) p x r'"
      using table_move_row assms(4) eq by metis
    then have "r_id x = r_id r" using assms(5) by (auto simp: row_move_def same_run_def)
    then have "x = r" using u x(1) assms(3) unique_byD by metis
    with x show ?thesis by blast
  next
    assume "\<exists>n. t' = rw_table s @ [n] \<and> r_id n \<notin> r_id ` rw_seen s \<and> r_status n = ''pending'' \<and> \<not> cancel_requested n"
    then have "r' \<in> set (rw_table s)" using assms(3-5) sub eq by fastforce
    then show ?thesis using u assms(3,5) unique_byD by metis
  qed
qed

text \<open>Every write moves a run along the transition table, or makes one of the five moves the table
  does not list.\<close>

theorem writers_follow_table:
  assumes "reach run_init run_step s" "run_step s s'" "r \<in> set (rw_table s)" "r' \<in> set (rw_table s')" "r_id r' = r_id r"
  shows "r_status r' = r_status r \<or> canTransitionRunStatus (r_status r) (r_status r') \<or>
    (r_status r, r_status r') \<in> set OFF_TABLE_MOVES"
proof -
  have "run_inv s" using assms(1) by (rule runs.reach_inv)
  from step_row [OF this assms(2-5)] show ?thesis by (auto simp: row_move_def status_move_def)
qed

lemma writers_follow_table_witness:
  "canTransitionRunStatus ''fetching'' ''canceled'' \<or> (''fetching'', ''canceled'') \<in> set OFF_TABLE_MOVES"
  using writers_follow_table [OF demo_reach(2) demo_steps(2), of demo_claimed demo_canceled]
  by (simp add: demo_tables demo_claimed_def demo_canceled_def demo_run_def)

definition canceled_ids :: "run_world \<Rightarrow> string set" where
  "canceled_ids s = r_id ` {r \<in> set (rw_table s). r_status r \<in> set CANCELED}"

lemma ids_grow:
  assumes "run_inv s" "run_step s s'"
  shows "r_id ` set (rw_table s) \<subseteq> r_id ` set (rw_table s')"
proof -
  from assms(2) obtain t' where w: "run_write (rw_seen s) (rw_table s) t'" and eq: "rw_table s' = t'"
    by (auto elim: run_step.cases)
  from assms(1) have "table_move (rw_table s) t' \<or> (\<exists>r. t' = rw_table s @ [r])"
    using inv_write_moves [OF _ w] by blast
  moreover have "unique_by r_id (rw_table s)" using assms(1) by (rule run_inv_facts)
  ultimately show ?thesis using table_move_unique [of "rw_table s" t'] by (auto simp: eq)
qed

interpretation canceled_runs: monotone_system "\<lambda>s s'. run_inv s \<and> run_step s s'" canceled_ids
proof
  fix s s' assume a: "run_inv s \<and> run_step s s'"
  have "\<exists>r' \<in> set (rw_table s'). r_id r' = r_id r \<and> r_status r' \<in> set CANCELED"
    if r: "r \<in> set (rw_table s)" "r_status r \<in> set CANCELED" for r
  proof -
    have "r_id r \<in> r_id ` set (rw_table s')" using ids_grow [of s s'] a imageI [OF r(1), of r_id] by blast
    then obtain r' where r': "r' \<in> set (rw_table s')" "r_id r' = r_id r" by auto
    then have "r' = r \<or> (\<exists>p. row_move (rw_table s) p r r')" using step_row [OF _ _ r(1) r'] a by blast
    then have "r_status r' \<in> set CANCELED" using r(2) unfolding row_move_def by blast
    with r' show ?thesis by blast
  qed
  then have "\<forall>r \<in> {r \<in> set (rw_table s). r_status r \<in> set CANCELED}. r_id r \<in> canceled_ids s'"
    unfolding canceled_ids_def by (metis (mono_tags, lifting) image_eqI mem_Collect_eq)
  then show "canceled_ids s \<le> canceled_ids s'" unfolding canceled_ids_def [of s] by blast
qed

lemma inv_steps: "run_step\<^sup>*\<^sup>* s s' \<Longrightarrow> run_inv s \<Longrightarrow> (\<lambda>s s'. run_inv s \<and> run_step s s')\<^sup>*\<^sup>* s s'"
proof (induction rule: rtranclp_induct)
  case (step y z)
  then have "run_inv y" using runs.steps_inv by blast
  with step show ?case by (blast intro: rtranclp.rtrancl_into_rtrancl)
qed simp



text \<open>A force-cancel that is accepted always takes a run from canceled to force_canceled, whatever the
  eighteen other statuses its list names, and the transition table has no such move.\<close>

theorem force_cancel_needs_canceled:
  assumes "reach run_init run_step s" "run \<in> rw_seen s"
    and "fst (forceCancelRun (Inr run) (rw_table s)) = Accepted"
  shows "r_status run = ''canceled'' \<and> \<not> canTransitionRunStatus ''canceled'' ''force_canceled''"
proof -
  have "run_inv s" using assms(1) by (rule runs.reach_inv)
  then have ok: "run_ok run" using assms(2) by (rule run_inv_facts)
  have "cancel_requested run \<and> r_status run \<in> set FORCE_CANCELABLE_RUN_STATUSES"
    using assms(3) by (auto simp: forceCancelRun_def refuse_def requiresCancelBeforeForceCancel_def cancel_requested_def split: if_splits)
  moreover have "''force_canceled'' \<notin> set FORCE_CANCELABLE_RUN_STATUSES" "\<not> canTransitionRunStatus ''canceled'' ''force_canceled''"
    by code_simp+
  ultimately show ?thesis using ok by (auto simp: run_ok_def CANCELED_def)
qed

lemma force_cancel_needs_canceled_witness:
  "fst (forceCancelRun (Inr demo_canceled) (rw_table demo_5)) = Accepted \<and> r_status demo_canceled = ''canceled''"
proof -
  have "fst (forceCancelRun (Inr demo_canceled) (rw_table demo_5)) = Accepted" unfolding demo_tables by code_simp
  with force_cancel_needs_canceled [OF demo_reach(3) demo_seen(4)] show ?thesis by blast
qed


section \<open>Refusals\<close>

definition clean :: "run_row table \<Rightarrow> handled \<Rightarrow> bool" where
  "clean t h = (case h of (Refused _ _, effects, t') \<Rightarrow> effects = [] \<and> t' = t | _ \<Rightarrow> True)"

lemma clean_refuse [simp]: "clean t (refuse status detail t)" "clean t (Accepted, effects, t')"
  "clean t (Run_document r, effects, t')" "clean t (Scheduled_document i n, effects, t')"
  by (simp_all add: clean_def refuse_def)

lemma clean_confirm: "clean t (confirmDirectApply stamp before body t)" "clean t (confirmAgentApply stamp poolId before body t)"
  by (simp_all add: confirmDirectApply_def confirmAgentApply_def Let_def split: prod.split option.split)

text \<open>An action that is refused does nothing: no row changes, and no token is revoked, no execution
  stopped, no comment or audit record written.\<close>

theorem refused_action_does_nothing:
  "clean t (discardRun access body t) \<and> clean t (cancelRun access stamp t) \<and> clean t (forceCancelRun access t) \<and>
   clean t (overridePolicy access body checks t) \<and> clean t (applyRun access' policyError gate pool stamp body read t) \<and>
   clean t (scheduleApplyRun access' parse show_time now body read t)"
proof (intro conjI)
  show "clean t (discardRun access body t)"
    by (simp add: discardRun_def Let_def split: sum.split prod.split)
  show "clean t (cancelRun access stamp t)"
    by (simp add: cancelRun_def Let_def split: sum.split prod.split)
  show "clean t (forceCancelRun access t)"
    by (simp add: forceCancelRun_def forceCancelActiveRun_def Let_def split: sum.split prod.split)
  show "clean t (overridePolicy access body checks t)"
    by (simp add: overridePolicy_def Let_def split: sum.split prod.split list.split)
  show "clean t (applyRun access' policyError gate pool stamp body read t)"
    by (simp add: applyRun_def clean_confirm split: sum.split prod.split option.split)
  show "clean t (scheduleApplyRun access' parse show_time now body read t)"
    by (simp add: scheduleApplyRun_def Let_def split: sum.split prod.split option.split)
qed

text \<open>The queue actions are not like that: a queue request that read a queued run stops the execution
  of the run and is then refused when the run has started planning; a force-execute whose run changed
  is refused after it force-canceled the run in front.\<close>

theorem queue_refusal_has_effects:
  "(\<exists>run t. let (reply, effects, t') = queueRun (Inr run) t in
     reply = Refused 409 ''Run is not queued'' \<and> Cancel_execution (r_id run) True \<in> set effects \<and>
     t' = t \<and> map r_status t = [''planning'']) \<and>
   (\<exists>run t between. let (reply, effects, t') = forceExecuteRun (Inr run) t t between t in
     reply = Refused 409 ''Run is not force-executable'' \<and> map r_status t = [''planning'', ''pending''] \<and>
     map r_status t' = [''force_canceled'', ''canceled''])"
proof (intro conjI)
  have "let (reply, effects, t') = queueRun (Inr ((demo_run ''a'')\<lparr>r_status := ''plan_queued''\<rparr>)) [set_status ''planning'' (demo_run ''a'')] in
     reply = Refused 409 ''Run is not queued'' \<and> Cancel_execution (r_id ((demo_run ''a'')\<lparr>r_status := ''plan_queued''\<rparr>)) True \<in> set effects \<and>
     t' = [set_status ''planning'' (demo_run ''a'')] \<and> map r_status [set_status ''planning'' (demo_run ''a'')] = [''planning'']"
    by code_simp
  then show "\<exists>run t. let (reply, effects, t') = queueRun (Inr run) t in
     reply = Refused 409 ''Run is not queued'' \<and> Cancel_execution (r_id run) True \<in> set effects \<and>
     t' = t \<and> map r_status t = [''planning'']" by blast
  let ?t = "[set_status ''planning'' (demo_run ''a''), demo_run ''b'']"
  have "let (reply, effects, t') = forceExecuteRun (Inr (demo_run ''b'')) ?t ?t
       (db_update (\<lambda>r. r_id r = ''b'') (set_status ''canceled'')) ?t in
     reply = Refused 409 ''Run is not force-executable'' \<and> map r_status ?t = [''planning'', ''pending''] \<and>
     map r_status t' = [''force_canceled'', ''canceled'']"
    by code_simp
  then show "\<exists>run t between. let (reply, effects, t') = forceExecuteRun (Inr run) t t between t in
     reply = Refused 409 ''Run is not force-executable'' \<and> map r_status t = [''planning'', ''pending''] \<and>
     map r_status t' = [''force_canceled'', ''canceled'']" by blast
qed

text \<open>A status write is all or nothing: unless it reports success, neither the run nor the outbox
  changes; when it does, the transition was allowed from the status it read, the run it changed still
  had that status under the caller's lease, and a transition that is announced has its event.\<close>

theorem status_write_atomic:
  assumes "updateRunStatus ha now current jobId stamp existing i st s = (res, s')"
  shows "(res \<noteq> Inr True \<longrightarrow> s' = s) \<and>
    (res = Inr True \<longrightarrow> (\<exists>e lease. existing = Some e \<and> (r_status e = st \<or> canTransitionRunStatus (r_status e) st) \<and>
       (ha \<longrightarrow> current = Inr lease) \<and>
       (\<exists>r \<in> set (rs_runs s). runExecutionFenceCondition ha now lease (\<lambda>r. r_id r = i \<and> r_status r = r_status e) r) \<and>
       (\<forall>trigger. status_trigger st = Some trigger \<longrightarrow>
          (\<exists>v \<in> set (ox_events (rs_outbox s')). oe_id v = runNotificationEventId i trigger st))))"
proof (cases existing)
  case None
  with assms show ?thesis by (auto simp: updateRunStatus_def)
next
  case (Some e)
  show ?thesis
  proof (cases "r_status e = st \<or> canTransitionRunStatus (r_status e) st")
    case False
    with assms Some show ?thesis by (auto simp: updateRunStatus_def)
  next
    case True
    then have legal: "\<not> (r_status e \<noteq> st \<and> \<not> canTransitionRunStatus (r_status e) st)" by blast
    let ?p = "\<lambda>lease. runExecutionFenceCondition ha now lease (\<lambda>r. r_id r = i \<and> r_status r = r_status e)"
    let ?f = "set_status_at st (js_set (statusKey st) stamp (r_statusTimestamps e))"
    show ?thesis
    proof (cases "if ha then current else Inr None")
      case (Inl err)
      with assms Some True show ?thesis by (auto simp: updateRunStatus_def)
    next
      case (Inr lease)
      then have cur: "ha \<longrightarrow> current = Inr lease" by (simp split: if_splits)
      show ?thesis
      proof (cases "db_returning (?p lease) ?f (rs_runs s) = []")
        case none: True
        with assms Some True Inr show ?thesis by (auto simp: updateRunStatus_def Let_def)
      next
        case False
        then obtain r where r: "r \<in> set (rs_runs s)" "?p lease r" by (auto simp: db_returning_Nil_iff)
        have ev: "\<exists>v \<in> set (ox_events o'). oe_id v = runNotificationEventId i trigger st"
          if "enqueueRunNotificationOutboxTx jobId i trigger st now o0 = (Inr v, o')" for trigger v o' o0
          using enqueue_again [OF that [unfolded enqueueRunNotificationOutboxTx_def]] db_find_SomeD by fastforce
        have eq: "updateRunStatus ha now current jobId stamp existing i st s =
            (case status_trigger st of None \<Rightarrow> (Inr True, s\<lparr>rs_runs := db_update (?p lease) ?f (rs_runs s)\<rparr>)
             | Some trigger \<Rightarrow> (case enqueueRunNotificationOutboxTx jobId i trigger st now (rs_outbox s) of
                 (Inl err, _) \<Rightarrow> (Inl (Notification_error err), s)
               | (Inr _, outbox) \<Rightarrow> (Inr True, s\<lparr>rs_runs := db_update (?p lease) ?f (rs_runs s), rs_outbox := outbox\<rparr>)))"
          unfolding updateRunStatus_def Some option.case if_not_P [OF legal] Inr sum.case Let_def if_not_P [OF False] by (simp cong: option.case_cong)
        show ?thesis
        proof (cases "status_trigger st")
          case None
          then have "res = Inr True" using assms eq by simp
          with Some True cur r None show ?thesis
            by (intro conjI impI exI [of _ e] exI [of _ lease] bexI [of _ r] allI) simp_all
        next
          case trig: (Some trigger)
          obtain x o' where enq: "enqueueRunNotificationOutboxTx jobId i trigger st now (rs_outbox s) = (x, o')"
            by (rule prod.exhaust)
          show ?thesis
          proof (cases x)
            case (Inl err)
            then show ?thesis using assms eq trig enq by auto
          next
            case v: (Inr v)
            then have "res = Inr True" "rs_outbox s' = o'" using assms eq trig enq by auto
            with ev [OF enq [unfolded v]] Some True cur r trig show ?thesis
              by (intro conjI impI exI [of _ e] exI [of _ lease] bexI [of _ r] allI) simp_all
          qed
        qed
      qed
    qed
  qed
qed

definition demo_write :: "(status_error + bool) \<times> run_sys" where
  "demo_write = updateRunStatus False 0 (Inr None) ''job'' ''now'' (Some (demo_run ''a'')) ''a'' ''errored''
     \<lparr>rs_runs = [demo_run ''a''], rs_outbox = empty_outbox\<rparr>"

lemma status_write_atomic_witness:
  "fst demo_write = Inr True \<and>
   (\<exists>v \<in> set (ox_events (rs_outbox (snd demo_write))). oe_id v = runNotificationEventId ''a'' ''run:errored'' ''errored'')"
proof -
  have "case fst demo_write of Inr b \<Rightarrow> b | _ \<Rightarrow> False" by code_simp
  then have r: "fst demo_write = Inr True" by (simp split: sum.splits)
  have "updateRunStatus False 0 (Inr None) ''job'' ''now'' (Some (demo_run ''a'')) ''a'' ''errored''
     \<lparr>rs_runs = [demo_run ''a''], rs_outbox = empty_outbox\<rparr> = (fst demo_write, snd demo_write)" by (simp add: demo_write_def)
  note a = status_write_atomic [OF this]
  have "status_trigger ''errored'' = Some ''run:errored''" by code_simp
  with a r show ?thesis by blast
qed

end
