(* ===== verification/NamedLocks.thy ===== *)
theory NamedLocks imports Prelude begin

text \<open>
  The named mutexes kept in a table: the lock of \<open>lib/db-lock.ts\<close> and the lease of
  \<open>lib/registry-sync-lease.ts\<close>. Both insert a row or take over an expired one, renew and release it by its
  owner. The contract of such a store is the locale \<open>lease_store\<close>, its exclusion is proved there and both
  are instances. The time is the clock the callers read, one for all of them.
\<close>

section \<open>The contract\<close>

record 's lease_ops =
  lo_acquire :: "string \<Rightarrow> string \<Rightarrow> int \<Rightarrow> 's \<Rightarrow> 's"
  lo_renew :: "string \<Rightarrow> string \<Rightarrow> int \<Rightarrow> 's \<Rightarrow> bool \<times> 's"
  lo_release :: "string \<Rightarrow> string \<Rightarrow> 's \<Rightarrow> 's"
  lo_reap :: "int \<Rightarrow> 's \<Rightarrow> 's"
  lo_holder :: "'s \<Rightarrow> string \<Rightarrow> (string \<times> int) option"
  lo_ttl :: int

text \<open>A world is a clock, a store, and for each caller the last expiry it wrote and has not released.\<close>

record 's lease_world =
  lw_clock :: int
  lw_store :: 's
  lw_until :: "string \<times> string \<Rightarrow> int option"

inductive lease_step :: "'s lease_ops \<Rightarrow> 's lease_world \<Rightarrow> 's lease_world \<Rightarrow> bool" for ops where
  ls_tick: "lw_clock w \<le> now \<Longrightarrow> lease_step ops w (w\<lparr>lw_clock := now\<rparr>)"
| ls_acquire: "s = lo_acquire ops n o' (lw_clock w) (lw_store w) \<Longrightarrow>
    lease_step ops w (w\<lparr>lw_store := s, lw_until := (if lo_holder ops s n = Some (o', lw_clock w + lo_ttl ops)
      then (lw_until w)((n, o') \<mapsto> lw_clock w + lo_ttl ops) else lw_until w)\<rparr>)"
| ls_renew: "lo_renew ops n o' (lw_clock w) (lw_store w) = (ok, s) \<Longrightarrow>
    lease_step ops w (w\<lparr>lw_store := s,
      lw_until := (if ok then (lw_until w)((n, o') \<mapsto> lw_clock w + lo_ttl ops) else lw_until w)\<rparr>)"
| ls_release: "lease_step ops w (w\<lparr>lw_store := lo_release ops n o' (lw_store w), lw_until := (lw_until w)((n, o') := None)\<rparr>)"
| ls_reap: "lease_step ops w (w\<lparr>lw_store := lo_reap ops (lw_clock w) (lw_store w)\<rparr>)"

definition lease_start :: "'s \<Rightarrow> 's lease_world \<Rightarrow> bool" where
  "lease_start s0 w \<longleftrightarrow> lw_store w = s0 \<and> lw_until w = (\<lambda>_. None)"

definition lease_valid :: "'s lease_ops \<Rightarrow> ('s \<Rightarrow> bool) \<Rightarrow> 's lease_world \<Rightarrow> bool" where
  "lease_valid ops ok w \<longleftrightarrow> ok (lw_store w) \<and>
     (\<forall>n o' u. lw_until w (n, o') = Some u \<longrightarrow> lw_clock w \<le> u \<longrightarrow> lo_holder ops (lw_store w) n = Some (o', u))"

locale lease_store =
  fixes ops :: "'s lease_ops" and s0 :: 's and ok :: "'s \<Rightarrow> bool"
  assumes ok_start: "ok s0"
    and ok_acquire: "ok s \<Longrightarrow> ok (lo_acquire ops n o' now s)"
    and ok_renew: "ok s \<Longrightarrow> ok (snd (lo_renew ops n o' now s))"
    and ok_release: "ok s \<Longrightarrow> ok (lo_release ops n o' s)"
    and ok_reap: "ok s \<Longrightarrow> ok (lo_reap ops now s)"
    and holder_acquire: "ok s \<Longrightarrow> lo_holder ops (lo_acquire ops n o' now s) m =
      (if m = n \<and> (\<forall>p e. lo_holder ops s n = Some (p, e) \<longrightarrow> e < now) then Some (o', now + lo_ttl ops) else lo_holder ops s m)"
    and renew_owner: "ok s \<Longrightarrow> fst (lo_renew ops n o' now s) \<longleftrightarrow> (\<exists>e. lo_holder ops s n = Some (o', e))"
    and holder_renew: "ok s \<Longrightarrow> lo_holder ops (snd (lo_renew ops n o' now s)) m =
      (if m = n \<and> (\<exists>e. lo_holder ops s n = Some (o', e)) then Some (o', now + lo_ttl ops) else lo_holder ops s m)"
    and holder_release: "ok s \<Longrightarrow> lo_holder ops (lo_release ops n o' s) m =
      (if m = n \<and> (\<exists>e. lo_holder ops s n = Some (o', e)) then None else lo_holder ops s m)"
    and holder_reap: "ok s \<Longrightarrow> lo_holder ops s m = Some (o', e) \<Longrightarrow> now \<le> e \<Longrightarrow> lo_holder ops (lo_reap ops now s) m = Some (o', e)"
    and ttl_pos: "0 \<le> lo_ttl ops"
begin

lemma valid_start: "lease_start s0 w \<Longrightarrow> lease_valid ops ok w"
  by (simp add: lease_start_def lease_valid_def ok_start)

lemma validD:
  "lease_valid ops ok w \<Longrightarrow> ok (lw_store w)"
  "lease_valid ops ok w \<Longrightarrow> lw_until w (n, p) = Some u \<Longrightarrow> lw_clock w \<le> u \<Longrightarrow> lo_holder ops (lw_store w) n = Some (p, u)"
  by (simp_all add: lease_valid_def)

lemma validI:
  "ok (lw_store w) \<Longrightarrow> (\<And>n p u. lw_until w (n, p) = Some u \<Longrightarrow> lw_clock w \<le> u \<Longrightarrow> lo_holder ops (lw_store w) n = Some (p, u)) \<Longrightarrow>
   lease_valid ops ok w"
  by (simp add: lease_valid_def)

lemma valid_step: "lease_valid ops ok w \<Longrightarrow> lease_step ops w w' \<Longrightarrow> lease_valid ops ok w'"
proof (rotate_tac, induction rule: lease_step.induct)
  case (ls_tick w now)
  then show ?case by (auto intro!: validI dest: validD)
next
  case (ls_acquire s n o' w)
  note k = validD(1) [OF ls_acquire(2)] and v = validD(2) [OF ls_acquire(2)]
  have "lo_holder ops s m = Some (p, u)" if "lw_until w (m, p) = Some u" "lw_clock w \<le> u" for m p u
    using v [OF that] that(2) by (auto simp: ls_acquire(1) holder_acquire [OF k])
  then show ?case using ok_acquire [OF k] by (intro validI) (auto simp: ls_acquire(1) split: if_splits)
next
  case (ls_renew n o' w b s)
  note k = validD(1) [OF ls_renew(2)] and v = validD(2) [OF ls_renew(2)]
  have s: "s = snd (lo_renew ops n o' (lw_clock w) (lw_store w))" "b = fst (lo_renew ops n o' (lw_clock w) (lw_store w))"
    using ls_renew(1) by simp_all
  let ?w = "w\<lparr>lw_store := s, lw_until := (if b then (lw_until w)((n, o') \<mapsto> lw_clock w + lo_ttl ops) else lw_until w)\<rparr>"
  show ?case
  proof (rule validI)
    show "ok (lw_store ?w)" using ok_renew [OF k] by (simp add: s(1))
    fix m p u assume "lw_until ?w (m, p) = Some u" "lw_clock ?w \<le> u"
    then have u: "(if b then (lw_until w)((n, o') \<mapsto> lw_clock w + lo_ttl ops) else lw_until w) (m, p) = Some u" "lw_clock w \<le> u" by simp_all
    show "lo_holder ops (lw_store ?w) m = Some (p, u)"
    proof (cases "b \<and> (m, p) = (n, o')")
      case True
      with u(1) have "u = lw_clock w + lo_ttl ops" by simp
      with True show ?thesis by (simp add: s(1) holder_renew [OF k]) (use True s(2) renew_owner [OF k] in blast)
    next
      case False
      with u have "lw_until w (m, p) = Some u" "lw_clock w \<le> u" by (auto split: if_splits)
      note h = v [OF this]
      then have "\<not> (m = n \<and> (\<exists>e. lo_holder ops (lw_store w) n = Some (o', e)))"
        using False s(2) renew_owner [OF k] by auto
      then have "lo_holder ops s m = lo_holder ops (lw_store w) m" unfolding s(1) holder_renew [OF k] by (rule if_not_P)
      with h show ?thesis by simp
    qed
  qed
next
  case (ls_release w n o')
  note k = validD(1) [OF ls_release] and v = validD(2) [OF ls_release]
  show ?case using v ok_release [OF k] by (intro validI) (auto simp: holder_release [OF k] split: if_splits)
next
  case (ls_reap w)
  note k = validD(1) [OF ls_reap] and v = validD(2) [OF ls_reap]
  show ?case using v ok_reap [OF k] by (intro validI) (auto simp: holder_reap [OF k])
qed

lemma valid_reach: "reach (lease_start s0) (lease_step ops) w \<Longrightarrow> lease_valid ops ok w"
  by (induction rule: reach.induct) (auto intro: valid_start valid_step)

lemma exclusive_owner:
  assumes "reach (lease_start s0) (lease_step ops) w"
    and "lw_until w (n, p) = Some u" "lw_until w (n, q) = Some v" "lw_clock w \<le> u" "lw_clock w \<le> v"
  shows "p = q"
proof -
  note v = validD(2) [OF valid_reach [OF assms(1)]]
  have "lo_holder ops (lw_store w) n = Some (p, u)" using assms(2,4) by (rule v)
  moreover have "lo_holder ops (lw_store w) n = Some (q, v)" using assms(3,5) by (rule v)
  ultimately have "Some (p, u) = Some (q, v)" by (rule trans [OF sym])
  then show ?thesis by simp
qed

text \<open>A holder whose row another caller took over is told so by its next renewal.\<close>

lemma taken_over_renewal_fails:
  assumes "ok s" "lo_holder ops s n = Some (q, e)" "q \<noteq> p"
  shows "\<not> fst (lo_renew ops n p now s)"
  using assms by (simp add: renew_owner)

text \<open>An abandoned row can be taken over once it has expired: no crash blocks a name for good.\<close>

lemma expired_can_be_acquired:
  assumes "ok s" "lo_holder ops s n = Some (q, e)" "e < now"
  shows "lo_holder ops (lo_acquire ops n p now s) n = Some (p, now + lo_ttl ops)"
  using assms by (simp add: holder_acquire)

end


section \<open>The tables\<close>

record lock_row =
  lk_name :: string
  lk_owner :: string
  lk_expiresAt :: int

text \<open>\<open>INSERT .. ON CONFLICT DO UPDATE .. WHERE expires_at < now\<close>, and the row read back.\<close>

definition lock_upsert :: "int \<Rightarrow> string \<Rightarrow> string \<Rightarrow> int \<Rightarrow> lock_row table \<Rightarrow> lock_row table" where
  "lock_upsert ttl name owner now t = (case db_find (\<lambda>r. lk_name r = name) t of
     None \<Rightarrow> t @ [\<lparr>lk_name = name, lk_owner = owner, lk_expiresAt = now + ttl\<rparr>]
   | Some _ \<Rightarrow> db_update (\<lambda>r. lk_name r = name \<and> lk_expiresAt r < now)
       (\<lambda>r. r\<lparr>lk_owner := owner, lk_expiresAt := now + ttl\<rparr>) t)"

definition lock_owned :: "string \<Rightarrow> string \<Rightarrow> lock_row table \<Rightarrow> bool" where
  "lock_owned name owner t = (case db_find (\<lambda>r. lk_name r = name) t of None \<Rightarrow> False | Some row \<Rightarrow> lk_owner row = owner)"

definition lock_renew :: "int \<Rightarrow> string \<Rightarrow> string \<Rightarrow> int \<Rightarrow> lock_row table \<Rightarrow> bool \<times> lock_row table" where
  "lock_renew ttl name owner now t =
    (let p = (\<lambda>r. lk_name r = name \<and> lk_owner r = owner); f = (\<lambda>r. r\<lparr>lk_expiresAt := now + ttl\<rparr>) in
     (length (db_returning p f t) = 1, db_update p f t))"

definition lock_delete :: "string \<Rightarrow> string \<Rightarrow> lock_row table \<Rightarrow> lock_row table" where
  "lock_delete name owner t = db_delete (\<lambda>r. lk_name r = name \<and> lk_owner r = owner) t"

definition lock_holder :: "lock_row table \<Rightarrow> string \<Rightarrow> (string \<times> int) option" where
  "lock_holder t name = map_option (\<lambda>r. (lk_owner r, lk_expiresAt r)) (db_find (\<lambda>r. lk_name r = name) t)"

text \<open>\<open>lib/db-lock.ts\<close>: the claim with what other replicas do (\<open>between\<close>) before the row is read back, the
  wait, and the end of the operation with the renewals that ran during it.\<close>

definition DB_LOCK_TTL_MS :: int where "DB_LOCK_TTL_MS = 30000"
definition DB_LOCK_RETRY_MS :: int where "DB_LOCK_RETRY_MS = 50"
definition DB_LOCK_MAX_WAIT_MS :: int where "DB_LOCK_MAX_WAIT_MS = 30000"
definition DB_LOCK_RENEWAL_MS :: int where "DB_LOCK_RENEWAL_MS = DB_LOCK_TTL_MS div 2"

definition claimLock ::
  "string \<Rightarrow> string \<Rightarrow> int \<Rightarrow> (lock_row table \<Rightarrow> lock_row table) \<Rightarrow> lock_row table \<Rightarrow> bool \<times> lock_row table" where
  "claimLock name owner now between t =
    (let t' = between (lock_upsert DB_LOCK_TTL_MS name owner now t) in (lock_owned name owner t', t'))"

definition renewLock :: "string \<Rightarrow> string \<Rightarrow> int \<Rightarrow> lock_row table \<Rightarrow> bool \<times> lock_row table" where
  "renewLock name owner now t = lock_renew DB_LOCK_TTL_MS name owner now t"

definition releaseLock :: "string \<Rightarrow> string \<Rightarrow> lock_row table \<Rightarrow> lock_row table" where
  "releaseLock name owner t = lock_delete name owner t"

datatype 'e lock_error = Timed_out string | Lock_lost string | Operation_failed 'e

text \<open>The wait loop: the times of its turns with what each claim answered.\<close>

fun lock_wait :: "int \<Rightarrow> (int \<times> bool) list \<Rightarrow> bool" where
  "lock_wait deadline [] = False"
| "lock_wait deadline ((now, claimed) # turns) = (if now < deadline then (if claimed then True else lock_wait deadline turns) else False)"

definition withDbLock ::
  "string \<Rightarrow> string \<Rightarrow> int \<Rightarrow> (int \<times> bool) list \<Rightarrow> 'e + 'a \<Rightarrow> bool list \<Rightarrow> lock_row table \<Rightarrow> ('e lock_error + 'a) \<times> lock_row table" where
  "withDbLock name owner now turns operation renewals t =
    (if lock_wait (now + DB_LOCK_MAX_WAIT_MS) turns
     then ((case operation of
         Inl e \<Rightarrow> Inl (Operation_failed e)
       | Inr result \<Rightarrow> if list_ex Not renewals then Inl (Lock_lost name) else Inr result),
       releaseLock name owner t)
     else (Inl (Timed_out name), t))"

text \<open>\<open>lib/registry-sync-lease.ts\<close>, with the identity of the process as an argument.\<close>

definition REGISTRY_SYNC_LEASE_MS :: int where "REGISTRY_SYNC_LEASE_MS = 600000"
definition REGISTRY_SYNC_RENEWAL_MS :: int where "REGISTRY_SYNC_RENEWAL_MS = 60000"

definition claimRegistrySyncLease ::
  "string \<Rightarrow> string \<Rightarrow> int \<Rightarrow> (lock_row table \<Rightarrow> lock_row table) \<Rightarrow> lock_row table \<Rightarrow> bool \<times> lock_row table" where
  "claimRegistrySyncLease instance_id key now between t =
    (let t' = between (lock_upsert REGISTRY_SYNC_LEASE_MS key instance_id now t) in (lock_owned key instance_id t', t'))"

definition renewRegistrySyncLease :: "string \<Rightarrow> string \<Rightarrow> int \<Rightarrow> lock_row table \<Rightarrow> bool \<times> lock_row table" where
  "renewRegistrySyncLease instance_id key now t = lock_renew REGISTRY_SYNC_LEASE_MS key instance_id now t"

definition releaseRegistrySyncLease :: "string \<Rightarrow> string \<Rightarrow> lock_row table \<Rightarrow> lock_row table" where
  "releaseRegistrySyncLease instance_id key t = lock_delete key instance_id t"

definition reapExpiredRegistrySyncLeases :: "int \<Rightarrow> lock_row table \<Rightarrow> nat \<times> lock_row table" where
  "reapExpiredRegistrySyncLeases now t = (length (filter (\<lambda>r. lk_expiresAt r < now) t), db_delete (\<lambda>r. lk_expiresAt r < now) t)"

record sync_lease =
  sl_key :: string
  sl_alive :: bool
  sl_renewing :: bool

definition acquireSyncLease ::
  "string \<Rightarrow> string \<Rightarrow> int \<Rightarrow> (lock_row table \<Rightarrow> lock_row table) \<Rightarrow> lock_row table \<Rightarrow> sync_lease option \<times> lock_row table" where
  "acquireSyncLease instance_id key now between t = (case claimRegistrySyncLease instance_id key now between t of
     (claimed, t') \<Rightarrow> (if claimed then Some \<lparr>sl_key = key, sl_alive = True, sl_renewing = True\<rparr> else None, t'))"

text \<open>The interval: \<open>None\<close> is a renewal that failed with an error.\<close>

definition renewSyncLease :: "bool option \<Rightarrow> sync_lease \<Rightarrow> sync_lease" where
  "renewSyncLease answer l = (if sl_renewing l \<and> answer \<noteq> Some True then l\<lparr>sl_alive := False\<rparr> else l)"

definition releaseSyncLease :: "string \<Rightarrow> sync_lease \<times> lock_row table \<Rightarrow> sync_lease \<times> lock_row table" where
  "releaseSyncLease instance_id lt = (case lt of (l, t) \<Rightarrow>
     (l\<lparr>sl_renewing := False\<rparr>, releaseRegistrySyncLease instance_id (sl_key l) t))"


section \<open>Both tables keep the contract\<close>

definition table_ops :: "int \<Rightarrow> lock_row table lease_ops" where
  "table_ops ttl = \<lparr>lo_acquire = lock_upsert ttl, lo_renew = lock_renew ttl, lo_release = lock_delete,
     lo_reap = (\<lambda>now t. snd (reapExpiredRegistrySyncLeases now t)), lo_holder = lock_holder, lo_ttl = ttl\<rparr>"

lemma find_name: "db_find (\<lambda>r. lk_name r = m) t = Some r \<Longrightarrow> r \<in> set t \<and> lk_name r = m"
  by (rule db_find_SomeD)

lemma find_name_unique:
  "unique_by lk_name t \<Longrightarrow> r \<in> set t \<Longrightarrow> lk_name r = m \<Longrightarrow> db_find (\<lambda>r. lk_name r = m) t = Some r"
  using db_find_key [of lk_name t r] by simp

lemma lock_store:
  assumes "0 \<le> ttl"
  shows "lease_store (table_ops ttl) [] (unique_by lk_name)"
proof
  fix s :: "lock_row table" and n o' m now p e
  assume u: "unique_by lk_name s"
  show "unique_by lk_name (lo_acquire (table_ops ttl) n o' now s)"
    using u by (auto simp: table_ops_def lock_upsert_def db_find_None_iff split: option.split
        intro!: unique_by_update unique_by_append1)
  show "unique_by lk_name (snd (lo_renew (table_ops ttl) n o' now s))"
    using u by (auto simp: table_ops_def lock_renew_def Let_def intro!: unique_by_update)
  show "unique_by lk_name (lo_release (table_ops ttl) n o' s)" "unique_by lk_name (lo_reap (table_ops ttl) now s)"
    using u by (simp_all add: table_ops_def lock_delete_def reapExpiredRegistrySyncLeases_def unique_by_delete)
  show "lo_holder (table_ops ttl) (lo_acquire (table_ops ttl) n o' now s) m =
      (if m = n \<and> (\<forall>p e. lo_holder (table_ops ttl) s n = Some (p, e) \<longrightarrow> e < now) then Some (o', now + lo_ttl (table_ops ttl))
       else lo_holder (table_ops ttl) s m)"
    by (auto simp: table_ops_def lock_upsert_def lock_holder_def db_find_append db_find_update_key
        dest: find_name split: option.splits)
  have one: "length (db_returning (\<lambda>r. lk_name r = n \<and> lk_owner r = o') f s) = 1 \<longleftrightarrow>
      (\<exists>r. db_find (\<lambda>r. lk_name r = n) s = Some r \<and> lk_owner r = o')" for f
  proof -
    have "db_returning (\<lambda>r. lk_name r = n \<and> lk_owner r = o') f s =
        (case db_find (\<lambda>r. lk_name r = n \<and> lk_owner r = o') s of None \<Rightarrow> [] | Some r \<Rightarrow> [f r])"
      by (rule db_returning_unique [OF u]) simp
    moreover have "(\<exists>r. db_find (\<lambda>r. lk_name r = n \<and> lk_owner r = o') s = Some r) \<longleftrightarrow> (\<exists>r \<in> set s. lk_name r = n \<and> lk_owner r = o')"
      using db_find_None_iff [of "\<lambda>r. lk_name r = n \<and> lk_owner r = o'" s] by auto
    moreover have "(\<exists>r \<in> set s. lk_name r = n \<and> lk_owner r = o') \<longleftrightarrow> (\<exists>r. db_find (\<lambda>r. lk_name r = n) s = Some r \<and> lk_owner r = o')"
      using find_name_unique [OF u] find_name by metis
    ultimately show ?thesis by (auto split: option.splits)
  qed
  show "fst (lo_renew (table_ops ttl) n o' now s) \<longleftrightarrow> (\<exists>e. lo_holder (table_ops ttl) s n = Some (o', e))"
    by (auto simp: table_ops_def lock_renew_def lock_holder_def Let_def one [unfolded One_nat_def])
  show "lo_holder (table_ops ttl) (snd (lo_renew (table_ops ttl) n o' now s)) m =
      (if m = n \<and> (\<exists>e. lo_holder (table_ops ttl) s n = Some (o', e)) then Some (o', now + lo_ttl (table_ops ttl))
       else lo_holder (table_ops ttl) s m)"
    by (cases "m = n"; cases "db_find (\<lambda>r. lk_name r = m) s")
      (auto simp: table_ops_def lock_renew_def lock_holder_def Let_def db_find_update_key dest: find_name)
  show "lo_holder (table_ops ttl) (lo_release (table_ops ttl) n o' s) m =
      (if m = n \<and> (\<exists>e. lo_holder (table_ops ttl) s n = Some (o', e)) then None else lo_holder (table_ops ttl) s m)"
    by (cases "m = n") (auto simp: table_ops_def lock_delete_def lock_holder_def db_find_delete_key [OF u] dest: find_name split: option.splits)
  show "lo_holder (table_ops ttl) s m = Some (o', e) \<Longrightarrow> now \<le> e \<Longrightarrow>
      lo_holder (table_ops ttl) (lo_reap (table_ops ttl) now s) m = Some (o', e)"
    by (auto simp: table_ops_def reapExpiredRegistrySyncLeases_def lock_holder_def db_find_delete_key [OF u])
qed (use assms in \<open>simp_all add: table_ops_def unique_by_def\<close>)

interpretation db_locks: lease_store "table_ops DB_LOCK_TTL_MS" "[]" "unique_by lk_name"
  by (rule lock_store) (simp add: DB_LOCK_TTL_MS_def)

interpretation sync_leases: lease_store "table_ops REGISTRY_SYNC_LEASE_MS" "[]" "unique_by lk_name"
  by (rule lock_store) (simp add: REGISTRY_SYNC_LEASE_MS_def)


text \<open>The claims of the code are the acquisition and the row read back.\<close>

lemma claim_owned:
  assumes "lock_holder t' name = Some (owner, e)"
  shows "lock_owned name owner t'"
  using assms by (auto simp: lock_holder_def lock_owned_def)

text \<open>C35: exclusion of the named locks: however replicas claim, renew, release and crash, two callers whose
  last written expiry has not passed never hold the same name, and a claim that reports success has
  its row.\<close>

theorem named_lock_exclusive:
  assumes "reach (lease_start []) (lease_step (table_ops DB_LOCK_TTL_MS)) w"
    and "lw_until w (n, p) = Some u" "lw_until w (n, q) = Some v" "lw_clock w \<le> u" "lw_clock w \<le> v"
  shows "p = q \<and> lock_owned n p (lw_store w) \<and>
    (p' \<noteq> p \<longrightarrow> \<not> fst (claimLock n p' (lw_clock w) id (lw_store w)) \<and> \<not> fst (renewLock n p' (lw_clock w) (lw_store w)))"
proof -
  let ?c = "lw_clock w" and ?t = "lw_store w"
  note r = db_locks.valid_reach [OF assms(1)]
  have ok: "unique_by lk_name ?t" and h: "lock_holder ?t n = Some (p, u)"
    using db_locks.validD(1) [OF r] db_locks.validD(2) [OF r assms(2,4)] by (simp_all add: table_ops_def)
  have "lock_holder (lock_upsert DB_LOCK_TTL_MS n p' ?c ?t) n = Some (p, u)"
    using db_locks.holder_acquire [OF ok, of n p' ?c n] h assms(4) by (simp add: table_ops_def)
  then have "p' \<noteq> p \<Longrightarrow> \<not> fst (claimLock n p' ?c id ?t)"
    by (auto simp: claimLock_def Let_def lock_owned_def lock_holder_def)
  moreover have "p' \<noteq> p \<Longrightarrow> \<not> fst (renewLock n p' ?c ?t)"
    using db_locks.taken_over_renewal_fails [OF ok, of n p u p' ?c] h by (simp add: table_ops_def renewLock_def)
  ultimately show ?thesis
    using db_locks.exclusive_owner [OF assms] claim_owned [OF h] by blast
qed

definition demo_lock :: "lock_row table lease_world" where
  "demo_lock = \<lparr>lw_clock = 0, lw_store = lock_upsert DB_LOCK_TTL_MS ''n'' ''a'' 0 [], lw_until = (\<lambda>_. None)((''n'', ''a'') \<mapsto> 30000)\<rparr>"

lemma named_lock_exclusive_witness:
  "lock_owned ''n'' ''a'' (lw_store demo_lock) \<and> \<not> fst (claimLock ''n'' ''b'' 0 id (lw_store demo_lock))"
proof -
  let ?w = "\<lparr>lw_clock = 0, lw_store = [], lw_until = (\<lambda>_. None)\<rparr> :: lock_row table lease_world"
  have "reach (lease_start []) (lease_step (table_ops DB_LOCK_TTL_MS)) ?w" by (rule reach_init) (simp add: lease_start_def)
  moreover have "lease_step (table_ops DB_LOCK_TTL_MS) ?w demo_lock"
    using ls_acquire [of "lock_upsert DB_LOCK_TTL_MS ''n'' ''a'' 0 []" "table_ops DB_LOCK_TTL_MS" "''n''" "''a''" ?w]
    by (simp add: demo_lock_def table_ops_def lock_upsert_def lock_holder_def DB_LOCK_TTL_MS_def)
  ultimately have "reach (lease_start []) (lease_step (table_ops DB_LOCK_TTL_MS)) demo_lock" by (rule reach_step)
  moreover have "lw_until demo_lock (''n'', ''a'') = Some 30000" "lw_clock demo_lock = 0" by (simp_all add: demo_lock_def)
  ultimately show ?thesis using named_lock_exclusive [of demo_lock "''n''" "''a''" 30000 "''a''" 30000 "''b''"] by simp
qed

lemma sync_lease_exclusive:
  assumes "reach (lease_start []) (lease_step (table_ops REGISTRY_SYNC_LEASE_MS)) w"
    and "lw_until w (k, p) = Some u" "lw_until w (k, q) = Some v" "lw_clock w \<le> u" "lw_clock w \<le> v"
  shows "p = q"
  using assms by (rule sync_leases.exclusive_owner)

end
