(* ===== verification/Challenges.thy ===== *)
theory Challenges imports JsValues begin

text \<open>
  Single-use login challenges: the store of \<open>lib/sso-challenges.ts\<close> (single sign-on state, SAML ids) and the
  MFA tokens of \<open>lib/mfa-challenge.ts\<close> kept in it. The digest of a password hash is an argument, as are
  the random tokens.
\<close>

section \<open>The store\<close>

record challenge =
  ch_id :: string
  ch_kind :: string
  ch_payload :: "(string, json) js_map"
  ch_expiresAt :: int

definition MAX_CHALLENGES_PER_KIND :: nat where "MAX_CHALLENGES_PER_KIND = 10000"

definition purgeExpiredSsoChallenges :: "int \<Rightarrow> challenge table \<Rightarrow> challenge table" where
  "purgeExpiredSsoChallenges now t = db_delete (\<lambda>c. ch_expiresAt c < now) t"

definition expired_kind :: "string \<Rightarrow> int \<Rightarrow> challenge \<Rightarrow> bool" where
  "expired_kind kind now c \<longleftrightarrow> ch_kind c = kind \<and> ch_expiresAt c < now"

definition trimSsoChallenges :: "string \<Rightarrow> int \<Rightarrow> challenge table \<Rightarrow> challenge table" where
  "trimSsoChallenges kind now t =
    (let t1 = db_delete (expired_kind kind now) t;
         total = length (filter (\<lambda>c. ch_kind c = kind) t1) in
     if total \<le> MAX_CHALLENGES_PER_KIND then t1
     else
       let evicted = take (total - MAX_CHALLENGES_PER_KIND)
             (js_sort (\<lambda>x y. ch_expiresAt x - ch_expiresAt y) (filter (expired_kind kind now) t1)) in
       if evicted \<noteq> [] then db_delete (\<lambda>c. ch_id c \<in> ch_id ` set evicted) t1 else t1)"

text \<open>\<open>INSERT .. ON CONFLICT (id) DO UPDATE .. WHERE kind = \<dots>\<close>.\<close>

definition storeSsoChallenge ::
  "string \<Rightarrow> string \<Rightarrow> (string, json) js_map \<Rightarrow> int \<Rightarrow> int \<Rightarrow> challenge table \<Rightarrow> bool \<times> challenge table" where
  "storeSsoChallenge kind i payload expiresAt now t =
    (case db_find (\<lambda>c. ch_id c = i) t of
       None \<Rightarrow> (True, trimSsoChallenges kind now
         (t @ [\<lparr>ch_id = i, ch_kind = kind, ch_payload = payload, ch_expiresAt = expiresAt\<rparr>]))
     | Some c \<Rightarrow>
         let t' = db_update (\<lambda>c. ch_id c = i \<and> ch_kind c = kind) (\<lambda>c. c\<lparr>ch_payload := payload, ch_expiresAt := expiresAt\<rparr>) t in
         (ch_kind c = kind, trimSsoChallenges kind now t'))"

definition claimSsoChallenge ::
  "string \<Rightarrow> string \<Rightarrow> (string, json) js_map \<Rightarrow> int \<Rightarrow> int \<Rightarrow> challenge table \<Rightarrow> bool \<times> challenge table" where
  "claimSsoChallenge kind i payload expiresAt now t =
    (let t1 = db_delete (expired_kind kind now) t in
     case db_find (\<lambda>c. ch_id c = i) t1 of
       None \<Rightarrow> (True, trimSsoChallenges kind now
         (t1 @ [\<lparr>ch_id = i, ch_kind = kind, ch_payload = payload, ch_expiresAt = expiresAt\<rparr>]))
     | Some _ \<Rightarrow> (False, trimSsoChallenges kind now t1))"

definition clearSsoChallenges :: "string \<Rightarrow> challenge table \<Rightarrow> challenge table" where
  "clearSsoChallenges kind t = db_delete (\<lambda>c. ch_kind c = kind) t"

definition consumeSsoChallenge ::
  "string \<Rightarrow> string \<Rightarrow> int \<Rightarrow> challenge table \<Rightarrow> (string, json) js_map option \<times> challenge table" where
  "consumeSsoChallenge kind i now t =
    (let p = (\<lambda>c. ch_kind c = kind \<and> ch_id c = i \<and> now < ch_expiresAt c) in
     ((case filter p t of [] \<Rightarrow> None | c # _ \<Rightarrow> Some (ch_payload c)), db_delete p t))"


section \<open>MFA challenges\<close>

definition MFA_CHALLENGE_KIND :: string where "MFA_CHALLENGE_KIND = ''mfa-login''"
definition MFA_CHALLENGE_TTL_MS :: int where "MFA_CHALLENGE_TTL_MS = 300000"

record mfa_user =
  mu_id :: string
  mu_passwordHash :: string

datatype mfa_error = Mfa_user_not_found | Mfa_token_collision

definition issueMfaChallenge ::
  "(string \<Rightarrow> string) \<Rightarrow> string \<Rightarrow> string \<Rightarrow> int \<Rightarrow> mfa_user table \<Rightarrow> challenge table \<Rightarrow> (mfa_error + string) \<times> challenge table" where
  "issueMfaChallenge sha256 random userId now users t =
    (case db_find (\<lambda>u. mu_id u = userId) users of
       None \<Rightarrow> (Inl Mfa_user_not_found, t)
     | Some user \<Rightarrow>
         let token = ''mfa-'' @ random in
         (case storeSsoChallenge MFA_CHALLENGE_KIND token
             [(''userId'', JStr userId), (''credential'', JStr (sha256 (mu_passwordHash user)))] (now + MFA_CHALLENGE_TTL_MS) now t of
            (written, t') \<Rightarrow> (if \<not> written then Inl Mfa_token_collision else Inr token, t')))"

definition consumeMfaChallenge ::
  "(string \<Rightarrow> string) \<Rightarrow> string \<Rightarrow> int \<Rightarrow> mfa_user table \<Rightarrow> challenge table \<Rightarrow> string option \<times> challenge table" where
  "consumeMfaChallenge sha256 token now users t =
    (case consumeSsoChallenge MFA_CHALLENGE_KIND token now t of
       (None, t') \<Rightarrow> (None, t')
     | (Some payload, t') \<Rightarrow>
         (case (json_string (js_get payload ''userId''), json_string (js_get payload ''credential'')) of
            (Some userId, Some credential) \<Rightarrow>
              if userId = [] then (None, t')
              else (case db_find (\<lambda>u. mu_id u = userId) users of
                  None \<Rightarrow> (None, t')
                | Some user \<Rightarrow> (if sha256 (mu_passwordHash user) \<noteq> credential then None else Some userId, t'))
          | _ \<Rightarrow> (None, t')))"


section \<open>The operations of a history\<close>

datatype challenge_op =
  Store string string "(string, json) js_map" int
| Claim string string "(string, json) js_map" int
| Consume string string
| Clear string
| Purge

fun challenge_run :: "(int \<times> challenge_op) list \<Rightarrow> challenge table \<Rightarrow> challenge table" where
  "challenge_run [] t = t"
| "challenge_run ((now, Store kind i payload e) # ops) t = challenge_run ops (snd (storeSsoChallenge kind i payload e now t))"
| "challenge_run ((now, Claim kind i payload e) # ops) t = challenge_run ops (snd (claimSsoChallenge kind i payload e now t))"
| "challenge_run ((now, Consume kind i) # ops) t = challenge_run ops (snd (consumeSsoChallenge kind i now t))"
| "challenge_run ((now, Clear kind) # ops) t = challenge_run ops (clearSsoChallenges kind t)"
| "challenge_run ((now, Purge) # ops) t = challenge_run ops (purgeExpiredSsoChallenges now t)"

fun issues :: "string \<Rightarrow> challenge_op \<Rightarrow> bool" where
  "issues i (Store _ j _ _) = (j = i)"
| "issues i (Claim _ j _ _) = (j = i)"
| "issues i _ = False"

lemma trim_eq: "trimSsoChallenges kind now t = db_delete (expired_kind kind now) t"
proof -
  have "filter (expired_kind kind now) (db_delete (expired_kind kind now) t) = []"
    by (simp add: filter_empty_conv)
  then show ?thesis by (simp add: trimSsoChallenges_def Let_def)
qed

lemma store_ids: "ch_id ` set (snd (storeSsoChallenge kind i payload e now t)) \<subseteq> insert i (ch_id ` set t)"
  by (auto simp: storeSsoChallenge_def Let_def trim_eq set_db_update split: option.splits)

lemma claim_ids: "ch_id ` set (snd (claimSsoChallenge kind i payload e now t)) \<subseteq> insert i (ch_id ` set t)"
  by (auto simp: claimSsoChallenge_def Let_def trim_eq split: option.splits)

lemma consume_ids: "ch_id ` set (snd (consumeSsoChallenge kind i now t)) \<subseteq> ch_id ` set t"
  by (auto simp: consumeSsoChallenge_def Let_def)

lemma run_ids:
  "\<not> list_ex (issues i \<circ> snd) ops \<Longrightarrow> i \<notin> ch_id ` set t \<Longrightarrow> i \<notin> ch_id ` set (challenge_run ops t)"
proof (induction ops t rule: challenge_run.induct)
  case (2 now kind j payload e ops t)
  then have "i \<notin> ch_id ` set (snd (storeSsoChallenge kind j payload e now t))" using store_ids [of kind j payload e now t] by auto
  with 2 show ?case by simp
next
  case (3 now kind j payload e ops t)
  then have "i \<notin> ch_id ` set (snd (claimSsoChallenge kind j payload e now t))" using claim_ids [of kind j payload e now t] by auto
  with 3 show ?case by simp
next
  case (4 now kind j ops t)
  then have "i \<notin> ch_id ` set (snd (consumeSsoChallenge kind j now t))" using consume_ids [of kind j now t] by auto
  with 4 show ?case by simp
qed (auto simp: clearSsoChallenges_def purgeExpiredSsoChallenges_def)

lemma unique_run: "unique_by ch_id t \<Longrightarrow> unique_by ch_id (challenge_run ops t)"
proof (induction ops t rule: challenge_run.induct)
  case (2 now kind j payload e ops t)
  have "unique_by ch_id (snd (storeSsoChallenge kind j payload e now t))"
    using 2(2) by (auto simp: storeSsoChallenge_def Let_def trim_eq db_find_None_iff split: option.split
        intro!: unique_by_delete unique_by_update unique_by_append1)
  with 2 show ?case by simp
next
  case (3 now kind j payload e ops t)
  have "unique_by ch_id (snd (claimSsoChallenge kind j payload e now t))"
    using 3(2) by (auto simp: claimSsoChallenge_def Let_def trim_eq db_find_None_iff split: option.split
        intro!: unique_by_delete unique_by_append1)
  with 3 show ?case by simp
qed (simp_all add: consumeSsoChallenge_def clearSsoChallenges_def purgeExpiredSsoChallenges_def Let_def unique_by_delete)

lemma consume_Some:
  assumes "consumeSsoChallenge kind i now t = (Some payload, t')"
  shows "\<exists>c \<in> set t. ch_kind c = kind \<and> ch_id c = i \<and> now < ch_expiresAt c \<and> payload = ch_payload c"
    "t' = db_delete (\<lambda>c. ch_kind c = kind \<and> ch_id c = i \<and> now < ch_expiresAt c) t"
proof -
  let ?f = "filter (\<lambda>c. ch_kind c = kind \<and> ch_id c = i \<and> now < ch_expiresAt c) t"
  from assms obtain c cs where f: "?f = c # cs" "payload = ch_payload c"
    by (auto simp: consumeSsoChallenge_def Let_def split: list.splits)
  have "c \<in> set ?f" by (simp add: f(1))
  with f(2) show "\<exists>c \<in> set t. ch_kind c = kind \<and> ch_id c = i \<and> now < ch_expiresAt c \<and> payload = ch_payload c" by auto
  show "t' = db_delete (\<lambda>c. ch_kind c = kind \<and> ch_id c = i \<and> now < ch_expiresAt c) t"
    using assms by (simp add: consumeSsoChallenge_def Let_def)
qed

text \<open>C34: a challenge is consumed once: after a consumption succeeded, no later consumption of the id
  succeeds, of whatever kind and whatever is stored, claimed, cleared and purged in between, until the
  id itself is issued again.\<close>

theorem challenge_single_use:
  assumes "unique_by ch_id t" "consumeSsoChallenge kind i now t = (Some payload, t')"
    and "\<not> list_ex (issues i \<circ> snd) ops"
  shows "fst (consumeSsoChallenge kind' i now' (challenge_run ops t')) = None"
proof -
  let ?p = "\<lambda>c. ch_kind c = kind \<and> ch_id c = i \<and> now < ch_expiresAt c"
  obtain c where c: "c \<in> set t" "?p c" and t': "t' = db_delete ?p t" using consume_Some [OF assms(2)] by blast
  have "x = c" if "x \<in> set t" "ch_id x = i" for x using unique_byD [OF assms(1) that(1) c(1)] that(2) c(2) by simp
  then have "i \<notin> ch_id ` set t'" using c(2) by (auto simp: t')
  then have "i \<notin> ch_id ` set (challenge_run ops t')" by (rule run_ids [OF assms(3)])
  then have "filter (\<lambda>c. ch_kind c = kind' \<and> ch_id c = i \<and> now' < ch_expiresAt c) (challenge_run ops t') = []"
    by (auto simp: filter_empty_conv)
  then show ?thesis by (simp add: consumeSsoChallenge_def Let_def)
qed

lemma challenge_single_use_witness:
  "fst (consumeSsoChallenge ''k'' ''i'' 2 (challenge_run [(1, Store ''k'' ''j'' [] 9), (1, Purge)]
     (snd (consumeSsoChallenge ''k'' ''i'' 1 [\<lparr>ch_id = ''i'', ch_kind = ''k'', ch_payload = [], ch_expiresAt = 5\<rparr>])))) = None"
proof -
  let ?t = "[\<lparr>ch_id = ''i'', ch_kind = ''k'', ch_payload = [], ch_expiresAt = 5\<rparr>]"
  have "consumeSsoChallenge ''k'' ''i'' 1 ?t = (Some [], snd (consumeSsoChallenge ''k'' ''i'' 1 ?t))"
    by (simp add: consumeSsoChallenge_def)
  then show ?thesis by (rule challenge_single_use [rotated]) (simp_all add: unique_by_def)
qed

text \<open>A password change ends the logins that wait for their second factor: a token is honoured only for
  the user it was issued to, while the digest of the user's password hash is still the one it was
  issued under.\<close>

theorem mfa_bound_to_password:
  assumes "issueMfaChallenge sha256 random userId now users t = (Inr token, t')"
    and "consumeMfaChallenge sha256 token now' users' t' = (Some userId', t'')"
  shows "userId' = userId \<and> now' < now + MFA_CHALLENGE_TTL_MS \<and>
    (\<exists>u u'. db_find (\<lambda>u. mu_id u = userId) users = Some u \<and> db_find (\<lambda>u. mu_id u = userId) users' = Some u' \<and>
       sha256 (mu_passwordHash u') = sha256 (mu_passwordHash u))"
proof -
  from assms(1) obtain u where u: "db_find (\<lambda>u. mu_id u = userId) users = Some u" and tok: "token = ''mfa-'' @ random"
    and w: "storeSsoChallenge MFA_CHALLENGE_KIND token
      [(''userId'', JStr userId), (''credential'', JStr (sha256 (mu_passwordHash u)))] (now + MFA_CHALLENGE_TTL_MS) now t = (True, t')"
    by (auto simp: issueMfaChallenge_def Let_def split: option.splits prod.splits if_splits)
  let ?pay = "[(''userId'', JStr userId), (''credential'', JStr (sha256 (mu_passwordHash u)))]"
  have row: "ch_payload c = ?pay \<and> ch_expiresAt c = now + MFA_CHALLENGE_TTL_MS"
    if "c \<in> set t'" "ch_id c = token" "ch_kind c = MFA_CHALLENGE_KIND" for c
  proof (cases "db_find (\<lambda>c. ch_id c = token) t")
    case None
    from w None have "c \<in> set t \<or> c = \<lparr>ch_id = token, ch_kind = MFA_CHALLENGE_KIND, ch_payload = ?pay, ch_expiresAt = now + MFA_CHALLENGE_TTL_MS\<rparr>"
      using that(1) by (auto simp: storeSsoChallenge_def trim_eq)
    moreover have "c \<notin> set t" using None that(2) by (auto simp: db_find_None_iff)
    ultimately have "c = \<lparr>ch_id = token, ch_kind = MFA_CHALLENGE_KIND, ch_payload = ?pay, ch_expiresAt = now + MFA_CHALLENGE_TTL_MS\<rparr>"
      by blast
    then show ?thesis by simp
  next
    case (Some d)
    let ?P = "\<lambda>c. ch_id c = token \<and> ch_kind c = MFA_CHALLENGE_KIND"
    let ?F = "\<lambda>c. c\<lparr>ch_payload := ?pay, ch_expiresAt := now + MFA_CHALLENGE_TTL_MS\<rparr>"
    from w Some have "t' = db_delete (expired_kind MFA_CHALLENGE_KIND now) (db_update ?P ?F t)"
      by (simp add: storeSsoChallenge_def Let_def trim_eq)
    then have "c \<in> set (db_update ?P ?F t)" using that(1) by simp
    then have "c \<in> ?F ` {r \<in> set t. ?P r}" using that(2,3) unfolding set_db_update by blast
    then show ?thesis by auto
  qed
  from assms(2) obtain payload where p: "consumeSsoChallenge MFA_CHALLENGE_KIND token now' t' = (Some payload, t'')"
    and rest: "json_string (js_get payload ''userId'') = Some userId'"
      "\<exists>u' cred. json_string (js_get payload ''credential'') = Some cred \<and>
         db_find (\<lambda>u. mu_id u = userId') users' = Some u' \<and> sha256 (mu_passwordHash u') = cred"
    by (auto simp: consumeMfaChallenge_def split: prod.splits option.splits if_splits)
  from p obtain c where "c \<in> set t'" "ch_id c = token" "ch_kind c = MFA_CHALLENGE_KIND" "now' < ch_expiresAt c" "payload = ch_payload c"
    using consume_Some(1) by blast
  with row have c: "payload = ?pay" "now' < now + MFA_CHALLENGE_TTL_MS" by auto
  then have "userId' = userId" using rest(1) by (simp add: json_string_def)
  with c rest(2) u show ?thesis by (auto simp: json_string_def)
qed

definition demo_users :: "mfa_user table" where "demo_users = [\<lparr>mu_id = ''u'', mu_passwordHash = ''h''\<rparr>]"

lemma mfa_bound_to_password_witness:
  "\<exists>t'. issueMfaChallenge rev ''r'' ''u'' 0 demo_users [] = (Inr ''mfa-r'', t') \<and>
     fst (consumeMfaChallenge rev ''mfa-r'' 9 demo_users t') = Some ''u'' \<and> (9 :: int) < 0 + MFA_CHALLENGE_TTL_MS"
proof -
  let ?i = "issueMfaChallenge rev ''r'' ''u'' 0 demo_users []"
  let ?c = "consumeMfaChallenge rev ''mfa-r'' 9 demo_users (snd ?i)"
  have "fst ?i = Inr ''mfa-r''" "fst ?c = Some ''u''" by code_simp+
  then have i: "?i = (Inr ''mfa-r'', snd ?i)" and c: "?c = (Some ''u'', snd ?c)" by (metis prod.collapse)+
  show ?thesis using mfa_bound_to_password [OF i c] i c by (intro exI [of _ "snd ?i"]) (metis fst_conv)
qed

text \<open>The cap on the rows of a kind is never enforced: the eviction looks for rows the statement before it
  has just deleted.\<close>

theorem trim_only_purges: "trimSsoChallenges kind now t = db_delete (expired_kind kind now) t"
  by (rule trim_eq)

end
