(* ===== verification/LoginGuards.thy ===== *)
theory LoginGuards imports JsValues begin

text \<open>
  Brute-force protection: the account lockout of \<open>lib/login-lockout.ts\<close>, whose update is one SQL statement
  on the user's row, and the fixed-window counters of \<open>lib/distributed-rate-limit.ts\<close> on PostgreSQL.
\<close>

section \<open>Account lockout\<close>

definition LOGIN_FAILURE_THRESHOLD :: int where "LOGIN_FAILURE_THRESHOLD = 5"
definition LOGIN_FAILURE_WINDOW_MS :: int where "LOGIN_FAILURE_WINDOW_MS = 15 * 60 * 1000"
definition LOGIN_LOCKOUT_MS :: int where "LOGIN_LOCKOUT_MS = 15 * 60 * 1000"

record login_row =
  lg_id :: string
  lg_failedAttempts :: int
  lg_windowStartedAt :: "int option"
  lg_lockedUntil :: "int option"

definition isLoginLocked :: "login_row \<Rightarrow> int \<Rightarrow> bool" where
  "isLoginLocked user now = (case lg_lockedUntil user of None \<Rightarrow> False | Some u \<Rightarrow> now < u)"

definition windowExpired :: "int \<Rightarrow> login_row \<Rightarrow> bool" where
  "windowExpired now user = (case lg_windowStartedAt user of None \<Rightarrow> True | Some s \<Rightarrow> s \<le> now - LOGIN_FAILURE_WINDOW_MS)"

definition failed_login :: "int \<Rightarrow> login_row \<Rightarrow> login_row" where
  "failed_login now user =
    (let expired = windowExpired now user;
         attempts = lg_failedAttempts user + 1 in
     user\<lparr>lg_failedAttempts := (if expired then 1 else attempts),
       lg_windowStartedAt := (if expired then Some now else lg_windowStartedAt user),
       lg_lockedUntil := (if isLoginLocked user now then lg_lockedUntil user
         else if expired then None
         else if LOGIN_FAILURE_THRESHOLD \<le> attempts then Some (now + LOGIN_LOCKOUT_MS)
         else lg_lockedUntil user)\<rparr>)"

definition recordFailedLogin :: "string \<Rightarrow> int \<Rightarrow> login_row table \<Rightarrow> (int \<times> int option) \<times> login_row table" where
  "recordFailedLogin userId now t =
    (let p = (\<lambda>u. lg_id u = userId) in
     ((case db_returning p (failed_login now) t of
         [] \<Rightarrow> (0, None)
       | row # _ \<Rightarrow> (lg_failedAttempts row, lg_lockedUntil row)), db_update p (failed_login now) t))"

definition clearLoginFailures :: "string \<Rightarrow> int \<Rightarrow> login_row table \<Rightarrow> bool \<times> login_row table" where
  "clearLoginFailures userId now t =
    (let p = (\<lambda>u. lg_id u = userId \<and> (case lg_lockedUntil u of None \<Rightarrow> True | Some e \<Rightarrow> e \<le> now));
         f = (\<lambda>u. u\<lparr>lg_failedAttempts := 0, lg_windowStartedAt := None, lg_lockedUntil := None\<rparr>) in
     (db_returning p f t \<noteq> [], db_update p f t))"

text \<open>What happens to one account: failures and successful logins that clear them.\<close>

datatype login_event = Failure | Success

fun login_run :: "(int \<times> login_event) list \<Rightarrow> login_row \<Rightarrow> login_row" where
  "login_run [] u = u"
| "login_run ((now, Failure) # es) u = login_run es (hd (snd (recordFailedLogin (lg_id u) now [u])))"
| "login_run ((now, Success) # es) u = login_run es (hd (snd (clearLoginFailures (lg_id u) now [u])))"

definition fresh_login :: "login_row \<Rightarrow> bool" where
  "fresh_login u \<longleftrightarrow> lg_failedAttempts u = 0 \<and> lg_windowStartedAt u = None \<and> lg_lockedUntil u = None"

lemma run_failure: "login_run ((now, Failure) # es) u = login_run es (failed_login now u)"
  by (simp add: recordFailedLogin_def Let_def)

lemma failures_in_window:
  assumes "lg_windowStartedAt u = Some s" "lg_failedAttempts u = k" "lg_lockedUntil u = (if 5 \<le> k then Some l else None)"
    and "sorted ts" "\<forall>t \<in> set ts. s \<le> t \<and> t < s + LOGIN_FAILURE_WINDOW_MS" "5 \<le> k \<longrightarrow> s + LOGIN_LOCKOUT_MS \<le> l"
  shows "lg_failedAttempts (fold failed_login ts u) = k + int (length ts) \<and>
    (if 5 \<le> k + int (length ts) then \<exists>l. lg_lockedUntil (fold failed_login ts u) = Some l \<and> s + LOGIN_LOCKOUT_MS \<le> l
     else lg_lockedUntil (fold failed_login ts u) = None)"
  using assms
proof (induction ts arbitrary: u k l)
  case (Cons t ts)
  have w: "\<not> windowExpired t u" using Cons.prems by (simp add: windowExpired_def)
  define l' where "l' = (if 5 \<le> k then l else t + LOGIN_LOCKOUT_MS)"
  have "t < l" if "5 \<le> k" using Cons.prems that by (fastforce simp: LOGIN_LOCKOUT_MS_def LOGIN_FAILURE_WINDOW_MS_def)
  then have f: "lg_windowStartedAt (failed_login t u) = Some s" "lg_failedAttempts (failed_login t u) = k + 1"
    "lg_lockedUntil (failed_login t u) = (if 5 \<le> k + 1 then Some l' else None)"
    using w Cons.prems by (auto simp: failed_login_def Let_def isLoginLocked_def LOGIN_FAILURE_THRESHOLD_def l'_def)
  have "5 \<le> k + 1 \<longrightarrow> s + LOGIN_LOCKOUT_MS \<le> l'" using Cons.prems by (auto simp: l'_def)
  from Cons.IH [OF f _ _ this] Cons.prems show ?case by (simp add: add.assoc)
qed auto

lemma login_run_failures: "login_run (map (\<lambda>t. (t, Failure)) ts) u = fold failed_login ts u"
  by (induction ts arbitrary: u) (simp_all add: run_failure del: login_run.simps(2))

text \<open>The fifth failure locks: after failures within one window, from an account without failures, the
  account is locked exactly when there were five or more, and then until at least the end of the
  window; four failures never lock.\<close>

theorem lock_iff_five_failures:
  assumes "fresh_login u" "sorted (t0 # ts)" "\<forall>t \<in> set ts. t < t0 + LOGIN_FAILURE_WINDOW_MS" "now \<in> set (t0 # ts)"
  shows "isLoginLocked (login_run (map (\<lambda>t. (t, Failure)) (t0 # ts)) u) now \<longleftrightarrow> 5 \<le> length (t0 # ts)"
proof -
  let ?u = "failed_login t0 u"
  have "lg_windowStartedAt ?u = Some t0" "lg_failedAttempts ?u = 1" "lg_lockedUntil ?u = (if 5 \<le> (1::int) then Some 0 else None)"
    using assms(1) by (simp_all add: failed_login_def Let_def windowExpired_def isLoginLocked_def fresh_login_def)
  from failures_in_window [OF this] assms(2,3)
  have "if 5 \<le> 1 + int (length ts) then \<exists>l. lg_lockedUntil (fold failed_login ts ?u) = Some l \<and> t0 + LOGIN_LOCKOUT_MS \<le> l
     else lg_lockedUntil (fold failed_login ts ?u) = None" by auto
  moreover have "now < t0 + LOGIN_LOCKOUT_MS" using assms(3,4) by (auto simp: LOGIN_LOCKOUT_MS_def LOGIN_FAILURE_WINDOW_MS_def)
  moreover have "login_run (map (\<lambda>t. (t, Failure)) (t0 # ts)) u = fold failed_login ts ?u"
    using login_run_failures [of "t0 # ts" u] by simp
  ultimately show ?thesis by (auto simp: isLoginLocked_def split: if_splits)
qed

definition demo_login :: login_row where
  "demo_login = \<lparr>lg_id = ''u'', lg_failedAttempts = 0, lg_windowStartedAt = None, lg_lockedUntil = None\<rparr>"

lemma lock_iff_five_failures_witness:
  "isLoginLocked (login_run (map (\<lambda>t. (t, Failure)) [1, 2, 3, 4, 5]) demo_login) 5"
  using lock_iff_five_failures [of demo_login 1 "[2, 3, 4, 5]" 5]
  by (simp add: fresh_login_def demo_login_def LOGIN_FAILURE_WINDOW_MS_def)

text \<open>A racing login cannot lift a lock: while the account is locked, neither a successful login that
  clears failures nor another failure moves the end of the lock.\<close>

theorem lock_holds_until_expiry:
  assumes "lg_lockedUntil u = Some l" "\<forall>(now, e) \<in> set es. now < l"
  shows "lg_lockedUntil (login_run es u) = Some l"
  using assms
proof (induction es arbitrary: u)
  case (Cons x es)
  obtain now e where x: "x = (now, e)" by (cases x)
  have "now < l" using Cons.prems(2) by (auto simp: x)
  then have "lg_lockedUntil (failed_login now u) = Some l"
    "clearLoginFailures (lg_id u) now [u] = (False, [u])"
    using Cons.prems(1) by (simp_all add: failed_login_def Let_def isLoginLocked_def clearLoginFailures_def)
  then show ?case using Cons.IH Cons.prems by (cases e) (simp_all add: x run_failure del: login_run.simps(2))
qed simp

lemma lock_holds_until_expiry_witness:
  "lg_lockedUntil (login_run [(3, Success), (4, Failure)] (demo_login\<lparr>lg_lockedUntil := Some 9\<rparr>)) = Some 9"
  using lock_holds_until_expiry [of "demo_login\<lparr>lg_lockedUntil := Some 9\<rparr>" 9 "[(3, Success), (4, Failure)]"] by simp


section \<open>Fixed windows\<close>

record rate_bucket =
  rb_bucket :: string
  rb_windowStart :: int
  rb_count :: nat

definition window_start :: "int \<Rightarrow> int \<Rightarrow> int" where
  "window_start duration now = now - now mod duration"

definition bucket_key :: "string \<Rightarrow> string \<Rightarrow> string" where
  "bucket_key prefix key = prefix @ '':'' @ key"

text \<open>The upsert; the count it returns.\<close>

definition rate_upsert :: "string \<Rightarrow> int \<Rightarrow> rate_bucket table \<Rightarrow> nat \<times> rate_bucket table" where
  "rate_upsert bucket start t = (case db_find (\<lambda>b. rb_bucket b = bucket) t of
     None \<Rightarrow> (1, t @ [\<lparr>rb_bucket = bucket, rb_windowStart = start, rb_count = 1\<rparr>])
   | Some b \<Rightarrow>
       let n = (if rb_windowStart b = start then rb_count b + 1 else 1) in
       (n, db_update (\<lambda>b. rb_bucket b = bucket) (\<lambda>b. b\<lparr>rb_count := n, rb_windowStart := start\<rparr>) t))"

record rate_context =
  rc_prefix :: string
  rc_duration :: int
  rc_lastPruned :: "int option"

definition rate_init :: "int option \<Rightarrow> rate_context \<Rightarrow> rate_context" where
  "rate_init duration c = (case duration of Some d \<Rightarrow> (if 0 < d then c\<lparr>rc_duration := d\<rparr> else c) | None \<Rightarrow> c)"

text \<open>\<open>up\<close> says whether the database answers. The result is the count, the end of the window and its start.\<close>

definition rate_increment ::
  "bool \<Rightarrow> string \<Rightarrow> int option \<Rightarrow> int \<Rightarrow> rate_context \<times> rate_bucket table \<Rightarrow> (nat \<times> int \<times> int) \<times> rate_context \<times> rate_bucket table" where
  "rate_increment up key requestDuration now ct = (case ct of (c, t) \<Rightarrow>
     let duration = js_default requestDuration (rc_duration c);
         start = window_start duration now;
         (n, t1) = (if up then rate_upsert (bucket_key (rc_prefix c) key) start t else (1, t));
         prune = (\<lambda>b. take (length (rc_prefix c) + 1) (rb_bucket b) = rc_prefix c @ '':'' \<and> rb_windowStart b < start - duration * 10) in
     ((n, start + duration, start),
      (if rc_lastPruned c \<noteq> Some start then (c\<lparr>rc_lastPruned := Some start\<rparr>, if up then db_delete prune t1 else t1) else (c, t1))))"

definition rate_reset_key :: "string \<Rightarrow> rate_context \<Rightarrow> rate_bucket table \<Rightarrow> rate_bucket table" where
  "rate_reset_key key c t = db_delete (\<lambda>b. rb_bucket b = bucket_key (rc_prefix c) key) t"

definition counted :: "string \<Rightarrow> int \<Rightarrow> rate_context \<times> rate_bucket table \<Rightarrow> nat" where
  "counted key start s = (case db_find (\<lambda>b. rb_bucket b = bucket_key (rc_prefix (fst s)) key) (snd s) of
     None \<Rightarrow> 0 | Some b \<Rightarrow> if rb_windowStart b = start then rb_count b else 0)"

lemma bucket_key_eq [simp]: "bucket_key p k = bucket_key p k' \<longleftrightarrow> k = k'"
  by (simp add: bucket_key_def)

lemma rate_increment_context:
  "rate_increment up k d now (c, t) = (r, (c', t')) \<Longrightarrow> rc_prefix c' = rc_prefix c \<and> rc_duration c' = rc_duration c"
  by (auto simp: rate_increment_def Let_def split: prod.splits if_splits)

lemma upsert_same_key:
  "rate_upsert (bucket_key p k) start t = (n, t') \<Longrightarrow>
    n = (case db_find (\<lambda>b. rb_bucket b = bucket_key p k) t of None \<Rightarrow> 0 | Some b \<Rightarrow> if rb_windowStart b = start then rb_count b else 0) + 1 \<and>
    db_find (\<lambda>b. rb_bucket b = bucket_key p k) t' = Some \<lparr>rb_bucket = bucket_key p k, rb_windowStart = start, rb_count = n\<rparr>"
  by (auto simp: rate_upsert_def Let_def db_find_update_key db_find_append dest: db_find_SomeD split: option.splits if_splits)

lemma upsert_other_key:
  "k' \<noteq> k \<Longrightarrow> rate_upsert (bucket_key p k') start t = (n, t') \<Longrightarrow>
    db_find (\<lambda>b. rb_bucket b = bucket_key p k) t' = db_find (\<lambda>b. rb_bucket b = bucket_key p k) t"
  by (auto simp: rate_upsert_def Let_def db_find_append intro!: db_find_update_other split: option.splits if_splits)

lemma upsert_unique: "unique_by rb_bucket t \<Longrightarrow> rate_upsert k start t = (n, t') \<Longrightarrow> unique_by rb_bucket t'"
  by (auto simp: rate_upsert_def Let_def db_find_None_iff intro!: unique_by_update unique_by_append1 split: option.splits)

text \<open>One request, seen from the counter of \<open>key\<close> in the window that starts at \<open>start\<close>.\<close>

definition rate_ok :: "int \<Rightarrow> rate_context \<times> rate_bucket table \<Rightarrow> bool" where
  "rate_ok d s \<longleftrightarrow> unique_by rb_bucket (snd s) \<and> rc_duration (fst s) = d"

lemma rate_step:
  assumes "rate_ok d s" "window_start d now \<le> start + d * 10" "k = key \<Longrightarrow> window_start d now = start" "0 < d"
    and "rate_increment True k None now s = ((n, e), s')"
  shows "rate_ok d s' \<and> counted key start s' = (if k = key then counted key start s + 1 else counted key start s) \<and>
    (k = key \<longrightarrow> n = counted key start s + 1)"
proof -
  obtain c t where s: "s = (c, t)" by (cases s)
  obtain m t1 where u: "rate_upsert (bucket_key (rc_prefix c) k) (window_start d now) t = (m, t1)" by fastforce
  have d: "rc_duration c = d" and t: "unique_by rb_bucket t" using assms(1) by (simp_all add: s rate_ok_def)
  define prune where "prune = (\<lambda>b :: rate_bucket. take (length (rc_prefix c) + 1) (rb_bucket b) = rc_prefix c @ '':'' \<and>
    rb_windowStart b < window_start d now - d * 10)"
  have r: "n = m" "s' = (if rc_lastPruned c \<noteq> Some (window_start d now)
      then (c\<lparr>rc_lastPruned := Some (window_start d now)\<rparr>, db_delete prune t1) else (c, t1))"
    using assms(5) u by (auto simp: s rate_increment_def d Let_def prune_def split: if_splits)
  have t1: "unique_by rb_bucket t1" using upsert_unique [OF t u] .
  have keep: "rb_windowStart b = start \<Longrightarrow> \<not> prune b" for b using assms(2) by (simp add: prune_def)
  have ok: "rate_ok d s'" using t1 d by (auto simp: r rate_ok_def unique_by_delete)
  have "counted key start s' = counted key start (c, t1)"
    using db_find_delete_key [OF t1, of "bucket_key (rc_prefix c) key" prune] keep
    by (auto simp: r counted_def split: option.splits)
  moreover have "counted key start (c, t1) = m \<and> m = counted key start (c, t) + 1" if "k = key"
    using upsert_same_key [of "rc_prefix c" k _ t m t1] u assms(3) that by (simp add: counted_def)
  moreover have "counted key start (c, t1) = counted key start (c, t)" if "k \<noteq> key"
    using upsert_other_key [OF that u] by (simp add: counted_def)
  ultimately show ?thesis using ok by (simp add: s r)
qed

text \<open>
  The process-local limiter of \<open>app.ts\<close>: one window per duration, opened by its first request.
\<close>

record local_window =
  lw_counts :: "string \<rightharpoonup> nat"
  lw_start :: int
  lw_resetAt :: int

record local_context =
  lc_default :: int
  lc_windows :: "int \<rightharpoonup> local_window"

definition SENSITIVE_RATE_DURATION_MS :: int where "SENSITIVE_RATE_DURATION_MS = 60000"

definition local_init :: "int option \<Rightarrow> local_context" where
  "local_init duration = \<lparr>lc_default = (case duration of Some d \<Rightarrow> if 0 < d then d else SENSITIVE_RATE_DURATION_MS
     | None \<Rightarrow> SENSITIVE_RATE_DURATION_MS), lc_windows = Map.empty\<rparr>"

definition validDuration :: "int option \<Rightarrow> local_context \<Rightarrow> int" where
  "validDuration candidate c = (case candidate of Some d \<Rightarrow> if 0 < d then d else lc_default c | None \<Rightarrow> lc_default c)"

definition windowFor :: "int \<Rightarrow> int \<Rightarrow> local_context \<Rightarrow> local_window" where
  "windowFor duration now c = (case lc_windows c duration of Some w \<Rightarrow> w
     | None \<Rightarrow> \<lparr>lw_counts = Map.empty, lw_start = now, lw_resetAt = now + duration\<rparr>)"

definition resetExpiredWindow :: "int \<Rightarrow> int \<Rightarrow> local_window \<Rightarrow> local_window" where
  "resetExpiredWindow duration now w = (if now < lw_resetAt w then w
     else \<lparr>lw_counts = Map.empty, lw_start = now, lw_resetAt = now + duration\<rparr>)"

definition local_increment :: "string \<Rightarrow> int option \<Rightarrow> int \<Rightarrow> local_context \<Rightarrow> (nat \<times> int \<times> int) \<times> local_context" where
  "local_increment key requestDuration now c =
    (let d = validDuration requestDuration c;
         w = resetExpiredWindow d now (windowFor d now c);
         n = js_default (lw_counts w key) 0 + 1 in
     ((n, lw_resetAt w, lw_start w),
      c\<lparr>lc_windows := (lc_windows c)(d \<mapsto> w\<lparr>lw_counts := (lw_counts w)(key \<mapsto> n)\<rparr>)\<rparr>))"

text \<open>Both are counters: \<open>now\<close> is a time at which the window of interest is open.\<close>

locale window_counter =
  fixes incr :: "string \<Rightarrow> int \<Rightarrow> 's \<Rightarrow> nat \<times> 's"
    and count :: "'s \<Rightarrow> nat"
    and key :: string
    and ok :: "'s \<Rightarrow> bool"
    and open_at :: "string \<Rightarrow> int \<Rightarrow> bool"
  assumes incr_ok: "ok s \<Longrightarrow> open_at k now \<Longrightarrow> ok (snd (incr k now s))"
    and incr_same: "ok s \<Longrightarrow> open_at key now \<Longrightarrow> fst (incr key now s) = count s + 1 \<and> count (snd (incr key now s)) = count s + 1"
    and incr_other: "ok s \<Longrightarrow> open_at k now \<Longrightarrow> k \<noteq> key \<Longrightarrow> count (snd (incr k now s)) = count s"
begin

fun serve :: "(string \<times> int) list \<Rightarrow> 's \<Rightarrow> nat list" where
  "serve [] s = []"
| "serve ((k, now) # reqs) s = fst (incr k now s) # serve reqs (snd (incr k now s))"

lemma counts_consecutive:
  assumes "ok s" "list_all (\<lambda>(k, now). open_at k now) reqs"
  shows "map snd (filter (\<lambda>((k, now), n). k = key) (zip reqs (serve reqs s))) =
    [count s + 1 ..< count s + 1 + length (filter (\<lambda>(k, now). k = key) reqs)]"
  using assms
proof (induction reqs arbitrary: s)
  case (Cons r reqs)
  obtain k now where r: "r = (k, now)" by (cases r)
  have o: "open_at k now" using Cons.prems(2) by (simp add: r)
  note IH = Cons.IH [OF incr_ok [OF Cons.prems(1) o]]
  show ?case
  proof (cases "k = key")
    case True
    then show ?thesis
      using IH Cons.prems incr_same [of s now] o by (simp add: r upt_conv_Cons del: upt_Suc)
  next
    case False
    then show ?thesis using IH Cons.prems incr_other [OF Cons.prems(1) o] by (simp add: r del: upt_Suc)
  qed
qed simp

end

definition shared_incr :: "string \<Rightarrow> int \<Rightarrow> rate_context \<times> rate_bucket table \<Rightarrow> nat \<times> rate_context \<times> rate_bucket table" where
  "shared_incr k now s = (case rate_increment True k None now s of ((n, _), s') \<Rightarrow> (n, s'))"

interpretation shared: window_counter shared_incr "counted key start" key "\<lambda>s. rate_ok d s \<and> 0 < d"
  "\<lambda>k now. window_start d now \<le> start + d * 10 \<and> (k = key \<longrightarrow> window_start d now = start)" for key start d
proof unfold_locales
  fix s k now
  assume ok: "rate_ok d s \<and> 0 < d" and o: "window_start d now \<le> start + d * 10 \<and> (k = key \<longrightarrow> window_start d now = start)"
  obtain n e s' where i: "rate_increment True k None now s = ((n, e), s')" by (metis surj_pair)
  note st = rate_step [of d s now start k key n e s']
  show "rate_ok d (snd (shared_incr k now s)) \<and> 0 < d" using st ok o i by (simp add: shared_incr_def)
  show "counted key start (snd (shared_incr k now s)) = counted key start s" if "k \<noteq> key"
    using st ok o i that by (simp add: shared_incr_def)
next
  fix s now
  assume ok: "rate_ok d s \<and> 0 < d" and o: "window_start d now \<le> start + d * 10 \<and> (key = key \<longrightarrow> window_start d now = start)"
  obtain n e s' where i: "rate_increment True key None now s = ((n, e), s')" by (metis surj_pair)
  show "fst (shared_incr key now s) = counted key start s + 1 \<and> counted key start (snd (shared_incr key now s)) = counted key start s + 1"
    using rate_step [of d s now start key key n e s'] ok o i by (simp add: shared_incr_def)
qed

definition local_count :: "string \<Rightarrow> local_context \<Rightarrow> nat" where
  "local_count key c = (case lc_windows c (lc_default c) of None \<Rightarrow> 0 | Some w \<Rightarrow> js_default (lw_counts w key) 0)"

definition local_incr :: "string \<Rightarrow> int \<Rightarrow> local_context \<Rightarrow> nat \<times> local_context" where
  "local_incr k now c = (case local_increment k None now c of ((n, _), c') \<Rightarrow> (n, c'))"

definition window_ends :: "int \<Rightarrow> local_context \<Rightarrow> bool" where
  "window_ends e c \<longleftrightarrow> (case lc_windows c (lc_default c) of None \<Rightarrow> False | Some w \<Rightarrow> lw_resetAt w = e)"

interpretation local: window_counter local_incr "local_count key" key "window_ends e" "\<lambda>k now. now < e" for key e
  by unfold_locales
    (auto simp: local_incr_def local_increment_def Let_def local_count_def window_ends_def windowFor_def resetExpiredWindow_def
      validDuration_def js_default_def split: option.splits)

fun limiter_run :: "(string \<Rightarrow> int \<Rightarrow> 's \<Rightarrow> nat \<times> 's) \<Rightarrow> (string \<times> int) list \<Rightarrow> 's \<Rightarrow> nat list" where
  "limiter_run incr [] s = []"
| "limiter_run incr ((k, now) # reqs) s = (let (n, s') = incr k now s in n # limiter_run incr reqs s')"

lemma limiter_run_Cons:
  "limiter_run incr ((k, now) # reqs) s = fst (incr k now s) # limiter_run incr reqs (snd (incr k now s))"
  by (simp add: split_beta)

lemma shared_run: "limiter_run shared_incr reqs s = shared.serve reqs s"
proof (induction reqs arbitrary: s)
  case (Cons r reqs)
  then show ?case by (cases r) (simp only: limiter_run_Cons shared.serve.simps)
qed simp

lemma local_run: "limiter_run local_incr reqs c = local.serve reqs c"
  by (induction reqs arbitrary: c) (auto simp: split_beta)

text \<open>C40: the limiters count exactly: whatever other keys do in between, the requests of a key
  that fall in one window get consecutive counts, on top of what the window had counted before, so a limit of
  \<open>n\<close> lets exactly the first \<open>n\<close> of a window pass. This holds for the shared limiter, where the
  windows are aligned to the duration, and for the process-local one, while its window is open.\<close>

theorem window_counts_consecutive:
  assumes "unique_by rb_bucket (snd s)" "0 < rc_duration (fst s)"
    and "list_all (\<lambda>(k, now). window_start (rc_duration (fst s)) now \<le> start + rc_duration (fst s) * 10 \<and>
      (k = key \<longrightarrow> window_start (rc_duration (fst s)) now = start)) reqs"
    and "window_ends e c" "list_all (\<lambda>(k, now). now < e) reqs"
  shows "map snd (filter (\<lambda>((k, now), n). k = key) (zip reqs (limiter_run shared_incr reqs s))) =
      [counted key start s + 1 ..< counted key start s + 1 + length (filter (\<lambda>(k, now). k = key) reqs)] \<and>
    map snd (filter (\<lambda>((k, now), n). k = key) (zip reqs (limiter_run local_incr reqs c))) =
      [local_count key c + 1 ..< local_count key c + 1 + length (filter (\<lambda>(k, now). k = key) reqs)]"
proof -
  have "rate_ok (rc_duration (fst s)) s \<and> 0 < rc_duration (fst s)" using assms(1,2) by (simp add: rate_ok_def)
  from shared.counts_consecutive [OF this assms(3)] local.counts_consecutive [OF assms(4,5)]
  show ?thesis by (simp only: shared_run local_run)
qed

definition demo_rate :: rate_context where
  "demo_rate = \<lparr>rc_prefix = ''api'', rc_duration = 60000, rc_lastPruned = None\<rparr>"

definition demo_local :: local_context where
  "demo_local = snd (local_increment ''a'' None 60000 (local_init None))"

definition demo_requests :: "(string \<times> int) list" where
  "demo_requests = [(''a'', 60001), (''b'', 60002), (''a'', 119999), (''b'', 119999)]"

lemma window_counts_consecutive_witness:
  "map snd (filter (\<lambda>((k, now), n). k = ''a'') (zip demo_requests (limiter_run shared_incr demo_requests (demo_rate, [])))) = [1, 2] \<and>
   map snd (filter (\<lambda>((k, now), n). k = ''a'') (zip demo_requests (limiter_run local_incr demo_requests demo_local))) = [2, 3]"
  using window_counts_consecutive [of "(demo_rate, [])" 60000 "''a''" demo_requests 120000 demo_local]
  by (simp add: demo_rate_def unique_by_def window_start_def counted_def upt_rec demo_requests_def demo_local_def local_init_def
    local_increment_def validDuration_def windowFor_def resetExpiredWindow_def SENSITIVE_RATE_DURATION_MS_def window_ends_def
    local_count_def js_default_def Let_def del: limiter_run.simps)

end
