(* ===== verification/EventBus.thy ===== *)
theory EventBus imports Prelude "HOL-Library.List_Lexorder" "HOL-Library.Char_ord" begin

text \<open>
  The event bus of \<open>lib/event-bus.ts\<close>: local subscriptions, and the bridge that dispatches the rows other
  replicas wrote to the control-event table. A row reaches a replica through a notification, or through a catch-up
  that reads the table in pages after a cursor. Payloads are a type parameter; a listener is a number, and
  what a listener does is not modelled: the bus keeps the log of its calls. Each page of a catch-up reads the
  snapshot the database has at that moment.
\<close>

section \<open>Cursors\<close>

datatype event_cursor = EventCursor (cur_createdAt: int) (cur_id: string)

instantiation event_cursor :: linorder
begin

definition less_eq_event_cursor :: "event_cursor \<Rightarrow> event_cursor \<Rightarrow> bool" where
  "a \<le> b \<longleftrightarrow> cur_createdAt a < cur_createdAt b \<or> cur_createdAt a = cur_createdAt b \<and> cur_id a \<le> cur_id b"

definition less_event_cursor :: "event_cursor \<Rightarrow> event_cursor \<Rightarrow> bool" where
  "a < b \<longleftrightarrow> cur_createdAt a < cur_createdAt b \<or> cur_createdAt a = cur_createdAt b \<and> cur_id a < cur_id b"

instance
  by standard (auto simp: less_eq_event_cursor_def less_event_cursor_def event_cursor.expand)

end

definition laterCursor :: "event_cursor \<Rightarrow> event_cursor \<Rightarrow> event_cursor" where
  "laterCursor left right =
    (if cur_createdAt left < cur_createdAt right then right
     else if cur_createdAt right < cur_createdAt left then left
     else if cur_id left < cur_id right then right else left)"

lemma laterCursor_max: "laterCursor l r = max l r"
  by (cases l; cases r) (auto simp: laterCursor_def max_def less_eq_event_cursor_def)

section \<open>State\<close>

record 'p control_event =
  ce_id :: string
  ce_originInstanceId :: string
  ce_topic :: string
  ce_payload :: 'p
  ce_createdAt :: int

definition event_cursor_of :: "'p control_event \<Rightarrow> event_cursor" where
  "event_cursor_of r = EventCursor (ce_createdAt r) (ce_id r)"

definition CATCH_UP_PAGE_SIZE :: nat where "CATCH_UP_PAGE_SIZE = 500"
definition CONTROL_EVENT_REPLAY_LOOKBACK_MS :: int where "CONTROL_EVENT_REPLAY_LOOKBACK_MS = 60000"
definition RECENT_EVENT_DEDUPE_LIMIT :: nat where "RECENT_EVENT_DEDUPE_LIMIT = 100000"
definition CONTROL_EVENT_RETENTION_MS :: int where "CONTROL_EVENT_RETENTION_MS = 24 * 60 * 60 * 1000"

text \<open>
  A topic maps to its \<open>Set\<close> of listeners, which the disposers compare by identity: the number is that identity.
  \<open>bus_calls\<close> is the log of the listener calls.
\<close>

record 'p bus =
  bus_instance :: string
  bus_started :: bool
  bus_generation :: nat
  bus_replayCursor :: event_cursor
  bus_seenIds :: "string set"
  bus_seenOrder :: "string list"
  bus_topics :: "string \<rightharpoonup> nat \<times> nat list"
  bus_nextSet :: nat
  bus_calls :: "(nat \<times> 'p) list"

definition bus_active :: "nat \<Rightarrow> 'p bus \<Rightarrow> bool" where
  "bus_active generation b \<longleftrightarrow> bus_started b \<and> generation = bus_generation b"

section \<open>Delivery\<close>

definition dispatchLocal :: "string \<Rightarrow> 'p \<Rightarrow> 'p bus \<Rightarrow> 'p bus" where
  "dispatchLocal topic payload b = (case bus_topics b topic of
     None \<Rightarrow> b
   | Some (_, listeners) \<Rightarrow> b\<lparr>bus_calls := bus_calls b @ map (\<lambda>l. (l, payload)) listeners\<rparr>)"

definition rememberEvent :: "string \<Rightarrow> 'p bus \<Rightarrow> bool \<times> 'p bus" where
  "rememberEvent i b =
    (if i \<in> bus_seenIds b then (False, b)
     else
       let ids = insert i (bus_seenIds b);
           order = bus_seenOrder b @ [i] in
       if RECENT_EVENT_DEDUPE_LIMIT < length order
       then (True, b\<lparr>bus_seenIds := ids - {hd order}, bus_seenOrder := tl order\<rparr>)
       else (True, b\<lparr>bus_seenIds := ids, bus_seenOrder := order\<rparr>))"

definition deliverPersistedEvent :: "'p control_event \<Rightarrow> 'p bus \<Rightarrow> 'p bus" where
  "deliverPersistedEvent row b =
    (let (fresh, b1) = rememberEvent (ce_id row) b in
     if \<not> fresh then b1
     else if ce_originInstanceId row = bus_instance b1 then b1
     else dispatchLocal (ce_topic row) (ce_payload row) b1)"

definition newestPersistedCursor :: "'p control_event table \<Rightarrow> event_cursor" where
  "newestPersistedCursor t = (case rev (sort_key event_cursor_of t) of
     [] \<Rightarrow> EventCursor 0 [] | newest # _ \<Rightarrow> event_cursor_of newest)"

definition event_page :: "event_cursor \<Rightarrow> 'p control_event table \<Rightarrow> 'p control_event list" where
  "event_page cursor t = take CATCH_UP_PAGE_SIZE (sort_key event_cursor_of
    (filter (\<lambda>r. cur_createdAt cursor < ce_createdAt r \<or> ce_createdAt r = cur_createdAt cursor \<and> cur_id cursor < ce_id r) t))"

text \<open>
  The pages of a catch-up. A snapshot is the table a page reads, with what happens to the bus while the read is
  pending (another delivery, a stop): a function on the bus. \<open>None\<close> is a catch-up that is still reading.
\<close>

fun catch_up_pages :: "nat \<Rightarrow> event_cursor \<Rightarrow> ('p control_event table \<times> ('p bus \<Rightarrow> 'p bus)) list \<Rightarrow> 'p bus \<Rightarrow> 'p bus option" where
  "catch_up_pages generation cursor [] b = (if bus_active generation b then None else Some b)"
| "catch_up_pages generation cursor ((t, meanwhile) # reads) b =
    (if \<not> bus_active generation b then Some b
     else
       let rows = event_page cursor t; b1 = meanwhile b in
       if \<not> bus_active generation b1 then Some b1
       else if rows = [] then Some b1
       else
         let b2 = fold deliverPersistedEvent rows b1;
             cursor' = event_cursor_of (last rows);
             b3 = b2\<lparr>bus_replayCursor := laterCursor (bus_replayCursor b2) cursor'\<rparr> in
         if length rows < CATCH_UP_PAGE_SIZE then Some b3
         else catch_up_pages generation cursor' reads b3)"

definition replay_start :: "'p bus \<Rightarrow> int" where
  "replay_start b = max 0 (cur_createdAt (bus_replayCursor b) - CONTROL_EVENT_REPLAY_LOOKBACK_MS - 1)"

definition catchUpPersistedEvents :: "nat \<Rightarrow> ('p control_event table \<times> ('p bus \<Rightarrow> 'p bus)) list \<Rightarrow> 'p bus \<Rightarrow> 'p bus option" where
  "catchUpPersistedEvents generation reads b = catch_up_pages generation (EventCursor (replay_start b) []) reads b"

text \<open>\<open>None\<close> is the error of an unreadable row, after which the caller schedules a catch-up.\<close>

definition receiveNotifiedEvent :: "string \<Rightarrow> nat \<Rightarrow> 'p control_event table \<Rightarrow> 'p bus \<Rightarrow> 'p bus option" where
  "receiveNotifiedEvent i generation t b =
    (if \<not> bus_active generation b then Some b
     else case db_find (\<lambda>r. ce_id r = i) t of None \<Rightarrow> None | Some row \<Rightarrow> Some (deliverPersistedEvent row b))"

section \<open>Start, stop, publish, prune\<close>

text \<open>The start up to the first await, and its continuation after the newest row is read.\<close>

definition startDistributedEventBus :: "bool \<Rightarrow> 'p bus \<Rightarrow> nat option \<times> 'p bus" where
  "startDistributedEventBus ha b =
    (if \<not> ha \<or> bus_started b then (None, b)
     else let generation = bus_generation b + 1 in
       (Some generation, b\<lparr>bus_started := True, bus_generation := generation\<rparr>))"

definition start_cursor :: "nat \<Rightarrow> 'p control_event table \<Rightarrow> 'p bus \<Rightarrow> 'p bus" where
  "start_cursor generation t b =
    (if bus_active generation b then b\<lparr>bus_replayCursor := newestPersistedCursor t\<rparr> else b)"

definition stopDistributedEventBus :: "'p bus \<Rightarrow> 'p bus" where
  "stopDistributedEventBus b = b\<lparr>bus_started := False, bus_generation := bus_generation b + 1\<rparr>"

definition persistDistributedEvent :: "string \<Rightarrow> string \<Rightarrow> 'p \<Rightarrow> int \<Rightarrow> 'p bus \<Rightarrow> 'p control_event table \<Rightarrow> 'p control_event table" where
  "persistDistributedEvent i topic payload now b t =
    t @ [\<lparr>ce_id = i, ce_originInstanceId = bus_instance b, ce_topic = topic, ce_payload = payload, ce_createdAt = now\<rparr>]"

definition pruneControlEvents :: "bool \<Rightarrow> int \<Rightarrow> 'p control_event table \<Rightarrow> nat \<times> 'p control_event table" where
  "pruneControlEvents ha now t =
    (if \<not> ha then (0, t)
     else let p = (\<lambda>r. ce_createdAt r < now - CONTROL_EVENT_RETENTION_MS) in (length (filter p t), db_delete p t))"

definition publish :: "bool \<Rightarrow> string \<Rightarrow> string \<Rightarrow> 'p \<Rightarrow> int \<Rightarrow> 'p bus \<times> 'p control_event table \<Rightarrow> 'p bus \<times> 'p control_event table" where
  "publish ha i topic payload now bt = (case bt of (b, t) \<Rightarrow>
     (dispatchLocal topic payload b, if ha then persistDistributedEvent i topic payload now b t else t))"

section \<open>Subscriptions\<close>

record subscription =
  sub_topic :: string
  sub_set :: nat
  sub_listener :: nat
  sub_disposed :: bool

definition subscribe :: "string \<Rightarrow> nat \<Rightarrow> 'p bus \<Rightarrow> subscription \<times> 'p bus" where
  "subscribe topic listener b =
    (let (s, ls, next) = (case bus_topics b topic of
           None \<Rightarrow> (bus_nextSet b, [], bus_nextSet b + 1) | Some (s, ls) \<Rightarrow> (s, ls, bus_nextSet b)) in
     (\<lparr>sub_topic = topic, sub_set = s, sub_listener = listener, sub_disposed = False\<rparr>,
      b\<lparr>bus_topics := (bus_topics b)(topic \<mapsto> (s, if listener \<in> set ls then ls else ls @ [listener])), bus_nextSet := next\<rparr>))"

definition dispose :: "subscription \<Rightarrow> 'p bus \<Rightarrow> subscription \<times> 'p bus" where
  "dispose h b =
    (if sub_disposed h then (h, b)
     else (h\<lparr>sub_disposed := True\<rparr>,
       case bus_topics b (sub_topic h) of None \<Rightarrow> b
       | Some (s, ls) \<Rightarrow>
           if s \<noteq> sub_set h then b
           else let ls' = filter (\<lambda>l. l \<noteq> sub_listener h) ls in
             b\<lparr>bus_topics := (bus_topics b)(sub_topic h := (if ls' = [] then None else Some (s, ls')))\<rparr>))"


section \<open>Deliveries\<close>

text \<open>The calls a row causes, and which rows of a sequence of deliveries cause them.\<close>

definition calls_of :: "'p bus \<Rightarrow> 'p control_event \<Rightarrow> (nat \<times> 'p) list" where
  "calls_of b row = (case bus_topics b (ce_topic row) of None \<Rightarrow> [] | Some (_, ls) \<Rightarrow> map (\<lambda>l. (l, ce_payload row)) ls)"

fun fresh_foreign :: "string \<Rightarrow> string set \<Rightarrow> 'p control_event list \<Rightarrow> 'p control_event list" where
  "fresh_foreign own seen [] = []"
| "fresh_foreign own seen (r # rs) =
    (if ce_id r \<in> seen then fresh_foreign own seen rs
     else (if ce_originInstanceId r = own then [] else [r]) @ fresh_foreign own (insert (ce_id r) seen) rs)"

definition bus_wf :: "'p bus \<Rightarrow> bool" where
  "bus_wf b \<longleftrightarrow> bus_seenIds b = set (bus_seenOrder b) \<and> distinct (bus_seenOrder b) \<and>
    length (bus_seenOrder b) \<le> RECENT_EVENT_DEDUPE_LIMIT"

lemma dispatchLocal_fields [simp]:
  "bus_instance (dispatchLocal t p b) = bus_instance b" "bus_started (dispatchLocal t p b) = bus_started b"
  "bus_generation (dispatchLocal t p b) = bus_generation b" "bus_topics (dispatchLocal t p b) = bus_topics b"
  "bus_seenIds (dispatchLocal t p b) = bus_seenIds b" "bus_seenOrder (dispatchLocal t p b) = bus_seenOrder b"
  by (simp_all add: dispatchLocal_def split: option.split)

lemma deliver_fields [simp]:
  "bus_instance (deliverPersistedEvent r b) = bus_instance b" "bus_started (deliverPersistedEvent r b) = bus_started b"
  "bus_generation (deliverPersistedEvent r b) = bus_generation b" "bus_topics (deliverPersistedEvent r b) = bus_topics b"
  by (auto simp: deliverPersistedEvent_def rememberEvent_def Let_def)

lemma deliver_all_fields [simp]:
  "bus_instance (fold deliverPersistedEvent rs b) = bus_instance b" "bus_started (fold deliverPersistedEvent rs b) = bus_started b"
  "bus_generation (fold deliverPersistedEvent rs b) = bus_generation b" "bus_topics (fold deliverPersistedEvent rs b) = bus_topics b"
  by (induction rs arbitrary: b) simp_all

lemma deliver_active [simp]: "bus_active g (fold deliverPersistedEvent rs b) = bus_active g b"
  by (simp add: bus_active_def)

lemma deliver_cursor:
  "fold deliverPersistedEvent rs (b\<lparr>bus_replayCursor := c\<rparr>) = (fold deliverPersistedEvent rs b)\<lparr>bus_replayCursor := c\<rparr>"
proof (induction rs arbitrary: b)
  case (Cons r rs)
  have "deliverPersistedEvent r (b\<lparr>bus_replayCursor := c\<rparr>) = (deliverPersistedEvent r b)\<lparr>bus_replayCursor := c\<rparr>"
    by (simp add: deliverPersistedEvent_def rememberEvent_def dispatchLocal_def Let_def split: option.split)
  then show ?case by (simp add: Cons.IH)
qed simp

lemma bus_wf_remember:
  assumes "bus_wf b"
  shows "bus_wf (snd (rememberEvent i b))"
proof (cases "i \<in> bus_seenIds b")
  case False
  define xs where "xs = bus_seenOrder b"
  have ids: "bus_seenIds b = set xs" and d: "distinct xs" "length xs \<le> RECENT_EVENT_DEDUPE_LIMIT"
    using assms by (simp_all add: bus_wf_def xs_def)
  have i: "i \<notin> set xs" using False ids by simp
  have tl: "set (tl (xs @ [i])) = insert i (set xs) - {hd (xs @ [i])}" "distinct (tl (xs @ [i]))" if "xs \<noteq> []"
    using that d i by (cases xs; auto)+
  show ?thesis
  proof (cases "RECENT_EVENT_DEDUPE_LIMIT < length (xs @ [i])")
    case True
    then have "xs \<noteq> []" by (auto simp: RECENT_EVENT_DEDUPE_LIMIT_def)
    then show ?thesis using tl d(2) i ids True by (simp add: rememberEvent_def Let_def bus_wf_def flip: xs_def)
  next
    case False
    then show ?thesis using d i ids by (simp add: rememberEvent_def Let_def bus_wf_def flip: xs_def)
  qed
qed (use assms in \<open>simp add: rememberEvent_def\<close>)

lemma bus_wf_deliver: "bus_wf b \<Longrightarrow> bus_wf (deliverPersistedEvent r b)"
  using bus_wf_remember [of b "ce_id r"]
  by (cases "rememberEvent (ce_id r) b") (simp add: deliverPersistedEvent_def bus_wf_def)

lemma deliver_one:
  assumes "bus_wf b" "card (insert (ce_id r) (bus_seenIds b)) \<le> RECENT_EVENT_DEDUPE_LIMIT"
  shows "bus_seenIds (deliverPersistedEvent r b) = insert (ce_id r) (bus_seenIds b)"
    and "bus_calls (deliverPersistedEvent r b) = bus_calls b @
      (if ce_id r \<in> bus_seenIds b \<or> ce_originInstanceId r = bus_instance b then [] else calls_of b r)"
proof -
  have "\<not> RECENT_EVENT_DEDUPE_LIMIT < length (bus_seenOrder b @ [ce_id r])" if "ce_id r \<notin> bus_seenIds b"
    using assms that by (simp add: bus_wf_def distinct_card)
  then have rem: "rememberEvent (ce_id r) b = (if ce_id r \<in> bus_seenIds b then (False, b)
      else (True, b\<lparr>bus_seenIds := insert (ce_id r) (bus_seenIds b), bus_seenOrder := bus_seenOrder b @ [ce_id r]\<rparr>))"
    by (simp add: rememberEvent_def Let_def)
  show "bus_seenIds (deliverPersistedEvent r b) = insert (ce_id r) (bus_seenIds b)"
    by (auto simp: deliverPersistedEvent_def rem)
  show "bus_calls (deliverPersistedEvent r b) = bus_calls b @
      (if ce_id r \<in> bus_seenIds b \<or> ce_originInstanceId r = bus_instance b then [] else calls_of b r)"
    by (simp add: deliverPersistedEvent_def rem dispatchLocal_def calls_of_def split: option.split)
qed

lemma deliver_all:
  assumes "bus_wf b" "card (bus_seenIds b \<union> ce_id ` set rs) \<le> RECENT_EVENT_DEDUPE_LIMIT"
  shows "bus_calls (fold deliverPersistedEvent rs b) =
      bus_calls b @ concat (map (calls_of b) (fresh_foreign (bus_instance b) (bus_seenIds b) rs))"
  using assms
proof (induction rs arbitrary: b)
  case (Cons r rs)
  let ?b = "deliverPersistedEvent r b"
  have "finite (bus_seenIds b \<union> ce_id ` set (r # rs))" using Cons.prems(1) by (simp add: bus_wf_def)
  then have "card (insert (ce_id r) (bus_seenIds b)) \<le> RECENT_EVENT_DEDUPE_LIMIT"
    by (intro order.trans [OF card_mono Cons.prems(2)]) auto
  note one = deliver_one [OF Cons.prems(1) this]
  have "card (bus_seenIds ?b \<union> ce_id ` set rs) \<le> RECENT_EVENT_DEDUPE_LIMIT"
    using Cons.prems(2) by (simp add: one)
  from Cons.IH [OF bus_wf_deliver [OF Cons.prems(1)] this]
  show ?case by (auto simp: one calls_of_def insert_absorb fun_eq_iff)
qed simp

lemma count_fresh_foreign:
  assumes "inj_on ce_id (set rs)" "r \<in> set rs" "ce_id r \<notin> seen" "ce_originInstanceId r \<noteq> own"
  shows "count_list (fresh_foreign own seen rs) r = 1"
proof -
  have zero: "count_list (fresh_foreign own seen rs) r = 0" if "ce_id r \<in> seen" for rs seen
    using that by (induction rs arbitrary: seen) auto
  show ?thesis
    using assms(1-3)
  proof (induction rs arbitrary: seen)
    case (Cons x rs)
    have inj: "inj_on ce_id (set rs)" using Cons.prems(1) by simp
    show ?case
    proof (cases "x = r")
      case True
      then show ?thesis using assms(4) Cons.prems(3) zero by simp
    next
      case False
      then have "ce_id x \<noteq> ce_id r" using Cons.prems(1,2) by (auto dest: inj_onD)
      then show ?thesis using Cons.IH [OF inj] Cons.prems False by auto
    qed
  qed simp
qed

section \<open>Catch-up\<close>

lemma event_page_alt: "event_page c t = take CATCH_UP_PAGE_SIZE (sort_key event_cursor_of (filter (\<lambda>r. c < event_cursor_of r) t))"
  by (auto simp: event_page_def less_event_cursor_def event_cursor_of_def intro!: arg_cong [where f = "take _"] arg_cong2 [where f = sort_key] filter_cong)

lemma event_cursor_of_eq [simp]: "event_cursor_of r = event_cursor_of s \<longleftrightarrow> ce_createdAt r = ce_createdAt s \<and> ce_id r = ce_id s"
  by (simp add: event_cursor_of_def)

text \<open>A page is a prefix, in cursor order, of what comes after the cursor.\<close>

lemma event_page_facts:
  assumes "unique_by ce_id t"
  shows "distinct (event_page c t)"
    and "set (event_page c t) \<subseteq> {r \<in> set t. c < event_cursor_of r}"
    and "length (event_page c t) < CATCH_UP_PAGE_SIZE \<Longrightarrow> r \<in> set t \<Longrightarrow> c < event_cursor_of r \<Longrightarrow> r \<in> set (event_page c t)"
    and "x \<in> set (event_page c t) \<Longrightarrow> event_cursor_of x \<le> event_cursor_of (last (event_page c t))"
    and "r \<in> set t \<Longrightarrow> c < event_cursor_of r \<Longrightarrow> r \<notin> set (event_page c t) \<Longrightarrow> event_page c t \<noteq> [] \<Longrightarrow>
      event_cursor_of (last (event_page c t)) < event_cursor_of r"
proof -
  define S where "S = sort_key event_cursor_of (filter (\<lambda>r. c < event_cursor_of r) t)"
  have page: "event_page c t = take CATCH_UP_PAGE_SIZE S" by (simp add: event_page_alt S_def)
  have S: "set S = {r \<in> set t. c < event_cursor_of r}" "distinct S" "sorted (map event_cursor_of S)"
    using assms by (simp_all add: S_def unique_by_def distinct_map)
  have split: "S = event_page c t @ drop CATCH_UP_PAGE_SIZE S" by (simp add: page)
  show "distinct (event_page c t)" using S(2) by (simp add: page)
  show sub: "set (event_page c t) \<subseteq> {r \<in> set t. c < event_cursor_of r}" using S(1) set_take_subset by (metis page)
  show "r \<in> set (event_page c t)" if "length (event_page c t) < CATCH_UP_PAGE_SIZE" "r \<in> set t" "c < event_cursor_of r"
    using that S(1) by (simp add: page)
  have sp: "sorted (map event_cursor_of (event_page c t))"
    "\<forall>x \<in> set (event_page c t). \<forall>y \<in> set (drop CATCH_UP_PAGE_SIZE S). event_cursor_of x \<le> event_cursor_of y"
    using S(3) by (subst (asm) split, simp add: sorted_append)+
  show last: "event_cursor_of x \<le> event_cursor_of (last (event_page c t))" if "x \<in> set (event_page c t)" for x
    using sp(1) that by (cases "event_page c t" rule: rev_cases) (auto simp: sorted_append)
  show "event_cursor_of (last (event_page c t)) < event_cursor_of r"
    if "r \<in> set t" "c < event_cursor_of r" "r \<notin> set (event_page c t)" "event_page c t \<noteq> []"
  proof -
    have "r \<in> set (drop CATCH_UP_PAGE_SIZE S)" using that S(1) split by (metis UnE mem_Collect_eq set_append)
    then have "event_cursor_of (last (event_page c t)) \<le> event_cursor_of r" using sp(2) that(4) by simp
    moreover have l: "last (event_page c t) \<in> set t" using last_in_set [OF that(4)] sub by blast
    have "last (event_page c t) \<noteq> r" using that(3) last_in_set [OF that(4)] by blast
    then have "ce_id (last (event_page c t)) \<noteq> ce_id r" using unique_byD [OF assms l that(1)] by blast
    then have "event_cursor_of (last (event_page c t)) \<noteq> event_cursor_of r" by simp
    ultimately show ?thesis by (simp add: order_less_le del: event_cursor_of_eq)
  qed
qed

lemma page_progress:
  assumes "unique_by ce_id t" "set t \<subseteq> set T" "distinct T" "\<not> length (event_page c t) < CATCH_UP_PAGE_SIZE"
  shows "length (filter (\<lambda>x. event_cursor_of (last (event_page c t)) < event_cursor_of x) T) + CATCH_UP_PAGE_SIZE
    \<le> length (filter (\<lambda>x. c < event_cursor_of x) T)"
proof -
  let ?p = "event_page c t" and ?c = "event_cursor_of (last (event_page c t))"
  note facts = event_page_facts [OF assms(1), where c = c]
  have p: "set ?p \<subseteq> {x \<in> set T. c < event_cursor_of x \<and> event_cursor_of x \<le> ?c}" using facts(2,4) assms(2) by blast
  have "?p \<noteq> []" using assms(4) by (auto simp: CATCH_UP_PAGE_SIZE_def)
  then have c: "c < ?c" using p last_in_set by blast
  have "CATCH_UP_PAGE_SIZE \<le> card (set ?p)" using assms(4) facts(1) by (simp add: distinct_card)
  also have "\<dots> \<le> card {x \<in> set T. c < event_cursor_of x \<and> event_cursor_of x \<le> ?c}" using p by (simp add: card_mono)
  finally have "card {x \<in> set T. ?c < event_cursor_of x} + CATCH_UP_PAGE_SIZE
      \<le> card {x \<in> set T. ?c < event_cursor_of x} + card {x \<in> set T. c < event_cursor_of x \<and> event_cursor_of x \<le> ?c}" by simp
  also have "\<dots> = card ({x \<in> set T. ?c < event_cursor_of x} \<union> {x \<in> set T. c < event_cursor_of x \<and> event_cursor_of x \<le> ?c})"
    by (rule card_Un_disjoint [symmetric]) auto
  also have "\<dots> = card {x \<in> set T. c < event_cursor_of x}"
    using c by (intro arg_cong [where f = card]) auto
  finally show ?thesis using assms(3) by (simp add: distinct_length_filter Int_def conj_commute)
qed

text \<open>Reads during which notified rows are delivered.\<close>

definition with_notified :: "('p control_event table \<times> 'p control_event list) list \<Rightarrow> ('p control_event table \<times> ('p bus \<Rightarrow> 'p bus)) list" where
  "with_notified reads = map (\<lambda>(t, ns). (t, fold deliverPersistedEvent ns)) reads"

definition reads_within :: "'p control_event table \<Rightarrow> ('p control_event table \<times> 'p control_event list) list \<Rightarrow> bool" where
  "reads_within T reads \<longleftrightarrow> (\<forall>(t, ns) \<in> set reads. unique_by ce_id t \<and> set t \<subseteq> set T \<and> set ns \<subseteq> set T)"

lemma pages_deliver:
  assumes "distinct T" "reads_within T reads" "bus_active g b"
    and "length (filter (\<lambda>x. c < event_cursor_of x) T) < CATCH_UP_PAGE_SIZE * length reads"
  shows "\<exists>rows c'. catch_up_pages g c (with_notified reads) b = Some ((fold deliverPersistedEvent rows b)\<lparr>bus_replayCursor := c'\<rparr>) \<and>
    set rows \<subseteq> set T \<and> (\<forall>r. (\<forall>(t, ns) \<in> set reads. r \<in> set t) \<and> c < event_cursor_of r \<longrightarrow> r \<in> set rows)"
  using assms(2-4)
proof (induction reads arbitrary: b c)
  case (Cons x reads)
  obtain t ns where x: "x = (t, ns)" by (cases x)
  have t: "unique_by ce_id t" "set t \<subseteq> set T" "set ns \<subseteq> set T" and rest: "reads_within T reads"
    using Cons.prems(1) by (auto simp: reads_within_def x)
  let ?page = "event_page c t" and ?b1 = "fold deliverPersistedEvent ns b"
  let ?b2 = "fold deliverPersistedEvent ?page ?b1"
  let ?c = "event_cursor_of (last ?page)"
  define b3 where "b3 = ?b2\<lparr>bus_replayCursor := laterCursor (bus_replayCursor ?b2) ?c\<rparr>"
  have b3: "b3 = (fold deliverPersistedEvent (ns @ ?page) b)\<lparr>bus_replayCursor := laterCursor (bus_replayCursor ?b2) ?c\<rparr>"
    by (simp add: b3_def)
  note facts = event_page_facts [OF t(1), where c = c]
  have sub: "set ?page \<subseteq> set T" using facts(2) t(2) by blast
  have run: "catch_up_pages g c (with_notified (x # reads)) b =
      (if ?page = [] then Some ?b1 else if length ?page < CATCH_UP_PAGE_SIZE then Some b3
       else catch_up_pages g ?c (with_notified reads) b3)"
    using Cons.prems(2) by (simp add: x with_notified_def Let_def b3_def)
  consider (empty_page) "?page = []" | (short) "?page \<noteq> []" "length ?page < CATCH_UP_PAGE_SIZE"
    | (full) "?page \<noteq> []" "\<not> length ?page < CATCH_UP_PAGE_SIZE" by blast
  then show ?case
  proof cases
    case empty_page
    have "c < event_cursor_of r \<Longrightarrow> r \<notin> set t" for r
      using facts(3) [of r] empty_page by (auto simp: CATCH_UP_PAGE_SIZE_def)
    then show ?thesis using run empty_page t(3)
      by (intro exI [of _ ns] exI [of _ "bus_replayCursor ?b1"]) (auto simp: x)
  next
    case short
    then show ?thesis using run b3 t(3) sub facts(3)
      by (intro exI [of _ "ns @ ?page"] exI [of _ "laterCursor (bus_replayCursor ?b2) ?c"]) (auto simp: x)
  next
    case full
    have act: "bus_active g b3" using Cons.prems(2) deliver_active [of g "ns @ ?page" b] by (simp add: b3 bus_active_def)
    have "length (filter (\<lambda>x. ?c < event_cursor_of x) T) < CATCH_UP_PAGE_SIZE * length reads"
      using page_progress [OF t(1,2) assms(1) full(2)] Cons.prems(3) by simp
    from Cons.IH [OF rest act this] obtain rows c' where rows:
      "catch_up_pages g ?c (with_notified reads) b3 = Some ((fold deliverPersistedEvent rows b3)\<lparr>bus_replayCursor := c'\<rparr>)"
      "set rows \<subseteq> set T" "\<And>r. (\<forall>(t, ns) \<in> set reads. r \<in> set t) \<Longrightarrow> ?c < event_cursor_of r \<Longrightarrow> r \<in> set rows" by blast
    have "fold deliverPersistedEvent rows b3 = (fold deliverPersistedEvent (ns @ ?page @ rows) b)\<lparr>bus_replayCursor := laterCursor (bus_replayCursor ?b2) ?c\<rparr>"
      by (simp add: b3 deliver_cursor)
    moreover have "r \<in> set ns \<union> set ?page \<union> set rows"
      if "\<forall>(t, ns) \<in> set (x # reads). r \<in> set t" "c < event_cursor_of r" for r
      using that facts(5) [of r] full(1) rows(3) by (auto simp: x)
    ultimately show ?thesis using run full rows(1,2) t(3) sub
      by (intro exI [of _ "ns @ ?page @ rows"] exI [of _ c']) auto
  qed
qed simp


definition demo_bus :: "nat bus" where
  "demo_bus = \<lparr>bus_instance = ''me'', bus_started = True, bus_generation = 1, bus_replayCursor = EventCursor 70000 ''x'',
    bus_seenIds = {}, bus_seenOrder = [], bus_topics = [''runs'' \<mapsto> (0, [7])], bus_nextSet = 1, bus_calls = []\<rparr>"

definition demo_event :: "nat control_event" where
  "demo_event = \<lparr>ce_id = ''e'', ce_originInstanceId = ''other'', ce_topic = ''runs'', ce_payload = 42, ce_createdAt = 60000\<rparr>"


end
