(* ===== verification/TokenScopes.thy ===== *)
theory TokenScopes imports JsValues begin

text \<open>
  The scopes of fine-grained tokens, \<open>lib/token-scopes.ts\<close>: the grants and what they imply, the parser of a
  stored scope, and the evaluation of tag expressions. Grants are the strings the scope stores. \<open>JSON.parse\<close> of a
  scope stored as text is the argument \<open>jp\<close>.
\<close>

section \<open>Grants\<close>

definition GRANT_IMPLICATIONS :: "(string \<times> string list) list" where
  "GRANT_IMPLICATIONS = [
    (''workspaces:read'', []),
    (''workspaces:write'', [''workspaces:read'', ''workspaces:lock'']),
    (''workspaces:lock'', []),
    (''runs:read'', []),
    (''runs:write'', [''runs:read'', ''runs:plan'', ''runs:apply'', ''runs:discard'', ''runs:cancel'']),
    (''runs:plan'', [''runs:read'']),
    (''runs:apply'', [''runs:read'']),
    (''runs:discard'', []),
    (''runs:cancel'', []),
    (''runs:policy-override'', []),
    (''run-tasks:read'', []),
    (''run-tasks:write'', [''run-tasks:read'']),
    (''variables:read'', []),
    (''variables:write'', [''variables:read'']),
    (''state:read'', []),
    (''state:write'', [''state:read'']),
    (''settings:read'', [''policies:read'', ''vcs:read'', ''agent-pools:read'', ''registry:read'', ''projects:read'',
       ''teams:read'', ''members:read'', ''varsets:read'', ''audit-logs:read'', ''run-tasks:read'']),
    (''settings:write'', [''settings:read'', ''policies:write'', ''vcs:write'', ''agent-pools:write'', ''registry:write'',
       ''projects:write'', ''teams:write'', ''members:write'', ''varsets:write'', ''run-tasks:write'', ''runs:policy-override'']),
    (''policies:read'', []),
    (''policies:write'', [''policies:read'']),
    (''vcs:read'', []),
    (''vcs:write'', [''vcs:read'']),
    (''agent-pools:read'', []),
    (''agent-pools:write'', [''agent-pools:read'']),
    (''registry:read'', []),
    (''registry:write'', [''registry:read'']),
    (''projects:read'', []),
    (''projects:write'', [''projects:read'']),
    (''teams:read'', []),
    (''teams:write'', [''teams:read'', ''members:read'']),
    (''members:read'', []),
    (''members:write'', [''members:read'']),
    (''varsets:read'', []),
    (''varsets:write'', [''varsets:read'']),
    (''audit-logs:read'', [])]"

definition ALL_PERMISSION_GRANTS :: "string list" where
  "ALL_PERMISSION_GRANTS = map fst GRANT_IMPLICATIONS"

definition implications :: "string \<Rightarrow> string list" where
  "implications g = js_default (js_get GRANT_IMPLICATIONS g) []"

lemma implications_unknown: "g \<notin> set ALL_PERMISSION_GRANTS \<Longrightarrow> implications g = []"
  by (simp add: implications_def ALL_PERMISSION_GRANTS_def js_default_def map_of_eq_None_iff [THEN iffD2])

text \<open>The queue of \<open>grantImplies\<close>: every turn either removes an entry or marks a new grant.\<close>

function grant_search :: "string \<Rightarrow> string list \<Rightarrow> string list \<Rightarrow> bool" where
  "grant_search candidate [] seen = False"
| "grant_search candidate (current # queue) seen =
    (if current = candidate then True
     else if current \<in> set seen then grant_search candidate queue seen
     else grant_search candidate (queue @ implications current) (current # seen))"
  by pat_completeness auto

termination
proof (relation "measures [\<lambda>(c, q, seen). card (set ALL_PERMISSION_GRANTS - set seen), \<lambda>(c, q, seen). length q]")
  fix candidate current :: string and queue seen
  assume "current \<notin> set seen"
  show "((candidate, queue @ implications current, current # seen), candidate, current # queue, seen)
    \<in> measures [\<lambda>(c, q, seen). card (set ALL_PERMISSION_GRANTS - set seen), \<lambda>(c, q, seen). length q]"
  proof (cases "current \<in> set ALL_PERMISSION_GRANTS")
    case True
    with \<open>current \<notin> set seen\<close> have "card (set ALL_PERMISSION_GRANTS - set (current # seen)) < card (set ALL_PERMISSION_GRANTS - set seen)"
      by (intro psubset_card_mono) auto
    then show ?thesis by simp
  next
    case False
    then have "set ALL_PERMISSION_GRANTS - set (current # seen) = set ALL_PERMISSION_GRANTS - set seen" by auto
    then show ?thesis using implications_unknown [OF False] by simp
  qed
qed auto

definition grantImplies :: "string \<Rightarrow> string \<Rightarrow> bool" where
  "grantImplies grant candidate = grant_search candidate (implications grant) [grant]"

section \<open>Scopes\<close>

datatype combinator = AND | OR

datatype tag_rule = Tag_filter string string | Tag_group combinator "tag_rule list"

record token_tags =
  tt_combinator :: combinator
  tt_rules :: "tag_rule list"

record token_scopes =
  ts_orgs :: "string list"
  ts_projects :: "string list option"
  ts_workspaces :: "string list option"
  ts_tags :: "token_tags option"
  ts_permissions :: "(string, bool) js_map"

definition scopeGrants :: "token_scopes \<Rightarrow> string \<Rightarrow> bool" where
  "scopeGrants scope permission = list_ex (\<lambda>granted. js_get (ts_permissions scope) granted = Some True \<and>
     (granted = permission \<or> grantImplies granted permission)) (map fst (ts_permissions scope))"

definition scopeCoversOrg :: "token_scopes \<Rightarrow> string \<Rightarrow> bool" where
  "scopeCoversOrg scope orgId \<longleftrightarrow> orgId \<in> set (ts_orgs scope)"

fun evaluateTagRule :: "tag_rule \<Rightarrow> string set \<Rightarrow> bool" where
  "evaluateTagRule (Tag_filter k v) tags \<longleftrightarrow> k @ ''='' @ v \<in> tags"
| "evaluateTagRule (Tag_group c rules) tags =
    (if c = AND then list_all (\<lambda>r. evaluateTagRule r tags) rules else list_ex (\<lambda>r. evaluateTagRule r tags) rules)"

definition evaluateTagExpression :: "token_tags \<Rightarrow> string set \<Rightarrow> bool" where
  "evaluateTagExpression e tags =
    (if tt_combinator e = AND then list_all (\<lambda>r. evaluateTagRule r tags) (tt_rules e)
     else list_ex (\<lambda>r. evaluateTagRule r tags) (tt_rules e))"

section \<open>The parser\<close>

definition MAX_TAG_RULE_DEPTH :: nat where "MAX_TAG_RULE_DEPTH = 16"

definition isCombinator :: "json \<Rightarrow> combinator option" where
  "isCombinator v = (case v of JStr s \<Rightarrow> if s = ''AND'' then Some AND else if s = ''OR'' then Some OR else None | _ \<Rightarrow> None)"

definition isTagFilter :: "(string, json) js_map \<Rightarrow> (string \<times> string) option" where
  "isTagFilter obj = (case (js_get obj ''key'', js_get obj ''value'') of
     (Some (JStr k), Some (JStr v)) \<Rightarrow> if k \<noteq> [] then Some (k, v) else None
   | _ \<Rightarrow> None)"

text \<open>The path of an entry, \<open>p[i]\<close>, and the entries of an array with their paths.\<close>

definition indexed :: "string \<Rightarrow> json list \<Rightarrow> (string \<times> json) list" where
  "indexed p rules = map (\<lambda>(i, r). (p @ ''['' @ nat_string i @ '']'', r)) (enumerate 0 rules)"

function parseTagRule :: "json \<Rightarrow> string \<Rightarrow> nat \<Rightarrow> string + tag_rule" where
  "parseTagRule raw path depth =
    (if MAX_TAG_RULE_DEPTH < depth then Inl (path @ '' exceeds maximum nesting depth'')
     else case raw of
       JObj obj \<Rightarrow>
         (case js_get obj ''combinator'' of
            Some c \<Rightarrow>
              (case isCombinator c of
                 None \<Rightarrow> Inl (path @ ''.combinator must be \"AND\" or \"OR\"'')
               | Some comb \<Rightarrow>
                   (case js_get obj ''rules'' of
                      Some (JArr rules) \<Rightarrow>
                        if rules = [] then Inl (path @ ''.rules must contain at least one rule'')
                        else bind_result (map_result (\<lambda>(p, r). parseTagRule r p (depth + 1)) (indexed (path @ ''.rules'') rules))
                          (\<lambda>rs. Inr (Tag_group comb rs))
                    | _ \<Rightarrow> Inl (path @ ''.rules must be an array'')))
          | None \<Rightarrow>
              (case isTagFilter obj of
                 None \<Rightarrow> Inl (path @ '' must be { key, value } or { combinator, rules }'')
               | Some (k, v) \<Rightarrow> Inr (Tag_filter k v)))
     | _ \<Rightarrow> Inl (path @ '' must be a tag filter or a rule group''))"
  by auto
termination by (relation "measure (\<lambda>(r, p, d). Suc MAX_TAG_RULE_DEPTH - d)") auto

declare parseTagRule.simps [simp del]

definition parseTagExpression :: "json option \<Rightarrow> string + token_tags option" where
  "parseTagExpression raw = (case raw of
     None \<Rightarrow> Inr None
   | Some JNull \<Rightarrow> Inr None
   | Some (JArr rules) \<Rightarrow>
       if rules = [] then Inr None
       else bind_result (map_result (\<lambda>(p, r). parseTagRule r p 0) (indexed ''scopes.tags'' rules))
         (\<lambda>rs. Inr (Some \<lparr>tt_combinator = OR, tt_rules = rs\<rparr>))
   | Some (JObj obj) \<Rightarrow>
       (case js_get obj ''combinator'' of
          None \<Rightarrow> Inl ''scopes.tags.combinator must be \"AND\" or \"OR\"''
        | Some c \<Rightarrow>
            (case isCombinator c of
               None \<Rightarrow> Inl ''scopes.tags.combinator must be \"AND\" or \"OR\"''
             | Some comb \<Rightarrow>
                 (case js_get obj ''rules'' of
                    Some (JArr rules) \<Rightarrow>
                      if rules = [] then Inl ''scopes.tags.rules must contain at least one rule''
                      else bind_result (map_result (\<lambda>(p, r). parseTagRule r p 0) (indexed ''scopes.tags.rules'' rules))
                        (\<lambda>rs. Inr (Some \<lparr>tt_combinator = comb, tt_rules = rs\<rparr>))
                  | _ \<Rightarrow> Inl ''scopes.tags.rules must be an array'')))
   | _ \<Rightarrow> Inl ''scopes.tags must be an object or an array'')"

text \<open>An array of non-empty strings.\<close>

definition string_array :: "json list \<Rightarrow> string list option" where
  "string_array xs = (if list_all (\<lambda>x. case x of JStr s \<Rightarrow> s \<noteq> [] | _ \<Rightarrow> False) xs
     then Some (map (\<lambda>x. case x of JStr s \<Rightarrow> s | _ \<Rightarrow> []) xs) else None)"

definition parseOrgsField :: "(string, json) js_map \<Rightarrow> string + string list" where
  "parseOrgsField obj = (case js_get obj ''orgs'' of
     Some (JArr xs) \<Rightarrow>
       (if xs = [] then Inl ''scopes.orgs must be a non-empty array of organization IDs''
        else case string_array xs of
          None \<Rightarrow> Inl ''scopes.orgs must be a non-empty array of organization IDs'' | Some orgs \<Rightarrow> Inr orgs)
   | _ \<Rightarrow> Inl ''scopes.orgs must be a non-empty array of organization IDs'')"

text \<open>\<open>parseProjectsField\<close> and \<open>parseWorkspacesField\<close>, which differ in the key and the message.\<close>

definition parse_ids_field :: "string \<Rightarrow> string \<Rightarrow> (string, json) js_map \<Rightarrow> string + string list option" where
  "parse_ids_field key message obj = (case js_get obj key of
     None \<Rightarrow> Inr None
   | Some JNull \<Rightarrow> Inr None
   | Some (JArr xs) \<Rightarrow> (case string_array xs of None \<Rightarrow> Inl message | Some ids \<Rightarrow> Inr (Some ids))
   | _ \<Rightarrow> Inl message)"

definition parseProjectsField :: "(string, json) js_map \<Rightarrow> string + string list option" where
  "parseProjectsField obj = parse_ids_field ''projects'' ''scopes.projects must be an array of project IDs or null'' obj"

definition parseWorkspacesField :: "(string, json) js_map \<Rightarrow> string + string list option" where
  "parseWorkspacesField obj = parse_ids_field ''workspaces'' ''scopes.workspaces must be an array of workspace IDs or null'' obj"

definition parse_permission :: "string \<times> json \<Rightarrow> string + (string \<times> bool)" where
  "parse_permission kv = (case kv of (key, v) \<Rightarrow>
     if key \<notin> set ALL_PERMISSION_GRANTS then Inl (''scopes.permissions contains unknown permission: '' @ key)
     else case v of JBool b \<Rightarrow> Inr (key, b) | _ \<Rightarrow> Inl (''scopes.permissions.'' @ key @ '' must be a boolean''))"

definition parsePermissionsField :: "(string, json) js_map \<Rightarrow> string + (string, bool) js_map" where
  "parsePermissionsField obj = (case js_get obj ''permissions'' of
     Some (JObj ps) \<Rightarrow> map_result parse_permission ps
   | _ \<Rightarrow> Inl ''scopes.permissions must be an object'')"

definition parseScopesRaw :: "(string \<Rightarrow> json option) \<Rightarrow> json \<Rightarrow> string + json" where
  "parseScopesRaw jp raw = (case raw of
     JStr s \<Rightarrow> (case jp s of None \<Rightarrow> Inl ''scopes must be valid JSON'' | Some v \<Rightarrow> Inr v) | _ \<Rightarrow> Inr raw)"

definition assertScopesObject :: "json \<Rightarrow> string + (string, json) js_map" where
  "assertScopesObject parsed = (case json_record parsed of None \<Rightarrow> Inl ''scopes must be an object'' | Some m \<Rightarrow> Inr m)"

definition parseTokenScopes :: "(string \<Rightarrow> json option) \<Rightarrow> json option \<Rightarrow> string + token_scopes option" where
  "parseTokenScopes jp raw = (case raw of
     None \<Rightarrow> Inr None
   | Some r \<Rightarrow>
       if r = JNull \<or> r = JStr [] then Inr None
       else bind_result (parseScopesRaw jp r) (\<lambda>parsed.
         bind_result (assertScopesObject parsed) (\<lambda>obj.
         if js_get obj ''version'' \<noteq> Some (JNum (Finite 1)) then Inl ''scopes.version must be 1''
         else bind_result (parseOrgsField obj) (\<lambda>orgs.
           bind_result (parseProjectsField obj) (\<lambda>projects.
           bind_result (parseWorkspacesField obj) (\<lambda>workspaces.
           bind_result (parseTagExpression (js_get obj ''tags'')) (\<lambda>tags.
           bind_result (parsePermissionsField obj) (\<lambda>permissions.
             Inr (Some \<lparr>ts_orgs = orgs, ts_projects = projects, ts_workspaces = workspaces, ts_tags = tags,
               ts_permissions = permissions\<rparr>)))))))))"


section \<open>What a scope grants\<close>

definition implied :: "(string \<times> string) set" where
  "implied = {(g, h). h \<in> set (implications g)}"

lemma grant_search_sound: "grant_search c queue seen \<Longrightarrow> \<exists>x \<in> set queue. (x, c) \<in> implied\<^sup>*"
proof (induction c queue seen rule: grant_search.induct)
  case (2 c x queue seen)
  consider "x = c" | "x \<noteq> c" "x \<in> set seen" | "x \<noteq> c" "x \<notin> set seen" by blast
  then show ?case
  proof cases
    case 3
    with 2 obtain y where "y \<in> set queue \<union> set (implications x)" "(y, c) \<in> implied\<^sup>*" by auto
    then show ?thesis by (auto simp: implied_def intro: converse_rtrancl_into_rtrancl)
  qed (use 2 in auto)
qed simp

definition search_inv :: "string \<Rightarrow> string list \<Rightarrow> string list \<Rightarrow> bool" where
  "search_inv c queue seen \<longleftrightarrow> (\<forall>s \<in> set seen. \<forall>x \<in> set (implications s). x \<in> set queue \<or> x \<in> set seen \<and> x \<noteq> c)"

lemma grant_search_complete:
  "search_inv c queue seen \<Longrightarrow> g \<in> set seen \<Longrightarrow> \<not> grant_search c queue seen \<Longrightarrow> (g, c) \<notin> implied\<^sup>+"
proof (induction c queue seen rule: grant_search.induct)
  case (1 c seen)
  have "x \<in> set seen \<and> x \<noteq> c" if "(g, x) \<in> implied\<^sup>+" for x
    using that
  proof (induction rule: trancl_induct)
    case (base y)
    with 1 show ?case by (auto simp: search_inv_def implied_def)
  next
    case (step y z)
    with 1 show ?case by (auto simp: search_inv_def implied_def)
  qed
  then show ?case by blast
next
  case (2 c x queue seen)
  have ne: "x \<noteq> c" using 2(5) by auto
  show ?case
  proof (cases "x \<in> set seen")
    case True
    have "search_inv c queue seen" using 2(3) ne True by (auto simp: search_inv_def)
    then show ?thesis using 2(1) [OF ne True] 2(4,5) ne True by simp
  next
    case False
    have "search_inv c (queue @ implications x) (x # seen)" using 2(3) ne by (auto simp: search_inv_def)
    then show ?thesis using 2(2) [OF ne False] 2(4,5) ne False by simp
  qed
qed

lemma grantImplies_iff: "grantImplies g c \<longleftrightarrow> (g, c) \<in> implied\<^sup>+"
proof
  assume "grantImplies g c"
  then obtain x where "x \<in> set (implications g)" "(x, c) \<in> implied\<^sup>*"
    unfolding grantImplies_def using grant_search_sound by blast
  then show "(g, c) \<in> implied\<^sup>+" by (auto simp: implied_def intro: rtrancl_into_trancl2)
next
  have "search_inv c (implications g) [g]" by (simp add: search_inv_def)
  from grant_search_complete [OF this, of g] show "(g, c) \<in> implied\<^sup>+ \<Longrightarrow> grantImplies g c"
    by (auto simp: grantImplies_def)
qed

lemma scopeGrants_iff: "scopeGrants scope p \<longleftrightarrow> (\<exists>g. js_get (ts_permissions scope) g = Some True \<and> (g, p) \<in> implied\<^sup>*)"
proof -
  have "g \<in> fst ` set (ts_permissions scope)" if "js_get (ts_permissions scope) g = Some True" for g
    using map_of_SomeD [OF that] by force
  then show ?thesis
    by (auto simp: scopeGrants_def list_ex_iff grantImplies_iff rtrancl_eq_or_trancl)
qed

lemma implications_mono:
  assumes "list_all (\<lambda>(g, hs). list_all (\<lambda>h. P g \<longrightarrow> P h) hs) GRANT_IMPLICATIONS" "(g, h) \<in> implied\<^sup>*" "P g"
  shows "P h"
  using assms(2,3)
proof (induction rule: rtrancl_induct)
  case (step y z)
  then have y: "P y" and z: "z \<in> set (implications y)" by (auto simp: implied_def)
  then obtain hs where "(y, hs) \<in> set GRANT_IMPLICATIONS" "z \<in> set hs"
    by (cases "js_get GRANT_IMPLICATIONS y") (auto simp: implications_def dest: map_of_SomeD)
  with assms(1) y show ?case by (auto simp: list_all_iff)
qed

text \<open>A scope grants a permission exactly when one of its enabled grants is connected to it by the
  implications, whatever the order of the search; a scope whose enabled grants all read can only read, and
  none can override a policy unless it names that grant or writes settings.\<close>

theorem scope_grants_exactly:
  "(scopeGrants scope p \<longleftrightarrow> (\<exists>g. js_get (ts_permissions scope) g = Some True \<and> (g, p) \<in> implied\<^sup>*)) \<and>
   ((\<forall>g. js_get (ts_permissions scope) g = Some True \<longrightarrow> ends_with '':read'' g) \<longrightarrow> scopeGrants scope p \<longrightarrow> ends_with '':read'' p) \<and>
   (scopeGrants scope ''runs:policy-override'' \<longrightarrow>
     js_get (ts_permissions scope) ''runs:policy-override'' = Some True \<or> js_get (ts_permissions scope) ''settings:write'' = Some True)"
proof -
  have r: "list_all (\<lambda>(g, hs). list_all (\<lambda>h. ends_with '':read'' g \<longrightarrow> ends_with '':read'' h) hs) GRANT_IMPLICATIONS" by code_simp
  have o: "list_all (\<lambda>(g, hs). list_all (\<lambda>h. g \<notin> {''runs:policy-override'', ''settings:write''} \<longrightarrow>
      h \<notin> {''runs:policy-override'', ''settings:write''}) hs) GRANT_IMPLICATIONS" by code_simp
  have "ends_with '':read'' p"
    if "\<forall>g. js_get (ts_permissions scope) g = Some True \<longrightarrow> ends_with '':read'' g" "scopeGrants scope p"
    using implications_mono [OF r] that by (auto simp: scopeGrants_iff)
  moreover have "js_get (ts_permissions scope) ''runs:policy-override'' = Some True \<or> js_get (ts_permissions scope) ''settings:write'' = Some True"
    if "scopeGrants scope ''runs:policy-override''"
    using implications_mono [OF o] that unfolding scopeGrants_iff by blast
  ultimately show ?thesis by (simp only: scopeGrants_iff) blast
qed

section \<open>Well-formed scopes\<close>

fun rule_depth :: "tag_rule \<Rightarrow> nat" where
  "rule_depth (Tag_filter k v) = 0"
| "rule_depth (Tag_group c rules) = Suc (fold max (map rule_depth rules) 0)"

text \<open>\<open>tag_rule_wf n r\<close>: named filters and non-empty groups, nested at most \<open>n\<close> deep.\<close>

fun tag_rule_wf :: "nat \<Rightarrow> tag_rule \<Rightarrow> bool" where
  "tag_rule_wf n (Tag_filter k v) \<longleftrightarrow> k \<noteq> []"
| "tag_rule_wf n (Tag_group c rules) \<longleftrightarrow> n \<noteq> 0 \<and> rules \<noteq> [] \<and> list_all (tag_rule_wf (n - 1)) rules"

definition scope_wf :: "token_scopes \<Rightarrow> bool" where
  "scope_wf s \<longleftrightarrow> ts_orgs s \<noteq> [] \<and> [] \<notin> set (ts_orgs s) \<and>
     (case ts_projects s of None \<Rightarrow> True | Some ps \<Rightarrow> [] \<notin> set ps) \<and>
     (case ts_workspaces s of None \<Rightarrow> True | Some ws \<Rightarrow> [] \<notin> set ws) \<and>
     (case ts_tags s of None \<Rightarrow> True | Some t \<Rightarrow> tt_rules t \<noteq> [] \<and> list_all (tag_rule_wf MAX_TAG_RULE_DEPTH) (tt_rules t)) \<and>
     fst ` set (ts_permissions s) \<subseteq> set ALL_PERMISSION_GRANTS"

text \<open>The JSON value a scope is stored as.\<close>

definition combinator_json :: "combinator \<Rightarrow> json" where
  "combinator_json c = JStr (if c = AND then ''AND'' else ''OR'')"

fun rule_json :: "tag_rule \<Rightarrow> json" where
  "rule_json (Tag_filter k v) = JObj [(''key'', JStr k), (''value'', JStr v)]"
| "rule_json (Tag_group c rules) = JObj [(''combinator'', combinator_json c), (''rules'', JArr (map rule_json rules))]"

definition ids_json :: "string list option \<Rightarrow> json" where
  "ids_json ids = (case ids of None \<Rightarrow> JNull | Some xs \<Rightarrow> JArr (map JStr xs))"

definition scope_json :: "token_scopes \<Rightarrow> json" where
  "scope_json s = JObj [(''version'', JNum (Finite 1)), (''orgs'', JArr (map JStr (ts_orgs s))), (''projects'', ids_json (ts_projects s)),
     (''workspaces'', ids_json (ts_workspaces s)),
     (''tags'', case ts_tags s of None \<Rightarrow> JNull
        | Some t \<Rightarrow> JObj [(''combinator'', combinator_json (tt_combinator t)), (''rules'', JArr (map rule_json (tt_rules t)))]),
     (''permissions'', JObj (map (\<lambda>(k, b). (k, JBool b)) (ts_permissions s)))]"

lemma list_all_map_result:
  assumes "map_result f xs = Inr ys" "\<And>x y. x \<in> set xs \<Longrightarrow> f x = Inr y \<Longrightarrow> P y"
  shows "list_all P ys"
  using assms by (auto simp: list_all_iff dest!: map_result_mem)

lemma map_result_length: "map_result f xs = Inr ys \<Longrightarrow> length ys = length xs"
  by (metis list_all2_lengthD map_result_Inr)

lemma indexed_Nil_iff [simp]: "indexed p xs = [] \<longleftrightarrow> xs = []"
  by (cases xs) (simp_all add: indexed_def)

lemma length_indexed [simp]: "length (indexed p xs) = length xs"
  by (simp add: indexed_def)

lemma parse_rule_depth: "parseTagRule raw path depth = Inr r \<Longrightarrow> depth \<le> MAX_TAG_RULE_DEPTH"
  by (subst (asm) parseTagRule.simps) (auto split: if_splits)

lemma parse_rule_wf: "parseTagRule raw path depth = Inr r \<Longrightarrow> tag_rule_wf (MAX_TAG_RULE_DEPTH - depth) r"
proof (induction raw path depth arbitrary: r rule: parseTagRule.induct)
  case (1 raw path depth)
  have d: "\<not> MAX_TAG_RULE_DEPTH < depth" using parse_rule_depth [OF 1(2)] by simp
  from 1(2) d obtain obj where obj: "raw = JObj obj"
    by (subst (asm) parseTagRule.simps) (auto split: json.splits)
  show ?case
  proof (cases "js_get obj ''combinator''")
    case None
    with 1(2) d obj show ?thesis
      by (subst (asm) parseTagRule.simps) (auto simp: isTagFilter_def split: option.splits json.splits if_splits)
  next
    case (Some c)
    with 1(2) d obj obtain comb rules rs where c: "isCombinator c = Some comb" "js_get obj ''rules'' = Some (JArr rules)" "rules \<noteq> []"
      "map_result (\<lambda>(p, r). parseTagRule r p (depth + 1)) (indexed (path @ ''.rules'') rules) = Inr rs" "r = Tag_group comb rs"
      by (subst (asm) parseTagRule.simps) (auto split: option.splits json.splits if_splits simp: bind_result_Inr_iff)
    have ne: "rs \<noteq> []" using map_result_length [OF c(4)] c(3) by auto
    have kids: "depth + 1 \<le> MAX_TAG_RULE_DEPTH \<and> tag_rule_wf (MAX_TAG_RULE_DEPTH - (depth + 1)) y"
      if x: "x \<in> set (indexed (path @ ''.rules'') rules)" "(case x of (p, r) \<Rightarrow> parseTagRule r p (depth + 1)) = Inr y" for x y
    proof -
      obtain p q where pq: "x = (p, q)" by (cases x)
      show ?thesis
        using 1(1) [OF d obj Some c(1,2) _ c(3) x(1) pq [symmetric]] x(2) parse_rule_depth [of q p "depth + 1" y] by (simp add: pq)
    qed
    have "list_all (\<lambda>y. depth + 1 \<le> MAX_TAG_RULE_DEPTH \<and> tag_rule_wf (MAX_TAG_RULE_DEPTH - (depth + 1)) y) rs"
      using kids by (rule list_all_map_result [OF c(4)])
    then show ?thesis using d c(5) ne by (cases rs) (auto simp: list_all_iff)
  qed
qed

lemma map_result_indexed:
  assumes "\<And>x q. x \<in> set xs \<Longrightarrow> f (q, h x) = Inr x"
  shows "map_result f (indexed path (map h xs)) = Inr xs"
proof -
  have "map_result f (map (\<lambda>(i, r). (g i, r)) (enumerate k (map h xs))) = Inr xs" for g :: "nat \<Rightarrow> string" and k
    using assms by (induction xs arbitrary: k) simp_all
  from this [of "\<lambda>i. path @ ''['' @ nat_string i @ '']''" 0] show ?thesis by (simp add: indexed_def)
qed

lemma isCombinator_json [simp]: "isCombinator (combinator_json c) = Some c"
  by (cases c) (simp_all add: isCombinator_def combinator_json_def)

lemma parse_rule_json: "tag_rule_wf n r \<Longrightarrow> n + depth \<le> MAX_TAG_RULE_DEPTH \<Longrightarrow> parseTagRule (rule_json r) path depth = Inr r"
proof (induction n r arbitrary: depth path rule: tag_rule_wf.induct)
  case (1 n k v)
  then show ?case by (subst parseTagRule.simps) (simp add: isTagFilter_def)
next
  case (2 n c rules)
  have kids: "parseTagRule (rule_json x) q (depth + 1) = Inr x" if "x \<in> set rules" for x q
    using 2 that by (auto simp: list_all_iff)
  have "map_result (\<lambda>(p, r). parseTagRule r p (depth + 1)) (indexed (path @ ''.rules'') (map rule_json rules)) = Inr rules"
    by (rule map_result_indexed) (simp add: kids [simplified])
  then show ?case using 2(2,3) by (subst parseTagRule.simps) simp
qed

lemma string_array_strings: "string_array (map JStr xs) = (if [] \<in> set xs then None else Some xs)"
  by (auto simp: string_array_def list_all_iff comp_def)

lemma string_array_Some: "string_array xs = Some ys \<Longrightarrow> [] \<notin> set ys \<and> length ys = length xs"
proof -
  assume s: "string_array xs = Some ys"
  have str: "(case x of JStr t \<Rightarrow> t \<noteq> [] | _ \<Rightarrow> False) \<Longrightarrow> \<exists>t. x = JStr t \<and> t \<noteq> []" for x
    by (cases x) auto
  from s have "\<forall>x \<in> set xs. case x of JStr t \<Rightarrow> t \<noteq> [] | _ \<Rightarrow> False"
    by (simp add: string_array_def list_all_iff split: if_splits)
  then have "\<forall>x \<in> set xs. \<exists>t. x = JStr t \<and> t \<noteq> []" using str by blast
  then have "\<forall>x \<in> set xs. (case x of JStr t \<Rightarrow> t | _ \<Rightarrow> []) \<noteq> []" by force
  moreover have "ys = map (\<lambda>x. case x of JStr t \<Rightarrow> t | _ \<Rightarrow> []) xs"
    using s by (simp add: string_array_def split: if_splits)
  ultimately show "[] \<notin> set ys \<and> length ys = length xs" by (metis (no_types, lifting) imageE length_map set_map)
qed

lemma parse_ids_json:
  "js_get obj key = Some (ids_json ids) \<Longrightarrow> (case ids of None \<Rightarrow> True | Some xs \<Rightarrow> [] \<notin> set xs) \<Longrightarrow> parse_ids_field key msg obj = Inr ids"
  by (cases ids) (simp_all add: parse_ids_field_def ids_json_def string_array_strings)

lemma parse_ids_wf: "parse_ids_field key msg obj = Inr (Some ids) \<Longrightarrow> [] \<notin> set ids"
  by (auto simp: parse_ids_field_def dest!: string_array_Some split: option.splits json.splits)

lemma parse_tags_wf:
  assumes "parseTagExpression raw = Inr (Some t)"
  shows "tt_rules t \<noteq> [] \<and> list_all (tag_rule_wf MAX_TAG_RULE_DEPTH) (tt_rules t)"
proof -
  from assms obtain p rules where r: "rules \<noteq> []"
    "map_result (\<lambda>(p, r). parseTagRule r p 0) (indexed p rules) = Inr (tt_rules t)"
    by (auto simp: parseTagExpression_def bind_result_Inr_iff split: option.splits json.splits if_splits)
  have "list_all (tag_rule_wf MAX_TAG_RULE_DEPTH) (tt_rules t)"
    using parse_rule_wf [of _ _ 0] by (intro list_all_map_result [OF r(2)]) auto
  with map_result_length [OF r(2)] r(1) show ?thesis by auto
qed

lemma parse_tags_json:
  assumes "case tags of None \<Rightarrow> True | Some t \<Rightarrow> tt_rules t \<noteq> [] \<and> list_all (tag_rule_wf MAX_TAG_RULE_DEPTH) (tt_rules t)"
  shows "parseTagExpression (Some (case tags of None \<Rightarrow> JNull
    | Some t \<Rightarrow> JObj [(''combinator'', combinator_json (tt_combinator t)), (''rules'', JArr (map rule_json (tt_rules t)))])) = Inr tags"
proof (cases tags)
  case (Some t)
  have "map_result (\<lambda>(p, r). parseTagRule r p 0) (indexed ''scopes.tags.rules'' (map rule_json (tt_rules t))) = Inr (tt_rules t)"
    using assms parse_rule_json [of MAX_TAG_RULE_DEPTH _ 0] by (intro map_result_indexed) (auto simp: Some list_all_iff)
  with assms show ?thesis by (simp add: Some parseTagExpression_def)
qed (simp add: parseTagExpression_def)

lemma parse_permissions_wf: "map_result parse_permission ps = Inr qs \<Longrightarrow> fst ` set qs \<subseteq> set ALL_PERMISSION_GRANTS"
  by (auto dest!: map_result_mem simp: parse_permission_def split: if_splits json.splits)

lemma parse_permissions_json:
  "fst ` set qs \<subseteq> set ALL_PERMISSION_GRANTS \<Longrightarrow> map_result parse_permission (map (\<lambda>(k, b). (k, JBool b)) qs) = Inr qs"
  by (induction qs) (auto simp: parse_permission_def)

lemma scope_json_parses: "scope_wf s \<Longrightarrow> parseTokenScopes jp (Some (scope_json s)) = Inr (Some s)"
  by (auto simp: scope_wf_def scope_json_def parseTokenScopes_def parseScopesRaw_def assertScopesObject_def json_record_def
    parseOrgsField_def string_array_strings parseProjectsField_def parseWorkspacesField_def parse_ids_json [where ids = "ts_projects s"]
    parse_ids_json [where ids = "ts_workspaces s"] parse_tags_json parsePermissionsField_def parse_permissions_json)

text \<open>C37: a stored scope is what the parser promises: a parsed scope names at least one organization and no
  empty id, its tag rules are non-empty groups nested at most sixteen deep, its grants are known, and storing it as JSON and
  parsing it again gives the same scope.\<close>

theorem parsed_scope_well_formed:
  assumes "parseTokenScopes jp raw = Inr (Some s)"
  shows "scope_wf s \<and> parseTokenScopes jp (Some (scope_json s)) = Inr (Some s)"
proof -
  from assms obtain obj where obj:
    "parseOrgsField obj = Inr (ts_orgs s)" "parseProjectsField obj = Inr (ts_projects s)" "parseWorkspacesField obj = Inr (ts_workspaces s)"
    "parseTagExpression (js_get obj ''tags'') = Inr (ts_tags s)" "parsePermissionsField obj = Inr (ts_permissions s)"
    by (auto simp: parseTokenScopes_def bind_result_Inr_iff split: option.splits if_splits)
  have "ts_orgs s \<noteq> [] \<and> [] \<notin> set (ts_orgs s)"
    using obj(1) by (auto simp: parseOrgsField_def split: option.splits json.splits if_splits dest!: string_array_Some)
  moreover have "case ts_projects s of None \<Rightarrow> True | Some ps \<Rightarrow> [] \<notin> set ps"
    using obj(2) by (auto simp: parseProjectsField_def dest: parse_ids_wf split: option.split)
  moreover have "case ts_workspaces s of None \<Rightarrow> True | Some ps \<Rightarrow> [] \<notin> set ps"
    using obj(3) by (auto simp: parseWorkspacesField_def dest: parse_ids_wf split: option.split)
  moreover have "case ts_tags s of None \<Rightarrow> True | Some t \<Rightarrow> tt_rules t \<noteq> [] \<and> list_all (tag_rule_wf MAX_TAG_RULE_DEPTH) (tt_rules t)"
    using obj(4) parse_tags_wf by (auto split: option.split)
  moreover have "fst ` set (ts_permissions s) \<subseteq> set ALL_PERMISSION_GRANTS"
    using obj(5) parse_permissions_wf by (auto simp: parsePermissionsField_def split: option.splits json.splits)
  ultimately have "scope_wf s" by (simp add: scope_wf_def)
  with scope_json_parses show ?thesis by blast
qed

definition demo_scope :: token_scopes where
  "demo_scope = \<lparr>ts_orgs = [''o''], ts_projects = None, ts_workspaces = Some [''w''],
    ts_tags = Some \<lparr>tt_combinator = OR, tt_rules = [Tag_group AND [Tag_filter ''env'' ''prod''], Tag_filter ''tier'' ''web'']\<rparr>,
    ts_permissions = [(''runs:plan'', True), (''state:read'', False)]\<rparr>"

lemma parsed_scope_well_formed_witness: "scope_wf demo_scope"
proof -
  have "parseTokenScopes (\<lambda>_. None) (Some (scope_json demo_scope)) = Inr (Some demo_scope)" by code_simp
  then show ?thesis using parsed_scope_well_formed by blast
qed

definition reader_scope :: token_scopes where
  "reader_scope = \<lparr>ts_orgs = [''o''], ts_projects = None, ts_workspaces = None, ts_tags = None,
    ts_permissions = [(''settings:read'', True), (''settings:write'', False)]\<rparr>"

lemma scope_grants_exactly_witness:
  "(''settings:read'', ''policies:read'') \<in> implied\<^sup>* \<and> \<not> scopeGrants reader_scope ''policies:write'' \<and> \<not> scopeGrants reader_scope ''runs:policy-override''"
proof -
  have g: "scopeGrants reader_scope ''policies:read''" by code_simp
  have p: "js_get (ts_permissions reader_scope) g = Some True \<longleftrightarrow> g = ''settings:read''" for g
    by (simp add: reader_scope_def)
  have "ends_with '':read'' ''settings:read''" "\<not> ends_with '':read'' ''policies:write''" by code_simp+
  then show ?thesis
    using scope_grants_exactly [of reader_scope "''policies:read''"] scope_grants_exactly [of reader_scope "''policies:write''"] g p by auto
qed

end
