(* ===== verification/Permissions.thy ===== *)
theory Permissions imports TokenScopes begin

text \<open>
  What a grant on an organization, a project or a workspace allows: the pure part of the permission
  derivation in \<open>lib/utils.ts\<close>. An access object is a map from permission names to JSON values.
\<close>

section \<open>Permissions\<close>

datatype organization_permission =
  Manage_policies | Read_policies | Manage_policy_overrides | Delegate_policy_overrides | Manage_run_tasks | Read_run_tasks
| Manage_workspaces | Manage_vcs_settings | Read_vcs_settings | Manage_agent_pools | Read_agent_pools | Manage_providers
| Manage_modules | Manage_projects | Read_projects | Read_workspaces | Manage_membership | Manage_teams
| Manage_organization_access | Manage_varsets | Read_varsets

datatype workspace_permission =
  P_read | P_run_read | P_plan | P_apply | P_discard | P_cancel | P_lock | P_admin | P_run_tasks | P_run_tasks_read
| P_policy_override | P_variables_read | P_variables_write | P_state_outputs | P_state_read | P_state_write

datatype project_permission = Project_read | Project_update | Project_delete | Project_manage_teams

definition permission_key :: "organization_permission \<Rightarrow> string" where
  "permission_key p = (case p of
     Manage_policies \<Rightarrow> ''manage-policies'' | Read_policies \<Rightarrow> ''read-policies''
   | Manage_policy_overrides \<Rightarrow> ''manage-policy-overrides'' | Delegate_policy_overrides \<Rightarrow> ''delegate-policy-overrides''
   | Manage_run_tasks \<Rightarrow> ''manage-run-tasks'' | Read_run_tasks \<Rightarrow> ''read-run-tasks''
   | Manage_workspaces \<Rightarrow> ''manage-workspaces'' | Manage_vcs_settings \<Rightarrow> ''manage-vcs-settings''
   | Read_vcs_settings \<Rightarrow> ''read-vcs-settings'' | Manage_agent_pools \<Rightarrow> ''manage-agent-pools''
   | Read_agent_pools \<Rightarrow> ''read-agent-pools'' | Manage_providers \<Rightarrow> ''manage-providers''
   | Manage_modules \<Rightarrow> ''manage-modules'' | Manage_projects \<Rightarrow> ''manage-projects'' | Read_projects \<Rightarrow> ''read-projects''
   | Read_workspaces \<Rightarrow> ''read-workspaces'' | Manage_membership \<Rightarrow> ''manage-membership'' | Manage_teams \<Rightarrow> ''manage-teams''
   | Manage_organization_access \<Rightarrow> ''manage-organization-access'' | Manage_varsets \<Rightarrow> ''manage-varsets''
   | Read_varsets \<Rightarrow> ''read-varsets'')"

type_synonym bool_access = "(string, bool) js_map"
type_synonym json_access = "(string, json) js_map"

section \<open>Organization access\<close>

definition TEAM_ORG_FALLBACK_MAP :: "(organization_permission \<times> organization_permission list) list" where
  "TEAM_ORG_FALLBACK_MAP = [
    (Read_workspaces, [Manage_workspaces, Read_projects, Manage_projects, Manage_agent_pools, Manage_policy_overrides]),
    (Manage_workspaces, [Manage_projects]),
    (Read_projects, [Manage_projects, Manage_agent_pools]),
    (Manage_membership, [Manage_teams, Manage_organization_access]),
    (Manage_teams, [Manage_organization_access]),
    (Read_policies, [Manage_policies]),
    (Read_vcs_settings, [Manage_vcs_settings]),
    (Read_agent_pools, [Manage_agent_pools]),
    (Read_run_tasks, [Manage_run_tasks]),
    (Manage_varsets, [Manage_workspaces, Manage_projects])]"

definition has_access :: "bool_access \<Rightarrow> organization_permission \<Rightarrow> bool" where
  "has_access access p \<longleftrightarrow> js_get access (permission_key p) = Some True"

definition hasAnyFallback :: "bool_access \<Rightarrow> organization_permission list \<Rightarrow> bool" where
  "hasAnyFallback access keys = list_ex (has_access access) keys"

function teamOrganizationAllows :: "bool_access \<Rightarrow> organization_permission \<Rightarrow> bool" where
  "teamOrganizationAllows access required =
    (if has_access access required then True
     else if required = Read_varsets then
       (if has_access access Manage_varsets then True else teamOrganizationAllows access Read_workspaces)
     else case js_get TEAM_ORG_FALLBACK_MAP required of None \<Rightarrow> False | Some fallbacks \<Rightarrow> hasAnyFallback access fallbacks)"
  by auto
termination by (relation "measure (\<lambda>(a, r). if r = Read_varsets then 1 else 0)") auto

declare teamOrganizationAllows.simps [simp del]

definition organizationPermissionGrant :: "organization_permission \<Rightarrow> string option" where
  "organizationPermissionGrant required = (case required of
     Manage_policies \<Rightarrow> Some ''policies:write''
   | Read_policies \<Rightarrow> Some ''policies:read''
   | Manage_policy_overrides \<Rightarrow> Some ''runs:policy-override''
   | Delegate_policy_overrides \<Rightarrow> Some ''runs:policy-override''
   | Manage_run_tasks \<Rightarrow> Some ''run-tasks:write''
   | Read_run_tasks \<Rightarrow> Some ''run-tasks:read''
   | Manage_vcs_settings \<Rightarrow> Some ''vcs:write''
   | Read_vcs_settings \<Rightarrow> Some ''vcs:read''
   | Manage_agent_pools \<Rightarrow> Some ''agent-pools:write''
   | Read_agent_pools \<Rightarrow> Some ''agent-pools:read''
   | Manage_providers \<Rightarrow> Some ''registry:write''
   | Manage_modules \<Rightarrow> Some ''registry:write''
   | Manage_projects \<Rightarrow> Some ''projects:write''
   | Read_projects \<Rightarrow> Some ''projects:read''
   | Read_workspaces \<Rightarrow> Some ''workspaces:read''
   | Manage_workspaces \<Rightarrow> Some ''workspaces:write''
   | Manage_membership \<Rightarrow> Some ''members:write''
   | Manage_teams \<Rightarrow> Some ''teams:write''
   | Manage_organization_access \<Rightarrow> Some ''teams:write''
   | Manage_varsets \<Rightarrow> Some ''varsets:write''
   | Read_varsets \<Rightarrow> Some ''varsets:read'')"

section \<open>Workspace access of a team\<close>

definition NON_CUSTOM_ALLOWS :: "(string \<times> workspace_permission list) list" where
  "NON_CUSTOM_ALLOWS = [
    (''admin'', [P_read, P_run_read, P_plan, P_apply, P_discard, P_cancel, P_lock, P_variables_read, P_variables_write,
       P_state_outputs, P_state_read, P_state_write]),
    (''write'', [P_read, P_run_read, P_plan, P_apply, P_discard, P_cancel, P_lock, P_variables_read, P_variables_write,
       P_state_outputs, P_state_read, P_state_write]),
    (''plan'', [P_read, P_run_read, P_plan, P_variables_read, P_state_outputs, P_state_read]),
    (''read'', [P_read, P_run_read, P_variables_read, P_state_outputs, P_state_read])]"

definition allowsNonCustomLevel :: "string \<Rightarrow> workspace_permission \<Rightarrow> bool" where
  "allowsNonCustomLevel accessLevel required =
    (if accessLevel = ''admin'' then True
     else case js_get NON_CUSTOM_ALLOWS accessLevel of None \<Rightarrow> False | Some allowed \<Rightarrow> required \<in> set allowed)"

text \<open>\<open>typeof access[key] === "string" ? access[key] : d\<close>, and \<open>access[key] === true\<close>.\<close>

definition string_level :: "json_access \<Rightarrow> string \<Rightarrow> string \<Rightarrow> string" where
  "string_level access key d = (case js_get access key of Some (JStr s) \<Rightarrow> s | _ \<Rightarrow> d)"

definition is_true :: "json_access \<Rightarrow> string \<Rightarrow> bool" where
  "is_true access key \<longleftrightarrow> js_get access key = Some (JBool True)"

definition allowsCustomRuns :: "string \<Rightarrow> workspace_permission \<Rightarrow> bool option" where
  "allowsCustomRuns level required =
    (if required = P_read \<or> required = P_run_read then Some (level \<in> {''read'', ''plan'', ''apply''})
     else if required = P_plan then Some (level = ''plan'' \<or> level = ''apply'')
     else if required = P_apply \<or> required = P_discard \<or> required = P_cancel then Some (level = ''apply'')
     else None)"

definition allowsCustomTaskOrLock :: "json_access \<Rightarrow> workspace_permission \<Rightarrow> bool option" where
  "allowsCustomTaskOrLock permissions required =
    (if required = P_run_tasks \<or> required = P_run_tasks_read then Some (is_true permissions ''run-tasks'')
     else if required = P_lock then Some (is_true permissions ''workspace-locking'')
     else None)"

definition allowsCustomVariables :: "json_access \<Rightarrow> workspace_permission \<Rightarrow> bool option" where
  "allowsCustomVariables permissions required =
    (let variableAccess = string_level permissions ''variables'' ''none'' in
     if required = P_variables_read then Some (variableAccess = ''read'' \<or> variableAccess = ''write'')
     else if required = P_variables_write then Some (variableAccess = ''write'')
     else None)"

definition allowsCustomState :: "json_access \<Rightarrow> workspace_permission \<Rightarrow> bool option" where
  "allowsCustomState permissions required =
    (let stateAccess = string_level permissions ''state-versions'' ''none'' in
     if required = P_state_outputs then Some (stateAccess \<in> {''read-outputs'', ''read'', ''write''})
     else if required = P_state_read then Some (stateAccess = ''read'' \<or> stateAccess = ''write'')
     else if required = P_state_write then Some (stateAccess = ''write'')
     else None)"

text \<open>\<open>a ?? b\<close> on optional booleans, and the answers in the order the code asks.\<close>

definition allowsCustomLevel :: "json_access \<Rightarrow> workspace_permission \<Rightarrow> bool" where
  "allowsCustomLevel permissions required =
    (case allowsCustomRuns (string_level permissions ''runs'' ''read'') required of Some b \<Rightarrow> b
     | None \<Rightarrow> (case allowsCustomTaskOrLock permissions required of Some b \<Rightarrow> b
     | None \<Rightarrow> (case allowsCustomVariables permissions required of Some b \<Rightarrow> b
     | None \<Rightarrow> js_default (allowsCustomState permissions required) False)))"

definition teamWorkspaceAllows :: "string \<Rightarrow> json_access option \<Rightarrow> workspace_permission \<Rightarrow> bool" where
  "teamWorkspaceAllows accessLevel rawPermissions required =
    (let permissions = js_default rawPermissions [] in
     if required = P_policy_override then accessLevel = ''custom'' \<and> is_true permissions ''policy-overrides''
     else if accessLevel \<noteq> ''custom'' then allowsNonCustomLevel accessLevel required
     else allowsCustomLevel permissions required)"

section \<open>Project access of a team\<close>

record team_project =
  tp_teamId :: string
  tp_projectId :: string
  tp_organizationId :: "string option"
  tp_access :: string
  tp_projectAccess :: "(string, string) js_map option"
  tp_workspaceAccess :: "json_access option"

definition TEAM_PROJECT_PROJECT_PRESETS :: "(string \<times> (string, string) js_map) list" where
  "TEAM_PROJECT_PROJECT_PRESETS = [
    (''read'', [(''settings'', ''read''), (''teams'', ''none'')]),
    (''write'', [(''settings'', ''read''), (''teams'', ''none'')]),
    (''maintain'', [(''settings'', ''read''), (''teams'', ''none'')]),
    (''admin'', [(''settings'', ''delete''), (''teams'', ''manage'')])]"

definition preset :: "(string \<times> 'a list) list \<Rightarrow> string \<Rightarrow> 'a list" where
  "preset presets access = js_default (js_get presets access) (js_default (js_get presets ''read'') [])"

definition resolvedTeamProjectProjectAccess :: "team_project \<Rightarrow> (string, string) js_map" where
  "resolvedTeamProjectProjectAccess grant =
    (if tp_access grant = ''custom'' then js_default (tp_projectAccess grant) []
     else preset TEAM_PROJECT_PROJECT_PRESETS (tp_access grant))"

definition teamProjectAllows :: "team_project \<Rightarrow> project_permission \<Rightarrow> bool" where
  "teamProjectAllows grant required =
    (let access = resolvedTeamProjectProjectAccess grant;
         settings = js_default (js_get access ''settings'') ''read'';
         teamAccess = js_default (js_get access ''teams'') ''none'' in
     case required of
       Project_read \<Rightarrow> settings \<in> {''read'', ''update'', ''delete''} \<or> teamAccess \<in> {''read'', ''manage''}
     | Project_update \<Rightarrow> settings = ''update'' \<or> settings = ''delete''
     | Project_delete \<Rightarrow> settings = ''delete''
     | Project_manage_teams \<Rightarrow> teamAccess = ''manage'')"

definition TEAM_PROJECT_WORKSPACE_PRESETS :: "(string \<times> json_access) list" where
  "TEAM_PROJECT_WORKSPACE_PRESETS = [
    (''read'', [(''create'', JBool False), (''move'', JBool False), (''locking'', JBool False), (''delete'', JBool False),
       (''runs'', JStr ''read''), (''variables'', JStr ''read''), (''state-versions'', JStr ''read''),
       (''run-tasks'', JBool False), (''policy-overrides'', JBool False)]),
    (''write'', [(''create'', JBool False), (''move'', JBool False), (''locking'', JBool True), (''delete'', JBool False),
       (''runs'', JStr ''apply''), (''variables'', JStr ''write''), (''state-versions'', JStr ''write''),
       (''run-tasks'', JBool False), (''policy-overrides'', JBool False)]),
    (''maintain'', [(''create'', JBool True), (''move'', JBool False), (''locking'', JBool True), (''delete'', JBool True),
       (''runs'', JStr ''apply''), (''variables'', JStr ''write''), (''state-versions'', JStr ''write''),
       (''run-tasks'', JBool True), (''policy-overrides'', JBool True)]),
    (''admin'', [(''create'', JBool True), (''move'', JBool True), (''locking'', JBool True), (''delete'', JBool True),
       (''runs'', JStr ''apply''), (''variables'', JStr ''write''), (''state-versions'', JStr ''write''),
       (''run-tasks'', JBool True), (''policy-overrides'', JBool True)])]"

definition resolvedTeamProjectWorkspaceAccess :: "team_project \<Rightarrow> json_access" where
  "resolvedTeamProjectWorkspaceAccess grant =
    (if tp_access grant = ''custom'' then js_default (tp_workspaceAccess grant) []
     else preset TEAM_PROJECT_WORKSPACE_PRESETS (tp_access grant))"

definition teamProjectRunAccessAllows :: "json_access \<Rightarrow> workspace_permission \<Rightarrow> bool option" where
  "teamProjectRunAccessAllows access required =
    (let level = string_level access ''runs'' ''read'' in
     if required = P_read \<or> required = P_run_read then Some (level \<in> {''read'', ''plan'', ''apply''})
     else if required = P_plan then Some (level = ''plan'' \<or> level = ''apply'')
     else if required = P_apply \<or> required = P_discard \<or> required = P_cancel then Some (level = ''apply'')
     else None)"

definition teamProjectWorkspaceControlAllows :: "json_access \<Rightarrow> workspace_permission \<Rightarrow> bool option" where
  "teamProjectWorkspaceControlAllows access required =
    (if required = P_lock then Some (is_true access ''locking'')
     else if required = P_admin then Some (is_true access ''delete'')
     else if required = P_run_tasks \<or> required = P_run_tasks_read then Some (is_true access ''run-tasks'')
     else if required = P_policy_override then Some (is_true access ''policy-overrides'')
     else None)"

definition teamProjectVariableAccessAllows :: "json_access \<Rightarrow> workspace_permission \<Rightarrow> bool option" where
  "teamProjectVariableAccessAllows access required =
    (let variables = string_level access ''variables'' ''none'' in
     if required = P_variables_read then Some (variables = ''read'' \<or> variables = ''write'')
     else if required = P_variables_write then Some (variables = ''write'')
     else None)"

definition teamProjectStateAccessAllows :: "json_access \<Rightarrow> workspace_permission \<Rightarrow> bool option" where
  "teamProjectStateAccessAllows access required =
    (let state = string_level access ''state-versions'' ''none'' in
     if required = P_state_outputs then Some (state \<in> {''read-outputs'', ''read'', ''write''})
     else if required = P_state_read then Some (state = ''read'' \<or> state = ''write'')
     else if required = P_state_write then Some (state = ''write'')
     else None)"

definition teamProjectWorkspaceAllows :: "team_project \<Rightarrow> workspace_permission \<Rightarrow> bool" where
  "teamProjectWorkspaceAllows grant required =
    (let access = resolvedTeamProjectWorkspaceAccess grant in
     case teamProjectRunAccessAllows access required of Some b \<Rightarrow> b
     | None \<Rightarrow> (case teamProjectWorkspaceControlAllows access required of Some b \<Rightarrow> b
     | None \<Rightarrow> (case teamProjectVariableAccessAllows access required of Some b \<Rightarrow> b
     | None \<Rightarrow> js_default (teamProjectStateAccessAllows access required) False)))"

section \<open>Organization access on workspaces\<close>

definition organizationAccessGrantsWorkspace :: "bool_access \<Rightarrow> workspace_permission \<Rightarrow> bool" where
  "organizationAccessGrantsWorkspace access required =
    (if teamOrganizationAllows access Manage_workspaces then True
     else if required = P_read \<and> has_access access Manage_policies then True
     else if required = P_policy_override \<and> has_access access Manage_policy_overrides then True
     else required \<in> {P_read, P_run_read, P_variables_read, P_state_outputs, P_state_read} \<and>
       teamOrganizationAllows access Read_workspaces)"

definition workspacePermissionGrant :: "workspace_permission \<Rightarrow> string list" where
  "workspacePermissionGrant required = (case required of
     P_read \<Rightarrow> [''workspaces:read'']
   | P_run_read \<Rightarrow> [''runs:read'']
   | P_admin \<Rightarrow> [''workspaces:write'']
   | P_plan \<Rightarrow> [''runs:plan'']
   | P_apply \<Rightarrow> [''runs:apply'']
   | P_discard \<Rightarrow> [''runs:discard'']
   | P_cancel \<Rightarrow> [''runs:cancel'']
   | P_lock \<Rightarrow> [''workspaces:lock'']
   | P_run_tasks \<Rightarrow> [''run-tasks:write'']
   | P_run_tasks_read \<Rightarrow> [''run-tasks:read'']
   | P_policy_override \<Rightarrow> [''runs:policy-override'']
   | P_variables_read \<Rightarrow> [''variables:read'']
   | P_variables_write \<Rightarrow> [''variables:write'']
   | P_state_outputs \<Rightarrow> [''state:read'']
   | P_state_read \<Rightarrow> [''state:read'']
   | P_state_write \<Rightarrow> [''state:write''])"

section \<open>Levels\<close>

text \<open>\<open>weaker p q\<close>: whoever is allowed \<open>q\<close> is allowed \<open>p\<close>.\<close>

definition LEVELS :: "(workspace_permission \<times> workspace_permission) list" where
  "LEVELS = [(P_plan, P_apply), (P_run_read, P_plan), (P_run_read, P_apply), (P_read, P_run_read), (P_read, P_plan),
    (P_read, P_apply), (P_discard, P_apply), (P_cancel, P_apply), (P_variables_read, P_variables_write),
    (P_state_read, P_state_write), (P_state_outputs, P_state_write), (P_state_outputs, P_state_read)]"

definition weaker :: "workspace_permission \<Rightarrow> workspace_permission \<Rightarrow> bool" where
  "weaker p q \<longleftrightarrow> p = q \<or> (p, q) \<in> set LEVELS"

lemma weaker_cases:
  assumes "weaker p q" "p = q \<Longrightarrow> R" "\<And>a b. (a, b) \<in> set LEVELS \<Longrightarrow> p = a \<Longrightarrow> q = b \<Longrightarrow> R"
  shows R
  using assms by (auto simp: weaker_def)

lemma allowsNonCustom_weaker: "(p, q) \<in> set LEVELS \<Longrightarrow> allowsNonCustomLevel level q \<Longrightarrow> allowsNonCustomLevel level p"
  by (auto simp: LEVELS_def allowsNonCustomLevel_def NON_CUSTOM_ALLOWS_def split: if_splits)

lemma allowsCustom_weaker: "(p, q) \<in> set LEVELS \<Longrightarrow> allowsCustomLevel perms q \<Longrightarrow> allowsCustomLevel perms p"
  by (auto simp: LEVELS_def allowsCustomLevel_def allowsCustomRuns_def allowsCustomTaskOrLock_def allowsCustomVariables_def
      allowsCustomState_def Let_def)

lemma teamWorkspaceAllows_weaker: "(p, q) \<in> set LEVELS \<Longrightarrow> teamWorkspaceAllows level perms q \<Longrightarrow> teamWorkspaceAllows level perms p"
  using allowsNonCustom_weaker [of p q level] allowsCustom_weaker [of p q "js_default perms []"]
  by (auto simp: teamWorkspaceAllows_def Let_def LEVELS_def split: if_splits)

lemma teamProjectWorkspaceAllows_weaker:
  "(p, q) \<in> set LEVELS \<Longrightarrow> teamProjectWorkspaceAllows grant q \<Longrightarrow> teamProjectWorkspaceAllows grant p"
  by (auto simp: LEVELS_def teamProjectWorkspaceAllows_def teamProjectRunAccessAllows_def teamProjectWorkspaceControlAllows_def
      teamProjectVariableAccessAllows_def teamProjectStateAccessAllows_def Let_def)

lemma organizationAccess_weaker:
  "(p, q) \<in> set LEVELS \<Longrightarrow> organizationAccessGrantsWorkspace access q \<Longrightarrow> organizationAccessGrantsWorkspace access p"
  by (auto simp: LEVELS_def organizationAccessGrantsWorkspace_def split: if_splits)

end
