(* ===== verification/Authorization.thy ===== *)
theory Authorization imports Permissions begin

text \<open>
  Authorization in \<open>lib/utils.ts\<close>: the rows a check reads, the membership facts and access details it derives
  from them, the workspaces and projects a principal may use, and the checks the routes call. A principal is the user,
  organization or team of the token with its scopes; the cache of one request is not modelled, a check reads one state of the
  database. \<open>None\<close> as a list of ids means every workspace or project of the organization.
\<close>

section \<open>Rows\<close>

record auth_user =
  au_id :: string
  au_isSiteAdmin :: bool

record membership =
  mb_id :: string
  mb_userId :: string
  mb_orgId :: string
  mb_role :: string
  mb_status :: string

record org_role =
  or_id :: string
  or_permissions :: "bool_access option"

record membership_role =
  mr_membershipId :: string
  mr_roleId :: string

record team =
  te_id :: string
  te_orgId :: string
  te_organizationAccess :: bool_access
  te_delegationExpiresAt :: "int option"

record team_membership =
  tm_userId :: string
  tm_teamId :: string

record team_workspace =
  tw_teamId :: string
  tw_workspaceId :: string
  tw_access :: string
  tw_permissions :: "json_access option"

record auth_workspace =
  aw_id :: string
  aw_orgId :: string
  aw_projectId :: "string option"
  aw_globalRemoteState :: "bool option"
  aw_projectRemoteState :: "bool option"

record auth_project =
  pj_id :: string
  pj_orgId :: string

record workspace_tag =
  wt_workspaceId :: string
  wt_key :: string
  wt_value :: "string option"

record auth_organization =
  og_id :: string
  og_globalModuleSharing :: bool
  og_globalProviderSharing :: bool

record partnership =
  pn_producerOrgId :: string
  pn_consumerOrgId :: string
  pn_modules :: bool
  pn_providers :: bool

record auth_db =
  db_users :: "auth_user table"
  db_memberships :: "membership table"
  db_roles :: "org_role table"
  db_membershipRoles :: "membership_role table"
  db_teams :: "team table"
  db_teamMemberships :: "team_membership table"
  db_teamWorkspaces :: "team_workspace table"
  db_teamProjects :: "team_project table"
  db_projects :: "auth_project table"
  db_workspaces :: "auth_workspace table"
  db_workspaceTags :: "workspace_tag table"
  db_organizations :: "auth_organization table"
  db_partnerships :: "partnership table"
  db_remoteStateConsumers :: "(string \<times> string) table"

record principal =
  pr_userId :: "string option"
  pr_tokenOrgId :: "string option"
  pr_tokenTeamId :: "string option"
  pr_scopes :: "token_scopes option"

section \<open>Membership facts\<close>

record membership_facts =
  mf_isOwner :: bool
  mf_isMember :: bool
  mf_membership :: "membership option"

definition loadMembershipFacts :: "auth_db \<Rightarrow> string \<Rightarrow> string \<Rightarrow> membership_facts" where
  "loadMembershipFacts db userId orgId =
    (let user = db_find (\<lambda>u. au_id u = userId) (db_users db);
         membership = db_find (\<lambda>m. mb_userId m = userId \<and> mb_orgId m = orgId) (db_memberships db) in
     if (case user of None \<Rightarrow> False | Some u \<Rightarrow> au_isSiteAdmin u) then \<lparr>mf_isOwner = True, mf_isMember = True, mf_membership = None\<rparr>
     else case membership of
       None \<Rightarrow> \<lparr>mf_isOwner = False, mf_isMember = False, mf_membership = None\<rparr>
     | Some m \<Rightarrow>
         if mb_status m \<noteq> ''active'' then \<lparr>mf_isOwner = False, mf_isMember = False, mf_membership = Some m\<rparr>
         else \<lparr>mf_isOwner = (mb_role m = ''owner''), mf_isMember = True, mf_membership = Some m\<rparr>)"

definition loadUserTeamRoster :: "auth_db \<Rightarrow> string \<Rightarrow> string \<Rightarrow> string list \<times> team list" where
  "loadUserTeamRoster db orgId userId =
    (let teamIds = map tm_teamId (filter (\<lambda>m. tm_userId m = userId) (db_teamMemberships db)) in
     if teamIds = [] then (teamIds, [])
     else
       let userTeams = filter (\<lambda>t. te_orgId t = orgId \<and> te_id t \<in> set teamIds) (db_teams db) in
       (map te_id userTeams, userTeams))"

definition teamProjectGrantsForTeams :: "auth_db \<Rightarrow> string \<Rightarrow> string list \<Rightarrow> team_project list" where
  "teamProjectGrantsForTeams db orgId teamIds =
    (if teamIds = [] then []
     else
       let candidates = filter (\<lambda>g. tp_teamId g \<in> set teamIds \<and> (tp_organizationId g = Some orgId \<or> tp_organizationId g = None))
             (db_teamProjects db) in
       if candidates = [] then []
       else
         let projectIds = js_unique (map tp_projectId candidates);
             validProjectIds = map pj_id (filter (\<lambda>p. pj_orgId p = orgId \<and> pj_id p \<in> set projectIds) (db_projects db)) in
         filter (\<lambda>g. tp_projectId g \<in> set validProjectIds) candidates)"

definition workspaces_in_projects :: "auth_db \<Rightarrow> string \<Rightarrow> string list \<Rightarrow> auth_workspace list" where
  "workspaces_in_projects db orgId projectIds =
    (if projectIds = [] then []
     else filter (\<lambda>w. aw_orgId w = orgId \<and> (case aw_projectId w of None \<Rightarrow> False | Some p \<Rightarrow> p \<in> set projectIds)) (db_workspaces db))"

record team_access =
  ta_teamIds :: "string list"
  ta_teamWorkspaces :: "team_workspace list"
  ta_teamProjects :: "team_project list"
  ta_projectWorkspaces :: "auth_workspace list"
  ta_userTeams :: "team list"

definition loadUserTeamAccess :: "auth_db \<Rightarrow> string \<Rightarrow> string \<Rightarrow> team_access" where
  "loadUserTeamAccess db orgId userId = (case loadUserTeamRoster db orgId userId of (teamIds, userTeams) \<Rightarrow>
     if teamIds = [] then \<lparr>ta_teamIds = teamIds, ta_teamWorkspaces = [], ta_teamProjects = [], ta_projectWorkspaces = [], ta_userTeams = userTeams\<rparr>
     else
       let projectAccesses = teamProjectGrantsForTeams db orgId teamIds in
       \<lparr>ta_teamIds = teamIds, ta_teamWorkspaces = filter (\<lambda>g. tw_teamId g \<in> set teamIds) (db_teamWorkspaces db),
        ta_teamProjects = projectAccesses,
        ta_projectWorkspaces = workspaces_in_projects db orgId (js_unique (map tp_projectId projectAccesses)),
        ta_userTeams = userTeams\<rparr>)"

record org_access_details =
  oa_isOwner :: bool
  oa_isMember :: bool
  oa_directRoles :: "org_role list"
  oa_teamIds :: "string list"
  oa_userTeams :: "team list"

definition direct_roles :: "auth_db \<Rightarrow> membership option \<Rightarrow> org_role list" where
  "direct_roles db membership = (case membership of
     None \<Rightarrow> []
   | Some m \<Rightarrow>
       let assigned = filter (\<lambda>a. mr_membershipId a = mb_id m) (db_membershipRoles db) in
       if assigned = [] then [] else filter (\<lambda>r. or_id r \<in> set (map mr_roleId assigned)) (db_roles db))"

definition loadOrgAccessDetails :: "auth_db \<Rightarrow> string \<Rightarrow> string \<Rightarrow> org_access_details" where
  "loadOrgAccessDetails db orgId userId =
    (let facts = loadMembershipFacts db userId orgId in
     if \<not> mf_isOwner facts \<and> mf_isMember facts then
       (case loadUserTeamRoster db orgId userId of (teamIds, userTeams) \<Rightarrow>
         \<lparr>oa_isOwner = mf_isOwner facts, oa_isMember = mf_isMember facts, oa_directRoles = direct_roles db (mf_membership facts),
          oa_teamIds = teamIds, oa_userTeams = userTeams\<rparr>)
     else \<lparr>oa_isOwner = mf_isOwner facts, oa_isMember = mf_isMember facts, oa_directRoles = [], oa_teamIds = [], oa_userTeams = []\<rparr>)"

definition deriveOrgAccessAllows :: "org_access_details \<Rightarrow> organization_permission \<Rightarrow> bool" where
  "deriveOrgAccessAllows details required =
    (if oa_isOwner details then True
     else if \<not> oa_isMember details then False
     else if list_ex (\<lambda>r. teamOrganizationAllows (js_default (or_permissions r) []) required) (oa_directRoles details) then True
     else if oa_teamIds details = [] then False
     else list_ex (\<lambda>t. teamOrganizationAllows (te_organizationAccess t) required) (oa_userTeams details))"

section \<open>Organization checks\<close>

datatype required_role = Role_owner | Role_member

definition scopeAllowsOrgPermission :: "token_scopes \<Rightarrow> string \<Rightarrow> required_role \<Rightarrow> string option \<Rightarrow> bool" where
  "scopeAllowsOrgPermission scopes orgId requiredRole requiredGrant =
    (if \<not> scopeCoversOrg scopes orgId then False
     else case requiredGrant of
       Some g \<Rightarrow> scopeGrants scopes g
     | None \<Rightarrow> if requiredRole = Role_owner then scopeGrants scopes ''settings:write'' else True)"

definition checkTeamTokenOrgPermission :: "auth_db \<Rightarrow> string \<Rightarrow> string \<Rightarrow> required_role \<Rightarrow> bool" where
  "checkTeamTokenOrgPermission db tokenTeamId orgId requiredRole =
    (case db_find (\<lambda>t. te_id t = tokenTeamId) (db_teams db) of
       None \<Rightarrow> False | Some team \<Rightarrow> te_orgId team = orgId \<and> requiredRole = Role_member)"

definition checkOrgPermission :: "auth_db \<Rightarrow> principal \<Rightarrow> string \<Rightarrow> required_role \<Rightarrow> string option \<Rightarrow> bool" where
  "checkOrgPermission db pr orgId requiredRole requiredGrant =
    (if (case pr_scopes pr of None \<Rightarrow> False | Some s \<Rightarrow> \<not> scopeAllowsOrgPermission s orgId requiredRole requiredGrant) then False
     else case pr_tokenTeamId pr of
       Some tid \<Rightarrow> checkTeamTokenOrgPermission db tid orgId requiredRole
     | None \<Rightarrow>
         (case pr_tokenOrgId pr of
            Some oid \<Rightarrow> oid = orgId
          | None \<Rightarrow>
              (case pr_userId pr of
                 None \<Rightarrow> False
               | Some userId \<Rightarrow>
                   let facts = loadMembershipFacts db userId orgId in
                   if mf_isOwner facts then True
                   else if \<not> mf_isMember facts then False
                   else if requiredRole = Role_owner \<and>
                     (case mf_membership facts of None \<Rightarrow> True | Some m \<Rightarrow> mb_role m \<noteq> ''owner'') then False
                   else True)))"

definition checkOrganizationPermission :: "auth_db \<Rightarrow> principal \<Rightarrow> string \<Rightarrow> organization_permission \<Rightarrow> bool" where
  "checkOrganizationPermission db pr orgId required =
    (if (case pr_scopes pr of None \<Rightarrow> False | Some s \<Rightarrow> \<not> scopeCoversOrg s orgId) then False
     else if (case pr_scopes pr of None \<Rightarrow> False
         | Some s \<Rightarrow> (case organizationPermissionGrant required of None \<Rightarrow> False | Some g \<Rightarrow> \<not> scopeGrants s g)) then False
     else case pr_tokenOrgId pr of
       Some oid \<Rightarrow> oid = orgId
     | None \<Rightarrow>
         (case pr_tokenTeamId pr of
            Some tid \<Rightarrow>
              (case db_find (\<lambda>t. te_id t = tid) (db_teams db) of
                 None \<Rightarrow> False
               | Some team \<Rightarrow> te_orgId team = orgId \<and> teamOrganizationAllows (te_organizationAccess team) required)
          | None \<Rightarrow>
              (case pr_userId pr of
                 None \<Rightarrow> False
               | Some userId \<Rightarrow> deriveOrgAccessAllows (loadOrgAccessDetails db orgId userId) required)))"

definition checkOrganizationPermissionsMany :: "auth_db \<Rightarrow> principal \<Rightarrow> string \<Rightarrow> organization_permission list \<Rightarrow> bool list" where
  "checkOrganizationPermissionsMany db pr orgId requireds =
    (if (case pr_scopes pr of None \<Rightarrow> False | Some s \<Rightarrow> \<not> scopeCoversOrg s orgId) then map (\<lambda>_. False) requireds
     else
       let scopeDenies = (\<lambda>required. case pr_scopes pr of None \<Rightarrow> False
             | Some s \<Rightarrow> (case organizationPermissionGrant required of None \<Rightarrow> False | Some g \<Rightarrow> \<not> scopeGrants s g)) in
       case pr_tokenOrgId pr of
         Some oid \<Rightarrow> map (\<lambda>required. oid = orgId \<and> \<not> scopeDenies required) requireds
       | None \<Rightarrow>
           (case pr_tokenTeamId pr of
              Some tid \<Rightarrow>
                (case db_find (\<lambda>t. te_id t = tid) (db_teams db) of
                   None \<Rightarrow> map (\<lambda>_. False) requireds
                 | Some team \<Rightarrow>
                     if te_orgId team \<noteq> orgId then map (\<lambda>_. False) requireds
                     else map (\<lambda>required. \<not> scopeDenies required \<and> teamOrganizationAllows (te_organizationAccess team) required) requireds)
            | None \<Rightarrow>
                (case pr_userId pr of
                   None \<Rightarrow> map (\<lambda>_. False) requireds
                 | Some userId \<Rightarrow>
                     let details = loadOrgAccessDetails db orgId userId in
                     map (\<lambda>required. \<not> scopeDenies required \<and> deriveOrgAccessAllows details required) requireds)))"

definition checkOrganizationVcsReadPermission :: "auth_db \<Rightarrow> principal \<Rightarrow> string \<Rightarrow> bool" where
  "checkOrganizationVcsReadPermission db pr orgId \<longleftrightarrow>
    checkOrganizationPermission db pr orgId Read_vcs_settings \<or> checkOrganizationPermission db pr orgId Manage_vcs_settings \<or>
    checkOrganizationPermission db pr orgId Manage_workspaces"

section \<open>The workspaces of a scope\<close>

definition collectProjectScopedIds :: "auth_db \<Rightarrow> token_scopes \<Rightarrow> string \<Rightarrow> string list" where
  "collectProjectScopedIds db scope orgId = (case ts_projects scope of
     None \<Rightarrow> [] | Some projects \<Rightarrow> map aw_id (workspaces_in_projects db orgId projects))"

definition collectWorkspaceScopedIds :: "auth_db \<Rightarrow> token_scopes \<Rightarrow> string \<Rightarrow> string list" where
  "collectWorkspaceScopedIds db scope orgId = (case ts_workspaces scope of
     None \<Rightarrow> []
   | Some ids \<Rightarrow> if ids = [] then [] else map aw_id (filter (\<lambda>w. aw_orgId w = orgId \<and> aw_id w \<in> set ids) (db_workspaces db)))"

definition buildTagsByWorkspace :: "workspace_tag list \<Rightarrow> string \<Rightarrow> string set" where
  "buildTagsByWorkspace rows workspaceId =
    set (map (\<lambda>t. wt_key t @ ''='' @ js_default (wt_value t) []) (filter (\<lambda>t. wt_workspaceId t = workspaceId) rows))"

definition DELETE_ID_CHUNK_SIZE :: nat where "DELETE_ID_CHUNK_SIZE = 500"

text \<open>The tag rows of the workspaces, read in chunks of ids.\<close>

function tag_rows :: "workspace_tag table \<Rightarrow> string list \<Rightarrow> workspace_tag list" where
  "tag_rows t ids = (if ids = [] then []
     else let chunk = take DELETE_ID_CHUNK_SIZE ids in
       filter (\<lambda>r. wt_workspaceId r \<in> set chunk) t @ tag_rows t (drop DELETE_ID_CHUNK_SIZE ids))"
  by auto
termination by (relation "measure (\<lambda>(t, ids). length ids)") (auto simp: DELETE_ID_CHUNK_SIZE_def)

declare tag_rows.simps [simp del]

definition collectTagScopedIds :: "auth_db \<Rightarrow> token_scopes \<Rightarrow> string \<Rightarrow> string list" where
  "collectTagScopedIds db scope orgId = (case ts_tags scope of
     None \<Rightarrow> []
   | Some tags \<Rightarrow>
       if tt_rules tags = [] then []
       else
         let orgWorkspaceIds = map aw_id (filter (\<lambda>w. aw_orgId w = orgId) (db_workspaces db));
             rows = tag_rows (db_workspaceTags db) orgWorkspaceIds in
         filter (\<lambda>w. evaluateTagExpression tags (buildTagsByWorkspace rows w)) orgWorkspaceIds)"

definition hasNoWorkspaceRestriction :: "token_scopes \<Rightarrow> bool" where
  "hasNoWorkspaceRestriction scope \<longleftrightarrow> ts_projects scope = None \<and> ts_workspaces scope = None \<and>
     (case ts_tags scope of None \<Rightarrow> True | Some tags \<Rightarrow> tt_rules tags = [])"

definition scopeWorkspaceIdsForOrg :: "auth_db \<Rightarrow> token_scopes \<Rightarrow> string \<Rightarrow> string list option" where
  "scopeWorkspaceIdsForOrg db scope orgId =
    (if \<not> scopeCoversOrg scope orgId then Some []
     else if hasNoWorkspaceRestriction scope then None
     else Some (js_unique (collectProjectScopedIds db scope orgId @ collectWorkspaceScopedIds db scope orgId @ collectTagScopedIds db scope orgId)))"

section \<open>The workspaces of a principal\<close>

record access_base =
  ab_orgId :: string
  ab_userId :: "string option"
  ab_tokenOrgId :: "string option"
  ab_tokenTeamId :: "string option"
  ab_tokenTeam :: "team option"
  ab_tokenTeamWorkspaces :: "team_workspace list"
  ab_tokenTeamProjects :: "team_project list"
  ab_tokenProjectWorkspaces :: "auth_workspace list"
  ab_directRoles :: "org_role list"
  ab_isOwner :: bool
  ab_isMember :: bool
  ab_userTeamData :: "team_access option"

definition loadWorkspaceAccessBase :: "auth_db \<Rightarrow> string \<Rightarrow> string option \<Rightarrow> string option \<Rightarrow> string option \<Rightarrow> access_base" where
  "loadWorkspaceAccessBase db orgId userId tokenOrgId tokenTeamId =
    (case tokenTeamId of
       Some tid \<Rightarrow>
         (let projectAccesses = teamProjectGrantsForTeams db orgId [tid] in
          \<lparr>ab_orgId = orgId, ab_userId = userId, ab_tokenOrgId = tokenOrgId, ab_tokenTeamId = Some tid,
           ab_tokenTeam = db_find (\<lambda>t. te_id t = tid) (db_teams db),
           ab_tokenTeamWorkspaces = filter (\<lambda>g. tw_teamId g = tid) (db_teamWorkspaces db),
           ab_tokenTeamProjects = projectAccesses,
           ab_tokenProjectWorkspaces = workspaces_in_projects db orgId (js_unique (map tp_projectId projectAccesses)),
           ab_directRoles = [], ab_isOwner = False, ab_isMember = False, ab_userTeamData = None\<rparr>)
     | None \<Rightarrow>
         let nothing = \<lparr>ab_orgId = orgId, ab_userId = userId, ab_tokenOrgId = tokenOrgId, ab_tokenTeamId = None, ab_tokenTeam = None,
               ab_tokenTeamWorkspaces = [], ab_tokenTeamProjects = [], ab_tokenProjectWorkspaces = [], ab_directRoles = [],
               ab_isOwner = False, ab_isMember = False, ab_userTeamData = None\<rparr> in
         (case tokenOrgId of
            Some _ \<Rightarrow> nothing
          | None \<Rightarrow>
              (case userId of
                 None \<Rightarrow> nothing
               | Some uid \<Rightarrow>
                   let details = loadOrgAccessDetails db orgId uid in
                   nothing\<lparr>ab_directRoles := oa_directRoles details, ab_isOwner := oa_isOwner details, ab_isMember := oa_isMember details,
                     ab_userTeamData := (if \<not> oa_isOwner details \<and> oa_isMember details
                       then Some (loadUserTeamAccess db orgId uid) else None)\<rparr>)))"

definition teamOverrideDelegationActive :: "int \<Rightarrow> team \<Rightarrow> bool" where
  "teamOverrideDelegationActive now team =
    (if \<not> has_access (te_organizationAccess team) Delegate_policy_overrides then False
     else case te_delegationExpiresAt team of None \<Rightarrow> True | Some e \<Rightarrow> if e = 0 then True else now < e)"

definition projectWorkspaceIdsForRequired :: "team_project list \<Rightarrow> auth_workspace list \<Rightarrow> workspace_permission \<Rightarrow> string list" where
  "projectWorkspaceIdsForRequired grants projectWorkspaces required =
    (let allowedProjectIds = map tp_projectId (filter (\<lambda>g. teamProjectWorkspaceAllows g required) grants) in
     map aw_id (filter (\<lambda>w. case aw_projectId w of None \<Rightarrow> False | Some p \<Rightarrow> p \<in> set allowedProjectIds) projectWorkspaces))"

text \<open>The workspaces granted directly, restricted to the teams that may delegate overrides when there is such a restriction.\<close>

definition direct_ids :: "team_workspace list \<Rightarrow> string list option \<Rightarrow> workspace_permission \<Rightarrow> string list" where
  "direct_ids grants delegateTeamIds required = map tw_workspaceId (filter (\<lambda>g.
     teamWorkspaceAllows (tw_access g) (tw_permissions g) required \<and>
     (case delegateTeamIds of None \<Rightarrow> True | Some ids \<Rightarrow> tw_teamId g \<in> set ids)) grants)"

text \<open>\<open>undefined\<close> (the outer \<open>None\<close>) when the principal is not a team token.\<close>

definition derivesFromTeamToken :: "int \<Rightarrow> access_base \<Rightarrow> workspace_permission \<Rightarrow> string list option option" where
  "derivesFromTeamToken now base required = (case ab_tokenTeamId base of
     None \<Rightarrow> None
   | Some _ \<Rightarrow> Some (case ab_tokenTeam base of
       None \<Rightarrow> Some []
     | Some team \<Rightarrow>
         if te_orgId team \<noteq> ab_orgId base then Some []
         else if organizationAccessGrantsWorkspace (te_organizationAccess team) required then None
         else
           let delegateTeamIds = (if required = P_policy_override
                 then Some (if teamOverrideDelegationActive now team then [te_id team] else []) else None) in
           Some (js_unique (direct_ids (ab_tokenTeamWorkspaces base) delegateTeamIds required @
             projectWorkspaceIdsForRequired (ab_tokenTeamProjects base) (ab_tokenProjectWorkspaces base) required))))"

definition derivesFromOrgToken :: "access_base \<Rightarrow> workspace_permission \<Rightarrow> string list option option" where
  "derivesFromOrgToken base required = (case ab_tokenOrgId base of
     None \<Rightarrow> None
   | Some oid \<Rightarrow> Some (if oid \<noteq> ab_orgId base \<or> required \<in> {P_plan, P_apply, P_policy_override} then Some [] else None))"

definition grantsUserOrgWide :: "org_role list \<Rightarrow> team list \<Rightarrow> workspace_permission \<Rightarrow> bool" where
  "grantsUserOrgWide directRoles userTeams required =
    (if list_ex (\<lambda>r. organizationAccessGrantsWorkspace (js_default (or_permissions r) []) required) directRoles then True
     else list_ex (\<lambda>t. organizationAccessGrantsWorkspace (te_organizationAccess t) required) userTeams)"

definition buildDelegateTeamIds :: "int \<Rightarrow> team list \<Rightarrow> workspace_permission \<Rightarrow> string list option" where
  "buildDelegateTeamIds now userTeams required =
    (if required \<noteq> P_policy_override then None else Some (map te_id (filter (teamOverrideDelegationActive now) userTeams)))"

definition deriveForUserTeams :: "int \<Rightarrow> access_base \<Rightarrow> workspace_permission \<Rightarrow> string list option" where
  "deriveForUserTeams now base required =
    (let userTeams = (case ab_userTeamData base of None \<Rightarrow> [] | Some d \<Rightarrow> ta_userTeams d) in
     if grantsUserOrgWide (ab_directRoles base) userTeams required then None
     else case ab_userTeamData base of
       None \<Rightarrow> Some []
     | Some d \<Rightarrow>
         if ta_teamIds d = [] then Some []
         else Some (js_unique (direct_ids (ta_teamWorkspaces d) (buildDelegateTeamIds now (ta_userTeams d) required) required @
           projectWorkspaceIdsForRequired (ta_teamProjects d) (ta_projectWorkspaces d) required)))"

definition deriveWorkspaceIdsForRequired :: "int \<Rightarrow> access_base \<Rightarrow> workspace_permission \<Rightarrow> string list option" where
  "deriveWorkspaceIdsForRequired now base required =
    (case derivesFromTeamToken now base required of
       Some r \<Rightarrow> r
     | None \<Rightarrow>
         (case derivesFromOrgToken base required of
            Some r \<Rightarrow> r
          | None \<Rightarrow>
              if ab_userId base = None then Some []
              else if ab_isOwner base then None
              else if \<not> ab_isMember base then Some []
              else deriveForUserTeams now base required))"

definition workspaceIdsForPermissionUnscoped :: "int \<Rightarrow> auth_db \<Rightarrow> principal \<Rightarrow> string \<Rightarrow> workspace_permission \<Rightarrow> string list option" where
  "workspaceIdsForPermissionUnscoped now db pr orgId required =
    deriveWorkspaceIdsForRequired now (loadWorkspaceAccessBase db orgId (pr_userId pr) (pr_tokenOrgId pr) (pr_tokenTeamId pr)) required"

definition workspaceIdsForPermission :: "int \<Rightarrow> auth_db \<Rightarrow> principal \<Rightarrow> string \<Rightarrow> workspace_permission \<Rightarrow> string list option" where
  "workspaceIdsForPermission now db pr orgId required = (case pr_scopes pr of
     None \<Rightarrow> workspaceIdsForPermissionUnscoped now db pr orgId required
   | Some scopes \<Rightarrow>
       let grants = workspacePermissionGrant required in
       if grants = [] \<or> \<not> list_ex (scopeGrants scopes) grants then Some []
       else
         let scopeIds = scopeWorkspaceIdsForOrg db scopes orgId in
         (case workspaceIdsForPermissionUnscoped now db pr orgId required of
            None \<Rightarrow> scopeIds
          | Some base \<Rightarrow> (case scopeIds of None \<Rightarrow> Some base | Some s \<Rightarrow> Some (filter (\<lambda>i. i \<in> set s) base))))"

definition PERMISSION_SET_LEVELS :: "workspace_permission list" where
  "PERMISSION_SET_LEVELS = [P_read, P_plan, P_apply, P_lock, P_admin, P_variables_write, P_variables_read, P_state_read,
    P_state_write, P_run_tasks]"

definition workspacePermissionSets :: "int \<Rightarrow> auth_db \<Rightarrow> principal \<Rightarrow> string \<Rightarrow> (workspace_permission, string set option) js_map" where
  "workspacePermissionSets now db pr orgId =
    (let base = loadWorkspaceAccessBase db orgId (pr_userId pr) (pr_tokenOrgId pr) (pr_tokenTeamId pr);
         scopeIds = (case pr_scopes pr of None \<Rightarrow> None | Some s \<Rightarrow> scopeWorkspaceIdsForOrg db s orgId) in
     map (\<lambda>permission. (permission,
       if (case pr_scopes pr of None \<Rightarrow> False
           | Some s \<Rightarrow> workspacePermissionGrant permission = [] \<or> \<not> list_ex (scopeGrants s) (workspacePermissionGrant permission))
       then Some {}
       else case deriveWorkspaceIdsForRequired now base permission of
         None \<Rightarrow> map_option set scopeIds
       | Some derived \<Rightarrow> (case scopeIds of None \<Rightarrow> Some (set derived) | Some s \<Rightarrow> Some (set (filter (\<lambda>i. i \<in> set s) derived)))))
     PERMISSION_SET_LEVELS)"

definition workspaceAllows :: "string set option \<Rightarrow> string \<Rightarrow> bool" where
  "workspaceAllows s workspaceId = (case s of None \<Rightarrow> True | Some ids \<Rightarrow> workspaceId \<in> ids)"

definition checkWorkspacePermission :: "int \<Rightarrow> auth_db \<Rightarrow> principal \<Rightarrow> auth_workspace \<Rightarrow> workspace_permission \<Rightarrow> bool" where
  "checkWorkspacePermission now db pr workspace required =
    (case workspaceIdsForPermission now db pr (aw_orgId workspace) required of None \<Rightarrow> True | Some ids \<Rightarrow> aw_id workspace \<in> set ids)"

definition findAuthorizedWorkspace :: "int \<Rightarrow> auth_db \<Rightarrow> principal \<Rightarrow> string \<Rightarrow> workspace_permission \<Rightarrow> auth_workspace option" where
  "findAuthorizedWorkspace now db pr workspaceId required =
    (case db_find (\<lambda>w. aw_id w = workspaceId) (db_workspaces db) of
       None \<Rightarrow> None
     | Some workspace \<Rightarrow> if checkWorkspacePermission now db pr workspace required then Some workspace else None)"

section \<open>The projects of a principal\<close>

definition teamProjectGrantsForPrincipal :: "auth_db \<Rightarrow> string \<Rightarrow> principal \<Rightarrow> team_project list" where
  "teamProjectGrantsForPrincipal db orgId pr = (case pr_tokenTeamId pr of
     Some tid \<Rightarrow>
       (case db_find (\<lambda>t. te_id t = tid \<and> te_orgId t = orgId) (db_teams db) of
          None \<Rightarrow> [] | Some _ \<Rightarrow> teamProjectGrantsForTeams db orgId [tid])
   | None \<Rightarrow>
       (case pr_userId pr of
          None \<Rightarrow> []
        | Some userId \<Rightarrow>
            let details = loadOrgAccessDetails db orgId userId in
            if \<not> oa_isMember details \<or> oa_teamIds details = [] then [] else teamProjectGrantsForTeams db orgId (oa_teamIds details)))"

definition scopeProjectIds :: "token_scopes option \<Rightarrow> string \<Rightarrow> string list option \<Rightarrow> string \<Rightarrow> string list option" where
  "scopeProjectIds scopes orgId ids requiredGrant = (case scopes of
     None \<Rightarrow> ids
   | Some s \<Rightarrow>
       if \<not> scopeCoversOrg s orgId \<or> \<not> scopeGrants s requiredGrant then Some []
       else case ts_projects s of
         None \<Rightarrow> ids
       | Some projects \<Rightarrow> (case ids of None \<Rightarrow> Some (js_unique projects) | Some xs \<Rightarrow> Some (filter (\<lambda>i. i \<in> set projects) xs)))"

definition projectIdsForPermission :: "auth_db \<Rightarrow> principal \<Rightarrow> string \<Rightarrow> project_permission \<Rightarrow> string list option" where
  "projectIdsForPermission db pr orgId required =
    (let orgRequired = (if required = Project_read then Read_projects else Manage_projects);
         grant = (if required = Project_read then ''projects:read'' else ''projects:write'');
         orgWide = checkOrganizationPermission db pr orgId orgRequired;
         allowed = (if orgWide then None
           else Some (js_unique (map tp_projectId (filter (\<lambda>g. teamProjectAllows g required) (teamProjectGrantsForPrincipal db orgId pr))))) in
     scopeProjectIds (pr_scopes pr) orgId allowed grant)"

definition checkProjectPermission :: "auth_db \<Rightarrow> principal \<Rightarrow> string \<Rightarrow> string \<Rightarrow> project_permission \<Rightarrow> bool" where
  "checkProjectPermission db pr projectId orgId required =
    (case projectIdsForPermission db pr orgId required of None \<Rightarrow> True | Some ids \<Rightarrow> projectId \<in> set ids)"

definition projectWorkspaceScopesAllow :: "auth_db \<Rightarrow> token_scopes \<Rightarrow> string option \<Rightarrow> string \<Rightarrow> string list \<Rightarrow> bool" where
  "projectWorkspaceScopesAllow db scopes projectId orgId workspaceIds =
    (if \<not> scopeCoversOrg scopes orgId \<or> \<not> scopeGrants scopes ''workspaces:write'' then False
     else if (case ts_projects scopes of None \<Rightarrow> False
         | Some ps \<Rightarrow> (case projectId of None \<Rightarrow> True | Some p \<Rightarrow> p \<notin> set ps)) then False
     else
       let scopedWorkspaceIds = scopeWorkspaceIdsForOrg db scopes orgId in
       if workspaceIds = [] then scopedWorkspaceIds = None \<or> ts_projects scopes \<noteq> None
       else case scopedWorkspaceIds of None \<Rightarrow> True | Some allowed \<Rightarrow> list_all (\<lambda>w. w \<in> set allowed) workspaceIds)"

definition sourceWorkspacesAllowMove :: "int \<Rightarrow> auth_db \<Rightarrow> principal \<Rightarrow> string \<Rightarrow> string list \<Rightarrow> bool" where
  "sourceWorkspacesAllowMove now db pr orgId workspaceIds =
    (if workspaceIds = [] then True
     else case workspaceIdsForPermission now db pr orgId P_admin of
       None \<Rightarrow> True | Some adminIds \<Rightarrow> list_all (\<lambda>w. w \<in> set adminIds) workspaceIds)"

datatype workspace_operation = Op_create | Op_move | Op_delete

definition operation_key :: "workspace_operation \<Rightarrow> string" where
  "operation_key operation = (case operation of Op_create \<Rightarrow> ''create'' | Op_move \<Rightarrow> ''move'' | Op_delete \<Rightarrow> ''delete'')"

definition checkProjectWorkspaceOperation ::
  "int \<Rightarrow> auth_db \<Rightarrow> principal \<Rightarrow> string option \<Rightarrow> string \<Rightarrow> workspace_operation \<Rightarrow> string list \<Rightarrow> bool" where
  "checkProjectWorkspaceOperation now db pr projectId orgId required workspaceIds =
    (if (case pr_scopes pr of None \<Rightarrow> False | Some s \<Rightarrow> \<not> projectWorkspaceScopesAllow db s projectId orgId workspaceIds) then False
     else if required = Op_move \<and> \<not> sourceWorkspacesAllowMove now db pr orgId workspaceIds then False
     else if checkOrganizationPermission db pr orgId Manage_workspaces then True
     else case projectId of
       None \<Rightarrow> False
     | Some p \<Rightarrow> list_ex (\<lambda>g. tp_projectId g = p \<and> is_true (resolvedTeamProjectWorkspaceAccess g) (operation_key required))
         (teamProjectGrantsForPrincipal db orgId pr))"

section \<open>Registry and remote state\<close>

datatype registry_kind = Modules | Providers

definition checkRegistryReadPermission :: "auth_db \<Rightarrow> principal \<Rightarrow> string \<Rightarrow> registry_kind \<Rightarrow> bool" where
  "checkRegistryReadPermission db pr producerOrgId kind =
    (if (case pr_scopes pr of None \<Rightarrow> False | Some s \<Rightarrow> \<not> scopeCoversOrg s producerOrgId \<or> \<not> scopeGrants s ''registry:read'') then False
     else if checkOrgPermission db (pr\<lparr>pr_tokenTeamId := None\<rparr>) producerOrgId Role_member None then True
     else if (case db_find (\<lambda>o'. og_id o' = producerOrgId) (db_organizations db) of None \<Rightarrow> False
         | Some p \<Rightarrow> (if kind = Modules then og_globalModuleSharing p else og_globalProviderSharing p)) then True
     else
       let consumerOrgIds = (case pr_tokenOrgId pr of
             None \<Rightarrow> (case pr_userId pr of None \<Rightarrow> [] | Some u \<Rightarrow> map mb_orgId (filter (\<lambda>m. mb_userId m = u) (db_memberships db)))
           | Some oid \<Rightarrow> [oid]) in
       if consumerOrgIds = [] then False
       else db_find (\<lambda>p. pn_producerOrgId p = producerOrgId \<and> pn_consumerOrgId p \<in> set consumerOrgIds \<and>
         (if kind = Modules then pn_modules p else pn_providers p)) (db_partnerships db) \<noteq> None)"

definition canConsumeRemoteState :: "auth_db \<Rightarrow> string \<Rightarrow> string \<Rightarrow> bool" where
  "canConsumeRemoteState db producerId consumerId =
    (case db_find (\<lambda>w. aw_id w = producerId) (db_workspaces db) of
       None \<Rightarrow> False
     | Some producer \<Rightarrow>
         if producerId = consumerId then True
         else case db_find (\<lambda>w. aw_id w = consumerId) (db_workspaces db) of
           None \<Rightarrow> False
         | Some consumer \<Rightarrow>
             if aw_orgId producer \<noteq> aw_orgId consumer then False
             else if aw_globalRemoteState producer = Some True then True
             else if aw_projectRemoteState producer = Some True \<and> aw_projectId producer \<noteq> None \<and>
               aw_projectId producer = aw_projectId consumer then True
             else (producerId, consumerId) \<in> set (db_remoteStateConsumers db))"

end
