(* ===== verification/AuthorizationSafety.thy ===== *)
theory AuthorizationSafety imports Authorization begin

text \<open>
  What the authorization of \<open>Authorization\<close> guarantees: the scopes of a token only narrow what its owner may do
  and do so exactly as declared, a principal without a footing in an organization is refused everywhere in it, the
  batched checks agree with the single ones, and the permission levels are ordered.
\<close>

section \<open>Scopes only narrow\<close>

definition unscoped :: "principal \<Rightarrow> principal" where
  "unscoped pr = pr\<lparr>pr_scopes := None\<rparr>"

lemma unscoped_fields [simp]:
  "pr_userId (unscoped pr) = pr_userId pr" "pr_tokenOrgId (unscoped pr) = pr_tokenOrgId pr"
  "pr_tokenTeamId (unscoped pr) = pr_tokenTeamId pr" "pr_scopes (unscoped pr) = None"
  "unscoped (pr\<lparr>pr_tokenTeamId := t\<rparr>) = (unscoped pr)\<lparr>pr_tokenTeamId := t\<rparr>"
  by (simp_all add: unscoped_def)

lemma unscoped_grants [simp]: "teamProjectGrantsForPrincipal db o' (unscoped pr) = teamProjectGrantsForPrincipal db o' pr"
  by (simp add: teamProjectGrantsForPrincipal_def cong: option.case_cong)

lemma unscoped_ids [simp]:
  "workspaceIdsForPermissionUnscoped now db (unscoped pr) o' p = workspaceIdsForPermissionUnscoped now db pr o' p"
  by (simp add: workspaceIdsForPermissionUnscoped_def)

lemma workspaceIds_unscoped: "workspaceIdsForPermission now db (unscoped pr) o' p = workspaceIdsForPermissionUnscoped now db pr o' p"
  by (simp add: workspaceIdsForPermission_def)

lemma checkOrg_unscoped: "checkOrgPermission db pr o' r g \<Longrightarrow> checkOrgPermission db (unscoped pr) o' r g"
  by (simp only: checkOrgPermission_def unscoped_fields option.case if_False split: if_split_asm)

lemma checkOrganization_unscoped: "checkOrganizationPermission db pr o' p \<Longrightarrow> checkOrganizationPermission db (unscoped pr) o' p"
  by (simp only: checkOrganizationPermission_def unscoped_fields option.case if_False split: if_split_asm)

text \<open>A scoped id list is a part of the unscoped one.\<close>

definition narrower :: "string list option \<Rightarrow> string list option \<Rightarrow> bool" where
  "narrower a b = (case b of None \<Rightarrow> True | Some ys \<Rightarrow> (case a of None \<Rightarrow> False | Some xs \<Rightarrow> set xs \<subseteq> set ys))"

lemma workspaceIds_narrower: "narrower (workspaceIdsForPermission now db pr o' p) (workspaceIdsForPermissionUnscoped now db pr o' p)"
  by (auto simp: narrower_def workspaceIdsForPermission_def Let_def split: option.splits)

lemma narrowerD: "narrower a b \<Longrightarrow> (case a of None \<Rightarrow> True | Some xs \<Rightarrow> x \<in> set xs) \<Longrightarrow> (case b of None \<Rightarrow> True | Some ys \<Rightarrow> x \<in> set ys)"
  by (auto simp: narrower_def split: option.splits)

lemma narrower_all:
  "narrower a b \<Longrightarrow> (case a of None \<Rightarrow> True | Some xs \<Rightarrow> list_all (\<lambda>x. x \<in> set xs) ws) \<Longrightarrow>
   (case b of None \<Rightarrow> True | Some ys \<Rightarrow> list_all (\<lambda>x. x \<in> set ys) ws)"
  by (auto simp: narrower_def list_all_iff split: option.splits)

lemma checkWorkspace_unscoped: "checkWorkspacePermission now db pr w p \<Longrightarrow> checkWorkspacePermission now db (unscoped pr) w p"
  unfolding checkWorkspacePermission_def workspaceIds_unscoped by (rule narrowerD [OF workspaceIds_narrower])

lemma projectIds_narrower: "narrower (projectIdsForPermission db pr o' p) (projectIdsForPermission db (unscoped pr) o' p)"
  using checkOrganization_unscoped [of db pr o']
  by (auto simp: narrower_def projectIdsForPermission_def scopeProjectIds_def Let_def checkOrganizationPermission_def
      split: option.splits if_splits)

lemma checkProject_unscoped: "checkProjectPermission db pr i o' p \<Longrightarrow> checkProjectPermission db (unscoped pr) i o' p"
  unfolding checkProjectPermission_def by (rule narrowerD [OF projectIds_narrower])

lemma sourceMove_unscoped: "sourceWorkspacesAllowMove now db pr o' ws \<Longrightarrow> sourceWorkspacesAllowMove now db (unscoped pr) o' ws"
  using narrower_all [OF workspaceIds_narrower [of now db pr o' P_admin], of ws]
  by (auto simp: sourceWorkspacesAllowMove_def workspaceIds_unscoped split: if_splits)

lemma checkOperation_unscoped:
  assumes "checkProjectWorkspaceOperation now db pr i o' r ws"
  shows "checkProjectWorkspaceOperation now db (unscoped pr) i o' r ws"
proof -
  have "r = Op_move \<longrightarrow> sourceWorkspacesAllowMove now db (unscoped pr) o' ws"
    using assms sourceMove_unscoped by (auto simp: checkProjectWorkspaceOperation_def split: if_splits)
  then show ?thesis using assms checkOrganization_unscoped [of db pr o' Manage_workspaces]
    unfolding checkProjectWorkspaceOperation_def unscoped_fields unscoped_grants option.case if_False by (auto split: if_split_asm)
qed

lemma checkRegistry_unscoped:
  assumes "checkRegistryReadPermission db pr o' k"
  shows "checkRegistryReadPermission db (unscoped pr) o' k"
proof (cases "checkOrgPermission db (unscoped (pr\<lparr>pr_tokenTeamId := None\<rparr>)) o' Role_member None")
  case True
  then show ?thesis by (simp add: checkRegistryReadPermission_def)
next
  case False
  then have "\<not> checkOrgPermission db (pr\<lparr>pr_tokenTeamId := None\<rparr>) o' Role_member None" using checkOrg_unscoped by blast
  with False assms show ?thesis
    unfolding checkRegistryReadPermission_def unscoped_fields option.case if_False by (simp only: if_False split: if_split_asm)
qed

text \<open>C15: a fine-grained token can never exceed the access of its owner: every check that passes with
  scopes passes for the same principal without them, for organizations, projects, workspaces, workspace
  operations and registry reads.\<close>

theorem scopes_never_exceed_owner:
  "(checkOrgPermission db pr orgId role grant \<longrightarrow> checkOrgPermission db (unscoped pr) orgId role grant) \<and>
   (checkOrganizationPermission db pr orgId required \<longrightarrow> checkOrganizationPermission db (unscoped pr) orgId required) \<and>
   (checkWorkspacePermission now db pr w p \<longrightarrow> checkWorkspacePermission now db (unscoped pr) w p) \<and>
   (checkProjectPermission db pr projectId orgId q \<longrightarrow> checkProjectPermission db (unscoped pr) projectId orgId q) \<and>
   (checkProjectWorkspaceOperation now db pr project orgId op ws \<longrightarrow> checkProjectWorkspaceOperation now db (unscoped pr) project orgId op ws) \<and>
   (checkRegistryReadPermission db pr orgId kind \<longrightarrow> checkRegistryReadPermission db (unscoped pr) orgId kind)"
  by (intro conjI impI checkOrg_unscoped checkOrganization_unscoped checkWorkspace_unscoped checkProject_unscoped
      checkOperation_unscoped checkRegistry_unscoped)

section \<open>What a scope covers\<close>

lemma set_tag_rows: "set (tag_rows t ids) = {r \<in> set t. wt_workspaceId r \<in> set ids}"
proof (induction t ids rule: tag_rows.induct)
  case (1 t ids)
  have "set ids = set (take DELETE_ID_CHUNK_SIZE ids) \<union> set (drop DELETE_ID_CHUNK_SIZE ids)"
    by (metis append_take_drop_id set_append)
  with 1 show ?case by (subst tag_rows.simps) (auto simp: Let_def)
qed

lemma tags_of_workspace:
  "w \<in> set ids \<Longrightarrow> buildTagsByWorkspace (tag_rows t ids) w = buildTagsByWorkspace t w"
  by (auto simp: buildTagsByWorkspace_def set_tag_rows)

text \<open>The declared meaning of a scope on a workspace of its organization.\<close>

definition in_scope :: "auth_db \<Rightarrow> token_scopes \<Rightarrow> auth_workspace \<Rightarrow> bool" where
  "in_scope db s w \<longleftrightarrow> aw_orgId w \<in> set (ts_orgs s) \<and>
     (hasNoWorkspaceRestriction s \<or>
      (\<exists>ps p. ts_projects s = Some ps \<and> aw_projectId w = Some p \<and> p \<in> set ps) \<or>
      (\<exists>ids. ts_workspaces s = Some ids \<and> aw_id w \<in> set ids) \<or>
      (\<exists>tags. ts_tags s = Some tags \<and> tt_rules tags \<noteq> [] \<and> evaluateTagExpression tags (buildTagsByWorkspace (db_workspaceTags db) (aw_id w))))"

lemma scope_ids_iff:
  assumes "unique_by aw_id (db_workspaces db)" "w \<in> set (db_workspaces db)"
  shows "(case scopeWorkspaceIdsForOrg db s (aw_orgId w) of None \<Rightarrow> True | Some ids \<Rightarrow> aw_id w \<in> set ids) \<longleftrightarrow> in_scope db s w"
proof -
  have mem: "aw_id w \<in> set (map aw_id (filter P (db_workspaces db))) \<longleftrightarrow> P w" for P
    using assms unique_byD [OF assms(1) assms(2)] by auto
  have p: "aw_id w \<in> set (collectProjectScopedIds db s (aw_orgId w)) \<longleftrightarrow>
      (\<exists>ps p. ts_projects s = Some ps \<and> aw_projectId w = Some p \<and> p \<in> set ps)"
    by (cases "ts_projects s"; cases "aw_projectId w")
      (simp_all add: collectProjectScopedIds_def workspaces_in_projects_def mem del: set_map set_filter)
  have i: "aw_id w \<in> set (collectWorkspaceScopedIds db s (aw_orgId w)) \<longleftrightarrow> (\<exists>ids. ts_workspaces s = Some ids \<and> aw_id w \<in> set ids)"
    by (cases "ts_workspaces s") (simp_all add: collectWorkspaceScopedIds_def mem del: set_map set_filter)
  have "aw_id w \<in> set (map aw_id (filter (\<lambda>v. aw_orgId v = aw_orgId w) (db_workspaces db)))" by (simp only: mem)
  then have t: "aw_id w \<in> set (collectTagScopedIds db s (aw_orgId w)) \<longleftrightarrow>
      (\<exists>tags. ts_tags s = Some tags \<and> tt_rules tags \<noteq> [] \<and> evaluateTagExpression tags (buildTagsByWorkspace (db_workspaceTags db) (aw_id w)))"
    by (cases "ts_tags s") (simp_all add: collectTagScopedIds_def Let_def tags_of_workspace del: set_map)
  show ?thesis by (auto simp: scopeWorkspaceIdsForOrg_def in_scope_def scopeCoversOrg_def p i t)
qed

text \<open>A scoped check is the conjunction the scope declares: it passes exactly when the owner may do
  the action on the workspace, one of the grants it needs is enabled, and the workspace lies in the union of the
  project, workspace and tag selectors of a covered organization.\<close>

theorem scoped_workspace_check:
  assumes "unique_by aw_id (db_workspaces db)" "w \<in> set (db_workspaces db)" "pr_scopes pr = Some s"
  shows "checkWorkspacePermission now db pr w p \<longleftrightarrow>
    checkWorkspacePermission now db (unscoped pr) w p \<and> (\<exists>g \<in> set (workspacePermissionGrant p). scopeGrants s g) \<and> in_scope db s w"
  unfolding scope_ids_iff [OF assms(1,2), symmetric]
  by (auto simp: checkWorkspacePermission_def workspaceIds_unscoped workspaceIdsForPermission_def assms(3) Let_def list_ex_iff
      split: option.splits)

section \<open>Tenants\<close>

text \<open>\<open>outsider db pr o\<close>: the principal is not a token of \<open>o\<close> or of one of its teams, nor an active
  member of it or a site administrator.\<close>

definition outsider :: "auth_db \<Rightarrow> principal \<Rightarrow> string \<Rightarrow> bool" where
  "outsider db pr o' \<longleftrightarrow> pr_tokenOrgId pr \<noteq> Some o' \<and>
     (case pr_tokenTeamId pr of None \<Rightarrow> True | Some tid \<Rightarrow> \<forall>t \<in> set (db_teams db). te_id t = tid \<longrightarrow> te_orgId t \<noteq> o') \<and>
     (case pr_userId pr of None \<Rightarrow> True | Some u \<Rightarrow> (\<forall>a \<in> set (db_users db). au_id a = u \<longrightarrow> \<not> au_isSiteAdmin a) \<and>
        (\<forall>m \<in> set (db_memberships db). mb_userId m = u \<and> mb_orgId m = o' \<longrightarrow> mb_status m \<noteq> ''active''))"

lemma outsider_member: "outsider db pr o' \<Longrightarrow> pr_userId pr = Some u \<Longrightarrow> \<not> mf_isMember (loadMembershipFacts db u o')"
  by (auto simp: outsider_def loadMembershipFacts_def Let_def dest!: db_find_SomeD split: option.splits)

lemma owner_is_member: "mf_isOwner (loadMembershipFacts db u o') \<Longrightarrow> mf_isMember (loadMembershipFacts db u o')"
  by (auto simp: loadMembershipFacts_def Let_def split: option.splits if_splits)

lemma details_member:
  "oa_isMember (loadOrgAccessDetails db o' u) = mf_isMember (loadMembershipFacts db u o')"
  "oa_isOwner (loadOrgAccessDetails db o' u) = mf_isOwner (loadMembershipFacts db u o')"
  by (auto simp: loadOrgAccessDetails_def Let_def split: prod.splits)

lemma outsider_team: "outsider db pr o' \<Longrightarrow> pr_tokenTeamId pr = Some tid \<Longrightarrow> db_find (\<lambda>t. te_id t = tid) (db_teams db) = Some t \<Longrightarrow> te_orgId t \<noteq> o'"
  by (auto simp: outsider_def dest!: db_find_SomeD)

lemma outsider_user: "outsider db pr o' \<Longrightarrow> pr_userId pr = Some u \<Longrightarrow>
    \<not> mf_isMember (loadMembershipFacts db u o') \<and> \<not> mf_isOwner (loadMembershipFacts db u o')"
  using owner_is_member outsider_member by blast

lemma outsider_org: "outsider db pr o' \<Longrightarrow> \<not> checkOrgPermission db pr o' r g"
  by (auto simp: checkOrgPermission_def checkTeamTokenOrgPermission_def Let_def dest: outsider_team outsider_user
      split: option.splits) (auto simp: outsider_def)

lemma outsider_organization:
  assumes "outsider db pr o'"
  shows "\<not> checkOrganizationPermission db pr o' p"
proof (cases "pr_tokenOrgId pr")
  case (Some oid)
  with assms have "oid \<noteq> o'" by (auto simp: outsider_def)
  with Some show ?thesis by (simp add: checkOrganizationPermission_def)
next
  case None
  note no_org = None
  show ?thesis
  proof (cases "pr_tokenTeamId pr")
    case (Some tid)
    with no_org outsider_team [OF assms Some] show ?thesis
      by (cases "db_find (\<lambda>t. te_id t = tid) (db_teams db)") (simp_all add: checkOrganizationPermission_def)
  next
    case None
    with no_org outsider_user [OF assms] show ?thesis
      by (cases "pr_userId pr") (simp_all add: checkOrganizationPermission_def deriveOrgAccessAllows_def details_member)
  qed
qed

lemma outsider_ids:
  assumes "outsider db pr o'"
  shows "workspaceIdsForPermissionUnscoped now db pr o' p = Some []"
proof (cases "pr_tokenTeamId pr")
  case (Some tid)
  then show ?thesis using outsider_team [OF assms Some]
    by (auto simp: workspaceIdsForPermissionUnscoped_def deriveWorkspaceIdsForRequired_def loadWorkspaceAccessBase_def Let_def
        derivesFromTeamToken_def split: option.split)
next
  case None
  note no_team = None
  show ?thesis
  proof (cases "pr_tokenOrgId pr")
    case (Some oid)
    then have "oid \<noteq> o'" using assms by (auto simp: outsider_def)
    with Some no_team show ?thesis
      by (simp add: workspaceIdsForPermissionUnscoped_def deriveWorkspaceIdsForRequired_def loadWorkspaceAccessBase_def Let_def
          derivesFromTeamToken_def derivesFromOrgToken_def)
  next
    case None
    with no_team outsider_user [OF assms] show ?thesis
      by (cases "pr_userId pr")
        (simp_all add: workspaceIdsForPermissionUnscoped_def deriveWorkspaceIdsForRequired_def loadWorkspaceAccessBase_def Let_def
          derivesFromTeamToken_def derivesFromOrgToken_def details_member)
  qed
qed

lemma outsider_grants:
  assumes "outsider db pr o'"
  shows "teamProjectGrantsForPrincipal db o' pr = []"
proof (cases "pr_tokenTeamId pr")
  case (Some tid)
  with assms have "db_find (\<lambda>t. te_id t = tid \<and> te_orgId t = o') (db_teams db) = None"
    by (auto simp: outsider_def db_find_None_iff)
  with Some show ?thesis by (simp add: teamProjectGrantsForPrincipal_def)
next
  case None
  with outsider_user [OF assms] show ?thesis
    by (cases "pr_userId pr") (simp_all add: teamProjectGrantsForPrincipal_def details_member Let_def)
qed


section \<open>Batches\<close>

text \<open>The batched checks are the single checks: evaluating many organization permissions, or all the
  levels of an organization's workspaces at once, gives for each what the single check gives.\<close>

theorem batches_agree:
  "checkOrganizationPermissionsMany db pr orgId requireds = map (checkOrganizationPermission db pr orgId) requireds \<and>
   (\<forall>(p, ids) \<in> set (workspacePermissionSets now db pr (aw_orgId w)). workspaceAllows ids (aw_id w) \<longleftrightarrow> checkWorkspacePermission now db pr w p) \<and>
   map fst (workspacePermissionSets now db pr (aw_orgId w)) = PERMISSION_SET_LEVELS"
proof (intro conjI)
  show "checkOrganizationPermissionsMany db pr orgId requireds = map (checkOrganizationPermission db pr orgId) requireds"
    by (cases "pr_scopes pr"; cases "pr_tokenOrgId pr"; cases "pr_tokenTeamId pr"; cases "pr_userId pr")
      (auto simp: checkOrganizationPermissionsMany_def checkOrganizationPermission_def Let_def split: option.splits)
  show "\<forall>(p, ids) \<in> set (workspacePermissionSets now db pr (aw_orgId w)). workspaceAllows ids (aw_id w) \<longleftrightarrow> checkWorkspacePermission now db pr w p"
    by (cases "pr_scopes pr")
      (auto simp: workspacePermissionSets_def workspaceAllows_def checkWorkspacePermission_def workspaceIdsForPermission_def
        workspaceIdsForPermissionUnscoped_def Let_def split: option.splits if_splits)
  show "map fst (workspacePermissionSets now db pr (aw_orgId w)) = PERMISSION_SET_LEVELS"
    by (simp add: workspacePermissionSets_def Let_def comp_def)
qed

section \<open>Levels\<close>

lemma direct_ids_weaker: "(p, q) \<in> set LEVELS \<Longrightarrow> set (direct_ids grants d q) \<subseteq> set (direct_ids grants d p)"
  using teamWorkspaceAllows_weaker [of p q] by (auto simp: direct_ids_def)

lemma project_ids_weaker:
  "(p, q) \<in> set LEVELS \<Longrightarrow> set (projectWorkspaceIdsForRequired grants ws q) \<subseteq> set (projectWorkspaceIdsForRequired grants ws p)"
  using teamProjectWorkspaceAllows_weaker [of p q] by (auto simp: projectWorkspaceIdsForRequired_def split: option.splits)

lemma levels_plain: "(p, q) \<in> set LEVELS \<Longrightarrow> p \<noteq> P_policy_override \<and> q \<noteq> P_policy_override"
  by (auto simp: LEVELS_def)

lemma derive_weaker:
  assumes "(p, q) \<in> set LEVELS"
  shows "narrower (deriveWorkspaceIdsForRequired now base q) (deriveWorkspaceIdsForRequired now base p)"
proof -
  note sub = direct_ids_weaker [OF assms] project_ids_weaker [OF assms] and org = organizationAccess_weaker [OF assms]
  note plain = levels_plain [OF assms]
  have union: "set (js_unique (direct_ids g d q @ projectWorkspaceIdsForRequired gs ws q)) \<subseteq>
      set (js_unique (direct_ids g d p @ projectWorkspaceIdsForRequired gs ws p))" for g d gs ws
    unfolding set_js_unique set_append by (rule Un_mono [OF sub])
  have team: "narrower b a" if "derivesFromTeamToken now base q = Some b" "derivesFromTeamToken now base p = Some a" for a b
  proof (cases "ab_tokenTeam base")
    case None
    with that show ?thesis by (auto simp: derivesFromTeamToken_def narrower_def split: option.splits)
  next
    case (Some t)
    consider "te_orgId t \<noteq> ab_orgId base" | "te_orgId t = ab_orgId base" "organizationAccessGrantsWorkspace (te_organizationAccess t) p"
      | "te_orgId t = ab_orgId base" "\<not> organizationAccessGrantsWorkspace (te_organizationAccess t) p" by blast
    then show ?thesis
    proof cases
      case 3
      then have "\<not> organizationAccessGrantsWorkspace (te_organizationAccess t) q" using org by blast
      with 3 that Some plain union [of "ab_tokenTeamWorkspaces base" None "ab_tokenTeamProjects base" "ab_tokenProjectWorkspaces base"]
      show ?thesis by (auto simp: derivesFromTeamToken_def narrower_def Let_def split: option.splits)
    qed (use that Some in \<open>auto simp: derivesFromTeamToken_def narrower_def Let_def split: option.splits if_splits\<close>)
  qed
  have orgt: "narrower b a" if "derivesFromOrgToken base q = Some b" "derivesFromOrgToken base p = Some a" for a b
    using that assms by (auto simp: derivesFromOrgToken_def narrower_def LEVELS_def split: option.splits if_splits)
  have wide: "grantsUserOrgWide r t q \<Longrightarrow> grantsUserOrgWide r t p" for r t
    using org by (auto simp: grantsUserOrgWide_def list_ex_iff split: if_splits)
  have user: "narrower (deriveForUserTeams now base q) (deriveForUserTeams now base p)"
  proof (cases "grantsUserOrgWide (ab_directRoles base) (case ab_userTeamData base of None \<Rightarrow> [] | Some d \<Rightarrow> ta_userTeams d) p")
    case True
    then show ?thesis by (simp add: deriveForUserTeams_def narrower_def)
  next
    case False
    then have "\<not> grantsUserOrgWide (ab_directRoles base) (case ab_userTeamData base of None \<Rightarrow> [] | Some d \<Rightarrow> ta_userTeams d) q"
      using wide by blast
    with False plain union show ?thesis
      by (cases "ab_userTeamData base") (simp_all add: deriveForUserTeams_def narrower_def buildDelegateTeamIds_def Let_def del: set_js_unique)
  qed
  have some: "(derivesFromTeamToken now base q = None) = (derivesFromTeamToken now base p = None)"
    "(derivesFromOrgToken base q = None) = (derivesFromOrgToken base p = None)"
    by (simp_all add: derivesFromTeamToken_def derivesFromOrgToken_def split: option.split)
  show ?thesis
  proof (cases "derivesFromTeamToken now base q")
    case (Some b)
    then obtain a where "derivesFromTeamToken now base p = Some a" using some(1) by auto
    with Some team [of b a] show ?thesis by (simp add: deriveWorkspaceIdsForRequired_def)
  next
    case None
    then have none: "derivesFromTeamToken now base p = None" using some(1) by simp
    show ?thesis
    proof (cases "derivesFromOrgToken base q")
      case (Some b)
      then obtain a where "derivesFromOrgToken base p = Some a" using some(2) by auto
      with Some none None orgt [of b a] show ?thesis by (simp add: deriveWorkspaceIdsForRequired_def)
    next
      case None2: None
      then have "derivesFromOrgToken base p = None" using some(2) by simp
      with None none None2 user show ?thesis by (simp add: deriveWorkspaceIdsForRequired_def) (simp add: narrower_def)
    qed
  qed
qed

text \<open>The levels are ordered: without scopes, whoever may apply may also plan, discard and cancel,
  whoever may plan may read the runs and the workspace, and writing variables or state includes reading them, for every kind of
  principal and every combination of roles and grants.\<close>

theorem levels_ordered:
  assumes "weaker p q" "pr_scopes pr = None" "checkWorkspacePermission now db pr w q"
  shows "checkWorkspacePermission now db pr w p"
proof -
  have n: "narrower (workspaceIdsForPermission now db pr (aw_orgId w) q) (workspaceIdsForPermission now db pr (aw_orgId w) p)"
    if "(p, q) \<in> set LEVELS"
    using derive_weaker [OF that] assms(2) by (simp add: workspaceIdsForPermission_def workspaceIdsForPermissionUnscoped_def)
  from assms(1) show ?thesis
  proof (rule weaker_cases)
    assume "p = q" with assms(3) show ?thesis by simp
  next
    fix a b assume "(a, b) \<in> set LEVELS" "p = a" "q = b"
    then have "(p, q) \<in> set LEVELS" by simp
    from narrowerD [OF n [OF this]] assms(3) show ?thesis by (simp add: checkWorkspacePermission_def)
  qed
qed

section \<open>Examples\<close>

text \<open>A member of team \<open>t\<close>, which may write to \<open>w\<close> and maintains project \<open>p\<close>; an invited member of a partner.\<close>

definition demo_team :: team where
  "demo_team = \<lparr>te_id = ''t'', te_orgId = ''o'', te_organizationAccess = [(''delegate-policy-overrides'', True)],
    te_delegationExpiresAt = Some 10\<rparr>"

definition demo_ws :: auth_workspace where
  "demo_ws = \<lparr>aw_id = ''w'', aw_orgId = ''o'', aw_projectId = None, aw_globalRemoteState = None, aw_projectRemoteState = None\<rparr>"

definition demo_project_ws :: auth_workspace where
  "demo_project_ws = \<lparr>aw_id = ''x'', aw_orgId = ''o'', aw_projectId = Some ''p'', aw_globalRemoteState = None, aw_projectRemoteState = None\<rparr>"

definition demo_auth :: auth_db where
  "demo_auth = \<lparr>db_users = [\<lparr>au_id = ''u'', au_isSiteAdmin = False\<rparr>, \<lparr>au_id = ''v'', au_isSiteAdmin = False\<rparr>],
    db_memberships = [\<lparr>mb_id = ''m1'', mb_userId = ''u'', mb_orgId = ''o'', mb_role = ''member'', mb_status = ''active''\<rparr>,
      \<lparr>mb_id = ''m2'', mb_userId = ''v'', mb_orgId = ''c'', mb_role = ''member'', mb_status = ''invited''\<rparr>],
    db_roles = [], db_membershipRoles = [], db_teams = [demo_team],
    db_teamMemberships = [\<lparr>tm_userId = ''u'', tm_teamId = ''t''\<rparr>],
    db_teamWorkspaces = [\<lparr>tw_teamId = ''t'', tw_workspaceId = ''w'', tw_access = ''custom'',
      tw_permissions = Some [(''runs'', JStr ''apply''), (''policy-overrides'', JBool True)]\<rparr>],
    db_teamProjects = [\<lparr>tp_teamId = ''t'', tp_projectId = ''p'', tp_organizationId = Some ''o'', tp_access = ''maintain'',
      tp_projectAccess = None, tp_workspaceAccess = None\<rparr>],
    db_projects = [\<lparr>pj_id = ''p'', pj_orgId = ''o''\<rparr>], db_workspaces = [demo_ws, demo_project_ws], db_workspaceTags = [],
    db_organizations = [\<lparr>og_id = ''o'', og_globalModuleSharing = False, og_globalProviderSharing = False\<rparr>],
    db_partnerships = [\<lparr>pn_producerOrgId = ''o'', pn_consumerOrgId = ''c'', pn_modules = True, pn_providers = False\<rparr>],
    db_remoteStateConsumers = []\<rparr>"

definition demo_principal :: "string \<Rightarrow> token_scopes option \<Rightarrow> principal" where
  "demo_principal u s = \<lparr>pr_userId = Some u, pr_tokenOrgId = None, pr_tokenTeamId = None, pr_scopes = s\<rparr>"

definition apply_scope :: token_scopes where
  "apply_scope = \<lparr>ts_orgs = [''o''], ts_projects = None, ts_workspaces = Some [''w''], ts_tags = None,
    ts_permissions = [(''runs:apply'', True)]\<rparr>"

lemma scopes_never_exceed_owner_witness:
  "checkWorkspacePermission 5 demo_auth (unscoped (demo_principal ''u'' (Some apply_scope))) demo_ws P_apply"
proof -
  have "checkWorkspacePermission 5 demo_auth (demo_principal ''u'' (Some apply_scope)) demo_ws P_apply" by code_simp
  then show ?thesis using scopes_never_exceed_owner by blast
qed

lemma scoped_workspace_check_witness:
  "checkWorkspacePermission 5 demo_auth (demo_principal ''u'' (Some apply_scope)) demo_ws P_apply \<and>
   \<not> checkWorkspacePermission 5 demo_auth (demo_principal ''u'' (Some apply_scope)) demo_project_ws P_apply"
proof -
  have u: "unique_by aw_id (db_workspaces demo_auth)" "demo_ws \<in> set (db_workspaces demo_auth)" "demo_project_ws \<in> set (db_workspaces demo_auth)"
    by (simp_all add: demo_auth_def unique_by_def demo_ws_def demo_project_ws_def)
  have s: "pr_scopes (demo_principal ''u'' (Some apply_scope)) = Some apply_scope" by (simp add: demo_principal_def)
  have "checkWorkspacePermission 5 demo_auth (unscoped (demo_principal ''u'' (Some apply_scope))) demo_ws P_apply" by code_simp
  moreover have "scopeGrants apply_scope ''runs:apply''" by code_simp
  moreover have "in_scope demo_auth apply_scope demo_ws" "\<not> in_scope demo_auth apply_scope demo_project_ws"
    by (simp_all add: in_scope_def apply_scope_def demo_ws_def demo_project_ws_def hasNoWorkspaceRestriction_def)
  ultimately show ?thesis
    unfolding scoped_workspace_check [OF u(1,2) s] scoped_workspace_check [OF u(1,3) s] by (simp add: workspacePermissionGrant_def)
qed


lemma batches_agree_witness:
  "\<exists>ids. (P_apply, ids) \<in> set (workspacePermissionSets 5 demo_auth (demo_principal ''u'' None) (aw_orgId demo_ws)) \<and>
    workspaceAllows ids (aw_id demo_ws)"
proof -
  let ?sets = "workspacePermissionSets 5 demo_auth (demo_principal ''u'' None) (aw_orgId demo_ws)"
  have "P_apply \<in> set (map fst ?sets)" by (simp add: workspacePermissionSets_def Let_def PERMISSION_SET_LEVELS_def)
  then obtain ids where "(P_apply, ids) \<in> set ?sets" by auto
  moreover have "checkWorkspacePermission 5 demo_auth (demo_principal ''u'' None) demo_ws P_apply" by code_simp
  ultimately show ?thesis using batches_agree [of demo_auth "demo_principal ''u'' None" "''o''" "[]" 5 demo_ws] by blast
qed

lemma levels_ordered_witness: "checkWorkspacePermission 5 demo_auth (demo_principal ''u'' None) demo_ws P_read"
proof -
  have "checkWorkspacePermission 5 demo_auth (demo_principal ''u'' None) demo_ws P_apply" by code_simp
  moreover have "weaker P_read P_apply" "pr_scopes (demo_principal ''u'' None) = None"
    by (simp_all add: weaker_def LEVELS_def demo_principal_def)
  ultimately show ?thesis using levels_ordered by blast
qed

text \<open>Two gaps: once a team's delegation of policy overrides has expired its direct grant on a workspace
  no longer overrides policies, but a project grant of the same team still does; and an invitation that was not
  accepted already opens the registry of the partners of the inviting organization.\<close>

theorem authorization_gaps:
  "\<not> checkWorkspacePermission 20 demo_auth (demo_principal ''u'' None) demo_ws P_policy_override \<and>
   checkWorkspacePermission 20 demo_auth (demo_principal ''u'' None) demo_project_ws P_policy_override \<and>
   \<not> mf_isMember (loadMembershipFacts demo_auth ''v'' ''c'') \<and>
   checkRegistryReadPermission demo_auth (demo_principal ''v'' None) ''o'' Modules"
  by code_simp

end
