(* ===== verification/Secrets.thy ===== *)
theory Secrets imports JsValues begin

text \<open>
  Secrets at rest (\<open>lib/secrets.ts\<close>): the base64 envelope of a ciphertext, the key of the installation
  (derived from \<open>ENCRYPTION_PASSWORD\<close> and a salt file, or read from a key file, both created when they are
  missing), and decryption with the keys of older installations. AES-GCM and scrypt are arguments. A
  buffer is the string of its bytes.
\<close>

section \<open>Base64\<close>

definition b64_digit :: "nat \<Rightarrow> char" where
  "b64_digit n = (if n < 26 then char_of (65 + n) else if n < 52 then char_of (71 + n)
     else if n < 62 then char_of (n - 4) else if n = 62 then CHR ''+'' else CHR ''/'')"

definition b64_value :: "char \<Rightarrow> nat option" where
  "b64_value c = (if is_upper c then Some (ord_of c - 65) else if is_lower c then Some (ord_of c - 71)
     else if is_digit c then Some (ord_of c + 4) else if c \<in> {CHR ''+'', CHR ''-''} then Some 62
     else if c \<in> {CHR ''/'', CHR ''_''} then Some 63 else None)"

fun sextets :: "nat list \<Rightarrow> nat list" where
  "sextets [] = []"
| "sextets [a] = [a div 4, a mod 4 * 16]"
| "sextets [a, b] = [a div 4, a mod 4 * 16 + b div 16, b mod 16 * 4]"
| "sextets (a # b # c # r) = a div 4 # (a mod 4 * 16 + b div 16) # (b mod 16 * 4 + c div 64) # c mod 64 # sextets r"

fun octets :: "nat list \<Rightarrow> nat list" where
  "octets [] = []"
| "octets [p] = []"
| "octets [p, q] = [p * 4 + q div 16]"
| "octets [p, q, r] = [p * 4 + q div 16, q mod 16 * 16 + r div 4]"
| "octets (p # q # r # s # t) = (p * 4 + q div 16) # (q mod 16 * 16 + r div 4) # (r mod 4 * 64 + s) # octets t"

text \<open>\<open>buffer.toString("base64")\<close>, and \<open>Buffer.from(text, "base64")\<close>, which reads up to the padding and skips
  other characters.\<close>

definition to_base64 :: "string \<Rightarrow> string" where
  "to_base64 s = map b64_digit (sextets (map ord_of s)) @ replicate ((3 - length s mod 3) mod 3) (CHR ''='')"

definition from_base64 :: "string \<Rightarrow> string" where
  "from_base64 s = map char_of (octets (List.map_filter b64_value (takeWhile (\<lambda>c. c \<noteq> CHR ''='') s)))"

lemma octets_sextets: "list_all (\<lambda>b. b < 256) bs \<Longrightarrow> octets (sextets bs) = bs"
proof (induction bs rule: sextets.induct)
  case (4 a b c r)
  have "(a mod 4 * 16 + b div 16) div 16 = a mod 4" "(a mod 4 * 16 + b div 16) mod 16 = b div 16"
    "(b mod 16 * 4 + c div 64) div 4 = b mod 16" "(b mod 16 * 4 + c div 64) mod 4 = c div 64"
    using 4(2) by (auto simp: div_add1_eq mod_add_eq)
  with 4 show ?case by simp
qed (auto simp: div_add1_eq)

lemma sextets_less: "list_all (\<lambda>b. b < 256) bs \<Longrightarrow> list_all (\<lambda>d. d < 64) (sextets bs)"
proof (induction bs rule: sextets.induct)
  case (4 a b c r)
  have "a mod 4 * 16 + b div 16 < 64" if "b < 256" for a b :: nat
  proof -
    have "a mod 4 \<le> 3" "b div 16 \<le> 15" using that by auto
    then show ?thesis by simp
  qed
  moreover have "b mod 16 * 4 + c div 64 < 64" if "c < 256" for b c :: nat
  proof -
    have "b mod 16 \<le> 15" "c div 64 \<le> 3" using that by auto
    then show ?thesis by simp
  qed
  ultimately show ?case using 4 by auto
next
  case (3 a b)
  then have "a mod 4 \<le> 3" "b div 16 \<le> 15" "b mod 16 \<le> 15" by auto
  then show ?case using 3 by auto
qed auto

lemma ord_sign: "ord_of (CHR ''='') = 61" "ord_of (CHR '':'') = 58" "ord_of (CHR ''+'') = 43" "ord_of (CHR ''-'') = 45"
  "ord_of (CHR ''/'') = 47" "ord_of (CHR ''_'') = 95"
  by (simp_all add: ord_of_def)

lemma ord_b64_digit:
  "n < 64 \<Longrightarrow> ord_of (b64_digit n) =
     (if n < 26 then 65 + n else if n < 52 then 71 + n else if n < 62 then n - 4 else if n = 62 then 43 else 47)"
  by (auto simp: b64_digit_def ord_of_char_of) (simp_all add: ord_of_def)

lemma b64_value_digit: "n < 64 \<Longrightarrow> b64_value (b64_digit n) = Some n"
  by (cases "n = 62"; cases "n = 63")
    (auto simp: b64_value_def is_upper_def is_lower_def is_digit_def ord_b64_digit ord_of_inj [symmetric] ord_sign split: if_splits)

lemma b64_digit_plain: "n < 64 \<Longrightarrow> b64_digit n \<noteq> CHR ''='' \<and> b64_digit n \<noteq> CHR '':''"
  by (auto simp: ord_of_inj [symmetric] ord_b64_digit ord_sign split: if_splits)

lemma map_filter_digits: "list_all (\<lambda>d. d < 64) ds \<Longrightarrow> List.map_filter b64_value (map b64_digit ds) = ds"
  by (induction ds) (auto simp: List.map_filter_simps b64_value_digit)

lemma from_to_base64 [simp]: "from_base64 (to_base64 s) = s"
proof -
  have b: "list_all (\<lambda>b. b < 256) (map ord_of s)" by (auto simp: list_all_iff ord_of_less)
  note d = sextets_less [OF b]
  have "takeWhile (\<lambda>c. c \<noteq> CHR ''='') (map b64_digit ds @ replicate n (CHR ''='')) = map b64_digit ds"
    if "list_all (\<lambda>d. d < 64) ds" for ds n
    using that by (induction ds) (auto simp: b64_digit_plain takeWhile_replicate)
  then show ?thesis using d
    by (simp add: from_base64_def to_base64_def map_filter_digits octets_sextets [OF b] ord_of_def comp_def)
qed

lemma base64_colon_free: "CHR '':'' \<notin> set (to_base64 s)"
proof -
  have "list_all (\<lambda>b. b < 256) (map ord_of s)" by (auto simp: list_all_iff ord_of_less)
  then have "list_all (\<lambda>d. d < 64) (sextets (map ord_of s))" by (rule sextets_less)
  then have "CHR '':'' \<notin> set (map b64_digit (sextets (map ord_of s)))"
    by (metis (no_types, lifting) b64_digit_plain imageE list.set_map list_all_iff)
  then show ?thesis by (auto simp: to_base64_def)
qed


section \<open>Keys\<close>

definition ENCRYPTED_PREFIX :: string where "ENCRYPTED_PREFIX = ''enc:v1''"
definition KEY_LENGTH :: nat where "KEY_LENGTH = 32"
definition SALT_LENGTH :: nat where "SALT_LENGTH = 16"
definition LEGACY_KDF_SALT :: string where "LEGACY_KDF_SALT = ''terrence:secrets:v1''"

datatype secret_error = Invalid_salt | Invalid_key | Salt_not_found | Key_not_found | Authentication_failed

text \<open>The two files of \<open>STORAGE_DIR\<close> and the key the process caches.\<close>

record key_store =
  ks_salt :: "string option"
  ks_key :: "string option"
  ks_cached :: "string option"

text \<open>\<open>scrypt password salt legacy\<close>, with the current or the legacy cost parameters; the bytes of \<open>randomBytes\<close>
  are an argument. A file another process is writing is read again until it is complete: here files
  are complete.\<close>

type_synonym scrypt = "string \<Rightarrow> string \<Rightarrow> bool \<Rightarrow> string"

definition has_password :: "string option \<Rightarrow> bool" where
  "has_password password \<longleftrightarrow> (case password of None \<Rightarrow> False | Some p \<Rightarrow> p \<noteq> [])"

definition read_salt :: "string \<Rightarrow> secret_error + string" where
  "read_salt text = (let salt = from_base64 (js_trim text) in if length salt < SALT_LENGTH then Inl Invalid_salt else Inr salt)"

definition read_key :: "string \<Rightarrow> secret_error + string" where
  "read_key text = (let key = from_base64 (js_trim text) in if length key \<noteq> KEY_LENGTH then Inl Invalid_key else Inr key)"

definition loadKdfSalt :: "(nat \<Rightarrow> string) \<Rightarrow> key_store \<Rightarrow> (secret_error + string) \<times> key_store" where
  "loadKdfSalt random ks = (case ks_salt ks of
     None \<Rightarrow> (let generated = random SALT_LENGTH in (Inr generated, ks\<lparr>ks_salt := Some (to_base64 generated)\<rparr>))
   | Some text \<Rightarrow> (read_salt text, ks))"

definition loadEncryptionKey ::
  "scrypt \<Rightarrow> string option \<Rightarrow> (nat \<Rightarrow> string) \<Rightarrow> key_store \<Rightarrow> (secret_error + string) \<times> key_store" where
  "loadEncryptionKey scrypt password random ks = (case ks_cached ks of
     Some key \<Rightarrow> (Inr key, ks)
   | None \<Rightarrow>
       if has_password password
       then (case loadKdfSalt random ks of
           (Inl e, ks') \<Rightarrow> (Inl e, ks')
         | (Inr salt, ks') \<Rightarrow> (let key = scrypt (the password) salt False in (Inr key, ks'\<lparr>ks_cached := Some key\<rparr>)))
       else (case ks_key ks of
           None \<Rightarrow> (let key = random KEY_LENGTH in (Inr key, ks\<lparr>ks_key := Some (to_base64 key), ks_cached := Some key\<rparr>))
         | Some text \<Rightarrow> (case read_key text of
             Inl e \<Rightarrow> (Inl e, ks)
           | Inr key \<Rightarrow> (Inr key, ks\<lparr>ks_cached := Some key\<rparr>))))"

definition loadPasswordDerivedKeySync :: "scrypt \<Rightarrow> string \<Rightarrow> bool \<Rightarrow> key_store \<Rightarrow> secret_error + string" where
  "loadPasswordDerivedKeySync scrypt password legacy ks = (case ks_salt ks of
     None \<Rightarrow> Inl Salt_not_found
   | Some text \<Rightarrow> bind_result (read_salt text) (\<lambda>salt. Inr (scrypt password salt legacy)))"

definition loadFileEncryptionKeySync :: "key_store \<Rightarrow> secret_error + string" where
  "loadFileEncryptionKeySync ks = (case ks_key ks of None \<Rightarrow> Inl Key_not_found | Some text \<Rightarrow> read_key text)"

definition loadEncryptionKeySync :: "scrypt \<Rightarrow> string option \<Rightarrow> key_store \<Rightarrow> secret_error + string" where
  "loadEncryptionKeySync scrypt password ks = (case ks_cached ks of
     Some key \<Rightarrow> Inr key
   | None \<Rightarrow> if has_password password then loadPasswordDerivedKeySync scrypt (the password) False ks
             else loadFileEncryptionKeySync ks)"


section \<open>Envelopes\<close>

text \<open>AES-256-GCM: \<open>ae_seal key iv plaintext\<close> is the tag and the ciphertext, \<open>ae_open key iv tag ciphertext\<close> fails
  when the tag is wrong.\<close>

record aead =
  ae_seal :: "string \<Rightarrow> string \<Rightarrow> string \<Rightarrow> string \<times> string"
  ae_open :: "string \<Rightarrow> string \<Rightarrow> string \<Rightarrow> string \<Rightarrow> string option"

definition isEncryptedSecret :: "string \<Rightarrow> bool" where
  "isEncryptedSecret v = (let parts = split_on (CHR '':'') v in
     length parts = 5 \<and> (parts ! 0) @ '':'' @ (parts ! 1) = ENCRYPTED_PREFIX \<and>
     length (from_base64 (parts ! 2)) = 12 \<and> length (from_base64 (parts ! 3)) = 16)"

definition seal_secret :: "aead \<Rightarrow> string \<Rightarrow> string \<Rightarrow> string \<Rightarrow> string" where
  "seal_secret ae key iv v = (case ae_seal ae key iv v of (tag, ciphertext) \<Rightarrow>
     join_with (CHR '':'') [ENCRYPTED_PREFIX, to_base64 iv, to_base64 tag, to_base64 ciphertext])"

definition encryptSecret ::
  "aead \<Rightarrow> scrypt \<Rightarrow> string option \<Rightarrow> (nat \<Rightarrow> string) \<Rightarrow> bool \<Rightarrow> string \<Rightarrow> key_store \<Rightarrow> (secret_error + string) \<times> key_store" where
  "encryptSecret ae scrypt password random force v ks =
    (if \<not> force \<and> isEncryptedSecret v then (Inr v, ks)
     else case loadEncryptionKey scrypt password random ks of
       (Inl e, ks') \<Rightarrow> (Inl e, ks')
     | (Inr key, ks') \<Rightarrow> (Inr (seal_secret ae key (random 12) v), ks'))"

text \<open>The primary key first; with a password also the keys older installations derived from it.\<close>

definition open_secret :: "aead \<Rightarrow> string option \<Rightarrow> string \<Rightarrow> (secret_error + string) \<Rightarrow> string \<Rightarrow> string \<Rightarrow> secret_error + string" where
  "open_secret ae password primary legacy static v =
    (let parts = split_on (CHR '':'') v;
         decrypt = (\<lambda>key. ae_open ae key (from_base64 (parts ! 2)) (from_base64 (parts ! 3)) (from_base64 (parts ! 4))) in
     case decrypt primary of
       Some plain \<Rightarrow> Inr plain
     | None \<Rightarrow>
         if \<not> has_password password then Inl Authentication_failed
         else (case (case legacy of Inl e \<Rightarrow> None | Inr key \<Rightarrow> decrypt key) of
             Some plain \<Rightarrow> Inr plain
           | None \<Rightarrow> (case decrypt static of Some plain \<Rightarrow> Inr plain | None \<Rightarrow> Inl Authentication_failed)))"

definition decryptSecret ::
  "aead \<Rightarrow> scrypt \<Rightarrow> string option \<Rightarrow> (nat \<Rightarrow> string) \<Rightarrow> string \<Rightarrow> key_store \<Rightarrow> (secret_error + string) \<times> key_store" where
  "decryptSecret ae scrypt password random v ks =
    (if \<not> isEncryptedSecret v then (Inr v, ks)
     else case loadEncryptionKey scrypt password random ks of
       (Inl e, ks') \<Rightarrow> (Inl e, ks')
     | (Inr key, ks') \<Rightarrow>
         (open_secret ae password key
            (bind_result (fst (loadKdfSalt random ks')) (\<lambda>salt. Inr (scrypt (the password) salt True)))
            (scrypt (the password) LEGACY_KDF_SALT True) v, ks'))"

definition decryptSecretSync :: "aead \<Rightarrow> scrypt \<Rightarrow> string option \<Rightarrow> string \<Rightarrow> key_store \<Rightarrow> secret_error + string" where
  "decryptSecretSync ae scrypt password v ks =
    (if \<not> isEncryptedSecret v then Inr v
     else bind_result (loadEncryptionKeySync scrypt password ks) (\<lambda>key.
       open_secret ae password key (loadPasswordDerivedKeySync scrypt (the password) True ks)
         (scrypt (the password) LEGACY_KDF_SALT True) v))"


section \<open>Round trips\<close>

lemma trim_plain:
  assumes "list_all (\<lambda>c. 33 \<le> ord_of c \<and> ord_of c < 128) s"
  shows "js_trim s = s"
proof -
  have start: "trim_start t = t" if "list_all (\<lambda>c. 33 \<le> ord_of c \<and> ord_of c < 128) t" for t
  proof -
    have "strip1 t = None"
    proof (cases t)
      case (Cons c u)
      with that have "33 \<le> ord_of c" "ord_of c < 128" by simp_all
      then show ?thesis by (simp add: Cons split: list.split)
    qed simp
    then show ?thesis by (subst trim_start.simps) simp
  qed
  have "trim_end t = t" if "list_all (\<lambda>c. 33 \<le> ord_of c \<and> ord_of c < 128) t" for t
    using that
  proof (induction t)
    case (Cons c t)
    then have "\<not> js_blank (c # t)" using start [of "c # t"] by (simp add: js_blank_def)
    with Cons show ?case by simp
  qed simp
  then show ?thesis using assms start [OF assms] by (simp add: js_trim_def)
qed

lemma trim_base64 [simp]: "js_trim (to_base64 s) = to_base64 s"
proof (rule trim_plain)
  have "list_all (\<lambda>b. b < 256) (map ord_of s)" by (auto simp: list_all_iff ord_of_less)
  note sextets_less [OF this]
  moreover have "33 \<le> ord_of (b64_digit d) \<and> ord_of (b64_digit d) < 128" if "d < 64" for d
    using that by (auto simp: ord_b64_digit)
  ultimately show "list_all (\<lambda>c. 33 \<le> ord_of c \<and> ord_of c < 128) (to_base64 s)"
    by (auto simp: to_base64_def list_all_iff ord_sign)
qed

lemma split_on_append: "d \<notin> set w \<Longrightarrow> split_on d (w @ d # s) = w # split_on d s"
  by (induction w) auto

lemma split_envelope:
  "split_on (CHR '':'') (join_with (CHR '':'') [ENCRYPTED_PREFIX, to_base64 a, to_base64 b, to_base64 c]) =
     [''enc'', ''v1'', to_base64 a, to_base64 b, to_base64 c]"
proof -
  have "ENCRYPTED_PREFIX @ CHR '':'' # s = ''enc'' @ CHR '':'' # (''v1'' @ CHR '':'' # s)" for s
    by (simp add: ENCRYPTED_PREFIX_def)
  then show ?thesis
    by (simp only: join_with.simps split_on_append split_on_no_sep base64_colon_free) (simp add: split_on_append split_on_no_sep base64_colon_free)
qed

lemma sealed_is_encrypted:
  assumes "ae_seal ae key iv v = (tag, ciphertext)" "length iv = 12" "length tag = 16"
  shows "isEncryptedSecret (seal_secret ae key iv v)"
  using assms by (simp add: isEncryptedSecret_def seal_secret_def split_envelope del: join_with.simps)
    (simp add: ENCRYPTED_PREFIX_def)

lemma open_sealed:
  assumes "ae_seal ae key iv v = (tag, ciphertext)" "ae_open ae key iv tag ciphertext = Some v"
  shows "open_secret ae password key legacy static (seal_secret ae key iv v) = Inr v"
  using assms by (simp add: open_secret_def seal_secret_def split_envelope del: join_with.simps)

text \<open>What the loader leaves in the store is what a later process, with nothing cached, reads from the files.\<close>

definition cache_matches :: "scrypt \<Rightarrow> string option \<Rightarrow> key_store \<Rightarrow> bool" where
  "cache_matches scrypt password ks \<longleftrightarrow>
     (case ks_cached ks of None \<Rightarrow> True | Some key \<Rightarrow> loadEncryptionKeySync scrypt password (ks\<lparr>ks_cached := None\<rparr>) = Inr key)"

lemma loaded_key_persists:
  assumes r: "\<And>n. length (random n) = n" and "cache_matches scrypt password ks"
    and "loadEncryptionKey scrypt password random ks = (Inr key, ks')"
  shows "ks_cached ks' = Some key \<and> cache_matches scrypt password ks'"
proof (cases "ks_cached ks")
  case (Some k)
  with assms show ?thesis by (simp add: loadEncryptionKey_def)
next
  case None
  show ?thesis
  proof (cases "has_password password")
    case True
    then show ?thesis using assms(3) None
      by (cases "ks_salt ks") (auto simp: loadEncryptionKey_def loadKdfSalt_def cache_matches_def loadEncryptionKeySync_def
          loadPasswordDerivedKeySync_def read_salt_def r Let_def split: if_splits)
  next
    case False
    then show ?thesis using assms(3) None
      by (cases "ks_key ks") (auto simp: loadEncryptionKey_def cache_matches_def loadEncryptionKeySync_def
          loadFileEncryptionKeySync_def read_key_def r Let_def split: if_splits sum.splits)
  qed
qed

lemma sync_key:
  assumes "cache_matches scrypt password ks" "ks_cached ks = Some key"
  shows "loadEncryptionKeySync scrypt password (ks\<lparr>ks_cached := None\<rparr>) = Inr key"
    "loadEncryptionKeySync scrypt password ks = Inr key"
    "fst (loadEncryptionKey scrypt password random (ks\<lparr>ks_cached := None\<rparr>)) = Inr key"
proof -
  show sync: "loadEncryptionKeySync scrypt password (ks\<lparr>ks_cached := None\<rparr>) = Inr key"
    "loadEncryptionKeySync scrypt password ks = Inr key"
    using assms by (simp_all add: cache_matches_def loadEncryptionKeySync_def)
  show "fst (loadEncryptionKey scrypt password random (ks\<lparr>ks_cached := None\<rparr>)) = Inr key"
    using sync(1)
    by (cases "ks_salt ks"; cases "ks_key ks")
      (auto simp: loadEncryptionKeySync_def loadEncryptionKey_def loadPasswordDerivedKeySync_def loadFileEncryptionKeySync_def
        loadKdfSalt_def Let_def bind_result_Inr_iff split: if_splits sum.splits)
qed

lemma first_loader:
  "fst (loadEncryptionKey scrypt password random ks) = Inr key \<Longrightarrow>
   \<exists>ks'. loadEncryptionKey scrypt password random ks = (Inr key, ks')"
  by (cases "loadEncryptionKey scrypt password random ks") auto


definition demo_aead :: aead where
  "demo_aead = \<lparr>ae_seal = (\<lambda>key iv p. (replicate 16 (CHR ''t''), p)), ae_open = (\<lambda>key iv tag c. Some c)\<rparr>"

definition demo_random :: "nat \<Rightarrow> string" where "demo_random n = replicate n (CHR ''r'')"

lemma plain_not_encrypted: "CHR '':'' \<notin> set v \<Longrightarrow> \<not> isEncryptedSecret v"
  by (simp add: isEncryptedSecret_def split_on_no_sep)


text \<open>Secrets of an installation that used the legacy key of its password stay readable, as long as the
  current key does not open them.\<close>

lemma legacy_secret_readable:
  assumes "has_password password" "ae_seal ae legacy iv v = (tag, ct)"
    and "ae_open ae key iv tag ct = None" "ae_open ae legacy iv tag ct = Some v"
  shows "open_secret ae password key (Inr legacy) static (seal_secret ae legacy iv v) = Inr v"
  using assms by (simp add: open_secret_def seal_secret_def split_envelope del: join_with.simps)

end
