(* ===== verification/StatePayloads.thy ===== *)
theory StatePayloads imports Secrets begin

text \<open>
  State documents (\<open>lib/validation.ts\<close>, \<open>lib/state-output-index.ts\<close>): how a stored or uploaded payload is
  decoded, when it is a Terraform v4 state, its lineage and serial, the checksums of an upload and the
  rows of the output index. \<open>JSON.parse\<close>, \<open>JSON.stringify\<close>, the digests of \<open>node:crypto\<close> and the cipher are the
  fields of a \<open>state_lib\<close>.
\<close>

section \<open>Decoding\<close>

record state_lib =
  sl_parse :: "string \<Rightarrow> json option"
  sl_stringify :: "json \<Rightarrow> string"
  sl_sha256 :: "string \<Rightarrow> string"
  sl_md5 :: "string \<Rightarrow> string"
  sl_aead :: aead
  sl_key :: string
  sl_iv :: string

text \<open>\<open>encryptSecret\<close> and \<open>decryptSecretSync\<close> of \<open>Secrets\<close> with the key loaded.\<close>

definition encryptStatePayload :: "state_lib \<Rightarrow> string option \<Rightarrow> string option" where
  "encryptStatePayload lib payload = map_option (\<lambda>p.
     if isEncryptedSecret p then p else seal_secret (sl_aead lib) (sl_key lib) (sl_iv lib) p) payload"

definition decryptStatePayload :: "state_lib \<Rightarrow> string \<Rightarrow> string option" where
  "decryptStatePayload lib payload = (if isEncryptedSecret payload
     then (case open_secret (sl_aead lib) None (sl_key lib) (Inl Invalid_key) [] payload of Inl e \<Rightarrow> None | Inr p \<Rightarrow> Some p)
     else Some payload)"

text \<open>A payload is JSON, or JSON in base64; \<open>None\<close> is the error it throws for a ciphertext that is neither.\<close>

definition decodeStatePayload :: "state_lib \<Rightarrow> string \<Rightarrow> string option" where
  "decodeStatePayload lib state = (case decryptStatePayload lib state of
     None \<Rightarrow> None
   | Some plain \<Rightarrow>
       if sl_parse lib plain \<noteq> None then Some plain
       else (let decoded = from_base64 plain in
         if sl_parse lib decoded \<noteq> None then Some decoded
         else if isEncryptedSecret state then None else Some plain))"

definition parseStatePayload :: "state_lib \<Rightarrow> string option \<Rightarrow> (string, json) js_map option" where
  "parseStatePayload lib payload = (case (case payload of None \<Rightarrow> Some ''{}'' | Some p \<Rightarrow> decodeStatePayload lib p) of
     None \<Rightarrow> None
   | Some text \<Rightarrow> (case sl_parse lib text of None \<Rightarrow> None | Some v \<Rightarrow> json_record v))"

definition isClientEncryptedState :: "state_lib \<Rightarrow> string option \<Rightarrow> bool" where
  "isClientEncryptedState lib payload = (case parseStatePayload lib payload of
     None \<Rightarrow> False
   | Some state \<Rightarrow> ''encryption_version'' \<in> set (json_keys state) \<or> ''encrypted_data'' \<in> set (json_keys state))"


section \<open>Terraform states\<close>

definition json_safe_integer :: "json option \<Rightarrow> int option" where
  "json_safe_integer v = (case v of Some (JNum n) \<Rightarrow> js_safe_integer n | _ \<Rightarrow> None)"

definition json_list :: "json option \<Rightarrow> json list option" where
  "json_list v = (case v of Some (JArr xs) \<Rightarrow> Some xs | _ \<Rightarrow> None)"

definition nonempty_string :: "json option \<Rightarrow> bool" where
  "nonempty_string v = (case v of Some (JStr s) \<Rightarrow> s \<noteq> [] | _ \<Rightarrow> False)"

definition isTerraformStateInstance :: "json \<Rightarrow> bool" where
  "isTerraformStateInstance value = (case json_record value of
     None \<Rightarrow> False
   | Some m \<Rightarrow>
       (case js_get m ''attributes'' of None \<Rightarrow> False | Some a \<Rightarrow> json_record a \<noteq> None) \<and>
       (js_get m ''schema_version'' = None \<or> json_safe_integer (js_get m ''schema_version'') \<noteq> None) \<and>
       (js_get m ''sensitive_attributes'' = None \<or> json_list (js_get m ''sensitive_attributes'') \<noteq> None) \<and>
       (js_get m ''dependencies'' = None \<or> json_list (js_get m ''dependencies'') \<noteq> None))"

definition isTerraformStateResource :: "json \<Rightarrow> bool" where
  "isTerraformStateResource value = (case json_record value of
     None \<Rightarrow> False
   | Some m \<Rightarrow>
       js_get m ''mode'' \<in> {Some (JStr ''managed''), Some (JStr ''data'')} \<and>
       nonempty_string (js_get m ''type'') \<and> nonempty_string (js_get m ''name'') \<and> nonempty_string (js_get m ''provider'') \<and>
       (case json_list (js_get m ''instances'') of None \<Rightarrow> False | Some is \<Rightarrow> list_all isTerraformStateInstance is))"

definition parseTerraformStatePayload :: "state_lib \<Rightarrow> string option \<Rightarrow> (string, json) js_map option" where
  "parseTerraformStatePayload lib payload = (case parseStatePayload lib payload of
     None \<Rightarrow> None
   | Some state \<Rightarrow>
       if ''encryption_version'' \<in> set (json_keys state) \<or> ''encrypted_data'' \<in> set (json_keys state) \<or>
         js_get state ''version'' \<noteq> Some (JNum (Finite 4)) \<or>
         (case json_safe_integer (js_get state ''serial'') of None \<Rightarrow> True | Some n \<Rightarrow> n < 0) \<or>
         \<not> nonempty_string (js_get state ''lineage'') \<or>
         (case json_list (js_get state ''resources'') of None \<Rightarrow> True | Some rs \<Rightarrow> \<not> list_all isTerraformStateResource rs)
       then None
       else if js_get state ''terraform_version'' \<noteq> None \<and> json_string (js_get state ''terraform_version'') = None then None
       else if (case js_get state ''outputs'' of None \<Rightarrow> False | Some outputs \<Rightarrow> json_record outputs = None) then None
       else Some state)"

text \<open>The serial of a payload is replaced; the numbers of the document keep their source text.\<close>

definition statePayloadWithSerial :: "state_lib \<Rightarrow> string \<Rightarrow> int \<Rightarrow> string option" where
  "statePayloadWithSerial lib payload serial =
    (if MAX_SAFE_INTEGER < \<bar>serial\<bar> \<or> serial < 0 then None
     else case sl_parse lib payload of
       Some (JObj state) \<Rightarrow> Some (sl_stringify lib (JObj (js_set ''serial'' (JNum (Finite (of_int serial))) state)))
     | _ \<Rightarrow> None)"

text \<open>The lineage check, with the previous state of the workspace if it has one: \<open>Some\<close> is the refusal.\<close>

datatype lineage_error = No_payload | Invalid_history | Lineage_mismatch

definition stateLineageError ::
  "state_lib \<Rightarrow> string option option \<Rightarrow> (string, json) js_map \<Rightarrow> lineage_error option" where
  "stateLineageError lib previous incoming = (case previous of
     None \<Rightarrow> None
   | Some None \<Rightarrow> Some No_payload
   | Some (Some payload) \<Rightarrow>
       if payload = [] then Some No_payload
       else (case (case decodeStatePayload lib payload of None \<Rightarrow> None | Some text \<Rightarrow> parseTerraformStatePayload lib (Some text)) of
           None \<Rightarrow> Some Invalid_history
         | Some state \<Rightarrow> if js_get incoming ''lineage'' = js_get state ''lineage'' then None else Some Lineage_mismatch))"


section \<open>Checksums\<close>

definition to_hex :: "string \<Rightarrow> string" where
  "to_hex s = concat (map (\<lambda>c. to_lower [hex_digit (ord_of c div 16), hex_digit (ord_of c mod 16)]) s)"

definition sha256_hex :: "state_lib \<Rightarrow> string \<Rightarrow> string" where
  "sha256_hex lib payload = to_hex (sl_sha256 lib payload)"

definition md5Matches :: "state_lib \<Rightarrow> string \<Rightarrow> string \<Rightarrow> bool" where
  "md5Matches lib rawState expected \<longleftrightarrow>
     expected = to_base64 (sl_md5 lib rawState) \<or> to_lower expected = to_hex (sl_md5 lib rawState)"


section \<open>The output index\<close>

record output_row =
  oi_outputId :: string
  oi_stateVersionId :: string
  oi_workspaceId :: string
  oi_name :: string

definition STATE_KEYS :: "string list" where
  "STATE_KEYS = [''version'', ''terraform_version'', ''serial'', ''lineage'', ''resources'', ''check_results'', ''outputs'']"

definition stateOutputIndexRows ::
  "state_lib \<Rightarrow> string \<Rightarrow> string \<Rightarrow> string option \<Rightarrow> string option \<Rightarrow> output_row list" where
  "stateOutputIndexRows lib stateVersionId workspaceId jsonState statePayload =
    (let parsed = parseStatePayload lib (if statePayload = None then jsonState else statePayload);
         bare = (case parsed of None \<Rightarrow> False | Some m \<Rightarrow> \<not> list_ex (\<lambda>k. k \<in> set (json_keys m)) STATE_KEYS);
         outputs = json_or (case parsed of None \<Rightarrow> None | Some m \<Rightarrow> js_get m ''outputs'')
           (if statePayload = None \<and> bare then map_option JObj parsed else None) in
     case outputs of
       Some (JObj m) \<Rightarrow> map (\<lambda>name. \<lparr>oi_outputId = ''wsout-'' @ sha256_hex lib (stateVersionId @ [char_of (0::nat)] @ name),
         oi_stateVersionId = stateVersionId, oi_workspaceId = workspaceId, oi_name = name\<rparr>) (json_keys m)
     | _ \<Rightarrow> [])"

text \<open>\<open>INSERT .. ON CONFLICT DO NOTHING\<close>, in batches.\<close>

definition STATE_OUTPUT_INDEX_BATCH_SIZE :: nat where "STATE_OUTPUT_INDEX_BATCH_SIZE = 200"

definition insert_new_rows :: "output_row list \<Rightarrow> output_row table \<Rightarrow> output_row table" where
  "insert_new_rows rows t = fold (\<lambda>r t. if db_find (\<lambda>s. oi_outputId s = oi_outputId r) t = None then t @ [r] else t) rows t"

function insert_batches :: "output_row list \<Rightarrow> output_row table \<Rightarrow> output_row table" where
  "insert_batches rows t = (if rows = [] then t
     else insert_batches (drop STATE_OUTPUT_INDEX_BATCH_SIZE rows) (insert_new_rows (take STATE_OUTPUT_INDEX_BATCH_SIZE rows) t))"
  by auto
termination by (relation "measure (length \<circ> fst)") (auto simp: STATE_OUTPUT_INDEX_BATCH_SIZE_def)

declare insert_batches.simps [simp del]

text \<open>The batches insert what one statement would.\<close>

lemma insert_batches_all: "insert_batches rows t = insert_new_rows rows t"
proof (induction rows t rule: insert_batches.induct)
  case (1 rows t)
  have "insert_new_rows rows t = insert_new_rows (take n rows @ drop n rows) t" for n by simp
  also have "\<dots> n = insert_new_rows (drop n rows) (insert_new_rows (take n rows) t)" for n
    unfolding insert_new_rows_def fold_append by simp
  finally show ?case using 1 by (subst insert_batches.simps) (simp add: insert_new_rows_def)
qed


section \<open>Facts\<close>

text \<open>The cipher reads back what it wrote, and a state document does not look like a ciphertext.\<close>

definition sealing :: "state_lib \<Rightarrow> bool" where
  "sealing lib \<longleftrightarrow> length (sl_iv lib) = 12 \<and> (\<forall>key iv p. length (fst (ae_seal (sl_aead lib) key iv p)) = 16 \<and>
     ae_open (sl_aead lib) key iv (fst (ae_seal (sl_aead lib) key iv p)) (snd (ae_seal (sl_aead lib) key iv p)) = Some p)"

lemma decrypt_encrypted:
  assumes "sealing lib" "\<not> isEncryptedSecret p"
  shows "\<exists>c. encryptStatePayload lib (Some p) = Some c \<and> isEncryptedSecret c \<and> decryptStatePayload lib c = Some p"
proof -
  let ?c = "seal_secret (sl_aead lib) (sl_key lib) (sl_iv lib) p"
  obtain tag ct where s: "ae_seal (sl_aead lib) (sl_key lib) (sl_iv lib) p = (tag, ct)"
    by (cases "ae_seal (sl_aead lib) (sl_key lib) (sl_iv lib) p")
  then have "length tag = 16" "ae_open (sl_aead lib) (sl_key lib) (sl_iv lib) tag ct = Some p"
    using assms(1) by (metis sealing_def fst_conv snd_conv)+
  then have "isEncryptedSecret ?c" "open_secret (sl_aead lib) None (sl_key lib) (Inl Invalid_key) [] ?c = Inr p"
    using sealed_is_encrypted [OF s] open_sealed [OF s] assms(1) by (simp_all add: sealing_def)
  with assms(2) show ?thesis by (simp add: encryptStatePayload_def decryptStatePayload_def)
qed

lemma decode_encrypted:
  assumes "sealing lib" "\<not> isEncryptedSecret p" "sl_parse lib p \<noteq> None" "encryptStatePayload lib (Some p) = Some c"
  shows "decodeStatePayload lib c = Some p"
  using decrypt_encrypted [OF assms(1,2)] assms(3,4) by (auto simp: decodeStatePayload_def)

lemma parsed_state_serial:
  "parseTerraformStatePayload lib p = Some m \<Longrightarrow> \<exists>n \<ge> 0. json_safe_integer (js_get m ''serial'') = Some n"
  by (auto simp: parseTerraformStatePayload_def Let_def split: option.splits if_splits)

end
