(* ===== verification/StateVersions.thy ===== *)
theory StateVersions imports StatePayloads begin

text \<open>
  The state versions of a workspace: reservations and uploads (\<open>lib/state-reservations.ts\<close>,
  \<open>lib/commands/state-version.ts\<close>, \<open>lib/state-commit.ts\<close>, \<open>lib/state-serial.ts\<close>), and the writers of
  \<open>routes/state-versions.ts\<close> with the workspace lock they depend on. Every transaction is one function of
  the tables; a refusal leaves them unchanged (rollback). Metadata columns that no operation reads back
  (the summary, the VCS commit, the Terraform version) are left out.
\<close>

section \<open>Tables\<close>

datatype sv_status = Sv_pending | Sv_finalized | Sv_discarded | Sv_soft_deleted | Sv_permanently_deleted

text \<open>The lock of a workspace; \<open>stateUploadLock\<close> is the JSON text of this tuple, which is injective.\<close>

type_synonym lock_image = "bool option \<times> string option \<times> string option \<times> int option"

record lockable =
  wl_id :: string
  wl_orgId :: string
  wl_locked :: "bool option"
  wl_lockedReason :: "string option"
  wl_lockOwnerType :: "string option"
  wl_lockOwnerId :: "string option"
  wl_lockedAt :: "int option"

record state_version =
  sv_id :: string
  sv_workspaceId :: string
  sv_serial :: int
  sv_expectedMd5 :: "string option"
  sv_expectedLineage :: "string option"
  sv_uploadExpiresAt :: "int option"
  sv_uploadLock :: "lock_image option"
  sv_uploadSha256 :: "string option"
  sv_statePayload :: "string option"
  sv_status :: sv_status
  sv_jsonState :: "string option"
  sv_jsonStateOutputs :: "string option"
  sv_runId :: "string option"
  sv_createdBy :: "string option"
  sv_intermediate :: bool
  sv_softDeletedAt :: "int option"
  sv_createdAt :: int

datatype sv_audit =
  Audit_create string string int sv_status
| Audit_promote string string int
| Audit_recover string string int
| Audit_unmark string string
| Audit_drop string string int string

record state_store =
  st_workspaces :: "lockable table"
  st_versions :: "state_version table"
  st_outputs :: "output_row table"
  st_audit :: "sv_audit list"

datatype sv_error = Rejected nat string | Serial_conflict | Unique_violation | Crashed

type_synonym 'a sv_tx = "state_store \<Rightarrow> (sv_error + 'a) \<times> state_store"

definition no_content :: "string option \<Rightarrow> bool" where
  "no_content p \<longleftrightarrow> p = None \<or> p = Some []"

definition of_workspace :: "string \<Rightarrow> state_store \<Rightarrow> state_version list" where
  "of_workspace w st = filter (\<lambda>v. sv_workspaceId v = w) (st_versions st)"

text \<open>\<open>ORDER BY serial DESC LIMIT 1\<close>.\<close>

definition latest_of :: "state_version list \<Rightarrow> state_version option" where
  "latest_of vs = (case js_sort (\<lambda>a b. sv_serial b - sv_serial a) vs of [] \<Rightarrow> None | v # _ \<Rightarrow> Some v)"

definition latest_any :: "string \<Rightarrow> state_store \<Rightarrow> state_version option" where
  "latest_any w st = latest_of (of_workspace w st)"

definition latest_finalized :: "string \<Rightarrow> state_store \<Rightarrow> state_version option" where
  "latest_finalized w st = latest_of (filter (\<lambda>v. sv_status v = Sv_finalized) (of_workspace w st))"

definition current_version :: "string \<Rightarrow> state_store \<Rightarrow> state_version option" where
  "current_version w st = latest_of (filter (\<lambda>v. sv_status v = Sv_finalized \<and> \<not> sv_intermediate v) (of_workspace w st))"

definition find_version :: "string \<Rightarrow> state_store \<Rightarrow> state_version option" where
  "find_version i st = db_find (\<lambda>v. sv_id v = i) (st_versions st)"

definition find_lockable :: "string \<Rightarrow> state_store \<Rightarrow> lockable option" where
  "find_lockable i st = db_find (\<lambda>w. wl_id w = i) (st_workspaces st)"

text \<open>An insertion fails on the primary key and on the unique index over workspace and serial.\<close>

definition insert_version :: "state_version \<Rightarrow> unit sv_tx" where
  "insert_version v st =
    (if list_ex (\<lambda>u. sv_id u = sv_id v \<or> sv_workspaceId u = sv_workspaceId v \<and> sv_serial u = sv_serial v) (st_versions st)
     then (Inl Unique_violation, st)
     else (Inr (), st\<lparr>st_versions := st_versions st @ [v]\<rparr>))"


section \<open>Workspace locks and reservations\<close>

definition STATE_UPLOAD_TTL_MS :: int where "STATE_UPLOAD_TTL_MS = 60 * 60 * 1000"

definition stateUploadLock :: "lockable \<Rightarrow> lock_image" where
  "stateUploadLock w = (wl_locked w, wl_lockOwnerType w, wl_lockOwnerId w, wl_lockedAt w)"

definition upload_expiry :: "state_version \<Rightarrow> int" where
  "upload_expiry v = js_default (sv_uploadExpiresAt v) (sv_createdAt v + STATE_UPLOAD_TTL_MS)"

definition stateReservationObsolete :: "state_version \<Rightarrow> lockable \<Rightarrow> int \<Rightarrow> bool" where
  "stateReservationObsolete r w now \<longleftrightarrow>
     upload_expiry r \<le> now \<or> (case sv_uploadLock r of None \<Rightarrow> False | Some l \<Rightarrow> l \<noteq> stateUploadLock w)"

text \<open>The update of the fence sets \<open>locked\<close> to the value it had; it holds when the row still has the lock the
  caller read.\<close>

definition fenceStateWorkspace :: "lockable \<Rightarrow> state_store \<Rightarrow> bool" where
  "fenceStateWorkspace w st \<longleftrightarrow>
     length (db_returning (\<lambda>r. wl_id r = wl_id w \<and> stateUploadLock r = stateUploadLock w)
       (\<lambda>r. r\<lparr>wl_locked := wl_locked w\<rparr>) (st_workspaces st)) = 1"

definition pending_empty :: "string \<Rightarrow> state_version \<Rightarrow> bool" where
  "pending_empty i v \<longleftrightarrow> sv_id v = i \<and> sv_status v = Sv_pending \<and> sv_statePayload v = None"

definition discardStateReservation :: "state_version \<Rightarrow> lockable \<Rightarrow> string \<Rightarrow> state_store \<Rightarrow> bool \<times> state_store" where
  "discardStateReservation r w reason st =
    (if list_ex (pending_empty (sv_id r)) (st_versions st)
     then (True, st\<lparr>st_versions := db_delete (pending_empty (sv_id r)) (st_versions st),
         st_outputs := db_delete (\<lambda>row. oi_stateVersionId row = sv_id r) (st_outputs st),
         st_audit := st_audit st @ [Audit_drop (sv_id r) (wl_id w) (sv_serial r) reason]\<rparr>)
     else (False, st))"

definition pruneStateReservations :: "lockable \<Rightarrow> int \<Rightarrow> state_store \<Rightarrow> state_store" where
  "pruneStateReservations w now st =
    fold (\<lambda>r st. if stateReservationObsolete r w now
        then snd (discardStateReservation r w (if upload_expiry r \<le> now then ''upload-expired'' else ''lock-changed'') st) else st)
      (filter (\<lambda>v. sv_workspaceId v = wl_id w \<and> sv_status v = Sv_pending \<and> sv_statePayload v = None) (st_versions st)) st"

record lock_principal =
  lp_type :: string
  lp_id :: string

definition given :: "string option \<Rightarrow> bool" where
  "given i \<longleftrightarrow> i \<noteq> None \<and> i \<noteq> Some []"

definition lockPrincipal :: "string option \<Rightarrow> string option \<Rightarrow> string option \<Rightarrow> lock_principal" where
  "lockPrincipal userId orgId teamId =
    (if given teamId then \<lparr>lp_type = ''team'', lp_id = the teamId\<rparr>
     else if given userId then \<lparr>lp_type = ''user'', lp_id = the userId\<rparr>
     else if given orgId then \<lparr>lp_type = ''organization'', lp_id = the orgId\<rparr>
     else \<lparr>lp_type = ''service'', lp_id = ''system''\<rparr>)"

definition ownsWorkspaceLock :: "lockable \<Rightarrow> lock_principal \<Rightarrow> bool" where
  "ownsWorkspaceLock w p \<longleftrightarrow>
     wl_locked w = Some True \<and> wl_lockOwnerType w = Some (lp_type p) \<and> wl_lockOwnerId w = Some (lp_id p)"


section \<open>The output index\<close>

text \<open>With a state payload the digest of the decoded payload replaces the checksum of the row.\<close>

definition insertStateOutputIndex ::
  "state_lib \<Rightarrow> string \<Rightarrow> string \<Rightarrow> string option \<Rightarrow> string option \<Rightarrow> unit sv_tx" where
  "insertStateOutputIndex lib i w jsonState statePayload st =
    (case (case statePayload of None \<Rightarrow> Some None | Some p \<Rightarrow> map_option Some (decodeStatePayload lib p)) of
       None \<Rightarrow> (Inl Crashed, st)
     | Some canonical \<Rightarrow> (Inr (), st\<lparr>
         st_versions := (case canonical of None \<Rightarrow> st_versions st
           | Some text \<Rightarrow> db_update (\<lambda>v. sv_id v = i) (\<lambda>v. v\<lparr>sv_uploadSha256 := Some (sha256_hex lib text)\<rparr>) (st_versions st)),
         st_outputs := insert_batches (stateOutputIndexRows lib i w jsonState statePayload) (st_outputs st)\<rparr>))"

definition replaceStateOutputIndex ::
  "state_lib \<Rightarrow> string \<Rightarrow> string \<Rightarrow> string option \<Rightarrow> string option \<Rightarrow> unit sv_tx" where
  "replaceStateOutputIndex lib i w jsonState statePayload st =
    insertStateOutputIndex lib i w jsonState statePayload
      (st\<lparr>st_outputs := db_delete (\<lambda>row. oi_stateVersionId row = i) (st_outputs st)\<rparr>)"

definition tx_bind :: "'a sv_tx \<Rightarrow> ('a \<Rightarrow> 'b sv_tx) \<Rightarrow> 'b sv_tx" where
  "tx_bind a f st = (case a st of (Inl e, st') \<Rightarrow> (Inl e, st') | (Inr x, st') \<Rightarrow> f x st')"

definition transaction :: "'a sv_tx \<Rightarrow> 'a sv_tx" where
  "transaction body st = (case body st of (Inl e, _) \<Rightarrow> (Inl e, st) | (Inr x, st') \<Rightarrow> (Inr x, st'))"

definition append_audit :: "sv_audit \<Rightarrow> 'a \<Rightarrow> 'a sv_tx" where
  "append_audit a x st = (Inr x, st\<lparr>st_audit := st_audit st @ [a]\<rparr>)"

text \<open>Three attempts; what other writers do between two of them is \<open>between\<close>.\<close>

fun serial_attempts :: "nat \<Rightarrow> (nat \<Rightarrow> state_store \<Rightarrow> state_store) \<Rightarrow> 'a sv_tx \<Rightarrow> 'a sv_tx" where
  "serial_attempts 0 between operation st = (Inl Crashed, st)"
| "serial_attempts (Suc n) between operation st = (case operation st of
     (Inl Unique_violation, st') \<Rightarrow> if n = 0 then (Inl Unique_violation, st') else serial_attempts n between operation (between n st')
   | r \<Rightarrow> r)"

definition withStateSerialRetry :: "(nat \<Rightarrow> state_store \<Rightarrow> state_store) \<Rightarrow> 'a sv_tx \<Rightarrow> 'a sv_tx" where
  "withStateSerialRetry between operation = serial_attempts 3 between operation"



section \<open>Uploads to a reservation\<close>

datatype commit_invalid = Invalid_state_payload | Invalid_serial | Invalid_reservation
datatype commit_conflict = Reservation_obsolete | Content_already_uploaded | Workspace_changed

datatype commit_result =
  Committed string
| Already_committed string
| Commit_not_found
| Commit_invalid commit_invalid
| Commit_conflict commit_conflict

definition validateReservationPayload ::
  "state_lib \<Rightarrow> state_version \<Rightarrow> string \<Rightarrow> commit_result + (string, json) js_map" where
  "validateReservationPayload lib r rawState = (case parseTerraformStatePayload lib (Some rawState) of
     None \<Rightarrow> Inl (Commit_invalid Invalid_state_payload)
   | Some parsed \<Rightarrow>
       if json_safe_integer (js_get parsed ''serial'') \<noteq> Some (sv_serial r) then Inl (Commit_invalid Invalid_serial)
       else if (case sv_expectedLineage r of None \<Rightarrow> False | Some l \<Rightarrow> js_get parsed ''lineage'' \<noteq> Some (JStr l)) \<or>
         (case sv_expectedMd5 r of None \<Rightarrow> False | Some m \<Rightarrow> \<not> md5Matches lib rawState m)
       then Inl (Commit_invalid Invalid_reservation)
       else Inr parsed)"

text \<open>The outer option is the error of decoding the committed payload.\<close>

definition existingCommitResult :: "state_lib \<Rightarrow> state_version \<Rightarrow> string \<Rightarrow> commit_result option option" where
  "existingCommitResult lib r incomingSha256 =
    (if sv_status r = Sv_finalized \<and> \<not> no_content (sv_statePayload r)
     then (case (case sv_uploadSha256 r of Some s \<Rightarrow> Some s
           | None \<Rightarrow> map_option (sha256_hex lib) (decodeStatePayload lib (the (sv_statePayload r)))) of
         None \<Rightarrow> None
       | Some committed \<Rightarrow> Some (Some (if incomingSha256 = committed then Already_committed (sv_id r) else Commit_conflict Content_already_uploaded)))
     else if sv_status r \<noteq> Sv_pending \<or> \<not> no_content (sv_statePayload r) then Some (Some (Commit_conflict Content_already_uploaded))
     else Some None)"

definition commitPendingReservation ::
  "state_lib \<Rightarrow> state_version \<Rightarrow> lockable \<Rightarrow> (string, json) js_map \<Rightarrow> string \<Rightarrow> string \<Rightarrow> int \<Rightarrow> commit_result sv_tx" where
  "commitPendingReservation lib r w parsed rawState incomingSha256 now st =
    (let current = latest_finalized (sv_workspaceId r) st in
     if stateReservationObsolete r w now then (Inr (Commit_conflict Reservation_obsolete), st)
     else if \<not> fenceStateWorkspace w st then (Inr (Commit_conflict Workspace_changed), st)
     else if (case current of None \<Rightarrow> False | Some c \<Rightarrow> sv_serial r \<le> sv_serial c) then (Inr (Commit_conflict Content_already_uploaded), st)
     else if stateLineageError lib (map_option sv_statePayload current) parsed \<noteq> None then (Inr (Commit_invalid Invalid_reservation), st)
     else case (case sv_jsonState r of None \<Rightarrow> Some None | Some j \<Rightarrow> map_option Some (decodeStatePayload lib j)) of
       None \<Rightarrow> (Inl Crashed, st)
     | Some decodedJsonState \<Rightarrow>
         (let p = (\<lambda>v. sv_id v = sv_id r \<and> sv_status v = Sv_pending \<and> no_content (sv_statePayload v));
              f = (\<lambda>v. v\<lparr>sv_statePayload := encryptStatePayload lib (Some rawState), sv_status := Sv_finalized,
                  sv_uploadSha256 := Some incomingSha256\<rparr>) in
          if db_returning p f (st_versions st) = [] then (Inr (Commit_conflict Content_already_uploaded), st)
          else tx_bind (replaceStateOutputIndex lib (sv_id r) (sv_workspaceId r) decodedJsonState (Some rawState))
            (\<lambda>_ st'. (Inr (Committed (sv_id r)), st')) (st\<lparr>st_versions := db_update p f (st_versions st)\<rparr>)))"

definition commit_body :: "state_lib \<Rightarrow> string \<Rightarrow> string \<Rightarrow> int \<Rightarrow> commit_result sv_tx" where
  "commit_body lib i rawState now st =
    (let incomingSha256 = sha256_hex lib rawState in
     case find_version i st of
       None \<Rightarrow> (Inr Commit_not_found, st)
     | Some r \<Rightarrow> (case existingCommitResult lib r incomingSha256 of
         None \<Rightarrow> (Inl Crashed, st)
       | Some (Some existing) \<Rightarrow> (Inr existing,
           if existing = Already_committed i \<and> sv_uploadSha256 r = None
           then st\<lparr>st_versions := db_update (\<lambda>v. sv_id v = i) (\<lambda>v. v\<lparr>sv_uploadSha256 := Some incomingSha256\<rparr>) (st_versions st)\<rparr>
           else st)
       | Some None \<Rightarrow> (case find_lockable (sv_workspaceId r) st of
           None \<Rightarrow> (Inr Commit_not_found, st)
         | Some w \<Rightarrow>
             if stateReservationObsolete r w now then (Inr (Commit_conflict Reservation_obsolete), st)
             else (case validateReservationPayload lib r rawState of
               Inl invalid \<Rightarrow> (Inr invalid, st)
             | Inr parsed \<Rightarrow> commitPendingReservation lib r w parsed rawState incomingSha256 now st))))"

definition commitStateVersion :: "state_lib \<Rightarrow> string \<Rightarrow> string \<Rightarrow> int \<Rightarrow> commit_result sv_tx" where
  "commitStateVersion lib i rawState now st = (case transaction (commit_body lib i rawState now) st of
     (Inl Unique_violation, st') \<Rightarrow> (Inr (Commit_conflict Content_already_uploaded), st')
   | r \<Rightarrow> r)"

text \<open>The status the upload route answers.\<close>

definition applyCommittedUpload :: "commit_result \<Rightarrow> nat" where
  "applyCommittedUpload c = (case c of
     Commit_not_found \<Rightarrow> 404
   | Commit_invalid reason \<Rightarrow> if reason = Invalid_state_payload then 400 else 422
   | Commit_conflict _ \<Rightarrow> 409
   | _ \<Rightarrow> 200)"

text \<open>The two uploads of derived documents. The version and the workspace are rows the handler read before.\<close>

definition assertOutputsUploadable :: "state_version \<Rightarrow> lockable \<Rightarrow> int \<Rightarrow> sv_error + unit" where
  "assertOutputsUploadable v w now =
    (if \<not> no_content (sv_jsonStateOutputs v) then Inl (Rejected 409 ''JSON state outputs were already uploaded'')
     else if sv_status v = Sv_finalized then Inl (Rejected 409 ''State version is finalized; outputs can no longer be uploaded'')
     else if sv_status v = Sv_pending \<and> stateReservationObsolete v w now
     then Inl (Rejected 409 ''State upload reservation expired or its workspace lock changed'')
     else Inr ())"

definition commitJsonOutputsUpload :: "state_version \<Rightarrow> lockable \<Rightarrow> string option \<Rightarrow> int \<Rightarrow> unit sv_tx" where
  "commitJsonOutputsUpload v w encrypted now st =
    (let p = (\<lambda>u. sv_id u = sv_id v \<and> sv_status u = Sv_pending \<and> no_content (sv_jsonStateOutputs u));
         f = (\<lambda>u. u\<lparr>sv_jsonStateOutputs := encrypted\<rparr>) in
     if \<not> fenceStateWorkspace w st \<or> stateReservationObsolete v w now \<or> db_returning p f (st_versions st) = []
     then (Inl (Rejected 409 ''JSON state outputs were already uploaded''), st)
     else (Inr (), st\<lparr>st_versions := db_update p f (st_versions st)\<rparr>))"

definition assertJsonUploadable :: "state_version \<Rightarrow> lockable \<Rightarrow> int \<Rightarrow> sv_error + unit" where
  "assertJsonUploadable v w now =
    (if \<not> no_content (sv_jsonState v) then Inl (Rejected 409 ''JSON state content was already uploaded'')
     else if sv_status v = Sv_pending \<and> stateReservationObsolete v w now
     then Inl (Rejected 409 ''State upload reservation expired or its workspace lock changed'')
     else Inr ())"

definition json_upload_body :: "state_lib \<Rightarrow> state_version \<Rightarrow> lockable \<Rightarrow> string option \<Rightarrow> string \<Rightarrow> int \<Rightarrow> unit sv_tx" where
  "json_upload_body lib v w encrypted jsonState now st =
    (let p = (\<lambda>u. sv_id u = sv_id v \<and> sv_status u \<in> {Sv_pending, Sv_finalized} \<and> no_content (sv_jsonState u));
         f = (\<lambda>u. u\<lparr>sv_jsonState := encrypted\<rparr>);
         st' = st\<lparr>st_versions := db_update p f (st_versions st)\<rparr> in
     if sv_status v = Sv_pending \<and> (\<not> fenceStateWorkspace w st \<or> stateReservationObsolete v w now)
     then (Inl (Rejected 409 ''JSON state content was already uploaded''), st)
     else case db_returning p f (st_versions st) of
       [] \<Rightarrow> (Inl (Rejected 409 ''JSON state content was already uploaded''), st)
     | row # _ \<Rightarrow>
         if sv_status row = Sv_finalized
         then (case (case sv_statePayload row of None \<Rightarrow> Some None | Some s \<Rightarrow> map_option Some (decodeStatePayload lib s)) of
             None \<Rightarrow> (Inl Crashed, st')
           | Some decoded \<Rightarrow> replaceStateOutputIndex lib (sv_id v) (sv_workspaceId v) (Some jsonState) decoded st')
         else (Inr (), st'))"

definition commitJsonUpload :: "state_lib \<Rightarrow> state_version \<Rightarrow> lockable \<Rightarrow> string option \<Rightarrow> string \<Rightarrow> int \<Rightarrow> unit sv_tx" where
  "commitJsonUpload lib v w encrypted jsonState now = transaction (json_upload_body lib v w encrypted jsonState now)"

end
