(* ===== verification/StateWriters.thy ===== *)
theory StateWriters imports StateVersions begin

text \<open>
  The operations that write state versions (\<open>routes/state-versions.ts\<close>, \<open>lib/state-commit.ts\<close>,
  \<open>lib/state-serial.ts\<close>): creating a version or a reservation, uploading a whole state, rolling back,
  promoting a recovery copy, the executor's insertion, the deletion actions, and the workspace lock
  (\<open>routes/workspaces.ts\<close>). The authorization checks are arguments, the idempotency key around a request is
  in \<open>Idempotency\<close>.
\<close>

section \<open>Requests\<close>

record run_info =
  ri_id :: string
  ri_workspaceId :: string
  ri_createdBy :: "string option"
  ri_status :: string
  ri_planOnly :: bool
  ri_softDeletedAt :: "int option"
  ri_speculative :: bool

text \<open>The run a run-scoped credential names: its id and its workspace.\<close>

type_synonym run_credential = "(string \<times> string) option"

definition check :: "bool \<Rightarrow> sv_error \<Rightarrow> sv_error + unit" where
  "check ok e = (if ok then Inr () else Inl e)"

text \<open>A planning credential is read-only.\<close>

definition assertRunStateWrite :: "run_info table \<Rightarrow> string \<times> string \<Rightarrow> string \<Rightarrow> sv_error + unit" where
  "assertRunStateWrite runs run workspaceId = check
     (snd run = workspaceId \<and>
      (case db_find (\<lambda>r. ri_id r = fst run) runs of
         None \<Rightarrow> False
       | Some r \<Rightarrow> ri_workspaceId r = workspaceId \<and> ri_status r = ''applying'' \<and> \<not> ri_planOnly r \<and> ri_softDeletedAt r = None \<and> \<not> ri_speculative r))
     (Rejected 403 ''Run credentials may write state only during a non-speculative apply'')"

text \<open>\<open>findAuthorizedWorkspace\<close> is the row of the workspace when the caller has the permission.\<close>

definition resolveStateVersionWorkspace ::
  "run_info table \<Rightarrow> run_credential \<Rightarrow> bool \<Rightarrow> string \<Rightarrow> state_store \<Rightarrow> sv_error + lockable" where
  "resolveStateVersionWorkspace runs run authorized workspaceId st =
    bind_result (case run of None \<Rightarrow> Inr () | Some r \<Rightarrow> assertRunStateWrite runs r workspaceId) (\<lambda>_.
      case (if (case run of None \<Rightarrow> False | Some r \<Rightarrow> snd r = workspaceId) \<or> authorized then find_lockable workspaceId st else None) of
        None \<Rightarrow> Inl (Rejected 404 ''Not Found'')
      | Some w \<Rightarrow> Inr w)"

record version_request =
  vr_type :: "json option"
  vr_expectedMd5 :: "json option"
  vr_expectedLineage :: "json option"
  vr_inlineState :: "string option"
  vr_inlineJsonState :: "string option"
  vr_inlineJsonStateOutputs :: "string option"
  vr_requestedRunId :: "string option"
  vr_intermediate :: bool
  vr_serial :: "js_number option"

definition objectField :: "json option \<Rightarrow> (string, json) js_map" where
  "objectField v = (case v of Some (JObj m) \<Rightarrow> m | _ \<Rightarrow> [])"

definition parseStateVersionPayload :: "json option \<Rightarrow> version_request" where
  "parseStateVersionPayload body =
    (let data = objectField (js_get (objectField body) ''data'');
         attributes = objectField (js_get data ''attributes'');
         run = objectField (js_get (objectField (js_get data ''relationships'')) ''run'');
         runData = objectField (js_get run ''data'') in
     \<lparr>vr_type = js_get data ''type'',
      vr_expectedMd5 = js_get attributes ''md5'',
      vr_expectedLineage = js_get attributes ''lineage'',
      vr_inlineState = json_string (js_get attributes ''state''),
      vr_inlineJsonState = json_string (js_get attributes ''json-state''),
      vr_inlineJsonStateOutputs = json_string (js_get attributes ''json-state-outputs''),
      vr_requestedRunId = json_string (js_get runData ''id''),
      vr_intermediate = (js_get attributes ''intermediate'' = Some (JBool True)),
      vr_serial = (case js_get attributes ''serial'' of Some (JNum n) \<Rightarrow> Some n | _ \<Rightarrow> None)\<rparr>)"

text \<open>\<open>/^(?:[a-fA-F0-9]{32}|[A-Za-z0-9+\/]{22}==)$/\<close>\<close>

definition is_hex :: "char \<Rightarrow> bool" where
  "is_hex c \<longleftrightarrow> is_digit c \<or> 97 \<le> ord_of c \<and> ord_of c \<le> 102 \<or> 65 \<le> ord_of c \<and> ord_of c \<le> 70"

definition md5_shape :: "string \<Rightarrow> bool" where
  "md5_shape s \<longleftrightarrow> length s = 32 \<and> list_all is_hex s \<or>
     length s = 24 \<and> drop 22 s = ''=='' \<and> list_all (\<lambda>c. is_alnum c \<or> c \<in> {CHR ''+'', CHR ''/''}) (take 22 s)"

definition stateChecksumShapeError :: "json option \<Rightarrow> json option \<Rightarrow> bool" where
  "stateChecksumShapeError expectedMd5 expectedLineage \<longleftrightarrow>
     expectedMd5 \<noteq> None \<and> (case json_string expectedMd5 of None \<Rightarrow> True | Some m \<Rightarrow> \<not> md5_shape m) \<or>
     expectedLineage \<noteq> None \<and> \<not> nonempty_string expectedLineage"

definition assertStateVersionCreatable :: "version_request \<Rightarrow> run_credential \<Rightarrow> string option \<Rightarrow> sv_error + unit" where
  "assertStateVersionCreatable parsed run orgId =
    (if vr_type parsed \<noteq> Some (JStr ''state-versions'') then Inl (Rejected 422 ''data.type must be state-versions'')
     else if orgId \<noteq> None then Inl (Rejected 403 ''Organization tokens cannot create state versions'')
     else if stateChecksumShapeError (vr_expectedMd5 parsed) (vr_expectedLineage parsed)
     then Inl (Rejected 422 ''Invalid state checksum or lineage'')
     else if (case run of None \<Rightarrow> False | Some r \<Rightarrow> vr_requestedRunId parsed \<noteq> None \<and> vr_requestedRunId parsed \<noteq> Some (fst r))
     then Inl (Rejected 422 ''run must match the run-scoped credential'')
     else Inr ())"

text \<open>An empty text counts as no content.\<close>

definition decode_body :: "state_lib \<Rightarrow> string option \<Rightarrow> sv_error + string option" where
  "decode_body lib text = (if no_content text then Inr None
     else (case decodeStatePayload lib (the text) of None \<Rightarrow> Inl Crashed | Some s \<Rightarrow> Inr (Some s)))"

definition decodeStateVersionBodies ::
  "state_lib \<Rightarrow> version_request \<Rightarrow> sv_error + (string option \<times> string option \<times> string option)" where
  "decodeStateVersionBodies lib p =
    bind_result (decode_body lib (vr_inlineState p)) (\<lambda>state.
    bind_result (decode_body lib (vr_inlineJsonState p)) (\<lambda>jsonState.
    bind_result (decode_body lib (vr_inlineJsonStateOutputs p)) (\<lambda>outputs. Inr (state, jsonState, outputs))))"

definition assertStateVersionSerial :: "js_number option \<Rightarrow> sv_error + int" where
  "assertStateVersionSerial serial = (case serial of
     None \<Rightarrow> Inl (Rejected 400 ''param is missing or the value is empty: serial'')
   | Some n \<Rightarrow> (case js_safe_integer n of
       None \<Rightarrow> Inl (Rejected 422 ''serial must be a non-negative safe integer'')
     | Some i \<Rightarrow> if i < 0 then Inl (Rejected 422 ''serial must be a non-negative safe integer'') else Inr i))"

definition resolveStateVersionRun :: "run_info table \<Rightarrow> string option \<Rightarrow> string \<Rightarrow> sv_error + string option" where
  "resolveStateVersionRun runs runId workspaceId = (case runId of
     None \<Rightarrow> Inr None
   | Some i \<Rightarrow> (case db_find (\<lambda>r. ri_id r = i) runs of
       None \<Rightarrow> Inl (Rejected 422 ''run must belong to this workspace'')
     | Some r \<Rightarrow> if ri_workspaceId r \<noteq> workspaceId then Inl (Rejected 422 ''run must belong to this workspace'') else Inr (ri_createdBy r)))"

definition assertStateVersionWritable :: "run_credential \<Rightarrow> lockable \<Rightarrow> lock_principal \<Rightarrow> bool \<Rightarrow> sv_error + unit" where
  "assertStateVersionWritable run w caller intermediate =
    (if run = None \<and> \<not> ownsWorkspaceLock w caller
     then Inl (Rejected 409 ''Workspace must be locked by the caller before writing state'')
     else if intermediate \<and> wl_locked w \<noteq> Some True then Inl (Rejected 409 ''Intermediate state requires a locked workspace'')
     else Inr ())"

definition assertStatePayloadMd5 :: "state_lib \<Rightarrow> string option \<Rightarrow> json option \<Rightarrow> sv_error + unit" where
  "assertStatePayloadMd5 lib statePayload md5Attribute = (case statePayload of
     None \<Rightarrow> Inr ()
   | Some s \<Rightarrow> (case json_string md5Attribute of
       None \<Rightarrow> Inl (Rejected 400 ''md5 is required when state is supplied'')
     | Some m \<Rightarrow> check (md5Matches lib s m) (Rejected 422 ''md5 does not match the state payload'')))"

definition parseAndAssertStatePayload ::
  "state_lib \<Rightarrow> string option \<Rightarrow> json option \<Rightarrow> int \<Rightarrow> json option \<Rightarrow> sv_error + (string, json) js_map option" where
  "parseAndAssertStatePayload lib statePayload expectedLineage serial md5Attribute =
    (let parsed = (case statePayload of None \<Rightarrow> None | Some s \<Rightarrow> parseTerraformStatePayload lib (Some s)) in
     if statePayload \<noteq> None \<and> parsed = None then Inl (Rejected 400 ''State content must be a valid plaintext Terraform/OpenTofu v4 state file'')
     else if (case parsed of None \<Rightarrow> False | Some m \<Rightarrow> expectedLineage \<noteq> None \<and> js_get m ''lineage'' \<noteq> expectedLineage)
     then Inl (Rejected 422 ''lineage does not match the state payload'')
     else if (case parsed of None \<Rightarrow> False | Some m \<Rightarrow> json_safe_integer (js_get m ''serial'') \<noteq> Some serial)
     then Inl (Rejected 422 ''serial does not match the Terraform state payload'')
     else bind_result (assertStatePayloadMd5 lib statePayload md5Attribute) (\<lambda>_. Inr parsed))"

definition assertStateVersionAdvances ::
  "state_lib \<Rightarrow> string \<Rightarrow> int \<Rightarrow> (string, json) js_map option \<Rightarrow> string option \<Rightarrow> state_store \<Rightarrow> sv_error + unit" where
  "assertStateVersionAdvances lib workspaceId serial parsed jsonState st =
    (let latest = latest_finalized workspaceId st in
     if (case latest of None \<Rightarrow> False | Some l \<Rightarrow> serial \<le> sv_serial l)
     then Inl (Rejected 409 ''State serial must advance the current workspace state'')
     else if (case parsed of None \<Rightarrow> False | Some m \<Rightarrow> stateLineageError lib (map_option sv_statePayload latest) m \<noteq> None)
     then Inl (Rejected 409 ''lineage'')
     else check (jsonState = None \<or> parseStatePayload lib jsonState \<noteq> None) (Rejected 400 ''JSON state content must be valid JSON''))"


section \<open>Creating a version\<close>

record insert_args =
  ia_id :: string
  ia_workspaceId :: string
  ia_serial :: int
  ia_expectedMd5 :: "string option"
  ia_expectedLineage :: "string option"
  ia_statePayload :: "string option"
  ia_runId :: "string option"
  ia_jsonState :: "string option"
  ia_jsonStateOutputs :: "string option"
  ia_relatedRunCreatedBy :: "string option"
  ia_createdBy :: "string option"
  ia_intermediate :: bool
  ia_ws :: lockable

definition new_version_row :: "state_lib \<Rightarrow> insert_args \<Rightarrow> int \<Rightarrow> state_version" where
  "new_version_row lib a now = \<lparr>sv_id = ia_id a, sv_workspaceId = ia_workspaceId a, sv_serial = ia_serial a,
     sv_expectedMd5 = ia_expectedMd5 a, sv_expectedLineage = ia_expectedLineage a,
     sv_uploadExpiresAt = (if ia_statePayload a = None then Some (now + STATE_UPLOAD_TTL_MS) else None),
     sv_uploadLock = (if ia_statePayload a = None then Some (stateUploadLock (ia_ws a)) else None),
     sv_uploadSha256 = map_option (sha256_hex lib) (ia_statePayload a),
     sv_statePayload = encryptStatePayload lib (ia_statePayload a),
     sv_status = (if ia_statePayload a = None then Sv_pending else Sv_finalized),
     sv_jsonState = encryptStatePayload lib (if ia_jsonState a = None then ia_statePayload a else ia_jsonState a),
     sv_jsonStateOutputs = encryptStatePayload lib (ia_jsonStateOutputs a),
     sv_runId = ia_runId a,
     sv_createdBy = (if ia_relatedRunCreatedBy a = None then ia_createdBy a else ia_relatedRunCreatedBy a),
     sv_intermediate = ia_intermediate a, sv_softDeletedAt = None, sv_createdAt = now\<rparr>"

definition insert_record_body :: "state_lib \<Rightarrow> insert_args \<Rightarrow> int \<Rightarrow> unit sv_tx" where
  "insert_record_body lib a now st =
    (if \<not> fenceStateWorkspace (ia_ws a) st then (Inl Serial_conflict, st)
     else (let st1 = pruneStateReservations (ia_ws a) now st in
       if (case latest_any (ia_workspaceId a) st1 of None \<Rightarrow> False | Some l \<Rightarrow> ia_serial a \<le> sv_serial l) then (Inl Serial_conflict, st1)
       else tx_bind (insert_version (new_version_row lib a now)) (\<lambda>_.
         tx_bind (insertStateOutputIndex lib (ia_id a) (ia_workspaceId a) (ia_jsonState a) (ia_statePayload a)) (\<lambda>_.
         append_audit (Audit_create (ia_id a) (ia_workspaceId a) (ia_serial a)
           (if ia_statePayload a = None then Sv_pending else Sv_finalized)) ())) st1))"

definition conflict_error :: "string \<Rightarrow> sv_error + 'a \<Rightarrow> sv_error + 'a" where
  "conflict_error detail r = (case r of
     Inl e \<Rightarrow> if e = Serial_conflict \<or> e = Unique_violation then Inl (Rejected 409 detail) else Inl e
   | Inr x \<Rightarrow> Inr x)"

definition insertStateVersionRecord ::
  "state_lib \<Rightarrow> (nat \<Rightarrow> state_store \<Rightarrow> state_store) \<Rightarrow> insert_args \<Rightarrow> int \<Rightarrow> unit sv_tx" where
  "insertStateVersionRecord lib between a now st =
    map_prod (conflict_error ''State serial must advance the current workspace state'') id
      (withStateSerialRetry between (transaction (insert_record_body lib a now)) st)"

text \<open>The request before the idempotency key is reserved, and after.\<close>

definition create_prepare ::
  "state_lib \<Rightarrow> run_info table \<Rightarrow> run_credential \<Rightarrow> bool \<Rightarrow> string option \<Rightarrow> string option \<Rightarrow> string option \<Rightarrow>
   string \<Rightarrow> json option \<Rightarrow> state_store \<Rightarrow> sv_error + (insert_args \<times> (string, json) js_map option)" where
  "create_prepare lib runs run authorized userId orgId teamId workspaceId body st =
    bind_result (resolveStateVersionWorkspace runs run authorized workspaceId st) (\<lambda>w.
    (let parsed = parseStateVersionPayload body; runId = (case run of None \<Rightarrow> vr_requestedRunId parsed | Some r \<Rightarrow> Some (fst r)) in
    bind_result (assertStateVersionCreatable parsed run orgId) (\<lambda>_.
    bind_result (decodeStateVersionBodies lib parsed) (\<lambda>(statePayload, jsonState, outputs).
    bind_result (resolveStateVersionRun runs runId workspaceId) (\<lambda>relatedRunCreatedBy.
    bind_result (assertStateVersionSerial (vr_serial parsed)) (\<lambda>serial.
    bind_result (assertStateVersionWritable run w (lockPrincipal userId orgId teamId) (vr_intermediate parsed)) (\<lambda>_.
    bind_result (parseAndAssertStatePayload lib statePayload (vr_expectedLineage parsed) serial (vr_expectedMd5 parsed)) (\<lambda>state.
    Inr (\<lparr>ia_id = [], ia_workspaceId = workspaceId, ia_serial = serial,
       ia_expectedMd5 = json_string (vr_expectedMd5 parsed), ia_expectedLineage = json_string (vr_expectedLineage parsed),
       ia_statePayload = statePayload, ia_runId = runId, ia_jsonState = jsonState, ia_jsonStateOutputs = outputs,
       ia_relatedRunCreatedBy = relatedRunCreatedBy,
       ia_createdBy = (if relatedRunCreatedBy = None then userId else relatedRunCreatedBy),
       ia_intermediate = vr_intermediate parsed, ia_ws = w\<rparr>, state)))))))))"

definition create_commit ::
  "state_lib \<Rightarrow> (nat \<Rightarrow> state_store \<Rightarrow> state_store) \<Rightarrow> insert_args \<times> (string, json) js_map option \<Rightarrow> string \<Rightarrow> int \<Rightarrow> string sv_tx" where
  "create_commit lib between prepared i now st = (case prepared of (a, state) \<Rightarrow>
     (case assertStateVersionAdvances lib (ia_workspaceId a) (ia_serial a) state (ia_jsonState a) st of
        Inl e \<Rightarrow> (Inl e, st)
      | Inr _ \<Rightarrow> tx_bind (insertStateVersionRecord lib between (a\<lparr>ia_id := i\<rparr>) now) (\<lambda>_ st'. (Inr i, st')) st))"



section \<open>Uploading a whole state\<close>

definition resolveUploadWorkspace ::
  "run_info table \<Rightarrow> run_credential \<Rightarrow> bool \<Rightarrow> string option \<Rightarrow> string option \<Rightarrow> string option \<Rightarrow> string \<Rightarrow>
   state_store \<Rightarrow> sv_error + lockable" where
  "resolveUploadWorkspace runs run authorized userId orgId teamId workspaceId st =
    bind_result (resolveStateVersionWorkspace runs run authorized workspaceId st) (\<lambda>w.
      if orgId \<noteq> None then Inl (Rejected 403 ''Organization tokens cannot upload state'')
      else if run = None \<and> \<not> ownsWorkspaceLock w (lockPrincipal userId orgId teamId)
      then Inl (Rejected 409 ''Workspace must be locked by the caller before writing state'')
      else Inr w)"

definition parseUploadState :: "state_lib \<Rightarrow> string \<Rightarrow> sv_error + ((string, json) js_map \<times> int)" where
  "parseUploadState lib rawState = (case parseTerraformStatePayload lib (Some rawState) of
     None \<Rightarrow> Inl (Rejected 400 ''State content must be a valid plaintext Terraform/OpenTofu v4 state file'')
   | Some parsed \<Rightarrow> (case js_get parsed ''serial'' of
       Some (JNum (Finite q)) \<Rightarrow>
         if of_int \<lfloor>q\<rfloor> = q \<and> 0 < q then Inr (parsed, \<lfloor>q\<rfloor>) else Inl (Rejected 422 ''State serial must be a positive integer'')
     | _ \<Rightarrow> Inl (Rejected 422 ''State serial must be a positive integer'')))"

definition assertUploadMd5 :: "state_lib \<Rightarrow> string option \<Rightarrow> string \<Rightarrow> sv_error + unit" where
  "assertUploadMd5 lib contentMd5 rawState =
    check (contentMd5 = None \<or> contentMd5 = Some (to_base64 (sl_md5 lib rawState))) (Rejected 422 ''Content-MD5 does not match the state payload'')"

definition assertUploadPreconditions ::
  "state_lib \<Rightarrow> string \<Rightarrow> int \<Rightarrow> (string, json) js_map \<Rightarrow> state_store \<Rightarrow> sv_error + unit" where
  "assertUploadPreconditions lib workspaceId incomingSerial parsed st =
    (let latest = latest_finalized workspaceId st in
     if (case latest of None \<Rightarrow> False | Some l \<Rightarrow> incomingSerial \<noteq> sv_serial l + 1)
     then Inl (Rejected 422 ''serial must be the next workspace state serial'')
     else check (stateLineageError lib (map_option sv_statePayload latest) parsed = None) (Rejected 422 ''lineage''))"

record upload_args =
  ua_workspaceId :: string
  ua_rawState :: string
  ua_parsed :: "(string, json) js_map"
  ua_incomingSerial :: int
  ua_runId :: "string option"
  ua_runCreatedBy :: "string option"
  ua_userId :: "string option"

text \<open>The outputs of a state, as JSON text.\<close>

definition outputs_text :: "state_lib \<Rightarrow> (string, json) js_map \<Rightarrow> string option" where
  "outputs_text lib parsed = map_option (sl_stringify lib) (js_get parsed ''outputs'')"

definition committed_row ::
  "state_lib \<Rightarrow> string \<Rightarrow> string \<Rightarrow> int \<Rightarrow> string \<Rightarrow> string option \<Rightarrow> string option \<Rightarrow> string option \<Rightarrow> int \<Rightarrow> state_version" where
  "committed_row lib i w serial payload outputs runId createdBy now = \<lparr>sv_id = i, sv_workspaceId = w, sv_serial = serial,
     sv_expectedMd5 = None, sv_expectedLineage = None, sv_uploadExpiresAt = None, sv_uploadLock = None,
     sv_uploadSha256 = Some (sha256_hex lib payload), sv_statePayload = encryptStatePayload lib (Some payload),
     sv_status = Sv_finalized, sv_jsonState = encryptStatePayload lib (Some payload),
     sv_jsonStateOutputs = encryptStatePayload lib outputs, sv_runId = runId, sv_createdBy = createdBy,
     sv_intermediate = False, sv_softDeletedAt = None, sv_createdAt = now\<rparr>"

definition commit_uploaded_body :: "state_lib \<Rightarrow> upload_args \<Rightarrow> string \<Rightarrow> int \<Rightarrow> string sv_tx" where
  "commit_uploaded_body lib a i now st =
    (let latest = latest_finalized (ua_workspaceId a) st in
     if (case latest of None \<Rightarrow> False | Some l \<Rightarrow> ua_incomingSerial a \<noteq> sv_serial l + 1) then (Inl Serial_conflict, st)
     else (let serial = (case latest of None \<Rightarrow> ua_incomingSerial a | Some l \<Rightarrow> sv_serial l + 1) in
       tx_bind (insert_version (committed_row lib i (ua_workspaceId a) serial (ua_rawState a) (outputs_text lib (ua_parsed a))
         (ua_runId a) (if ua_runCreatedBy a = None then ua_userId a else ua_runCreatedBy a) now)) (\<lambda>_.
       tx_bind (insertStateOutputIndex lib i (ua_workspaceId a) (Some (ua_rawState a)) (Some (ua_rawState a))) (\<lambda>_.
       append_audit (Audit_promote i (ua_workspaceId a) serial) i)) st))"

definition commitUploadedState ::
  "state_lib \<Rightarrow> (nat \<Rightarrow> state_store \<Rightarrow> state_store) \<Rightarrow> upload_args \<Rightarrow> string \<Rightarrow> int \<Rightarrow> string sv_tx" where
  "commitUploadedState lib between a i now st =
    map_prod (conflict_error ''State serial must advance the current workspace state'') id
      (withStateSerialRetry between (transaction (commit_uploaded_body lib a i now)) st)"

definition upload_prepare ::
  "state_lib \<Rightarrow> run_info table \<Rightarrow> run_credential \<Rightarrow> bool \<Rightarrow> string option \<Rightarrow> string option \<Rightarrow> string option \<Rightarrow>
   string \<Rightarrow> string \<Rightarrow> string option \<Rightarrow> state_store \<Rightarrow> sv_error + upload_args" where
  "upload_prepare lib runs run authorized userId orgId teamId workspaceId rawState contentMd5 st =
    bind_result (resolveUploadWorkspace runs run authorized userId orgId teamId workspaceId st) (\<lambda>w.
    bind_result (parseUploadState lib rawState) (\<lambda>(parsed, incomingSerial).
    bind_result (assertUploadMd5 lib contentMd5 rawState) (\<lambda>_.
    Inr \<lparr>ua_workspaceId = workspaceId, ua_rawState = rawState, ua_parsed = parsed, ua_incomingSerial = incomingSerial,
      ua_runId = map_option fst run,
      ua_runCreatedBy = (case run of None \<Rightarrow> None | Some r \<Rightarrow> Option.bind (db_find (\<lambda>x. ri_id x = fst r) runs) ri_createdBy),
      ua_userId = userId\<rparr>)))"

definition upload_commit ::
  "state_lib \<Rightarrow> (nat \<Rightarrow> state_store \<Rightarrow> state_store) \<Rightarrow> upload_args \<Rightarrow> string \<Rightarrow> int \<Rightarrow> string sv_tx" where
  "upload_commit lib between a i now st =
    (case assertUploadPreconditions lib (ua_workspaceId a) (ua_incomingSerial a) (ua_parsed a) st of
       Inl e \<Rightarrow> (Inl e, st)
     | Inr _ \<Rightarrow> commitUploadedState lib between a i now st)"


section \<open>Rolling back\<close>

definition resolveRollbackWorkspace ::
  "bool \<Rightarrow> string option \<Rightarrow> string option \<Rightarrow> string option \<Rightarrow> string \<Rightarrow> state_store \<Rightarrow> sv_error + lockable" where
  "resolveRollbackWorkspace authorized userId orgId teamId workspaceId st =
    (case (if authorized then find_lockable workspaceId st else None) of
       None \<Rightarrow> Inl (Rejected 404 ''Not Found'')
     | Some w \<Rightarrow>
         if orgId \<noteq> None then Inl (Rejected 403 ''Organization tokens cannot roll back state'')
         else if \<not> ownsWorkspaceLock w (lockPrincipal userId orgId teamId)
         then Inl (Rejected 409 ''Workspace must be locked by the caller before rollback'')
         else Inr w)"

record rollback_source =
  rs_version :: state_version
  rs_payload :: string
  rs_parsed :: "(string, json) js_map"

definition resolveRollbackSource :: "state_lib \<Rightarrow> string \<Rightarrow> string \<Rightarrow> state_store \<Rightarrow> sv_error + rollback_source" where
  "resolveRollbackSource lib sourceId workspaceId st = (case find_version sourceId st of
     None \<Rightarrow> Inl (Rejected 409 ''State version cannot be rolled back'')
   | Some v \<Rightarrow>
       if sv_workspaceId v \<noteq> workspaceId \<or> sv_status v \<noteq> Sv_finalized \<or> sv_statePayload v = None
       then Inl (Rejected 409 ''State version cannot be rolled back'')
       else (case decodeStatePayload lib (the (sv_statePayload v)) of
           None \<Rightarrow> Inl Crashed
         | Some payload \<Rightarrow> (case parseTerraformStatePayload lib (Some payload) of
             None \<Rightarrow> Inl (Rejected 422 ''State content must be a valid plaintext Terraform/OpenTofu v4 state file'')
           | Some parsed \<Rightarrow> Inr \<lparr>rs_version = v, rs_payload = payload, rs_parsed = parsed\<rparr>)))"

definition next_serial :: "string \<Rightarrow> state_store \<Rightarrow> int" where
  "next_serial w st = (case latest_any w st of None \<Rightarrow> 0 | Some l \<Rightarrow> sv_serial l) + 1"

definition commit_rollback_body ::
  "state_lib \<Rightarrow> string \<Rightarrow> lockable \<Rightarrow> rollback_source \<Rightarrow> string option \<Rightarrow> string \<Rightarrow> int \<Rightarrow> unit sv_tx" where
  "commit_rollback_body lib workspaceId w source userId i now st =
    (if \<not> fenceStateWorkspace w st then (Inl Serial_conflict, st)
     else (let st1 = pruneStateReservations w now st; serial = next_serial workspaceId st1 in
       if MAX_SAFE_INTEGER < \<bar>serial\<bar> then (Inl Serial_conflict, st1)
       else (case statePayloadWithSerial lib (rs_payload source) serial of
           None \<Rightarrow> (Inl Crashed, st1)
         | Some promoted \<Rightarrow>
             tx_bind (insert_version (committed_row lib i workspaceId serial promoted
               (Some (js_default (outputs_text lib (rs_parsed source)) ''{}'')) None userId now)) (\<lambda>_.
             insertStateOutputIndex lib i workspaceId (Some promoted) (Some promoted)) st1)))"

definition commitRollbackVersion ::
  "state_lib \<Rightarrow> (nat \<Rightarrow> state_store \<Rightarrow> state_store) \<Rightarrow> string \<Rightarrow> lockable \<Rightarrow> rollback_source \<Rightarrow> string option \<Rightarrow> string \<Rightarrow> int \<Rightarrow>
   unit sv_tx" where
  "commitRollbackVersion lib between workspaceId w source userId i now st =
    map_prod (conflict_error ''Workspace lock or state changed before promotion'') id
      (withStateSerialRetry between (transaction (commit_rollback_body lib workspaceId w source userId i now)) st)"


section \<open>The shared commit path, the executor and recovery\<close>

definition nextStateSerialTx :: "string \<Rightarrow> int sv_tx" where
  "nextStateSerialTx w st = (let serial = next_serial w st in
     if MAX_SAFE_INTEGER < \<bar>serial\<bar> then (Inl Crashed, st) else (Inr serial, st))"

definition js_or_decode :: "state_lib \<Rightarrow> string option \<Rightarrow> string option \<Rightarrow> sv_error + string option" where
  "js_or_decode lib indexed stored = (case indexed of
     Some s \<Rightarrow> Inr (Some s)
   | None \<Rightarrow> (case stored of
       None \<Rightarrow> Inr None
     | Some s \<Rightarrow> (case decodeStatePayload lib s of None \<Rightarrow> Inl Crashed | Some d \<Rightarrow> Inr (Some d))))"

definition commitStateVersionAtSerialTx ::
  "state_lib \<Rightarrow> state_version \<Rightarrow> string option \<Rightarrow> string option \<Rightarrow> unit sv_tx" where
  "commitStateVersionAtSerialTx lib v indexedStatePayload indexedJsonState =
    tx_bind (insert_version v) (\<lambda>_ st.
      case bind_result (js_or_decode lib indexedStatePayload (sv_statePayload v)) (\<lambda>s.
        bind_result (js_or_decode lib indexedJsonState (sv_jsonState v)) (\<lambda>j. Inr (s, j))) of
        Inl e \<Rightarrow> (Inl e, st)
      | Inr (statePayload, jsonState) \<Rightarrow> insertStateOutputIndex lib (sv_id v) (sv_workspaceId v) jsonState statePayload st)"

text \<open>The version the executor passes has every column but the serial.\<close>

definition insertStateVersionWithSerialTx :: "state_lib \<Rightarrow> state_version \<Rightarrow> int sv_tx" where
  "insertStateVersionWithSerialTx lib v st =
    (case bind_result (js_or_decode lib None (sv_statePayload v)) (\<lambda>s. bind_result (js_or_decode lib None (sv_jsonState v)) (\<lambda>j. Inr (s, j))) of
       Inl e \<Rightarrow> (Inl e, st)
     | Inr (statePayload, jsonState) \<Rightarrow>
         if isClientEncryptedState lib statePayload then (Inl Crashed, st)
         else tx_bind (nextStateSerialTx (sv_workspaceId v)) (\<lambda>serial.
           tx_bind (commitStateVersionAtSerialTx lib (v\<lparr>sv_serial := serial\<rparr>) statePayload jsonState) (\<lambda>_ st'. (Inr serial, st'))) st)"

text \<open>The executor's lease is checked in the transaction: \<open>lease_ok\<close> is \<open>assertRunExecutionFenceTx\<close>.\<close>

definition insertStateVersionWithSerialRetry ::
  "state_lib \<Rightarrow> (nat \<Rightarrow> state_store \<Rightarrow> state_store) \<Rightarrow> (state_store \<Rightarrow> bool) \<Rightarrow> state_version \<Rightarrow> int sv_tx" where
  "insertStateVersionWithSerialRetry lib between lease_ok v =
    withStateSerialRetry between (transaction (\<lambda>st. if lease_ok st then insertStateVersionWithSerialTx lib v st else (Inl Crashed, st)))"

definition hashCommittedStatePayload :: "state_lib \<Rightarrow> string option \<Rightarrow> sv_error + string option" where
  "hashCommittedStatePayload lib payload = (if no_content payload then Inr None
     else (case decodeStatePayload lib (the payload) of None \<Rightarrow> Inl Serial_conflict | Some s \<Rightarrow> Inr (Some (sha256_hex lib s))))"

definition assertRecoveryCandidateSerial ::
  "json option \<Rightarrow> state_version option \<Rightarrow> string option \<Rightarrow> string \<Rightarrow> sv_error + unit" where
  "assertRecoveryCandidateSerial candidateSerial current currentDigest candidateDigest =
    check (case json_safe_integer candidateSerial of
        None \<Rightarrow> False
      | Some n \<Rightarrow> (case current of
          None \<Rightarrow> True
        | Some c \<Rightarrow> \<not> (n < sv_serial c \<or> n = sv_serial c \<and> currentDigest \<noteq> Some candidateDigest)))
      Serial_conflict"

definition promote_recovery_body ::
  "state_lib \<Rightarrow> lockable \<Rightarrow> string \<Rightarrow> string option \<Rightarrow> string \<Rightarrow> (string, json) js_map \<Rightarrow> string \<Rightarrow> int \<Rightarrow> int sv_tx" where
  "promote_recovery_body lib w runId createdBy rawState latestParsed i now st =
    (if \<not> fenceStateWorkspace w st then (Inl Serial_conflict, st)
     else (let st1 = pruneStateReservations w now st; current = current_version (wl_id w) st1 in
       if stateLineageError lib (map_option sv_statePayload current) latestParsed \<noteq> None then (Inl Serial_conflict, st1)
       else (case bind_result (hashCommittedStatePayload lib (Option.bind current sv_statePayload)) (\<lambda>currentDigest.
           assertRecoveryCandidateSerial (js_get latestParsed ''serial'') current currentDigest (sha256_hex lib rawState)) of
           Inl e \<Rightarrow> (Inl e, st1)
         | Inr _ \<Rightarrow> tx_bind (nextStateSerialTx (wl_id w)) (\<lambda>serial.
             case statePayloadWithSerial lib rawState serial of
               None \<Rightarrow> Pair (Inl Crashed)
             | Some promoted \<Rightarrow>
                 tx_bind (commitStateVersionAtSerialTx lib (committed_row lib i (wl_id w) serial promoted
                   (outputs_text lib latestParsed) (Some runId) createdBy now) (Some promoted) (Some promoted)) (\<lambda>_.
                 append_audit (Audit_recover i (wl_id w) serial) serial)) st1)))"

definition promoteRecoveryCapture ::
  "state_lib \<Rightarrow> (nat \<Rightarrow> state_store \<Rightarrow> state_store) \<Rightarrow> lockable \<Rightarrow> string \<Rightarrow> string option \<Rightarrow> string \<Rightarrow> string \<Rightarrow> int \<Rightarrow> int sv_tx" where
  "promoteRecoveryCapture lib between w runId createdBy rawState i now st =
    (case parseTerraformStatePayload lib (Some rawState) of
       None \<Rightarrow> (Inl (Rejected 422 ''State content must be a valid plaintext Terraform/OpenTofu v4 state file''), st)
     | Some latestParsed \<Rightarrow> map_prod (conflict_error ''Workspace lock or state changed before promotion'') id
         (withStateSerialRetry between (transaction (promote_recovery_body lib w runId createdBy rawState latestParsed i now)) st))"


section \<open>Deletion\<close>

text \<open>The handlers act on the version they read before; \<open>None\<close> is the answer 404 of a caller that is not an
  administrator of the workspace.\<close>

definition deleteStateVersion :: "state_version \<Rightarrow> lockable \<Rightarrow> bool \<Rightarrow> state_store \<Rightarrow> nat \<times> state_store" where
  "deleteStateVersion v w admin st =
    (if \<not> admin then (404, st)
    else if sv_status v = Sv_pending \<and> sv_statePayload v = None
    then (case discardStateReservation v w ''discarded'' st of (discarded, st') \<Rightarrow> (if discarded then 204 else 409, st'))
    else (204, st\<lparr>st_versions := db_update (\<lambda>u. sv_id u = sv_id v)
      (\<lambda>u. u\<lparr>sv_status := Sv_discarded, sv_softDeletedAt := None\<rparr>) (st_versions st)\<rparr>))"

definition softDeleteBackingData :: "state_version \<Rightarrow> state_version option \<Rightarrow> bool \<Rightarrow> int \<Rightarrow> state_store \<Rightarrow> nat \<times> state_store" where
  "softDeleteBackingData v current admin now st =
    (if \<not> admin then (404, st)
     else if sv_status v \<noteq> Sv_finalized \<or> map_option sv_id current = Some (sv_id v) then (400, st)
     else (200, st\<lparr>st_versions := db_update (\<lambda>u. sv_id u = sv_id v)
       (\<lambda>u. u\<lparr>sv_status := Sv_soft_deleted, sv_softDeletedAt := Some now\<rparr>) (st_versions st)\<rparr>))"

definition restoreBackingData :: "state_version \<Rightarrow> bool \<Rightarrow> state_store \<Rightarrow> nat \<times> state_store" where
  "restoreBackingData v admin st =
    (if \<not> admin then (404, st)
     else if sv_status v \<noteq> Sv_soft_deleted then (400, st)
     else (200, st\<lparr>st_versions := db_update (\<lambda>u. sv_id u = sv_id v)
       (\<lambda>u. u\<lparr>sv_status := Sv_finalized, sv_softDeletedAt := None\<rparr>) (st_versions st)\<rparr>))"

definition permanentlyDeleteBackingData :: "state_version \<Rightarrow> bool \<Rightarrow> state_store \<Rightarrow> nat \<times> state_store" where
  "permanentlyDeleteBackingData v admin st =
    (let p = (\<lambda>u. sv_id u = sv_id v \<and> sv_status u = Sv_soft_deleted);
         f = (\<lambda>u. u\<lparr>sv_status := Sv_permanently_deleted, sv_statePayload := None, sv_jsonState := None, sv_jsonStateOutputs := None\<rparr>) in
     if \<not> admin then (404, st)
     else if sv_status v \<noteq> Sv_soft_deleted then (400, st)
     else if db_returning p f (st_versions st) = [] then (409, st)
     else (200, st\<lparr>st_versions := db_update p f (st_versions st)\<rparr>))"


section \<open>The workspace lock\<close>

definition promoteIntermediateStateVersion :: "string \<Rightarrow> int \<Rightarrow> state_store \<Rightarrow> string option \<times> state_store" where
  "promoteIntermediateStateVersion workspaceId now st =
    (let st1 = (case find_lockable workspaceId st of
         None \<Rightarrow> st
       | Some w \<Rightarrow> if fenceStateWorkspace w st then pruneStateReservations w now st else st) in
     case latest_of (filter (\<lambda>v. sv_status v = Sv_finalized \<and> sv_intermediate v) (of_workspace workspaceId st1)) of
       None \<Rightarrow> (None, st1)
     | Some snapshot \<Rightarrow> (Some (sv_id snapshot), st1\<lparr>
         st_versions := db_update (\<lambda>u. sv_id u = sv_id snapshot) (\<lambda>u. u\<lparr>sv_intermediate := False\<rparr>) (st_versions st1),
         st_audit := st_audit st1 @ [Audit_unmark (sv_id snapshot) workspaceId]\<rparr>))"

definition lockWorkspace :: "lockable \<Rightarrow> lock_principal \<Rightarrow> string option \<Rightarrow> int \<Rightarrow> state_store \<Rightarrow> nat \<times> state_store" where
  "lockWorkspace w caller reason now st =
    (let p = (\<lambda>r. wl_id r = wl_id w \<and> wl_locked r \<in> {Some False, None});
         f = (\<lambda>r. r\<lparr>wl_locked := Some True, wl_lockedReason := reason, wl_lockOwnerType := Some (lp_type caller),
             wl_lockOwnerId := Some (lp_id caller), wl_lockedAt := Some now\<rparr>) in
     if wl_locked w = Some True \<or> db_returning p f (st_workspaces st) = [] then (409, st)
     else (200, st\<lparr>st_workspaces := db_update p f (st_workspaces st)\<rparr>))"

definition unlocked :: "lockable \<Rightarrow> lockable" where
  "unlocked r = r\<lparr>wl_locked := Some False, wl_lockedReason := None, wl_lockOwnerType := None, wl_lockOwnerId := None, wl_lockedAt := None\<rparr>"

definition resolveUnlockOwner :: "lockable \<Rightarrow> lock_principal \<Rightarrow> bool option" where
  "resolveUnlockOwner w caller =
    (let ownerless = (wl_lockOwnerType w = None \<and> wl_lockOwnerId w = None) in
     if \<not> ownerless \<and> \<not> ownsWorkspaceLock w caller then None else Some ownerless)"

definition unlockWorkspace :: "lockable \<Rightarrow> lock_principal \<Rightarrow> int \<Rightarrow> state_store \<Rightarrow> nat \<times> state_store" where
  "unlockWorkspace w caller now st =
    (if wl_locked w \<noteq> Some True then (409, st)
     else case resolveUnlockOwner w caller of
       None \<Rightarrow> (403, st)
     | Some ownerless \<Rightarrow>
         (let p = (\<lambda>r. wl_id r = wl_id w \<and> wl_locked r = Some True \<and>
             (if ownerless then wl_lockOwnerType r = None \<and> wl_lockOwnerId r = None
              else wl_lockOwnerType r = Some (lp_type caller) \<and> wl_lockOwnerId r = Some (lp_id caller))) in
          if db_returning p unlocked (st_workspaces st) = [] then (409, st)
          else (200, snd (promoteIntermediateStateVersion (wl_id w) now (st\<lparr>st_workspaces := db_update p unlocked (st_workspaces st)\<rparr>)))))"

text \<open>\<open>live\<close> is \<open>isLiveRunLock\<close>, \<open>force\<close> the flag of the request.\<close>

definition forceUnlockWorkspace :: "lockable \<Rightarrow> bool \<Rightarrow> bool \<Rightarrow> int \<Rightarrow> state_store \<Rightarrow> nat \<times> state_store" where
  "forceUnlockWorkspace w force live now st =
    (let p = (\<lambda>r. wl_id r = wl_id w \<and> wl_locked r = Some True) in
     if wl_locked w \<noteq> Some True then (409, st)
     else if \<not> force \<and> live then (422, st)
     else if db_returning p unlocked (st_workspaces st) = [] then (409, st)
     else (200, snd (promoteIntermediateStateVersion (wl_id w) now (st\<lparr>st_workspaces := db_update p unlocked (st_workspaces st)\<rparr>))))"

end
