(* ===== verification/Retention.thy ===== *)
theory Retention imports StateWriters RunStatus begin

text \<open>
  Data retention of a workspace (\<open>applyDataRetentionGarbageCollection\<close> of \<open>lib/utils.ts\<close>): backing data past
  the policy is soft deleted, and deleted for good after a grace period. The collection reads all its
  rows first (\<open>fetchGcCollections\<close>); the archive of a run's logs and the files it removes are arguments.
\<close>

section \<open>Tables and policies\<close>

record config_version =
  cv_id :: string
  cv_workspaceId :: string
  cv_status :: string
  cv_archivePath :: "string option"
  cv_softDeletedAt :: "int option"
  cv_createdAt :: int

record retained_run =
  rr_id :: string
  rr_workspaceId :: string
  rr_status :: string
  rr_createdAt :: int
  rr_configurationVersionId :: "string option"
  rr_softDeletedAt :: "int option"
  rr_logToken :: "string option"

text \<open>A policy; a number that is not set is \<open>None\<close>. Log rows are pairs of their id and their run.\<close>

record retention_policy =
  rp_stateVersionsCount :: "int option"
  rp_deleteOlderThanNDays :: "int option"

record gc_db =
  gd_store :: state_store
  gd_configs :: "config_version table"
  gd_runs :: "retained_run table"
  gd_logs :: "(string \<times> string) table"
  gd_workspacePolicies :: "(string \<times> retention_policy) table"
  gd_organizationPolicies :: "(string \<times> retention_policy) table"

definition DAY_MS :: int where "DAY_MS = 86400000"

definition getGraceCutoff :: "int \<Rightarrow> int \<Rightarrow> int option \<Rightarrow> int" where
  "getGraceCutoff graceDays now gracePeriodMs = now - js_default gracePeriodMs (graceDays * DAY_MS)"

definition getRetentionCutoff :: "retention_policy option \<Rightarrow> int \<Rightarrow> int option" where
  "getRetentionCutoff policy now = (case policy of
     None \<Rightarrow> None
   | Some p \<Rightarrow> (case rp_deleteOlderThanNDays p of None \<Rightarrow> None | Some days \<Rightarrow> if days \<le> 0 then None else Some (now - days * DAY_MS)))"

text \<open>The policy of the workspace, else of its organization.\<close>

definition loadRetentionPolicy :: "string \<Rightarrow> gc_db \<Rightarrow> retention_policy option \<times> string option" where
  "loadRetentionPolicy workspaceId db =
    (case js_get (gd_workspacePolicies db) workspaceId of
       Some p \<Rightarrow> (Some p, Some ''workspace'')
     | None \<Rightarrow> (case find_lockable workspaceId (gd_store db) of
         None \<Rightarrow> (None, None)
       | Some w \<Rightarrow> (case js_get (gd_organizationPolicies db) (wl_orgId w) of
           None \<Rightarrow> (None, None)
         | Some p \<Rightarrow> (Some p, Some ''organization''))))"


section \<open>What is collected\<close>

record gc_collections =
  gc_finalizedVersions :: "state_version list"
  gc_softDeletedVersions :: "state_version list"
  gc_retainedConfigurationVersions :: "config_version list"
  gc_softDeletedConfigurationVersions :: "config_version list"
  gc_workspaceRuns :: "retained_run list"

definition fetchGcCollections :: "string \<Rightarrow> gc_db \<Rightarrow> gc_collections" where
  "fetchGcCollections w db = \<lparr>
     gc_finalizedVersions = js_sort (\<lambda>a b. sv_serial b - sv_serial a)
       (filter (\<lambda>v. sv_workspaceId v = w \<and> sv_status v = Sv_finalized) (st_versions (gd_store db))),
     gc_softDeletedVersions = filter (\<lambda>v. sv_workspaceId v = w \<and> sv_status v = Sv_soft_deleted) (st_versions (gd_store db)),
     gc_retainedConfigurationVersions = js_sort (\<lambda>a b. cv_createdAt b - cv_createdAt a)
       (filter (\<lambda>c. cv_workspaceId c = w \<and> cv_status c \<in> {''uploaded'', ''archived''}) (gd_configs db)),
     gc_softDeletedConfigurationVersions = filter (\<lambda>c. cv_workspaceId c = w \<and> cv_status c = ''backing_data_soft_deleted'') (gd_configs db),
     gc_workspaceRuns = js_sort (\<lambda>a b. rr_createdAt b - rr_createdAt a) (filter (\<lambda>r. rr_workspaceId r = w) (gd_runs db))\<rparr>"

definition graced :: "int option \<Rightarrow> int \<Rightarrow> bool" where
  "graced softDeletedAt graceCutoff \<longleftrightarrow> (case softDeletedAt of None \<Rightarrow> False | Some t \<Rightarrow> t \<le> graceCutoff)"

definition delete_versions :: "string list \<Rightarrow> state_store \<Rightarrow> state_store" where
  "delete_versions ids st = st\<lparr>st_versions := db_delete (\<lambda>v. sv_id v \<in> set ids) (st_versions st),
     st_outputs := db_delete (\<lambda>row. oi_stateVersionId row \<in> set ids) (st_outputs st)\<rparr>"

definition purgeStaleStateVersions :: "state_version list \<Rightarrow> int \<Rightarrow> state_store \<Rightarrow> nat \<times> state_store" where
  "purgeStaleStateVersions softDeleted graceCutoff st =
    (let stale = filter (\<lambda>v. graced (sv_softDeletedAt v) graceCutoff) softDeleted in
     (length stale, delete_versions (map sv_id stale) st))"

definition stampPendingSoftDeletedStateVersions :: "state_version list \<Rightarrow> int \<Rightarrow> state_store \<Rightarrow> state_store" where
  "stampPendingSoftDeletedStateVersions softDeleted now st =
    (let ids = map sv_id (filter (\<lambda>v. sv_softDeletedAt v = None) softDeleted) in
     st\<lparr>st_versions := db_update (\<lambda>v. sv_id v \<in> set ids) (\<lambda>v. v\<lparr>sv_softDeletedAt := Some now\<rparr>) (st_versions st)\<rparr>)"

definition softDeleteStateVersions :: "string list \<Rightarrow> int \<Rightarrow> state_store \<Rightarrow> state_store" where
  "softDeleteStateVersions ids now st = st\<lparr>st_versions := db_update (\<lambda>v. sv_id v \<in> set ids)
     (\<lambda>v. v\<lparr>sv_status := Sv_soft_deleted, sv_softDeletedAt := Some now\<rparr>) (st_versions st)\<rparr>"

definition addCountBasedStateVersions :: "state_version list \<Rightarrow> retention_policy \<Rightarrow> string option \<Rightarrow> string list" where
  "addCountBasedStateVersions finalized policy current = (case rp_stateVersionsCount policy of
     None \<Rightarrow> []
   | Some n \<Rightarrow> if n \<le> 0 then [] else map sv_id (filter (\<lambda>v. Some (sv_id v) \<noteq> current) (drop (nat n) finalized)))"

definition addCutoffBasedStateVersions :: "state_version list \<Rightarrow> string option \<Rightarrow> int option \<Rightarrow> string list" where
  "addCutoffBasedStateVersions finalized current cutoff = (case cutoff of
     None \<Rightarrow> []
   | Some t \<Rightarrow> map sv_id (filter (\<lambda>v. Some (sv_id v) \<noteq> current \<and> sv_createdAt v \<le> t) finalized))"

definition collectStateVersionIdsToSoftDelete ::
  "state_version list \<Rightarrow> retention_policy \<Rightarrow> string option \<Rightarrow> int option \<Rightarrow> string list" where
  "collectStateVersionIdsToSoftDelete finalized policy current cutoff =
    remdups (addCountBasedStateVersions finalized policy current @ addCutoffBasedStateVersions finalized current cutoff)"

text \<open>\<open>removed\<close> tells which archive files existed.\<close>

definition removed_archives :: "(string \<Rightarrow> bool) \<Rightarrow> config_version list \<Rightarrow> nat" where
  "removed_archives removed cs = length (filter (\<lambda>c. case cv_archivePath c of None \<Rightarrow> False | Some p \<Rightarrow> removed p) cs)"

definition purgeStaleConfigurationVersions ::
  "(string \<Rightarrow> bool) \<Rightarrow> config_version list \<Rightarrow> int \<Rightarrow> config_version table \<Rightarrow> (nat \<times> nat) \<times> config_version table" where
  "purgeStaleConfigurationVersions removed softDeleted graceCutoff t =
    (let stale = filter (\<lambda>c. graced (cv_softDeletedAt c) graceCutoff) softDeleted in
     ((length stale, removed_archives removed stale),
      db_update (\<lambda>c. cv_id c \<in> set (map cv_id stale)) (\<lambda>c. c\<lparr>cv_archivePath := None, cv_status := ''backing_data_permanently_deleted''\<rparr>) t))"

definition stampPendingSoftDeletedConfigurationVersions ::
  "config_version list \<Rightarrow> int \<Rightarrow> config_version table \<Rightarrow> config_version table" where
  "stampPendingSoftDeletedConfigurationVersions softDeleted now t =
    (let ids = map cv_id (filter (\<lambda>c. cv_softDeletedAt c = None) softDeleted) in
     db_update (\<lambda>c. cv_id c \<in> set ids) (\<lambda>c. c\<lparr>cv_softDeletedAt := Some now\<rparr>) t)"

definition purgeStaleRuns ::
  "(string \<Rightarrow> bool) \<Rightarrow> retained_run list \<Rightarrow> int \<Rightarrow> retained_run table \<Rightarrow> (nat \<times> nat \<times> retained_run list) \<times> retained_run table" where
  "purgeStaleRuns deletedLog workspaceRuns graceCutoff t =
    (let stale = filter (\<lambda>r. rr_status r \<in> set FINAL_RUN_STATUSES \<and> graced (rr_softDeletedAt r) graceCutoff) workspaceRuns;
         ids = map rr_id stale in
     ((length stale, length (filter (\<lambda>r. deletedLog (rr_id r)) stale), filter (\<lambda>r. rr_id r \<notin> set ids) workspaceRuns),
      db_delete (\<lambda>r. rr_id r \<in> set ids) t))"

definition buildProtectedConfigurationIds :: "config_version list \<Rightarrow> retained_run list \<Rightarrow> string list" where
  "buildProtectedConfigurationIds retained retainedRuns =
    (case retained of [] \<Rightarrow> [] | c # _ \<Rightarrow> [cv_id c]) @
    List.map_filter (\<lambda>r. if rr_status r \<in> set FINAL_RUN_STATUSES then None else rr_configurationVersionId r) retainedRuns"

definition collectConfigurationVersionIds ::
  "config_version list \<Rightarrow> retained_run list \<Rightarrow> int option \<Rightarrow> string list" where
  "collectConfigurationVersionIds retained retainedRuns cutoff = (case cutoff of
     None \<Rightarrow> []
   | Some t \<Rightarrow> map cv_id (filter (\<lambda>c. cv_id c \<notin> set (buildProtectedConfigurationIds retained retainedRuns) \<and> cv_createdAt c \<le> t) retained))"

definition softDeleteConfigurationVersions :: "string list \<Rightarrow> int \<Rightarrow> config_version table \<Rightarrow> config_version table" where
  "softDeleteConfigurationVersions ids now t = db_update (\<lambda>c. cv_id c \<in> set ids)
     (\<lambda>c. c\<lparr>cv_status := ''backing_data_soft_deleted'', cv_softDeletedAt := Some now\<rparr>) t"

definition collectExpiredRunIds :: "retained_run list \<Rightarrow> int option \<Rightarrow> string list" where
  "collectExpiredRunIds retainedRuns cutoff = (case cutoff of
     None \<Rightarrow> []
   | Some t \<Rightarrow> map rr_id (filter (\<lambda>r. rr_status r \<in> set FINAL_RUN_STATUSES \<and> rr_softDeletedAt r = None \<and> rr_createdAt r \<le> t) retainedRuns))"

text \<open>Archiving the logs of a run is \<open>None\<close> when it fails; then no log is deleted.\<close>

definition archiveAndDeleteExpiredRuns ::
  "(string \<Rightarrow> bool option) \<Rightarrow> string list \<Rightarrow> int \<Rightarrow> gc_db \<Rightarrow> (nat \<times> nat) option \<times> gc_db" where
  "archiveAndDeleteExpiredRuns archive ids now db =
    (if list_ex (\<lambda>i. archive i = None) ids then (None, db)
     else (Some (length (filter (\<lambda>l. snd l \<in> set ids) (gd_logs db)), length (filter (\<lambda>i. archive i = Some True) ids)),
       db\<lparr>gd_logs := db_delete (\<lambda>l. snd l \<in> set ids) (gd_logs db),
          gd_runs := db_update (\<lambda>r. rr_id r \<in> set ids) (\<lambda>r. r\<lparr>rr_softDeletedAt := Some now, rr_logToken := None\<rparr>) (gd_runs db)\<rparr>))"


section \<open>The collection\<close>

record gc_summary =
  gs_softDeleted :: nat
  gs_permanentlyDeleted :: nat
  gs_configsSoftDeleted :: nat
  gs_configsPermanentlyDeleted :: nat
  gs_configArchivesDeleted :: nat
  gs_runsSoftDeleted :: nat
  gs_runsPermanentlyDeleted :: nat
  gs_runArchivesDeleted :: nat
  gs_logsDeleted :: nat
  gs_logsArchived :: nat
  gs_reason :: string
  gs_policySource :: "string option"

definition current_id :: "state_version list \<Rightarrow> string option" where
  "current_id finalized = map_option sv_id (List.find (\<lambda>v. \<not> sv_intermediate v) finalized)"

definition applyRetentionPolicy ::
  "(string \<Rightarrow> bool option) \<Rightarrow> gc_collections \<Rightarrow> retention_policy \<Rightarrow> int \<Rightarrow> retained_run list \<Rightarrow> gc_db \<Rightarrow>
   (nat \<times> nat \<times> nat \<times> nat \<times> nat) option \<times> gc_db" where
  "applyRetentionPolicy archive c policy now retainedRuns db =
    (let cutoff = getRetentionCutoff (Some policy) now;
         stateVersionIds = collectStateVersionIdsToSoftDelete (gc_finalizedVersions c) policy (current_id (gc_finalizedVersions c)) cutoff;
         configurationVersionIds = collectConfigurationVersionIds (gc_retainedConfigurationVersions c) retainedRuns cutoff;
         expiredRunIds = collectExpiredRunIds retainedRuns cutoff;
         db1 = db\<lparr>gd_store := softDeleteStateVersions stateVersionIds now (gd_store db),
           gd_configs := softDeleteConfigurationVersions configurationVersionIds now (gd_configs db)\<rparr> in
     case archiveAndDeleteExpiredRuns archive expiredRunIds now db1 of
       (None, db2) \<Rightarrow> (None, db2)
     | (Some (logsDeleted, logsArchived), db2) \<Rightarrow>
         (Some (length stateVersionIds, length configurationVersionIds, length expiredRunIds, logsDeleted, logsArchived), db2))"

definition applyDataRetentionGarbageCollection ::
  "int \<Rightarrow> (string \<Rightarrow> bool) \<Rightarrow> (string \<Rightarrow> bool) \<Rightarrow> (string \<Rightarrow> bool option) \<Rightarrow> string \<Rightarrow> int \<Rightarrow> int option \<Rightarrow> gc_db \<Rightarrow>
   gc_summary option \<times> gc_db" where
  "applyDataRetentionGarbageCollection graceDays removed deletedLog archive workspaceId now gracePeriodMs db =
    (let graceCutoff = getGraceCutoff graceDays now gracePeriodMs;
         c = fetchGcCollections workspaceId db in
     case loadRetentionPolicy workspaceId db of (policy, policySource) \<Rightarrow>
     (case purgeStaleStateVersions (gc_softDeletedVersions c) graceCutoff (gd_store db) of (staleStateCount, st1) \<Rightarrow>
     (let st2 = stampPendingSoftDeletedStateVersions (gc_softDeletedVersions c) now st1 in
     (case purgeStaleConfigurationVersions removed (gc_softDeletedConfigurationVersions c) graceCutoff (gd_configs db) of
        ((staleConfigCount, archivesDeleted), cs1) \<Rightarrow>
     (let cs2 = stampPendingSoftDeletedConfigurationVersions (gc_softDeletedConfigurationVersions c) now cs1 in
     (case purgeStaleRuns deletedLog (gc_workspaceRuns c) graceCutoff (gd_runs db) of
        ((staleRunCount, runArchivesDeleted, retainedRuns), rs1) \<Rightarrow>
     (let db1 = db\<lparr>gd_store := st2, gd_configs := cs2, gd_runs := rs1\<rparr>;
          summary = \<lparr>gs_softDeleted = 0, gs_permanentlyDeleted = staleStateCount, gs_configsSoftDeleted = 0,
            gs_configsPermanentlyDeleted = staleConfigCount, gs_configArchivesDeleted = archivesDeleted,
            gs_runsSoftDeleted = 0, gs_runsPermanentlyDeleted = staleRunCount, gs_runArchivesDeleted = runArchivesDeleted,
            gs_logsDeleted = 0, gs_logsArchived = 0, gs_reason = ''retention-applied'', gs_policySource = policySource\<rparr> in
      case policy of
        None \<Rightarrow> (Some (summary\<lparr>gs_reason :=
          (if 0 < staleStateCount + staleConfigCount + staleRunCount then ''cleanup'' else ''no-policy'')\<rparr>), db1)
      | Some p \<Rightarrow> (case applyRetentionPolicy archive c p now retainedRuns db1 of
          (None, db2) \<Rightarrow> (None, db2)
        | (Some (svs, cvs, rs, deleted, archived), db2) \<Rightarrow> (Some (summary\<lparr>gs_softDeleted := svs, gs_configsSoftDeleted := cvs,
            gs_runsSoftDeleted := rs, gs_logsDeleted := deleted, gs_logsArchived := archived\<rparr>), db2)))))))))"

end
