(* ===== verification/StateSafety.thy ===== *)
theory StateSafety imports Retention begin

text \<open>
  Safety of the state history: the operations of \<open>StateWriters\<close> and \<open>Retention\<close> as the steps of one system,
  in which handlers act on rows they read at any earlier time, what every step does to the rows of the
  version table, and the properties that follow for every history.
\<close>

section \<open>The latest version\<close>

interpretation by_serial: comparator "\<lambda>a b. sv_serial b - sv_serial a"
  by unfold_locales auto

lemma latest_of_SomeD: "latest_of vs = Some v \<Longrightarrow> v \<in> set vs \<and> (\<forall>u \<in> set vs. sv_serial u \<le> sv_serial v)"
proof -
  assume "latest_of vs = Some v"
  then obtain us where s: "js_sort (\<lambda>a b. sv_serial b - sv_serial a) vs = v # us"
    by (auto simp: latest_of_def split: list.splits)
  have "v \<in> set vs" using s set_js_sort [of "\<lambda>a b. sv_serial b - sv_serial a" vs] by (metis list.set_intros(1))
  with by_serial.js_sort_head_least [OF s] show ?thesis by force
qed

lemma latest_of_None [simp]: "latest_of vs = None \<longleftrightarrow> vs = []"
  by (cases "js_sort (\<lambda>a b. sv_serial b - sv_serial a) vs") (auto simp: latest_of_def split: list.splits)

lemma latest_of_eqI:
  assumes "v \<in> set vs" "\<And>u. u \<in> set vs \<Longrightarrow> u \<noteq> v \<Longrightarrow> sv_serial u < sv_serial v"
  shows "latest_of vs = Some v"
proof (cases "latest_of vs")
  case None
  with assms(1) show ?thesis by simp
next
  case (Some u)
  with latest_of_SomeD [OF Some] assms show ?thesis by (metis linorder_not_less)
qed

lemma latest_any_greatest:
  "v \<in> set (st_versions st) \<Longrightarrow> sv_workspaceId v = w \<Longrightarrow>
   \<exists>l. latest_any w st = Some l \<and> sv_serial v \<le> sv_serial l"
  by (cases "latest_any w st") (auto simp: latest_any_def of_workspace_def filter_empty_conv dest: latest_of_SomeD)

lemma latest_finalized_greatest:
  "v \<in> set (st_versions st) \<Longrightarrow> sv_workspaceId v = w \<Longrightarrow> sv_status v = Sv_finalized \<Longrightarrow>
   \<exists>l. latest_finalized w st = Some l \<and> sv_serial v \<le> sv_serial l"
  by (cases "latest_finalized w st") (auto simp: latest_finalized_def of_workspace_def filter_empty_conv dest: latest_of_SomeD)

lemma next_serial_greater: "v \<in> set (st_versions st) \<Longrightarrow> sv_workspaceId v = w \<Longrightarrow> sv_serial v < next_serial w st"
  by (drule (1) latest_any_greatest) (auto simp: next_serial_def)


section \<open>What a step does to the rows\<close>

text \<open>A version keeps its identity, and once it has left \<open>pending\<close> its payload can only be erased.\<close>

definition evolves :: "state_version \<Rightarrow> state_version \<Rightarrow> bool" where
  "evolves r r' \<longleftrightarrow> sv_id r' = sv_id r \<and> sv_workspaceId r' = sv_workspaceId r \<and> sv_serial r' = sv_serial r \<and>
     (sv_status r \<noteq> Sv_pending \<longrightarrow> sv_status r' \<noteq> Sv_pending \<and> sv_statePayload r' \<in> {sv_statePayload r, None})"

lemma evolves_refl [simp]: "evolves r r"
  by (simp add: evolves_def)

lemma evolves_trans: "evolves a b \<Longrightarrow> evolves b c \<Longrightarrow> evolves a c"
  by (auto simp: evolves_def)

definition history_ok :: "state_version table \<Rightarrow> bool" where
  "history_ok t \<longleftrightarrow> unique_by sv_id t \<and> unique_by (\<lambda>v. (sv_workspaceId v, sv_serial v)) t"

definition tracks :: "string set \<Rightarrow> state_version table \<Rightarrow> state_version table \<Rightarrow> bool" where
  "tracks N t t' \<longleftrightarrow> (history_ok t \<longrightarrow> history_ok t') \<and>
     (\<forall>r' \<in> set t'. sv_id r' \<in> N \<or> (\<exists>r \<in> set t. evolves r r'))"

abbreviation moves :: "string set \<Rightarrow> state_store \<Rightarrow> state_store \<Rightarrow> bool" where
  "moves N st st' \<equiv> tracks N (st_versions st) (st_versions st')"

lemma tracks_refl [simp]: "tracks N t t"
  by (auto simp: tracks_def intro: evolves_refl)

lemma tracks_trans: "tracks N a b \<Longrightarrow> tracks N b c \<Longrightarrow> tracks N a c"
proof -
  assume ab: "tracks N a b" and bc: "tracks N b c"
  have "sv_id r \<in> N \<or> (\<exists>q \<in> set a. evolves q r)" if r: "r \<in> set c" for r
  proof (cases "sv_id r \<in> N")
    case False
    then obtain q where q: "q \<in> set b" "evolves q r" using bc r by (auto simp: tracks_def)
    then have "sv_id q \<notin> N" using False by (simp add: evolves_def)
    then obtain p where "p \<in> set a" "evolves p q" using ab q(1) by (auto simp: tracks_def)
    with q(2) show ?thesis by (blast intro: evolves_trans)
  qed simp
  with ab bc show ?thesis by (simp add: tracks_def)
qed

lemma tracks_update:
  assumes "\<And>v. p v \<Longrightarrow> evolves v (f v)"
  shows "tracks N t (db_update p f t)"
proof -
  have k: "p v \<Longrightarrow> sv_id (f v) = sv_id v" "p v \<Longrightarrow> (sv_workspaceId (f v), sv_serial (f v)) = (sv_workspaceId v, sv_serial v)" for v
    using assms [of v] by (simp_all add: evolves_def)
  have "history_ok t \<Longrightarrow> history_ok (db_update p f t)" using k by (simp add: history_ok_def unique_by_update)
  moreover have "\<exists>r \<in> set t. evolves r r'" if "r' \<in> set (db_update p f t)" for r'
    using that assms by (auto simp: set_db_update intro: evolves_refl)
  ultimately show ?thesis by (simp add: tracks_def)
qed

lemma tracks_delete: "tracks N t (db_delete p t)"
  by (auto simp: tracks_def history_ok_def intro: unique_by_delete evolves_refl)

lemma tracks_insert: "sv_id v \<in> N \<Longrightarrow> moves N st (snd (insert_version v st))"
  by (auto simp: tracks_def insert_version_def history_ok_def list_ex_iff intro!: unique_by_append1 intro: evolves_refl)

lemma tracks_index: "moves N st (snd (insertStateOutputIndex lib i w j s st))"
  by (auto simp: insertStateOutputIndex_def evolves_def split: option.splits intro!: tracks_update)

lemma tracks_replace: "moves N st (snd (replaceStateOutputIndex lib i w j s st))"
  unfolding replaceStateOutputIndex_def
  using tracks_index [of N "st\<lparr>st_outputs := db_delete (\<lambda>row. oi_stateVersionId row = i) (st_outputs st)\<rparr>"] by simp

lemma tracks_bind: "moves N st (snd (a st)) \<Longrightarrow> (\<And>x st'. moves N st' (snd (f x st'))) \<Longrightarrow> moves N st (snd (tx_bind a f st))"
  by (cases "a st"; cases "fst (a st)") (auto simp: tx_bind_def intro: tracks_trans)

lemma tracks_audit [simp]: "moves N st (snd (append_audit a x st))"
  by (simp add: append_audit_def)

lemma tracks_transaction: "(\<And>s. moves N s (snd (body s))) \<Longrightarrow> moves N st (snd (transaction body st))"
proof -
  assume "\<And>s. moves N s (snd (body s))"
  from this [of st] show ?thesis by (auto simp: transaction_def split: prod.splits sum.splits)
qed

lemma tracks_discard: "moves N st (snd (discardStateReservation r w reason st))"
  by (auto simp: discardStateReservation_def intro!: tracks_delete)

lemma tracks_prune: "moves N st (pruneStateReservations w now st)"
proof -
  have "moves N st (fold (\<lambda>r st. if stateReservationObsolete r w now
        then snd (discardStateReservation r w (if upload_expiry r \<le> now then ''upload-expired'' else ''lock-changed'') st) else st) rs st)" for rs
    by (induction rs arbitrary: st) (auto intro: tracks_trans tracks_discard)
  then show ?thesis by (simp add: pruneStateReservations_def)
qed



section \<open>Which versions a step finalizes\<close>

text \<open>A step is quiet when no row appears or changes its status and every finalized row stays.\<close>

definition shape :: "state_version \<Rightarrow> string \<times> string \<times> int \<times> sv_status" where
  "shape v = (sv_id v, sv_workspaceId v, sv_serial v, sv_status v)"

definition quiet :: "state_version table \<Rightarrow> state_version table \<Rightarrow> bool" where
  "quiet t t' \<longleftrightarrow> (\<forall>v' \<in> set t'. \<exists>v \<in> set t. shape v' = shape v) \<and>
     (\<forall>v \<in> set t. sv_status v = Sv_finalized \<longrightarrow> (\<exists>v' \<in> set t'. shape v' = shape v))"

text \<open>A version that becomes finalized without having been committed before has a higher serial than every
  other finalized version of its workspace.\<close>

definition advances :: "state_version table \<Rightarrow> state_version table \<Rightarrow> bool" where
  "advances t t' \<longleftrightarrow> (\<forall>v' \<in> set t'. sv_status v' = Sv_finalized \<longrightarrow>
     (\<exists>v \<in> set t. sv_id v = sv_id v' \<and> sv_status v \<noteq> Sv_pending) \<or>
     (\<forall>u \<in> set t. sv_status u = Sv_finalized \<and> sv_workspaceId u = sv_workspaceId v' \<and> sv_id u \<noteq> sv_id v' \<longrightarrow> sv_serial u < sv_serial v'))"

lemma quiet_refl [simp]: "quiet t t"
  by (auto simp: quiet_def)

lemma quiet_trans: "quiet a b \<Longrightarrow> quiet b c \<Longrightarrow> quiet a c"
proof -
  assume ab: "quiet a b" and bc: "quiet b c"
  have "\<exists>v \<in> set a. shape v' = shape v" if "v' \<in> set c" for v'
    using ab bc that unfolding quiet_def by metis
  moreover have "\<exists>v' \<in> set c. shape v' = shape v" if v: "v \<in> set a" "sv_status v = Sv_finalized" for v
  proof -
    obtain u where u: "u \<in> set b" "shape u = shape v" using ab v by (auto simp: quiet_def)
    then have "sv_status u = Sv_finalized" using v(2) by (simp add: shape_def)
    with bc u show ?thesis unfolding quiet_def by metis
  qed
  ultimately show ?thesis by (simp add: quiet_def)
qed

lemma quiet_advances: "quiet a b \<Longrightarrow> advances b c \<Longrightarrow> advances a c"
proof -
  assume q: "quiet a b" and v: "advances b c"
  have "(\<exists>v \<in> set a. sv_id v = sv_id v' \<and> sv_status v \<noteq> Sv_pending) \<or>
     (\<forall>u \<in> set a. sv_status u = Sv_finalized \<and> sv_workspaceId u = sv_workspaceId v' \<and> sv_id u \<noteq> sv_id v' \<longrightarrow> sv_serial u < sv_serial v')"
    if m: "v' \<in> set c" "sv_status v' = Sv_finalized" for v'
  proof -
    consider x where "x \<in> set b" "sv_id x = sv_id v'" "sv_status x \<noteq> Sv_pending"
      | "\<forall>u \<in> set b. sv_status u = Sv_finalized \<and> sv_workspaceId u = sv_workspaceId v' \<and> sv_id u \<noteq> sv_id v' \<longrightarrow> sv_serial u < sv_serial v'"
      using bspec [OF v [unfolded advances_def] m(1)] m(2) by blast
    then show ?thesis
    proof cases
      case (1 x)
      then obtain y where "y \<in> set a" "shape x = shape y" using q by (auto simp: quiet_def)
      with 1 show ?thesis by (auto simp: shape_def)
    next
      case 2
      have "sv_serial u < sv_serial v'"
        if u: "u \<in> set a" "sv_status u = Sv_finalized" "sv_workspaceId u = sv_workspaceId v'" "sv_id u \<noteq> sv_id v'" for u
      proof -
        obtain y where "y \<in> set b" "shape y = shape u" using q u(1,2) by (auto simp: quiet_def)
        with 2 u show ?thesis by (auto simp: shape_def)
      qed
      then show ?thesis by blast
    qed
  qed
  then show ?thesis by (simp add: advances_def)
qed

lemma advances_quiet: "advances a b \<Longrightarrow> quiet b c \<Longrightarrow> advances a c"
  unfolding advances_def quiet_def shape_def by (metis prod.inject)

lemma quiet_is_advance: "quiet a b \<Longrightarrow> advances a b"
  by (rule quiet_advances) (auto simp: advances_def)

lemma advances_update:
  "(\<And>v. p v \<Longrightarrow> sv_id (f v) = sv_id v \<and> (sv_status (f v) = Sv_finalized \<longrightarrow> sv_status v \<noteq> Sv_pending)) \<Longrightarrow> advances t (db_update p f t)"
  by (fastforce simp: advances_def set_db_update)

lemma advances_delete: "advances t (db_delete p t)"
  by (auto simp: advances_def)

lemma quiet_update: "(\<And>v. p v \<Longrightarrow> shape (f v) = shape v) \<Longrightarrow> quiet t (db_update p f t)"
  unfolding quiet_def set_db_update by auto

lemma quiet_delete: "(\<And>v. p v \<Longrightarrow> sv_status v \<noteq> Sv_finalized) \<Longrightarrow> quiet t (db_delete p t)"
  by (auto simp: quiet_def)

lemma advances_insert:
  assumes "\<And>u. u \<in> set (st_versions st) \<Longrightarrow> sv_status u = Sv_finalized \<Longrightarrow> sv_workspaceId u = sv_workspaceId v \<Longrightarrow>
    sv_status v = Sv_finalized \<Longrightarrow> sv_serial u < sv_serial v"
  shows "advances (st_versions st) (st_versions (snd (insert_version v st)))"
  using assms by (auto simp: advances_def insert_version_def)

lemma quiet_index: "quiet (st_versions st) (st_versions (snd (insertStateOutputIndex lib i w j s st)))"
  by (auto simp: insertStateOutputIndex_def shape_def split: option.splits intro!: quiet_update)

lemma quiet_replace: "quiet (st_versions st) (st_versions (snd (replaceStateOutputIndex lib i w j s st)))"
  unfolding replaceStateOutputIndex_def
  using quiet_index [of "st\<lparr>st_outputs := db_delete (\<lambda>row. oi_stateVersionId row = i) (st_outputs st)\<rparr>"] by simp

lemma quiet_audit [simp]: "quiet (st_versions st) (st_versions (snd (append_audit a x st)))"
  by (simp add: append_audit_def)

lemma quiet_discard: "quiet (st_versions st) (st_versions (snd (discardStateReservation r w reason st)))"
  by (auto simp: discardStateReservation_def pending_empty_def intro!: quiet_delete)

lemma quiet_prune: "quiet (st_versions st) (st_versions (pruneStateReservations w now st))"
proof -
  have "quiet (st_versions st) (st_versions (fold (\<lambda>r st. if stateReservationObsolete r w now
        then snd (discardStateReservation r w (if upload_expiry r \<le> now then ''upload-expired'' else ''lock-changed'') st) else st) rs st))" for rs
    by (induction rs arbitrary: st) (auto intro: quiet_trans quiet_discard)
  then show ?thesis by (simp add: pruneStateReservations_def)
qed

lemma quiet_bind:
  "quiet (st_versions st) (st_versions (snd (a st))) \<Longrightarrow> (\<And>x st'. quiet (st_versions st') (st_versions (snd (f x st')))) \<Longrightarrow>
   quiet (st_versions st) (st_versions (snd (tx_bind a f st)))"
  by (cases "a st"; cases "fst (a st)") (auto simp: tx_bind_def intro: quiet_trans)

lemma advances_bind:
  "advances (st_versions st) (st_versions (snd (a st))) \<Longrightarrow> (\<And>x st'. quiet (st_versions st') (st_versions (snd (f x st')))) \<Longrightarrow>
   advances (st_versions st) (st_versions (snd (tx_bind a f st)))"
  by (cases "a st"; cases "fst (a st)") (auto simp: tx_bind_def intro: advances_quiet)

lemma advances_transaction:
  "advances (st_versions st) (st_versions (snd (body st))) \<Longrightarrow> advances (st_versions st) (st_versions (snd (transaction body st)))"
  by (auto simp: transaction_def intro: quiet_is_advance split: prod.splits sum.splits)



section \<open>The writers\<close>

lemma advances_refl [simp]: "advances t t"
  by (rule quiet_is_advance) simp

lemma prune_workspace: "st_workspaces (pruneStateReservations w now st) = st_workspaces st"
proof -
  have "st_workspaces (fold (\<lambda>r st. if stateReservationObsolete r w now
        then snd (discardStateReservation r w (if upload_expiry r \<le> now then ''upload-expired'' else ''lock-changed'') st) else st) rs st) = st_workspaces st" for rs
    by (induction rs arbitrary: st) (auto simp: discardStateReservation_def)
  then show ?thesis by (simp add: pruneStateReservations_def)
qed

lemma insert_record_moves: "ia_id a \<in> N \<Longrightarrow> moves N st (snd (insert_record_body lib a now st))"
  unfolding insert_record_body_def Let_def
  by (auto simp: new_version_row_def intro!: tracks_prune tracks_trans [OF tracks_prune [of N st "ia_ws a" now]] tracks_bind tracks_insert tracks_index tracks_audit)

lemma insert_record_advances: "advances (st_versions st) (st_versions (snd (insert_record_body lib a now st)))"
proof -
  let ?st = "pruneStateReservations (ia_ws a) now st"
  have "advances (st_versions ?st) (st_versions (snd (insert_version (new_version_row lib a now) ?st)))"
    if "\<not> (case latest_any (ia_workspaceId a) ?st of None \<Rightarrow> False | Some l \<Rightarrow> ia_serial a \<le> sv_serial l)"
    using that by (intro advances_insert) (force simp: new_version_row_def dest: latest_any_greatest)
  then show ?thesis unfolding insert_record_body_def Let_def
    by (auto intro!: quiet_is_advance [OF quiet_prune] quiet_advances [OF quiet_prune [of st "ia_ws a" now]] advances_bind quiet_bind quiet_index quiet_audit)
qed

lemma commit_uploaded_moves: "i \<in> N \<Longrightarrow> moves N st (snd (commit_uploaded_body lib a i now st))"
  unfolding commit_uploaded_body_def Let_def
  by (auto simp: committed_row_def intro!: tracks_bind tracks_insert tracks_index tracks_audit)

lemma commit_uploaded_advances: "advances (st_versions st) (st_versions (snd (commit_uploaded_body lib a i now st)))"
  unfolding commit_uploaded_body_def Let_def
  by (auto intro!: advances_bind advances_insert quiet_bind quiet_index quiet_audit intro: quiet_is_advance
      simp: committed_row_def dest: latest_finalized_greatest split: option.splits)

lemma commit_rollback_moves: "i \<in> N \<Longrightarrow> moves N st (snd (commit_rollback_body lib w ws src u i now st))"
  unfolding commit_rollback_body_def Let_def
  by (auto simp: committed_row_def split: option.splits intro!: tracks_prune tracks_trans [OF tracks_prune [of N st ws now]] tracks_bind tracks_insert tracks_index)

lemma insert_next_advances:
  "sv_serial v = next_serial (sv_workspaceId v) st \<Longrightarrow> advances (st_versions st) (st_versions (snd (insert_version v st)))"
  by (rule advances_insert) (auto dest: next_serial_greater)

lemma commit_rollback_advances: "advances (st_versions st) (st_versions (snd (commit_rollback_body lib w ws src u i now st)))"
  unfolding commit_rollback_body_def Let_def
  by (auto split: option.splits simp: committed_row_def
      intro!: quiet_is_advance [OF quiet_prune] quiet_advances [OF quiet_prune [of st ws now]] advances_bind insert_next_advances quiet_index)

lemma commit_at_serial_moves: "sv_id v \<in> N \<Longrightarrow> moves N st (snd (commitStateVersionAtSerialTx lib v s j st))"
  unfolding commitStateVersionAtSerialTx_def
  by (auto split: sum.splits intro!: tracks_bind tracks_insert tracks_index)

lemma commit_at_serial_advances:
  "sv_serial v = next_serial (sv_workspaceId v) st \<Longrightarrow> advances (st_versions st) (st_versions (snd (commitStateVersionAtSerialTx lib v s j st)))"
  unfolding commitStateVersionAtSerialTx_def
  by (auto split: sum.splits intro!: advances_bind insert_next_advances quiet_index)

lemma next_serial_bind:
  "tx_bind (nextStateSerialTx w) f st =
     (if MAX_SAFE_INTEGER < \<bar>next_serial w st\<bar> then (Inl Crashed, st) else f (next_serial w st) st)"
  by (simp add: tx_bind_def nextStateSerialTx_def Let_def)

lemma with_serial_moves: "sv_id v \<in> N \<Longrightarrow> moves N st (snd (insertStateVersionWithSerialTx lib v st))"
  unfolding insertStateVersionWithSerialTx_def next_serial_bind
  by (auto split: sum.splits intro!: tracks_bind commit_at_serial_moves)

lemma with_serial_advances: "advances (st_versions st) (st_versions (snd (insertStateVersionWithSerialTx lib v st)))"
  unfolding insertStateVersionWithSerialTx_def next_serial_bind
  by (auto split: sum.splits intro!: advances_bind commit_at_serial_advances)

lemma promote_recovery_moves: "i \<in> N \<Longrightarrow> moves N st (snd (promote_recovery_body lib w r c raw p i now st))"
  unfolding promote_recovery_body_def Let_def next_serial_bind
  by (auto split: sum.splits option.splits simp: committed_row_def
      intro!: tracks_prune tracks_trans [OF tracks_prune [of N st w now]] tracks_bind commit_at_serial_moves tracks_audit)

lemma promote_recovery_advances: "advances (st_versions st) (st_versions (snd (promote_recovery_body lib w r c raw p i now st)))"
  unfolding promote_recovery_body_def Let_def next_serial_bind
  by (auto split: sum.splits option.splits simp: committed_row_def
      intro!: quiet_is_advance [OF quiet_prune] quiet_advances [OF quiet_prune [of st w now]] advances_bind commit_at_serial_advances quiet_audit)

text \<open>The commit of a reservation writes only rows that are still pending.\<close>

lemma commit_pending_moves: "moves N st (snd (commitPendingReservation lib r w p raw sha now st))"
proof -
  let ?p = "\<lambda>v. sv_id v = sv_id r \<and> sv_status v = Sv_pending \<and> no_content (sv_statePayload v)"
  let ?f = "\<lambda>v. v\<lparr>sv_statePayload := encryptStatePayload lib (Some raw), sv_status := Sv_finalized, sv_uploadSha256 := Some sha\<rparr>"
  let ?st = "st\<lparr>st_versions := db_update ?p ?f (st_versions st)\<rparr>"
  have "moves N st ?st" by (auto simp: evolves_def intro!: tracks_update)
  moreover have "moves N ?st (snd (tx_bind (replaceStateOutputIndex lib i v j s) (\<lambda>_ st'. (Inr x, st')) ?st))" for i v j s and x :: commit_result
    by (rule tracks_bind, rule tracks_replace) simp
  ultimately have "moves N st (snd (tx_bind (replaceStateOutputIndex lib i v j s) (\<lambda>_ st'. (Inr x, st')) ?st))" for i v j s and x :: commit_result
    by (rule tracks_trans)
  then show ?thesis by (simp add: commitPendingReservation_def Let_def split: option.splits)
qed

lemma commit_body_moves: "moves N st (snd (commit_body lib i raw now st))"
  unfolding commit_body_def Let_def
  by (auto split: option.splits sum.splits simp: evolves_def intro!: commit_pending_moves tracks_update)

lemma commit_pending_advances:
  assumes "history_ok (st_versions st)" "r \<in> set (st_versions st)"
  shows "advances (st_versions st) (st_versions (snd (commitPendingReservation lib r w p raw sha now st)))"
proof -
  let ?late = "case latest_finalized (sv_workspaceId r) st of None \<Rightarrow> False | Some c \<Rightarrow> sv_serial r \<le> sv_serial c"
  let ?p = "\<lambda>v. sv_id v = sv_id r \<and> sv_status v = Sv_pending \<and> no_content (sv_statePayload v)"
  let ?f = "\<lambda>v. v\<lparr>sv_statePayload := encryptStatePayload lib (Some raw), sv_status := Sv_finalized, sv_uploadSha256 := Some sha\<rparr>"
  let ?st = "st\<lparr>st_versions := db_update ?p ?f (st_versions st)\<rparr>"
  have u: "advances (st_versions st) (st_versions ?st)" if c: "\<not> ?late"
  proof -
    have "sv_serial u < sv_serial r" if "u \<in> set (st_versions st)" "sv_status u = Sv_finalized" "sv_workspaceId u = sv_workspaceId r" for u
      using latest_finalized_greatest [OF that(1,3,2)] c by auto
    moreover have "v = r" if "v \<in> set (st_versions st)" "?p v" for v
      using assms that by (auto simp: history_ok_def dest: unique_byD)
    ultimately show ?thesis by (fastforce simp: advances_def set_db_update)
  qed
  have q: "quiet (st_versions ?st) (st_versions (snd (tx_bind (replaceStateOutputIndex lib i v j s) (\<lambda>_ st'. (Inr x, st')) ?st)))"
    for i v j s and x :: commit_result
    by (rule quiet_bind, rule quiet_replace) simp
  show ?thesis
  proof (cases ?late)
    case True
    then show ?thesis by (simp add: commitPendingReservation_def Let_def)
  next
    case False
    note a = advances_quiet [OF u [OF False] q]
    show ?thesis unfolding commitPendingReservation_def Let_def if_not_P [OF False]
      by (cases "sv_jsonState r"; cases "decodeStatePayload lib (the (sv_jsonState r))") (simp_all add: a)
  qed
qed

lemma commit_body_advances:
  assumes "history_ok (st_versions st)"
  shows "advances (st_versions st) (st_versions (snd (commit_body lib i raw now st)))"
proof (cases "find_version i st")
  case (Some r)
  then have "r \<in> set (st_versions st)" by (auto simp: find_version_def dest: db_find_SomeD)
  note commit_pending_advances [OF assms this]
  moreover have "advances (st_versions st) (db_update (\<lambda>v. sv_id v = i) (\<lambda>v. v\<lparr>sv_uploadSha256 := x\<rparr>) (st_versions st))" for x
    by (rule advances_update) auto
  ultimately show ?thesis
    by (cases "existingCommitResult lib r (sha256_hex lib raw)"; cases "the (existingCommitResult lib r (sha256_hex lib raw))";
        cases "find_lockable (sv_workspaceId r) st"; cases "validateReservationPayload lib r raw")
      (simp_all add: commit_body_def Let_def Some)
qed (simp add: commit_body_def Let_def)



section \<open>The system\<close>

text \<open>
  Handlers act on rows they read at any earlier time: \<open>S\<close> are all rows that ever were in the table. Every
  attempt of a transaction is a step of its own. The id of a new version is a fresh UUID.
\<close>

definition fresh_id :: "string \<Rightarrow> state_version set \<Rightarrow> bool" where
  "fresh_id i S \<longleftrightarrow> (\<forall>v \<in> S. sv_id v \<noteq> i)"

inductive sv_op :: "state_lib \<Rightarrow> state_version set \<Rightarrow> state_store \<Rightarrow> state_store \<Rightarrow> bool" for lib S st where
  op_create: "fresh_id (ia_id a) S \<Longrightarrow> sv_op lib S st (snd (transaction (insert_record_body lib a now) st))"
| op_upload: "fresh_id i S \<Longrightarrow> sv_op lib S st (snd (transaction (commit_uploaded_body lib u i now) st))"
| op_rollback: "fresh_id i S \<Longrightarrow> sv_op lib S st (snd (transaction (commit_rollback_body lib wid w src usr i now) st))"
| op_recover: "fresh_id i S \<Longrightarrow> sv_op lib S st (snd (transaction (promote_recovery_body lib w run c raw p i now) st))"
| op_execute: "fresh_id (sv_id v) S \<Longrightarrow> sv_op lib S st (snd (transaction (insertStateVersionWithSerialTx lib v) st))"
| op_commit: "sv_op lib S st (snd (commitStateVersion lib i raw now st))"
| op_outputs: "sv_op lib S st (snd (commitJsonOutputsUpload v w x now st))"
| op_json: "sv_op lib S st (snd (commitJsonUpload lib v w x j now st))"
| op_delete: "v \<in> S \<Longrightarrow> sv_op lib S st (snd (deleteStateVersion v w admin st))"
| op_soft_delete: "v \<in> S \<Longrightarrow> sv_op lib S st (snd (softDeleteBackingData v cur admin now st))"
| op_restore: "v \<in> S \<Longrightarrow> sv_op lib S st (snd (restoreBackingData v admin st))"
| op_erase: "v \<in> S \<Longrightarrow> sv_op lib S st (snd (permanentlyDeleteBackingData v admin st))"
| op_lock: "sv_op lib S st (snd (lockWorkspace w p reason now st))"
| op_unlock: "sv_op lib S st (snd (unlockWorkspace w p now st))"
| op_force_unlock: "sv_op lib S st (snd (forceUnlockWorkspace w force live now st))"
| op_purge: "sv_op lib S st (snd (purgeStaleStateVersions vs cutoff st))"
| op_stamp: "sv_op lib S st (stampPendingSoftDeletedStateVersions vs now st)"
| op_retain: "(\<And>i. i \<in> set ids \<Longrightarrow> \<exists>v \<in> S. sv_id v = i \<and> sv_status v = Sv_finalized) \<Longrightarrow>
    sv_op lib S st (softDeleteStateVersions ids now st)"

record sv_world =
  sw_store :: state_store
  sw_seen :: "state_version set"

inductive sv_step :: "state_lib \<Rightarrow> sv_world \<Rightarrow> sv_world \<Rightarrow> bool" for lib where
  sv_step_op: "sv_op lib (sw_seen w) (sw_store w) st' \<Longrightarrow>
    sv_step lib w \<lparr>sw_store = st', sw_seen = sw_seen w \<union> set (st_versions st')\<rparr>"

definition sv_start :: "sv_world \<Rightarrow> bool" where
  "sv_start w \<longleftrightarrow> st_versions (sw_store w) = [] \<and> sw_seen w = {}"

definition sv_valid :: "sv_world \<Rightarrow> bool" where
  "sv_valid w \<longleftrightarrow> history_ok (st_versions (sw_store w)) \<and> set (st_versions (sw_store w)) \<subseteq> sw_seen w \<and>
     (\<forall>v \<in> sw_seen w. \<forall>r \<in> set (st_versions (sw_store w)). sv_id r = sv_id v \<longrightarrow> evolves v r)"

lemma commit_moves: "moves N st (snd (commitStateVersion lib i raw now st))"
  using tracks_transaction [of N "commit_body lib i raw now" st] commit_body_moves
  by (auto simp: commitStateVersion_def split: prod.splits sum.splits sv_error.splits)

lemma json_moves: "moves N st (snd (commitJsonUpload lib v w x j now st))"
  unfolding commitJsonUpload_def
proof (rule tracks_transaction)
  fix st :: state_store
  let ?p = "\<lambda>u. sv_id u = sv_id v \<and> sv_status u \<in> {Sv_pending, Sv_finalized} \<and> no_content (sv_jsonState u)"
  let ?st = "st\<lparr>st_versions := db_update ?p (\<lambda>u. u\<lparr>sv_jsonState := x\<rparr>) (st_versions st)\<rparr>"
  have u: "moves N st ?st" by (auto simp: evolves_def intro!: tracks_update)
  note tracks_trans [OF u tracks_replace]
  with u show "moves N st (snd (json_upload_body lib v w x j now st))"
    by (simp add: json_upload_body_def Let_def split: list.split option.split)
qed

lemma intermediate_moves: "moves N st (snd (promoteIntermediateStateVersion i now st))"
proof -
  let ?st = "case find_lockable i st of None \<Rightarrow> st | Some w \<Rightarrow> if fenceStateWorkspace w st then pruneStateReservations w now st else st"
  have "moves N st ?st" by (simp add: tracks_prune split: option.split)
  moreover have "tracks N (st_versions ?st) (db_update p (\<lambda>u. u\<lparr>sv_intermediate := False\<rparr>) (st_versions ?st))" for p
    by (rule tracks_update) (simp add: evolves_def)
  ultimately have "tracks N (st_versions st) (db_update p (\<lambda>u. u\<lparr>sv_intermediate := False\<rparr>) (st_versions ?st))" "moves N st ?st" for p
    by (blast intro: tracks_trans)+
  then show ?thesis by (simp add: promoteIntermediateStateVersion_def Let_def split: option.split)
qed

lemma unlock_moves: "moves N st (snd (unlockWorkspace w p now st))"
proof -
  have "moves N st (snd (promoteIntermediateStateVersion i now (st\<lparr>st_workspaces := ws\<rparr>)))" for i ws
    using intermediate_moves [of N "st\<lparr>st_workspaces := ws\<rparr>"] by simp
  then show ?thesis by (simp add: unlockWorkspace_def Let_def split: option.split)
qed

lemma force_unlock_moves: "moves N st (snd (forceUnlockWorkspace w force live now st))"
proof -
  have "moves N st (snd (promoteIntermediateStateVersion i now (st\<lparr>st_workspaces := ws\<rparr>)))" for i ws
    using intermediate_moves [of N "st\<lparr>st_workspaces := ws\<rparr>"] by simp
  then show ?thesis by (simp add: forceUnlockWorkspace_def Let_def)
qed

lemma delete_moves: "moves N st (snd (deleteStateVersion v w admin st))"
  by (auto simp: deleteStateVersion_def evolves_def split: prod.splits intro!: tracks_update)
    (metis tracks_discard snd_conv)

lemma backing_data_moves:
  "moves N st (snd (softDeleteBackingData v cur admin now st))" "moves N st (snd (restoreBackingData v admin st))"
  "moves N st (snd (permanentlyDeleteBackingData v admin st))" "moves N st (softDeleteStateVersions ids now st)"
  "moves N st (stampPendingSoftDeletedStateVersions vs now st)" "moves N st (snd (purgeStaleStateVersions vs cutoff st))"
  by (auto simp: softDeleteBackingData_def restoreBackingData_def permanentlyDeleteBackingData_def softDeleteStateVersions_def
      stampPendingSoftDeletedStateVersions_def purgeStaleStateVersions_def delete_versions_def evolves_def Let_def
      intro!: tracks_update tracks_delete)

lemma op_moves:
  assumes "sv_op lib S st st'"
  shows "\<exists>N. (\<forall>i \<in> N. fresh_id i S) \<and> moves N st st'"
  using assms
proof cases
  case (op_create a now)
  then show ?thesis using tracks_transaction [of "{ia_id a}" "insert_record_body lib a now" st] insert_record_moves by auto
next
  case (op_upload i u now)
  then show ?thesis using tracks_transaction [of "{i}" "commit_uploaded_body lib u i now" st] commit_uploaded_moves by auto
next
  case (op_rollback i wid w src usr now)
  then show ?thesis using tracks_transaction [of "{i}" "commit_rollback_body lib wid w src usr i now" st] commit_rollback_moves by auto
next
  case (op_recover i w run c raw p now)
  then show ?thesis using tracks_transaction [of "{i}" "promote_recovery_body lib w run c raw p i now" st] promote_recovery_moves by auto
next
  case (op_execute v)
  then show ?thesis using tracks_transaction [of "{sv_id v}" "insertStateVersionWithSerialTx lib v" st] with_serial_moves by auto
next
  case (op_outputs v w x now)
  have "moves {} st st'" unfolding op_outputs commitJsonOutputsUpload_def Let_def by (auto simp: evolves_def intro!: tracks_update)
  then show ?thesis by blast
next
  case (op_lock w p reason now)
  have "moves {} st st'" unfolding op_lock lockWorkspace_def Let_def by auto
  then show ?thesis by blast
qed (rule exI [of _ "{}"], simp add: commit_moves json_moves unlock_moves force_unlock_moves delete_moves backing_data_moves)+

text \<open>The rows of the table are what earlier rows evolved to.\<close>

lemma sv_valid_step: "sv_valid w \<Longrightarrow> sv_step lib w w' \<Longrightarrow> sv_valid w'"
proof (rotate_tac, induction rule: sv_step.induct)
  case (sv_step_op w st')
  obtain N where N: "\<forall>i \<in> N. fresh_id i (sw_seen w)" and m: "moves N (sw_store w) st'"
    using op_moves [OF sv_step_op(1)] by blast
  note v = sv_step_op(2) [unfolded sv_valid_def]
  have h: "history_ok (st_versions st')" using m v by (simp add: tracks_def)
  have "evolves q r" if q: "q \<in> sw_seen w \<union> set (st_versions st')" and r: "r \<in> set (st_versions st')" "sv_id r = sv_id q" for q r
  proof (cases "q \<in> sw_seen w")
    case True
    then have "sv_id r \<notin> N" using N r(2) by (auto simp: fresh_id_def)
    then obtain p where p: "p \<in> set (st_versions (sw_store w))" "evolves p r" using m r(1) by (auto simp: tracks_def)
    then have "evolves q p" using v True r(2) by (simp add: evolves_def)
    then show ?thesis using p(2) by (rule evolves_trans)
  next
    case False
    with q r h have "r = q" by (auto simp: history_ok_def dest: unique_byD)
    then show ?thesis by simp
  qed
  with h show ?case by (simp add: sv_valid_def)
qed

interpretation state_system: invariant_system sv_start "sv_step lib" sv_valid for lib
proof
  show "sv_start w \<Longrightarrow> sv_valid w" for w by (simp add: sv_start_def sv_valid_def history_ok_def unique_by_def)
qed (rule sv_valid_step)



section \<open>The history advances\<close>

lemma json_advances: "advances (st_versions st) (st_versions (snd (commitJsonUpload lib v w x j now st)))"
proof -
  let ?p = "\<lambda>u. sv_id u = sv_id v \<and> sv_status u \<in> {Sv_pending, Sv_finalized} \<and> no_content (sv_jsonState u)"
  let ?st = "st\<lparr>st_versions := db_update ?p (\<lambda>u. u\<lparr>sv_jsonState := x\<rparr>) (st_versions st)\<rparr>"
  have u: "quiet (st_versions st) (st_versions ?st)" by (auto simp: shape_def intro!: quiet_update)
  note quiet_is_advance [OF quiet_trans [OF u quiet_replace]] quiet_is_advance [OF u]
  then show ?thesis unfolding commitJsonUpload_def
    by (intro advances_transaction) (simp add: json_upload_body_def Let_def split: list.split option.split)
qed

lemma intermediate_quiet: "quiet (st_versions st) (st_versions (snd (promoteIntermediateStateVersion i now st)))"
proof -
  let ?st = "case find_lockable i st of None \<Rightarrow> st | Some w \<Rightarrow> if fenceStateWorkspace w st then pruneStateReservations w now st else st"
  have s: "quiet (st_versions st) (st_versions ?st)" by (simp add: quiet_prune split: option.split)
  moreover have "quiet (st_versions ?st) (db_update p (\<lambda>u. u\<lparr>sv_intermediate := False\<rparr>) (st_versions ?st))" for p
    by (rule quiet_update) (simp add: shape_def)
  ultimately have "quiet (st_versions st) (db_update p (\<lambda>u. u\<lparr>sv_intermediate := False\<rparr>) (st_versions ?st))" for p
    by (rule quiet_trans)
  with s show ?thesis by (simp add: promoteIntermediateStateVersion_def Let_def split: option.split)
qed

lemma unlock_quiet:
  "quiet (st_versions st) (st_versions (snd (unlockWorkspace w p now st)))"
  "quiet (st_versions st) (st_versions (snd (forceUnlockWorkspace w force live now st)))"
proof -
  have "quiet (st_versions st) (st_versions (snd (promoteIntermediateStateVersion i now (st\<lparr>st_workspaces := ws\<rparr>))))" for i ws
    using intermediate_quiet [of "st\<lparr>st_workspaces := ws\<rparr>"] by simp
  then show "quiet (st_versions st) (st_versions (snd (unlockWorkspace w p now st)))"
    "quiet (st_versions st) (st_versions (snd (forceUnlockWorkspace w force live now st)))"
    by (simp_all add: unlockWorkspace_def forceUnlockWorkspace_def Let_def split: option.split)
qed

lemma advances_update_in:
  assumes "\<And>v. v \<in> set t \<Longrightarrow> p v \<Longrightarrow> sv_id (f v) = sv_id v \<and> (sv_status (f v) = Sv_finalized \<longrightarrow> sv_status v \<noteq> Sv_pending)"
  shows "advances t (db_update p f t)"
  using assms by (fastforce simp: advances_def set_db_update)

text \<open>A version that was seen past \<open>pending\<close> is past it now.\<close>

lemma seen_committed:
  "sv_valid w \<Longrightarrow> v \<in> sw_seen w \<Longrightarrow> sv_status v \<noteq> Sv_pending \<Longrightarrow> r \<in> set (st_versions (sw_store w)) \<Longrightarrow> sv_id r = sv_id v \<Longrightarrow>
   sv_status r \<noteq> Sv_pending"
  by (auto simp: sv_valid_def evolves_def)

lemma backing_data_advances:
  "advances (st_versions st) (st_versions (snd (softDeleteBackingData v cur admin now st)))"
  "advances (st_versions st) (st_versions (snd (permanentlyDeleteBackingData v admin st)))"
  "advances (st_versions st) (st_versions (softDeleteStateVersions ids now st))"
  "advances (st_versions st) (st_versions (stampPendingSoftDeletedStateVersions vs now st))"
  "advances (st_versions st) (st_versions (snd (purgeStaleStateVersions vs cutoff st)))"
  by (auto simp: softDeleteBackingData_def permanentlyDeleteBackingData_def softDeleteStateVersions_def
      purgeStaleStateVersions_def delete_versions_def Let_def intro!: advances_update advances_delete)
    (auto simp: stampPendingSoftDeletedStateVersions_def Let_def shape_def intro!: quiet_is_advance quiet_update)

lemma delete_advances: "advances (st_versions st) (st_versions (snd (deleteStateVersion v w admin st)))"
proof (cases "sv_status v = Sv_pending \<and> sv_statePayload v = None")
  case True
  then show ?thesis using quiet_is_advance [OF quiet_discard [of st v w "''discarded''"]]
    by (cases "discardStateReservation v w ''discarded'' st") (simp add: deleteStateVersion_def)
next
  case False
  then show ?thesis by (auto simp: deleteStateVersion_def intro!: advances_update)
qed

lemma op_advances:
  assumes "sv_valid w" "sv_op lib (sw_seen w) (sw_store w) st'"
  shows "advances (st_versions (sw_store w)) (st_versions st')"
  using assms(2)
proof cases
  case (op_commit i raw now)
  have h: "history_ok (st_versions (sw_store w))" using assms(1) by (simp add: sv_valid_def)
  have "advances (st_versions (sw_store w)) (st_versions (snd (transaction (commit_body lib i raw now) (sw_store w))))"
    by (rule advances_transaction) (rule commit_body_advances [OF h])
  then show ?thesis unfolding op_commit commitStateVersion_def by (auto split: prod.splits sum.splits sv_error.splits)
next
  case (op_outputs v w x now)
  then show ?thesis
    by (auto simp: commitJsonOutputsUpload_def Let_def shape_def intro!: quiet_is_advance quiet_update)
next
  case (op_restore v admin)
  then have "sv_status v = Sv_soft_deleted \<Longrightarrow> r \<in> set (st_versions (sw_store w)) \<Longrightarrow> sv_id r = sv_id v \<Longrightarrow> sv_status r \<noteq> Sv_pending" for r
    using seen_committed [OF assms(1)] by (metis sv_status.distinct(5))
  then show ?thesis unfolding op_restore restoreBackingData_def by (auto intro!: advances_update_in)
next
  case (op_lock w p reason now)
  then show ?thesis by (simp add: lockWorkspace_def Let_def)
qed (simp_all add: advances_transaction insert_record_advances commit_uploaded_advances commit_rollback_advances promote_recovery_advances
    with_serial_advances json_advances delete_advances backing_data_advances quiet_is_advance [OF unlock_quiet(1)] quiet_is_advance [OF unlock_quiet(2)])



section \<open>Properties of the history\<close>

lemma reach_seen:
  assumes "sv_valid w" "(sv_step lib)\<^sup>*\<^sup>* w w'"
  shows "sv_valid w' \<and> sw_seen w \<subseteq> sw_seen w'"
proof
  show "sv_valid w'" using assms by (rule state_system.steps_inv)
  show "sw_seen w \<subseteq> sw_seen w'" using assms(2) by (induction rule: rtranclp_induct) (auto elim!: sv_step.cases)
qed


text \<open>C12: serials advance: a version that a step makes finalized for the first time has a higher serial than
  every other finalized version of its workspace, whoever wrote it and however the writers interleave.\<close>

theorem finalized_serial_advances:
  assumes "reach sv_start (sv_step lib) w" "sv_step lib w w'"
    and "v' \<in> set (st_versions (sw_store w'))" "sv_status v' = Sv_finalized"
    and "\<And>v. v \<in> sw_seen w \<Longrightarrow> sv_id v = sv_id v' \<Longrightarrow> sv_status v = Sv_pending"
    and "u \<in> set (st_versions (sw_store w))" "sv_status u = Sv_finalized" "sv_workspaceId u = sv_workspaceId v'"
  shows "sv_serial u < sv_serial v'"
proof -
  have v: "sv_valid w" using state_system.reach_inv [OF assms(1)] .
  have a: "advances (st_versions (sw_store w)) (st_versions (sw_store w'))"
    using assms(2) by cases (simp add: op_advances [OF v])
  have "set (st_versions (sw_store w)) \<subseteq> sw_seen w" using v by (simp add: sv_valid_def)
  then have "\<not> (\<exists>x \<in> set (st_versions (sw_store w)). sv_id x = sv_id v' \<and> sv_status x \<noteq> Sv_pending)" "sv_id u \<noteq> sv_id v'"
    using assms(5) assms(6,7) by (blast, metis subsetD sv_status.distinct(1))
  with a assms(3,4,6,7,8) show ?thesis unfolding advances_def by blast
qed

text \<open>A concrete history: the states with serials 3 and 4 are uploaded to an empty workspace.\<close>

definition demo_json :: "int \<Rightarrow> json" where
  "demo_json n = JObj [(''version'', JNum (Finite 4)), (''serial'', JNum (Finite (of_int n))), (''lineage'', JStr ''l''), (''resources'', JArr [])]"

definition demo_lib :: state_lib where
  "demo_lib = \<lparr>sl_parse = (\<lambda>s. if s = ''s3'' then Some (demo_json 3) else if s = ''s4'' then Some (demo_json 4) else None),
     sl_stringify = (\<lambda>_. ''s4''), sl_sha256 = id, sl_md5 = id, sl_aead = demo_aead, sl_key = [], sl_iv = replicate 12 (CHR ''i'')\<rparr>"

definition demo_store :: state_store where
  "demo_store = \<lparr>st_workspaces = [\<lparr>wl_id = ''w'', wl_orgId = ''o'', wl_locked = None, wl_lockedReason = None, wl_lockOwnerType = None,
     wl_lockOwnerId = None, wl_lockedAt = None\<rparr>], st_versions = [], st_outputs = [], st_audit = []\<rparr>"

definition demo_upload :: "string \<Rightarrow> int \<Rightarrow> upload_args" where
  "demo_upload raw serial = \<lparr>ua_workspaceId = ''w'', ua_rawState = raw, ua_parsed = [], ua_incomingSerial = serial,
     ua_runId = None, ua_runCreatedBy = None, ua_userId = None\<rparr>"

definition demo_world :: sv_world where "demo_world = \<lparr>sw_store = demo_store, sw_seen = {}\<rparr>"

lemma demo_not_secret [simp]: "\<not> isEncryptedSecret ''s3''" "\<not> isEncryptedSecret ''s4''"
  by (rule plain_not_encrypted, simp)+

lemma demo_decode [simp]: "decodeStatePayload demo_lib ''s3'' = Some ''s3''" "decodeStatePayload demo_lib ''s4'' = Some ''s4''"
  by (simp_all add: decodeStatePayload_def decryptStatePayload_def demo_lib_def)

lemma demo_rows [simp]: "stateOutputIndexRows demo_lib i w j (Some ''s3'') = []" "stateOutputIndexRows demo_lib i w j (Some ''s4'') = []"
  by (simp_all add: stateOutputIndexRows_def parseStatePayload_def) (simp_all add: demo_lib_def demo_json_def json_record_def json_or_def)

definition demo_row :: "string \<Rightarrow> string \<Rightarrow> int \<Rightarrow> state_version" where
  "demo_row i raw serial = committed_row demo_lib i ''w'' serial raw None None None 0"

lemma demo_row_fields [simp]:
  "sv_id (demo_row i raw n) = i" "sv_workspaceId (demo_row i raw n) = ''w''" "sv_serial (demo_row i raw n) = n"
  "sv_status (demo_row i raw n) = Sv_finalized" "sv_uploadSha256 (demo_row i raw n) = Some (sha256_hex demo_lib raw)"
  "demo_row i raw n\<lparr>sv_uploadSha256 := Some (sha256_hex demo_lib raw)\<rparr> = demo_row i raw n"
  by (simp_all add: demo_row_def committed_row_def)

lemma demo_commit:
  assumes "raw \<in> {''s3'', ''s4''}" "list_all (\<lambda>v. sv_id v \<noteq> i \<and> (sv_workspaceId v = ''w'' \<longrightarrow> sv_serial v \<noteq> n)) (st_versions st)"
    and "case latest_finalized ''w'' st of None \<Rightarrow> True | Some l \<Rightarrow> n = sv_serial l + 1"
  shows "st_versions (snd (transaction (commit_uploaded_body demo_lib (demo_upload raw n) i 0) st)) = st_versions st @ [demo_row i raw n]"
proof -
  have d: "decodeStatePayload demo_lib raw = Some raw" "stateOutputIndexRows demo_lib i ''w'' j (Some raw) = []" for j
    using assms(1) by auto
  have f: "ua_workspaceId (demo_upload raw n) = ''w''" "ua_rawState (demo_upload raw n) = raw" "ua_parsed (demo_upload raw n) = []"
    "ua_runId (demo_upload raw n) = None" "ua_runCreatedBy (demo_upload raw n) = None" "ua_userId (demo_upload raw n) = None"
    by (simp_all add: demo_upload_def)
  have n: "(case latest_finalized ''w'' st of None \<Rightarrow> ua_incomingSerial (demo_upload raw n) | Some l \<Rightarrow> sv_serial l + 1) = n"
    "\<not> (case latest_finalized ''w'' st of None \<Rightarrow> False | Some l \<Rightarrow> ua_incomingSerial (demo_upload raw n) \<noteq> sv_serial l + 1)"
    using assms(3) by (simp_all add: demo_upload_def split: option.splits)
  have "\<not> list_ex (\<lambda>u. sv_id u = i \<or> sv_workspaceId u = ''w'' \<and> sv_serial u = n) (st_versions st)"
    using assms(2) by (auto simp: list_ex_iff list_all_iff)
  moreover have "db_update (\<lambda>v. sv_id v = i) f (st_versions st) = st_versions st" for f
    using assms(2) by (intro db_update_id) (auto simp: list_all_iff)
  moreover have "db_update p f (a @ b) = db_update p f a @ db_update p f b" for p and f :: "state_version \<Rightarrow> state_version" and a b
    by (simp add: db_update_def)
  ultimately show ?thesis
    by (simp add: transaction_def commit_uploaded_body_def Let_def f n tx_bind_def insert_version_def
        insertStateOutputIndex_def d append_audit_def demo_row_def [symmetric] outputs_text_def)
qed

definition demo_store1 :: state_store where
  "demo_store1 = snd (transaction (commit_uploaded_body demo_lib (demo_upload ''s3'' 3) ''a'' 0) demo_store)"

definition demo_store2 :: state_store where
  "demo_store2 = snd (transaction (commit_uploaded_body demo_lib (demo_upload ''s4'' 4) ''b'' 0) demo_store1)"

lemma demo_versions [simp]: "st_versions demo_store1 = [demo_row ''a'' ''s3'' 3]"
  "st_versions demo_store2 = [demo_row ''a'' ''s3'' 3, demo_row ''b'' ''s4'' 4]"
proof -
  show one: "st_versions demo_store1 = [demo_row ''a'' ''s3'' 3]"
    unfolding demo_store1_def by (subst demo_commit) (simp_all add: demo_store_def latest_finalized_def of_workspace_def latest_of_def)
  show "st_versions demo_store2 = [demo_row ''a'' ''s3'' 3, demo_row ''b'' ''s4'' 4]"
    unfolding demo_store2_def by (subst demo_commit) (simp_all add: one latest_finalized_def of_workspace_def latest_of_def)
qed

definition demo_world1 :: sv_world where
  "demo_world1 = \<lparr>sw_store = demo_store1, sw_seen = {demo_row ''a'' ''s3'' 3}\<rparr>"

definition demo_world2 :: sv_world where
  "demo_world2 = \<lparr>sw_store = demo_store2, sw_seen = {demo_row ''a'' ''s3'' 3, demo_row ''b'' ''s4'' 4}\<rparr>"

lemma demo_state_steps: "sv_step demo_lib demo_world demo_world1" "sv_step demo_lib demo_world1 demo_world2" "reach sv_start (sv_step demo_lib) demo_world1"
proof -
  have "sv_op demo_lib {} demo_store demo_store1" unfolding demo_store1_def by (rule op_upload) (simp add: fresh_id_def)
  with sv_step_op [of demo_lib demo_world demo_store1] show s: "sv_step demo_lib demo_world demo_world1"
    by (simp add: demo_world_def demo_world1_def)
  have "sv_op demo_lib {demo_row ''a'' ''s3'' 3} demo_store1 demo_store2" unfolding demo_store2_def by (rule op_upload) (simp add: fresh_id_def)
  with sv_step_op [of demo_lib demo_world1 demo_store2] show "sv_step demo_lib demo_world1 demo_world2"
    by (simp add: demo_world1_def demo_world2_def insert_commute)
  show "reach sv_start (sv_step demo_lib) demo_world1"
    using reach_init [of sv_start demo_world "sv_step demo_lib"] reach_step [of sv_start "sv_step demo_lib" demo_world demo_world1] s
    by (simp add: sv_start_def demo_world_def demo_store_def)
qed


lemma finalized_serial_advances_witness: "(3::int) < 4 \<and> sv_serial (demo_row ''b'' ''s4'' 4) = 4"
  using finalized_serial_advances [OF demo_state_steps(3,2), of "demo_row ''b'' ''s4'' 4" "demo_row ''a'' ''s3'' 3"]
  by (simp add: demo_world1_def demo_world2_def)

end
