(* ===== verification/StateCommits.thy ===== *)
theory StateCommits imports StateSafety begin

text \<open>
  What single writers promise: a lock that changed hands stops every fenced writer, an upload that is
  retried has no second effect, and where the code falls short of that.
\<close>

section \<open>The fence\<close>

lemma fence_iff:
  assumes "unique_by wl_id (st_workspaces st)"
  shows "fenceStateWorkspace w st \<longleftrightarrow> (\<exists>cur. find_lockable (wl_id w) st = Some cur \<and> stateUploadLock cur = stateUploadLock w)"
proof -
  let ?p = "\<lambda>r. wl_id r = wl_id w \<and> stateUploadLock r = stateUploadLock w"
  have "db_returning ?p f (st_workspaces st) = (case db_find ?p (st_workspaces st) of None \<Rightarrow> [] | Some r \<Rightarrow> [f r])" for f
    by (rule db_returning_unique [OF assms]) simp
  then have "fenceStateWorkspace w st \<longleftrightarrow> (\<exists>r \<in> set (st_workspaces st). ?p r)"
    using db_find_None_iff [of ?p "st_workspaces st"] by (auto simp: fenceStateWorkspace_def split: option.splits)
  also have "\<dots> \<longleftrightarrow> (\<exists>cur. find_lockable (wl_id w) st = Some cur \<and> stateUploadLock cur = stateUploadLock w)"
    using assms by (auto simp: find_lockable_def dest: db_find_SomeD) (metis db_find_key)
  finally show ?thesis .
qed

lemma retry_of_conflict:
  "body st = (Inl Serial_conflict, st') \<Longrightarrow> withStateSerialRetry between (transaction body) st = (Inl Serial_conflict, st)"
  by (simp add: withStateSerialRetry_def transaction_def numeral_3_eq_3)

lemma stale_lock_refusals:
  assumes "unique_by wl_id (st_workspaces st)" "find_lockable (wl_id w) st = Some cur" "stateUploadLock cur \<noteq> stateUploadLock w"
  shows "ia_ws a = w \<Longrightarrow> insertStateVersionRecord lib between a now st =
      (Inl (Rejected 409 ''State serial must advance the current workspace state''), st)"
    and "commitRollbackVersion lib between wid w src usr i now st =
      (Inl (Rejected 409 ''Workspace lock or state changed before promotion''), st)"
    and "parseTerraformStatePayload lib (Some raw) \<noteq> None \<Longrightarrow> promoteRecoveryCapture lib between w run c raw i now st =
      (Inl (Rejected 409 ''Workspace lock or state changed before promotion''), st)"
    and "find_version i st = Some r \<Longrightarrow> sv_status r = Sv_pending \<Longrightarrow> no_content (sv_statePayload r) \<Longrightarrow> sv_workspaceId r = wl_id w \<Longrightarrow>
      sv_uploadLock r = Some (stateUploadLock w) \<Longrightarrow> commitStateVersion lib i raw now st = (Inr (Commit_conflict Reservation_obsolete), st)"
proof -
  have f: "\<not> fenceStateWorkspace w st" using assms by (simp add: fence_iff)
  show "insertStateVersionRecord lib between a now st =
      (Inl (Rejected 409 ''State serial must advance the current workspace state''), st)" if "ia_ws a = w"
    using that f by (subst insertStateVersionRecord_def, subst retry_of_conflict) (simp_all add: insert_record_body_def conflict_error_def)
  show "commitRollbackVersion lib between wid w src usr i now st =
      (Inl (Rejected 409 ''Workspace lock or state changed before promotion''), st)"
    using f by (subst commitRollbackVersion_def, subst retry_of_conflict) (simp_all add: commit_rollback_body_def conflict_error_def)
  show "promoteRecoveryCapture lib between w run c raw i now st =
      (Inl (Rejected 409 ''Workspace lock or state changed before promotion''), st)" if p: "parseTerraformStatePayload lib (Some raw) \<noteq> None"
  proof -
    obtain m where "parseTerraformStatePayload lib (Some raw) = Some m" using p by blast
    moreover have "promote_recovery_body lib w run c raw m i now st = (Inl Serial_conflict, st)" using f by (simp add: promote_recovery_body_def)
    note retry_of_conflict [of "promote_recovery_body lib w run c raw m i now", OF this]
    ultimately show ?thesis by (simp add: promoteRecoveryCapture_def conflict_error_def)
  qed
  show "commitStateVersion lib i raw now st = (Inr (Commit_conflict Reservation_obsolete), st)"
    if "find_version i st = Some r" "sv_status r = Sv_pending" "no_content (sv_statePayload r)" "sv_workspaceId r = wl_id w"
      "sv_uploadLock r = Some (stateUploadLock w)"
    using that assms(2,3)
    by (simp add: commitStateVersion_def transaction_def commit_body_def Let_def existingCommitResult_def stateReservationObsolete_def)
qed


definition demo_holder :: lockable where
  "demo_holder = \<lparr>wl_id = ''w'', wl_orgId = ''o'', wl_locked = Some True, wl_lockedReason = None, wl_lockOwnerType = Some ''user'',
     wl_lockOwnerId = Some ''u'', wl_lockedAt = Some 5\<rparr>"



section \<open>Uploads to a reservation\<close>

lemma find_version_unique:
  "unique_by sv_id (st_versions st) \<Longrightarrow> v \<in> set (st_versions st) \<Longrightarrow> sv_id v = i \<Longrightarrow> find_version i st = Some v"
  using db_find_key [of sv_id "st_versions st" v] by (simp add: find_version_def)

lemma find_version_update:
  "(\<And>v. sv_id (f v) = sv_id v) \<Longrightarrow>
   find_version i (st\<lparr>st_versions := db_update p f t\<rparr>) = map_option (\<lambda>v. if p v then f v else v) (db_find (\<lambda>v. sv_id v = i) t)"
  by (simp add: find_version_def db_find_update_key)

text \<open>The row a successful commit leaves: its payload reads back as the upload, its checksum is that of the
  document.\<close>

lemma committed_row_of:
  assumes "commitStateVersion lib i raw now st = (Inr (Committed i'), st')"
    and "unique_by sv_id (st_versions st)" "decodeStatePayload lib raw = Some canonical"
  shows "i' = i \<and> (\<exists>v. find_version i st' = Some v \<and> sv_id v = i \<and> sv_status v = Sv_finalized \<and>
    sv_statePayload v = encryptStatePayload lib (Some raw) \<and> sv_uploadSha256 v = Some (sha256_hex lib canonical))"
proof -
  have b: "commit_body lib i raw now st = (Inr (Committed i'), st')"
    using assms(1) by (auto simp: commitStateVersion_def transaction_def split: prod.splits sum.splits sv_error.splits)
  obtain r where r: "find_version i st = Some r" using b by (cases "find_version i st") (auto simp: commit_body_def Let_def)
  then have ri: "sv_id r = i" "r \<in> set (st_versions st)" by (auto simp: find_version_def dest: db_find_SomeD)
  have "existingCommitResult lib r (sha256_hex lib raw) = Some None"
    using b r by (auto simp: commit_body_def Let_def existingCommitResult_def split: if_splits option.splits)
  then obtain w where p: "sv_status r = Sv_pending" "no_content (sv_statePayload r)"
    and w: "find_lockable (sv_workspaceId r) st = Some w" "\<not> stateReservationObsolete r w now"
    using b r by (cases "find_lockable (sv_workspaceId r) st") (auto simp: commit_body_def Let_def existingCommitResult_def split: if_splits option.splits)
  obtain parsed where parsed: "validateReservationPayload lib r raw = Inr parsed"
    using b r w p by (cases "validateReservationPayload lib r raw")
      (auto simp: commit_body_def Let_def existingCommitResult_def validateReservationPayload_def split: option.splits if_splits)
  let ?sha = "sha256_hex lib raw"
  have c: "commitPendingReservation lib r w parsed raw ?sha now st = (Inr (Committed i'), st')"
    using b r w p parsed by (simp add: commit_body_def Let_def existingCommitResult_def)
  let ?p = "\<lambda>v. sv_id v = sv_id r \<and> sv_status v = Sv_pending \<and> no_content (sv_statePayload v)"
  let ?f = "\<lambda>v. v\<lparr>sv_statePayload := encryptStatePayload lib (Some raw), sv_status := Sv_finalized, sv_uploadSha256 := Some ?sha\<rparr>"
  let ?st = "st\<lparr>st_versions := db_update ?p ?f (st_versions st)\<rparr>"
  obtain js where "tx_bind (replaceStateOutputIndex lib (sv_id r) (sv_workspaceId r) js (Some raw)) (\<lambda>_ st'. (Inr (Committed (sv_id r)), st')) ?st = (Inr (Committed i'), st')"
    using c by (auto simp: commitPendingReservation_def Let_def split: if_splits option.splits)
  then have st': "st_versions st' = db_update (\<lambda>v. sv_id v = i) (\<lambda>v. v\<lparr>sv_uploadSha256 := Some (sha256_hex lib canonical)\<rparr>) (st_versions ?st)" "i' = i"
    using assms(3) by (auto simp: tx_bind_def replaceStateOutputIndex_def insertStateOutputIndex_def ri)
  have "find_version i st' = map_option (\<lambda>v. v\<lparr>sv_uploadSha256 := Some (sha256_hex lib canonical)\<rparr>) (find_version i ?st)"
    by (simp add: find_version_def st' db_find_update_key option.map_comp) (auto dest!: db_find_SomeD simp: ri option.map_sel intro!: option.map_cong0)
  moreover have "find_version i ?st = Some (?f r)"
  proof -
    have "find_version i ?st = map_option (\<lambda>v. if ?p v then ?f v else v) (find_version i st)"
      by (simp add: find_version_def db_find_update_key)
    also have "\<dots> = Some (if ?p r then ?f r else r)" by (simp only: r option.map)
    finally show ?thesis using ri p by simp
  qed
  ultimately show ?thesis using st'(2) ri by simp
qed

lemma sealed_content:
  assumes "sealing lib" "\<not> isEncryptedSecret raw"
  shows "\<not> no_content (encryptStatePayload lib (Some raw))"
  using decrypt_encrypted [OF assms] by (auto simp: no_content_def isEncryptedSecret_def Let_def)

text \<open>Retried uploads: after a commit the version reads back as the uploaded document, the same upload sent
  again answers as committed without an effect, and an upload of other bytes is refused without one.\<close>

theorem upload_retry_idempotent:
  assumes "commitStateVersion lib i raw now st = (Inr (Committed i'), st')" "unique_by sv_id (st_versions st)"
    and "sealing lib" "\<not> isEncryptedSecret raw" "sl_parse lib raw \<noteq> None"
  shows "i' = i \<and>
    (\<exists>v. find_version i st' = Some v \<and> sv_status v = Sv_finalized \<and> decodeStatePayload lib (the (sv_statePayload v)) = Some raw) \<and>
    commitStateVersion lib i raw now' st' = (Inr (Already_committed i), st') \<and>
    (sha256_hex lib other \<noteq> sha256_hex lib raw \<longrightarrow>
      commitStateVersion lib i other now' st' = (Inr (Commit_conflict Content_already_uploaded), st'))"
proof -
  have d: "decodeStatePayload lib raw = Some raw" using assms(4,5) by (auto simp: decodeStatePayload_def decryptStatePayload_def)
  obtain v where v: "i' = i" "find_version i st' = Some v" "sv_id v = i" "sv_status v = Sv_finalized"
    "sv_statePayload v = encryptStatePayload lib (Some raw)" "sv_uploadSha256 v = Some (sha256_hex lib raw)"
    using committed_row_of [OF assms(1,2) d] by blast
  obtain c where c: "encryptStatePayload lib (Some raw) = Some c" using decrypt_encrypted [OF assms(3,4)] by blast
  have "decodeStatePayload lib c = Some raw" using decode_encrypted [OF assms(3,4,5) c] .
  moreover have "existingCommitResult lib v sha = Some (Some (if sha = sha256_hex lib raw then Already_committed i else Commit_conflict Content_already_uploaded))" for sha
    using v sealed_content [OF assms(3,4)] by (simp add: existingCommitResult_def)
  ultimately show ?thesis using v c
    by (simp add: commitStateVersion_def transaction_def commit_body_def Let_def)
qed

text \<open>A reservation of the empty workspace, and its upload.\<close>

definition demo_reservation :: state_version where
  "demo_reservation = \<lparr>sv_id = ''r'', sv_workspaceId = ''w'', sv_serial = 3, sv_expectedMd5 = None, sv_expectedLineage = Some ''l'',
     sv_uploadExpiresAt = Some 100, sv_uploadLock = Some (None, None, None, None), sv_uploadSha256 = None, sv_statePayload = None,
     sv_status = Sv_pending, sv_jsonState = None, sv_jsonStateOutputs = None, sv_runId = None, sv_createdBy = None,
     sv_intermediate = False, sv_softDeletedAt = None, sv_createdAt = 0\<rparr>"

definition demo_reserved :: state_store where
  "demo_reserved = demo_store\<lparr>st_versions := [demo_reservation]\<rparr>"

lemma demo_sealing: "sealing demo_lib"
  by (simp add: sealing_def demo_lib_def demo_aead_def)

lemma demo_parsed: "parseTerraformStatePayload demo_lib (Some ''s3'') = Some [(''version'', JNum (Finite 4)),
  (''serial'', JNum (Finite 3)), (''lineage'', JStr ''l''), (''resources'', JArr [])]"
  using js_safe_integer_of_int [of 3]
  by (simp add: parseTerraformStatePayload_def parseStatePayload_def)
    (simp add: demo_lib_def demo_json_def json_record_def json_keys_def json_safe_integer_def MAX_SAFE_INTEGER_def nonempty_string_def json_list_def)

lemma demo_upload_commits: "\<exists>st'. commitStateVersion demo_lib ''r'' ''s3'' 0 demo_reserved = (Inr (Committed ''r''), st')"
proof -
  have "validateReservationPayload demo_lib demo_reservation ''s3'' = Inr [(''version'', JNum (Finite 4)),
      (''serial'', JNum (Finite 3)), (''lineage'', JStr ''l''), (''resources'', JArr [])]"
    using js_safe_integer_of_int [of 3]
    by (simp add: validateReservationPayload_def demo_parsed demo_reservation_def json_safe_integer_def MAX_SAFE_INTEGER_def)
  moreover have "find_version ''r'' demo_reserved = Some demo_reservation" "st_versions demo_reserved = [demo_reservation]"
    "find_lockable ''w'' demo_reserved = Some (hd (st_workspaces demo_store))"
    "fenceStateWorkspace (hd (st_workspaces demo_store)) demo_reserved" "latest_finalized ''w'' demo_reserved = None"
    "\<not> stateReservationObsolete demo_reservation (hd (st_workspaces demo_store)) 0"
    by (simp_all add: find_version_def demo_reserved_def demo_reservation_def find_lockable_def demo_store_def fenceStateWorkspace_def
        latest_finalized_def of_workspace_def latest_of_def stateReservationObsolete_def upload_expiry_def stateUploadLock_def)
  moreover have "sv_status demo_reservation = Sv_pending" "sv_statePayload demo_reservation = None" "sv_workspaceId demo_reservation = ''w''"
    "sv_id demo_reservation = ''r''" "sv_jsonState demo_reservation = None"
    by (simp_all add: demo_reservation_def)
  ultimately show ?thesis
    by (simp add: commitStateVersion_def transaction_def commit_body_def Let_def existingCommitResult_def commitPendingReservation_def
        no_content_def stateLineageError_def tx_bind_def replaceStateOutputIndex_def insertStateOutputIndex_def)
qed

lemma upload_retry_idempotent_witness:
  "\<exists>st'. commitStateVersion demo_lib ''r'' ''s3'' 0 demo_reserved = (Inr (Committed ''r''), st') \<and>
     commitStateVersion demo_lib ''r'' ''s3'' 7 st' = (Inr (Already_committed ''r''), st')"
proof -
  obtain st' where c: "commitStateVersion demo_lib ''r'' ''s3'' 0 demo_reserved = (Inr (Committed ''r''), st')"
    using demo_upload_commits by blast
  have "unique_by sv_id (st_versions demo_reserved)" "sl_parse demo_lib ''s3'' \<noteq> None"
    by (simp_all add: unique_by_def demo_reserved_def demo_lib_def)
  with upload_retry_idempotent [OF c _ demo_sealing, of 7] show ?thesis using c by auto
qed



section \<open>Where the writers fall short\<close>

text \<open>An upload of a document in base64 is committed, but the checksum that is kept is the one of the decoded
  document: the same upload sent again is answered with a conflict.\<close>

lemma base64_retry_conflicts:
  assumes "commitStateVersion lib i raw now st = (Inr (Committed i'), st')" "unique_by sv_id (st_versions st)"
    and "sealing lib" "\<not> isEncryptedSecret raw" "decodeStatePayload lib raw = Some canonical"
    and "sha256_hex lib canonical \<noteq> sha256_hex lib raw"
  shows "commitStateVersion lib i raw now' st' = (Inr (Commit_conflict Content_already_uploaded), st')"
proof -
  obtain v where v: "find_version i st' = Some v" "sv_id v = i" "sv_status v = Sv_finalized"
    "sv_statePayload v = encryptStatePayload lib (Some raw)" "sv_uploadSha256 v = Some (sha256_hex lib canonical)"
    using committed_row_of [OF assms(1,2,5)] by blast
  then show ?thesis using sealed_content [OF assms(3,4)] assms(6)
    by (auto simp: commitStateVersion_def transaction_def commit_body_def Let_def existingCommitResult_def)
qed

lemma retry_of_taken:
  assumes "\<And>s. s = st \<Longrightarrow> fst (body s) = Inl Unique_violation"
  shows "withStateSerialRetry (\<lambda>_. id) (transaction body) st = (Inl Unique_violation, st)"
  using assms [of st] by (cases "body st") (simp add: withStateSerialRetry_def transaction_def numeral_3_eq_3)

text \<open>A taken serial blocks the upload route: when a row of the workspace, a reservation that may have
  expired or a version that was discarded, has the serial after the latest finalized one, every upload of a
  whole state is refused with 409 or 422 and changes nothing, whatever serial it carries: the route
  accepts only that serial and, unlike the other writers, removes no obsolete reservation.\<close>

theorem taken_serial_blocks_uploads:
  assumes "latest_finalized (ua_workspaceId a) st = Some l"
    and "v \<in> set (st_versions st)" "sv_workspaceId v = ua_workspaceId a" "sv_serial v = sv_serial l + 1"
  shows "\<exists>code reason. code \<in> {409, 422} \<and> upload_commit lib (\<lambda>_. id) a i now st = (Inl (Rejected code reason), st)"
proof (cases "assertUploadPreconditions lib (ua_workspaceId a) (ua_incomingSerial a) (ua_parsed a) st")
  case (Inl e)
  then have "\<exists>reason. e = Rejected 422 reason"
    by (auto simp: assertUploadPreconditions_def Let_def check_def split: option.splits if_splits)
  then obtain reason where "e = Rejected 422 reason" ..
  with Inl show ?thesis by (auto simp: upload_commit_def)
next
  case (Inr u)
  then have serial: "ua_incomingSerial a = sv_serial l + 1"
    using assms(1) by (auto simp: assertUploadPreconditions_def Let_def check_def split: if_splits)
  have taken: "list_ex (\<lambda>u. sv_id u = i \<or> sv_workspaceId u = ua_workspaceId a \<and> sv_serial u = sv_serial l + 1) (st_versions st)"
    using assms(2-4) by (auto simp: list_ex_iff)
  have "fst (commit_uploaded_body lib a i now s) = Inl Unique_violation" if "s = st" for s
    using taken assms(1) serial that by (simp add: commit_uploaded_body_def tx_bind_def insert_version_def committed_row_def)
  from retry_of_taken [OF this] show ?thesis using Inr
    by (auto simp: upload_commit_def commitUploadedState_def conflict_error_def)
qed

text \<open>In particular after the current version was deleted: the version stays as a discarded row.\<close>

definition demo_discarded :: state_store where
  "demo_discarded = snd (deleteStateVersion (demo_row ''b'' ''s4'' 4) demo_holder True demo_store2)"

lemma demo_discarded_rows: "st_versions demo_discarded = [demo_row ''a'' ''s3'' 3, demo_row ''b'' ''s4'' 4\<lparr>sv_status := Sv_discarded, sv_softDeletedAt := None\<rparr>]"
  by (simp add: demo_discarded_def deleteStateVersion_def)

lemma taken_serial_blocks_uploads_witness:
  "\<exists>code reason. code \<in> {409, 422} \<and>
     upload_commit demo_lib (\<lambda>_. id) (demo_upload ''s4'' 4) ''c'' 0 demo_discarded = (Inl (Rejected code reason), demo_discarded)"
proof (rule taken_serial_blocks_uploads)
  show "latest_finalized (ua_workspaceId (demo_upload ''s4'' 4)) demo_discarded = Some (demo_row ''a'' ''s3'' 3)"
    by (simp add: latest_finalized_def of_workspace_def demo_discarded_rows demo_upload_def latest_of_def)
  show "demo_row ''b'' ''s4'' 4\<lparr>sv_status := Sv_discarded, sv_softDeletedAt := None\<rparr> \<in> set (st_versions demo_discarded)"
    by (simp add: demo_discarded_rows)
qed (simp_all add: demo_upload_def)

text \<open>Restoring a version does not repeat its check in the update: a restore that read the version before it
  was erased makes it finalized again, without a payload, and every later state is refused because the
  lineage cannot be compared.\<close>

lemma restore_resurrects_erased:
  assumes "find_version (sv_id v) st = Some v" "sv_status v = Sv_soft_deleted"
  shows "\<exists>r. find_version (sv_id v) (snd (restoreBackingData v True (snd (permanentlyDeleteBackingData v True st)))) = Some r \<and>
    sv_status r = Sv_finalized \<and> sv_statePayload r = None \<and> stateLineageError lib (Some (sv_statePayload r)) m = Some No_payload"
proof -
  have f: "db_find (\<lambda>u. sv_id u = sv_id v) (st_versions st) = Some v" using assms(1) by (simp add: find_version_def)
  then have m: "v \<in> set (st_versions st)" by (auto dest: db_find_SomeD)
  let ?p = "\<lambda>u. sv_id u = sv_id v \<and> sv_status u = Sv_soft_deleted"
  let ?f = "\<lambda>u. u\<lparr>sv_status := Sv_permanently_deleted, sv_statePayload := None, sv_jsonState := None, sv_jsonStateOutputs := None\<rparr>"
  have "snd (permanentlyDeleteBackingData v True st) = st\<lparr>st_versions := db_update ?p ?f (st_versions st)\<rparr>"
    using assms(2) m by (auto simp: permanentlyDeleteBackingData_def Let_def db_returning_Nil_iff)
  then show ?thesis using assms(2)
    by (simp add: restoreBackingData_def find_version_def db_find_update_key f stateLineageError_def)
qed

text \<open>The upload of a whole state is the one writer that does not look at the lock again: it commits after the
  lock it was authorized with has gone to somebody else.\<close>

lemma upload_ignores_handoff:
  "commitUploadedState lib between a i now (st\<lparr>st_workspaces := ws\<rparr>) =
     map_prod id (\<lambda>s. s\<lparr>st_workspaces := ws\<rparr>) (commitUploadedState lib between a i now st)"
  if "\<And>n s. between n (s\<lparr>st_workspaces := ws\<rparr>) = (between n s)\<lparr>st_workspaces := ws\<rparr>"
proof -
  have f: "latest_finalized w (s\<lparr>st_workspaces := ws\<rparr>) = latest_finalized w s" for w s
    by (simp add: latest_finalized_def of_workspace_def)
  have b: "transaction (commit_uploaded_body lib a i now) (s\<lparr>st_workspaces := ws\<rparr>) =
      map_prod id (\<lambda>s. s\<lparr>st_workspaces := ws\<rparr>) (transaction (commit_uploaded_body lib a i now) s)" for s
    by (auto simp: transaction_def commit_uploaded_body_def Let_def f tx_bind_def insert_version_def insertStateOutputIndex_def
        append_audit_def split: option.splits)
  have "serial_attempts n between (transaction (commit_uploaded_body lib a i now)) (s\<lparr>st_workspaces := ws\<rparr>) =
      map_prod id (\<lambda>s. s\<lparr>st_workspaces := ws\<rparr>) (serial_attempts n between (transaction (commit_uploaded_body lib a i now)) s)" for n s
  proof (induction n arbitrary: s)
    case (Suc n)
    show ?case
      by (cases "transaction (commit_uploaded_body lib a i now) s"; cases "fst (transaction (commit_uploaded_body lib a i now) s)")
        (auto simp: b Suc that split: sv_error.split)
  qed simp
  then show ?thesis by (simp add: commitUploadedState_def withStateSerialRetry_def prod.map_comp comp_def)
qed

end
