(* ===== verification/RetentionSafety.thy ===== *)
theory RetentionSafety imports StateSafety begin

text \<open>
  What a retention run keeps and what it may remove: the current state, the configuration versions of
  runs in progress and these runs stay, and rows disappear only after their grace period.
\<close>

section \<open>The tables after a run\<close>

definition soft_ids :: "string \<Rightarrow> int \<Rightarrow> gc_db \<Rightarrow> string list" where
  "soft_ids w now db = (let c = fetchGcCollections w db in case fst (loadRetentionPolicy w db) of
     None \<Rightarrow> []
   | Some p \<Rightarrow> collectStateVersionIdsToSoftDelete (gc_finalizedVersions c) p (current_id (gc_finalizedVersions c)) (getRetentionCutoff (Some p) now))"

definition retained_runs :: "string \<Rightarrow> int \<Rightarrow> gc_db \<Rightarrow> retained_run list" where
  "retained_runs w cutoff db = snd (snd (fst (purgeStaleRuns (\<lambda>_. False) (gc_workspaceRuns (fetchGcCollections w db)) cutoff (gd_runs db))))"

lemma retained_runs_any:
  "snd (snd (fst (purgeStaleRuns f (gc_workspaceRuns (fetchGcCollections w db)) cutoff (gd_runs db)))) = retained_runs w cutoff db"
  by (simp add: retained_runs_def purgeStaleRuns_def Let_def)

definition config_ids :: "string \<Rightarrow> int \<Rightarrow> int \<Rightarrow> gc_db \<Rightarrow> string list" where
  "config_ids w cutoff now db = (case fst (loadRetentionPolicy w db) of
     None \<Rightarrow> []
   | Some p \<Rightarrow> collectConfigurationVersionIds (gc_retainedConfigurationVersions (fetchGcCollections w db)) (retained_runs w cutoff db)
       (getRetentionCutoff (Some p) now))"

lemma soft_delete_none: "softDeleteStateVersions [] now st = st" "softDeleteConfigurationVersions [] now t = t"
  by (simp_all add: softDeleteStateVersions_def softDeleteConfigurationVersions_def db_update_id)

lemma archive_tables:
  "gd_store (snd (archiveAndDeleteExpiredRuns archive ids now db)) = gd_store db"
  "gd_configs (snd (archiveAndDeleteExpiredRuns archive ids now db)) = gd_configs db"
  by (simp_all add: archiveAndDeleteExpiredRuns_def)

lemma gc_tables:
  assumes "applyDataRetentionGarbageCollection graceDays removed deletedLog archive w now grace db = (summary, db')"
  shows "gd_store db' = softDeleteStateVersions (soft_ids w now db) now
      (stampPendingSoftDeletedStateVersions (gc_softDeletedVersions (fetchGcCollections w db)) now
        (snd (purgeStaleStateVersions (gc_softDeletedVersions (fetchGcCollections w db)) (getGraceCutoff graceDays now grace) (gd_store db))))"
    and "gd_configs db' = softDeleteConfigurationVersions (config_ids w (getGraceCutoff graceDays now grace) now db) now
      (stampPendingSoftDeletedConfigurationVersions (gc_softDeletedConfigurationVersions (fetchGcCollections w db)) now
        (snd (purgeStaleConfigurationVersions removed (gc_softDeletedConfigurationVersions (fetchGcCollections w db))
          (getGraceCutoff graceDays now grace) (gd_configs db))))"
    and "\<exists>ids. list_all (\<lambda>i. \<exists>r \<in> set (gc_workspaceRuns (fetchGcCollections w db)). rr_id r = i \<and> rr_status r \<in> set FINAL_RUN_STATUSES) ids \<and>
      gd_runs db' = db_update (\<lambda>r. rr_id r \<in> set ids) (\<lambda>r. r\<lparr>rr_softDeletedAt := Some now, rr_logToken := None\<rparr>)
        (snd (purgeStaleRuns deletedLog (gc_workspaceRuns (fetchGcCollections w db)) (getGraceCutoff graceDays now grace) (gd_runs db)))"
proof -
  let ?c = "fetchGcCollections w db" and ?cut = "getGraceCutoff graceDays now grace"
  obtain policy source where pol: "loadRetentionPolicy w db = (policy, source)" by (cases "loadRetentionPolicy w db")
  obtain sc st1 where p1: "purgeStaleStateVersions (gc_softDeletedVersions ?c) ?cut (gd_store db) = (sc, st1)"
    by (cases "purgeStaleStateVersions (gc_softDeletedVersions ?c) ?cut (gd_store db)")
  obtain cc ar cs1 where p2: "purgeStaleConfigurationVersions removed (gc_softDeletedConfigurationVersions ?c) ?cut (gd_configs db) = ((cc, ar), cs1)"
    by (cases "purgeStaleConfigurationVersions removed (gc_softDeletedConfigurationVersions ?c) ?cut (gd_configs db)") auto
  obtain rc ra rr rs1 where p3: "purgeStaleRuns deletedLog (gc_workspaceRuns ?c) ?cut (gd_runs db) = ((rc, ra, rr), rs1)"
    by (cases "purgeStaleRuns deletedLog (gc_workspaceRuns ?c) ?cut (gd_runs db)") auto
  have rr: "rr = retained_runs w ?cut db" using retained_runs_any [of deletedLog w db ?cut] by (simp add: p3)
  let ?db1 = "db\<lparr>gd_store := stampPendingSoftDeletedStateVersions (gc_softDeletedVersions ?c) now st1,
    gd_configs := stampPendingSoftDeletedConfigurationVersions (gc_softDeletedConfigurationVersions ?c) now cs1, gd_runs := rs1\<rparr>"
  have db': "db' = (case policy of None \<Rightarrow> ?db1 | Some p \<Rightarrow> snd (applyRetentionPolicy archive ?c p now rr ?db1))"
    using assms by (auto simp: applyDataRetentionGarbageCollection_def Let_def pol p1 p2 p3 split: option.splits prod.splits)
  have a: "snd (applyRetentionPolicy archive ?c p now rr ?db1) = snd (archiveAndDeleteExpiredRuns archive (collectExpiredRunIds rr (getRetentionCutoff (Some p) now)) now
      (?db1\<lparr>gd_store := softDeleteStateVersions (collectStateVersionIdsToSoftDelete (gc_finalizedVersions ?c) p (current_id (gc_finalizedVersions ?c))
          (getRetentionCutoff (Some p) now)) now (gd_store ?db1),
        gd_configs := softDeleteConfigurationVersions (collectConfigurationVersionIds (gc_retainedConfigurationVersions ?c) rr
          (getRetentionCutoff (Some p) now)) now (gd_configs ?db1)\<rparr>))" for p
    by (auto simp: applyRetentionPolicy_def Let_def split: prod.splits option.splits)
  show "gd_store db' = softDeleteStateVersions (soft_ids w now db) now
      (stampPendingSoftDeletedStateVersions (gc_softDeletedVersions ?c) now
        (snd (purgeStaleStateVersions (gc_softDeletedVersions ?c) ?cut (gd_store db))))"
    by (cases policy) (simp_all add: db' a archive_tables soft_ids_def pol p1 soft_delete_none Let_def)
  show "gd_configs db' = softDeleteConfigurationVersions (config_ids w ?cut now db) now
      (stampPendingSoftDeletedConfigurationVersions (gc_softDeletedConfigurationVersions ?c) now
        (snd (purgeStaleConfigurationVersions removed (gc_softDeletedConfigurationVersions ?c) ?cut (gd_configs db))))"
    by (cases policy) (simp_all add: db' a [unfolded rr] archive_tables config_ids_def pol p2 soft_delete_none rr)
  have e: "list_all (\<lambda>i. \<exists>r \<in> set (gc_workspaceRuns ?c). rr_id r = i \<and> rr_status r \<in> set FINAL_RUN_STATUSES) (collectExpiredRunIds rr cutoff)" for cutoff
    using p3 by (auto simp: collectExpiredRunIds_def purgeStaleRuns_def Let_def list_all_iff split: option.splits)
  have none: "rs1 = db_update (\<lambda>r. rr_id r \<in> set []) f rs1" for f by (simp add: db_update_id)
  show "\<exists>ids. list_all (\<lambda>i. \<exists>r \<in> set (gc_workspaceRuns ?c). rr_id r = i \<and> rr_status r \<in> set FINAL_RUN_STATUSES) ids \<and>
      gd_runs db' = db_update (\<lambda>r. rr_id r \<in> set ids) (\<lambda>r. r\<lparr>rr_softDeletedAt := Some now, rr_logToken := None\<rparr>)
        (snd (purgeStaleRuns deletedLog (gc_workspaceRuns ?c) ?cut (gd_runs db)))"
  proof (cases policy)
    case None
    then show ?thesis using none by (intro exI [of _ "[]"]) (simp add: db' p3)
  next
    case (Some p)
    let ?ids = "collectExpiredRunIds rr (getRetentionCutoff (Some p) now)"
    show ?thesis
    proof (cases "list_ex (\<lambda>i. archive i = None) ?ids")
      case True
      then show ?thesis using none by (intro exI [of _ "[]"]) (simp add: db' Some a p3 archiveAndDeleteExpiredRuns_def)
    next
      case False
      then show ?thesis using e by (intro exI [of _ ?ids]) (simp add: db' Some a p3 archiveAndDeleteExpiredRuns_def)
    qed
  qed
qed


section \<open>State versions\<close>

lemma find_first_greatest:
  "sorted_wrt (\<lambda>a b. sv_serial b - sv_serial a \<le> 0) vs \<Longrightarrow> List.find P vs = Some v \<Longrightarrow> u \<in> set vs \<Longrightarrow> P u \<Longrightarrow> sv_serial u \<le> sv_serial v"
  by (induction vs) (auto split: if_splits)

lemma soft_ids_spare_current:
  assumes "history_ok (st_versions (gd_store db))" "current_version w (gd_store db) = Some v"
  shows "sv_id v \<notin> set (soft_ids w now db)"
proof -
  let ?fin = "gc_finalizedVersions (fetchGcCollections w db)"
  have set: "set ?fin = {u \<in> set (st_versions (gd_store db)). sv_workspaceId u = w \<and> sv_status u = Sv_finalized}"
    by (auto simp: fetchGcCollections_def)
  have v: "v \<in> set ?fin" "\<not> sv_intermediate v" "\<And>u. u \<in> set ?fin \<Longrightarrow> \<not> sv_intermediate u \<Longrightarrow> sv_serial u \<le> sv_serial v"
    using latest_of_SomeD [OF assms(2) [unfolded current_version_def]] by (auto simp: set of_workspace_def)
  obtain u where u: "List.find (\<lambda>v. \<not> sv_intermediate v) ?fin = Some u"
    using v by (cases "List.find (\<lambda>v. \<not> sv_intermediate v) ?fin") (auto simp: find_None_iff)
  then have m: "u \<in> set ?fin" "\<not> sv_intermediate u" by (auto simp: find_Some_iff)
  have "sorted_wrt (\<lambda>a b. sv_serial b - sv_serial a \<le> 0) ?fin"
    using by_serial.sorted_js_sort by (auto simp: fetchGcCollections_def)
  from find_first_greatest [OF this u v(1)] v(2,3) m have "sv_serial u = sv_serial v" by force
  then have "u = v" using m v(1) assms(1) by (auto simp: set history_ok_def dest: unique_byD)
  then have "current_id ?fin = Some (sv_id v)" using u by (simp add: current_id_def)
  then show ?thesis
    by (auto simp: soft_ids_def Let_def collectStateVersionIdsToSoftDelete_def addCountBasedStateVersions_def addCutoffBasedStateVersions_def
        split: option.splits if_splits)
qed

lemma finalized_after:
  assumes "history_ok (st_versions st)" "set soft \<subseteq> {u \<in> set (st_versions st). sv_status u = Sv_soft_deleted}"
    and "u \<in> set (st_versions (softDeleteStateVersions ids now (stampPendingSoftDeletedStateVersions soft now (snd (purgeStaleStateVersions soft cutoff st)))))"
      "sv_status u = Sv_finalized"
  shows "u \<in> set (st_versions st) \<and> sv_id u \<notin> set ids"
proof -
  let ?st1 = "snd (purgeStaleStateVersions soft cutoff st)"
  let ?st2 = "stampPendingSoftDeletedStateVersions soft now ?st1"
  have two: "u \<in> set (st_versions ?st2)" "sv_id u \<notin> set ids"
    using assms(3,4) by (auto simp: softDeleteStateVersions_def set_db_update)
  have one: "x \<in> set (st_versions st)" if "x \<in> set (st_versions ?st1)" for x
    using that by (auto simp: purgeStaleStateVersions_def delete_versions_def Let_def)
  have "u \<in> set (st_versions ?st1)"
  proof (rule ccontr)
    assume "u \<notin> set (st_versions ?st1)"
    then obtain x q where x: "x \<in> set (st_versions ?st1)" "q \<in> set soft" "sv_id q = sv_id x" "u = x\<lparr>sv_softDeletedAt := Some now\<rparr>"
      using two(1) by (auto simp: stampPendingSoftDeletedStateVersions_def Let_def set_db_update)
    then have "q = x" using one assms(1,2) by (auto simp: history_ok_def dest: unique_byD)
    then show False using x assms(2,4) by auto
  qed
  then show ?thesis using one two(2) by simp
qed

lemma current_stays:
  assumes "history_ok (st_versions st)" "set soft \<subseteq> {u \<in> set (st_versions st). sv_status u = Sv_soft_deleted}"
    and "\<And>v. current_version w st = Some v \<Longrightarrow> sv_id v \<notin> set ids"
    and st': "st' = softDeleteStateVersions ids now (stampPendingSoftDeletedStateVersions soft now (snd (purgeStaleStateVersions soft cutoff st)))"
  shows "current_version w st' = current_version w st"
proof (cases "current_version w st")
  case None
  then have none: "\<not> (sv_workspaceId u = w \<and> sv_status u = Sv_finalized \<and> \<not> sv_intermediate u)" if "u \<in> set (st_versions st)" for u
    using that by (auto simp: current_version_def of_workspace_def filter_empty_conv)
  have "\<not> (sv_workspaceId u = w \<and> sv_status u = Sv_finalized \<and> \<not> sv_intermediate u)" if "u \<in> set (st_versions st')" for u
    using finalized_after [OF assms(1,2) that [unfolded st']] none by blast
  then have "current_version w st' = None" by (auto simp: current_version_def of_workspace_def filter_empty_conv)
  with None show ?thesis by simp
next
  case (Some v)
  have v: "v \<in> set (st_versions st)" "sv_workspaceId v = w" "sv_status v = Sv_finalized" "\<not> sv_intermediate v"
    "\<And>u. u \<in> set (st_versions st) \<Longrightarrow> sv_workspaceId u = w \<Longrightarrow> sv_status u = Sv_finalized \<Longrightarrow> \<not> sv_intermediate u \<Longrightarrow> sv_serial u \<le> sv_serial v"
    using latest_of_SomeD [OF Some [unfolded current_version_def]] by (auto simp: of_workspace_def)
  have kept: "sv_id v \<notin> sv_id ` set soft"
  proof
    assume "sv_id v \<in> sv_id ` set soft"
    then obtain x where x: "x \<in> set soft" "sv_id x = sv_id v" by auto
    then have "x = v" using v(1) assms(1,2) unique_byD [of sv_id "st_versions st" x v] by (auto simp: history_ok_def)
    with x v(3) assms(2) show False by auto
  qed
  have "v \<in> set (st_versions st')"
    using v(1) kept assms(3) [OF Some]
    by (auto simp: st' softDeleteStateVersions_def stampPendingSoftDeletedStateVersions_def purgeStaleStateVersions_def delete_versions_def
        Let_def set_db_update)
  moreover have "sv_serial u < sv_serial v" if u: "u \<in> set (st_versions st')" "sv_workspaceId u = w" "sv_status u = Sv_finalized" "\<not> sv_intermediate u" "u \<noteq> v" for u
  proof -
    have m: "u \<in> set (st_versions st)" using finalized_after [OF assms(1,2) u(1) [unfolded st'] u(3)] by simp
    then have "sv_serial u \<le> sv_serial v" using v(5) u(2-4) by simp
    moreover have "sv_serial u \<noteq> sv_serial v" using m u(2,5) v(1,2) assms(1) by (auto simp: history_ok_def dest: unique_byD)
    ultimately show ?thesis by simp
  qed
  ultimately have "current_version w st' = Some v" unfolding current_version_def of_workspace_def
    by (intro latest_of_eqI) (auto simp: v)
  with Some show ?thesis by simp
qed



section \<open>Configuration versions and runs\<close>

lemma untouched: "r \<in> set t \<Longrightarrow> \<not> p r \<Longrightarrow> r \<in> set (db_update p f t)"
  by (simp add: set_db_update)

text \<open>The state versions, runs and configuration versions one collection keeps.\<close>

lemma versions_kept:
  assumes "history_ok (st_versions (gd_store db))" "v \<in> set (st_versions (gd_store db))"
    and "applyDataRetentionGarbageCollection graceDays removed deletedLog archive w now grace db = (summary, db')"
  shows "sv_id v \<in> sv_id ` set (st_versions (gd_store db')) \<or>
    sv_status v = Sv_soft_deleted \<and> graced (sv_softDeletedAt v) (getGraceCutoff graceDays now grace)"
proof (cases "\<exists>x \<in> set (gc_softDeletedVersions (fetchGcCollections w db)). graced (sv_softDeletedAt x) (getGraceCutoff graceDays now grace) \<and> sv_id x = sv_id v")
  case True
  then show ?thesis using assms(1,2) by (auto simp: fetchGcCollections_def history_ok_def dest: unique_byD)
next
  case False
  have u: "sv_id ` set (db_update p f t) = sv_id ` set t" if "\<And>v. sv_id (f v) = sv_id v" for p f and t :: "state_version table"
    by (metis (no_types, lifting) list.set_map map_db_update_same that)
  have "v \<in> set (st_versions (snd (purgeStaleStateVersions (gc_softDeletedVersions (fetchGcCollections w db))
      (getGraceCutoff graceDays now grace) (gd_store db))))"
    using assms(2) False by (auto simp: purgeStaleStateVersions_def delete_versions_def Let_def)
  then show ?thesis unfolding gc_tables(1) [OF assms(3)]
    by (simp add: softDeleteStateVersions_def stampPendingSoftDeletedStateVersions_def Let_def u)
qed

lemma unfinished_runs_kept:
  assumes "unique_by rr_id (gd_runs db)" "r \<in> set (gd_runs db)" "rr_status r \<notin> set FINAL_RUN_STATUSES"
    and "applyDataRetentionGarbageCollection graceDays removed deletedLog archive w now grace db = (summary, db')"
  shows "r \<in> set (gd_runs db')"
proof -
  let ?c = "fetchGcCollections w db"
  have other: "rr_id x \<noteq> rr_id r" if "x \<in> set (gc_workspaceRuns ?c)" "rr_status x \<in> set FINAL_RUN_STATUSES" for x
    using that assms(1-3) by (auto simp: fetchGcCollections_def dest: unique_byD)
  have "r \<in> set (snd (purgeStaleRuns deletedLog (gc_workspaceRuns ?c) (getGraceCutoff graceDays now grace) (gd_runs db)))"
    using assms(2) by (simp add: purgeStaleRuns_def Let_def image_iff) (metis other)
  with gc_tables(3) [OF assms(4)] other show ?thesis by (fastforce simp: set_db_update list_all_iff)
qed

lemma protected_configurations_kept:
  assumes "unique_by cv_id (gd_configs db)" "c \<in> set (gd_configs db)" "cv_status c \<noteq> ''backing_data_soft_deleted''"
    and "cv_id c \<in> set (buildProtectedConfigurationIds (gc_retainedConfigurationVersions (fetchGcCollections w db))
      (retained_runs w (getGraceCutoff graceDays now grace) db))"
    and "applyDataRetentionGarbageCollection graceDays removed deletedLog archive w now grace db = (summary, db')"
  shows "c \<in> set (gd_configs db')"
proof -
  have "cv_id c \<notin> set (config_ids w (getGraceCutoff graceDays now grace) now db)"
    using assms(4) by (auto simp: config_ids_def collectConfigurationVersionIds_def split: option.splits)
  moreover have "cv_id c \<notin> cv_id ` {x \<in> set (gc_softDeletedConfigurationVersions (fetchGcCollections w db)). P x}" for P
    using assms(1-3) by (auto simp: fetchGcCollections_def dest: unique_byD)
  ultimately show ?thesis using assms(2) unfolding gc_tables(2) [OF assms(5)]
    by (simp add: softDeleteConfigurationVersions_def stampPendingSoftDeletedConfigurationVersions_def purgeStaleConfigurationVersions_def
        Let_def untouched)
qed

lemma protected_configurations:
  "gc_retainedConfigurationVersions (fetchGcCollections w db) = c # cs \<Longrightarrow>
   c \<in> set (gd_configs db) \<and> cv_status c \<noteq> ''backing_data_soft_deleted'' \<and>
   cv_id c \<in> set (buildProtectedConfigurationIds (gc_retainedConfigurationVersions (fetchGcCollections w db)) rs)"
  "r \<in> set (gd_runs db) \<Longrightarrow> rr_status r \<notin> set FINAL_RUN_STATUSES \<Longrightarrow> rr_workspaceId r = w \<Longrightarrow> unique_by rr_id (gd_runs db) \<Longrightarrow>
   rr_configurationVersionId r = Some i \<Longrightarrow> i \<in> set (buildProtectedConfigurationIds ms (retained_runs w cutoff db))"
proof -
  assume h: "gc_retainedConfigurationVersions (fetchGcCollections w db) = c # cs"
  then have "c \<in> set (gc_retainedConfigurationVersions (fetchGcCollections w db))" by simp
  then have "c \<in> set (gd_configs db)" "cv_status c \<noteq> ''backing_data_soft_deleted''" by (auto simp: fetchGcCollections_def)
  with h show "c \<in> set (gd_configs db) \<and> cv_status c \<noteq> ''backing_data_soft_deleted'' \<and>
      cv_id c \<in> set (buildProtectedConfigurationIds (gc_retainedConfigurationVersions (fetchGcCollections w db)) rs)"
    by (simp add: buildProtectedConfigurationIds_def)
next
  assume r: "r \<in> set (gd_runs db)" "rr_status r \<notin> set FINAL_RUN_STATUSES" "rr_workspaceId r = w" "unique_by rr_id (gd_runs db)"
    "rr_configurationVersionId r = Some i"
  then have "r \<in> set (retained_runs w cutoff db)"
    by (auto simp: retained_runs_def purgeStaleRuns_def Let_def fetchGcCollections_def dest: unique_byD)
  with r show "i \<in> set (buildProtectedConfigurationIds ms (retained_runs w cutoff db))"
    by (force simp: buildProtectedConfigurationIds_def List.map_filter_def)
qed


definition demo_gc :: gc_db where
  "demo_gc = \<lparr>gd_store = demo_store2, gd_configs = [], gd_runs = [], gd_logs = [],
     gd_workspacePolicies = [(''w'', \<lparr>rp_stateVersionsCount = Some 1, rp_deleteOlderThanNDays = None\<rparr>)], gd_organizationPolicies = []\<rparr>"


text \<open>Logs go only when every log of the expired runs was archived.\<close>

lemma logs_deleted_after_archive:
  "archiveAndDeleteExpiredRuns archive ids now db = (result, db') \<Longrightarrow> l \<in> set (gd_logs db) \<Longrightarrow> l \<notin> set (gd_logs db') \<Longrightarrow>
   result \<noteq> None \<and> snd l \<in> set ids \<and> (\<forall>i \<in> set ids. archive i \<noteq> None)"
  by (auto simp: archiveAndDeleteExpiredRuns_def list_ex_iff split: if_splits)

end
