(* ===== verification/Idempotency.thy ===== *)
theory Idempotency imports Outbox begin

text \<open>
  Idempotency keys of the API (\<open>lib/idempotency.ts\<close>): the key of a request is reserved before the operation
  runs, its response is stored with the key and replayed, and a key expires after a day. The statements
  of \<open>beginIdempotency\<close> interleave with those of other requests; the unique index over scope and key decides.
\<close>

section \<open>Keys\<close>

definition IDEMPOTENCY_RETENTION_MS :: int where "IDEMPOTENCY_RETENTION_MS = 24 * 60 * 60 * 1000"
definition IDEMPOTENCY_KEY_MAX_LENGTH :: nat where "IDEMPOTENCY_KEY_MAX_LENGTH = 255"

record idem_context =
  ic_key :: string
  ic_scope :: string
  ic_principal :: string
  ic_requestHash :: string

record 'b idem_row =
  ik_id :: string
  ik_scope :: string
  ik_key :: string
  ik_principal :: string
  ik_requestHash :: string
  ik_resourceType :: string
  ik_resourceId :: "string option"
  ik_status :: string
  ik_responseStatus :: "int option"
  ik_responseBody :: "'b option"
  ik_createdAt :: int
  ik_expiresAt :: int
  ik_completedAt :: "int option"

datatype 'b idem_begin =
  Idem_none
| Idem_reserved string
| Idem_replay int 'b "string option"
| Idem_error nat string "nat option"

text \<open>\<open>hash\<close> is the SHA-256 of the canonical JSON text.\<close>

definition idempotencyHash :: "(json \<Rightarrow> string) \<Rightarrow> json \<Rightarrow> string" where
  "idempotencyHash hash value = hash (canonical value)"

definition named :: "string option \<Rightarrow> bool" where
  "named i \<longleftrightarrow> i \<noteq> None \<and> i \<noteq> Some []"

definition idempotencyPrincipal :: "string option \<Rightarrow> string option \<Rightarrow> string option \<Rightarrow> string option \<Rightarrow> string" where
  "idempotencyPrincipal userId teamId orgId runId =
    (if named userId then ''user:'' @ the userId
     else if named teamId then ''team:'' @ the teamId
     else if named orgId then ''organization:'' @ the orgId
     else if named runId then ''run:'' @ the runId
     else ''anonymous'')"

text \<open>The header; \<open>Inl ()\<close> is the answer 400, \<open>Inr None\<close> a request without a key.\<close>

definition idempotencyContext ::
  "(json \<Rightarrow> string) \<Rightarrow> string option \<Rightarrow> string \<Rightarrow> string \<Rightarrow> json \<Rightarrow> unit + idem_context option" where
  "idempotencyContext hash header scope caller body = (case header of
     None \<Rightarrow> Inr None
   | Some raw \<Rightarrow>
       (let key = js_trim raw in
        if key = [] \<or> IDEMPOTENCY_KEY_MAX_LENGTH < length key \<or> list_ex (\<lambda>c. ord_of c \<in> {10, 13}) key then Inl ()
        else Inr (Some \<lparr>ic_key = key, ic_scope = scope, ic_principal = caller, ic_requestHash = idempotencyHash hash body\<rparr>)))"


section \<open>Reserving, replaying and completing\<close>

definition idem_at :: "idem_context \<Rightarrow> 'b idem_row \<Rightarrow> bool" where
  "idem_at c r \<longleftrightarrow> ik_scope r = ic_scope c \<and> ik_key r = ic_key c"

definition idem_purge :: "idem_context \<Rightarrow> int \<Rightarrow> 'b idem_row table \<Rightarrow> 'b idem_row table" where
  "idem_purge c now t = db_delete (\<lambda>r. idem_at c r \<and> ik_expiresAt r < now) t"

definition idem_row_of :: "idem_context \<Rightarrow> string \<Rightarrow> string \<Rightarrow> int \<Rightarrow> 'b idem_row" where
  "idem_row_of c resourceType i now = \<lparr>ik_id = i, ik_scope = ic_scope c, ik_key = ic_key c, ik_principal = ic_principal c,
     ik_requestHash = ic_requestHash c, ik_resourceType = resourceType, ik_resourceId = None, ik_status = ''pending'',
     ik_responseStatus = None, ik_responseBody = None, ik_createdAt = now, ik_expiresAt = now + IDEMPOTENCY_RETENTION_MS,
     ik_completedAt = None\<rparr>"

text \<open>The insertion; \<open>None\<close> is the unique violation.\<close>

definition idem_insert :: "'b idem_row \<Rightarrow> 'b idem_row table \<Rightarrow> 'b idem_row table option" where
  "idem_insert r t = (if list_ex (\<lambda>s. ik_id s = ik_id r \<or> ik_scope s = ik_scope r \<and> ik_key s = ik_key r) t then None else Some (t @ [r]))"

definition idem_answer :: "idem_context \<Rightarrow> string \<Rightarrow> 'b idem_row option \<Rightarrow> 'b idem_begin" where
  "idem_answer c resourceType existing = (case existing of
     None \<Rightarrow> Idem_error 409 ''The idempotency key could not be reserved'' None
   | Some r \<Rightarrow>
       if ik_principal r \<noteq> ic_principal c \<or> ik_requestHash r \<noteq> ic_requestHash c \<or> ik_resourceType r \<noteq> resourceType
       then Idem_error 409 ''Idempotency-Key was already used with a different principal, resource, or request body'' None
       else (case (ik_responseStatus r, ik_responseBody r) of
           (Some status, Some body) \<Rightarrow>
             if ik_status r = ''completed'' then Idem_replay status body (ik_resourceId r)
             else Idem_error 409 ''An operation with this Idempotency-Key is already in progress'' (Some 1)
         | _ \<Rightarrow> Idem_error 409 ''An operation with this Idempotency-Key is already in progress'' (Some 1)))"

text \<open>\<open>between\<close> is what other requests do before the insertion and before the second read.\<close>

definition beginIdempotency ::
  "(nat \<Rightarrow> 'b idem_row table \<Rightarrow> 'b idem_row table) \<Rightarrow> idem_context option \<Rightarrow> string \<Rightarrow> string \<Rightarrow> int \<Rightarrow>
   'b idem_row table \<Rightarrow> 'b idem_begin \<times> 'b idem_row table" where
  "beginIdempotency between context resourceType i now t = (case context of
     None \<Rightarrow> (Idem_none, t)
   | Some c \<Rightarrow>
       (let t0 = between 0 (idem_purge c now t) in
        case db_find (idem_at c) t0 of
          Some r \<Rightarrow> (idem_answer c resourceType (Some r), t0)
        | None \<Rightarrow>
            (let t1 = between 1 t0 in
             case idem_insert (idem_row_of c resourceType i now) t1 of
               Some t2 \<Rightarrow> (Idem_reserved i, t2)
             | None \<Rightarrow> (let t2 = between 2 t1 in (idem_answer c resourceType (db_find (idem_at c) t2), t2)))))"

definition abandonIdempotency :: "string \<Rightarrow> 'b idem_row table \<Rightarrow> 'b idem_row table" where
  "abandonIdempotency i t = db_delete (\<lambda>r. ik_id r = i) t"

definition completeIdempotency :: "string \<Rightarrow> int \<Rightarrow> 'b \<Rightarrow> string option \<Rightarrow> int \<Rightarrow> 'b idem_row table \<Rightarrow> 'b idem_row table" where
  "completeIdempotency i status body resourceId now t = db_update (\<lambda>r. ik_id r = i)
     (\<lambda>r. r\<lparr>ik_status := ''completed'', ik_responseStatus := Some status, ik_responseBody := Some body,
        ik_resourceId := resourceId, ik_completedAt := Some now\<rparr>) t"


section \<open>Requests that interleave\<close>

text \<open>
  The statements of all requests as steps. A caller reads the clock at most once before its statements, so
  the time it uses may be earlier than the clock. The history records who reserved a key, with the time
  the row carries and the clock at the insertion, and what was completed.
\<close>

record reservation =
  rv_id :: string
  rv_context :: idem_context
  rv_type :: string
  rv_createdAt :: int
  rv_clock :: int

record 'b idem_world =
  iw_clock :: int
  iw_rows :: "'b idem_row table"
  iw_reserved :: "reservation list"
  iw_abandoned :: "string list"
  iw_completed :: "(string \<times> int \<times> 'b \<times> string option) list"

inductive idem_step :: "'b idem_world \<Rightarrow> 'b idem_world \<Rightarrow> bool" where
  is_tick: "iw_clock w \<le> now \<Longrightarrow> idem_step w (w\<lparr>iw_clock := now\<rparr>)"
| is_purge: "now \<le> iw_clock w \<Longrightarrow> idem_step w (w\<lparr>iw_rows := idem_purge c now (iw_rows w)\<rparr>)"
| is_reserve: "now \<le> iw_clock w \<Longrightarrow> list_all (\<lambda>v. rv_id v \<noteq> i) (iw_reserved w) \<Longrightarrow>
    idem_insert (idem_row_of c typ i now) (iw_rows w) = Some t \<Longrightarrow>
    idem_step w (w\<lparr>iw_rows := t,
      iw_reserved := \<lparr>rv_id = i, rv_context = c, rv_type = typ, rv_createdAt = now, rv_clock = iw_clock w\<rparr> # iw_reserved w\<rparr>)"
| is_abandon: "idem_step w (w\<lparr>iw_rows := abandonIdempotency i (iw_rows w), iw_abandoned := i # iw_abandoned w\<rparr>)"
| is_complete: "idem_step w (w\<lparr>iw_rows := completeIdempotency i status body res now (iw_rows w),
    iw_completed := (i, status, body, res) # iw_completed w\<rparr>)"

definition idem_start :: "'b idem_world \<Rightarrow> bool" where
  "idem_start w \<longleftrightarrow> iw_rows w = [] \<and> iw_reserved w = [] \<and> iw_abandoned w = [] \<and> iw_completed w = []"

definition same_key :: "idem_context \<Rightarrow> idem_context \<Rightarrow> bool" where
  "same_key a b \<longleftrightarrow> ic_scope a = ic_scope b \<and> ic_key a = ic_key b"

text \<open>Every row has its reservation and, once completed, its completion; a reservation without a row was
  abandoned or has expired; reservations of one key are apart.\<close>

definition row_recorded :: "'b idem_world \<Rightarrow> 'b idem_row \<Rightarrow> bool" where
  "row_recorded w r \<longleftrightarrow> (\<exists>v \<in> set (iw_reserved w). rv_id v = ik_id r \<and> idem_at (rv_context v) r \<and>
     ik_principal r = ic_principal (rv_context v) \<and> ik_requestHash r = ic_requestHash (rv_context v) \<and> ik_resourceType r = rv_type v \<and>
     ik_expiresAt r = rv_createdAt v + IDEMPOTENCY_RETENTION_MS) \<and>
     (\<forall>status body. ik_responseStatus r = Some status \<and> ik_responseBody r = Some body \<longrightarrow>
        (ik_id r, status, body, ik_resourceId r) \<in> set (iw_completed w))"

definition over :: "'b idem_world \<Rightarrow> reservation \<Rightarrow> bool" where
  "over w v \<longleftrightarrow> rv_id v \<in> set (iw_abandoned w) \<or> rv_createdAt v + IDEMPOTENCY_RETENTION_MS < iw_clock w"

fun apart :: "string list \<Rightarrow> reservation list \<Rightarrow> bool" where
  "apart gone [] = True"
| "apart gone (v # vs) = ((\<forall>u \<in> set vs. same_key (rv_context u) (rv_context v) \<longrightarrow>
     rv_id u \<in> set gone \<or> rv_createdAt u + IDEMPOTENCY_RETENTION_MS < rv_clock v) \<and> apart gone vs)"

definition idem_valid :: "'b idem_world \<Rightarrow> bool" where
  "idem_valid w \<longleftrightarrow> (\<forall>r \<in> set (iw_rows w). row_recorded w r) \<and>
     (\<forall>v \<in> set (iw_reserved w). over w v \<or> (\<exists>r \<in> set (iw_rows w). ik_id r = rv_id v \<and> idem_at (rv_context v) r)) \<and>
     unique_by rv_id (iw_reserved w) \<and> apart (iw_abandoned w) (iw_reserved w)"



section \<open>A key runs one operation\<close>

lemma apart_mono: "apart gone vs \<Longrightarrow> set gone \<subseteq> set gone' \<Longrightarrow> apart gone' vs"
  by (induction vs) auto

lemma apart_pair:
  "apart gone vs \<Longrightarrow> u \<in> set vs \<Longrightarrow> v \<in> set vs \<Longrightarrow> u \<noteq> v \<Longrightarrow> same_key (rv_context u) (rv_context v) \<Longrightarrow>
   (rv_id u \<in> set gone \<or> rv_createdAt u + IDEMPOTENCY_RETENTION_MS < rv_clock v) \<or>
   (rv_id v \<in> set gone \<or> rv_createdAt v + IDEMPOTENCY_RETENTION_MS < rv_clock u)"
proof (induction vs)
  case (Cons x vs)
  have sym: "same_key a b \<Longrightarrow> same_key b a" for a b by (simp add: same_key_def)
  consider "u = x" "v \<in> set vs" | "v = x" "u \<in> set vs" | "u \<in> set vs" "v \<in> set vs" using Cons.prems by auto
  then show ?case
  proof cases
    case 3
    then show ?thesis using Cons by simp
  qed (use Cons.prems sym in auto)
qed simp

lemma recorded_cong:
  "row_recorded w r \<Longrightarrow> set (iw_reserved w) \<subseteq> set (iw_reserved w') \<Longrightarrow> set (iw_completed w) \<subseteq> set (iw_completed w') \<Longrightarrow> row_recorded w' r"
  unfolding row_recorded_def by blast

lemma complete_keeps:
  assumes "r \<in> set t"
  shows "\<exists>r' \<in> set (completeIdempotency i status body res now t). ik_id r' = ik_id r \<and> idem_at c r' = idem_at c r"
proof (cases "ik_id r = i")
  case True
  with assms show ?thesis
    by (intro bexI [of _ "r\<lparr>ik_status := ''completed'', ik_responseStatus := Some status, ik_responseBody := Some body,
        ik_resourceId := res, ik_completedAt := Some now\<rparr>"]) (auto simp: completeIdempotency_def set_db_update idem_at_def)
next
  case False
  with assms show ?thesis by (intro bexI [of _ r]) (auto simp: completeIdempotency_def set_db_update)
qed

lemma idem_valid_purge:
  assumes "now \<le> iw_clock w" "idem_valid w"
  shows "idem_valid (w\<lparr>iw_rows := idem_purge c now (iw_rows w)\<rparr>)"
proof -
  note v = assms(2) [unfolded idem_valid_def]
  let ?w = "w\<lparr>iw_rows := idem_purge c now (iw_rows w)\<rparr>"
  have "over ?w x \<or> (\<exists>r \<in> set (iw_rows ?w). ik_id r = rv_id x \<and> idem_at (rv_context x) r)" if x: "x \<in> set (iw_reserved w)" for x
  proof (cases "over w x")
    case False
    then obtain r where r: "r \<in> set (iw_rows w)" "ik_id r = rv_id x" "idem_at (rv_context x) r" using v x by blast
    show ?thesis
    proof (cases "idem_at c r \<and> ik_expiresAt r < now")
      case True
      from r(1) v obtain y where "y \<in> set (iw_reserved w)" "rv_id y = ik_id r" "ik_expiresAt r = rv_createdAt y + IDEMPOTENCY_RETENTION_MS"
        by (auto simp: row_recorded_def)
      moreover from this have "y = x" using x v r(2) by (auto dest: unique_byD)
      ultimately show ?thesis using True assms(1) by (simp add: over_def)
    next
      case False
      then show ?thesis using r by (auto simp: idem_purge_def)
    qed
  qed (simp add: over_def)
  moreover have "row_recorded ?w r" if "r \<in> set (iw_rows ?w)" for r
    using that v recorded_cong [of w r ?w] by (simp add: idem_purge_def)
  ultimately show ?thesis using v by (simp add: idem_valid_def)
qed

lemma idem_valid_reserve:
  assumes "now \<le> iw_clock w" "list_all (\<lambda>v. rv_id v \<noteq> i) (iw_reserved w)"
    "idem_insert (idem_row_of c rt i now) (iw_rows w) = Some t" "idem_valid w"
  shows "idem_valid (w\<lparr>iw_rows := t,
      iw_reserved := \<lparr>rv_id = i, rv_context = c, rv_type = rt, rv_createdAt = now, rv_clock = iw_clock w\<rparr> # iw_reserved w\<rparr>)"
proof -
  note v = assms(4) [unfolded idem_valid_def]
  let ?v = "\<lparr>rv_id = i, rv_context = c, rv_type = rt, rv_createdAt = now, rv_clock = iw_clock w\<rparr>"
  let ?w = "w\<lparr>iw_rows := t, iw_reserved := ?v # iw_reserved w\<rparr>"
  have t: "t = iw_rows w @ [idem_row_of c rt i now]" and free: "\<And>r. r \<in> set (iw_rows w) \<Longrightarrow> \<not> idem_at c r"
    using assms(3) by (auto simp: idem_insert_def idem_row_of_def idem_at_def list_ex_iff split: if_splits)
  have "row_recorded ?w r" if "r \<in> set t" for r
  proof (cases "r \<in> set (iw_rows w)")
    case True
    with v show ?thesis by (auto intro!: recorded_cong [of w r ?w])
  next
    case False
    then have "r = idem_row_of c rt i now" using that t by auto
    then show ?thesis by (simp add: row_recorded_def idem_row_of_def idem_at_def)
  qed
  moreover have "over ?w x \<or> (\<exists>r \<in> set t. ik_id r = rv_id x \<and> idem_at (rv_context x) r)" if "x \<in> set (?v # iw_reserved w)" for x
    using that v by (auto simp: over_def t idem_row_of_def idem_at_def)
  moreover have "rv_id u \<in> set (iw_abandoned w) \<or> rv_createdAt u + IDEMPOTENCY_RETENTION_MS < iw_clock w"
    if "u \<in> set (iw_reserved w)" "same_key (rv_context u) c" for u
  proof -
    have "over w u \<or> (\<exists>r \<in> set (iw_rows w). idem_at (rv_context u) r)" using v that(1) by blast
    then show ?thesis using free that(2) by (auto simp: over_def same_key_def idem_at_def)
  qed
  moreover have "unique_by rv_id (?v # iw_reserved w)" using v assms(2) by (auto simp: unique_by_def list_all_iff)
  ultimately show ?thesis using v by (simp add: idem_valid_def)
qed

lemma idem_valid_abandon:
  assumes "idem_valid w"
  shows "idem_valid (w\<lparr>iw_rows := abandonIdempotency i (iw_rows w), iw_abandoned := i # iw_abandoned w\<rparr>)"
proof -
  note v = assms [unfolded idem_valid_def]
  let ?w = "w\<lparr>iw_rows := abandonIdempotency i (iw_rows w), iw_abandoned := i # iw_abandoned w\<rparr>"
  have "row_recorded ?w r" if "r \<in> set (iw_rows ?w)" for r
    using that v recorded_cong [of w r ?w] by (simp add: abandonIdempotency_def)
  moreover have "over ?w x \<or> (\<exists>r \<in> set (iw_rows ?w). ik_id r = rv_id x \<and> idem_at (rv_context x) r)" if x: "x \<in> set (iw_reserved w)" for x
  proof (cases "rv_id x = i \<or> over w x")
    case False
    then obtain r where "r \<in> set (iw_rows w)" "ik_id r = rv_id x" "idem_at (rv_context x) r" using v x by blast
    with False show ?thesis by (auto simp: abandonIdempotency_def)
  qed (auto simp: over_def)
  moreover have "apart (i # iw_abandoned w) (iw_reserved w)" using v by (auto intro: apart_mono)
  ultimately show ?thesis using v by (simp add: idem_valid_def)
qed

lemma idem_valid_complete:
  assumes "idem_valid w"
  shows "idem_valid (w\<lparr>iw_rows := completeIdempotency i status body res now (iw_rows w),
      iw_completed := (i, status, body, res) # iw_completed w\<rparr>)"
proof -
  note v = assms [unfolded idem_valid_def]
  let ?w = "w\<lparr>iw_rows := completeIdempotency i status body res now (iw_rows w), iw_completed := (i, status, body, res) # iw_completed w\<rparr>"
  have "row_recorded ?w r" if r: "r \<in> set (iw_rows ?w)" for r
  proof -
    obtain s where s: "s \<in> set (iw_rows w)" "r = s \<and> ik_id s \<noteq> i \<or> ik_id s = i \<and> r = s\<lparr>ik_status := ''completed'', ik_responseStatus := Some status,
        ik_responseBody := Some body, ik_resourceId := res, ik_completedAt := Some now\<rparr>"
      using r by (auto simp: completeIdempotency_def set_db_update)
    have k: "row_recorded w s" using s(1) v by blast
    show ?thesis
    proof (cases "ik_id s = i")
      case True
      with s k show ?thesis by (auto simp: row_recorded_def idem_at_def)
    next
      case False
      with s have "r = s" by auto
      with k show ?thesis by (auto intro: recorded_cong)
    qed
  qed
  moreover have "\<exists>r \<in> set (iw_rows ?w). ik_id r = rv_id x \<and> idem_at (rv_context x) r"
    if x: "r \<in> set (iw_rows w)" "ik_id r = rv_id x" "idem_at (rv_context x) r" for x r
    using complete_keeps [OF x(1)] x by force
  moreover have "over ?w x = over w x" for x by (simp add: over_def)
  ultimately show ?thesis using v unfolding idem_valid_def by (simp, blast)
qed

lemma idem_valid_step: "idem_valid w \<Longrightarrow> idem_step w w' \<Longrightarrow> idem_valid w'"
  by (rotate_tac, induction rule: idem_step.induct)
    (auto intro: idem_valid_purge idem_valid_reserve idem_valid_abandon idem_valid_complete, auto simp: idem_valid_def row_recorded_def over_def)

interpretation idem_system: invariant_system idem_start idem_step idem_valid
proof
  show "idem_start w \<Longrightarrow> idem_valid w" for w :: "'b idem_world" by (simp add: idem_start_def idem_valid_def unique_by_def)
qed (rule idem_valid_step)

text \<open>What one call of \<open>beginIdempotency\<close> does when nothing interleaves is a purge, then at most one reservation.\<close>

lemma begin_is_steps:
  fixes w :: "'b idem_world"
  assumes "now \<le> iw_clock w" "list_all (\<lambda>v. rv_id v \<noteq> i) (iw_reserved w)"
    "beginIdempotency (\<lambda>_ t. t) (Some c) rt i now (iw_rows w) = (r, t)"
  shows "\<exists>w'. idem_step\<^sup>*\<^sup>* w w' \<and> iw_rows w' = t \<and> iw_reserved w' = (if r = Idem_reserved i
    then \<lparr>rv_id = i, rv_context = c, rv_type = rt, rv_createdAt = now, rv_clock = iw_clock w\<rparr> # iw_reserved w else iw_reserved w)"
proof -
  let ?p = "w\<lparr>iw_rows := idem_purge c now (iw_rows w)\<rparr>"
  have p: "idem_step\<^sup>*\<^sup>* w ?p" using assms(1) by (blast intro: is_purge)
  consider "t = iw_rows ?p" "r \<noteq> Idem_reserved i" | "r = Idem_reserved i" "idem_insert (idem_row_of c rt i now) (iw_rows ?p) = Some t"
    using assms(3) by (auto simp: beginIdempotency_def Let_def idem_answer_def split: option.splits if_splits)
  then show ?thesis
  proof cases
    case 1
    with p show ?thesis by (intro exI [of _ ?p]) simp
  next
    case 2
    have "idem_step ?p (?p\<lparr>iw_rows := t,
      iw_reserved := \<lparr>rv_id = i, rv_context = c, rv_type = rt, rv_createdAt = now, rv_clock = iw_clock ?p\<rparr> # iw_reserved ?p\<rparr>)"
      using assms(1,2) 2(2) by (intro is_reserve) simp_all
    with p 2(1) show ?thesis
      by (intro exI [of _ "?p\<lparr>iw_rows := t, iw_reserved := \<lparr>rv_id = i, rv_context = c, rv_type = rt, rv_createdAt = now, rv_clock = iw_clock w\<rparr> # iw_reserved w\<rparr>"])
        (auto intro: rtranclp.rtrancl_into_rtrancl)
  qed
qed

lemma replayed_was_completed:
  assumes "idem_valid w" "idem_answer c rt (db_find (idem_at c) (iw_rows w)) = Idem_replay status body res"
  shows "\<exists>v \<in> set (iw_reserved w). same_key (rv_context v) c \<and> ic_principal (rv_context v) = ic_principal c \<and>
    ic_requestHash (rv_context v) = ic_requestHash c \<and> rv_type v = rt \<and> (rv_id v, status, body, res) \<in> set (iw_completed w)"
proof -
  obtain r where r: "db_find (idem_at c) (iw_rows w) = Some r" "ik_principal r = ic_principal c" "ik_requestHash r = ic_requestHash c"
      "ik_resourceType r = rt" "ik_responseStatus r = Some status" "ik_responseBody r = Some body" "ik_resourceId r = res"
    using assms(2) by (auto simp: idem_answer_def split: option.splits if_splits)
  then have m: "r \<in> set (iw_rows w)" "idem_at c r" by (auto dest: db_find_SomeD)
  then have "row_recorded w r" using assms(1) by (auto simp: idem_valid_def)
  with r m show ?thesis unfolding row_recorded_def by (force simp: idem_at_def same_key_def)
qed

text \<open>C14: while requests interleave, two operations that were both started under one key never overlap in time: one of them
  was abandoned, or its key had expired when the other one started. A replayed answer is the response that was stored
  for an operation of the same key, principal, request hash and resource type.\<close>

lemma idempotency_key_runs_once:
  assumes "reach idem_start idem_step w"
  shows "(\<forall>u \<in> set (iw_reserved w). \<forall>v \<in> set (iw_reserved w). u \<noteq> v \<and> same_key (rv_context u) (rv_context v) \<longrightarrow>
      (rv_id u \<in> set (iw_abandoned w) \<or> rv_createdAt u + IDEMPOTENCY_RETENTION_MS < rv_clock v) \<or>
      (rv_id v \<in> set (iw_abandoned w) \<or> rv_createdAt v + IDEMPOTENCY_RETENTION_MS < rv_clock u)) \<and>
    (\<forall>c rt status body res. idem_answer c rt (db_find (idem_at c) (iw_rows w)) = Idem_replay status body res \<longrightarrow>
      (\<exists>v \<in> set (iw_reserved w). same_key (rv_context v) c \<and> ic_principal (rv_context v) = ic_principal c \<and>
        ic_requestHash (rv_context v) = ic_requestHash c \<and> rv_type v = rt \<and> (rv_id v, status, body, res) \<in> set (iw_completed w)))"
proof -
  have v: "idem_valid w" using idem_system.reach_inv [OF assms] .
  then have a: "apart (iw_abandoned w) (iw_reserved w)" unfolding idem_valid_def by simp
  show ?thesis
    by (intro conjI ballI allI impI, elim conjE, rule apart_pair [OF a], assumption+, rule replayed_was_completed [OF v], assumption)
qed

text \<open>A key reserved, abandoned, reserved again by the retry and completed.\<close>

definition demo_key :: idem_context where
  "demo_key = \<lparr>ic_key = ''k1'', ic_scope = ''runs'', ic_principal = ''user:7'', ic_requestHash = ''h''\<rparr>"

definition demo_idem0 :: "nat idem_world" where
  "demo_idem0 = \<lparr>iw_clock = 10, iw_rows = [], iw_reserved = [], iw_abandoned = [], iw_completed = []\<rparr>"

definition demo_reserve :: "string \<Rightarrow> nat idem_world \<Rightarrow> nat idem_world" where
  "demo_reserve i w = w\<lparr>iw_rows := iw_rows w @ [idem_row_of demo_key ''run'' i 10], iw_reserved :=
     \<lparr>rv_id = i, rv_context = demo_key, rv_type = ''run'', rv_createdAt = 10, rv_clock = iw_clock w\<rparr> # iw_reserved w\<rparr>"

definition demo_idem1 :: "nat idem_world" where
  "demo_idem1 = (let w = demo_reserve ''a'' demo_idem0
     in w\<lparr>iw_rows := abandonIdempotency ''a'' (iw_rows w), iw_abandoned := ''a'' # iw_abandoned w\<rparr>)"

definition demo_idem2 :: "nat idem_world" where
  "demo_idem2 = (let w = demo_reserve ''b'' demo_idem1
     in w\<lparr>iw_rows := completeIdempotency ''b'' 201 7 (Some ''run-1'') 12 (iw_rows w), iw_completed := (''b'', 201, 7, Some ''run-1'') # iw_completed w\<rparr>)"

lemma demo_idem_reached: "reach idem_start idem_step demo_idem2"
proof -
  note defs = demo_idem0_def demo_idem1_def demo_idem2_def demo_reserve_def Let_def idem_insert_def idem_row_of_def abandonIdempotency_def
  have "idem_step demo_idem0 (demo_reserve ''a'' demo_idem0)" "idem_step demo_idem1 (demo_reserve ''b'' demo_idem1)"
    unfolding demo_reserve_def by (rule is_reserve; simp add: defs)+
  moreover have "idem_step (demo_reserve ''a'' demo_idem0) demo_idem1" unfolding demo_idem1_def Let_def by (rule is_abandon)
  moreover have "idem_step (demo_reserve ''b'' demo_idem1) demo_idem2" unfolding demo_idem2_def Let_def by (rule is_complete)
  moreover have "idem_start demo_idem0" by (simp add: demo_idem0_def idem_start_def)
  ultimately show ?thesis by (meson reach_init reach_step)
qed

lemma idempotency_key_runs_once_witness:
  "length (iw_reserved demo_idem2) = 2 \<and> ''a'' \<in> set (iw_abandoned demo_idem2) \<and>
   idem_answer demo_key ''run'' (db_find (idem_at demo_key) (iw_rows demo_idem2)) = Idem_replay 201 7 (Some ''run-1'') \<and>
   (\<exists>v \<in> set (iw_reserved demo_idem2). same_key (rv_context v) demo_key \<and> (rv_id v, 201, 7, Some ''run-1'') \<in> set (iw_completed demo_idem2))"
proof -
  have a: "idem_answer demo_key ''run'' (db_find (idem_at demo_key) (iw_rows demo_idem2)) = Idem_replay 201 7 (Some ''run-1'')" by code_simp
  have l: "length (iw_reserved demo_idem2) = 2 \<and> ''a'' \<in> set (iw_abandoned demo_idem2)" by code_simp
  show ?thesis using idempotency_key_runs_once [OF demo_idem_reached] a l by blast
qed

end
