(* ===== verification/PolicyGate.thy ===== *)
theory PolicyGate imports JsValues begin

text \<open>
  Policy enforcement: which policy sets apply to a workspace (\<open>lib/policy-set-scope.ts\<close>), the settings that
  switch engines off (\<open>lib/policy-enforcement.ts\<close>), the evaluation checkpoint and the gate before an apply
  (\<open>lib/workspace-policy-gate.ts\<close>), the worker's evaluation (\<open>worker.ts\<close>), the agent's
  (\<open>lib/agent-jobs.ts\<close>) and the overrides (\<open>routes/runs.ts\<close>, \<open>routes/policies.ts\<close>). The hash of a
  configuration and \<open>localeCompare\<close> are arguments, and so is what a policy engine answers.
\<close>

section \<open>Policy sets of a workspace\<close>

record policy_set =
  ps_id :: string
  ps_orgId :: string
  ps_name :: string
  ps_kind :: string
  ps_global :: "bool option"
  ps_overridable :: "bool option"
  ps_agentEnabled :: "bool option"
  ps_tagMatchLogic :: "string option"

record policy =
  po_id :: string
  po_name :: string
  po_policySetId :: "string option"
  po_enforcementLevel :: string
  po_query :: "string option"
  po_source :: "string option"

record policy_parameter =
  pp_id :: string
  pp_policySetId :: string
  pp_key :: string
  pp_value :: string

record tag_selector =
  ts_policySetId :: string
  ts_key :: string
  ts_value :: "string option"
  ts_isExclude :: bool

text \<open>The tables; a link is the pair of a set and a workspace or project, a tag is its owner, key and value.\<close>

record policy_db =
  pd_workspaces :: "(string \<times> string \<times> string option) list"
  pd_sets :: "policy_set table"
  pd_policies :: "policy table"
  pd_parameters :: "policy_parameter table"
  pd_attached :: "(string \<times> string) list"
  pd_projectAttached :: "(string \<times> string) list"
  pd_exclusions :: "(string \<times> string) list"
  pd_projectExclusions :: "(string \<times> string) list"
  pd_workspaceTags :: "(string \<times> string \<times> string option) list"
  pd_projectTags :: "(string \<times> string \<times> string option) list"
  pd_selectors :: "tag_selector table"
  pd_settings :: "(string, json) js_map option"

definition linked_sets :: "string \<Rightarrow> (string \<times> string) list \<Rightarrow> string list" where
  "linked_sets x links = map fst (filter (\<lambda>(s, y). y = x) links)"

definition effective_tags :: "policy_db \<Rightarrow> string \<Rightarrow> string option \<Rightarrow> (string, string option) js_map" where
  "effective_tags db w project =
    fold (\<lambda>(_, k, v). js_set k v) (filter (\<lambda>(o', _). o' = w) (pd_workspaceTags db))
      (fold (\<lambda>(_, k, v). js_set k v) (case project of None \<Rightarrow> [] | Some p \<Rightarrow> filter (\<lambda>(o', _). o' = p) (pd_projectTags db)) [])"

definition selectors_match :: "(string, string option) js_map \<Rightarrow> string option \<Rightarrow> tag_selector list \<Rightarrow> bool" where
  "selectors_match tags logic items \<longleftrightarrow> items \<noteq> [] \<and>
    (if logic = Some ''all'' then list_all (\<lambda>t. js_get tags (ts_key t) = Some (ts_value t)) items
     else list_ex (\<lambda>t. js_get tags (ts_key t) = Some (ts_value t)) items)"

definition resolveWorkspacePolicySetIds :: "policy_db \<Rightarrow> string \<Rightarrow> string \<Rightarrow> string list" where
  "resolveWorkspacePolicySetIds db w org = (case db_find (\<lambda>(i, o', _). i = w \<and> o' = org) (pd_workspaces db) of
     None \<Rightarrow> []
   | Some (_, _, project) \<Rightarrow>
     (let in_project = (\<lambda>links. case project of None \<Rightarrow> [] | Some p \<Rightarrow> linked_sets p links);
          explicitIds = linked_sets w (pd_attached db) @ in_project (pd_projectAttached db);
          excludedIds = linked_sets w (pd_exclusions db) @ in_project (pd_projectExclusions db);
          tags = effective_tags db w project in
      map ps_id (filter (\<lambda>s.
        let selectors = filter (\<lambda>t. ts_policySetId t = ps_id s) (pd_selectors db);
            tagScoped = (ps_tagMatchLogic s \<noteq> None) in
        ps_id s \<notin> set excludedIds \<and>
        \<not> (tagScoped \<and> selectors_match tags (ps_tagMatchLogic s) (filter ts_isExclude selectors)) \<and>
        (ps_global s = Some True \<or> ps_id s \<in> set explicitIds \<or>
         tagScoped \<and> selectors_match tags (ps_tagMatchLogic s) (filter (\<lambda>t. \<not> ts_isExclude t) selectors)))
        (filter (\<lambda>s. ps_orgId s = org) (pd_sets db)))))"


section \<open>Enforcement settings\<close>

record enforcement =
  en_revision :: int
  en_opa :: bool
  en_sentinel :: bool

text \<open>\<open>None\<close> is a validation error.\<close>

definition resolvePolicyEnforcementSettings :: "(string, json) js_map \<Rightarrow> enforcement option" where
  "resolvePolicyEnforcementSettings values =
    (let get = (\<lambda>k d. js_default (js_get values k) d) in
     if \<not> list_all (\<lambda>k. k \<in> {''revision'', ''opa'', ''sentinel''}) (json_keys values) then None
     else case (get ''revision'' (JNum (Finite 0)), get ''opa'' (JBool True), get ''sentinel'' (JBool True)) of
       (JNum n, JBool a, JBool b) \<Rightarrow> (case js_safe_integer n of
           Some r \<Rightarrow> if 0 \<le> r \<and> r \<le> MAX_SAFE_INTEGER - 1 then Some \<lparr>en_revision = r, en_opa = a, en_sentinel = b\<rparr> else None
         | None \<Rightarrow> None)
     | _ \<Rightarrow> None)"

definition getPolicyEnforcementSettings :: "policy_db \<Rightarrow> enforcement option" where
  "getPolicyEnforcementSettings db = resolvePolicyEnforcementSettings (js_default (pd_settings db) [])"


section \<open>The snapshot\<close>

text \<open>What is hashed, and what the gate works with.\<close>

record policy_config =
  pg_sets :: "policy_set list"
  pg_policies :: "policy list"
  pg_parameters :: "policy_parameter list"
  pg_enforcement :: enforcement

record 'h policy_snapshot =
  sn_fingerprint :: 'h
  sn_sets :: "policy_set list"
  sn_policies :: "policy list"
  sn_parameters :: "policy_parameter list"
  sn_disabledSets :: "policy_set list"

definition engine_enabled :: "enforcement \<Rightarrow> policy_set \<Rightarrow> bool" where
  "engine_enabled e s = (if ps_kind s = ''opa'' then en_opa e else if ps_kind s = ''sentinel'' then en_sentinel e else True)"

definition workspace_config :: "(string \<Rightarrow> string \<Rightarrow> int) \<Rightarrow> policy_db \<Rightarrow> string \<Rightarrow> string \<Rightarrow> policy_config option" where
  "workspace_config collate db w org =
    (let ids = resolveWorkspacePolicySetIds db w org in
     map_option (\<lambda>e. \<lparr>
       pg_sets = js_sort (\<lambda>a b. collate (ps_id a) (ps_id b)) (filter (\<lambda>s. ps_id s \<in> set ids \<and> ps_orgId s = org) (pd_sets db)),
       pg_policies = js_sort (\<lambda>a b. collate (po_id a) (po_id b))
         (filter (\<lambda>p. case po_policySetId p of None \<Rightarrow> False | Some s \<Rightarrow> s \<in> set ids) (pd_policies db)),
       pg_parameters = js_sort (\<lambda>a b. collate (pp_id a) (pp_id b)) (filter (\<lambda>p. pp_policySetId p \<in> set ids) (pd_parameters db)),
       pg_enforcement = e\<rparr>) (getPolicyEnforcementSettings db))"

definition snapshot_of :: "(policy_config \<Rightarrow> 'h) \<Rightarrow> policy_config \<Rightarrow> 'h policy_snapshot" where
  "snapshot_of hash c =
    (let enabledSets = filter (engine_enabled (pg_enforcement c)) (pg_sets c) in
     \<lparr>sn_fingerprint = hash c, sn_sets = enabledSets,
      sn_policies = filter (\<lambda>p. case po_policySetId p of None \<Rightarrow> False | Some s \<Rightarrow> s \<in> ps_id ` set enabledSets) (pg_policies c),
      sn_parameters = pg_parameters c,
      sn_disabledSets = filter (\<lambda>s. ps_id s \<notin> ps_id ` set enabledSets) (pg_sets c)\<rparr>)"

definition loadWorkspacePolicySnapshot ::
  "(policy_config \<Rightarrow> 'h) \<Rightarrow> (string \<Rightarrow> string \<Rightarrow> int) \<Rightarrow> policy_db \<Rightarrow> string \<Rightarrow> string \<Rightarrow> 'h policy_snapshot option" where
  "loadWorkspacePolicySnapshot hash collate db w org = map_option (snapshot_of hash) (workspace_config collate db w org)"

definition supported_kind :: "policy_set \<Rightarrow> bool" where
  "supported_kind s \<longleftrightarrow> ps_kind s \<in> {''opa'', ''sentinel''}"

definition unsupportedRuntimeError :: "'h policy_snapshot \<Rightarrow> policy_set option" where
  "unsupportedRuntimeError sn = db_find (\<lambda>s. \<not> supported_kind s) (sn_sets sn)"


section \<open>Checks\<close>

record 'h check_result =
  cr_checkpoint :: bool
  cr_fingerprint :: "'h option"
  cr_dispatchKey :: "string option"
  cr_evaluationId :: "string option"
  cr_overrideEvaluationId :: "string option"
  cr_overrideActorId :: "string option"

record 'h policy_check =
  pc_id :: string
  pc_runId :: string
  pc_policyId :: "string option"
  pc_policySetId :: "string option"
  pc_status :: string
  pc_result :: "'h check_result option"
  pc_createdAt :: int

text \<open>The fields of a result are read as \<open>result?.field\<close>.\<close>

definition result_field :: "('h check_result \<Rightarrow> 'a option) \<Rightarrow> 'h policy_check \<Rightarrow> 'a option" where
  "result_field f c = Option.bind (pc_result c) f"

definition plain_result :: "string option \<Rightarrow> 'h check_result" where
  "plain_result evaluationId = \<lparr>cr_checkpoint = False, cr_fingerprint = None, cr_dispatchKey = None, cr_evaluationId = evaluationId,
     cr_overrideEvaluationId = None, cr_overrideActorId = None\<rparr>"

definition policyFailureIsOverridable :: "string \<Rightarrow> (string \<times> bool option) option \<Rightarrow> bool" where
  "policyFailureIsOverridable level set' = (case set' of
     None \<Rightarrow> False
   | Some (kind, overridable) \<Rightarrow> kind \<in> {''opa'', ''sentinel''} \<and> level \<in> {''mandatory'', ''hard-mandatory'', ''soft-mandatory''} \<and>
       (overridable = Some True \<or> kind = ''sentinel'' \<and> level = ''soft-mandatory''))"

definition isPolicyEvaluationCheckpoint :: "'h policy_check \<Rightarrow> bool" where
  "isPolicyEvaluationCheckpoint c \<longleftrightarrow> pc_policyId c = None \<and> pc_policySetId c = None \<and>
     (case pc_result c of None \<Rightarrow> False | Some r \<Rightarrow> cr_checkpoint r)"

definition check_newer :: "'h policy_check \<Rightarrow> 'h policy_check \<Rightarrow> int" where
  "check_newer a b = js_or (pc_createdAt b - pc_createdAt a) (lex_cmp (pc_id b) (pc_id a))"

definition latestWorkspacePolicyEvaluation :: "string \<Rightarrow> 'h policy_check table \<Rightarrow> 'h policy_check option" where
  "latestWorkspacePolicyEvaluation run checks =
    db_find isPolicyEvaluationCheckpoint (js_sort check_newer (filter (\<lambda>c. pc_runId c = run) checks))"

definition captureWorkspacePolicyEvaluation ::
  "'h policy_snapshot \<Rightarrow> string \<Rightarrow> string option \<Rightarrow> string \<Rightarrow> int \<Rightarrow> 'h policy_check table \<Rightarrow> 'h policy_check table" where
  "captureWorkspacePolicyEvaluation sn run dispatchKey i now checks =
    (let previous = latestWorkspacePolicyEvaluation run checks;
         createdAt = max now (js_default (map_option pc_createdAt previous) 0 + 1) in
     checks @ [\<lparr>pc_id = i, pc_runId = run, pc_policyId = None, pc_policySetId = None, pc_status = ''pending'',
       pc_result = Some ((plain_result None)\<lparr>cr_checkpoint := True, cr_fingerprint := Some (sn_fingerprint sn), cr_dispatchKey := dispatchKey\<rparr>),
       pc_createdAt = createdAt\<rparr>])"

definition completeWorkspacePolicyEvaluation ::
  "'h policy_snapshot \<Rightarrow> string \<Rightarrow> 'h \<Rightarrow> 'h policy_check table \<Rightarrow> bool \<times> 'h policy_check table" where
  "completeWorkspacePolicyEvaluation current i fingerprint checks =
    (let unchanged = (sn_fingerprint current = fingerprint) in
     (unchanged, db_update (\<lambda>c. pc_id c = i) (\<lambda>c. c\<lparr>pc_status := if unchanged then ''passed'' else ''errored''\<rparr>) checks))"


section \<open>The gate\<close>

datatype gate_error =
  Runtime_unsupported string
| Evaluation_missing
| Policies_changed
| Evaluation_incomplete
| Check_missing_or_duplicated
| Policy_denies string string
| Policies_unverifiable

definition find_set :: "'h policy_snapshot \<Rightarrow> policy \<Rightarrow> (string \<times> bool option) option" where
  "find_set sn p = map_option (\<lambda>s. (ps_kind s, ps_overridable s)) (db_find (\<lambda>s. Some (ps_id s) = po_policySetId p) (sn_sets sn))"

definition policyCheckAllowsApply ::
  "policy \<Rightarrow> (string \<times> bool option) option \<Rightarrow> 'h policy_check \<Rightarrow> string \<Rightarrow> bool \<Rightarrow> bool" where
  "policyCheckAllowsApply p set' c checkpointId allowOverride =
    (if pc_status c = ''passed'' then True
     else if pc_status c = ''failed'' \<and> po_enforcementLevel p = ''advisory'' then True
     else if \<not> policyFailureIsOverridable (po_enforcementLevel p) set' then False
     else if pc_status c = ''overridden'' then result_field cr_overrideEvaluationId c = Some checkpointId
     else allowOverride \<and> pc_status c \<in> {''failed'', ''soft_failed''})"

fun first_denial :: "'h policy_snapshot \<Rightarrow> 'h policy_check list \<Rightarrow> string \<Rightarrow> bool \<Rightarrow> policy list \<Rightarrow> gate_error option" where
  "first_denial sn current checkpointId allowOverride [] = None"
| "first_denial sn current checkpointId allowOverride (p # ps) =
    (case filter (\<lambda>c. pc_policyId c = Some (po_id p)) current of
       [c] \<Rightarrow> if policyCheckAllowsApply p (find_set sn p) c checkpointId allowOverride
              then first_denial sn current checkpointId allowOverride ps
              else Some (Policy_denies (po_name p) (pc_status c))
     | _ \<Rightarrow> Some Check_missing_or_duplicated)"

definition checks_of_evaluation :: "string \<Rightarrow> string \<Rightarrow> 'h policy_check table \<Rightarrow> 'h policy_check list" where
  "checks_of_evaluation run checkpointId checks =
    filter (\<lambda>c. pc_runId c = run \<and> result_field cr_evaluationId c = Some checkpointId) checks"

definition execution_error_impl ::
  "'h policy_snapshot \<Rightarrow> string option \<Rightarrow> bool \<Rightarrow> 'h policy_check table \<Rightarrow> gate_error option" where
  "execution_error_impl sn runId allowOverride checks = (case unsupportedRuntimeError sn of
     Some s \<Rightarrow> Some (Runtime_unsupported (ps_id s))
   | None \<Rightarrow> (case runId of
       None \<Rightarrow> None
     | Some run \<Rightarrow> (case latestWorkspacePolicyEvaluation run checks of
         None \<Rightarrow> if sn_sets sn = [] then None else Some Evaluation_missing
       | Some checkpoint \<Rightarrow>
           if result_field cr_fingerprint checkpoint \<noteq> Some (sn_fingerprint sn) then Some Policies_changed
           else if pc_status checkpoint \<noteq> ''passed'' then Some Evaluation_incomplete
           else first_denial sn (checks_of_evaluation run (pc_id checkpoint) checks) (pc_id checkpoint) allowOverride (sn_policies sn))))"

text \<open>\<open>None\<close> as the snapshot is a read that failed.\<close>

definition workspacePolicyExecutionError ::
  "'h policy_snapshot option \<Rightarrow> string option \<Rightarrow> bool \<Rightarrow> 'h policy_check table \<Rightarrow> gate_error option" where
  "workspacePolicyExecutionError sn runId allowOverride checks =
    (case sn of None \<Rightarrow> Some Policies_unverifiable | Some s \<Rightarrow> execution_error_impl s runId allowOverride checks)"

definition workspacePolicyPlanningError :: "'h policy_snapshot option \<Rightarrow> gate_error option" where
  "workspacePolicyPlanningError sn = (case sn of
     None \<Rightarrow> Some Policies_unverifiable
   | Some s \<Rightarrow> map_option (\<lambda>u. Runtime_unsupported (ps_id u)) (unsupportedRuntimeError s))"

definition overridableWorkspacePolicyChecks ::
  "'h policy_snapshot option \<Rightarrow> string \<Rightarrow> string option \<Rightarrow> 'h policy_check table \<Rightarrow> 'h policy_check list" where
  "overridableWorkspacePolicyChecks sn run checkId checks =
    (if workspacePolicyExecutionError sn (Some run) True checks \<noteq> None then []
     else case (sn, latestWorkspacePolicyEvaluation run checks) of
       (Some s, Some checkpoint) \<Rightarrow> filter (\<lambda>c. (checkId = None \<or> checkId = Some (pc_id c)) \<and>
           result_field cr_evaluationId c = Some (pc_id checkpoint) \<and> pc_status c \<in> {''failed'', ''soft_failed''} \<and>
           (case db_find (\<lambda>p. Some (po_id p) = pc_policyId c) (sn_policies s) of
              None \<Rightarrow> False
            | Some p \<Rightarrow> policyFailureIsOverridable (po_enforcementLevel p) (find_set s p)))
         (filter (\<lambda>c. pc_runId c = run) checks)
     | _ \<Rightarrow> [])"


section \<open>The worker's evaluation\<close>

text \<open>The answer of an engine for a policy, or the error it throws with (\<open>True\<close>: the engine is missing).\<close>

type_synonym policy_engine = "policy \<Rightarrow> string + bool"

definition recordPolicyCheckOutcome ::
  "policy \<Rightarrow> (string \<times> bool option) option \<Rightarrow> string \<Rightarrow> string \<times> bool \<times> bool" where
  "recordPolicyCheckOutcome p set' checkStatus =
    (let denied = (checkStatus = ''failed'');
         advisory = (po_enforcementLevel p = ''advisory'');
         softFailed = (denied \<and> policyFailureIsOverridable (po_enforcementLevel p) set');
         hardFailed = (checkStatus \<noteq> ''passed'' \<and> \<not> (denied \<and> (advisory \<or> softFailed))) in
     (if softFailed then ''soft_failed'' else checkStatus, hardFailed, softFailed))"

definition evaluateSinglePolicy :: "policy_engine \<Rightarrow> 'h policy_snapshot \<Rightarrow> policy \<Rightarrow> string \<times> bool \<times> bool" where
  "evaluateSinglePolicy engine sn p = (case engine p of
     Inl status \<Rightarrow> recordPolicyCheckOutcome p (find_set sn p) status
   | Inr missing \<Rightarrow> (if missing then ''unreachable'' else ''errored'', True, False))"

definition check_row :: "string \<Rightarrow> string \<Rightarrow> (string \<Rightarrow> string) \<Rightarrow> int \<Rightarrow> policy \<Rightarrow> string \<Rightarrow> 'h policy_check" where
  "check_row run evaluationId fresh now p status = \<lparr>pc_id = fresh (po_id p), pc_runId = run, pc_policyId = Some (po_id p),
     pc_policySetId = po_policySetId p, pc_status = status, pc_result = Some (plain_result (Some evaluationId)), pc_createdAt = now\<rparr>"

definition unsupported_row :: "string \<Rightarrow> string \<Rightarrow> (string \<Rightarrow> string) \<Rightarrow> int \<Rightarrow> policy_set \<Rightarrow> 'h policy_check" where
  "unsupported_row run evaluationId fresh now s = \<lparr>pc_id = fresh (ps_id s), pc_runId = run, pc_policyId = None,
     pc_policySetId = Some (ps_id s), pc_status = ''unreachable'', pc_result = Some (plain_result (Some evaluationId)), pc_createdAt = now\<rparr>"

definition failClosedPolicyChecks ::
  "string \<Rightarrow> string \<Rightarrow> (string \<Rightarrow> string) \<Rightarrow> int \<Rightarrow> policy list \<Rightarrow> 'h policy_check list" where
  "failClosedPolicyChecks run evaluationId fresh now ps = map (\<lambda>p. check_row run evaluationId fresh now p ''errored'') ps"

text \<open>
  The evaluation of a run: \<open>sn\<close> is the snapshot it captures, \<open>current\<close> the one it completes with; \<open>plan\<close> says
  whether the plan is available as JSON. The result is \<open>(proceed, hardFailed, softFailed)\<close>.
\<close>

definition runPolicyChecks ::
  "policy_engine \<Rightarrow> bool \<Rightarrow> 'h policy_snapshot \<Rightarrow> 'h policy_snapshot \<Rightarrow> string \<Rightarrow> string \<Rightarrow> (string \<Rightarrow> string) \<Rightarrow> int \<Rightarrow>
   'h policy_check table \<Rightarrow> (bool \<times> bool \<times> bool) \<times> 'h policy_check table" where
  "runPolicyChecks engine plan sn current run i fresh now checks =
    (let c1 = captureWorkspacePolicyEvaluation sn run None i now checks;
         complete = completeWorkspacePolicyEvaluation current i (sn_fingerprint sn);
         unsupported = filter (\<lambda>s. \<not> supported_kind s) (sn_sets sn) in
     if sn_policies sn = [] \<and> unsupported = [] then
       (case complete c1 of (unchanged, c2) \<Rightarrow> ((unchanged, \<not> unchanged, False), c2))
     else if unsupported \<noteq> [] then
       ((False, True, False), snd (complete (c1 @ map (unsupported_row run i fresh now) unsupported)))
     else if \<not> plan then
       ((False, True, False), snd (complete (c1 @ failClosedPolicyChecks run i fresh now (sn_policies sn))))
     else
       (let outcomes = map (evaluateSinglePolicy engine sn) (sn_policies sn);
            batch = map (\<lambda>p. check_row run i fresh now p (fst (evaluateSinglePolicy engine sn p))) (sn_policies sn);
            softFailed = list_ex (\<lambda>(_, _, soft). soft) outcomes in
        case complete (c1 @ batch) of (unchanged, c2) \<Rightarrow>
          (let hardFailed = (list_ex (\<lambda>(_, hard, _). hard) outcomes \<or> \<not> unchanged) in
           ((\<not> hardFailed \<and> \<not> softFailed, hardFailed, softFailed), c2))))"


section \<open>The agent's evaluation\<close>

definition truthy_record :: "json option \<Rightarrow> (string, json) js_map option" where
  "truthy_record v = (case v of Some j \<Rightarrow> json_record j | None \<Rightarrow> None)"

text \<open>\<open>v != null\<close>\<close>

definition given_value :: "json option \<Rightarrow> bool" where
  "given_value v \<longleftrightarrow> v \<noteq> None \<and> v \<noteq> Some JNull"

definition validatedAgentPolicyResult :: "(string, json) js_map \<Rightarrow> string" where
  "validatedAgentPolicyResult check = (case truthy_record (js_get check ''result'') of
     None \<Rightarrow> ''errored''
   | Some values \<Rightarrow> (case js_get check ''status'' of
       Some (JStr status) \<Rightarrow>
         if status = ''errored'' \<or> status = ''unreachable'' then status
         else if status \<noteq> ''passed'' \<and> status \<noteq> ''failed'' \<or> js_get values ''passed'' \<noteq> Some (JBool (status = ''passed'')) \<or>
             given_value (js_get values ''error'') \<or> given_value (js_get values ''errors'') \<or> js_get values ''skipped'' = Some (JBool True)
           then ''errored''
         else status
     | _ \<Rightarrow> ''errored''))"

text \<open>One report after the other: the policies seen, and the outcomes kept.\<close>

definition agent_report :: "json \<Rightarrow> string list \<times> (string, string) js_map \<Rightarrow> string list \<times> (string, string) js_map" where
  "agent_report raw acc = (case json_record raw of
     None \<Rightarrow> acc
   | Some check \<Rightarrow> (case js_get check ''policy-id'' of
       Some (JStr i) \<Rightarrow>
         (case acc of (seen, reported) \<Rightarrow>
           if i \<in> set seen then (seen, js_delete i reported)
           else (i # seen, js_set i (validatedAgentPolicyResult check) reported))
     | _ \<Rightarrow> acc))"

definition agentPolicyResults :: "(string, json) js_map \<Rightarrow> (string, string) js_map" where
  "agentPolicyResults result = (case js_get result ''policy-checks'' of
     Some (JArr raw) \<Rightarrow> snd (fold agent_report raw ([], []))
   | _ \<Rightarrow> [])"

definition agentPolicyCheckVerdict ::
  "policy \<Rightarrow> (string \<times> bool option) option \<Rightarrow> string \<Rightarrow> string \<times> bool \<times> bool" where
  "agentPolicyCheckVerdict p set' status =
    (if status = ''passed'' \<or> status = ''failed'' \<and> po_enforcementLevel p = ''advisory'' then (status, False, False)
     else let softFailed = (status = ''failed'' \<and> policyFailureIsOverridable (po_enforcementLevel p) set') in
       (if softFailed then ''soft_failed'' else status, \<not> softFailed, softFailed))"

text \<open>The policies the agent is given, set by set, and the sets it does not support.\<close>

definition agent_runs_set :: "policy_set \<Rightarrow> bool" where
  "agent_runs_set s \<longleftrightarrow> ps_kind s = ''sentinel'' \<and> ps_agentEnabled s = Some True"

definition getAgentPolicyEvaluation :: "'h policy_snapshot \<Rightarrow> ((policy_set \<times> policy list) list \<times> policy_set list) option" where
  "getAgentPolicyEvaluation sn =
    (let unsupported = filter (\<lambda>s. \<not> agent_runs_set s) (sn_sets sn);
         sets = filter (\<lambda>(s, ps). ps \<noteq> []) (map (\<lambda>s. (s, filter (\<lambda>p. po_policySetId p = Some (ps_id s)) (sn_policies sn)))
           (filter agent_runs_set (sn_sets sn))) in
     if sets = [] \<and> unsupported = [] then None else Some (sets, unsupported))"

text \<open>The result is \<open>(evaluated, hardFailed, softFailed)\<close>; the snapshot is read in the transaction.\<close>

definition recordAgentPolicyChecks ::
  "'h policy_snapshot \<Rightarrow> string \<Rightarrow> (string, json) js_map \<Rightarrow> (string \<Rightarrow> string) \<Rightarrow> int \<Rightarrow>
   'h policy_check table \<Rightarrow> (bool \<times> bool \<times> bool) \<times> 'h policy_check table" where
  "recordAgentPolicyChecks sn run result fresh now checks =
    (case latestWorkspacePolicyEvaluation run checks of
       None \<Rightarrow> ((True, True, False), checks)
     | Some checkpoint \<Rightarrow>
       if result_field cr_fingerprint checkpoint \<noteq> Some (sn_fingerprint sn) then ((True, True, False), checks)
       else (case getAgentPolicyEvaluation sn of
         None \<Rightarrow> (case completeWorkspacePolicyEvaluation sn (pc_id checkpoint) (sn_fingerprint sn) checks of
             (unchanged, c2) \<Rightarrow> ((True, \<not> unchanged, False), c2))
       | Some (sets, unsupported) \<Rightarrow>
         if unsupported \<noteq> [] then
           ((True, True, False), checks @ map (unsupported_row run (pc_id checkpoint) fresh now) unsupported)
         else
           (let reported = agentPolicyResults result;
                verdict = (\<lambda>(s, p). agentPolicyCheckVerdict p (Some (ps_kind s, ps_overridable s)) (js_default (js_get reported (po_id p)) ''errored''));
                pairs = concat (map (\<lambda>(s, ps). map (Pair s) ps) sets);
                batch = map (\<lambda>(s, p). check_row run (pc_id checkpoint) fresh now p (fst (verdict (s, p)))) pairs in
            case completeWorkspacePolicyEvaluation sn (pc_id checkpoint) (sn_fingerprint sn) (checks @ batch) of
              (unchanged, c2) \<Rightarrow>
                ((True, list_ex (\<lambda>x. fst (snd (verdict x))) pairs \<or> \<not> unchanged, list_ex (\<lambda>x. snd (snd (verdict x))) pairs), c2))))"


section \<open>Overrides\<close>

definition override_check :: "string option \<Rightarrow> 'h policy_check \<Rightarrow> 'h policy_check \<Rightarrow> 'h policy_check" where
  "override_check actor c u = u\<lparr>pc_status := ''overridden'',
     pc_result := map_option (\<lambda>r. r\<lparr>cr_overrideEvaluationId := cr_evaluationId r, cr_overrideActorId := actor\<rparr>) (pc_result c)\<rparr>"

text \<open>The updates of \<open>commitPolicyOverride\<close>, whose other statements are in \<open>RunActions\<close>.\<close>

definition override_run_checks :: "string option \<Rightarrow> 'h policy_check list \<Rightarrow> 'h policy_check table \<Rightarrow> 'h policy_check table" where
  "override_run_checks actor targets checks =
    fold (\<lambda>c t. db_update (\<lambda>u. pc_id u = pc_id c \<and> pc_status u = pc_status c) (override_check actor c) t) targets checks"

definition overrideRun :: "'h policy_snapshot option \<Rightarrow> string \<Rightarrow> string option \<Rightarrow> 'h policy_check table \<Rightarrow> bool \<times> 'h policy_check table" where
  "overrideRun sn run actor checks = (case overridableWorkspacePolicyChecks sn run None checks of
     [] \<Rightarrow> (False, checks)
   | targets \<Rightarrow> (True, override_run_checks actor targets checks))"

text \<open>
  The override of one check. The result says whether it was overridden, and whether the run, which is
  \<open>policy_soft_failed\<close>, becomes \<open>planned\<close>; \<open>Inl\<close> is the refusal.
\<close>

definition overrideCheck ::
  "'h policy_snapshot option \<Rightarrow> string \<Rightarrow> string \<Rightarrow> string option \<Rightarrow> 'h policy_check table \<Rightarrow> (unit + bool) \<times> 'h policy_check table" where
  "overrideCheck sn run checkId actor checks = (case overridableWorkspacePolicyChecks sn run (Some checkId) checks of
     [] \<Rightarrow> (Inl (), checks)
   | check # _ \<Rightarrow>
     (let p = (\<lambda>u. pc_id u = checkId \<and> pc_status u = pc_status check);
          checks' = db_update p (override_check actor check) checks in
      if length (db_returning p (override_check actor check) checks) \<noteq> 1 then (Inl (), checks)
      else (Inr (workspacePolicyExecutionError sn (Some run) False checks' = None), checks')))"

end
