(* ===== verification/PolicySafety.thy ===== *)
theory PolicySafety imports PolicyGate begin

text \<open>
  What policy enforcement guarantees: the verdict of an evaluation and the gate before the apply agree, for
  the worker and for the agent, and an override opens the gate only for denials that may be overridden.
\<close>

section \<open>The latest checkpoint\<close>

interpretation by_age: comparator "check_newer :: 'h policy_check \<Rightarrow> 'h policy_check \<Rightarrow> int"
proof -
  have "comparator (\<lambda>a b :: 'h policy_check. pc_createdAt b - pc_createdAt a)" by unfold_locales auto
  moreover have "comparator (\<lambda>a b :: 'h policy_check. lex_cmp (pc_id b) (pc_id a))"
    by unfold_locales (auto simp: lex.cmp_flip intro: lex_cmp_trans)
  ultimately show "comparator (check_newer :: 'h policy_check \<Rightarrow> 'h policy_check \<Rightarrow> int)"
    unfolding check_newer_def by (rule comparator_or)
qed

lemma latest_alt: "latestWorkspacePolicyEvaluation run checks =
    (case js_sort check_newer (filter (\<lambda>c. pc_runId c = run \<and> isPolicyEvaluationCheckpoint c) checks) of [] \<Rightarrow> None | c # _ \<Rightarrow> Some c)"
  by (simp add: latestWorkspacePolicyEvaluation_def db_find_filter by_age.filter_js_sort conj_commute)

lemma latest_SomeD:
  "latestWorkspacePolicyEvaluation run checks = Some c \<Longrightarrow>
   c \<in> set checks \<and> pc_runId c = run \<and> isPolicyEvaluationCheckpoint c"
proof -
  assume "latestWorkspacePolicyEvaluation run checks = Some c"
  then obtain cs where "js_sort check_newer (filter (\<lambda>c. pc_runId c = run \<and> isPolicyEvaluationCheckpoint c) checks) = c # cs"
    by (auto simp: latest_alt split: list.splits)
  then have "c \<in> set (js_sort check_newer (filter (\<lambda>c. pc_runId c = run \<and> isPolicyEvaluationCheckpoint c) checks))" by simp
  then show ?thesis by simp
qed

lemma latest_newest:
  assumes "latestWorkspacePolicyEvaluation run checks = Some c" "d \<in> set checks" "pc_runId d = run" "isPolicyEvaluationCheckpoint d"
  shows "pc_createdAt d \<le> pc_createdAt c"
proof -
  from assms(1) obtain cs where "js_sort check_newer (filter (\<lambda>c. pc_runId c = run \<and> isPolicyEvaluationCheckpoint c) checks) = c # cs"
    by (auto simp: latest_alt split: list.splits)
  then have "check_newer c d \<le> 0" by (rule by_age.js_sort_head_least) (use assms in simp)
  then show ?thesis by (auto simp: check_newer_def js_or_def split: if_splits)
qed

text \<open>Rows of single policies and changes of a status do not move the latest checkpoint.\<close>

lemma latest_append:
  "list_all (\<lambda>c. \<not> isPolicyEvaluationCheckpoint c) new \<Longrightarrow>
   latestWorkspacePolicyEvaluation run (checks @ new) = latestWorkspacePolicyEvaluation run checks"
proof -
  assume "list_all (\<lambda>c. \<not> isPolicyEvaluationCheckpoint c) new"
  then have "filter (\<lambda>c. pc_runId c = run \<and> isPolicyEvaluationCheckpoint c) new = []" by (auto simp: list_all_iff filter_empty_conv)
  then show ?thesis by (simp add: latest_alt)
qed

lemma latest_map:
  fixes f :: "'h policy_check \<Rightarrow> 'h policy_check"
  assumes "\<And>c. pc_id (f c) = pc_id c \<and> pc_createdAt (f c) = pc_createdAt c \<and> pc_runId (f c) = pc_runId c \<and>
    isPolicyEvaluationCheckpoint (f c) = isPolicyEvaluationCheckpoint c"
  shows "latestWorkspacePolicyEvaluation run (map f checks) = map_option f (latestWorkspacePolicyEvaluation run checks)"
proof -
  have "filter (\<lambda>c. pc_runId c = run \<and> isPolicyEvaluationCheckpoint c) (map f checks) =
      map f (filter (\<lambda>c. pc_runId c = run \<and> isPolicyEvaluationCheckpoint c) checks)"
    by (simp add: filter_map comp_def assms)
  moreover have "js_sort check_newer (map f xs) = map f (js_sort check_newer xs)" for xs
    by (rule js_sort_map) (simp add: check_newer_def assms)
  ultimately show ?thesis by (simp add: latest_alt split: list.split)
qed

lemma latest_update:
  assumes "\<And>c. p c \<Longrightarrow> pc_id (f c) = pc_id c \<and> pc_createdAt (f c) = pc_createdAt c \<and> pc_runId (f c) = pc_runId c \<and>
    isPolicyEvaluationCheckpoint (f c) = isPolicyEvaluationCheckpoint c"
  shows "latestWorkspacePolicyEvaluation run (db_update p f checks) =
    map_option (\<lambda>c. if p c then f c else c) (latestWorkspacePolicyEvaluation run checks)"
  unfolding db_update_def by (rule latest_map) (simp add: assms)

text \<open>The checkpoint a capture writes is the latest.\<close>

lemma latest_capture:
  "\<exists>c. latestWorkspacePolicyEvaluation run (captureWorkspacePolicyEvaluation sn run key i now checks) = Some c \<and> pc_id c = i \<and>
    pc_status c = ''pending'' \<and> result_field cr_fingerprint c = Some (sn_fingerprint sn) \<and> result_field cr_evaluationId c = None \<and>
    captureWorkspacePolicyEvaluation sn run key i now checks = checks @ [c]"
proof -
  obtain c where c: "captureWorkspacePolicyEvaluation sn run key i now checks = checks @ [c]" "pc_id c = i" "pc_status c = ''pending''"
    "result_field cr_fingerprint c = Some (sn_fingerprint sn)" "result_field cr_evaluationId c = None" "pc_runId c = run"
    "isPolicyEvaluationCheckpoint c" "pc_createdAt c = max now (js_default (map_option pc_createdAt (latestWorkspacePolicyEvaluation run checks)) 0 + 1)"
    by (simp add: captureWorkspacePolicyEvaluation_def Let_def result_field_def isPolicyEvaluationCheckpoint_def plain_result_def)
  have n: "latestWorkspacePolicyEvaluation run t = None \<Longrightarrow> d \<in> set t \<Longrightarrow> pc_runId d = run \<Longrightarrow> \<not> isPolicyEvaluationCheckpoint d" for t :: "'a policy_check table" and d
    by (cases "js_sort check_newer (filter (\<lambda>c. pc_runId c = run \<and> isPolicyEvaluationCheckpoint c) t)")
      (auto simp: latest_alt filter_empty_conv)
  obtain l where l: "latestWorkspacePolicyEvaluation run (checks @ [c]) = Some l"
    using c(6,7) n [of "checks @ [c]" c] by (cases "latestWorkspacePolicyEvaluation run (checks @ [c])") auto
  have "l = c"
  proof (rule ccontr)
    assume "l \<noteq> c"
    then have m: "l \<in> set checks" "pc_runId l = run" "isPolicyEvaluationCheckpoint l" using latest_SomeD [OF l] by auto
    obtain p where p: "latestWorkspacePolicyEvaluation run checks = Some p"
      using n [OF _ m(1,2)] m(3) by (cases "latestWorkspacePolicyEvaluation run checks") auto
    have "pc_createdAt l \<le> pc_createdAt p" using latest_newest [OF p m] .
    moreover have "pc_createdAt c \<le> pc_createdAt l" using latest_newest [OF l, of c] c(6,7) by simp
    ultimately show False using c(8) p by simp
  qed
  with l c show ?thesis by auto
qed


section \<open>Verdicts and the gate\<close>

lemma isOverridable_mandatory: "policyFailureIsOverridable level s \<Longrightarrow> level \<noteq> ''advisory''"
  by (auto simp: policyFailureIsOverridable_def split: option.splits)

text \<open>A row written by an evaluation lets the apply pass exactly when its verdict was neither a hard nor a soft failure.\<close>

lemma worker_verdict_gate:
  "evaluateSinglePolicy engine sn p = (status, hard, soft) \<Longrightarrow>
   policyCheckAllowsApply p (find_set sn p) (check_row run e fresh now p status) e' False \<longleftrightarrow> \<not> hard \<and> \<not> soft"
  using isOverridable_mandatory [of "po_enforcementLevel p" "find_set sn p"]
  by (auto simp: evaluateSinglePolicy_def recordPolicyCheckOutcome_def policyCheckAllowsApply_def check_row_def Let_def
      result_field_def plain_result_def split: sum.splits if_splits)

lemma agent_verdict_gate:
  "agentPolicyCheckVerdict p s status0 = (status, hard, soft) \<Longrightarrow>
   policyCheckAllowsApply p s (check_row run e fresh now p status) e' False \<longleftrightarrow> \<not> hard \<and> \<not> soft"
  using isOverridable_mandatory [of "po_enforcementLevel p" s]
  by (auto simp: agentPolicyCheckVerdict_def policyCheckAllowsApply_def check_row_def Let_def
      result_field_def plain_result_def split: if_splits)

lemma first_denial_iff:
  "first_denial sn current e ov ps = None \<longleftrightarrow>
   (\<forall>p \<in> set ps. \<exists>c. filter (\<lambda>c. pc_policyId c = Some (po_id p)) current = [c] \<and> policyCheckAllowsApply p (find_set sn p) c e ov)"
  by (induction ps) (auto split: list.splits)

lemma own_row:
  assumes "distinct (map po_id ps)" "p \<in> set ps"
  shows "filter (\<lambda>c. pc_policyId c = Some (po_id p)) (map (\<lambda>p. check_row run e fresh now p (st p)) ps) = [check_row run e fresh now p (st p)]"
  using assms
proof (induction ps)
  case (Cons q ps)
  have "filter (\<lambda>c. pc_policyId c = Some (po_id p)) (map (\<lambda>p. check_row run e fresh now p (st p)) ps) = []" if "p = q"
    using Cons.prems that by (simp add: filter_empty_conv check_row_def) (metis image_eqI)
  then show ?case using Cons by (auto simp: check_row_def image_iff)
qed simp

text \<open>The gate on a table that ends with the rows of a finished evaluation.\<close>

lemma gate_after_rows:
  fixes base :: "'h policy_check table"
  assumes "latestWorkspacePolicyEvaluation run base = Some c" "\<And>d. d \<in> set base \<Longrightarrow> result_field cr_evaluationId d \<noteq> Some (pc_id c)"
    and "unsupportedRuntimeError sn = None" "distinct (map po_id (sn_policies sn))"
    and "result_field cr_fingerprint c = Some (sn_fingerprint sn)" "\<And>x. fresh x \<noteq> pc_id c"
    and "set ps = set (sn_policies sn)" "distinct (map po_id ps)"
  shows "workspacePolicyExecutionError (Some sn) (Some run) False
      (db_update (\<lambda>d. pc_id d = pc_id c) (\<lambda>d. d\<lparr>pc_status := ''passed''\<rparr>) (base @ map (\<lambda>p. check_row run (pc_id c) fresh now p (st p)) ps)) = None \<longleftrightarrow>
    (\<forall>p \<in> set ps. policyCheckAllowsApply p (find_set sn p) (check_row run (pc_id c) fresh now p (st p) :: 'h policy_check) (pc_id c) False)"
proof -
  let ?rows = "map (\<lambda>p. check_row run (pc_id c) fresh now p (st p)) ps :: 'h policy_check list"
  have keep: "db_update (\<lambda>d. pc_id d = pc_id c) (\<lambda>d. d\<lparr>pc_status := ''passed''\<rparr>) ?rows = ?rows"
    by (rule db_update_id) (use assms(6) in \<open>auto simp: check_row_def\<close>)
  have "latestWorkspacePolicyEvaluation run (base @ ?rows) = Some c"
    using assms(1) by (subst latest_append) (auto simp: list_all_iff check_row_def isPolicyEvaluationCheckpoint_def)
  then have l: "latestWorkspacePolicyEvaluation run (db_update (\<lambda>d. pc_id d = pc_id c) (\<lambda>d. d\<lparr>pc_status := ''passed''\<rparr>) (base @ ?rows)) =
      Some (c\<lparr>pc_status := ''passed''\<rparr>)"
    by (subst latest_update) (simp_all add: isPolicyEvaluationCheckpoint_def)
  have "checks_of_evaluation run (pc_id c) (db_update (\<lambda>d. pc_id d = pc_id c) (\<lambda>d. d\<lparr>pc_status := ''passed''\<rparr>) base) = []"
    using assms(2) by (auto simp: checks_of_evaluation_def filter_empty_conv set_db_update result_field_def)
  moreover have "checks_of_evaluation run (pc_id c) ?rows = ?rows"
    by (simp add: checks_of_evaluation_def filter_id_conv) (auto simp: check_row_def result_field_def plain_result_def)
  ultimately have "checks_of_evaluation run (pc_id c) (db_update (\<lambda>d. pc_id d = pc_id c) (\<lambda>d. d\<lparr>pc_status := ''passed''\<rparr>) (base @ ?rows)) = ?rows"
    unfolding db_update_append keep by (simp add: checks_of_evaluation_def)
  moreover have "result_field cr_fingerprint (c\<lparr>pc_status := ''passed''\<rparr>) = Some (sn_fingerprint sn)" using assms(5) by (simp add: result_field_def)
  ultimately have "workspacePolicyExecutionError (Some sn) (Some run) False
      (db_update (\<lambda>d. pc_id d = pc_id c) (\<lambda>d. d\<lparr>pc_status := ''passed''\<rparr>) (base @ ?rows)) = first_denial sn ?rows (pc_id c) False (sn_policies sn)"
    using assms(3) l by (simp add: workspacePolicyExecutionError_def execution_error_impl_def)
  moreover have "filter (\<lambda>d. pc_policyId d = Some (po_id p)) ?rows = [check_row run (pc_id c) fresh now p (st p)]" if "p \<in> set (sn_policies sn)" for p
    using own_row [OF assms(8), of p run "pc_id c" fresh now st] that assms(7) by simp
  ultimately show ?thesis using assms(7) by (simp add: first_denial_iff cong: ball_cong)
qed


section \<open>Evaluation and gate agree\<close>

lemma complete_alt: "completeWorkspacePolicyEvaluation current i fp t =
    (sn_fingerprint current = fp, db_update (\<lambda>d. pc_id d = i) (\<lambda>d. d\<lparr>pc_status := if sn_fingerprint current = fp then ''passed'' else ''errored''\<rparr>) t)"
  by (simp add: completeWorkspacePolicyEvaluation_def Let_def)

lemma gate_blocked:
  assumes "latestWorkspacePolicyEvaluation run t = Some c" "result_field cr_fingerprint c \<noteq> Some (sn_fingerprint sn) \<or> pc_status c \<noteq> ''passed''"
  shows "workspacePolicyExecutionError (Some sn) (Some run) ov t \<noteq> None"
  using assms by (auto simp: workspacePolicyExecutionError_def execution_error_impl_def split: option.split)

text \<open>Completing an evaluation under other policies than it was captured with closes the gate.\<close>

lemma gate_after_change:
  assumes "latestWorkspacePolicyEvaluation run (base @ rows) = Some c" "result_field cr_fingerprint c = Some fp" "fp \<noteq> sn_fingerprint current"
  shows "workspacePolicyExecutionError (Some current) (Some run) False
    (snd (completeWorkspacePolicyEvaluation current (pc_id c) fp (base @ rows))) \<noteq> None"
proof -
  have "latestWorkspacePolicyEvaluation run (snd (completeWorkspacePolicyEvaluation current (pc_id c) fp (base @ rows))) =
      Some (c\<lparr>pc_status := ''errored''\<rparr>)"
    unfolding complete_alt snd_conv using assms by (subst latest_update) (auto simp: isPolicyEvaluationCheckpoint_def)
  then show ?thesis by (rule gate_blocked) simp
qed

lemma rows_not_checkpoint:
  "list_all (\<lambda>c. \<not> isPolicyEvaluationCheckpoint c) (map (\<lambda>p. check_row run e fresh now p (st p)) ps)"
  "list_all (\<lambda>c. \<not> isPolicyEvaluationCheckpoint c) (map (unsupported_row run e fresh now) sets)"
  by (simp_all add: list_all_iff check_row_def unsupported_row_def isPolicyEvaluationCheckpoint_def)

lemma unsupported_iff: "unsupportedRuntimeError sn = None \<longleftrightarrow> filter (\<lambda>s. \<not> supported_kind s) (sn_sets sn) = []"
  by (auto simp: unsupportedRuntimeError_def db_find_None_iff filter_empty_conv)

lemma gate_unsupported: "unsupportedRuntimeError sn \<noteq> None \<Longrightarrow> workspacePolicyExecutionError (Some sn) runId ov t \<noteq> None"
  by (auto simp: workspacePolicyExecutionError_def execution_error_impl_def)

text \<open>The rows a run's evaluation adds, and its verdict on the policies it captured.\<close>

definition evaluated_status :: "policy_engine \<Rightarrow> bool \<Rightarrow> 'h policy_snapshot \<Rightarrow> policy \<Rightarrow> string" where
  "evaluated_status engine plan sn p = (if plan then fst (evaluateSinglePolicy engine sn p) else ''errored'')"

lemma errored_denied: "\<not> policyCheckAllowsApply p s (check_row run e fresh now p ''errored'') e' False"
  by (simp add: policyCheckAllowsApply_def check_row_def)

lemma runPolicyChecks_rows:
  fixes checks :: "'h policy_check table"
  assumes "runPolicyChecks engine plan sn current run i fresh now checks = ((proceed, hard, soft), checks')"
    and "unsupportedRuntimeError sn = None"
  shows "checks' = snd (completeWorkspacePolicyEvaluation current i (sn_fingerprint sn) (captureWorkspacePolicyEvaluation sn run None i now checks @
      map (\<lambda>p. check_row run i fresh now p (evaluated_status engine plan sn p)) (sn_policies sn))) \<and>
    (proceed \<longleftrightarrow> sn_fingerprint current = sn_fingerprint sn \<and> (\<forall>p \<in> set (sn_policies sn).
      policyCheckAllowsApply p (find_set sn p) (check_row run i fresh now p (evaluated_status engine plan sn p) :: 'h policy_check) i False))"
proof -
  have v: "policyCheckAllowsApply p (find_set sn p) (check_row run i fresh now p (fst (evaluateSinglePolicy engine sn p)) :: 'h policy_check) i False \<longleftrightarrow>
      \<not> fst (snd (evaluateSinglePolicy engine sn p)) \<and> \<not> snd (snd (evaluateSinglePolicy engine sn p))" for p
    by (rule worker_verdict_gate) simp
  have u: "filter (\<lambda>s. \<not> supported_kind s) (sn_sets sn) = []" using assms(2) by (simp add: unsupported_iff)
  consider "sn_policies sn = []" | "sn_policies sn \<noteq> []" "\<not> plan" | "sn_policies sn \<noteq> []" plan by blast
  then show ?thesis
  proof cases
    case 1
    then show ?thesis using assms(1) u by (auto simp: runPolicyChecks_def Let_def complete_alt)
  next
    case 2
    then have "hd (sn_policies sn) \<in> set (sn_policies sn)" by simp
    with 2 show ?thesis using assms(1) u
      by (auto simp: runPolicyChecks_def Let_def failClosedPolicyChecks_def evaluated_status_def errored_denied)
  next
    case 3
    then show ?thesis using assms(1) u
      by (auto simp: runPolicyChecks_def Let_def complete_alt evaluated_status_def v list_ex_iff split_beta)
  qed
qed


text \<open>C16: the worker and the gate agree: right after an evaluation by the worker, the gate lets the run be applied
  without an override exactly when the evaluation said so, whatever the engines answered, also when the plan was
  missing, an engine is unsupported or the policies changed meanwhile.\<close>

theorem worker_evaluation_agrees_with_gate:
  assumes "runPolicyChecks engine plan sn current run i fresh now checks = ((proceed, hard, soft), checks')"
    and "\<And>c. c \<in> set checks \<Longrightarrow> pc_id c \<noteq> i \<and> result_field cr_evaluationId c \<noteq> Some i" "\<And>x. fresh x \<noteq> i"
    and "distinct (map po_id (sn_policies sn))" "sn_fingerprint current = sn_fingerprint sn \<Longrightarrow> current = sn"
  shows "proceed \<longleftrightarrow> workspacePolicyExecutionError (Some current) (Some run) False checks' = None"
proof -
  obtain c where c: "latestWorkspacePolicyEvaluation run (captureWorkspacePolicyEvaluation sn run None i now checks) = Some c" "pc_id c = i"
      "result_field cr_fingerprint c = Some (sn_fingerprint sn)" "result_field cr_evaluationId c = None"
      "captureWorkspacePolicyEvaluation sn run None i now checks = checks @ [c]"
    using latest_capture by blast
  show ?thesis
  proof (cases "unsupportedRuntimeError sn = None")
    case True
    note r = runPolicyChecks_rows [OF assms(1) True]
    let ?rows = "map (\<lambda>p. check_row run i fresh now p (evaluated_status engine plan sn p)) (sn_policies sn)"
    show ?thesis
    proof (cases "sn_fingerprint current = sn_fingerprint sn")
      case same: True
      have "result_field cr_evaluationId d \<noteq> Some (pc_id c)" if "d \<in> set (checks @ [c])" for d using that assms(2) c(2,4) by auto
      then show ?thesis
        using r gate_after_rows [OF c(1) [unfolded c(5)] _ True assms(4) c(3), of fresh "sn_policies sn" now "evaluated_status engine plan sn"]
          same assms(3,4,5) c(2,5) by (simp add: complete_alt)
    next
      case False
      have "latestWorkspacePolicyEvaluation run ((checks @ [c]) @ ?rows) = Some c"
        using c(1,5) by (subst latest_append) (simp_all add: rows_not_checkpoint del: append_assoc)
      from gate_after_change [OF this c(3)] show ?thesis using r False c(2,5) by auto
    qed
  next
    case False
    then have p: "\<not> proceed" using assms(1) by (auto simp: runPolicyChecks_def Let_def unsupported_iff)
    have "checks' = snd (completeWorkspacePolicyEvaluation current i (sn_fingerprint sn)
        ((checks @ [c]) @ map (unsupported_row run i fresh now) (filter (\<lambda>s. \<not> supported_kind s) (sn_sets sn))))"
      using assms(1) False by (auto simp: runPolicyChecks_def Let_def unsupported_iff c(5))
    moreover have "latestWorkspacePolicyEvaluation run ((checks @ [c]) @ map (unsupported_row run i fresh now) (filter (\<lambda>s. \<not> supported_kind s) (sn_sets sn))) = Some c"
      using c(1,5) by (subst latest_append) (simp_all add: rows_not_checkpoint)
    ultimately show ?thesis using p gate_after_change [OF _ c(3), of run _ _ current] gate_unsupported [OF False] assms(5) c(2)
      by (metis (no_types, lifting))
  qed
qed


text \<open>The policies of a snapshot belong to its sets, and keys are unique when they are in the tables.\<close>

definition snapshot_wf :: "'h policy_snapshot \<Rightarrow> bool" where
  "snapshot_wf sn \<longleftrightarrow> distinct (map ps_id (sn_sets sn)) \<and> distinct (map po_id (sn_policies sn)) \<and>
     (\<forall>p \<in> set (sn_policies sn). \<exists>s \<in> set (sn_sets sn). po_policySetId p = Some (ps_id s))"

lemma snapshot_of_wf:
  "distinct (map ps_id (pg_sets cfg)) \<Longrightarrow> distinct (map po_id (pg_policies cfg)) \<Longrightarrow> snapshot_wf (snapshot_of hash cfg)"
  by (auto simp: snapshot_wf_def snapshot_of_def Let_def distinct_map_filter split: option.splits)

text \<open>The policies the agent is given are those of the snapshot, each once, with the set they belong to.\<close>

definition agent_pairs :: "'h policy_snapshot \<Rightarrow> (policy_set \<times> policy) list" where
  "agent_pairs sn = concat (map (\<lambda>s. map (Pair s) (filter (\<lambda>p. po_policySetId p = Some (ps_id s)) (sn_policies sn)))
     (filter agent_runs_set (sn_sets sn)))"

lemma concat_nonempty: "concat (map (\<lambda>(s, ps). map (Pair s) ps) (filter (\<lambda>(s, ps). ps \<noteq> []) (map (\<lambda>s. (s, f s)) ss))) = concat (map (\<lambda>s. map (Pair s) (f s)) ss)"
  by (induction ss) auto

lemma getAgentPolicyEvaluation_alt:
  "getAgentPolicyEvaluation sn = (if agent_pairs sn = [] \<and> filter (\<lambda>s. \<not> agent_runs_set s) (sn_sets sn) = [] then None
    else Some (filter (\<lambda>(s, ps). ps \<noteq> []) (map (\<lambda>s. (s, filter (\<lambda>p. po_policySetId p = Some (ps_id s)) (sn_policies sn)))
      (filter agent_runs_set (sn_sets sn))), filter (\<lambda>s. \<not> agent_runs_set s) (sn_sets sn)))"
  by (auto simp: getAgentPolicyEvaluation_def Let_def agent_pairs_def filter_empty_conv)

lemma agent_pairs_facts:
  assumes "snapshot_wf sn" "filter (\<lambda>s. \<not> agent_runs_set s) (sn_sets sn) = []"
  shows "set (map snd (agent_pairs sn)) = set (sn_policies sn)" "distinct (map po_id (map snd (agent_pairs sn)))"
    "(s, p) \<in> set (agent_pairs sn) \<Longrightarrow> find_set sn p = Some (ps_kind s, ps_overridable s)"
proof -
  have all: "filter agent_runs_set (sn_sets sn) = sn_sets sn" using assms(2) by (simp add: filter_empty_conv filter_id_conv)
  have m: "set (agent_pairs sn) = {(s, p). s \<in> set (sn_sets sn) \<and> p \<in> set (sn_policies sn) \<and> po_policySetId p = Some (ps_id s)}"
    by (auto simp: agent_pairs_def all)
  show "set (map snd (agent_pairs sn)) = set (sn_policies sn)"
    using assms(1) by (force simp: m snapshot_wf_def)
  show "find_set sn p = Some (ps_kind s, ps_overridable s)" if "(s, p) \<in> set (agent_pairs sn)"
    using that assms(1) db_find_key [of ps_id "sn_sets sn" s] by (auto simp: m find_set_def snapshot_wf_def unique_by_def)
  have inj: "po_id p = po_id q \<Longrightarrow> p \<in> set (sn_policies sn) \<Longrightarrow> q \<in> set (sn_policies sn) \<Longrightarrow> p = q" for p q
    using assms(1) by (auto simp: snapshot_wf_def distinct_map inj_on_def)
  have u: "distinct (map po_id (map snd (concat (map (\<lambda>s. map (Pair s) (filter (\<lambda>p. po_policySetId p = Some (ps_id s)) (sn_policies sn))) ss))))"
    if "distinct (map ps_id ss)" for ss
    using that
  proof (induction ss)
    case (Cons s ss)
    have d: "distinct (map po_id (filter P (sn_policies sn)))" for P using assms(1) by (simp add: snapshot_wf_def distinct_map_filter)
    have "po_id p \<noteq> po_id q" if "p \<in> set (sn_policies sn)" "po_policySetId p = Some (ps_id s)"
        "q \<in> set (sn_policies sn)" "po_policySetId q = Some (ps_id t)" "t \<in> set ss" for p q t
    proof
      assume "po_id p = po_id q"
      with that inj have "ps_id s = ps_id t" by force
      with that(5) Cons.prems show False by auto
    qed
    then show ?case using Cons d by (auto simp: comp_def)
  qed simp
  show "distinct (map po_id (map snd (agent_pairs sn)))"
    unfolding agent_pairs_def all by (rule u) (use assms(1) in \<open>simp add: snapshot_wf_def\<close>)
qed

text \<open>What the agent's report decides: a status for each policy.\<close>

definition agent_status :: "'h policy_snapshot \<Rightarrow> (string, json) js_map \<Rightarrow> policy \<Rightarrow> string \<times> bool \<times> bool" where
  "agent_status sn result p = agentPolicyCheckVerdict p (find_set sn p) (js_default (js_get (agentPolicyResults result) (po_id p)) ''errored'')"

lemma recordAgentPolicyChecks_rows:
  fixes checks :: "'h policy_check table"
  assumes "snapshot_wf sn" "filter (\<lambda>s. \<not> agent_runs_set s) (sn_sets sn) = []"
    and "latestWorkspacePolicyEvaluation run checks = Some c" "result_field cr_fingerprint c = Some (sn_fingerprint sn)"
    and "recordAgentPolicyChecks sn run result fresh now checks = ((evaluated, hard, soft), checks')"
  shows "checks' = db_update (\<lambda>d. pc_id d = pc_id c) (\<lambda>d. d\<lparr>pc_status := ''passed''\<rparr>)
      (checks @ map (\<lambda>p. check_row run (pc_id c) fresh now p (fst (agent_status sn result p))) (map snd (agent_pairs sn))) \<and>
    (\<not> hard \<and> \<not> soft \<longleftrightarrow> (\<forall>p \<in> set (map snd (agent_pairs sn)).
      policyCheckAllowsApply p (find_set sn p) (check_row run (pc_id c) fresh now p (fst (agent_status sn result p)) :: 'h policy_check) (pc_id c) False))"
proof (cases "agent_pairs sn = []")
  case True
  then show ?thesis using assms by (auto simp: recordAgentPolicyChecks_def getAgentPolicyEvaluation_alt complete_alt)
next
  case False
  let ?verdict = "\<lambda>(s, p). agentPolicyCheckVerdict p (Some (ps_kind s, ps_overridable s)) (js_default (js_get (agentPolicyResults result) (po_id p)) ''errored'')"
  have v: "?verdict x = agent_status sn result (snd x)" if "x \<in> set (agent_pairs sn)" for x
    using that agent_pairs_facts(3) [OF assms(1,2), of "fst x" "snd x"] by (simp add: agent_status_def case_prod_beta)
  have rows: "map (\<lambda>(s, p). check_row run (pc_id c) fresh now p (fst (?verdict (s, p)))) (agent_pairs sn) =
      map (\<lambda>p. check_row run (pc_id c) fresh now p (fst (agent_status sn result p))) (map snd (agent_pairs sn))"
    using v by (auto simp: case_prod_beta)
  have ex: "list_ex (\<lambda>x. f (?verdict x)) (agent_pairs sn) = list_ex (\<lambda>p. f (agent_status sn result p)) (map snd (agent_pairs sn))" for f
    using v by (auto simp: list_ex_iff)
  have g: "policyCheckAllowsApply p (find_set sn p) (check_row run (pc_id c) fresh now p (fst (agent_status sn result p)) :: 'h policy_check) (pc_id c) False \<longleftrightarrow>
      \<not> fst (snd (agent_status sn result p)) \<and> \<not> snd (snd (agent_status sn result p))" for p
    by (rule agent_verdict_gate [of _ _ "js_default (js_get (agentPolicyResults result) (po_id p)) ''errored''"]) (simp add: agent_status_def)
  have "recordAgentPolicyChecks sn run result fresh now checks =
      ((True, list_ex (\<lambda>x. fst (snd (?verdict x))) (agent_pairs sn), list_ex (\<lambda>x. snd (snd (?verdict x))) (agent_pairs sn)),
       db_update (\<lambda>d. pc_id d = pc_id c) (\<lambda>d. d\<lparr>pc_status := ''passed''\<rparr>)
         (checks @ map (\<lambda>(s, p). check_row run (pc_id c) fresh now p (fst (?verdict (s, p)))) (agent_pairs sn)))"
    using assms(3,4) False by (simp add: recordAgentPolicyChecks_def getAgentPolicyEvaluation_alt assms(2) complete_alt concat_nonempty
        agent_pairs_def [symmetric] Let_def)
  then have "checks' = db_update (\<lambda>d. pc_id d = pc_id c) (\<lambda>d. d\<lparr>pc_status := ''passed''\<rparr>)
      (checks @ map (\<lambda>p. check_row run (pc_id c) fresh now p (fst (agent_status sn result p))) (map snd (agent_pairs sn)))"
    "hard = list_ex (\<lambda>p. fst (snd (agent_status sn result p))) (map snd (agent_pairs sn))"
    "soft = list_ex (\<lambda>p. snd (snd (agent_status sn result p))) (map snd (agent_pairs sn))"
    using assms(5) unfolding rows ex [of "\<lambda>v. fst (snd v)"] ex [of "\<lambda>v. snd (snd v)"] by simp_all
  then show ?thesis by (auto simp: g list_ex_iff)
qed


text \<open>The agent and the gate agree: right after the completion of a plan by an agent the gate lets the run be applied
  without an override exactly when the report had neither a hard nor a soft failure, whatever the agent reported.\<close>

theorem agent_evaluation_agrees_with_gate:
  assumes "recordAgentPolicyChecks sn run result fresh now checks = ((evaluated, hard, soft), checks')" "snapshot_wf sn"
    and "latestWorkspacePolicyEvaluation run checks = Some c" "pc_status c \<noteq> ''passed''"
    and "\<And>d. d \<in> set checks \<Longrightarrow> result_field cr_evaluationId d \<noteq> Some (pc_id c)" "\<And>x. fresh x \<noteq> pc_id c"
  shows "\<not> hard \<and> \<not> soft \<longleftrightarrow> workspacePolicyExecutionError (Some sn) (Some run) False checks' = None"
proof (cases "result_field cr_fingerprint c = Some (sn_fingerprint sn)")
  case False
  then show ?thesis using assms(1,3) gate_blocked [OF assms(3)] by (auto simp: recordAgentPolicyChecks_def)
next
  case same: True
  show ?thesis
  proof (cases "filter (\<lambda>s. \<not> agent_runs_set s) (sn_sets sn) = []")
    case True
    then have "unsupportedRuntimeError sn = None"
      by (auto simp: unsupported_iff filter_empty_conv agent_runs_set_def supported_kind_def)
    note u = this and f = agent_pairs_facts(1,2) [OF assms(2) True] and r = recordAgentPolicyChecks_rows [OF assms(2) True assms(3) same assms(1)]
    have "distinct (map po_id (sn_policies sn))" using assms(2) by (simp add: snapshot_wf_def)
    note g = gate_after_rows [where fresh = fresh and now = now and st = "\<lambda>p. fst (agent_status sn result p)", OF assms(3,5) u this same assms(6) f]
    show ?thesis unfolding conjunct1 [OF r] using conjunct2 [OF r] g by simp
  next
    case False
    then have "hard" "checks' = checks @ map (unsupported_row run (pc_id c) fresh now) (filter (\<lambda>s. \<not> agent_runs_set s) (sn_sets sn))"
      using assms(1,3) same by (auto simp: recordAgentPolicyChecks_def getAgentPolicyEvaluation_alt)
    moreover have "latestWorkspacePolicyEvaluation run (checks @ map (unsupported_row run (pc_id c) fresh now) (filter (\<lambda>s. \<not> agent_runs_set s) (sn_sets sn))) = Some c"
      using assms(3) by (subst latest_append) (simp_all add: rows_not_checkpoint)
    ultimately show ?thesis using gate_blocked assms(4) by metis
  qed
qed


section \<open>Overrides\<close>

lemma override_check_keeps [simp]:
  "pc_id (override_check actor c u) = pc_id u" "pc_createdAt (override_check actor c u) = pc_createdAt u"
  "pc_runId (override_check actor c u) = pc_runId u" "pc_policyId (override_check actor c u) = pc_policyId u"
  "pc_status (override_check actor c u) = ''overridden''"
  "result_field cr_evaluationId (override_check actor c c) = result_field cr_evaluationId c"
  "result_field cr_overrideEvaluationId (override_check actor c c) = result_field cr_evaluationId c"
  "isPolicyEvaluationCheckpoint (override_check actor c c) = isPolicyEvaluationCheckpoint c"
  by (cases "pc_result c"; simp add: override_check_def result_field_def isPolicyEvaluationCheckpoint_def)+

text \<open>The updates replace exactly the rows of the targets.\<close>

lemma override_run_checks_map:
  "unique_by pc_id t \<Longrightarrow> set targets \<subseteq> set t \<Longrightarrow> distinct (map pc_id targets) \<Longrightarrow>
   override_run_checks actor targets t = map (\<lambda>c. if c \<in> set targets then override_check actor c c else c) t"
proof (induction targets arbitrary: t)
  case Nil
  then show ?case by (simp add: override_run_checks_def)
next
  case (Cons c targets)
  let ?t = "db_update (\<lambda>u. pc_id u = pc_id c \<and> pc_status u = pc_status c) (override_check actor c) t"
  have t: "?t = map (\<lambda>u. if u = c then override_check actor c c else u) t"
    unfolding db_update_def using Cons.prems by (auto dest: unique_byD)
  have "unique_by pc_id ?t" using Cons.prems(1) by (intro unique_by_update) simp_all
  moreover have "set targets \<subseteq> set ?t" using Cons.prems(2,3) unfolding t by (force simp: image_iff)
  ultimately have "override_run_checks actor (c # targets) t = map (\<lambda>c. if c \<in> set targets then override_check actor c c else c) ?t"
    using Cons by (simp add: override_run_checks_def)
  moreover have "override_check actor c c \<notin> set targets" using Cons.prems(3) by (metis distinct.simps(2) image_eqI list.map(2) list.set_map override_check_keeps(1))
  ultimately show ?case unfolding t by auto
qed

lemma checks_of_map:
  "(\<And>c. pc_runId (f c) = pc_runId c \<and> result_field cr_evaluationId (f c) = result_field cr_evaluationId c) \<Longrightarrow>
   checks_of_evaluation run e (map f t) = map f (checks_of_evaluation run e t)"
  by (simp add: checks_of_evaluation_def filter_map comp_def)

lemma policy_filter_map:
  "(\<And>c. pc_policyId (f c) = pc_policyId c) \<Longrightarrow> filter (\<lambda>c. pc_policyId c = i) (map f t) = map f (filter (\<lambda>c. pc_policyId c = i) t)"
  by (simp add: filter_map comp_def)

lemma overridable_iff:
  assumes "latestWorkspacePolicyEvaluation run checks = Some cp" "c \<in> set (overridableWorkspacePolicyChecks (Some sn) run None checks)"
  shows "c \<in> set checks \<and> pc_runId c = run \<and> result_field cr_evaluationId c = Some (pc_id cp) \<and> pc_status c \<in> {''failed'', ''soft_failed''} \<and>
    (\<exists>p \<in> set (sn_policies sn). pc_policyId c = Some (po_id p) \<and> db_find (\<lambda>p. Some (po_id p) = pc_policyId c) (sn_policies sn) = Some p \<and>
       policyFailureIsOverridable (po_enforcementLevel p) (find_set sn p))"
proof -
  obtain p where p: "db_find (\<lambda>p. Some (po_id p) = pc_policyId c) (sn_policies sn) = Some p" "policyFailureIsOverridable (po_enforcementLevel p) (find_set sn p)"
    using assms by (auto simp: overridableWorkspacePolicyChecks_def split: if_splits option.splits)
  from db_find_SomeD [OF p(1)] have "p \<in> set (sn_policies sn)" "pc_policyId c = Some (po_id p)" by simp_all
  with p assms show ?thesis by (auto simp: overridableWorkspacePolicyChecks_def split: if_splits option.splits)
qed

lemma overridable_targets:
  assumes "overrideRun (Some sn) run actor checks = (True, checks')"
  shows "workspacePolicyExecutionError (Some sn) (Some run) True checks = None \<and>
    checks' = override_run_checks actor (overridableWorkspacePolicyChecks (Some sn) run None checks) checks \<and>
    overridableWorkspacePolicyChecks (Some sn) run None checks \<noteq> [] \<and>
    (\<exists>cp. latestWorkspacePolicyEvaluation run checks = Some cp)"
proof -
  let ?l = "overridableWorkspacePolicyChecks (Some sn) run None checks"
  have l: "?l \<noteq> []" "checks' = override_run_checks actor ?l checks" using assms by (cases ?l; simp add: overrideRun_def)+
  moreover from l(1) have "workspacePolicyExecutionError (Some sn) (Some run) True checks = None \<and>
      (\<exists>cp. latestWorkspacePolicyEvaluation run checks = Some cp)"
    by (auto simp: overridableWorkspacePolicyChecks_def split: if_splits option.splits)
  ultimately show ?thesis by blast
qed



section \<open>A policy that denies\<close>

definition demo_policy :: policy where
  "demo_policy = \<lparr>po_id = ''p'', po_name = ''no-public-buckets'', po_policySetId = Some ''s'', po_enforcementLevel = ''soft-mandatory'',
     po_query = None, po_source = Some ''main = rule { false }''\<rparr>"

definition demo_config :: policy_config where
  "demo_config = \<lparr>pg_sets = [\<lparr>ps_id = ''s'', ps_orgId = ''o'', ps_name = ''base'', ps_kind = ''sentinel'', ps_global = Some True,
       ps_overridable = Some False, ps_agentEnabled = Some True, ps_tagMatchLogic = None\<rparr>],
     pg_policies = [demo_policy], pg_parameters = [], pg_enforcement = \<lparr>en_revision = 0, en_opa = True, en_sentinel = True\<rparr>\<rparr>"

definition demo_snapshot :: "policy_config policy_snapshot" where "demo_snapshot = snapshot_of id demo_config"

definition demo_checks :: "policy_config policy_check table" where
  "demo_checks = snd (runPolicyChecks (\<lambda>_. Inl ''failed'') True demo_snapshot demo_snapshot ''r'' ''e1'' (Cons (CHR ''c'')) 5 [])"

definition demo_captured :: "policy_config policy_check table" where
  "demo_captured = captureWorkspacePolicyEvaluation demo_snapshot ''r'' (Some ''job:1'') ''e1'' 5 []"

definition demo_report :: "(string, json) js_map" where
  "demo_report = [(''policy-checks'', JArr [JObj [(''policy-id'', JStr ''p''), (''status'', JStr ''passed''),
     (''result'', JObj [(''passed'', JBool True)])]])]"

lemma worker_evaluation_agrees_with_gate_witness:
  "workspacePolicyExecutionError (Some demo_snapshot) (Some ''r'') False demo_checks \<noteq> None"
proof -
  have "runPolicyChecks (\<lambda>_. Inl ''failed'') True demo_snapshot demo_snapshot ''r'' ''e1'' (Cons (CHR ''c'')) 5 [] = ((False, False, True), demo_checks)"
    unfolding demo_checks_def by code_simp
  from worker_evaluation_agrees_with_gate [OF this] show ?thesis
    by (simp add: demo_snapshot_def snapshot_of_def demo_config_def Let_def)
qed

lemma agent_evaluation_agrees_with_gate_witness:
  "workspacePolicyExecutionError (Some demo_snapshot) (Some ''r'') False
     (snd (recordAgentPolicyChecks demo_snapshot ''r'' demo_report (Cons (CHR ''c'')) 6 demo_captured)) = None"
proof -
  have r: "recordAgentPolicyChecks demo_snapshot ''r'' demo_report (Cons (CHR ''c'')) 6 demo_captured =
      ((True, False, False), snd (recordAgentPolicyChecks demo_snapshot ''r'' demo_report (Cons (CHR ''c'')) 6 demo_captured))"
    by code_simp
  have wf: "snapshot_wf demo_snapshot" unfolding demo_snapshot_def by (rule snapshot_of_wf) (simp_all add: demo_config_def)
  obtain c where c: "latestWorkspacePolicyEvaluation ''r'' demo_captured = Some c" "pc_id c = ''e1''" "pc_status c = ''pending''"
      "result_field cr_evaluationId c = None" "demo_captured = [c]"
    using latest_capture [of "''r''" demo_snapshot "Some ''job:1''" "''e1''" 5 "[]"] by (auto simp: demo_captured_def)
  have "result_field cr_evaluationId d \<noteq> Some (pc_id c)" if "d \<in> set demo_captured" for d using that unfolding c(5) by (simp add: c(2,4))
  from agent_evaluation_agrees_with_gate [OF r wf c(1) _ this] show ?thesis using c(2,3) by simp
qed


end
