(* ===== verification/AgentProtocol.thy ===== *)
theory AgentProtocol imports JsValues begin

text \<open>
  What an agent and the server agree on: the protocol offer of a registration and its negotiation, the phases an
  agent may be given (\<open>lib/agent-protocol.ts\<close>), the fencing token and the limits of a result that an agent
  sends (\<open>lib/agent-jobs.ts\<close>). The number of UTF-16 units of a string, the size of a serialized value and
  \<open>localeCompare\<close> are arguments.
\<close>

section \<open>The protocol\<close>

definition AGENT_PROTOCOL_VERSION :: string where "AGENT_PROTOCOL_VERSION = ''1''"

definition AGENT_PROTOCOL_CAPABILITIES :: "string list" where
  "AGENT_PROTOCOL_CAPABILITIES =
    [''operation.plan'', ''operation.apply'', ''operation.policy'', ''operation.assessment'', ''operation.stack'',
     ''operation.source-bundle'', ''operation.test'', ''artifact.configuration'', ''artifact.filesystem'',
     ''artifact.log'', ''artifact.plan-json'', ''artifact.state-json'', ''artifact.atomic-upload'',
     ''lease.heartbeat'', ''lease.fencing'', ''cancellation'', ''state.publication'']"

definition LEGACY_AGENT_CAPABILITIES :: "string list" where
  "LEGACY_AGENT_CAPABILITIES =
    [''operation.plan'', ''operation.apply'', ''operation.policy'', ''operation.assessment'', ''operation.stack'',
     ''operation.source-bundle'', ''operation.test'', ''artifact.configuration'', ''artifact.filesystem'',
     ''artifact.log'', ''artifact.plan-json'', ''artifact.state-json'', ''artifact.atomic-upload'',
     ''lease.heartbeat'', ''lease.fencing'', ''cancellation'', ''state.publication'']"

definition AGENT_ARTIFACT_FORMATS :: "string list" where
  "AGENT_ARTIFACT_FORMATS = [''tar.gz'', ''json'', ''text'']"

record protocol_offer =
  of_versions :: "string list"
  of_capabilities :: "string list"
  of_requiredCapabilities :: "string list"
  of_artifactFormats :: "string list"
  of_legacy :: bool

record protocol_negotiation =
  ng_version :: string
  ng_capabilities :: "string list"
  ng_unsupportedCapabilities :: "string list"
  ng_artifactFormats :: "string list"
  ng_unsupportedArtifactFormats :: "string list"
  ng_legacy :: bool

datatype negotiation_error = Unsupported_version "string list" | Unsupported_capability "string list"

fun list_item :: "(string \<Rightarrow> nat) \<Rightarrow> json \<Rightarrow> string option" where
  "list_item units (JStr s) = (if s \<noteq> [] \<and> units s \<le> 128 then Some s else None)"
| "list_item units _ = None"

definition stringList :: "(string \<Rightarrow> nat) \<Rightarrow> json option \<Rightarrow> string list option" where
  "stringList units v = (case v of
     Some (JArr items) \<Rightarrow> if list_all (\<lambda>i. list_item units i \<noteq> None) items
       then Some (js_unique (map (\<lambda>i. the (list_item units i)) items)) else None
   | _ \<Rightarrow> None)"

definition commaList :: "string option \<Rightarrow> string list option" where
  "commaList v = (case v of
     None \<Rightarrow> None
   | Some s \<Rightarrow> if js_trim s = [] then None
       else (let result = filter (\<lambda>item. item \<noteq> []) (map js_trim (split_on (CHR '','') s)) in
         if result = [] then None else Some (js_unique result)))"

definition versionList :: "(string \<Rightarrow> nat) \<Rightarrow> json option \<Rightarrow> string list option" where
  "versionList units v = (case v of
     Some (JStr s) \<Rightarrow> if js_trim s \<noteq> [] then Some [js_trim s] else None
   | _ \<Rightarrow> stringList units v)"

text \<open>\<open>a ?? b\<close> on lists that may be undefined.\<close>

definition else_list :: "'a option \<Rightarrow> 'a option \<Rightarrow> 'a option" where
  "else_list a b = (case a of None \<Rightarrow> b | Some x \<Rightarrow> Some x)"

definition offerVersions :: "(string \<Rightarrow> nat) \<Rightarrow> (string, json) js_map \<Rightarrow> string option \<Rightarrow> string list" where
  "offerVersions units body header = js_default (else_list (versionList units (js_get body ''protocol_versions''))
     (else_list (versionList units (js_get body ''protocol_version'')) (commaList header))) []"

definition offerCapabilities :: "(string \<Rightarrow> nat) \<Rightarrow> (string, json) js_map \<Rightarrow> string option \<Rightarrow> string list option" where
  "offerCapabilities units body header = else_list (stringList units (js_get body ''capabilities'')) (commaList header)"

definition offerRequiredCapabilities :: "(string \<Rightarrow> nat) \<Rightarrow> (string, json) js_map \<Rightarrow> string option \<Rightarrow> string list" where
  "offerRequiredCapabilities units body header = js_default (else_list (stringList units (js_get body ''required_capabilities''))
     (else_list (stringList units (js_get body ''requiredCapabilities'')) (commaList header))) []"

definition offerArtifactFormats :: "(string \<Rightarrow> nat) \<Rightarrow> (string, json) js_map \<Rightarrow> string option \<Rightarrow> string list" where
  "offerArtifactFormats units body header = js_default (else_list (stringList units (js_get body ''artifact_formats''))
     (else_list (stringList units (js_get body ''artifactFormats'')) (commaList header))) []"

definition parseAgentProtocolOffer ::
  "(string \<Rightarrow> nat) \<Rightarrow> (string, json) js_map \<Rightarrow> (string \<Rightarrow> string option) \<Rightarrow> protocol_offer" where
  "parseAgentProtocolOffer units body headers =
    (let header = (\<lambda>name. else_list (headers (''tfc-agent-'' @ name)) (headers (''terrence-agent-'' @ name)));
         versions = offerVersions units body (header ''protocol-version'');
         rawCapabilities = offerCapabilities units body (header ''capabilities'');
         rawRequired = offerRequiredCapabilities units body (header ''required-capabilities'') in
     \<lparr>of_versions = versions, of_capabilities = js_default rawCapabilities LEGACY_AGENT_CAPABILITIES,
      of_requiredCapabilities = rawRequired,
      of_artifactFormats = offerArtifactFormats units body (header ''artifact-formats''),
      of_legacy = (versions = [] \<and> rawCapabilities = None \<and> rawRequired = [])\<rparr>)"

text \<open>\<open>/^(\d+)(?:\.\d+)?$/\<close> whose first group is the version.\<close>

definition compatibleVersion :: "string \<Rightarrow> bool" where
  "compatibleVersion v \<longleftrightarrow>
    (let digits = takeWhile is_digit v; rest = dropWhile is_digit v in
     digits = AGENT_PROTOCOL_VERSION \<and>
     (case rest of [] \<Rightarrow> True | c # minor \<Rightarrow> c = CHR ''.'' \<and> minor \<noteq> [] \<and> list_all is_digit minor))"

definition negotiateAgentProtocol :: "protocol_offer \<Rightarrow> negotiation_error + protocol_negotiation" where
  "negotiateAgentProtocol o' =
    (let versions = (if of_versions o' = [] then [AGENT_PROTOCOL_VERSION] else of_versions o');
         known = (\<lambda>c. c \<in> set AGENT_PROTOCOL_CAPABILITIES);
         known_format = (\<lambda>f. f \<in> set AGENT_ARTIFACT_FORMATS);
         unsupportedRequired = filter (\<lambda>c. \<not> known c) (of_requiredCapabilities o') in
     if \<not> list_ex compatibleVersion versions then Inl (Unsupported_version versions)
     else if unsupportedRequired \<noteq> [] then Inl (Unsupported_capability unsupportedRequired)
     else Inr \<lparr>ng_version = AGENT_PROTOCOL_VERSION,
       ng_capabilities = filter known (of_capabilities o'),
       ng_unsupportedCapabilities = filter (\<lambda>c. \<not> known c) (of_capabilities o'),
       ng_artifactFormats = filter known_format (if of_artifactFormats o' = [] then AGENT_ARTIFACT_FORMATS else of_artifactFormats o'),
       ng_unsupportedArtifactFormats = filter (\<lambda>f. \<not> known_format f) (of_artifactFormats o'),
       ng_legacy = of_legacy o'\<rparr>)"

definition serializeAgentCapabilities :: "(string \<Rightarrow> string \<Rightarrow> int) \<Rightarrow> string list \<Rightarrow> string" where
  "serializeAgentCapabilities collate cs = join_with (CHR '','') (js_sort collate (js_unique cs))"


section \<open>Phases\<close>

definition agentSupportsCapability :: "string list option \<Rightarrow> string \<Rightarrow> bool" where
  "agentSupportsCapability capabilities c \<longleftrightarrow> c \<in> set (js_default capabilities LEGACY_AGENT_CAPABILITIES)"

definition PHASE_REQUIREMENTS :: "(string \<times> string list) list" where
  "PHASE_REQUIREMENTS =
    [(''plan'', [''operation.plan'', ''artifact.configuration'', ''artifact.filesystem'', ''artifact.log'',
       ''artifact.plan-json'', ''lease.heartbeat'', ''lease.fencing'']),
     (''apply'', [''operation.apply'', ''artifact.configuration'', ''artifact.filesystem'', ''artifact.log'',
       ''artifact.state-json'', ''lease.heartbeat'', ''lease.fencing'', ''cancellation'', ''state.publication'']),
     (''stack_prepare'', [''operation.stack'', ''artifact.configuration'', ''lease.heartbeat'', ''lease.fencing'']),
     (''stack_plan'', [''operation.stack'', ''artifact.configuration'', ''lease.heartbeat'', ''lease.fencing'']),
     (''stack_apply'', [''operation.stack'', ''artifact.configuration'', ''artifact.state-json'', ''lease.heartbeat'',
       ''lease.fencing'', ''cancellation'', ''state.publication''])]"

definition agentSupportsPhase :: "string list option \<Rightarrow> string list option \<Rightarrow> string \<Rightarrow> bool" where
  "agentSupportsPhase capabilities artifactFormats phase \<longleftrightarrow>
    (let formats = js_default artifactFormats AGENT_ARTIFACT_FORMATS in
     list_all (agentSupportsCapability capabilities) (js_default (map_of PHASE_REQUIREMENTS phase) []) \<and>
     \<not> (phase = ''plan'' \<and> ''json'' \<notin> set formats) \<and>
     \<not> (phase = ''apply'' \<and> (''json'' \<notin> set formats \<or> ''tar.gz'' \<notin> set formats)) \<and>
     \<not> (phase = ''stack_apply'' \<and> (''json'' \<notin> set formats \<or> ''tar.gz'' \<notin> set formats)))"

record agent_execution_policy =
  xp_protocolVersion :: string
  xp_capabilities :: "string list"
  xp_operation :: string
  xp_iacBinary :: string
  xp_artifactFormats :: "string list"

definition effectiveAgentExecutionPolicy ::
  "(string \<Rightarrow> string \<Rightarrow> int) \<Rightarrow> string option \<Rightarrow> string list option \<Rightarrow> string list option \<Rightarrow> string \<Rightarrow> string \<Rightarrow> agent_execution_policy" where
  "effectiveAgentExecutionPolicy collate version capabilities artifactFormats operation iacBinary =
    \<lparr>xp_protocolVersion = js_default version AGENT_PROTOCOL_VERSION,
     xp_capabilities = js_sort collate (js_default capabilities LEGACY_AGENT_CAPABILITIES),
     xp_operation = operation, xp_iacBinary = iacBinary,
     xp_artifactFormats = filter (\<lambda>f. f \<in> set AGENT_ARTIFACT_FORMATS) (js_default artifactFormats AGENT_ARTIFACT_FORMATS)\<rparr>"

section \<open>What an agent sends\<close>

definition MAX_AGENT_RESULT_BYTES :: nat where "MAX_AGENT_RESULT_BYTES = 64 * 1024"
definition MAX_AGENT_RESULT_DEPTH :: nat where "MAX_AGENT_RESULT_DEPTH = 8"
definition MAX_AGENT_RESULT_KEYS :: nat where "MAX_AGENT_RESULT_KEYS = 500"

definition decimal_value :: "string \<Rightarrow> int" where
  "decimal_value s = fold (\<lambda>c n. 10 * n + (int (ord_of c) - 48)) s 0"

definition parseAgentFencingToken :: "json option \<Rightarrow> int option" where
  "parseAgentFencingToken v =
    (case (case v of
         Some (JNum n) \<Rightarrow> js_safe_integer n
       | Some (JStr s) \<Rightarrow> if s \<noteq> [] \<and> list_all is_digit s \<and> decimal_value s \<le> MAX_SAFE_INTEGER then Some (decimal_value s) else None
       | _ \<Rightarrow> None) of
       None \<Rightarrow> None
     | Some n \<Rightarrow> if 0 \<le> n then Some n else None)"

fun isLargeString :: "(string \<Rightarrow> nat) \<Rightarrow> json \<Rightarrow> bool" where
  "isLargeString units (JStr s) = (16384 < units s)"
| "isLargeString units _ = False"

text \<open>
  The checks share a counter of the keys seen. The result is the counter afterwards, or \<open>None\<close> when the value is
  too large.
\<close>

fun isResultValueTooLarge :: "(string \<Rightarrow> nat) \<Rightarrow> json \<Rightarrow> nat \<Rightarrow> nat \<Rightarrow> nat option"
  and array_items :: "(string \<Rightarrow> nat) \<Rightarrow> json list \<Rightarrow> nat \<Rightarrow> nat \<Rightarrow> nat option"
  and object_entries :: "(string \<Rightarrow> nat) \<Rightarrow> (string \<times> json) list \<Rightarrow> nat \<Rightarrow> nat \<Rightarrow> nat option" where
  "isResultValueTooLarge units v depth seen =
    (if MAX_AGENT_RESULT_DEPTH < depth then None
     else if isLargeString units v then None
     else case v of
       JArr items \<Rightarrow>
         if 1000 < length items then None
         else if MAX_AGENT_RESULT_KEYS < seen + length items then None
         else array_items units items (depth + 1) (seen + length items)
     | JObj entries \<Rightarrow>
         if 200 < length entries then None
         else if MAX_AGENT_RESULT_KEYS < seen + length entries then None
         else object_entries units entries (depth + 1) (seen + length entries)
     | _ \<Rightarrow> Some seen)"
| "array_items units [] depth seen = Some seen"
| "array_items units (v # vs) depth seen = (case isResultValueTooLarge units v depth seen of
     None \<Rightarrow> None | Some n \<Rightarrow> array_items units vs depth n)"
| "object_entries units [] depth seen = Some seen"
| "object_entries units ((k, v) # es) depth seen =
    (if 1024 < units k then None
     else if isLargeString units v then None
     else case isResultValueTooLarge units v depth seen of
       None \<Rightarrow> None
     | Some n \<Rightarrow> object_entries units es depth n)"

declare isResultValueTooLarge.simps [simp del]

text \<open>\<open>bytes\<close> is the size of the serialized result, or nothing when it cannot be serialized.\<close>

definition isAgentResultValid :: "(string \<Rightarrow> nat) \<Rightarrow> (json \<Rightarrow> nat option) \<Rightarrow> json \<Rightarrow> bool" where
  "isAgentResultValid units bytes result \<longleftrightarrow> json_record result \<noteq> None \<and>
     (case bytes result of None \<Rightarrow> False | Some n \<Rightarrow> n \<le> MAX_AGENT_RESULT_BYTES) \<and>
     isResultValueTooLarge units result 0 0 \<noteq> None"


section \<open>The limits as a whole\<close>

text \<open>How deep a value is nested, how many array items and object keys it holds in all, and the limits on one string,
  key, array or object of it.\<close>

fun nesting :: "json \<Rightarrow> nat" where
  "nesting (JArr vs) = foldr (\<lambda>v n. max (Suc (nesting v)) n) vs 0"
| "nesting (JObj es) = foldr (\<lambda>(_, v) n. max (Suc (nesting v)) n) es 0"
| "nesting _ = 0"

fun total_keys :: "json \<Rightarrow> nat" where
  "total_keys (JArr vs) = length vs + sum_list (map total_keys vs)"
| "total_keys (JObj es) = length es + sum_list (map (\<lambda>(_, v). total_keys v) es)"
| "total_keys _ = 0"

fun within_limits :: "(string \<Rightarrow> nat) \<Rightarrow> json \<Rightarrow> bool" where
  "within_limits units (JStr s) = (units s \<le> 16384)"
| "within_limits units (JArr vs) = list_all (within_limits units) vs"
| "within_limits units (JObj es) = (length es \<le> 200 \<and> list_all (\<lambda>(k, v). units k \<le> 1024 \<and> within_limits units v) es)"
| "within_limits units _ = True"

lemma large_string_outside: "isLargeString units v \<Longrightarrow> \<not> within_limits units v"
  by (cases v) simp_all

lemma result_checks:
  "seen \<le> MAX_AGENT_RESULT_KEYS \<Longrightarrow> isResultValueTooLarge units v depth seen =
     (if depth + nesting v \<le> MAX_AGENT_RESULT_DEPTH \<and> within_limits units v \<and> seen + total_keys v \<le> MAX_AGENT_RESULT_KEYS
      then Some (seen + total_keys v) else None)"
  "seen \<le> MAX_AGENT_RESULT_KEYS \<Longrightarrow> array_items units vs depth seen =
     (if (\<forall>v \<in> set vs. depth + nesting v \<le> MAX_AGENT_RESULT_DEPTH \<and> within_limits units v) \<and>
         seen + sum_list (map total_keys vs) \<le> MAX_AGENT_RESULT_KEYS
      then Some (seen + sum_list (map total_keys vs)) else None)"
  "seen \<le> MAX_AGENT_RESULT_KEYS \<Longrightarrow> object_entries units es depth seen =
     (if (\<forall>(k, v) \<in> set es. depth + nesting v \<le> MAX_AGENT_RESULT_DEPTH \<and> units k \<le> 1024 \<and> within_limits units v) \<and>
         seen + sum_list (map (\<lambda>(_, v). total_keys v) es) \<le> MAX_AGENT_RESULT_KEYS
      then Some (seen + sum_list (map (\<lambda>(_, v). total_keys v) es)) else None)"
proof (induction units v depth seen and units vs depth seen and units es depth seen
    rule: isResultValueTooLarge_array_items_object_entries.induct)
  case (1 units v depth seen)
  have mx: "depth + max (Suc x) n \<le> MAX_AGENT_RESULT_DEPTH \<longleftrightarrow> Suc (depth + x) \<le> MAX_AGENT_RESULT_DEPTH \<and> depth + n \<le> MAX_AGENT_RESULT_DEPTH" for x n
    by (auto simp: max_def)
  have arr: "depth + foldr (\<lambda>v n. max (Suc (nesting v)) n) vs 0 \<le> MAX_AGENT_RESULT_DEPTH \<longleftrightarrow>
      depth \<le> MAX_AGENT_RESULT_DEPTH \<and> (\<forall>v \<in> set vs. depth + 1 + nesting v \<le> MAX_AGENT_RESULT_DEPTH)" for vs
    by (induction vs) (auto simp: mx simp del: add_Suc_right)
  have obj: "depth + foldr (\<lambda>(_, v) n. max (Suc (nesting v)) n) es 0 \<le> MAX_AGENT_RESULT_DEPTH \<longleftrightarrow>
      depth \<le> MAX_AGENT_RESULT_DEPTH \<and> (\<forall>(_, v) \<in> set es. depth + 1 + nesting v \<le> MAX_AGENT_RESULT_DEPTH)" for es :: "(string \<times> json) list"
    by (induction es) (auto simp: mx split_beta simp del: add_Suc_right)
  have small: "MAX_AGENT_RESULT_KEYS \<le> 1000" by (simp add: MAX_AGENT_RESULT_KEYS_def)
  show ?case
  proof (cases v)
    case (JArr vs)
    show ?thesis using 1(1) [OF _ _ JArr] 1(3) small
      by (subst isResultValueTooLarge.simps) (auto simp: JArr arr list_all_iff add.assoc)
  next
    case (JObj es)
    show ?thesis using 1(2) [OF _ _ JObj] 1(3)
      by (subst isResultValueTooLarge.simps) (auto simp: JObj obj list_all_iff add.assoc)
  qed (subst isResultValueTooLarge.simps, use 1(3) in auto)+
next
  case (3 units v vs depth seen)
  then show ?case by (auto split: option.splits if_splits simp: add.assoc)
next
  case (5 units k v es depth seen)
  then show ?case using large_string_outside [of units v] by (auto split: option.splits if_splits simp: add.assoc)
qed simp_all

text \<open>C39: a result is accepted exactly when it is an object of at most 64 KiB, nested at most 8 deep, with at most 500
  array items and object keys in all, and no string, key or object over its own limit: the counter the recursive
  checks share counts every item and key once, and no order of the fields changes the answer.\<close>

theorem accepted_result_within_limits:
  "isAgentResultValid units bytes (JObj es) \<longleftrightarrow>
     (\<exists>n. bytes (JObj es) = Some n \<and> n \<le> 64 * 1024) \<and> nesting (JObj es) \<le> 8 \<and> total_keys (JObj es) \<le> 500 \<and>
     within_limits units (JObj es)"
  unfolding isAgentResultValid_def result_checks(1) [OF le0]
  by (auto simp: json_record_def MAX_AGENT_RESULT_BYTES_def MAX_AGENT_RESULT_DEPTH_def MAX_AGENT_RESULT_KEYS_def split: option.splits)

text \<open>A fencing token is read as the integer it is, whether it arrives as a number or as decimal digits.\<close>

lemma fencing_token_range: "parseAgentFencingToken v = Some n \<Longrightarrow> 0 \<le> n \<and> n \<le> MAX_SAFE_INTEGER"
  by (auto simp: parseAgentFencingToken_def js_safe_integer_def split: option.splits json.splits js_number.splits if_splits)

text \<open>A negotiated agent offers and is promised only what both sides know, and what it requires is part of it when it is offered.\<close>

lemma negotiated_known:
  assumes "negotiateAgentProtocol o' = Inr n"
  shows "set (ng_capabilities n) = set (of_capabilities o') \<inter> set AGENT_PROTOCOL_CAPABILITIES"
    and "set (of_requiredCapabilities o') \<subseteq> set AGENT_PROTOCOL_CAPABILITIES"
    and "set (ng_artifactFormats n) \<subseteq> set AGENT_ARTIFACT_FORMATS"
  using assms by (auto simp: negotiateAgentProtocol_def Let_def filter_empty_conv split: if_splits)

lemma legacy_agent_supports_all: "phase \<in> fst ` set PHASE_REQUIREMENTS \<Longrightarrow> agentSupportsPhase None None phase"
  by (auto simp: PHASE_REQUIREMENTS_def agentSupportsPhase_def agentSupportsCapability_def LEGACY_AGENT_CAPABILITIES_def AGENT_ARTIFACT_FORMATS_def)

end
