(* ===== verification/AgentJobs.thy ===== *)
theory AgentJobs imports AgentProtocol PolicyGate StateWriters RunActions begin

text \<open>
  Runs executed by agents (\<open>lib/agent-jobs.ts\<close>): the liveness of an agent, the recovery of the jobs of a silent one,
  the claim of a job with the workspace lock it takes, the delivery of a claimed job, its logs, its cancellation and
  its completion. A function is one transaction, or one statement with its condition where the code uses no
  transaction; what was read by an earlier statement is an argument. Texts of error messages are
  shortened to a tag; \<open>stamp\<close> is the time as text.
\<close>

section \<open>Tables\<close>

record agent =
  ag_id :: string
  ag_poolId :: string
  ag_status :: string
  ag_lastPingAt :: "int option"
  ag_version :: "string option"
  ag_protocolVersion :: "string option"
  ag_capabilities :: "string list option"
  ag_artifactFormats :: "string list option"
  ag_iacBinaries :: "string list option"

record pool_token =
  pt_id :: string
  pt_poolId :: string
  pt_token :: string
  pt_createdAt :: int
  pt_expiresAt :: "int option"
  pt_revokedAt :: "int option"
  pt_lastUsedAt :: "int option"

datatype job_message = Message string | Policy_message gate_error

record agent_job =
  aj_id :: string
  aj_runId :: string
  aj_poolId :: string
  aj_agentId :: "string option"
  aj_phase :: string
  aj_iacBinary :: string
  aj_status :: string
  aj_result :: "(string, json) js_map option"
  aj_errorMessage :: "job_message option"
  aj_claimedAt :: "int option"
  aj_completedAt :: "int option"
  aj_fencingToken :: int
  aj_createdAt :: int
  aj_requeueAttempts :: int

record resource_counts =
  rc_additions :: "int option"
  rc_changes :: "int option"
  rc_destructions :: "int option"
  rc_imports :: "int option"

record agent_run = run_row +
  ar_agentPoolId :: "string option"
  ar_agentId :: "string option"
  ar_agentVersion :: "string option"
  ar_agentProtocolVersion :: "string option"
  ar_agentCapabilities :: "string list"
  ar_executionPolicy :: "agent_execution_policy option"
  ar_autoApply :: bool
  ar_configurationVersionId :: "string option"
  ar_createdBy :: "string option"
  ar_appliedAt :: "int option"
  ar_planCounts :: resource_counts
  ar_applyCounts :: resource_counts

record agent_configuration =
  ac_id :: string
  ac_source :: "string option"
  ac_speculative :: bool
  ac_ingress :: "(string, json) js_map"

text \<open>
  \<open>ad_iacBinary\<close> is the binary of a workspace, \<open>ad_planJson\<close> the stored plan files, \<open>ad_notified\<close> the
  notifications sent.
\<close>

record agent_db =
  ad_agents :: "agent table"
  ad_tokens :: "pool_token table"
  ad_jobs :: "agent_job table"
  ad_runs :: "agent_run table"
  ad_configurations :: "agent_configuration table"
  ad_store :: state_store
  ad_iacBinary :: "(string, string) js_map"
  ad_checks :: "string policy_check table"
  ad_planJson :: "(string, json) js_map"
  ad_logs :: "(string \<times> string \<times> string) list"
  ad_notified :: "(string \<times> string option \<times> string) list"

definition update_agents :: "(agent \<Rightarrow> bool) \<Rightarrow> (agent \<Rightarrow> agent) \<Rightarrow> agent_db \<Rightarrow> agent_db" where
  "update_agents p f db = db\<lparr>ad_agents := db_update p f (ad_agents db)\<rparr>"

definition update_jobs :: "(agent_job \<Rightarrow> bool) \<Rightarrow> (agent_job \<Rightarrow> agent_job) \<Rightarrow> agent_db \<Rightarrow> agent_db" where
  "update_jobs p f db = db\<lparr>ad_jobs := db_update p f (ad_jobs db)\<rparr>"

definition update_runs :: "(agent_run \<Rightarrow> bool) \<Rightarrow> (agent_run \<Rightarrow> agent_run) \<Rightarrow> agent_db \<Rightarrow> agent_db" where
  "update_runs p f db = db\<lparr>ad_runs := db_update p f (ad_runs db)\<rparr>"

definition update_locks :: "(lockable \<Rightarrow> bool) \<Rightarrow> (lockable \<Rightarrow> lockable) \<Rightarrow> agent_db \<Rightarrow> agent_db" where
  "update_locks p f db = db\<lparr>ad_store := (ad_store db)\<lparr>st_workspaces := db_update p f (st_workspaces (ad_store db))\<rparr>\<rparr>"

definition find_job :: "string \<Rightarrow> agent_db \<Rightarrow> agent_job option" where
  "find_job i db = db_find (\<lambda>j. aj_id j = i) (ad_jobs db)"

definition find_run :: "string \<Rightarrow> agent_db \<Rightarrow> agent_run option" where
  "find_run i db = db_find (\<lambda>r. r_id r = i) (ad_runs db)"

definition find_workspace :: "string \<Rightarrow> agent_db \<Rightarrow> lockable option" where
  "find_workspace i db = find_lockable i (ad_store db)"

definition append_log :: "agent_job \<Rightarrow> string \<Rightarrow> agent_db \<Rightarrow> agent_db" where
  "append_log j outputText db = db\<lparr>ad_logs := ad_logs db @ [(aj_runId j, aj_phase j, outputText)]\<rparr>"

definition timestampsWithStatus :: "string \<Rightarrow> (string, string) js_map \<Rightarrow> status \<Rightarrow> (string, string) js_map" where
  "timestampsWithStatus stamp timestamps status = js_set (statusKey status) stamp timestamps"

definition notifyRunStatus :: "string \<Rightarrow> status \<Rightarrow> agent_db \<Rightarrow> agent_db" where
  "notifyRunStatus runId status db =
    (let trigger =
       (if status = ''planning'' then Some ''run:planning''
        else if status = ''applying'' then Some ''run:applying''
        else if status = ''applied'' \<or> status = ''planned_and_finished'' then Some ''run:completed''
        else if status = ''errored'' then Some ''run:errored''
        else if status \<in> {''planned'', ''planned_and_saved'', ''policy_soft_failed''} then Some ''run:needs_attention''
        else None) in
     db\<lparr>ad_notified := ad_notified db @ [(runId, trigger, status)]\<rparr>)"

text \<open>\<open>lib/run-trust.ts\<close>\<close>

definition runConfigurationTrusted :: "agent_configuration table \<Rightarrow> string option \<Rightarrow> bool" where
  "runConfigurationTrusted configurations i = (case i of
     None \<Rightarrow> True
   | Some c \<Rightarrow> (case db_find (\<lambda>r. ac_id r = c) configurations of
       None \<Rightarrow> False
     | Some configuration \<Rightarrow>
       (let ingress = ac_ingress configuration;
            vcs = (case ac_source configuration of None \<Rightarrow> False | Some s \<Rightarrow> s \<in> {''github'', ''gitlab'', ''bitbucket'', ''azure_devops''}) in
        if \<not> vcs \<or> \<not> ac_speculative configuration \<and> js_get ingress ''pullRequestNumber'' = None then True
        else js_get ingress ''trustedPullRequest'' = Some (JBool True))))"


section \<open>Liveness\<close>

definition isAgentLiveForClaim :: "int \<Rightarrow> int \<Rightarrow> agent \<Rightarrow> bool" where
  "isAgentLiveForClaim timeout now agent \<longleftrightarrow>
     ag_status agent \<notin> {''unknown'', ''exited'', ''errored'', ''draining''} \<and>
     (case ag_lastPingAt agent of None \<Rightarrow> False | Some p \<Rightarrow> now - p \<le> timeout)"

definition effectivePingWriteIntervalMs :: "int \<Rightarrow> int" where
  "effectivePingWriteIntervalMs timeout = min 15000 (max 3000 (timeout div 4))"

definition AGENT_POOL_TOKEN_DEFAULT_TTL_MS :: int where "AGENT_POOL_TOKEN_DEFAULT_TTL_MS = 2 * 365 * 24 * 60 * 60 * 1000"

definition agentPoolTokenExpiresAt :: "pool_token \<Rightarrow> int" where
  "agentPoolTokenExpiresAt t = js_default (pt_expiresAt t) (pt_createdAt t + AGENT_POOL_TOKEN_DEFAULT_TTL_MS)"

definition isAgentPoolTokenActive :: "pool_token \<Rightarrow> int \<Rightarrow> bool" where
  "isAgentPoolTokenActive t now \<longleftrightarrow> pt_revokedAt t = None \<and> now < agentPoolTokenExpiresAt t"

text \<open>\<open>hashes\<close> gives the current and the legacy digest of a token; the header is \<open>Bearer \<close> and the token.\<close>

definition authenticateAgent ::
  "(string \<Rightarrow> string \<times> string) \<Rightarrow> int \<Rightarrow> int \<Rightarrow> string \<Rightarrow> string option \<Rightarrow> agent_db \<Rightarrow> agent option \<times> agent_db" where
  "authenticateAgent hashes timeout now agentId authorization db =
    (case authorization of
       None \<Rightarrow> (None, db)
     | Some header \<Rightarrow>
       if \<not> starts_with ''Bearer agent-'' header then (None, db)
       else (case db_find (\<lambda>a. ag_id a = agentId) (ad_agents db) of
         None \<Rightarrow> (None, db)
       | Some agent \<Rightarrow>
         (case hashes (drop 7 header) of (tokenHash, legacyTokenHash) \<Rightarrow>
           (let rows = take 2 (filter (\<lambda>t. pt_poolId t = ag_poolId agent \<and> pt_token t \<in> {tokenHash, legacyTokenHash}) (ad_tokens db)) in
            case (case db_find (\<lambda>t. pt_token t = tokenHash) rows of Some t \<Rightarrow> Some t | None \<Rightarrow> (case rows of [] \<Rightarrow> None | t # _ \<Rightarrow> Some t)) of
              None \<Rightarrow> (None, db)
            | Some token \<Rightarrow>
              if \<not> isAgentPoolTokenActive token now then (None, db)
              else
               (let t1 = (if pt_token token = legacyTokenHash
                    then db_update (\<lambda>t. pt_id t = pt_id token) (\<lambda>t. t\<lparr>pt_token := tokenHash\<rparr>) (ad_tokens db) else ad_tokens db);
                    t2 = (if (case pt_lastUsedAt token of None \<Rightarrow> True | Some u \<Rightarrow> 60000 \<le> now - u)
                    then db_update (\<lambda>t. pt_id t = pt_id token) (\<lambda>t. t\<lparr>pt_lastUsedAt := Some now\<rparr>) t1 else t1);
                    db1 = db\<lparr>ad_tokens := t2\<rparr>;
                    p = (\<lambda>a. ag_id a = ag_id agent);
                    f = (\<lambda>a. a\<lparr>ag_lastPingAt := Some now, ag_status := if ag_status a = ''unknown'' then ''idle'' else ag_status a\<rparr>);
                    fresh = agent\<lparr>ag_lastPingAt := Some now\<rparr> in
                if (case ag_lastPingAt agent of None \<Rightarrow> True | Some q \<Rightarrow> effectivePingWriteIntervalMs timeout \<le> now - q) \<or>
                   ag_status agent = ''unknown''
                then (Some (case db_returning p f (ad_agents db1) of [] \<Rightarrow> fresh | a # _ \<Rightarrow> a), update_agents p f db1)
                else (Some fresh, db1))))))"

definition lapsed :: "int \<Rightarrow> agent \<Rightarrow> bool" where
  "lapsed cutoff a \<longleftrightarrow> (case ag_lastPingAt a of None \<Rightarrow> False | Some q \<Rightarrow> q < cutoff)"

definition unavailable :: "int \<Rightarrow> agent \<Rightarrow> bool" where
  "unavailable cutoff a \<longleftrightarrow> lapsed cutoff a \<or> ag_status a \<in> {''unknown'', ''exited'', ''errored''}"

definition hasLiveAgent :: "string list \<Rightarrow> int \<Rightarrow> agent_db \<Rightarrow> bool" where
  "hasLiveAgent agentIds cutoff db \<longleftrightarrow> list_ex (\<lambda>a. ag_id a \<in> set agentIds \<and>
     (case ag_lastPingAt a of None \<Rightarrow> False | Some q \<Rightarrow> cutoff < q) \<and>
     ag_status a \<notin> {''unknown'', ''exited'', ''errored''}) (ad_agents db)"


section \<open>The workspace lock of a run\<close>

text \<open>The unlocking statements of this file leave \<open>lockedAt\<close> as it was.\<close>

definition run_unlocked :: "lockable \<Rightarrow> lockable" where
  "run_unlocked w = w\<lparr>wl_locked := Some False, wl_lockedReason := None, wl_lockOwnerType := None, wl_lockOwnerId := None\<rparr>"

definition locked_for_run :: "string \<Rightarrow> lockable \<Rightarrow> bool" where
  "locked_for_run run w \<longleftrightarrow> wl_locked w = Some True \<and> wl_lockOwnerType w = Some ''agent-run'' \<and> wl_lockOwnerId w = Some run"

definition releaseRunLock :: "string \<Rightarrow> string \<Rightarrow> agent_db \<Rightarrow> agent_db" where
  "releaseRunLock w run db = update_locks (\<lambda>r. wl_id r = w \<and> locked_for_run run r) run_unlocked db"

definition releaseApplyWorkspaceLock :: "agent_job \<Rightarrow> agent_run \<Rightarrow> agent_db \<Rightarrow> agent_db" where
  "releaseApplyWorkspaceLock job run db =
    (if aj_phase job \<noteq> ''apply'' then db else releaseRunLock (r_workspaceId run) (r_id run) db)"

definition job_agents :: "string \<Rightarrow> agent_db \<Rightarrow> string list" where
  "job_agents runId db = js_unique (concat (map (\<lambda>j. case aj_agentId j of None \<Rightarrow> [] | Some a \<Rightarrow> [a])
     (filter (\<lambda>j. aj_runId j = runId \<and> aj_status j = ''canceled'') (ad_jobs db))))"

text \<open>One lock of the sweep; \<open>held\<close> is the row as the sweep read it.\<close>

definition releaseCanceledRunLock :: "int \<Rightarrow> lockable \<Rightarrow> agent_db \<Rightarrow> agent_db" where
  "releaseCanceledRunLock cutoff held db = (case wl_lockOwnerId held of
     None \<Rightarrow> db
   | Some owner \<Rightarrow> (case find_run owner db of
       None \<Rightarrow> db
     | Some run \<Rightarrow>
       if r_workspaceId run \<noteq> wl_id held then db
       else if r_status run \<notin> {''canceled'', ''force_canceled''} then db
       else if list_ex (\<lambda>j. aj_runId j = r_id run \<and> aj_status j \<in> {''queued'', ''claimed''}) (ad_jobs db) then db
       else if hasLiveAgent (job_agents (r_id run) db) cutoff db then db
       else releaseRunLock (wl_id held) (r_id run) db))"

definition releaseCanceledRunLocks :: "int \<Rightarrow> int \<Rightarrow> agent_db \<Rightarrow> agent_db" where
  "releaseCanceledRunLocks timeout now db =
    fold (releaseCanceledRunLock (now - timeout))
      (take 100 (filter (\<lambda>w. wl_locked w = Some True \<and> wl_lockOwnerType w = Some ''agent-run'') (st_workspaces (ad_store db)))) db"

definition isLiveRunLock :: "int \<Rightarrow> int \<Rightarrow> lockable \<Rightarrow> agent_db \<Rightarrow> bool" where
  "isLiveRunLock timeout now w db =
    (case (wl_lockOwnerType w, wl_lockOwnerId w) of
       (Some type, Some owner) \<Rightarrow>
         if type \<noteq> ''run'' \<and> type \<noteq> ''agent-run'' then False
         else (case find_run owner db of
           None \<Rightarrow> False
         | Some run \<Rightarrow>
             if \<not> isTerminalRunStatus (r_status run) then True
             else if type \<noteq> ''agent-run'' then False
             else hasLiveAgent (job_agents owner db) (now - timeout) db)
     | _ \<Rightarrow> False)"

section \<open>Recovery of the jobs of a silent agent\<close>

definition claimed_row :: "string \<Rightarrow> agent_job \<Rightarrow> bool" where
  "claimed_row i j \<longleftrightarrow> aj_id j = i \<and> aj_status j = ''claimed''"

definition cancel_job :: "int \<Rightarrow> string \<Rightarrow> agent_job \<Rightarrow> agent_job" where
  "cancel_job now message j = j\<lparr>aj_status := ''canceled'', aj_completedAt := Some now, aj_errorMessage := Some (Message message)\<rparr>"

definition fail_job :: "int \<Rightarrow> job_message \<Rightarrow> agent_job \<Rightarrow> agent_job" where
  "fail_job now message j = j\<lparr>aj_status := ''errored'', aj_completedAt := Some now, aj_errorMessage := Some message\<rparr>"

definition expectedStatus :: "string \<Rightarrow> status" where
  "expectedStatus phase = (if phase = ''plan'' then ''planning'' else ''applying'')"

definition queuedStatus :: "string \<Rightarrow> status" where
  "queuedStatus phase = (if phase = ''plan'' then ''plan_queued'' else ''apply_queued'')"

definition reset_job :: "agent_job \<Rightarrow> agent_job" where
  "reset_job j = j\<lparr>aj_agentId := None, aj_status := ''queued'', aj_claimedAt := None, aj_completedAt := None,
     aj_errorMessage := None, aj_fencingToken := aj_fencingToken j + 1\<rparr>"

text \<open>\<open>job\<close> is the row as the sweep read it. The result is the status the run went back to.\<close>

definition recoverOneStaleAgentJob :: "agent_job \<Rightarrow> int \<Rightarrow> string \<Rightarrow> agent_db \<Rightarrow> status option \<times> agent_db" where
  "recoverOneStaleAgentJob job now stamp db =
    (let expectedRunStatus = expectedStatus (aj_phase job);
         queuedRunStatus = queuedStatus (aj_phase job);
         owned = (\<lambda>j. claimed_row (aj_id job) j \<and> aj_agentId j = aj_agentId job);
         canceled = update_jobs owned (cancel_job now ''Run is no longer waiting for this job'') db;
         requeue = (\<lambda>run db1.
           let db2 = update_jobs owned reset_job db1 in
           (Some queuedRunStatus, if aj_phase job = ''apply'' then releaseRunLock (r_workspaceId run) (r_id run) db2 else db2)) in
     if \<not> list_ex owned (ad_jobs db) then (None, db)
     else (case find_run (aj_runId job) db of
       None \<Rightarrow> (None, canceled)
     | Some run \<Rightarrow>
       if r_status run = expectedRunStatus then
         requeue run (update_runs (\<lambda>r. r_id r = aj_runId job \<and> r_status r = expectedRunStatus)
           (\<lambda>r. r\<lparr>ar_agentId := None, r_status := queuedRunStatus,
              r_statusTimestamps := timestampsWithStatus stamp (r_statusTimestamps run) queuedRunStatus\<rparr>) db)
       else if r_status run = queuedRunStatus then
         requeue run (update_runs (\<lambda>r. r_id r = r_id run) (\<lambda>r. r\<lparr>ar_agentId := None\<rparr>) db)
       else (None, canceled)))"

definition staleAgentJobs :: "int \<Rightarrow> agent_db \<Rightarrow> agent_job list" where
  "staleAgentJobs cutoff db =
    (let unavailableAgentIds = map ag_id (filter (unavailable cutoff) (ad_agents db)) in
     take 100 (js_sort (\<lambda>a b. js_default (aj_claimedAt a) 0 - js_default (aj_claimedAt b) 0)
       (filter (\<lambda>j. aj_status j = ''claimed'' \<and> (case aj_agentId j of None \<Rightarrow> True | Some a \<Rightarrow> a \<in> set unavailableAgentIds)) (ad_jobs db))))"

definition markUnknownAgents :: "int \<Rightarrow> agent_db \<Rightarrow> agent_db" where
  "markUnknownAgents cutoff db =
    (let unavailableAgentIds = map ag_id (filter (unavailable cutoff) (ad_agents db)) in
     update_agents (\<lambda>a. ag_id a \<in> set unavailableAgentIds \<and> ag_status a \<in> {''idle'', ''busy''} \<and> lapsed cutoff a)
       (\<lambda>a. a\<lparr>ag_status := ''unknown''\<rparr>) db)"

definition recoverStaleAgentJobs :: "int \<Rightarrow> int \<Rightarrow> string \<Rightarrow> agent_db \<Rightarrow> string list \<times> agent_db" where
  "recoverStaleAgentJobs timeout now stamp db =
    (let db1 = markUnknownAgents (now - timeout) db;
         (recovered, db2) = fold (\<lambda>job (ids, d). case recoverOneStaleAgentJob job now stamp d of
             (None, d') \<Rightarrow> (ids, d') | (Some _, d') \<Rightarrow> (ids @ [aj_id job], d')) (staleAgentJobs (now - timeout) db) ([], db1) in
     (recovered, releaseCanceledRunLocks timeout now db2))"


section \<open>Claiming\<close>

text \<open>\<open>snapshot\<close> is the policy snapshot of a workspace, \<open>None\<close> when it cannot be read.\<close>

definition findCandidateJob :: "agent \<Rightarrow> string list \<Rightarrow> string list \<Rightarrow> string list \<Rightarrow> agent_db \<Rightarrow> agent_job option" where
  "findCandidateJob agent acceptedPhases agentBinaries skippedIds db =
    (let compatiblePhases = filter (agentSupportsPhase (ag_capabilities agent) (ag_artifactFormats agent)) acceptedPhases in
     if compatiblePhases = [] then None
     else (case js_sort (\<lambda>a b. aj_createdAt a - aj_createdAt b) (filter (\<lambda>j. aj_poolId j = ag_poolId agent \<and>
         aj_status j = ''queued'' \<and> aj_phase j \<in> set compatiblePhases \<and> aj_iacBinary j \<in> set agentBinaries \<and>
         aj_id j \<notin> set skippedIds) (ad_jobs db)) of
       [] \<Rightarrow> None
     | j # _ \<Rightarrow> Some j))"

definition resolveAgentBinaries :: "agent \<Rightarrow> string list" where
  "resolveAgentBinaries agent = (case ag_iacBinaries agent of None \<Rightarrow> [''terraform''] | Some bs \<Rightarrow> if bs = [] then [''terraform''] else bs)"

definition tryClaimCandidate :: "agent_job \<Rightarrow> agent \<Rightarrow> int \<Rightarrow> agent_db \<Rightarrow> agent_job option \<times> agent_db" where
  "tryClaimCandidate candidate agent now db =
    (let p = (\<lambda>j. aj_id j = aj_id candidate \<and> aj_status j = ''queued'');
         f = (\<lambda>j. j\<lparr>aj_agentId := Some (ag_id agent), aj_status := ''claimed'', aj_claimedAt := Some now,
            aj_fencingToken := aj_fencingToken j + 1\<rparr>) in
     (case db_returning p f (ad_jobs db) of [] \<Rightarrow> None | j # _ \<Rightarrow> Some j, update_jobs p f db))"

definition policy_gate :: "string \<Rightarrow> string \<Rightarrow> string policy_snapshot option \<Rightarrow> string policy_check table \<Rightarrow> gate_error option" where
  "policy_gate phase runId sn checks =
    (if phase = ''plan'' then workspacePolicyPlanningError sn else workspacePolicyExecutionError sn (Some runId) False checks)"

text \<open>An invalid candidate is failed together with its run. The result is the run when the claim may go on.\<close>

definition reject_candidate :: "agent_job \<Rightarrow> agent_run \<Rightarrow> status \<Rightarrow> job_message \<Rightarrow> int \<Rightarrow> string \<Rightarrow> agent_db \<Rightarrow> agent_db" where
  "reject_candidate candidate run expectedRunStatus message now stamp db =
    notifyRunStatus (r_id run) ''errored''
      (update_runs (\<lambda>r. r_id r = r_id run \<and> r_status r = expectedRunStatus)
        (\<lambda>r. r\<lparr>r_status := ''errored'', r_statusTimestamps := timestampsWithStatus stamp (r_statusTimestamps run) ''errored''\<rparr>)
      (update_jobs (claimed_row (aj_id candidate)) (fail_job now message) db))"

definition validateCandidateRun ::
  "(string \<Rightarrow> string policy_snapshot option) \<Rightarrow> agent_job \<Rightarrow> int \<Rightarrow> string \<Rightarrow> agent_db \<Rightarrow> agent_run option \<times> agent_db" where
  "validateCandidateRun snapshot candidate now stamp db =
    (let expectedRunStatus = queuedStatus (aj_phase candidate);
         stop = update_jobs (claimed_row (aj_id candidate)) (cancel_job now ''Run is no longer waiting for this job'') db in
     case find_run (aj_runId candidate) db of
       None \<Rightarrow> (None, stop)
     | Some run \<Rightarrow>
       if r_status run \<noteq> expectedRunStatus then (None, stop)
       else if \<not> runConfigurationTrusted (ad_configurations db) (ar_configurationVersionId run) then
         (None, reject_candidate candidate run expectedRunStatus
           (Message ''Pull-request configuration lacks trusted repository admission'') now stamp db)
       else (case (case find_workspace (r_workspaceId run) db of
           None \<Rightarrow> Some (Message ''Blocked: workspace no longer exists'')
         | Some w \<Rightarrow> map_option Policy_message (policy_gate (aj_phase candidate) (r_id run) (snapshot (wl_id w)) (ad_checks db))) of
           Some message \<Rightarrow> (None, reject_candidate candidate run expectedRunStatus message now stamp db)
         | None \<Rightarrow> (Some run, db)))"

datatype lock_result = Lock_taken | Lock_skipped | No_lock

definition lock_for_run :: "string \<Rightarrow> lockable \<Rightarrow> lockable" where
  "lock_for_run runId w = w\<lparr>wl_locked := Some True, wl_lockedReason := Some (''Run '' @ runId @ '' is applying''),
     wl_lockOwnerType := Some ''agent-run'', wl_lockOwnerId := Some runId\<rparr>"

definition tryLockWorkspaceForApply :: "agent_job \<Rightarrow> agent_run \<Rightarrow> agent_db \<Rightarrow> lock_result \<times> agent_db" where
  "tryLockWorkspaceForApply candidate run db =
    (let p = (\<lambda>w. wl_id w = r_workspaceId run \<and> (wl_locked w = Some False \<or> wl_locked w = None)) in
     if aj_phase candidate \<noteq> ''apply'' then (No_lock, db)
     else if list_ex p (st_workspaces (ad_store db)) then (Lock_taken, update_locks p (lock_for_run (aj_runId candidate)) db)
     else (Lock_skipped, update_jobs (claimed_row (aj_id candidate))
       (\<lambda>j. j\<lparr>aj_agentId := None, aj_status := ''queued'', aj_claimedAt := None\<rparr>) db))"

definition associate :: "(string \<Rightarrow> string \<Rightarrow> int) \<Rightarrow> agent_job \<Rightarrow> agent_run \<Rightarrow> agent \<Rightarrow> string \<Rightarrow> agent_run \<Rightarrow> agent_run" where
  "associate collate candidate run agent stamp r =
    (let nextRunStatus = expectedStatus (aj_phase candidate) in
     r\<lparr>ar_agentPoolId := Some (ag_poolId agent), ar_agentId := Some (ag_id agent), ar_agentVersion := ag_version agent,
       ar_agentProtocolVersion := ag_protocolVersion agent,
       ar_agentCapabilities := js_default (ag_capabilities agent) LEGACY_AGENT_CAPABILITIES,
       ar_executionPolicy := Some (effectiveAgentExecutionPolicy collate (ag_protocolVersion agent) (ag_capabilities agent)
         (ag_artifactFormats agent) (aj_phase candidate) (aj_iacBinary candidate)),
       r_status := nextRunStatus, r_statusTimestamps := timestampsWithStatus stamp (r_statusTimestamps run) nextRunStatus\<rparr>)"

definition tryAssociateRun ::
  "(string \<Rightarrow> string \<Rightarrow> int) \<Rightarrow> agent_job \<Rightarrow> agent_run \<Rightarrow> agent \<Rightarrow> int \<Rightarrow> string \<Rightarrow> agent_db \<Rightarrow> bool \<times> agent_db" where
  "tryAssociateRun collate candidate run agent now stamp db =
    (let p = (\<lambda>r. r_id r = r_id run \<and> r_status r = queuedStatus (aj_phase candidate)) in
     if list_ex p (ad_runs db) then (True, update_runs p (associate collate candidate run agent stamp) db)
     else (False, update_jobs (claimed_row (aj_id candidate)) (cancel_job now ''Run is no longer waiting for this job'')
       (if aj_phase candidate = ''apply'' then releaseRunLock (r_workspaceId run) (r_id run) db else db)))"

section \<open>Delivering a claimed job\<close>

definition admission_value :: "int \<Rightarrow> json" where
  "admission_value token = JNum (Finite (of_int token))"

definition admitted :: "agent_job \<Rightarrow> int \<Rightarrow> bool" where
  "admitted j token \<longleftrightarrow> Option.bind (aj_result j) (\<lambda>r. js_get r ''policyApplyAdmissionToken'') = Some (admission_value token)"

definition agentApplyIsAssociated :: "agent_job \<Rightarrow> agent_run option \<Rightarrow> lockable option \<Rightarrow> bool" where
  "agentApplyIsAssociated job run workspace = (case (run, workspace) of
     (Some r, Some w) \<Rightarrow> r_status r = ''applying'' \<and> ar_agentId r = aj_agentId job \<and> locked_for_run (aj_runId job) w
   | _ \<Rightarrow> False)"

definition agentDeliveryPolicyError ::
  "(string \<Rightarrow> string policy_snapshot option) \<Rightarrow> agent_job \<Rightarrow> agent_run option \<Rightarrow> lockable option \<Rightarrow> string policy_check table \<Rightarrow> job_message option" where
  "agentDeliveryPolicyError snapshot job run workspace checks =
    (if aj_phase job = ''plan'' then
       (case (workspace, run) of
          (Some w, Some r) \<Rightarrow>
            if r_status r \<noteq> ''planning'' \<or> ar_agentId r \<noteq> aj_agentId job \<or> r_workspaceId r \<noteq> wl_id w
            then Some (Message ''Plan blocked: agent claim is not associated with an active run and its workspace'')
            else map_option Policy_message (workspacePolicyPlanningError (snapshot (wl_id w)))
        | _ \<Rightarrow> Some (Message ''Plan blocked: agent claim is not associated with an active run and its workspace''))
     else (case workspace of
        Some w \<Rightarrow>
          if \<not> agentApplyIsAssociated job run workspace
          then Some (Message ''Apply blocked: agent claim is not associated with an active run and its workspace lock'')
          else map_option Policy_message (workspacePolicyExecutionError (snapshot (wl_id w)) (Some (aj_runId job)) False checks)
      | None \<Rightarrow> Some (Message ''Apply blocked: agent claim is not associated with an active run and its workspace lock'')))"

definition delivery_row :: "agent_job \<Rightarrow> agent_job \<Rightarrow> bool" where
  "delivery_row job j \<longleftrightarrow> claimed_row (aj_id job) j \<and> aj_fencingToken j = aj_fencingToken job \<and> aj_agentId j = aj_agentId job"

definition idle_if_free :: "string option \<Rightarrow> agent_db \<Rightarrow> agent_db" where
  "idle_if_free agentId db = (case agentId of
     None \<Rightarrow> db
   | Some a \<Rightarrow> if list_ex (\<lambda>j. aj_agentId j = Some a \<and> aj_status j = ''claimed'') (ad_jobs db) then db
       else update_agents (\<lambda>r. ag_id r = a) (\<lambda>r. r\<lparr>ag_status := ''idle''\<rparr>) db)"

definition admitAgentJobDelivery ::
  "(string \<Rightarrow> string policy_snapshot option) \<Rightarrow> agent_job \<Rightarrow> string \<Rightarrow> int \<Rightarrow> string \<Rightarrow> agent_db \<Rightarrow> bool \<times> agent_db" where
  "admitAgentJobDelivery snapshot job workspaceId now stamp db = (case db_find (delivery_row job) (ad_jobs db) of
     None \<Rightarrow> (False, db)
   | Some owned \<Rightarrow>
     if aj_phase job = ''apply'' \<and> admitted owned (aj_fencingToken job) then (True, db)
     else (let run = find_run (aj_runId job) db in
       case agentDeliveryPolicyError snapshot owned run (find_workspace workspaceId db) (ad_checks db) of
         None \<Rightarrow> (True, if aj_phase job = ''apply'' then update_jobs (\<lambda>j. aj_id j = aj_id job)
             (\<lambda>j. j\<lparr>aj_result := Some (js_set ''policyApplyAdmissionToken'' (admission_value (aj_fencingToken job)) (js_default (aj_result owned) []))\<rparr>) db
           else db)
       | Some message \<Rightarrow>
         (let db1 = update_jobs (\<lambda>j. aj_id j = aj_id job) (fail_job now message) db in
          case run of
            None \<Rightarrow> (False, idle_if_free (aj_agentId job) db1)
          | Some r \<Rightarrow>
            (let p = (\<lambda>x. r_id x = r_id r \<and>
                   r_status x \<in> (if aj_phase job = ''plan'' then {''plan_queued'', ''planning''} else {''apply_queued'', ''applying''}));
                 db2 = update_runs p (\<lambda>x. x\<lparr>r_status := ''errored'',
                     r_statusTimestamps := timestampsWithStatus stamp (r_statusTimestamps r) ''errored''\<rparr>) db1;
                 db3 = idle_if_free (aj_agentId job) (releaseApplyWorkspaceLock owned r db2) in
             (False, if list_ex p (ad_runs db1) then notifyRunStatus (aj_runId job) ''errored'' db3 else db3)))))"

definition dispatch_key :: "agent_job \<Rightarrow> string" where
  "dispatch_key job = aj_id job @ '':'' @ nat_string (nat (aj_fencingToken job))"

text \<open>Plan jobs only; \<open>i\<close> is the id of a new evaluation. \<open>None\<close> is a dispatch that was stopped.\<close>

definition agentDispatchPolicyEvaluation ::
  "string policy_snapshot \<Rightarrow> agent_job \<Rightarrow> agent_run \<Rightarrow> string \<Rightarrow> int \<Rightarrow> agent_db \<Rightarrow>
   ((policy_set \<times> policy list) list \<times> policy_set list) option option \<times> agent_db" where
  "agentDispatchPolicyEvaluation sn job run i now db =
    (let previous = latestWorkspacePolicyEvaluation (r_id run) (ad_checks db);
         same = (case previous of None \<Rightarrow> False | Some c \<Rightarrow> result_field cr_dispatchKey c = Some (dispatch_key job)) in
     if \<not> same then
       (Some (getAgentPolicyEvaluation sn),
        db\<lparr>ad_checks := captureWorkspacePolicyEvaluation sn (r_id run) (Some (dispatch_key job)) i now (ad_checks db)\<rparr>)
     else if Option.bind previous (result_field cr_fingerprint) \<noteq> Some (sn_fingerprint sn) then
       (None, notifyRunStatus (r_id run) ''errored'' (update_runs (\<lambda>r. r_id r = r_id run) (\<lambda>r. r\<lparr>r_status := ''errored''\<rparr>)
         (update_jobs (\<lambda>j. aj_id j = aj_id job \<and> aj_fencingToken j = aj_fencingToken job)
           (fail_job now (Message ''Policies changed after agent dispatch; create a new plan'')) db)))
     else (Some (getAgentPolicyEvaluation sn), db))"

record claimed_job =
  cj_job :: agent_job
  cj_run :: agent_run
  cj_workspace :: lockable
  cj_configuration :: "agent_configuration option"
  cj_inputState :: "state_version option"
  cj_planResult :: "(string, json) js_map option"
  cj_policyEvaluation :: "((policy_set \<times> policy list) list \<times> policy_set list) option"

definition claimedJobDetails ::
  "(string \<Rightarrow> string policy_snapshot option) \<Rightarrow> string \<Rightarrow> int \<Rightarrow> string \<Rightarrow> agent_job \<Rightarrow> agent_db \<Rightarrow> claimed_job option \<times> agent_db" where
  "claimedJobDetails snapshot i now stamp job db = (case find_run (aj_runId job) db of
     None \<Rightarrow> (None, db)
   | Some run \<Rightarrow>
     if \<not> runConfigurationTrusted (ad_configurations db) (ar_configurationVersionId run) then (None, db)
     else (case find_workspace (r_workspaceId run) db of
       None \<Rightarrow> (None, db)
     | Some w \<Rightarrow>
       (case admitAgentJobDelivery snapshot job (wl_id w) now stamp db of
          (False, db1) \<Rightarrow> (None, db1)
        | (True, db1) \<Rightarrow>
          (case (if aj_phase job = ''plan''
              then (case snapshot (wl_id w) of None \<Rightarrow> (None, db1) | Some sn \<Rightarrow> agentDispatchPolicyEvaluation sn job run i now db1)
              else (Some None, db1)) of
             (None, db2) \<Rightarrow> (None, db2)
           | (Some evaluation, db2) \<Rightarrow>
             (Some \<lparr>cj_job = job, cj_run = run, cj_workspace = w,
                cj_configuration = Option.bind (ar_configurationVersionId run) (\<lambda>c. db_find (\<lambda>r. ac_id r = c) (ad_configurations db)),
                cj_inputState = current_version (r_workspaceId run) (ad_store db),
                cj_planResult = (if aj_phase job = ''apply''
                  then Option.bind (db_find (\<lambda>j. aj_runId j = r_id run \<and> aj_phase j = ''plan'') (ad_jobs db)) aj_result else None),
                cj_policyEvaluation = evaluation\<rparr>, db2)))))"

definition findExistingClaim ::
  "(string \<Rightarrow> string policy_snapshot option) \<Rightarrow> string \<Rightarrow> int \<Rightarrow> string \<Rightarrow> agent \<Rightarrow> agent_db \<Rightarrow> claimed_job option \<times> agent_db" where
  "findExistingClaim snapshot i now stamp agent db =
    (case js_sort (\<lambda>a b. js_default (aj_claimedAt a) 0 - js_default (aj_claimedAt b) 0)
       (filter (\<lambda>j. aj_agentId j = Some (ag_id agent) \<and> aj_status j = ''claimed'') (ad_jobs db)) of
       [] \<Rightarrow> (None, db)
     | existing # _ \<Rightarrow> claimedJobDetails snapshot i now stamp existing db)"

definition findClaimedAgentJob ::
  "(string \<Rightarrow> string policy_snapshot option) \<Rightarrow> string \<Rightarrow> int \<Rightarrow> string \<Rightarrow> string \<Rightarrow> string \<Rightarrow> int \<Rightarrow> agent_db \<Rightarrow> claimed_job option \<times> agent_db" where
  "findClaimedAgentJob snapshot i now stamp agentId jobId token db =
    (case db_find (\<lambda>j. claimed_row jobId j \<and> aj_agentId j = Some agentId \<and> aj_fencingToken j = token) (ad_jobs db) of
       None \<Rightarrow> (None, db)
     | Some job \<Rightarrow> claimedJobDetails snapshot i now stamp job db)"

text \<open>The attempts of one poll; \<open>skipped\<close> are the apply jobs whose workspace was locked.\<close>

fun claim_attempts ::
  "(string \<Rightarrow> string policy_snapshot option) \<Rightarrow> (string \<Rightarrow> string \<Rightarrow> int) \<Rightarrow> string \<Rightarrow> int \<Rightarrow> string \<Rightarrow> agent \<Rightarrow> string list \<Rightarrow>
   nat \<Rightarrow> string list \<Rightarrow> agent_db \<Rightarrow> claimed_job option \<times> agent_db" where
  "claim_attempts snapshot collate i now stamp agent phases 0 skipped db = (None, db)"
| "claim_attempts snapshot collate i now stamp agent phases (Suc n) skipped db =
    (case findCandidateJob agent phases (resolveAgentBinaries agent) skipped db of
       None \<Rightarrow> (None, db)
     | Some candidate \<Rightarrow>
       (case tryClaimCandidate candidate agent now db of
          (None, db1) \<Rightarrow> (case db_find (\<lambda>j. aj_agentId j = Some (ag_id agent) \<and> aj_status j = ''claimed'') (ad_jobs db1) of
              None \<Rightarrow> (None, db1)
            | Some raced \<Rightarrow> claimedJobDetails snapshot i now stamp raced db1)
        | (Some claimedJob, db1) \<Rightarrow>
          (case validateCandidateRun snapshot candidate now stamp db1 of
             (None, db2) \<Rightarrow> claim_attempts snapshot collate i now stamp agent phases n skipped db2
           | (Some run, db2) \<Rightarrow>
             (case tryLockWorkspaceForApply candidate run db2 of
                (Lock_skipped, db3) \<Rightarrow> claim_attempts snapshot collate i now stamp agent phases n (skipped @ [aj_id candidate]) db3
              | (_, db3) \<Rightarrow>
                (case tryAssociateRun collate candidate run agent now stamp db3 of
                   (False, db4) \<Rightarrow> claim_attempts snapshot collate i now stamp agent phases n skipped db4
                 | (True, db4) \<Rightarrow>
                   claimedJobDetails snapshot i now stamp claimedJob
                     (notifyRunStatus (aj_runId claimedJob) (expectedStatus (aj_phase claimedJob))
                       (update_agents (\<lambda>a. ag_id a = ag_id agent) (\<lambda>a. a\<lparr>ag_status := ''busy'', ag_lastPingAt := Some now\<rparr>) db4)))))))"

definition claimAgentJob ::
  "(string \<Rightarrow> string policy_snapshot option) \<Rightarrow> (string \<Rightarrow> string \<Rightarrow> int) \<Rightarrow> int \<Rightarrow> string \<Rightarrow> int \<Rightarrow> string \<Rightarrow> agent \<Rightarrow> string list \<Rightarrow>
   agent_db \<Rightarrow> claimed_job option \<times> agent_db" where
  "claimAgentJob snapshot collate timeout i now stamp agent acceptedPhases db =
    (if \<not> isAgentLiveForClaim timeout now agent then (None, db)
     else (case findExistingClaim snapshot i now stamp agent db of
       (Some existing, db1) \<Rightarrow> (Some existing, db1)
     | (None, db1) \<Rightarrow> if acceptedPhases = [] then (None, db1)
         else claim_attempts snapshot collate i now stamp agent acceptedPhases 10 [] db1))"

section \<open>Cancellation and logs\<close>

text \<open>Three statements: the claimed jobs, the queued jobs, and the lock when nothing was claimed.\<close>

definition cancel_claimed :: "string \<Rightarrow> int \<Rightarrow> agent_db \<Rightarrow> nat \<times> agent_db" where
  "cancel_claimed runId now db =
    (let p = (\<lambda>j. aj_runId j = runId \<and> aj_status j = ''claimed'') in
     (length (filter p (ad_jobs db)), update_jobs p (cancel_job now ''Run canceled'') db))"

definition cancel_queued :: "string \<Rightarrow> int \<Rightarrow> agent_db \<Rightarrow> agent_db" where
  "cancel_queued runId now db = update_jobs (\<lambda>j. aj_runId j = runId \<and> aj_status j = ''queued'') (cancel_job now ''Run canceled'') db"

definition release_any_lock :: "string \<Rightarrow> agent_db \<Rightarrow> agent_db" where
  "release_any_lock runId db = update_locks (locked_for_run runId) run_unlocked db"

definition cancelAgentJobsForRun :: "string \<Rightarrow> int \<Rightarrow> agent_db \<Rightarrow> agent_db" where
  "cancelAgentJobsForRun runId now db =
    (case cancel_claimed runId now db of (claimed, db1) \<Rightarrow>
      (let db2 = cancel_queued runId now db1 in if claimed = 0 then release_any_lock runId db2 else db2))"

text \<open>
  \<open>ANSI_ESCAPE_RE\<close>: what follows an escape character, when it completes a control sequence, an operating system
  command (up to the bell, or the last string terminator before it) or a two-character sequence.
\<close>

definition between_chars :: "nat \<Rightarrow> nat \<Rightarrow> char \<Rightarrow> bool" where
  "between_chars a b c \<longleftrightarrow> a \<le> ord_of c \<and> ord_of c \<le> b"

definition after_csi :: "string \<Rightarrow> string option" where
  "after_csi s = (case s of
     c # t \<Rightarrow> if c \<noteq> CHR ''['' then None
       else (case dropWhile (between_chars 32 47) (dropWhile (\<lambda>d. is_digit d \<or> d = CHR '';'' \<or> d = CHR ''?'') t) of
         d # u \<Rightarrow> if between_chars 64 126 d then Some u else None
       | [] \<Rightarrow> None)
   | [] \<Rightarrow> None)"

text \<open>The rest after the last escape and backslash of a text without a bell, followed by \<open>rest\<close>.\<close>

fun after_terminator :: "string \<Rightarrow> string \<Rightarrow> string option" where
  "after_terminator (c # d # s) rest =
    (case after_terminator (d # s) rest of
       Some r \<Rightarrow> Some r
     | None \<Rightarrow> if ord_of c = 27 \<and> ord_of d = 92 then Some (s @ rest) else None)"
| "after_terminator _ rest = None"

definition after_osc :: "string \<Rightarrow> string option" where
  "after_osc s = (case s of
     c # t \<Rightarrow> if c \<noteq> CHR '']'' then None
       else (case dropWhile (\<lambda>d. ord_of d \<noteq> 7) t of
         _ # u \<Rightarrow> Some u
       | [] \<Rightarrow> after_terminator t [])
   | [] \<Rightarrow> None)"

definition after_fe :: "string \<Rightarrow> string option" where
  "after_fe s = (case s of
     c # t \<Rightarrow> if between_chars 64 90 c \<or> between_chars 92 95 c then Some t else None
   | [] \<Rightarrow> None)"

definition after_escape :: "string \<Rightarrow> string option" where
  "after_escape s = (case after_csi s of Some u \<Rightarrow> Some u | None \<Rightarrow>
     (case after_osc s of Some u \<Rightarrow> Some u | None \<Rightarrow> after_fe s))"

lemma after_escape_shorter: "after_escape s = Some u \<Longrightarrow> length u < length s"
proof -
  have rest: "after_terminator t rest = Some u \<Longrightarrow> length u \<le> length t + length rest" for t rest
    by (induction t rest rule: after_terminator.induct) (auto split: option.splits if_splits)
  have drop: "dropWhile P t = d # w \<Longrightarrow> length w < length t" for P t and d :: char and w
    by (metis length_Cons length_dropWhile_le less_eq_Suc_le)
  show "after_escape s = Some u \<Longrightarrow> length u < length s"
    using rest [of _ "[]"]
    by (fastforce simp: after_escape_def after_csi_def after_osc_def after_fe_def less_Suc_eq_le
        split: option.splits list.splits if_splits dest!: drop intro: order.strict_trans2 [OF _ length_dropWhile_le] less_imp_le)
qed

function stripAnsiEscape :: "string \<Rightarrow> string" where
  "stripAnsiEscape [] = []"
| "stripAnsiEscape (c # s) = (if ord_of c = 27 then (case after_escape s of
      Some u \<Rightarrow> stripAnsiEscape u | None \<Rightarrow> c # stripAnsiEscape s) else c # stripAnsiEscape s)"
  by pat_completeness auto
termination by (relation "measure length") (auto dest: after_escape_shorter)

definition fenced_row :: "string \<Rightarrow> string \<Rightarrow> int \<Rightarrow> agent_job \<Rightarrow> bool" where
  "fenced_row agentId jobId token j \<longleftrightarrow> aj_id j = jobId \<and> aj_agentId j = Some agentId \<and> aj_fencingToken j = token \<and> aj_status j = ''claimed''"

definition appendAgentJobLog :: "string \<Rightarrow> string \<Rightarrow> int \<Rightarrow> string \<Rightarrow> agent_db \<Rightarrow> bool \<times> agent_db" where
  "appendAgentJobLog agentId jobId token outputText db = (case db_find (fenced_row agentId jobId token) (ad_jobs db) of
     None \<Rightarrow> (False, db)
   | Some job \<Rightarrow> (True, append_log job (stripAnsiEscape outputText) db))"


section \<open>Queueing an apply\<close>

definition apply_job :: "string \<Rightarrow> string \<Rightarrow> string \<Rightarrow> string \<Rightarrow> int \<Rightarrow> agent_job" where
  "apply_job i runId poolId iacBinary now = \<lparr>aj_id = i, aj_runId = runId, aj_poolId = poolId, aj_agentId = None, aj_phase = ''apply'',
     aj_iacBinary = iacBinary, aj_status = ''queued'', aj_result = None, aj_errorMessage = None, aj_claimedAt = None,
     aj_completedAt = None, aj_fencingToken = 0, aj_createdAt = now, aj_requeueAttempts = 0\<rparr>"

text \<open>The unique index on the run and the phase of a job.\<close>

definition job_key_taken :: "string \<Rightarrow> string \<Rightarrow> agent_db \<Rightarrow> bool" where
  "job_key_taken runId phase db \<longleftrightarrow> list_ex (\<lambda>j. aj_runId j = runId \<and> aj_phase j = phase) (ad_jobs db)"

definition workspace_binary :: "string \<Rightarrow> agent_db \<Rightarrow> string" where
  "workspace_binary w db = js_default (js_get (ad_iacBinary db) w) ''terraform''"

text \<open>\<open>None\<close> when it throws and the transaction of the caller is rolled back.\<close>

definition insert_apply_job :: "string \<Rightarrow> int \<Rightarrow> string \<Rightarrow> string \<Rightarrow> string \<Rightarrow> (string, string) js_map \<Rightarrow> agent_db \<Rightarrow> agent_db option" where
  "insert_apply_job i now stamp runId poolId statusTimestamps db = (case find_run runId db of
     None \<Rightarrow> None
   | Some run \<Rightarrow>
     (let p = (\<lambda>r. r_id r = runId \<and> r_status r = ''confirmed'');
          f = (\<lambda>r. r\<lparr>ar_agentPoolId := Some poolId, r_status := ''apply_queued'',
             r_statusTimestamps := timestampsWithStatus stamp statusTimestamps ''apply_queued''\<rparr>) in
      if job_key_taken runId ''apply'' db \<or> \<not> list_ex p (ad_runs db) then None
      else Some (update_runs p f
        (db\<lparr>ad_jobs := ad_jobs db @ [apply_job i runId poolId (workspace_binary (r_workspaceId run) db) now]\<rparr>))))"

text \<open>
  The dispatch of a queued run to its agent pool (\<open>claimAgentPoolRun\<close> of \<open>worker.ts\<close>): the transaction of a
  pool that allows the workspace. \<open>run\<close> is the row as the poll read it.
\<close>

definition int_text :: "int \<Rightarrow> string" where
  "int_text n = (if n < 0 then ''-'' @ nat_string (nat (- n)) else nat_string (nat n))"

definition dispatchAgentRun :: "string \<Rightarrow> int \<Rightarrow> string \<Rightarrow> string \<Rightarrow> agent_run \<Rightarrow> agent_db \<Rightarrow> (unit + bool) \<times> agent_db" where
  "dispatchAgentRun i now stamp poolId run db =
    (let p = (\<lambda>r. buildRunClaimWhere (run_row.truncate run) (map run_row.truncate (ad_runs db)) (run_row.truncate r));
         t0 = js_set ''plan-queued-at'' stamp (r_statusTimestamps run);
         timestamps = (case current_version (r_workspaceId run) (ad_store db) of
           None \<Rightarrow> t0
         | Some v \<Rightarrow> js_set ''input-state-serial'' (int_text (sv_serial v)) (js_set ''input-state-version-id'' (sv_id v) t0));
         job = (apply_job i (r_id run) poolId (workspace_binary (r_workspaceId run) db) now)\<lparr>aj_phase := ''plan''\<rparr> in
     if \<not> list_ex p (ad_runs db) then (Inr False, db)
     else if job_key_taken (r_id run) ''plan'' db then (Inl (), db)
     else (Inr True, update_runs p (\<lambda>r. r\<lparr>ar_agentPoolId := Some poolId, r_status := ''plan_queued'', r_statusTimestamps := timestamps\<rparr>)
       (db\<lparr>ad_jobs := ad_jobs db @ [job]\<rparr>)))"


section \<open>Giving a claim back, deleting a pool\<close>

text \<open>
  \<open>releaseAgentClaim\<close> of \<open>routes/agent-api.ts\<close>: the payload of a claimed job could not be built. The revocation of
  the run tokens is not modelled.
\<close>

definition releaseAgentClaim :: "agent_job \<Rightarrow> agent_run \<Rightarrow> string \<Rightarrow> agent_db \<Rightarrow> agent_db" where
  "releaseAgentClaim job run stamp db =
    (let db1 = update_jobs (delivery_row job) reset_job db;
         queued = queuedStatus (aj_phase job) in
     if \<not> list_ex (delivery_row job) (ad_jobs db) then db
     else (case find_run (r_id run) db1 of
       None \<Rightarrow> db1
     | Some current \<Rightarrow>
       if r_status current \<noteq> expectedStatus (aj_phase job) then db1
       else (let db2 = update_runs (\<lambda>r. r_id r = r_id run \<and> r_status r = r_status current)
               (\<lambda>r. r\<lparr>ar_agentId := None, r_status := queued,
                  r_statusTimestamps := timestampsWithStatus stamp (r_statusTimestamps current) queued\<rparr>) db1 in
             if aj_phase job = ''apply'' then release_any_lock (r_id run) db2 else db2)))"

text \<open>
  The deletion of an agent pool (\<open>routes/agents.ts\<close>), without its stacks: the runs that were last given to the pool or have
  a job in it are errored, its jobs are canceled, and the locks of those runs are released; the jobs
  and agents of the pool go with it.
\<close>

definition pool_runs :: "string \<Rightarrow> agent_db \<Rightarrow> agent_run list" where
  "pool_runs poolId db = filter (\<lambda>r. r_status r \<notin> set FINAL_RUN_STATUSES \<and>
     (ar_agentPoolId r = Some poolId \<or> list_ex (\<lambda>j. aj_poolId j = poolId \<and> aj_runId j = r_id r) (ad_jobs db))) (ad_runs db)"

definition error_pool_runs :: "agent_run list \<Rightarrow> string \<Rightarrow> agent_db \<Rightarrow> agent_db" where
  "error_pool_runs affected stamp db =
    update_runs (\<lambda>r. r_id r \<in> set (map r_id affected) \<and> r_status r \<notin> set FINAL_RUN_STATUSES)
      (\<lambda>r. r\<lparr>r_status := ''errored'', ar_agentPoolId := None, ar_agentId := None,
         r_statusTimestamps := js_set ''errored-at'' stamp (r_statusTimestamps r)\<rparr>) db"

definition cancel_pool_jobs :: "string \<Rightarrow> int \<Rightarrow> agent_db \<Rightarrow> agent_db" where
  "cancel_pool_jobs poolId now db =
    update_jobs (\<lambda>j. aj_poolId j = poolId \<and> aj_status j \<in> {''queued'', ''claimed''})
      (\<lambda>j. (cancel_job now ''Agent pool was deleted'' j)\<lparr>aj_agentId := None\<rparr>) db"

definition release_pool_locks :: "agent_run list \<Rightarrow> agent_db \<Rightarrow> agent_db" where
  "release_pool_locks affected db =
    update_locks (\<lambda>w. wl_id w \<in> set (map r_workspaceId affected) \<and> list_ex (\<lambda>r. locked_for_run (r_id r) w) affected) run_unlocked db"

text \<open>The rows of the jobs and agents of the pool refer to it with \<open>onDelete: "cascade"\<close>.\<close>

definition deleteAgentPool :: "string \<Rightarrow> int \<Rightarrow> string \<Rightarrow> agent_db \<Rightarrow> agent_db" where
  "deleteAgentPool poolId now stamp db =
    (let affected = pool_runs poolId db;
         db1 = release_pool_locks affected (cancel_pool_jobs poolId now (error_pool_runs affected stamp db)) in
     db1\<lparr>ad_jobs := db_delete (\<lambda>j. aj_poolId j = poolId) (ad_jobs db1), ad_agents := db_delete (\<lambda>a. ag_poolId a = poolId) (ad_agents db1)\<rparr>)"


section \<open>Completion\<close>

record completion =
  cp_status :: string
  cp_errorMessage :: "string option"
  cp_counts :: resource_counts
  cp_planJson :: "(string, json) js_map option"
  cp_statePayload :: "string option"
  cp_jsonState :: "string option"
  cp_jsonStateOutputs :: "string option"
  cp_result :: "(string, json) js_map"

datatype agent_error =
  Workspace_disappeared
| Policies_unreadable
| Illegal_completion status status
| Run_changed
| State_error sv_error
| Duplicate_job
| Capture_failed string

text \<open>\<open>lib/plan-json.ts\<close>\<close>

definition plan_change :: "json \<Rightarrow> int \<times> int \<times> int \<times> int \<Rightarrow> int \<times> int \<times> int \<times> int" where
  "plan_change raw counts =
    (let resourceChange = js_default (json_record raw) [] in
     if js_get resourceChange ''mode'' = Some (JStr ''data'') then counts
     else (let change = js_default (Option.bind (js_get resourceChange ''change'') json_record) [];
         actions = (case js_get change ''actions'' of Some (JArr as) \<Rightarrow> as | _ \<Rightarrow> []);
         add = (\<lambda>b n. if b then n + 1 else (n :: int)) in
       (case counts of (additions, changes, destructions, imports) \<Rightarrow>
         (add (JStr ''create'' \<in> set actions) additions, add (JStr ''update'' \<in> set actions) changes,
          add (JStr ''delete'' \<in> set actions) destructions, add (given_value (js_get change ''importing'')) imports))))"

definition planJsonResourceCounts :: "(string, json) js_map \<Rightarrow> resource_counts option" where
  "planJsonResourceCounts planJson = (case js_get planJson ''resource_changes'' of
     Some (JArr rs) \<Rightarrow> (case fold plan_change rs (0, 0, 0, 0) of (additions, changes, destructions, imports) \<Rightarrow>
       Some \<lparr>rc_additions = Some additions, rc_changes = Some changes, rc_destructions = Some destructions, rc_imports = Some imports\<rparr>)
   | _ \<Rightarrow> None)"

definition MAX_INVALID_COMPLETION_REQUEUES :: int where "MAX_INVALID_COMPLETION_REQUEUES = 3"

definition idle_agent :: "string \<Rightarrow> int \<Rightarrow> agent_db \<Rightarrow> agent_db" where
  "idle_agent agentId now db = update_agents (\<lambda>a. ag_id a = agentId) (\<lambda>a. a\<lparr>ag_status := ''idle'', ag_lastPingAt := Some now\<rparr>) db"

definition requeueInvalidCompletion ::
  "string \<Rightarrow> agent_job \<Rightarrow> agent_run option \<Rightarrow> status \<Rightarrow> string \<Rightarrow> int \<Rightarrow> string \<Rightarrow> agent_db \<Rightarrow> agent_db" where
  "requeueInvalidCompletion agentId job run expectedRunStatus reason now stamp db =
    (let attempts = aj_requeueAttempts job + 1;
         terminal = (MAX_INVALID_COMPLETION_REQUEUES \<le> attempts);
         p = fenced_row agentId (aj_id job) (aj_fencingToken job);
         f = (\<lambda>j. j\<lparr>aj_status := if terminal then ''canceled'' else ''queued'', aj_agentId := None, aj_claimedAt := None,
            aj_completedAt := if terminal then Some now else None, aj_errorMessage := Some (Message reason), aj_requeueAttempts := attempts\<rparr>);
         nextRunStatus = (if terminal then ''errored'' else queuedStatus (aj_phase job)) in
     if \<not> list_ex p (ad_jobs db) then db
     else (let db1 = update_jobs p f db in
       idle_agent agentId now (case run of
         None \<Rightarrow> db1
       | Some r \<Rightarrow>
         (let db2 = update_runs (\<lambda>x. r_id x = r_id r \<and> r_status x = expectedRunStatus)
             (\<lambda>x. x\<lparr>ar_agentId := None, r_status := nextRunStatus,
                r_statusTimestamps := timestampsWithStatus stamp (r_statusTimestamps r) nextRunStatus\<rparr>) db1 in
          releaseApplyWorkspaceLock job r db2))))"

definition invalidCompletionReason ::
  "(string \<Rightarrow> nat) \<Rightarrow> (json \<Rightarrow> nat option) \<Rightarrow> agent_job \<Rightarrow> agent_run option \<Rightarrow> completion \<Rightarrow> status \<Rightarrow> string option" where
  "invalidCompletionReason units bytes job run c expectedRunStatus =
    (if (case run of None \<Rightarrow> True | Some r \<Rightarrow> r_status r \<noteq> expectedRunStatus) then Some ''Run changed before agent completion''
     else if \<not> isAgentResultValid units bytes (JObj (cp_result c)) then Some ''Invalid agent completion result''
     else if cp_planJson c \<noteq> None \<and> (cp_status c \<noteq> ''completed'' \<or> aj_phase job \<noteq> ''plan'')
       then Some ''plan-json is only valid for completed plan jobs''
     else if aj_phase job = ''apply'' \<and> cp_status c = ''completed'' \<and> cp_statePayload c = None
       then Some ''Completed apply job must return non-null statePayload''
     else None)"

text \<open>The plan files after the write, and the counts of the plan.\<close>

definition prepareAgentCompletion ::
  "agent_job \<Rightarrow> agent_run \<Rightarrow> completion \<Rightarrow> agent_db \<Rightarrow> resource_counts option \<times> agent_db" where
  "prepareAgentCompletion job run c db =
    (let db1 = (case cp_planJson c of None \<Rightarrow> db | Some p \<Rightarrow> db\<lparr>ad_planJson := js_set (r_id run) (JObj p) (ad_planJson db)\<rparr>);
         effective = (case cp_planJson c of Some p \<Rightarrow> Some p | None \<Rightarrow> Option.bind (js_get (ad_planJson db) (r_id run)) json_record) in
     (if aj_phase job = ''plan'' then Option.bind effective planJsonResourceCounts else None, db1))"

definition persistAgentJobCompletion :: "string \<Rightarrow> agent_job \<Rightarrow> completion \<Rightarrow> int \<Rightarrow> agent_db \<Rightarrow> agent_job option \<times> agent_db" where
  "persistAgentJobCompletion agentId job c now db =
    (let db1 = (if cp_status c = ''errored'' \<and> cp_errorMessage c \<noteq> None \<and> cp_errorMessage c \<noteq> Some []
           then append_log job (''[agent error] '' @ the (cp_errorMessage c)) db else db);
         p = fenced_row agentId (aj_id job) (aj_fencingToken job);
         f = (\<lambda>j. j\<lparr>aj_status := if cp_status c = ''completed'' then ''completed'' else ''errored'', aj_result := Some (cp_result c),
            aj_errorMessage := map_option Message (cp_errorMessage c), aj_completedAt := Some now\<rparr>) in
     (case db_returning p f (ad_jobs db1) of [] \<Rightarrow> None | j # _ \<Rightarrow> Some j, update_jobs p f db1))"

definition resolvePlanStatus :: "bool \<Rightarrow> bool \<Rightarrow> agent_run \<Rightarrow> status" where
  "resolvePlanStatus hardFailed softFailed run =
    (if hardFailed then ''errored''
     else if softFailed then ''policy_soft_failed''
     else if r_savePlan run then ''planned_and_saved''
     else if r_planOnly run then ''planned_and_finished''
     else if ar_autoApply run then ''apply_queued''
     else ''planned'')"

text \<open>An outcome of the policies is \<open>(evaluated, hardFailed, softFailed)\<close>.\<close>

definition determineCompletionOutcome ::
  "(string \<Rightarrow> string policy_snapshot option) \<Rightarrow> (string \<Rightarrow> string) \<Rightarrow> agent_job \<Rightarrow> agent_run \<Rightarrow> completion \<Rightarrow> int \<Rightarrow> bool \<Rightarrow> agent_db \<Rightarrow>
   (agent_error + (bool \<times> bool \<times> bool) \<times> status) \<times> agent_db" where
  "determineCompletionOutcome snapshot fresh job run c now gated db =
    (if cp_status c \<noteq> ''completed'' then (Inr ((False, False, False), ''errored''), db)
     else if aj_phase job \<noteq> ''plan'' then (Inr ((False, False, False), ''applied''), db)
     else (case find_workspace (r_workspaceId run) db of
       None \<Rightarrow> (Inl Workspace_disappeared, db)
     | Some w \<Rightarrow> (case snapshot (wl_id w) of
         None \<Rightarrow> (Inl Policies_unreadable, db)
       | Some sn \<Rightarrow>
         (case recordAgentPolicyChecks sn (r_id run) (cp_result c) fresh now (ad_checks db) of
            ((evaluated, hardFailed, softFailed), checks) \<Rightarrow>
              (let runStatus = resolvePlanStatus hardFailed softFailed run in
               (Inr ((evaluated, hardFailed, softFailed), if runStatus = ''apply_queued'' \<and> gated then ''planned'' else runStatus),
                db\<lparr>ad_checks := checks\<rparr>))))))"

definition completionStatusTimestamps ::
  "string \<Rightarrow> agent_run \<Rightarrow> agent_job \<Rightarrow> completion \<Rightarrow> bool \<times> bool \<times> bool \<Rightarrow> (string, string) js_map" where
  "completionStatusTimestamps stamp run job c outcome =
    (let t0 = r_statusTimestamps run;
         t1 = (if cp_status c = ''completed'' \<and> aj_phase job = ''plan'' then timestampsWithStatus stamp t0 ''planned'' else t0) in
     case outcome of (evaluated, hardFailed, softFailed) \<Rightarrow>
       if \<not> evaluated then t1
       else (let t2 = timestampsWithStatus stamp t1 ''policy_checking'' in
         if softFailed \<and> \<not> hardFailed then timestampsWithStatus stamp t2 ''policy_override''
         else if \<not> hardFailed then timestampsWithStatus stamp t2 ''policy_checked'' else t2))"

definition persistRunCompletion ::
  "string \<Rightarrow> agent_job \<Rightarrow> agent_run \<Rightarrow> completion \<Rightarrow> status \<Rightarrow> resource_counts option \<Rightarrow> bool \<times> bool \<times> bool \<Rightarrow> status \<Rightarrow> int \<Rightarrow>
   agent_db \<Rightarrow> (agent_error + unit) \<times> agent_db" where
  "persistRunCompletion stamp job run c expectedRunStatus structured outcome runStatus now db =
    (let timestamps = timestampsWithStatus stamp (completionStatusTimestamps stamp run job c outcome) runStatus;
         s = js_default structured (cp_counts c);
         pick = (\<lambda>f. case f s of None \<Rightarrow> f (cp_counts c) | Some n \<Rightarrow> Some n);
         p = (\<lambda>r. r_id r = r_id run \<and> r_status r = expectedRunStatus);
         f = (\<lambda>r. let r' = r\<lparr>r_status := runStatus, r_statusTimestamps := timestamps,
                ar_appliedAt := if aj_phase job = ''apply'' \<and> cp_status c = ''completed'' then Some now else ar_appliedAt r\<rparr> in
            if aj_phase job = ''plan''
            then r'\<lparr>ar_planCounts := \<lparr>rc_additions = pick rc_additions, rc_changes = pick rc_changes, rc_destructions = pick rc_destructions, rc_imports = pick rc_imports\<rparr>\<rparr>
            else r'\<lparr>ar_applyCounts := cp_counts c\<rparr>) in
     if \<not> canTransitionRunStatus (r_status run) runStatus then (Inl (Illegal_completion (r_status run) runStatus), db)
     else if \<not> list_ex p (ad_runs db) then (Inl Run_changed, db)
     else (Inr (), update_runs p f db))"

definition completion_version :: "state_lib \<Rightarrow> agent_run \<Rightarrow> completion \<Rightarrow> string \<Rightarrow> int \<Rightarrow> state_version" where
  "completion_version lib run c i now = \<lparr>sv_id = i, sv_workspaceId = r_workspaceId run, sv_serial = 0, sv_expectedMd5 = None,
     sv_expectedLineage = None, sv_uploadExpiresAt = None, sv_uploadLock = None, sv_uploadSha256 = None,
     sv_statePayload = encryptStatePayload lib (cp_statePayload c), sv_status = Sv_finalized,
     sv_jsonState = encryptStatePayload lib (case cp_jsonState c of None \<Rightarrow> cp_statePayload c | Some s \<Rightarrow> Some s),
     sv_jsonStateOutputs = encryptStatePayload lib (cp_jsonStateOutputs c), sv_runId = Some (r_id run), sv_createdBy = ar_createdBy run,
     sv_intermediate = False, sv_softDeletedAt = None, sv_createdAt = now\<rparr>"

definition persistApplyStateVersion ::
  "state_lib \<Rightarrow> agent_job \<Rightarrow> agent_run \<Rightarrow> completion \<Rightarrow> string \<Rightarrow> int \<Rightarrow> agent_db \<Rightarrow> (agent_error + unit) \<times> agent_db" where
  "persistApplyStateVersion lib job run c i now db =
    (if aj_phase job \<noteq> ''apply'' \<or> cp_statePayload c = None then (Inr (), db)
     else (case insertStateVersionWithSerialTx lib (completion_version lib run c i now) (ad_store db) of
       (Inl e, _) \<Rightarrow> (Inl (State_error e), db)
     | (Inr _, st) \<Rightarrow> (Inr (), db\<lparr>ad_store := st\<rparr>)))"

definition enqueueApplyAfterPlan ::
  "agent_job \<Rightarrow> agent_run \<Rightarrow> completion \<Rightarrow> status \<Rightarrow> string \<Rightarrow> int \<Rightarrow> agent_db \<Rightarrow> agent_db option" where
  "enqueueApplyAfterPlan job run c runStatus i now db =
    (if cp_status c \<noteq> ''completed'' \<or> aj_phase job \<noteq> ''plan'' \<or> runStatus \<noteq> ''apply_queued'' then Some db
     else if job_key_taken (r_id run) ''apply'' db then None
     else Some (db\<lparr>ad_jobs := ad_jobs db @ [apply_job i (r_id run) (aj_poolId job) (workspace_binary (r_workspaceId run) db) now]\<rparr>))"

definition canceled_row :: "string \<Rightarrow> string \<Rightarrow> int \<Rightarrow> agent_job \<Rightarrow> bool" where
  "canceled_row agentId jobId token j \<longleftrightarrow> aj_id j = jobId \<and> aj_agentId j = Some agentId \<and> aj_fencingToken j = token \<and> aj_status j = ''canceled''"

text \<open>A completion answers with the job and the status of its run, or with nothing.\<close>

definition acknowledgeCanceledAgentJob ::
  "string \<Rightarrow> string \<Rightarrow> int \<Rightarrow> int \<Rightarrow> agent_db \<Rightarrow> (agent_job \<times> status) option \<times> agent_db" where
  "acknowledgeCanceledAgentJob agentId jobId token now db = (case db_find (canceled_row agentId jobId token) (ad_jobs db) of
     None \<Rightarrow> (None, db)
   | Some job \<Rightarrow> (case find_run (aj_runId job) db of
       None \<Rightarrow> (None, db)
     | Some run \<Rightarrow>
       if r_status run \<notin> {''canceled'', ''force_canceled''} then (None, db)
       else (Some (job, r_status run), idle_agent agentId now (releaseApplyWorkspaceLock job run db))))"

definition canceledApplyRecoveryRunId :: "string \<Rightarrow> string \<Rightarrow> int \<Rightarrow> agent_db \<Rightarrow> string option" where
  "canceledApplyRecoveryRunId agentId jobId token db =
    (case db_find (\<lambda>j. canceled_row agentId jobId token j \<and> aj_phase j = ''apply'') (ad_jobs db) of
       None \<Rightarrow> None
     | Some job \<Rightarrow> map_option r_id (db_find (\<lambda>r. r_id r = aj_runId job \<and> r_status r \<in> {''canceled'', ''force_canceled''}) (ad_runs db)))"

text \<open>
  The arguments of a completion that do not come from the agent: the limits of a result, the policy snapshot of a workspace,
  the state library, the fresh ids of the policy checks, of a state version and of an apply job, the answer of the apply
  gate, and the clock.
\<close>

record completion_env =
  ce_units :: "string \<Rightarrow> nat"
  ce_bytes :: "json \<Rightarrow> nat option"
  ce_snapshot :: "string \<Rightarrow> string policy_snapshot option"
  ce_lib :: state_lib
  ce_checkId :: "string \<Rightarrow> string"
  ce_versionId :: string
  ce_jobId :: string
  ce_gated :: bool
  ce_now :: int
  ce_stamp :: string

text \<open>The body of the transaction once the fenced job is found and the completion is valid.\<close>

definition finishAgentJob ::
  "completion_env \<Rightarrow> string \<Rightarrow> agent_job \<Rightarrow> agent_run \<Rightarrow> completion \<Rightarrow> agent_db \<Rightarrow> (agent_error + (agent_job \<times> status) option) \<times> agent_db" where
  "finishAgentJob env agentId job run c db =
    (let now = ce_now env; stamp = ce_stamp env in
     case prepareAgentCompletion job run c db of (structured, db1) \<Rightarrow>
     (case persistAgentJobCompletion agentId job c now db1 of
        (None, db2) \<Rightarrow> (Inr None, db2)
      | (Some updatedJob, db2) \<Rightarrow>
     (case determineCompletionOutcome (ce_snapshot env) (ce_checkId env) job run c now (ce_gated env) db2 of
        (Inl e, db3) \<Rightarrow> (Inl e, db3)
      | (Inr (outcome, runStatus), db3) \<Rightarrow>
     (case persistRunCompletion stamp job run c (expectedStatus (aj_phase job)) structured outcome runStatus now db3 of
        (Inl e, db4) \<Rightarrow> (Inl e, db4)
      | (Inr _, db4) \<Rightarrow>
     (case persistApplyStateVersion (ce_lib env) job run c (ce_versionId env) now db4 of
        (Inl e, db5) \<Rightarrow> (Inl e, db5)
      | (Inr _, db5) \<Rightarrow>
     (case enqueueApplyAfterPlan job run c runStatus (ce_jobId env) now (releaseApplyWorkspaceLock job run db5) of
        None \<Rightarrow> (Inl Duplicate_job, db5)
      | Some db6 \<Rightarrow> (Inr (Some (updatedJob, runStatus)), idle_agent agentId now db6)))))))"

definition completeAgentJobInTransaction ::
  "completion_env \<Rightarrow> string \<Rightarrow> string \<Rightarrow> int \<Rightarrow> completion \<Rightarrow> agent_db \<Rightarrow> (agent_error + (agent_job \<times> status) option) \<times> agent_db" where
  "completeAgentJobInTransaction env agentId jobId token c db =
    (case db_find (fenced_row agentId jobId token) (ad_jobs db) of
       None \<Rightarrow> (case acknowledgeCanceledAgentJob agentId jobId token (ce_now env) db of (r, db') \<Rightarrow> (Inr r, db'))
     | Some job \<Rightarrow>
       (let run = find_run (aj_runId job) db; expectedRunStatus = expectedStatus (aj_phase job) in
        case invalidCompletionReason (ce_units env) (ce_bytes env) job run c expectedRunStatus of
          Some reason \<Rightarrow> (Inr None, requeueInvalidCompletion agentId job run expectedRunStatus reason (ce_now env) (ce_stamp env) db)
        | None \<Rightarrow> (case run of
            None \<Rightarrow> (Inr None, db)
          | Some r \<Rightarrow> finishAgentJob env agentId job r c db)))"

text \<open>\<open>read\<close> are the tables when the state is captured, \<open>captured\<close> is whether the capture was durable. A failure rolls
  back the tables, but not the plan file.\<close>

definition completeAgentJob ::
  "completion_env \<Rightarrow> bool \<Rightarrow> string \<Rightarrow> string \<Rightarrow> int \<Rightarrow> completion \<Rightarrow> agent_db \<Rightarrow> agent_db \<Rightarrow>
   (agent_error + (agent_job \<times> status) option) \<times> agent_db" where
  "completeAgentJob env captured agentId jobId token c read db =
    (let recovery = (if cp_statePayload c = None then None else canceledApplyRecoveryRunId agentId jobId token read) in
     if recovery \<noteq> None \<and> \<not> captured then (Inl (Capture_failed (the recovery)), db)
     else (case completeAgentJobInTransaction env agentId jobId token c db of
       (Inl e, db') \<Rightarrow> (Inl e, db\<lparr>ad_planJson := ad_planJson db'\<rparr>)
     | (Inr None, db') \<Rightarrow> (Inr None, db')
     | (Inr (Some (job, runStatus)), db') \<Rightarrow> (Inr (Some (job, runStatus)), notifyRunStatus (aj_runId job) runStatus db')))"

end
