(* ===== verification/AgentSafety.thy ===== *)
theory AgentSafety imports AgentJobs begin

text \<open>
  The operations of \<open>AgentJobs\<close> interleaved: the claims in progress, statement by statement, with the deliveries,
  completions, cancellations and sweeps of other requests and with the other writers of runs and
  locks. The invariant behind the exclusive apply of a workspace, and the fencing of an agent that lost a job.
\<close>

section \<open>What the operations leave alone\<close>

abbreviation locks_of :: "agent_db \<Rightarrow> lockable table" where
  "locks_of db \<equiv> st_workspaces (ad_store db)"

lemma update_fields [simp]:
  "ad_jobs (update_jobs p f db) = db_update p f (ad_jobs db)" "ad_runs (update_jobs p f db) = ad_runs db"
  "ad_store (update_jobs p f db) = ad_store db" "ad_checks (update_jobs p f db) = ad_checks db"
  "ad_jobs (update_runs q g db) = ad_jobs db" "ad_runs (update_runs q g db) = db_update q g (ad_runs db)"
  "ad_store (update_runs q g db) = ad_store db" "ad_checks (update_runs q g db) = ad_checks db"
  "ad_jobs (update_agents r h db) = ad_jobs db" "ad_runs (update_agents r h db) = ad_runs db"
  "ad_store (update_agents r h db) = ad_store db" "ad_checks (update_agents r h db) = ad_checks db"
  "ad_jobs (update_locks s k db) = ad_jobs db" "ad_runs (update_locks s k db) = ad_runs db"
  "locks_of (update_locks s k db) = db_update s k (locks_of db)" "ad_checks (update_locks s k db) = ad_checks db"
  "ad_jobs (notifyRunStatus i st db) = ad_jobs db" "ad_runs (notifyRunStatus i st db) = ad_runs db"
  "ad_store (notifyRunStatus i st db) = ad_store db" "ad_jobs (append_log j t db) = ad_jobs db"
  "ad_runs (append_log j t db) = ad_runs db" "ad_store (append_log j t db) = ad_store db"
  "ad_jobs (idle_agent a n db) = ad_jobs db" "ad_runs (idle_agent a n db) = ad_runs db" "ad_store (idle_agent a n db) = ad_store db"
  "ad_jobs (idle_if_free o' db) = ad_jobs db" "ad_runs (idle_if_free o' db) = ad_runs db" "ad_store (idle_if_free o' db) = ad_store db"
  "ad_jobs (releaseRunLock w i db) = ad_jobs db" "ad_runs (releaseRunLock w i db) = ad_runs db"
  "ad_jobs (releaseApplyWorkspaceLock j x db) = ad_jobs db" "ad_runs (releaseApplyWorkspaceLock j x db) = ad_runs db"
  by (simp_all add: update_jobs_def update_runs_def update_agents_def update_locks_def notifyRunStatus_def Let_def append_log_def
      idle_agent_def idle_if_free_def releaseRunLock_def releaseApplyWorkspaceLock_def split: option.split)

text \<open>The tables the invariant reads.\<close>

definition same_core :: "agent_db \<Rightarrow> agent_db \<Rightarrow> bool" where
  "same_core db db' \<longleftrightarrow> ad_jobs db' = ad_jobs db \<and> ad_runs db' = ad_runs db \<and> locks_of db' = locks_of db"

lemma same_core_simps [simp]:
  "same_core db db" "same_core db (notifyRunStatus i st db') = same_core db db'" "same_core db (append_log j t db') = same_core db db'"
  "same_core db (idle_agent a n db') = same_core db db'" "same_core db (idle_if_free o' db') = same_core db db'"
  "same_core db (update_agents p f db') = same_core db db'"
  by (simp_all add: same_core_def)


section \<open>Claims in progress\<close>

record attempt =
  at_job :: agent_job
  at_agent :: agent
  at_run :: "agent_run option"
  at_locked :: bool

definition at_id :: "attempt \<Rightarrow> string" where "at_id a = aj_id (at_job a)"

text \<open>A job that may still be executed: waiting, claimed, or canceled while an agent had it.\<close>

definition outstanding :: "agent_job \<Rightarrow> bool" where
  "outstanding j \<longleftrightarrow> aj_phase j = ''apply'' \<and> (aj_status j = ''queued'' \<or> aj_status j = ''claimed'' \<or> aj_status j = ''canceled'' \<and> aj_agentId j \<noteq> None)"

text \<open>The apply jobs of a run that are outstanding or being claimed.\<close>

definition engaged :: "agent_db \<Rightarrow> attempt list \<Rightarrow> string \<Rightarrow> string \<Rightarrow> bool" where
  "engaged db as run i \<longleftrightarrow> (\<exists>j \<in> set (ad_jobs db). outstanding j \<and> aj_runId j = run \<and> aj_id j = i) \<or>
     (\<exists>a \<in> set as. aj_phase (at_job a) = ''apply'' \<and> aj_runId (at_job a) = run \<and> at_id a = i)"

definition past_plan :: "status \<Rightarrow> bool" where
  "past_plan s \<longleftrightarrow> s \<in> {''apply_queued'', ''applying'', ''applied'', ''errored'', ''canceled'', ''force_canceled''}"

text \<open>A claimed apply job that has passed the lock of its workspace.\<close>

definition holding :: "attempt list \<Rightarrow> agent_job \<Rightarrow> bool" where
  "holding as j \<longleftrightarrow> aj_phase j = ''apply'' \<and> aj_status j = ''claimed'' \<and> (\<forall>a \<in> set as. at_id a = aj_id j \<longrightarrow> at_locked a)"

definition lock_held :: "agent_db \<Rightarrow> agent_job \<Rightarrow> bool" where
  "lock_held db j \<longleftrightarrow> (\<exists>r \<in> set (ad_runs db). \<exists>w \<in> set (locks_of db). r_id r = aj_runId j \<and> wl_id w = r_workspaceId r \<and> locked_for_run (r_id r) w)"

definition claims_job :: "agent_db \<Rightarrow> agent_job \<Rightarrow> bool" where
  "claims_job db c \<longleftrightarrow> (\<exists>j \<in> set (ad_jobs db). aj_id j = aj_id c \<and> aj_runId j = aj_runId c \<and> aj_phase j = aj_phase c \<and> aj_status j \<noteq> ''queued'')"

definition knows_run :: "agent_db \<Rightarrow> agent_run \<Rightarrow> bool" where
  "knows_run db run \<longleftrightarrow> (\<exists>r \<in> set (ad_runs db). r_id r = r_id run \<and> r_workspaceId r = r_workspaceId run)"

lemma known_fields [simp]:
  "knows_run (update_jobs p f db) = knows_run db" "knows_run (update_locks q k db) = knows_run db"
  "knows_run (db\<lparr>ad_jobs := js\<rparr>) = knows_run db" "claims_job (update_runs r g db) = claims_job db" "claims_job (update_locks q k db) = claims_job db"
  by (simp_all add: knows_run_def claims_job_def fun_eq_iff)

definition attempt_ok :: "agent_db \<Rightarrow> attempt \<Rightarrow> bool" where
  "attempt_ok db a \<longleftrightarrow> claims_job db (at_job a) \<and>
     (at_run a = None \<longrightarrow> \<not> at_locked a) \<and> (\<forall>run. at_run a = Some run \<longrightarrow> r_id run = aj_runId (at_job a) \<and> knows_run db run)"

definition apply_inv :: "agent_db \<Rightarrow> attempt list \<Rightarrow> bool" where
  "apply_inv db as \<longleftrightarrow>
     unique_by aj_id (ad_jobs db) \<and> unique_by r_id (ad_runs db) \<and> unique_by wl_id (locks_of db) \<and> unique_by at_id as \<and>
     (\<forall>run i. engaged db as run i \<longrightarrow> (\<exists>r \<in> set (ad_runs db). r_id r = run \<and> past_plan (r_status r))) \<and>
     (\<forall>run i k. engaged db as run i \<longrightarrow> engaged db as run k \<longrightarrow> i = k) \<and>
     (\<forall>j \<in> set (ad_jobs db). holding as j \<longrightarrow> lock_held db j) \<and>
     (\<forall>a \<in> set as. attempt_ok db a)"

lemma apply_invD:
  assumes "apply_inv db as"
  shows "unique_by aj_id (ad_jobs db)" "unique_by r_id (ad_runs db)" "unique_by wl_id (locks_of db)" "unique_by at_id as"
    "engaged db as run i \<Longrightarrow> \<exists>r \<in> set (ad_runs db). r_id r = run \<and> past_plan (r_status r)"
    "engaged db as run i \<Longrightarrow> engaged db as run k \<Longrightarrow> i = k"
    "j \<in> set (ad_jobs db) \<Longrightarrow> holding as j \<Longrightarrow> lock_held db j"
    "a \<in> set as \<Longrightarrow> attempt_ok db a"
  using assms unfolding apply_inv_def by blast+

lemma apply_invI:
  assumes "unique_by aj_id (ad_jobs db)" "unique_by r_id (ad_runs db)" "unique_by wl_id (locks_of db)" "unique_by at_id as"
    "\<And>run i. engaged db as run i \<Longrightarrow> \<exists>r \<in> set (ad_runs db). r_id r = run \<and> past_plan (r_status r)"
    "\<And>run i k. engaged db as run i \<Longrightarrow> engaged db as run k \<Longrightarrow> i = k"
    "\<And>j. j \<in> set (ad_jobs db) \<Longrightarrow> holding as j \<Longrightarrow> lock_held db j"
    "\<And>a. a \<in> set as \<Longrightarrow> attempt_ok db a"
  shows "apply_inv db as"
  using assms unfolding apply_inv_def by blast

lemma core_eqs:
  assumes "same_core db db'"
  shows "engaged db' = engaged db" "lock_held db' = lock_held db" "attempt_ok db' = attempt_ok db"
  using assms by (simp_all add: same_core_def engaged_def lock_held_def attempt_ok_def claims_job_def knows_run_def fun_eq_iff)

lemma apply_inv_core: "same_core db db' \<Longrightarrow> apply_inv db as \<Longrightarrow> apply_inv db' as"
  by (rule apply_invI) (simp_all only: core_eqs, auto simp: same_core_def dest: apply_invD)

lemma holding_outstanding: "holding as j \<Longrightarrow> outstanding j"
  by (simp add: holding_def outstanding_def)

lemma engagedI: "j \<in> set (ad_jobs db) \<Longrightarrow> outstanding j \<Longrightarrow> engaged db as (aj_runId j) (aj_id j)"
  by (auto simp: engaged_def)

lemma engaged_past_plan:
  assumes "apply_inv db as" "r \<in> set (ad_runs db)" "\<not> past_plan (r_status r)"
  shows "\<not> engaged db as (r_id r) i"
proof
  assume "engaged db as (r_id r) i"
  from apply_invD(5) [OF assms(1) this] obtain s where s: "s \<in> set (ad_runs db)" "r_id s = r_id r" "past_plan (r_status s)" by blast
  from unique_byD [OF apply_invD(2) [OF assms(1)] s(1) assms(2) s(2)] s(3) assms(3) show False by simp
qed


section \<open>The primitive changes keep the invariant\<close>

lemma mem_db_update: "x \<in> set (db_update p f t) \<longleftrightarrow> (\<exists>y \<in> set t. x = (if p y then f y else y))"
  by (auto simp: db_update_def)

lemma bex_db_update: "(\<exists>x \<in> set (db_update p f t). Q x) \<longleftrightarrow> (\<exists>y \<in> set t. Q (if p y then f y else y))"
  by (auto simp: db_update_def)

lemma ball_db_update: "(\<forall>x \<in> set (db_update p f t). Q x) \<longleftrightarrow> (\<forall>y \<in> set t. Q (if p y then f y else y))"
  by (auto simp: db_update_def)

text \<open>A change of jobs that neither reopens a job nor takes one back to the queue while it is being claimed.\<close>

definition tame :: "attempt list \<Rightarrow> (agent_job \<Rightarrow> bool) \<Rightarrow> (agent_job \<Rightarrow> agent_job) \<Rightarrow> agent_job \<Rightarrow> bool" where
  "tame as p f j \<longleftrightarrow> (p j \<longrightarrow> aj_id (f j) = aj_id j \<and> aj_runId (f j) = aj_runId j \<and> aj_phase (f j) = aj_phase j \<and>
     (outstanding (f j) \<longrightarrow> outstanding j) \<and> (aj_status (f j) = ''claimed'' \<longrightarrow> aj_status j = ''claimed'') \<and>
     (aj_status (f j) = ''queued'' \<longrightarrow> aj_status j = ''queued'' \<or> (\<forall>a \<in> set as. at_id a \<noteq> aj_id j)))"

lemma inv_jobs_attempts:
  assumes "apply_inv db as" "\<And>j. j \<in> set (ad_jobs db) \<Longrightarrow> tame as' p f j" "set as' \<subseteq> set as" "unique_by at_id as'"
    and hold: "\<And>j. j \<in> set (ad_jobs db) \<Longrightarrow> holding as' (if p j then f j else j) \<Longrightarrow> holding as j"
  shows "apply_inv (update_jobs p f db) as'"
proof -
  let ?g = "\<lambda>j. if p j then f j else j"
  have t: "aj_id (?g j) = aj_id j \<and> aj_runId (?g j) = aj_runId j \<and> aj_phase (?g j) = aj_phase j \<and>
      (outstanding (?g j) \<longrightarrow> outstanding j) \<and> (aj_status (?g j) = ''claimed'' \<longrightarrow> aj_status j = ''claimed'') \<and>
      (aj_status (?g j) = ''queued'' \<longrightarrow> aj_status j = ''queued'' \<or> (\<forall>a \<in> set as'. at_id a \<noteq> aj_id j))" if "j \<in> set (ad_jobs db)" for j
    using assms(2) [OF that] by (simp add: tame_def)
  have eng: "engaged db as run i" if "engaged (update_jobs p f db) as' run i" for run i
  proof -
    from that consider (job) k where "k \<in> set (ad_jobs db)" "outstanding (?g k)" "aj_runId (?g k) = run" "aj_id (?g k) = i"
      | (attempt) "\<exists>a \<in> set as. aj_phase (at_job a) = ''apply'' \<and> aj_runId (at_job a) = run \<and> at_id a = i"
      using assms(3) unfolding engaged_def update_fields bex_db_update by blast
    then show ?thesis
    proof cases
      case job
      from t [OF job(1)] job have "outstanding k" "aj_runId k = run" "aj_id k = i" by auto
      with job(1) show ?thesis by (auto simp: engaged_def)
    qed (simp add: engaged_def)
  qed
  note D = apply_invD [OF assms(1)]
  show ?thesis
  proof (rule apply_invI)
    have "map aj_id (db_update p f (ad_jobs db)) = map aj_id (ad_jobs db)" using t by (simp add: db_update_def)
    with D(1) show "unique_by aj_id (ad_jobs (update_jobs p f db))" by (simp add: unique_by_def)
  next
    fix j assume "j \<in> set (ad_jobs (update_jobs p f db))" "holding as' j"
    then obtain k where k: "k \<in> set (ad_jobs db)" "j = ?g k" by (auto simp: mem_db_update)
    with \<open>holding as' j\<close> hold D(7) have "lock_held db k" by blast
    with k t show "lock_held (update_jobs p f db) j" by (simp add: lock_held_def)
  next
    fix a assume a: "a \<in> set as'"
    with assms(3) have ok: "attempt_ok db a" using D(8) by blast
    then obtain j where j: "j \<in> set (ad_jobs db)" "aj_id j = aj_id (at_job a)" "aj_runId j = aj_runId (at_job a)"
        "aj_phase j = aj_phase (at_job a)" "aj_status j \<noteq> ''queued''"
      unfolding attempt_ok_def claims_job_def by blast
    have "aj_status (?g j) \<noteq> ''queued''" using t [OF j(1)] j(2,5) a unfolding at_id_def by metis
    with t [OF j(1)] j have "claims_job (update_jobs p f db) (at_job a)"
      unfolding claims_job_def update_fields bex_db_update by (intro bexI [OF _ j(1)]) simp
    with ok show "attempt_ok (update_jobs p f db) a" by (simp add: attempt_ok_def)
  next
    fix run i assume "engaged (update_jobs p f db) as' run i"
    from D(5) [OF eng [OF this]] show "\<exists>r \<in> set (ad_runs (update_jobs p f db)). r_id r = run \<and> past_plan (r_status r)" by simp
  next
    fix run i k assume "engaged (update_jobs p f db) as' run i" "engaged (update_jobs p f db) as' run k"
    from D(6) [OF eng eng, OF this] show "i = k" .
  qed (simp_all add: D(2,3) assms(4))
qed

lemma inv_jobs:
  assumes "apply_inv db as" "\<And>j. j \<in> set (ad_jobs db) \<Longrightarrow> tame as p f j"
  shows "apply_inv (update_jobs p f db) as"
proof (rule inv_jobs_attempts [OF assms])
  show "holding as j" if "j \<in> set (ad_jobs db)" "holding as (if p j then f j else j)" for j
    using assms(2) [OF that(1)] that(2) by (auto simp: tame_def holding_def split: if_splits)
qed (simp_all add: apply_invD(4) [OF assms(1)])

text \<open>A change of runs that takes no engaged run back before its apply.\<close>

lemma inv_runs:
  assumes "apply_inv db as"
    and "\<And>r. r \<in> set (ad_runs db) \<Longrightarrow> p r \<Longrightarrow> r_id (f r) = r_id r \<and> r_workspaceId (f r) = r_workspaceId r \<and>
      (past_plan (r_status r) \<longrightarrow> past_plan (r_status (f r)) \<or> (\<forall>i. \<not> engaged db as (r_id r) i))"
  shows "apply_inv (update_runs p f db) as"
proof -
  let ?g = "\<lambda>r. if p r then f r else r"
  have t: "r_id (?g r) = r_id r" "r_workspaceId (?g r) = r_workspaceId r"
      "past_plan (r_status r) \<Longrightarrow> engaged db as (r_id r) i \<Longrightarrow> past_plan (r_status (?g r))" if "r \<in> set (ad_runs db)" for r i
    using assms(2) [OF that] by auto
  have eng: "engaged (update_runs p f db) as = engaged db as" by (simp add: engaged_def fun_eq_iff)
  note D = apply_invD [OF assms(1)]
  show ?thesis
  proof (rule apply_invI; (unfold eng)?)
    have "map r_id (db_update p f (ad_runs db)) = map r_id (ad_runs db)" using t(1) by (simp add: db_update_def)
    with D(2) show "unique_by r_id (ad_runs (update_runs p f db))" by (simp add: unique_by_def)
  next
    fix run i assume e: "engaged db as run i"
    with D(5) [OF e] t show "\<exists>r \<in> set (ad_runs (update_runs p f db)). r_id r = run \<and> past_plan (r_status r)"
      unfolding update_fields bex_db_update by metis
  next
    fix j assume "j \<in> set (ad_jobs (update_runs p f db))" "holding as j"
    then have "lock_held db j" by (simp add: D(7))
    with t show "lock_held (update_runs p f db) j" unfolding lock_held_def update_fields bex_db_update by metis
  next
    fix a assume "a \<in> set as"
    from D(8) [OF this] have ok: "attempt_ok db a" .
    have "knows_run (update_runs p f db) run" if "knows_run db run" for run
      using that t(1,2) unfolding knows_run_def update_fields bex_db_update by metis
    with ok show "attempt_ok (update_runs p f db) a" by (simp add: attempt_ok_def)
  next
    fix run i k assume "engaged db as run i" "engaged db as run k"
    from D(6) [OF this] show "i = k" .
  qed (simp_all add: D(1,3,4))
qed

text \<open>A change of locks that releases no lock under which a job applies.\<close>

lemma inv_locks:
  assumes "apply_inv db as"
    and "\<And>w. w \<in> set (locks_of db) \<Longrightarrow> p w \<Longrightarrow> wl_id (f w) = wl_id w"
    and "\<And>w run. w \<in> set (locks_of db) \<Longrightarrow> p w \<Longrightarrow> locked_for_run run w \<Longrightarrow>
      locked_for_run run (f w) \<or> (\<forall>j \<in> set (ad_jobs db). holding as j \<longrightarrow> aj_runId j \<noteq> run)"
  shows "apply_inv (update_locks p f db) as"
proof -
  have eng: "engaged (update_locks p f db) as = engaged db as" by (simp add: engaged_def fun_eq_iff)
  note D = apply_invD [OF assms(1)]
  show ?thesis
  proof (rule apply_invI; (unfold eng)?)
    have "map wl_id (db_update p f (locks_of db)) = map wl_id (locks_of db)" using assms(2) by (simp add: db_update_def)
    with D(3) show "unique_by wl_id (locks_of (update_locks p f db))" by (simp add: unique_by_def)
  next
    fix j assume "j \<in> set (ad_jobs (update_locks p f db))" "holding as j"
    then have j: "j \<in> set (ad_jobs db)" "holding as j" by simp_all
    from D(7) [OF j] obtain r w where "r \<in> set (ad_runs db)" "w \<in> set (locks_of db)" "r_id r = aj_runId j"
        "wl_id w = r_workspaceId r" "locked_for_run (r_id r) w" unfolding lock_held_def by blast
    with assms(2,3) j show "lock_held (update_locks p f db) j"
      unfolding lock_held_def update_fields bex_db_update by (intro bexI [of _ r] bexI [of _ w]) auto
  next
    fix a assume "a \<in> set as"
    from D(8) [OF this] show "attempt_ok (update_locks p f db) a" by (simp add: attempt_ok_def)
  next
    fix run i k assume "engaged db as run i" "engaged db as run k"
    from D(6) [OF this] show "i = k" .
  qed (use D(5) in \<open>simp_all add: D(1,2,4)\<close>)
qed

text \<open>Releasing the lock of a run no job applies under.\<close>

lemma inv_release:
  assumes "apply_inv db as" "\<And>j. j \<in> set (ad_jobs db) \<Longrightarrow> holding as j \<Longrightarrow> aj_runId j \<noteq> run"
  shows "apply_inv (update_locks (\<lambda>w. q w \<and> locked_for_run run w) run_unlocked db) as"
proof (rule inv_locks [OF assms(1)])
  fix w run' assume "q w \<and> locked_for_run run w" "locked_for_run run' w"
  then have "run' = run" by (simp add: locked_for_run_def)
  with assms(2) show "locked_for_run run' (run_unlocked w) \<or> (\<forall>j \<in> set (ad_jobs db). holding as j \<longrightarrow> aj_runId j \<noteq> run')" by blast
qed (simp add: run_unlocked_def)

lemma inv_releaseRunLock:
  "apply_inv db as \<Longrightarrow> (\<And>j. j \<in> set (ad_jobs db) \<Longrightarrow> holding as j \<Longrightarrow> aj_runId j \<noteq> run) \<Longrightarrow> apply_inv (releaseRunLock w run db) as"
  unfolding releaseRunLock_def by (rule inv_release)

text \<open>When an engaged job stops being claimed, no job of its run applies.\<close>

lemma no_holder_after:
  assumes "apply_inv db as" "engaged db as run i"
    and "\<And>j. j \<in> set (ad_jobs db) \<Longrightarrow> aj_id j = i \<Longrightarrow> p j \<or> aj_status j \<noteq> ''claimed''"
    and "\<And>j. p j \<Longrightarrow> aj_runId (f j) = aj_runId j \<and> aj_status (f j) \<noteq> ''claimed''"
    and "k \<in> set (db_update p f (ad_jobs db))" "holding as k"
  shows "aj_runId k \<noteq> run"
proof
  assume run: "aj_runId k = run"
  obtain j where j: "j \<in> set (ad_jobs db)" "k = (if p j then f j else j)" using assms(5) by (auto simp: mem_db_update)
  with assms(4,6) have "k = j" "\<not> p j" by (auto simp: holding_def split: if_splits)
  moreover have "engaged db as run (aj_id j)" using engagedI [OF j(1)] holding_outstanding [OF assms(6)] run \<open>k = j\<close> by auto
  from apply_invD(6) [OF assms(1) this assms(2)] have "aj_id j = i" .
  ultimately show False using assms(3) [OF j(1)] assms(6) by (auto simp: holding_def)
qed

lemma not_engaged_no_holder:
  "(\<forall>i. \<not> engaged db as run i) \<Longrightarrow> j \<in> set (ad_jobs db) \<Longrightarrow> holding as j \<Longrightarrow> aj_runId j \<noteq> run"
  by (auto dest: engagedI holding_outstanding)

text \<open>A new job: of the plan phase, or the apply of a run without one.\<close>

lemma inv_insert:
  assumes "apply_inv db as" "\<And>k. k \<in> set (ad_jobs db) \<Longrightarrow> aj_id k \<noteq> aj_id j" "aj_status j = ''queued''"
    and "outstanding j \<Longrightarrow> (\<forall>i. \<not> engaged db as (aj_runId j) i) \<and> (\<exists>r \<in> set (ad_runs db). r_id r = aj_runId j \<and> past_plan (r_status r))"
  shows "apply_inv (db\<lparr>ad_jobs := ad_jobs db @ [j]\<rparr>) as"
proof -
  let ?db = "db\<lparr>ad_jobs := ad_jobs db @ [j]\<rparr>"
  note D = apply_invD [OF assms(1)]
  have eng: "engaged ?db as run i \<longleftrightarrow> engaged db as run i \<or> outstanding j \<and> aj_runId j = run \<and> aj_id j = i" for run i
    by (auto simp: engaged_def)
  show ?thesis
  proof (rule apply_invI)
    show "unique_by aj_id (ad_jobs ?db)" using unique_by_append1 [OF D(1), of j] assms(2) by force
  next
    fix run i assume "engaged ?db as run i"
    then show "\<exists>r \<in> set (ad_runs ?db). r_id r = run \<and> past_plan (r_status r)" using D(5) assms(4) by (auto simp: eng)
  next
    fix run i k assume "engaged ?db as run i" "engaged ?db as run k"
    then show "i = k" using D(6) assms(4) by (auto simp: eng)
  next
    fix k assume "k \<in> set (ad_jobs ?db)" "holding as k"
    then have "k \<in> set (ad_jobs db)" using assms(3) by (auto simp: holding_def)
    from D(7) [OF this \<open>holding as k\<close>] show "lock_held ?db k" by (simp add: lock_held_def)
  next
    fix a assume "a \<in> set as"
    from D(8) [OF this] show "attempt_ok ?db a" by (auto simp: attempt_ok_def claims_job_def)
  qed (simp_all add: D(2,3,4))
qed

text \<open>Claims that advance or end.\<close>

lemma inv_attempts:
  assumes "apply_inv db as" "unique_by at_id as'"
    and "\<And>a'. a' \<in> set as' \<Longrightarrow> attempt_ok db a' \<and> (\<exists>a \<in> set as. at_job a = at_job a')"
    and "\<And>j. j \<in> set (ad_jobs db) \<Longrightarrow> holding as' j \<Longrightarrow> holding as j \<or> lock_held db j"
  shows "apply_inv db as'"
proof -
  note D = apply_invD [OF assms(1)]
  have eng: "engaged db as run i" if "engaged db as' run i" for run i
    using that assms(3) unfolding engaged_def at_id_def by metis
  show ?thesis
  proof (rule apply_invI)
    fix run i k assume "engaged db as' run i" "engaged db as' run k"
    from D(6) [OF eng eng, OF this] show "i = k" .
  qed (use assms(2,3,4) D(1,2,3) D(5) [OF eng] D(7) in blast)+
qed

definition drop_attempt :: "attempt \<Rightarrow> attempt list \<Rightarrow> attempt list" where
  "drop_attempt a as = filter (\<lambda>b. at_id b \<noteq> at_id a) as"

definition put_attempt :: "attempt \<Rightarrow> attempt list \<Rightarrow> attempt list" where
  "put_attempt a as = map (\<lambda>b. if at_id b = at_id a then a else b) as"

lemma inv_drop:
  assumes "apply_inv db as" "a \<in> set as"
    and "\<And>j. j \<in> set (ad_jobs db) \<Longrightarrow> aj_id j = at_id a \<Longrightarrow> aj_phase j = ''apply'' \<Longrightarrow> aj_status j = ''claimed'' \<Longrightarrow> at_locked a"
  shows "apply_inv db (drop_attempt a as)"
proof (rule inv_attempts [OF assms(1)])
  note D = apply_invD [OF assms(1)]
  show "unique_by at_id (drop_attempt a as)" using D(4) by (simp add: unique_by_def drop_attempt_def distinct_map_filter)
  show "attempt_ok db a' \<and> (\<exists>a \<in> set as. at_job a = at_job a')" if "a' \<in> set (drop_attempt a as)" for a'
    using that D(8) by (auto simp: drop_attempt_def)
  show "holding as j \<or> lock_held db j" if "j \<in> set (ad_jobs db)" "holding (drop_attempt a as) j" for j
  proof -
    have "at_locked b" if "b \<in> set as" "at_id b = aj_id j" for b
    proof (cases "at_id b = at_id a")
      case True
      then have "b = a" using unique_byD [OF D(4)] that(1) assms(2) by blast
      with assms(3) [of j] \<open>j \<in> set (ad_jobs db)\<close> \<open>holding (drop_attempt a as) j\<close> that(2) show ?thesis by (simp add: holding_def)
    next
      case False
      with that \<open>holding (drop_attempt a as) j\<close> show ?thesis by (simp add: holding_def drop_attempt_def)
    qed
    with that(2) show ?thesis by (simp add: holding_def)
  qed
qed

lemma inv_put:
  assumes "apply_inv db as" "a \<in> set as" "at_job b = at_job a" "attempt_ok db b"
    and "\<And>j. j \<in> set (ad_jobs db) \<Longrightarrow> aj_id j = at_id a \<Longrightarrow> aj_phase j = ''apply'' \<Longrightarrow> aj_status j = ''claimed'' \<Longrightarrow>
      at_locked b \<Longrightarrow> at_locked a \<or> lock_held db j"
  shows "apply_inv db (put_attempt b as)"
proof (rule inv_attempts [OF assms(1)])
  note D = apply_invD [OF assms(1)]
  have i: "at_id b = at_id a" using assms(3) by (simp add: at_id_def)
  have "map at_id (put_attempt b as) = map at_id as" by (simp add: put_attempt_def)
  with D(4) show "unique_by at_id (put_attempt b as)" by (simp add: unique_by_def)
  show "attempt_ok db a' \<and> (\<exists>a \<in> set as. at_job a = at_job a')" if "a' \<in> set (put_attempt b as)" for a'
    using that D(8) assms(2,3,4) by (auto simp: put_attempt_def)
  show "holding as j \<or> lock_held db j" if j: "j \<in> set (ad_jobs db)" "holding (put_attempt b as) j" for j
  proof (cases "aj_id j = at_id a")
    case True
    have "b \<in> set (put_attempt b as)" using assms(2) i by (force simp: put_attempt_def)
    with j(2) True i have l: "aj_phase j = ''apply''" "aj_status j = ''claimed''" "at_locked b" by (auto simp: holding_def)
    have "holding as j" if "at_locked a"
      using that l True unique_byD [OF D(4) _ assms(2)] by (auto simp: holding_def)
    with assms(5) [OF j(1) True l] show ?thesis by blast
  next
    case False
    with j(2) i show ?thesis by (force simp: holding_def put_attempt_def)
  qed
qed

text \<open>A claim starts: the job was queued, so nothing was claiming it.\<close>

lemma inv_start:
  assumes "apply_inv db as" "j \<in> set (ad_jobs db)" "aj_status j = ''queued''" "aj_id j = aj_id c" "aj_runId j = aj_runId c" "aj_phase j = aj_phase c"
    and f: "\<And>k. aj_id (f k) = aj_id k \<and> aj_runId (f k) = aj_runId k \<and> aj_phase (f k) = aj_phase k \<and> aj_status (f k) = ''claimed''"
    and p: "p = (\<lambda>k. aj_id k = aj_id c \<and> aj_status k = ''queued'')"
  shows "apply_inv (update_jobs p f db) (as @ [\<lparr>at_job = c, at_agent = g, at_run = None, at_locked = False\<rparr>])"
proof -
  let ?a = "\<lparr>at_job = c, at_agent = g, at_run = None, at_locked = False\<rparr>" and ?db = "update_jobs p f db"
  note D = apply_invD [OF assms(1)]
  have eng: "engaged db as run i" if "engaged ?db (as @ [?a]) run i" for run i
  proof -
    from that consider (job) k where "k \<in> set (ad_jobs db)" "outstanding (if p k then f k else k)"
        "aj_runId (if p k then f k else k) = run" "aj_id (if p k then f k else k) = i"
      | (old) a where "a \<in> set as" "aj_phase (at_job a) = ''apply''" "aj_runId (at_job a) = run" "at_id a = i"
      | (new) "aj_phase c = ''apply''" "aj_runId c = run" "aj_id c = i"
      unfolding engaged_def update_fields bex_db_update by (auto simp: at_id_def)
    then show ?thesis
    proof cases
      case job
      have "outstanding k" using job(2) f [of k] by (auto simp: outstanding_def p split: if_splits)
      then show ?thesis using job f [of k] by (auto simp: engaged_def split: if_splits)
    next
      case old
      then show ?thesis by (auto simp: engaged_def)
    next
      case new
      then have "outstanding j" using assms by (simp add: outstanding_def)
      from engagedI [OF assms(2) this] show ?thesis using new assms by simp
    qed
  qed
  have other: "at_id a \<noteq> aj_id c" if "a \<in> set as" for a
  proof
    assume "at_id a = aj_id c"
    with D(8) [OF that] obtain k where "k \<in> set (ad_jobs db)" "aj_id k = aj_id c" "aj_status k \<noteq> ''queued''"
      unfolding attempt_ok_def claims_job_def at_id_def by auto
    with unique_byD [OF D(1) _ assms(2)] assms(3,4) show False by metis
  qed
  show ?thesis
  proof (rule apply_invI)
    have "map aj_id (db_update p f (ad_jobs db)) = map aj_id (ad_jobs db)" using f by (simp add: db_update_def)
    with D(1) show "unique_by aj_id (ad_jobs ?db)" by (simp add: unique_by_def)
    have "at_id ?a \<notin> at_id ` set as" using other by (metis at_id_def attempt.select_convs(1) imageE)
    with D(4) show "unique_by at_id (as @ [?a])" by (rule unique_by_append1)
  next
    fix run i assume "engaged ?db (as @ [?a]) run i"
    from D(5) [OF eng [OF this]] show "\<exists>r \<in> set (ad_runs ?db). r_id r = run \<and> past_plan (r_status r)" by simp
  next
    fix run i k assume "engaged ?db (as @ [?a]) run i" "engaged ?db (as @ [?a]) run k"
    from D(6) [OF eng eng, OF this] show "i = k" .
  next
    fix k assume "k \<in> set (ad_jobs ?db)" and h: "holding (as @ [?a]) k"
    then obtain k0 where k0: "k0 \<in> set (ad_jobs db)" "k = (if p k0 then f k0 else k0)" by (auto simp: mem_db_update)
    have "aj_id k \<noteq> aj_id c" using h by (auto simp: holding_def at_id_def)
    with k0 f have "k = k0" by (auto simp: p split: if_splits)
    moreover have "holding as k" using h by (simp add: holding_def)
    ultimately show "lock_held ?db k" using D(7) k0(1) by (simp add: lock_held_def)
  next
    fix a assume "a \<in> set (as @ [?a])"
    moreover have "attempt_ok ?db ?a"
      using assms f [of j] unfolding attempt_ok_def claims_job_def update_fields bex_db_update by (auto intro!: bexI [of _ j])
    moreover have "attempt_ok ?db a" if "a \<in> set as"
    proof -
      have ok: "attempt_ok db a" by (rule D(8) [OF that])
      then obtain k where k: "k \<in> set (ad_jobs db)" "aj_id k = aj_id (at_job a)" "aj_runId k = aj_runId (at_job a)"
        "aj_phase k = aj_phase (at_job a)" "aj_status k \<noteq> ''queued''" unfolding attempt_ok_def claims_job_def by blast
      then have "claims_job ?db (at_job a)" using f [of k] unfolding claims_job_def update_fields bex_db_update by (intro bexI [OF _ k(1)]) (auto simp: p)
      with ok show ?thesis by (simp add: attempt_ok_def)
    qed
    ultimately show "attempt_ok ?db a" by auto
  qed (simp_all add: D(2,3))
qed

section \<open>The operations keep the invariant\<close>

lemma tame_cancel: "(\<And>j. p j \<Longrightarrow> aj_status j = ''claimed'' \<or> aj_status j = ''queued'') \<Longrightarrow> tame as p (cancel_job n m) j"
  by (auto simp: tame_def cancel_job_def outstanding_def)

lemma tame_fail: "tame as p (fail_job n m) j"
  by (simp add: tame_def fail_job_def outstanding_def)

lemma inv_cancel: "apply_inv db as \<Longrightarrow> (\<And>j. p j \<Longrightarrow> aj_status j = ''claimed'' \<or> aj_status j = ''queued'') \<Longrightarrow> apply_inv (update_jobs p (cancel_job n m) db) as"
  by (rule inv_jobs, assumption) (rule tame_cancel)

lemma inv_fail: "apply_inv db as \<Longrightarrow> apply_inv (update_jobs p (fail_job n m) db) as"
  by (rule inv_jobs, assumption) (rule tame_fail)

lemma errored_past [simp]: "past_plan ''errored''" "past_plan ''applying''" "past_plan ''apply_queued''" "past_plan ''applied''"
    "past_plan ''canceled''" "past_plan ''force_canceled''"
    "\<not> past_plan ''planning''" "\<not> past_plan ''plan_queued''" "\<not> past_plan ''confirmed''"
  by (simp_all add: past_plan_def)

lemma claimed_rowD: "claimed_row i j \<Longrightarrow> aj_status j = ''claimed''" "claimed_row i j \<Longrightarrow> aj_id j = i"
  by (simp_all add: claimed_row_def)

lemma find_runD: "find_run i db = Some r \<Longrightarrow> r \<in> set (ad_runs db) \<and> r_id r = i"
  by (auto simp: find_run_def dest: db_find_SomeD)

lemma inv_core_iff: "same_core db db' \<Longrightarrow> apply_inv db' as = apply_inv db as"
  using apply_inv_core [of db db'] apply_inv_core [of db' db] by (metis same_core_def)

lemma inv_notify [simp]: "apply_inv (notifyRunStatus i s db) as = apply_inv db as"
  by (rule inv_core_iff) simp

lemma inv_idle [simp]: "apply_inv (idle_if_free o' db) as = apply_inv db as" "apply_inv (idle_agent i n db) as = apply_inv db as"
  by (rule inv_core_iff, simp)+

text \<open>Statuses that only ever lead forward need no look at the jobs of the run.\<close>

lemma inv_run_status:
  assumes "apply_inv db as"
    and "\<And>r. p r \<Longrightarrow> r_id (f r) = r_id r \<and> r_workspaceId (f r) = r_workspaceId r \<and> (past_plan (r_status r) \<longrightarrow> past_plan (r_status (f r)))"
  shows "apply_inv (update_runs p f db) as"
proof (rule inv_runs [OF assms(1)])
  fix r assume "p r"
  from assms(2) [OF this] show "r_id (f r) = r_id r \<and> r_workspaceId (f r) = r_workspaceId r \<and>
      (past_plan (r_status r) \<longrightarrow> past_plan (r_status (f r)) \<or> (\<forall>i. \<not> engaged db as (r_id r) i))" by blast
qed

lemma inv_reject: "apply_inv db as \<Longrightarrow> apply_inv (reject_candidate c run s m n st db) as"
proof -
  assume "apply_inv db as"
  then have "apply_inv (update_jobs (claimed_row (aj_id c)) (fail_job n m) db) as" by (rule inv_fail)
  then show "apply_inv (reject_candidate c run s m n st db) as"
    unfolding reject_candidate_def inv_notify by (rule inv_run_status) simp
qed

lemma validate_keeps:
  assumes "validateCandidateRun snapshot c n st db = (r, db')" "apply_inv db as"
  shows "apply_inv db' as" and "r = None \<Longrightarrow> j \<in> set (ad_jobs db') \<Longrightarrow> \<not> claimed_row (aj_id c) j"
    and "r = Some run \<Longrightarrow> db' = db \<and> run \<in> set (ad_runs db) \<and> r_id run = aj_runId c"
proof -
  let ?stop = "update_jobs (claimed_row (aj_id c)) (cancel_job n ''Run is no longer waiting for this job'') db"
  have cs: "db' = ?stop \<and> r = None \<or> (\<exists>run m. db' = reject_candidate c run (queuedStatus (aj_phase c)) m n st db \<and> r = None) \<or>
      (\<exists>run. r = Some run \<and> db' = db \<and> find_run (aj_runId c) db = Some run)"
  proof (cases "find_run (aj_runId c) db")
    case None
    with assms(1) show ?thesis by (simp add: validateCandidateRun_def)
  next
    case run: (Some run)
    let ?m = "case find_workspace (r_workspaceId run) db of
           None \<Rightarrow> Some (Message ''Blocked: workspace no longer exists'')
         | Some w \<Rightarrow> map_option Policy_message (policy_gate (aj_phase c) (r_id run) (snapshot (wl_id w)) (ad_checks db))"
    consider "r_status run \<noteq> queuedStatus (aj_phase c)" | "r_status run = queuedStatus (aj_phase c)"
      "\<not> runConfigurationTrusted (ad_configurations db) (ar_configurationVersionId run)"
      | (gate) "r_status run = queuedStatus (aj_phase c)" "runConfigurationTrusted (ad_configurations db) (ar_configurationVersionId run)"
      by blast
    then show ?thesis
    proof cases
      case gate
      show ?thesis
      proof (cases ?m)
        case None
        with gate assms(1) run have "r = Some run \<and> db' = db" by (simp add: validateCandidateRun_def)
        with run show ?thesis by blast
      next
        case (Some m)
        with gate assms(1) run have "db' = reject_candidate c run (queuedStatus (aj_phase c)) m n st db \<and> r = None"
          by (simp add: validateCandidateRun_def)
        then show ?thesis by blast
      qed
    qed (use assms(1) run in \<open>auto simp: validateCandidateRun_def\<close>)
  qed
  moreover have "apply_inv ?stop as" by (rule inv_cancel [OF assms(2)]) (simp add: claimed_row_def)
  ultimately show "apply_inv db' as" using assms(2) inv_reject [OF assms(2)] by blast
  have "\<not> claimed_row i j" if m: "j \<in> set (db_update (claimed_row i) f t)" and n: "\<And>k. aj_status (f k) \<noteq> ''claimed''" for i f t
  proof -
    obtain k where "j = (if claimed_row i k then f k else k)" using m unfolding mem_db_update by blast
    with n [of k] show ?thesis by (cases "claimed_row i k") (simp_all add: claimed_row_def)
  qed
  note nc = this [where f = "cancel_job n m" for m] this [where f = "fail_job n m" for m]
  show "\<not> claimed_row (aj_id c) j" if "r = None" "j \<in> set (ad_jobs db')"
  proof -
    from cs that(1) consider "db' = ?stop" | run m where "db' = reject_candidate c run (queuedStatus (aj_phase c)) m n st db" by blast
    then show ?thesis
    proof cases
      case 1
      with that(2) nc(1) show ?thesis by (simp add: cancel_job_def)
    next
      case 2
      with that(2) nc(2) show ?thesis by (simp add: fail_job_def reject_candidate_def)
    qed
  qed
  show "r = Some run \<Longrightarrow> db' = db \<and> run \<in> set (ad_runs db) \<and> r_id run = aj_runId c"
    using cs by (elim disjE exE conjE) (auto dest: find_runD)
qed

lemma locked_exclusive: "locked_for_run run w \<Longrightarrow> wl_locked w = Some True"
  by (simp add: locked_for_run_def)

lemma attempt_ok_locked: "attempt_ok db a \<Longrightarrow> at_run a = Some run \<Longrightarrow> attempt_ok db (a\<lparr>at_locked := True\<rparr>)"
  by (simp add: attempt_ok_def)

lemma lock_keeps:
  assumes "tryLockWorkspaceForApply c run db = (res, db')" "apply_inv db as" "a \<in> set as" "at_job a = c" "at_run a = Some run" "\<not> at_locked a"
  shows "apply_inv db' (if res = Lock_skipped then drop_attempt a as else put_attempt (a\<lparr>at_locked := True\<rparr>) as)"
proof -
  let ?b = "a\<lparr>at_locked := True\<rparr>"
  have ids: "at_id a = aj_id c" using assms(4) by (simp add: at_id_def)
  have ok: "attempt_ok db a" using apply_invD(8) [OF assms(2,3)] .
  then have run: "r_id run = aj_runId c" "knows_run db run" and job: "claims_job db c" using assms(4,5) by (simp_all add: attempt_ok_def)
  have mine: "aj_runId j = aj_runId c \<and> aj_phase j = aj_phase c" if "j \<in> set (ad_jobs db)" "aj_id j = at_id a" for j
    using that ids job unique_byD [OF apply_invD(1) [OF assms(2)]] unfolding claims_job_def by metis
  consider (plan) "aj_phase c \<noteq> ''apply''" "res = No_lock" "db' = db"
    | (taken) w p where "res = Lock_taken" "aj_phase c = ''apply''" "w \<in> set (locks_of db)" "p w"
      "p = (\<lambda>w. wl_id w = r_workspaceId run \<and> (wl_locked w = Some False \<or> wl_locked w = None))" "db' = update_locks p (lock_for_run (aj_runId c)) db"
    | (skipped) "res = Lock_skipped" "db' = update_jobs (claimed_row (aj_id c)) (\<lambda>j. j\<lparr>aj_agentId := None, aj_status := ''queued'', aj_claimedAt := None\<rparr>) db"
    using assms(1) by (auto simp: tryLockWorkspaceForApply_def Let_def list_ex_iff split: if_splits)
  then show ?thesis
  proof cases
    case plan
    have "apply_inv db (put_attempt ?b as)"
    proof (rule inv_put [OF assms(2,3)])
      show "attempt_ok db ?b" using ok assms(5) by (rule attempt_ok_locked)
    next
      fix j assume "j \<in> set (ad_jobs db)" "aj_id j = at_id a" "aj_phase j = ''apply''"
      with mine plan(1) have False by metis
      then show "at_locked a \<or> lock_held db j" by blast
    qed simp
    with plan show ?thesis by simp
  next
    case taken
    let ?db = "update_locks p (lock_for_run (aj_runId c)) db"
    have inv: "apply_inv ?db as"
      by (rule inv_locks [OF assms(2)]) (auto simp: lock_for_run_def locked_for_run_def taken(5))
    have "apply_inv ?db (put_attempt ?b as)"
    proof (rule inv_put [OF inv assms(3)])
      have "attempt_ok ?db a" using apply_invD(8) [OF inv assms(3)] .
      then show "attempt_ok ?db ?b" using assms(5) by (rule attempt_ok_locked)
    next
      fix j assume j: "j \<in> set (ad_jobs ?db)" "aj_id j = at_id a"
      then have "aj_runId j = aj_runId c" using mine by simp
      with run obtain r where r: "r \<in> set (ad_runs db)" "r_id r = aj_runId j" "r_workspaceId r = r_workspaceId run"
        unfolding knows_run_def by metis
      have "lock_for_run (aj_runId c) w \<in> set (locks_of ?db)" "wl_id (lock_for_run (aj_runId c) w) = r_workspaceId run"
          "locked_for_run (r_id r) (lock_for_run (aj_runId c) w)"
        using taken(3,4) r(2) \<open>aj_runId j = aj_runId c\<close> unfolding update_fields mem_db_update
        by (auto simp: taken(5) lock_for_run_def locked_for_run_def intro!: bexI [of _ w])
      with r show "at_locked a \<or> lock_held ?db j" by (auto simp: lock_held_def intro!: bexI [of _ r])
    qed simp
    with taken show ?thesis by simp
  next
    case skipped
    let ?f = "\<lambda>j. j\<lparr>aj_agentId := None, aj_status := ''queued'', aj_claimedAt := None\<rparr>"
    have sub: "at_id b \<noteq> aj_id c" if "b \<in> set (drop_attempt a as)" for b using that ids by (simp add: drop_attempt_def)
    have "apply_inv (update_jobs (claimed_row (aj_id c)) ?f db) (drop_attempt a as)"
    proof (rule inv_jobs_attempts [OF assms(2)])
      show "tame (drop_attempt a as) (claimed_row (aj_id c)) ?f j" for j
      proof (cases "claimed_row (aj_id c) j")
        case True
        then have j: "aj_status j = ''claimed''" "aj_id j = aj_id c" by (simp_all add: claimed_row_def)
        with sub show ?thesis by (simp add: tame_def outstanding_def)
      qed (simp add: tame_def)
      show "unique_by at_id (drop_attempt a as)" using apply_invD(4) [OF assms(2)] by (simp add: unique_by_def drop_attempt_def distinct_map_filter)
      show "holding as j" if "holding (drop_attempt a as) (if claimed_row (aj_id c) j then ?f j else j)" for j
      proof -
        have n: "\<not> claimed_row (aj_id c) j" using that by (auto simp: holding_def)
        with that have h: "holding (drop_attempt a as) j" by simp
        have "at_locked b" if "b \<in> set as" "at_id b = aj_id j" for b
        proof (cases "at_id b = at_id a")
          case True
          with n h that(2) ids show ?thesis by (simp add: holding_def claimed_row_def)
        next
          case False
          with h that show ?thesis by (simp add: holding_def drop_attempt_def)
        qed
        with h show ?thesis by (simp add: holding_def)
      qed
    qed (auto simp: drop_attempt_def)
    with skipped show ?thesis by simp
  qed
qed

lemma release_after_cancel:
  "update_jobs p f (releaseRunLock w run db) = releaseRunLock w run (update_jobs p f db)"
  by (simp add: update_jobs_def releaseRunLock_def update_locks_def)

text \<open>A job of an engaged run that ends, together with the release of the lock of the run.\<close>

lemma inv_end_release:
  assumes "apply_inv db as" "apply_inv (update_jobs p f db) as" "engaged db as run i"
    and "\<And>j. j \<in> set (ad_jobs db) \<Longrightarrow> aj_id j = i \<Longrightarrow> p j \<or> aj_status j \<noteq> ''claimed''"
    and "\<And>j. p j \<Longrightarrow> aj_runId (f j) = aj_runId j \<and> aj_status (f j) \<noteq> ''claimed''"
    and "ad_jobs db' = db_update p f (ad_jobs db)" "apply_inv db' as"
  shows "apply_inv (releaseRunLock w run db') as"
  by (rule inv_releaseRunLock [OF assms(7)]) (use no_holder_after [OF assms(1,3,4,5)] assms(6) in auto)

lemma attempt_engaged: "a \<in> set as \<Longrightarrow> aj_phase (at_job a) = ''apply'' \<Longrightarrow> engaged db as (aj_runId (at_job a)) (at_id a)"
  by (auto simp: engaged_def)

lemma past_plan_expected: "past_plan (queuedStatus ph) \<longrightarrow> past_plan (expectedStatus ph)" "past_plan (expectedStatus ph) \<longrightarrow> past_plan (queuedStatus ph)"
  by (simp_all add: expectedStatus_def queuedStatus_def)

lemma associate_keeps:
  assumes "tryAssociateRun collate c run g n st db = (ok, db')" "apply_inv db as" "a \<in> set as" "at_job a = c" "at_run a = Some run" "at_locked a"
  shows "apply_inv db' (drop_attempt a as)"
proof -
  have "apply_inv db' as"
  proof (cases ok)
    case True
    then have "db' = update_runs (\<lambda>r. r_id r = r_id run \<and> r_status r = queuedStatus (aj_phase c)) (associate collate c run g st) db"
      using assms(1) by (auto simp: tryAssociateRun_def Let_def split: if_splits)
    moreover have "apply_inv \<dots> as"
      by (rule inv_run_status [OF assms(2)]) (auto simp: associate_def Let_def past_plan_expected)
    ultimately show ?thesis by simp
  next
    case False
    let ?p = "claimed_row (aj_id c)" and ?f = "cancel_job n ''Run is no longer waiting for this job''"
    have i: "apply_inv (update_jobs ?p ?f db) as" by (rule inv_cancel [OF assms(2)]) (simp add: claimed_row_def)
    have "aj_phase c = ''apply'' \<Longrightarrow> apply_inv (releaseRunLock (r_workspaceId run) (r_id run) (update_jobs ?p ?f db)) as"
    proof (rule inv_end_release [OF assms(2) i])
      assume "aj_phase c = ''apply''"
      moreover have "r_id run = aj_runId c" using apply_invD(8) [OF assms(2,3)] assms(4,5) by (simp add: attempt_ok_def)
      ultimately show "engaged db as (r_id run) (at_id a)" using attempt_engaged [OF assms(3)] assms(4) by simp
    qed (use i assms(4) in \<open>auto simp: at_id_def claimed_row_def cancel_job_def\<close>)
    with i False assms(1) show ?thesis by (auto simp: tryAssociateRun_def Let_def release_after_cancel split: if_splits)
  qed
  then show ?thesis using assms(3,6) by (intro inv_drop) simp_all
qed

lemma delivery_rowD: "db_find (delivery_row job) (ad_jobs db) = Some owned \<Longrightarrow>
    owned \<in> set (ad_jobs db) \<and> aj_id owned = aj_id job \<and> aj_status owned = ''claimed''"
  by (auto simp: delivery_row_def claimed_row_def dest!: db_find_SomeD)

text \<open>What was read of a job earlier agrees with the row on the columns that never change.\<close>

definition read_of :: "agent_job \<Rightarrow> agent_db \<Rightarrow> bool" where
  "read_of job db \<longleftrightarrow> (\<forall>j \<in> set (ad_jobs db). aj_id j = aj_id job \<longrightarrow> aj_runId j = aj_runId job \<and> aj_phase j = aj_phase job)"

lemma read_ofD: "read_of job db \<Longrightarrow> j \<in> set (ad_jobs db) \<Longrightarrow> aj_id j = aj_id job \<Longrightarrow> aj_runId j = aj_runId job \<and> aj_phase j = aj_phase job"
  by (simp add: read_of_def)

lemma admit_keeps:
  assumes "admitAgentJobDelivery snapshot job w n st db = (ok, db')" "apply_inv db as" "read_of job db"
  shows "apply_inv db' as"
proof (cases "db_find (delivery_row job) (ad_jobs db)")
  case None
  with assms(1,2) show ?thesis by (simp add: admitAgentJobDelivery_def)
next
  case (Some owned)
  note o' = delivery_rowD [OF Some]
  note same = read_ofD [OF assms(3), of owned]
  let ?e = "agentDeliveryPolicyError snapshot owned (find_run (aj_runId job) db) (find_workspace w db) (ad_checks db)"
  show ?thesis
  proof (cases "aj_phase job = ''apply'' \<and> admitted owned (aj_fencingToken job)")
    case True
    with Some assms(1,2) show ?thesis by (simp add: admitAgentJobDelivery_def)
  next
    case no: False
    show ?thesis
    proof (cases ?e)
      case None
      have "apply_inv (update_jobs (\<lambda>j. aj_id j = aj_id job) (\<lambda>j. j\<lparr>aj_result := x\<rparr>) db) as" for x
        by (rule inv_jobs [OF assms(2)]) (simp add: tame_def outstanding_def)
      with None Some no assms(1,2) show ?thesis by (auto simp: admitAgentJobDelivery_def Let_def split: if_splits)
    next
      case (Some message)
      let ?p = "\<lambda>j. aj_id j = aj_id job" and ?f = "fail_job n message"
      let ?db1 = "update_jobs ?p ?f db"
      have i1: "apply_inv ?db1 as" by (rule inv_fail [OF assms(2)])
      show ?thesis
      proof (cases "find_run (aj_runId job) db")
        case None
        with Some \<open>db_find _ _ = Some owned\<close> no assms(1) i1 show ?thesis by (auto simp: admitAgentJobDelivery_def Let_def)
      next
        case run: (Some r)
        let ?q = "\<lambda>x. r_id x = r_id r \<and> r_status x \<in> (if aj_phase job = ''plan'' then {''plan_queued'', ''planning''} else {''apply_queued'', ''applying''})"
        let ?h = "\<lambda>x. x\<lparr>r_status := ''errored'', r_statusTimestamps := timestampsWithStatus st (r_statusTimestamps r) ''errored''\<rparr>"
        let ?db2 = "update_runs ?q ?h ?db1"
        have i2: "apply_inv ?db2 as" by (rule inv_run_status [OF i1]) simp
        have "apply_inv (releaseApplyWorkspaceLock owned r ?db2) as"
        proof (cases "aj_phase owned = ''apply''")
          case True
          have "r_id r = aj_runId owned" using find_runD [OF run] same o' by simp
          moreover have "engaged db as (aj_runId owned) (aj_id owned)" using o' True by (intro engagedI) (simp_all add: outstanding_def)
          ultimately have "apply_inv (releaseRunLock (r_workspaceId r) (r_id r) ?db2) as"
            by (intro inv_end_release [OF assms(2) i1 _ _ _ _ i2, of "r_id r" "aj_id owned"]) (use o' in \<open>auto simp: fail_job_def\<close>)
          with True show ?thesis by (simp add: releaseApplyWorkspaceLock_def)
        qed (simp add: releaseApplyWorkspaceLock_def i2)
        with run Some \<open>db_find _ _ = Some owned\<close> no assms(1) show ?thesis
          by (auto simp: admitAgentJobDelivery_def Let_def split: if_splits)
      qed
    qed
  qed
qed

end
