(* ===== verification/AgentExclusion.thy ===== *)
theory AgentExclusion imports AgentSafety begin

text \<open>
  The remaining operations on agent jobs keep the invariant of \<open>AgentSafety\<close>: the dispatch of policies, the cancellation,
  the recovery of a silent agent's jobs, the completion and the insertion of an apply. Then the step relation of all of them,
  and what it implies: one apply at a time in a workspace, no effect of an agent that lost its job, and the lock after a
  cancellation.
\<close>

section \<open>The remaining operations\<close>

lemma dispatch_keeps:
  assumes "agentDispatchPolicyEvaluation sn job run i n db = (res, db')" "apply_inv db as"
  shows "apply_inv db' as"
proof -
  let ?db1 = "update_jobs (\<lambda>j. aj_id j = aj_id job \<and> aj_fencingToken j = aj_fencingToken job)
      (fail_job n (Message ''Policies changed after agent dispatch; create a new plan'')) db"
  let ?db2 = "update_runs (\<lambda>r. r_id r = r_id run) (\<lambda>r. r\<lparr>r_status := ''errored''\<rparr>) ?db1"
  from assms(1) consider "same_core db db'" | "db' = notifyRunStatus (r_id run) ''errored'' ?db2"
    by (auto simp: agentDispatchPolicyEvaluation_def Let_def same_core_def split: if_splits)
  then show ?thesis
  proof cases
    case 1
    then show ?thesis using apply_inv_core assms(2) by blast
  next
    case 2
    have "apply_inv ?db1 as" by (rule inv_fail [OF assms(2)])
    then have "apply_inv ?db2 as" by (rule inv_run_status) simp
    with 2 show ?thesis by simp
  qed
qed

lemma canceled_not_claimed:
  assumes "k \<in> set (ad_jobs (cancelAgentJobsForRun run n db))" "aj_runId k = run"
  shows "aj_status k \<noteq> ''claimed''"
proof -
  let ?c = "cancel_job n ''Run canceled''"
  let ?p = "\<lambda>j. aj_runId j = run \<and> aj_status j = ''claimed''" and ?q = "\<lambda>j. aj_runId j = run \<and> aj_status j = ''queued''"
  have "ad_jobs (cancelAgentJobsForRun run n db) = db_update ?q ?c (db_update ?p ?c (ad_jobs db))"
    by (simp add: cancelAgentJobsForRun_def cancel_claimed_def cancel_queued_def release_any_lock_def Let_def)
  with assms(1) obtain y where y: "y \<in> set (db_update ?p ?c (ad_jobs db))" "k = (if ?q y then ?c y else y)"
    by (auto simp: mem_db_update [of k])
  from y(1) obtain j where "y = (if ?p j then ?c j else j)" by (auto simp: mem_db_update)
  with y(2) assms(2) show ?thesis by (auto simp: cancel_job_def split: if_splits)
qed

lemma cancel_keeps:
  assumes "apply_inv db as"
  shows "apply_inv (cancelAgentJobsForRun run n db) as"
proof -
  let ?p = "\<lambda>j. aj_runId j = run \<and> aj_status j = ''claimed''" and ?q = "\<lambda>j. aj_runId j = run \<and> aj_status j = ''queued''"
  let ?c = "cancel_job n ''Run canceled''"
  let ?db = "update_jobs ?q ?c (update_jobs ?p ?c db)"
  have i: "apply_inv ?db as" by (rule inv_cancel, rule inv_cancel [OF assms]) simp_all
  have jobs: "ad_jobs (cancelAgentJobsForRun run n db) = ad_jobs ?db"
    by (simp add: cancelAgentJobsForRun_def cancel_claimed_def cancel_queued_def release_any_lock_def Let_def)
  have "aj_runId k \<noteq> run" if "k \<in> set (ad_jobs ?db)" "holding as k" for k
    using canceled_not_claimed [of k run n db] that unfolding jobs holding_def by blast
  then have "apply_inv (update_locks (\<lambda>w. True \<and> locked_for_run run w) run_unlocked ?db) as" by (rule inv_release [OF i])
  then have "apply_inv (release_any_lock run ?db) as" by (simp only: release_any_lock_def simp_thms)
  with i show ?thesis by (simp add: cancelAgentJobsForRun_def cancel_claimed_def cancel_queued_def Let_def)
qed

text \<open>The sweep recovers a job that no claim is working on.\<close>

lemma recover_keeps:
  assumes "recoverOneStaleAgentJob job n st db = (res, db')" "apply_inv db as" "read_of job db" "\<forall>a \<in> set as. at_id a \<noteq> aj_id job"
  shows "apply_inv db' as"
proof -
  let ?owned = "\<lambda>j. claimed_row (aj_id job) j \<and> aj_agentId j = aj_agentId job"
  have tame: "tame as ?owned reset_job j" for j
    using assms(4) by (auto simp: tame_def reset_job_def outstanding_def claimed_row_def)
  have requeue: "apply_inv (let db2 = update_jobs ?owned reset_job db1 in
      if aj_phase job = ''apply'' then releaseRunLock (r_workspaceId run) (r_id run) db2 else db2) as"
    if db1: "apply_inv db1 as" "ad_jobs db1 = ad_jobs db" and run: "find_run (aj_runId job) db = Some run"
      and found: "list_ex ?owned (ad_jobs db)" for db1 run
  proof -
    have i: "apply_inv (update_jobs ?owned reset_job db1) as" by (rule inv_jobs [OF db1(1) tame])
    obtain o' where o': "o' \<in> set (ad_jobs db1)" "?owned o'" using found db1(2) by (auto simp: list_ex_iff)
    have "apply_inv (releaseRunLock (r_workspaceId run) (r_id run) (update_jobs ?owned reset_job db1)) as" if "aj_phase job = ''apply''"
    proof (rule inv_end_release [OF db1(1) i _ _ _ _ i])
      have "aj_runId o' = aj_runId job" "aj_phase o' = aj_phase job" using read_ofD [OF assms(3), of o'] o' db1(2) by (auto simp: claimed_row_def)
      then have "engaged db1 as (aj_runId o') (aj_id o')" using o' that by (intro engagedI) (simp_all add: outstanding_def claimed_row_def)
      then show "engaged db1 as (r_id run) (aj_id job)" using find_runD [OF run] \<open>aj_runId o' = aj_runId job\<close> o'(2) by (simp add: claimed_row_def)
    next
      fix j assume "j \<in> set (ad_jobs db1)" "aj_id j = aj_id job"
      then have "j = o'" using unique_byD [OF apply_invD(1) [OF db1(1)] _ o'(1)] o'(2) by (simp add: claimed_row_def)
      with o' show "?owned j \<or> aj_status j \<noteq> ''claimed''" by simp
    qed (simp_all add: reset_job_def)
    with i show ?thesis by (simp add: Let_def)
  qed
  have stop: "apply_inv (update_jobs ?owned (cancel_job n m) db) as" for m
    by (rule inv_cancel [OF assms(2)]) (simp add: claimed_row_def)
  show ?thesis
  proof (cases "list_ex ?owned (ad_jobs db)")
    case False
    with assms(1,2) show ?thesis by (simp add: recoverOneStaleAgentJob_def)
  next
    case True
    show ?thesis
    proof (cases "find_run (aj_runId job) db")
      case None
      with True assms(1) stop show ?thesis by (auto simp: recoverOneStaleAgentJob_def)
    next
      case (Some run)
      note q = requeue [OF _ _ Some True]
      let ?p1 = "\<lambda>r. r_id r = aj_runId job \<and> r_status r = expectedStatus (aj_phase job)"
      have one: "apply_inv (update_runs ?p1 (\<lambda>r. r\<lparr>ar_agentId := None, r_status := queuedStatus (aj_phase job),
            r_statusTimestamps := ts\<rparr>) db) as" for ts
        by (rule inv_run_status [OF assms(2)]) (auto simp: past_plan_expected)
      have two: "apply_inv (update_runs p2 (\<lambda>r. r\<lparr>ar_agentId := None\<rparr>) db) as" for p2
        by (rule inv_run_status [OF assms(2)]) simp
      consider "r_status run = expectedStatus (aj_phase job)"
        | "r_status run \<noteq> expectedStatus (aj_phase job)" "r_status run = queuedStatus (aj_phase job)"
        | "r_status run \<noteq> expectedStatus (aj_phase job)" "r_status run \<noteq> queuedStatus (aj_phase job)" by blast
      then show ?thesis
        using assms(1) True Some q [OF one] q [OF two] stop
        by cases (auto simp: recoverOneStaleAgentJob_def Let_def split: if_splits)
    qed
  qed
qed

lemma release_canceled_keeps:
  assumes "apply_inv db as"
  shows "apply_inv (releaseCanceledRunLock cutoff held db) as"
proof -
  have "apply_inv (releaseRunLock (wl_id held) (r_id run) db) as"
    if "\<not> list_ex (\<lambda>j. aj_runId j = r_id run \<and> aj_status j \<in> {''queued'', ''claimed''}) (ad_jobs db)" for run :: agent_run
    by (rule inv_releaseRunLock [OF assms]) (use that in \<open>auto simp: list_ex_iff holding_def\<close>)
  with assms show ?thesis by (simp add: releaseCanceledRunLock_def split: option.split)
qed


text \<open>A completion of the agent that holds the job.\<close>

definition unclaimed :: "string \<Rightarrow> attempt list \<Rightarrow> bool" where
  "unclaimed i as \<longleftrightarrow> (\<forall>a \<in> set as. at_id a \<noteq> i)"

lemma fenced_rowD: "fenced_row g i t j \<Longrightarrow> aj_id j = i \<and> aj_agentId j = Some g \<and> aj_fencingToken j = t \<and> aj_status j = ''claimed''"
  by (simp add: fenced_row_def)

text \<open>The fenced job of a completion ends, and with it the lock of its run.\<close>

lemma fenced_end_release:
  assumes "apply_inv db as" "job \<in> set (ad_jobs db)" "fenced_row g (aj_id job) (aj_fencingToken job) job" "r_id run = aj_runId job"
    and "\<And>j. aj_id (f j) = aj_id j \<and> aj_runId (f j) = aj_runId j \<and> aj_status (f j) \<noteq> ''claimed''"
    and "ad_jobs db' = db_update (fenced_row g (aj_id job) (aj_fencingToken job)) f (ad_jobs db)" "apply_inv db' as"
    and "apply_inv (update_jobs (fenced_row g (aj_id job) (aj_fencingToken job)) f db) as"
  shows "apply_inv (releaseApplyWorkspaceLock job run db') as"
proof (cases "aj_phase job = ''apply''")
  case True
  have "apply_inv (releaseRunLock (r_workspaceId run) (r_id run) db') as"
  proof (rule inv_end_release [OF assms(1,8) _ _ _ assms(6,7)])
    show "engaged db as (r_id run) (aj_id job)"
      using engagedI [OF assms(2)] True fenced_rowD [OF assms(3)] assms(4) by (simp add: outstanding_def)
    show "fenced_row g (aj_id job) (aj_fencingToken job) j \<or> aj_status j \<noteq> ''claimed''" if "j \<in> set (ad_jobs db)" "aj_id j = aj_id job" for j
      using unique_byD [OF apply_invD(1) [OF assms(1)] that(1) assms(2) that(2)] assms(3) by simp
  qed (use assms(5) in blast)
  with True show ?thesis by (simp add: releaseApplyWorkspaceLock_def)
qed (simp add: releaseApplyWorkspaceLock_def assms(7))

lemma requeue_keeps:
  assumes "apply_inv db as" "job \<in> set (ad_jobs db)" "fenced_row g (aj_id job) (aj_fencingToken job) job"
    and "run = find_run (aj_runId job) db" "unclaimed (aj_id job) as"
  shows "apply_inv (requeueInvalidCompletion g job run (expectedStatus (aj_phase job)) reason n st db) as"
proof -
  let ?p = "fenced_row g (aj_id job) (aj_fencingToken job)" and ?attempts = "aj_requeueAttempts job + 1"
  define terminal where "terminal = (MAX_INVALID_COMPLETION_REQUEUES \<le> ?attempts)"
  let ?f = "\<lambda>j. j\<lparr>aj_status := if terminal then ''canceled'' else ''queued'', aj_agentId := None, aj_claimedAt := None,
      aj_completedAt := if terminal then Some n else None, aj_errorMessage := Some (Message reason), aj_requeueAttempts := ?attempts\<rparr>"
  let ?s = "if terminal then ''errored'' else queuedStatus (aj_phase job)"
  let ?db1 = "update_jobs ?p ?f db"
  have i1: "apply_inv ?db1 as"
    by (rule inv_jobs [OF assms(1)]) (use assms(5) in \<open>auto simp: tame_def outstanding_def unclaimed_def dest: fenced_rowD\<close>)
  have i2: "apply_inv (update_runs (\<lambda>x. r_id x = i \<and> r_status x = expectedStatus (aj_phase job))
      (\<lambda>x. x\<lparr>ar_agentId := None, r_status := ?s, r_statusTimestamps := ts\<rparr>) ?db1) as" for i ts
    by (rule inv_run_status [OF i1]) (auto simp: past_plan_expected)
  have ff: "aj_id (?f j) = aj_id j \<and> aj_runId (?f j) = aj_runId j \<and> aj_status (?f j) \<noteq> ''claimed''" for j by simp
  show ?thesis
  proof (cases run)
    case None
    with i1 assms(1) show ?thesis by (auto simp: requeueInvalidCompletion_def Let_def terminal_def)
  next
    case (Some r)
    have "r_id r = aj_runId job" using find_runD [of "aj_runId job" db r] assms(4) Some by simp
    from fenced_end_release [OF assms(1,2,3) this ff _ i2 i1]
    show ?thesis using Some assms(1) by (simp add: requeueInvalidCompletion_def Let_def terminal_def)
  qed
qed

lemma state_insert_keeps_locks:
  assumes "insertStateVersionWithSerialTx lib v st = (res, st')"
  shows "st_workspaces st' = st_workspaces st"
  using assms by (auto simp: insertStateVersionWithSerialTx_def tx_bind_def nextStateSerialTx_def commitStateVersionAtSerialTx_def
      insert_version_def insertStateOutputIndex_def Let_def split: prod.splits sum.splits if_splits option.splits)

lemma persist_state_core: "persistApplyStateVersion lib job run c i n db = (res, db') \<Longrightarrow> same_core db db'"
  by (auto simp: persistApplyStateVersion_def same_core_def dest: state_insert_keeps_locks split: if_splits prod.splits sum.splits)

lemma outcome_core: "determineCompletionOutcome snapshot fresh job run c n gated db = (res, db') \<Longrightarrow> same_core db db'"
  by (auto simp: determineCompletionOutcome_def same_core_def Let_def split: if_splits prod.splits option.splits)

text \<open>The parts of a completion that succeeded.\<close>

lemma finish_parts:
  assumes "finishAgentJob env g job run c db = (Inr (Some (j, s)), db')"
  obtains db2 f p h db5 db6 where
    "ad_jobs db2 = db_update (fenced_row g (aj_id job) (aj_fencingToken job)) f (ad_jobs db)" "ad_runs db2 = ad_runs db" "locks_of db2 = locks_of db"
    "\<And>j. aj_id (f j) = aj_id j \<and> aj_runId (f j) = aj_runId j \<and> aj_phase (f j) = aj_phase j \<and> aj_fencingToken (f j) = aj_fencingToken j \<and> aj_status (f j) \<in> {''completed'', ''errored''}"
    "p = (\<lambda>r. r_id r = r_id run \<and> r_status r = expectedStatus (aj_phase job))"
    "\<And>r. r_id (h r) = r_id r \<and> r_workspaceId (h r) = r_workspaceId r \<and> r_status (h r) = s"
    "list_ex p (ad_runs db)" "aj_phase job = ''plan'' \<or> s = ''applied'' \<or> s = ''errored''"
    "same_core (update_runs p h db2) db5"
    "enqueueApplyAfterPlan job run c s (ce_jobId env) (ce_now env) (releaseApplyWorkspaceLock job run db5) = Some db6"
    "db' = idle_agent g (ce_now env) db6"
proof -
  let ?p = "\<lambda>r. r_id r = r_id run \<and> r_status r = expectedStatus (aj_phase job)"
  obtain structured db1 where prep: "prepareAgentCompletion job run c db = (structured, db1)" by fastforce
  then have core1: "same_core db db1" by (auto simp: prepareAgentCompletion_def same_core_def Let_def split: option.splits)
  obtain upd db2 where pers: "persistAgentJobCompletion g job c (ce_now env) db1 = (upd, db2)" by fastforce
  let ?f = "\<lambda>j. j\<lparr>aj_status := if cp_status c = ''completed'' then ''completed'' else ''errored'', aj_result := Some (cp_result c),
      aj_errorMessage := map_option Message (cp_errorMessage c), aj_completedAt := Some (ce_now env)\<rparr>"
  have two: "ad_jobs db2 = db_update (fenced_row g (aj_id job) (aj_fencingToken job)) ?f (ad_jobs db)" "ad_runs db2 = ad_runs db" "locks_of db2 = locks_of db"
    using pers core1 by (auto simp: persistAgentJobCompletion_def same_core_def Let_def split: if_splits)
  obtain u where u: "upd = Some u" using assms by (auto simp: finishAgentJob_def Let_def prep pers split: option.splits)
  obtain res db3 where out: "determineCompletionOutcome (ce_snapshot env) (ce_checkId env) job run c (ce_now env) (ce_gated env) db2 = (res, db3)" by fastforce
  obtain outcome rs where res: "res = Inr (outcome, rs)" using assms by (auto simp: finishAgentJob_def Let_def prep pers u out split: sum.splits)
  have kind: "aj_phase job = ''plan'' \<or> rs = ''applied'' \<or> rs = ''errored''"
    using out by (auto simp: determineCompletionOutcome_def res split: if_splits)
  obtain res4 db4 where run: "persistRunCompletion (ce_stamp env) job run c (expectedStatus (aj_phase job)) structured outcome rs (ce_now env) db3 = (res4, db4)"
    by fastforce
  have "res4 = Inr ()" using assms by (auto simp: finishAgentJob_def Let_def prep pers u out res run split: sum.splits)
  with run obtain h where h: "list_ex ?p (ad_runs db3)" "db4 = update_runs ?p h db3"
      "\<And>r. r_id (h r) = r_id r \<and> r_workspaceId (h r) = r_workspaceId r \<and> r_status (h r) = rs"
    by (auto simp: persistRunCompletion_def Let_def split: if_splits)
  obtain res5 db5 where st: "persistApplyStateVersion (ce_lib env) job run c (ce_versionId env) (ce_now env) db4 = (res5, db5)" by fastforce
  obtain db6 where fin: "s = rs" "enqueueApplyAfterPlan job run c s (ce_jobId env) (ce_now env) (releaseApplyWorkspaceLock job run db5) = Some db6"
      "db' = idle_agent g (ce_now env) db6"
    using assms \<open>res4 = Inr ()\<close> by (auto simp: finishAgentJob_def Let_def prep pers u out res run st split: sum.splits option.splits)
  have "same_core (update_runs ?p h db2) db5"
    using persist_state_core [OF st] outcome_core [OF out] h(2) by (simp add: same_core_def)
  moreover have "list_ex ?p (ad_runs db)" using h(1) outcome_core [OF out] two(2) by (simp add: same_core_def)
  ultimately show thesis
    using fin kind by (intro that [OF two(1,2,3) _ refl]) (use h(3) in simp_all)
qed

lemma inv_enqueue_apply:
  assumes "apply_inv db as" "r \<in> set (ad_runs db)" "past_plan (r_status r)" "\<And>i. \<not> engaged db as (r_id r) i"
    and "\<And>k. k \<in> set (ad_jobs db) \<Longrightarrow> aj_id k \<noteq> i"
  shows "apply_inv (db\<lparr>ad_jobs := ad_jobs db @ [apply_job i (r_id r) pool binary n]\<rparr>) as"
  by (rule inv_insert [OF assms(1)]) (use assms(2-5) in \<open>auto simp: apply_job_def\<close>)

lemma finish_keeps:
  assumes "finishAgentJob env g job run c db = (Inr (Some (j, s)), db')" "apply_inv db as"
    and job: "job \<in> set (ad_jobs db)" "fenced_row g (aj_id job) (aj_fencingToken job) job"
    and run: "find_run (aj_runId job) db = Some run" and fresh: "\<And>k. k \<in> set (ad_jobs db) \<Longrightarrow> aj_id k \<noteq> ce_jobId env"
  shows "apply_inv db' as"
proof (rule finish_parts [OF assms(1)])
  fix db2 f p h db5 db6
  let ?q = "fenced_row g (aj_id job) (aj_fencingToken job)"
  assume jobs: "ad_jobs db2 = db_update ?q f (ad_jobs db)" and runs: "ad_runs db2 = ad_runs db" and locks: "locks_of db2 = locks_of db"
    and f: "\<And>j. aj_id (f j) = aj_id j \<and> aj_runId (f j) = aj_runId j \<and> aj_phase (f j) = aj_phase j \<and> aj_fencingToken (f j) = aj_fencingToken j \<and> aj_status (f j) \<in> {''completed'', ''errored''}"
    and p: "p = (\<lambda>r. r_id r = r_id run \<and> r_status r = expectedStatus (aj_phase job))"
    and h: "\<And>r. r_id (h r) = r_id r \<and> r_workspaceId (h r) = r_workspaceId r \<and> r_status (h r) = s"
    and found: "list_ex p (ad_runs db)" and kind: "aj_phase job = ''plan'' \<or> s = ''applied'' \<or> s = ''errored''"
    and core: "same_core (update_runs p h db2) db5"
    and enq: "enqueueApplyAfterPlan job run c s (ce_jobId env) (ce_now env) (releaseApplyWorkspaceLock job run db5) = Some db6"
    and db': "db' = idle_agent g (ce_now env) db6"
  have not: "aj_status (f j) \<noteq> ''claimed''" "\<not> outstanding (f j)" "aj_status (f j) \<noteq> ''queued''" for j
    using f [of j] by (auto simp: outstanding_def)
  have i1: "apply_inv (update_jobs ?q f db) as"
    by (rule inv_jobs [OF assms(2)]) (use f not in \<open>simp add: tame_def\<close>)
  have "same_core (update_jobs ?q f db) db2" by (simp add: same_core_def jobs runs locks)
  then have i2: "apply_inv db2 as" using i1 apply_inv_core by blast
  have "apply_inv (update_runs p h db2) as"
    by (rule inv_run_status [OF i2]) (use h kind in \<open>auto simp: p expectedStatus_def\<close>)
  then have i5: "apply_inv db5 as" using core apply_inv_core by blast
  have ids: "r_id run = aj_runId job" using find_runD [OF run] by simp
  have jobs5: "ad_jobs db5 = db_update ?q f (ad_jobs db)" using core jobs by (simp add: same_core_def)
  let ?db6 = "releaseApplyWorkspaceLock job run db5"
  have "aj_id (f j) = aj_id j \<and> aj_runId (f j) = aj_runId j \<and> aj_status (f j) \<noteq> ''claimed''" for j using f not by blast
  from fenced_end_release [OF assms(2) job ids this jobs5 i5 i1] have i6: "apply_inv ?db6 as" .
  have "apply_inv db6 as"
  proof (cases "cp_status c \<noteq> ''completed'' \<or> aj_phase job \<noteq> ''plan'' \<or> s \<noteq> ''apply_queued''")
    case False
    obtain r where r: "r \<in> set (ad_runs db)" "r_id r = r_id run" "r_status r = ''planning''"
      using found False by (auto simp: list_ex_iff p expectedStatus_def)
    have "\<not> engaged db as (r_id run) i" for i using engaged_past_plan [OF assms(2) r(1)] r(2,3) by simp
    moreover have "engaged db as (r_id run) i" if "engaged ?db6 as (r_id run) i" for i
    proof -
      from that consider (job) k where "k \<in> set (ad_jobs db)" "outstanding (if ?q k then f k else k)"
          "aj_runId (if ?q k then f k else k) = r_id run" "aj_id (if ?q k then f k else k) = i"
        | (attempt) "\<exists>a \<in> set as. aj_phase (at_job a) = ''apply'' \<and> aj_runId (at_job a) = r_id run \<and> at_id a = i"
        unfolding engaged_def update_fields jobs5 bex_db_update by blast
      then show ?thesis
      proof cases
        case job
        then have "\<not> ?q k" using not(2) by auto
        with job show ?thesis by (auto simp: engaged_def)
      qed (simp add: engaged_def)
    qed
    ultimately have none: "\<not> engaged ?db6 as (r_id run) i" for i by blast
    have "ad_runs db5 = db_update p h (ad_runs db)" using core runs by (simp add: same_core_def)
    moreover have "p r" using r False by (simp add: p expectedStatus_def)
    ultimately have "h r \<in> set (ad_runs db5)" using mem_db_update [of "h r" p h "ad_runs db"] r(1) by auto
    then have m: "h r \<in> set (ad_runs ?db6)" by simp
    have "apply_inv (?db6\<lparr>ad_jobs := ad_jobs ?db6 @ [apply_job (ce_jobId env) (r_id (h r)) pool binary (ce_now env)]\<rparr>) as" for pool binary
    proof (rule inv_enqueue_apply [OF i6 m])
      show "past_plan (r_status (h r))" using h [of r] False by simp
      show "\<not> engaged ?db6 as (r_id (h r)) i" for i using none [of i] h [of r] r(2) by simp
    next
      fix k assume "k \<in> set (ad_jobs ?db6)"
      then have "k \<in> set (db_update ?q f (ad_jobs db))" by (simp only: update_fields jobs5)
      then obtain y where "y \<in> set (ad_jobs db)" "k = (if ?q y then f y else y)" unfolding mem_db_update by (rule bexE)
      then show "aj_id k \<noteq> ce_jobId env" using fresh [of y] f [of y] by (cases "?q y") simp_all
    qed
    then show ?thesis using False h [of r] r(2) enq by (auto simp: enqueueApplyAfterPlan_def split: if_splits)
  qed (use enq i6 in \<open>simp add: enqueueApplyAfterPlan_def\<close>)
  then show "apply_inv db' as" by (simp add: db')
qed


lemma acknowledge_keeps:
  assumes "acknowledgeCanceledAgentJob g i t n db = (res, db')" "apply_inv db as"
  shows "apply_inv db' as"
proof (cases "db_find (canceled_row g i t) (ad_jobs db)")
  case None
  with assms show ?thesis by (simp add: acknowledgeCanceledAgentJob_def)
next
  case (Some job)
  then have job: "job \<in> set (ad_jobs db)" "aj_status job = ''canceled''" "aj_agentId job = Some g"
    by (auto simp: canceled_row_def dest: db_find_SomeD)
  show ?thesis
  proof (cases "find_run (aj_runId job) db")
    case None
    with Some assms show ?thesis by (simp add: acknowledgeCanceledAgentJob_def)
  next
    case run: (Some run)
    have "apply_inv (releaseApplyWorkspaceLock job run db) as"
    proof (cases "aj_phase job = ''apply''")
      case True
      then have e: "engaged db as (aj_runId job) (aj_id job)" using job by (intro engagedI) (simp_all add: outstanding_def)
      have "aj_runId k \<noteq> r_id run" if k: "k \<in> set (ad_jobs db)" "holding as k" for k
      proof
        assume "aj_runId k = r_id run"
        then have "aj_runId k = aj_runId job" using find_runD [OF run] by simp
        then have "aj_id k = aj_id job" using apply_invD(6) [OF assms(2) _ e] engagedI [OF k(1) holding_outstanding [OF k(2)]] by simp
        with unique_byD [OF apply_invD(1) [OF assms(2)] k(1) job(1)] job(2) k(2) show False by (simp add: holding_def)
      qed
      from inv_releaseRunLock [OF assms(2) this] True show ?thesis by (simp add: releaseApplyWorkspaceLock_def)
    qed (simp add: releaseApplyWorkspaceLock_def assms(2))
    with Some run assms show ?thesis by (auto simp: acknowledgeCanceledAgentJob_def split: if_splits)
  qed
qed

lemma finish_not_None:
  assumes "job \<in> set (ad_jobs db)" "fenced_row g (aj_id job) (aj_fencingToken job) job"
  shows "finishAgentJob env g job run c db \<noteq> (Inr None, db')"
proof -
  obtain structured db1 where prep: "prepareAgentCompletion job run c db = (structured, db1)" by fastforce
  then have "ad_jobs db1 = ad_jobs db" by (auto simp: prepareAgentCompletion_def Let_def split: option.splits)
  then have "\<exists>u db2. persistAgentJobCompletion g job c (ce_now env) db1 = (Some u, db2)"
    using assms by (force simp: persistAgentJobCompletion_def Let_def db_returning_Nil_iff split: list.split)
  then show ?thesis by (auto simp: finishAgentJob_def Let_def prep split: prod.splits sum.splits option.splits)
qed

text \<open>A failed completion is rolled back but for the plan file.\<close>

lemma completion_keeps:
  assumes "completeAgentJob env captured g i t c read db = (res, db')" "apply_inv db as" "unclaimed i as"
    and fresh: "\<And>k. k \<in> set (ad_jobs db) \<Longrightarrow> aj_id k \<noteq> ce_jobId env"
  shows "apply_inv db' as"
proof -
  obtain r db1 where tx: "completeAgentJobInTransaction env g i t c db = (r, db1)" by fastforce
  have inv: "apply_inv db1 as" if ok: "r = Inr x" for x
  proof (cases "db_find (fenced_row g i t) (ad_jobs db)")
    case None
    with tx ok show ?thesis
      by (auto simp: completeAgentJobInTransaction_def split: prod.splits intro: acknowledge_keeps [OF _ assms(2)])
  next
    case (Some job)
    then have job: "job \<in> set (ad_jobs db)" "fenced_row g i t job" by (auto dest: db_find_SomeD)
    then have row: "aj_id job = i" "aj_fencingToken job = t" by (simp_all add: fenced_row_def)
    let ?m = "invalidCompletionReason (ce_units env) (ce_bytes env) job (find_run (aj_runId job) db) c (expectedStatus (aj_phase job))"
    show ?thesis
    proof (cases ?m)
      case (Some reason)
      have "apply_inv (requeueInvalidCompletion g job (find_run (aj_runId job) db) (expectedStatus (aj_phase job)) reason (ce_now env) (ce_stamp env) db) as"
        by (rule requeue_keeps [OF assms(2) job(1)]) (use job row assms(3) in simp_all)
      with Some \<open>db_find _ _ = Some job\<close> tx show ?thesis by (auto simp: completeAgentJobInTransaction_def Let_def)
    next
      case valid: None
      show ?thesis
      proof (cases "find_run (aj_runId job) db")
        case None
        with valid Some tx assms(2) show ?thesis by (auto simp: completeAgentJobInTransaction_def Let_def)
      next
        case run: (Some run)
        then have fin: "finishAgentJob env g job run c db = (Inr x, db1)"
          using valid Some tx ok by (simp add: completeAgentJobInTransaction_def Let_def)
        then obtain j s where "x = Some (j, s)" using finish_not_None job row by (cases x) force+
        with fin show ?thesis using finish_keeps [OF _ assms(2) job(1) _ run fresh] job row by simp
      qed
    qed
  qed
  consider "same_core db db'" | x where "r = Inr x" "same_core db1 db'"
    using assms(1) tx by (auto simp: completeAgentJob_def Let_def same_core_def split: if_splits sum.splits option.splits)
  then show ?thesis
    by cases (use inv assms(2) apply_inv_core in blast)+
qed

text \<open>The apply of a confirmed run.\<close>

lemma update_runs_jobs: "update_runs p f (db\<lparr>ad_jobs := js\<rparr>) = update_runs p f db\<lparr>ad_jobs := js\<rparr>"
  by (cases db) (simp add: update_runs_def)

lemma insert_apply_keeps:
  assumes "insert_apply_job i n st run pool ts db = Some db'" "apply_inv db as" "\<And>k. k \<in> set (ad_jobs db) \<Longrightarrow> aj_id k \<noteq> i"
  shows "apply_inv db' as"
proof -
  let ?p = "\<lambda>r. r_id r = run \<and> r_status r = ''confirmed''"
  let ?f = "\<lambda>r. r\<lparr>ar_agentPoolId := Some pool, r_status := ''apply_queued'', r_statusTimestamps := timestampsWithStatus st ts ''apply_queued''\<rparr>"
  let ?db = "update_runs ?p ?f db"
  obtain b where db': "db' = ?db\<lparr>ad_jobs := ad_jobs ?db @ [apply_job i run pool b n]\<rparr>"
    using assms(1) by (auto simp: insert_apply_job_def update_runs_jobs Let_def split: option.splits if_splits)
  obtain r where r: "r \<in> set (ad_runs db)" "r_id r = run" "r_status r = ''confirmed''"
    using assms(1) by (auto simp: insert_apply_job_def Let_def list_ex_iff split: option.splits if_splits)
  have i1: "apply_inv ?db as" by (rule inv_run_status [OF assms(2)]) simp
  have "\<not> engaged db as run k" for k using engaged_past_plan [OF assms(2) r(1)] r(2,3) by simp
  then have none: "\<not> engaged ?db as run k" for k by (simp add: engaged_def)
  have "?f r \<in> set (ad_runs ?db)" using r mem_db_update [of "?f r" ?p ?f "ad_runs db"] by auto
  from inv_enqueue_apply [OF i1 this, of i pool b n] none assms(3) r(2) show ?thesis by (simp add: db')
qed

text \<open>The dispatch of a queued run, and a claim that is given back.\<close>

lemma dispatch_run_keeps:
  assumes "dispatchAgentRun i n st pool run db = (ok, db')" "apply_inv db as" "\<And>k. k \<in> set (ad_jobs db) \<Longrightarrow> aj_id k \<noteq> i"
  shows "apply_inv db' as"
proof -
  have ins: "apply_inv (db\<lparr>ad_jobs := ad_jobs db @ [(apply_job i r pool b n)\<lparr>aj_phase := ''plan''\<rparr>]\<rparr>) as" for r b
    by (rule inv_insert [OF assms(2)]) (use assms(3) in \<open>auto simp: apply_job_def outstanding_def\<close>)
  have "apply_inv (update_runs p (\<lambda>r. r\<lparr>ar_agentPoolId := Some pool, r_status := ''plan_queued'', r_statusTimestamps := ts\<rparr>)
      (db\<lparr>ad_jobs := ad_jobs db @ [(apply_job i r pool b n)\<lparr>aj_phase := ''plan''\<rparr>]\<rparr>)) as"
    if "\<And>r. p r \<Longrightarrow> r_status r = ''pending''" for p ts r b
    by (rule inv_run_status [OF ins]) (use that in \<open>auto simp: past_plan_def\<close>)
  note upd = this [of "\<lambda>r. buildRunClaimWhere (run_row.truncate run) (map run_row.truncate (ad_runs db)) (run_row.truncate r)"]
  show ?thesis
    using assms(1,2) upd by (auto simp: dispatchAgentRun_def Let_def buildRunClaimWhere_def run_row.truncate_def split: if_splits)
qed

lemma release_claim_keeps:
  assumes "apply_inv db as" "read_of job db" "unclaimed (aj_id job) as" "r_id run = aj_runId job"
  shows "apply_inv (releaseAgentClaim job run st db) as"
proof (cases "list_ex (delivery_row job) (ad_jobs db)")
  case True
  then obtain o' where o': "o' \<in> set (ad_jobs db)" "delivery_row job o'" by (auto simp: list_ex_iff)
  then have row: "aj_id o' = aj_id job" "aj_status o' = ''claimed''" by (simp_all add: delivery_row_def claimed_row_def)
  have i1: "apply_inv (update_jobs (delivery_row job) reset_job db) as"
    by (rule inv_jobs [OF assms(1)])
      (use assms(3) in \<open>auto simp: tame_def reset_job_def outstanding_def unclaimed_def delivery_row_def claimed_row_def\<close>)
  have i2: "apply_inv (update_runs (\<lambda>r. r_id r = x \<and> r_status r = expectedStatus (aj_phase job))
      (\<lambda>r. r\<lparr>ar_agentId := None, r_status := queuedStatus (aj_phase job), r_statusTimestamps := ts\<rparr>) (update_jobs (delivery_row job) reset_job db)) as" for x ts
    by (rule inv_run_status [OF i1]) (auto simp: past_plan_expected)
  have "apply_inv (release_any_lock (r_id run) db2) as"
    if "aj_phase job = ''apply''" "apply_inv db2 as" "ad_jobs db2 = db_update (delivery_row job) reset_job (ad_jobs db)" for db2
  proof -
    have "engaged db as (r_id run) (aj_id job)"
      using engagedI [OF o'(1)] read_ofD [OF assms(2) o'(1) row(1)] row that(1) assms(4) by (simp add: outstanding_def)
    then have "aj_runId k \<noteq> r_id run" if "k \<in> set (ad_jobs db2)" "holding as k" for k
    proof (rule no_holder_after [OF assms(1) _ _ _ _ that(2)])
      show "delivery_row job j \<or> aj_status j \<noteq> ''claimed''" if "j \<in> set (ad_jobs db)" "aj_id j = aj_id job" for j
        using unique_byD [OF apply_invD(1) [OF assms(1)] that(1) o'(1)] that(2) row(1) o'(2) by simp
    qed (use that \<open>ad_jobs db2 = _\<close> in \<open>simp_all add: reset_job_def\<close>)
    then have "apply_inv (update_locks (\<lambda>w. True \<and> locked_for_run (r_id run) w) run_unlocked db2) as" by (rule inv_release [OF that(2)])
    then show ?thesis by (simp only: release_any_lock_def simp_thms)
  qed
  note rel = this [OF _ i2]
  show ?thesis using True i1 i2 rel by (auto simp: releaseAgentClaim_def Let_def split: option.split)
qed (simp add: releaseAgentClaim_def assms(1))


section \<open>The steps\<close>

text \<open>
  A state is the tables with the claims in progress. A claim takes its job, validates the run, locks the workspace and
  associates the run, each a statement of its own; the other operations of this component are one step each. The
  guards of the other steps say what the rest of the program keeps to:

  \<^item> an agent completes, the sweep recovers, and a failed delivery gives back, no job that a claim is still working on (a claim
    does not outlive the heartbeat timeout);
  \<^item> another writer takes a run back before its apply only when no apply job of it is outstanding, and releases no lock under
    which a claimed job applies;
  \<^item> the three statements of a cancellation come together: the run was made terminal before, which stops a claim that starts
    between them.
\<close>

inductive agent_step :: "agent_db \<times> attempt list \<Rightarrow> agent_db \<times> attempt list \<Rightarrow> bool" where
  s_claim: "read_of candidate db \<Longrightarrow> tryClaimCandidate candidate g n db = (Some j, db') \<Longrightarrow>
    agent_step (db, as) (db', as @ [\<lparr>at_job = candidate, at_agent = g, at_run = None, at_locked = False\<rparr>])"
| s_validate: "a \<in> set as \<Longrightarrow> at_run a = None \<Longrightarrow> validateCandidateRun snapshot (at_job a) n st db = (r, db') \<Longrightarrow>
    agent_step (db, as) (db', case r of None \<Rightarrow> drop_attempt a as | Some run \<Rightarrow> put_attempt (a\<lparr>at_run := Some run\<rparr>) as)"
| s_lock: "a \<in> set as \<Longrightarrow> at_run a = Some run \<Longrightarrow> \<not> at_locked a \<Longrightarrow> tryLockWorkspaceForApply (at_job a) run db = (res, db') \<Longrightarrow>
    agent_step (db, as) (db', if res = Lock_skipped then drop_attempt a as else put_attempt (a\<lparr>at_locked := True\<rparr>) as)"
| s_associate: "a \<in> set as \<Longrightarrow> at_run a = Some run \<Longrightarrow> at_locked a \<Longrightarrow>
    tryAssociateRun collate (at_job a) run (at_agent a) n st db = (ok, db') \<Longrightarrow> agent_step (db, as) (db', drop_attempt a as)"
| s_admit: "read_of job db \<Longrightarrow> admitAgentJobDelivery snapshot job w n st db = (ok, db') \<Longrightarrow> agent_step (db, as) (db', as)"
| s_dispatch: "agentDispatchPolicyEvaluation sn job run i n db = (res, db') \<Longrightarrow> agent_step (db, as) (db', as)"
| s_log: "appendAgentJobLog g i t txt db = (ok, db') \<Longrightarrow> agent_step (db, as) (db', as)"
| s_complete: "unclaimed i as \<Longrightarrow> (\<And>k. k \<in> set (ad_jobs db) \<Longrightarrow> aj_id k \<noteq> ce_jobId env) \<Longrightarrow>
    completeAgentJob env captured g i t c read db = (res, db') \<Longrightarrow> agent_step (db, as) (db', as)"
| s_cancel: "agent_step (db, as) (cancelAgentJobsForRun run n db, as)"
| s_recover: "read_of job db \<Longrightarrow> unclaimed (aj_id job) as \<Longrightarrow> recoverOneStaleAgentJob job n st db = (res, db') \<Longrightarrow>
    agent_step (db, as) (db', as)"
| s_release: "agent_step (db, as) (releaseCanceledRunLock cutoff held db, as)"
| s_queue_apply: "(\<And>k. k \<in> set (ad_jobs db) \<Longrightarrow> aj_id k \<noteq> i) \<Longrightarrow> insert_apply_job i n st run pool ts db = Some db' \<Longrightarrow>
    agent_step (db, as) (db', as)"
| s_dispatch_run: "(\<And>k. k \<in> set (ad_jobs db) \<Longrightarrow> aj_id k \<noteq> i) \<Longrightarrow> dispatchAgentRun i n st pool run db = (ok, db') \<Longrightarrow>
    agent_step (db, as) (db', as)"
| s_release_claim: "read_of job db \<Longrightarrow> unclaimed (aj_id job) as \<Longrightarrow> r_id run = aj_runId job \<Longrightarrow>
    agent_step (db, as) (releaseAgentClaim job run st db, as)"
| s_run: "(\<And>r. r \<in> set (ad_runs db) \<Longrightarrow> p r \<Longrightarrow> r_id (f r) = r_id r \<and> r_workspaceId (f r) = r_workspaceId r \<and>
      (past_plan (r_status r) \<longrightarrow> past_plan (r_status (f r)) \<or> (\<forall>i. \<not> engaged db as (r_id r) i))) \<Longrightarrow>
    agent_step (db, as) (update_runs p f db, as)"
| s_new_run: "(\<And>r. r \<in> set (ad_runs db) \<Longrightarrow> r_id r \<noteq> r_id run) \<Longrightarrow> agent_step (db, as) (db\<lparr>ad_runs := ad_runs db @ [run]\<rparr>, as)"
| s_workspace: "(\<And>w. w \<in> set (locks_of db) \<Longrightarrow> p w \<Longrightarrow> wl_id (f w) = wl_id w) \<Longrightarrow>
    (\<And>w run. w \<in> set (locks_of db) \<Longrightarrow> p w \<Longrightarrow> locked_for_run run w \<Longrightarrow>
      locked_for_run run (f w) \<or> (\<forall>j \<in> set (ad_jobs db). holding as j \<longrightarrow> aj_runId j \<noteq> run)) \<Longrightarrow>
    agent_step (db, as) (update_locks p f db, as)"
| s_other: "same_core db db' \<Longrightarrow> agent_step (db, as) (db', as)"

definition agent_init :: "agent_db \<times> attempt list \<Rightarrow> bool" where
  "agent_init s \<longleftrightarrow> ad_jobs (fst s) = [] \<and> snd s = [] \<and> unique_by r_id (ad_runs (fst s)) \<and> unique_by wl_id (locks_of (fst s))"

lemma log_core: "appendAgentJobLog g i t txt db = (ok, db') \<Longrightarrow> same_core db db'"
  by (auto simp: appendAgentJobLog_def split: option.splits)

lemma inv_new_run:
  assumes "apply_inv db as" "\<And>r. r \<in> set (ad_runs db) \<Longrightarrow> r_id r \<noteq> r_id run"
  shows "apply_inv (db\<lparr>ad_runs := ad_runs db @ [run]\<rparr>) as"
proof -
  let ?db = "db\<lparr>ad_runs := ad_runs db @ [run]\<rparr>"
  note D = apply_invD [OF assms(1)]
  have eng: "engaged ?db as = engaged db as" by (simp add: engaged_def fun_eq_iff)
  show ?thesis
  proof (rule apply_invI; (unfold eng)?)
    show "unique_by r_id (ad_runs ?db)" using unique_by_append1 [OF D(2), of run] assms(2) by force
  next
    fix i k assume "engaged db as i k"
    from D(5) [OF this] show "\<exists>r \<in> set (ad_runs ?db). r_id r = i \<and> past_plan (r_status r)" by auto
  next
    fix r i k assume "engaged db as r i" "engaged db as r k"
    from D(6) [OF this] show "i = k" .
  next
    fix j assume "j \<in> set (ad_jobs ?db)" "holding as j"
    then have "lock_held db j" by (simp add: D(7))
    then show "lock_held ?db j" by (auto simp: lock_held_def)
  next
    fix a assume "a \<in> set as"
    from D(8) [OF this] show "attempt_ok ?db a" by (auto simp: attempt_ok_def knows_run_def claims_job_def)
  qed (simp_all add: D(1,3,4))
qed

lemma claim_starts:
  assumes "tryClaimCandidate c g n db = (Some j, db')" "read_of c db" "apply_inv db as"
  shows "apply_inv db' (as @ [\<lparr>at_job = c, at_agent = g, at_run = None, at_locked = False\<rparr>])"
proof -
  let ?p = "\<lambda>j. aj_id j = aj_id c \<and> aj_status j = ''queued''"
  let ?f = "\<lambda>j. j\<lparr>aj_agentId := Some (ag_id g), aj_status := ''claimed'', aj_claimedAt := Some n, aj_fencingToken := aj_fencingToken j + 1\<rparr>"
  have db': "db' = update_jobs ?p ?f db" "db_returning ?p ?f (ad_jobs db) \<noteq> []"
    using assms(1) by (auto simp: tryClaimCandidate_def Let_def split: list.splits)
  then obtain q where q: "q \<in> set (ad_jobs db)" "aj_status q = ''queued''" "aj_id q = aj_id c"
    unfolding db_returning_Nil_iff by blast
  from read_ofD [OF assms(2) q(1,3)] show ?thesis
    unfolding db'(1) by (intro inv_start [OF assms(3) q(1,2,3) _ _ _ refl]) simp_all
qed


lemma validate_step:
  assumes "validateCandidateRun snapshot (at_job a) n st db = (r, db')" "apply_inv db as" "a \<in> set as" "at_run a = None"
  shows "apply_inv db' (case r of None \<Rightarrow> drop_attempt a as | Some run \<Rightarrow> put_attempt (a\<lparr>at_run := Some run\<rparr>) as)"
proof (cases r)
  case None
  have "apply_inv db' (drop_attempt a as)"
    by (rule inv_drop [OF validate_keeps(1) [OF assms(1,2)] assms(3)])
      (use validate_keeps(2) [OF assms(1,2) None] in \<open>simp add: claimed_row_def at_id_def\<close>)
  with None show ?thesis by simp
next
  case (Some run)
  note keep = validate_keeps(3) [OF assms(1,2) Some]
  have ok: "attempt_ok db a" using apply_invD(8) [OF assms(2,3)] .
  then have "\<not> at_locked a" "claims_job db (at_job a)" using assms(4) by (simp_all add: attempt_ok_def)
  moreover have "knows_run db run" using keep by (auto simp: knows_run_def)
  ultimately have "attempt_ok db (a\<lparr>at_run := Some run\<rparr>)" using keep by (simp add: attempt_ok_def)
  then have "apply_inv db (put_attempt (a\<lparr>at_run := Some run\<rparr>) as)"
    by (rule inv_put [OF assms(2,3), rotated]) (use \<open>\<not> at_locked a\<close> in simp_all)
  with Some keep show ?thesis by simp
qed

definition agent_inv :: "agent_db \<times> attempt list \<Rightarrow> bool" where
  "agent_inv s \<longleftrightarrow> apply_inv (fst s) (snd s)"

lemma agent_inv_step: "agent_inv s \<Longrightarrow> agent_step s t \<Longrightarrow> agent_inv t"
  unfolding agent_inv_def
proof (rotate_tac, induction rule: agent_step.induct)
  case (s_claim candidate db g n j db' ats)
  then show ?case by (simp add: claim_starts)
next
  case (s_validate a ats snapshot n st db r db')
  from validate_step [OF s_validate(3) _ s_validate(1,2)] s_validate(4) show ?case by simp
next
  case (s_lock a ats run db res db')
  from lock_keeps [OF s_lock(4) _ s_lock(1) refl s_lock(2,3)] s_lock(5) show ?case by simp
next
  case (s_associate a ats run collate n st db ok db')
  from associate_keeps [OF s_associate(4) _ s_associate(1) refl s_associate(2,3)] s_associate(5) show ?case by simp
next
  case (s_admit job db snapshot w n st ok db' ats)
  from admit_keeps [OF s_admit(2) _ s_admit(1)] s_admit(3) show ?case by simp
next
  case (s_dispatch sn job run i n db res db' ats)
  from dispatch_keeps [OF s_dispatch(1)] s_dispatch(2) show ?case by simp
next
  case (s_log g i t x db ok db' ats)
  from apply_inv_core [OF log_core [OF s_log(1)]] s_log(2) show ?case by simp
next
  case (s_complete i ats db env captured g t c read res db')
  from completion_keeps [OF s_complete(3) _ s_complete(1,2)] s_complete(4) show ?case by simp
next
  case (s_recover job db ats n st res db')
  from recover_keeps [OF s_recover(3) _ s_recover(1)] s_recover(2,4) show ?case by (simp add: unclaimed_def)
next
  case (s_queue_apply db i n st run pool ts db' ats)
  from insert_apply_keeps [OF s_queue_apply(2) _ s_queue_apply(1)] s_queue_apply(3) show ?case by simp
next
  case (s_dispatch_run db i n st pool run ok db' ats)
  from dispatch_run_keeps [OF s_dispatch_run(2) _ s_dispatch_run(1)] s_dispatch_run(3) show ?case by simp
next
  case (s_release_claim job db ats run st)
  from release_claim_keeps [OF _ s_release_claim(1-3)] s_release_claim(4) show ?case by simp
next
  case (s_run db p f ats)
  then have "apply_inv db ats" by simp
  from inv_runs [OF this s_run(1)] show ?case by simp
next
  case (s_workspace db p f ats)
  then have "apply_inv db ats" by simp
  from inv_locks [OF this s_workspace(1,2)] show ?case by simp
next
  case (s_other db db' ats)
  from apply_inv_core [OF s_other(1)] s_other(2) show ?case by simp
qed (simp_all add: cancel_keeps release_canceled_keeps inv_new_run)

lemma agent_inv_init: "agent_init s \<Longrightarrow> agent_inv s"
  unfolding agent_inv_def agent_init_def
  by (rule apply_invI) (simp_all add: unique_by_def engaged_def)

interpretation agent_system: invariant_system agent_init agent_step agent_inv
  by unfold_locales (rule agent_inv_init, assumption, rule agent_inv_step)


section \<open>A job keeps its agent or moves past it\<close>

text \<open>
  The token of a job never decreases, and a job is claimed under a token it already had only when it was claimed by that
  agent before.
\<close>

definition fence_step :: "agent_job \<Rightarrow> agent_job \<Rightarrow> bool" where
  "fence_step j k \<longleftrightarrow> aj_id k = aj_id j \<and> aj_fencingToken j \<le> aj_fencingToken k \<and>
     (aj_fencingToken k = aj_fencingToken j \<longrightarrow> aj_status k = ''claimed'' \<longrightarrow> aj_status j = ''claimed'' \<and> aj_agentId k = aj_agentId j)"

definition fence_table :: "agent_job table \<Rightarrow> agent_job table \<Rightarrow> bool" where
  "fence_table t t' \<longleftrightarrow> (\<forall>j \<in> set t. \<exists>k \<in> set t'. fence_step j k)"

definition fence_moves :: "agent_db \<Rightarrow> agent_db \<Rightarrow> bool" where
  "fence_moves db db' \<longleftrightarrow> fence_table (ad_jobs db) (ad_jobs db')"

lemma fence_table_refl [simp]: "fence_table t t" "fence_table t (t @ u)"
  by (force simp: fence_table_def fence_step_def)+

lemma fence_table_trans: "fence_table t u \<Longrightarrow> fence_table u v \<Longrightarrow> fence_table t v"
  unfolding fence_table_def fence_step_def by fastforce

lemma fence_table_update [simp]:
  assumes "\<And>j. p j \<Longrightarrow> fence_step j (f j)"
  shows "fence_table t (db_update p f t)"
proof -
  have "fence_step j (if p j then f j else j)" for j using assms by (simp add: fence_step_def)
  moreover have "(if p j then f j else j) \<in> set (db_update p f t)" if "j \<in> set t" for j using that by (simp add: db_update_def)
  ultimately show ?thesis unfolding fence_table_def by blast
qed

lemma fence_ends [simp]:
  "fence_step j (cancel_job n m j)" "fence_step j (fail_job n e j)" "fence_step j (reset_job j)"
  by (simp_all add: fence_step_def cancel_job_def fail_job_def reset_job_def)

lemma fence_core: "same_core db db' \<Longrightarrow> fence_moves db db'"
  by (simp add: same_core_def fence_moves_def)

lemma fence_claim: "tryClaimCandidate c g n db = (r, db') \<Longrightarrow> fence_moves db db'"
  by (auto simp: tryClaimCandidate_def Let_def fence_moves_def fence_step_def)

lemma fence_validate: "validateCandidateRun snapshot c n st db = (r, db') \<Longrightarrow> fence_moves db db'"
  by (auto simp: validateCandidateRun_def reject_candidate_def Let_def fence_moves_def split: option.splits if_splits)

lemma fence_lock: "tryLockWorkspaceForApply c run db = (res, db') \<Longrightarrow> fence_moves db db'"
  by (auto simp: tryLockWorkspaceForApply_def Let_def fence_moves_def fence_step_def split: if_splits)

lemma fence_associate: "tryAssociateRun collate c run g n st db = (ok, db') \<Longrightarrow> fence_moves db db'"
  by (auto simp: tryAssociateRun_def Let_def fence_moves_def split: if_splits)

lemma fence_admit: "admitAgentJobDelivery snapshot job w n st db = (ok, db') \<Longrightarrow> fence_moves db db'"
  by (auto simp: admitAgentJobDelivery_def Let_def fence_moves_def split: option.splits if_splits)
    (simp_all add: fence_step_def)

lemma fence_dispatch: "agentDispatchPolicyEvaluation sn job run i n db = (res, db') \<Longrightarrow> fence_moves db db'"
  by (auto simp: agentDispatchPolicyEvaluation_def Let_def fence_moves_def split: if_splits)

lemma fence_cancel: "fence_moves db (cancelAgentJobsForRun run n db)"
  by (auto simp: cancelAgentJobsForRun_def cancel_claimed_def cancel_queued_def release_any_lock_def Let_def fence_moves_def
      intro: fence_table_trans [OF fence_table_update fence_table_update])

lemma fence_recover: "recoverOneStaleAgentJob job n st db = (res, db') \<Longrightarrow> fence_moves db db'"
  by (auto simp: recoverOneStaleAgentJob_def Let_def fence_moves_def split: option.splits if_splits)

lemma fence_release: "fence_moves db (releaseCanceledRunLock cutoff held db)"
  by (simp add: releaseCanceledRunLock_def fence_moves_def split: option.splits)

lemma fence_dispatch_run: "dispatchAgentRun i n st pool run db = (ok, db') \<Longrightarrow> fence_moves db db'"
  by (auto simp: dispatchAgentRun_def Let_def fence_moves_def split: if_splits)

lemma fence_release_claim: "fence_moves db (releaseAgentClaim job run st db)"
  by (simp add: releaseAgentClaim_def Let_def fence_moves_def release_any_lock_def split: option.split)

lemma fence_requeue: "fence_moves db (requeueInvalidCompletion g job run e m n st db)"
  by (auto simp: requeueInvalidCompletion_def Let_def fence_moves_def fence_step_def fenced_row_def split: option.splits)

lemma fence_acknowledge: "acknowledgeCanceledAgentJob g i t n db = (res, db') \<Longrightarrow> fence_moves db db'"
  by (auto simp: acknowledgeCanceledAgentJob_def fence_moves_def split: option.splits if_splits)

lemma fence_finish:
  assumes "finishAgentJob env g job run c db = (Inr (Some (j, s)), db')"
  shows "fence_moves db db'"
proof (rule finish_parts [OF assms])
  fix db2 f p h db5 db6
  let ?q = "fenced_row g (aj_id job) (aj_fencingToken job)"
  assume jobs: "ad_jobs db2 = db_update ?q f (ad_jobs db)" and core: "same_core (update_runs p h db2) db5"
    and f: "\<And>j. aj_id (f j) = aj_id j \<and> aj_runId (f j) = aj_runId j \<and> aj_phase (f j) = aj_phase j \<and> aj_fencingToken (f j) = aj_fencingToken j \<and> aj_status (f j) \<in> {''completed'', ''errored''}"
    and enq: "enqueueApplyAfterPlan job run c s (ce_jobId env) (ce_now env) (releaseApplyWorkspaceLock job run db5) = Some db6"
    and db': "db' = idle_agent g (ce_now env) db6"
  have "fence_step j (f j)" for j using f [of j] by (auto simp: fence_step_def)
  then have "fence_table (ad_jobs db) (ad_jobs db5)" using core by (simp add: same_core_def jobs)
  moreover have "fence_table (ad_jobs db5) (ad_jobs db')" using enq by (auto simp: db' enqueueApplyAfterPlan_def split: if_splits)
  ultimately show "fence_moves db db'" unfolding fence_moves_def by (rule fence_table_trans)
qed

lemma fence_transaction:
  assumes "completeAgentJobInTransaction env g i t c db = (Inr x, db')"
  shows "fence_moves db db'"
proof (cases "db_find (fenced_row g i t) (ad_jobs db)")
  case None
  with assms show ?thesis by (auto simp: completeAgentJobInTransaction_def split: prod.splits intro: fence_acknowledge)
next
  case (Some job)
  then have job: "job \<in> set (ad_jobs db)" "fenced_row g i t job" by (auto dest: db_find_SomeD)
  then have row: "aj_id job = i" "aj_fencingToken job = t" by (simp_all add: fenced_row_def)
  have "fence_moves db db'" if fin: "finishAgentJob env g job run c db = (Inr x, db')" for run
  proof (cases x)
    case None
    with finish_not_None job row fin show ?thesis by fastforce
  next
    case (Some p)
    with fin show ?thesis by (cases p) (auto intro: fence_finish)
  qed
  with Some assms show ?thesis
    by (auto simp: completeAgentJobInTransaction_def Let_def fence_requeue split: option.splits) (simp add: fence_moves_def)
qed

lemma fence_complete:
  assumes "completeAgentJob env captured g i t c read db = (res, db')"
  shows "fence_moves db db'"
proof -
  obtain r db1 where tx: "completeAgentJobInTransaction env g i t c db = (r, db1)" by fastforce
  consider "same_core db db'" | x where "r = Inr x" "same_core db1 db'"
    using assms tx by (auto simp: completeAgentJob_def Let_def same_core_def split: if_splits sum.splits option.splits)
  then show ?thesis
  proof cases
    case 2
    with fence_transaction tx have "fence_moves db db1" by blast
    with fence_core [OF 2(2)] show ?thesis unfolding fence_moves_def by (blast intro: fence_table_trans)
  qed (rule fence_core)
qed

lemma fence_agent_step: "agent_step s u \<Longrightarrow> fence_moves (fst s) (fst u)"
proof (induction rule: agent_step.induct)
  case (s_queue_apply db i n st run pool ts db' ats)
  then show ?case by (auto simp: insert_apply_job_def Let_def fence_moves_def split: option.splits if_splits)
qed (auto intro: fence_claim fence_validate fence_lock fence_associate fence_admit fence_dispatch fence_complete fence_cancel
  fence_recover fence_release fence_dispatch_run fence_release_claim fence_core log_core simp: fence_moves_def [of _ "update_runs _ _ _"] fence_moves_def [of _ "_\<lparr>ad_jobs := _\<rparr>"]
  fence_moves_def [of _ "_\<lparr>ad_runs := _\<rparr>"] fence_moves_def [of _ "update_locks _ _ _"])

text \<open>An agent, a job and a token the job is past.\<close>

definition past_token :: "string \<Rightarrow> string \<Rightarrow> int \<Rightarrow> agent_db \<Rightarrow> bool" where
  "past_token g i t db \<longleftrightarrow> (\<exists>j \<in> set (ad_jobs db). aj_id j = i \<and> t \<le> aj_fencingToken j \<and> \<not> fenced_row g i t j)"

lemma past_token_moves: "past_token g i t db \<Longrightarrow> fence_moves db db' \<Longrightarrow> past_token g i t db'"
  unfolding past_token_def fence_moves_def fence_table_def fence_step_def fenced_row_def by fastforce

interpretation fenced_agents: invariant_system "\<lambda>s. past_token g i t (fst s)" agent_step "\<lambda>s. past_token g i t (fst s)" for g i t
  by unfold_locales (assumption, rule past_token_moves [OF _ fence_agent_step])


section \<open>What the component promises\<close>

lemma unlocked_rows: "w \<in> set (db_update (locked_for_run run) run_unlocked t) \<Longrightarrow> \<not> locked_for_run run w"
proof -
  assume "w \<in> set (db_update (locked_for_run run) run_unlocked t)"
  then obtain v where "w = (if locked_for_run run v then run_unlocked v else v)" by (auto simp: mem_db_update)
  then show ?thesis by (cases "locked_for_run run v") (simp_all add: run_unlocked_def locked_for_run_def)
qed

lemma no_fenced_row:
  assumes "apply_inv db as" "past_token g i t db"
  shows "db_find (fenced_row g i t) (ad_jobs db) = None"
proof (rule ccontr)
  assume "db_find (fenced_row g i t) (ad_jobs db) \<noteq> None"
  then obtain k where k: "k \<in> set (ad_jobs db)" "fenced_row g i t k" by (auto dest: db_find_SomeD)
  obtain j where j: "j \<in> set (ad_jobs db)" "aj_id j = i" "\<not> fenced_row g i t j" using assms(2) by (auto simp: past_token_def)
  from unique_byD [OF apply_invD(1) [OF assms(1)] k(1) j(1)] k j show False by (auto simp: fenced_row_def)
qed

lemma acknowledge_leaves:
  assumes "acknowledgeCanceledAgentJob g i t n db = (res, db')"
  shows "ad_jobs db' = ad_jobs db" "ad_runs db' = ad_runs db" "st_versions (ad_store db') = st_versions (ad_store db)"
  using assms by (auto simp: acknowledgeCanceledAgentJob_def releaseApplyWorkspaceLock_def releaseRunLock_def update_locks_def
      split: option.splits if_splits)


text \<open>C10: an agent whose claim of a job has ended, and that still presents the token of that claim, changes nothing at any later time: its logs are refused, it
  is not given the job again, and its completion changes no job, run or state version.
\<close>

theorem stale_agent_changes_nothing:
  assumes "reach agent_init agent_step s" "past_token g i t (fst s)" "agent_step\<^sup>*\<^sup>* s (db, as)"
  shows "appendAgentJobLog g i t outputText db = (False, db) \<and> findClaimedAgentJob snapshot e n stamp g i t db = (None, db) \<and>
    (let db' = snd (completeAgentJob env captured g i t c read db) in
     ad_jobs db' = ad_jobs db \<and> ad_runs db' = ad_runs db \<and> st_versions (ad_store db') = st_versions (ad_store db))"
proof -
  have "apply_inv db as"
    using agent_system.steps_inv [OF agent_system.reach_inv [OF assms(1)] assms(3)] by (simp add: agent_inv_def)
  moreover have "past_token g i t db" using fenced_agents.steps_inv [OF assms(2,3)] by simp
  ultimately have none: "db_find (fenced_row g i t) (ad_jobs db) = None" by (rule no_fenced_row)
  then have a: "appendAgentJobLog g i t outputText db = (False, db)" by (simp add: appendAgentJobLog_def)
  have "(\<lambda>j. claimed_row i j \<and> aj_agentId j = Some g \<and> aj_fencingToken j = t) = fenced_row g i t"
    by (auto simp: claimed_row_def fenced_row_def fun_eq_iff)
  with none have b: "findClaimedAgentJob snapshot e n stamp g i t db = (None, db)" by (simp add: findClaimedAgentJob_def)
  obtain r db1 where ack: "acknowledgeCanceledAgentJob g i t (ce_now env) db = (r, db1)" by fastforce
  from acknowledge_leaves [OF ack] none ack a b show ?thesis
    by (auto simp: completeAgentJob_def completeAgentJobInTransaction_def Let_def notifyRunStatus_def split: option.splits)
qed

text \<open>A cancellation keeps the lock of a workspace whose apply may still run on its agent, but the second cancellation of
  a force-cancel finds no claimed job and always releases it.
\<close>

theorem force_cancel_frees_lock:
  assumes "j \<in> set (ad_jobs db)" "aj_runId j = run" "aj_status j = ''claimed''"
  shows "locks_of (cancelAgentJobsForRun run n db) = locks_of db \<and>
    (\<forall>w \<in> set (locks_of (cancelAgentJobsForRun run m (cancelAgentJobsForRun run n db))). \<not> locked_for_run run w)"
proof -
  let ?p = "\<lambda>j. aj_runId j = run \<and> aj_status j = ''claimed''" and ?q = "\<lambda>j. aj_runId j = run \<and> aj_status j = ''queued''"
  have "filter ?p (ad_jobs db) \<noteq> []" using assms by (auto simp: filter_empty_conv)
  then have one: "cancelAgentJobsForRun run n db = update_jobs ?q (cancel_job n ''Run canceled'') (update_jobs ?p (cancel_job n ''Run canceled'') db)"
    by (simp add: cancelAgentJobsForRun_def cancel_claimed_def cancel_queued_def Let_def)
  then have "locks_of (cancelAgentJobsForRun run n db) = locks_of db" by simp
  moreover have "filter ?p (ad_jobs (cancelAgentJobsForRun run n db)) = []"
    using canceled_not_claimed by (auto simp: filter_empty_conv)
  then have "cancelAgentJobsForRun run m (cancelAgentJobsForRun run n db) =
      release_any_lock run (cancel_queued run m (snd (cancel_claimed run m (cancelAgentJobsForRun run n db))))"
    by (simp add: cancelAgentJobsForRun_def [of run m] cancel_claimed_def Let_def)
  then have "\<forall>w \<in> set (locks_of (cancelAgentJobsForRun run m (cancelAgentJobsForRun run n db))). \<not> locked_for_run run w"
    using unlocked_rows by (simp add: release_any_lock_def)
  ultimately show ?thesis by blast
qed


section \<open>A run applied by an agent\<close>

definition demo_agent :: agent where
  "demo_agent = \<lparr>ag_id = ''g'', ag_poolId = ''pool'', ag_status = ''idle'', ag_lastPingAt = Some 0, ag_version = None,
     ag_protocolVersion = None, ag_capabilities = None, ag_artifactFormats = None, ag_iacBinaries = None\<rparr>"

definition demo_agent_run :: agent_run where
  "demo_agent_run = \<lparr>r_id = ''r'', r_workspaceId = ''w'', r_status = ''confirmed'', r_planOnly = False, r_savePlan = False, r_createdAt = 0,
     r_statusTimestamps = [], r_scheduledAt = None, r_ownerNodeId = None, r_ownerInstanceId = None, r_fencingToken = 0,
     r_leaseExpiresAt = None, r_leaseHeartbeatAt = None, r_executionPhase = None, ar_agentPoolId = None, ar_agentId = None,
     ar_agentVersion = None, ar_agentProtocolVersion = None, ar_agentCapabilities = [], ar_executionPolicy = None,
     ar_autoApply = False, ar_configurationVersionId = None, ar_createdBy = None, ar_appliedAt = None,
     ar_planCounts = \<lparr>rc_additions = None, rc_changes = None, rc_destructions = None, rc_imports = None\<rparr>,
     ar_applyCounts = \<lparr>rc_additions = None, rc_changes = None, rc_destructions = None, rc_imports = None\<rparr>\<rparr>"

definition demo_agents_0 :: agent_db where
  "demo_agents_0 = \<lparr>ad_agents = [demo_agent], ad_tokens = [], ad_jobs = [], ad_runs = [demo_agent_run], ad_configurations = [],
     ad_store = \<lparr>st_workspaces = [\<lparr>wl_id = ''w'', wl_orgId = ''org'', wl_locked = Some False, wl_lockedReason = None,
       wl_lockOwnerType = None, wl_lockOwnerId = None, wl_lockedAt = None\<rparr>], st_versions = [], st_outputs = [], st_audit = []\<rparr>,
     ad_iacBinary = [], ad_checks = [], ad_planJson = [], ad_logs = [], ad_notified = []\<rparr>"

definition demo_snapshot :: "string \<Rightarrow> string policy_snapshot option" where
  "demo_snapshot w = Some \<lparr>sn_fingerprint = ''f'', sn_sets = [], sn_policies = [], sn_parameters = [], sn_disabledSets = []\<rparr>"

definition demo_candidate :: agent_job where "demo_candidate = apply_job ''j'' ''r'' ''pool'' ''terraform'' 0"

definition demo_agents_1 :: agent_db where
  "demo_agents_1 = (case insert_apply_job ''j'' 0 ''t'' ''r'' ''pool'' [] demo_agents_0 of Some db \<Rightarrow> db | None \<Rightarrow> demo_agents_0)"
definition demo_agents_2 :: agent_db where "demo_agents_2 = snd (tryClaimCandidate demo_candidate demo_agent 1 demo_agents_1)"
definition demo_run_2 :: agent_run where "demo_run_2 = hd (ad_runs demo_agents_2)"
definition demo_agents_3 :: agent_db where "demo_agents_3 = snd (tryLockWorkspaceForApply demo_candidate demo_run_2 demo_agents_2)"
definition demo_agents_4 :: agent_db where
  "demo_agents_4 = snd (tryAssociateRun (\<lambda>x y. 0) demo_candidate demo_run_2 demo_agent 1 ''t'' demo_agents_3)"
definition demo_job :: agent_job where "demo_job = hd (ad_jobs demo_agents_4)"
definition demo_agents_5 :: agent_db where "demo_agents_5 = snd (recoverOneStaleAgentJob demo_job 2 ''t'' demo_agents_4)"

lemma demo_agent_values:
  "insert_apply_job ''j'' 0 ''t'' ''r'' ''pool'' [] demo_agents_0 = Some demo_agents_1"
  "tryClaimCandidate demo_candidate demo_agent 1 demo_agents_1 = (Some (hd (ad_jobs demo_agents_2)), demo_agents_2)"
  "validateCandidateRun demo_snapshot demo_candidate 1 ''t'' demo_agents_2 = (Some demo_run_2, demo_agents_2)"
  "tryLockWorkspaceForApply demo_candidate demo_run_2 demo_agents_2 = (Lock_taken, demo_agents_3)"
  "tryAssociateRun (\<lambda>x y. 0) demo_candidate demo_run_2 demo_agent 1 ''t'' demo_agents_3 = (True, demo_agents_4)"
  "recoverOneStaleAgentJob demo_job 2 ''t'' demo_agents_4 = (Some ''apply_queued'', demo_agents_5)"
  by code_simp+

definition demo_claim :: "agent_run option \<Rightarrow> bool \<Rightarrow> attempt" where
  "demo_claim run locked = \<lparr>at_job = demo_candidate, at_agent = demo_agent, at_run = run, at_locked = locked\<rparr>"

lemma demo_claim_simps [simp]:
  "at_job (demo_claim x b) = demo_candidate" "at_agent (demo_claim x b) = demo_agent" "at_run (demo_claim x b) = x" "at_locked (demo_claim x b) = b"
  "at_id (demo_claim x b) = ''j''" "demo_claim x b\<lparr>at_run := y\<rparr> = demo_claim y b" "demo_claim x b\<lparr>at_locked := c\<rparr> = demo_claim x c"
  by (simp_all add: demo_claim_def at_id_def demo_candidate_def apply_job_def)

lemma demo_reads: "read_of demo_candidate demo_agents_1" "read_of demo_job demo_agents_4"
  unfolding read_of_def by code_simp+

lemma reach_demo_4: "reach agent_init agent_step (demo_agents_4, [])"
proof -
  note V = demo_agent_values
  have "agent_init (demo_agents_0, [])"
    by (simp add: agent_init_def demo_agents_0_def unique_by_def)
  then have "reach agent_init agent_step (demo_agents_0, [])" by (rule reach_init)
  moreover have "agent_step (demo_agents_0, []) (demo_agents_1, [])"
    by (rule s_queue_apply [OF _ V(1)]) (simp add: demo_agents_0_def)
  moreover have "agent_step (demo_agents_1, []) (demo_agents_2, [demo_claim None False])"
    using s_claim [OF demo_reads(1) V(2), of "[]"] by (simp add: demo_claim_def)
  moreover have "agent_step (demo_agents_2, [demo_claim None False]) (demo_agents_2, [demo_claim (Some demo_run_2) False])"
    using s_validate [of "demo_claim None False" "[demo_claim None False]", simplified, OF V(3)] by (simp add: put_attempt_def)
  moreover have "agent_step (demo_agents_2, [demo_claim (Some demo_run_2) False]) (demo_agents_3, [demo_claim (Some demo_run_2) True])"
    using s_lock [of "demo_claim (Some demo_run_2) False" "[demo_claim (Some demo_run_2) False]", simplified, OF refl V(4)] by (simp add: put_attempt_def)
  moreover have "agent_step (demo_agents_3, [demo_claim (Some demo_run_2) True]) (demo_agents_4, [])"
    using s_associate [of "demo_claim (Some demo_run_2) True" "[demo_claim (Some demo_run_2) True]", simplified, OF refl V(5)] by (simp add: drop_attempt_def)
  ultimately show ?thesis by (meson reach_step)
qed

lemma demo_job_values:
  "ad_jobs demo_agents_4 = [demo_job]" "aj_runId demo_job = ''r''" "aj_status demo_job = ''claimed''" "aj_phase demo_job = ''apply''"
  "map r_id (ad_runs demo_agents_4) = [''r'']" "map r_workspaceId (ad_runs demo_agents_4) = [''w'']"
  "map wl_lockOwnerId (locks_of demo_agents_4) = [Some ''r'']"
  by code_simp+


lemma demo_past_token: "past_token ''g'' ''j'' 1 demo_agents_5"
  unfolding past_token_def by code_simp

theorem stale_agent_changes_nothing_witness:
  "appendAgentJobLog ''g'' ''j'' 1 ''late'' demo_agents_5 = (False, demo_agents_5)"
proof -
  have "agent_step (demo_agents_4, []) (demo_agents_5, [])"
    by (rule s_recover [OF demo_reads(2) _ demo_agent_values(6)]) (simp add: unclaimed_def)
  with reach_demo_4 have "reach agent_init agent_step (demo_agents_5, [])" by (rule reach_step)
  from stale_agent_changes_nothing [OF this, of "''g''" "''j''" 1 demo_agents_5 "[]"] demo_past_token show ?thesis by simp
qed

theorem force_cancel_frees_lock_witness:
  "map (locked_for_run ''r'') (locks_of (cancelAgentJobsForRun ''r'' 3 demo_agents_4)) = [True] \<and>
   map (locked_for_run ''r'') (locks_of (cancelAgentJobsForRun ''r'' 4 (cancelAgentJobsForRun ''r'' 3 demo_agents_4))) = [False]"
proof -
  note F = force_cancel_frees_lock [of demo_job demo_agents_4 "''r''" 3 4]
  have "map (locked_for_run ''r'') (locks_of demo_agents_4) = [True]" by code_simp
  moreover have "length (locks_of (cancelAgentJobsForRun ''r'' 4 (cancelAgentJobsForRun ''r'' 3 demo_agents_4))) = 1" by code_simp
  ultimately show ?thesis using F by (auto simp: demo_job_values length_Suc_conv)
qed


section \<open>Gaps\<close>

text \<open>A short timeout leaves the persisted heartbeat of a live agent older than the timeout.\<close>

lemma short_timeout_outlives_heartbeat: "timeout \<le> 3000 \<Longrightarrow> timeout \<le> effectivePingWriteIntervalMs timeout"
  by (simp add: effectivePingWriteIntervalMs_def)

text \<open>A run that was taken back to the queue keeps its canceled plan job, and with it the key of a new one: no dispatch succeeds.\<close>

lemma requeued_run_never_dispatched:
  assumes "job_key_taken (r_id run) ''plan'' db"
  shows "dispatchAgentRun i n st pool run (cancelAgentJobsForRun (r_id run) m db) \<noteq> (Inr True, db')"
proof -
  have "job_key_taken r p (update_jobs q (cancel_job m e) d) = job_key_taken r p d" for r p q e d
    unfolding job_key_taken_def list_ex_iff update_fields bex_db_update by (auto simp: cancel_job_def)
  moreover have "job_key_taken r p (release_any_lock r' d) = job_key_taken r p d" for r p r' d
    by (simp add: job_key_taken_def release_any_lock_def)
  ultimately have "job_key_taken (r_id run) ''plan'' (cancelAgentJobsForRun (r_id run) m db)"
    using assms by (simp add: cancelAgentJobsForRun_def cancel_claimed_def cancel_queued_def Let_def)
  then show ?thesis by (simp add: dispatchAgentRun_def Let_def)
qed

text \<open>
  The plan of the run was made in a pool the workspace has left since. The deletion of that pool ends the run and releases the
  workspace while an agent of the other pool applies it.
\<close>

definition demo_moved :: agent_db where
  "demo_moved = demo_agents_4\<lparr>ad_jobs := (apply_job ''p'' ''r'' ''old'' ''terraform'' 0)\<lparr>aj_phase := ''plan'', aj_status := ''completed''\<rparr> # ad_jobs demo_agents_4\<rparr>"

lemma pool_deletion_frees_foreign_apply:
  "map (locked_for_run ''r'') (locks_of demo_moved) = [True] \<and>
   map r_status (ad_runs (deleteAgentPool ''old'' 5 ''t'' demo_moved)) = [''errored''] \<and>
   map (locked_for_run ''r'') (locks_of (deleteAgentPool ''old'' 5 ''t'' demo_moved)) = [False] \<and>
   ad_jobs (deleteAgentPool ''old'' 5 ''t'' demo_moved) = [demo_job] \<and> aj_status demo_job = ''claimed''"
  by (intro conjI; code_simp)

end
