(* ===== verification/AgentCompletion.thy ===== *)
theory AgentCompletion imports AgentExclusion StateSafety begin

text \<open>
  What a completed apply of an agent publishes: the job, the run, the state version and the lock of the workspace, which
  the transaction of \<open>completeAgentJob\<close> changes together.
\<close>

lemma returning_find: "db_find p t = Some x \<Longrightarrow> \<exists>ys. db_returning p f t = f x # ys"
  by (induction t) (auto split: if_splits)

lemma published_version:
  assumes "insertStateVersionWithSerialTx lib v st = (Inr n, st')"
  shows "\<exists>u \<in> set (st_versions st'). sv_id u = sv_id v \<and> sv_workspaceId u = sv_workspaceId v \<and> sv_serial u = next_serial (sv_workspaceId v) st \<and>
    sv_status u = sv_status v \<and> sv_statePayload u = sv_statePayload v \<and> sv_runId u = sv_runId v"
proof -
  let ?v = "v\<lparr>sv_serial := next_serial (sv_workspaceId v) st\<rparr>"
  have index: "\<exists>u \<in> set (st_versions st2). sv_id u = sv_id ?v \<and> sv_workspaceId u = sv_workspaceId ?v \<and> sv_serial u = sv_serial ?v \<and>
      sv_status u = sv_status ?v \<and> sv_statePayload u = sv_statePayload ?v \<and> sv_runId u = sv_runId ?v"
    if "insertStateOutputIndex lib i w j s st1 = (Inr x, st2)" "?v \<in> set (st_versions st1)" for i w j s st1 st2 x
  proof -
    have "\<exists>p d. st_versions st2 = db_update p (\<lambda>v. v\<lparr>sv_uploadSha256 := d\<rparr>) (st_versions st1)"
    proof (cases s)
      case None
      with that(1) have "st_versions st2 = db_update (\<lambda>v. False) (\<lambda>v. v\<lparr>sv_uploadSha256 := None\<rparr>) (st_versions st1)"
        by (auto simp: insertStateOutputIndex_def db_update_def)
      then show ?thesis by blast
    next
      case (Some a)
      with that(1) obtain t where "decodeStatePayload lib a = Some t" by (auto simp: insertStateOutputIndex_def split: option.splits)
      with that(1) Some have "st_versions st2 = db_update (\<lambda>v. sv_id v = i) (\<lambda>v. v\<lparr>sv_uploadSha256 := Some (sha256_hex lib t)\<rparr>) (st_versions st1)"
        by (auto simp: insertStateOutputIndex_def)
      then show ?thesis by blast
    qed
    then obtain p d where st2: "st_versions st2 = db_update p (\<lambda>v. v\<lparr>sv_uploadSha256 := d\<rparr>) (st_versions st1)" by blast
    show ?thesis unfolding st2 bex_db_update by (rule bexI [OF _ that(2)]) simp
  qed
  show ?thesis
    using assms unfolding insertStateVersionWithSerialTx_def next_serial_bind
    by (auto simp: tx_bind_def commitStateVersionAtSerialTx_def insert_version_def
        split: prod.splits sum.splits if_splits dest!: index)
qed

lemma unlocked_workspace:
  "w \<in> set (locks_of (releaseRunLock i run db)) \<Longrightarrow> wl_id w = i \<Longrightarrow> \<not> locked_for_run run w"
proof -
  assume w: "w \<in> set (locks_of (releaseRunLock i run db))" "wl_id w = i"
  then obtain v where "w = (if wl_id v = i \<and> locked_for_run run v then run_unlocked v else v)"
    by (auto simp: releaseRunLock_def mem_db_update)
  with w(2) consider "w = run_unlocked v" | "w = v" "\<not> locked_for_run run v" by (auto split: if_splits)
  then show ?thesis by cases (simp_all add: run_unlocked_def locked_for_run_def)
qed

lemma apply_outcome:
  assumes "determineCompletionOutcome snapshot fresh job run c n gated db = (Inr (outcome, s), db')" "s = ''applied''" "aj_phase job = ''apply''"
  shows "cp_status c = ''completed''" "db' = db"
  using assms by (auto simp: determineCompletionOutcome_def split: if_splits)

lemma apply_run_row:
  assumes "persistRunCompletion stamp job run c ''applying'' structured outcome ''applied'' n db = (Inr (), db')"
    "aj_phase job = ''apply''" "cp_status c = ''completed''" "run \<in> set (ad_runs db)" "r_status run = ''applying''"
  shows "ad_store db' = ad_store db \<and> ad_jobs db' = ad_jobs db \<and>
    (\<exists>r \<in> set (ad_runs db'). r_id r = r_id run \<and> r_workspaceId r = r_workspaceId run \<and> r_status r = ''applied'' \<and> ar_appliedAt r = Some n)"
proof -
  let ?p = "\<lambda>r. r_id r = r_id run \<and> r_status r = ''applying''"
  obtain h where h: "db' = update_runs ?p h db"
      "r_id (h run) = r_id run \<and> r_workspaceId (h run) = r_workspaceId run \<and> r_status (h run) = ''applied'' \<and> ar_appliedAt (h run) = Some n"
    using assms(1,2,3) by (auto simp: persistRunCompletion_def Let_def split: if_splits)
  have "h run \<in> set (ad_runs db')" using assms(4,5) mem_db_update [of "h run" ?p h "ad_runs db"] by (auto simp: h(1))
  with h show ?thesis by auto
qed

lemma persist_returns:
  assumes "persistAgentJobCompletion g job c n db = (upd, db')" "db_find (fenced_row g (aj_id job) (aj_fencingToken job)) (ad_jobs db) = Some job"
  shows "upd = Some (job\<lparr>aj_status := if cp_status c = ''completed'' then ''completed'' else ''errored'', aj_result := Some (cp_result c),
      aj_errorMessage := map_option Message (cp_errorMessage c), aj_completedAt := Some n\<rparr>)"
proof -
  let ?f = "\<lambda>j. j\<lparr>aj_status := if cp_status c = ''completed'' then ''completed'' else ''errored'', aj_result := Some (cp_result c),
      aj_errorMessage := map_option Message (cp_errorMessage c), aj_completedAt := Some n\<rparr>"
  from returning_find [OF assms(2), of ?f] assms(1) show ?thesis
    by (auto simp: persistAgentJobCompletion_def Let_def split: if_splits)
qed

lemma finish_returns:
  assumes "finishAgentJob env g job run c db = (Inr (Some (j, s)), db')" "db_find (fenced_row g (aj_id job) (aj_fencingToken job)) (ad_jobs db) = Some job"
  shows "aj_phase j = aj_phase job"
proof -
  obtain structured db1 where prep: "prepareAgentCompletion job run c db = (structured, db1)" by fastforce
  then have jobs: "ad_jobs db1 = ad_jobs db" by (auto simp: prepareAgentCompletion_def Let_def split: option.splits)
  obtain upd db2 where pers: "persistAgentJobCompletion g job c (ce_now env) db1 = (upd, db2)" by fastforce
  note upd = persist_returns [OF pers, unfolded jobs, OF assms(2)]
  have "aj_phase j = aj_phase (the upd)" using assms(1) by (auto simp: finishAgentJob_def Let_def prep pers upd split: sum.splits prod.splits option.splits)
  then show ?thesis by (simp add: upd)
qed

lemma finish_publishes:
  assumes "finishAgentJob env g job run c db = (Inr (Some (j, ''applied'')), db')" "aj_phase job = ''apply''" "r_status run = ''applying''"
    and job: "db_find (fenced_row g (aj_id job) (aj_fencingToken job)) (ad_jobs db) = Some job"
    and run: "run \<in> set (ad_runs db)" and payload: "cp_statePayload c \<noteq> None"
  shows "j \<in> set (ad_jobs db') \<and> aj_runId j = aj_runId job \<and> aj_status j = ''completed''" (is ?job)
    and "\<exists>r \<in> set (ad_runs db'). r_id r = r_id run \<and> r_workspaceId r = r_workspaceId run \<and> r_status r = ''applied'' \<and> ar_appliedAt r = Some (ce_now env)" (is ?run)
    and "\<exists>v \<in> set (st_versions (ad_store db')). sv_id v = ce_versionId env \<and> sv_workspaceId v = r_workspaceId run \<and> sv_status v = Sv_finalized \<and>
      sv_runId v = Some (r_id run) \<and> sv_statePayload v = encryptStatePayload (ce_lib env) (cp_statePayload c) \<and>
      sv_serial v = next_serial (r_workspaceId run) (ad_store db)" (is ?version)
    and "\<forall>w \<in> set (locks_of db'). wl_id w = r_workspaceId run \<longrightarrow> \<not> locked_for_run (r_id run) w" (is ?lock)
proof -
  let ?q = "fenced_row g (aj_id job) (aj_fencingToken job)"
  obtain structured db1 where prep: "prepareAgentCompletion job run c db = (structured, db1)" by fastforce
  then have one: "ad_jobs db1 = ad_jobs db" "ad_runs db1 = ad_runs db" "ad_store db1 = ad_store db"
    by (auto simp: prepareAgentCompletion_def Let_def split: option.splits)
  obtain upd db2 where pers: "persistAgentJobCompletion g job c (ce_now env) db1 = (upd, db2)" by fastforce
  let ?f = "\<lambda>j. j\<lparr>aj_status := if cp_status c = ''completed'' then ''completed'' else ''errored'', aj_result := Some (cp_result c),
      aj_errorMessage := map_option Message (cp_errorMessage c), aj_completedAt := Some (ce_now env)\<rparr>"
  have two: "ad_jobs db2 = db_update ?q ?f (ad_jobs db)" "ad_runs db2 = ad_runs db" "ad_store db2 = ad_store db"
    using pers one by (auto simp: persistAgentJobCompletion_def Let_def split: if_splits)
  have upd: "upd = Some (?f job)"
    using persist_returns [OF pers, unfolded one, OF job] .
  obtain res db3 where out: "determineCompletionOutcome (ce_snapshot env) (ce_checkId env) job run c (ce_now env) (ce_gated env) db2 = (res, db3)" by fastforce
  obtain outcome s where res: "res = Inr (outcome, s)" using assms(1) by (auto simp: finishAgentJob_def Let_def prep pers upd out split: sum.splits)
  obtain res4 db4 where prun: "persistRunCompletion (ce_stamp env) job run c (expectedStatus (aj_phase job)) structured outcome s (ce_now env) db3 = (res4, db4)"
    by fastforce
  have ok4: "res4 = Inr ()" using assms(1) by (auto simp: finishAgentJob_def Let_def prep pers upd out res prun split: sum.splits)
  obtain res5 db5 where st: "persistApplyStateVersion (ce_lib env) job run c (ce_versionId env) (ce_now env) db4 = (res5, db5)" by fastforce
  have ok5: "res5 = Inr ()" and s: "s = ''applied''" and j: "j = ?f job"
    and db': "db' = idle_agent g (ce_now env) (releaseApplyWorkspaceLock job run db5)"
  proof -
    obtain db6 where "res5 = Inr ()" "s = ''applied''" "j = ?f job" "db' = idle_agent g (ce_now env) db6"
        "enqueueApplyAfterPlan job run c s (ce_jobId env) (ce_now env) (releaseApplyWorkspaceLock job run db5) = Some db6"
      using assms(1) by (auto simp: finishAgentJob_def Let_def prep pers upd out res prun ok4 st split: sum.splits option.splits)
    then show "res5 = Inr ()" "s = ''applied''" "j = ?f job" "db' = idle_agent g (ce_now env) (releaseApplyWorkspaceLock job run db5)"
      using assms(2) by (simp_all add: enqueueApplyAfterPlan_def)
  qed
  note ap = apply_outcome [OF out [unfolded res] s assms(2)]
  have four: "ad_store db4 = ad_store db \<and> ad_jobs db4 = ad_jobs db2 \<and>
      (\<exists>r \<in> set (ad_runs db4). r_id r = r_id run \<and> r_workspaceId r = r_workspaceId run \<and> r_status r = ''applied'' \<and> ar_appliedAt r = Some (ce_now env))"
    using apply_run_row [of "ce_stamp env" job run c structured outcome "ce_now env" db3 db4] prun ok4 s ap assms(2,3) run two
    by (simp add: expectedStatus_def)
  obtain n st5 where ins: "insertStateVersionWithSerialTx (ce_lib env) (completion_version (ce_lib env) run c (ce_versionId env) (ce_now env)) (ad_store db4) = (Inr n, st5)"
      and five: "db5 = db4\<lparr>ad_store := st5\<rparr>"
    using st ok5 assms(2) payload by (auto simp: persistApplyStateVersion_def split: if_splits prod.splits sum.splits)
  show ?run using four by (simp add: db' five)
  have "?f job \<in> set (ad_jobs db2)" using mem_db_update [of "?f job" ?q ?f "ad_jobs db"] db_find_SomeD [OF job] by (auto simp: two)
  then show ?job using four ap(1) by (simp add: db' five j)
  show ?version
    using published_version [OF ins] four
    by (auto simp: db' five completion_version_def releaseApplyWorkspaceLock_def assms(2) releaseRunLock_def update_locks_def)
  show ?lock using unlocked_workspace by (simp add: db' releaseApplyWorkspaceLock_def assms(2))
qed

text \<open>C11: an apply that is accepted as applied is published as a whole: the job is completed, the run applied, the state of the
  agent is the finalized version of the workspace with the greatest serial, and the workspace is no longer locked for the run.
\<close>

theorem completed_apply_publishes_state:
  assumes "completeAgentJob env captured g i t c read db = (Inr (Some (job, ''applied'')), db')" "aj_phase job = ''apply''"
  shows "job \<in> set (ad_jobs db') \<and> aj_status job = ''completed'' \<and>
    (\<exists>r \<in> set (ad_runs db'). r_id r = aj_runId job \<and> r_status r = ''applied'' \<and> ar_appliedAt r = Some (ce_now env) \<and>
      (\<exists>v \<in> set (st_versions (ad_store db')). sv_workspaceId v = r_workspaceId r \<and> sv_runId v = Some (r_id r) \<and> sv_status v = Sv_finalized \<and>
        cp_statePayload c \<noteq> None \<and> sv_statePayload v = encryptStatePayload (ce_lib env) (cp_statePayload c) \<and>
        (\<forall>u \<in> set (st_versions (ad_store db)). sv_workspaceId u = r_workspaceId r \<longrightarrow> sv_serial u < sv_serial v)) \<and>
      (\<forall>w \<in> set (locks_of db'). wl_id w = r_workspaceId r \<longrightarrow> \<not> locked_for_run (r_id r) w))"
proof -
  obtain db1 where tx: "completeAgentJobInTransaction env g i t c db = (Inr (Some (job, ''applied'')), db1)"
    and core: "same_core db1 db'" "ad_store db' = ad_store db1"
    using assms(1) by (auto simp: completeAgentJob_def Let_def same_core_def split: if_splits sum.splits option.splits prod.splits)
  obtain old where old: "db_find (fenced_row g i t) (ad_jobs db) = Some old"
    using tx by (cases "db_find (fenced_row g i t) (ad_jobs db)")
      (auto simp: completeAgentJobInTransaction_def acknowledgeCanceledAgentJob_def split: prod.splits option.splits if_splits)
  then have row: "aj_id old = i" "aj_fencingToken old = t" by (auto simp: fenced_row_def dest: db_find_SomeD)
  obtain run where run: "find_run (aj_runId old) db = Some run"
      and valid: "invalidCompletionReason (ce_units env) (ce_bytes env) old (Some run) c (expectedStatus (aj_phase old)) = None"
      and fin: "finishAgentJob env g old run c db = (Inr (Some (job, ''applied'')), db1)"
    using tx old by (auto simp: completeAgentJobInTransaction_def Let_def split: option.splits)
  have ap: "aj_phase old = ''apply''" using finish_returns [OF fin] old row assms(2) by simp
  have v: "r_status run = ''applying''" using valid ap by (simp add: invalidCompletionReason_def expectedStatus_def split: if_splits)
  have "cp_status c = ''completed''"
    using fin ap by (auto simp: finishAgentJob_def Let_def determineCompletionOutcome_def split: prod.splits option.splits sum.splits if_splits)
  with valid ap have "cp_statePayload c \<noteq> None" by (simp add: invalidCompletionReason_def split: if_splits)
  note pub = finish_publishes [OF fin ap v _ _ this] find_runD [OF run]
  from pub(2) old row find_runD [OF run] obtain r where r: "r \<in> set (ad_runs db1)" "r_id r = aj_runId old" "r_workspaceId r = r_workspaceId run"
    "r_status r = ''applied''" "ar_appliedAt r = Some (ce_now env)" by auto
  have o': "aj_id old = i" "aj_fencingToken old = t" "r_id run = aj_runId old" "run \<in> set (ad_runs db)" using row find_runD [OF run] by auto
  have job: "job \<in> set (ad_jobs db1)" "aj_runId job = aj_runId old" "aj_status job = ''completed''" using pub(1) old o' by auto
  obtain v where v: "v \<in> set (st_versions (ad_store db1))" "sv_workspaceId v = r_workspaceId run" "sv_status v = Sv_finalized"
      "sv_runId v = Some (r_id run)" "sv_statePayload v = encryptStatePayload (ce_lib env) (cp_statePayload c)"
      "sv_serial v = next_serial (r_workspaceId run) (ad_store db)"
    using pub(3) old o' by auto
  have lock: "\<forall>w \<in> set (locks_of db1). wl_id w = r_workspaceId run \<longrightarrow> \<not> locked_for_run (r_id run) w" using pub(4) old o' by simp
  show ?thesis
  proof (intro conjI bexI [of _ r] bexI [of _ v])
    show "\<forall>u \<in> set (st_versions (ad_store db)). sv_workspaceId u = r_workspaceId r \<longrightarrow> sv_serial u < sv_serial v"
      using next_serial_greater v(6) r(3) by simp
    show "\<forall>w \<in> set (locks_of db'). wl_id w = r_workspaceId r \<longrightarrow> \<not> locked_for_run (r_id r) w"
      using lock core o'(3) r(2,3) by (simp add: same_core_def)
  qed (use job v r core o'(3) \<open>cp_statePayload c \<noteq> None\<close> in \<open>simp_all add: same_core_def\<close>)
qed


text \<open>The apply of the previous demonstration is completed with a state.\<close>

definition demo_completion :: completion where
  "demo_completion = \<lparr>cp_status = ''completed'', cp_errorMessage = None,
     cp_counts = \<lparr>rc_additions = Some 1, rc_changes = None, rc_destructions = None, rc_imports = None\<rparr>, cp_planJson = None,
     cp_statePayload = Some ''s'', cp_jsonState = None, cp_jsonStateOutputs = None, cp_result = []\<rparr>"

definition demo_agent_lib :: state_lib where
  "demo_agent_lib = \<lparr>sl_parse = (\<lambda>s. Some (JObj [])), sl_stringify = (\<lambda>j. []), sl_sha256 = (\<lambda>s. []), sl_md5 = (\<lambda>s. []), sl_aead = demo_aead, sl_key = [], sl_iv = []\<rparr>"

definition demo_env :: completion_env where
  "demo_env = \<lparr>ce_units = length, ce_bytes = (\<lambda>_. Some 2), ce_snapshot = demo_snapshot, ce_lib = demo_agent_lib, ce_checkId = id,
     ce_versionId = ''v'', ce_jobId = ''n'', ce_gated = False, ce_now = 9, ce_stamp = ''t''\<rparr>"

definition demo_applying :: agent_db where
  "demo_applying = demo_agents_0\<lparr>ad_jobs := [demo_candidate\<lparr>aj_agentId := Some ''g'', aj_status := ''claimed'', aj_fencingToken := 1\<rparr>],
     ad_runs := [demo_agent_run\<lparr>r_status := ''applying''\<rparr>]\<rparr>"

definition demo_completed_job :: agent_job where
  "demo_completed_job = demo_candidate\<lparr>aj_agentId := Some ''g'', aj_status := ''completed'', aj_fencingToken := 1, aj_result := Some [],
     aj_completedAt := Some 9\<rparr>"

lemma demo_valid: "isAgentResultValid length (\<lambda>_. Some 2) (JObj [])"
  by (simp add: isAgentResultValid_def MAX_AGENT_RESULT_BYTES_def MAX_AGENT_RESULT_DEPTH_def MAX_AGENT_RESULT_KEYS_def json_record_def isResultValueTooLarge.simps [of _ "JObj []"])

lemma demo_finished:
  "fst (finishAgentJob demo_env ''g'' (hd (ad_jobs demo_applying)) (hd (ad_runs demo_applying)) demo_completion demo_applying) =
     Inr (Some (demo_completed_job, ''applied''))"
  by code_simp

lemma demo_completed:
  "fst (completeAgentJob demo_env True ''g'' ''j'' 1 demo_completion demo_applying demo_applying) = Inr (Some (demo_completed_job, ''applied''))"
proof -
  obtain db' where "finishAgentJob demo_env ''g'' (hd (ad_jobs demo_applying)) (hd (ad_runs demo_applying)) demo_completion demo_applying =
      (Inr (Some (demo_completed_job, ''applied'')), db')"
    using demo_finished by (metis prod.collapse)
  moreover have "db_find (fenced_row ''g'' ''j'' 1) (ad_jobs demo_applying) = Some (hd (ad_jobs demo_applying))"
    "find_run (aj_runId (hd (ad_jobs demo_applying))) demo_applying = Some (hd (ad_runs demo_applying))"
    "db_find (\<lambda>j. canceled_row ''g'' ''j'' 1 j \<and> aj_phase j = ''apply'') (ad_jobs demo_applying) = None"
    by code_simp+
  moreover have "invalidCompletionReason length (\<lambda>_. Some 2) (hd (ad_jobs demo_applying)) (Some (hd (ad_runs demo_applying))) demo_completion
      (expectedStatus (aj_phase (hd (ad_jobs demo_applying)))) = None"
    by (simp add: invalidCompletionReason_def demo_valid demo_applying_def demo_candidate_def apply_job_def demo_completion_def expectedStatus_def)
  ultimately show ?thesis
    by (simp add: completeAgentJob_def completeAgentJobInTransaction_def canceledApplyRecoveryRunId_def Let_def demo_env_def)
qed

theorem completed_apply_publishes_state_witness:
  "\<exists>db'. completeAgentJob demo_env True ''g'' ''j'' 1 demo_completion demo_applying demo_applying = (Inr (Some (demo_completed_job, ''applied'')), db') \<and>
    (\<exists>v \<in> set (st_versions (ad_store db')). sv_runId v = Some ''r'' \<and> sv_status v = Sv_finalized)"
proof -
  obtain db' where d: "completeAgentJob demo_env True ''g'' ''j'' 1 demo_completion demo_applying demo_applying = (Inr (Some (demo_completed_job, ''applied'')), db')"
    using demo_completed by (metis prod.collapse)
  from completed_apply_publishes_state [OF d] d show ?thesis by (auto simp: demo_completed_job_def demo_candidate_def apply_job_def)
qed

end
