(* ===== verification/UrlSafety.thy ===== *)
theory UrlSafety imports JsValues "HOL-Library.Word" begin

text \<open>
  Outbound addresses and client addresses: \<open>lib/url-safety.ts\<close>, \<open>validateExternalUrl\<close> of
  \<open>lib/utils.ts\<close> and \<open>lib/client-ip.ts\<close>. IPv4 addresses are 32-bit words with the shifts and masks of the
  code. \<open>new URL\<close> is the argument \<open>parse\<close> (\<open>None\<close> where it throws), the DNS lookup the argument
  \<open>resolve\<close> (\<open>None\<close> where it rejects or runs into the timeout), the two lists of
  the operator's egress policy the argument \<open>outbound_allowlist\<close>. \<open>net.isIP\<close> is written out from its documentation.
\<close>

unbundle bit_operations_syntax

type_synonym u32 = "32 word"

section \<open>IPv4\<close>

text \<open>The regular expression \<open>V4_OCTET\<close>, one equation per length.\<close>

fun v4_octet :: "string \<Rightarrow> bool" where
  "v4_octet [a] \<longleftrightarrow> is_digit a"
| "v4_octet [a, b] \<longleftrightarrow> 49 \<le> ord_of a \<and> ord_of a \<le> 57 \<and> is_digit b"
| "v4_octet [a, b, c] \<longleftrightarrow>
     ord_of a = 50 \<and> ord_of b = 53 \<and> 48 \<le> ord_of c \<and> ord_of c \<le> 53 \<or>
     ord_of a = 50 \<and> 48 \<le> ord_of b \<and> ord_of b \<le> 52 \<and> is_digit c \<or>
     ord_of a = 49 \<and> is_digit b \<and> is_digit c"
| "v4_octet _ \<longleftrightarrow> False"

text \<open>\<open>Number\<close> of a string of decimal digits.\<close>

definition digits_value :: "string \<Rightarrow> nat" where
  "digits_value s = foldl (\<lambda>n c. 10 * n + (ord_of c - 48)) 0 s"

definition quad :: "nat \<Rightarrow> nat \<Rightarrow> nat \<Rightarrow> nat \<Rightarrow> u32" where
  "quad a b c d = push_bit 24 (of_nat a) OR push_bit 16 (of_nat b) OR push_bit 8 (of_nat c) OR of_nat d"

definition v4ToNumber :: "string list \<Rightarrow> u32 option" where
  "v4ToNumber parts = (case parts of
     [a, b, c, d] \<Rightarrow>
       if list_all v4_octet parts then Some (quad (digits_value a) (digits_value b) (digits_value c) (digits_value d))
       else None
   | _ \<Rightarrow> None)"

text \<open>\<open>(~0 << k) >>> 0\<close> and \<open>((~0 >>> k) << k) >>> 0\<close>\<close>

definition inV4Cidr :: "u32 \<Rightarrow> u32 \<Rightarrow> nat \<Rightarrow> bool" where
  "inV4Cidr n base bits =
     (let mask = (if bits = 0 then 0 else push_bit (32 - bits) (-1)) in n AND mask = base)"

definition PRIVATE_V4_CIDRS :: "(u32 \<times> nat) list" where
  "PRIVATE_V4_CIDRS = [
     (0x7f000000, 8), (0x0a000000, 8), (0xac100000, 12), (0xc0a80000, 16), (0xa9fe0000, 16),
     (0x64400000, 10), (0xc0000200, 24), (0xc6120000, 15), (0xc6336400, 24), (0xcb007100, 24),
     (0xe0000000, 4), (0xf0000000, 4), (0xc0000000, 24)]"

definition isPrivateV4 :: "u32 \<Rightarrow> bool" where
  "isPrivateV4 n \<longleftrightarrow> n = 0 \<or> list_ex (\<lambda>(base, bits). inV4Cidr n base bits) PRIVATE_V4_CIDRS"

text \<open>The regular expression of a prefix length, 0 to 32 without leading zeros.\<close>

fun prefix_length :: "string \<Rightarrow> nat option" where
  "prefix_length [a] = (if is_digit a then Some (digits_value [a]) else None)"
| "prefix_length [a, b] =
     (if (ord_of a = 49 \<or> ord_of a = 50) \<and> is_digit b \<or> ord_of a = 51 \<and> 48 \<le> ord_of b \<and> ord_of b \<le> 50
      then Some (digits_value [a, b]) else None)"
| "prefix_length _ = None"

text \<open>\<open>host.replace(/^::ffff:/i, "")\<close>\<close>

definition strip_mapped :: "string \<Rightarrow> string" where
  "strip_mapped host = (if to_lower (take 7 host) = ''::ffff:'' then drop 7 host else host)"

definition cidr_bits :: "string list \<Rightarrow> nat option" where
  "cidr_bits parts = (case parts of [_] \<Rightarrow> Some 32 | [_, prefix] \<Rightarrow> prefix_length prefix | _ \<Rightarrow> None)"

definition isIPv4InCidr :: "string \<Rightarrow> string \<Rightarrow> bool" where
  "isIPv4InCidr host cidr =
     (let parts = split_on (CHR ''/'') cidr in
      case cidr_bits parts of
        None \<Rightarrow> False
      | Some bits \<Rightarrow>
          (case (v4ToNumber (split_on (CHR ''.'') (strip_mapped host)), v4ToNumber (split_on (CHR ''.'') (hd parts))) of
             (Some h, Some b) \<Rightarrow>
               let mask = (if bits = 0 then 0 else push_bit (32 - bits) (drop_bit (32 - bits) (-1))) in
               h AND mask = b AND mask
           | _ \<Rightarrow> False))"

record outbound_allowlist =
  al_hosts :: "string list"
  al_cidrs :: "string list"

definition strip_dot :: "string \<Rightarrow> string" where
  "strip_dot s = (if s \<noteq> [] \<and> last s = CHR ''.'' then butlast s else s)"

definition allowlistAllows :: "string \<Rightarrow> string list \<Rightarrow> outbound_allowlist \<Rightarrow> bool" where
  "allowlistAllows hostname addresses al =
     (let host = strip_dot (to_lower hostname) in
      list_ex (\<lambda>allowed. host = allowed \<or> ends_with (CHR ''.'' # allowed) host) (al_hosts al) \<or>
      list_ex (\<lambda>cidr. list_ex (\<lambda>address. isIPv4InCidr address cidr) (hostname # addresses)) (al_cidrs al))"

definition outboundAllowlistAllows :: "outbound_allowlist \<Rightarrow> string \<Rightarrow> string list \<Rightarrow> bool" where
  "outboundAllowlistAllows al hostname addresses = allowlistAllows hostname addresses al"


section \<open>IPv6\<close>

text \<open>\<open>split("::")\<close>\<close>

fun split_double :: "string \<Rightarrow> string list" where
  "split_double (a # b # s) =
     (if a = CHR '':'' \<and> b = CHR '':'' then [] # split_double s
      else case split_double (b # s) of [] \<Rightarrow> [[a]] | w # ws \<Rightarrow> (a # w) # ws)"
| "split_double [a] = [[a]]"
| "split_double [] = [[]]"

definition hextets_of :: "string \<Rightarrow> string list" where
  "hextets_of s = (if s = [] then [] else split_on (CHR '':'') s)"

definition expandHextets :: "string list \<Rightarrow> string list option" where
  "expandHextets parts = (case parts of
     [headPart, tailPart] \<Rightarrow>
       (let h = hextets_of headPart; t = hextets_of tailPart in
        if 8 \<le> length h + length t then None
        else Some (h @ replicate (8 - length h - length t) ''0'' @ t))
   | _ \<Rightarrow>
       (let hextets = (case parts of [] \<Rightarrow> [] | body # _ \<Rightarrow> hextets_of body) in
        if length hextets = 8 then Some hextets else None))"

definition is_hextet_digit :: "char \<Rightarrow> bool" where
  "is_hextet_digit c \<longleftrightarrow> is_digit c \<or> 97 \<le> ord_of c \<and> ord_of c \<le> 102"

definition v6_hextet :: "string \<Rightarrow> bool" where
  "v6_hextet s \<longleftrightarrow> 1 \<le> length s \<and> length s \<le> 4 \<and> list_all is_hextet_digit s"

text \<open>\<open>Number.parseInt(h, 16)\<close> of a string that matches \<open>V6_HEXTET\<close>\<close>

definition hex_value :: "string \<Rightarrow> nat" where
  "hex_value s = foldl (\<lambda>n c. 16 * n + (if is_digit c then ord_of c - 48 else ord_of c - 87)) 0 s"

definition isEmbeddedIpv4Private :: "string list \<Rightarrow> bool option" where
  "isEmbeddedIpv4Private hextets =
     (let final = last hextets in
      if CHR ''.'' \<notin> set final then None
      else if \<not> list_all v6_hextet (butlast hextets) then Some True
      else case v4ToNumber (split_on (CHR ''.'') final) of None \<Rightarrow> Some True | Some n \<Rightarrow> Some (isPrivateV4 n))"

definition isSpecialV6Private :: "string list \<Rightarrow> bool" where
  "isSpecialV6Private hextets \<longleftrightarrow>
     list_all (\<lambda>h. h = ''0'') hextets \<or>
     list_all (\<lambda>h. h = ''0'') (take 7 hextets) \<and> hextets ! 7 = ''1'' \<or>
     (let first = (of_nat (hex_value (hextets ! 0)) :: u32) in
      first AND 0xfe00 = 0xfc00 \<or> first AND 0xffc0 = 0xfe80 \<or> first AND 0xff00 = 0xff00)"

definition isPrivateV6 :: "string \<Rightarrow> bool" where
  "isPrivateV6 host = (case expandHextets (split_double (to_lower host)) of
     None \<Rightarrow> True
   | Some hextets \<Rightarrow>
       (case isEmbeddedIpv4Private hextets of
          Some embedded \<Rightarrow> embedded
        | None \<Rightarrow>
            if \<not> list_all v6_hextet hextets then True
            else if isSpecialV6Private hextets then True
            else isPrivateV4 (push_bit 16 (of_nat (hex_value (hextets ! 6))) OR of_nat (hex_value (hextets ! 7)))))"


section \<open>Classification of host names\<close>

datatype url_error = Invalid_url | Bad_protocol | Has_credentials | Private_address | Not_resolved

definition normalizeHost :: "string \<Rightarrow> string" where
  "normalizeHost hostname =
     (let host = strip_dot hostname in
      if starts_with ''['' host \<and> ends_with '']'' host then butlast (tl host) else host)"

definition isBareNumericPrivate :: "string \<Rightarrow> bool" where
  "isBareNumericPrivate host \<longleftrightarrow> host \<noteq> [] \<and> list_all is_digit host \<and>
     (let n = digits_value host in 0 < n \<and> n \<le> 0xffffffff \<and> isPrivateV4 (of_nat n))"

definition isQuadPrivate :: "string \<Rightarrow> bool" where
  "isQuadPrivate host \<longleftrightarrow> (case v4ToNumber (split_on (CHR ''.'') host) of None \<Rightarrow> False | Some n \<Rightarrow> isPrivateV4 n)"

definition privateHostReason :: "string \<Rightarrow> url_error option" where
  "privateHostReason hostname =
     (if hostname = [] then None
      else
        let host = normalizeHost hostname in
        if CHR '':'' \<in> set host then (if isPrivateV6 host then Some Private_address else None)
        else if to_lower host = ''localhost'' then Some Private_address
        else if isQuadPrivate host then Some Private_address
        else if length (split_on (CHR ''.'') host) = 1 \<and> isBareNumericPrivate host then Some Private_address
        else None)"

definition privateAddress :: "string \<Rightarrow> bool" where
  "privateAddress ip =
     (if CHR '':'' \<in> set ip then isPrivateV6 ip
      else case v4ToNumber (split_on (CHR ''.'') ip) of None \<Rightarrow> False | Some n \<Rightarrow> isPrivateV4 n)"

text \<open>
  \<open>net.isIP\<close>: 4 for four octets, 6 for at most eight groups of hexadecimal digits with at most one \<open>::\<close>,
  the last two groups possibly as four octets, and a zone after \<open>%\<close>.
\<close>

definition v6_groups :: "string \<Rightarrow> nat option" where
  "v6_groups s =
     (let gs = hextets_of s; hex = (\<lambda>g. v6_hextet (to_lower g)) in
      if list_all hex gs then Some (length gs)
      else if list_all hex (butlast gs) \<and> v4ToNumber (split_on (CHR ''.'') (last gs)) \<noteq> None then Some (length gs + 1)
      else None)"

definition is_v6 :: "string \<Rightarrow> bool" where
  "is_v6 s \<longleftrightarrow>
     (let host = takeWhile (\<lambda>c. c \<noteq> CHR ''%'') s; zone = drop (length host) s in
      (zone = [] \<or> 2 \<le> length zone \<and> list_all (\<lambda>c. is_alnum c \<or> c \<in> {CHR ''-'', CHR ''.'', CHR '':''}) (tl zone)) \<and>
      (case split_double host of
         [whole] \<Rightarrow> v6_groups whole = Some 8
       | [left, right] \<Rightarrow>
           list_all (\<lambda>g. v6_hextet (to_lower g)) (hextets_of left) \<and>
           (case v6_groups right of None \<Rightarrow> False | Some k \<Rightarrow> length (hextets_of left) + k \<le> 7)
       | _ \<Rightarrow> False))"

definition isIP :: "string \<Rightarrow> nat" where
  "isIP s = (if v4ToNumber (split_on (CHR ''.'') s) \<noteq> None then 4 else if is_v6 s then 6 else 0)"

definition resolvedAddressesError :: "string list \<Rightarrow> bool \<Rightarrow> url_error option" where
  "resolvedAddressesError ips allowPrivate =
     (if ips = [] \<or> list_ex (\<lambda>ip. isIP ip = 0) ips then Some Not_resolved
      else if allowPrivate then None
      else if list_ex privateAddress ips then Some Private_address else None)"


section \<open>External URLs\<close>

record url =
  url_protocol :: string
  url_username :: string
  url_password :: string
  url_hostname :: string
  url_href :: string

record resolved_url =
  ru_address :: string
  ru_url :: string

text \<open>\<open>hostname.replace(/^\[|\]$/g, "")\<close>\<close>

definition strip_brackets :: "string \<Rightarrow> string" where
  "strip_brackets s =
     (let t = (if starts_with ''['' s then tl s else s) in
      if t \<noteq> [] \<and> last t = CHR '']'' then butlast t else t)"

definition http_protocol :: "string \<Rightarrow> bool" where
  "http_protocol p \<longleftrightarrow> p = ''http:'' \<or> p = ''https:''"

definition validateExternalUrl :: "(string \<Rightarrow> url option) \<Rightarrow> outbound_allowlist \<Rightarrow> string \<Rightarrow> bool \<Rightarrow> url_error option" where
  "validateExternalUrl parse al url allowPrivate = (case parse url of
     None \<Rightarrow> Some Invalid_url
   | Some parsed \<Rightarrow>
       if \<not> http_protocol (url_protocol parsed) then Some Bad_protocol
       else if \<not> allowPrivate \<and> outboundAllowlistAllows al (url_hostname parsed) [] then None
       else if \<not> allowPrivate then privateHostReason (url_hostname parsed)
       else None)"

definition validateExternalUrlResolved ::
    "(string \<Rightarrow> url option) \<Rightarrow> string \<Rightarrow> bool \<Rightarrow> (string \<Rightarrow> string list option) \<Rightarrow> url_error option" where
  "validateExternalUrlResolved parse url allowPrivate resolve = (case parse url of
     None \<Rightarrow> Some Invalid_url
   | Some parsed \<Rightarrow>
       if \<not> http_protocol (url_protocol parsed) then Some Bad_protocol
       else if allowPrivate then None
       else case privateHostReason (url_hostname parsed) of
         Some reason \<Rightarrow> Some reason
       | None \<Rightarrow>
           (case resolve (strip_brackets (url_hostname parsed)) of
              None \<Rightarrow> Some Not_resolved
            | Some ips \<Rightarrow> resolvedAddressesError ips False))"

definition validateExternalProtocol :: "url \<Rightarrow> url_error option" where
  "validateExternalProtocol parsed =
     (if \<not> http_protocol (url_protocol parsed) then Some Bad_protocol
      else if url_username parsed \<noteq> [] \<or> url_password parsed \<noteq> [] then Some Has_credentials
      else None)"

definition resolveExternalAddresses :: "string \<Rightarrow> (string \<Rightarrow> string list option) \<Rightarrow> url_error + string list" where
  "resolveExternalAddresses hostname resolve =
     (if isIP hostname = 0
      then (case resolve hostname of None \<Rightarrow> Inl Not_resolved | Some ips \<Rightarrow> Inr ips)
      else Inr [hostname])"

definition checkLiteralPrivate :: "string \<Rightarrow> bool \<Rightarrow> outbound_allowlist \<Rightarrow> url_error option" where
  "checkLiteralPrivate hostname allowPrivate al =
     (let cleanHostname = strip_brackets hostname in
      if \<not> allowPrivate \<and> privateHostReason hostname \<noteq> None \<and> \<not> allowlistAllows cleanHostname [cleanHostname] al
      then privateHostReason hostname else None)"

definition checkResolvedPrivate :: "string \<Rightarrow> string list \<Rightarrow> bool \<Rightarrow> outbound_allowlist \<Rightarrow> url_error option" where
  "checkResolvedPrivate hostname addresses allowPrivate al =
     (if allowPrivate then None
      else if list_ex (\<lambda>candidate. privateAddress candidate \<and> \<not> allowlistAllows hostname [candidate] al) addresses
      then Some Private_address else None)"

text \<open>\<open>test_transport\<close>: the process runs the tests and a test has set its own transport.\<close>

definition resolveExternalUrl ::
    "(string \<Rightarrow> url option) \<Rightarrow> bool \<Rightarrow> outbound_allowlist \<Rightarrow> string \<Rightarrow> bool \<Rightarrow> (string \<Rightarrow> string list option) \<Rightarrow>
     url_error + resolved_url" where
  "resolveExternalUrl parse test_transport al url allowPrivate resolve = (case parse url of
     None \<Rightarrow> Inl Invalid_url
   | Some parsed \<Rightarrow>
       (case validateExternalProtocol parsed of
          Some e \<Rightarrow> Inl e
        | None \<Rightarrow>
            let cleanHostname = strip_brackets (url_hostname parsed) in
            case checkLiteralPrivate (url_hostname parsed) allowPrivate al of
              Some e \<Rightarrow> Inl e
            | None \<Rightarrow>
                if test_transport then Inr \<lparr>ru_address = ''127.0.0.1'', ru_url = url_href parsed\<rparr>
                else case resolveExternalAddresses cleanHostname resolve of
                  Inl e \<Rightarrow> Inl e
                | Inr addresses \<Rightarrow>
                    (case resolvedAddressesError addresses True of
                       Some e \<Rightarrow> Inl e
                     | None \<Rightarrow>
                         (case checkResolvedPrivate cleanHostname addresses allowPrivate al of
                            Some e \<Rightarrow> Inl e
                          | None \<Rightarrow>
                              (case addresses of
                                 [] \<Rightarrow> Inl Not_resolved
                               | address # _ \<Rightarrow> Inr \<lparr>ru_address = address, ru_url = url_href parsed\<rparr>)))))"


section \<open>Client addresses\<close>

text \<open>The two cached lists of \<open>lib/client-ip.ts\<close>.\<close>

record trusted_proxies =
  tp_headers :: "string list"
  tp_cidrs :: "string list"

definition non_blank_strings :: "json option \<Rightarrow> string list" where
  "non_blank_strings v = (case v of
     Some (JArr xs) \<Rightarrow> filter (\<lambda>s. js_trim s \<noteq> []) (List.map_filter (\<lambda>x. case x of JStr s \<Rightarrow> Some s | _ \<Rightarrow> None) xs)
   | _ \<Rightarrow> [])"

text \<open>\<open>general\<close>: the settings group, \<open>None\<close> where reading it throws; \<open>default_cidrs\<close>: the network setting.\<close>

definition refreshTrustedClientIpHeaders :: "(string, json) js_map option \<Rightarrow> string list \<Rightarrow> trusted_proxies" where
  "refreshTrustedClientIpHeaders general default_cidrs = (case general of
     None \<Rightarrow> \<lparr>tp_headers = [], tp_cidrs = []\<rparr>
   | Some m \<Rightarrow>
       let cidrs = non_blank_strings (js_get m ''trusted-client-ip-cidrs'') in
       \<lparr>tp_headers = non_blank_strings (js_get m ''trusted-client-ip-headers''),
        tp_cidrs = (if cidrs \<noteq> [] then cidrs else default_cidrs)\<rparr>)"

definition trustedProxy :: "trusted_proxies \<Rightarrow> string option \<Rightarrow> bool" where
  "trustedProxy tp peer = (case peer of None \<Rightarrow> False | Some p \<Rightarrow> list_ex (isIPv4InCidr p) (tp_cidrs tp))"

type_synonym headers = "string \<Rightarrow> string option"

definition headerValue :: "headers \<Rightarrow> string \<Rightarrow> string option" where
  "headerValue hs name = (case hs name of
     None \<Rightarrow> None
   | Some v \<Rightarrow> if v = [] then None else Some (js_trim (hd (split_on (CHR '','') v))))"

fun first_header :: "headers \<Rightarrow> string list \<Rightarrow> string option" where
  "first_header hs [] = None"
| "first_header hs (name # names) = (case headerValue hs name of Some v \<Rightarrow> Some v | None \<Rightarrow> first_header hs names)"

definition trustedHeaderValue :: "trusted_proxies \<Rightarrow> headers \<Rightarrow> string option" where
  "trustedHeaderValue tp hs = first_header hs (tp_headers tp)"

text \<open>\<open>socket\<close>: the address \<open>server.requestIP\<close> reports, \<open>None\<close> where there is none or it throws.\<close>

definition peerAddress :: "string option \<Rightarrow> string option" where
  "peerAddress socket = (case socket of None \<Rightarrow> None | Some a \<Rightarrow> if a = [] then None else Some a)"

definition trustedClientIpForPeer :: "trusted_proxies \<Rightarrow> headers \<Rightarrow> string option \<Rightarrow> string option" where
  "trustedClientIpForPeer tp hs peer = (if trustedProxy tp peer then trustedHeaderValue tp hs else None)"

definition trustedForwardedProtocol :: "trusted_proxies \<Rightarrow> headers \<Rightarrow> string option \<Rightarrow> string option" where
  "trustedForwardedProtocol tp hs socket =
     (if \<not> trustedProxy tp (peerAddress socket) then None
      else map_option to_lower (headerValue hs ''x-forwarded-proto''))"

definition resolveClientIp :: "trusted_proxies \<Rightarrow> headers \<Rightarrow> string option \<Rightarrow> string option" where
  "resolveClientIp tp hs socket = (case peerAddress socket of
     None \<Rightarrow> None
   | Some peer \<Rightarrow>
       if tp_headers tp \<noteq> [] \<and> trustedProxy tp (Some peer)
       then (case trustedHeaderValue tp hs of Some v \<Rightarrow> Some v | None \<Rightarrow> Some peer)
       else Some peer)"


section \<open>Blocks of addresses\<close>

lemma v4_octet_less: "v4_octet s \<Longrightarrow> digits_value s < 256"
  by (induction s rule: v4_octet.induct) (auto simp: digits_value_def is_digit_def)

lemma mask_high: "n AND push_bit k (-1) = push_bit k (drop_bit k (n :: u32))"
  by (rule bit_word_eqI) (auto simp: bit_simps)

lemma no_high_bit: "y < 2 ^ k \<Longrightarrow> k \<le> n \<Longrightarrow> \<not> bit (y :: nat) n"
proof -
  assume "y < 2 ^ k" "k \<le> n"
  then have "y < 2 ^ n" by (meson le_trans less_le_trans linorder_not_le one_le_numeral power_increasing)
  then show ?thesis by (simp add: bit_iff_odd)
qed

lemma push_bit_or_add:
  assumes "y < 2 ^ k"
  shows "push_bit k x OR y = x * 2 ^ k + (y :: nat)"
proof -
  have "push_bit k x AND y = 0"
    using assms by (intro bit_eqI) (auto simp: bit_simps no_high_bit)
  then show ?thesis by (simp add: disjunctive_add_eq_or [symmetric] push_bit_eq_mult)
qed

lemma quad_of_nat:
  assumes "b < 256" "c < 256" "d < 256"
  shows "quad a b c d = of_nat (a * 2 ^ 24 + b * 2 ^ 16 + c * 2 ^ 8 + d)"
proof -
  have cd: "push_bit 8 c OR d = c * 2 ^ 8 + d" using assms by (intro push_bit_or_add) simp
  have bcd: "push_bit 16 b OR (c * 2 ^ 8 + d) = b * 2 ^ 16 + (c * 2 ^ 8 + d)"
    using assms by (intro push_bit_or_add) simp
  have abcd: "push_bit 24 a OR (b * 2 ^ 16 + (c * 2 ^ 8 + d)) = a * 2 ^ 24 + (b * 2 ^ 16 + (c * 2 ^ 8 + d))"
    using assms by (intro push_bit_or_add) simp
  have "quad a b c d = of_nat (push_bit 24 a OR (push_bit 16 b OR (push_bit 8 c OR d)))"
    by (simp add: quad_def of_nat_or_eq push_bit_of_nat or.assoc)
  then show ?thesis by (simp only: cd bcd abcd add.assoc)
qed

lemma unat_quad:
  assumes "a < 256" "b < 256" "c < 256" "d < 256"
  shows "unat (quad a b c d) = a * 2 ^ 24 + b * 2 ^ 16 + c * 2 ^ 8 + d"
  unfolding quad_of_nat [OF assms(2-4)] unsigned_of_nat
  using assms by (simp only: of_nat_id) (intro take_bit_nat_eq_self, simp)

text \<open>The mask selects an aligned block of addresses.\<close>

lemma unat_drop_bit: "unat (drop_bit k (x :: u32)) = unat x div 2 ^ k"
  proof -
  have "take_bit 32 (unat x) = unat x" using unsigned_less [of x] by (intro take_bit_nat_eq_self) simp
  then show ?thesis by (simp add: unsigned_drop_bit_eq drop_bit_eq_div [of _ "unat x"] del: drop_bit_eq_div)
qed

lemma drop_bit_eq_iff_div: "drop_bit k x = drop_bit k y \<longleftrightarrow> unat (x :: u32) div 2 ^ k = unat y div 2 ^ k"
  by (simp only: word_unat_eq_iff unat_drop_bit)

lemma mask_eq_iff_block: "x AND push_bit k (-1) = y AND push_bit k (-1) \<longleftrightarrow> drop_bit k x = drop_bit k (y :: u32)"
proof
  assume "x AND push_bit k (-1) = y AND push_bit k (-1)"
  then have "drop_bit k (x AND push_bit k (-1)) = drop_bit k (y AND push_bit k (-1))" by simp
  moreover have "drop_bit k (z AND push_bit k (-1)) = drop_bit k z" for z :: u32
    by (rule bit_word_eqI) (auto simp: bit_simps dest: bit_imp_le_length)
  ultimately show "drop_bit k x = drop_bit k y" by simp
qed (simp only: mask_high)

lemma inV4Cidr_iff:
  assumes "bits \<le> 32" "2 ^ (32 - bits) dvd unat base"
  shows "inV4Cidr n base bits \<longleftrightarrow> unat n div 2 ^ (32 - bits) = unat base div 2 ^ (32 - bits)"
proof -
  obtain q where q: "unat base = 2 ^ (32 - bits) * q" using assms(2) by blast
  have base: "push_bit (32 - bits) (drop_bit (32 - bits) base) = base"
  proof (rule word_unat_eq_iff [THEN iffD2])
    have "q * 2 ^ (32 - bits) < 2 ^ 32" using unsigned_less [of base, where ?'a = nat] q by (simp add: mult.commute)
    then show "unat (push_bit (32 - bits) (drop_bit (32 - bits) base)) = unat base"
      unfolding unsigned_push_bit_eq unat_drop_bit q by (simp add: push_bit_eq_mult take_bit_nat_eq_self mult.commute)
  qed
  show ?thesis
  proof (cases "bits = 0")
    case True
    then show ?thesis using assms(2) unsigned_less [of base, where ?'a = nat] unsigned_less [of n, where ?'a = nat]
      by (auto simp: inV4Cidr_def word_unat_eq_iff)
  next
    case False
    have "inV4Cidr n base bits \<longleftrightarrow> n AND push_bit (32 - bits) (-1) = base AND push_bit (32 - bits) (-1)"
      using False base by (simp only: inV4Cidr_def Let_def if_False mask_high)
    then show ?thesis by (simp only: mask_eq_iff_block drop_bit_eq_iff_div)
  qed
qed

definition reserved_quad :: "nat \<Rightarrow> nat \<Rightarrow> nat \<Rightarrow> nat \<Rightarrow> bool" where
  "reserved_quad a b c d \<longleftrightarrow>
     a = 0 \<and> b = 0 \<and> c = 0 \<and> d = 0 \<or> a = 127 \<or> a = 10 \<or> a = 172 \<and> 16 \<le> b \<and> b \<le> 31 \<or> a = 192 \<and> b = 168 \<or>
     a = 169 \<and> b = 254 \<or> a = 100 \<and> 64 \<le> b \<and> b \<le> 127 \<or> a = 192 \<and> b = 0 \<and> c = 2 \<or> a = 198 \<and> (b = 18 \<or> b = 19) \<or>
     a = 198 \<and> b = 51 \<and> c = 100 \<or> a = 203 \<and> b = 0 \<and> c = 113 \<or> a = 192 \<and> b = 0 \<and> c = 0 \<or> 224 \<le> a"

lemma isPrivateV4_div:
  "isPrivateV4 n \<longleftrightarrow> unat n = 0 \<or> unat n div 2 ^ 24 = 127 \<or> unat n div 2 ^ 24 = 10 \<or> unat n div 2 ^ 20 = 2753 \<or>
     unat n div 2 ^ 16 = 49320 \<or> unat n div 2 ^ 16 = 43518 \<or> unat n div 2 ^ 22 = 401 \<or> unat n div 2 ^ 8 = 12582914 \<or>
     unat n div 2 ^ 17 = 25353 \<or> unat n div 2 ^ 8 = 12989284 \<or> unat n div 2 ^ 8 = 13303921 \<or>
     unat n div 2 ^ 8 = 12582912 \<or> unat n div 2 ^ 28 = 14 \<or> unat n div 2 ^ 28 = 15"
  by (simp add: isPrivateV4_def PRIVATE_V4_CIDRS_def inV4Cidr_iff unat_eq_zero disj_commute
      disj_left_commute [of "unat n div 268435456 = 14"] disj_left_commute [of "unat n div 268435456 = 15"])

lemma quad_divs:
  fixes a b c d :: nat
  assumes "a < 256" "b < 256" "c < 256" "d < 256"
  defines "n \<equiv> a * 2 ^ 24 + b * 2 ^ 16 + c * 2 ^ 8 + d"
  shows "n div 2 ^ 24 = a" "n div 2 ^ 16 = a * 256 + b" "n div 2 ^ 8 = a * 65536 + b * 256 + c"
    "n div 2 ^ 20 = a * 16 + b div 16" "n div 2 ^ 22 = a * 4 + b div 64" "n div 2 ^ 17 = a * 128 + b div 2"
    "n div 2 ^ 28 = a div 16"
  using assms by simp_all

lemma digits_eq: "(y :: nat) < k \<Longrightarrow> x * k + y = m \<longleftrightarrow> x = m div k \<and> y = m mod k"
  by auto

lemma isPrivateV4_quad:
  assumes "a < 256" "b < 256" "c < 256" "d < 256"
  shows "isPrivateV4 (quad a b c d) \<longleftrightarrow> reserved_quad a b c d"
proof -
  have small: "b div 16 < 16" "b div 64 < 4" "b div 2 < 128" using assms by auto
  have halves: "b div 16 = 1 \<longleftrightarrow> 16 \<le> b \<and> b \<le> 31" "b div 64 = 1 \<longleftrightarrow> 64 \<le> b \<and> b \<le> 127"
    "b div 2 = 9 \<longleftrightarrow> b = 18 \<or> b = 19" "a div 16 = 14 \<or> a div 16 = 15 \<longleftrightarrow> 224 \<le> a"
    using assms by auto
  have blocks:
    "a * 16 + b div 16 = 2753 \<longleftrightarrow> a = 172 \<and> 16 \<le> b \<and> b \<le> 31"
    "a * 4 + b div 64 = 401 \<longleftrightarrow> a = 100 \<and> 64 \<le> b \<and> b \<le> 127"
    "a * 128 + b div 2 = 25353 \<longleftrightarrow> a = 198 \<and> (b = 18 \<or> b = 19)"
    "a * 256 + b = 49320 \<longleftrightarrow> a = 192 \<and> b = 168" "a * 256 + b = 43518 \<longleftrightarrow> a = 169 \<and> b = 254"
    using assms(2) small by (simp_all only: digits_eq) (simp_all add: halves halves(1,2) [unfolded One_nat_def])
  have three: "a * 65536 + b * 256 + c = m \<longleftrightarrow> a = m div 256 div 256 \<and> b = m div 256 mod 256 \<and> c = m mod 256" for m
  proof -
    have "a * 65536 + b * 256 + c = (a * 256 + b) * 256 + c" by simp
    then show ?thesis by (simp only: digits_eq [OF assms(3)] digits_eq [OF assms(2)]) blast
  qed
  have zero: "a * 2 ^ 24 + b * 2 ^ 16 + c * 2 ^ 8 + d = 0 \<longleftrightarrow> a = 0 \<and> b = 0 \<and> c = 0 \<and> d = 0" by auto
  show ?thesis
    unfolding isPrivateV4_div unat_quad [OF assms] quad_divs [OF assms] blocks three zero halves reserved_quad_def
    by (simp add: halves(4))
qed

text \<open>C40: the configured block of a CIDR contains exactly the IPv4 hosts that agree with its base on the leading
  bits; everything else is outside.
\<close>

theorem isIPv4InCidr_iff:
  "isIPv4InCidr host cidr \<longleftrightarrow> (\<exists>bits h b.
     cidr_bits (split_on (CHR ''/'') cidr) = Some bits \<and>
     v4ToNumber (split_on (CHR ''.'') (strip_mapped host)) = Some h \<and>
     v4ToNumber (split_on (CHR ''.'') (hd (split_on (CHR ''/'') cidr))) = Some b \<and>
     unat h div 2 ^ (32 - bits) = unat b div 2 ^ (32 - bits))"
proof -
  have "push_bit k (drop_bit k (-1)) = push_bit k (-1 :: u32)" for k
    using mask_high [of "-1" k] by (simp only: and.left_neutral)
  then have mask: "h AND push_bit k (drop_bit k (-1)) = b AND push_bit k (drop_bit k (-1)) \<longleftrightarrow>
      unat h div 2 ^ k = unat b div 2 ^ k" for h b :: u32 and k
    by (simp only: mask_eq_iff_block drop_bit_eq_iff_div)
  have small: "unat (h :: u32) < 4294967296" for h using unsigned_less [of h, where ?'a = nat] by simp
  have all: "h AND (if bits = 0 then 0 else push_bit (32 - bits) (drop_bit (32 - bits) (-1))) =
      b AND (if bits = 0 then 0 else push_bit (32 - bits) (drop_bit (32 - bits) (-1))) \<longleftrightarrow>
      unat h div 2 ^ (32 - bits) = unat b div 2 ^ (32 - bits)" for h b :: u32 and bits
    by (cases "bits = 0") (simp add: small, simp only: if_False mask)
  show ?thesis unfolding isIPv4InCidr_def Let_def all by (auto split: option.splits)
qed


section \<open>Accepted targets\<close>

abbreviation dotted :: "string \<Rightarrow> string \<Rightarrow> string \<Rightarrow> string \<Rightarrow> string" where
  "dotted a b c d \<equiv> join_with (CHR ''.'') [a, b, c, d]"

lemma v4_octet_digits: "v4_octet s \<Longrightarrow> c \<in> set s \<Longrightarrow> is_digit c"
  by (induction s rule: v4_octet.induct) (auto simp: is_digit_def)

lemma digit_not [simp]: "is_digit c \<Longrightarrow> c \<noteq> CHR ''.''" "is_digit c \<Longrightarrow> c \<noteq> CHR '':''" "is_digit c \<Longrightarrow> \<not> is_upper c"
  by (auto simp: is_digit_def is_upper_def ord_of_def)

lemma v4_octet_no_sep: "v4_octet s \<Longrightarrow> CHR ''.'' \<notin> set s \<and> CHR '':'' \<notin> set s"
  using v4_octet_digits digit_not by blast

lemma to_lower_digits: "v4_octet s \<Longrightarrow> to_lower s = s"
  unfolding to_lower_def by (rule map_idI) (use v4_octet_digits in fastforce)

lemma split_on_prefix: "d \<notin> set w \<Longrightarrow> split_on d (w @ d # s) = w # split_on d s"
  by (induction w) auto

lemma split_dotted:
  assumes "list_all v4_octet [a, b, c, d]"
  shows "split_on (CHR ''.'') (dotted a b c d) = [a, b, c, d]"
  using assms v4_octet_no_sep by (simp add: split_on_prefix split_on_no_sep)

lemma v4ToNumber_dotted:
  assumes "list_all v4_octet [a, b, c, d]"
  shows "v4ToNumber (split_on (CHR ''.'') (dotted a b c d)) =
    Some (quad (digits_value a) (digits_value b) (digits_value c) (digits_value d))"
  using assms by (simp only: split_dotted) (simp add: v4ToNumber_def)

lemma isPrivateV4_dotted:
  assumes "list_all v4_octet [a, b, c, d]"
  shows "isPrivateV4 (quad (digits_value a) (digits_value b) (digits_value c) (digits_value d)) \<longleftrightarrow>
    reserved_quad (digits_value a) (digits_value b) (digits_value c) (digits_value d)"
  using assms v4_octet_less by (intro isPrivateV4_quad) simp_all

lemma privateAddress_dotted:
  assumes "list_all v4_octet [a, b, c, d]"
  shows "privateAddress (dotted a b c d) \<longleftrightarrow>
    reserved_quad (digits_value a) (digits_value b) (digits_value c) (digits_value d)"
proof -
  have "CHR '':'' \<notin> set (dotted a b c d)" using assms v4_octet_no_sep by auto
  then show ?thesis using v4ToNumber_dotted [OF assms] isPrivateV4_dotted [OF assms]
    by (simp only: privateAddress_def) simp
qed

lemma split_double_no_colon: "CHR '':'' \<notin> set s \<Longrightarrow> split_double s = [s]"
  by (induction s rule: split_double.induct) auto

lemma split_double_Cons: "c \<noteq> CHR '':'' \<Longrightarrow> s \<noteq> [] \<Longrightarrow>
    split_double (c # s) = (case split_double s of [] \<Rightarrow> [[c]] | w # ws \<Rightarrow> (c # w) # ws)"
  by (cases s) auto

lemma split_double_mapped:
  assumes "CHR '':'' \<notin> set q" "q \<noteq> []"
  shows "split_double (''::ffff:'' @ q) = [[], ''ffff:'' @ q]"
proof -
  obtain x xs where q: "q = x # xs" using assms(2) by (cases q) auto
  have "split_double (x # xs) = [x # xs]" using assms(1) unfolding q by (rule split_double_no_colon)
  then show ?thesis using assms(1) by (auto simp: q split_double_Cons)
qed

lemma privateAddress_mapped:
  assumes "list_all v4_octet [a, b, c, d]"
  shows "privateAddress (''::ffff:'' @ dotted a b c d) \<longleftrightarrow>
    reserved_quad (digits_value a) (digits_value b) (digits_value c) (digits_value d)"
proof -
  let ?q = "dotted a b c d"
  have colon: "CHR '':'' \<notin> set ?q" using assms v4_octet_no_sep by auto
  have low: "to_lower ?q = ?q" using assms to_lower_digits by (simp add: to_lower_def is_upper_def ord_of_def)
  have ne: "?q \<noteq> []" by simp
  have dot: "CHR ''.'' \<in> set ?q" by simp
  have "to_lower (''::ffff:'' @ ?q) = ''::ffff:'' @ ?q"
    using low by (simp add: to_lower_def is_upper_def ord_of_def)
  moreover have "split_double (''::ffff:'' @ ?q) = [[], ''ffff:'' @ ?q]"
    using colon ne by (rule split_double_mapped)
  moreover have "hextets_of (''ffff:'' @ ?q) = [''ffff'', ?q]"
    using split_on_prefix [of "CHR '':''" "''ffff''" ?q] split_on_no_sep [OF colon] by (simp add: hextets_of_def)
  ultimately have "expandHextets (split_double (to_lower (''::ffff:'' @ ?q))) = Some (replicate 6 ''0'' @ [''ffff'', ?q])"
    by (simp add: expandHextets_def hextets_of_def)
  moreover have "isEmbeddedIpv4Private (replicate 6 ''0'' @ [''ffff'', ?q]) =
      Some (reserved_quad (digits_value a) (digits_value b) (digits_value c) (digits_value d))"
    using dot v4ToNumber_dotted [OF assms] isPrivateV4_dotted [OF assms]
    by (simp add: isEmbeddedIpv4Private_def butlast_append v6_hextet_def is_hextet_digit_def is_digit_def ord_of_def numeral_eq_Suc
        del: join_with.simps)
  ultimately show ?thesis by (simp add: privateAddress_def isPrivateV6_def)
qed

text \<open>What the checks of \<open>resolveExternalUrl\<close> leave when it returns a target.\<close>

lemma resolveExternalUrl_target:
  assumes "resolveExternalUrl parse False al url allowPrivate resolve = Inr t"
  obtains u rest where "parse url = Some u" "validateExternalProtocol u = None" "ru_url t = url_href u"
    "resolvedAddressesError (ru_address t # rest) True = None"
    "checkResolvedPrivate (strip_brackets (url_hostname u)) (ru_address t # rest) allowPrivate al = None"
    "resolveExternalAddresses (strip_brackets (url_hostname u)) resolve = Inr (ru_address t # rest)"
  using assms by (auto simp: resolveExternalUrl_def Let_def split: option.splits sum.splits if_splits list.splits)


definition demo_parse :: "string \<Rightarrow> url option" where
  "demo_parse s = Some \<lparr>url_protocol = ''https:'', url_username = [], url_password = [],
     url_hostname = ''example.com'', url_href = s\<rparr>"

definition demo_resolve :: "string \<Rightarrow> string list option" where
  "demo_resolve h = (if h = ''example.com'' then Some [''93.184.215.14''] else None)"

lemma demo_target:
  "resolveExternalUrl demo_parse False \<lparr>al_hosts = [], al_cidrs = []\<rparr> ''https://example.com/'' False demo_resolve =
     Inr \<lparr>ru_address = ''93.184.215.14'', ru_url = ''https://example.com/''\<rparr>"
  by code_simp


text \<open>The check with a resolver fails closed: it accepts only after every answer was classified.\<close>

lemma validated_url_resolves_public:
  assumes "validateExternalUrlResolved parse url False resolve = None"
  shows "\<exists>u ips. parse url = Some u \<and> resolve (strip_brackets (url_hostname u)) = Some ips \<and> ips \<noteq> [] \<and>
    (\<forall>ip \<in> set ips. isIP ip \<noteq> 0 \<and> \<not> privateAddress ip)"
  using assms by (auto simp: validateExternalUrlResolved_def resolvedAddressesError_def list_ex_iff
      split: option.splits if_splits)

lemma digit_ends:
  assumes "s \<noteq> []" "is_digit (hd s)" "is_digit (last s)"
  shows "strip_brackets s = s" "normalizeHost s = s" "to_lower s \<noteq> ''localhost''"
proof -
  obtain x xs where s: "s = x # xs" using assms(1) by (cases s) auto
  have "x \<noteq> CHR ''[''" "last (x # xs) \<noteq> CHR '']''" "last (x # xs) \<noteq> CHR ''.''"
    using assms unfolding s by (auto simp: is_digit_def ord_of_def)
  then show "strip_brackets s = s" "normalizeHost s = s"
    unfolding s by (simp_all add: strip_brackets_def normalizeHost_def strip_dot_def starts_with_def Let_def)
  show "to_lower s \<noteq> ''localhost''"
    using assms unfolding s by (auto simp: to_lower_def is_digit_def is_upper_def ord_of_def split: if_splits)
qed

text \<open>A URL that names a public IPv4 address is accepted without a lookup.\<close>

lemma public_literal_accepted:
  assumes "parse url = Some u" "http_protocol (url_protocol u)" "url_username u = []" "url_password u = []"
    and octets: "list_all v4_octet [a, b, c, d]" and host: "url_hostname u = dotted a b c d"
    and free: "\<not> reserved_quad (digits_value a) (digits_value b) (digits_value c) (digits_value d)"
  shows "resolveExternalUrl parse False al url False resolve = Inr \<lparr>ru_address = dotted a b c d, ru_url = url_href u\<rparr>"
proof -
  have digits: "x \<noteq> []" "set x \<subseteq> {c. is_digit c}" if "x \<in> {a, b, c, d}" for x
    using that octets v4_octet_digits by (auto)
  have "dotted a b c d \<noteq> []" "is_digit (last (dotted a b c d))" "is_digit (hd (dotted a b c d))"
    using digits [of a] digits [of d] hd_in_set [of a] last_in_set [of d]
    by (simp_all add: hd_append last_append subset_iff)
  note ends = digit_ends [OF this(1,3,2)]
  have "CHR '':'' \<notin> set (dotted a b c d)" using octets v4_octet_no_sep by auto
  moreover have "\<not> isQuadPrivate (dotted a b c d)"
    using free v4ToNumber_dotted [OF octets] isPrivateV4_dotted [OF octets] by (simp only: isQuadPrivate_def) simp
  ultimately have "privateHostReason (dotted a b c d) = None"
    using split_dotted [OF octets] ends by (simp add: privateHostReason_def Let_def del: join_with.simps)
  moreover have "isIP (dotted a b c d) = 4" using v4ToNumber_dotted [OF octets] by (simp only: isIP_def) simp
  moreover have "\<not> privateAddress (dotted a b c d)" using free privateAddress_dotted [OF octets] by simp
  ultimately show ?thesis
    using assms(1-4) by (simp add: resolveExternalUrl_def validateExternalProtocol_def host ends(1) checkLiteralPrivate_def
        resolveExternalAddresses_def resolvedAddressesError_def checkResolvedPrivate_def Let_def del: join_with.simps)
qed

text \<open>The block 0.0.0.0/8 is rejected at its first address only.\<close>

lemma zero_block_not_covered: "privateAddress ''0.0.0.0'' \<and> \<not> privateAddress ''0.0.0.1'' \<and> \<not> privateAddress ''0.255.0.1''"
  by code_simp

section \<open>Client addresses\<close>

lemma first_header_SomeD: "first_header hs names = Some v \<Longrightarrow> \<exists>name \<in> set names. headerValue hs name = Some v"
  by (induction names) (auto split: option.splits)

text \<open>The address of a request is that of the socket peer unless headers are configured and the peer lies in a
  trusted block; only then a configured header may name another address.
\<close>

theorem client_ip_is_peer_unless_trusted:
  "resolveClientIp tp hs socket =
    (if tp_headers tp \<noteq> [] \<and> (\<exists>peer. socket = Some peer \<and> peer \<noteq> [] \<and> (\<exists>cidr \<in> set (tp_cidrs tp). isIPv4InCidr peer cidr)) \<and>
        (\<exists>name \<in> set (tp_headers tp). headerValue hs name \<noteq> None)
     then headerValue hs (hd (filter (\<lambda>name. headerValue hs name \<noteq> None) (tp_headers tp)))
     else if socket = Some [] then None else socket)"
proof -
  have "first_header hs names = (if \<exists>name \<in> set names. headerValue hs name \<noteq> None
      then headerValue hs (hd (filter (\<lambda>name. headerValue hs name \<noteq> None) names)) else None)" for names
    by (induction names) (auto split: option.splits)
  note first = this [of "tp_headers tp"]
  have "\<exists>y. headerValue hs (hd (filter (\<lambda>name. headerValue hs name \<noteq> None) (tp_headers tp))) = Some y"
    if "\<exists>name \<in> set (tp_headers tp). headerValue hs name \<noteq> None"
    using that hd_in_set [of "filter (\<lambda>name. headerValue hs name \<noteq> None) (tp_headers tp)"]
    by (auto simp: filter_empty_conv)
  then show ?thesis
    using first by (cases "\<exists>name \<in> set (tp_headers tp). headerValue hs name \<noteq> None")
      (auto simp: resolveClientIp_def peerAddress_def trustedProxy_def trustedHeaderValue_def list_ex_iff
        split: option.splits)
qed

end
