(* ===== verification/ApplyGate.thy ===== *)
theory ApplyGate imports RunActions begin

text \<open>
  The site-wide gates before an apply: \<open>lib/operations.ts\<close>. Times are milliseconds since the epoch.
  The time zone database is the argument \<open>zone\<close>, the day of the week and the minute of the day
  a zone shows at a time (\<open>None\<close> where \<open>Intl.DateTimeFormat\<close> rejects the zone); the state of the storage is the argument
  \<open>degraded\<close>. A maintenance window is the JSON object the settings hold; a member of the list that is no object has
  no members.
\<close>

section \<open>Maintenance windows\<close>

type_synonym settings = "(string, json) js_map"
type_synonym zone_clock = "string \<Rightarrow> int \<Rightarrow> (int \<times> int) option"

definition windowDayNumbers :: "settings \<Rightarrow> int list" where
  "windowDayNumbers window = (case js_get window ''days'' of
     Some (JArr days) \<Rightarrow>
       js_sort (\<lambda>a b. a - b) (filter (\<lambda>day. 0 \<le> day \<and> day \<le> 6)
         (List.map_filter (\<lambda>d. case d of JNum n \<Rightarrow> js_safe_integer n | _ \<Rightarrow> None) days))
   | _ \<Rightarrow> [])"

definition digits_number :: "string \<Rightarrow> int" where
  "digits_number s = foldl (\<lambda>n c. 10 * n + (int (ord_of c) - 48)) 0 s"

definition clock_parts :: "string \<Rightarrow> (string \<times> string) option" where
  "clock_parts s = (case split_on (CHR '':'') s of
     [h, m] \<Rightarrow> if (length h = 1 \<or> length h = 2) \<and> length m = 2 \<and> list_all is_digit (h @ m) then Some (h, m) else None
   | _ \<Rightarrow> None)"

definition windowMinutes :: "json option \<Rightarrow> int option" where
  "windowMinutes value = (case json_string value of
     None \<Rightarrow> None
   | Some s \<Rightarrow> (case clock_parts s of
       None \<Rightarrow> None
     | Some (h, m) \<Rightarrow>
         let hours = digits_number h; minutes = digits_number m in
         if hours < 0 \<or> 23 < hours \<or> minutes < 0 \<or> 59 < minutes then None else Some (hours * 60 + minutes)))"

text \<open>\<open>getUTCDay\<close>, and the hours and minutes of the UTC day in minutes.\<close>

definition utc_day :: "int \<Rightarrow> int" where
  "utc_day t = (t div 86400000 + 4) mod 7"

definition utc_minutes :: "int \<Rightarrow> int" where
  "utc_minutes t = t div 60000 mod 1440"

definition window_zone :: "settings \<Rightarrow> string" where
  "window_zone window = (case json_string (js_get window ''timezone'') of
     Some tz \<Rightarrow> if tz \<noteq> [] then tz else ''UTC''
   | None \<Rightarrow> ''UTC'')"

definition localDayAndMinutes :: "zone_clock \<Rightarrow> settings \<Rightarrow> int \<Rightarrow> int \<times> int" where
  "localDayAndMinutes zone window now = (case zone (window_zone window) now of
     Some local \<Rightarrow> local
   | None \<Rightarrow> (utc_day now, utc_minutes now))"

definition inMaintenanceWindow :: "zone_clock \<Rightarrow> settings \<Rightarrow> int \<Rightarrow> bool" where
  "inMaintenanceWindow zone window now =
     (let days = windowDayNumbers window in
      case (windowMinutes (js_get window ''start-time''), windowMinutes (js_get window ''end-time'')) of
        (Some start, Some end_at) \<Rightarrow>
          if days = [] then False
          else
            let (day, minutes) = localDayAndMinutes zone window now in
            if start < end_at then day \<in> set days \<and> start \<le> minutes \<and> minutes < end_at
            else if day \<in> set days \<and> start \<le> minutes then True
            else (day + 6) mod 7 \<in> set days \<and> minutes < end_at
      | _ \<Rightarrow> False)"

definition isValidMaintenanceWindow :: "settings \<Rightarrow> bool" where
  "isValidMaintenanceWindow window \<longleftrightarrow>
     windowDayNumbers window \<noteq> [] \<and>
     windowMinutes (js_get window ''start-time'') \<noteq> None \<and> windowMinutes (js_get window ''end-time'') \<noteq> None"

definition is_enabled :: "settings \<Rightarrow> bool" where
  "is_enabled settings \<longleftrightarrow> js_get settings ''enabled'' = Some (JBool True)"

definition windows_of :: "settings \<Rightarrow> settings list" where
  "windows_of settings = (case js_get settings ''windows'' of
     Some (JArr windows) \<Rightarrow> map (\<lambda>w. js_default (json_record w) []) windows
   | _ \<Rightarrow> [])"

definition some_window_open :: "zone_clock \<Rightarrow> settings \<Rightarrow> int \<Rightarrow> bool" where
  "some_window_open zone settings now = list_ex (\<lambda>window. inMaintenanceWindow zone window now) (windows_of settings)"

definition maintenanceWindowsBlockApply :: "zone_clock \<Rightarrow> settings \<Rightarrow> int \<Rightarrow> bool" where
  "maintenanceWindowsBlockApply zone settings now =
     (if \<not> is_enabled settings then False
      else if windows_of settings = [] then False
      else \<not> some_window_open zone settings now)"

text \<open>The scan over the minutes from \<open>candidate\<close> on.\<close>

fun first_open_minute :: "zone_clock \<Rightarrow> settings \<Rightarrow> nat \<Rightarrow> int \<Rightarrow> int option" where
  "first_open_minute zone settings 0 candidate = None"
| "first_open_minute zone settings (Suc n) candidate =
     (if some_window_open zone settings candidate then Some candidate
      else first_open_minute zone settings n (candidate + 60000))"

definition nextMaintenanceWindowStart :: "zone_clock \<Rightarrow> settings \<Rightarrow> int \<Rightarrow> int option" where
  "nextMaintenanceWindowStart zone settings now =
     (if \<not> is_enabled settings then None
      else if windows_of settings = [] \<or> list_all (\<lambda>window. \<not> isValidMaintenanceWindow window) (windows_of settings) then None
      else if some_window_open zone settings now then Some now
      else first_open_minute zone settings (8 * 24 * 60 + 1) (now div 60000 * 60000 + 60000))"

record maintenance_schedule =
  ms_active :: bool
  ms_nextEligibleAt :: "int option"
  ms_timezone :: "string option"

definition maintenanceSchedule :: "zone_clock \<Rightarrow> settings \<Rightarrow> int \<Rightarrow> maintenance_schedule" where
  "maintenanceSchedule zone settings now =
     (let active = is_enabled settings \<and> some_window_open zone settings now;
          named = (\<lambda>window. case json_string (js_get window ''timezone'') of Some tz \<Rightarrow> tz \<noteq> [] | None \<Rightarrow> False) in
      \<lparr>ms_active = active,
       ms_nextEligibleAt = (if active then Some now else nextMaintenanceWindowStart zone settings now),
       ms_timezone = (case find named (windows_of settings) of
          None \<Rightarrow> None
        | Some window \<Rightarrow> json_string (js_get window ''timezone''))\<rparr>)"


section \<open>The gate\<close>

definition approvalWebhookBlocksApply :: "settings \<Rightarrow> bool" where
  "approvalWebhookBlocksApply settings \<longleftrightarrow> is_enabled settings"

datatype apply_block = Applies_paused string | Needs_external_approval | Outside_maintenance_windows

definition applyGateBlockReason ::
    "zone_clock \<Rightarrow> string option \<Rightarrow> settings \<Rightarrow> settings \<Rightarrow> int \<Rightarrow> bool \<Rightarrow> apply_block option" where
  "applyGateBlockReason zone degraded approval maintenance now skipApprovalGate = (case degraded of
     Some reason \<Rightarrow> Some (Applies_paused reason)
   | None \<Rightarrow>
       if \<not> skipApprovalGate \<and> approvalWebhookBlocksApply approval then Some Needs_external_approval
       else if maintenanceWindowsBlockApply zone maintenance now then Some Outside_maintenance_windows
       else None)"


section \<open>Confirmation by the approval webhook\<close>

datatype not_confirmed = No_saved_plan | Blocked apply_block | No_workspace | No_agent_pool | Already_queued | Not_queued

text \<open>
  \<open>read\<close> is the table of runs when the function reads the run, \<open>t\<close> when it writes; \<open>pools\<close> gives the execution mode and the
  agent pool of the workspaces. The result is the status the webhook answers with.
\<close>

definition confirmRunForApply ::
    "string \<Rightarrow> (string \<Rightarrow> (string \<times> string option) option) \<Rightarrow> apply_block option \<Rightarrow> string \<Rightarrow> run_row table \<Rightarrow> run_row table \<Rightarrow>
     (not_confirmed + string) \<times> effect list \<times> run_row table" where
  "confirmRunForApply stamp pools gate runId read t =
    (case db_find (\<lambda>r. r_id r = runId \<and> r_status r \<in> {''planned'', ''planned_and_saved''}) read of
       None \<Rightarrow> (Inl No_saved_plan, [], t)
     | Some before \<Rightarrow>
    (case gate of Some reason \<Rightarrow> (Inl (Blocked reason), [], t) | None \<Rightarrow>
    (case pools (r_workspaceId before) of
       None \<Rightarrow> (Inl No_workspace, [], t)
     | Some (mode, pool) \<Rightarrow>
         (let timestamps = js_set ''confirmed-at'' stamp (r_statusTimestamps before);
              (found, t1) = run_update (\<lambda>r. r_id r = runId \<and> r_status r = r_status before)
                (\<lambda>r. r\<lparr>r_status := ''confirmed'', r_statusTimestamps := timestamps\<rparr>) t in
          if mode = ''agent'' then
            (case pool of
               None \<Rightarrow> (Inl No_agent_pool, [], t)
             | Some poolId \<Rightarrow>
                 if \<not> found then (Inl Already_queued, [], t)
                 else (case insertAgentApplyJobTx stamp runId timestamps t1 of
                   None \<Rightarrow> (Inl Not_queued, [], t)
                 | Some t2 \<Rightarrow> (Inr ''apply_queued'', [Insert_agent_apply_job runId poolId,
                     Audit ''apply'' runId (r_status before) ''apply_queued'', Notify runId ''run:confirmed'' ''apply_queued''], t2)))
          else if \<not> found then (Inl Already_queued, [], t)
          else (Inr ''applying'', [Audit ''apply'' runId (r_status before) ''confirmed'',
            Notify runId ''run:confirmed'' ''confirmed'', Execute_apply runId], t1)))))"


section \<open>Windows on a clock with fixed offsets\<close>

text \<open>Zones with a fixed offset in minutes from UTC; \<open>None\<close>: the zone is not known.\<close>

definition fixed_clock :: "(string \<Rightarrow> int option) \<Rightarrow> zone_clock" where
  "fixed_clock offset tz t =
     map_option (\<lambda>m. (utc_day (t + m * 60000), utc_minutes (t + m * 60000))) (offset tz)"

text \<open>The minute of the week a zone shows: 0 is Thursday, 00:00.\<close>

definition week_minute :: "(string \<Rightarrow> int option) \<Rightarrow> settings \<Rightarrow> int \<Rightarrow> int" where
  "week_minute offset window t = (t div 60000 + js_default (offset (window_zone window)) 0) mod 10080"

lemma local_week_minute:
  "localDayAndMinutes (fixed_clock offset) window t =
     ((week_minute offset window t div 1440 + 4) mod 7, week_minute offset window t mod 1440)"
proof -
  have day: "utc_day (t + m * 60000) = ((t div 60000 + m) mod 10080 div 1440 + 4) mod 7" for m
  proof -
    have "(t + m * 60000) div 86400000 = (t div 60000 + m) div 1440"
      using zdiv_zmult2_eq [of 1440 "t + m * 60000" 60000] by simp
    moreover have "(n div 1440 + 4) mod 7 = (n mod 10080 div 1440 + 4) mod 7" for n :: int
    proof -
      have "n mod 10080 div 1440 = n div 1440 mod 7" using zmod_zmult2_eq [of 7 n 1440] by simp
      then show ?thesis by (simp add: mod_add_left_eq)
    qed
    ultimately show ?thesis unfolding utc_day_def by (simp only:)
  qed
  have minutes: "utc_minutes (t + m * 60000) = (t div 60000 + m) mod 10080 mod 1440" for m
    unfolding utc_minutes_def by (subst mod_mod_cancel) (simp_all add: add.commute)
  show ?thesis
  proof (cases "offset (window_zone window)")
    case None
    with day [of 0] minutes [of 0] show ?thesis
      by (simp only: localDayAndMinutes_def fixed_clock_def week_minute_def option.map option.case js_default_simps
          mult_zero_left add_0_right)
  next
    case (Some m)
    then show ?thesis
      by (simp only: localDayAndMinutes_def fixed_clock_def week_minute_def day minutes option.map option.case js_default_simps)
  qed
qed

lemma open_by_minute:
  "t div 60000 = u div 60000 \<Longrightarrow>
    some_window_open (fixed_clock offset) settings t = some_window_open (fixed_clock offset) settings u"
  by (simp only: some_window_open_def inMaintenanceWindow_def local_week_minute week_minute_def)

text \<open>The start of a listed day is inside the window, also where the window spans midnight or the whole day.\<close>

lemma windowMinutes_range: "windowMinutes v = Some m \<Longrightarrow> 0 \<le> m \<and> m < 1440"
  by (auto simp: windowMinutes_def Let_def split: option.splits if_splits)

lemma windowDayNumbers_range: "d \<in> set (windowDayNumbers w) \<Longrightarrow> 0 \<le> d \<and> d \<le> 6"
  by (auto simp: windowDayNumbers_def split: option.splits json.splits)

lemma valid_window_opens:
  assumes "isValidMaintenanceWindow w"
  obtains d s where "0 \<le> d" "d \<le> 6" "0 \<le> s" "s < 1440"
    "\<And>zone t. localDayAndMinutes zone w t = (d, s) \<Longrightarrow> inMaintenanceWindow zone w t"
proof -
  obtain d ds s e where days: "windowDayNumbers w = d # ds"
    and clock: "windowMinutes (js_get w ''start-time'') = Some s" "windowMinutes (js_get w ''end-time'') = Some e"
    using assms by (auto simp: isValidMaintenanceWindow_def neq_Nil_conv)
  show ?thesis
  proof (rule that [of d s])
    show "0 \<le> d" "d \<le> 6" using windowDayNumbers_range [of d w] days by auto
    show "0 \<le> s" "s < 1440" using windowMinutes_range [OF clock(1)] by auto
    show "inMaintenanceWindow zone w t" if "localDayAndMinutes zone w t = (d, s)" for zone t
      using that days clock by (auto simp: inMaintenanceWindow_def)
  qed
qed

text \<open>Every minute of the week comes within seven days.\<close>

lemma minute_comes:
  assumes "0 \<le> d" "d \<le> 6" "0 \<le> s" "s < 1440"
  obtains k where "k < 10080"
    "localDayAndMinutes (fixed_clock offset) w (t div 60000 * 60000 + int k * 60000) = (d, s)"
proof -
  let ?o = "js_default (offset (window_zone w)) 0"
  let ?target = "(d + 3) mod 7 * 1440 + s"
  define a where "a = t div 60000 + ?o"
  let ?k = "nat ((?target - a) mod 10080)"
  have target: "0 \<le> ?target" "?target < 10080" "(?target div 1440 + 4) mod 7 = d" "?target mod 1440 = s"
  proof -
    define q where "q = (d + 3) mod 7"
    have q: "0 \<le> q" "q \<le> 6" by (simp_all add: q_def)
    have "(q * 1440 + s) div 1440 = q" using assms by simp
    moreover have "(q + 4) mod 7 = d" using assms by (simp add: q_def mod_simps)
    ultimately show "0 \<le> ?target" "?target < 10080" "(?target div 1440 + 4) mod 7 = d" "?target mod 1440 = s"
      using q assms by (simp_all add: q_def [symmetric])
  qed
  have "week_minute offset w (t div 60000 * 60000 + int ?k * 60000) = (a + int ?k) mod 10080"
    by (simp add: week_minute_def a_def algebra_simps flip: distrib_right)
  also have "\<dots> = ?target mod 10080" by (simp add: mod_add_right_eq)
  also have "\<dots> = ?target" using target by simp
  finally have "localDayAndMinutes (fixed_clock offset) w (t div 60000 * 60000 + int ?k * 60000) = (d, s)"
    by (simp only: local_week_minute target)
  moreover have "?k < 10080" by (simp add: nat_less_iff)
  ultimately show ?thesis by (rule that [rotated])
qed

text \<open>The scan returns the first open minute of its range.\<close>

lemma first_open_minute_Some:
  "first_open_minute zone settings n c = Some t \<longleftrightarrow>
    (\<exists>k < n. t = c + int k * 60000 \<and> some_window_open zone settings t \<and>
       (\<forall>i < k. \<not> some_window_open zone settings (c + int i * 60000)))"
proof (induction n arbitrary: c)
  case (Suc n)
  show ?case
  proof (cases "some_window_open zone settings c")
    case True
    then show ?thesis by (auto intro: exI [of _ 0] dest: spec [of _ 0])
  next
    case False
    have "(\<exists>k < Suc n. P k) \<longleftrightarrow> P 0 \<or> (\<exists>k < n. P (Suc k))" for P by (auto simp: less_Suc_eq_0_disj)
    moreover have "(\<forall>i < Suc k. Q i) \<longleftrightarrow> Q 0 \<and> (\<forall>i < k. Q (Suc i))" for Q k by (auto simp: less_Suc_eq_0_disj)
    ultimately show ?thesis using False by (auto simp: Suc.IH algebra_simps)
  qed
qed simp

lemma first_open_minute_exists:
  "k < n \<Longrightarrow> some_window_open zone settings (c + int k * 60000) \<Longrightarrow>
    \<exists>i \<le> k. first_open_minute zone settings n c = Some (c + int i * 60000)"
proof (induction k rule: less_induct)
  case (less k)
  show ?case
  proof (cases "\<exists>i < k. some_window_open zone settings (c + int i * 60000)")
    case True
    then show ?thesis using less by (meson le_less less_trans le_trans less_imp_le)
  next
    case False
    then show ?thesis using less.prems by (auto simp: first_open_minute_Some intro!: exI [of _ k])
  qed
qed


definition weekend :: settings where
  "weekend = [(''enabled'', JBool True), (''windows'', JArr [JObj [(''days'', JArr [JNum (Finite 6)]),
     (''start-time'', JStr ''22:00''), (''end-time'', JStr ''04:00'')]])]"

lemma weekend_window: "is_enabled weekend" "hd (windows_of weekend) \<in> set (windows_of weekend)"
  "isValidMaintenanceWindow (hd (windows_of weekend))"
  by code_simp+


text \<open>
  The opening of that window after Thursday, the first of January 1970: Saturday at 22:00; the window stays open
  past midnight and closes on Sunday at 04:00.
\<close>

lemma weekend_openings:
  "first_open_minute (fixed_clock (\<lambda>_. None)) weekend 3 (2 * 86400000 + 79200000 - 60000) = Some (2 * 86400000 + 79200000)"
  "\<not> maintenanceWindowsBlockApply (fixed_clock (\<lambda>_. None)) weekend (3 * 86400000 + 14399999)"
  "maintenanceWindowsBlockApply (fixed_clock (\<lambda>_. None)) weekend (3 * 86400000 + 14400000)"
  by code_simp+

text \<open>With windows that are all malformed the gate stays closed and the schedule names no time.\<close>

lemma malformed_windows_block:
  assumes "is_enabled settings" "windows_of settings \<noteq> []" "\<forall>w \<in> set (windows_of settings). \<not> isValidMaintenanceWindow w"
  shows "maintenanceWindowsBlockApply zone settings now \<and> nextMaintenanceWindowStart zone settings now = None"
  using assms
  by (auto simp: maintenanceWindowsBlockApply_def nextMaintenanceWindowStart_def some_window_open_def list_ex_iff list_all_iff
      inMaintenanceWindow_def isValidMaintenanceWindow_def Let_def split: option.splits)


section \<open>Confirmations\<close>

lemma insert_job_rows:
  "insertAgentApplyJobTx stamp i timestamps t = Some u \<Longrightarrow> r' \<in> set u \<Longrightarrow>
    r' \<in> set t \<or> (\<exists>r \<in> set t. r_id r = i \<and> r_status r = ''confirmed'' \<and> r_id r' = i \<and> r_status r' = ''apply_queued'')"
proof -
  assume u: "insertAgentApplyJobTx stamp i timestamps t = Some u" and r': "r' \<in> set u"
  have "u = db_update (\<lambda>r. r_id r = i \<and> r_status r = ''confirmed'')
      (set_status_at ''apply_queued'' (js_set (statusKey ''apply_queued'') stamp timestamps)) t"
    using u by (auto simp: insertAgentApplyJobTx_def run_update_def split: if_splits)
  with r' show ?thesis by (auto simp: set_db_update set_status_at_def)
qed


definition planned_run :: run_row where
  "planned_run = \<lparr>r_id = ''run-1'', r_workspaceId = ''ws'', r_status = ''planned'', r_planOnly = False, r_savePlan = False,
     r_createdAt = 0, r_statusTimestamps = [], r_scheduledAt = None, r_ownerNodeId = None, r_ownerInstanceId = None,
     r_fencingToken = 0, r_leaseExpiresAt = None, r_leaseHeartbeatAt = None, r_executionPhase = None\<rparr>"

definition queued_run :: run_row where
  "queued_run = planned_run\<lparr>r_status := ''apply_queued'',
     r_statusTimestamps := [(''confirmed-at'', ''now''), (''apply-queued-at'', ''now'')]\<rparr>"

lemma demo_confirmation:
  "confirmRunForApply ''now'' (\<lambda>_. Some (''agent'', Some ''pool-1''))
     (applyGateBlockReason (fixed_clock (\<lambda>_. None)) None weekend [] 0 True) ''run-1'' [planned_run] [planned_run] =
   (Inr ''apply_queued'', [Insert_agent_apply_job ''run-1'' ''pool-1'', Audit ''apply'' ''run-1'' ''planned'' ''apply_queued'',
      Notify ''run-1'' ''run:confirmed'' ''apply_queued''], [queued_run])"
  by code_simp


text \<open>
  The action of the API refuses an agent pool that is not allowed to run the workspace; the webhook queues the apply
  there all the same.
\<close>

lemma webhook_ignores_pool_grants:
  "resolveApplyAgentPool \<lparr>aw_locked = False, aw_lockedReason = None, aw_executionMode = ''agent'', aw_orgId = ''org''\<rparr>
      (Some \<lparr>ap_id = ''pool-1'', ap_orgId = ''org'', ap_organizationScoped = Some False\<rparr>) False False =
     Inl (409, ''The workspace does not have an allowed agent pool'') \<and>
   fst (confirmRunForApply ''now'' (\<lambda>_. Some (''agent'', Some ''pool-1''))
     (applyGateBlockReason (fixed_clock (\<lambda>_. None)) None weekend [] 0 True) ''run-1'' [planned_run] [planned_run]) = Inr ''apply_queued''"
  using demo_confirmation by (simp add: resolveApplyAgentPool_def agentPoolAllowsWorkspace_def)

end
