(* ===== verification/Coordinator.thy ===== *)
theory Coordinator imports LeaseHolder begin

text \<open>
  The election of the coordinator among the replicas: \<open>lib/control-plane-coordinator.ts\<close>. The lease is the one row
  of \<open>controlPlaneLeases\<close> (\<open>None\<close> before the first claim), a process is named by its instance id, its module state is the record
  \<open>coordinator\<close>. An election is a sequence of statements of the process between which the others run;
  the callbacks and the published event are effects.
\<close>

section \<open>The lease\<close>

record lease_owner =
  lo_nodeId :: string
  lo_instanceId :: string

record control_lease =
  cl_ownerNodeId :: string
  cl_ownerInstanceId :: string
  cl_fencingEpoch :: int
  cl_expiresAt :: int
  cl_heartbeatAt :: int

definition CONTROL_PLANE_LEASE_TTL_MS :: int where "CONTROL_PLANE_LEASE_TTL_MS = 15000"

record lease_snapshot =
  sn_acquired :: bool
  sn_ownerNodeId :: string
  sn_ownerInstanceId :: string
  sn_fencingEpoch :: int
  sn_expiresAt :: int
  sn_heartbeatAt :: int

definition lease_snapshot_of :: "control_lease \<Rightarrow> lease_owner \<Rightarrow> lease_snapshot" where
  "lease_snapshot_of row identity = \<lparr>
     sn_acquired = (cl_ownerInstanceId row = lo_instanceId identity),
     sn_ownerNodeId = cl_ownerNodeId row, sn_ownerInstanceId = cl_ownerInstanceId row,
     sn_fencingEpoch = cl_fencingEpoch row, sn_expiresAt = cl_expiresAt row, sn_heartbeatAt = cl_heartbeatAt row\<rparr>"

text \<open>\<open>True\<close> when the fence holds, \<open>False\<close> when it throws; \<open>now\<close> is the clock of the database.\<close>

definition assertControlPlaneCoordinatorFenceTx :: "bool \<Rightarrow> lease_owner \<Rightarrow> int \<Rightarrow> int \<Rightarrow> control_lease option \<Rightarrow> bool" where
  "assertControlPlaneCoordinatorFenceTx ha me epoch now row =
     (if \<not> ha then True
      else case row of
        None \<Rightarrow> False
      | Some r \<Rightarrow> cl_ownerNodeId r = lo_nodeId me \<and> cl_ownerInstanceId r = lo_instanceId me \<and>
          cl_fencingEpoch r = epoch \<and> now < cl_expiresAt r)"

text \<open>The statements of \<open>claimControlPlaneLease\<close>: the updated row when the statement returns one.\<close>

definition claim_renew :: "lease_owner \<Rightarrow> int \<Rightarrow> int \<Rightarrow> control_lease option \<Rightarrow> control_lease option" where
  "claim_renew identity currentNow ttlMs row = (case row of
     None \<Rightarrow> None
   | Some r \<Rightarrow>
       if cl_ownerInstanceId r = lo_instanceId identity \<and> currentNow < cl_expiresAt r
       then Some (r\<lparr>cl_ownerNodeId := lo_nodeId identity, cl_expiresAt := currentNow + ttlMs, cl_heartbeatAt := currentNow\<rparr>)
       else None)"

definition claim_insert :: "lease_owner \<Rightarrow> int \<Rightarrow> int \<Rightarrow> control_lease option \<Rightarrow> control_lease option" where
  "claim_insert identity currentNow ttlMs row = (case row of
     None \<Rightarrow> Some \<lparr>cl_ownerNodeId = lo_nodeId identity, cl_ownerInstanceId = lo_instanceId identity, cl_fencingEpoch = 1,
       cl_expiresAt = currentNow + ttlMs, cl_heartbeatAt = currentNow\<rparr>
   | Some _ \<Rightarrow> None)"

definition claim_takeover :: "lease_owner \<Rightarrow> int \<Rightarrow> int \<Rightarrow> control_lease option \<Rightarrow> control_lease option" where
  "claim_takeover identity currentNow ttlMs row = (case row of
     None \<Rightarrow> None
   | Some r \<Rightarrow>
       if cl_expiresAt r \<le> currentNow
       then Some \<lparr>cl_ownerNodeId = lo_nodeId identity, cl_ownerInstanceId = lo_instanceId identity,
         cl_fencingEpoch = cl_fencingEpoch r + 1, cl_expiresAt = currentNow + ttlMs, cl_heartbeatAt = currentNow\<rparr>
       else None)"

text \<open>The claim without interruption; with a row the last read always finds one.\<close>

definition claimControlPlaneLease ::
    "lease_owner \<Rightarrow> int \<Rightarrow> int \<Rightarrow> control_lease option \<Rightarrow> lease_snapshot option \<times> control_lease option" where
  "claimControlPlaneLease identity currentNow ttlMs row =
     (case claim_renew identity currentNow ttlMs row of
        Some r \<Rightarrow> (Some (lease_snapshot_of r identity), Some r)
      | None \<Rightarrow>
     (case claim_insert identity currentNow ttlMs row of
        Some r \<Rightarrow> (Some (lease_snapshot_of r identity), Some r)
      | None \<Rightarrow>
     (case claim_takeover identity currentNow ttlMs row of
        Some r \<Rightarrow> (Some (lease_snapshot_of r identity), Some r)
      | None \<Rightarrow> (map_option (\<lambda>r. lease_snapshot_of r identity) row, row))))"

definition expire_lease :: "int \<Rightarrow> (control_lease \<Rightarrow> bool) \<Rightarrow> control_lease option \<Rightarrow> control_lease option" where
  "expire_lease currentNow p row =
     map_option (\<lambda>r. if p r then r\<lparr>cl_expiresAt := 0, cl_heartbeatAt := currentNow\<rparr> else r) row"

definition releaseControlPlaneLease :: "lease_owner \<Rightarrow> int \<Rightarrow> int \<Rightarrow> control_lease option \<Rightarrow> bool \<times> control_lease option" where
  "releaseControlPlaneLease identity fencingEpoch currentNow row =
     (let p = (\<lambda>r. cl_ownerInstanceId r = lo_instanceId identity \<and> cl_fencingEpoch r = fencingEpoch) in
      (case row of None \<Rightarrow> False | Some r \<Rightarrow> p r, expire_lease currentNow p row))"


section \<open>The module state of a process\<close>

datatype coordinator_role = Disabled | Ineligible | Follower | Leader

record coordinator =
  co_role :: coordinator_role
  co_ownerNodeId :: "string option"
  co_fencingEpoch :: "int option"
  co_expiresAt :: "int option"
  co_heartbeatAt :: "int option"
  co_suspended :: bool
  co_started :: bool
  co_validUntil :: rat
  co_generation :: nat
  co_inFlight :: nat

datatype coordinator_effect = Leadership_acquired int | Leadership_lost | Resigned "int option" | Tick_scheduled

definition isControlPlaneCoordinatorLeader :: "rat \<Rightarrow> coordinator \<Rightarrow> bool" where
  "isControlPlaneCoordinatorLeader perf c \<longleftrightarrow> co_role c = Leader \<and> perf < co_validUntil c"

definition controlPlaneCoordinatorState :: "rat \<Rightarrow> coordinator \<Rightarrow> coordinator_role" where
  "controlPlaneCoordinatorState perf c =
     (if co_role c = Leader \<and> \<not> isControlPlaneCoordinatorLeader perf c then Follower else co_role c)"

definition without_owner :: "coordinator_role \<Rightarrow> coordinator \<Rightarrow> coordinator" where
  "without_owner role c = c\<lparr>co_role := role, co_ownerNodeId := None, co_fencingEpoch := None, co_expiresAt := None,
     co_heartbeatAt := None\<rparr>"

definition with_lease :: "coordinator_role \<Rightarrow> lease_snapshot \<Rightarrow> coordinator \<Rightarrow> coordinator" where
  "with_lease role l c = c\<lparr>co_role := role, co_ownerNodeId := Some (sn_ownerNodeId l), co_fencingEpoch := Some (sn_fencingEpoch l),
     co_expiresAt := Some (sn_expiresAt l), co_heartbeatAt := Some (sn_heartbeatAt l)\<rparr>"

definition clearLeadershipWatchdog :: "coordinator \<Rightarrow> coordinator" where
  "clearLeadershipWatchdog c = c\<lparr>co_validUntil := 0\<rparr>"

definition armLeadershipWatchdog :: "rat \<Rightarrow> rat \<Rightarrow> coordinator \<Rightarrow> coordinator" where
  "armLeadershipWatchdog perf remainingMs c = c\<lparr>co_validUntil := perf + max 0 remainingMs\<rparr>"

definition loseLeadership :: "coordinator \<Rightarrow> coordinator \<times> coordinator_effect list" where
  "loseLeadership c =
     (if co_role c \<noteq> Leader then (c, [])
      else (without_owner Follower ((clearLeadershipWatchdog c)\<lparr>co_generation := co_generation c + 1\<rparr>), [Leadership_lost]))"

text \<open>The timer of \<open>armLeadershipWatchdog\<close>, with what it captured.\<close>

definition watchdog_fires :: "nat \<Rightarrow> int option \<Rightarrow> coordinator \<Rightarrow> coordinator \<times> coordinator_effect list" where
  "watchdog_fires generation fencingEpoch c =
     (if \<not> co_started c \<or> co_role c \<noteq> Leader \<or> generation \<noteq> co_generation c \<or> fencingEpoch \<noteq> co_fencingEpoch c then (c, [])
      else loseLeadership c)"

text \<open>The callback of an activation fails: whether the lease of the epoch is released, and the new state.\<close>

definition activation_fails :: "nat \<Rightarrow> coordinator \<Rightarrow> bool \<times> coordinator \<times> coordinator_effect list" where
  "activation_fails generation c =
     (if co_started c \<and> generation = co_generation c \<and> co_role c = Leader then (True, loseLeadership c) else (False, c, []))"

definition coordinator_inactive :: "coordinator \<Rightarrow> bool" where
  "coordinator_inactive c \<longleftrightarrow> \<not> (co_started c \<and> \<not> co_suspended c)"

definition releaseClaimIfCoordinatorInactive ::
    "lease_owner \<Rightarrow> lease_snapshot \<Rightarrow> int \<Rightarrow> coordinator \<Rightarrow> control_lease option \<Rightarrow> bool \<times> control_lease option" where
  "releaseClaimIfCoordinatorInactive identity l now c row =
     (if \<not> coordinator_inactive c then (False, row)
      else (True, if sn_acquired l then snd (releaseControlPlaneLease identity (sn_fencingEpoch l) now row) else row))"

text \<open>
  \<open>applyAcquiredCoordinatorLease\<close> after its checks of activity: \<open>finished\<close> is the local clock when the remaining time is computed,
  \<open>armed\<close> when the watchdog is armed.
\<close>

definition applyAcquiredCoordinatorLease ::
    "lease_snapshot \<Rightarrow> int \<Rightarrow> rat \<Rightarrow> rat \<Rightarrow> rat \<Rightarrow> coordinator \<Rightarrow> coordinator \<times> coordinator_effect list" where
  "applyAcquiredCoordinatorLease l databaseNow started finished armed c =
     (let remainingMs = conservativeLeaseRemainingMs (sn_expiresAt l) databaseNow started finished in
      if remainingMs \<le> 0 then (let (c', es) = loseLeadership c in (with_lease Follower l c', es))
      else
        let becameLeader = (co_role c \<noteq> Leader \<or> co_fencingEpoch c \<noteq> Some (sn_fencingEpoch l));
            c1 = with_lease Leader l c;
            c2 = (if becameLeader then c1\<lparr>co_generation := co_generation c1 + 1\<rparr> else c1) in
        (armLeadershipWatchdog armed remainingMs c2,
         if becameLeader then [Leadership_acquired (sn_fencingEpoch l)] else []))"

definition applyFollowerCoordinatorLease :: "lease_snapshot \<Rightarrow> coordinator \<Rightarrow> coordinator \<times> coordinator_effect list" where
  "applyFollowerCoordinatorLease l c =
     (let (c', es) = (if co_role c = Leader then loseLeadership c else (clearLeadershipWatchdog c, [])) in
      (with_lease Follower l c', es))"

definition tick_begins :: "coordinator \<Rightarrow> coordinator" where
  "tick_begins c = c\<lparr>co_inFlight := co_inFlight c + 1\<rparr>"

definition tick_ends :: "coordinator \<Rightarrow> coordinator" where
  "tick_ends c = c\<lparr>co_inFlight := co_inFlight c - 1\<rparr>"

definition tick_fails :: "coordinator \<Rightarrow> coordinator \<times> coordinator_effect list" where
  "tick_fails c = (let (c', es) = loseLeadership c in (tick_ends c', es))"

definition observeCoordinatorTick :: "control_lease option \<Rightarrow> coordinator \<Rightarrow> coordinator" where
  "observeCoordinatorTick row c = (case row of
     None \<Rightarrow> without_owner Follower c
   | Some r \<Rightarrow> with_lease Follower (lease_snapshot_of r \<lparr>lo_nodeId = [], lo_instanceId = []\<rparr>) c)"

text \<open>
  \<open>resignControlPlaneLease\<close> up to its first wait: the epoch to give up (\<open>None\<close> for any) when a statement follows;
  then the statement.
\<close>

definition resign_local :: "bool \<Rightarrow> coordinator \<Rightarrow> int option option \<times> coordinator \<times> coordinator_effect list" where
  "resign_local ha c =
     (let alreadySuspended = co_suspended c;
          c1 = c\<lparr>co_suspended := True\<rparr>;
          wasLeader = (co_role c1 = Leader);
          (c2, es) = (if wasLeader then loseLeadership c1 else (c1, [])) in
      if \<not> ha then (None, c1, [])
      else if \<not> wasLeader \<and> alreadySuspended then (None, c2, es)
      else (Some (co_fencingEpoch c), c2, es))"

definition resign_commit :: "lease_owner \<Rightarrow> int option \<Rightarrow> int \<Rightarrow> control_lease option \<Rightarrow> control_lease option" where
  "resign_commit me epoch currentNow row =
     expire_lease currentNow (\<lambda>r. cl_ownerInstanceId r = lo_instanceId me \<and>
       (case epoch of None \<Rightarrow> True | Some e \<Rightarrow> cl_fencingEpoch r = e)) row"

definition resumeControlPlaneCoordinator :: "coordinator \<Rightarrow> coordinator" where
  "resumeControlPlaneCoordinator c = c\<lparr>co_suspended := False\<rparr>"

text \<open>Whether a resignation of another process starts an election at once.\<close>

definition handleResignationEvent :: "string \<Rightarrow> string \<Rightarrow> coordinator \<Rightarrow> bool" where
  "handleResignationEvent me resigned c \<longleftrightarrow> co_started c \<and> \<not> co_suspended c \<and> resigned \<noteq> me \<and> co_role c \<noteq> Leader"

definition startControlPlaneCoordinator :: "bool \<Rightarrow> bool \<Rightarrow> coordinator \<Rightarrow> coordinator" where
  "startControlPlaneCoordinator ha eligible c =
     (if \<not> ha then without_owner Disabled (clearLeadershipWatchdog c)
      else if \<not> eligible then without_owner Ineligible (clearLeadershipWatchdog c)
      else if co_started c then c
      else without_owner Follower (c\<lparr>co_started := True\<rparr>))"

text \<open>\<open>stopControlPlaneCoordinator\<close>: the epoch whose lease is released, and the state it leaves.\<close>

definition stopControlPlaneCoordinator :: "bool \<Rightarrow> bool \<Rightarrow> coordinator \<Rightarrow> int option \<times> coordinator \<times> coordinator_effect list" where
  "stopControlPlaneCoordinator ha eligible c =
     (let c1 = c\<lparr>co_suspended := False\<rparr> in
      if \<not> co_started c1 then (None, c1, [])
      else
        let c2 = c1\<lparr>co_started := False\<rparr>;
            (c3, es) = (if co_role c2 = Leader then loseLeadership c2 else (clearLeadershipWatchdog c2, [])) in
        (co_fencingEpoch c, without_owner (if ha then if eligible then Follower else Ineligible else Disabled) c3, es))"


section \<open>Processes, elections and the lease\<close>

text \<open>
  The stage of an election in flight: the statement that comes next with the database time that the claim read, or what the
  claim returned, or the query of the time that confirms it with the local time it was sent.
\<close>

datatype stage = Renewing int | Inserting int | Taking int | Reading int | Claimed lease_snapshot | Confirming lease_snapshot rat

record cluster =
  cw_row :: "control_lease option"
  cw_now :: int
  cw_proc :: "string \<Rightarrow> coordinator"
  cw_stage :: "string \<Rightarrow> stage option"

definition owner_of :: "(string \<Rightarrow> string) \<Rightarrow> string \<Rightarrow> lease_owner" where
  "owner_of node i = \<lparr>lo_nodeId = node i, lo_instanceId = i\<rparr>"

definition set_row :: "control_lease option \<Rightarrow> cluster \<Rightarrow> cluster" where
  "set_row r w = w\<lparr>cw_row := r\<rparr>"

definition set_proc :: "string \<Rightarrow> coordinator \<Rightarrow> cluster \<Rightarrow> cluster" where
  "set_proc i c w = w\<lparr>cw_proc := (cw_proc w)(i := c)\<rparr>"

definition set_stage :: "string \<Rightarrow> stage option \<Rightarrow> cluster \<Rightarrow> cluster" where
  "set_stage i s w = w\<lparr>cw_stage := (cw_stage w)(i := s)\<rparr>"

definition end_tick :: "string \<Rightarrow> coordinator \<Rightarrow> cluster \<Rightarrow> cluster" where
  "end_tick i c w = set_stage i None (set_proc i (tick_ends c) w)"

definition local_time :: "(string \<Rightarrow> rat) \<Rightarrow> string \<Rightarrow> cluster \<Rightarrow> rat" where
  "local_time off i w = of_int (cw_now w) + off i"

text \<open>One statement of the claim: the next stage.\<close>

definition claim_statement :: "lease_owner \<Rightarrow> stage \<Rightarrow> control_lease option \<Rightarrow> stage \<times> control_lease option" where
  "claim_statement me s row = (case s of
     Renewing n \<Rightarrow> (case claim_renew me n CONTROL_PLANE_LEASE_TTL_MS row of
       Some r \<Rightarrow> (Claimed (lease_snapshot_of r me), Some r) | None \<Rightarrow> (Inserting n, row))
   | Inserting n \<Rightarrow> (case claim_insert me n CONTROL_PLANE_LEASE_TTL_MS row of
       Some r \<Rightarrow> (Claimed (lease_snapshot_of r me), Some r) | None \<Rightarrow> (Taking n, row))
   | Taking n \<Rightarrow> (case claim_takeover me n CONTROL_PLANE_LEASE_TTL_MS row of
       Some r \<Rightarrow> (Claimed (lease_snapshot_of r me), Some r) | None \<Rightarrow> (Reading n, row))
   | Reading n \<Rightarrow> (case row of Some r \<Rightarrow> (Claimed (lease_snapshot_of r me), row) | None \<Rightarrow> (Renewing n, row))
   | _ \<Rightarrow> (s, row))"

text \<open>What \<open>coordinatorTick\<close> does with the lease it claimed.\<close>

definition tick_claimed :: "(string \<Rightarrow> string) \<Rightarrow> (string \<Rightarrow> rat) \<Rightarrow> string \<Rightarrow> lease_snapshot \<Rightarrow> cluster \<Rightarrow> cluster" where
  "tick_claimed node off i l w =
     (case releaseClaimIfCoordinatorInactive (owner_of node i) l (cw_now w) (cw_proc w i) (cw_row w) of
        (True, row) \<Rightarrow> end_tick i (cw_proc w i) (set_row row w)
      | (False, _) \<Rightarrow>
          if sn_acquired l then set_stage i (Some (Confirming l (local_time off i w))) w
          else end_tick i (fst (applyFollowerCoordinatorLease l (cw_proc w i))) w)"

definition tick_confirmed :: "(string \<Rightarrow> string) \<Rightarrow> (string \<Rightarrow> rat) \<Rightarrow> string \<Rightarrow> lease_snapshot \<Rightarrow> rat \<Rightarrow> int \<Rightarrow> cluster \<Rightarrow> cluster" where
  "tick_confirmed node off i l started databaseNow w =
     (case releaseClaimIfCoordinatorInactive (owner_of node i) l (cw_now w) (cw_proc w i) (cw_row w) of
        (True, row) \<Rightarrow> end_tick i (cw_proc w i) (set_row row w)
      | (False, _) \<Rightarrow>
          end_tick i (fst (applyAcquiredCoordinatorLease l databaseNow started (local_time off i w) (local_time off i w) (cw_proc w i))) w)"

text \<open>
  The steps of the processes. One election of a process runs at a time, and a process that resumes, starts or
  gives up after a failed activation has no election in flight; a resignation reaches the lease while the process is suspended.
\<close>

inductive coord_step :: "(string \<Rightarrow> string) \<Rightarrow> (string \<Rightarrow> rat) \<Rightarrow> cluster \<Rightarrow> cluster \<Rightarrow> bool" for node off where
  k_time: "cw_now w \<le> n \<Longrightarrow> coord_step node off w (w\<lparr>cw_now := n\<rparr>)"
| k_begin: "cw_stage w i = None \<Longrightarrow> co_started (cw_proc w i) \<Longrightarrow> \<not> co_suspended (cw_proc w i) \<Longrightarrow>
    coord_step node off w (set_stage i (Some (Renewing (cw_now w))) (set_proc i (tick_begins (cw_proc w i)) w))"
| k_observe: "cw_stage w i = None \<Longrightarrow> co_started (cw_proc w i) \<Longrightarrow> co_suspended (cw_proc w i) \<Longrightarrow>
    coord_step node off w (set_proc i (observeCoordinatorTick (cw_row w) (cw_proc w i)) w)"
| k_statement: "cw_stage w i = Some s \<Longrightarrow> claim_statement (owner_of node i) s (cw_row w) = (s', row) \<Longrightarrow>
    coord_step node off w (set_stage i (Some s') (set_row row w))"
| k_claimed: "cw_stage w i = Some (Claimed l) \<Longrightarrow> coord_step node off w (tick_claimed node off i l w)"
| k_confirmed: "cw_stage w i = Some (Confirming l started) \<Longrightarrow> started \<le> of_int databaseNow + off i \<Longrightarrow> databaseNow \<le> cw_now w \<Longrightarrow>
    coord_step node off w (tick_confirmed node off i l started databaseNow w)"
| k_failed: "cw_stage w i = Some s \<Longrightarrow>
    coord_step node off w (set_stage i None (set_proc i (fst (tick_fails (cw_proc w i))) w))"
| k_watchdog: "coord_step node off w (set_proc i (fst (watchdog_fires generation epoch (cw_proc w i))) w)"
| k_resign: "coord_step node off w (set_proc i (fst (snd (resign_local True (cw_proc w i)))) w)"
| k_resign_commit: "co_suspended (cw_proc w i) \<Longrightarrow>
    coord_step node off w (set_row (resign_commit (owner_of node i) epoch (cw_now w) (cw_row w)) w)"
| k_resume: "cw_stage w i = None \<Longrightarrow> coord_step node off w (set_proc i (resumeControlPlaneCoordinator (cw_proc w i)) w)"
| k_start: "cw_stage w i = None \<Longrightarrow> \<not> co_started (cw_proc w i) \<Longrightarrow>
    coord_step node off w (set_proc i (startControlPlaneCoordinator True True (cw_proc w i)) w)"
| k_stop: "coord_step node off w (set_proc i (fst (snd (stopControlPlaneCoordinator True eligible (cw_proc w i)))) w)"
| k_stop_release: "\<not> co_started (cw_proc w i) \<Longrightarrow>
    coord_step node off w (set_row (snd (releaseControlPlaneLease (owner_of node i) epoch (cw_now w) (cw_row w))) w)"
| k_activation_fails: "cw_stage w i = None \<Longrightarrow> activation_fails generation (cw_proc w i) = (True, c, es) \<Longrightarrow>
    coord_step node off w (set_row (snd (releaseControlPlaneLease (owner_of node i) epoch (cw_now w) (cw_row w))) (set_proc i c w))"

definition coord_init :: "cluster \<Rightarrow> bool" where
  "coord_init w \<longleftrightarrow> cw_row w = None \<and> 0 \<le> cw_now w \<and> (\<forall>i. cw_stage w i = None \<and> \<not> co_started (cw_proc w i) \<and> co_role (cw_proc w i) \<noteq> Leader)"


section \<open>The invariant\<close>

text \<open>The lease backs a deadline \<open>d\<close> of process \<open>i\<close> in an epoch, as long as the deadline has not passed.\<close>

definition backed :: "(string \<Rightarrow> string) \<Rightarrow> string \<Rightarrow> int \<Rightarrow> rat \<Rightarrow> cluster \<Rightarrow> bool" where
  "backed node i epoch d w \<longleftrightarrow> d \<le> of_int (cw_now w) \<or>
     (\<exists>r. cw_row w = Some r \<and> cl_ownerInstanceId r = i \<and> cl_ownerNodeId r = node i \<and> cl_fencingEpoch r = epoch \<and> d \<le> of_int (cl_expiresAt r))"

definition leader_ok :: "(string \<Rightarrow> string) \<Rightarrow> (string \<Rightarrow> rat) \<Rightarrow> string \<Rightarrow> cluster \<Rightarrow> bool" where
  "leader_ok node off i w \<longleftrightarrow> (co_role (cw_proc w i) = Leader \<longrightarrow>
     co_started (cw_proc w i) \<and> \<not> co_suspended (cw_proc w i) \<and>
     (\<exists>epoch. co_fencingEpoch (cw_proc w i) = Some epoch \<and> backed node i epoch (co_validUntil (cw_proc w i) - off i) w))"

definition own_row :: "string \<Rightarrow> (control_lease \<Rightarrow> bool) \<Rightarrow> cluster \<Rightarrow> bool" where
  "own_row i P w \<longleftrightarrow> (\<forall>r. cw_row w = Some r \<longrightarrow> cl_ownerInstanceId r = i \<longrightarrow> P r)"

definition claimed_ok :: "(string \<Rightarrow> string) \<Rightarrow> string \<Rightarrow> lease_snapshot \<Rightarrow> cluster \<Rightarrow> bool" where
  "claimed_ok node i l w \<longleftrightarrow> (sn_acquired l \<longrightarrow> \<not> coordinator_inactive (cw_proc w i) \<longrightarrow>
     backed node i (sn_fencingEpoch l) (of_int (sn_expiresAt l)) w)"

definition stage_ok :: "(string \<Rightarrow> string) \<Rightarrow> (string \<Rightarrow> rat) \<Rightarrow> string \<Rightarrow> stage \<Rightarrow> cluster \<Rightarrow> bool" where
  "stage_ok node off i s w = (case s of
     Renewing n \<Rightarrow> 0 \<le> n \<and> n \<le> cw_now w \<and> own_row i (\<lambda>r. cl_expiresAt r \<le> n + CONTROL_PLANE_LEASE_TTL_MS) w
   | Inserting n \<Rightarrow> 0 \<le> n \<and> n \<le> cw_now w \<and> own_row i (\<lambda>r. cl_expiresAt r \<le> n) w
   | Taking n \<Rightarrow> 0 \<le> n \<and> n \<le> cw_now w \<and> cw_row w \<noteq> None \<and> own_row i (\<lambda>r. cl_expiresAt r \<le> n) w
   | Reading n \<Rightarrow> cw_row w \<noteq> None \<and> own_row i (\<lambda>r. False) w
   | Claimed l \<Rightarrow> claimed_ok node i l w
   | Confirming l started \<Rightarrow> sn_acquired l \<and> claimed_ok node i l w)"

definition local_ok :: "(string \<Rightarrow> string) \<Rightarrow> (string \<Rightarrow> rat) \<Rightarrow> string \<Rightarrow> cluster \<Rightarrow> bool" where
  "local_ok node off i w \<longleftrightarrow> leader_ok node off i w \<and> (\<forall>s. cw_stage w i = Some s \<longrightarrow> stage_ok node off i s w)"

definition lease_ok :: "cluster \<Rightarrow> bool" where
  "lease_ok w \<longleftrightarrow> 0 \<le> cw_now w \<and>
     (\<forall>r. cw_row w = Some r \<longrightarrow> 0 \<le> cl_expiresAt r \<and> cl_expiresAt r \<le> cw_now w + CONTROL_PLANE_LEASE_TTL_MS)"

definition coord_inv :: "(string \<Rightarrow> string) \<Rightarrow> (string \<Rightarrow> rat) \<Rightarrow> cluster \<Rightarrow> bool" where
  "coord_inv node off w \<longleftrightarrow> lease_ok w \<and> (\<forall>i. local_ok node off i w)"

text \<open>
  A step keeps what process \<open>i\<close> relies on: its unexpired lease is only extended, and no lease of it appears or
  grows behind its back.
\<close>

definition row_keeps :: "(string \<Rightarrow> string) \<Rightarrow> string \<Rightarrow> cluster \<Rightarrow> cluster \<Rightarrow> bool" where
  "row_keeps node i w w' \<longleftrightarrow> cw_now w \<le> cw_now w' \<and>
     (\<forall>r. cw_row w = Some r \<longrightarrow> cl_ownerInstanceId r = i \<longrightarrow> cl_expiresAt r \<le> cw_now w' \<or>
        (\<exists>r'. cw_row w' = Some r' \<and> cl_ownerInstanceId r' = i \<and> cl_fencingEpoch r' = cl_fencingEpoch r \<and>
           (cl_ownerNodeId r' = cl_ownerNodeId r \<or> cl_ownerNodeId r' = node i) \<and> cl_expiresAt r \<le> cl_expiresAt r'))"

definition row_shrinks :: "string \<Rightarrow> cluster \<Rightarrow> cluster \<Rightarrow> bool" where
  "row_shrinks i w w' \<longleftrightarrow> cw_now w \<le> cw_now w' \<and> (cw_row w \<noteq> None \<longrightarrow> cw_row w' \<noteq> None) \<and>
     (\<forall>r'. cw_row w' = Some r' \<longrightarrow> cl_ownerInstanceId r' = i \<longrightarrow>
        (\<exists>r. cw_row w = Some r \<and> cl_ownerInstanceId r = i \<and> cl_expiresAt r' \<le> cl_expiresAt r))"

lemma backed_keeps: "backed node i e d w \<Longrightarrow> row_keeps node i w w' \<Longrightarrow> backed node i e d w'"
  unfolding backed_def row_keeps_def by (elim conjE disjE exE) (fastforce intro: order_trans)+

lemma backed_le: "backed node i e d w \<Longrightarrow> d' \<le> d \<Longrightarrow> backed node i e d' w"
  unfolding backed_def by force

lemma own_row_shrinks:
  "own_row i P w \<Longrightarrow> row_shrinks i w w' \<Longrightarrow> (\<And>r r'. P r \<Longrightarrow> cl_expiresAt r' \<le> cl_expiresAt r \<Longrightarrow> P r') \<Longrightarrow> own_row i P w'"
  unfolding own_row_def row_shrinks_def by metis

lemma leader_keeps: "leader_ok node off i w \<Longrightarrow> row_keeps node i w w' \<Longrightarrow> cw_proc w' i = cw_proc w i \<Longrightarrow> leader_ok node off i w'"
  unfolding leader_ok_def using backed_keeps by metis

lemma stage_keeps:
  assumes "stage_ok node off i s w" "row_shrinks i w w'" "cw_proc w' i = cw_proc w i"
    and keeps: "row_keeps node i w w' \<or> coordinator_inactive (cw_proc w i)"
  shows "stage_ok node off i s w'"
proof -
  have now: "cw_now w \<le> cw_now w'" "cw_row w \<noteq> None \<longrightarrow> cw_row w' \<noteq> None" using assms(2) by (simp_all add: row_shrinks_def)
  have claimed: "claimed_ok node i l w \<Longrightarrow> claimed_ok node i l w'" for l
    using keeps assms(3) backed_keeps unfolding claimed_ok_def by metis
  show ?thesis
  proof (cases s)
    case (Renewing n)
    have "own_row i (\<lambda>r. cl_expiresAt r \<le> n + CONTROL_PLANE_LEASE_TTL_MS) w'"
      by (rule own_row_shrinks [OF _ assms(2)]) (use assms(1) Renewing in \<open>auto simp: stage_ok_def\<close>)
    then show ?thesis using assms(1) now Renewing by (simp add: stage_ok_def)
  next
    case (Inserting n)
    have "own_row i (\<lambda>r. cl_expiresAt r \<le> n) w'"
      by (rule own_row_shrinks [OF _ assms(2)]) (use assms(1) Inserting in \<open>auto simp: stage_ok_def\<close>)
    then show ?thesis using assms(1) now Inserting by (simp add: stage_ok_def)
  next
    case (Taking n)
    have "own_row i (\<lambda>r. cl_expiresAt r \<le> n) w'"
      by (rule own_row_shrinks [OF _ assms(2)]) (use assms(1) Taking in \<open>auto simp: stage_ok_def\<close>)
    then show ?thesis using assms(1) now Taking by (simp add: stage_ok_def)
  next
    case (Reading n)
    have "own_row i (\<lambda>r. False) w'"
      by (rule own_row_shrinks [OF _ assms(2)]) (use assms(1) Reading in \<open>auto simp: stage_ok_def\<close>)
    then show ?thesis using assms(1) now Reading by (simp add: stage_ok_def)
  qed (use assms(1) claimed in \<open>auto simp: stage_ok_def\<close>)
qed

lemma local_keeps:
  "local_ok node off i w \<Longrightarrow> row_keeps node i w w' \<Longrightarrow> row_shrinks i w w' \<Longrightarrow> cw_proc w' i = cw_proc w i \<Longrightarrow>
    cw_stage w' i = cw_stage w i \<Longrightarrow> local_ok node off i w'"
  unfolding local_ok_def using leader_keeps stage_keeps by metis

lemma cluster_simps [simp]:
  "cw_row (set_row r w) = r" "cw_now (set_row r w) = cw_now w" "cw_proc (set_row r w) = cw_proc w" "cw_stage (set_row r w) = cw_stage w"
  "cw_row (set_proc i c w) = cw_row w" "cw_now (set_proc i c w) = cw_now w" "cw_proc (set_proc i c w) = (cw_proc w)(i := c)"
  "cw_stage (set_proc i c w) = cw_stage w"
  "cw_row (set_stage i s w) = cw_row w" "cw_now (set_stage i s w) = cw_now w" "cw_proc (set_stage i s w) = cw_proc w"
  "cw_stage (set_stage i s w) = (cw_stage w)(i := s)"
  by (simp_all add: set_row_def set_proc_def set_stage_def)

lemma keeps_refl:
  "cw_row w' = cw_row w \<Longrightarrow> cw_now w \<le> cw_now w' \<Longrightarrow> row_keeps node i w w' \<and> row_shrinks i w w'"
  by (auto simp: row_keeps_def row_shrinks_def)

lemma inv_update:
  assumes "coord_inv node off w" "lease_ok w'" "local_ok node off i w'"
    and "\<And>j. j \<noteq> i \<Longrightarrow> row_keeps node j w w' \<and> row_shrinks j w w' \<and> cw_proc w' j = cw_proc w j \<and> cw_stage w' j = cw_stage w j"
  shows "coord_inv node off w'"
  using assms local_keeps unfolding coord_inv_def by metis

lemma expire_shrinks:
  assumes "lease_ok w" "cw_row w' = expire_lease n p (cw_row w)" "cw_now w' = cw_now w"
  shows "row_shrinks j w w'"
  using assms by (cases "cw_row w") (auto simp: row_shrinks_def expire_lease_def lease_ok_def)

lemma expire_keeps:
  assumes "cw_row w' = expire_lease n p (cw_row w)" "cw_now w' = cw_now w" "\<And>r. p r \<Longrightarrow> cl_ownerInstanceId r \<noteq> j"
  shows "row_keeps node j w w'"
  using assms by (cases "cw_row w") (auto simp: row_keeps_def expire_lease_def)

lemma expire_lease_ok:
  assumes "lease_ok w" "cw_row w' = expire_lease n p (cw_row w)" "cw_now w' = cw_now w"
  shows "lease_ok w'"
  using assms by (cases "cw_row w") (auto simp: lease_ok_def expire_lease_def CONTROL_PLANE_LEASE_TTL_MS_def)

text \<open>A statement of a claim: it extends its own lease, takes over expired ones, and leaves the claim in order.\<close>

lemmas claim_defs = claim_statement_def claim_renew_def claim_insert_def claim_takeover_def owner_of_def lease_snapshot_of_def

lemma statement_row:
  assumes "lease_ok w" "stage_ok node off i s w" "claim_statement (owner_of node i) s (cw_row w) = (s', row)"
  shows "row = cw_row w \<and> stage_ok node off i s' w \<or> (\<exists>n r'. row = Some r' \<and> 0 \<le> n \<and> n \<le> cw_now w \<and> cl_ownerInstanceId r' = i \<and> cl_ownerNodeId r' = node i \<and>
    cl_expiresAt r' = n + CONTROL_PLANE_LEASE_TTL_MS \<and> s' = Claimed (lease_snapshot_of r' (owner_of node i)) \<and>
    (\<forall>r. cw_row w = Some r \<longrightarrow> cl_expiresAt r \<le> n \<or>
       cl_ownerInstanceId r = i \<and> cl_fencingEpoch r' = cl_fencingEpoch r \<and> cl_expiresAt r \<le> cl_expiresAt r'))"
proof (cases s)
  case (Renewing n)
  show ?thesis
  proof (cases "claim_renew (owner_of node i) n CONTROL_PLANE_LEASE_TTL_MS (cw_row w)")
    case None
    then have "row = cw_row w" "s' = Inserting n" using assms(3) Renewing by (auto simp: claim_statement_def)
    moreover have "own_row i (\<lambda>r. cl_expiresAt r \<le> n) w"
      using None by (auto simp: own_row_def claim_renew_def owner_of_def split: if_splits)
    ultimately show ?thesis using assms(2) Renewing by (auto simp: stage_ok_def)
  next
    case (Some r')
    then show ?thesis using assms Renewing
      by (intro disjI2 exI [of _ n] exI [of _ r'])
        (auto simp: claim_statement_def claim_renew_def owner_of_def stage_ok_def own_row_def split: option.splits if_splits)
  qed
next
  case (Inserting n)
  then show ?thesis using assms
    by (cases "cw_row w") (auto simp: claim_defs stage_ok_def)
next
  case (Taking n)
  then obtain r where r: "cw_row w = Some r" using assms(2) by (auto simp: stage_ok_def)
  show ?thesis
  proof (cases "cl_expiresAt r \<le> n")
    case True
    then show ?thesis using assms Taking r by (auto simp: claim_defs stage_ok_def)
  next
    case False
    then have "row = cw_row w" "s' = Reading n" using assms(3) Taking r by (auto simp: claim_statement_def claim_takeover_def)
    moreover have "own_row i (\<lambda>r. False) w" using assms(2) False Taking r by (auto simp: stage_ok_def own_row_def)
    ultimately show ?thesis using r by (auto simp: stage_ok_def)
  qed
next
  case (Reading n)
  then show ?thesis using assms
    by (auto simp: claim_defs stage_ok_def own_row_def claimed_ok_def split: option.splits)
qed (use assms in \<open>auto simp: claim_statement_def\<close>)

lemma statement_keeps:
  assumes inv: "coord_inv node off w" and s: "cw_stage w i = Some s"
    and st: "claim_statement (owner_of node i) s (cw_row w) = (s', row)"
  shows "coord_inv node off (set_stage i (Some s') (set_row row w))"
proof -
  let ?w = "set_stage i (Some s') (set_row row w)"
  have ok: "lease_ok w" "stage_ok node off i s w" "leader_ok node off i w"
    using inv s by (auto simp: coord_inv_def local_ok_def)
  consider (same) "row = cw_row w" "stage_ok node off i s' w" | (claimed) n r' where "row = Some r'" "0 \<le> n" "n \<le> cw_now w" "cl_ownerInstanceId r' = i"
      "cl_ownerNodeId r' = node i" "cl_expiresAt r' = n + CONTROL_PLANE_LEASE_TTL_MS" "s' = Claimed (lease_snapshot_of r' (owner_of node i))"
      "\<forall>r. cw_row w = Some r \<longrightarrow> cl_expiresAt r \<le> n \<or>
         cl_ownerInstanceId r = i \<and> cl_fencingEpoch r' = cl_fencingEpoch r \<and> cl_expiresAt r \<le> cl_expiresAt r'"
    using statement_row [OF ok(1,2) st] by blast
  then show ?thesis
  proof cases
    case same
    have "stage_ok node off i s' ?w"
      using keeps_refl [of ?w w node i] same(1) by (intro stage_keeps [OF same(2)]) auto
    moreover have "leader_ok node off i ?w" using ok(3) keeps_refl [of ?w w node i] same by (intro leader_keeps [OF ok(3)]) auto
    ultimately show ?thesis using ok(1) same
      by (intro inv_update [OF inv]) (auto simp: local_ok_def lease_ok_def keeps_refl)
  next
    case claimed
    have keeps: "row_keeps node j w ?w" for j
      using claimed by (auto simp: row_keeps_def intro: order_trans)
    have "stage_ok node off i s' ?w"
      using claimed by (auto simp: stage_ok_def claimed_ok_def backed_def lease_snapshot_of_def)
    moreover have "leader_ok node off i ?w" using ok(3) keeps by (intro leader_keeps [OF ok(3)]) auto
    moreover have "lease_ok ?w" using ok(1) claimed by (auto simp: lease_ok_def CONTROL_PLANE_LEASE_TTL_MS_def)
    moreover have "row_shrinks j w ?w" if "j \<noteq> i" for j using claimed that by (auto simp: row_shrinks_def)
    ultimately show ?thesis using keeps by (intro inv_update [OF inv]) (auto simp: local_ok_def)
  qed
qed

text \<open>Steps that leave the lease alone and change one process.\<close>

lemma proc_keeps:
  assumes "coord_inv node off w" "cw_row w' = cw_row w" "cw_now w' = cw_now w"
    and "\<And>j. j \<noteq> i \<Longrightarrow> cw_proc w' j = cw_proc w j \<and> cw_stage w' j = cw_stage w j"
    and "local_ok node off i w'"
  shows "coord_inv node off w'"
  using assms keeps_refl [of w' w] by (intro inv_update [OF assms(1)]) (auto simp: coord_inv_def lease_ok_def)

text \<open>Losing, observing or giving up the lease leaves no leader, and an election of an inactive process claims nothing.\<close>

lemma lost_not_leader [simp]: "co_role (fst (loseLeadership c)) \<noteq> Leader"
  by (simp add: loseLeadership_def without_owner_def)

lemma lost_flags [simp]:
  "co_started (fst (loseLeadership c)) = co_started c" "co_suspended (fst (loseLeadership c)) = co_suspended c"
  by (simp_all add: loseLeadership_def without_owner_def clearLeadershipWatchdog_def)

lemma not_leader_ok: "co_role (cw_proc w i) \<noteq> Leader \<Longrightarrow> leader_ok node off i w"
  by (simp add: leader_ok_def)

lemma inactive_not_leader: "leader_ok node off i w \<Longrightarrow> coordinator_inactive (cw_proc w i) \<Longrightarrow> co_role (cw_proc w i) \<noteq> Leader"
  by (auto simp: leader_ok_def coordinator_inactive_def)

lemma inv_locals: "coord_inv node off w \<Longrightarrow> lease_ok w \<and> leader_ok node off i w \<and> (\<forall>s. cw_stage w i = Some s \<longrightarrow> stage_ok node off i s w)"
  by (simp add: coord_inv_def local_ok_def)

lemma stage_flags:
  assumes "stage_ok node off i s w" "cw_row w' = cw_row w" "cw_now w' = cw_now w"
    and "coordinator_inactive (cw_proc w' i) \<or> coordinator_inactive (cw_proc w' i) = coordinator_inactive (cw_proc w i)"
  shows "stage_ok node off i s w'"
  using assms by (auto simp: stage_ok_def own_row_def claimed_ok_def backed_def split: stage.splits)

lemma tick_ends_simps [simp]:
  "co_role (tick_ends c) = co_role c" "co_started (tick_ends c) = co_started c" "co_suspended (tick_ends c) = co_suspended c"
  "co_fencingEpoch (tick_ends c) = co_fencingEpoch c" "co_validUntil (tick_ends c) = co_validUntil c"
  by (simp_all add: tick_ends_def)

lemma begin_keeps:
  assumes "coord_inv node off w" "cw_stage w i = None"
  shows "coord_inv node off (set_stage i (Some (Renewing (cw_now w))) (set_proc i (tick_begins (cw_proc w i)) w))"
proof (rule proc_keeps [OF assms(1), of _ i])
  let ?w = "set_stage i (Some (Renewing (cw_now w))) (set_proc i (tick_begins (cw_proc w i)) w)"
  have ok: "lease_ok w" "leader_ok node off i w" using inv_locals [OF assms(1)] by auto
  have flags: "co_role (tick_begins c) = co_role c" "co_started (tick_begins c) = co_started c"
    "co_suspended (tick_begins c) = co_suspended c" "co_fencingEpoch (tick_begins c) = co_fencingEpoch c"
    "co_validUntil (tick_begins c) = co_validUntil c" for c by (simp_all add: tick_begins_def)
  have "backed node i e d ?w = backed node i e d w" for e d by (simp add: backed_def)
  then have "leader_ok node off i ?w" using ok(2) by (simp add: leader_ok_def flags)
  moreover have "stage_ok node off i (Renewing (cw_now w)) ?w" using ok(1) by (simp add: stage_ok_def own_row_def lease_ok_def)
  ultimately show "local_ok node off i ?w" by (simp add: local_ok_def)
qed auto

lemma step_down_keeps:
  assumes "coord_inv node off w" "co_role c \<noteq> Leader"
    and "coordinator_inactive c \<or> coordinator_inactive c = coordinator_inactive (cw_proc w i)"
  shows "coord_inv node off (set_proc i c w)"
proof (rule proc_keeps [OF assms(1), of _ i])
  have "stage_ok node off i s (set_proc i c w)" if "cw_stage w i = Some s" for s
  proof (rule stage_flags)
    show "stage_ok node off i s w" using inv_locals [OF assms(1), of i] that by blast
    show "coordinator_inactive (cw_proc (set_proc i c w) i) \<or>
        coordinator_inactive (cw_proc (set_proc i c w) i) = coordinator_inactive (cw_proc w i)"
      unfolding cluster_simps fun_upd_same by (rule assms(3))
  qed simp_all
  then show "local_ok node off i (set_proc i c w)" using assms(2) by (simp add: local_ok_def not_leader_ok)
qed auto

lemma idle_keeps:
  assumes "coord_inv node off w" "co_role c \<noteq> Leader"
  shows "coord_inv node off (set_stage i None (set_proc i c w))"
  using assms by (intro proc_keeps [OF assms(1), of _ i]) (auto simp: local_ok_def not_leader_ok)

lemma resume_keeps:
  assumes "coord_inv node off w" "cw_stage w i = None"
  shows "coord_inv node off (set_proc i (resumeControlPlaneCoordinator (cw_proc w i)) w)"
proof (rule proc_keeps [OF assms(1), of _ i])
  have "leader_ok node off i w" using assms(1) by (auto simp: coord_inv_def local_ok_def)
  then show "local_ok node off i (set_proc i (resumeControlPlaneCoordinator (cw_proc w i)) w)"
    using assms(2) by (auto simp: local_ok_def leader_ok_def resumeControlPlaneCoordinator_def backed_def)
qed auto

text \<open>An inactive process expires its own lease.\<close>

lemma expire_own_keeps:
  assumes inv: "coord_inv node off w" and p: "\<And>r. p r \<Longrightarrow> cl_ownerInstanceId r = i"
    and inactive: "coordinator_inactive (cw_proc w i) \<or> cw_stage w i = None \<and> co_role (cw_proc w i) \<noteq> Leader"
  shows "coord_inv node off (set_row (expire_lease n p (cw_row w)) w)"
proof (rule inv_update [OF inv, of _ i])
  let ?w = "set_row (expire_lease n p (cw_row w)) w"
  have ok: "lease_ok w" "leader_ok node off i w" using inv_locals [OF inv] by auto
  show "lease_ok ?w" by (rule expire_lease_ok [OF ok(1)]) simp_all
  have "co_role (cw_proc w i) \<noteq> Leader" using inactive inactive_not_leader [OF ok(2)] by auto
  then have "leader_ok node off i ?w" by (simp add: not_leader_ok)
  moreover have "stage_ok node off i s ?w" if s: "cw_stage w i = Some s" for s
  proof (rule stage_keeps)
    show "stage_ok node off i s w" using inv_locals [OF inv] s by auto
    show "row_shrinks i w ?w" by (rule expire_shrinks [OF ok(1)]) simp_all
    show "row_keeps node i w ?w \<or> coordinator_inactive (cw_proc w i)" using inactive s by auto
  qed simp
  ultimately show "local_ok node off i ?w" by (simp add: local_ok_def)
  show "row_keeps node j w ?w \<and> row_shrinks j w ?w \<and> cw_proc ?w j = cw_proc w j \<and> cw_stage ?w j = cw_stage w j" if "j \<noteq> i" for j
    using expire_keeps [of ?w n p w j node] expire_shrinks [OF ok(1), of ?w n p j] p that by auto
qed

lemma release_keeps:
  assumes "coord_inv node off w" "coordinator_inactive (cw_proc w i) \<or> cw_stage w i = None \<and> co_role (cw_proc w i) \<noteq> Leader"
  shows "coord_inv node off (set_row (snd (releaseControlPlaneLease (owner_of node i) epoch n (cw_row w))) w)"
  using expire_own_keeps [OF assms(1) _ assms(2), of "\<lambda>r. cl_ownerInstanceId r = i \<and> cl_fencingEpoch r = epoch" n]
  by (simp add: releaseControlPlaneLease_def owner_of_def Let_def)

lemma resign_commit_keeps:
  assumes "coord_inv node off w" "co_suspended (cw_proc w i)"
  shows "coord_inv node off (set_row (resign_commit (owner_of node i) epoch n (cw_row w)) w)"
  using expire_own_keeps [OF assms(1), of "\<lambda>r. cl_ownerInstanceId r = i \<and> (case epoch of None \<Rightarrow> True | Some e \<Rightarrow> cl_fencingEpoch r = e)" i n]
    assms(2) by (simp add: resign_commit_def owner_of_def coordinator_inactive_def)

lemma end_tick_eq: "end_tick i c w = set_stage i None (set_proc i (tick_ends c) w)"
  by (simp add: end_tick_def)

text \<open>The end of an election of an inactive process.\<close>

lemma inactive_end_keeps:
  assumes "coord_inv node off w" "coordinator_inactive (cw_proc w i)"
    "releaseClaimIfCoordinatorInactive (owner_of node i) l n (cw_proc w i) (cw_row w) = (True, row)"
  shows "coord_inv node off (end_tick i (cw_proc w i) (set_row row w))"
proof -
  have not_leader: "co_role (cw_proc w i) \<noteq> Leader"
    using inactive_not_leader [of node off i w] inv_locals [OF assms(1)] assms(2) by blast
  have "coord_inv node off (set_row row w)"
    using assms release_keeps [OF assms(1), of i "sn_fencingEpoch l" n]
    by (auto simp: releaseClaimIfCoordinatorInactive_def split: if_splits) (simp add: set_row_def)
  then show ?thesis using not_leader unfolding end_tick_eq by (intro idle_keeps) simp_all
qed

lemma claimed_keeps:
  assumes inv: "coord_inv node off w" and s: "cw_stage w i = Some (Claimed l)"
  shows "coord_inv node off (tick_claimed node off i l w)"
proof (cases "coordinator_inactive (cw_proc w i)")
  case True
  then obtain row where r: "releaseClaimIfCoordinatorInactive (owner_of node i) l (cw_now w) (cw_proc w i) (cw_row w) = (True, row)"
    by (auto simp: releaseClaimIfCoordinatorInactive_def)
  show ?thesis using inactive_end_keeps [OF inv True r] by (simp add: tick_claimed_def r)
next
  case False
  then have r: "releaseClaimIfCoordinatorInactive (owner_of node i) l (cw_now w) (cw_proc w i) (cw_row w) = (False, cw_row w)"
    by (simp add: releaseClaimIfCoordinatorInactive_def)
  show ?thesis
  proof (cases "sn_acquired l")
    case True
    let ?w = "set_stage i (Some (Confirming l (local_time off i w))) w"
    have ok: "leader_ok node off i w" "claimed_ok node i l w" using inv_locals [OF inv, of i] s by (auto simp: stage_ok_def)
    have "local_ok node off i ?w"
      using ok True by (simp add: local_ok_def stage_ok_def claimed_ok_def leader_ok_def backed_def)
    then have "coord_inv node off ?w" by (intro proc_keeps [OF inv, of _ i]) auto
    then show ?thesis using True by (simp add: tick_claimed_def r)
  next
    case False
    have "co_role (fst (applyFollowerCoordinatorLease l c)) \<noteq> Leader" for c
      by (simp add: applyFollowerCoordinatorLease_def with_lease_def split: prod.split)
    then show ?thesis using False idle_keeps [OF inv] by (simp add: tick_claimed_def r end_tick_eq)
  qed
qed

text \<open>The deadline that a confirmation sets lies before the expiry of the confirmed lease.\<close>

lemma deadline_before_expiry:
  assumes "started \<le> of_int databaseNow + off" "databaseNow \<le> now"
    and "0 < conservativeLeaseRemainingMs e databaseNow started (of_int now + off)"
  shows "of_int now + conservativeLeaseRemainingMs e databaseNow started (of_int now + off) \<le> of_int e"
proof -
  have "of_int databaseNow \<le> (of_int now :: rat)" using assms(2) by simp
  then show ?thesis using assms(1,3) by (auto simp: conservativeLeaseRemainingMs_def Let_def max_def split: if_splits)
qed

lemma confirmed_keeps:
  assumes inv: "coord_inv node off w" and s: "cw_stage w i = Some (Confirming l started)"
    and sample: "started \<le> of_int databaseNow + off i" "databaseNow \<le> cw_now w"
  shows "coord_inv node off (tick_confirmed node off i l started databaseNow w)"
proof (cases "coordinator_inactive (cw_proc w i)")
  case True
  then obtain row where r: "releaseClaimIfCoordinatorInactive (owner_of node i) l (cw_now w) (cw_proc w i) (cw_row w) = (True, row)"
    by (auto simp: releaseClaimIfCoordinatorInactive_def)
  show ?thesis using inactive_end_keeps [OF inv True r] by (simp add: tick_confirmed_def r)
next
  case False
  then have r: "releaseClaimIfCoordinatorInactive (owner_of node i) l (cw_now w) (cw_proc w i) (cw_row w) = (False, cw_row w)"
    by (simp add: releaseClaimIfCoordinatorInactive_def)
  let ?rem = "conservativeLeaseRemainingMs (sn_expiresAt l) databaseNow started (local_time off i w)"
  let ?c = "fst (applyAcquiredCoordinatorLease l databaseNow started (local_time off i w) (local_time off i w) (cw_proc w i))"
  have tick: "tick_confirmed node off i l started databaseNow w = end_tick i ?c w" by (simp add: tick_confirmed_def r)
  show ?thesis
  proof (cases "?rem \<le> 0")
    case True
    then have "co_role ?c \<noteq> Leader" by (simp add: applyAcquiredCoordinatorLease_def with_lease_def Let_def split: prod.split)
    then show ?thesis unfolding tick end_tick_eq by (intro idle_keeps [OF inv]) simp
  next
    case rem: False
    then have c: "co_role ?c = Leader" "co_fencingEpoch ?c = Some (sn_fencingEpoch l)" "co_started ?c = co_started (cw_proc w i)"
        "co_suspended ?c = co_suspended (cw_proc w i)" "co_validUntil ?c = local_time off i w + ?rem"
      by (simp_all add: applyAcquiredCoordinatorLease_def with_lease_def armLeadershipWatchdog_def Let_def)
    have "claimed_ok node i l w" "sn_acquired l" using inv_locals [OF inv, of i] s by (auto simp: stage_ok_def)
    then have "backed node i (sn_fencingEpoch l) (of_int (sn_expiresAt l)) w" using False by (simp add: claimed_ok_def)
    moreover have "co_validUntil ?c - off i \<le> of_int (sn_expiresAt l)"
      using deadline_before_expiry [OF sample, of "sn_expiresAt l"] rem unfolding c(5) by (simp add: local_time_def)
    ultimately have "backed node i (sn_fencingEpoch l) (co_validUntil ?c - off i) w" by (rule backed_le)
    then have "leader_ok node off i (end_tick i ?c w)"
      using False c by (simp add: leader_ok_def end_tick_eq backed_def coordinator_inactive_def)
    then have "local_ok node off i (end_tick i ?c w)" by (simp add: local_ok_def end_tick_eq)
    then show ?thesis unfolding tick by (intro proc_keeps [OF inv, of _ i]) (auto simp: end_tick_eq)
  qed
qed

lemma time_keeps:
  assumes "coord_inv node off w" "cw_now w \<le> n"
  shows "coord_inv node off (w\<lparr>cw_now := n\<rparr>)"
proof -
  let ?w = "w\<lparr>cw_now := n\<rparr>"
  have "lease_ok ?w" using inv_locals [OF assms(1)] assms(2) by (force simp: lease_ok_def)
  moreover have "local_ok node off i ?w" for i
    using local_keeps [of node off i w ?w] keeps_refl [of ?w w node i] assms by (simp add: coord_inv_def)
  ultimately show ?thesis by (simp add: coord_inv_def)
qed

lemma coord_inv_step: "coord_step node off w w' \<Longrightarrow> coord_inv node off w \<Longrightarrow> coord_inv node off w'"
proof (induction rule: coord_step.induct)
  case (k_observe w i)
  have "co_role (observeCoordinatorTick row c) \<noteq> Leader" "coordinator_inactive (observeCoordinatorTick row c) = coordinator_inactive c" for row c
    by (auto simp: observeCoordinatorTick_def without_owner_def with_lease_def coordinator_inactive_def split: option.split)
  then show ?case using step_down_keeps [OF k_observe(4)] by blast
next
  case (k_failed w i s)
  have "co_role (fst (tick_fails c)) \<noteq> Leader" for c by (simp add: tick_fails_def split_def Let_def)
  then show ?case using idle_keeps [OF k_failed(2)] by blast
next
  case (k_watchdog w i generation epoch)
  show ?case
  proof (cases "fst (watchdog_fires generation epoch (cw_proc w i)) = cw_proc w i")
    case True
    then have "set_proc i (fst (watchdog_fires generation epoch (cw_proc w i))) w = w" by (simp add: set_proc_def)
    then show ?thesis using k_watchdog by metis
  next
    case False
    then have "fst (watchdog_fires generation epoch (cw_proc w i)) = fst (loseLeadership (cw_proc w i))"
      by (auto simp: watchdog_fires_def split: if_splits)
    then show ?thesis using step_down_keeps [OF k_watchdog, of "fst (loseLeadership (cw_proc w i))" i]
      by (simp add: coordinator_inactive_def)
  qed
next
  case (k_resign w i)
  let ?c = "fst (snd (resign_local True (cw_proc w i)))"
  have "co_role ?c \<noteq> Leader" "coordinator_inactive ?c"
    by (auto simp: resign_local_def coordinator_inactive_def split_def Let_def)
  then show ?case using step_down_keeps [OF k_resign] by blast
next
  case (k_start w i)
  have "leader_ok node off i w" using inv_locals [OF k_start(3)] by blast
  then have "co_role (startControlPlaneCoordinator True True (cw_proc w i)) \<noteq> Leader"
    using k_start(2) by (simp add: startControlPlaneCoordinator_def without_owner_def)
  moreover have "set_proc i c w = set_stage i None (set_proc i c w)" for c
    using k_start(1) by (simp add: set_proc_def set_stage_def fun_upd_idem)
  ultimately show ?case using idle_keeps [OF k_start(3)] by metis
next
  case (k_stop w i eligible)
  let ?c = "fst (snd (stopControlPlaneCoordinator True eligible (cw_proc w i)))"
  have "leader_ok node off i w" using inv_locals [OF k_stop] by blast
  then have "co_role ?c \<noteq> Leader" "coordinator_inactive ?c"
    by (auto simp: stopControlPlaneCoordinator_def coordinator_inactive_def leader_ok_def without_owner_def clearLeadershipWatchdog_def
        split_def Let_def)
  then show ?case using step_down_keeps [OF k_stop] by blast
next
  case (k_activation_fails w i generation c es epoch)
  have "loseLeadership (cw_proc w i) = (c, es)" using k_activation_fails(2) by (simp add: activation_fails_def split: if_splits)
  then have "c = fst (loseLeadership (cw_proc w i))" by simp
  then have c: "co_role c \<noteq> Leader" by simp
  have "coord_inv node off (set_stage i None (set_proc i c w))" by (rule idle_keeps [OF k_activation_fails(3) c])
  moreover have "set_stage i None (set_proc i c w) = set_proc i c w"
    using k_activation_fails(1) by (simp add: set_proc_def set_stage_def fun_upd_idem)
  ultimately show ?case
    using release_keeps [of node off "set_proc i c w" i epoch "cw_now w"] c k_activation_fails(1) by (simp add: set_row_def set_proc_def)
qed (auto intro: time_keeps begin_keeps statement_keeps claimed_keeps confirmed_keeps resign_commit_keeps resume_keeps
  intro!: release_keeps simp: coordinator_inactive_def)


section \<open>One coordinator\<close>

interpretation coordinators: invariant_system coord_init "coord_step node off" "coord_inv node off" for node off
proof
  show "coord_inv node off w" if "coord_init w" for w
    using that by (auto simp: coord_init_def coord_inv_def local_ok_def lease_ok_def leader_ok_def)
qed (rule coord_inv_step)

definition leads :: "(string \<Rightarrow> rat) \<Rightarrow> string \<Rightarrow> cluster \<Rightarrow> bool" where
  "leads off i w \<longleftrightarrow> isControlPlaneCoordinatorLeader (local_time off i w) (cw_proc w i)"

lemma leader_holds_lease:
  assumes "coord_inv node off w" "leads off i w"
  shows "\<exists>r. cw_row w = Some r \<and> cl_ownerInstanceId r = i \<and> cl_ownerNodeId r = node i \<and>
    co_fencingEpoch (cw_proc w i) = Some (cl_fencingEpoch r) \<and> cw_now w < cl_expiresAt r"
proof -
  have "co_role (cw_proc w i) = Leader" and late: "of_int (cw_now w) + off i < co_validUntil (cw_proc w i)"
    using assms(2) by (simp_all add: leads_def isControlPlaneCoordinatorLeader_def local_time_def)
  then obtain e where e: "co_fencingEpoch (cw_proc w i) = Some e" "backed node i e (co_validUntil (cw_proc w i) - off i) w"
    using inv_locals [OF assms(1), of i] by (auto simp: leader_ok_def)
  then obtain r where r: "cw_row w = Some r" "cl_ownerInstanceId r = i" "cl_ownerNodeId r = node i" "cl_fencingEpoch r = e"
      and "co_validUntil (cw_proc w i) - off i \<le> of_int (cl_expiresAt r)"
    using late by (auto simp: backed_def)
  then have "of_int (cw_now w) < (of_int (cl_expiresAt r) :: rat)" using late by linarith
  then show ?thesis using r e(1) by auto
qed


text \<open>Epochs only grow, and an epoch belongs to one process.\<close>

definition epoch_moves :: "control_lease option \<Rightarrow> control_lease option \<Rightarrow> bool" where
  "epoch_moves row row' \<longleftrightarrow> (\<forall>r. row = Some r \<longrightarrow> (\<exists>r'. row' = Some r' \<and> cl_fencingEpoch r \<le> cl_fencingEpoch r' \<and>
     (cl_fencingEpoch r = cl_fencingEpoch r' \<longrightarrow> cl_ownerInstanceId r = cl_ownerInstanceId r')))"

lemma epoch_moves_refl: "epoch_moves row row"
  by (simp add: epoch_moves_def)

lemma epoch_moves_expire: "epoch_moves row (expire_lease n p row)"
  by (cases row) (auto simp: epoch_moves_def expire_lease_def)

lemma epoch_moves_release: "epoch_moves row (snd (releaseControlPlaneLease me e n row))"
  by (simp add: releaseControlPlaneLease_def Let_def epoch_moves_expire)

lemma epoch_moves_inactive: "releaseClaimIfCoordinatorInactive me l n c row = (b, row') \<Longrightarrow> epoch_moves row row'"
  by (auto simp: releaseClaimIfCoordinatorInactive_def epoch_moves_refl epoch_moves_release split: if_splits)

lemma epoch_moves_claim: "claim_statement me s row = (s', row') \<Longrightarrow> epoch_moves row row'"
  by (cases s; cases row) (auto simp: claim_statement_def claim_renew_def claim_insert_def claim_takeover_def epoch_moves_def
      split: if_splits)

lemma epoch_moves_step: "coord_step node off w w' \<Longrightarrow> epoch_moves (cw_row w) (cw_row w')"
proof (induction rule: coord_step.induct)
  case (k_claimed w i l)
  then show ?case by (auto simp: tick_claimed_def end_tick_eq epoch_moves_refl dest: epoch_moves_inactive split: prod.split bool.split)
next
  case (k_confirmed w i l started databaseNow)
  then show ?case by (auto simp: tick_confirmed_def end_tick_eq epoch_moves_refl dest: epoch_moves_inactive split: prod.split bool.split)
qed (auto simp: epoch_moves_refl epoch_moves_release resign_commit_def epoch_moves_expire intro: epoch_moves_claim)

lemma epoch_moves_trans: "epoch_moves a b \<Longrightarrow> epoch_moves b c \<Longrightarrow> epoch_moves a c"
  unfolding epoch_moves_def by (cases a; cases b; cases c) auto

lemma epoch_moves_steps: "(coord_step node off)\<^sup>*\<^sup>* w w' \<Longrightarrow> epoch_moves (cw_row w) (cw_row w')"
  by (induction rule: rtranclp_induct) (auto intro: epoch_moves_refl epoch_moves_trans epoch_moves_step)

text \<open>The fence orders the coordinators: once the fence of an epoch has passed for a process, later the fence passes only
  for the same or a higher epoch, and never for the same epoch of another process.\<close>

theorem coordinator_epochs_ordered:
  assumes "(coord_step node off)\<^sup>*\<^sup>* w w'"
    and "assertControlPlaneCoordinatorFenceTx True (owner_of node i) e (cw_now w) (cw_row w)"
    and "assertControlPlaneCoordinatorFenceTx True (owner_of node j) f (cw_now w') (cw_row w')"
  shows "e \<le> f \<and> (e = f \<longrightarrow> i = j)"
  using epoch_moves_steps [OF assms(1)] assms(2,3)
  by (auto simp: assertControlPlaneCoordinatorFenceTx_def epoch_moves_def owner_of_def split: option.splits)


section \<open>Runs of two processes\<close>

definition idle_process :: coordinator where
  "idle_process = \<lparr>co_role = Disabled, co_ownerNodeId = None, co_fencingEpoch = None, co_expiresAt = None, co_heartbeatAt = None,
     co_suspended = False, co_started = False, co_validUntil = 0, co_generation = 0, co_inFlight = 0\<rparr>"

definition no_offset :: "string \<Rightarrow> rat" where "no_offset i = 0"
definition same_node :: "string \<Rightarrow> string" where "same_node i = ''node''"

abbreviation demo_step :: "cluster \<Rightarrow> cluster \<Rightarrow> bool" where
  "demo_step \<equiv> coord_step same_node no_offset"

definition started_by :: "string \<Rightarrow> cluster \<Rightarrow> cluster" where
  "started_by i w = set_proc i (startControlPlaneCoordinator True True (cw_proc w i)) w"

definition begun_by :: "string \<Rightarrow> cluster \<Rightarrow> cluster" where
  "begun_by i w = set_stage i (Some (Renewing (cw_now w))) (set_proc i (tick_begins (cw_proc w i)) w)"

definition statement_by :: "string \<Rightarrow> cluster \<Rightarrow> cluster" where
  "statement_by i w = (case cw_stage w i of
     None \<Rightarrow> w
   | Some s \<Rightarrow> (case claim_statement (owner_of same_node i) s (cw_row w) of (s', row) \<Rightarrow> set_stage i (Some s') (set_row row w)))"

definition answered_by :: "string \<Rightarrow> cluster \<Rightarrow> cluster" where
  "answered_by i w = (case cw_stage w i of
     Some (Claimed l) \<Rightarrow> tick_claimed same_node no_offset i l w
   | Some (Confirming l started) \<Rightarrow> tick_confirmed same_node no_offset i l started (cw_now w) w
   | _ \<Rightarrow> w)"

definition quiet_cluster :: cluster where
  "quiet_cluster = \<lparr>cw_row = None, cw_now = 0, cw_proc = (\<lambda>_. idle_process), cw_stage = (\<lambda>_. None)\<rparr>"

definition demo_leader :: cluster where
  "demo_leader = answered_by ''a'' (answered_by ''a'' (statement_by ''a'' (statement_by ''a'' (begun_by ''a'' (started_by ''a'' quiet_cluster)))))"

lemma election_steps:
  "cw_stage w i = None \<Longrightarrow> \<not> co_started (cw_proc w i) \<Longrightarrow> demo_step w (started_by i w)"
  "cw_stage w i = None \<Longrightarrow> co_started (cw_proc w i) \<Longrightarrow> \<not> co_suspended (cw_proc w i) \<Longrightarrow> demo_step w (begun_by i w)"
  "cw_stage w i \<noteq> None \<Longrightarrow> demo_step w (statement_by i w)"
  unfolding started_by_def begun_by_def statement_by_def
  by (auto intro: k_start k_begin k_statement split: prod.split)

definition awaits_answer :: "string \<Rightarrow> cluster \<Rightarrow> bool" where
  "awaits_answer i w = (case cw_stage w i of
     Some (Claimed l) \<Rightarrow> True | Some (Confirming l started) \<Rightarrow> started \<le> of_int (cw_now w) | _ \<Rightarrow> False)"

lemma demo_answer: "awaits_answer i w \<Longrightarrow> demo_step w (answered_by i w)"
  unfolding awaits_answer_def answered_by_def
  by (auto intro: k_claimed k_confirmed simp: no_offset_def split: option.splits stage.splits)

lemma reach_election:
  assumes "reach coord_init demo_step w" "cw_stage w i = None" "co_started (cw_proc w i)" "\<not> co_suspended (cw_proc w i)"
    and "cw_stage (begun_by i w) i \<noteq> None" "cw_stage (statement_by i (begun_by i w)) i \<noteq> None"
    and "awaits_answer i (statement_by i (statement_by i (begun_by i w)))"
  shows "reach coord_init demo_step (answered_by i (statement_by i (statement_by i (begun_by i w))))"
proof -
  have "reach coord_init demo_step (begun_by i w)" by (rule reach_step [OF assms(1)]) (rule election_steps(2) [OF assms(2-4)])
  then have "reach coord_init demo_step (statement_by i (begun_by i w))"
    by (rule reach_step) (rule election_steps(3) [OF assms(5)])
  then have "reach coord_init demo_step (statement_by i (statement_by i (begun_by i w)))"
    by (rule reach_step) (rule election_steps(3) [OF assms(6)])
  then show ?thesis by (rule reach_step) (rule demo_answer [OF assms(7)])
qed

lemma reach_demo_0: "reach coord_init demo_step quiet_cluster"
  by (rule reach_init) (simp add: coord_init_def quiet_cluster_def idle_process_def)

definition demo_confirming :: cluster where
  "demo_confirming = answered_by ''a'' (statement_by ''a'' (statement_by ''a'' (begun_by ''a'' (started_by ''a'' quiet_cluster))))"

lemma reach_demo_confirming: "reach coord_init demo_step demo_confirming"
  unfolding demo_confirming_def
proof (rule reach_election)
  show "reach coord_init demo_step (started_by ''a'' quiet_cluster)"
    by (rule reach_step [OF reach_demo_0 election_steps(1)]) (simp_all add: quiet_cluster_def idle_process_def)
  show "awaits_answer ''a'' (statement_by ''a'' (statement_by ''a'' (begun_by ''a'' (started_by ''a'' quiet_cluster))))" by code_simp
qed (simp_all add: started_by_def begun_by_def statement_by_def quiet_cluster_def idle_process_def startControlPlaneCoordinator_def without_owner_def
  split: prod.split)

lemma reach_demo_leader: "reach coord_init demo_step demo_leader"
proof -
  have "awaits_answer ''a'' demo_confirming" by code_simp
  then have "reach coord_init demo_step (answered_by ''a'' demo_confirming)"
    by (rule reach_step [OF reach_demo_confirming demo_answer])
  then show ?thesis by (simp only: demo_leader_def demo_confirming_def)
qed

lemma demo_leads: "leads no_offset ''a'' demo_leader"
  by code_simp


theorem coordinator_epochs_ordered_witness:
  "\<not> assertControlPlaneCoordinatorFenceTx True (owner_of same_node ''b'') 1 (cw_now demo_leader) (cw_row demo_leader)"
proof -
  have "assertControlPlaneCoordinatorFenceTx True (owner_of same_node ''a'') 1 (cw_now demo_leader) (cw_row demo_leader)" by code_simp
  then show ?thesis
    using coordinator_epochs_ordered [OF rtranclp.rtrancl_refl, of same_node "''a''" 1 demo_leader "''b''" 1] by auto
qed

text \<open>
  Without the condition that no election is in flight when a process resumes: \<open>a\<close> waits for the confirmation of its lease, resigns,
  \<open>b\<close> takes over and leads, \<open>a\<close> resumes, and its confirmation makes it a leader beside \<open>b\<close> on the lease it gave up.
\<close>

definition demo_resigned :: cluster where
  "demo_resigned = (let w = set_proc ''a'' (fst (snd (resign_local True (cw_proc demo_confirming ''a'')))) demo_confirming in
     set_row (resign_commit (owner_of same_node ''a'') None (cw_now w) (cw_row w)) w)"

definition demo_replaced :: cluster where
  "demo_replaced = answered_by ''b'' (answered_by ''b'' (statement_by ''b'' (statement_by ''b'' (statement_by ''b'' (begun_by ''b''
     (started_by ''b'' demo_resigned))))))"

lemma resume_during_election_makes_two_leaders:
  "leads no_offset ''b'' demo_replaced \<and>
   (let w = answered_by ''a'' (set_proc ''a'' (resumeControlPlaneCoordinator (cw_proc demo_replaced ''a'')) demo_replaced) in
    leads no_offset ''a'' w \<and> leads no_offset ''b'' w)"
  by code_simp

end
