(* ===== verification/NodeDrain.thy ===== *)
theory NodeDrain imports Coordinator begin

text \<open>
  The planned drain of a replica: \<open>lib/node-drain.ts\<close>. The requests are rows of \<open>controlPlaneNodes\<close>, the phase of the process
  is its module state, the local work is what the worker's probe reports, and the coordinator is the one of
  \<open>Coordinator\<close>. Functions that wait are split where they wait.
\<close>

section \<open>State\<close>

record node_row =
  nr_id :: string
  nr_instanceId :: "string option"
  nr_protocolVersion :: "int option"
  nr_status :: string
  nr_drainRequestedAt :: "int option"
  nr_drainRequestedBy :: "string option"
  nr_drainReason :: "string option"
  nr_drainedAt :: "int option"
  nr_lastHeartbeatAt :: int

datatype drain_phase = Active | Draining | Drained

record drain_state =
  ds_phase :: drain_phase
  ds_requestedAt :: "int option"
  ds_requestedBy :: "string option"
  ds_reason :: "string option"
  ds_drainedAt :: "int option"
  ds_identityLost :: bool

record drain_activity =
  da_runExecutions :: nat
  da_assessments :: nat
  da_durableJobs :: nat

definition nodeDrainRequested :: "drain_state \<Rightarrow> bool" where
  "nodeDrainRequested d \<longleftrightarrow> ds_phase d \<noteq> Active"

definition recordedNodeDrainPhase :: "string \<Rightarrow> node_row table \<Rightarrow> drain_phase option" where
  "recordedNodeDrainPhase node t = (case db_find (\<lambda>r. nr_id r = node) t of
     None \<Rightarrow> None
   | Some r \<Rightarrow> Some (if nr_drainedAt r \<noteq> None then Drained else if nr_drainRequestedAt r = None then Active else Draining))"

definition drainComplete :: "rat \<Rightarrow> drain_activity \<Rightarrow> coordinator \<Rightarrow> bool" where
  "drainComplete perf a c \<longleftrightarrow> da_runExecutions a = 0 \<and> da_assessments a = 0 \<and> da_durableJobs a = 0 \<and>
     \<not> isControlPlaneCoordinatorLeader perf c \<and> co_inFlight c = 0 \<and> co_suspended c"


section \<open>The local phase\<close>

text \<open>\<open>persistDrainedAt\<close>; a failing statement is \<open>False\<close>.\<close>

definition persistDrainedAt :: "lease_owner \<Rightarrow> int \<Rightarrow> node_row table \<Rightarrow> bool \<times> node_row table" where
  "persistDrainedAt me completedAt t =
     (let p = (\<lambda>r. nr_id r = lo_nodeId me \<and> nr_instanceId r = Some (lo_instanceId me) \<and> nr_drainRequestedAt r \<noteq> None);
          f = (\<lambda>r. r\<lparr>nr_status := ''drained'', nr_drainedAt := Some completedAt, nr_lastHeartbeatAt := completedAt\<rparr>) in
      (db_returning p f t \<noteq> [], db_update p f t))"

text \<open>The coordinator after \<open>quiesceCoordinatorForDrain\<close>; the statement that expires the lease follows.\<close>

definition quiesceCoordinatorForDrain :: "bool \<Rightarrow> rat \<Rightarrow> drain_activity \<Rightarrow> coordinator \<Rightarrow> coordinator" where
  "quiesceCoordinatorForDrain ha perf a c =
     (if isControlPlaneCoordinatorLeader perf c \<and> 0 < da_assessments a then c
      else if co_suspended c then c
      else fst (snd (resign_local ha c)))"

text \<open>
  \<open>evaluateNodeDrainCompletion\<close>: the check after the coordinator is quiet (whether the completion is recorded next), and the
  end after it was recorded.
\<close>

definition evaluate_check :: "rat \<Rightarrow> drain_activity \<Rightarrow> coordinator \<Rightarrow> drain_state \<Rightarrow> bool" where
  "evaluate_check perf a c d \<longleftrightarrow> ds_phase d = Draining \<and> drainComplete perf a c"

definition evaluate_finish :: "int \<Rightarrow> drain_state \<Rightarrow> drain_state" where
  "evaluate_finish completedAt d = d\<lparr>ds_phase := Drained, ds_drainedAt := Some completedAt\<rparr>"

definition beginLocalNodeDrain :: "int \<Rightarrow> string option \<Rightarrow> string option \<Rightarrow> drain_state \<Rightarrow> drain_state" where
  "beginLocalNodeDrain now requestedBy reason d =
     (if ds_phase d = Active
      then d\<lparr>ds_phase := Draining, ds_requestedAt := Some now, ds_requestedBy := requestedBy, ds_reason := reason, ds_drainedAt := None\<rparr>
      else d)"

definition cancelLocalNodeDrain :: "drain_state \<times> coordinator \<Rightarrow> drain_state \<times> coordinator" where
  "cancelLocalNodeDrain dc = (case dc of (d, c) \<Rightarrow>
     if ds_identityLost d then (d, c)
     else if ds_phase d \<noteq> Active then
       (d\<lparr>ds_phase := Active, ds_requestedAt := None, ds_requestedBy := None, ds_reason := None, ds_drainedAt := None\<rparr>,
        resumeControlPlaneCoordinator c)
     else (d, c))"


section \<open>Requests\<close>

datatype drain_request_result = Requested | Not_found | Unsupported

text \<open>The event \<open>ha.node.drain\<close>: the target, whether to drain, and by whom and why.\<close>

datatype drain_event = Drain_event string string bool "string option" "string option"

definition persistDrainRequest ::
    "string \<Rightarrow> string \<Rightarrow> string option \<Rightarrow> string option \<Rightarrow> int \<Rightarrow> node_row table \<Rightarrow> bool \<times> node_row table" where
  "persistDrainRequest targetNodeId targetInstanceId requestedBy drainReason now t =
     (let p = (\<lambda>r. nr_id r = targetNodeId \<and> nr_instanceId r = Some targetInstanceId \<and> nr_drainRequestedAt r = None);
          f = (\<lambda>r. r\<lparr>nr_status := ''maintenance'', nr_drainRequestedAt := Some now, nr_drainRequestedBy := requestedBy,
            nr_drainReason := drainReason, nr_drainedAt := None\<rparr>) in
      (db_returning p f t \<noteq> [], db_update p f t))"

definition drainRequestExists :: "string \<Rightarrow> string \<Rightarrow> node_row table \<Rightarrow> bool" where
  "drainRequestExists node inst t =
     (case db_find (\<lambda>r. nr_id r = node \<and> nr_instanceId r = Some inst) t of
        None \<Rightarrow> False | Some r \<Rightarrow> nr_drainRequestedAt r \<noteq> None)"

definition supportsNodeDrain :: "int option \<Rightarrow> bool" where
  "supportsNodeDrain protocolVersion \<longleftrightarrow> 2 \<le> js_default protocolVersion 1"

text \<open>\<open>read\<close> is the table when the function reads the target, \<open>t\<close> when it writes; the event wakes the target.\<close>

definition requestNodeDrain ::
    "string \<Rightarrow> string option \<Rightarrow> string option \<Rightarrow> int \<Rightarrow> node_row table \<Rightarrow> node_row table \<Rightarrow>
     drain_request_result \<times> drain_event option \<times> node_row table" where
  "requestNodeDrain targetNodeId requestedBy reason now read t = (case db_find (\<lambda>r. nr_id r = targetNodeId) read of
     None \<Rightarrow> (Not_found, None, t)
   | Some target \<Rightarrow>
       (case nr_instanceId target of
          None \<Rightarrow> (Unsupported, None, t)
        | Some inst \<Rightarrow>
            if \<not> supportsNodeDrain (nr_protocolVersion target) then (Unsupported, None, t)
            else if nr_drainRequestedAt target \<noteq> None
            then (Requested, Some (Drain_event targetNodeId inst True (nr_drainRequestedBy target) (nr_drainReason target)), t)
            else (case persistDrainRequest targetNodeId inst requestedBy reason now t of
               (False, _) \<Rightarrow> (if drainRequestExists targetNodeId inst t then Requested else Not_found, None, t)
             | (True, t') \<Rightarrow> (Requested, Some (Drain_event targetNodeId inst True requestedBy reason), t'))))"

definition cancelNodeDrain :: "string \<Rightarrow> node_row table \<Rightarrow> bool \<times> drain_event option \<times> node_row table" where
  "cancelNodeDrain targetNodeId t =
     (let p = (\<lambda>r. nr_id r = targetNodeId \<and> nr_drainRequestedAt r \<noteq> None);
          f = (\<lambda>r. r\<lparr>nr_status := ''active'', nr_drainRequestedAt := None, nr_drainRequestedBy := None, nr_drainReason := None,
            nr_drainedAt := None\<rparr>) in
      case db_returning p f t of
        [] \<Rightarrow> (False, None, t)
      | canceled # _ \<Rightarrow> (True, map_option (\<lambda>inst. Drain_event targetNodeId inst False None None) (nr_instanceId canceled), db_update p f t))"

definition handleDrainEvent :: "lease_owner \<Rightarrow> int \<Rightarrow> drain_event \<Rightarrow> drain_state \<times> coordinator \<Rightarrow> drain_state \<times> coordinator" where
  "handleDrainEvent me now e dc = (case e of Drain_event node inst drain by why \<Rightarrow>
     if node \<noteq> lo_nodeId me \<or> inst \<noteq> lo_instanceId me then dc
     else if \<not> drain then (if ds_identityLost (fst dc) then dc else cancelLocalNodeDrain dc)
     else (beginLocalNodeDrain now by why (fst dc), snd dc))"

text \<open>\<open>row\<close>: the node's row as the heartbeat reads it, \<open>None\<close> where there is none or the read fails.\<close>

definition reconcileRecordedDrainRequest ::
    "bool \<Rightarrow> lease_owner \<Rightarrow> int \<Rightarrow> node_row option \<Rightarrow> drain_state \<times> coordinator \<Rightarrow> drain_state \<times> coordinator" where
  "reconcileRecordedDrainRequest ha me now row dc = (case dc of (d, c) \<Rightarrow> (case row of
     None \<Rightarrow> (d, c)
   | Some r \<Rightarrow>
       if nr_instanceId r \<noteq> Some (lo_instanceId me) then
         (let d1 = d\<lparr>ds_identityLost := True\<rparr> in
          (if ds_phase d1 = Active
           then d1\<lparr>ds_phase := Draining, ds_requestedAt := Some now, ds_requestedBy := Some ''system'',
             ds_reason := Some ''control-plane node identity replaced'', ds_drainedAt := None\<rparr>
           else d1, fst (snd (resign_local ha c))))
       else if nr_drainRequestedAt r \<noteq> None \<and> ds_phase d = Active
       then (beginLocalNodeDrain now (nr_drainRequestedBy r) (nr_drainReason r) d, c)
       else if nr_drainRequestedAt r = None \<and> ds_phase d \<noteq> Active then cancelLocalNodeDrain (d, c)
       else (d, c)))"


section \<open>The drain of one process\<close>

text \<open>A completion in progress: checked and about to be recorded, or recorded and about to change the phase.\<close>

datatype drain_completion = Checked int | Recorded int

record drain_world =
  dw_drain :: drain_state
  dw_coord :: coordinator
  dw_activity :: drain_activity
  dw_perf :: rat
  dw_rows :: "node_row table"
  dw_completing :: "drain_completion option"

abbreviation dw_local :: "drain_world \<Rightarrow> drain_state \<times> coordinator" where
  "dw_local w \<equiv> (dw_drain w, dw_coord w)"

definition set_local :: "drain_state \<times> coordinator \<Rightarrow> drain_world \<Rightarrow> drain_world" where
  "set_local dc w = w\<lparr>dw_drain := fst dc, dw_coord := snd dc\<rparr>"

definition less_work :: "drain_activity \<Rightarrow> drain_activity \<Rightarrow> bool" where
  "less_work a b \<longleftrightarrow> da_runExecutions a \<le> da_runExecutions b \<and> da_assessments a \<le> da_assessments b \<and>
     da_durableJobs a \<le> da_durableJobs b"

text \<open>
  The steps of the process and of the rows, which all replicas write. Work starts while no drain is requested; the
  module of the coordinator moves as \<open>suspended_moves\<close> and \<open>suspended_not_leader\<close> below show; no cancellation arrives between the check of a completion and its end.
\<close>

inductive drain_step :: "bool \<Rightarrow> lease_owner \<Rightarrow> drain_world \<Rightarrow> drain_world \<Rightarrow> bool" for ha me where
  d_time: "dw_perf w \<le> p \<Longrightarrow> drain_step ha me w (w\<lparr>dw_perf := p\<rparr>)"
| d_work: "\<not> nodeDrainRequested (dw_drain w) \<or> less_work a (dw_activity w) \<Longrightarrow> drain_step ha me w (w\<lparr>dw_activity := a\<rparr>)"
| d_rows: "drain_step ha me w (w\<lparr>dw_rows := t\<rparr>)"
| d_coordinator: "co_suspended c = co_suspended (dw_coord w) \<Longrightarrow>
    (co_suspended c \<Longrightarrow> co_role c \<noteq> Leader \<and> co_inFlight c \<le> co_inFlight (dw_coord w)) \<Longrightarrow> (\<not> ha \<Longrightarrow> co_role c \<noteq> Leader) \<Longrightarrow>
    drain_step ha me w (w\<lparr>dw_coord := c\<rparr>)"
| d_quiesce: "ds_phase (dw_drain w) = Draining \<Longrightarrow>
    drain_step ha me w (w\<lparr>dw_coord := quiesceCoordinatorForDrain ha (dw_perf w) (dw_activity w) (dw_coord w)\<rparr>)"
| d_check: "evaluate_check (dw_perf w) (dw_activity w) (dw_coord w) (dw_drain w) \<Longrightarrow>
    drain_step ha me w (w\<lparr>dw_completing := Some (Checked now)\<rparr>)"
| d_record: "dw_completing w = Some (Checked now) \<Longrightarrow> persistDrainedAt me now (dw_rows w) = (ok, t) \<Longrightarrow>
    drain_step ha me w (w\<lparr>dw_rows := t, dw_completing := (if ok then Some (Recorded now) else None)\<rparr>)"
| d_finish: "dw_completing w = Some (Recorded now) \<Longrightarrow>
    drain_step ha me w (w\<lparr>dw_drain := evaluate_finish now (dw_drain w), dw_completing := None\<rparr>)"
| d_begin: "drain_step ha me w (w\<lparr>dw_drain := beginLocalNodeDrain now by why (dw_drain w)\<rparr>)"
| d_event: "dc = handleDrainEvent me now e (dw_local w) \<Longrightarrow> dw_completing w = None \<or> ds_phase (fst dc) \<noteq> Active \<Longrightarrow>
    drain_step ha me w (set_local dc w)"
| d_reconcile: "dc = reconcileRecordedDrainRequest ha me now row (dw_local w) \<Longrightarrow> dw_completing w = None \<or> ds_phase (fst dc) \<noteq> Active \<Longrightarrow>
    drain_step ha me w (set_local dc w)"

definition drain_init :: "bool \<Rightarrow> drain_world \<Rightarrow> bool" where
  "drain_init ha w \<longleftrightarrow> (\<not> ha \<longrightarrow> co_role (dw_coord w) \<noteq> Leader) \<and> ds_phase (dw_drain w) = Active \<and> \<not> ds_identityLost (dw_drain w) \<and> dw_completing w = None \<and>
     \<not> co_suspended (dw_coord w)"

text \<open>What a step of the coordinator leaves of a suspended process.\<close>

lemma in_flight_simps:
  "co_inFlight (fst (loseLeadership c)) = co_inFlight c" "co_inFlight (with_lease role l c) = co_inFlight c"
  "co_inFlight (without_owner role c) = co_inFlight c" "co_inFlight (clearLeadershipWatchdog c) = co_inFlight c"
  "co_inFlight (armLeadershipWatchdog p n c) = co_inFlight c" "co_inFlight (resumeControlPlaneCoordinator c) = co_inFlight c"
  by (simp_all add: loseLeadership_def with_lease_def without_owner_def clearLeadershipWatchdog_def armLeadershipWatchdog_def
      resumeControlPlaneCoordinator_def)

lemma in_flight_moves:
  "co_inFlight (observeCoordinatorTick row c) = co_inFlight c"
  "co_inFlight (fst (applyFollowerCoordinatorLease l c)) = co_inFlight c"
  "co_inFlight (fst (applyAcquiredCoordinatorLease l n started finished armed c)) = co_inFlight c"
  "co_inFlight (fst (watchdog_fires generation epoch c)) = co_inFlight c"
  "co_inFlight (fst (snd (resign_local ha c))) = co_inFlight c"
  "co_inFlight (startControlPlaneCoordinator ha eligible c) = co_inFlight c"
  "co_inFlight (fst (snd (stopControlPlaneCoordinator ha eligible c))) = co_inFlight c"
  "co_inFlight (fst (tick_fails c)) \<le> co_inFlight c" "co_inFlight (tick_ends c) \<le> co_inFlight c"
  by (simp_all add: observeCoordinatorTick_def applyFollowerCoordinatorLease_def applyAcquiredCoordinatorLease_def watchdog_fires_def
      resign_local_def startControlPlaneCoordinator_def stopControlPlaneCoordinator_def tick_fails_def tick_ends_def in_flight_simps
      split_def Let_def split: option.split)

lemma suspended_moves:
  assumes "coord_step node off w w'" "co_suspended (cw_proc w i)"
  shows "co_inFlight (cw_proc w' i) \<le> co_inFlight (cw_proc w i)"
  using assms
proof (induction rule: coord_step.induct)
  case (k_claimed w j l)
  then show ?case
    by (auto simp: tick_claimed_def end_tick_eq in_flight_moves split: prod.split bool.split intro: order_trans [OF in_flight_moves(9)])
next
  case (k_confirmed w j l started databaseNow)
  then show ?case
    by (auto simp: tick_confirmed_def end_tick_eq in_flight_moves split: prod.split bool.split intro: order_trans [OF in_flight_moves(9)])
next
  case (k_activation_fails w j generation c es epoch)
  then show ?case using in_flight_simps(1) [of "cw_proc w j"] by (auto simp: activation_fails_def split: if_splits)
qed (auto simp: in_flight_moves in_flight_simps tick_begins_def)

lemma suspended_not_leader:
  assumes "coord_step node off w w'" "coord_inv node off w" "co_suspended (cw_proc w' i)"
  shows "co_role (cw_proc w' i) \<noteq> Leader"
  using inv_locals [OF coord_inv_step [OF assms(1,2)], of i] assms(3) by (auto simp: leader_ok_def)

definition quiet :: "drain_world \<Rightarrow> bool" where
  "quiet w \<longleftrightarrow> da_runExecutions (dw_activity w) = 0 \<and> da_assessments (dw_activity w) = 0 \<and> da_durableJobs (dw_activity w) = 0 \<and>
     co_inFlight (dw_coord w) = 0 \<and> co_suspended (dw_coord w)"

definition drain_inv :: "bool \<Rightarrow> drain_world \<Rightarrow> bool" where
  "drain_inv ha w \<longleftrightarrow> (\<not> ha \<longrightarrow> co_role (dw_coord w) \<noteq> Leader) \<and>
     (co_suspended (dw_coord w) \<longrightarrow> co_role (dw_coord w) \<noteq> Leader) \<and>
     (ds_identityLost (dw_drain w) \<longrightarrow> ds_phase (dw_drain w) \<noteq> Active \<and> co_suspended (dw_coord w)) \<and>
     (ds_phase (dw_drain w) = Drained \<or> dw_completing w \<noteq> None \<longrightarrow> quiet w \<and> ds_phase (dw_drain w) \<noteq> Active)"

lemma resign_facts:
  "co_suspended (fst (snd (resign_local ha c)))" "co_inFlight (fst (snd (resign_local ha c))) = co_inFlight c"
  "ha \<or> co_role c \<noteq> Leader \<Longrightarrow> co_role (fst (snd (resign_local ha c))) \<noteq> Leader"
  by (auto simp: resign_local_def Let_def split_def loseLeadership_def without_owner_def clearLeadershipWatchdog_def)

lemmas drain_defs = drain_inv_def quiet_def evaluate_finish_def beginLocalNodeDrain_def set_local_def

text \<open>What an event or a reconciliation does to the process.\<close>

definition drain_moves :: "bool \<Rightarrow> drain_state \<times> coordinator \<Rightarrow> drain_state \<times> coordinator \<Rightarrow> bool" where
  "drain_moves ha dc dc' \<longleftrightarrow> dc' = dc \<or>
    ds_phase (fst dc) = Active \<and> ds_phase (fst dc') = Draining \<and> ds_identityLost (fst dc') = ds_identityLost (fst dc) \<and> snd dc' = snd dc \<or>
    \<not> ds_identityLost (fst dc) \<and> ds_phase (fst dc') = Active \<and> \<not> ds_identityLost (fst dc') \<and> snd dc' = resumeControlPlaneCoordinator (snd dc) \<or>
    ds_identityLost (fst dc') \<and> ds_phase (fst dc') = (if ds_phase (fst dc) = Active then Draining else ds_phase (fst dc)) \<and>
      snd dc' = fst (snd (resign_local ha (snd dc)))"

lemma begin_moves: "drain_moves ha (d, c) (beginLocalNodeDrain now by why d, c)"
  by (simp add: drain_moves_def beginLocalNodeDrain_def)

lemma cancel_moves: "drain_moves ha (d, c) (cancelLocalNodeDrain (d, c))"
  by (simp add: drain_moves_def cancelLocalNodeDrain_def)

lemma event_moves: "drain_moves ha dc (handleDrainEvent me now e dc)"
proof -
  obtain node inst drain by_whom why where e: "e = Drain_event node inst drain by_whom why" by (cases e)
  have "drain_moves ha dc dc" by (simp add: drain_moves_def)
  then show ?thesis using begin_moves [of ha "fst dc" "snd dc"] cancel_moves [of ha "fst dc" "snd dc"]
    by (simp add: handleDrainEvent_def e)
qed

lemma reconcile_moves: "drain_moves ha dc (reconcileRecordedDrainRequest ha me now row dc)"
proof -
  obtain d c where dc: "dc = (d, c)" by (cases dc)
  have same: "drain_moves ha dc dc" by (simp add: drain_moves_def)
  show ?thesis
  proof (cases row)
    case None
    then show ?thesis using same by (simp add: reconcileRecordedDrainRequest_def dc)
  next
    case (Some r)
    show ?thesis
    proof (cases "nr_instanceId r = Some (lo_instanceId me)")
      case True
      then show ?thesis using same begin_moves cancel_moves by (simp add: reconcileRecordedDrainRequest_def dc Some)
    next
      case False
      then show ?thesis by (simp add: reconcileRecordedDrainRequest_def dc Some drain_moves_def Let_def)
    qed
  qed
qed

lemma local_keeps_drain:
  assumes inv: "drain_inv ha w" and calm: "dw_completing w = None \<or> ds_phase (fst dc) \<noteq> Active"
    and dc: "drain_moves ha (dw_local w) dc"
  shows "drain_inv ha (set_local dc w)"
proof -
  consider (same) "dc = dw_local w"
    | (requested) "ds_phase (dw_drain w) = Active" "ds_phase (fst dc) = Draining" "ds_identityLost (fst dc) = ds_identityLost (dw_drain w)" "snd dc = dw_coord w"
    | (cancel) "ds_phase (fst dc) = Active" "\<not> ds_identityLost (fst dc)" "snd dc = resumeControlPlaneCoordinator (dw_coord w)"
    | (lost) "ds_identityLost (fst dc)" "ds_phase (fst dc) = (if ds_phase (dw_drain w) = Active then Draining else ds_phase (dw_drain w))"
        "snd dc = fst (snd (resign_local ha (dw_coord w)))"
    using dc unfolding drain_moves_def fst_conv snd_conv by blast
  then show ?thesis
  proof cases
    case same
    then show ?thesis using inv by (simp add: set_local_def)
  next
    case requested
    then show ?thesis using inv by (auto simp: drain_defs)
  next
    case cancel
    then show ?thesis using inv calm by (auto simp: drain_defs resumeControlPlaneCoordinator_def)
  next
    case lost
    have "ha \<or> co_role (dw_coord w) \<noteq> Leader" using inv by (auto simp: drain_inv_def)
    then show ?thesis using inv lost resign_facts [of ha "dw_coord w"] by (auto simp: drain_defs split: if_splits)
  qed
qed

lemma drain_inv_step: "drain_step ha me w w' \<Longrightarrow> drain_inv ha w \<Longrightarrow> drain_inv ha w'"
proof (induction rule: drain_step.induct)
  case (d_quiesce w)
  let ?c = "quiesceCoordinatorForDrain ha (dw_perf w) (dw_activity w) (dw_coord w)"
  have "ha \<or> co_role (dw_coord w) \<noteq> Leader" using d_quiesce(2) by (auto simp: drain_inv_def)
  then have "?c = dw_coord w \<or> co_suspended ?c \<and> co_inFlight ?c = co_inFlight (dw_coord w) \<and> co_role ?c \<noteq> Leader"
    using resign_facts [of ha "dw_coord w"] by (auto simp: quiesceCoordinatorForDrain_def)
  then show ?case using d_quiesce(2) by (auto simp: drain_defs)
next
  case (d_event dc now e w)
  then show ?case using event_moves by (intro local_keeps_drain) simp_all
next
  case (d_reconcile dc now row w)
  then show ?case using reconcile_moves by (intro local_keeps_drain) simp_all
qed (auto simp: drain_defs evaluate_check_def drainComplete_def nodeDrainRequested_def less_work_def split: if_splits)

interpretation draining: invariant_system "drain_init ha" "drain_step ha me" "drain_inv ha" for ha me
proof
  show "drain_inv ha w" if "drain_init ha w" for w using that by (simp add: drain_init_def drain_inv_def)
qed (rule drain_inv_step)


lemma identity_lost_step: "drain_step ha me w w' \<Longrightarrow> ds_identityLost (dw_drain w) \<Longrightarrow> ds_identityLost (dw_drain w')"
proof (induction rule: drain_step.induct)
  case (d_event dc now e w)
  then show ?case using event_moves [of ha "dw_local w" me now e] by (auto simp: set_local_def drain_moves_def)
next
  case (d_reconcile dc now row w)
  then show ?case using reconcile_moves [of ha "dw_local w" me now row] by (auto simp: set_local_def drain_moves_def)
qed (auto simp: evaluate_finish_def beginLocalNodeDrain_def)

text \<open>A process whose node was taken over by another instance stays fenced: whatever requests, cancellations and readings of the
  node's row follow, it takes no new work and stays out of the election.\<close>

theorem lost_identity_is_final:
  assumes "reach (drain_init ha) (drain_step ha me) w" "ds_identityLost (dw_drain w)" "(drain_step ha me)\<^sup>*\<^sup>* w w'"
  shows "nodeDrainRequested (dw_drain w') \<and> co_suspended (dw_coord w') \<and> co_role (dw_coord w') \<noteq> Leader"
proof -
  have "ds_identityLost (dw_drain w')" using assms(3,2) by (induction rule: rtranclp_induct) (auto intro: identity_lost_step)
  moreover have "drain_inv ha w'" by (rule draining.steps_inv [OF draining.reach_inv [OF assms(1)] assms(3)])
  ultimately show ?thesis by (auto simp: drain_inv_def nodeDrainRequested_def)
qed

definition calm_world :: drain_world where
  "calm_world = \<lparr>dw_drain = \<lparr>ds_phase = Active, ds_requestedAt = None, ds_requestedBy = None, ds_reason = None, ds_drainedAt = None,
       ds_identityLost = False\<rparr>, dw_coord = idle_process, dw_activity = \<lparr>da_runExecutions = 0, da_assessments = 0, da_durableJobs = 0\<rparr>,
     dw_perf = 0, dw_rows = [\<lparr>nr_id = ''node'', nr_instanceId = Some ''a'', nr_protocolVersion = Some 2, nr_status = ''maintenance'',
       nr_drainRequestedAt = Some 5, nr_drainRequestedBy = None, nr_drainReason = None, nr_drainedAt = None, nr_lastHeartbeatAt = 0\<rparr>],
     dw_completing = None\<rparr>"

abbreviation drain_node :: lease_owner where "drain_node \<equiv> \<lparr>lo_nodeId = ''node'', lo_instanceId = ''a''\<rparr>"

definition draining_world :: drain_world where
  "draining_world = calm_world\<lparr>dw_drain := beginLocalNodeDrain 5 None None (dw_drain calm_world)\<rparr>"

definition quiet_world :: drain_world where
  "quiet_world = draining_world\<lparr>dw_coord := quiesceCoordinatorForDrain True (dw_perf draining_world) (dw_activity draining_world) (dw_coord draining_world)\<rparr>"

definition checked_world :: drain_world where
  "checked_world = quiet_world\<lparr>dw_completing := Some (Checked 6)\<rparr>"

definition recorded_world :: drain_world where
  "recorded_world = checked_world\<lparr>dw_rows := snd (persistDrainedAt drain_node 6 (dw_rows checked_world)), dw_completing := Some (Recorded 6)\<rparr>"

definition drained_world :: drain_world where
  "drained_world = recorded_world\<lparr>dw_drain := evaluate_finish 6 (dw_drain recorded_world), dw_completing := None\<rparr>"

lemma reach_recorded: "reach (drain_init True) (drain_step True drain_node) recorded_world"
proof -
  have "reach (drain_init True) (drain_step True drain_node) calm_world"
    by (rule reach_init) (simp add: drain_init_def calm_world_def idle_process_def)
  then have "reach (drain_init True) (drain_step True drain_node) draining_world"
    unfolding draining_world_def by (rule reach_step) (rule d_begin)
  then have "reach (drain_init True) (drain_step True drain_node) quiet_world"
    unfolding quiet_world_def
    by (rule reach_step) (rule d_quiesce, simp add: draining_world_def calm_world_def beginLocalNodeDrain_def)
  then have "reach (drain_init True) (drain_step True drain_node) checked_world"
    unfolding checked_world_def by (rule reach_step) (rule d_check, code_simp)
  moreover have "persistDrainedAt drain_node 6 (dw_rows checked_world) = (True, snd (persistDrainedAt drain_node 6 (dw_rows checked_world)))"
    by code_simp
  then have "drain_step True drain_node checked_world recorded_world"
    using d_record [of checked_world 6 drain_node True "snd (persistDrainedAt drain_node 6 (dw_rows checked_world))" True]
    by (simp add: recorded_world_def checked_world_def)
  ultimately show ?thesis by (rule reach_step)
qed

lemma reach_drained: "reach (drain_init True) (drain_step True drain_node) drained_world"
  unfolding drained_world_def by (rule reach_step [OF reach_recorded]) (rule d_finish, simp add: recorded_world_def)


text \<open>The heartbeat of a drained process reads that another instance owns its node; a cancellation for it arrives later.\<close>

definition replaced_world :: drain_world where
  "replaced_world = set_local (reconcileRecordedDrainRequest True drain_node 9
     (Some (hd (dw_rows calm_world)\<lparr>nr_instanceId := Some ''b''\<rparr>)) (dw_local drained_world)) drained_world"

lemma reach_replaced: "reach (drain_init True) (drain_step True drain_node) replaced_world"
  unfolding replaced_world_def
  by (rule reach_step [OF reach_drained]) (rule d_reconcile [OF refl], simp add: drained_world_def)

theorem lost_identity_is_final_witness:
  "nodeDrainRequested (dw_drain (set_local (handleDrainEvent drain_node 10 (Drain_event ''node'' ''a'' False None None) (dw_local replaced_world))
     replaced_world))"
proof -
  let ?w = "set_local (handleDrainEvent drain_node 10 (Drain_event ''node'' ''a'' False None None) (dw_local replaced_world)) replaced_world"
  have lost: "ds_identityLost (dw_drain replaced_world)" by code_simp
  have "drain_step True drain_node replaced_world ?w"
    by (rule d_event [OF refl]) (simp add: replaced_world_def drained_world_def set_local_def)
  then show ?thesis using lost_identity_is_final [OF reach_replaced lost] by blast
qed

text \<open>
  Without the condition on cancellations: a cancellation that arrives between the record of a completion and its end returns the
  process to work, the work starts, and the end makes it drained with the work running.
\<close>

lemma cancel_during_completion_drains_busy_node:
  "let (d, c) = handleDrainEvent drain_node 7 (Drain_event ''node'' ''a'' False None None) (dw_local recorded_world);
       busy = (dw_activity recorded_world)\<lparr>da_runExecutions := 1\<rparr>;
       d' = evaluate_finish 6 d in
   \<not> nodeDrainRequested d \<and> ds_phase d' = Drained \<and> \<not> drainComplete 0 busy c \<and> \<not> co_suspended c"
  by code_simp

end
