(* ===== verification/BrowserSessions.thy ===== *)
theory BrowserSessions imports JsValues begin

text \<open>
  The sessions of browsers: rotation and replay of refresh tokens, revocation, and the access tokens bound to a family
  (\<open>routes/accounts.ts\<close>, \<open>validateApiTokenFreshness\<close> of \<open>auth.ts\<close>). The tables are \<open>refreshSessions\<close> (without the address and
  the agent it records for display) and \<open>apiTokens\<close>. The digests of a token are the functions \<open>current\<close> and \<open>legacy\<close>, the users the function \<open>users\<close>:
  whether the login of a user is blocked, \<open>None\<close> for no user. Identifiers and secrets a handler draws are arguments.
\<close>

section \<open>Tables\<close>

record session_row =
  se_id :: string
  se_familyId :: string
  se_tokenHash :: string
  se_userId :: string
  se_accessTokenId :: string
  se_rotatedAt :: "int option"
  se_revokedAt :: "int option"
  se_expiresAt :: int
  se_createdAt :: int
  se_mfaVerified :: bool
  se_successorHash :: "string option"
  se_rotatedAtMs :: "int option"

record access_token =
  ac_id :: string
  ac_token :: string
  ac_userId :: "string option"
  ac_refreshFamilyId :: "string option"
  ac_expiresAt :: "int option"
  ac_createdAt :: int

record session_db =
  sd_sessions :: "session_row table"
  sd_tokens :: "access_token table"

definition ACCESS_TOKEN_TTL_MS :: int where "ACCESS_TOKEN_TTL_MS = 900000"
definition REFRESH_TOKEN_TTL_MS :: int where "REFRESH_TOKEN_TTL_MS = 2592000000"
definition REFRESH_GRACE_MS :: int where "REFRESH_GRACE_MS = 30000"

type_synonym digest = "string \<Rightarrow> string"

definition refreshSessionForToken :: "digest \<Rightarrow> digest \<Rightarrow> string \<Rightarrow> session_db \<Rightarrow> session_row option \<times> session_db" where
  "refreshSessionForToken current legacy raw db =
     (let rows = take 2 (filter (\<lambda>r. se_tokenHash r \<in> {current raw, legacy raw}) (sd_sessions db)) in
      case (case find (\<lambda>r. se_tokenHash r = current raw) rows of Some r \<Rightarrow> Some r
            | None \<Rightarrow> (case rows of [] \<Rightarrow> None | r # _ \<Rightarrow> Some r)) of
        None \<Rightarrow> (None, db)
      | Some row \<Rightarrow>
          if se_tokenHash row = legacy raw
          then (Some (row\<lparr>se_tokenHash := current raw\<rparr>),
            db\<lparr>sd_sessions := db_update (\<lambda>r. se_id r = se_id row) (\<lambda>r. r\<lparr>se_tokenHash := current raw\<rparr>) (sd_sessions db)\<rparr>)
          else (Some row, db))"

definition revokeRefreshFamily :: "string \<Rightarrow> string \<Rightarrow> int \<Rightarrow> session_db \<Rightarrow> bool \<times> session_db" where
  "revokeRefreshFamily familyId userId revokedAt db =
     (let p = (\<lambda>r. se_familyId r = familyId \<and> se_userId r = userId);
          family = filter p (sd_sessions db);
          ids = map se_accessTokenId family in
      if family = [] then (False, db)
      else (True, db\<lparr>
        sd_sessions := db_update p (\<lambda>r. r\<lparr>se_revokedAt := Some revokedAt\<rparr>) (sd_sessions db),
        sd_tokens := db_delete (\<lambda>t. (ac_id t \<in> set ids \<or> ac_refreshFamilyId t = Some familyId) \<and> ac_userId t = Some userId)
          (sd_tokens db)\<rparr>))"

definition revokeAllRefreshSessions :: "string \<Rightarrow> int \<Rightarrow> session_db \<Rightarrow> session_db" where
  "revokeAllRefreshSessions userId revokedAt db =
     (let ids = map se_accessTokenId (filter (\<lambda>r. se_userId r = userId) (sd_sessions db)) in
      db\<lparr>sd_sessions := db_update (\<lambda>r. se_userId r = userId \<and> se_revokedAt r = None) (\<lambda>r. r\<lparr>se_revokedAt := Some revokedAt\<rparr>)
           (sd_sessions db),
         sd_tokens := (if ids = [] then sd_tokens db
           else db_delete (\<lambda>t. (ac_id t \<in> set ids \<or> ac_refreshFamilyId t \<noteq> None) \<and> ac_userId t = Some userId) (sd_tokens db))\<rparr>)"


section \<open>Login\<close>

text \<open>Identifiers and secrets drawn by one request.\<close>

record drawn =
  dr_access :: string
  dr_accessId :: string
  dr_refresh :: string
  dr_sessionId :: string
  dr_familyId :: string

definition access_row :: "digest \<Rightarrow> drawn \<Rightarrow> string \<Rightarrow> string option \<Rightarrow> int option \<Rightarrow> int \<Rightarrow> access_token" where
  "access_row current d userId familyId expiresAt now =
     \<lparr>ac_id = dr_accessId d, ac_token = current (dr_access d), ac_userId = Some userId, ac_refreshFamilyId = familyId,
      ac_expiresAt = expiresAt, ac_createdAt = now\<rparr>"

definition issueLoginSession :: "digest \<Rightarrow> drawn \<Rightarrow> string \<Rightarrow> bool \<Rightarrow> bool \<Rightarrow> int \<Rightarrow> session_db \<Rightarrow> session_db" where
  "issueLoginSession current d userId browserSession mfaVerified createdAt db =
     (if \<not> browserSession then db\<lparr>sd_tokens := sd_tokens db @ [access_row current d userId None None createdAt]\<rparr>
      else db\<lparr>
        sd_tokens := sd_tokens db @
          [access_row current d userId (Some (dr_familyId d)) (Some (createdAt + ACCESS_TOKEN_TTL_MS)) createdAt],
        sd_sessions := sd_sessions db @
          [\<lparr>se_id = dr_sessionId d, se_familyId = dr_familyId d, se_tokenHash = current (dr_refresh d), se_userId = userId,
            se_accessTokenId = dr_accessId d, se_rotatedAt = None, se_revokedAt = None,
            se_expiresAt = createdAt + REFRESH_TOKEN_TTL_MS, se_createdAt = createdAt, se_mfaVerified = mfaVerified,
            se_successorHash = None, se_rotatedAtMs = None\<rparr>]\<rparr>)"

text \<open>\<open>browserSessionDetails\<close>; \<open>mustChange\<close> tells which users must change their password.\<close>

fun browserSessionDetails ::
    "digest \<Rightarrow> digest \<Rightarrow> (string \<Rightarrow> bool option) \<Rightarrow> (string \<Rightarrow> bool) \<Rightarrow> int \<Rightarrow> string list \<Rightarrow> session_db \<Rightarrow> session_row option \<times> session_db" where
  "browserSessionDetails current legacy users mustChange now [] db = (None, db)"
| "browserSessionDetails current legacy users mustChange now (token # tokens) db =
     (case refreshSessionForToken current legacy token db of
        (None, db') \<Rightarrow> browserSessionDetails current legacy users mustChange now tokens db'
      | (Some r, db') \<Rightarrow>
          if se_rotatedAt r \<noteq> None \<or> se_revokedAt r \<noteq> None \<or> se_expiresAt r \<le> now
          then browserSessionDetails current legacy users mustChange now tokens db'
          else if users (se_userId r) \<noteq> Some False \<or> mustChange (se_userId r)
          then browserSessionDetails current legacy users mustChange now tokens db'
          else (Some r, db'))"


section \<open>Rotation\<close>

datatype refresh_response = Refreshed drawn | Grace drawn string | Unauthorized string

definition issueGraceAccessToken :: "digest \<Rightarrow> drawn \<Rightarrow> string \<Rightarrow> string \<Rightarrow> int \<Rightarrow> session_db \<Rightarrow> session_db" where
  "issueGraceAccessToken current d userId familyId now db =
     db\<lparr>sd_tokens := sd_tokens db @ [access_row current d userId (Some familyId) (Some (now + ACCESS_TOKEN_TTL_MS)) now]\<rparr>"

definition resolveGraceSuccessor ::
    "(string \<Rightarrow> bool option) \<Rightarrow> int option \<Rightarrow> string option \<Rightarrow> int \<Rightarrow> session_db \<Rightarrow> session_row option" where
  "resolveGraceSuccessor users rotatedAtMs successorHash now db = (case (rotatedAtMs, successorHash) of
     (Some at_ms, Some h) \<Rightarrow>
       if REFRESH_GRACE_MS < now - at_ms then None
       else (case db_find (\<lambda>r. se_tokenHash r = h) (sd_sessions db) of
         None \<Rightarrow> None
       | Some s \<Rightarrow> if se_revokedAt s = None \<and> now < se_expiresAt s \<and> users (se_userId s) = Some False then Some s else None)
   | _ \<Rightarrow> None)"

definition rotate_claim :: "session_row \<Rightarrow> int \<Rightarrow> session_row \<Rightarrow> bool" where
  "rotate_claim row now r \<longleftrightarrow> se_id r = se_id row \<and> se_rotatedAt r = None \<and> se_revokedAt r = None \<and> now < se_expiresAt r"

text \<open>The transaction of \<open>processRefreshCandidate\<close>; \<open>row\<close> is the session as the handler read it.\<close>

definition rotateRefreshSession :: "digest \<Rightarrow> drawn \<Rightarrow> session_row \<Rightarrow> int \<Rightarrow> session_db \<Rightarrow> bool \<times> session_db" where
  "rotateRefreshSession current d row now db =
     (let f = (\<lambda>r. r\<lparr>se_rotatedAt := Some now, se_rotatedAtMs := Some now, se_successorHash := Some (current (dr_refresh d))\<rparr>) in
      if db_returning (rotate_claim row now) f (sd_sessions db) = [] then (False, db)
      else (True, db\<lparr>
        sd_tokens := db_delete (\<lambda>t. ac_id t = se_accessTokenId row) (sd_tokens db) @
          [access_row current d (se_userId row) (Some (se_familyId row)) (Some (now + ACCESS_TOKEN_TTL_MS)) now],
        sd_sessions := db_update (rotate_claim row now) f (sd_sessions db) @
          [\<lparr>se_id = dr_sessionId d, se_familyId = se_familyId row, se_tokenHash = current (dr_refresh d), se_userId = se_userId row,
            se_accessTokenId = dr_accessId d, se_rotatedAt = None, se_revokedAt = None, se_expiresAt = se_expiresAt row,
            se_createdAt = now, se_mfaVerified = se_mfaVerified row, se_successorHash = None, se_rotatedAtMs = None\<rparr>]\<rparr>))"

definition reuse_detected :: refresh_response where
  "reuse_detected = Unauthorized ''Refresh token reuse detected''"

definition grace_or :: "digest \<Rightarrow> drawn \<Rightarrow> session_row option \<Rightarrow> int \<Rightarrow> session_db \<Rightarrow> (refresh_response \<times> session_db) \<Rightarrow>
    refresh_response \<times> session_db" where
  "grace_or current d grace now db otherwise = (case grace of
     Some s \<Rightarrow> (Grace d (se_familyId s), issueGraceAccessToken current d (se_userId s) (se_familyId s) now db)
   | None \<Rightarrow> otherwise)"

text \<open>A response, or \<open>None\<close> when the candidate is a rotated one that waits for the live candidate of its family.\<close>

definition processRefreshCandidate ::
    "digest \<Rightarrow> (string \<Rightarrow> bool option) \<Rightarrow> drawn \<Rightarrow> session_row \<Rightarrow> string option \<Rightarrow> int \<Rightarrow> session_db \<Rightarrow>
     refresh_response option \<times> session_db" where
  "processRefreshCandidate current users d row liveFamilyId now db =
     (if se_rotatedAt row \<noteq> None then
        (case resolveGraceSuccessor users (se_rotatedAtMs row) (se_successorHash row) now db of
           Some s \<Rightarrow> (Some (Grace d (se_familyId s)), issueGraceAccessToken current d (se_userId s) (se_familyId s) now db)
         | None \<Rightarrow>
             if liveFamilyId \<noteq> None \<and> Some (se_familyId row) \<noteq> liveFamilyId
             then (Some reuse_detected, snd (revokeRefreshFamily (se_familyId row) (se_userId row) now db))
             else (None, db))
      else (case rotateRefreshSession current d row now db of
        (True, db') \<Rightarrow> (Some (Refreshed d), db')
      | (False, db') \<Rightarrow>
          (let effective = (case db_find (\<lambda>r. se_id r = se_id row) (sd_sessions db') of Some fresh \<Rightarrow> fresh | None \<Rightarrow> row) in
           map_prod Some id
             (grace_or current d (resolveGraceSuccessor users (se_rotatedAtMs effective) (se_successorHash effective) now db') now db'
               (reuse_detected, snd (revokeRefreshFamily (se_familyId row) (se_userId row) now db'))))))"

type_synonym seen = "(string, session_row) js_map"

definition loadRefreshCandidate ::
    "digest \<Rightarrow> digest \<Rightarrow> string \<Rightarrow> seen \<times> session_db \<Rightarrow> session_row option \<times> seen \<times> session_db" where
  "loadRefreshCandidate current legacy token sdb = (case sdb of (seen, db) \<Rightarrow>
     (case js_get seen (current token) of
        Some row \<Rightarrow> (Some row, seen, db)
      | None \<Rightarrow> (case refreshSessionForToken current legacy token db of
          (None, db') \<Rightarrow> (None, seen, db')
        | (Some row, db') \<Rightarrow> (Some row, js_set (current token) row seen, db'))))"

fun load_candidates :: "digest \<Rightarrow> digest \<Rightarrow> string list \<Rightarrow> seen \<times> session_db \<Rightarrow> seen \<times> session_db" where
  "load_candidates current legacy [] sdb = sdb"
| "load_candidates current legacy (token # tokens) sdb =
     load_candidates current legacy tokens (snd (loadRefreshCandidate current legacy token sdb))"

text \<open>The first loop: a rotated candidate of another family than the live one is a replay unless its grace holds.\<close>

fun check_replays :: "(string \<Rightarrow> bool option) \<Rightarrow> string option \<Rightarrow> int \<Rightarrow> session_row list \<Rightarrow> session_db \<Rightarrow> session_row option" where
  "check_replays users liveFamilyId now [] db = None"
| "check_replays users liveFamilyId now (row # rows) db =
     (if se_rotatedAt row = None \<or> Some (se_familyId row) = liveFamilyId then check_replays users liveFamilyId now rows db
      else if resolveGraceSuccessor users (se_rotatedAtMs row) (se_successorHash row) now db \<noteq> None
      then check_replays users liveFamilyId now rows db
      else Some row)"

fun process_candidates ::
    "digest \<Rightarrow> digest \<Rightarrow> (string \<Rightarrow> bool option) \<Rightarrow> drawn \<Rightarrow> int \<Rightarrow> string option \<Rightarrow> string list \<Rightarrow> seen \<times> session_db \<Rightarrow>
     refresh_response option \<times> seen \<times> session_db" where
  "process_candidates current legacy users d now liveFamilyId [] sdb = (None, sdb)"
| "process_candidates current legacy users d now liveFamilyId (token # tokens) sdb =
     (case loadRefreshCandidate current legacy token sdb of
        (None, seen, db) \<Rightarrow> process_candidates current legacy users d now liveFamilyId tokens (seen, db)
      | (Some row, seen, db) \<Rightarrow>
          if se_revokedAt row \<noteq> None \<or> se_expiresAt row \<le> now
          then process_candidates current legacy users d now liveFamilyId tokens (seen, db)
          else if users (se_userId row) \<noteq> Some False
          then (Some (Unauthorized ''Refresh session is invalid''), seen, revokeAllRefreshSessions (se_userId row) now db)
          else (case processRefreshCandidate current users d row liveFamilyId now db of
            (Some response, db') \<Rightarrow> (Some response, seen, db')
          | (None, db') \<Rightarrow> process_candidates current legacy users d now liveFamilyId tokens (seen, db')))"

fun classify_unseen :: "digest \<Rightarrow> digest \<Rightarrow> int \<Rightarrow> string list \<Rightarrow> seen \<times> session_db \<Rightarrow> refresh_response \<times> session_db" where
  "classify_unseen current legacy now [] (seen, db) = (Unauthorized ''Refresh session is invalid'', db)"
| "classify_unseen current legacy now (token # tokens) (seen, db) =
     (if js_get seen (current token) \<noteq> None then classify_unseen current legacy now tokens (seen, db)
      else (case refreshSessionForToken current legacy token db of
        (None, db') \<Rightarrow> classify_unseen current legacy now tokens (seen, db')
      | (Some row, db') \<Rightarrow>
          if se_rotatedAt row \<noteq> None
          then (reuse_detected, snd (revokeRefreshFamily (se_familyId row) (se_userId row) now db'))
          else if se_revokedAt row \<noteq> None \<or> se_expiresAt row \<le> now then (Unauthorized ''Refresh session expired'', db')
          else classify_unseen current legacy now tokens (js_set (current token) row seen, db')))"

definition classifyRefreshFailure :: "digest \<Rightarrow> digest \<Rightarrow> int \<Rightarrow> string list \<Rightarrow> seen \<times> session_db \<Rightarrow> refresh_response \<times> session_db" where
  "classifyRefreshFailure current legacy now candidates sdb = (case sdb of (seen, db) \<Rightarrow>
     (case find (\<lambda>r. se_rotatedAt r \<noteq> None) (map snd seen) of
        Some row \<Rightarrow> (reuse_detected, snd (revokeRefreshFamily (se_familyId row) (se_userId row) now db))
      | None \<Rightarrow>
          if list_ex (\<lambda>r. se_revokedAt r \<noteq> None \<or> se_expiresAt r \<le> now) (map snd seen)
          then (Unauthorized ''Refresh session expired'', db)
          else classify_unseen current legacy now candidates (seen, db)))"

text \<open>\<open>POST /api/v2/users/refresh\<close> with the tokens of the refresh cookies.\<close>

definition refreshRoute ::
    "digest \<Rightarrow> digest \<Rightarrow> (string \<Rightarrow> bool option) \<Rightarrow> drawn \<Rightarrow> int \<Rightarrow> string list \<Rightarrow> session_db \<Rightarrow> refresh_response \<times> session_db" where
  "refreshRoute current legacy users d now candidates db =
     (if candidates = [] then (Unauthorized ''Refresh session is missing'', db)
      else case load_candidates current legacy candidates ([], db) of (seen, db1) \<Rightarrow>
        (let active = filter (\<lambda>r. se_revokedAt r = None \<and> now < se_expiresAt r) (map snd seen);
             liveFamilyId = map_option se_familyId (find (\<lambda>r. se_rotatedAt r = None) active) in
         case check_replays users liveFamilyId now active db1 of
           Some row \<Rightarrow> (reuse_detected, snd (revokeRefreshFamily (se_familyId row) (se_userId row) now db1))
         | None \<Rightarrow>
             (case process_candidates current legacy users d now liveFamilyId candidates (seen, db1) of
                (Some response, _, db2) \<Rightarrow> (response, db2)
              | (None, sdb2) \<Rightarrow> classifyRefreshFailure current legacy now candidates sdb2)))"

fun logoutRoute :: "digest \<Rightarrow> digest \<Rightarrow> int \<Rightarrow> string list \<Rightarrow> session_db \<Rightarrow> session_db" where
  "logoutRoute current legacy now [] db = db"
| "logoutRoute current legacy now (token # tokens) db =
     (case refreshSessionForToken current legacy token db of
        (None, db') \<Rightarrow> logoutRoute current legacy now tokens db'
      | (Some row, db') \<Rightarrow> logoutRoute current legacy now tokens (snd (revokeRefreshFamily (se_familyId row) (se_userId row) now db')))"

fun revokeBrowserSession :: "digest \<Rightarrow> digest \<Rightarrow> int \<Rightarrow> string list \<Rightarrow> session_db \<Rightarrow> bool \<times> session_db" where
  "revokeBrowserSession current legacy now [] db = (False, db)"
| "revokeBrowserSession current legacy now (token # tokens) db =
     (case refreshSessionForToken current legacy token db of
        (None, db') \<Rightarrow> revokeBrowserSession current legacy now tokens db'
      | (Some row, db') \<Rightarrow> (case revokeRefreshFamily (se_familyId row) (se_userId row) now db' of
          (revoked, db'') \<Rightarrow> (case revokeBrowserSession current legacy now tokens db'' of
            (rest, db''') \<Rightarrow> (revoked \<or> rest, db'''))))"


text \<open>
  \<open>DELETE /api/v2/account/sessions/:family_id\<close>: \<open>None\<close> is 404, \<open>Some\<close> tells whether the session was the caller's own;
  \<open>token\<close> is the access token of the request.
\<close>

definition deleteAccountSession :: "string \<Rightarrow> string \<Rightarrow> access_token option \<Rightarrow> int \<Rightarrow> session_db \<Rightarrow> bool option \<times> session_db" where
  "deleteAccountSession familyId userId token now db =
     (let active = filter (\<lambda>r. se_familyId r = familyId \<and> se_userId r = userId \<and> se_revokedAt r = None \<and> now < se_expiresAt r)
            (sd_sessions db) in
      if \<not> list_ex (\<lambda>r. se_rotatedAt r = None) active then (None, db)
      else
        let isCurrent = (case token of None \<Rightarrow> False
              | Some t \<Rightarrow> ac_refreshFamilyId t = Some familyId \<or> list_ex (\<lambda>r. se_accessTokenId r = ac_id t) active) in
        case revokeRefreshFamily familyId userId now db of
          (revoked, db') \<Rightarrow> (if revoked then Some isCurrent else None, db'))"

text \<open>The end of a change of password: every session of the user, and every token but the one of the request.\<close>

definition revokeUserSessions :: "string \<Rightarrow> string option \<Rightarrow> int \<Rightarrow> session_db \<Rightarrow> session_db" where
  "revokeUserSessions userId keep now db =
     db\<lparr>sd_sessions := db_update (\<lambda>r. se_userId r = userId \<and> se_revokedAt r = None) (\<lambda>r. r\<lparr>se_revokedAt := Some now\<rparr>) (sd_sessions db),
        sd_tokens := (case keep of None \<Rightarrow> sd_tokens db
          | Some i \<Rightarrow> db_delete (\<lambda>t. ac_userId t = Some userId \<and> ac_id t \<noteq> i) (sd_tokens db))\<rparr>"


section \<open>Access tokens\<close>

datatype token_error = Expired | Invalid

definition validateApiTokenFreshness :: "access_token \<Rightarrow> int \<Rightarrow> session_db \<Rightarrow> token_error option" where
  "validateApiTokenFreshness token now db =
     (if (case ac_expiresAt token of Some e \<Rightarrow> e \<le> now | None \<Rightarrow> False) then Some Expired
      else case ac_refreshFamilyId token of
        None \<Rightarrow> None
      | Some family \<Rightarrow>
          if db_find (\<lambda>r. se_familyId r = family \<and> se_userId r = js_default (ac_userId token) [] \<and> se_revokedAt r = None \<and>
            now < se_expiresAt r) (sd_sessions db) = None
          then Some Invalid else None)"

end
