(* ===== verification/SessionSafety.thy ===== *)
theory SessionSafety imports BrowserSessions begin

text \<open>
  The transactions on the sessions of browsers interleaved: a family that was revoked stays dead, a family has one live session, and a
  refresh token that is presented again after its grace ends its family.
\<close>

section \<open>Interleavings\<close>

text \<open>
  The state is the tables with every session row that was ever in them; handlers act on rows they read at any earlier time. Each
  transaction and each single statement is a step; the identifiers of a new session and of a new family were never used.
\<close>

type_synonym session_world = "session_row set \<times> session_db"

definition observed :: "session_row set \<Rightarrow> session_db \<Rightarrow> session_world" where
  "observed S db = (S \<union> set (sd_sessions db), db)"

inductive session_step :: "digest \<Rightarrow> session_world \<Rightarrow> session_world \<Rightarrow> bool" for current where
  ss_login: "dr_sessionId d \<notin> se_id ` S \<Longrightarrow> dr_familyId d \<notin> se_familyId ` S \<Longrightarrow>
    session_step current (S, db) (observed S (issueLoginSession current d u browser mfa now db))"
| ss_rotate: "dr_sessionId d \<notin> se_id ` S \<Longrightarrow> row \<in> S \<Longrightarrow>
    session_step current (S, db) (observed S (snd (rotateRefreshSession current d row now db)))"
| ss_grace: "session_step current (S, db) (observed S (issueGraceAccessToken current d u f now db))"
| ss_rehash: "session_step current (S, db)
    (observed S (db\<lparr>sd_sessions := db_update (\<lambda>r. se_id r = i) (\<lambda>r. r\<lparr>se_tokenHash := h\<rparr>) (sd_sessions db)\<rparr>))"
| ss_revoke: "session_step current (S, db) (observed S (snd (revokeRefreshFamily f u now db)))"
| ss_revoke_all: "session_step current (S, db) (observed S (revokeAllRefreshSessions u now db))"
| ss_revoke_user: "session_step current (S, db) (observed S (revokeUserSessions u keep now db))"
| ss_delete_user: "session_step current (S, db)
    (observed S (db\<lparr>sd_sessions := db_delete (\<lambda>r. se_userId r = u) (sd_sessions db)\<rparr>))"
| ss_tokens: "session_step current (S, db) (observed S (db\<lparr>sd_tokens := t\<rparr>))"

definition session_init :: "session_world \<Rightarrow> bool" where
  "session_init w \<longleftrightarrow> fst w = {} \<and> sd_sessions (snd w) = []"

definition same_session :: "session_row \<Rightarrow> session_row \<Rightarrow> bool" where
  "same_session r s \<longleftrightarrow> se_id r = se_id s \<and> se_familyId r = se_familyId s \<and> se_userId r = se_userId s"

text \<open>Rows of one id are the same session at different times, a family has one user and one live session.\<close>

definition ids_fixed :: "session_row set \<Rightarrow> bool" where
  "ids_fixed S \<longleftrightarrow> (\<forall>r \<in> S. \<forall>s \<in> S. se_id r = se_id s \<longrightarrow> same_session r s)"

definition one_user :: "session_row set \<Rightarrow> bool" where
  "one_user S \<longleftrightarrow> (\<forall>r \<in> S. \<forall>s \<in> S. se_familyId r = se_familyId s \<longrightarrow> se_userId r = se_userId s)"

definition one_live :: "session_row set \<Rightarrow> bool" where
  "one_live T \<longleftrightarrow> (\<forall>r \<in> T. \<forall>s \<in> T. se_familyId r = se_familyId s \<longrightarrow> se_rotatedAt r = None \<longrightarrow> se_rotatedAt s = None \<longrightarrow> r = s)"

definition session_inv :: "session_world \<Rightarrow> bool" where
  "session_inv w \<longleftrightarrow> set (sd_sessions (snd w)) \<subseteq> fst w \<and> unique_by se_id (sd_sessions (snd w)) \<and>
     ids_fixed (fst w) \<and> one_user (fst w) \<and> one_live (set (sd_sessions (snd w)))"

text \<open>What the steps do to the rows: rewrite some in place, or drop some, or rotate one, or open a family.\<close>

definition row_kept :: "session_row \<Rightarrow> session_row \<Rightarrow> bool" where
  "row_kept r r' \<longleftrightarrow> same_session r r' \<and> (se_revokedAt r \<noteq> None \<longrightarrow> se_revokedAt r' \<noteq> None) \<and>
     (se_rotatedAt r \<noteq> None \<longrightarrow> se_rotatedAt r' \<noteq> None)"

inductive row_change :: "session_row set \<Rightarrow> session_row table \<Rightarrow> session_row table \<Rightarrow> bool" for S t where
  rc_update: "(\<And>r. p r \<Longrightarrow> row_kept r (f r)) \<Longrightarrow> row_change S t (db_update p f t)"
| rc_delete: "row_change S t (db_delete p t)"
| rc_open: "se_id r \<notin> se_id ` S \<Longrightarrow> se_familyId r \<notin> se_familyId ` S \<Longrightarrow> row_change S t (t @ [r])"
| rc_rotate: "row \<in> S \<Longrightarrow> x \<in> set t \<Longrightarrow> se_id x = se_id row \<Longrightarrow> se_rotatedAt x = None \<Longrightarrow> se_revokedAt x = None \<Longrightarrow>
    (\<And>r. p r \<Longrightarrow> row_kept r (f r) \<and> se_rotatedAt (f r) \<noteq> None) \<Longrightarrow> (\<And>r. p r \<longrightarrow> se_id r = se_id row) \<Longrightarrow> p x \<Longrightarrow>
    se_id n \<notin> se_id ` S \<Longrightarrow> se_familyId n = se_familyId row \<Longrightarrow> se_userId n = se_userId row \<Longrightarrow>
    row_change S t (db_update p f t @ [n])"

lemma row_change_refl: "row_change S t t"
  using rc_delete [of S t "\<lambda>_. False"] by (simp add: db_delete_def)

lemma revoke_change: "row_change S (sd_sessions db) (sd_sessions (snd (revokeRefreshFamily f u now db)))"
  by (auto simp: revokeRefreshFamily_def Let_def row_change_refl row_kept_def same_session_def intro!: rc_update)

lemma rotate_change:
  assumes "dr_sessionId d \<notin> se_id ` S" "row \<in> S"
  shows "row_change S (sd_sessions db) (sd_sessions (snd (rotateRefreshSession current d row now db)))"
proof (cases "\<exists>x \<in> set (sd_sessions db). rotate_claim row now x")
  case True
  then obtain x where x: "x \<in> set (sd_sessions db)" "rotate_claim row now x" by blast
  then have "db_returning (rotate_claim row now) f (sd_sessions db) \<noteq> []" for f by (auto simp: db_returning_ex)
  then show ?thesis using x assms
    by (auto simp: rotateRefreshSession_def Let_def rotate_claim_def row_kept_def same_session_def intro!: rc_rotate)
next
  case False
  then have "db_returning (rotate_claim row now) f (sd_sessions db) = []" for f by (simp add: db_returning_Nil_iff)
  then show ?thesis by (simp add: rotateRefreshSession_def Let_def row_change_refl)
qed

lemma login_change:
  assumes "dr_sessionId d \<notin> se_id ` S" "dr_familyId d \<notin> se_familyId ` S"
  shows "row_change S (sd_sessions db) (sd_sessions (issueLoginSession current d u browser mfa now db))"
  using assms by (auto simp: issueLoginSession_def row_change_refl intro!: rc_open)

lemma revoke_all_change: "row_change S (sd_sessions db) (sd_sessions (revokeAllRefreshSessions u now db))"
  by (auto simp: revokeAllRefreshSessions_def Let_def row_kept_def same_session_def intro!: rc_update)

lemma revoke_user_change: "row_change S (sd_sessions db) (sd_sessions (revokeUserSessions u keep now db))"
  by (auto simp: revokeUserSessions_def row_kept_def same_session_def intro!: rc_update)

lemma rehash_change: "row_change S t (db_update (\<lambda>r. se_id r = i) (\<lambda>r. r\<lparr>se_tokenHash := h\<rparr>) t)"
  by (auto simp: row_kept_def same_session_def intro!: rc_update)

lemma step_changes: "session_step current w w' \<Longrightarrow>
    \<exists>db'. w' = observed (fst w) db' \<and> row_change (fst w) (sd_sessions (snd w)) (sd_sessions db')"
proof (induction rule: session_step.induct; unfold fst_conv snd_conv; rule exI; rule conjI; (rule refl)?)
  show "row_change S (sd_sessions db) (sd_sessions (issueLoginSession current d u browser mfa now db))"
    if "dr_sessionId d \<notin> se_id ` S" "dr_familyId d \<notin> se_familyId ` S" for d S db u browser mfa now
    using that by (rule login_change)
  show "row_change S (sd_sessions db) (sd_sessions (snd (rotateRefreshSession current d row now db)))"
    if "dr_sessionId d \<notin> se_id ` S" "row \<in> S" for d S row db now
    using that by (rule rotate_change)
qed (simp_all add: issueGraceAccessToken_def row_change_refl rehash_change revoke_change
    revoke_all_change revoke_user_change rc_delete)


section \<open>The invariant\<close>

lemma session_invD:
  assumes "session_inv (S, db)"
  shows "set (sd_sessions db) \<subseteq> S" "unique_by se_id (sd_sessions db)"
    "\<And>r s. r \<in> S \<Longrightarrow> s \<in> S \<Longrightarrow> se_id r = se_id s \<Longrightarrow> same_session r s"
    "\<And>r s. r \<in> S \<Longrightarrow> s \<in> S \<Longrightarrow> se_familyId r = se_familyId s \<Longrightarrow> se_userId r = se_userId s"
    "\<And>r s. r \<in> set (sd_sessions db) \<Longrightarrow> s \<in> set (sd_sessions db) \<Longrightarrow> se_familyId r = se_familyId s \<Longrightarrow>
       se_rotatedAt r = None \<Longrightarrow> se_rotatedAt s = None \<Longrightarrow> r = s"
  using assms unfolding session_inv_def ids_fixed_def one_user_def one_live_def fst_conv snd_conv by blast+

lemma session_invI:
  assumes "set (sd_sessions db) \<subseteq> S" "unique_by se_id (sd_sessions db)" "ids_fixed S" "one_user S" "one_live (set (sd_sessions db))"
  shows "session_inv (S, db)"
  using assms by (simp add: session_inv_def)

lemma same_sessionD: "same_session r s \<Longrightarrow> se_id r = se_id s \<and> se_familyId r = se_familyId s \<and> se_userId r = se_userId s"
  by (simp add: same_session_def)

lemma keptD: "row_kept r r' \<Longrightarrow> same_session r r' \<and> (se_rotatedAt r' = None \<longrightarrow> se_rotatedAt r = None)"
  by (auto simp: row_kept_def)

text \<open>Where every row of the new table is a kept row of the old one.\<close>

lemma inv_kept:
  assumes inv: "session_inv (S, db)" and rows: "\<And>r'. r' \<in> set t \<Longrightarrow> \<exists>r \<in> set (sd_sessions db). row_kept r r'" and ids: "unique_by se_id t"
  shows "session_inv (S \<union> set t, db'\<lparr>sd_sessions := t\<rparr>)"
proof (rule session_invI)
  note D = session_invD [OF inv]
  have origin: "\<exists>r \<in> S. same_session r r'" if "r' \<in> S \<union> set t" for r'
  proof (cases "r' \<in> S")
    case True
    then show ?thesis by (intro bexI [of _ r']) (simp_all add: same_session_def)
  next
    case False
    with that have "r' \<in> set t" by blast
    with rows obtain r where "r \<in> set (sd_sessions db)" "row_kept r r'" by blast
    then show ?thesis using D(1) keptD by blast
  qed
  show "ids_fixed (S \<union> set t)" unfolding ids_fixed_def
  proof (intro ballI impI)
    fix r s assume "r \<in> S \<union> set t" "s \<in> S \<union> set t" and eq: "se_id r = se_id s"
    then obtain x y where "x \<in> S" "same_session x r" "y \<in> S" "same_session y s" using origin by blast
    with eq D(3) [of x y] show "same_session r s" by (simp add: same_session_def)
  qed
  show "one_user (S \<union> set t)" unfolding one_user_def
  proof (intro ballI impI)
    fix r s assume "r \<in> S \<union> set t" "s \<in> S \<union> set t" and eq: "se_familyId r = se_familyId s"
    then obtain x y where "x \<in> S" "same_session x r" "y \<in> S" "same_session y s" using origin by blast
    with eq D(4) [of x y] show "se_userId r = se_userId s" by (simp add: same_session_def)
  qed
  have "one_live (set t)" unfolding one_live_def
  proof (intro ballI impI)
    fix r s assume rs: "r \<in> set t" "s \<in> set t" and eq: "se_familyId r = se_familyId s" "se_rotatedAt r = None" "se_rotatedAt s = None"
    obtain x y where "x \<in> set (sd_sessions db)" "row_kept x r" "y \<in> set (sd_sessions db)" "row_kept y s" using rows rs by blast
    moreover from this have "x = y" using D(5) [of x y] eq keptD same_sessionD by metis
    ultimately have "se_id r = se_id s" using keptD same_sessionD by metis
    then show "r = s" by (rule unique_byD [OF ids rs])
  qed
  then show "one_live (set (sd_sessions (db'\<lparr>sd_sessions := t\<rparr>)))" by simp
qed (simp_all add: ids)

lemma kept_refl: "row_kept r r"
  by (simp add: row_kept_def same_session_def)

lemma kept_key: "row_kept r r' \<Longrightarrow> se_id r' = se_id r"
  by (simp add: row_kept_def same_session_def)

lemma updated_kept: "(\<And>r. p r \<Longrightarrow> row_kept r (f r)) \<Longrightarrow> r' \<in> set (db_update p f t) \<Longrightarrow> \<exists>r \<in> set t. row_kept r r'"
  using kept_refl by (auto simp: set_db_update)

text \<open>A new row of an open family with no live row left, or of a new family.\<close>

lemma inv_append:
  assumes inv: "session_inv (S, db)" and "se_id n \<notin> se_id ` S"
    and family: "\<And>r. r \<in> S \<Longrightarrow> se_familyId r = se_familyId n \<Longrightarrow> se_userId r = se_userId n"
    and free: "\<And>r. r \<in> set (sd_sessions db) \<Longrightarrow> se_familyId r = se_familyId n \<Longrightarrow> se_rotatedAt r \<noteq> None"
  shows "session_inv (S \<union> set (sd_sessions db @ [n]), db'\<lparr>sd_sessions := sd_sessions db @ [n]\<rparr>)"
proof (rule session_invI)
  note D = session_invD [OF inv]
  have rows: "S \<union> set (sd_sessions db @ [n]) = insert n S" using D(1) by auto
  have new: "se_id r \<noteq> se_id n" if "r \<in> S" for r using that assms(2) by (metis imageI)
  have "unique_by se_id (sd_sessions db @ [n])" using D(1,2) assms(2) by (intro unique_by_append1) auto
  then show "unique_by se_id (sd_sessions (db'\<lparr>sd_sessions := sd_sessions db @ [n]\<rparr>))" by simp
  show "ids_fixed (S \<union> set (sd_sessions db @ [n]))" unfolding ids_fixed_def rows
  proof (intro ballI impI)
    fix r s assume "r \<in> insert n S" "s \<in> insert n S" "se_id r = se_id s"
    then consider "r = s" | "r \<in> S" "s \<in> S" using new [of r] new [of s] by auto
    then show "same_session r s"
    proof cases
      case 2
      then show ?thesis using \<open>se_id r = se_id s\<close> by (rule D(3))
    qed (simp add: same_session_def)
  qed
  show "one_user (S \<union> set (sd_sessions db @ [n]))" unfolding one_user_def rows
  proof (intro ballI impI)
    fix r s assume "r \<in> insert n S" "s \<in> insert n S" and eq: "se_familyId r = se_familyId s"
    then consider "r \<in> S" "s \<in> S" | "r = n" "s \<in> S" | "r \<in> S" "s = n" | "r = n" "s = n" by blast
    then show "se_userId r = se_userId s"
    proof cases
      case 1
      then show ?thesis using eq by (rule D(4))
    qed (use eq family [of r] family [of s] in simp_all)
  qed
  have "one_live (insert n (set (sd_sessions db)))" unfolding one_live_def
  proof (intro ballI impI)
    fix r s assume rs: "r \<in> insert n (set (sd_sessions db))" "s \<in> insert n (set (sd_sessions db))"
      and eq: "se_familyId r = se_familyId s" "se_rotatedAt r = None" "se_rotatedAt s = None"
    show "r = s"
    proof (cases "r = n \<or> s = n")
      case True
      then show ?thesis using rs eq free [of r] free [of s] by auto
    next
      case False
      then show ?thesis using rs eq D(5) [of r s] by blast
    qed
  qed
  then show "one_live (set (sd_sessions (db'\<lparr>sd_sessions := sd_sessions db @ [n]\<rparr>)))" by simp
qed auto

lemma inv_change:
  assumes inv: "session_inv (S, db)" and "row_change S (sd_sessions db) (sd_sessions db')"
  shows "session_inv (observed S db')"
  using assms(2)
proof (cases rule: row_change.cases)
  case (rc_update p f)
  have "session_inv (S \<union> set (sd_sessions db'), db'\<lparr>sd_sessions := sd_sessions db'\<rparr>)"
    unfolding rc_update(1)
  proof (intro inv_kept [OF inv] ballI)
    show "\<exists>r \<in> set (sd_sessions db). row_kept r r'" if "r' \<in> set (db_update p f (sd_sessions db))" for r'
      using rc_update(2) that by (rule updated_kept)
    show "unique_by se_id (db_update p f (sd_sessions db))"
      using rc_update(2) session_invD(2) [OF inv] by (intro unique_by_update) (rule kept_key)
  qed
  then show ?thesis by (simp add: observed_def)
next
  case (rc_delete p)
  have "session_inv (S \<union> set (sd_sessions db'), db'\<lparr>sd_sessions := sd_sessions db'\<rparr>)"
    using rc_delete session_invD(2) [OF inv] kept_refl by (intro inv_kept [OF inv]) (auto intro: unique_by_delete)
  then show ?thesis by (simp add: observed_def)
next
  case (rc_open n)
  have "session_inv (S \<union> set (sd_sessions db'), db'\<lparr>sd_sessions := sd_sessions db'\<rparr>)" unfolding rc_open(1)
  proof (rule inv_append [OF inv rc_open(2)])
    have other: "se_familyId r \<noteq> se_familyId n" if "r \<in> S" for r using that rc_open(3) by (metis imageI)
    show "se_userId r = se_userId n" if "r \<in> S" "se_familyId r = se_familyId n" for r using that other by blast
    show "se_rotatedAt r \<noteq> None" if "r \<in> set (sd_sessions db)" "se_familyId r = se_familyId n" for r
      using that other session_invD(1) [OF inv] by blast
  qed
  then show ?thesis by (simp add: observed_def)
next
  case (rc_rotate row x p f n)
  let ?u = "db_update p f (sd_sessions db)"
  note D = session_invD [OF inv]
  have kept: "row_kept r (f r)" if "p r" for r using rc_rotate(7) that by blast
  have inv1: "session_inv (S \<union> set ?u, db\<lparr>sd_sessions := ?u\<rparr>)"
  proof (intro inv_kept [OF inv] ballI)
    show "\<exists>r \<in> set (sd_sessions db). row_kept r r'" if "r' \<in> set ?u" for r' using kept that by (rule updated_kept)
    show "unique_by se_id ?u" using kept D(2) by (intro unique_by_update) (rule kept_key)
  qed
  have x: "x \<in> S" "same_session x row" using rc_rotate(2-4) D(1) D(3) [of x row] by auto
  have fresh: "se_id n \<notin> se_id ` (S \<union> set ?u)"
  proof
    assume "se_id n \<in> se_id ` (S \<union> set ?u)"
    then obtain r where r: "r \<in> S \<union> set ?u" "se_id r = se_id n" by (metis imageE)
    have "\<exists>y \<in> S. se_id r = se_id y"
    proof (cases "r \<in> S")
      case False
      with r obtain y where "y \<in> set (sd_sessions db)" "row_kept y r" using kept updated_kept by blast
      then show ?thesis using D(1) kept_key by blast
    qed blast
    then show False using rc_rotate(10) r(2) by auto
  qed
  have family: "se_userId r = se_userId n" if "r \<in> S \<union> set ?u" "se_familyId r = se_familyId n" for r
    using session_invD(4) [OF inv1, of r row] rc_rotate(2,11,12) that by auto
  have free: "se_rotatedAt r \<noteq> None" if "r \<in> set ?u" "se_familyId r = se_familyId n" for r
  proof -
    from that consider "\<not> p r" "r \<in> set (sd_sessions db)" | y where "p y" "r = f y" by (auto simp: set_db_update)
    then show ?thesis
    proof cases
      case 1
      then have "r \<noteq> x" using rc_rotate(9) by auto
      then show ?thesis using D(5) [of r x] 1 rc_rotate(3,5) x(2) that(2) rc_rotate(11)
        by (auto simp: same_session_def)
    qed (use rc_rotate(7) in blast)
  qed
  have "session_inv (S \<union> set ?u \<union> set (?u @ [n]), db'\<lparr>sd_sessions := ?u @ [n]\<rparr>)"
    using inv_append [OF inv1 fresh family, of db'] free by simp
  moreover have "S \<union> set ?u \<union> set (?u @ [n]) = S \<union> set (?u @ [n])" by auto
  ultimately have "session_inv (S \<union> set (sd_sessions db'), db'\<lparr>sd_sessions := sd_sessions db'\<rparr>)" unfolding rc_rotate(1) by simp
  then show ?thesis by (simp add: observed_def)
qed

interpretation sessions: invariant_system session_init "session_step current" session_inv for current
proof
  show "session_inv w" if "session_init w" for w
    using that by (simp add: session_init_def session_inv_def unique_by_def ids_fixed_def one_user_def one_live_def)
  show "session_inv w'" if "session_inv w" "session_step current w w'" for w w'
    using that by (cases w) (force dest: step_changes intro: inv_change)
qed


section \<open>A revoked family stays dead\<close>

definition family_revoked :: "string \<Rightarrow> string \<Rightarrow> session_world \<Rightarrow> bool" where
  "family_revoked family user w \<longleftrightarrow> family \<in> se_familyId ` fst w \<and>
     (\<forall>r \<in> set (sd_sessions (snd w)). se_familyId r = family \<longrightarrow> se_userId r = user \<longrightarrow> se_revokedAt r \<noteq> None)"

lemma revoked_kept:
  assumes "family_revoked family user (S, db)" "\<And>r. p r \<Longrightarrow> row_kept r (f r)" "r \<in> set (db_update p f (sd_sessions db))"
    "se_familyId r = family" "se_userId r = user"
  shows "se_revokedAt r \<noteq> None"
proof -
  obtain x where "x \<in> set (sd_sessions db)" "row_kept x r" using updated_kept assms(2,3) by blast
  then show ?thesis using assms(1,4,5) by (auto simp: family_revoked_def row_kept_def same_session_def)
qed

lemma revoked_change:
  assumes inv: "session_inv (S, db)" and dead: "family_revoked family user (S, db)"
    and "row_change S (sd_sessions db) (sd_sessions db')"
  shows "family_revoked family user (observed S db')"
proof -
  have "se_revokedAt r \<noteq> None" if "r \<in> set (sd_sessions db')" "se_familyId r = family" "se_userId r = user" for r
    using assms(3)
  proof (cases rule: row_change.cases)
    case (rc_update p f)
    then show ?thesis using revoked_kept [OF dead, where p = p and f = f and r = r] that by simp
  next
    case (rc_rotate row x p f n)
    have "\<not> (se_familyId n = family \<and> se_userId n = user)"
    proof
      assume "se_familyId n = family \<and> se_userId n = user"
      moreover have "same_session x row" using rc_rotate(2-4) session_invD(1) [OF inv] session_invD(3) [OF inv, of x row] by auto
      ultimately have "se_revokedAt x \<noteq> None" using dead rc_rotate(3,11,12) by (auto simp: family_revoked_def same_session_def)
      then show False using rc_rotate(6) by simp
    qed
    then show ?thesis using revoked_kept [OF dead, where p = p and f = f and r = r] rc_rotate(1,7) that by auto
  qed (use dead that in \<open>auto simp: family_revoked_def\<close>)
  then show ?thesis using dead by (auto simp: family_revoked_def observed_def)
qed

lemma revoked_steps:
  assumes "(session_step current)\<^sup>*\<^sup>* w w'" "session_inv w" "family_revoked family user w"
  shows "session_inv w' \<and> family_revoked family user w'"
  using assms
proof (induction rule: rtranclp_induct)
  case (step v v')
  obtain S db where v: "v = (S, db)" by (cases v)
  obtain db' where "v' = observed S db'" "row_change S (sd_sessions db) (sd_sessions db')"
    using step_changes [OF step.hyps(2)] by (auto simp: v)
  then show ?case using step v inv_change revoked_change by blast
qed simp

text \<open>C6: once a family of sessions was revoked, whatever logins, rotations, grace tokens, rehashes and revocations follow, no access
  token of the family is accepted and no refresh token of it rotates, also not for a handler that read its row before.
\<close>

theorem revoked_family_stays_dead:
  assumes "reach session_init (session_step current) w" "revokeRefreshFamily family user at_ms (snd w) = (True, db)"
    and "(session_step current)\<^sup>*\<^sup>* (observed (fst w) db) (S', db')"
  shows "(\<forall>t now. ac_refreshFamilyId t = Some family \<longrightarrow> ac_userId t = Some user \<longrightarrow> validateApiTokenFreshness t now db' \<noteq> None) \<and>
    (\<forall>row d now. row \<in> S' \<longrightarrow> se_familyId row = family \<longrightarrow> se_userId row = user \<longrightarrow>
       rotateRefreshSession current d row now db' = (False, db'))"
proof -
  obtain S db0 where w: "w = (S, db0)" by (cases w)
  have inv: "session_inv (S, db0)" using sessions.reach_inv [OF assms(1)] w by simp
  have "row_change S (sd_sessions db0) (sd_sessions db)"
    using revoke_change [of S db0 family user at_ms] assms(2) w by simp
  then have inv1: "session_inv (observed S db)" by (rule inv_change [OF inv])
  have "family_revoked family user (observed S db)"
    using assms(2) session_invD(1) [OF inv]
    by (auto simp: w revokeRefreshFamily_def Let_def family_revoked_def observed_def set_db_update filter_empty_conv split: if_splits)
  then have end_state: "session_inv (S', db')" "family_revoked family user (S', db')"
    using revoked_steps [OF assms(3)] inv1 w by simp_all
  have dead: "se_revokedAt r \<noteq> None" if "r \<in> set (sd_sessions db')" "se_familyId r = family" "se_userId r = user" for r
    using end_state(2) that by (auto simp: family_revoked_def)
  have "validateApiTokenFreshness t now db' \<noteq> None" if "ac_refreshFamilyId t = Some family" "ac_userId t = Some user" for t now
    using dead that by (auto simp: validateApiTokenFreshness_def db_find_None_iff split: if_splits option.splits)
  moreover have "rotateRefreshSession current d row now db' = (False, db')"
    if row: "row \<in> S'" "se_familyId row = family" "se_userId row = user" for row d now
  proof -
    have "\<not> rotate_claim row now r" if r: "r \<in> set (sd_sessions db')" for r
    proof
      assume claim: "rotate_claim row now r"
      then have "same_session r row" using session_invD(1) [OF end_state(1)] session_invD(3) [OF end_state(1), of r row] r row(1)
        by (auto simp: rotate_claim_def)
      then show False using dead [OF r] claim row(2,3) by (simp add: rotate_claim_def same_session_def)
    qed
    then have "db_returning (rotate_claim row now) f (sd_sessions db') = []" for f by (simp add: db_returning_Nil_iff)
    then show ?thesis by (simp add: rotateRefreshSession_def Let_def)
  qed
  ultimately show ?thesis by blast
qed

text \<open>In every reachable state a family has at most one session that was not rotated: two requests with one refresh token never
  both get a successor.\<close>

theorem family_has_one_live_session:
  assumes "reach session_init (session_step current) (S, db)" "r \<in> set (sd_sessions db)" "s \<in> set (sd_sessions db)"
    "se_familyId r = se_familyId s" "se_rotatedAt r = None" "se_rotatedAt s = None"
  shows "r = s"
  using session_invD(5) [OF sessions.reach_inv [OF assms(1)] assms(2-6)] .



section \<open>Requests\<close>

text \<open>The row a token finds is stored.\<close>

lemma loaded_row:
  assumes "refreshSessionForToken current legacy token db = (Some row, db1)"
  shows "row \<in> set (sd_sessions db1)"
proof -
  define rows where "rows = take 2 (filter (\<lambda>r. se_tokenHash r \<in> {current token, legacy token}) (sd_sessions db))"
  define found where "found = (case find (\<lambda>r. se_tokenHash r = current token) rows of Some r \<Rightarrow> Some r
    | None \<Rightarrow> (case rows of [] \<Rightarrow> None | r # _ \<Rightarrow> Some r))"
  have stored: "r \<in> set (sd_sessions db)" if "found = Some r" for r
  proof -
    have "r \<in> set rows" using that by (auto simp: found_def find_Some_iff split: option.splits list.splits)
    then show ?thesis by (auto simp: rows_def dest: in_set_takeD)
  qed
  have "(case found of None \<Rightarrow> (None, db) | Some r \<Rightarrow>
      if se_tokenHash r = legacy token
      then (Some (r\<lparr>se_tokenHash := current token\<rparr>),
        db\<lparr>sd_sessions := db_update (\<lambda>x. se_id x = se_id r) (\<lambda>x. x\<lparr>se_tokenHash := current token\<rparr>) (sd_sessions db)\<rparr>)
      else (Some r, db)) = (Some row, db1)"
    using assms by (simp only: refreshSessionForToken_def Let_def found_def rows_def)
  then show ?thesis using stored by (auto simp: set_db_update split: option.splits if_splits)
qed

text \<open>What the revocation of a stored family leaves.\<close>

lemma revoked_family:
  assumes "x \<in> set (sd_sessions db)" "se_familyId x = family" "se_userId x = user"
    and "db' = snd (revokeRefreshFamily family user now db)"
  shows "(\<forall>r \<in> set (sd_sessions db'). se_familyId r = family \<longrightarrow> se_userId r = user \<longrightarrow> se_revokedAt r \<noteq> None) \<and>
    (\<exists>r \<in> set (sd_sessions db'). se_familyId r = family \<and> se_userId r = user) \<and>
    (\<forall>t \<in> set (sd_tokens db'). ac_refreshFamilyId t = Some family \<longrightarrow> ac_userId t \<noteq> Some user)"
proof -
  let ?p = "\<lambda>r. se_familyId r = family \<and> se_userId r = user"
  let ?f = "\<lambda>r. r\<lparr>se_revokedAt := Some now\<rparr>"
  have "filter ?p (sd_sessions db) \<noteq> []" using assms(1-3) by (auto simp: filter_empty_conv)
  then have sessions: "sd_sessions db' = db_update ?p ?f (sd_sessions db)"
    and tokens: "\<forall>t \<in> set (sd_tokens db'). ac_refreshFamilyId t = Some family \<longrightarrow> ac_userId t \<noteq> Some user"
    unfolding assms(4) by (simp_all add: revokeRefreshFamily_def Let_def) blast
  have "?f x \<in> set (sd_sessions db')" using assms(1-3) by (auto simp: sessions set_db_update)
  then have "\<exists>r \<in> set (sd_sessions db'). ?p r" using assms(2,3) by (intro bexI [of _ "?f x"]) simp_all
  moreover have "se_revokedAt r \<noteq> None" if "r \<in> set (sd_sessions db')" "?p r" for r
  proof -
    from that(1) consider "\<not> ?p r" | y where "r = ?f y" unfolding sessions set_db_update by blast
    then show ?thesis by cases (use that(2) in simp_all)
  qed
  ultimately show ?thesis using tokens by blast
qed



section \<open>A request is a sequence of the steps\<close>

text \<open>
  \<open>request_quiet\<close>: steps that add no session. Only a rotation adds one, and it is the last thing a request does, so the identifier it drew is
  still fresh then.
\<close>

definition request_quiet :: "digest \<Rightarrow> session_world \<Rightarrow> session_world \<Rightarrow> bool" where
  "request_quiet current w w' \<longleftrightarrow> (session_step current)\<^sup>*\<^sup>* w w' \<and> fst w \<subseteq> fst w' \<and> set (sd_sessions (snd w')) \<subseteq> fst w' \<and>
     se_id ` fst w' \<subseteq> se_id ` fst w"

lemma request_quiet_refl: "set (sd_sessions db) \<subseteq> S \<Longrightarrow> request_quiet current (S, db) (S, db)"
  by (simp add: request_quiet_def)

lemma request_quiet_trans: "request_quiet current u v \<Longrightarrow> request_quiet current v w \<Longrightarrow> request_quiet current u w"
  unfolding request_quiet_def by (blast intro: rtranclp_trans order_trans)

lemma quiet_step:
  assumes "session_step current (S, db) (observed S db')" "set (sd_sessions db) \<subseteq> S"
    and "se_id ` set (sd_sessions db') \<subseteq> se_id ` set (sd_sessions db)"
  shows "request_quiet current (S, db) (observed S db')"
proof -
  have "se_id ` (S \<union> set (sd_sessions db')) \<subseteq> se_id ` S"
    unfolding image_Un using assms(3) image_mono [OF assms(2), of se_id] by blast
  then show ?thesis using assms(1) by (simp add: request_quiet_def observed_def r_into_rtranclp)
qed

lemma ids_of_update: "(\<And>r. se_id (f r) = se_id r) \<Longrightarrow> se_id ` set (db_update p f t) \<subseteq> se_id ` set t"
  by (auto simp: set_db_update)

lemma quiet_load:
  assumes "refreshSessionForToken current legacy token db = (found, db1)" "set (sd_sessions db) \<subseteq> S"
  shows "\<exists>S1. request_quiet current (S, db) (S1, db1) \<and> (\<forall>row. found = Some row \<longrightarrow> row \<in> S1)"
proof -
  have "db1 = db \<or> (\<exists>i h. db1 = db\<lparr>sd_sessions := db_update (\<lambda>r. se_id r = i) (\<lambda>r. r\<lparr>se_tokenHash := h\<rparr>) (sd_sessions db)\<rparr>)"
    using assms(1) by (auto simp: refreshSessionForToken_def Let_def split: option.splits if_splits)
  then obtain S1 where S1: "request_quiet current (S, db) (S1, db1)"
  proof (elim disjE exE)
    assume "db1 = db"
    then show ?thesis using that request_quiet_refl [OF assms(2)] by blast
  next
    fix i h assume db1: "db1 = db\<lparr>sd_sessions := db_update (\<lambda>r. se_id r = i) (\<lambda>r. r\<lparr>se_tokenHash := h\<rparr>) (sd_sessions db)\<rparr>"
    have "request_quiet current (S, db) (observed S db1)"
      unfolding db1 by (rule quiet_step [OF ss_rehash assms(2)]) (simp add: ids_of_update)
    then show ?thesis using that by (simp add: observed_def)
  qed
  moreover have "row \<in> S1" if "found = Some row" for row
    using loaded_row [of current legacy token db row db1] assms(1) that S1 by (auto simp: request_quiet_def)
  ultimately show ?thesis by blast
qed

lemma quiet_revoke:
  assumes "set (sd_sessions db) \<subseteq> S"
  shows "request_quiet current (S, db) (observed S (snd (revokeRefreshFamily f u now db)))"
  by (rule quiet_step [OF ss_revoke assms]) (simp add: revokeRefreshFamily_def Let_def ids_of_update)

lemma quiet_revoke_all:
  assumes "set (sd_sessions db) \<subseteq> S"
  shows "request_quiet current (S, db) (observed S (revokeAllRefreshSessions u now db))"
  by (rule quiet_step [OF ss_revoke_all assms]) (simp add: revokeAllRefreshSessions_def Let_def ids_of_update)

lemma quiet_grace:
  assumes "set (sd_sessions db) \<subseteq> S"
  shows "request_quiet current (S, db) (observed S (issueGraceAccessToken current d u f now db))"
  by (rule quiet_step [OF ss_grace assms]) (simp add: issueGraceAccessToken_def)

text \<open>Loading a candidate keeps the rows seen so far among the observed ones.\<close>

lemma quiet_candidate:
  assumes "loadRefreshCandidate current legacy token (seen, db) = (found, seen1, db1)" "set (sd_sessions db) \<subseteq> S"
    and "snd ` set seen \<subseteq> S"
  shows "\<exists>S1. request_quiet current (S, db) (S1, db1) \<and> snd ` set seen1 \<subseteq> S1 \<and> (\<forall>row. found = Some row \<longrightarrow> row \<in> S1)"
proof (cases "js_get seen (current token)")
  case (Some row)
  then have "row \<in> S" using assms(3) map_of_SomeD by force
  have "found = Some row \<and> seen1 = seen \<and> db1 = db" using assms(1) Some by (simp add: loadRefreshCandidate_def)
  with \<open>row \<in> S\<close> show ?thesis using request_quiet_refl [OF assms(2), of current] assms(3) by (intro exI [of _ S]) simp
next
  case None
  obtain found' db' where load: "refreshSessionForToken current legacy token db = (found', db')" by fastforce
  obtain S1 where S1: "request_quiet current (S, db) (S1, db')" "\<forall>row. found' = Some row \<longrightarrow> row \<in> S1"
    using quiet_load [OF load assms(2)] by blast
  have "snd ` set (js_set k row seen) \<subseteq> insert row (snd ` set seen)" for k row
    by (induction k row seen rule: js_set.induct) auto
  moreover have "snd ` set seen \<subseteq> S1" using S1(1) assms(3) by (auto simp: request_quiet_def)
  moreover have "found = found' \<and> db1 = db' \<and> seen1 = (case found' of None \<Rightarrow> seen | Some row \<Rightarrow> js_set (current token) row seen)"
    using assms(1) None load by (cases found') (auto simp: loadRefreshCandidate_def)
  ultimately show ?thesis using S1 by (intro exI [of _ S1]) (cases found', simp_all, blast)
qed

lemma quiet_candidates:
  assumes "load_candidates current legacy tokens (seen, db) = (seen1, db1)" "set (sd_sessions db) \<subseteq> S" "snd ` set seen \<subseteq> S"
  shows "\<exists>S1. request_quiet current (S, db) (S1, db1) \<and> snd ` set seen1 \<subseteq> S1"
  using assms
proof (induction tokens arbitrary: seen db S)
  case Nil
  then show ?case using request_quiet_refl [of db S current] by (intro exI [of _ S]) simp
next
  case (Cons token tokens)
  obtain found seen' db' where load: "loadRefreshCandidate current legacy token (seen, db) = (found, seen', db')"
    by (cases "loadRefreshCandidate current legacy token (seen, db)") auto
  obtain S' where S': "request_quiet current (S, db) (S', db')" "snd ` set seen' \<subseteq> S'"
    using quiet_candidate [OF load Cons.prems(2,3)] by blast
  have "load_candidates current legacy tokens (seen', db') = (seen1, db1)" using Cons.prems(1) load by simp
  moreover have "set (sd_sessions db') \<subseteq> S'" using S'(1) by (simp add: request_quiet_def)
  ultimately obtain S1 where "request_quiet current (S', db') (S1, db1)" "snd ` set seen1 \<subseteq> S1"
    using Cons.IH [of seen' db' S'] S'(2) by blast
  then show ?case using request_quiet_trans [OF S'(1)] by blast
qed

definition runs :: "digest \<Rightarrow> session_world \<Rightarrow> session_db \<Rightarrow> bool" where
  "runs current w db' \<longleftrightarrow> (\<exists>S'. (session_step current)\<^sup>*\<^sup>* w (S', db'))"

lemma quiet_runs: "request_quiet current w (S', db') \<Longrightarrow> runs current w db'"
  by (auto simp: request_quiet_def runs_def)

lemma runs_trans: "request_quiet current w v \<Longrightarrow> runs current v db' \<Longrightarrow> runs current w db'"
  by (auto simp: request_quiet_def runs_def intro: rtranclp_trans)

lemma quiet_fresh: "request_quiet current (S, db) (S1, db1) \<Longrightarrow> i \<notin> se_id ` S \<Longrightarrow> i \<notin> se_id ` S1"
  by (auto simp: request_quiet_def)

lemma quiet_rows: "request_quiet current w (S1, db1) \<Longrightarrow> set (sd_sessions db1) \<subseteq> S1"
  by (simp add: request_quiet_def)

lemma observed_runs: "request_quiet current w (observed S db') \<Longrightarrow> runs current w db'"
  unfolding observed_def by (rule quiet_runs)

lemma rotate_runs:
  assumes "dr_sessionId d \<notin> se_id ` S" "row \<in> S"
  shows "runs current (S, db) (snd (rotateRefreshSession current d row now db))"
  unfolding runs_def using ss_rotate [OF assms, of current db now] by (intro exI) (simp only: observed_def, rule r_into_rtranclp)

text \<open>A response either ends the request or leaves it quiet.\<close>

lemma process_runs:
  assumes "processRefreshCandidate current users d row live now db = (response, db')" "row \<in> S"
    and "set (sd_sessions db) \<subseteq> S" "dr_sessionId d \<notin> se_id ` S"
  shows "case response of Some _ \<Rightarrow> runs current (S, db) db' | None \<Rightarrow> db' = db"
proof (cases "se_rotatedAt row = None")
  case True
  show ?thesis
  proof (cases "rotateRefreshSession current d row now db")
    case (Pair ok db1)
    have "\<not> ok \<Longrightarrow> db1 = db" using Pair by (auto simp: rotateRefreshSession_def Let_def split: if_splits)
    then show ?thesis
      using assms(1) True Pair rotate_runs [OF assms(4,2), of current db now]
        observed_runs [OF quiet_grace [OF assms(3)]] observed_runs [OF quiet_revoke [OF assms(3)]]
      by (cases ok) (auto simp: processRefreshCandidate_def Let_def grace_or_def split: option.splits)
  qed
next
  case False
  then show ?thesis
    using assms(1) observed_runs [OF quiet_grace [OF assms(3)]] observed_runs [OF quiet_revoke [OF assms(3)]]
    by (auto simp: processRefreshCandidate_def split: option.splits if_splits)
qed

lemma process_candidates_runs:
  assumes "process_candidates current legacy users d now live tokens (seen, db) = (response, seen1, db1)"
    and "set (sd_sessions db) \<subseteq> S" "snd ` set seen \<subseteq> S" "dr_sessionId d \<notin> se_id ` S"
  shows "case response of
      Some _ \<Rightarrow> runs current (S, db) db1
    | None \<Rightarrow> \<exists>S1. request_quiet current (S, db) (S1, db1) \<and> snd ` set seen1 \<subseteq> S1"
  using assms
proof (induction tokens arbitrary: seen db S)
  case Nil
  then show ?case using request_quiet_refl [of db S current] by auto
next
  case (Cons token tokens)
  obtain found seen' db' where load: "loadRefreshCandidate current legacy token (seen, db) = (found, seen', db')"
    by (cases "loadRefreshCandidate current legacy token (seen, db)") auto
  obtain S' where S': "request_quiet current (S, db) (S', db')" "snd ` set seen' \<subseteq> S'" "\<forall>row. found = Some row \<longrightarrow> row \<in> S'"
    using quiet_candidate [OF load Cons.prems(2,3)] by blast
  note rows = quiet_rows [OF S'(1)] and fresh = quiet_fresh [OF S'(1) Cons.prems(4)]
  have rest: ?case if "process_candidates current legacy users d now live tokens (seen', db') = (response, seen1, db1)"
    using Cons.IH [OF that rows S'(2) fresh] runs_trans [OF S'(1)] request_quiet_trans [OF S'(1)] by (cases response) auto
  show ?case
  proof (cases found)
    case None
    then show ?thesis using rest Cons.prems(1) load by simp
  next
    case (Some row)
    obtain answer db'' where answer: "processRefreshCandidate current users d row live now db' = (answer, db'')" by fastforce
    have step: "case answer of Some _ \<Rightarrow> runs current (S', db') db'' | None \<Rightarrow> db'' = db'"
      using process_runs [OF answer _ rows fresh] S'(3) Some by blast
    show ?thesis
    proof (cases "se_revokedAt row \<noteq> None \<or> se_expiresAt row \<le> now")
      case True
      then show ?thesis using rest Cons.prems(1) load Some by simp
    next
      case live: False
      show ?thesis
      proof (cases "users (se_userId row) = Some False")
        case True
        then show ?thesis using rest Cons.prems(1) load Some live answer step runs_trans [OF S'(1)]
          by (cases answer) auto
      next
        case False
        then have "response = Some (Unauthorized ''Refresh session is invalid'')"
          "db1 = revokeAllRefreshSessions (se_userId row) now db'"
          using Cons.prems(1) load Some live by simp_all
        then show ?thesis using runs_trans [OF S'(1) observed_runs [OF quiet_revoke_all [OF rows]]] by simp
      qed
    qed
  qed
qed

lemma classify_unseen_runs:
  assumes "classify_unseen current legacy now tokens (seen, db) = (response, db1)" "set (sd_sessions db) \<subseteq> S"
  shows "runs current (S, db) db1"
  using assms
proof (induction tokens arbitrary: seen db S)
  case Nil
  then show ?case using quiet_runs [OF request_quiet_refl] by simp
next
  case (Cons token tokens)
  show ?case
  proof (cases "js_get seen (current token)")
    case (Some row)
    then show ?thesis using Cons by simp
  next
    case None
    obtain found db' where load: "refreshSessionForToken current legacy token db = (found, db')" by fastforce
    obtain S' where S': "request_quiet current (S, db) (S', db')" using quiet_load [OF load Cons.prems(2)] by blast
    note rows = quiet_rows [OF S']
    have rest: "runs current (S, db) db1" if "classify_unseen current legacy now tokens (seen', db') = (response, db1)" for seen'
      using runs_trans [OF S' Cons.IH [OF that rows]] .
    have revoke: "runs current (S, db) (snd (revokeRefreshFamily f u now db'))" for f u
      using runs_trans [OF S' observed_runs [OF quiet_revoke [OF rows]]] .
    show ?thesis using Cons.prems(1) None load rest revoke quiet_runs [OF S'] by (auto split: option.splits if_splits)
  qed
qed

lemma classify_runs:
  assumes "classifyRefreshFailure current legacy now tokens (seen, db) = (response, db1)" "set (sd_sessions db) \<subseteq> S"
  shows "runs current (S, db) db1"
  using assms classify_unseen_runs [OF _ assms(2)] observed_runs [OF quiet_revoke [OF assms(2)]] quiet_runs [OF request_quiet_refl [OF assms(2)]]
  by (auto simp: classifyRefreshFailure_def split: option.splits if_splits)

text \<open>C23: a refresh request does nothing but a sequence of the steps above, whatever its cookies hold; so what the steps preserve
  holds for whole requests and for requests whose statements interleave.\<close>

theorem refresh_request_is_steps:
  assumes "refreshRoute current legacy users d now candidates db = (response, db')"
    and "set (sd_sessions db) \<subseteq> S" "dr_sessionId d \<notin> se_id ` S"
  shows "\<exists>S'. (session_step current)\<^sup>*\<^sup>* (S, db) (S', db')"
proof (cases "candidates = []")
  case True
  then show ?thesis using assms(1) by (auto simp: refreshRoute_def)
next
  case False
  obtain seen db1 where load: "load_candidates current legacy candidates ([], db) = (seen, db1)" by fastforce
  obtain S1 where S1: "request_quiet current (S, db) (S1, db1)" "snd ` set seen \<subseteq> S1" using quiet_candidates [OF load assms(2)] by auto
  note rows = quiet_rows [OF S1(1)] and fresh = quiet_fresh [OF S1(1) assms(3)]
  let ?active = "filter (\<lambda>r. se_revokedAt r = None \<and> now < se_expiresAt r) (map snd seen)"
  let ?live = "map_option se_familyId (find (\<lambda>r. se_rotatedAt r = None) ?active)"
  have "runs current (S1, db1) db'"
  proof (cases "check_replays users ?live now ?active db1")
    case (Some row)
    then show ?thesis using assms(1) False load observed_runs [OF quiet_revoke [OF rows]] by (auto simp: refreshRoute_def Let_def)
  next
    case None
    obtain answer seen2 db2 where process:
      "process_candidates current legacy users d now ?live candidates (seen, db1) = (answer, seen2, db2)"
      by (cases "process_candidates current legacy users d now ?live candidates (seen, db1)") auto
    note step = process_candidates_runs [OF process rows S1(2) fresh]
    show ?thesis
    proof (cases answer)
      case (Some a)
      then show ?thesis using step process None assms(1) False load by (auto simp: refreshRoute_def Let_def)
    next
      case None': None
      then obtain S2 where S2: "request_quiet current (S1, db1) (S2, db2)" using step by auto
      have "classifyRefreshFailure current legacy now candidates (seen2, db2) = (response, db')"
        using process None None' assms(1) False load by (simp add: refreshRoute_def Let_def)
      then show ?thesis using runs_trans [OF S2 classify_runs] quiet_rows [OF S2] by blast
    qed
  qed
  then show ?thesis using runs_trans [OF S1(1)] by (auto simp: runs_def)
qed



section \<open>A login, a rotation and a replay\<close>

definition demo_hash :: digest where "demo_hash s = CHR ''#'' # s"
definition demo_legacy :: digest where "demo_legacy s = CHR ''%'' # s"

definition no_sessions :: session_db where "no_sessions = \<lparr>sd_sessions = [], sd_tokens = []\<rparr>"

definition draw_login :: drawn where
  "draw_login = \<lparr>dr_access = ''a1'', dr_accessId = ''t1'', dr_refresh = ''r1'', dr_sessionId = ''s1'', dr_familyId = ''f''\<rparr>"

definition draw_rotation :: drawn where
  "draw_rotation = \<lparr>dr_access = ''a2'', dr_accessId = ''t2'', dr_refresh = ''r2'', dr_sessionId = ''s2'', dr_familyId = ''unused''\<rparr>"

definition demo_users :: "string \<Rightarrow> bool option" where "demo_users u = Some False"

definition logged_in :: session_world where
  "logged_in = observed {} (issueLoginSession demo_hash draw_login ''ann'' True False 0 no_sessions)"

definition rotated_world :: session_world where
  "rotated_world = observed (fst logged_in)
     (snd (rotateRefreshSession demo_hash draw_rotation (hd (sd_sessions (snd logged_in))) 1000 (snd logged_in)))"

lemma reach_rotated: "reach session_init (session_step demo_hash) rotated_world"
proof -
  have empty: "reach session_init (session_step demo_hash) ({}, no_sessions)"
    by (rule reach_init) (simp add: session_init_def no_sessions_def)
  have "session_step demo_hash ({}, no_sessions) logged_in" unfolding logged_in_def by (rule ss_login) simp_all
  then have login: "reach session_init (session_step demo_hash) logged_in" by (rule reach_step [OF empty])
  have "session_step demo_hash (fst logged_in, snd logged_in) rotated_world" unfolding rotated_world_def
    by (rule ss_rotate; code_simp)
  then show ?thesis by (intro reach_step [OF login]) simp
qed

definition replayed_db :: session_db where
  "replayed_db = snd (revokeRefreshFamily ''f'' ''ann'' 100000 (snd rotated_world))"

lemma demo_revoked: "revokeRefreshFamily ''f'' ''ann'' 100000 (snd rotated_world) = (True, replayed_db)"
  unfolding replayed_db_def by code_simp

theorem revoked_family_stays_dead_witness:
  "validateApiTokenFreshness (access_row demo_hash draw_rotation ''ann'' (Some ''f'') (Some 901000) 1000) 100001 replayed_db \<noteq> None"
  using revoked_family_stays_dead [OF reach_rotated demo_revoked, of "fst (observed (fst rotated_world) replayed_db)" replayed_db]
  by (auto simp: observed_def access_row_def)

theorem family_has_one_live_session_witness:
  "last (sd_sessions (snd rotated_world)) = sd_sessions (snd rotated_world) ! 1"
proof -
  have "reach session_init (session_step demo_hash) (fst rotated_world, snd rotated_world)" using reach_rotated by simp
  then show ?thesis by (rule family_has_one_live_session; code_simp)
qed

text \<open>The replay of the first token after 99 seconds.\<close>

definition replayed_row :: session_row where
  "replayed_row = hd (sd_sessions (snd rotated_world))"

lemma demo_presented: "refreshSessionForToken demo_hash demo_legacy ''r1'' (snd rotated_world) = (Some replayed_row, snd rotated_world)"
  unfolding replayed_row_def by code_simp

lemma demo_rotated: "se_rotatedAt replayed_row \<noteq> None"
  unfolding replayed_row_def by code_simp

lemma demo_no_grace:
  "resolveGraceSuccessor demo_users (se_rotatedAtMs replayed_row) (se_successorHash replayed_row) 100000 (snd rotated_world) = None"
  unfolding replayed_row_def by code_simp


text \<open>Within the grace the same token gets an access token for the session that succeeded it, and nothing is revoked.\<close>

lemma second_tab_gets_grace:
  "fst (refreshRoute demo_hash demo_legacy demo_users draw_login 20000 [''r1''] (snd rotated_world)) = Grace draw_login ''f''"
  by code_simp

theorem refresh_request_is_steps_witness:
  "\<exists>S'. (session_step demo_hash)\<^sup>*\<^sup>* logged_in (S', snd (refreshRoute demo_hash demo_legacy demo_users draw_rotation 1000 [''r1''] (snd logged_in)))"
proof -
  have "set (sd_sessions (snd logged_in)) \<subseteq> fst logged_in" by (simp add: logged_in_def observed_def)
  moreover have "dr_sessionId draw_rotation \<notin> se_id ` fst logged_in" by code_simp
  ultimately show ?thesis using refresh_request_is_steps [OF surjective_pairing, of "snd logged_in" "fst logged_in" draw_rotation] by simp
qed

end
