(* ===== verification/Variables.thy ===== *)
theory Variables imports Secrets begin

text \<open>
  The variables of a run: precedence of variable sets (\<open>lib/variable-set-precedence.ts\<close>), the effective list of the API
  (\<open>lib/effective-variables.ts\<close>), the list the worker executes with, its environment and the files of Terraform variables (\<open>worker.ts\<close>,
  \<open>lib/run-variables.ts\<close>, \<open>lib/tfvars.ts\<close>) and the environment of an agent (\<open>lib/agent-api.ts\<close>). Decryption is the argument \<open>decrypt\<close>
  (\<open>None\<close> where it throws), the environment of the process the argument \<open>process\<close>. \<open>toUpperCase\<close> is the one of ASCII letters,
  and no variable is named \<open>__proto__\<close>.
\<close>

section \<open>Rows\<close>

record variable_row =
  va_id :: string
  va_key :: string
  va_value :: string
  va_valueEncrypted :: "string option"
  va_sensitive :: "bool option"
  va_hcl :: "bool option"
  va_category :: string

record variable_set =
  vs_id :: string
  vs_orgId :: string
  vs_parentProjectId :: "string option"
  vs_name :: string
  vs_global :: "bool option"
  vs_priority :: "bool option"

text \<open>Variables with the workspace or the set they belong to, and links of sets to workspaces and projects.\<close>

record variable_db =
  vd_workspaceVariables :: "(string \<times> variable_row) list"
  vd_setVariables :: "(string \<times> variable_row) list"
  vd_sets :: "variable_set list"
  vd_setWorkspaces :: "(string \<times> string) list"
  vd_setProjects :: "(string \<times> string) list"


section \<open>Precedence of sets\<close>

definition compareCodePoints :: "string \<Rightarrow> string \<Rightarrow> int" where
  "compareCodePoints left right = lex_cmp left right"

datatype set_scope = Global | Organization_project | Organization_workspace | Project_project | Project_workspace

fun scopeRank :: "set_scope \<Rightarrow> int" where
  "scopeRank Global = 0"
| "scopeRank Organization_project = 1"
| "scopeRank Organization_workspace = 2"
| "scopeRank Project_project = 3"
| "scopeRank Project_workspace = 4"

definition set_scope_of :: "string set \<Rightarrow> string set \<Rightarrow> variable_set \<Rightarrow> set_scope" where
  "set_scope_of workspaceSetIds projectSetIds s =
     (let projectScope = vs_id s \<notin> workspaceSetIds \<or> vs_priority s = Some True \<and> vs_id s \<in> projectSetIds in
      if vs_global s = Some True then Global
      else if vs_parentProjectId s = None then (if projectScope then Organization_project else Organization_workspace)
      else if projectScope then Project_project else Project_workspace)"

definition set_rank :: "string set \<Rightarrow> string set \<Rightarrow> variable_set \<Rightarrow> int" where
  "set_rank workspaceSetIds projectSetIds s =
     (let ordinary = scopeRank (set_scope_of workspaceSetIds projectSetIds s) in
      if vs_priority s = Some True then 10 - ordinary else ordinary)"

definition compareVariableSets :: "string set \<Rightarrow> string set \<Rightarrow> variable_set \<Rightarrow> variable_set \<Rightarrow> int" where
  "compareVariableSets workspaceSetIds projectSetIds left right =
     js_or (set_rank workspaceSetIds projectSetIds left - set_rank workspaceSetIds projectSetIds right)
       (js_or (compareCodePoints (vs_name right) (vs_name left)) (compareCodePoints (vs_id right) (vs_id left)))"


section \<open>The sets of a workspace\<close>

definition linked_set_ids :: "(string \<times> string) list \<Rightarrow> string \<Rightarrow> string set" where
  "linked_set_ids links target = fst ` set (filter (\<lambda>l. snd l = target) links)"

definition workspaceSetIds :: "variable_db \<Rightarrow> string \<Rightarrow> string set" where
  "workspaceSetIds db workspaceId = linked_set_ids (vd_setWorkspaces db) workspaceId"

definition projectSetIds :: "variable_db \<Rightarrow> string option \<Rightarrow> string set" where
  "projectSetIds db projectId = (case projectId of None \<Rightarrow> {} | Some p \<Rightarrow> linked_set_ids (vd_setProjects db) p)"

definition activeSets :: "variable_db \<Rightarrow> string \<Rightarrow> string \<Rightarrow> string option \<Rightarrow> variable_set list" where
  "activeSets db workspaceId orgId projectId =
     (let orgVariableSets = filter (\<lambda>s. vs_orgId s = orgId) (vd_sets db);
          attached = workspaceSetIds db workspaceId \<union> projectSetIds db projectId;
          active = filter (\<lambda>s. vs_global s = Some True \<or> vs_id s \<in> attached \<or>
            projectId \<noteq> None \<and> vs_parentProjectId s = projectId) orgVariableSets in
      js_sort (compareVariableSets (workspaceSetIds db workspaceId) (projectSetIds db projectId)) active)"

definition prioritySetIds :: "variable_set list \<Rightarrow> string set" where
  "prioritySetIds active = vs_id ` set (filter (\<lambda>s. vs_priority s = Some True) active)"

definition setOrder :: "variable_set list \<Rightarrow> string \<Rightarrow> int" where
  "setOrder active i = js_default (js_get (zip (map vs_id active) (map int [0..<length active])) i) MAX_SAFE_INTEGER"

definition orderedSetVars :: "variable_db \<Rightarrow> variable_set list \<Rightarrow> (string \<times> variable_row) list" where
  "orderedSetVars db active =
     js_sort (\<lambda>left right. js_or (setOrder active (fst left) - setOrder active (fst right))
         (compareCodePoints (va_id (snd left)) (va_id (snd right))))
       (filter (\<lambda>v. fst v \<in> vs_id ` set active) (vd_setVariables db))"


section \<open>The effective list of the API\<close>

datatype effective_variable = From_workspace variable_row | From_varset variable_row string string

fun effective_row :: "effective_variable \<Rightarrow> variable_row" where
  "effective_row (From_workspace v) = v"
| "effective_row (From_varset v _ _) = v"

definition dedupeKey :: "variable_row \<Rightarrow> string" where
  "dedupeKey v = va_category v @ '':'' @ va_key v"

text \<open>\<open>effective.set\<close> for each variable of a loop.\<close>

definition set_all :: "('v \<Rightarrow> string) \<Rightarrow> 'v list \<Rightarrow> (string, 'v) js_map \<Rightarrow> (string, 'v) js_map" where
  "set_all key vs m = foldl (\<lambda>m v. js_set (key v) v m) m vs"

definition from_set :: "variable_set list \<Rightarrow> string \<times> variable_row \<Rightarrow> effective_variable" where
  "from_set active v =
     From_varset (snd v) (fst v) (js_default (js_get (map (\<lambda>s. (vs_id s, vs_name s)) active) (fst v)) (fst v))"

definition effective_map :: "variable_db \<Rightarrow> string \<Rightarrow> string \<Rightarrow> string option \<Rightarrow> (string, effective_variable) js_map" where
  "effective_map db workspaceId orgId projectId =
     (let active = activeSets db workspaceId orgId projectId;
          vars = orderedSetVars db active;
          priority = (\<lambda>v. fst v \<in> prioritySetIds active);
          key = (\<lambda>e. dedupeKey (effective_row e));
          m1 = set_all key (map (from_set active) (filter (\<lambda>v. \<not> priority v) vars)) [];
          m2 = set_all key (map (\<lambda>v. From_workspace (snd v)) (filter (\<lambda>v. fst v = workspaceId) (vd_workspaceVariables db))) m1 in
      set_all key (map (from_set active) (filter priority vars)) m2)"

definition effectiveWorkspaceVariables :: "variable_db \<Rightarrow> string \<Rightarrow> string \<Rightarrow> string option \<Rightarrow> effective_variable list" where
  "effectiveWorkspaceVariables db workspaceId orgId projectId =
     js_sort (\<lambda>left right. js_or (compareCodePoints (va_key (effective_row left)) (va_key (effective_row right)))
         (compareCodePoints (va_id (effective_row left)) (va_id (effective_row right))))
       (map snd (effective_map db workspaceId orgId projectId))"


section \<open>The variables of the worker\<close>

record execution_variable =
  ev_key :: string
  ev_value :: string
  ev_category :: string
  ev_hcl :: bool
  ev_priority :: bool
  ev_sensitive :: bool

definition decryptIfNeeded :: "(string \<Rightarrow> string option) \<Rightarrow> variable_row \<Rightarrow> string option" where
  "decryptIfNeeded decrypt v = (case va_valueEncrypted v of
     Some c \<Rightarrow> if c \<noteq> [] then decrypt c else Some (va_value v)
   | None \<Rightarrow> Some (va_value v))"

definition execution_of :: "(string \<Rightarrow> string option) \<Rightarrow> bool \<Rightarrow> variable_row \<Rightarrow> execution_variable option" where
  "execution_of decrypt priority v = map_option (\<lambda>value. \<lparr>ev_key = va_key v, ev_value = value, ev_category = va_category v,
     ev_hcl = (va_hcl v = Some True), ev_priority = priority, ev_sensitive = (va_sensitive v = Some True)\<rparr>) (decryptIfNeeded decrypt v)"

text \<open>A loop that decrypts and sets; it stops where the decryption throws.\<close>

fun execute_all :: "(string \<Rightarrow> string option) \<Rightarrow> bool \<Rightarrow> variable_row list \<Rightarrow> (string, execution_variable) js_map \<Rightarrow>
    (string, execution_variable) js_map option" where
  "execute_all decrypt priority [] m = Some m"
| "execute_all decrypt priority (v # vs) m = (case execution_of decrypt priority v of
     None \<Rightarrow> None
   | Some e \<Rightarrow> execute_all decrypt priority vs (js_set (dedupeKey v) e m))"

text \<open>\<open>overrides\<close> are given in plain text: rows without an encrypted value.\<close>

definition executionVariables ::
    "(string \<Rightarrow> string option) \<Rightarrow> variable_db \<Rightarrow> string \<Rightarrow> string \<Rightarrow> string option \<Rightarrow> variable_row list option \<Rightarrow> execution_variable list option" where
  "executionVariables decrypt db workspaceId orgId projectId overrides =
     (let active = activeSets db workspaceId orgId projectId;
          vars = orderedSetVars db active;
          priority = (\<lambda>v. fst v \<in> prioritySetIds active);
          workspaceVars = (case overrides of Some vs \<Rightarrow> vs
            | None \<Rightarrow> map snd (filter (\<lambda>v. fst v = workspaceId) (vd_workspaceVariables db))) in
      case execute_all decrypt False (map snd (filter (\<lambda>v. \<not> priority v) vars)) [] of
        None \<Rightarrow> None
      | Some m1 \<Rightarrow> (case execute_all decrypt False workspaceVars m1 of
          None \<Rightarrow> None
        | Some m2 \<Rightarrow> map_option (map snd) (execute_all decrypt True (map snd (filter priority vars)) m2)))"


section \<open>Variables of the run\<close>

record run_variable =
  rv_key :: string
  rv_value :: string
  rv_category :: string
  rv_sensitive :: bool

text \<open>One member of the list: \<open>Inr None\<close> is skipped, \<open>Inl\<close> throws.\<close>

definition normalize_item :: "(string \<Rightarrow> string option) \<Rightarrow> json \<Rightarrow> unit + run_variable option" where
  "normalize_item decrypt item = (case json_record item of
     None \<Rightarrow> Inr None
   | Some r \<Rightarrow> (case (json_string (js_get r ''key''), json_string (js_get r ''value'')) of
       (Some key, Some value) \<Rightarrow>
         (let keep = (\<lambda>v. Inr (Some \<lparr>rv_key = key, rv_value = v,
                rv_category = (if js_get r ''category'' = Some (JStr ''env'') then ''env'' else ''terraform''),
                rv_sensitive = (js_get r ''sensitive'' = Some (JBool True))\<rparr>)) in
          case js_get r ''valueEncrypted'' of
            None \<Rightarrow> keep value
          | Some (JStr c) \<Rightarrow> if \<not> isEncryptedSecret c then Inl ()
              else (case decrypt c of None \<Rightarrow> Inl () | Some v \<Rightarrow> keep v)
          | Some _ \<Rightarrow> Inl ())
     | _ \<Rightarrow> Inr None))"

definition normalizeRunVariables :: "(string \<Rightarrow> string option) \<Rightarrow> json option \<Rightarrow> unit + run_variable list" where
  "normalizeRunVariables decrypt variables = (case variables of
     Some (JArr items) \<Rightarrow> bind_result (map_result (normalize_item decrypt) items) (\<lambda>vs. Inr (List.map_filter id vs))
   | _ \<Rightarrow> Inr [])"


section \<open>Environments\<close>

type_synonym environment = "(string, string) js_map"

definition to_upper :: "string \<Rightarrow> string" where
  "to_upper s = map (\<lambda>c. if is_lower c then char_of (ord_of c - 32) else c) s"

definition ALLOWED_KEYS :: "string list" where
  "ALLOWED_KEYS = [''PATH'', ''HOME'', ''TMPDIR'', ''USER'', ''LANG'', ''LC_ALL'', ''SHELL'']"

definition PROTECTED_KEYS :: "string list" where
  "PROTECTED_KEYS = [''PATH'', ''LD_PRELOAD'', ''LD_LIBRARY_PATH'', ''BASH_ENV'', ''TF_CLI_CONFIG_FILE'', ''DYLD_INSERT_LIBRARIES'']"

text \<open>A variable as \<open>buildSanitizedEnv\<close> reads it.\<close>

record env_input =
  ei_key :: string
  ei_value :: string
  ei_category :: string
  ei_sensitive :: bool

definition env_binding :: "env_input \<Rightarrow> (string \<times> string) option" where
  "env_binding v =
     (if to_upper (ei_key v) \<in> set PROTECTED_KEYS then None
      else if ei_category v = ''env'' then Some (ei_key v, ei_value v)
      else if ei_category v = ''terraform'' \<and> ei_sensitive v then Some (''TF_VAR_'' @ ei_key v, ei_value v)
      else None)"

definition bind_all :: "(string \<times> string) list \<Rightarrow> environment \<Rightarrow> environment" where
  "bind_all kvs env = foldl (\<lambda>env kv. js_set (fst kv) (snd kv) env) env kvs"

definition buildSanitizedEnv :: "(string \<Rightarrow> string option) \<Rightarrow> env_input list \<Rightarrow> environment \<Rightarrow> environment" where
  "buildSanitizedEnv process vars extraEnv =
     (let env = bind_all (List.map_filter (\<lambda>k. case process k of
             Some v \<Rightarrow> if v \<noteq> [] then Some (k, v) else None | None \<Rightarrow> None) ALLOWED_KEYS) [] in
      bind_all extraEnv (bind_all (List.map_filter env_binding vars) env))"

definition of_execution :: "execution_variable \<Rightarrow> env_input" where
  "of_execution v = \<lparr>ei_key = ev_key v, ei_value = ev_value v, ei_category = ev_category v, ei_sensitive = ev_sensitive v\<rparr>"

definition of_run :: "run_variable \<Rightarrow> env_input" where
  "of_run v = \<lparr>ei_key = rv_key v, ei_value = rv_value v, ei_category = rv_category v, ei_sensitive = rv_sensitive v\<rparr>"

definition buildRunPhaseEnv ::
    "(string \<Rightarrow> string option) \<Rightarrow> execution_variable list \<Rightarrow> run_variable list \<Rightarrow> environment \<Rightarrow> environment" where
  "buildRunPhaseEnv process vars runVars phaseEnv =
     buildSanitizedEnv process (map of_execution vars @
       map of_run (filter (\<lambda>v. rv_category v = ''env'') runVars) @
       map of_execution (filter ev_priority vars)) phaseEnv"

definition agent_binding :: "env_input \<Rightarrow> (string \<times> string) option" where
  "agent_binding v =
     (if ei_category v = ''env'' then Some (ei_key v, ei_value v)
      else if ei_category v = ''terraform'' then Some (''TF_VAR_'' @ ei_key v, ei_value v)
      else None)"

definition agentEnvironment :: "execution_variable list \<Rightarrow> run_variable list \<Rightarrow> environment" where
  "agentEnvironment vars runVars =
     bind_all (List.map_filter agent_binding (map of_execution vars @ map of_run runVars @ map of_execution (filter ev_priority vars))) []"


section \<open>Files of Terraform variables\<close>

text \<open>\<open>JSON.stringify\<close> of a string.\<close>

definition json_hex :: "nat \<Rightarrow> char" where
  "json_hex n = (if n < 10 then char_of (48 + n) else char_of (87 + n))"

definition json_escape :: "char \<Rightarrow> string" where
  "json_escape c =
     (let n = ord_of c in
      if n = 34 then [char_of (92::nat), char_of (34::nat)]
      else if n = 92 then [char_of (92::nat), char_of (92::nat)]
      else if n = 8 then [char_of (92::nat), CHR ''b'']
      else if n = 9 then [char_of (92::nat), CHR ''t'']
      else if n = 10 then [char_of (92::nat), CHR ''n'']
      else if n = 12 then [char_of (92::nat), CHR ''f'']
      else if n = 13 then [char_of (92::nat), CHR ''r'']
      else if n < 32 then [char_of (92::nat), CHR ''u'', CHR ''0'', CHR ''0'', json_hex (n div 16), json_hex (n mod 16)]
      else [c])"

definition json_quote :: "string \<Rightarrow> string" where
  "json_quote s = char_of (34::nat) # concat (map json_escape s) @ [char_of (34::nat)]"

definition terraformVariableLine :: "string \<Rightarrow> string \<Rightarrow> bool \<Rightarrow> string" where
  "terraformVariableLine key value hcl = key @ '' = '' @ (if hcl then value else json_quote value)"

definition toTfvarsContent :: "string list \<Rightarrow> string" where
  "toTfvarsContent lines = join_with (char_of (10::nat)) lines"

definition workspace_tfvars :: "execution_variable list \<Rightarrow> string list" where
  "workspace_tfvars vars = map (\<lambda>v. terraformVariableLine (ev_key v) (ev_value v) (ev_hcl v))
     (filter (\<lambda>v. ev_category v = ''terraform'') vars)"

definition runTerraformVariableLines :: "run_variable list \<Rightarrow> execution_variable list \<Rightarrow> string list" where
  "runTerraformVariableLines runVars vars =
     (let priorityKeys = ev_key ` set (filter (\<lambda>v. ev_category v = ''terraform'' \<and> ev_priority v) vars) in
      map (\<lambda>v. terraformVariableLine (rv_key v) (rv_value v) False)
        (filter (\<lambda>v. rv_category v = ''terraform'' \<and> rv_key v \<notin> priorityKeys) runVars))"

text \<open>The rule of \<open>routes/runs.ts\<close> for the key of a run variable.\<close>

definition isValidRunVariableKey :: "string \<Rightarrow> bool" where
  "isValidRunVariableKey key \<longleftrightarrow> key \<noteq> [] \<and> length key \<le> 256 \<and> hd key \<noteq> CHR ''-'' \<and>
     list_all (\<lambda>c. 32 \<le> ord_of c \<and> ord_of c \<noteq> 127) key \<and>
     list_all (\<lambda>c. is_alnum c \<or> c = CHR ''_'' \<or> c = CHR ''.'' \<or> c = CHR ''-'') key"

end
