(* ===== verification/VariableSafety.thy ===== *)
theory VariableSafety imports Variables BudgetSafety begin

text \<open>
  Which variable of a workspace takes effect: the order of the sets, the strongest candidate of every key, the agreement of the list of the
  API with the one the worker executes with, and what no variable can set.
\<close>

section \<open>The orders\<close>

lemma comparator_ints: "comparator (\<lambda>x y. key x - key y :: int)"
  by unfold_locales auto

lemma comparator_flipped: "comparator c \<Longrightarrow> comparator (\<lambda>x y. c (f y) (f x))" for c :: "'a \<Rightarrow> 'a \<Rightarrow> 'n::linordered_idom"
  unfolding comparator_def by blast

interpretation set_order: comparator "compareVariableSets W P"
proof -
  have "compareVariableSets W P = (\<lambda>l r. js_or (set_rank W P l - set_rank W P r)
      (js_or (lex_cmp (vs_name r) (vs_name l)) (lex_cmp (vs_id r) (vs_id l))))"
    by (simp add: compareVariableSets_def compareCodePoints_def fun_eq_iff)
  moreover have "comparator \<dots>" by (intro comparator_or comparator_ints comparator_flipped [OF lex.comparator_axioms])
  ultimately show "comparator (compareVariableSets W P)" by simp
qed

lemma compareVariableSets_0: "compareVariableSets W P s t = 0 \<Longrightarrow> vs_id s = vs_id t"
  by (auto simp: compareVariableSets_def compareCodePoints_def js_or_def split: if_splits)

definition var_cmp :: "variable_set list \<Rightarrow> string \<times> variable_row \<Rightarrow> string \<times> variable_row \<Rightarrow> int" where
  "var_cmp active left right = js_or (setOrder active (fst left) - setOrder active (fst right))
     (compareCodePoints (va_id (snd left)) (va_id (snd right)))"

lemma comparator_vars: "comparator (var_cmp active)"
proof -
  have "var_cmp active = (\<lambda>l r. js_or (setOrder active (fst l) - setOrder active (fst r)) (lex_cmp (va_id (snd l)) (va_id (snd r))))"
    by (simp add: var_cmp_def compareCodePoints_def fun_eq_iff)
  moreover have "comparator \<dots>" by (intro comparator_or comparator_ints comparator_comp [OF lex.comparator_axioms])
  ultimately show ?thesis by simp
qed

interpretation var_order: comparator "var_cmp active" by (rule comparator_vars)

lemma orderedSetVars_alt:
  "orderedSetVars db active = js_sort (var_cmp active) (filter (\<lambda>v. fst v \<in> vs_id ` set active) (vd_setVariables db))"
  by (simp add: orderedSetVars_def var_cmp_def [abs_def])

lemma vars_in_order: "sorted_wrt (\<lambda>l r. setOrder active (fst l) \<le> setOrder active (fst r)) (orderedSetVars db active)"
  unfolding orderedSetVars_alt
  by (rule sorted_wrt_mono_rel [OF _ var_order.sorted_js_sort]) (auto simp: var_cmp_def js_or_def split: if_splits)

lemma set_orderedSetVars [simp]:
  "set (orderedSetVars db active) = {v \<in> set (vd_setVariables db). fst v \<in> vs_id ` set active}"
  by (auto simp: orderedSetVars_alt)


section \<open>What the schema keeps unique\<close>

definition variable_keys :: "variable_db \<Rightarrow> bool" where
  "variable_keys db \<longleftrightarrow> distinct (map vs_id (vd_sets db)) \<and>
     distinct (map (\<lambda>v. (fst v, va_category (snd v), va_key (snd v))) (vd_workspaceVariables db)) \<and>
     distinct (map (\<lambda>v. (fst v, va_key (snd v))) (vd_setVariables db)) \<and>
     list_all (\<lambda>v. CHR '':'' \<notin> set (va_category (snd v))) (vd_workspaceVariables db @ vd_setVariables db)"

lemma dedupe_split:
  assumes "dedupeKey v = dedupeKey w" "CHR '':'' \<notin> set (va_category v)" "CHR '':'' \<notin> set (va_category w)"
  shows "va_category v = va_category w \<and> va_key v = va_key w"
proof -
  have "takeWhile (\<lambda>c. c \<noteq> CHR '':'') (dedupeKey x) = va_category x" if "CHR '':'' \<notin> set (va_category x)" for x
    using that by (simp add: dedupeKey_def takeWhile_tail) (auto simp: takeWhile_eq_all_conv)
  then have "va_category v = va_category w" using assms by metis
  then show ?thesis using assms(1) by (simp add: dedupeKey_def)
qed

lemma distinct_sorted_wrt: "distinct (map f xs) \<Longrightarrow> sorted_wrt (\<lambda>x y. f x \<noteq> f y) xs"
  by (induction xs) auto

lemma sorted_wrt_both: "sorted_wrt p xs \<Longrightarrow> sorted_wrt q xs \<Longrightarrow> sorted_wrt (\<lambda>x y. p x y \<and> q x y) xs"
  by (induction xs) auto

lemma distinct_map_mset: "mset xs = mset ys \<Longrightarrow> distinct (map f xs) \<longleftrightarrow> distinct (map f ys)"
  by (metis mset_map mset_eq_imp_distinct_iff)

lemma active_distinct: "distinct (map vs_id (vd_sets db)) \<Longrightarrow> distinct (map vs_id (activeSets db w org p))"
proof -
  assume d: "distinct (map vs_id (vd_sets db))"
  have "distinct (map vs_id (filter Q (filter R (vd_sets db))))" for Q R by (intro distinct_map_filter d)
  then show ?thesis unfolding activeSets_def Let_def by (subst distinct_map_mset [OF mset_js_sort]) 
qed

lemma active_sorted:
  "sorted_wrt (\<lambda>s t. compareVariableSets (workspaceSetIds db w) (projectSetIds db p) s t \<le> 0) (activeSets db w org p)"
  unfolding activeSets_def Let_def by (rule set_order.sorted_js_sort)

lemma setOrder_index: "distinct (map vs_id active) \<Longrightarrow> i < length active \<Longrightarrow> setOrder active (vs_id (active ! i)) = int i"
proof -
  assume d: "distinct (map vs_id active)" and i: "i < length active"
  have "map_of (zip (map vs_id active) (map int [0..<length active])) (map vs_id active ! i) = Some (map int [0..<length active] ! i)"
    by (rule map_of_zip_nth) (use d i in auto)
  then show ?thesis using i by (simp add: setOrder_def)
qed


section \<open>The strongest candidate\<close>

definition prioritized :: "variable_set list \<Rightarrow> effective_variable \<Rightarrow> bool" where
  "prioritized active e = (case e of From_workspace _ \<Rightarrow> False | From_varset _ s _ \<Rightarrow> s \<in> prioritySetIds active)"

text \<open>Ordinary sets, then the workspace, then priority sets.\<close>

definition tier :: "variable_set list \<Rightarrow> effective_variable \<Rightarrow> nat" where
  "tier active e = (case e of From_workspace _ \<Rightarrow> 1 | From_varset _ s _ \<Rightarrow> if s \<in> prioritySetIds active then 2 else 0)"

definition candidates :: "variable_db \<Rightarrow> string \<Rightarrow> string \<Rightarrow> string option \<Rightarrow> effective_variable set" where
  "candidates db w org p =
     (\<lambda>v. From_workspace (snd v)) ` {v \<in> set (vd_workspaceVariables db). fst v = w} \<union>
     from_set (activeSets db w org p) ` {v \<in> set (vd_setVariables db). fst v \<in> vs_id ` set (activeSets db w org p)}"

definition set_before :: "(variable_set \<Rightarrow> variable_set \<Rightarrow> int) \<Rightarrow> variable_set list \<Rightarrow> effective_variable \<Rightarrow> effective_variable \<Rightarrow> bool" where
  "set_before cmp active c e = (case (c, e) of
     (From_varset _ i _, From_varset _ j _) \<Rightarrow>
       list_ex (\<lambda>s. vs_id s = i \<and> list_ex (\<lambda>t. vs_id t = j \<and> cmp s t < 0) active) active
   | _ \<Rightarrow> False)"

definition outranks :: "variable_db \<Rightarrow> string \<Rightarrow> string \<Rightarrow> string option \<Rightarrow> effective_variable \<Rightarrow> effective_variable \<Rightarrow> bool" where
  "outranks db w org p e c =
     (let active = activeSets db w org p in
      tier active c < tier active e \<or>
      tier active c = tier active e \<and> set_before (compareVariableSets (workspaceSetIds db w) (projectSetIds db p)) active c e)"

abbreviation ekey :: "effective_variable \<Rightarrow> string" where "ekey e \<equiv> dedupeKey (effective_row e)"

definition written :: "variable_db \<Rightarrow> string \<Rightarrow> string \<Rightarrow> string option \<Rightarrow> effective_variable list" where
  "written db w org p =
     (let active = activeSets db w org p; vars = orderedSetVars db active; priority = (\<lambda>v. fst v \<in> prioritySetIds active) in
      map (from_set active) (filter (\<lambda>v. \<not> priority v) vars) @
      map (\<lambda>v. From_workspace (snd v)) (filter (\<lambda>v. fst v = w) (vd_workspaceVariables db)) @
      map (from_set active) (filter priority vars))"

lemma set_all_append: "set_all key (xs @ ys) m = set_all key ys (set_all key xs m)"
  by (simp add: set_all_def)

lemma effective_map_written: "effective_map db w org p = set_all ekey (written db w org p) []"
  by (simp add: effective_map_def written_def set_all_append Let_def)

lemma set_written: "set (written db w org p) = candidates db w org p"
  by (auto simp: written_def candidates_def Let_def)

lemma get_set_all: "js_get (set_all key xs m) k = (case find (\<lambda>e. key e = k) (rev xs) of Some e \<Rightarrow> Some e | None \<Rightarrow> js_get m k)"
proof (induction xs rule: rev_induct)
  case (snoc x xs)
  then show ?case by (simp add: set_all_def)
qed (simp add: set_all_def)

lemma set_all_distinct: "distinct (map fst m) \<Longrightarrow> distinct (map fst (set_all key xs m))"
  by (induction xs arbitrary: m) (simp_all add: set_all_def distinct_keys_set)

lemma find_last: "find P (rev xs) = Some x \<Longrightarrow> \<exists>ys zs. xs = ys @ x # zs \<and> P x \<and> (\<forall>z \<in> set zs. \<not> P z)"
proof (induction xs rule: rev_induct)
  case (snoc y xs)
  show ?case
  proof (cases "P y")
    case True
    then have "xs @ [y] = xs @ x # [] \<and> P x" using snoc.prems by simp
    then show ?thesis by (intro exI [of _ xs] exI [of _ "[]"]) simp
  next
    case False
    then obtain ys zs where "xs = ys @ x # zs" "P x" "\<forall>z \<in> set zs. \<not> P z" using snoc by auto
    then show ?thesis using False by (intro exI [of _ ys] exI [of _ "zs @ [y]"]) auto
  qed
qed simp

text \<open>The last of a list in which later members outrank earlier ones is the one that outranks the others.\<close>

lemma strongest_last:
  assumes sorted: "sorted_wrt (\<lambda>c e. key c = key e \<longrightarrow> R e c) xs"
    and asym: "\<And>c e. c \<in> set xs \<Longrightarrow> e \<in> set xs \<Longrightarrow> R e c \<Longrightarrow> \<not> R c e"
  shows "find (\<lambda>e. key e = k) (rev xs) = Some e \<longleftrightarrow> e \<in> set xs \<and> key e = k \<and> (\<forall>c \<in> set xs. key c = k \<longrightarrow> c \<noteq> e \<longrightarrow> R e c)"
proof -
  have strong: "e \<in> set xs \<and> key e = k \<and> (\<forall>c \<in> set xs. key c = k \<longrightarrow> c \<noteq> e \<longrightarrow> R e c)"
    if f: "find (\<lambda>e. key e = k) (rev xs) = Some e" for e
  proof -
    obtain ys zs where xs: "xs = ys @ e # zs" "key e = k" "\<forall>z \<in> set zs. key z \<noteq> k" using find_last [OF f] by blast
    have "R e c" if "c \<in> set ys" "key c = k" for c using sorted that xs(2) unfolding xs(1) by (auto simp: sorted_wrt_append)
    then show ?thesis using xs by auto
  qed
  show ?thesis
  proof
    assume r: "e \<in> set xs \<and> key e = k \<and> (\<forall>c \<in> set xs. key c = k \<longrightarrow> c \<noteq> e \<longrightarrow> R e c)"
    then have "find (\<lambda>e. key e = k) (rev xs) \<noteq> None" by (auto simp: find_None_iff)
    then obtain e' where f: "find (\<lambda>e. key e = k) (rev xs) = Some e'" by blast
    note s = strong [OF f]
    show "find (\<lambda>e. key e = k) (rev xs) = Some e"
    proof (cases "e = e'")
      case False
      then have "R e' e" "R e e'" using r s by auto
      then show ?thesis using asym r s by blast
    qed (simp add: f)
  qed (rule strong)
qed

lemma prioritySetIds_active: "i \<in> prioritySetIds active \<Longrightarrow> i \<in> vs_id ` set active"
  by (auto simp: prioritySetIds_def)

text \<open>Two variables of sets in the order they are written: an earlier one of the same key is of an earlier set.\<close>

lemma vars_before:
  assumes "variable_keys db"
  shows "sorted_wrt (\<lambda>l r. dedupeKey (snd l) = dedupeKey (snd r) \<longrightarrow>
    set_before (compareVariableSets (workspaceSetIds db w) (projectSetIds db p)) (activeSets db w org p)
      (from_set (activeSets db w org p) l) (from_set (activeSets db w org p) r)) (orderedSetVars db (activeSets db w org p))"
    (is "sorted_wrt ?before ?vars")
proof -
  let ?active = "activeSets db w org p" and ?cmp = "compareVariableSets (workspaceSetIds db w) (projectSetIds db p)"
  note ids = active_distinct [of db w org p]
  have d: "distinct (map vs_id ?active)" using assms ids by (simp add: variable_keys_def)
  have "distinct (map (\<lambda>v. (fst v, va_key (snd v))) (filter (\<lambda>v. fst v \<in> vs_id ` set ?active) (vd_setVariables db)))"
    by (intro distinct_map_filter) (use assms in \<open>simp add: variable_keys_def\<close>)
  then have "distinct (map (\<lambda>v. (fst v, va_key (snd v))) ?vars)"
    unfolding orderedSetVars_alt by (subst distinct_map_mset [OF mset_js_sort])
  from sorted_wrt_both [OF vars_in_order distinct_sorted_wrt [OF this]]
  show ?thesis
  proof (rule sorted_wrt_mono_rel [rotated])
    fix l r assume l: "l \<in> set ?vars" and r: "r \<in> set ?vars"
      and order: "setOrder ?active (fst l) \<le> setOrder ?active (fst r) \<and> (fst l, va_key (snd l)) \<noteq> (fst r, va_key (snd r))"
    show "?before l r"
    proof
      assume "dedupeKey (snd l) = dedupeKey (snd r)"
      then have "va_key (snd l) = va_key (snd r)"
        by (rule conjunct2 [OF dedupe_split]) (use assms l r in \<open>auto simp: variable_keys_def list_all_iff\<close>)
      then have ne: "fst l \<noteq> fst r" using order by auto
      obtain i j where i: "i < length ?active" "fst l = vs_id (?active ! i)" and j: "j < length ?active" "fst r = vs_id (?active ! j)"
        using l r by (auto simp: in_set_conv_nth)
      then have "i < j" using order ne setOrder_index [OF d] by (cases "i = j") auto
      then have le: "?cmp (?active ! i) (?active ! j) \<le> 0" using active_sorted j(1) by (simp add: sorted_wrt_iff_nth_less)
      moreover have "?cmp (?active ! i) (?active ! j) \<noteq> 0" using compareVariableSets_0 ne i(2) j(2) by metis
      ultimately have "?cmp (?active ! i) (?active ! j) < 0" by simp
      then have "\<exists>s \<in> set ?active. vs_id s = fst l \<and> (\<exists>t \<in> set ?active. vs_id t = fst r \<and> ?cmp s t < 0)"
        using i j nth_mem by metis
      then show "set_before ?cmp ?active (from_set ?active l) (from_set ?active r)"
        by (simp add: set_before_def from_set_def list_ex_iff)
    qed
  qed
qed

lemma written_sorted:
  assumes "variable_keys db"
  shows "sorted_wrt (\<lambda>c e. ekey c = ekey e \<longrightarrow> outranks db w org p e c) (written db w org p)"
proof -
  let ?active = "activeSets db w org p"
  let ?R = "\<lambda>c e. ekey c = ekey e \<longrightarrow> outranks db w org p e c"
  let ?pr = "\<lambda>v. fst v \<in> prioritySetIds ?active"
  let ?vars = "orderedSetVars db ?active"
  have same: "sorted_wrt ?R (map (from_set ?active) (filter Q ?vars))" if Q: "\<And>l r. Q l \<Longrightarrow> Q r \<Longrightarrow> ?pr l = ?pr r" for Q
    unfolding sorted_wrt_map
    by (rule sorted_wrt_mono_rel [OF _ sorted_wrt_filter [OF vars_before [OF assms]]])
      (use Q in \<open>auto simp: outranks_def tier_def from_set_def Let_def\<close>)
  have "sorted_wrt (\<lambda>l r. (fst l, va_category (snd l), va_key (snd l)) \<noteq> (fst r, va_category (snd r), va_key (snd r)))
      (filter (\<lambda>v. fst v = w) (vd_workspaceVariables db))"
    by (intro sorted_wrt_filter distinct_sorted_wrt) (use assms in \<open>simp add: variable_keys_def\<close>)
  then have ws: "sorted_wrt ?R (map (\<lambda>v. From_workspace (snd v)) (filter (\<lambda>v. fst v = w) (vd_workspaceVariables db)))"
    unfolding sorted_wrt_map
  proof (rule sorted_wrt_mono_rel [rotated])
    fix l r assume lr: "l \<in> set (filter (\<lambda>v. fst v = w) (vd_workspaceVariables db))" "r \<in> set (filter (\<lambda>v. fst v = w) (vd_workspaceVariables db))"
      and ne: "(fst l, va_category (snd l), va_key (snd l)) \<noteq> (fst r, va_category (snd r), va_key (snd r))"
    have "dedupeKey (snd l) \<noteq> dedupeKey (snd r)"
      using dedupe_split [of "snd l" "snd r"] assms lr ne by (auto simp: variable_keys_def list_all_iff)
    then show "?R (From_workspace (snd l)) (From_workspace (snd r))" by simp
  qed
  show ?thesis unfolding written_def Let_def sorted_wrt_append
    using same [of "\<lambda>v. \<not> ?pr v"] same [of ?pr] ws by (auto simp: outranks_def tier_def from_set_def Let_def)
qed

lemma active_by_id:
  "variable_keys db \<Longrightarrow> s \<in> set (activeSets db w org p) \<Longrightarrow> t \<in> set (activeSets db w org p) \<Longrightarrow> vs_id s = vs_id t \<Longrightarrow> s = t"
  using active_distinct [of db w org p] by (auto simp: variable_keys_def distinct_map inj_on_def)

lemma outranks_asym:
  assumes keys: "variable_keys db" and "outranks db w org p e c"
  shows "\<not> outranks db w org p c e"
proof
  assume o: "outranks db w org p c e"
  let ?active = "activeSets db w org p" and ?cmp = "compareVariableSets (workspaceSetIds db w) (projectSetIds db p)"
  have b: "set_before ?cmp ?active c e" "set_before ?cmp ?active e c"
    using o assms(2) by (auto simp: outranks_def Let_def)
  then obtain s t s' t' where st: "s \<in> set ?active" "t \<in> set ?active" "?cmp s t < 0" "s' \<in> set ?active" "t' \<in> set ?active" "?cmp t' s' < 0"
    "vs_id s = vs_id s'" "vs_id t = vs_id t'"
    by (auto simp: set_before_def list_ex_iff split: effective_variable.splits)
  then have "s' = s" "t' = t" using active_by_id [OF keys] by metis+
  then show False using st(3,6) set_order.cmp_flip [of "workspaceSetIds db w" "projectSetIds db p" s t] by simp
qed

lemma get_set_all_key: "js_get (set_all key xs []) k = Some e \<Longrightarrow> key e = k"
  using find_last [of "\<lambda>e. key e = k" xs e] by (auto simp: get_set_all split: option.splits)

lemma values_set_all: "e \<in> set (map snd (set_all key xs [])) \<longleftrightarrow> find (\<lambda>x. key x = key e) (rev xs) = Some e"
proof -
  let ?m = "set_all key xs []"
  have d: "distinct (map fst ?m)" by (rule set_all_distinct) simp
  have "e \<in> set (map snd ?m) \<longleftrightarrow> (\<exists>k. (k, e) \<in> set ?m)" by force
  also have "\<dots> \<longleftrightarrow> (\<exists>k. js_get ?m k = Some e)" using d by simp
  also have "\<dots> \<longleftrightarrow> js_get ?m (key e) = Some e"
    using get_set_all_key by metis
  finally show ?thesis by (simp add: get_set_all split: option.splits)
qed

text \<open>C5: the list of effective variables holds, of all candidates of a workspace with the same category and key, exactly the one that
  outranks the others: a variable of a priority set before the one of the workspace before one of an ordinary set, and of two sets of
  one kind the one compareVariableSets puts last.\<close>

theorem effective_variable_is_strongest:
  assumes "variable_keys db"
  shows "e \<in> set (effectiveWorkspaceVariables db w org p) \<longleftrightarrow> e \<in> candidates db w org p \<and>
    (\<forall>c \<in> candidates db w org p. ekey c = ekey e \<longrightarrow> c \<noteq> e \<longrightarrow> outranks db w org p e c)"
proof -
  have "e \<in> set (effectiveWorkspaceVariables db w org p) \<longleftrightarrow> find (\<lambda>x. ekey x = ekey e) (rev (written db w org p)) = Some e"
    by (simp only: effectiveWorkspaceVariables_def set_js_sort effective_map_written values_set_all)
  also have "\<dots> \<longleftrightarrow> e \<in> set (written db w org p) \<and> ekey e = ekey e \<and>
      (\<forall>c \<in> set (written db w org p). ekey c = ekey e \<longrightarrow> c \<noteq> e \<longrightarrow> outranks db w org p e c)"
    by (rule strongest_last [OF written_sorted [OF assms]]) (rule outranks_asym [OF assms])
  finally show ?thesis by (simp add: set_written)
qed

lemma one_effective_per_key: "distinct (map ekey (effectiveWorkspaceVariables db w org p))"
proof -
  let ?m = "set_all ekey (written db w org p) []"
  have d: "distinct (map fst ?m)" by (rule set_all_distinct) simp
  have "ekey v = k" if "(k, v) \<in> set ?m" for k v
    using that d get_set_all_key [of ekey "written db w org p" k v] by simp
  then have "map ekey (map snd ?m) = map fst ?m" by auto
  then have "distinct (map ekey (map snd ?m))" using d by metis
  then show ?thesis unfolding effectiveWorkspaceVariables_def effective_map_written
    by (subst distinct_map_mset [OF mset_js_sort])
qed


section \<open>The worker and the API\<close>

definition execution_value :: "(string \<Rightarrow> string option) \<Rightarrow> variable_set list \<Rightarrow> effective_variable \<Rightarrow> execution_variable" where
  "execution_value decrypt active e = the (execution_of decrypt (prioritized active e) (effective_row e))"

definition decryptable :: "(string \<Rightarrow> string option) \<Rightarrow> effective_variable \<Rightarrow> bool" where
  "decryptable decrypt e \<longleftrightarrow> decryptIfNeeded decrypt (effective_row e) \<noteq> None"

lemma map_js_set: "map (apsnd f) (js_set k v m) = js_set k (f v) (map (apsnd f) m)"
  by (induction k v m rule: js_set.induct) auto

lemma execute_all_as:
  assumes "\<And>e. e \<in> set es \<Longrightarrow> prioritized active e = pr"
  shows "execute_all decrypt pr (map effective_row es) (map (apsnd (execution_value decrypt active)) m) =
    (if list_all (decryptable decrypt) es then Some (map (apsnd (execution_value decrypt active)) (set_all ekey es m)) else None)"
  using assms
proof (induction es arbitrary: m)
  case (Cons e es)
  show ?case
  proof (cases "decryptIfNeeded decrypt (effective_row e)")
    case (Some v)
    then have "execution_of decrypt pr (effective_row e) = Some (execution_value decrypt active e)" "decryptable decrypt e"
      using Cons.prems [of e] by (auto simp: execution_value_def execution_of_def decryptable_def)
    moreover have "set_all ekey (e # es) m = set_all ekey es (js_set (ekey e) e m)" by (simp add: set_all_def)
    moreover note Cons.IH [of "js_set (ekey e) e m"] Cons.prems
    ultimately show ?thesis by (simp add: map_js_set)
  next
    case None
    then show ?thesis by (simp add: execution_of_def decryptable_def)
  qed
qed (simp add: set_all_def)

text \<open>C20: the variables a run executes with are exactly the list of the API, decrypted, so what a user reads is what a run gets; and
  they cannot be had at all as soon as one candidate cannot be decrypted, an overridden one included.\<close>

theorem worker_executes_with_effective_variables:
  "case executionVariables decrypt db w org p None of
     None \<Rightarrow> (\<exists>e \<in> candidates db w org p. \<not> decryptable decrypt e)
   | Some vars \<Rightarrow> \<not> (\<exists>e \<in> candidates db w org p. \<not> decryptable decrypt e) \<and>
       mset vars = image_mset (execution_value decrypt (activeSets db w org p)) (mset (effectiveWorkspaceVariables db w org p))"
proof -
  let ?active = "activeSets db w org p"
  let ?f = "map (apsnd (execution_value decrypt ?active))"
  let ?pr = "\<lambda>v. fst v \<in> prioritySetIds ?active"
  let ?vars = "orderedSetVars db ?active"
  define es1 where "es1 = map (from_set ?active) (filter (\<lambda>v. \<not> ?pr v) ?vars)"
  define es2 where "es2 = map (\<lambda>v. From_workspace (snd v)) (filter (\<lambda>v. fst v = w) (vd_workspaceVariables db))"
  define es3 where "es3 = map (from_set ?active) (filter ?pr ?vars)"
  have written: "written db w org p = es1 @ es2 @ es3" by (simp add: written_def es1_def es2_def es3_def Let_def)
  have rows: "map snd (filter (\<lambda>v. \<not> ?pr v) ?vars) = map effective_row es1"
    "map snd (filter (\<lambda>v. fst v = w) (vd_workspaceVariables db)) = map effective_row es2"
    "map snd (filter ?pr ?vars) = map effective_row es3"
    by (simp_all add: es1_def es2_def es3_def from_set_def)
  note run = execute_all_as [of es1 ?active False decrypt "[]"] execute_all_as [of es2 ?active False decrypt]
    execute_all_as [of es3 ?active True decrypt]
  have pr: "\<And>e. e \<in> set es1 \<Longrightarrow> prioritized ?active e = False" "\<And>e. e \<in> set es2 \<Longrightarrow> prioritized ?active e = False"
    "\<And>e. e \<in> set es3 \<Longrightarrow> prioritized ?active e = True"
    by (auto simp: es1_def es2_def es3_def prioritized_def from_set_def)
  have "executionVariables decrypt db w org p None =
      (if list_all (decryptable decrypt) (written db w org p) then Some (map snd (?f (effective_map db w org p))) else None)"
    unfolding executionVariables_def Let_def option.case rows
    using run(1) [OF pr(1)] run(2) [OF pr(2)] run(3) [OF pr(3)]
    by (simp add: written effective_map_written set_all_append)
  moreover have "mset (map snd (?f m)) = image_mset (execution_value decrypt ?active) (mset (map snd m))" for m :: "(string, effective_variable) js_map"
    by (simp add: multiset.map_comp comp_def)
  ultimately show ?thesis
    by (auto simp: list_all_iff set_written effectiveWorkspaceVariables_def)
qed


section \<open>The environment\<close>

lemma get_bind_all: "js_get (bind_all kvs env) k = (case js_get (rev kvs) k of Some v \<Rightarrow> Some v | None \<Rightarrow> js_get env k)"
  by (induction kvs arbitrary: env) (auto simp: bind_all_def map_add_def split: option.splits)

lemma bind_all_append: "bind_all (xs @ ys) env = bind_all ys (bind_all xs env)"
  by (simp add: bind_all_def)

lemma TF_VAR_not_protected: "to_upper (''TF_VAR_'' @ k) \<notin> set PROTECTED_KEYS"
  by (simp add: to_upper_def PROTECTED_KEYS_def is_lower_def ord_of_def)

lemma binding_not_protected: "env_binding v = Some (k, x) \<Longrightarrow> to_upper k \<notin> set PROTECTED_KEYS"
  using TF_VAR_not_protected [of "ei_key v"] by (auto simp: env_binding_def split: if_splits)

definition inherited :: "(string \<Rightarrow> string option) \<Rightarrow> string \<Rightarrow> string option" where
  "inherited process k = (if k \<in> set ALLOWED_KEYS then (case process k of Some v \<Rightarrow> if v \<noteq> [] then Some v else None | None \<Rightarrow> None) else None)"

definition bound :: "env_input list \<Rightarrow> string \<Rightarrow> string option" where
  "bound vs k = js_get (rev (List.map_filter env_binding vs)) k"

definition or_else :: "'v option \<Rightarrow> 'v option \<Rightarrow> 'v option" where
  "or_else a b = (case a of Some v \<Rightarrow> Some v | None \<Rightarrow> b)"

lemma or_else_simps [simp]: "or_else None b = b" "or_else (Some v) b = Some v"
  by (simp_all add: or_else_def)

lemma get_bind_or_else: "js_get (bind_all kvs env) k = or_else (js_get (rev kvs) k) (js_get env k)"
  by (simp add: get_bind_all or_else_def)

lemma map_of_keyed: "map_of (List.map_filter (\<lambda>k. map_option (Pair k) (f k)) ks) k = (if k \<in> set ks then f k else None)"
  by (induction ks) (auto simp: List.map_filter_simps split: option.splits)

lemma get_inherited: "js_get (bind_all (List.map_filter (\<lambda>k. case process k of
    Some v \<Rightarrow> if v \<noteq> [] then Some (k, v) else None | None \<Rightarrow> None) ALLOWED_KEYS) []) k = inherited process k"
proof -
  let ?f = "\<lambda>k. case process k of Some v \<Rightarrow> if v \<noteq> [] then Some v else None | None \<Rightarrow> None"
  have eq: "(\<lambda>k. case process k of Some v \<Rightarrow> if v \<noteq> [] then Some (k, v) else None | None \<Rightarrow> None) = (\<lambda>k. map_option (Pair k) (?f k))"
    by (auto simp: fun_eq_iff split: option.splits)
  have "rev (List.map_filter h xs) = List.map_filter h (rev xs)" for h :: "string \<Rightarrow> (string \<times> string) option" and xs
    by (simp add: List.map_filter_def rev_map rev_filter)
  then show ?thesis unfolding eq by (simp add: get_bind_all map_of_keyed inherited_def split: option.splits)
qed

lemma bound_append: "bound (xs @ ys) k = or_else (bound ys k) (bound xs k)"
  by (simp add: bound_def List.map_filter_def map_add_def or_else_def)

lemma bound_protected: "to_upper k \<in> set PROTECTED_KEYS \<Longrightarrow> bound vs k = None"
proof (induction vs)
  case (Cons v vs)
  then show ?case using bound_append [of "[v]" vs k] binding_not_protected [of v k]
    by (cases "env_binding v") (auto simp: bound_def List.map_filter_simps)
qed (simp add: bound_def List.map_filter_simps)

lemma buildRunPhaseEnv_layers: "js_get (buildRunPhaseEnv process vars runVars phase) k = or_else (js_get (rev phase) k)
    (or_else (bound (map of_execution vars @ map of_run (filter (\<lambda>v. rv_category v = ''env'') runVars) @
      map of_execution (filter ev_priority vars)) k) (inherited process k))"
  unfolding buildRunPhaseEnv_def buildSanitizedEnv_def Let_def get_bind_or_else get_inherited [unfolded get_bind_or_else] bound_def
  by (rule refl)

text \<open>The value of a name in the environment of a run: what the phase sets comes first, then a variable of a priority set, then a
  variable of the run, then one of the workspace, then what the server's own environment passes on; and of the names in
  PROTECTED_KEYS, however written, no variable sets any.\<close>

theorem run_environment:
  "js_get (buildRunPhaseEnv process vars runVars phase) k =
     or_else (js_get (rev phase) k)
     (if to_upper k \<in> set PROTECTED_KEYS then inherited process k
      else or_else (bound (map of_execution (filter ev_priority vars)) k)
        (or_else (bound (map of_run (filter (\<lambda>v. rv_category v = ''env'') runVars)) k)
          (or_else (bound (map of_execution vars) k) (inherited process k))))"
  by (auto simp: buildRunPhaseEnv_layers bound_append bound_protected or_else_def split: option.splits)


text \<open>
  An agent gets the same value as a run on the server for every name that is not protected, is no \<open>TF_VAR_\<close> name, is not set by the phase
  and not passed on from the server's own environment.
\<close>

definition agent_bound :: "env_input list \<Rightarrow> string \<Rightarrow> string option" where
  "agent_bound vs k = js_get (rev (List.map_filter agent_binding vs)) k"

lemma agent_bound_append: "agent_bound (xs @ ys) k = or_else (agent_bound ys k) (agent_bound xs k)"
  by (simp add: agent_bound_def List.map_filter_def map_add_def or_else_def)

lemma bound_Cons: "bound (v # vs) k = or_else (bound vs k) (bound [v] k)"
  using bound_append [of "[v]" vs k] by simp

lemma agent_bound_Cons: "agent_bound (v # vs) k = or_else (agent_bound vs k) (agent_bound [v] k)"
  using agent_bound_append [of "[v]" vs k] by simp

lemma bindings_agree:
  assumes "to_upper k \<notin> set PROTECTED_KEYS" "take 7 k \<noteq> ''TF_VAR_''"
  shows "bound vs k = agent_bound vs k"
proof (induction vs)
  case (Cons v vs)
  have "k \<noteq> ''TF_VAR_'' @ ei_key v" using assms(2) by auto
  then have "bound [v] k = agent_bound [v] k"
    using assms(1) by (auto simp: bound_def agent_bound_def List.map_filter_simps env_binding_def agent_binding_def)
  then show ?case using Cons by (simp add: bound_Cons [of v vs] agent_bound_Cons [of v vs])
qed (simp add: bound_def agent_bound_def List.map_filter_simps)

lemma terraform_binds_nothing: "take 7 k \<noteq> ''TF_VAR_'' \<Longrightarrow> agent_bound (map of_run runVars) k =
    agent_bound (map of_run (filter (\<lambda>v. rv_category v = ''env'') runVars)) k"
proof (induction runVars)
  case (Cons v runVars)
  have "k \<noteq> ''TF_VAR_'' @ rv_key v" using Cons.prems by auto
  then have "rv_category v \<noteq> ''env'' \<Longrightarrow> agent_bound [of_run v] k = None"
    by (auto simp: agent_bound_def List.map_filter_simps agent_binding_def of_run_def)
  moreover have "agent_bound (map of_run runVars) k = agent_bound (map of_run (filter (\<lambda>v. rv_category v = ''env'') runVars)) k"
    by (rule Cons.IH [OF Cons.prems])
  moreover have "agent_bound (map of_run (v # runVars)) k = or_else (agent_bound (map of_run runVars) k) (agent_bound [of_run v] k)"
    unfolding list.map by (rule agent_bound_Cons)
  moreover have "agent_bound (map of_run (v # filter (\<lambda>v. rv_category v = ''env'') runVars)) k =
      or_else (agent_bound (map of_run (filter (\<lambda>v. rv_category v = ''env'') runVars)) k) (agent_bound [of_run v] k)"
    unfolding list.map by (rule agent_bound_Cons)
  ultimately show ?case by (cases "rv_category v = ''env''") (simp_all add: or_else_def split: option.splits)
qed simp

lemma agent_agrees_with_server:
  assumes "to_upper k \<notin> set PROTECTED_KEYS" "take 7 k \<noteq> ''TF_VAR_''" "js_get (rev phase) k = None" "inherited process k = None"
  shows "js_get (agentEnvironment vars runVars) k = js_get (buildRunPhaseEnv process vars runVars phase) k"
proof -
  have "js_get (agentEnvironment vars runVars) k = agent_bound (map of_execution vars @ map of_run runVars @ map of_execution (filter ev_priority vars)) k"
    unfolding agentEnvironment_def get_bind_all agent_bound_def by (auto split: option.splits)
  also have "\<dots> = agent_bound (map of_execution vars @ map of_run (filter (\<lambda>v. rv_category v = ''env'') runVars) @
      map of_execution (filter ev_priority vars)) k"
    unfolding agent_bound_append terraform_binds_nothing [OF assms(2), of runVars] by (rule refl)
  also have "\<dots> = js_get (buildRunPhaseEnv process vars runVars phase) k"
    unfolding buildRunPhaseEnv_layers assms(3,4) bindings_agree [OF assms(1,2)] by (simp add: or_else_def split: option.splits)
  finally show ?thesis .
qed


section \<open>The file of the run's variables\<close>

lemma json_escape_text: "c \<in> set (json_escape d) \<Longrightarrow> 32 \<le> ord_of c"
proof -
  have hex: "32 \<le> ord_of (json_hex n)" if "n < 16" for n using that by (auto simp: json_hex_def ord_of_char_of)
  have lit: "ord_of (char_of (92::nat)) = 92" "ord_of (char_of (34::nat)) = 34" by (simp_all add: ord_of_char_of)
  assume "c \<in> set (json_escape d)"
  then show ?thesis using hex [of "ord_of d div 16"] hex [of "ord_of d mod 16"]
    by (auto simp: json_escape_def Let_def lit ord_of_def split: if_splits)
qed

lemma json_hex_inj: "m < 16 \<Longrightarrow> n < 16 \<Longrightarrow> json_hex m = json_hex n \<Longrightarrow> m = n"
  by (auto simp: json_hex_def ord_of_char_of simp flip: ord_of_inj split: if_splits)

lemma json_escape_head: "json_escape c \<noteq> [] \<and> hd (json_escape c) \<noteq> char_of (34::nat)"
  by (auto simp: json_escape_def Let_def ord_of_char_of simp flip: ord_of_inj)

text \<open>The first character of an escaped text can be read back, so the escapes cannot be confused.\<close>

definition hex_code :: "char \<Rightarrow> nat" where
  "hex_code c = (if ord_of c < 58 then ord_of c - 48 else ord_of c - 87)"

definition escape_code :: "nat \<Rightarrow> nat" where
  "escape_code n = (if n = 98 then 8 else if n = 116 then 9 else if n = 110 then 10 else if n = 102 then 12 else if n = 114 then 13 else n)"

fun read_escape :: "string \<Rightarrow> char \<times> string" where
  "read_escape (e # a # s) = (if ord_of e \<noteq> 92 then (e, a # s)
     else if ord_of a \<noteq> 117 then (char_of (escape_code (ord_of a)), s)
     else (char_of (16 * hex_code (s ! 2) + hex_code (s ! 3)), drop 4 s))"
| "read_escape [e] = (e, [])"
| "read_escape [] = (CHR '' '', [])"

lemma hex_code_json_hex: "n < 16 \<Longrightarrow> hex_code (json_hex n) = n"
  by (auto simp: hex_code_def json_hex_def ord_of_char_of)

lemma char_of_ord: "char_of (ord_of c) = c"
  by (simp add: ord_of_def)

lemma ord_u: "ord_of (CHR ''u'') = 117" "ord_of (CHR ''b'') = 98" "ord_of (CHR ''t'') = 116" "ord_of (CHR ''n'') = 110"
  "ord_of (CHR ''f'') = 102" "ord_of (CHR ''r'') = 114" "ord_of (char_of (92::nat)) = 92" "ord_of (char_of (34::nat)) = 34"
  by (simp_all add: ord_of_def)

lemma read_plain: "ord_of c \<noteq> 92 \<Longrightarrow> read_escape (c # x) = (c, x)"
  by (cases x) auto

lemma read_escape_escape: "read_escape (json_escape c @ x) = (c, x)"
proof -
  let ?n = "ord_of c"
  have c: "char_of m = c" if "?n = m" for m using that char_of_ord by metis
  consider "?n \<in> {34, 92, 8, 9, 10, 12, 13}" | "?n \<notin> {34, 92, 8, 9, 10, 12, 13}" "?n < 32" | "?n \<noteq> 34" "?n \<noteq> 92" "32 \<le> ?n"
    by fastforce
  then show ?thesis
  proof cases
    case 1
    then show ?thesis using c by (auto simp: json_escape_def Let_def ord_u escape_code_def)
  next
    case 2
    then have e: "json_escape c = [char_of (92::nat), CHR ''u'', CHR ''0'', CHR ''0'', json_hex (?n div 16), json_hex (?n mod 16)]"
      by (simp add: json_escape_def Let_def)
    have "hex_code (json_hex (?n div 16)) = ?n div 16" "hex_code (json_hex (?n mod 16)) = ?n mod 16"
      using ord_of_less [of c] by (intro hex_code_json_hex; simp)+
    then show ?thesis unfolding e by (simp add: ord_u numeral_2_eq_2 numeral_3_eq_3 char_of_ord)
  next
    case 3
    then have "json_escape c = [c]" by (auto simp: json_escape_def Let_def)
    then show ?thesis using read_plain 3(2) by simp
  qed
qed

lemma json_escape_cancel:
  assumes "json_escape c @ x = json_escape d @ y"
  shows "c = d \<and> x = y"
proof -
  have "(c, x) = read_escape (json_escape d @ y)" using read_escape_escape [of c x] assms by argo
  then show ?thesis by (simp only: read_escape_escape prod.inject)
qed

lemma json_escape_not_quote: "json_escape c @ x \<noteq> char_of (34::nat) # y"
proof
  assume "json_escape c @ x = char_of (34::nat) # y"
  then have "hd (json_escape c @ x) = char_of (34::nat)" by simp
  moreover have "json_escape c \<noteq> []" "hd (json_escape c) \<noteq> char_of (34::nat)" using json_escape_head [of c] by auto
  ultimately show False using hd_append2 [of "json_escape c" x] by argo
qed

lemma escaped_inj: "concat (map json_escape s) @ char_of (34::nat) # x = concat (map json_escape t) @ char_of (34::nat) # y \<Longrightarrow> s = t \<and> x = y"
proof (induction s arbitrary: t)
  case Nil
  then show ?case using json_escape_not_quote by (cases t) (simp_all del: of_char_of, metis)
next
  case (Cons c s)
  show ?case
  proof (cases t)
    case Nil
    have "json_escape c @ concat (map json_escape s) @ char_of (34::nat) # x = char_of (34::nat) # y" using Cons.prems Nil by simp
    then show ?thesis using json_escape_not_quote by blast
  next
    case (Cons d t')
    then have "json_escape c @ concat (map json_escape s) @ char_of (34::nat) # x = json_escape d @ concat (map json_escape t') @ char_of (34::nat) # y"
      using Cons.prems by simp
    from json_escape_cancel [OF this] show ?thesis using Cons.IH [of t'] Cons by simp
  qed
qed

lemma json_quote_inj: "json_quote s = json_quote t \<Longrightarrow> s = t"
  using escaped_inj [of s "[]" t "[]"] by (simp add: json_quote_def)

lemma quote_text: "c \<in> set (json_quote s) \<Longrightarrow> 32 \<le> ord_of c"
  using json_escape_text by (auto simp: json_quote_def ord_u)

lemma key_text:
  assumes "isValidRunVariableKey key" "c \<in> set key"
  shows "32 < ord_of c"
  using assms by (auto simp: isValidRunVariableKey_def list_all_iff is_alnum_def is_digit_def is_lower_def is_upper_def ord_of_def)
    

lemma split_first: "c \<notin> set s \<Longrightarrow> c \<notin> set t \<Longrightarrow> s @ c # x = t @ c # y \<longleftrightarrow> s = t \<and> x = y"
  by (auto simp: append_eq_append_conv2 append_eq_Cons_conv Cons_eq_append_conv)

lemma line_inj:
  assumes "isValidRunVariableKey k" "isValidRunVariableKey l"
    and "terraformVariableLine k v False = terraformVariableLine l w False"
  shows "k = l \<and> v = w"
proof -
  have "CHR '' '' \<notin> set k" "CHR '' '' \<notin> set l" using key_text assms(1,2) by (force simp: ord_of_def)+
  then show ?thesis using assms(3) json_quote_inj by (auto simp: terraformVariableLine_def split_first)
qed

lemma lines_inj:
  assumes "map (\<lambda>v. terraformVariableLine (rv_key v) (rv_value v) False) us = map (\<lambda>v. terraformVariableLine (rv_key v) (rv_value v) False) vs"
    and "\<And>v. v \<in> set us \<union> set vs \<Longrightarrow> isValidRunVariableKey (rv_key v)"
  shows "map (\<lambda>v. (rv_key v, rv_value v)) us = map (\<lambda>v. (rv_key v, rv_value v)) vs"
  using assms
proof (induction us arbitrary: vs)
  case (Cons u us)
  show ?case
  proof (cases vs)
    case v: (Cons v vs')
    have "isValidRunVariableKey (rv_key u)" "isValidRunVariableKey (rv_key v)" using Cons.prems(2) v by auto
    moreover have "terraformVariableLine (rv_key u) (rv_value u) False = terraformVariableLine (rv_key v) (rv_value v) False"
      using Cons.prems(1) unfolding v by (simp only: list.map list.inject)
    ultimately have "rv_key u = rv_key v \<and> rv_value u = rv_value v" by (rule line_inj)
    moreover have "map (\<lambda>v. (rv_key v, rv_value v)) us = map (\<lambda>v. (rv_key v, rv_value v)) vs'"
    proof (rule Cons.IH)
      show "map (\<lambda>v. terraformVariableLine (rv_key v) (rv_value v) False) us =
          map (\<lambda>v. terraformVariableLine (rv_key v) (rv_value v) False) vs'"
        using Cons.prems(1) unfolding v by (simp only: list.map list.inject)
    qed (use Cons.prems(2) v in auto)
    ultimately show ?thesis using v by simp
  qed (use Cons.prems in simp)
qed simp

lemma join_lines_inj:
  assumes "\<And>l. l \<in> set ls \<union> set ms \<Longrightarrow> d \<notin> set l \<and> l \<noteq> []" "join_with d ls = join_with d ms"
  shows "ls = ms"
  using assms
proof (induction d ls arbitrary: ms rule: join_with.induct)
  case (1 d)
  then show ?case by (cases "(d, ms)" rule: join_with.cases) auto
next
  case (2 d l)
  show ?case
  proof (cases "(d, ms)" rule: join_with.cases)
    case (3 d' m m' ms')
    then have "d \<in> set l" using "2.prems"(2) by auto
    then show ?thesis using "2.prems"(1) [of l] by simp
  qed (use "2.prems" in auto)
next
  case (3 d l l' ls)
  show ?case
  proof (cases "(d, ms)" rule: join_with.cases)
    case (3 d' m m' ms')
    then show ?thesis using "3.prems" "3.IH" [of "m' # ms'"] by (auto simp: split_first)
  next
    case (2 d' m)
    then have "d \<in> set m" using "3.prems"(2) by auto
    then show ?thesis using "3.prems"(1) [of m] 2 by simp
  qed (use "3.prems" in auto)
qed

text \<open>C22: the file of the run's Terraform variables determines their keys and values: whatever characters a value holds, it stays within
  its line and within its quotes, so a value cannot pass for another variable.\<close>

theorem run_variables_file_is_unambiguous:
  assumes "toTfvarsContent (runTerraformVariableLines us vars) = toTfvarsContent (runTerraformVariableLines vs vars)"
    and "\<And>v. v \<in> set us \<union> set vs \<Longrightarrow> isValidRunVariableKey (rv_key v)"
  shows "map (\<lambda>v. (rv_key v, rv_value v)) (filter (\<lambda>v. rv_category v = ''terraform'' \<and> rv_key v \<notin>
      ev_key ` set (filter (\<lambda>v. ev_category v = ''terraform'' \<and> ev_priority v) vars)) us) =
    map (\<lambda>v. (rv_key v, rv_value v)) (filter (\<lambda>v. rv_category v = ''terraform'' \<and> rv_key v \<notin>
      ev_key ` set (filter (\<lambda>v. ev_category v = ''terraform'' \<and> ev_priority v) vars)) vs)"
proof -
  let ?Q = "\<lambda>v. rv_category v = ''terraform'' \<and> rv_key v \<notin> ev_key ` set (filter (\<lambda>v. ev_category v = ''terraform'' \<and> ev_priority v) vars)"
  let ?line = "\<lambda>v. terraformVariableLine (rv_key v) (rv_value v) False"
  have line: "char_of (10::nat) \<notin> set (?line v) \<and> ?line v \<noteq> []" if "isValidRunVariableKey (rv_key v)" for v
  proof -
    have ten: "ord_of (char_of (10::nat)) = 10" "ord_of (CHR '' '') = 32" "ord_of (CHR ''='') = 61" by (simp_all add: ord_of_def)
    have "32 \<le> ord_of c" if c: "c \<in> set (?line v)" for c
      using c key_text [OF \<open>isValidRunVariableKey (rv_key v)\<close>, of c] quote_text [of c] ten by (auto simp: terraformVariableLine_def)
    then show ?thesis using ten(1) by (force simp: terraformVariableLine_def)
  qed
  have "map ?line (filter ?Q us) = map ?line (filter ?Q vs)"
    by (rule join_lines_inj [where d = "char_of (10::nat)"]) (use assms line in \<open>auto simp: toTfvarsContent_def runTerraformVariableLines_def Let_def\<close>)
  then show ?thesis by (rule lines_inj) (use assms(2) in auto)
qed

text \<open>A value with a template of the configuration language is written as it is; the language evaluates it within quotes.\<close>

lemma template_not_escaped: "terraformVariableLine ''x'' ''${y}'' False = ''x = \"${y}\"''"
  by code_simp


section \<open>One key in a global set, a workspace and a priority set\<close>

definition region :: "string \<Rightarrow> string \<Rightarrow> variable_row" where
  "region i value = \<lparr>va_id = i, va_key = ''region'', va_value = value, va_valueEncrypted = None, va_sensitive = Some False,
     va_hcl = None, va_category = ''terraform''\<rparr>"

definition demo_set :: "string \<Rightarrow> bool \<Rightarrow> variable_set" where
  "demo_set i priority = \<lparr>vs_id = i, vs_orgId = ''o'', vs_parentProjectId = None, vs_name = i, vs_global = Some True, vs_priority = Some priority\<rparr>"

definition demo_variables :: variable_db where
  "demo_variables = \<lparr>vd_workspaceVariables = [(''w'', region ''v1'' ''eu'')],
     vd_setVariables = [(''base'', region ''v2'' ''us''), (''policy'', region ''v3'' ''ap'')],
     vd_sets = [demo_set ''policy'' True, demo_set ''base'' False], vd_setWorkspaces = [], vd_setProjects = []\<rparr>"

definition demo_winner :: effective_variable where "demo_winner = From_varset (region ''v3'' ''ap'') ''policy'' ''policy''"

lemma demo_active: "activeSets demo_variables ''w'' ''o'' None = [demo_set ''base'' False, demo_set ''policy'' True]"
  by code_simp

lemma demo_keys: "variable_keys demo_variables"
  by code_simp

lemma demo_effective: "effectiveWorkspaceVariables demo_variables ''w'' ''o'' None = [demo_winner]"
  by code_simp

lemma demo_candidates:
  "candidates demo_variables ''w'' ''o'' None =
    {From_workspace (region ''v1'' ''eu''), From_varset (region ''v2'' ''us'') ''base'' ''base'', demo_winner}"
proof -
  have "{v \<in> set (vd_workspaceVariables demo_variables). fst v = ''w''} = {(''w'', region ''v1'' ''eu'')}"
    "{v \<in> set (vd_setVariables demo_variables). fst v \<in> vs_id ` set [demo_set ''base'' False, demo_set ''policy'' True]} =
      {(''base'', region ''v2'' ''us''), (''policy'', region ''v3'' ''ap'')}"
    by (auto simp: demo_variables_def demo_set_def)
  then show ?thesis unfolding candidates_def demo_active by (auto simp: demo_winner_def demo_set_def from_set_def)
qed

theorem effective_variable_is_strongest_witness:
  "variable_keys demo_variables \<and>
   outranks demo_variables ''w'' ''o'' None demo_winner (From_workspace (region ''v1'' ''eu'')) \<and>
   outranks demo_variables ''w'' ''o'' None demo_winner (From_varset (region ''v2'' ''us'') ''base'' ''base'')"
proof -
  have "demo_winner \<in> set (effectiveWorkspaceVariables demo_variables ''w'' ''o'' None)" by (simp add: demo_effective)
  then show ?thesis unfolding effective_variable_is_strongest [OF demo_keys] demo_candidates
    by (simp add: demo_keys) (simp add: demo_winner_def dedupeKey_def region_def)
qed

theorem worker_executes_with_effective_variables_witness:
  "map_option (map ev_value) (executionVariables (\<lambda>_. None) demo_variables ''w'' ''o'' None None) = Some [''ap''] \<and>
   (case executionVariables (\<lambda>_. None) demo_variables ''w'' ''o'' None None of None \<Rightarrow> False
    | Some vars \<Rightarrow> size (mset vars) = 1)"
proof -
  have e: "map_option (map ev_value) (executionVariables (\<lambda>_. None) demo_variables ''w'' ''o'' None None) = Some [''ap'']" by code_simp
  then show ?thesis using worker_executes_with_effective_variables [where decrypt = "\<lambda>_. None" and db = demo_variables and w = "''w''" and org = "''o''" and p = None]
    by (auto simp: demo_effective split: option.splits)
qed

definition plain_variable :: "string \<Rightarrow> string \<Rightarrow> string \<Rightarrow> bool \<Rightarrow> run_variable" where
  "plain_variable key value category sensitive = \<lparr>rv_key = key, rv_value = value, rv_category = category, rv_sensitive = sensitive\<rparr>"

theorem run_variables_file_is_unambiguous_witness:
  "map (\<lambda>v. (rv_key v, rv_value v)) (filter (\<lambda>v. rv_category v = ''terraform'' \<and> rv_key v \<notin>
      ev_key ` set (filter (\<lambda>v. ev_category v = ''terraform'' \<and> ev_priority v) []))
      [plain_variable ''a'' ''say \"x\"'' ''terraform'' True, plain_variable ''B'' ''2'' ''env'' False]) = [(''a'', ''say \"x\"'')]"
proof -
  have "toTfvarsContent (runTerraformVariableLines
      [plain_variable ''a'' ''say \"x\"'' ''terraform'' True, plain_variable ''B'' ''2'' ''env'' False] []) =
    toTfvarsContent (runTerraformVariableLines [plain_variable ''a'' ''say \"x\"'' ''terraform'' False] [])"
    by (simp add: runTerraformVariableLines_def plain_variable_def)
  from run_variables_file_is_unambiguous [OF this] show ?thesis
    by (simp add: plain_variable_def isValidRunVariableKey_def is_alnum_def is_digit_def is_lower_def is_upper_def ord_of_def)
qed

theorem run_environment_witness:
  "js_get (buildRunPhaseEnv (\<lambda>_. Some ''/bin'') [] [plain_variable ''path'' ''/evil'' ''env'' False, plain_variable ''A'' ''1'' ''env'' False]
     [(''TF_IN'', ''1'')]) ''PATH'' = Some ''/bin''"
proof -
  have "to_upper ''PATH'' \<in> set PROTECTED_KEYS" by code_simp
  then show ?thesis unfolding run_environment by (simp add: or_else_def inherited_def ALLOWED_KEYS_def)
qed

end
