(* ===== verification/Spec2Isabelle.thy ===== *)
theory Spec2Isabelle imports LeaseHolder BudgetSafety JobPayloads JobClaims RunActionSafety NamedLocks Challenges LoginGuards EventBus AuthorizationSafety StateCommits RetentionSafety Idempotency PolicySafety AgentCompletion UrlSafety ApplyGate NodeDrain SessionSafety VariableSafety begin

text \<open>
  A verification library for the control plane of a Terraform and OpenTofu platform, the TypeScript server under
  \<open>src/backend/src\<close>. Paths below are relative to that directory. The server runs as one process on SQLite or as several
  replicas on PostgreSQL; what it promises rests on guarded SQL statements, leases with fencing tokens and a few pure decision
  procedures. The library models these and leaves out transport, storage and the processes the server starts.

  \<^bold>\<open>How the code is translated.\<close> A table is a list of rows (\<open>Prelude.thy\<close>: \<open>table\<close>, \<open>db_find\<close>, \<open>db_update\<close>, \<open>db_returning\<close>,
  \<open>db_delete\<close>), a row a \<open>record\<close> of the columns the code reads, with the column names after a prefix. A statement with a
  guarded \<open>WHERE\<close> is an update by predicate; whether it returned rows decides the branch, as in the code. A transaction is a
  function on the state that gives the old state back when it throws; transactions are taken as isolated where no theory splits
  them. Thrown errors and answers are sums or options. Where a handler reads, waits and writes, the row it read is an argument
  of its own (\<open>read\<close>, \<open>before\<close>, \<open>run\<close>), so that everything may have happened in between; longer waits are separate steps. Clocks, fresh ids and tokens, decoded requests, ciphers,
  hashes, the collation of the database, \<open>new URL\<close>, DNS, the time zone database and stored settings are arguments. JSON and the
  JavaScript functions the code uses are in \<open>JsValues.thy\<close>. Concurrency is a step relation over these functions, and the
  properties hold in all its reachable states (\<open>reach\<close>, locale \<open>invariant_system\<close> in \<open>Prelude.thy\<close>).

  \<^bold>\<open>Components, the theories that model them and the source.\<close>

  \<^item> Run life cycle. \<open>RunStatus.thy\<close>: statuses and \<open>EDGES\<close> of \<open>lib/run-status.ts\<close>, the phases of \<open>worker/phases.ts\<close>, the lists of
    \<open>lib/utils.ts\<close>. Lemmas: what every path through the table passes, and that a run that is not taken back makes at most 27
    transitions.
  \<^item> Run execution lease. \<open>ExecutionLease.thy\<close> and \<open>LeaseSafety.thy\<close>: the owner columns of runs and workspaces and every statement of
    \<open>lib/execution-lease.ts\<close>; steps with stale reads and any database times up to the present. \<open>LeaseHolder.thy\<close>: the executor's side with
    its own clock, the renewal timer and \<open>lib/lease-deadline.ts\<close>. Lemmas: exclusion, fencing, linearization of the claim.
  \<^item> Capacity and queue. \<open>ResourceBudgets.thy\<close>, \<open>BudgetSafety.thy\<close>: \<open>lib/resource-budgets.ts\<close>. \<open>JobPayloads.thy\<close>: the payload parsers of
    \<open>lib/validation.ts\<close>. \<open>DurableJobs.thy\<close>, \<open>JobSafety.thy\<close>, \<open>JobClaims.thy\<close>: \<open>lib/durable-jobs.ts\<close>, whose claim retries 10 times, as
    in the code, and calls the selection of the budgets. \<open>Outbox.thy\<close>, \<open>OutboxSafety.thy\<close>: \<open>lib/outbox.ts\<close>, whose events are
    delivered by durable jobs.
  \<^item> Who writes a run. \<open>RunActions.thy\<close>: \<open>updateRunStatus\<close> and the queue of \<open>worker.ts\<close> and the operator actions of
    \<open>routes/runs.ts\<close>. \<open>RunActionSafety.thy\<close>: all of them in any order, with reads as old as they like. \<open>ApplyGate.thy\<close>: maintenance windows,
    the gate before an apply and the approval webhook (\<open>lib/operations.ts\<close>).
  \<^item> State. \<open>Secrets.thy\<close>: \<open>lib/secrets.ts\<close>. \<open>StatePayloads.thy\<close>: state documents and the output index. \<open>StateVersions.thy\<close>,
    \<open>StateWriters.thy\<close>: reservations, uploads, rollback, recovery, deletion and the workspace lock (\<open>routes/state-versions.ts\<close>,
    \<open>lib/state-reservations.ts\<close>, \<open>lib/state-serial.ts\<close> with its three attempts, \<open>lib/commands/state-version.ts\<close>,
    \<open>routes/workspaces.ts\<close>). \<open>Retention.thy\<close>: garbage collection. \<open>StateSafety.thy\<close> runs them together; \<open>StateCommits.thy\<close> and
    \<open>RetentionSafety.thy\<close> hold what single writers promise.
  \<^item> Policies. \<open>PolicyGate.thy\<close>, \<open>PolicySafety.thy\<close>: which policy sets apply, the evaluation by the worker and by the agent, the
    gate and the override.
  \<^item> Agents. \<open>AgentProtocol.thy\<close>: negotiation and limits. \<open>AgentJobs.thy\<close>: claim, delivery, logs, completion, recovery, cancellation
    (\<open>lib/agent-jobs.ts\<close>, \<open>routes/agents.ts\<close>, \<open>routes/agent-api.ts\<close>). \<open>AgentSafety.thy\<close>, \<open>AgentExclusion.thy\<close>: the
    operations interleaved, a claim statement by statement. \<open>AgentCompletion.thy\<close>: what a completion publishes.
  \<^item> Access. \<open>TokenScopes.thy\<close>, \<open>Permissions.thy\<close>, \<open>Authorization.thy\<close>, \<open>AuthorizationSafety.thy\<close>: the permission checks of
    \<open>lib/utils.ts\<close> over the membership and grant rows.
  \<^item> Variables. \<open>Variables.thy\<close>, \<open>VariableSafety.thy\<close>: the precedence of variable sets (\<open>lib/variable-set-precedence.ts\<close>), the effective
    variables of the API and of the worker (\<open>lib/effective-variables.ts\<close>, \<open>worker.ts\<close>), the environment of a run and of an agent and
    the files of Terraform variables (\<open>lib/run-variables.ts\<close>, \<open>lib/tfvars.ts\<close>, \<open>lib/agent-api.ts\<close>).
  \<^item> Login. \<open>Challenges.thy\<close>: \<open>lib/sso-challenges.ts\<close>, \<open>lib/mfa-challenge.ts\<close>. \<open>LoginGuards.thy\<close>: lockout and both rate limiters.
    \<open>BrowserSessions.thy\<close>, \<open>SessionSafety.thy\<close>: refresh tokens, their rotation and replay, revocation and the freshness of access tokens
    (\<open>routes/accounts.ts\<close>, \<open>auth.ts\<close>), each request a sequence of the interleaved steps.
  \<^item> Replicas. \<open>NamedLocks.thy\<close>: \<open>lib/db-lock.ts\<close>, \<open>lib/registry-sync-lease.ts\<close>. \<open>EventBus.thy\<close>: \<open>lib/event-bus.ts\<close>.
    \<open>Idempotency.thy\<close>: \<open>lib/idempotency.ts\<close>. \<open>Coordinator.thy\<close>: the election, \<open>lib/control-plane-coordinator.ts\<close>, with a local clock
    per process. \<open>NodeDrain.thy\<close>: \<open>lib/node-drain.ts\<close>, on top of the coordinator.
  \<^item> Addresses. \<open>UrlSafety.thy\<close>: outbound URLs and client addresses on 32-bit words (\<open>lib/url-safety.ts\<close>, \<open>lib/client-ip.ts\<close>).

  \<^bold>\<open>Interfaces.\<close> \<open>comparator\<close> and \<open>key_comparator\<close> are what \<open>js_sort\<close> needs of a comparison; they are interpreted on the
  comparisons of jobs, budgets, policy checks and state versions. \<open>lease_store\<close> is a table of named leases, interpreted on both
  lock modules; \<open>window_counter\<close> a rate limit, interpreted on the shared and the local one; \<open>invariant_system\<close> and \<open>monotone_system\<close> carry
  every interleaving.

  \<^bold>\<open>Bounds and fuel.\<close> Loops of the code with a bound keep it: 10 attempts of a job claim, 3 of a serial, 8 days of minutes
  (11521) in the search for a maintenance window, for which seven days are shown to be enough when zones have a fixed
  offset. Loops over pages and cursors are recursive functions whose measure is proved to decrease; \<open>catchUpPersistedEvents\<close> is
  shown to end.

  \<^bold>\<open>What the step relations assume.\<close> Each is stated where the relation is defined; these conditions describe the environment,
  not the conclusion. Rows read earlier are rows that existed. Database times of statements do not lie in the future.
  In \<open>agent_step\<close> nobody completes, recovers or gives back a job whose claim is still being carried out, and other writers
  keep a run past its plan while an apply job of it is outstanding. In \<open>coord_step\<close> a process has one election at a time, it is
  resumed or started and loses a failed activation only when none is in flight, and the statement of a resignation comes
  while it is suspended. In \<open>drain_step\<close> no cancellation arrives while a completion is being recorded. The lemmas
  \<open>Coordinator.resume_during_election_makes_two_leaders\<close> and \<open>NodeDrain.cancel_during_completion_drains_busy_node\<close> run the code
  where the last two fail.

  \<^bold>\<open>Where the code falls short.\<close> Lemmas on concrete states show what the definitions, and so the code, do against the
  intention: among them \<open>AuthorizationSafety.authorization_gaps\<close>, \<open>JobClaims.crash_loop_not_limited\<close>,
  \<open>OutboxSafety.delivered_event_can_be_reopened\<close> and \<open>OutboxSafety.dead_letter_retry_can_strand\<close>,
  \<open>RunActionSafety.queue_refusal_has_effects\<close>, \<open>StateCommits.taken_serial_blocks_uploads\<close>,
  \<open>AgentExclusion.requeued_run_never_dispatched\<close>, \<open>AgentExclusion.pool_deletion_frees_foreign_apply\<close>,
  \<open>ApplyGate.webhook_ignores_pool_grants\<close>, \<open>UrlSafety.zero_block_not_covered\<close> and \<open>VariableSafety.template_not_escaped\<close>.

  \<^bold>\<open>Not modelled.\<close> The execution of plans and applies in sandboxes, stacks, the registry's archives, handlers that edit a single row
  after a permission check (teams, projects, users, the editing of variables), version control providers, single sign-on protocols,
  notification transport, backups and migrations, settings and start-up, logs and metrics, the MCP front end, administration, the
  frontend and the build tools: they are input and output around outside services or processes, or views of the modelled tables.
\<close>

end
